(* ===== verification/Sq_Prelude.thy ===== *)
theory Sq_Prelude
  imports Main "HOL-Library.Word"
begin

text \<open>
  The prelude of the development: Rust's results and panics as a sum type, the
  sequencing combinators that stand for the \<open>?\<close> operator, slices and fixed arrays
  as lists, \<open>usize\<close> arithmetic, and little-endian byte order.

  \<^item> \<open>('e, 'a) res\<close> is \<open>Result<'a, 'e>\<close> with one more failure, \<open>Panic\<close>, for the
    places where the Rust code would panic or abort (an index out of range, unbounded
    recursion).  A theorem that a call returns \<open>Inr\<close> or \<open>Inl (Err e)\<close> therefore also
    says that it does not panic.
  \<^item> \<open>('s, 'a) exec\<close> is a \<open>&mut self\<close> method returning a \<open>Result\<close>: the new state is
    returned in the error case as well, since Rust keeps the mutations made before an
    early return.
\<close>

unbundle bit_operations_syntax

section \<open>Machine integers\<close>

type_synonym u8 = "8 word"
type_synonym u16 = "16 word"
type_synonym u32 = "32 word"
type_synonym u64 = "64 word"
type_synonym i32 = "32 word" \<comment> \<open>two's complement, read by \<open>sint\<close>\<close>
type_synonym i64 = "64 word" \<comment> \<open>two's complement, read by \<open>sint\<close>\<close>

text \<open>A Rust \<open>str\<close> is its UTF-8 bytes.\<close>

type_synonym rstr = "u8 list"

definition lit :: "string \<Rightarrow> rstr" where
  "lit s = map of_char s"

lemma lit_simps [simp]:
  "lit [] = []" "lit (c # cs) = of_char c # lit cs"
  by (simp_all add: lit_def)

text \<open>\<open>usize\<close> is a natural number, its range written out where the code checks it.\<close>

definition usize_max :: nat where
  "usize_max = 18446744073709551615"

definition checked_add :: "nat \<Rightarrow> nat \<Rightarrow> nat option" where
  "checked_add a b = (if a + b \<le> usize_max then Some (a + b) else None)"

lemma checked_add_Some [simp]: "a + b \<le> usize_max \<Longrightarrow> checked_add a b = Some (a + b)"
  by (simp add: checked_add_def)

lemma checked_add_SomeD: "checked_add a b = Some c \<Longrightarrow> c = a + b \<and> c \<le> usize_max"
  by (simp add: checked_add_def split: if_splits)

lemma unat_u16_bound [simp]: "unat (w :: u16) \<le> 65535"
  using unsigned_less [of w, where ?'a = nat] by simp

lemma unat_u32_bound [simp]: "unat (w :: u32) \<le> 4294967295"
  using unsigned_less [of w, where ?'a = nat] by simp

lemma unat_u8_bound [simp]: "unat (w :: u8) \<le> 255"
  using unsigned_less [of w, where ?'a = nat] by simp

section \<open>Results and panics\<close>

datatype 'e fail = Err 'e | Panic

type_synonym ('e, 'a) res = "'e fail + 'a"

definition and_then :: "'f + 'a \<Rightarrow> ('a \<Rightarrow> 'f + 'b) \<Rightarrow> 'f + 'b" where
  "and_then r f = (case r of Inl e \<Rightarrow> Inl e | Inr v \<Rightarrow> f v)"

lemma and_then_simps [simp]:
  "and_then (Inl e) f = Inl e" "and_then (Inr v) f = f v"
  by (simp_all add: and_then_def)

lemma and_then_cong [fundef_cong]:
  "r = r' \<Longrightarrow> (\<And>v. r' = Inr v \<Longrightarrow> f v = g v) \<Longrightarrow> and_then r f = and_then r' g"
  by (simp add: and_then_def split: sum.splits)

lemma and_then_eq_Inr:
  "and_then r f = Inr y \<longleftrightarrow> (\<exists>v. r = Inr v \<and> f v = Inr y)"
  by (cases r) auto

lemma and_then_eq_Inl:
  "and_then r f = Inl e \<longleftrightarrow> r = Inl e \<or> (\<exists>v. r = Inr v \<and> f v = Inl e)"
  by (cases r) auto

lemma and_then_InrE:
  assumes "and_then r f = Inr y"
  obtains v where "r = Inr v" and "f v = Inr y"
  using assms by (auto simp: and_then_eq_Inr)

definition ok_or :: "'e \<Rightarrow> 'a option \<Rightarrow> ('e, 'a) res" where
  "ok_or e x = (case x of None \<Rightarrow> Inl (Err e) | Some v \<Rightarrow> Inr v)"

lemma ok_or_simps [simp]: "ok_or e None = Inl (Err e)" "ok_or e (Some v) = Inr v"
  by (simp_all add: ok_or_def)

lemma ok_or_eq_Inr [simp]: "ok_or e x = Inr v \<longleftrightarrow> x = Some v"
  by (cases x) simp_all

lemma ok_or_eq_Inl: "ok_or e x = Inl f \<longleftrightarrow> x = None \<and> f = Err e"
  by (cases x) auto

text \<open>\<open>map_err\<close> changes the error and leaves a panic alone.\<close>

definition map_err :: "('e \<Rightarrow> 'f) \<Rightarrow> ('e, 'a) res \<Rightarrow> ('f, 'a) res" where
  "map_err h r = (case r of Inl (Err e) \<Rightarrow> Inl (Err (h e)) | Inl Panic \<Rightarrow> Inl Panic | Inr v \<Rightarrow> Inr v)"

lemma map_err_simps [simp]:
  "map_err h (Inr v) = Inr v" "map_err h (Inl (Err e)) = Inl (Err (h e))"
  "map_err h (Inl Panic) = Inl Panic"
  by (simp_all add: map_err_def)

lemma map_err_eq_Inr [simp]: "map_err h r = Inr v \<longleftrightarrow> r = Inr v"
  by (auto simp: map_err_def split: sum.splits fail.splits)

text \<open>
  That a computation does not panic, proved part by part: \<open>auto intro!: no_panic\<close> walks
  through a sequence once its definition is unfolded.
\<close>

named_theorems no_panic

lemma and_then_no_panic [no_panic]:
  "r \<noteq> Inl Panic \<Longrightarrow> (\<And>v. r = Inr v \<Longrightarrow> f v \<noteq> Inl Panic) \<Longrightarrow> and_then r f \<noteq> Inl Panic"
  by (auto simp: and_then_eq_Inl)

lemma basic_no_panic [no_panic]: "Inr v \<noteq> Inl Panic" "Inl (Err e) \<noteq> Inl Panic" "ok_or e x \<noteq> Inl Panic"
  by (simp_all add: ok_or_def split: option.splits)

declare basic_no_panic [simp]

lemma if_no_panic [no_panic]:
  "(b \<Longrightarrow> r \<noteq> Inl Panic) \<Longrightarrow> (\<not> b \<Longrightarrow> r' \<noteq> Inl Panic) \<Longrightarrow> (if b then r else r') \<noteq> Inl Panic"
  by simp

lemma option_no_panic [no_panic]:
  "(x = None \<Longrightarrow> r \<noteq> Inl Panic) \<Longrightarrow> (\<And>v. x = Some v \<Longrightarrow> f v \<noteq> Inl Panic) \<Longrightarrow>
   (case x of None \<Rightarrow> r | Some v \<Rightarrow> f v) \<noteq> Inl Panic"
  by (simp split: option.splits)

lemma prod_no_panic [no_panic]:
  "(\<And>a b. x = (a, b) \<Longrightarrow> f a b \<noteq> Inl Panic) \<Longrightarrow> (case x of (a, b) \<Rightarrow> f a b) \<noteq> Inl Panic"
  by (cases x) simp

section \<open>State with early return\<close>

type_synonym ('e, 's, 'a) exec = "'s \<Rightarrow> ('e, 'a) res \<times> 's"

definition ret :: "'a \<Rightarrow> ('e, 's, 'a) exec" where
  "ret v s = (Inr v, s)"

definition throw :: "'e \<Rightarrow> ('e, 's, 'a) exec" where
  "throw e s = (Inl (Err e), s)"

definition bind_exec :: "('e, 's, 'a) exec \<Rightarrow> ('a \<Rightarrow> ('e, 's, 'b) exec) \<Rightarrow> ('e, 's, 'b) exec" where
  "bind_exec m f s = (case m s of (Inl e, t) \<Rightarrow> (Inl e, t) | (Inr v, t) \<Rightarrow> f v t)"

text \<open>A result computed from the state without changing it, and a pure update.\<close>

definition lift :: "('e, 'a) res \<Rightarrow> ('e, 's, 'a) exec" where
  "lift r s = (r, s)"

definition gets :: "('s \<Rightarrow> 'a) \<Rightarrow> ('e, 's, 'a) exec" where
  "gets f s = (Inr (f s), s)"

definition modify :: "('s \<Rightarrow> 's) \<Rightarrow> ('e, 's, unit) exec" where
  "modify f s = (Inr (), f s)"

lemma exec_simps [simp]:
  "ret v s = (Inr v, s)" "throw e s = (Inl (Err e), s)" "lift r s = (r, s)"
  "gets f s = (Inr (f s), s)" "modify g s = (Inr (), g s)"
  by (simp_all add: ret_def throw_def lift_def gets_def modify_def)

lemma bind_exec_Inr: "m s = (Inr v, t) \<Longrightarrow> bind_exec m f s = f v t"
  by (simp add: bind_exec_def)

lemma bind_exec_Inl: "m s = (Inl e, t) \<Longrightarrow> bind_exec m f s = (Inl e, t)"
  by (simp add: bind_exec_def)

lemma bind_exec_simps [simp]:
  "bind_exec (ret v) f s = f v s"
  "bind_exec (throw e) f' s = (Inl (Err e), s)"
  "bind_exec (lift (Inr v)) f s = f v s"
  "bind_exec (lift (Inl e')) f s = (Inl e', s)"
  "bind_exec (gets h) f s = f (h s) s"
  "bind_exec (modify g) k s = k () (g s)"
  by (simp_all add: bind_exec_def)

lemma bind_exec_assoc: "bind_exec (bind_exec m f) g = bind_exec m (\<lambda>v. bind_exec (f v) g)"
  by (auto simp: fun_eq_iff bind_exec_def split: prod.splits sum.splits)

text \<open>
  A property of the state kept by every outcome of a method (errors included) is kept by
  a sequence when each part keeps it.
\<close>

definition keeps :: "('s \<Rightarrow> bool) \<Rightarrow> ('e, 's, 'a) exec \<Rightarrow> bool" where
  "keeps P m \<longleftrightarrow> (\<forall>s. P s \<longrightarrow> P (snd (m s)))"

named_theorems keeps_intros

lemma keepsI: "(\<And>s. P s \<Longrightarrow> P (snd (m s))) \<Longrightarrow> keeps P m"
  by (simp add: keeps_def)

lemma keepsD: "keeps P m \<Longrightarrow> P s \<Longrightarrow> P (snd (m s))"
  by (simp add: keeps_def)

lemma keeps_bind [keeps_intros]:
  assumes "keeps P m" and "\<And>v. keeps P (f v)"
  shows "keeps P (bind_exec m f)"
proof (rule keepsI)
  fix s assume "P s"
  obtain r t where m: "m s = (r, t)" by (cases "m s")
  with assms(1) \<open>P s\<close> have "P t" by (auto dest: keepsD)
  with m assms(2) show "P (snd (bind_exec m f s))"
    by (cases r) (auto simp: bind_exec_def dest: keepsD)
qed

lemma keeps_basic [keeps_intros]:
  "keeps P (ret v)" "keeps P (throw e)" "keeps P (lift r)" "keeps P (gets f)"
  by (simp_all add: keeps_def)

lemma keeps_modify: "(\<And>s. P s \<Longrightarrow> P (g s)) \<Longrightarrow> keeps P (modify g)"
  by (simp add: keeps_def)

lemma keeps_if [keeps_intros]:
  "(b \<Longrightarrow> keeps P m) \<Longrightarrow> (\<not> b \<Longrightarrow> keeps P n) \<Longrightarrow> keeps P (if b then m else n)"
  by simp

lemma keeps_case_option [keeps_intros]:
  "(x = None \<Longrightarrow> keeps P m) \<Longrightarrow> (\<And>v. x = Some v \<Longrightarrow> keeps P (f v)) \<Longrightarrow>
   keeps P (case x of None \<Rightarrow> m | Some v \<Rightarrow> f v)"
  by (cases x) simp_all

text \<open>
  Total correctness of a method: from a state satisfying \<open>P\<close> it does not panic, a result
  \<open>v\<close> satisfies \<open>Q v\<close> with the new state, and an error \<open>e\<close> satisfies \<open>E e\<close>.
\<close>

definition triple ::
  "('s \<Rightarrow> bool) \<Rightarrow> ('e, 's, 'a) exec \<Rightarrow> ('a \<Rightarrow> 's \<Rightarrow> bool) \<Rightarrow> ('e \<Rightarrow> 's \<Rightarrow> bool) \<Rightarrow> bool" where
  "triple P m Q E \<longleftrightarrow> (\<forall>s. P s \<longrightarrow>
     (case m s of (Inr v, t) \<Rightarrow> Q v t | (Inl (Err e), t) \<Rightarrow> E e t | (Inl Panic, t) \<Rightarrow> False))"

named_theorems triple_intros

lemma tripleI:
  assumes "\<And>s v t. P s \<Longrightarrow> m s = (Inr v, t) \<Longrightarrow> Q v t"
    and "\<And>s e t. P s \<Longrightarrow> m s = (Inl (Err e), t) \<Longrightarrow> E e t"
    and "\<And>s t. P s \<Longrightarrow> m s \<noteq> (Inl Panic, t)"
  shows "triple P m Q E"
  using assms by (auto simp: triple_def split: prod.splits sum.splits fail.splits)

lemma triple_InrD: "triple P m Q E \<Longrightarrow> P s \<Longrightarrow> m s = (Inr v, t) \<Longrightarrow> Q v t"
  by (auto simp: triple_def)

lemma triple_ErrD: "triple P m Q E \<Longrightarrow> P s \<Longrightarrow> m s = (Inl (Err e), t) \<Longrightarrow> E e t"
  by (auto simp: triple_def)

lemma triple_no_panic: "triple P m Q E \<Longrightarrow> P s \<Longrightarrow> fst (m s) \<noteq> Inl Panic"
  by (cases "m s") (fastforce simp: triple_def)

lemma triple_weaken:
  assumes "triple P m Q E" and "\<And>s. P' s \<Longrightarrow> P s" and "\<And>v s. Q v s \<Longrightarrow> Q' v s"
    and "\<And>e s. E e s \<Longrightarrow> E' e s"
  shows "triple P' m Q' E'"
  using assms unfolding triple_def by (fastforce split: prod.splits sum.splits fail.splits)

lemma triple_bind:
  assumes "triple P m R E" and "\<And>v. triple (R v) (f v) Q E"
  shows "triple P (bind_exec m f) Q E"
proof (rule tripleI)
  fix s assume s: "P s"
  obtain r t where m: "m s = (r, t)" by (cases "m s")
  note facts = assms(1) [THEN triple_InrD, OF s] assms(1) [THEN triple_ErrD, OF s]
    assms(1) [THEN triple_no_panic, OF s] m
  {
    fix v u assume "bind_exec m f s = (Inr v, u)"
    with facts show "Q v u"
      by (cases r) (auto simp: bind_exec_def intro: triple_InrD [OF assms(2)])
  next
    fix e u assume "bind_exec m f s = (Inl (Err e), u)"
    with facts show "E e u"
      by (cases r) (auto simp: bind_exec_def intro: triple_ErrD [OF assms(2)])
  next
    fix u show "bind_exec m f s \<noteq> (Inl Panic, u)"
      using facts triple_no_panic [OF assms(2)] by (cases r) (force simp: bind_exec_def)+
  }
qed

text \<open>The rules for an invariant kept by results and errors alike.\<close>

lemma triple_ret [triple_intros]: "(\<And>s. P s \<Longrightarrow> Q v s) \<Longrightarrow> triple P (ret v) Q E"
  by (auto simp: triple_def)

lemma triple_throw [triple_intros]: "(\<And>s. P s \<Longrightarrow> E e s) \<Longrightarrow> triple P (throw e) Q E"
  by (auto simp: triple_def)

lemma triple_gets [triple_intros]: "(\<And>s. P s \<Longrightarrow> Q (g s) s) \<Longrightarrow> triple P (gets g) Q E"
  by (auto simp: triple_def)

lemma triple_modify [triple_intros]: "(\<And>s. P s \<Longrightarrow> Q () (h s)) \<Longrightarrow> triple P (modify h) Q E"
  by (auto simp: triple_def)

lemma triple_lift [triple_intros]:
  assumes "r \<noteq> Inl Panic" and "\<And>v s. P s \<Longrightarrow> r = Inr v \<Longrightarrow> Q v s"
    and "\<And>e s. P s \<Longrightarrow> r = Inl (Err e) \<Longrightarrow> E e s"
  shows "triple P (lift r) Q E"
  using assms by (auto simp: triple_def split: sum.splits fail.splits)

lemma triple_if [triple_intros]:
  "(b \<Longrightarrow> triple P m Q E) \<Longrightarrow> (\<not> b \<Longrightarrow> triple P n Q E) \<Longrightarrow> triple P (if b then m else n) Q E"
  by simp

lemma triple_option [triple_intros]:
  "(x = None \<Longrightarrow> triple P m Q E) \<Longrightarrow> (\<And>v. x = Some v \<Longrightarrow> triple P (f v) Q E) \<Longrightarrow>
   triple P (case x of None \<Rightarrow> m | Some v \<Rightarrow> f v) Q E"
  by (simp split: option.splits)

lemma triple_prod [triple_intros]:
  "(\<And>a b. x = (a, b) \<Longrightarrow> triple P (f a b) Q E) \<Longrightarrow> triple P (case x of (a, b) \<Rightarrow> f a b) Q E"
  by (cases x) simp

lemma triple_pure:
  "(\<And>s. P s \<Longrightarrow> b) \<Longrightarrow> (b \<Longrightarrow> triple P m Q E) \<Longrightarrow> triple P m Q E"
  by (fastforce simp: triple_def)

text \<open>A property kept by every outcome, with no panic.\<close>

definition steady :: "('s \<Rightarrow> bool) \<Rightarrow> ('e, 's, 'a) exec \<Rightarrow> bool" where
  "steady P m \<longleftrightarrow> triple P m (\<lambda>_. P) (\<lambda>_. P)"

lemma steady_triple: "steady P m \<Longrightarrow> triple P m (\<lambda>_. P) (\<lambda>_. P)"
  by (simp add: steady_def)

lemma steadyI:
  assumes "\<And>s. P s \<Longrightarrow> case m s of (r, t) \<Rightarrow> r \<noteq> Inl Panic \<and> P t"
  shows "steady P m"
  unfolding steady_def triple_def
proof (intro allI impI)
  fix s assume "P s"
  from assms [OF this] show "case m s of (Inr v, t) \<Rightarrow> P t | (Inl (Err e), t) \<Rightarrow> P t | (Inl Panic, t) \<Rightarrow> False"
    by (simp split: prod.splits sum.splits fail.splits)
qed

lemma steadyD: "steady P m \<Longrightarrow> P s \<Longrightarrow> m s = (r, t) \<Longrightarrow> r \<noteq> Inl Panic \<and> P t"
  by (cases r; cases "projl r") (auto simp: steady_def triple_def)

named_theorems steady_intros

lemma steady_bind [steady_intros]:
  "steady P m \<Longrightarrow> (\<And>v. steady P (f v)) \<Longrightarrow> steady P (bind_exec m f)"
  unfolding steady_def by (rule triple_bind)

lemma steady_basic [steady_intros]:
  "steady P (ret v)" "steady P (throw e)" "steady P (gets f)"
  by (simp_all add: steady_def triple_def)

lemma steady_lift [steady_intros]: "r \<noteq> Inl Panic \<Longrightarrow> steady P (lift r)"
  by (auto simp: steady_def triple_def split: sum.splits fail.splits)

lemma steady_if [steady_intros]:
  "(b \<Longrightarrow> steady P m) \<Longrightarrow> (\<not> b \<Longrightarrow> steady P n) \<Longrightarrow> steady P (if b then m else n)"
  by simp

lemma steady_option [steady_intros]:
  "(x = None \<Longrightarrow> steady P m) \<Longrightarrow> (\<And>v. x = Some v \<Longrightarrow> steady P (f v)) \<Longrightarrow>
   steady P (case x of None \<Rightarrow> m | Some v \<Rightarrow> f v)"
  by (cases x) simp_all

lemma steady_prod [steady_intros]:
  "(\<And>a b. x = (a, b) \<Longrightarrow> steady P (f a b)) \<Longrightarrow> steady P (case x of (a, b) \<Rightarrow> f a b)"
  by (cases x) simp

lemma steady_Let [steady_intros]: "(\<And>x. x = e \<Longrightarrow> steady P (f x)) \<Longrightarrow> steady P (let x = e in f x)"
  by simp

text \<open>A result known to satisfy \<open>Q\<close> may be used by what follows.\<close>

lemma steady_bind_with:
  assumes "triple P m (\<lambda>v s. P s \<and> Q v) (\<lambda>_. P)" and "\<And>v. Q v \<Longrightarrow> steady P (f v)"
  shows "steady P (bind_exec m f)"
  unfolding steady_def
proof (rule triple_bind [OF assms(1)])
  show "triple (\<lambda>s. P s \<and> Q v) (f v) (\<lambda>_. P) (\<lambda>_. P)" for v
    by (cases "Q v") (use assms(2) [of v] in \<open>auto simp: steady_def elim: triple_weaken\<close>,
      simp add: triple_def)
qed

text \<open>A result of a sequence, taken apart.\<close>

lemma bind_exec_eq_Inr:
  "fst (bind_exec m f s) = Inr y \<longleftrightarrow> (\<exists>v t. m s = (Inr v, t) \<and> fst (f v t) = Inr y)"
  by (cases "m s"; cases "fst (m s)") (auto simp: bind_exec_def)

lemma bind_exec_InrD:
  "bind_exec m f s = (Inr y, t) \<Longrightarrow> \<exists>v u. m s = (Inr v, u) \<and> f v u = (Inr y, t)"
  by (cases "m s"; cases "fst (m s)") (auto simp: bind_exec_def)

section \<open>Slices and arrays\<close>

text \<open>\<open>get(i)\<close> and \<open>get(a..b)\<close> of a slice, and \<open>copy_from_slice\<close> into a range of an array.\<close>

definition get_at :: "'a list \<Rightarrow> nat \<Rightarrow> 'a option" where
  "get_at xs i = (if i < length xs then Some (xs ! i) else None)"

definition get_range :: "'a list \<Rightarrow> nat \<Rightarrow> nat \<Rightarrow> 'a list option" where
  "get_range xs a b = (if a \<le> b \<and> b \<le> length xs then Some (take (b - a) (drop a xs)) else None)"

definition splice :: "'a list \<Rightarrow> nat \<Rightarrow> 'a list \<Rightarrow> 'a list" where
  "splice xs i ys = take i xs @ ys @ drop (i + length ys) xs"

text \<open>\<open>&xs[..n]\<close>, which panics when the slice is too short.\<close>

definition slice_to :: "'a list \<Rightarrow> nat \<Rightarrow> ('e, 'a list) res" where
  "slice_to xs n = (if n \<le> length xs then Inr (take n xs) else Inl Panic)"

lemma slice_to_simps [simp]: "n \<le> length xs \<Longrightarrow> slice_to xs n = Inr (take n xs)"
  by (simp add: slice_to_def)

lemma get_at_simps:
  "i < length xs \<Longrightarrow> get_at xs i = Some (xs ! i)" "\<not> i < length xs \<Longrightarrow> get_at xs i = None"
  by (simp_all add: get_at_def)

lemma get_at_eq_Some: "get_at xs i = Some v \<longleftrightarrow> i < length xs \<and> xs ! i = v"
  by (auto simp: get_at_def)

lemma get_at_append_left [simp]: "i < length xs \<Longrightarrow> get_at (xs @ ys) i = get_at xs i"
  by (simp add: get_at_def nth_append)

lemma get_at_append_right: "get_at (xs @ ys) (length xs + i) = get_at ys i"
  by (simp add: get_at_def nth_append)

lemma get_range_eq_Some:
  "get_range xs a b = Some v \<longleftrightarrow> a \<le> b \<and> b \<le> length xs \<and> v = take (b - a) (drop a xs)"
  by (auto simp: get_range_def)

lemma get_range_length: "get_range xs a b = Some v \<Longrightarrow> length v = b - a"
  by (auto simp: get_range_eq_Some)

lemma get_range_middle:
  "a = length xs \<Longrightarrow> b = a + length ys \<Longrightarrow> get_range (xs @ ys @ zs) a b = Some ys"
  by (simp add: get_range_def)

lemma get_range_append_left:
  "b \<le> length xs \<Longrightarrow> get_range (xs @ ys) a b = get_range xs a b"
  by (simp add: get_range_def take_append drop_append)

lemma length_splice [simp]: "i + length ys \<le> length xs \<Longrightarrow> length (splice xs i ys) = length xs"
  by (simp add: splice_def)

lemma splice_before: "b \<le> i \<Longrightarrow> i + length ys \<le> length xs \<Longrightarrow>
  get_range (splice xs i ys) a b = get_range xs a b"
  by (auto simp: splice_def get_range_def take_append drop_append min_def drop_take)

lemma splice_at: "i + length ys \<le> length xs \<Longrightarrow> b = i + length ys \<Longrightarrow>
  get_range (splice xs i ys) i b = Some ys"
  by (simp add: splice_def get_range_def)

lemma take_splice: "i + length ys \<le> length xs \<Longrightarrow>
  take (i + length ys) (splice xs i ys) = take i xs @ ys"
  by (simp add: splice_def)

section \<open>Little-endian byte order\<close>

text \<open>\<open>from_le_bytes\<close> and \<open>to_le_bytes\<close>, for every width.\<close>

primrec of_le :: "u8 list \<Rightarrow> 'a::len word" where
  "of_le [] = 0"
| "of_le (b # bs) = ucast b OR push_bit 8 (of_le bs)"

primrec to_le :: "nat \<Rightarrow> 'a::len word \<Rightarrow> u8 list" where
  "to_le 0 w = []"
| "to_le (Suc n) w = ucast w # to_le n (drop_bit 8 w)"

lemma length_to_le [simp]: "length (to_le n w) = n"
  by (induction n arbitrary: w) simp_all

lemma of_le_to_le_take_bit: "of_le (to_le n w) = take_bit (8 * n) w"
proof (induction n arbitrary: w)
  case 0
  then show ?case by simp
next
  case (Suc n)
  show ?case
    by (rule bit_word_eqI) (auto simp: Suc.IH bit_simps)
qed

lemma of_le_to_le: "LENGTH('a) \<le> 8 * n \<Longrightarrow> of_le (to_le n (w :: 'a::len word)) = w"
  unfolding of_le_to_le_take_bit by (rule bit_word_eqI) (auto simp: bit_simps)

lemma to_le_of_le: "8 * length bs \<le> LENGTH('a) \<Longrightarrow> to_le (length bs) (of_le bs :: 'a::len word) = bs"
proof (induction bs)
  case Nil
  then show ?case by simp
next
  case (Cons b bs)
  have b: "ucast (ucast b OR push_bit 8 (of_le bs) :: 'a word) = b"
    using Cons.prems by (intro bit_word_eqI) (auto simp: bit_simps)
  have lim: "8 * length bs + 8 \<le> LENGTH('a)" using Cons.prems by simp
  have hi: "take_bit (8 * length bs) (drop_bit 8 (ucast b OR push_bit 8 (of_le bs) :: 'a word)) =
      take_bit (8 * length bs) (of_le bs)"
    using lim by (intro bit_word_eqI) (auto simp: bit_simps dest: bit_imp_le_length)
  have tl: "to_le n (take_bit (8 * n) w) = to_le n w" for n and w :: "'a word"
  proof (induction n arbitrary: w)
    case 0
    then show ?case by simp
  next
    case (Suc n)
    have "drop_bit 8 (take_bit (8 * Suc n) w) = take_bit (8 * n) (drop_bit 8 w)"
      by (rule bit_word_eqI) (auto simp: bit_simps)
    moreover have "ucast (take_bit (8 * Suc n) w) = (ucast w :: u8)"
      by (rule bit_word_eqI) (auto simp: bit_simps)
    ultimately show ?case by (simp add: Suc.IH)
  qed
  have "to_le (length bs) (drop_bit 8 (ucast b OR push_bit 8 (of_le bs) :: 'a word)) = bs"
    using tl [of "length bs"] hi Cons.IH lim by (metis add_leD1)
  with b show ?case by simp
qed

lemma of_le_take_bit: "take_bit (8 * length bs) (of_le bs :: 'a::len word) = of_le bs"
proof (induction bs)
  case Nil
  then show ?case by simp
next
  case (Cons b bs)
  then have *: "bit (of_le bs :: 'a word) k \<Longrightarrow> k < 8 * length bs" for k
    by (metis bit_take_bit_iff)
  show ?case
    by (rule bit_word_eqI) (auto simp: bit_simps dest: * bit_imp_le_length)
qed

text \<open>The bytes of a \<open>Word\<close> of a given width, as the code writes them.\<close>

abbreviation u16_le :: "u16 \<Rightarrow> u8 list" where "u16_le \<equiv> to_le 2"
abbreviation u32_le :: "u32 \<Rightarrow> u8 list" where "u32_le \<equiv> to_le 4"
abbreviation u64_le :: "u64 \<Rightarrow> u8 list" where "u64_le \<equiv> to_le 8"

lemma of_le_u16_le [simp]: "of_le (u16_le w) = w" by (rule of_le_to_le) simp
lemma of_le_u32_le [simp]: "of_le (u32_le w) = w" by (rule of_le_to_le) simp
lemma of_le_u64_le [simp]: "of_le (u64_le w) = w" by (rule of_le_to_le) simp

end
