(* ===== verification/Sq_Utf8.thy ===== *)
theory Sq_Utf8
  imports Sq_Prelude
begin

text \<open>
  UTF-8 as the Rust standard library defines it for \<open>str\<close>: the validation of
  \<open>str::from_utf8\<close> (the byte ranges of its table, surrogates and overlong forms
  refused), character boundaries, \<open>str::get(a..b)\<close> and \<open>str::find\<close>.  The lemmas show
  that validity splits at character boundaries, so that cutting an occurrence of a valid
  non-empty string out of a valid string always lands on boundaries.
\<close>

section \<open>Validation\<close>

definition utf8_cont :: "u8 \<Rightarrow> bool" where
  "utf8_cont b \<longleftrightarrow> 0x80 \<le> b \<and> b \<le> 0xBF"

text \<open>The second byte allowed after a given lead byte of three or four bytes.\<close>

definition utf8_second3 :: "u8 \<Rightarrow> u8 \<Rightarrow> bool" where
  "utf8_second3 b c \<longleftrightarrow>
     (if b = 0xE0 then 0xA0 \<le> c \<and> c \<le> 0xBF
      else if b = 0xED then 0x80 \<le> c \<and> c \<le> 0x9F
      else utf8_cont c)"

definition utf8_second4 :: "u8 \<Rightarrow> u8 \<Rightarrow> bool" where
  "utf8_second4 b c \<longleftrightarrow>
     (if b = 0xF0 then 0x90 \<le> c \<and> c \<le> 0xBF
      else if b = 0xF4 then 0x80 \<le> c \<and> c \<le> 0x8F
      else utf8_cont c)"

text \<open>The width in bytes of the character a string starts with, if it is well formed.\<close>

fun utf8_width :: "u8 list \<Rightarrow> nat option" where
  "utf8_width [] = None"
| "utf8_width (b # bs) =
     (if b < 0x80 then Some 1
      else if 0xC2 \<le> b \<and> b \<le> 0xDF then
        (case bs of c # _ \<Rightarrow> if utf8_cont c then Some 2 else None | _ \<Rightarrow> None)
      else if 0xE0 \<le> b \<and> b \<le> 0xEF then
        (case bs of c # d # _ \<Rightarrow> if utf8_second3 b c \<and> utf8_cont d then Some 3 else None
         | _ \<Rightarrow> None)
      else if 0xF0 \<le> b \<and> b \<le> 0xF4 then
        (case bs of c # d # e # _ \<Rightarrow>
           if utf8_second4 b c \<and> utf8_cont d \<and> utf8_cont e then Some 4 else None
         | _ \<Rightarrow> None)
      else None)"

lemma utf8_width_bounds:
  "utf8_width bs = Some n \<Longrightarrow> 0 < n \<and> n \<le> length bs"
  by (cases bs) (auto split: if_splits list.splits)

function utf8_valid :: "u8 list \<Rightarrow> bool" where
  "utf8_valid bs =
     (if bs = [] then True
      else case utf8_width bs of None \<Rightarrow> False | Some n \<Rightarrow> utf8_valid (drop n bs))"
  by pat_completeness auto
termination
  by (relation "measure length") (auto dest!: utf8_width_bounds)

declare utf8_valid.simps [simp del]

lemma utf8_valid_Nil [simp]: "utf8_valid []"
  by (subst utf8_valid.simps) simp

lemma utf8_valid_step:
  "utf8_width bs = Some n \<Longrightarrow> utf8_valid bs = utf8_valid (drop n bs)"
  by (cases "bs = []") (simp_all add: utf8_valid.simps [of bs])

lemma utf8_valid_unfold:
  "bs \<noteq> [] \<Longrightarrow> utf8_valid bs \<Longrightarrow> \<exists>n. utf8_width bs = Some n \<and> utf8_valid (drop n bs)"
  by (subst (asm) utf8_valid.simps) (simp split: option.splits)

text \<open>Plain ASCII is valid; the simplifier decides validity of a literal with this.\<close>

lemma utf8_valid_ascii [simp]: "b < 0x80 \<Longrightarrow> utf8_valid (b # bs) = utf8_valid bs"
  using utf8_valid_step [of "b # bs" 1] by simp

text \<open>\<open>str::from_utf8\<close>.\<close>

definition from_utf8 :: "u8 list \<Rightarrow> rstr option" where
  "from_utf8 bs = (if utf8_valid bs then Some bs else None)"

lemma from_utf8_Some [simp]: "from_utf8 bs = Some s \<longleftrightarrow> utf8_valid bs \<and> s = bs"
  by (auto simp: from_utf8_def)

section \<open>Character boundaries\<close>

definition is_char_boundary :: "rstr \<Rightarrow> nat \<Rightarrow> bool" where
  "is_char_boundary s i \<longleftrightarrow> i = 0 \<or> i = length s \<or> (i < length s \<and> \<not> utf8_cont (s ! i))"

text \<open>\<open>str::get(a..b)\<close>.\<close>

definition str_get :: "rstr \<Rightarrow> nat \<Rightarrow> nat \<Rightarrow> rstr option" where
  "str_get s a b =
     (if is_char_boundary s a \<and> is_char_boundary s b then get_range s a b else None)"

text \<open>\<open>str::find\<close>: the offset of the first occurrence.\<close>

fun str_find :: "rstr \<Rightarrow> rstr \<Rightarrow> nat option" where
  "str_find [] v = (if v = [] then Some 0 else None)"
| "str_find (x # xs) v =
     (if take (length v) (x # xs) = v then Some 0 else map_option Suc (str_find xs v))"

lemma str_find_Some:
  "str_find t v = Some k \<Longrightarrow> \<exists>a b. t = a @ v @ b \<and> length a = k"
proof (induction t arbitrary: k)
  case Nil
  then show ?case by (auto split: if_splits)
next
  case (Cons x xs)
  show ?case
  proof (cases "take (length v) (x # xs) = v")
    case True
    with Cons.prems have "k = 0" by simp
    moreover have "x # xs = [] @ v @ drop (length v) (x # xs)"
      using True by (metis append_Nil append_take_drop_id)
    ultimately show ?thesis by (metis list.size(3))
  next
    case False
    with Cons.prems obtain j where "str_find xs v = Some j" "k = Suc j" by auto
    with Cons.IH obtain a b where "xs = a @ v @ b" "length a = j" by blast
    with \<open>k = Suc j\<close> show ?thesis by (intro exI [of _ "x # a"] exI [of _ b]) simp
  qed
qed

section \<open>Validity splits at boundaries\<close>

lemma utf8_width_append: "utf8_width v = Some n \<Longrightarrow> utf8_width (v @ w) = Some n"
  by (cases v) (auto split: if_splits list.splits)

lemma utf8_valid_append: "utf8_valid v \<Longrightarrow> utf8_valid (v @ w) = utf8_valid w"
proof (induction v rule: utf8_valid.induct)
  case (1 v)
  show ?case
  proof (cases "v = []")
    case False
    with "1.prems" obtain n where n: "utf8_width v = Some n" "utf8_valid (drop n v)"
      by (blast dest: utf8_valid_unfold)
    with False "1.IH" have "utf8_valid (drop n v @ w) = utf8_valid w" by simp
    moreover have "n \<le> length v" using n utf8_width_bounds by blast
    ultimately show ?thesis
      using utf8_valid_step [OF utf8_width_append [OF n(1), of w]] by (simp add: drop_append)
  qed simp
qed

lemma utf8_valid_appendI [intro]: "utf8_valid v \<Longrightarrow> utf8_valid w \<Longrightarrow> utf8_valid (v @ w)"
  by (simp add: utf8_valid_append)

lemma utf8_lead_not_cont:
  "utf8_width (b # bs) = Some n \<Longrightarrow> \<not> utf8_cont b"
  by (auto simp: utf8_cont_def word_less_nat_alt word_le_nat_alt split: if_splits)

lemma utf8_inner_cont:
  assumes "utf8_width bs = Some n" and "0 < i" and "i < n"
  shows "utf8_cont (bs ! i)"
proof -
  have s3: "utf8_second3 b c \<Longrightarrow> utf8_cont c" for b c
    by (auto simp: utf8_second3_def utf8_cont_def word_le_nat_alt split: if_splits)
  have s4: "utf8_second4 b c \<Longrightarrow> utf8_cont c" for b c
    by (auto simp: utf8_second4_def utf8_cont_def word_le_nat_alt split: if_splits)
  obtain b cs where bs: "bs = b # cs" using assms(1) by (cases bs) auto
  have "i = 1 \<or> i = 2 \<or> i = 3"
    using assms by (auto simp: bs split: if_splits list.splits)
  then show ?thesis
    using assms by (auto simp: bs dest: s3 s4 split: if_splits list.splits)
qed

lemma utf8_valid_hd: "utf8_valid (b # bs) \<Longrightarrow> \<not> utf8_cont b"
  using utf8_valid_unfold [of "b # bs"] utf8_lead_not_cont by auto

lemma utf8_valid_drop_boundary:
  "utf8_valid s \<Longrightarrow> is_char_boundary s i \<Longrightarrow> utf8_valid (drop i s)"
proof (induction s arbitrary: i rule: utf8_valid.induct)
  case (1 s)
  show ?case
  proof (cases "s = [] \<or> i = 0 \<or> i = length s")
    case True
    then show ?thesis using "1.prems"(1) by auto
  next
    case False
    with "1.prems" obtain n where n: "utf8_width s = Some n" "utf8_valid (drop n s)"
      by (blast dest: utf8_valid_unfold)
    have i: "i < length s" "\<not> utf8_cont (s ! i)"
      using False "1.prems"(2) by (auto simp: is_char_boundary_def)
    have "n \<le> i" using utf8_inner_cont [OF n(1)] i(2) False by (meson not_gr_zero not_le)
    then have "is_char_boundary (drop n s) (i - n)"
      using i by (auto simp: is_char_boundary_def)
    with False n "1.IH" have "utf8_valid (drop (i - n) (drop n s))" by blast
    with \<open>n \<le> i\<close> show ?thesis by simp
  qed
qed

lemma utf8_substring_boundaries:
  assumes "utf8_valid (a @ v @ w)" and "utf8_valid v" and "v \<noteq> []"
  shows "is_char_boundary (a @ v @ w) (length a)"
    and "is_char_boundary (a @ v @ w) (length a + length v)"
    and "utf8_valid w"
proof -
  obtain x xs where v: "v = x # xs" using assms(3) by (cases v) auto
  show b1: "is_char_boundary (a @ v @ w) (length a)"
    using utf8_valid_hd assms(2) by (auto simp: is_char_boundary_def nth_append v)
  have "utf8_valid (v @ w)" using utf8_valid_drop_boundary [OF assms(1) b1] by simp
  then show w: "utf8_valid w" using assms(2) by (simp add: utf8_valid_append)
  show "is_char_boundary (a @ v @ w) (length a + length v)"
  proof (cases w)
    case (Cons y ys)
    then show ?thesis
      using utf8_valid_hd w by (auto simp: is_char_boundary_def nth_append)
  qed (simp add: is_char_boundary_def)
qed

lemma str_get_substring:
  assumes "utf8_valid (a @ v @ w)" and "utf8_valid v" and "v \<noteq> []"
  shows "str_get (a @ v @ w) (length a) (length a + length v) = Some v"
  using utf8_substring_boundaries [OF assms] by (simp add: str_get_def get_range_middle)

lemma utf8_width_take: "utf8_width s = Some n \<Longrightarrow> utf8_width (take n s) = Some n"
  by (cases s) (auto split: if_splits list.splits)

lemma utf8_valid_take_boundary:
  "utf8_valid s \<Longrightarrow> is_char_boundary s i \<Longrightarrow> utf8_valid (take i s)"
proof (induction s arbitrary: i rule: utf8_valid.induct)
  case (1 s)
  show ?case
  proof (cases "s = [] \<or> i = 0 \<or> i = length s")
    case True
    then show ?thesis using "1.prems"(1) by auto
  next
    case False
    with "1.prems" obtain n where n: "utf8_width s = Some n" "utf8_valid (drop n s)"
      by (blast dest: utf8_valid_unfold)
    have i: "i < length s" "\<not> utf8_cont (s ! i)"
      using False "1.prems"(2) by (auto simp: is_char_boundary_def)
    have "n \<le> i" using utf8_inner_cont [OF n(1)] i(2) False by (meson not_gr_zero not_le)
    then have "is_char_boundary (drop n s) (i - n)"
      using i by (auto simp: is_char_boundary_def)
    with False n "1.IH" have rest: "utf8_valid (take (i - n) (drop n s))" by blast
    have split: "take i s = take n s @ take (i - n) (drop n s)"
      using \<open>n \<le> i\<close> by (metis le_add_diff_inverse take_add)
    have "utf8_valid (take n s)"
      using utf8_valid_step [OF utf8_width_take [OF n(1)]] by simp
    with rest split show ?thesis by auto
  qed
qed

lemma str_get_valid:
  assumes "utf8_valid s" and "str_get s a b = Some v"
  shows "utf8_valid v"
proof -
  from assms(2) have b: "is_char_boundary s a" "is_char_boundary s b"
    and ab: "a \<le> b" "b \<le> length s" and v: "v = take (b - a) (drop a s)"
    by (auto simp: str_get_def get_range_eq_Some split: if_splits)
  have "is_char_boundary (drop a s) (b - a)"
    using b(2) ab by (auto simp: is_char_boundary_def)
  with assms(1) b(1) v show ?thesis
    by (simp add: utf8_valid_take_boundary utf8_valid_drop_boundary)
qed

section \<open>Valid strings\<close>

typedef ustr = "{bs :: u8 list. utf8_valid bs}"
  morphisms str_bytes Abs_ustr
  by (rule exI [of _ "[]"]) simp

setup_lifting type_definition_ustr

lemma str_bytes_valid [simp]: "utf8_valid (str_bytes s)"
  using str_bytes [of s] by simp

text \<open>A literal; only valid bytes are a string.\<close>

lift_definition Str :: "u8 list \<Rightarrow> ustr" is "\<lambda>bs. if utf8_valid bs then bs else []"
  by simp

lemma str_bytes_Str [simp]: "utf8_valid bs \<Longrightarrow> str_bytes (Str bs) = bs"
  by transfer simp

lemma Str_eq [simp]: "utf8_valid a \<Longrightarrow> utf8_valid b \<Longrightarrow> Str a = Str b \<longleftrightarrow> a = b"
  by transfer simp

lemma str_bytes_eq: "str_bytes a = str_bytes b \<longleftrightarrow> a = b"
  by (rule str_bytes_inject)

text \<open>Strings are compared by their bytes.\<close>

instantiation ustr :: equal
begin

definition equal_ustr :: "ustr \<Rightarrow> ustr \<Rightarrow> bool" where
  "equal_ustr a b \<longleftrightarrow> str_bytes a = str_bytes b"

instance
  by standard (simp add: equal_ustr_def str_bytes_eq)

end

text \<open>\<open>Ord\<close> of strings: the order of the bytes, the shorter of two strings first.\<close>

fun bytes_less :: "u8 list \<Rightarrow> u8 list \<Rightarrow> bool" where
  "bytes_less xs [] = False"
| "bytes_less [] (y # ys) = True"
| "bytes_less (x # xs) (y # ys) = (x < y \<or> x = y \<and> bytes_less xs ys)"

lemma bytes_less_irrefl: "\<not> bytes_less xs xs"
  by (induction xs) auto

lemma bytes_less_trans: "bytes_less xs ys \<Longrightarrow> bytes_less ys zs \<Longrightarrow> bytes_less xs zs"
  by (induction xs ys arbitrary: zs rule: bytes_less.induct) (case_tac zs; auto)+

lemma bytes_less_total: "bytes_less xs ys \<or> xs = ys \<or> bytes_less ys xs"
  by (induction xs ys rule: bytes_less.induct) (auto simp: neq_Nil_conv, metis bytes_less.simps(2) list.exhaust)

instantiation ustr :: linorder
begin

definition less_ustr :: "ustr \<Rightarrow> ustr \<Rightarrow> bool" where
  "less_ustr a b \<longleftrightarrow> bytes_less (str_bytes a) (str_bytes b)"

definition less_eq_ustr :: "ustr \<Rightarrow> ustr \<Rightarrow> bool" where
  "less_eq_ustr a b \<longleftrightarrow> a = b \<or> bytes_less (str_bytes a) (str_bytes b)"

instance
proof
  fix a b c :: ustr
  show "a < b \<longleftrightarrow> a \<le> b \<and> \<not> b \<le> a"
    unfolding less_ustr_def less_eq_ustr_def using bytes_less_irrefl bytes_less_trans by blast
  show "a \<le> a" by (simp add: less_eq_ustr_def)
  show "a \<le> b \<Longrightarrow> b \<le> c \<Longrightarrow> a \<le> c"
    unfolding less_eq_ustr_def using bytes_less_trans by blast
  show "a \<le> b \<Longrightarrow> b \<le> a \<Longrightarrow> a = b"
    unfolding less_eq_ustr_def using bytes_less_irrefl bytes_less_trans by blast
  show "a \<le> b \<or> b \<le> a"
    unfolding less_eq_ustr_def using bytes_less_total [of "str_bytes a" "str_bytes b"] by (auto simp: str_bytes_eq)
qed

end

section \<open>Decimal digits\<close>

text \<open>A number as \<open>Display\<close> writes it.\<close>

function decimal :: "nat \<Rightarrow> rstr" where
  "decimal n = (if n \<ge> 10 then decimal (n div 10) else []) @ [48 + of_nat (n mod 10)]"
  by pat_completeness auto
termination by (relation "measure id") auto

declare decimal.simps [simp del]

end
