(* ===== verification/Sq_Limits.thy ===== *)
theory Sq_Limits
  imports Sq_Utf8
begin

text \<open>
  The resource limits of the runtime (\<open>squidvm-limits/src/lib.rs\<close>), which the VM enforces
  when it loads and runs a program and the compiler when it emits one.
\<close>

abbreviation (input) MAX_STRINGS :: nat where "MAX_STRINGS \<equiv> 128"
abbreviation (input) MAX_STATE :: nat where "MAX_STATE \<equiv> 16"
abbreviation (input) MAX_FUNCTIONS :: nat where "MAX_FUNCTIONS \<equiv> 16"
abbreviation (input) MAX_HANDLERS :: nat where "MAX_HANDLERS \<equiv> 16"
abbreviation (input) MAX_TRIGGERS :: nat where "MAX_TRIGGERS \<equiv> 16"
abbreviation (input) MAX_DEVICE_BINDINGS :: nat where "MAX_DEVICE_BINDINGS \<equiv> 8"
abbreviation (input) MAX_SCREENS :: nat where "MAX_SCREENS \<equiv> 16"
abbreviation (input) MAX_LOCALS :: nat where "MAX_LOCALS \<equiv> 16"
abbreviation (input) MAX_STACK :: nat where "MAX_STACK \<equiv> 16"
abbreviation (input) MAX_CALL_DEPTH :: nat where "MAX_CALL_DEPTH \<equiv> 4"
abbreviation (input) MAX_INSTRUCTIONS_PER_EVENT :: nat where "MAX_INSTRUCTIONS_PER_EVENT \<equiv> 1000"
abbreviation (input) MAX_APP_BYTES :: nat where "MAX_APP_BYTES \<equiv> 8192"
abbreviation (input) MAX_PROGRAM_STRING_BYTES :: nat where "MAX_PROGRAM_STRING_BYTES \<equiv> 1536"
abbreviation (input) MAX_CODE_CHUNK_BYTES :: nat where "MAX_CODE_CHUNK_BYTES \<equiv> 640"
abbreviation (input) MAX_SAVED_STATE_BYTES :: nat where "MAX_SAVED_STATE_BYTES \<equiv> 512"
abbreviation (input) MAX_RUNTIME_STRINGS :: nat where "MAX_RUNTIME_STRINGS \<equiv> 12"
abbreviation (input) MAX_RUNTIME_STRING_BYTES :: nat where "MAX_RUNTIME_STRING_BYTES \<equiv> 128"
abbreviation (input) MAX_SERVICE_STRINGS :: nat where "MAX_SERVICE_STRINGS \<equiv> 32"
abbreviation (input) MAX_SERVICE_STRING_BYTES :: nat where "MAX_SERVICE_STRING_BYTES \<equiv> 512"
abbreviation (input) MAX_RUNTIME_RECORDS :: nat where "MAX_RUNTIME_RECORDS \<equiv> 8"
abbreviation (input) MAX_RUNTIME_RECORD_FIELDS :: nat where "MAX_RUNTIME_RECORD_FIELDS \<equiv> 26"
abbreviation (input) MAX_RUNTIME_LISTS :: nat where "MAX_RUNTIME_LISTS \<equiv> 2"
abbreviation (input) MAX_RUNTIME_LIST_ITEMS :: nat where "MAX_RUNTIME_LIST_ITEMS \<equiv> 8"

end
