(* ===== verification/Vm_Model.thy ===== *)
theory Vm_Model
  imports Sq_Limits
begin

text \<open>
  The VM's plain data (\<open>squidvm-core\<close>: \<open>error.rs\<close>, \<open>value.rs\<close>, \<open>model.rs\<close>,
  \<open>bytecode.rs\<close>): error codes, values, the rows of a program's tables, the numbering of
  sections, opcodes and builtins, and the little-endian readers every parser of the crate is
  built on.
\<close>

section \<open>Errors\<close>

datatype vm_error =
    TooLarge | InvalidHeader | MissingSection | DuplicateSection | InvalidSection
  | DuplicateTableKey | InvalidStringRef | InvalidUtf8 | TooManyStrings
  | TooManyStateSlots | TooManyFunctions | TooManyHandlers | TooManyScreens
  | UnknownOpcode | InvalidOperand | InvalidJump | StackOverflow | StackUnderflow
  | LocalOutOfBounds | StateOutOfBounds | FunctionOutOfBounds | HandlerNotFound
  | InstructionBudgetExceeded | CallDepthExceeded | ChunkTooLarge | ReadFailed
  | InvalidStateRecord | StateTypeMismatch | StateTooLarge

type_synonym 'a vm_res = "(vm_error, 'a) res"

section \<open>Values\<close>

datatype string_ref = Sqbc u16 | Static u8 | Dynamic u8

datatype handle_kind = BinBook | Drawable

record handle =
  handle_kind :: handle_kind
  handle_id :: u16

datatype vm_value =
    VNull
  | VBool bool
  | VI32 i32
  | VString string_ref
  | VRecord u8
  | VList u8
  | VHandle handle

fun truthy :: "vm_value \<Rightarrow> bool" where
  "truthy VNull = False"
| "truthy (VBool b) = b"
| "truthy (VI32 i) = (i \<noteq> 0)"
| "truthy (VString _) = True"
| "truthy (VRecord _) = True"
| "truthy (VList _) = True"
| "truthy (VHandle _) = True"

fun expect_i32 :: "vm_value \<Rightarrow> i32 vm_res" where
  "expect_i32 (VI32 i) = Inr i"
| "expect_i32 _ = Inl (Err InvalidOperand)"

fun is_string :: "vm_value \<Rightarrow> bool" where
  "is_string (VString _) = True"
| "is_string _ = False"

lemma expect_i32_Inr [simp]: "expect_i32 v = Inr i \<longleftrightarrow> v = VI32 i"
  by (cases v) auto

lemma is_string_iff: "is_string v \<longleftrightarrow> (\<exists>r. v = VString r)"
  by (cases v) auto

section \<open>Table rows\<close>

record function_row =
  f_name_id :: u16
  f_param_count :: u16
  f_local_count :: u16
  f_start :: nat
  f_len :: nat

record handler_row =
  h_event_id :: u16
  h_preload :: bool
  h_param_count :: u16
  h_local_count :: u16
  h_start :: nat
  h_len :: nat

record trigger_row =
  t_event_id :: u16
  t_interval_ms :: i32
  t_repeating :: bool

record screen_row =
  sc_name_id :: u16
  sc_start :: nat
  sc_len :: nat

record state_type =
  st_tag :: u8
  st_nullable :: bool

record state_slot =
  s_name_id :: u16
  s_type :: state_type
  s_default :: vm_value

section \<open>Numbering of sections, opcodes, builtins and tags\<close>

abbreviation (input) SECTION_STRINGS :: u16 where "SECTION_STRINGS \<equiv> 1"
abbreviation (input) SECTION_STATE :: u16 where "SECTION_STATE \<equiv> 2"
abbreviation (input) SECTION_FUNCTIONS :: u16 where "SECTION_FUNCTIONS \<equiv> 3"
abbreviation (input) SECTION_HANDLERS :: u16 where "SECTION_HANDLERS \<equiv> 4"
abbreviation (input) SECTION_CODE :: u16 where "SECTION_CODE \<equiv> 5"
abbreviation (input) SECTION_SCREENS :: u16 where "SECTION_SCREENS \<equiv> 6"
abbreviation (input) SECTION_DEVICE_BINDINGS :: u16 where "SECTION_DEVICE_BINDINGS \<equiv> 8"
abbreviation (input) SECTION_TRIGGERS :: u16 where "SECTION_TRIGGERS \<equiv> 9"
abbreviation (input) OP_PUSH_INT :: u8 where "OP_PUSH_INT \<equiv> 1"
abbreviation (input) OP_PUSH_BOOL :: u8 where "OP_PUSH_BOOL \<equiv> 2"
abbreviation (input) OP_PUSH_STRING :: u8 where "OP_PUSH_STRING \<equiv> 3"
abbreviation (input) OP_PUSH_NULL :: u8 where "OP_PUSH_NULL \<equiv> 4"
abbreviation (input) OP_GET_STATE :: u8 where "OP_GET_STATE \<equiv> 10"
abbreviation (input) OP_SET_STATE :: u8 where "OP_SET_STATE \<equiv> 11"
abbreviation (input) OP_GET_LOCAL :: u8 where "OP_GET_LOCAL \<equiv> 12"
abbreviation (input) OP_SET_LOCAL :: u8 where "OP_SET_LOCAL \<equiv> 13"
abbreviation (input) OP_GET_FIELD :: u8 where "OP_GET_FIELD \<equiv> 14"
abbreviation (input) OP_ADD :: u8 where "OP_ADD \<equiv> 20"
abbreviation (input) OP_SUB :: u8 where "OP_SUB \<equiv> 21"
abbreviation (input) OP_EQ :: u8 where "OP_EQ \<equiv> 22"
abbreviation (input) OP_NE :: u8 where "OP_NE \<equiv> 23"
abbreviation (input) OP_LT :: u8 where "OP_LT \<equiv> 24"
abbreviation (input) OP_LTE :: u8 where "OP_LTE \<equiv> 25"
abbreviation (input) OP_GT :: u8 where "OP_GT \<equiv> 26"
abbreviation (input) OP_GTE :: u8 where "OP_GTE \<equiv> 27"
abbreviation (input) OP_JUMP :: u8 where "OP_JUMP \<equiv> 30"
abbreviation (input) OP_JUMP_IF_FALSE :: u8 where "OP_JUMP_IF_FALSE \<equiv> 31"
abbreviation (input) OP_CALL_FUNCTION :: u8 where "OP_CALL_FUNCTION \<equiv> 40"
abbreviation (input) OP_RETURN :: u8 where "OP_RETURN \<equiv> 41"
abbreviation (input) OP_HALT :: u8 where "OP_HALT \<equiv> 42"
abbreviation (input) OP_CALL_BUILTIN :: u8 where "OP_CALL_BUILTIN \<equiv> 50"
abbreviation (input) OP_POP :: u8 where "OP_POP \<equiv> 60"
abbreviation (input) OP_LIST_LEN :: u8 where "OP_LIST_LEN \<equiv> 61"
abbreviation (input) OP_LIST_GET :: u8 where "OP_LIST_GET \<equiv> 62"
abbreviation (input) BUILTIN_STATE_LOAD :: u8 where "BUILTIN_STATE_LOAD \<equiv> 0x01"
abbreviation (input) BUILTIN_STATE_SAVE :: u8 where "BUILTIN_STATE_SAVE \<equiv> 0x02"
abbreviation (input) BUILTIN_STATE_RESET :: u8 where "BUILTIN_STATE_RESET \<equiv> 0x03"
abbreviation (input) BUILTIN_DEBUG_PRINT :: u8 where "BUILTIN_DEBUG_PRINT \<equiv> 0x04"
abbreviation (input) BUILTIN_SYSTEM_MEMORY :: u8 where "BUILTIN_SYSTEM_MEMORY \<equiv> 0x05"
abbreviation (input) BUILTIN_SYSTEM_STORAGE :: u8 where "BUILTIN_SYSTEM_STORAGE \<equiv> 0x06"
abbreviation (input) BUILTIN_SYSTEM_START_REASON :: u8 where "BUILTIN_SYSTEM_START_REASON \<equiv> 0x07"
abbreviation (input) BUILTIN_APP_EXIT :: u8 where "BUILTIN_APP_EXIT \<equiv> 0x10"
abbreviation (input) BUILTIN_APP_LAUNCH :: u8 where "BUILTIN_APP_LAUNCH \<equiv> 0x11"
abbreviation (input) BUILTIN_APP_ARM :: u8 where "BUILTIN_APP_ARM \<equiv> 0x12"
abbreviation (input) BUILTIN_APP_DISARM :: u8 where "BUILTIN_APP_DISARM \<equiv> 0x13"
abbreviation (input) BUILTIN_APP_REGISTRY_LIST :: u8 where "BUILTIN_APP_REGISTRY_LIST \<equiv> 0x14"
abbreviation (input) BUILTIN_APP_REGISTRY_GET :: u8 where "BUILTIN_APP_REGISTRY_GET \<equiv> 0x15"
abbreviation (input) BUILTIN_APP_PROCESS_STACK :: u8 where "BUILTIN_APP_PROCESS_STACK \<equiv> 0x16"
abbreviation (input) BUILTIN_APP_ARMED_STACK :: u8 where "BUILTIN_APP_ARMED_STACK \<equiv> 0x17"
abbreviation (input) BUILTIN_APP_ARMED_STACK_GET :: u8 where "BUILTIN_APP_ARMED_STACK_GET \<equiv> 0x18"
abbreviation (input) BUILTIN_APP_INSTALL :: u8 where "BUILTIN_APP_INSTALL \<equiv> 0x19"
abbreviation (input) BUILTIN_APP_INSTALL_METADATA :: u8 where "BUILTIN_APP_INSTALL_METADATA \<equiv> 0x1a"
abbreviation (input) BUILTIN_SCREEN_OPEN :: u8 where "BUILTIN_SCREEN_OPEN \<equiv> 0x20"
abbreviation (input) BUILTIN_SCREEN_REFRESH :: u8 where "BUILTIN_SCREEN_REFRESH \<equiv> 0x21"
abbreviation (input) BUILTIN_SERVICE_TIMER_EVERY :: u8 where "BUILTIN_SERVICE_TIMER_EVERY \<equiv> 0x22"
abbreviation (input) BUILTIN_SERVICE_TIMER_AFTER :: u8 where "BUILTIN_SERVICE_TIMER_AFTER \<equiv> 0x23"
abbreviation (input) BUILTIN_DISPLAY_CLEAR :: u8 where "BUILTIN_DISPLAY_CLEAR \<equiv> 0x30"
abbreviation (input) BUILTIN_DISPLAY_TEXT :: u8 where "BUILTIN_DISPLAY_TEXT \<equiv> 0x31"
abbreviation (input) BUILTIN_DISPLAY_RECT :: u8 where "BUILTIN_DISPLAY_RECT \<equiv> 0x32"
abbreviation (input) BUILTIN_DISPLAY_LINE :: u8 where "BUILTIN_DISPLAY_LINE \<equiv> 0x33"
abbreviation (input) BUILTIN_DISPLAY_SELECT :: u8 where "BUILTIN_DISPLAY_SELECT \<equiv> 0x34"
abbreviation (input) BUILTIN_DISPLAY_IMAGE :: u8 where "BUILTIN_DISPLAY_IMAGE \<equiv> 0x35"
abbreviation (input) BUILTIN_DISPLAY_DRAW :: u8 where "BUILTIN_DISPLAY_DRAW \<equiv> 0x36"
abbreviation (input) BUILTIN_DISPLAY_INFO :: u8 where "BUILTIN_DISPLAY_INFO \<equiv> 0x37"
abbreviation (input) BUILTIN_DISPLAY_REFRESH_MODE :: u8 where "BUILTIN_DISPLAY_REFRESH_MODE \<equiv> 0x38"
abbreviation (input) BUILTIN_HARDWARE_GPIO_WRITE :: u8 where "BUILTIN_HARDWARE_GPIO_WRITE \<equiv> 0x40"
abbreviation (input) BUILTIN_HARDWARE_GPIO_TOGGLE :: u8 where "BUILTIN_HARDWARE_GPIO_TOGGLE \<equiv> 0x41"
abbreviation (input) BUILTIN_HARDWARE_GPIO_READ :: u8 where "BUILTIN_HARDWARE_GPIO_READ \<equiv> 0x42"
abbreviation (input) BUILTIN_SERVICE_INDICATOR_WRITE :: u8 where "BUILTIN_SERVICE_INDICATOR_WRITE \<equiv> 0x48"
abbreviation (input) BUILTIN_SERVICE_INDICATOR_TOGGLE :: u8 where "BUILTIN_SERVICE_INDICATOR_TOGGLE \<equiv> 0x49"
abbreviation (input) BUILTIN_SERVICE_INDICATOR_READ :: u8 where "BUILTIN_SERVICE_INDICATOR_READ \<equiv> 0x4a"
abbreviation (input) BUILTIN_SERVICE_INDICATOR_BREATHE :: u8 where "BUILTIN_SERVICE_INDICATOR_BREATHE \<equiv> 0x4b"
abbreviation (input) BUILTIN_SERVICE_INDICATOR_BLINK :: u8 where "BUILTIN_SERVICE_INDICATOR_BLINK \<equiv> 0x4c"
abbreviation (input) BUILTIN_SERVICE_WIFI_START_AP :: u8 where "BUILTIN_SERVICE_WIFI_START_AP \<equiv> 0x50"
abbreviation (input) BUILTIN_SERVICE_WIFI_STOP_AP :: u8 where "BUILTIN_SERVICE_WIFI_STOP_AP \<equiv> 0x51"
abbreviation (input) BUILTIN_SERVICE_WIFI_STATUS :: u8 where "BUILTIN_SERVICE_WIFI_STATUS \<equiv> 0x52"
abbreviation (input) BUILTIN_SERVICE_WIFI_GET_AP_IP :: u8 where "BUILTIN_SERVICE_WIFI_GET_AP_IP \<equiv> 0x53"
abbreviation (input) BUILTIN_SERVICE_WIFI_CONNECT :: u8 where "BUILTIN_SERVICE_WIFI_CONNECT \<equiv> 0x54"
abbreviation (input) BUILTIN_SERVICE_WIFI_DISCONNECT :: u8 where "BUILTIN_SERVICE_WIFI_DISCONNECT \<equiv> 0x55"
abbreviation (input) BUILTIN_SERVICE_WIFI_SCAN :: u8 where "BUILTIN_SERVICE_WIFI_SCAN \<equiv> 0x56"
abbreviation (input) BUILTIN_SERVICE_WIFI_OPERATION :: u8 where "BUILTIN_SERVICE_WIFI_OPERATION \<equiv> 0x57"
abbreviation (input) BUILTIN_SERVICE_WIFI_RESULT :: u8 where "BUILTIN_SERVICE_WIFI_RESULT \<equiv> 0x58"
abbreviation (input) BUILTIN_SERVICE_WIFI_CANCEL :: u8 where "BUILTIN_SERVICE_WIFI_CANCEL \<equiv> 0x59"
abbreviation (input) BUILTIN_SERVICE_WIFI_SCAN_NETWORK :: u8 where "BUILTIN_SERVICE_WIFI_SCAN_NETWORK \<equiv> 0x5a"
abbreviation (input) BUILTIN_DEVICE_CONFIG_LOAD :: u8 where "BUILTIN_DEVICE_CONFIG_LOAD \<equiv> 0x70"
abbreviation (input) BUILTIN_DEVICE_CONFIG_SET :: u8 where "BUILTIN_DEVICE_CONFIG_SET \<equiv> 0x71"
abbreviation (input) BUILTIN_DEVICE_CONFIG_REBIND :: u8 where "BUILTIN_DEVICE_CONFIG_REBIND \<equiv> 0x72"
abbreviation (input) BUILTIN_DEVICE_CONFIG_SAVE :: u8 where "BUILTIN_DEVICE_CONFIG_SAVE \<equiv> 0x73"
abbreviation (input) BUILTIN_BINBOOK_OPEN :: u8 where "BUILTIN_BINBOOK_OPEN \<equiv> 0x80"
abbreviation (input) BUILTIN_BINBOOK_INFO :: u8 where "BUILTIN_BINBOOK_INFO \<equiv> 0x81"
abbreviation (input) BUILTIN_BINBOOK_READ_PAGE :: u8 where "BUILTIN_BINBOOK_READ_PAGE \<equiv> 0x82"
abbreviation (input) BUILTIN_CONTENT_BINBOOK_LIST :: u8 where "BUILTIN_CONTENT_BINBOOK_LIST \<equiv> 0x83"
abbreviation (input) BUILTIN_BINBOOK_CHAPTERS :: u8 where "BUILTIN_BINBOOK_CHAPTERS \<equiv> 0x84"
abbreviation (input) BUILTIN_BINBOOK_CHAPTER :: u8 where "BUILTIN_BINBOOK_CHAPTER \<equiv> 0x85"
abbreviation (input) BUILTIN_FILE_PICK_FILE :: u8 where "BUILTIN_FILE_PICK_FILE \<equiv> 0x90"
abbreviation (input) BUILTIN_FILE_READ_TEXT :: u8 where "BUILTIN_FILE_READ_TEXT \<equiv> 0x91"
abbreviation (input) BUILTIN_FILE_READ_LINES :: u8 where "BUILTIN_FILE_READ_LINES \<equiv> 0x92"
abbreviation (input) BUILTIN_FILE_COPY :: u8 where "BUILTIN_FILE_COPY \<equiv> 0x93"
abbreviation (input) BUILTIN_SERVICE_POWER_SLEEP :: u8 where "BUILTIN_SERVICE_POWER_SLEEP \<equiv> 0xc0"
abbreviation (input) BUILTIN_SERVICE_BLE_START :: u8 where "BUILTIN_SERVICE_BLE_START \<equiv> 0xc1"
abbreviation (input) BUILTIN_SERVICE_BLE_STOP :: u8 where "BUILTIN_SERVICE_BLE_STOP \<equiv> 0xc2"
abbreviation (input) BUILTIN_SERVICE_HTTP_START :: u8 where "BUILTIN_SERVICE_HTTP_START \<equiv> 0xc3"
abbreviation (input) BUILTIN_SERVICE_HTTP_STOP :: u8 where "BUILTIN_SERVICE_HTTP_STOP \<equiv> 0xc4"
abbreviation (input) VALUE_NULL :: u8 where "VALUE_NULL \<equiv> 0"
abbreviation (input) VALUE_BOOL :: u8 where "VALUE_BOOL \<equiv> 1"
abbreviation (input) VALUE_I32 :: u8 where "VALUE_I32 \<equiv> 2"
abbreviation (input) VALUE_STRING :: u8 where "VALUE_STRING \<equiv> 3"
abbreviation (input) STATE_TYPE_INT :: u8 where "STATE_TYPE_INT \<equiv> 1"
abbreviation (input) STATE_TYPE_BOOL :: u8 where "STATE_TYPE_BOOL \<equiv> 2"
abbreviation (input) STATE_TYPE_STRING :: u8 where "STATE_TYPE_STRING \<equiv> 3"

definition STATE_RECORD_MAGIC :: "u8 list" where
  "STATE_RECORD_MAGIC = lit ''SQST''"

section \<open>Little-endian readers\<close>

definition read_u16 :: "u8 list \<Rightarrow> nat \<Rightarrow> u16 vm_res" where
  "read_u16 bytes offset =
     and_then (ok_or InvalidSection (get_range bytes offset (offset + 2))) (\<lambda>raw. Inr (of_le raw))"

definition read_u32 :: "u8 list \<Rightarrow> nat \<Rightarrow> u32 vm_res" where
  "read_u32 bytes offset =
     and_then (ok_or InvalidSection (get_range bytes offset (offset + 4))) (\<lambda>raw. Inr (of_le raw))"

definition read_i32 :: "u8 list \<Rightarrow> nat \<Rightarrow> i32 vm_res" where
  "read_i32 bytes offset =
     and_then (ok_or InvalidSection (get_range bytes offset (offset + 4))) (\<lambda>raw. Inr (of_le raw))"

definition read_u8 :: "u8 list \<Rightarrow> nat \<Rightarrow> u8 vm_res" where
  "read_u8 bytes offset = ok_or InvalidSection (get_at bytes offset)"

definition read_value :: "u8 list \<Rightarrow> nat \<Rightarrow> (vm_value \<times> nat) vm_res" where
  "read_value bytes cursor =
     and_then (read_u8 bytes cursor) (\<lambda>tag.
       if tag = VALUE_NULL then Inr (VNull, cursor + 1)
       else if tag = VALUE_BOOL then
         and_then (read_u8 bytes (cursor + 1)) (\<lambda>b. Inr (VBool (b \<noteq> 0), cursor + 2))
       else if tag = VALUE_I32 then
         and_then (read_i32 bytes (cursor + 1)) (\<lambda>i. Inr (VI32 i, cursor + 5))
       else if tag = VALUE_STRING then
         and_then (read_u16 bytes (cursor + 1)) (\<lambda>i. Inr (VString (Sqbc i), cursor + 3))
       else Inl (Err InvalidSection))"

text \<open>A field that was written where it is read, whatever precedes and follows it.\<close>

named_theorems reads

lemma read_u16_at [reads]: "p = length pre \<Longrightarrow> read_u16 (pre @ u16_le w @ post) p = Inr w"
  by (simp add: read_u16_def get_range_middle)

lemma read_u32_at [reads]: "p = length pre \<Longrightarrow> read_u32 (pre @ u32_le w @ post) p = Inr w"
  by (simp add: read_u32_def get_range_middle)

lemma read_i32_at [reads]: "p = length pre \<Longrightarrow> read_i32 (pre @ u32_le w @ post) p = Inr w"
  by (simp add: read_i32_def get_range_middle)

lemma read_u8_at [reads]: "p = length pre \<Longrightarrow> read_u8 (pre @ b # post) p = Inr b"
  by (simp add: read_u8_def get_at_def)

text \<open>A read of a longer input that stays inside the shorter one.\<close>

lemma read_u16_prefix: "p + 2 \<le> length xs \<Longrightarrow> read_u16 (xs @ ys) p = read_u16 xs p"
  by (simp add: read_u16_def get_range_append_left)

lemma read_u32_prefix: "p + 4 \<le> length xs \<Longrightarrow> read_u32 (xs @ ys) p = read_u32 xs p"
  by (simp add: read_u32_def get_range_append_left)

text \<open>None of the readers panics: a short input is \<open>InvalidSection\<close>.\<close>

lemma read_u16_cases:
  "read_u16 bs p = Inl e \<longleftrightarrow> \<not> p + 2 \<le> length bs \<and> e = Err InvalidSection"
  by (auto simp: read_u16_def and_then_eq_Inl ok_or_eq_Inl get_range_def)

lemma read_u32_cases:
  "read_u32 bs p = Inl e \<longleftrightarrow> \<not> p + 4 \<le> length bs \<and> e = Err InvalidSection"
  by (auto simp: read_u32_def and_then_eq_Inl ok_or_eq_Inl get_range_def)

lemma read_i32_cases:
  "read_i32 bs p = Inl e \<longleftrightarrow> \<not> p + 4 \<le> length bs \<and> e = Err InvalidSection"
  by (auto simp: read_i32_def and_then_eq_Inl ok_or_eq_Inl get_range_def)

lemma read_u8_cases:
  "read_u8 bs p = Inl e \<longleftrightarrow> \<not> p < length bs \<and> e = Err InvalidSection"
  by (auto simp: read_u8_def ok_or_eq_Inl get_at_def)

lemma read_u16_InrD: "read_u16 bs p = Inr v \<Longrightarrow> p + 2 \<le> length bs"
  by (auto simp: read_u16_def and_then_eq_Inr get_range_def split: if_splits)

lemma read_u32_InrD: "read_u32 bs p = Inr v \<Longrightarrow> p + 4 \<le> length bs"
  by (auto simp: read_u32_def and_then_eq_Inr get_range_def split: if_splits)

lemma read_i32_InrD: "read_i32 bs p = Inr v \<Longrightarrow> p + 4 \<le> length bs"
  by (auto simp: read_i32_def and_then_eq_Inr get_range_def split: if_splits)

lemma read_value_no_panic: "read_value bs p \<noteq> Inl Panic"
  by (auto simp: read_value_def and_then_eq_Inl read_u8_cases read_i32_cases read_u16_cases
      split: if_splits)

section \<open>Counted tables\<close>

text \<open>
  Every table of a program is a count followed by that many rows; the parsed rows fill the
  front of a fixed array, whose rest keeps its initial row.
\<close>

fun parse_rows ::
  "(u8 list \<Rightarrow> nat \<Rightarrow> ('r \<times> nat) vm_res) \<Rightarrow> u8 list \<Rightarrow> nat \<Rightarrow> nat \<Rightarrow> ('r list \<times> nat) vm_res" where
  "parse_rows row bytes 0 cursor = Inr ([], cursor)"
| "parse_rows row bytes (Suc n) cursor =
     and_then (row bytes cursor) (\<lambda>(r, next).
     and_then (parse_rows row bytes n next) (\<lambda>(rs, last). Inr (r # rs, last)))"

definition fill_array :: "nat \<Rightarrow> 'a \<Rightarrow> 'a list \<Rightarrow> 'a list" where
  "fill_array n d xs = xs @ replicate (n - length xs) d"

lemma fill_array_simps [simp]:
  "length xs \<le> n \<Longrightarrow> length (fill_array n d xs) = n"
  "m = length xs \<Longrightarrow> take m (fill_array n d xs) = xs"
  by (simp_all add: fill_array_def)

lemma fill_array_nth [simp]: "i < length xs \<Longrightarrow> fill_array n d xs ! i = xs ! i"
  by (simp add: fill_array_def nth_append)

lemma parse_rows_length: "parse_rows row bytes n c = Inr (rs, c') \<Longrightarrow> length rs = n"
  by (induction n arbitrary: c rs) (auto simp: and_then_eq_Inr)

text \<open>Every parsed row was read by the row parser, at some cursor.\<close>

lemma parse_rows_all:
  "parse_rows row bytes n c = Inr (rs, c') \<Longrightarrow> r \<in> set rs \<Longrightarrow> \<exists>i j. row bytes i = Inr (r, j)"
  by (induction n arbitrary: c rs) (fastforce simp: and_then_eq_Inr)+

lemma parse_rows_no_panic:
  "(\<And>c. row bytes c \<noteq> Inl Panic) \<Longrightarrow> parse_rows row bytes n c \<noteq> Inl Panic"
  by (induction n arbitrary: c) (auto simp: and_then_eq_Inl)

lemma read_u16_no_panic [simp]: "read_u16 bs p \<noteq> Inl Panic"
  by (simp add: read_u16_cases)

lemma read_u32_no_panic [simp]: "read_u32 bs p \<noteq> Inl Panic"
  by (simp add: read_u32_cases)

lemma read_i32_no_panic [simp]: "read_i32 bs p \<noteq> Inl Panic"
  by (simp add: read_i32_cases)

lemma read_u8_no_panic [simp]: "read_u8 bs p \<noteq> Inl Panic"
  by (simp add: read_u8_cases)

end
