(* ===== verification/Vm_Cache.thy ===== *)
theory Vm_Cache
  imports Vm_Model
begin

text \<open>
  The chunk cache (\<open>squidvm-core/src/chunk.rs\<close>): \<open>N\<close> slots, each holding the key of a
  loaded code chunk with its preload and active flags and the clock of its last use.
  Inserting into a full cache evicts, among the inactive slots, the one that is least in
  the order (not preloaded first, then least recently used); a cache whose slots are all
  active refuses.  The slots are a list of length \<open>N\<close>, and every loop of the code is a
  search for the first slot with a property.
\<close>

section \<open>State\<close>

datatype chunk_kind = HandlerChunk | FunctionChunk | ScreenChunk

record chunk_ref =
  c_app :: u16
  c_kind :: chunk_kind
  c_index :: u16

record cache_slot =
  cs_key :: chunk_ref
  cs_preload :: bool
  cs_active :: bool
  cs_last_used :: u32
  cs_occupied :: bool

definition empty_slot :: cache_slot where
  "empty_slot = \<lparr>cs_key = \<lparr>c_app = 0, c_kind = HandlerChunk, c_index = 0\<rparr>,
     cs_preload = False, cs_active = False, cs_last_used = 0, cs_occupied = False\<rparr>"

datatype cache_error = CacheFull | CacheMissing

record chunk_cache =
  cc_slots :: "cache_slot list"
  cc_clock :: u32

definition new_cache :: "nat \<Rightarrow> chunk_cache" where
  "new_cache n = \<lparr>cc_slots = replicate n empty_slot, cc_clock = 0\<rparr>"

section \<open>Operations\<close>

text \<open>The index of the first element with a property, as \<open>iter_mut().find\<close> yields it.\<close>

fun find_index :: "('a \<Rightarrow> bool) \<Rightarrow> 'a list \<Rightarrow> nat option" where
  "find_index p [] = None"
| "find_index p (x # xs) = (if p x then Some 0 else map_option Suc (find_index p xs))"

definition holds_key :: "chunk_ref \<Rightarrow> cache_slot \<Rightarrow> bool" where
  "holds_key key s \<longleftrightarrow> cs_occupied s \<and> cs_key s = key"

text \<open>
  \<open>evict_candidate_index\<close>: \<open>min_by_key\<close> over the occupied inactive slots, ordered by
  \<open>(preload, last_used)\<close>; of several minimal slots Rust returns the first.
\<close>

definition evict_before :: "cache_slot \<Rightarrow> cache_slot \<Rightarrow> bool" where
  "evict_before s t \<longleftrightarrow>
     (\<not> cs_preload s \<and> cs_preload t) \<or>
     (cs_preload s = cs_preload t \<and> cs_last_used s < cs_last_used t)"

fun min_evict :: "(nat \<times> cache_slot) list \<Rightarrow> nat option" where
  "min_evict [] = None"
| "min_evict [(i, s)] = Some i"
| "min_evict ((i, s) # (j, t) # rest) =
     (if evict_before t s then min_evict ((j, t) # rest) else min_evict ((i, s) # rest))"

definition evict_candidate_index :: "chunk_cache \<Rightarrow> nat option" where
  "evict_candidate_index c =
     min_evict (filter (\<lambda>(i, s). cs_occupied s \<and> \<not> cs_active s)
       (zip [0..<length (cc_slots c)] (cc_slots c)))"

definition fresh_slot :: "chunk_ref \<Rightarrow> bool \<Rightarrow> u32 \<Rightarrow> cache_slot" where
  "fresh_slot key preload clock = \<lparr>cs_key = key, cs_preload = preload, cs_active = False,
     cs_last_used = clock, cs_occupied = True\<rparr>"

definition cache_insert ::
  "chunk_ref \<Rightarrow> bool \<Rightarrow> chunk_cache \<Rightarrow> (cache_error, unit) res \<times> chunk_cache" where
  "cache_insert key preload c =
     (let clock = cc_clock c + 1; slots = cc_slots c; c = c\<lparr>cc_clock := clock\<rparr>
      in case find_index (holds_key key) slots of
           Some i \<Rightarrow>
             (Inr (), c\<lparr>cc_slots := slots[i := (slots ! i)\<lparr>cs_preload := preload, cs_last_used := clock\<rparr>]\<rparr>)
         | None \<Rightarrow>
             (case find_index (\<lambda>s. \<not> cs_occupied s) slots of
                Some i \<Rightarrow> (Inr (), c\<lparr>cc_slots := slots[i := fresh_slot key preload clock]\<rparr>)
              | None \<Rightarrow>
                  (case evict_candidate_index c of
                     None \<Rightarrow> (Inl (Err CacheFull), c)
                   | Some i \<Rightarrow> (Inr (), c\<lparr>cc_slots := slots[i := fresh_slot key preload clock]\<rparr>))))"

definition begin_execute ::
  "chunk_ref \<Rightarrow> chunk_cache \<Rightarrow> (cache_error, unit) res \<times> chunk_cache" where
  "begin_execute key c =
     (let clock = cc_clock c + 1; slots = cc_slots c; c = c\<lparr>cc_clock := clock\<rparr>
      in case find_index (holds_key key) slots of
           None \<Rightarrow> (Inl (Err CacheMissing), c)
         | Some i \<Rightarrow>
             (Inr (), c\<lparr>cc_slots := slots[i := (slots ! i)\<lparr>cs_active := True, cs_last_used := clock\<rparr>]\<rparr>))"

definition end_execute ::
  "chunk_ref \<Rightarrow> chunk_cache \<Rightarrow> (cache_error, unit) res \<times> chunk_cache" where
  "end_execute key c =
     (let slots = cc_slots c
      in case find_index (holds_key key) slots of
           None \<Rightarrow> (Inl (Err CacheMissing), c)
         | Some i \<Rightarrow> (Inr (), c\<lparr>cc_slots := slots[i := (slots ! i)\<lparr>cs_active := False\<rparr>]\<rparr>))"

definition cache_contains :: "chunk_cache \<Rightarrow> chunk_ref \<Rightarrow> bool" where
  "cache_contains c key = list_ex (holds_key key) (cc_slots c)"

definition drop_app :: "u16 \<Rightarrow> chunk_cache \<Rightarrow> chunk_cache" where
  "drop_app app c =
     c\<lparr>cc_slots := map (\<lambda>s. if cs_occupied s \<and> c_app (cs_key s) = app then empty_slot else s)
        (cc_slots c)\<rparr>"

section \<open>Searches\<close>

lemma find_index_Some:
  "find_index p xs = Some i \<Longrightarrow> i < length xs \<and> p (xs ! i) \<and> (\<forall>j < i. \<not> p (xs ! j))"
proof (induction xs arbitrary: i)
  case (Cons x xs)
  show ?case
  proof (cases "p x")
    case False
    with Cons.prems obtain j where "find_index p xs = Some j" "i = Suc j" by auto
    with Cons.IH False show ?thesis by (auto simp: nth_Cons split: nat.splits)
  qed (use Cons.prems in simp)
qed simp

lemma find_index_None: "find_index p xs = None \<longleftrightarrow> (\<forall>x \<in> set xs. \<not> p x)"
  by (induction xs) auto

lemma evict_before_linear:
  "\<not> evict_before s t \<Longrightarrow> \<not> evict_before t u \<Longrightarrow> \<not> evict_before s u"
  by (auto simp: evict_before_def)

lemma evict_before_asym: "evict_before s t \<Longrightarrow> \<not> evict_before t s"
  by (auto simp: evict_before_def)

lemma min_evict_least:
  "min_evict xs = Some k \<Longrightarrow> \<exists>u. (k, u) \<in> set xs \<and> (\<forall>(j, t) \<in> set xs. \<not> evict_before t u)"
proof (induction xs rule: min_evict.induct)
  case 1
  then show ?case by simp
next
  case (2 i s)
  then show ?case by (simp add: evict_before_def)
next
  case (3 i s j t rest)
  show ?case
  proof (cases "evict_before t s")
    case True
    with "3.prems" have "min_evict ((j, t) # rest) = Some k" by simp
    with "3.IH"(1) [OF True] obtain u where u: "(k, u) \<in> set ((j, t) # rest)"
      "\<forall>(l, v) \<in> set ((j, t) # rest). \<not> evict_before v u" by blast
    have "\<not> evict_before t u" using u(2) by simp
    then have "\<not> evict_before s u" by (rule evict_before_linear [OF evict_before_asym [OF True]])
    with u show ?thesis by (intro exI [of _ u]) simp
  next
    case False
    with "3.prems" have "min_evict ((i, s) # rest) = Some k" by simp
    with "3.IH"(2) [OF False] obtain u where u: "(k, u) \<in> set ((i, s) # rest)"
      "\<forall>(l, v) \<in> set ((i, s) # rest). \<not> evict_before v u" by blast
    have "\<not> evict_before s u" using u(2) by simp
    then have "\<not> evict_before t u" by (rule evict_before_linear [OF False])
    with u show ?thesis by (intro exI [of _ u]) auto
  qed
qed

lemma min_evict_None: "min_evict xs = None \<longleftrightarrow> xs = []"
  by (induction xs rule: min_evict.induct) auto

lemma in_set_indexed: "(i, x) \<in> set (zip [0..<length xs] xs) \<longleftrightarrow> i < length xs \<and> x = xs ! i"
proof
  assume "i < length xs \<and> x = xs ! i"
  then show "(i, x) \<in> set (zip [0..<length xs] xs)"
    using nth_mem [of i "zip [0..<length xs] xs"] by simp
qed (auto simp: set_zip)

text \<open>A slot can be evicted when it is occupied and not executing.\<close>

abbreviation evictable :: "cache_slot \<Rightarrow> bool" where
  "evictable s \<equiv> cs_occupied s \<and> \<not> cs_active s"

lemma evict_candidate_Some:
  assumes "evict_candidate_index c = Some i"
  shows "i < length (cc_slots c) \<and> evictable (cc_slots c ! i) \<and>
    (\<forall>t \<in> set (cc_slots c). evictable t \<longrightarrow> \<not> evict_before t (cc_slots c ! i))"
proof -
  let ?xs = "filter (\<lambda>(i, s). evictable s) (zip [0..<length (cc_slots c)] (cc_slots c))"
  from assms obtain s where s: "(i, s) \<in> set ?xs" "\<forall>(j, t) \<in> set ?xs. \<not> evict_before t s"
    unfolding evict_candidate_index_def by (blast dest: min_evict_least)
  from s(1) have i: "i < length (cc_slots c)" "s = cc_slots c ! i" "evictable s"
    by (auto simp: in_set_indexed)
  have "\<not> evict_before t s" if t: "t \<in> set (cc_slots c)" "evictable t" for t
  proof -
    from t obtain j where "j < length (cc_slots c)" "cc_slots c ! j = t"
      by (auto simp: in_set_conv_nth)
    with t have "(j, t) \<in> set ?xs" by (auto simp: in_set_indexed)
    with s(2) show ?thesis by auto
  qed
  with i show ?thesis by auto
qed

lemma evict_candidate_None:
  "evict_candidate_index c = None \<longleftrightarrow> (\<forall>s \<in> set (cc_slots c). \<not> evictable s)"
proof -
  have "evict_candidate_index c = None \<longleftrightarrow>
      (\<forall>i s. (i, s) \<in> set (zip [0..<length (cc_slots c)] (cc_slots c)) \<longrightarrow> \<not> evictable s)"
    unfolding evict_candidate_index_def min_evict_None filter_empty_conv by auto
  then show ?thesis by (simp add: in_set_indexed all_set_conv_all_nth)
qed

section \<open>The cache invariant\<close>

text \<open>No two occupied slots hold the same key.\<close>

definition cache_inv :: "nat \<Rightarrow> chunk_cache \<Rightarrow> bool" where
  "cache_inv n c \<longleftrightarrow> length (cc_slots c) = n \<and>
     (\<forall>i < n. \<forall>j < n. cs_occupied (cc_slots c ! i) \<and> cs_occupied (cc_slots c ! j) \<and>
        cs_key (cc_slots c ! i) = cs_key (cc_slots c ! j) \<longrightarrow> i = j)"

lemma cache_inv_new [simp]: "cache_inv n (new_cache n)"
  by (simp add: cache_inv_def new_cache_def empty_slot_def)

lemma cache_inv_update:
  assumes "cache_inv n c" and "i < n"
    and "cs_occupied s \<Longrightarrow>
      \<forall>j < n. j \<noteq> i \<longrightarrow> \<not> (cs_occupied (cc_slots c ! j) \<and> cs_key (cc_slots c ! j) = cs_key s)"
  shows "cache_inv n (c\<lparr>cc_slots := (cc_slots c)[i := s]\<rparr>)"
  using assms by (auto simp: cache_inv_def nth_list_update)

lemma cache_inv_clock [simp]: "cache_inv n (c\<lparr>cc_clock := k\<rparr>) = cache_inv n c"
  by (simp add: cache_inv_def)

text \<open>Touching a slot without changing its key or emptying it.\<close>

lemma cache_inv_touch:
  assumes "cache_inv n c" and "i < n" and "cs_occupied (cc_slots c ! i)"
    and "cs_key s = cs_key (cc_slots c ! i)"
  shows "cache_inv n (c\<lparr>cc_slots := (cc_slots c)[i := s]\<rparr>)"
  using assms by (intro cache_inv_update) (auto simp: cache_inv_def)

lemma cache_inv_fresh:
  assumes "cache_inv n c" and "i < n" and "find_index (holds_key key) (cc_slots c) = None"
  shows "cache_inv n (c\<lparr>cc_slots := (cc_slots c)[i := fresh_slot key preload k]\<rparr>)"
  using assms
  by (intro cache_inv_update) (auto simp: find_index_None fresh_slot_def holds_key_def cache_inv_def)

lemma evict_candidate_clock [simp]:
  "evict_candidate_index (c\<lparr>cc_clock := k\<rparr>) = evict_candidate_index c"
  by (simp add: evict_candidate_index_def)

text \<open>The three ways an insertion can end, and the slot it writes.\<close>

definition insert_target :: "chunk_ref \<Rightarrow> chunk_cache \<Rightarrow> nat option" where
  "insert_target key c =
     (case find_index (\<lambda>s. \<not> cs_occupied s) (cc_slots c) of
        Some i \<Rightarrow> Some i | None \<Rightarrow> evict_candidate_index c)"

lemma cache_insert_eq:
  "cache_insert key preload c =
     (let d = c\<lparr>cc_clock := cc_clock c + 1\<rparr>
      in case find_index (holds_key key) (cc_slots c) of
           Some i \<Rightarrow> (Inr (), d\<lparr>cc_slots := (cc_slots c)[i := (cc_slots c ! i)
             \<lparr>cs_preload := preload, cs_last_used := cc_clock c + 1\<rparr>]\<rparr>)
         | None \<Rightarrow>
             (case insert_target key c of
                None \<Rightarrow> (Inl (Err CacheFull), d)
              | Some i \<Rightarrow> (Inr (), d\<lparr>cc_slots :=
                  (cc_slots c)[i := fresh_slot key preload (cc_clock c + 1)]\<rparr>)))"
  by (simp add: cache_insert_def insert_target_def Let_def split: option.split)

lemma insert_target_Some:
  assumes "insert_target key c = Some i"
  shows "i < length (cc_slots c)"
    and "cs_occupied (cc_slots c ! i) \<Longrightarrow> \<not> cs_active (cc_slots c ! i)"
  using assms unfolding insert_target_def
  by (auto split: option.splits dest!: find_index_Some evict_candidate_Some)

lemma insert_target_None:
  "insert_target key c = None \<longleftrightarrow> (\<forall>s \<in> set (cc_slots c). cs_occupied s \<and> cs_active s)"
  by (auto simp: insert_target_def find_index_None evict_candidate_None split: option.split
      dest!: find_index_Some)

lemma cache_insert_inv:
  assumes "cache_inv n c" shows "cache_inv n (snd (cache_insert key preload c))"
proof -
  let ?d = "c\<lparr>cc_clock := cc_clock c + 1\<rparr>"
  have d: "cache_inv n ?d" and n: "length (cc_slots c) = n"
    using assms by (simp, simp add: cache_inv_def)
  show ?thesis
  proof (cases "find_index (holds_key key) (cc_slots c)")
    case (Some i)
    then have "i < n" "cs_occupied (cc_slots ?d ! i)"
      using find_index_Some [OF Some] n by (auto simp: holds_key_def)
    with Some cache_inv_touch [OF d, of i] show ?thesis by (simp add: cache_insert_eq Let_def)
  next
    case None
    then show ?thesis
      using d n cache_inv_fresh [OF d, of _ key preload "cc_clock c + 1"]
      by (auto simp: cache_insert_eq Let_def split: option.split dest: insert_target_Some)
  qed
qed

lemma begin_execute_inv:
  assumes "cache_inv n c" shows "cache_inv n (snd (begin_execute key c))"
proof -
  let ?d = "c\<lparr>cc_clock := cc_clock c + 1\<rparr>"
  have d: "cache_inv n ?d" and n: "length (cc_slots c) = n"
    using assms by (simp, simp add: cache_inv_def)
  show ?thesis
  proof (cases "find_index (holds_key key) (cc_slots c)")
    case (Some i)
    then have "i < n" "cs_occupied (cc_slots ?d ! i)"
      using find_index_Some [OF Some] n by (auto simp: holds_key_def)
    with Some cache_inv_touch [OF d, of i] show ?thesis by (simp add: begin_execute_def Let_def)
  qed (use d in \<open>simp add: begin_execute_def Let_def\<close>)
qed

lemma end_execute_inv:
  assumes "cache_inv n c" shows "cache_inv n (snd (end_execute key c))"
proof (cases "find_index (holds_key key) (cc_slots c)")
  case (Some i)
  then have "i < n" "cs_occupied (cc_slots c ! i)"
    using find_index_Some [OF Some] assms by (auto simp: holds_key_def cache_inv_def)
  with Some cache_inv_touch [OF assms, of i] show ?thesis by (simp add: end_execute_def Let_def)
qed (use assms in \<open>simp add: end_execute_def Let_def\<close>)

lemma drop_app_inv: "cache_inv n c \<Longrightarrow> cache_inv n (drop_app app c)"
  by (auto simp: cache_inv_def drop_app_def empty_slot_def)

section \<open>Behaviour\<close>

lemma cache_contains_nth:
  "cache_contains c key \<longleftrightarrow> (\<exists>i < length (cc_slots c). holds_key key (cc_slots c ! i))"
  by (simp add: cache_contains_def list_ex_length)

text \<open>A slot is executing a key when it holds it and is active.\<close>

definition executing :: "chunk_cache \<Rightarrow> chunk_ref \<Rightarrow> bool" where
  "executing c key \<longleftrightarrow> (\<exists>s \<in> set (cc_slots c). holds_key key s \<and> cs_active s)"

lemma executing_nth:
  "executing c key \<longleftrightarrow>
     (\<exists>i < length (cc_slots c). holds_key key (cc_slots c ! i) \<and> cs_active (cc_slots c ! i))"
  unfolding executing_def by (metis in_set_conv_nth)

lemma update_keeps_executing:
  assumes "executing c key" and "i < length (cc_slots c)"
    and "holds_key key (cc_slots c ! i) \<Longrightarrow> cs_active (cc_slots c ! i) \<Longrightarrow>
      holds_key key s \<and> cs_active s"
  shows "executing (c\<lparr>cc_clock := k, cc_slots := (cc_slots c)[i := s]\<rparr>) key"
  using assms by (fastforce simp: executing_nth nth_list_update)

text \<open>
  C26: inserting a chunk never evicts a chunk that is executing, whatever it does to the
  others.
\<close>

lemma cache_insert_keeps_executing:
  "executing c key' \<Longrightarrow> executing (snd (cache_insert key preload c)) key'"
proof (cases "find_index (holds_key key) (cc_slots c)")
  case (Some i)
  assume "executing c key'"
  with Some find_index_Some [OF Some] show ?thesis
    by (auto simp: cache_insert_eq Let_def holds_key_def intro!: update_keeps_executing)
next
  case None
  assume ex: "executing c key'"
  show ?thesis
  proof (cases "insert_target key c")
    case None
    with \<open>find_index _ _ = None\<close> ex show ?thesis
      by (simp add: cache_insert_eq Let_def executing_def)
  next
    case (Some i)
    with \<open>find_index _ _ = None\<close> ex insert_target_Some [OF Some] show ?thesis
      by (auto simp: cache_insert_eq Let_def holds_key_def intro!: update_keeps_executing)
  qed
qed

lemma cache_insert_keeps_executing_witness:
  "executing (snd (cache_insert \<lparr>c_app = 1, c_kind = ScreenChunk, c_index = 2\<rparr> False
     (snd (begin_execute \<lparr>c_app = 1, c_kind = HandlerChunk, c_index = 0\<rparr>
       (snd (cache_insert \<lparr>c_app = 1, c_kind = HandlerChunk, c_index = 0\<rparr> False (new_cache 1)))))))
     \<lparr>c_app = 1, c_kind = HandlerChunk, c_index = 0\<rparr>"
  by (rule cache_insert_keeps_executing)
    (simp add: executing_def cache_insert_def begin_execute_def new_cache_def empty_slot_def
      holds_key_def fresh_slot_def)

text \<open>
  An insertion fails exactly when the chunk is absent and every slot is executing;
  otherwise the chunk is in the cache afterwards.
\<close>

lemma cache_insert_result:
  "fst (cache_insert key preload c) =
     (if \<not> cache_contains c key \<and> list_all (\<lambda>s. cs_occupied s \<and> cs_active s) (cc_slots c)
      then Inl (Err CacheFull) else Inr ()) \<and>
   cache_contains (snd (cache_insert key preload c)) key =
     (fst (cache_insert key preload c) = Inr ())"
proof (cases "find_index (holds_key key) (cc_slots c)")
  case (Some i)
  then show ?thesis using find_index_Some [OF Some]
    by (auto simp: cache_insert_eq Let_def cache_contains_nth nth_list_update holds_key_def)
next
  case None
  have absent: "\<not> cache_contains c key"
    using None by (auto simp: cache_contains_def list_ex_iff find_index_None)
  show ?thesis
  proof (cases "insert_target key c")
    case None
    then have "\<forall>s \<in> set (cc_slots c). cs_occupied s \<and> cs_active s"
      by (simp add: insert_target_None)
    with \<open>find_index _ _ = None\<close> None absent show ?thesis
      by (simp add: cache_insert_eq Let_def cache_contains_def list_all_iff)
  next
    case (Some i)
    then have "\<exists>s \<in> set (cc_slots c). \<not> (cs_occupied s \<and> cs_active s)"
      using insert_target_None [of key c] by auto
    moreover have "cache_contains (snd (cache_insert key preload c)) key"
      using \<open>find_index _ _ = None\<close> Some insert_target_Some(1) [OF Some]
      by (auto simp: cache_insert_eq Let_def cache_contains_nth holds_key_def fresh_slot_def
          intro!: exI [of _ i])
    ultimately show ?thesis
      using \<open>find_index _ _ = None\<close> Some absent by (auto simp: cache_insert_eq Let_def list_all_iff)
  qed
qed

end
