(* ===== verification/Vm_Strings.thy ===== *)
theory Vm_Strings
  imports Vm_Model
begin

unbundle bit_operations_syntax

text \<open>
  The string interner (\<open>squidvm-core/src/strings.rs\<close>).  A string value is a reference
  into the program's string table, into a fixed list of static strings, or into the
  interner's dynamic table; a dynamic entry either owns a range of the byte buffer or is
  a slice of another string.  The definitions follow the code; the buffer and the table of
  entries are lists of the arrays' lengths.

  \<open>ref_str_from\<close> is recursive through slices without a bound.  It is modelled with fuel,
  and running out of fuel is \<open>Panic\<close>: in Rust an unbounded recursion overflows the stack
  and aborts.  The invariant \<open>interner_inv\<close> implies that this never happens.
\<close>

section \<open>The string table interface\<close>

text \<open>A \<open>&dyn StringTable\<close> is its two methods.\<close>

record string_table =
  tbl_string :: "u16 \<Rightarrow> rstr vm_res"
  tbl_find :: "rstr \<Rightarrow> u16 option vm_res"

definition STATIC_STRINGS :: "rstr list" where
  "STATIC_STRINGS = map lit
     [''unsupported'', ''ready'', ''display.default'', ''ssd1306'', ''i2c'', ''mono'',
      ''MONO1_PACKED'', ''sim'', ''zephyr'', ''esp'', ''ap'', ''sta'', ''started'',
      ''stopped'', ''idle'', ''unavailable'', ''configuring'', ''starting'', ''stopping'',
      ''scanning'', ''authenticating'', ''open'', ''wep'', ''wpa'', ''wpa2'', ''wpa3'',
      ''unknown'', ''wifi busy'']"

section \<open>State\<close>

record dyn_ref =
  dr_tag :: u8
  dr_retained :: u8
  dr_source :: u16
  dr_offset :: u16
  dr_len :: u16

abbreviation (input) DYNAMIC_STRING_EMPTY :: u8 where "DYNAMIC_STRING_EMPTY \<equiv> 0"
abbreviation (input) DYNAMIC_STRING_INLINE :: u8 where "DYNAMIC_STRING_INLINE \<equiv> 1"
abbreviation (input) DYNAMIC_STRING_SLICE :: u8 where "DYNAMIC_STRING_SLICE \<equiv> 2"
abbreviation (input) STRING_SOURCE_SQBC :: u16 where "STRING_SOURCE_SQBC \<equiv> 0"
abbreviation (input) STRING_SOURCE_STATIC :: u16 where "STRING_SOURCE_STATIC \<equiv> 1"
abbreviation (input) STRING_SOURCE_DYNAMIC :: u16 where "STRING_SOURCE_DYNAMIC \<equiv> 2"
abbreviation (input) STRING_SOURCE_KIND_SHIFT :: nat where "STRING_SOURCE_KIND_SHIFT \<equiv> 14"
abbreviation (input) STRING_SOURCE_ID_MASK :: u16 where "STRING_SOURCE_ID_MASK \<equiv> 0x3fff"

record interner =
  in_refs :: "dyn_ref list"
  in_next :: nat
  in_bytes :: "u8 list"
  in_bytes_len :: nat

definition encode_string_source :: "string_ref \<Rightarrow> u16 vm_res" where
  "encode_string_source reference =
     (let (kind, i) = (case reference of
          Sqbc i \<Rightarrow> (STRING_SOURCE_SQBC, i)
        | Static i \<Rightarrow> (STRING_SOURCE_STATIC, ucast i)
        | Dynamic i \<Rightarrow> (STRING_SOURCE_DYNAMIC, ucast i))
      in if i > STRING_SOURCE_ID_MASK then Inl (Err InvalidOperand)
         else Inr (push_bit STRING_SOURCE_KIND_SHIFT kind OR i))"

definition u8_try_from :: "u16 \<Rightarrow> u8 option" where
  "u8_try_from i = (if i \<le> 255 then Some (ucast i) else None)"

definition decode_string_source :: "u16 \<Rightarrow> string_ref vm_res" where
  "decode_string_source w =
     (let kind = drop_bit STRING_SOURCE_KIND_SHIFT w; i = w AND STRING_SOURCE_ID_MASK
      in if kind = STRING_SOURCE_SQBC then Inr (Sqbc i)
         else if kind = STRING_SOURCE_STATIC then
           and_then (ok_or InvalidOperand (u8_try_from i)) (\<lambda>k. Inr (Static k))
         else if kind = STRING_SOURCE_DYNAMIC then
           and_then (ok_or InvalidOperand (u8_try_from i)) (\<lambda>k. Inr (Dynamic k))
         else Inl (Err InvalidOperand))"

definition empty_ref :: dyn_ref where
  "empty_ref = \<lparr>dr_tag = DYNAMIC_STRING_EMPTY, dr_retained = 0, dr_source = 0, dr_offset = 0,
     dr_len = 0\<rparr>"

definition bool_u8 :: "bool \<Rightarrow> u8" where
  "bool_u8 b = (if b then 1 else 0)"

definition inline_ref :: "u16 \<Rightarrow> u16 \<Rightarrow> bool \<Rightarrow> dyn_ref" where
  "inline_ref offset len retained = \<lparr>dr_tag = DYNAMIC_STRING_INLINE,
     dr_retained = bool_u8 retained, dr_source = 0, dr_offset = offset, dr_len = len\<rparr>"

definition slice_ref :: "string_ref \<Rightarrow> u16 \<Rightarrow> u16 \<Rightarrow> bool \<Rightarrow> dyn_ref vm_res" where
  "slice_ref source offset len retained =
     and_then (encode_string_source source) (\<lambda>src.
       Inr \<lparr>dr_tag = DYNAMIC_STRING_SLICE, dr_retained = bool_u8 retained, dr_source = src,
            dr_offset = offset, dr_len = len\<rparr>)"

definition set_retained :: "dyn_ref \<Rightarrow> dyn_ref" where
  "set_retained r = r\<lparr>dr_retained := 1\<rparr>"

definition new_interner :: interner where
  "new_interner = \<lparr>in_refs = replicate MAX_SERVICE_STRINGS empty_ref, in_next = 0,
     in_bytes = replicate MAX_SERVICE_STRING_BYTES 0, in_bytes_len = 0\<rparr>"

section \<open>Reading a reference\<close>

fun ref_str_fuel ::
  "nat \<Rightarrow> string_table \<Rightarrow> string_ref \<Rightarrow> dyn_ref list \<Rightarrow> u8 list \<Rightarrow> nat \<Rightarrow> rstr vm_res"
where
  "ref_str_fuel 0 strings reference refs bytes bytes_len = Inl Panic"
| "ref_str_fuel (Suc n) strings reference refs bytes bytes_len =
     (case reference of
        Sqbc i \<Rightarrow> tbl_string strings i
      | Static i \<Rightarrow> ok_or InvalidOperand (get_at STATIC_STRINGS (unat i))
      | Dynamic i \<Rightarrow>
          and_then (ok_or InvalidOperand (get_at refs (unat i))) (\<lambda>r.
            let start = unat (dr_offset r); len = unat (dr_len r) in
            if dr_tag r = DYNAMIC_STRING_EMPTY then Inl (Err InvalidOperand)
            else if dr_tag r = DYNAMIC_STRING_INLINE then
              and_then (ok_or InvalidOperand (checked_add start len)) (\<lambda>stop.
                if stop > bytes_len then Inl (Err InvalidOperand)
                else case get_range bytes start stop of
                       None \<Rightarrow> Inl Panic
                     | Some raw \<Rightarrow> ok_or InvalidUtf8 (from_utf8 raw))
            else if dr_tag r = DYNAMIC_STRING_SLICE then
              and_then (decode_string_source (dr_source r)) (\<lambda>src.
              and_then (ref_str_fuel n strings src refs bytes bytes_len) (\<lambda>text.
              and_then (ok_or InvalidOperand (checked_add start len)) (\<lambda>stop.
                ok_or InvalidUtf8 (str_get text start stop))))
            else Inl (Err InvalidOperand)))"

definition ref_str_from ::
  "string_table \<Rightarrow> string_ref \<Rightarrow> dyn_ref list \<Rightarrow> u8 list \<Rightarrow> nat \<Rightarrow> rstr vm_res" where
  "ref_str_from = ref_str_fuel (MAX_SERVICE_STRINGS + 2)"

definition dynamic_str_from ::
  "string_table \<Rightarrow> u8 \<Rightarrow> dyn_ref list \<Rightarrow> u8 list \<Rightarrow> nat \<Rightarrow> rstr vm_res" where
  "dynamic_str_from strings i refs bytes bytes_len =
     ref_str_from strings (Dynamic i) refs bytes bytes_len"

definition dynamic_str :: "string_table \<Rightarrow> interner \<Rightarrow> u8 \<Rightarrow> rstr vm_res" where
  "dynamic_str strings it i =
     dynamic_str_from strings i (in_refs it) (in_bytes it) (in_bytes_len it)"

definition interner_get :: "string_table \<Rightarrow> interner \<Rightarrow> string_ref \<Rightarrow> rstr vm_res" where
  "interner_get strings it reference =
     (case reference of
        Sqbc i \<Rightarrow> tbl_string strings i
      | Static i \<Rightarrow> ok_or InvalidOperand (get_at STATIC_STRINGS (unat i))
      | Dynamic i \<Rightarrow> dynamic_str strings it i)"

text \<open>\<open>StringResolver::value_str\<close>.\<close>

definition value_str :: "string_table \<Rightarrow> interner \<Rightarrow> vm_value \<Rightarrow> rstr vm_res" where
  "value_str strings it v =
     (case v of VString reference \<Rightarrow> interner_get strings it reference
      | _ \<Rightarrow> Inl (Err InvalidOperand))"

section \<open>Interning\<close>

definition static_string_id :: "rstr \<Rightarrow> nat option" where
  "static_string_id v =
     (let hits = filter (\<lambda>i. STATIC_STRINGS ! i = v) [0..<length STATIC_STRINGS]
      in case hits of [] \<Rightarrow> None | i # _ \<Rightarrow> Some i)"

fun find_dynamic_loop :: "string_table \<Rightarrow> interner \<Rightarrow> rstr \<Rightarrow> nat list \<Rightarrow> nat option vm_res" where
  "find_dynamic_loop strings it v [] = Inr None"
| "find_dynamic_loop strings it v (i # is) =
     and_then (dynamic_str strings it (of_nat i)) (\<lambda>text.
       if text = v then Inr (Some i) else find_dynamic_loop strings it v is)"

definition find_dynamic :: "string_table \<Rightarrow> interner \<Rightarrow> rstr \<Rightarrow> nat option vm_res" where
  "find_dynamic strings it v = find_dynamic_loop strings it v [0..<in_next it]"

fun find_sub_dynamic ::
  "string_table \<Rightarrow> interner \<Rightarrow> rstr \<Rightarrow> nat list \<Rightarrow> (string_ref \<times> nat) option vm_res" where
  "find_sub_dynamic strings it v [] = Inr None"
| "find_sub_dynamic strings it v (i # is) =
     and_then (interner_get strings it (Dynamic (of_nat i))) (\<lambda>text.
       case str_find text v of
         Some offset \<Rightarrow> Inr (Some (Dynamic (of_nat i), offset))
       | None \<Rightarrow> find_sub_dynamic strings it v is)"

fun find_sub_static :: "rstr \<Rightarrow> nat \<Rightarrow> rstr list \<Rightarrow> (string_ref \<times> nat) option" where
  "find_sub_static v i [] = None"
| "find_sub_static v i (text # texts) =
     (case str_find text v of
        Some offset \<Rightarrow> Some (Static (of_nat i), offset)
      | None \<Rightarrow> find_sub_static v (Suc i) texts)"

definition find_substring ::
  "string_table \<Rightarrow> interner \<Rightarrow> rstr \<Rightarrow> (string_ref \<times> nat) option vm_res" where
  "find_substring strings it v =
     (if v = [] then Inr None
      else and_then (find_sub_dynamic strings it v [0..<in_next it]) (\<lambda>hit.
        case hit of Some h \<Rightarrow> Inr (Some h)
        | None \<Rightarrow> Inr (find_sub_static v 0 STATIC_STRINGS)))"

definition alloc_dynamic :: "rstr \<Rightarrow> bool \<Rightarrow> (vm_error, interner, vm_value) exec" where
  "alloc_dynamic v retained it =
     (if in_next it \<ge> MAX_SERVICE_STRINGS then throw TooManyStrings it
      else
        let offset = in_bytes_len it in
        case checked_add offset (length v) of
          None \<Rightarrow> throw TooManyStrings it
        | Some next_len \<Rightarrow>
            if next_len > length (in_bytes it) \<or> length v > 65535 then throw TooManyStrings it
            else
              let i = in_next it in
              (Inr (VString (Dynamic (of_nat i))),
               it\<lparr>in_bytes := splice (in_bytes it) offset v, in_bytes_len := next_len,
                  in_next := i + 1,
                  in_refs := (in_refs it)[i := inline_ref (of_nat offset) (of_nat (length v)) retained]\<rparr>))"

definition alloc_slice ::
  "string_ref \<Rightarrow> nat \<Rightarrow> nat \<Rightarrow> bool \<Rightarrow> (vm_error, interner, vm_value) exec" where
  "alloc_slice source offset len retained it =
     (if in_next it \<ge> MAX_SERVICE_STRINGS then throw TooManyStrings it
      else if offset > 65535 \<or> len > 65535 then throw InvalidOperand it
      else
        let i = in_next it; it = it\<lparr>in_next := i + 1\<rparr> in
        case slice_ref source (of_nat offset) (of_nat len) retained of
          Inl e \<Rightarrow> (Inl e, it)
        | Inr r \<Rightarrow> (Inr (VString (Dynamic (of_nat i))), it\<lparr>in_refs := (in_refs it)[i := r]\<rparr>))"

definition intern_dynamic ::
  "string_table \<Rightarrow> rstr \<Rightarrow> bool \<Rightarrow> (vm_error, interner, vm_value) exec" where
  "intern_dynamic strings v retained it =
     (if length v > MAX_RUNTIME_STRING_BYTES then throw InvalidOperand it
      else case tbl_find strings v of
        Inl e \<Rightarrow> (Inl e, it)
      | Inr (Some i) \<Rightarrow> ret (VString (Sqbc i)) it
      | Inr None \<Rightarrow>
          (case static_string_id v of
             Some i \<Rightarrow> ret (VString (Static (of_nat i))) it
           | None \<Rightarrow>
               (case find_dynamic strings it v of
                  Inl e \<Rightarrow> (Inl e, it)
                | Inr (Some i) \<Rightarrow>
                    ret (VString (Dynamic (of_nat i)))
                      (if retained then it\<lparr>in_refs := (in_refs it)[i := set_retained (in_refs it ! i)]\<rparr>
                       else it)
                | Inr None \<Rightarrow>
                    (case find_substring strings it v of
                       Inl e \<Rightarrow> (Inl e, it)
                     | Inr (Some (source, offset)) \<Rightarrow>
                         alloc_slice source offset (length v) retained it
                     | Inr None \<Rightarrow> alloc_dynamic v retained it))))"

definition intern_runtime :: "string_table \<Rightarrow> rstr \<Rightarrow> (vm_error, interner, vm_value) exec" where
  "intern_runtime strings v = intern_dynamic strings v False"

definition intern_event :: "string_table \<Rightarrow> rstr \<Rightarrow> (vm_error, interner, vm_value) exec" where
  "intern_event strings v = intern_dynamic strings v False"

definition intern_retained :: "string_table \<Rightarrow> rstr \<Rightarrow> (vm_error, interner, vm_value) exec" where
  "intern_retained strings v = intern_dynamic strings v True"

definition retain_value :: "vm_value \<Rightarrow> (vm_error, interner, vm_value) exec" where
  "retain_value v it =
     (case v of
        VString (Dynamic i) \<Rightarrow>
          (case get_at (in_refs it) (unat i) of
             None \<Rightarrow> throw InvalidOperand it
           | Some slot \<Rightarrow>
               if dr_tag slot = DYNAMIC_STRING_EMPTY then throw InvalidOperand it
               else ret v (it\<lparr>in_refs := (in_refs it)[unat i := set_retained slot]\<rparr>))
      | _ \<Rightarrow> ret v it)"

text \<open>
  \<open>retain_state_values\<close>: the dynamic table is emptied and the strings held by the state
  are interned again from the old table, in slot order.  On an error the values not yet
  reached stay as they were, over the new table.
\<close>

fun retain_loop ::
  "string_table \<Rightarrow> interner \<Rightarrow> interner \<Rightarrow> vm_value list \<Rightarrow> unit vm_res \<times> interner \<times> vm_value list"
where
  "retain_loop strings old it [] = (Inr (), it, [])"
| "retain_loop strings old it (v # vs) =
     (case v of
        VString (Dynamic i) \<Rightarrow>
          (case dynamic_str_from strings i (in_refs old) (in_bytes old) (in_bytes_len old) of
             Inl e \<Rightarrow> (Inl e, it, v # vs)
           | Inr text \<Rightarrow>
               (case intern_dynamic strings text True it of
                  (Inl e, it') \<Rightarrow> (Inl e, it', v # vs)
                | (Inr w, it') \<Rightarrow>
                    (case retain_loop strings old it' vs of (r, it'', ws) \<Rightarrow> (r, it'', w # ws))))
      | _ \<Rightarrow> (case retain_loop strings old it vs of (r, it', ws) \<Rightarrow> (r, it', v # ws)))"

definition retain_state_values ::
  "string_table \<Rightarrow> interner \<Rightarrow> vm_value list \<Rightarrow> unit vm_res \<times> interner \<times> vm_value list" where
  "retain_state_values strings it state =
     retain_loop strings it
       (it\<lparr>in_refs := replicate MAX_SERVICE_STRINGS empty_ref,
           in_bytes := replicate MAX_SERVICE_STRING_BYTES 0, in_next := 0, in_bytes_len := 0\<rparr>)
       state"

section \<open>The packed source of a slice\<close>

lemma take_bit_word_id:
  "unat w < 2 ^ n \<Longrightarrow> take_bit n (w :: 'a::len word) = w"
  by (rule word_unat_eq_iff [THEN iffD2]) (simp add: unsigned_take_bit_eq take_bit_nat_eq_self)

lemma unat_ucast_u8 [simp]: "unat (ucast (k :: u8) :: u16) = unat k"
  by (simp add: unsigned_ucast_eq take_bit_nat_eq_self order.strict_trans1 [OF unat_u8_bound])

lemma ucast_u8_u16_u8 [simp]: "ucast (ucast (k :: u8) :: u16) = k"
  by (rule bit_word_eqI) (auto simp: bit_simps dest: bit_imp_le_length)

lemma source_field_split:
  fixes kind i :: u16
  assumes "kind < 4" and "i \<le> 0x3fff"
  shows "drop_bit 14 (push_bit 14 kind OR i) = kind"
    and "(push_bit 14 kind OR i) AND 0x3fff = i"
proof -
  have m: "0x3fff = (mask 14 :: u16)" by (simp add: mask_eq_decr_exp)
  have i: "take_bit 14 i = i"
    using assms(2) by (intro take_bit_word_id) (simp add: word_le_nat_alt)
  have k: "take_bit 2 kind = kind"
    using assms(1) by (intro take_bit_word_id) (simp add: word_less_nat_alt)
  have ib: "bit i n \<Longrightarrow> n < 14" for n by (metis i bit_take_bit_iff)
  have kb: "bit kind n \<Longrightarrow> n < 2" for n by (metis k bit_take_bit_iff)
  show "drop_bit 14 (push_bit 14 kind OR i) = kind"
    by (rule bit_word_eqI) (auto simp: bit_simps dest: ib kb)
  show "(push_bit 14 kind OR i) AND 0x3fff = i"
    unfolding m by (rule bit_word_eqI) (auto simp: bit_simps dest: ib)
qed

lemma u8_try_from_ucast [simp]: "u8_try_from (ucast k) = Some k"
  by (simp add: u8_try_from_def word_le_nat_alt)

lemma decode_encode_source:
  "encode_string_source r = Inr w \<Longrightarrow> decode_string_source w = Inr r"
proof (cases r)
  case (Sqbc i)
  assume "encode_string_source r = Inr w"
  with Sqbc have "w = push_bit 14 0 OR i" "i \<le> 0x3fff"
    by (auto simp: encode_string_source_def split: if_splits)
  with Sqbc source_field_split [of 0 i] show ?thesis by (simp add: decode_string_source_def)
next
  case (Static k)
  assume "encode_string_source r = Inr w"
  with Static have "w = push_bit 14 1 OR ucast k" "(ucast k :: u16) \<le> 0x3fff"
    by (auto simp: encode_string_source_def split: if_splits)
  with Static source_field_split [of 1 "ucast k"] show ?thesis
    by (simp add: decode_string_source_def)
next
  case (Dynamic k)
  assume "encode_string_source r = Inr w"
  with Dynamic have "w = push_bit 14 2 OR ucast k" "(ucast k :: u16) \<le> 0x3fff"
    by (auto simp: encode_string_source_def split: if_splits)
  with Dynamic source_field_split [of 2 "ucast k"] show ?thesis
    by (simp add: decode_string_source_def)
qed

lemma encode_small_source:
  "encode_string_source (Static k) \<noteq> Inl e" "encode_string_source (Dynamic k) \<noteq> Inl e"
  using unat_u8_bound [of k]
  by (auto simp: encode_string_source_def word_less_nat_alt simp del: unat_u8_bound split: if_splits)

section \<open>Growing the dynamic table\<close>

text \<open>
  One table extends another when the bytes in use are the same and every entry in use is
  the same up to its retained mark.  Every string read from the smaller table reads the
  same from the larger one.
\<close>

definition same_ref :: "dyn_ref \<Rightarrow> dyn_ref \<Rightarrow> bool" where
  "same_ref r s \<longleftrightarrow> dr_tag r = dr_tag s \<and> dr_source r = dr_source s \<and>
     dr_offset r = dr_offset s \<and> dr_len r = dr_len s"

definition in_extends :: "interner \<Rightarrow> interner \<Rightarrow> bool" where
  "in_extends a b \<longleftrightarrow>
     in_bytes_len a \<le> in_bytes_len b \<and> length (in_bytes b) = length (in_bytes a) \<and>
     (\<forall>i j. j \<le> in_bytes_len a \<longrightarrow> j \<le> length (in_bytes a) \<longrightarrow>
        get_range (in_bytes b) i j = get_range (in_bytes a) i j) \<and>
     (\<forall>i r. get_at (in_refs a) i = Some r \<longrightarrow> dr_tag r \<noteq> DYNAMIC_STRING_EMPTY \<longrightarrow>
        (\<exists>s. get_at (in_refs b) i = Some s \<and> same_ref r s))"

lemma in_extends_refl [simp]: "in_extends a a"
  by (auto simp: in_extends_def same_ref_def)

lemma ref_dynamic_Inr:
  "ref_str_fuel (Suc n) T (Dynamic i) refs bytes k = Inr s \<longleftrightarrow>
     (\<exists>r. get_at refs (unat i) = Some r \<and>
        (dr_tag r = DYNAMIC_STRING_INLINE \<and> unat (dr_offset r) + unat (dr_len r) \<le> k \<and>
           get_range bytes (unat (dr_offset r)) (unat (dr_offset r) + unat (dr_len r)) = Some s \<and>
           utf8_valid s \<or>
         dr_tag r = DYNAMIC_STRING_SLICE \<and>
           (\<exists>src text. decode_string_source (dr_source r) = Inr src \<and>
              ref_str_fuel n T src refs bytes k = Inr text \<and>
              str_get text (unat (dr_offset r)) (unat (dr_offset r) + unat (dr_len r)) = Some s)))"
proof -
  have "unat (dr_offset r) + unat (dr_len r) \<le> usize_max" for r :: dyn_ref
    using unat_u16_bound [of "dr_offset r"] unat_u16_bound [of "dr_len r"]
    by (simp add: usize_max_def del: unat_u16_bound)
  then have "checked_add (unat (dr_offset r)) (unat (dr_len r)) =
      Some (unat (dr_offset r) + unat (dr_len r))" for r :: dyn_ref by (rule checked_add_Some)
  then show ?thesis
    by (auto simp: and_then_eq_Inr Let_def split: if_splits option.splits)
qed

lemma ref_static [simp]:
  "ref_str_fuel (Suc n) T (Sqbc j) refs bytes k = tbl_string T j"
  "ref_str_fuel (Suc n) T (Static i) refs bytes k =
     ok_or InvalidOperand (get_at STATIC_STRINGS (unat i))"
  by simp_all

declare ref_str_fuel.simps(2) [simp del]

lemma ref_dynamic_mono:
  assumes "ref_str_fuel (Suc n) T (Dynamic i) refs bytes k = Inr s"
    and "\<And>d. get_at refs (unat i) = Some d \<Longrightarrow> dr_tag d \<noteq> DYNAMIC_STRING_EMPTY \<Longrightarrow>
      \<exists>e. get_at refs' (unat i) = Some e \<and> same_ref d e"
    and "\<And>a b raw. b \<le> k \<Longrightarrow> get_range bytes a b = Some raw \<Longrightarrow> get_range bytes' a b = Some raw"
    and "k \<le> k'"
    and "\<And>src text. ref_str_fuel n T src refs bytes k = Inr text \<Longrightarrow>
      ref_str_fuel m T src refs' bytes' k' = Inr text"
  shows "ref_str_fuel (Suc m) T (Dynamic i) refs' bytes' k' = Inr s"
proof -
  from assms(1) obtain d where d: "get_at refs (unat i) = Some d" "dr_tag d \<noteq> 0"
    by (auto simp: ref_dynamic_Inr)
  with assms(2) obtain e where e: "get_at refs' (unat i) = Some e" "same_ref d e" by blast
  have tags: "dr_tag e = dr_tag d" "dr_source e = dr_source d" "dr_offset e = dr_offset d"
    "dr_len e = dr_len d" using e(2) by (simp_all add: same_ref_def)
  from assms(1) d(1) consider
      (inline) "dr_tag d = 1" "unat (dr_offset d) + unat (dr_len d) \<le> k" "utf8_valid s"
        "get_range bytes (unat (dr_offset d)) (unat (dr_offset d) + unat (dr_len d)) = Some s"
    | (slice) src tx where "dr_tag d = 2" "decode_string_source (dr_source d) = Inr src"
        "ref_str_fuel n T src refs bytes k = Inr tx"
        "str_get tx (unat (dr_offset d)) (unat (dr_offset d) + unat (dr_len d)) = Some s"
    by (auto simp: ref_dynamic_Inr)
  then show ?thesis
  proof cases
    case inline
    with assms(3) assms(4) e(1) tags show ?thesis by (simp add: ref_dynamic_Inr)
  next
    case slice
    with assms(5) e(1) tags show ?thesis by (simp add: ref_dynamic_Inr)
  qed
qed

lemma ref_str_extends:
  assumes "in_extends a b"
  shows "ref_str_fuel n T r (in_refs a) (in_bytes a) (in_bytes_len a) = Inr s \<Longrightarrow>
         ref_str_fuel n T r (in_refs b) (in_bytes b) (in_bytes_len b) = Inr s"
proof (induction n arbitrary: r s)
  case 0
  then show ?case by simp
next
  case (Suc n)
  show ?case
  proof (cases r)
    case (Dynamic i)
    have entry: "get_at (in_refs a) l = Some d \<Longrightarrow> dr_tag d \<noteq> 0 \<Longrightarrow>
        \<exists>e. get_at (in_refs b) l = Some e \<and> same_ref d e" for l d
      using assms unfolding in_extends_def by blast
    have bytes: "j \<le> in_bytes_len a \<Longrightarrow> get_range (in_bytes a) l j = Some raw \<Longrightarrow>
        get_range (in_bytes b) l j = Some raw" for l j raw
    proof -
      assume j: "j \<le> in_bytes_len a" "get_range (in_bytes a) l j = Some raw"
      then have "j \<le> length (in_bytes a)" by (auto simp: get_range_eq_Some)
      with assms j(1) have "get_range (in_bytes b) l j = get_range (in_bytes a) l j"
        unfolding in_extends_def by blast
      with j(2) show ?thesis by simp
    qed
    have len: "in_bytes_len a \<le> in_bytes_len b" using assms by (simp add: in_extends_def)
    show ?thesis using Suc.prems unfolding Dynamic
      by (rule ref_dynamic_mono [OF _ entry bytes len Suc.IH])
  qed (use Suc.prems in simp_all)
qed

lemma ref_str_more_fuel:
  "ref_str_fuel n T r refs bytes k = Inr s \<Longrightarrow> n \<le> m \<Longrightarrow> ref_str_fuel m T r refs bytes k = Inr s"
proof (induction n arbitrary: r s m)
  case 0
  then show ?case by simp
next
  case (Suc n)
  from Suc.prems(2) obtain l where m: "m = Suc l" "n \<le> l" by (cases m) auto
  show ?case
  proof (cases r)
    case (Dynamic i)
    have entry: "\<exists>e. get_at refs j = Some e \<and> same_ref d e" if "get_at refs j = Some d" for j d
      using that by (simp add: same_ref_def)
    show ?thesis using Suc.prems(1) unfolding Dynamic m
      by (rule ref_dynamic_mono [OF _ entry _ order_refl Suc.IH [OF _ m(2)]])
  qed (use Suc.prems m in simp_all)
qed

section \<open>The interner invariant\<close>

definition interner_inv :: "string_table \<Rightarrow> interner \<Rightarrow> bool" where
  "interner_inv T it \<longleftrightarrow>
     length (in_refs it) = MAX_SERVICE_STRINGS \<and>
     length (in_bytes it) = MAX_SERVICE_STRING_BYTES \<and>
     in_next it \<le> MAX_SERVICE_STRINGS \<and> in_bytes_len it \<le> MAX_SERVICE_STRING_BYTES \<and>
     (\<forall>i < MAX_SERVICE_STRINGS.
        dr_tag (in_refs it ! i) = DYNAMIC_STRING_EMPTY \<longleftrightarrow> in_next it \<le> i) \<and>
     (\<forall>i < in_next it. \<exists>s. utf8_valid s \<and>
        ref_str_fuel (i + 2) T (Dynamic (of_nat i)) (in_refs it) (in_bytes it) (in_bytes_len it)
          = Inr s)"

lemma unat_of_nat_u8 [simp]: "i < 256 \<Longrightarrow> unat (of_nat i :: u8) = i"
  by (simp add: unsigned_of_nat take_bit_nat_eq_self)

lemma unat_of_nat_u16 [simp]: "i \<le> 65535 \<Longrightarrow> unat (of_nat i :: u16) = i"
  by (simp add: unsigned_of_nat take_bit_nat_eq_self)

lemma STATIC_STRINGS_length [simp]: "length STATIC_STRINGS = 28"
  by (simp add: STATIC_STRINGS_def)

lemma STATIC_STRINGS_valid: "s \<in> set STATIC_STRINGS \<Longrightarrow> utf8_valid s"
proof -
  have "list_all utf8_valid STATIC_STRINGS" by (simp add: STATIC_STRINGS_def)
  then show "s \<in> set STATIC_STRINGS \<Longrightarrow> utf8_valid s" by (simp add: list_all_iff)
qed

lemma static_string_id_Some:
  assumes "static_string_id v = Some i"
  shows "i < 28" and "STATIC_STRINGS ! i = v"
proof -
  let ?hits = "filter (\<lambda>i. STATIC_STRINGS ! i = v) [0..<length STATIC_STRINGS]"
  from assms obtain rest where "?hits = i # rest"
    unfolding static_string_id_def Let_def by (cases ?hits) auto
  then have "i \<in> set ?hits" by (metis list.set_intros(1))
  then show "i < 28" and "STATIC_STRINGS ! i = v" by auto
qed

lemma new_interner_inv [simp]: "interner_inv T new_interner"
  by (simp add: interner_inv_def new_interner_def empty_ref_def)

lemma inv_dynamic:
  assumes "interner_inv T it" and "i < in_next it"
  obtains s where "utf8_valid s" and "dynamic_str T it (of_nat i) = Inr s"
    and "ref_str_fuel (i + 2) T (Dynamic (of_nat i)) (in_refs it) (in_bytes it) (in_bytes_len it)
      = Inr s"
proof -
  from assms obtain s where s: "utf8_valid s"
    "ref_str_fuel (i + 2) T (Dynamic (of_nat i)) (in_refs it) (in_bytes it) (in_bytes_len it) = Inr s"
    unfolding interner_inv_def by blast
  have "i + 2 \<le> MAX_SERVICE_STRINGS + 2" using assms by (simp add: interner_inv_def)
  with s(2) have "dynamic_str T it (of_nat i) = Inr s"
    unfolding dynamic_str_def dynamic_str_from_def ref_str_from_def by (rule ref_str_more_fuel)
  with s that show thesis by blast
qed

lemma interner_get_Dynamic [simp]: "interner_get T it (Dynamic i) = dynamic_str T it i"
  by (simp add: interner_get_def)

lemma interner_get_extends:
  assumes "in_extends a b" and "interner_get T a r = Inr s"
  shows "interner_get T b r = Inr s"
proof (cases r)
  case (Dynamic i)
  with assms(2) have "ref_str_fuel (MAX_SERVICE_STRINGS + 2) T (Dynamic i) (in_refs a) (in_bytes a)
      (in_bytes_len a) = Inr s"
    by (simp add: dynamic_str_def dynamic_str_from_def ref_str_from_def)
  from ref_str_extends [OF assms(1) this] Dynamic show ?thesis
    by (simp add: dynamic_str_def dynamic_str_from_def ref_str_from_def)
qed (use assms(2) in \<open>simp_all add: interner_get_def\<close>)

lemma value_str_extends:
  "in_extends a b \<Longrightarrow> value_str T a v = Inr s \<Longrightarrow> value_str T b v = Inr s"
  by (cases v) (auto simp: value_str_def dest: interner_get_extends)

section \<open>Adding an entry\<close>

text \<open>
  Both ways of adding an entry write the next free slot; what is needed of the new entry
  is that it reads as the interned string within the fuel its position allows.
\<close>

lemma add_entry:
  assumes inv: "interner_inv T it" and room: "in_next it < MAX_SERVICE_STRINGS"
    and it': "it' = it\<lparr>in_bytes := bytes, in_bytes_len := k, in_next := in_next it + 1,
      in_refs := (in_refs it)[in_next it := r]\<rparr>"
    and tag: "dr_tag r \<noteq> DYNAMIC_STRING_EMPTY"
    and bytes: "length bytes = MAX_SERVICE_STRING_BYTES" "in_bytes_len it \<le> k"
      "k \<le> MAX_SERVICE_STRING_BYTES"
      "\<And>i j. j \<le> in_bytes_len it \<Longrightarrow> get_range bytes i j = get_range (in_bytes it) i j"
    and reads: "ref_str_fuel (in_next it + 2) T (Dynamic (of_nat (in_next it)))
      ((in_refs it)[in_next it := r]) bytes k = Inr v"
    and v: "utf8_valid v"
  shows "interner_inv T it'" and "in_extends it it'"
    and "dynamic_str T it' (of_nat (in_next it)) = Inr v"
proof -
  have len: "length (in_refs it) = MAX_SERVICE_STRINGS" using inv by (simp add: interner_inv_def)
  have "i < in_next it" if "dr_tag (in_refs it ! i) \<noteq> 0" "i < MAX_SERVICE_STRINGS" for i
    using inv that unfolding interner_inv_def by (meson not_less)
  then have free: "(in_refs it)[in_next it := r] ! i = in_refs it ! i"
    if "dr_tag (in_refs it ! i) \<noteq> 0" "i < MAX_SERVICE_STRINGS" for i
    using that by fastforce
  show ext: "in_extends it it'"
    using bytes free len inv
    by (auto simp: in_extends_def it' get_at_def same_ref_def nth_list_update interner_inv_def)
  have tags: "\<forall>i < MAX_SERVICE_STRINGS. dr_tag (in_refs it' ! i) = 0 \<longleftrightarrow> in_next it' \<le> i"
    using inv room tag len unfolding interner_inv_def it' by (auto simp: nth_list_update)
  have "\<exists>s. utf8_valid s \<and> ref_str_fuel (i + 2) T (Dynamic (of_nat i)) (in_refs it') (in_bytes it')
      (in_bytes_len it') = Inr s" if "i < in_next it'" for i
  proof (cases "i = in_next it")
    case True
    with reads v show ?thesis by (auto simp: it')
  next
    case False
    with that have "i < in_next it" by (simp add: it')
    with inv obtain s where "utf8_valid s" "ref_str_fuel (i + 2) T (Dynamic (of_nat i)) (in_refs it)
        (in_bytes it) (in_bytes_len it) = Inr s"
      by (rule inv_dynamic)
    with ref_str_extends [OF ext] show ?thesis by blast
  qed
  with tags inv room bytes show inv': "interner_inv T it'"
    by (simp add: interner_inv_def it')
  then obtain s where s: "dynamic_str T it' (of_nat (in_next it)) = Inr s"
    "ref_str_fuel (in_next it + 2) T (Dynamic (of_nat (in_next it))) (in_refs it') (in_bytes it')
      (in_bytes_len it') = Inr s"
    by (rule inv_dynamic [of _ _ "in_next it"]) (simp_all add: it')
  with reads show "dynamic_str T it' (of_nat (in_next it)) = Inr v" by (simp add: it')
qed

lemma get_at_new [simp]: "i < length xs \<Longrightarrow> get_at (xs[i := x]) i = Some x"
  by (simp add: get_at_def)

lemma alloc_dynamic_correct:
  assumes inv: "interner_inv T it" and v: "utf8_valid v" and len: "length v \<le> MAX_RUNTIME_STRING_BYTES"
    and alloc: "alloc_dynamic v retained it = (res, it')"
  shows "interner_inv T it' \<and> in_extends it it' \<and> res \<noteq> Inl Panic \<and>
    (\<forall>w. res = Inr w \<longrightarrow> value_str T it' w = Inr v)"
proof (cases "in_next it < MAX_SERVICE_STRINGS \<and> in_bytes_len it + length v \<le> MAX_SERVICE_STRING_BYTES")
  case True
  have b: "length (in_bytes it) = MAX_SERVICE_STRING_BYTES" "in_bytes_len it \<le> MAX_SERVICE_STRING_BYTES"
    "length (in_refs it) = MAX_SERVICE_STRINGS"
    using inv by (simp_all add: interner_inv_def)
  let ?n = "in_next it" and ?o = "in_bytes_len it"
  let ?r = "inline_ref (of_nat ?o) (of_nat (length v)) retained"
  let ?bytes = "splice (in_bytes it) ?o v"
  have off: "unat (of_nat ?o :: u16) = ?o" "unat (of_nat (length v) :: u16) = length v"
    using b(2) len by simp_all
  have n: "unat (of_nat ?n :: u8) = ?n" using True by simp
  have "ref_str_fuel (Suc (Suc ?n)) T (Dynamic (of_nat ?n)) ((in_refs it)[?n := ?r]) ?bytes (?o + length v)
      = Inr v"
    using True b v by (simp add: ref_dynamic_Inr n off inline_ref_def splice_at)
  then have reads: "ref_str_fuel (?n + 2) T (Dynamic (of_nat ?n)) ((in_refs it)[?n := ?r]) ?bytes
      (?o + length v) = Inr v" by simp
  have it': "it' = it\<lparr>in_bytes := ?bytes, in_bytes_len := ?o + length v, in_next := ?n + 1,
      in_refs := (in_refs it)[?n := ?r]\<rparr>" and res: "res = Inr (VString (Dynamic (of_nat ?n)))"
    using alloc True b len by (auto simp: alloc_dynamic_def Let_def usize_max_def)
  have "interner_inv T it'" "in_extends it it'" "dynamic_str T it' (of_nat ?n) = Inr v"
    using add_entry [OF inv _ it' _ _ _ _ _ reads v] True b
    by (simp_all add: inline_ref_def splice_before)
  with res show ?thesis by (simp add: value_str_def)
next
  case False
  then have "it' = it \<and> (\<exists>e. res = Inl (Err e))"
    using alloc inv len
    by (auto simp: alloc_dynamic_def interner_inv_def Let_def usize_max_def split: if_splits)
  with inv show ?thesis by auto
qed


lemma alloc_slice_correct:
  assumes inv: "interner_inv T it" and v: "utf8_valid v" "v \<noteq> []"
    and lens: "length v \<le> MAX_RUNTIME_STRING_BYTES"
    and src: "(\<exists>j. source = Dynamic (of_nat j) \<and> j < in_next it) \<or> (\<exists>k. source = Static k)"
    and tx: "interner_get T it source = Inr tx" "utf8_valid tx" "str_find tx v = Some offset"
    and alloc: "alloc_slice source offset (length v) retained it = (res, it')"
  shows "interner_inv T it' \<and> in_extends it it' \<and> res \<noteq> Inl Panic \<and>
    (\<forall>w. res = Inr w \<longrightarrow> value_str T it' w = Inr v)"
proof (cases "in_next it < MAX_SERVICE_STRINGS \<and> offset \<le> 65535")
  case True
  let ?n = "in_next it"
  have b: "length (in_bytes it) = MAX_SERVICE_STRING_BYTES" "in_bytes_len it \<le> MAX_SERVICE_STRING_BYTES"
    "length (in_refs it) = MAX_SERVICE_STRINGS"
    using inv by (simp_all add: interner_inv_def)
  obtain a c where split: "tx = a @ v @ c" "length a = offset" using str_find_Some [OF tx(3)] by blast
  obtain code where code: "encode_string_source source = Inr code"
    using src encode_small_source by (cases "encode_string_source source") auto
  define r where "r = \<lparr>dr_tag = DYNAMIC_STRING_SLICE, dr_retained = bool_u8 retained,
    dr_source = code, dr_offset = of_nat offset, dr_len = of_nat (length v)\<rparr>"
  have it': "it' = it\<lparr>in_bytes := in_bytes it, in_bytes_len := in_bytes_len it, in_next := ?n + 1,
      in_refs := (in_refs it)[?n := r]\<rparr>" and res: "res = Inr (VString (Dynamic (of_nat ?n)))"
    using alloc True lens code by (auto simp: alloc_slice_def Let_def slice_ref_def r_def)
  let ?refs = "(in_refs it)[?n := r]"
  have free: "i < in_next it" if "dr_tag (in_refs it ! i) \<noteq> 0" "i < MAX_SERVICE_STRINGS" for i
    using inv that unfolding interner_inv_def by (meson not_less)
  have ext: "in_extends it it'"
    using free b by (fastforce simp: in_extends_def it' get_at_def same_ref_def nth_list_update)
  have fuel: "ref_str_fuel (?n + 1) T source ?refs (in_bytes it) (in_bytes_len it) = Inr tx"
  proof (cases "\<exists>k. source = Static k")
    case True
    with tx(1) show ?thesis by (auto simp: interner_get_def)
  next
    case False
    with src obtain j where j: "source = Dynamic (of_nat j)" "j < ?n" by blast
    from inv_dynamic [OF inv j(2)] tx(1) j(1)
    have "ref_str_fuel (j + 2) T source (in_refs it) (in_bytes it) (in_bytes_len it) = Inr tx"
      by (metis Inr_inject interner_get_Dynamic)
    from ref_str_extends [OF ext this]
    have "ref_str_fuel (j + 2) T source ?refs (in_bytes it) (in_bytes_len it) = Inr tx" by (simp add: it')
    then show ?thesis by (rule ref_str_more_fuel) (use j(2) in simp)
  qed
  have n: "unat (of_nat ?n :: u8) = ?n" using True by simp
  have "str_get tx offset (offset + length v) = Some v"
    using str_get_substring [of a v c] tx(2) v split by simp
  then have "ref_str_fuel (Suc (?n + 1)) T (Dynamic (of_nat ?n)) ?refs (in_bytes it) (in_bytes_len it)
      = Inr v"
    using True b lens fuel decode_encode_source [OF code]
    by (simp add: ref_dynamic_Inr n r_def)
  then have reads: "ref_str_fuel (?n + 2) T (Dynamic (of_nat ?n)) ?refs (in_bytes it) (in_bytes_len it)
      = Inr v" by simp
  have "interner_inv T it'" "in_extends it it'" "dynamic_str T it' (of_nat ?n) = Inr v"
    using add_entry [OF inv _ it' _ _ _ _ _ reads v(1)] True b by (simp_all add: r_def)
  with res show ?thesis by (simp add: value_str_def)
next
  case False
  then have "it' = it \<and> (\<exists>e. res = Inl (Err e))"
    using alloc lens by (auto simp: alloc_slice_def Let_def split: if_splits)
  with inv show ?thesis by auto
qed

section \<open>Searching the table\<close>

lemma find_dynamic_loop_correct:
  assumes "interner_inv T it" and "\<forall>i \<in> set is. i < in_next it"
  shows "\<exists>hit. find_dynamic_loop T it v is = Inr hit \<and>
    (\<forall>i. hit = Some i \<longrightarrow> i < in_next it \<and> dynamic_str T it (of_nat i) = Inr v)"
  using assms(2)
proof (induction "is")
  case (Cons i "is")
  then obtain s where s: "dynamic_str T it (of_nat i) = Inr s"
    using inv_dynamic [OF assms(1)] by (metis list.set_intros(1))
  with Cons show ?case by (cases "s = v") auto
qed simp

lemma find_sub_dynamic_correct:
  assumes "interner_inv T it" and "\<forall>i \<in> set is. i < in_next it"
  shows "\<exists>hit. find_sub_dynamic T it v is = Inr hit \<and>
    (\<forall>r off. hit = Some (r, off) \<longrightarrow>
       (\<exists>i s. r = Dynamic (of_nat i) \<and> i < in_next it \<and> utf8_valid s \<and>
          interner_get T it r = Inr s \<and> str_find s v = Some off))"
  using assms(2)
proof (induction "is")
  case (Cons i "is")
  then obtain s where s: "dynamic_str T it (of_nat i) = Inr s" "utf8_valid s"
    using inv_dynamic [OF assms(1)] by (metis list.set_intros(1))
  show ?case
  proof (cases "str_find s v")
    case None
    with Cons s show ?thesis by simp
  next
    case (Some off)
    with Cons.prems s show ?thesis by auto
  qed
qed simp

lemma find_sub_static_Some:
  assumes "find_sub_static v n texts = Some (r, off)" and "n + length texts \<le> 256"
  shows "\<exists>i < length texts. r = Static (of_nat (n + i)) \<and> str_find (texts ! i) v = Some off"
  using assms
proof (induction texts arbitrary: n)
  case (Cons tx texts)
  show ?case
  proof (cases "str_find tx v")
    case None
    with Cons obtain i where "i < length texts" "r = Static (of_nat (Suc n + i))"
      "str_find (texts ! i) v = Some off" by fastforce
    then show ?thesis by (intro exI [of _ "Suc i"]) simp
  qed (use Cons.prems in auto)
qed simp

section \<open>Interning is correct\<close>

lemma in_extends_trans:
  assumes "in_extends a b" and "in_extends b c" shows "in_extends a c"
proof -
  have "get_range (in_bytes c) i j = get_range (in_bytes a) i j"
    if "j \<le> in_bytes_len a" "j \<le> length (in_bytes a)" for i j
    using assms that unfolding in_extends_def by (metis order.trans)
  moreover have "\<exists>s. get_at (in_refs c) i = Some s \<and> same_ref r s"
    if r: "get_at (in_refs a) i = Some r" "dr_tag r \<noteq> 0" for i r
  proof -
    from r assms(1) obtain s where s: "get_at (in_refs b) i = Some s" "same_ref r s"
      unfolding in_extends_def by blast
    then have "dr_tag s \<noteq> 0" using r(2) by (simp add: same_ref_def)
    with s(1) assms(2) obtain u where "get_at (in_refs c) i = Some u" "same_ref s u"
      unfolding in_extends_def by blast
    with s(2) show ?thesis by (auto simp: same_ref_def)
  qed
  moreover have "in_bytes_len a \<le> in_bytes_len c" "length (in_bytes c) = length (in_bytes a)"
    using assms unfolding in_extends_def by linarith+
  ultimately show ?thesis unfolding in_extends_def by blast
qed

lemma mark_retained:
  assumes inv: "interner_inv T it" and i: "i < length (in_refs it)"
    and it': "it' = it\<lparr>in_refs := (in_refs it)[i := set_retained (in_refs it ! i)]\<rparr>"
  shows "interner_inv T it'" and "in_extends it it'"
proof -
  have same: "same_ref (in_refs it ! j) (in_refs it' ! j)" if "j < length (in_refs it)" for j
    using that by (cases "j = i") (simp_all add: it' same_ref_def set_retained_def)
  show ext: "in_extends it it'"
    using same by (auto simp: in_extends_def it' get_at_def split: if_splits)
  have "length (in_refs it) = MAX_SERVICE_STRINGS" using inv by (simp add: interner_inv_def)
  then have tags: "\<forall>j < MAX_SERVICE_STRINGS. dr_tag (in_refs it' ! j) = 0 \<longleftrightarrow> in_next it' \<le> j"
    using inv same unfolding interner_inv_def it' same_ref_def by simp
  have "\<exists>s. utf8_valid s \<and> ref_str_fuel (j + 2) T (Dynamic (of_nat j)) (in_refs it') (in_bytes it')
      (in_bytes_len it') = Inr s" if "j < in_next it'" for j
  proof -
    from that have "j < in_next it" by (simp add: it')
    from inv_dynamic [OF inv this] show ?thesis using ref_str_extends [OF ext] by metis
  qed
  with tags inv show "interner_inv T it'" by (simp add: interner_inv_def it')
qed

lemma ref_str_valid:
  assumes table: "\<And>i s. tbl_string T i = Inr s \<Longrightarrow> utf8_valid s"
  shows "ref_str_fuel n T r refs bytes k = Inr s \<Longrightarrow> utf8_valid s"
proof (induction n arbitrary: r s)
  case (Suc n)
  show ?case
  proof (cases r)
    case (Dynamic i)
    with Suc show ?thesis by (auto simp: ref_dynamic_Inr dest: str_get_valid)
  next
    case (Static i)
    with Suc.prems show ?thesis by (auto simp: get_at_eq_Some intro: STATIC_STRINGS_valid)
  qed (use Suc.prems table in auto)
qed simp

text \<open>
  What the interner needs of the program's string table: a string it finds is the string
  it returns for that index, and every string it returns is UTF-8.
\<close>

locale string_table_laws =
  fixes T :: string_table
  assumes find_sound: "tbl_find T v = Inr (Some i) \<Longrightarrow> tbl_string T i = Inr v"
    and string_valid: "tbl_string T i = Inr s \<Longrightarrow> utf8_valid s"
begin

lemma find_substring_correct:
  assumes inv: "interner_inv T it"
  shows "\<exists>hit. find_substring T it v = Inr hit \<and>
    (\<forall>r off. hit = Some (r, off) \<longrightarrow> v \<noteq> [] \<and>
       ((\<exists>j. r = Dynamic (of_nat j) \<and> j < in_next it) \<or> (\<exists>k. r = Static k)) \<and>
       (\<exists>s. utf8_valid s \<and> interner_get T it r = Inr s \<and> str_find s v = Some off))"
proof (cases "v = []")
  case False
  obtain hit where hit: "find_sub_dynamic T it v [0..<in_next it] = Inr hit"
    "\<And>r off. hit = Some (r, off) \<Longrightarrow> \<exists>i s. r = Dynamic (of_nat i) \<and> i < in_next it \<and>
      utf8_valid s \<and> interner_get T it r = Inr s \<and> str_find s v = Some off"
    using find_sub_dynamic_correct [OF inv, of "[0..<in_next it]" v] by auto
  show ?thesis
  proof (cases hit)
    case None
    have "\<exists>s. utf8_valid s \<and> interner_get T it r = Inr s \<and> str_find s v = Some off"
      "\<exists>k. r = Static k" if "find_sub_static v 0 STATIC_STRINGS = Some (r, off)" for r off
    proof -
      from find_sub_static_Some [OF that] obtain i where i: "i < 28" "r = Static (of_nat i)"
        "str_find (STATIC_STRINGS ! i) v = Some off" by auto
      then show "\<exists>s. utf8_valid s \<and> interner_get T it r = Inr s \<and> str_find s v = Some off"
        by (auto simp: interner_get_def get_at_def intro!: exI [of _ "STATIC_STRINGS ! i"] STATIC_STRINGS_valid)
      from i show "\<exists>k. r = Static k" by blast
    qed
    with False hit(1) None show ?thesis by (auto simp: find_substring_def)
  next
    case (Some h)
    with False hit(1) hit(2) [of "fst h" "snd h"] show ?thesis
      by (cases h) (simp add: find_substring_def; blast)
  qed
qed (simp add: find_substring_def)

lemma intern_dynamic_correct:
  assumes inv: "interner_inv T it" and v: "utf8_valid v"
    and run: "intern_dynamic T v retained it = (res, it')"
  shows "interner_inv T it' \<and> in_extends it it' \<and>
    (res = Inl Panic \<longrightarrow> tbl_find T v = Inl Panic) \<and>
    (\<forall>w. res = Inr w \<longrightarrow> value_str T it' w = Inr v)"
proof (cases "length v > MAX_RUNTIME_STRING_BYTES")
  case True
  with run inv show ?thesis by (auto simp: intern_dynamic_def)
next
  case short: False
  show ?thesis
  proof (cases "tbl_find T v")
    case (Inl e)
    with short run inv show ?thesis by (auto simp: intern_dynamic_def)
  next
    case found: (Inr hit)
    show ?thesis
    proof (cases hit)
      case (Some i)
      with found short run inv find_sound show ?thesis
        by (auto simp: intern_dynamic_def value_str_def interner_get_def)
    next
      case no_table: None
      show ?thesis
      proof (cases "static_string_id v")
        case (Some i)
        with static_string_id_Some [OF Some] found no_table short run inv show ?thesis
          by (auto simp: intern_dynamic_def value_str_def interner_get_def get_at_def)
      next
        case no_static: None
        obtain dyn where dyn: "find_dynamic T it v = Inr dyn"
          "\<And>i. dyn = Some i \<Longrightarrow> i < in_next it \<and> dynamic_str T it (of_nat i) = Inr v"
          using find_dynamic_loop_correct [OF inv, of "[0..<in_next it]" v]
          unfolding find_dynamic_def by auto
        obtain sub where sub: "find_substring T it v = Inr sub"
          "\<And>r off. sub = Some (r, off) \<Longrightarrow> v \<noteq> [] \<and>
             ((\<exists>j. r = Dynamic (of_nat j) \<and> j < in_next it) \<or> (\<exists>k. r = Static k)) \<and>
             (\<exists>s. utf8_valid s \<and> interner_get T it r = Inr s \<and> str_find s v = Some off)"
          using find_substring_correct [OF inv, of v] by blast
        note eq = run [unfolded intern_dynamic_def] short found no_table no_static dyn(1) sub(1)
        show ?thesis
        proof (cases dyn)
          case (Some i)
          let ?marked = "it\<lparr>in_refs := (in_refs it)[i := set_retained (in_refs it ! i)]\<rparr>"
          have i: "i < in_next it" "dynamic_str T it (of_nat i) = Inr v" using dyn(2) Some by auto
          then have "i < length (in_refs it)" using inv by (simp add: interner_inv_def)
          note marked = mark_retained [OF inv this refl]
          from eq Some have "it' = (if retained then ?marked else it)"
            "res = Inr (VString (Dynamic (of_nat i)))" by auto
          with marked inv i(2) interner_get_extends [of it it' T "Dynamic (of_nat i)"] show ?thesis
            by (auto simp: value_str_def)
        next
          case no_dyn: None
          show ?thesis
          proof (cases sub)
            case (Some h)
            obtain r off where h: "h = (r, off)" by (cases h)
            with eq no_dyn Some have "alloc_slice r off (length v) retained it = (res, it')" by simp
            moreover from sub(2) [of r off] Some h obtain s where "v \<noteq> []"
              "(\<exists>j. r = Dynamic (of_nat j) \<and> j < in_next it) \<or> (\<exists>k. r = Static k)"
              "utf8_valid s" "interner_get T it r = Inr s" "str_find s v = Some off" by auto
            ultimately have "interner_inv T it' \<and> in_extends it it' \<and> res \<noteq> Inl Panic \<and>
                (\<forall>w. res = Inr w \<longrightarrow> value_str T it' w = Inr v)"
              using short by (intro alloc_slice_correct [OF inv v]) simp_all
            then show ?thesis by blast
          next
            case None
            with eq no_dyn have "alloc_dynamic v retained it = (res, it')" by simp
            with alloc_dynamic_correct [OF inv v] short show ?thesis by auto
          qed
        qed
      qed
    qed
  qed
qed

lemma retain_loop_correct:
  assumes "interner_inv T it" and "retain_loop T old it vs = (Inr (), it', ws)"
  shows "interner_inv T it' \<and> in_extends it it' \<and> length ws = length vs \<and>
    (\<forall>i < length vs. (\<not> is_string (vs ! i) \<longrightarrow> ws ! i = vs ! i) \<and>
       (\<forall>s. value_str T old (vs ! i) = Inr s \<longrightarrow> value_str T it' (ws ! i) = Inr s))"
  using assms
proof (induction vs arbitrary: it ws)
  case (Cons v vs)
  show ?case
  proof (cases "\<exists>i. v = VString (Dynamic i)")
    case True
    then obtain i where v: "v = VString (Dynamic i)" by blast
    obtain tx where tx: "dynamic_str_from T i (in_refs old) (in_bytes old) (in_bytes_len old) = Inr tx"
      using Cons.prems(2) by (cases "dynamic_str_from T i (in_refs old) (in_bytes old) (in_bytes_len old)")
        (auto simp: v)
    then have valid: "utf8_valid tx"
      unfolding dynamic_str_from_def ref_str_from_def by (rule ref_str_valid [rotated]) (rule string_valid)
    obtain w it1 where w: "intern_dynamic T tx True it = (Inr w, it1)"
      using Cons.prems(2) tx by (cases "intern_dynamic T tx True it"; cases "fst (intern_dynamic T tx True it)")
        (auto simp: v)
    obtain ws' where ws: "retain_loop T old it1 vs = (Inr (), it', ws')" "ws = w # ws'"
      using Cons.prems(2) tx w by (auto simp: v split: prod.splits)
    from intern_dynamic_correct [OF Cons.prems(1) valid w]
    have one: "interner_inv T it1" "in_extends it it1" "value_str T it1 w = Inr tx" by auto
    note rest = Cons.IH [OF one(1) ws(1)]
    have "value_str T it' w = Inr tx" using one(3) rest by (blast intro: value_str_extends)
    moreover have "value_str T old v = Inr tx"
      using tx by (simp add: v value_str_def dynamic_str_def)
    ultimately show ?thesis
      using rest one(2) ws(2) in_extends_trans by (auto simp: nth_Cons v split: nat.splits)
  next
    case False
    then have "retain_loop T old it (v # vs) =
        (case retain_loop T old it vs of (r, it', ws) \<Rightarrow> (r, it', v # ws))"
      by (cases v; cases "\<exists>r. v = VString r") (auto split: string_ref.split)
    with Cons.prems(2) obtain ws' where ws: "retain_loop T old it vs = (Inr (), it', ws')" "ws = v # ws'"
      by (auto split: prod.splits)
    note rest = Cons.IH [OF Cons.prems(1) ws(1)]
    have "value_str T old v = Inr s \<Longrightarrow> value_str T it' v = Inr s" for s
      using False by (cases v) (auto simp: value_str_def interner_get_def split: string_ref.splits)
    with rest ws(2) show ?thesis by (auto simp: nth_Cons split: nat.splits)
  qed
qed simp

end

section \<open>No string operation panics on a total table\<close>

definition table_total :: "string_table \<Rightarrow> bool" where
  "table_total T \<longleftrightarrow> (\<forall>i. tbl_string T i \<noteq> Inl Panic) \<and> (\<forall>v. tbl_find T v \<noteq> Inl Panic)"

lemma dynamic_str_no_panic:
  assumes "interner_inv T it"
  shows "dynamic_str T it i \<noteq> Inl Panic"
proof (cases "unat i < in_next it")
  case True
  have "of_nat (unat i) = i" by simp
  with inv_dynamic [OF assms True] show ?thesis by (metis sum.distinct(1))
next
  case False
  then have "dr_tag (in_refs it ! unat i) = DYNAMIC_STRING_EMPTY" if "unat i < MAX_SERVICE_STRINGS"
    using assms that by (simp add: interner_inv_def)
  moreover have "length (in_refs it) = MAX_SERVICE_STRINGS" using assms by (simp add: interner_inv_def)
  ultimately have "ref_str_fuel (Suc n) T (Dynamic i) (in_refs it) (in_bytes it) (in_bytes_len it) \<noteq> Inl Panic" for n
    by (auto simp: ref_str_fuel.simps get_at_def Let_def)
  from this [of 33] show ?thesis
    by (simp add: dynamic_str_def dynamic_str_from_def ref_str_from_def)
qed

lemma interner_get_no_panic:
  assumes "interner_inv T it" and "table_total T"
  shows "interner_get T it r \<noteq> Inl Panic"
  using assms dynamic_str_no_panic by (auto simp: interner_get_def table_total_def split: string_ref.splits)

lemma value_str_no_panic:
  "interner_inv T it \<Longrightarrow> table_total T \<Longrightarrow> value_str T it v \<noteq> Inl Panic"
  by (auto simp: value_str_def interner_get_no_panic split: vm_value.splits)

lemma retain_value_result:
  assumes "interner_inv T it" and "retain_value v it = (res, it')"
  shows "interner_inv T it' \<and> in_extends it it' \<and> res \<noteq> Inl Panic \<and> (\<forall>w. res = Inr w \<longrightarrow> w = v)"
  using assms mark_retained [OF assms(1) _ refl]
  by (auto simp: retain_value_def get_at_def split: vm_value.splits string_ref.splits if_splits option.splits)

lemma empty_interner_inv:
  "interner_inv T (it\<lparr>in_refs := replicate MAX_SERVICE_STRINGS empty_ref,
     in_bytes := replicate MAX_SERVICE_STRING_BYTES 0, in_next := 0, in_bytes_len := 0\<rparr>)"
  by (simp add: interner_inv_def empty_ref_def)

context string_table_laws
begin

lemma intern_dynamic_total:
  assumes "interner_inv T it" and "utf8_valid v" and "table_total T"
    and "intern_dynamic T v retained it = (res, it')"
  shows "interner_inv T it' \<and> in_extends it it' \<and> res \<noteq> Inl Panic \<and>
    (\<forall>w. res = Inr w \<longrightarrow> value_str T it' w = Inr v)"
  using intern_dynamic_correct [OF assms(1,2,4)] assms(3) by (auto simp: table_total_def)

text \<open>Compaction keeps the invariant also when it fails.\<close>

lemma retain_loop_inv:
  assumes "interner_inv T it" and "table_total T"
    and "\<And>i. dynamic_str_from T i (in_refs old) (in_bytes old) (in_bytes_len old) \<noteq> Inl Panic"
    and "retain_loop T old it vs = (r, it', ws)"
  shows "interner_inv T it' \<and> r \<noteq> Inl Panic \<and> length ws = length vs"
  using assms(1,4)
proof (induction vs arbitrary: it ws r it')
  case (Cons v vs)
  show ?case
  proof (cases "\<exists>i. v = VString (Dynamic i)")
    case True
    then obtain i where v: "v = VString (Dynamic i)" by blast
    show ?thesis
    proof (cases "dynamic_str_from T i (in_refs old) (in_bytes old) (in_bytes_len old)")
      case (Inl e)
      with Cons.prems v assms(3) [of i] show ?thesis by auto
    next
      case (Inr tx)
      then have valid: "utf8_valid tx"
        unfolding dynamic_str_from_def ref_str_from_def by (rule ref_str_valid [rotated]) (rule string_valid)
      obtain res it1 where run: "intern_dynamic T tx True it = (res, it1)"
        by (cases "intern_dynamic T tx True it")
      note one = intern_dynamic_total [OF Cons.prems(1) valid assms(2) run]
      obtain r2 it2 ws2 where rest: "retain_loop T old it1 vs = (r2, it2, ws2)"
        by (cases "retain_loop T old it1 vs")
      with one have "interner_inv T it2 \<and> r2 \<noteq> Inl Panic \<and> length ws2 = length vs"
        using Cons.IH by blast
      then show ?thesis
        using one Cons.prems(2) Inr run rest by (cases res) (auto simp: v)
    qed
  next
    case False
    obtain r2 it2 ws2 where rest: "retain_loop T old it vs = (r2, it2, ws2)"
      by (cases "retain_loop T old it vs")
    with False have "retain_loop T old it (v # vs) = (r2, it2, v # ws2)"
      by (cases v; cases "\<exists>r. v = VString r") (auto split: string_ref.split)
    with Cons.IH [OF Cons.prems(1) rest] Cons.prems(2) show ?thesis by auto
  qed
qed simp

lemma retain_state_values_inv:
  assumes "interner_inv T it" and "table_total T"
    and "retain_state_values T it vs = (r, it', ws)"
  shows "interner_inv T it' \<and> r \<noteq> Inl Panic \<and> length ws = length vs"
proof (rule retain_loop_inv [OF empty_interner_inv assms(2) _ assms(3) [unfolded retain_state_values_def]])
  show "dynamic_str_from T i (in_refs it) (in_bytes it) (in_bytes_len it) \<noteq> Inl Panic" for i
    using dynamic_str_no_panic [OF assms(1), of i] by (simp add: dynamic_str_def)
qed

end

end
