(* ===== verification/Vm_State.thy ===== *)
theory Vm_State
  imports Vm_Strings
begin

text \<open>
  App state (\<open>squidvm-core/src/state.rs\<close>): parsing the declared state slots of a
  program, the type check of a value against a slot, equality and concatenation of
  values, and the saved-state record that \<open>state.save\<close> writes and \<open>state.load\<close> reads
  (magic, slot count, then name, type, nullability and value of every slot).

  A cursor into the fixed output buffer is the pair of the buffer and the cursor; the
  reading functions return the value with the advanced cursor.  \<open>apply_state_record\<close>
  changes the interner and the state while it reads, and keeps what it changed when a
  later entry fails.
\<close>

section \<open>Declared slots\<close>

definition is_state_tag :: "u8 \<Rightarrow> bool" where
  "is_state_tag tag \<longleftrightarrow> tag = STATE_TYPE_INT \<or> tag = STATE_TYPE_BOOL \<or> tag = STATE_TYPE_STRING"

fun state_value_matches :: "u8 \<Rightarrow> bool \<Rightarrow> vm_value \<Rightarrow> bool" where
  "state_value_matches tag nullable VNull = nullable"
| "state_value_matches tag nullable (VI32 _) = (tag = STATE_TYPE_INT)"
| "state_value_matches tag nullable (VBool _) = (tag = STATE_TYPE_BOOL)"
| "state_value_matches tag nullable (VString _) = (tag = STATE_TYPE_STRING)"
| "state_value_matches tag nullable _ = False"

definition default_slot :: state_slot where
  "default_slot = \<lparr>s_name_id = 0, s_type = \<lparr>st_tag = STATE_TYPE_INT, st_nullable = False\<rparr>,
     s_default = VNull\<rparr>"

definition read_nullable :: "u8 list \<Rightarrow> nat \<Rightarrow> bool vm_res" where
  "read_nullable bytes cursor =
     and_then (read_u8 bytes cursor) (\<lambda>b.
       if b = 0 then Inr False else if b = 1 then Inr True else Inl (Err InvalidSection))"

definition parse_state_slot :: "u8 list \<Rightarrow> nat \<Rightarrow> (state_slot \<times> nat) vm_res" where
  "parse_state_slot bytes cursor =
     and_then (read_u16 bytes cursor) (\<lambda>name_id.
     and_then (read_u8 bytes (cursor + 2)) (\<lambda>tag.
       if \<not> is_state_tag tag then Inl (Err InvalidSection) else
     and_then (read_nullable bytes (cursor + 3)) (\<lambda>nullable.
     and_then (read_value bytes (cursor + 4)) (\<lambda>(value, next).
       if \<not> state_value_matches tag nullable value then Inl (Err InvalidSection)
       else Inr (\<lparr>s_name_id = name_id, s_type = \<lparr>st_tag = tag, st_nullable = nullable\<rparr>,
                   s_default = value\<rparr>, next)))))"

definition parse_state :: "u8 list \<Rightarrow> (state_slot list \<times> nat) vm_res" where
  "parse_state bytes =
     and_then (read_u16 bytes 0) (\<lambda>n.
       let count = unat n in
       if count > MAX_STATE then Inl (Err TooManyStateSlots) else
     and_then (parse_rows parse_state_slot bytes count 2) (\<lambda>(slots, cursor).
       if cursor \<noteq> length bytes then Inl (Err InvalidSection)
       else Inr (fill_array MAX_STATE default_slot slots, count)))"

section \<open>Equality and concatenation\<close>

definition is_handle :: "vm_value \<Rightarrow> bool" where
  "is_handle v = (case v of VHandle _ \<Rightarrow> True | _ \<Rightarrow> False)"

definition values_equal ::
  "string_table \<Rightarrow> interner \<Rightarrow> vm_value \<Rightarrow> vm_value \<Rightarrow> bool vm_res" where
  "values_equal strings it left right =
     (if is_string left \<or> is_string right then
        if \<not> is_string left \<or> \<not> is_string right then Inr False
        else and_then (value_str strings it left) (\<lambda>l.
             and_then (value_str strings it right) (\<lambda>r. Inr (l = r)))
      else if is_handle left \<or> is_handle right then Inl (Err InvalidOperand)
      else Inr (left = right))"

text \<open>The bytes written to the front of the runtime string buffer.\<close>

definition concat_value_strings ::
  "string_table \<Rightarrow> interner \<Rightarrow> vm_value \<Rightarrow> vm_value \<Rightarrow> u8 list vm_res" where
  "concat_value_strings strings it left right =
     and_then (value_str strings it left) (\<lambda>l.
     and_then (value_str strings it right) (\<lambda>r.
     and_then (ok_or InvalidOperand (checked_add (length l) (length r))) (\<lambda>len.
       if len > MAX_RUNTIME_STRING_BYTES then Inl (Err InvalidOperand) else Inr (l @ r))))"

section \<open>Writing the saved-state record\<close>

type_synonym wbuf = "u8 list \<times> nat"

definition write_byte :: "wbuf \<Rightarrow> u8 \<Rightarrow> wbuf vm_res" where
  "write_byte w byte =
     (case w of (out, cursor) \<Rightarrow>
        if cursor \<ge> length out then Inl (Err StateTooLarge)
        else Inr (out[cursor := byte], cursor + 1))"

definition write_bytes :: "wbuf \<Rightarrow> u8 list \<Rightarrow> wbuf vm_res" where
  "write_bytes w bytes =
     (case w of (out, cursor) \<Rightarrow>
        and_then (ok_or StateTooLarge (checked_add cursor (length bytes))) (\<lambda>stop.
          if stop > length out then Inl (Err StateTooLarge)
          else Inr (splice out cursor bytes, stop)))"

definition write_len_prefixed :: "wbuf \<Rightarrow> u8 list \<Rightarrow> wbuf vm_res" where
  "write_len_prefixed w bytes =
     (if length bytes > 255 then Inl (Err StateTooLarge)
      else and_then (write_byte w (of_nat (length bytes))) (\<lambda>w. write_bytes w bytes))"

definition encode_state_record_value ::
  "wbuf \<Rightarrow> string_table \<Rightarrow> interner \<Rightarrow> vm_value \<Rightarrow> wbuf vm_res" where
  "encode_state_record_value w strings it value =
     (case value of
        VNull \<Rightarrow> write_byte w VALUE_NULL
      | VBool b \<Rightarrow> and_then (write_byte w VALUE_BOOL) (\<lambda>w. write_byte w (bool_u8 b))
      | VI32 i \<Rightarrow> and_then (write_byte w VALUE_I32) (\<lambda>w. write_bytes w (u32_le i))
      | VString _ \<Rightarrow>
          and_then (write_byte w VALUE_STRING) (\<lambda>w.
          and_then (value_str strings it value) (\<lambda>s. write_len_prefixed w s))
      | _ \<Rightarrow> Inl (Err InvalidOperand))"

fun encode_state_slots ::
  "string_table \<Rightarrow> interner \<Rightarrow> wbuf \<Rightarrow> (state_slot \<times> vm_value) list \<Rightarrow> wbuf vm_res" where
  "encode_state_slots strings it w [] = Inr w"
| "encode_state_slots strings it w ((slot, value) # rest) =
     and_then (tbl_string strings (s_name_id slot)) (\<lambda>name.
     and_then (write_len_prefixed w name) (\<lambda>w.
     and_then (write_byte w (st_tag (s_type slot))) (\<lambda>w.
     and_then (write_byte w (bool_u8 (st_nullable (s_type slot)))) (\<lambda>w.
     and_then (encode_state_record_value w strings it value) (\<lambda>w.
       encode_state_slots strings it w rest)))))"

definition encode_state_record ::
  "string_table \<Rightarrow> interner \<Rightarrow> state_slot list \<Rightarrow> vm_value list \<Rightarrow> u8 list \<Rightarrow> wbuf vm_res" where
  "encode_state_record strings it slots state out =
     and_then (write_bytes (out, 0) STATE_RECORD_MAGIC) (\<lambda>w.
     and_then (write_byte w (of_nat (length slots))) (\<lambda>w.
       encode_state_slots strings it w (zip slots state)))"

section \<open>Reading the saved-state record\<close>

datatype saved_state_value = SNull | SBool bool | SI32 i32 | SString rstr

definition read_byte :: "u8 list \<Rightarrow> nat \<Rightarrow> (u8 \<times> nat) vm_res" where
  "read_byte bytes cursor =
     and_then (ok_or InvalidStateRecord (get_at bytes cursor)) (\<lambda>b. Inr (b, cursor + 1))"

definition read_len_prefixed :: "u8 list \<Rightarrow> nat \<Rightarrow> (u8 list \<times> nat) vm_res" where
  "read_len_prefixed bytes cursor =
     and_then (read_byte bytes cursor) (\<lambda>(len, cursor).
     and_then (ok_or InvalidStateRecord (checked_add cursor (unat len))) (\<lambda>stop.
     and_then (ok_or InvalidStateRecord (get_range bytes cursor stop)) (\<lambda>value.
       Inr (value, stop))))"

fun saved_state_value_matches :: "u8 \<Rightarrow> bool \<Rightarrow> saved_state_value \<Rightarrow> bool" where
  "saved_state_value_matches tag nullable SNull = nullable"
| "saved_state_value_matches tag nullable (SBool _) = (tag = STATE_TYPE_BOOL)"
| "saved_state_value_matches tag nullable (SI32 _) = (tag = STATE_TYPE_INT)"
| "saved_state_value_matches tag nullable (SString s) =
     (tag = STATE_TYPE_STRING \<and> length s \<le> MAX_RUNTIME_STRING_BYTES)"

definition read_state_record_value ::
  "u8 list \<Rightarrow> nat \<Rightarrow> u8 \<Rightarrow> bool \<Rightarrow> (saved_state_value \<times> nat) vm_res" where
  "read_state_record_value bytes cursor tag nullable =
     and_then (read_byte bytes cursor) (\<lambda>(value_tag, cursor).
     and_then
       (if value_tag = VALUE_NULL then Inr (SNull, cursor)
        else if value_tag = VALUE_BOOL then
          and_then (read_byte bytes cursor) (\<lambda>(b, cursor). Inr (SBool (b \<noteq> 0), cursor))
        else if value_tag = VALUE_I32 then
          and_then (ok_or InvalidStateRecord (checked_add cursor 4)) (\<lambda>stop.
          and_then (ok_or InvalidStateRecord (get_range bytes cursor stop)) (\<lambda>raw.
            Inr (SI32 (of_le raw), stop)))
        else if value_tag = VALUE_STRING then
          and_then (read_len_prefixed bytes cursor) (\<lambda>(value, cursor).
          and_then (ok_or InvalidStateRecord (from_utf8 value)) (\<lambda>s. Inr (SString s, cursor)))
        else Inl (Err InvalidStateRecord))
       (\<lambda>(value, cursor).
          if \<not> saved_state_value_matches tag nullable value then Inl (Err StateTypeMismatch)
          else Inr (value, cursor)))"

fun materialize_error :: "vm_error \<Rightarrow> vm_error" where
  "materialize_error TooManyStrings = InvalidStateRecord"
| "materialize_error InvalidOperand = InvalidStateRecord"
| "materialize_error e = e"

definition materialize_state_value ::
  "string_table \<Rightarrow> saved_state_value \<Rightarrow> (vm_error, interner, vm_value) exec" where
  "materialize_state_value strings value it =
     (case value of
        SNull \<Rightarrow> ret VNull it
      | SBool b \<Rightarrow> ret (VBool b) it
      | SI32 i \<Rightarrow> ret (VI32 i) it
      | SString s \<Rightarrow>
          (case intern_retained strings s it of (r, it') \<Rightarrow> (map_err materialize_error r, it')))"

text \<open>The first slot whose name is the one read.\<close>

fun find_slot ::
  "string_table \<Rightarrow> rstr \<Rightarrow> nat \<Rightarrow> state_slot list \<Rightarrow> (nat \<times> state_slot) option vm_res" where
  "find_slot strings name i [] = Inr None"
| "find_slot strings name i (slot # slots) =
     and_then (tbl_string strings (s_name_id slot)) (\<lambda>s.
       if s = name then Inr (Some (i, slot)) else find_slot strings name (Suc i) slots)"

text \<open>What one entry of the record holds, before it is matched with a slot.\<close>

definition read_state_entry ::
  "u8 list \<Rightarrow> nat \<Rightarrow> (rstr \<times> u8 \<times> bool \<times> saved_state_value \<times> nat) vm_res" where
  "read_state_entry bytes cursor =
     and_then (read_len_prefixed bytes cursor) (\<lambda>(name, cursor).
     and_then (read_byte bytes cursor) (\<lambda>(tag, cursor).
       if \<not> is_state_tag tag then Inl (Err InvalidStateRecord) else
     and_then (read_byte bytes cursor) (\<lambda>(n, cursor).
     and_then (if n = 0 then Inr False else if n = 1 then Inr True
               else Inl (Err InvalidStateRecord)) (\<lambda>nullable.
     and_then (read_state_record_value bytes cursor tag nullable) (\<lambda>(value, cursor).
       Inr (name, tag, nullable, value, cursor))))))"

type_synonym load_state = "interner \<times> vm_value list"

definition apply_state_entry ::
  "string_table \<Rightarrow> state_slot list \<Rightarrow> u8 list \<Rightarrow> nat \<Rightarrow> (vm_error, load_state, nat) exec" where
  "apply_state_entry strings slots bytes cursor s =
     (case read_state_entry bytes cursor of
        Inl e \<Rightarrow> (Inl e, s)
      | Inr (name, tag, nullable, value, cursor) \<Rightarrow>
          (case find_slot strings name 0 slots of
             Inl e \<Rightarrow> (Inl e, s)
           | Inr None \<Rightarrow> (Inr cursor, s)
           | Inr (Some (index, slot)) \<Rightarrow>
               if st_tag (s_type slot) \<noteq> tag \<or> st_nullable (s_type slot) \<noteq> nullable
               then throw StateTypeMismatch s
               else case s of (it, state) \<Rightarrow>
                 (case materialize_state_value strings value it of
                    (Inl e, it') \<Rightarrow> (Inl e, (it', state))
                  | (Inr v, it') \<Rightarrow>
                      if index < length state then (Inr cursor, (it', state[index := v]))
                      else (Inl Panic, (it', state)))))"

fun apply_state_entries ::
  "string_table \<Rightarrow> state_slot list \<Rightarrow> u8 list \<Rightarrow> nat \<Rightarrow> nat \<Rightarrow> (vm_error, load_state, nat) exec" where
  "apply_state_entries strings slots bytes 0 cursor s = ret cursor s"
| "apply_state_entries strings slots bytes (Suc n) cursor s =
     bind_exec (apply_state_entry strings slots bytes cursor)
       (apply_state_entries strings slots bytes n) s"

definition apply_state_record ::
  "u8 list \<Rightarrow> string_table \<Rightarrow> state_slot list \<Rightarrow> (vm_error, load_state, unit) exec" where
  "apply_state_record bytes strings slots s =
     (if length bytes > MAX_SAVED_STATE_BYTES \<or> length bytes < 5 then throw InvalidStateRecord s
      else if get_range bytes 0 4 \<noteq> Some STATE_RECORD_MAGIC then throw InvalidStateRecord s
      else bind_exec (lift (ok_or InvalidStateRecord (get_at bytes 4))) (\<lambda>count.
           bind_exec (apply_state_entries strings slots bytes (unat count) 5) (\<lambda>cursor.
             if cursor \<noteq> length bytes then throw InvalidStateRecord else ret ())) s)"

section \<open>No operation on the state panics\<close>

lemma values_equal_no_panic:
  "interner_inv T it \<Longrightarrow> table_total T \<Longrightarrow> values_equal T it a b \<noteq> Inl Panic"
  unfolding values_equal_def by (intro no_panic value_str_no_panic)

lemma concat_no_panic:
  "interner_inv T it \<Longrightarrow> table_total T \<Longrightarrow> concat_value_strings T it a b \<noteq> Inl Panic"
  unfolding concat_value_strings_def by (intro no_panic value_str_no_panic)

text \<open>Writing keeps the size of the buffer and stays inside it.\<close>

definition wbuf_ok :: "nat \<Rightarrow> wbuf \<Rightarrow> bool" where
  "wbuf_ok n w \<longleftrightarrow> length (fst w) = n \<and> snd w \<le> n"

definition writes_ok :: "nat \<Rightarrow> wbuf vm_res \<Rightarrow> bool" where
  "writes_ok n r \<longleftrightarrow> (case r of Inr w \<Rightarrow> wbuf_ok n w | Inl e \<Rightarrow> e \<noteq> Panic)"

lemma writes_ok_simps [simp]: "writes_ok n (Inr w) = wbuf_ok n w" "writes_ok n (Inl (Err e))"
  by (simp_all add: writes_ok_def)

lemma writes_ok_bind:
  "writes_ok n r \<Longrightarrow> (\<And>w. wbuf_ok n w \<Longrightarrow> writes_ok n (f w)) \<Longrightarrow> writes_ok n (and_then r f)"
  by (cases r) (auto simp: writes_ok_def)

lemma writes_ok_value:
  "r \<noteq> Inl Panic \<Longrightarrow> (\<And>v. r = Inr v \<Longrightarrow> writes_ok n (f v)) \<Longrightarrow> writes_ok n (and_then r f)"
  by (cases r) (auto simp: writes_ok_def)

lemma writes_ok_if: "(b \<Longrightarrow> writes_ok n r) \<Longrightarrow> (\<not> b \<Longrightarrow> writes_ok n r') \<Longrightarrow> writes_ok n (if b then r else r')"
  by simp

lemma write_byte_ok: "wbuf_ok n w \<Longrightarrow> writes_ok n (write_byte w b)"
  by (auto simp: write_byte_def wbuf_ok_def split: prod.splits)

lemma write_bytes_ok: "wbuf_ok n w \<Longrightarrow> writes_ok n (write_bytes w bs)"
  unfolding write_bytes_def
  by (auto simp: wbuf_ok_def checked_add_def ok_or_def writes_ok_def and_then_def split: prod.splits)

lemma write_len_prefixed_ok: "wbuf_ok n w \<Longrightarrow> writes_ok n (write_len_prefixed w bs)"
  unfolding write_len_prefixed_def
  by (intro writes_ok_if writes_ok_bind write_byte_ok write_bytes_ok) simp_all

lemma encode_value_ok:
  assumes "interner_inv T it" and "table_total T" and "wbuf_ok n w"
  shows "writes_ok n (encode_state_record_value w T it v)"
  using assms
  by (cases v; simp only: encode_state_record_value_def vm_value.case writes_ok_simps;
      (intro writes_ok_bind writes_ok_value write_byte_ok write_bytes_ok write_len_prefixed_ok
        value_str_no_panic)?; simp)

lemma encode_slots_ok:
  assumes "interner_inv T it" and "table_total T" and "wbuf_ok n w"
  shows "writes_ok n (encode_state_slots T it w svs)"
  using assms(3)
proof (induction svs arbitrary: w)
  case (Cons sv svs)
  obtain s v where sv: "sv = (s, v)" by (cases sv)
  show ?case
    unfolding sv encode_state_slots.simps
    by (intro writes_ok_value writes_ok_bind write_byte_ok write_len_prefixed_ok Cons encode_value_ok assms)
      (use assms(2) in \<open>simp_all add: table_total_def\<close>)
qed simp

lemma encode_state_record_ok:
  assumes "interner_inv T it" and "table_total T"
  shows "writes_ok (length out) (encode_state_record T it slots state out)"
  unfolding encode_state_record_def
  by (intro writes_ok_bind write_bytes_ok write_byte_ok encode_slots_ok assms) (simp_all add: wbuf_ok_def)

lemma find_slot_result:
  assumes "table_total T"
  shows "case find_slot T name k slots of
      Inl e \<Rightarrow> e \<noteq> Panic
    | Inr None \<Rightarrow> True
    | Inr (Some (i, slot)) \<Rightarrow> k \<le> i \<and> i < k + length slots \<and> slot = slots ! (i - k) \<and>
        tbl_string T (s_name_id slot) = Inr name"
proof (induction slots arbitrary: k)
  case (Cons s slots)
  show ?case
  proof (cases "tbl_string T (s_name_id s)")
    case (Inl e)
    with assms show ?thesis by (auto simp: table_total_def)
  next
    case (Inr t)
    have "j - Suc k = l" if "j - k = Suc l" for j l using that by simp
    with Cons [of "Suc k"] Inr show ?thesis
      by (auto split: sum.splits option.splits prod.splits simp: nth_Cons split: nat.splits)
  qed
qed simp

text \<open>Everything read from a record is checked; nothing in it makes the reader panic.\<close>

lemma read_byte_no_panic [simp, no_panic]: "read_byte bs c \<noteq> Inl Panic"
  unfolding read_byte_def by (intro no_panic)

lemma read_len_prefixed_no_panic [simp, no_panic]: "read_len_prefixed bs c \<noteq> Inl Panic"
  unfolding read_len_prefixed_def by (intro no_panic)

lemma read_record_value_no_panic [simp, no_panic]: "read_state_record_value bs c tag n \<noteq> Inl Panic"
  unfolding read_state_record_value_def by (intro no_panic)

lemma read_state_entry_no_panic [simp, no_panic]: "read_state_entry bs c \<noteq> Inl Panic"
  unfolding read_state_entry_def by (intro no_panic)

lemma read_state_entry_string:
  assumes "read_state_entry bs c = Inr (name, tag, nullable, SString s, c')"
  shows "utf8_valid s" and "length s \<le> MAX_RUNTIME_STRING_BYTES"
  using assms
  by (auto simp: read_state_entry_def read_state_record_value_def and_then_eq_Inr split: if_splits prod.splits)

context string_table_laws
begin

definition load_inv :: "nat \<Rightarrow> load_state \<Rightarrow> bool" where
  "load_inv n s \<longleftrightarrow> interner_inv T (fst s) \<and> length (snd s) = n"

lemma apply_state_entry_triple:
  assumes "table_total T" and "length slots \<le> n"
  shows "triple (load_inv n) (apply_state_entry T slots bs c) (\<lambda>_. load_inv n) (\<lambda>_. load_inv n)"
proof -
  have step: "case apply_state_entry T slots bs c (it, state) of (r, s') \<Rightarrow> r \<noteq> Inl Panic \<and> load_inv n s'"
    if inv: "load_inv n (it, state)" for it state
  proof (cases "read_state_entry bs c")
    case (Inl e)
    with inv read_state_entry_no_panic [of bs c] show ?thesis by (auto simp: apply_state_entry_def)
  next
    case (Inr t)
    obtain name tag nullable v c' where t: "t = (name, tag, nullable, v, c')" by (cases t)
    note found = find_slot_result [OF assms(1), where name = name and k = 0 and slots = slots]
    show ?thesis
    proof (cases "\<exists>i slot. find_slot T name 0 slots = Inr (Some (i, slot))")
      case False
      with found inv Inr t show ?thesis
        by (cases "find_slot T name 0 slots"; cases "projr (find_slot T name 0 slots)")
          (auto simp: apply_state_entry_def)
    next
      case True
      then obtain i slot where hit: "find_slot T name 0 slots = Inr (Some (i, slot))" by blast
      with found assms(2) have i: "i < n" by auto
      obtain r it' where run: "materialize_state_value T v it = (r, it')"
        by (cases "materialize_state_value T v it")
      have mat: "interner_inv T it' \<and> r \<noteq> Inl Panic"
      proof (cases v)
        case (SString s)
        obtain r0 it0 where r0: "intern_dynamic T s True it = (r0, it0)" by (cases "intern_dynamic T s True it")
        have "utf8_valid s" using Inr t SString by (auto dest: read_state_entry_string)
        from intern_dynamic_total [OF _ this assms(1) r0] inv have "interner_inv T it0 \<and> r0 \<noteq> Inl Panic"
          by (simp add: load_inv_def)
        with run SString r0 show ?thesis
          by (auto simp: materialize_state_value_def intern_retained_def map_err_def split: sum.splits fail.splits)
      qed (use run inv in \<open>auto simp: materialize_state_value_def load_inv_def\<close>)
      then show ?thesis
        using Inr t hit run i inv
        by (cases r) (auto simp: apply_state_entry_def load_inv_def)
    qed
  qed
  then show ?thesis by (intro steady_triple steadyI) (metis surj_pair)
qed

lemma apply_state_record_triple:
  assumes "table_total T" and "length slots \<le> n"
  shows "triple (load_inv n) (apply_state_record bs T slots) (\<lambda>_. load_inv n) (\<lambda>_. load_inv n)"
proof -
  have loop: "triple (load_inv n) (apply_state_entries T slots bs k c) (\<lambda>_. load_inv n) (\<lambda>_. load_inv n)" for k c
  proof (induction k arbitrary: c)
    case 0
    then show ?case by (auto simp: triple_def)
  next
    case (Suc k)
    have "triple (load_inv n) (bind_exec (apply_state_entry T slots bs c) (apply_state_entries T slots bs k))
        (\<lambda>_. load_inv n) (\<lambda>_. load_inv n)"
      by (rule triple_bind [OF apply_state_entry_triple [OF assms] Suc])
    then show ?case by (simp add: triple_def)
  qed
  have "triple (load_inv n) (bind_exec (lift (ok_or InvalidStateRecord (get_at bs 4))) (\<lambda>count.
      bind_exec (apply_state_entries T slots bs (unat count) 5) (\<lambda>cursor.
        if cursor \<noteq> length bs then throw InvalidStateRecord else ret ()))) (\<lambda>_. load_inv n) (\<lambda>_. load_inv n)"
    by (intro triple_bind [where R = "\<lambda>_. load_inv n"] loop triple_lift triple_if triple_ret triple_throw)
      simp_all
  then show ?thesis by (simp add: triple_def apply_state_record_def)
qed

end

end
