(* ===== verification/Vm_Program.thy ===== *)
theory Vm_Program
  imports Vm_State
begin

text \<open>
  SQBC programs (\<open>squidvm-core/src/program.rs\<close>, \<open>reader.rs\<close>): the header and the
  section directory, the tables (strings, state, functions, handlers, trigger timers,
  screens), their validation, and the two loaders: \<open>Program::parse\<close> on a whole file in
  memory, and \<open>ProgramIndex\<close> on a positioned reader with a scratch buffer, whose strings
  are copied into a fixed pool.  \<open>u32\<close> fields become \<open>usize\<close> without loss (a 64-bit
  \<open>usize\<close>).

  The lemmas show that an accepted program has tables the VM can trust (every code range
  inside the code, every name a string of the table, names unique), that no input makes
  a loader panic, and that the two loaders agree.  \<open>ProgramIndex\<close> discharges the laws the
  string interner asks of a program's string table.
\<close>

section \<open>Header and section directory\<close>

abbreviation (input) SQBC_HEADER_LEN :: nat where "SQBC_HEADER_LEN \<equiv> 14"

record sqbc_header =
  hd_header_len :: nat
  hd_file_len :: nat
  hd_section_count :: nat

record sqbc_section =
  sec_kind :: u16
  sec_offset :: nat
  sec_len :: nat

definition parse_header :: "u8 list \<Rightarrow> sqbc_header vm_res" where
  "parse_header bytes =
     (if length bytes < SQBC_HEADER_LEN \<or> take 4 bytes \<noteq> lit ''SQBC'' then Inl (Err InvalidHeader) else
      and_then (read_u16 bytes 4) (\<lambda>hl.
      and_then (read_u32 bytes 6) (\<lambda>fl.
      and_then (read_u32 bytes 10) (\<lambda>sc.
        let header_len = unat hl; file_len = unat fl; section_count = unat sc in
        if header_len \<noteq> SQBC_HEADER_LEN + section_count * 12 \<or> header_len < SQBC_HEADER_LEN
        then Inl (Err InvalidHeader)
        else Inr \<lparr>hd_header_len = header_len, hd_file_len = file_len,
                  hd_section_count = section_count\<rparr>))))"

definition parse_section_record :: "u8 list \<Rightarrow> nat \<Rightarrow> sqbc_section vm_res" where
  "parse_section_record header_bytes index =
     and_then (parse_header header_bytes) (\<lambda>header.
       if index \<ge> hd_section_count header \<or> length header_bytes < hd_header_len header
       then Inl (Err InvalidSection) else
       let base = SQBC_HEADER_LEN + index * 12 in
       and_then (read_u16 header_bytes base) (\<lambda>kind.
       and_then (read_u32 header_bytes (base + 4)) (\<lambda>off.
       and_then (read_u32 header_bytes (base + 8)) (\<lambda>ln.
       and_then (ok_or InvalidSection (checked_add (unat off) (unat ln))) (\<lambda>stop.
         if unat off < hd_header_len header \<or> stop > hd_file_len header
         then Inl (Err InvalidSection)
         else Inr \<lparr>sec_kind = kind, sec_offset = unat off, sec_len = unat ln\<rparr>)))))"

text \<open>
  The pairwise comparison all the \<open>validate_unique\<close> functions perform: every row's key
  is read, then compared with the key of every earlier row.
\<close>

fun unique_in :: "'e \<Rightarrow> ('r \<Rightarrow> ('e, 'k) res) \<Rightarrow> 'k \<Rightarrow> 'r list \<Rightarrow> ('e, unit) res" where
  "unique_in dup key name [] = Inr ()"
| "unique_in dup key name (p # ps) =
     and_then (key p) (\<lambda>k. if k = name then Inl (Err dup) else unique_in dup key name ps)"

fun unique_from :: "'e \<Rightarrow> ('r \<Rightarrow> ('e, 'k) res) \<Rightarrow> 'r list \<Rightarrow> 'r list \<Rightarrow> ('e, unit) res" where
  "unique_from dup key seen [] = Inr ()"
| "unique_from dup key seen (r # rs) =
     and_then (key r) (\<lambda>name.
     and_then (unique_in dup key name seen) (\<lambda>_. unique_from dup key (seen @ [r]) rs))"

definition validate_unique :: "'e \<Rightarrow> ('r \<Rightarrow> ('e, 'k) res) \<Rightarrow> 'r list \<Rightarrow> ('e, unit) res" where
  "validate_unique dup key rows = unique_from dup key [] rows"

definition validate_unique_section_kinds :: "u8 list \<Rightarrow> nat \<Rightarrow> unit vm_res" where
  "validate_unique_section_kinds header_bytes section_count =
     validate_unique DuplicateSection
       (\<lambda>index. read_u16 header_bytes (SQBC_HEADER_LEN + index * 12)) [0..<section_count]"

fun section_loop :: "u8 list \<Rightarrow> u16 \<Rightarrow> nat list \<Rightarrow> u8 list vm_res" where
  "section_loop bytes kind [] = Inl (Err MissingSection)"
| "section_loop bytes kind (index # rest) =
     (let base = SQBC_HEADER_LEN + index * 12 in
      and_then (read_u16 bytes base) (\<lambda>record_kind.
        if record_kind = kind then
          and_then (read_u32 bytes (base + 4)) (\<lambda>off.
          and_then (read_u32 bytes (base + 8)) (\<lambda>ln.
          and_then (ok_or InvalidSection (checked_add (unat off) (unat ln))) (\<lambda>stop.
            ok_or InvalidSection (get_range bytes (unat off) stop))))
        else section_loop bytes kind rest))"

definition section_bytes :: "u8 list \<Rightarrow> nat \<Rightarrow> u16 \<Rightarrow> u8 list vm_res" where
  "section_bytes bytes section_count kind = section_loop bytes kind [0..<section_count]"

definition optional_section :: "u8 list \<Rightarrow> nat \<Rightarrow> u16 \<Rightarrow> u8 list option vm_res" where
  "optional_section bytes section_count kind =
     (case section_bytes bytes section_count kind of
        Inr bs \<Rightarrow> Inr (Some bs)
      | Inl (Err MissingSection) \<Rightarrow> Inr None
      | Inl e \<Rightarrow> Inl e)"

section \<open>Tables\<close>

definition validate_range :: "nat \<Rightarrow> nat \<Rightarrow> nat \<Rightarrow> unit vm_res" where
  "validate_range start ln total_len =
     and_then (ok_or InvalidSection (checked_add start ln)) (\<lambda>stop.
       if stop > total_len then Inl (Err InvalidSection) else Inr ())"

text \<open>One length-prefixed string: the prefix, the raw bytes, the check that they are UTF-8.\<close>

definition parse_string_row :: "u8 list \<Rightarrow> nat \<Rightarrow> (rstr \<times> nat) vm_res" where
  "parse_string_row bytes cursor =
     and_then (read_u16 bytes cursor) (\<lambda>ln.
     and_then (ok_or InvalidSection (checked_add (cursor + 2) (unat ln))) (\<lambda>stop.
     and_then (ok_or InvalidSection (get_range bytes (cursor + 2) stop)) (\<lambda>raw.
     and_then (ok_or InvalidUtf8 (from_utf8 raw)) (\<lambda>s. Inr (s, stop)))))"

definition parse_strings :: "u8 list \<Rightarrow> (rstr list \<times> nat) vm_res" where
  "parse_strings bytes =
     and_then (read_u16 bytes 0) (\<lambda>n.
       let count = unat n in
       if count > MAX_STRINGS then Inl (Err TooManyStrings) else
     and_then (parse_rows parse_string_row bytes count 2) (\<lambda>(rows, cursor).
       if cursor \<noteq> length bytes then Inl (Err InvalidSection)
       else Inr (fill_array MAX_STRINGS [] rows, count)))"

fun string_from_loop :: "u8 list \<Rightarrow> nat \<Rightarrow> nat \<Rightarrow> nat list \<Rightarrow> rstr vm_res" where
  "string_from_loop bytes sid cursor [] = Inl (Err InvalidOperand)"
| "string_from_loop bytes sid cursor (index # rest) =
     and_then (read_u16 bytes cursor) (\<lambda>ln.
     and_then (ok_or InvalidSection (checked_add (cursor + 2) (unat ln))) (\<lambda>stop.
     and_then (ok_or InvalidSection (get_range bytes (cursor + 2) stop)) (\<lambda>raw.
       if index = sid then ok_or InvalidUtf8 (from_utf8 raw)
       else string_from_loop bytes sid stop rest)))"

definition string_from_section :: "u8 list \<Rightarrow> u16 \<Rightarrow> rstr vm_res" where
  "string_from_section bytes sid =
     and_then (read_u16 bytes 0) (\<lambda>n.
       let count = unat n in
       if count > MAX_STRINGS \<or> unat sid \<ge> count then Inl (Err InvalidOperand)
       else string_from_loop bytes (unat sid) 2 [0..<count])"

text \<open>The string pool of an index: the bytes, and per string its offset and length.\<close>

record string_pool =
  sp_bytes :: "u8 list"
  sp_offsets :: "u16 list"
  sp_lens :: "u16 list"
  sp_len :: nat

definition empty_pool :: string_pool where
  "empty_pool = \<lparr>sp_bytes = replicate MAX_PROGRAM_STRING_BYTES 0,
     sp_offsets = replicate MAX_STRINGS 0, sp_lens = replicate MAX_STRINGS 0, sp_len = 0\<rparr>"

text \<open>The four assignments that record string number \<open>index\<close>.\<close>

definition pool_store :: "nat \<Rightarrow> rstr \<Rightarrow> string_pool \<Rightarrow> string_pool" where
  "pool_store index raw p =
     p\<lparr>sp_offsets := (sp_offsets p)[index := of_nat (sp_len p)],
       sp_lens := (sp_lens p)[index := of_nat (length raw)],
       sp_bytes := splice (sp_bytes p) (sp_len p) raw,
       sp_len := sp_len p + length raw\<rparr>"

fun parse_owned_loop ::
  "u8 list \<Rightarrow> nat \<Rightarrow> string_pool \<Rightarrow> nat list \<Rightarrow> (string_pool \<times> nat) vm_res" where
  "parse_owned_loop bytes cursor p [] = Inr (p, cursor)"
| "parse_owned_loop bytes cursor p (index # rest) =
     and_then (read_u16 bytes cursor) (\<lambda>ln.
     and_then (ok_or InvalidSection (checked_add (cursor + 2) (unat ln))) (\<lambda>stop.
     and_then (ok_or InvalidSection (get_range bytes (cursor + 2) stop)) (\<lambda>raw.
     and_then (ok_or InvalidUtf8 (from_utf8 raw)) (\<lambda>_.
     and_then (ok_or InvalidSection (checked_add (sp_len p) (unat ln))) (\<lambda>pool_end.
       if pool_end > length (sp_bytes p) then Inl (Err TooManyStrings)
       else parse_owned_loop bytes stop (pool_store index raw p) rest)))))"

definition parse_owned_strings :: "u8 list \<Rightarrow> (string_pool \<times> nat) vm_res" where
  "parse_owned_strings bytes =
     and_then (read_u16 bytes 0) (\<lambda>n.
       let count = unat n in
       if count > MAX_STRINGS then Inl (Err TooManyStrings) else
     and_then (parse_owned_loop bytes 2 empty_pool [0..<count]) (\<lambda>(p, cursor).
       if cursor \<noteq> length bytes then Inl (Err InvalidSection) else Inr (p, count)))"

definition default_function :: function_row where
  "default_function = \<lparr>f_name_id = 0, f_param_count = 0, f_local_count = 0, f_start = 0, f_len = 0\<rparr>"

definition parse_function_row :: "nat \<Rightarrow> u8 list \<Rightarrow> nat \<Rightarrow> (function_row \<times> nat) vm_res" where
  "parse_function_row code_len bytes cursor =
     and_then (read_u16 bytes cursor) (\<lambda>name_id.
     and_then (read_u16 bytes (cursor + 2)) (\<lambda>param_count.
     and_then (read_u16 bytes (cursor + 4)) (\<lambda>local_count.
     and_then (read_u32 bytes (cursor + 6)) (\<lambda>start.
     and_then (read_u32 bytes (cursor + 10)) (\<lambda>ln.
     and_then (validate_range (unat start) (unat ln) code_len) (\<lambda>_.
       Inr (\<lparr>f_name_id = name_id, f_param_count = param_count, f_local_count = local_count,
             f_start = unat start, f_len = unat ln\<rparr>, cursor + 14)))))))"

definition parse_functions :: "u8 list \<Rightarrow> nat \<Rightarrow> (function_row list \<times> nat) vm_res" where
  "parse_functions bytes code_len =
     and_then (read_u16 bytes 0) (\<lambda>n.
       let count = unat n in
       if count > MAX_FUNCTIONS then Inl (Err TooManyFunctions) else
     and_then (parse_rows (parse_function_row code_len) bytes count 2) (\<lambda>(rows, cursor).
       if cursor \<noteq> length bytes then Inl (Err InvalidSection)
       else Inr (fill_array MAX_FUNCTIONS default_function rows, count)))"

definition default_handler :: handler_row where
  "default_handler = \<lparr>h_event_id = 0, h_preload = False, h_param_count = 0, h_local_count = 0,
     h_start = 0, h_len = 0\<rparr>"

definition parse_handler_row :: "nat \<Rightarrow> u8 list \<Rightarrow> nat \<Rightarrow> (handler_row \<times> nat) vm_res" where
  "parse_handler_row code_len bytes cursor =
     and_then (read_u16 bytes cursor) (\<lambda>event_id.
     and_then (ok_or InvalidSection (get_at bytes (cursor + 2))) (\<lambda>preload.
     and_then (ok_or InvalidSection (get_at bytes (cursor + 3))) (\<lambda>reserved.
     and_then (read_u16 bytes (cursor + 4)) (\<lambda>param_count.
     and_then (read_u16 bytes (cursor + 6)) (\<lambda>local_count.
     and_then (read_u32 bytes (cursor + 8)) (\<lambda>start.
     and_then (read_u32 bytes (cursor + 12)) (\<lambda>ln.
       if reserved \<noteq> 0 \<or> param_count > local_count \<or> unat local_count > MAX_LOCALS
       then Inl (Err InvalidSection) else
     and_then (validate_range (unat start) (unat ln) code_len) (\<lambda>_.
       Inr (\<lparr>h_event_id = event_id, h_preload = (preload \<noteq> 0), h_param_count = param_count,
             h_local_count = local_count, h_start = unat start, h_len = unat ln\<rparr>,
            cursor + 16)))))))))"

definition parse_handlers :: "u8 list \<Rightarrow> nat \<Rightarrow> (handler_row list \<times> nat) vm_res" where
  "parse_handlers bytes code_len =
     and_then (read_u16 bytes 0) (\<lambda>n.
       let count = unat n in
       if count > MAX_HANDLERS then Inl (Err TooManyHandlers) else
     and_then (parse_rows (parse_handler_row code_len) bytes count 2) (\<lambda>(rows, cursor).
       if cursor \<noteq> length bytes then Inl (Err InvalidSection)
       else Inr (fill_array MAX_HANDLERS default_handler rows, count)))"

definition default_trigger :: trigger_row where
  "default_trigger = \<lparr>t_event_id = 0, t_interval_ms = 0, t_repeating = False\<rparr>"

definition parse_trigger_row :: "u8 list \<Rightarrow> nat \<Rightarrow> (trigger_row \<times> nat) vm_res" where
  "parse_trigger_row bytes cursor =
     and_then (read_u16 bytes cursor) (\<lambda>event_id.
     and_then (ok_or InvalidSection (get_at bytes (cursor + 2))) (\<lambda>repeating.
     and_then (ok_or InvalidSection (get_at bytes (cursor + 3))) (\<lambda>reserved.
     and_then (read_i32 bytes (cursor + 4)) (\<lambda>interval_ms.
       if reserved \<noteq> 0 \<or> sint interval_ms \<le> 0 then Inl (Err InvalidSection)
       else Inr (\<lparr>t_event_id = event_id, t_interval_ms = interval_ms,
                   t_repeating = (repeating \<noteq> 0)\<rparr>, cursor + 8)))))"

definition parse_trigger_timers :: "u8 list option \<Rightarrow> (trigger_row list \<times> nat) vm_res" where
  "parse_trigger_timers section =
     (case section of
        None \<Rightarrow> Inr (replicate MAX_TRIGGERS default_trigger, 0)
      | Some bytes \<Rightarrow>
          and_then (read_u16 bytes 0) (\<lambda>n.
            let count = unat n in
            if count > MAX_TRIGGERS then Inl (Err InvalidSection) else
          and_then (parse_rows parse_trigger_row bytes count 2) (\<lambda>(rows, cursor).
            if cursor \<noteq> length bytes then Inl (Err InvalidSection)
            else Inr (fill_array MAX_TRIGGERS default_trigger rows, count))))"

definition default_screen :: screen_row where
  "default_screen = \<lparr>sc_name_id = 0, sc_start = 0, sc_len = 0\<rparr>"

definition parse_screen_row :: "nat \<Rightarrow> u8 list \<Rightarrow> nat \<Rightarrow> (screen_row \<times> nat) vm_res" where
  "parse_screen_row code_len bytes cursor =
     and_then (read_u16 bytes cursor) (\<lambda>name_id.
     and_then (read_u32 bytes (cursor + 2)) (\<lambda>start.
     and_then (read_u32 bytes (cursor + 6)) (\<lambda>ln.
     and_then (validate_range (unat start) (unat ln) code_len) (\<lambda>_.
       Inr (\<lparr>sc_name_id = name_id, sc_start = unat start, sc_len = unat ln\<rparr>, cursor + 10)))))"

definition parse_screens :: "u8 list option \<Rightarrow> nat \<Rightarrow> (screen_row list \<times> nat) vm_res" where
  "parse_screens section code_len =
     (case section of
        None \<Rightarrow> Inr (replicate MAX_SCREENS default_screen, 0)
      | Some bytes \<Rightarrow>
          and_then (read_u16 bytes 0) (\<lambda>n.
            let count = unat n in
            if count > MAX_SCREENS then Inl (Err TooManyScreens) else
          and_then (parse_rows (parse_screen_row code_len) bytes count 2) (\<lambda>(rows, cursor).
            if cursor \<noteq> length bytes then Inl (Err InvalidSection)
            else Inr (fill_array MAX_SCREENS default_screen rows, count))))"

section \<open>Programs and indexes\<close>

text \<open>The fields \<open>Program\<close> and \<open>ProgramIndex\<close> have in common, then the two structs.\<close>

record tables =
  tb_state_slots :: "state_slot list"
  tb_state_count :: nat
  tb_functions :: "function_row list"
  tb_function_count :: nat
  tb_handlers :: "handler_row list"
  tb_handler_count :: nat
  tb_triggers :: "trigger_row list"
  tb_trigger_count :: nat
  tb_screens :: "screen_row list"
  tb_screen_count :: nat

record program = tables +
  pg_strings :: "rstr list"
  pg_string_count :: nat
  pg_code :: "u8 list"

record program_index = tables +
  ix_pool :: string_pool
  ix_string_count :: nat
  ix_code_offset :: nat
  ix_code_len :: nat

definition program_string :: "program \<Rightarrow> u16 \<Rightarrow> rstr vm_res" where
  "program_string p sid =
     (if unat sid \<ge> pg_string_count p then Inl (Err InvalidOperand)
      else if unat sid < length (pg_strings p) then Inr (pg_strings p ! unat sid) else Inl Panic)"

fun program_find_loop :: "program \<Rightarrow> rstr \<Rightarrow> nat list \<Rightarrow> u16 option vm_res" where
  "program_find_loop p v [] = Inr None"
| "program_find_loop p v (index # rest) =
     (if index < length (pg_strings p) then
        if pg_strings p ! index = v then Inr (Some (of_nat index)) else program_find_loop p v rest
      else Inl Panic)"

definition program_table :: "program \<Rightarrow> string_table" where
  "program_table p = \<lparr>tbl_string = program_string p,
     tbl_find = (\<lambda>v. program_find_loop p v [0..<pg_string_count p])\<rparr>"

definition index_string :: "program_index \<Rightarrow> u16 \<Rightarrow> rstr vm_res" where
  "index_string x sid =
     (let index = unat sid in
      if index \<ge> ix_string_count x then Inl (Err InvalidOperand) else
      if index \<ge> length (sp_offsets (ix_pool x)) \<or> index \<ge> length (sp_lens (ix_pool x)) then Inl Panic else
      let start = unat (sp_offsets (ix_pool x) ! index); ln = unat (sp_lens (ix_pool x) ! index) in
      and_then (ok_or InvalidSection (checked_add start ln)) (\<lambda>stop.
      and_then (ok_or InvalidSection (get_range (sp_bytes (ix_pool x)) start stop)) (\<lambda>raw.
        ok_or InvalidUtf8 (from_utf8 raw))))"

fun index_find_loop :: "program_index \<Rightarrow> rstr \<Rightarrow> nat list \<Rightarrow> u16 option vm_res" where
  "index_find_loop x v [] = Inr None"
| "index_find_loop x v (index # rest) =
     and_then (index_string x (of_nat index)) (\<lambda>s.
       if s = v then Inr (Some (of_nat index)) else index_find_loop x v rest)"

definition index_table :: "program_index \<Rightarrow> string_table" where
  "index_table x = \<lparr>tbl_string = index_string x,
     tbl_find = (\<lambda>v. index_find_loop x v [0..<ix_string_count x])\<rparr>"

text \<open>The first row whose name is the one looked for, with its position.\<close>

fun find_row ::
  "vm_error \<Rightarrow> (u16 \<Rightarrow> rstr vm_res) \<Rightarrow> ('r \<Rightarrow> u16) \<Rightarrow> rstr \<Rightarrow> nat \<Rightarrow> 'r list \<Rightarrow> (nat \<times> 'r) vm_res" where
  "find_row missing string_of key name i [] = Inl (Err missing)"
| "find_row missing string_of key name i (r # rs) =
     and_then (string_of (key r)) (\<lambda>s.
       if s = name then Inr (i, r) else find_row missing string_of key name (Suc i) rs)"

definition program_handler :: "program \<Rightarrow> rstr \<Rightarrow> handler_row vm_res" where
  "program_handler p event =
     and_then (find_row HandlerNotFound (program_string p) h_event_id event 0
       (take (tb_handler_count p) (tb_handlers p))) (\<lambda>(_, h). Inr h)"

definition program_handler_preload :: "program \<Rightarrow> rstr \<Rightarrow> bool vm_res" where
  "program_handler_preload p event = and_then (program_handler p event) (\<lambda>h. Inr (h_preload h))"

definition program_screen :: "program \<Rightarrow> rstr \<Rightarrow> screen_row vm_res" where
  "program_screen p name =
     and_then (find_row InvalidOperand (program_string p) sc_name_id name 0
       (take (tb_screen_count p) (tb_screens p))) (\<lambda>(_, s). Inr s)"

definition index_handler :: "program_index \<Rightarrow> rstr \<Rightarrow> (nat \<times> handler_row) vm_res" where
  "index_handler x event =
     find_row HandlerNotFound (index_string x) h_event_id event 0
       (take (tb_handler_count x) (tb_handlers x))"

definition index_handler_preload :: "program_index \<Rightarrow> rstr \<Rightarrow> bool vm_res" where
  "index_handler_preload x event =
     and_then (index_handler x event) (\<lambda>(_, h). Inr (h_preload h))"

definition index_screen :: "program_index \<Rightarrow> rstr \<Rightarrow> (nat \<times> screen_row) vm_res" where
  "index_screen x name =
     find_row InvalidOperand (index_string x) sc_name_id name 0
       (take (tb_screen_count x) (tb_screens x))"

record trigger_timer =
  tt_event :: rstr
  tt_interval_ms :: i32
  tt_repeating :: bool

record device_binding =
  db_service :: rstr
  db_binding :: rstr
  db_resource :: rstr

fun map_res :: "('a \<Rightarrow> ('e, 'b) res) \<Rightarrow> 'a list \<Rightarrow> ('e, 'b list) res" where
  "map_res f [] = Inr []"
| "map_res f (x # xs) = and_then (f x) (\<lambda>y. and_then (map_res f xs) (\<lambda>ys. Inr (y # ys)))"

text \<open>\<open>TriggerTimers\<close>: the array of timers and their number.\<close>

definition trigger_timers_new ::
  "string_table \<Rightarrow> trigger_row list \<Rightarrow> nat \<Rightarrow> (trigger_timer list \<times> nat) vm_res" where
  "trigger_timers_new strings metas count =
     and_then (map_res (\<lambda>meta.
         and_then (tbl_string strings (t_event_id meta)) (\<lambda>event.
           Inr \<lparr>tt_event = event, tt_interval_ms = t_interval_ms meta,
                tt_repeating = t_repeating meta\<rparr>)) (take count metas))
       (\<lambda>timers. Inr (fill_array MAX_TRIGGERS
          \<lparr>tt_event = [], tt_interval_ms = 0, tt_repeating = False\<rparr> timers, count))"

definition trigger_timers_get :: "trigger_timer list \<times> nat \<Rightarrow> nat \<Rightarrow> trigger_timer option vm_res" where
  "trigger_timers_get t index =
     (case t of (timers, count) \<Rightarrow>
        if index < count then
          (if index < length timers then Inr (Some (timers ! index)) else Inl Panic)
        else Inr None)"

definition index_trigger_timers :: "program_index \<Rightarrow> (trigger_timer list \<times> nat) vm_res" where
  "index_trigger_timers x =
     trigger_timers_new (index_table x) (tb_triggers x) (tb_trigger_count x)"

definition program_trigger_timers :: "program \<Rightarrow> (trigger_timer list \<times> nat) vm_res" where
  "program_trigger_timers p =
     trigger_timers_new (program_table p) (tb_triggers p) (tb_trigger_count p)"

section \<open>Validation\<close>

fun for_each :: "('r \<Rightarrow> ('e, unit) res) \<Rightarrow> 'r list \<Rightarrow> ('e, unit) res" where
  "for_each f [] = Inr ()"
| "for_each f (r # rs) = and_then (f r) (\<lambda>_. for_each f rs)"

definition validate_string_id :: "u16 \<Rightarrow> nat \<Rightarrow> unit vm_res" where
  "validate_string_id sid string_count =
     (if unat sid \<ge> string_count then Inl (Err InvalidStringRef) else Inr ())"

definition validate_index_string_id :: "program_index \<Rightarrow> u16 \<Rightarrow> unit vm_res" where
  "validate_index_string_id x sid =
     and_then (validate_string_id sid (ix_string_count x)) (\<lambda>_.
     and_then (index_string x sid) (\<lambda>_. Inr ()))"

definition validate_value_string_refs :: "vm_value \<Rightarrow> nat \<Rightarrow> unit vm_res" where
  "validate_value_string_refs v string_count =
     (case v of VString (Sqbc sid) \<Rightarrow> validate_string_id sid string_count | _ \<Rightarrow> Inr ())"

definition table_string :: "rstr list \<Rightarrow> nat \<Rightarrow> u16 \<Rightarrow> rstr vm_res" where
  "table_string strings string_count sid =
     and_then (validate_string_id sid string_count) (\<lambda>_.
       if unat sid < length strings then Inr (strings ! unat sid) else Inl Panic)"

text \<open>
  Both validators run the same checks in the same order: the ids of every table, then the
  uniqueness of the names of every table.
\<close>

definition validate_ids ::
  "(u16 \<Rightarrow> unit vm_res) \<Rightarrow> nat \<Rightarrow> 'a tables_scheme \<Rightarrow> unit vm_res" where
  "validate_ids check string_count t =
     and_then (for_each (\<lambda>slot. and_then (check (s_name_id slot)) (\<lambda>_.
       validate_value_string_refs (s_default slot) string_count))
       (take (tb_state_count t) (tb_state_slots t))) (\<lambda>_.
     and_then (for_each (\<lambda>f. check (f_name_id f)) (take (tb_function_count t) (tb_functions t))) (\<lambda>_.
     and_then (for_each (\<lambda>h. check (h_event_id h)) (take (tb_handler_count t) (tb_handlers t))) (\<lambda>_.
     and_then (for_each (\<lambda>r. check (t_event_id r)) (take (tb_trigger_count t) (tb_triggers t))) (\<lambda>_.
       for_each (\<lambda>s. check (sc_name_id s)) (take (tb_screen_count t) (tb_screens t))))))"

definition validate_unique_names ::
  "(u16 \<Rightarrow> rstr vm_res) \<Rightarrow> 'a tables_scheme \<Rightarrow> unit vm_res" where
  "validate_unique_names name_of t =
     and_then (validate_unique DuplicateTableKey (\<lambda>r. name_of (s_name_id r))
       (take (tb_state_count t) (tb_state_slots t))) (\<lambda>_.
     and_then (validate_unique DuplicateTableKey (\<lambda>r. name_of (f_name_id r))
       (take (tb_function_count t) (tb_functions t))) (\<lambda>_.
     and_then (validate_unique DuplicateTableKey (\<lambda>r. name_of (h_event_id r))
       (take (tb_handler_count t) (tb_handlers t))) (\<lambda>_.
     and_then (validate_unique DuplicateTableKey (\<lambda>r. name_of (t_event_id r))
       (take (tb_trigger_count t) (tb_triggers t))) (\<lambda>_.
       validate_unique DuplicateTableKey (\<lambda>r. name_of (sc_name_id r))
         (take (tb_screen_count t) (tb_screens t))))))"

definition validate_program_tables :: "rstr list \<Rightarrow> nat \<Rightarrow> 'a tables_scheme \<Rightarrow> unit vm_res" where
  "validate_program_tables strings string_count t =
     and_then (validate_ids (\<lambda>sid. validate_string_id sid string_count) string_count t) (\<lambda>_.
       validate_unique_names (table_string strings string_count) t)"

definition validate_program_index_tables :: "program_index \<Rightarrow> unit vm_res" where
  "validate_program_index_tables x =
     and_then (validate_ids (validate_index_string_id x) (ix_string_count x) x) (\<lambda>_.
       validate_unique_names (index_string x) x)"

section \<open>Loading a whole file\<close>

definition program_parse :: "u8 list \<Rightarrow> program vm_res" where
  "program_parse bytes =
     (if length bytes > MAX_APP_BYTES then Inl (Err TooLarge) else
      and_then (parse_header bytes) (\<lambda>header.
      let header_len = hd_header_len header; section_count = hd_section_count header in
      if hd_file_len header \<noteq> length bytes \<or> header_len \<noteq> SQBC_HEADER_LEN + section_count * 12 \<or>
         header_len > length bytes
      then Inl (Err InvalidHeader) else
      and_then (slice_to bytes header_len) (\<lambda>header_bytes.
      and_then (validate_unique_section_kinds header_bytes section_count) (\<lambda>_.
      and_then (section_bytes bytes section_count SECTION_STRINGS) (\<lambda>strings.
      and_then (section_bytes bytes section_count SECTION_STATE) (\<lambda>state.
      and_then (section_bytes bytes section_count SECTION_FUNCTIONS) (\<lambda>functions.
      and_then (section_bytes bytes section_count SECTION_HANDLERS) (\<lambda>handlers.
      and_then (optional_section bytes section_count SECTION_TRIGGERS) (\<lambda>triggers.
      and_then (optional_section bytes section_count SECTION_SCREENS) (\<lambda>screens.
      and_then (section_bytes bytes section_count SECTION_CODE) (\<lambda>code.
      and_then (parse_owned_strings strings) (\<lambda>_.
      and_then (parse_strings strings) (\<lambda>(strings, string_count).
      and_then (parse_state state) (\<lambda>(state_slots, state_count).
      and_then (parse_functions functions (length code)) (\<lambda>(functions, function_count).
      and_then (parse_handlers handlers (length code)) (\<lambda>(handlers, handler_count).
      and_then (parse_trigger_timers triggers) (\<lambda>(triggers, trigger_count).
      and_then (parse_screens screens (length code)) (\<lambda>(screens, screen_count).
      let p = \<lparr>tb_state_slots = state_slots, tb_state_count = state_count,
               tb_functions = functions, tb_function_count = function_count,
               tb_handlers = handlers, tb_handler_count = handler_count,
               tb_triggers = triggers, tb_trigger_count = trigger_count,
               tb_screens = screens, tb_screen_count = screen_count,
               pg_strings = strings, pg_string_count = string_count, pg_code = code\<rparr> in
      and_then (validate_program_tables strings string_count p) (\<lambda>_. Inr p)))))))))))))))))))"

fun pool_strings_loop :: "string_pool \<Rightarrow> nat \<Rightarrow> rstr list \<Rightarrow> string_pool vm_res" where
  "pool_strings_loop p index [] = Inr p"
| "pool_strings_loop p index (raw # rest) =
     and_then (ok_or InvalidSection (checked_add (sp_len p) (length raw))) (\<lambda>pool_end.
       if pool_end > length (sp_bytes p) \<or> length raw > 65535 then Inl (Err TooManyStrings)
       else pool_strings_loop (pool_store index raw p) (Suc index) rest)"

definition index_from_program :: "program \<Rightarrow> program_index vm_res" where
  "index_from_program p =
     and_then (pool_strings_loop empty_pool 0 (take (pg_string_count p) (pg_strings p))) (\<lambda>pool.
       Inr \<lparr>tb_state_slots = tb_state_slots p, tb_state_count = tb_state_count p,
            tb_functions = tb_functions p, tb_function_count = tb_function_count p,
            tb_handlers = tb_handlers p, tb_handler_count = tb_handler_count p,
            tb_triggers = tb_triggers p, tb_trigger_count = tb_trigger_count p,
            tb_screens = tb_screens p, tb_screen_count = tb_screen_count p,
            ix_pool = pool, ix_string_count = pg_string_count p,
            ix_code_offset = 0, ix_code_len = length (pg_code p)\<rparr>)"

section \<open>Loading through a positioned reader\<close>

text \<open>
  \<open>read_exact_at(offset, out)\<close> fills \<open>out\<close>; here it is given the length of \<open>out\<close> and
  returns the bytes, changing the reader's own state \<open>'h\<close>.  The buffer keeps its length
  whatever the reader does, which \<open>fit\<close> writes out.
\<close>

type_synonym 'h reader = "nat \<Rightarrow> nat \<Rightarrow> (vm_error, 'h, u8 list) exec"

definition fit :: "nat \<Rightarrow> u8 list \<Rightarrow> u8 list" where
  "fit n bs = take n (bs @ replicate (n - length bs) 0)"

lemma length_fit [simp]: "length (fit n bs) = n"
  by (simp add: fit_def)

lemma fit_same [simp]: "length bs = n \<Longrightarrow> fit n bs = bs"
  by (simp add: fit_def)

text \<open>\<open>SliceSqbcReader\<close>.\<close>

definition slice_reader :: "u8 list \<Rightarrow> unit reader" where
  "slice_reader bytes offset n =
     lift (and_then (ok_or InvalidSection (checked_add offset n)) (\<lambda>stop.
       ok_or InvalidSection (get_range bytes offset stop)))"

text \<open>A read of \<open>n\<close> bytes into a fresh buffer, and one into \<open>&mut scratch[..n]\<close>.\<close>

definition read_fresh :: "'h reader \<Rightarrow> nat \<Rightarrow> nat \<Rightarrow> (vm_error, 'h \<times> u8 list, u8 list) exec" where
  "read_fresh rd offset n s =
     (case s of (h, scratch) \<Rightarrow>
        (case rd offset n h of
           (Inl e, h') \<Rightarrow> (Inl e, (h', scratch))
         | (Inr bs, h') \<Rightarrow> (Inr (fit n bs), (h', scratch))))"

definition read_scratch :: "'h reader \<Rightarrow> nat \<Rightarrow> nat \<Rightarrow> (vm_error, 'h \<times> u8 list, u8 list) exec" where
  "read_scratch rd offset n s =
     (case s of (h, scratch) \<Rightarrow>
        if n > length scratch then (Inl Panic, s) else
        (case rd offset n h of
           (Inl e, h') \<Rightarrow> (Inl e, (h', scratch))
         | (Inr bs, h') \<Rightarrow> (Inr (fit n bs), (h', splice scratch 0 (fit n bs)))))"

definition scratch_len :: "(vm_error, 'h \<times> u8 list, nat) exec" where
  "scratch_len = gets (\<lambda>(h, scratch). length scratch)"

text \<open>
  The section records by kind, among the kinds the caller matches on; a later record of
  the same kind replaces an earlier one.
\<close>

fun collect_sections ::
  "u16 list \<Rightarrow> u8 list \<Rightarrow> (u16 \<Rightarrow> sqbc_section option) \<Rightarrow> nat list \<Rightarrow>
   (u16 \<Rightarrow> sqbc_section option) vm_res" where
  "collect_sections wanted header_bytes m [] = Inr m"
| "collect_sections wanted header_bytes m (index # rest) =
     and_then (parse_section_record header_bytes index) (\<lambda>r.
       collect_sections wanted header_bytes
         (if sec_kind r \<in> set wanted then m(sec_kind r \<mapsto> r) else m) rest)"

text \<open>The common start of every reader-based loader: header, uniqueness, section records.\<close>

definition reader_sections ::
  "u16 list \<Rightarrow> 'h reader \<Rightarrow> (vm_error, 'h \<times> u8 list, u16 \<Rightarrow> sqbc_section option) exec" where
  "reader_sections wanted rd =
     bind_exec (read_fresh rd 0 SQBC_HEADER_LEN) (\<lambda>fixed_header.
     bind_exec (lift (parse_header fixed_header)) (\<lambda>header.
     bind_exec scratch_len (\<lambda>cap.
       if hd_header_len header > cap then throw InvalidHeader else
     bind_exec (read_scratch rd 0 (hd_header_len header)) (\<lambda>header_bytes.
     bind_exec (lift (validate_unique_section_kinds header_bytes (hd_section_count header))) (\<lambda>_.
       lift (collect_sections wanted header_bytes (\<lambda>_. None) [0..<hd_section_count header]))))))"

definition opt_len_over :: "nat \<Rightarrow> sqbc_section option \<Rightarrow> bool" where
  "opt_len_over cap s = (case s of None \<Rightarrow> False | Some r \<Rightarrow> sec_len r > cap)"

definition read_section ::
  "'h reader \<Rightarrow> sqbc_section \<Rightarrow> (vm_error, 'h \<times> u8 list, u8 list) exec" where
  "read_section rd r = read_scratch rd (sec_offset r) (sec_len r)"

definition read_optional ::
  "'h reader \<Rightarrow> sqbc_section option \<Rightarrow> (vm_error, 'h \<times> u8 list, u8 list option) exec" where
  "read_optional rd s =
     (case s of None \<Rightarrow> ret None
      | Some r \<Rightarrow> bind_exec (read_section rd r) (\<lambda>bs. ret (Some bs)))"

definition index_parse_from_reader ::
  "'h reader \<Rightarrow> (vm_error, 'h \<times> u8 list, program_index) exec" where
  "index_parse_from_reader rd =
     bind_exec (reader_sections
       [SECTION_STRINGS, SECTION_STATE, SECTION_FUNCTIONS, SECTION_HANDLERS, SECTION_TRIGGERS,
        SECTION_SCREENS, SECTION_CODE] rd) (\<lambda>m.
     bind_exec (lift (ok_or MissingSection (m SECTION_STRINGS))) (\<lambda>strings_section.
     bind_exec (lift (ok_or MissingSection (m SECTION_STATE))) (\<lambda>state_section.
     bind_exec (lift (ok_or MissingSection (m SECTION_FUNCTIONS))) (\<lambda>functions_section.
     bind_exec (lift (ok_or MissingSection (m SECTION_HANDLERS))) (\<lambda>handlers_section.
     bind_exec (lift (ok_or MissingSection (m SECTION_CODE))) (\<lambda>code_section.
     bind_exec scratch_len (\<lambda>cap.
       if sec_len strings_section > cap \<or> sec_len state_section > cap \<or>
          sec_len functions_section > cap \<or> sec_len handlers_section > cap \<or>
          opt_len_over cap (m SECTION_TRIGGERS) \<or> opt_len_over cap (m SECTION_SCREENS)
       then throw InvalidSection else
     bind_exec (read_section rd strings_section) (\<lambda>bs.
     bind_exec (lift (parse_owned_strings bs)) (\<lambda>(pool, string_count).
     bind_exec (read_section rd state_section) (\<lambda>bs.
     bind_exec (lift (parse_state bs)) (\<lambda>(state_slots, state_count).
     bind_exec (read_section rd functions_section) (\<lambda>bs.
     bind_exec (lift (parse_functions bs (sec_len code_section))) (\<lambda>(functions, function_count).
     bind_exec (read_section rd handlers_section) (\<lambda>bs.
     bind_exec (lift (parse_handlers bs (sec_len code_section))) (\<lambda>(handlers, handler_count).
     bind_exec (read_optional rd (m SECTION_TRIGGERS)) (\<lambda>obs.
     bind_exec (lift (parse_trigger_timers obs)) (\<lambda>(triggers, trigger_count).
     bind_exec (read_optional rd (m SECTION_SCREENS)) (\<lambda>obs.
     bind_exec (lift (parse_screens obs (sec_len code_section))) (\<lambda>(screens, screen_count).
     let x = \<lparr>tb_state_slots = state_slots, tb_state_count = state_count,
              tb_functions = functions, tb_function_count = function_count,
              tb_handlers = handlers, tb_handler_count = handler_count,
              tb_triggers = triggers, tb_trigger_count = trigger_count,
              tb_screens = screens, tb_screen_count = screen_count,
              ix_pool = pool, ix_string_count = string_count,
              ix_code_offset = sec_offset code_section, ix_code_len = sec_len code_section\<rparr> in
     bind_exec (lift (validate_program_index_tables x)) (\<lambda>_. ret x))))))))))))))))))))"

definition index_parse :: "u8 list \<Rightarrow> u8 list \<Rightarrow> program_index vm_res" where
  "index_parse bytes scratch = fst (index_parse_from_reader (slice_reader bytes) ((), scratch))"

text \<open>
  Timers and device bindings read one at a time.  The count is read from the whole
  scratch buffer, which still holds older bytes behind a section shorter than two bytes;
  the length check that follows refuses such a section.
\<close>

definition scratch_res :: "(u8 list \<Rightarrow> 'a vm_res) \<Rightarrow> (vm_error, 'h \<times> u8 list, 'a) exec" where
  "scratch_res f s = (case s of (h, scratch) \<Rightarrow> (f scratch, s))"

definition counted_len_error :: "nat \<Rightarrow> nat \<Rightarrow> nat \<Rightarrow> unit vm_res" where
  "counted_len_error count width len =
     and_then (ok_or InvalidSection (checked_add 2 (count * width))) (\<lambda>expected_len.
       if expected_len \<noteq> len then Inl (Err InvalidSection) else Inr ())"

definition trigger_reader_sections ::
  "'h reader \<Rightarrow> (vm_error, 'h \<times> u8 list, sqbc_section \<times> sqbc_section option) exec" where
  "trigger_reader_sections rd =
     bind_exec (reader_sections [SECTION_STRINGS, SECTION_TRIGGERS] rd) (\<lambda>m.
     bind_exec (lift (ok_or MissingSection (m SECTION_STRINGS))) (\<lambda>strings_section.
       ret (strings_section, m SECTION_TRIGGERS)))"

definition device_binding_reader_sections ::
  "'h reader \<Rightarrow> (vm_error, 'h \<times> u8 list, sqbc_section \<times> sqbc_section option) exec" where
  "device_binding_reader_sections rd =
     bind_exec (reader_sections [SECTION_STRINGS, SECTION_DEVICE_BINDINGS] rd) (\<lambda>m.
     bind_exec (lift (ok_or MissingSection (m SECTION_STRINGS))) (\<lambda>strings_section.
       ret (strings_section, m SECTION_DEVICE_BINDINGS)))"

definition trigger_timer_count_from_reader :: "'h reader \<Rightarrow> (vm_error, 'h \<times> u8 list, nat) exec" where
  "trigger_timer_count_from_reader rd =
     bind_exec (trigger_reader_sections rd) (\<lambda>(_, triggers_section).
       case triggers_section of
         None \<Rightarrow> ret 0
       | Some triggers \<Rightarrow>
           bind_exec scratch_len (\<lambda>cap.
             if sec_len triggers > cap then throw InvalidSection else
           bind_exec (read_section rd triggers) (\<lambda>_.
           bind_exec (scratch_res (\<lambda>scratch. read_u16 scratch 0)) (\<lambda>n.
             if unat n > MAX_TRIGGERS then throw InvalidSection else
           bind_exec (lift (counted_len_error (unat n) 8 (sec_len triggers))) (\<lambda>_.
             ret (unat n))))))"

definition trigger_timer_from_reader ::
  "'h reader \<Rightarrow> nat \<Rightarrow> (vm_error, 'h \<times> u8 list, trigger_timer) exec" where
  "trigger_timer_from_reader rd timer_index =
     bind_exec (trigger_reader_sections rd) (\<lambda>(strings_section, triggers_section).
     bind_exec (lift (ok_or InvalidOperand triggers_section)) (\<lambda>triggers.
     bind_exec scratch_len (\<lambda>cap.
       if sec_len triggers > cap \<or> sec_len strings_section > cap then throw InvalidSection else
     bind_exec (read_section rd triggers) (\<lambda>_.
     bind_exec (scratch_res (\<lambda>scratch. read_u16 scratch 0)) (\<lambda>n.
       if unat n > MAX_TRIGGERS \<or> timer_index \<ge> unat n then throw InvalidOperand else
     bind_exec (lift (counted_len_error (unat n) 8 (sec_len triggers))) (\<lambda>_.
     let cursor = 2 + timer_index * 8 in
     bind_exec (scratch_res (\<lambda>scratch. read_u16 scratch cursor)) (\<lambda>event_id.
     bind_exec (scratch_res (\<lambda>scratch. ok_or InvalidSection (get_at scratch (cursor + 2)))) (\<lambda>rep.
     bind_exec (scratch_res (\<lambda>scratch. ok_or InvalidSection (get_at scratch (cursor + 3)))) (\<lambda>reserved.
     bind_exec (scratch_res (\<lambda>scratch. read_i32 scratch (cursor + 4))) (\<lambda>interval_ms.
       if reserved \<noteq> 0 \<or> sint interval_ms \<le> 0 then throw InvalidSection else
     bind_exec (read_section rd strings_section) (\<lambda>bs.
     bind_exec (lift (string_from_section bs event_id)) (\<lambda>event.
       ret \<lparr>tt_event = event, tt_interval_ms = interval_ms, tt_repeating = (rep \<noteq> 0)\<rparr>))))))))))))"

definition device_binding_count_from_reader :: "'h reader \<Rightarrow> (vm_error, 'h \<times> u8 list, nat) exec" where
  "device_binding_count_from_reader rd =
     bind_exec (device_binding_reader_sections rd) (\<lambda>(_, bindings_section).
       case bindings_section of
         None \<Rightarrow> ret 0
       | Some bindings \<Rightarrow>
           bind_exec scratch_len (\<lambda>cap.
             if sec_len bindings > cap then throw InvalidSection else
           bind_exec (read_section rd bindings) (\<lambda>_.
           bind_exec (scratch_res (\<lambda>scratch. read_u16 scratch 0)) (\<lambda>n.
             if unat n > MAX_DEVICE_BINDINGS then throw InvalidSection else
           bind_exec (lift (counted_len_error (unat n) 6 (sec_len bindings))) (\<lambda>_.
             ret (unat n))))))"

definition device_binding_from_reader ::
  "'h reader \<Rightarrow> nat \<Rightarrow> (vm_error, 'h \<times> u8 list, device_binding) exec" where
  "device_binding_from_reader rd binding_index =
     bind_exec (device_binding_reader_sections rd) (\<lambda>(strings_section, bindings_section).
     bind_exec (lift (ok_or InvalidOperand bindings_section)) (\<lambda>bindings.
     bind_exec scratch_len (\<lambda>cap.
       if sec_len bindings > cap \<or> sec_len strings_section > cap then throw InvalidSection else
     bind_exec (read_section rd bindings) (\<lambda>_.
     bind_exec (scratch_res (\<lambda>scratch. read_u16 scratch 0)) (\<lambda>n.
       if unat n > MAX_DEVICE_BINDINGS \<or> binding_index \<ge> unat n then throw InvalidOperand else
     bind_exec (lift (counted_len_error (unat n) 6 (sec_len bindings))) (\<lambda>_.
     let cursor = 2 + binding_index * 6 in
     bind_exec (scratch_res (\<lambda>scratch. read_u16 scratch cursor)) (\<lambda>service_id.
     bind_exec (scratch_res (\<lambda>scratch. read_u16 scratch (cursor + 2))) (\<lambda>binding_id.
     bind_exec (scratch_res (\<lambda>scratch. read_u16 scratch (cursor + 4))) (\<lambda>resource_id.
     bind_exec (read_section rd strings_section) (\<lambda>bs.
     bind_exec (lift (string_from_section bs service_id)) (\<lambda>service.
     bind_exec (lift (string_from_section bs binding_id)) (\<lambda>binding.
     bind_exec (lift (string_from_section bs resource_id)) (\<lambda>resource.
       ret \<lparr>db_service = service, db_binding = binding, db_resource = resource\<rparr>)))))))))))))"

section \<open>Lemmas on the building blocks\<close>

lemma unique_in_Inr:
  "unique_in dup key name ps = Inr () \<longleftrightarrow> (\<forall>p \<in> set ps. \<exists>k. key p = Inr k \<and> k \<noteq> name)"
  by (induction ps) (auto simp: and_then_eq_Inr)

lemma unique_from_Inr:
  "unique_from dup key seen rs = Inr () \<Longrightarrow> \<exists>ks. map key rs = map Inr ks \<and> distinct ks \<and>
     (\<forall>p \<in> set seen. \<exists>k. key p = Inr k \<and> k \<notin> set ks \<or> rs = [])"
proof (induction rs arbitrary: seen)
  case (Cons r rs)
  from Cons.prems obtain name where name: "key r = Inr name" "unique_in dup key name seen = Inr ()"
    "unique_from dup key (seen @ [r]) rs = Inr ()" by (auto simp: and_then_eq_Inr)
  from Cons.IH [OF name(3)] obtain ks where ks: "map key rs = map Inr ks" "distinct ks"
    "\<forall>p \<in> set (seen @ [r]). \<exists>k. key p = Inr k \<and> k \<notin> set ks \<or> rs = []" by blast
  have "name \<notin> set ks" using ks name(1) by (cases rs) auto
  moreover have "\<forall>p \<in> set seen. \<exists>k. key p = Inr k \<and> k \<notin> set (name # ks)"
    using name(2) ks(1,3) unfolding unique_in_Inr by (cases rs) fastforce+
  ultimately show ?case using ks(1,2) name(1) by (intro exI [of _ "name # ks"]) auto
qed simp

lemma validate_unique_Inr:
  "validate_unique dup key rows = Inr () \<Longrightarrow> \<exists>ks. map key rows = map Inr ks \<and> distinct ks"
  unfolding validate_unique_def by (auto dest: unique_from_Inr)

lemma unique_in_no_panic:
  "(\<And>p. p \<in> set ps \<Longrightarrow> key p \<noteq> Inl Panic) \<Longrightarrow> unique_in dup key name ps \<noteq> Inl Panic"
  by (induction ps) (auto simp: and_then_eq_Inl)

lemma unique_from_no_panic:
  "(\<And>p. p \<in> set (seen @ rs) \<Longrightarrow> key p \<noteq> Inl Panic) \<Longrightarrow> unique_from dup key seen rs \<noteq> Inl Panic"
proof (induction rs arbitrary: seen)
  case (Cons r rs)
  then show ?case
    using Cons.IH [of "seen @ [r]"] unique_in_no_panic [of seen key dup]
    by (fastforce simp: and_then_eq_Inl)
qed simp

lemma validate_unique_no_panic:
  "(\<And>p. p \<in> set rows \<Longrightarrow> key p \<noteq> Inl Panic) \<Longrightarrow> validate_unique dup key rows \<noteq> Inl Panic"
  unfolding validate_unique_def by (rule unique_from_no_panic) simp

lemma for_each_Inr: "for_each f rs = Inr () \<longleftrightarrow> (\<forall>r \<in> set rs. f r = Inr ())"
  by (induction rs) (auto simp: and_then_eq_Inr)

lemma for_each_no_panic: "(\<And>r. r \<in> set rs \<Longrightarrow> f r \<noteq> Inl Panic) \<Longrightarrow> for_each f rs \<noteq> Inl Panic"
  by (induction rs) (auto simp: and_then_eq_Inl)

lemma validate_range_Inr: "validate_range s l t = Inr () \<longleftrightarrow> s + l \<le> t \<and> s + l \<le> usize_max"
  by (auto simp: validate_range_def and_then_eq_Inr checked_add_def)

text \<open>Nothing the parsers are built from panics.\<close>

lemma parse_header_no_panic [simp, no_panic]: "parse_header bs \<noteq> Inl Panic"
  unfolding parse_header_def Let_def by (intro no_panic; simp)

lemma parse_section_record_no_panic [simp, no_panic]: "parse_section_record bs i \<noteq> Inl Panic"
  unfolding parse_section_record_def Let_def by (intro no_panic; simp)

lemma section_loop_no_panic [simp, no_panic]: "section_loop bs k is \<noteq> Inl Panic"
  by (induction "is") (simp, unfold section_loop.simps Let_def, (intro no_panic; simp))

lemma section_bytes_no_panic [simp, no_panic]: "section_bytes bs n k \<noteq> Inl Panic"
  by (simp add: section_bytes_def)

lemma optional_section_no_panic [simp, no_panic]: "optional_section bs n k \<noteq> Inl Panic"
  by (auto simp: optional_section_def split: sum.splits fail.splits vm_error.splits)

lemma section_kinds_no_panic [simp, no_panic]: "validate_unique_section_kinds bs n \<noteq> Inl Panic"
  by (simp add: validate_unique_section_kinds_def validate_unique_no_panic)

lemma validate_range_no_panic [simp, no_panic]: "validate_range s l t \<noteq> Inl Panic"
  unfolding validate_range_def by (intro no_panic; simp)

lemma row_no_panic [simp, no_panic]:
  "parse_state_slot bs c \<noteq> Inl Panic" "parse_string_row bs c \<noteq> Inl Panic"
  "parse_function_row n bs c \<noteq> Inl Panic" "parse_handler_row n bs c \<noteq> Inl Panic"
  "parse_trigger_row bs c \<noteq> Inl Panic" "parse_screen_row n bs c \<noteq> Inl Panic"
  unfolding parse_state_slot_def read_nullable_def parse_string_row_def parse_function_row_def
    parse_handler_row_def parse_trigger_row_def parse_screen_row_def
  by (intro no_panic; simp add: read_value_no_panic)+

lemma owned_loop_no_panic [simp, no_panic]: "parse_owned_loop bs c p is \<noteq> Inl Panic"
  by (induction "is" arbitrary: c p) (simp, unfold parse_owned_loop.simps, (intro no_panic; simp))

lemma table_no_panic [simp, no_panic]:
  "parse_state bs \<noteq> Inl Panic" "parse_strings bs \<noteq> Inl Panic" "parse_functions bs n \<noteq> Inl Panic"
  "parse_handlers bs n \<noteq> Inl Panic" "parse_trigger_timers obs \<noteq> Inl Panic"
  "parse_screens obs n \<noteq> Inl Panic" "parse_owned_strings bs \<noteq> Inl Panic"
  unfolding parse_state_def parse_strings_def parse_functions_def parse_handlers_def
    parse_trigger_timers_def parse_screens_def parse_owned_strings_def Let_def
  by (intro no_panic parse_rows_no_panic; simp)+

section \<open>String tables as lists\<close>

text \<open>
  What both string tables promise, as a function of the list of the program's strings:
  lookup by position, and the first position of a string.
\<close>

definition list_string :: "rstr list \<Rightarrow> u16 \<Rightarrow> rstr vm_res" where
  "list_string ss sid = (if unat sid < length ss then Inr (ss ! unat sid) else Inl (Err InvalidOperand))"

fun position :: "rstr \<Rightarrow> rstr list \<Rightarrow> nat option" where
  "position v [] = None"
| "position v (s # ss) = (if s = v then Some 0 else map_option Suc (position v ss))"

definition list_table :: "rstr list \<Rightarrow> string_table" where
  "list_table ss = \<lparr>tbl_string = list_string ss, tbl_find = (\<lambda>v. Inr (map_option of_nat (position v ss)))\<rparr>"

lemma position_Some: "position v ss = Some i \<Longrightarrow> i < length ss \<and> ss ! i = v"
  by (induction ss arbitrary: i) (auto split: if_splits)

lemma position_None: "position v ss = None \<longleftrightarrow> v \<notin> set ss"
  by (induction ss) auto

text \<open>A search over consecutive indexes whose test is the comparison with that string.\<close>

lemma find_loop_position:
  assumes "loop [] = Inr None"
    and step: "\<And>i is. i < length ss \<Longrightarrow>
      loop (i # is) = (if ss ! i = v then Inr (Some (of_nat i)) else loop is)"
    and "k \<le> length ss"
  shows "loop [k..<length ss] = Inr (map_option (\<lambda>j. of_nat (k + j)) (position v (drop k ss)))"
  using assms(3)
proof (induction rule: inc_induct)
  case base
  then show ?case using assms(1) by simp
next
  case (step k)
  have "loop [k..<length ss] = (if ss ! k = v then Inr (Some (of_nat k)) else loop [Suc k..<length ss])"
    unfolding upt_conv_Cons [OF step.hyps(2)] by (rule assms(2) [OF step.hyps(2)])
  moreover have "drop k ss = ss ! k # drop (Suc k) ss" using step.hyps by (simp add: Cons_nth_drop_Suc)
  ultimately show ?case using step.IH by (simp add: option.map_comp comp_def algebra_simps)
qed

lemma program_table_refines:
  assumes "pg_string_count p \<le> length (pg_strings p)"
  shows "program_table p = list_table (take (pg_string_count p) (pg_strings p))"
proof -
  let ?ss = "take (pg_string_count p) (pg_strings p)"
  have "program_string p = list_string ?ss"
    using assms by (auto simp: program_string_def list_string_def fun_eq_iff)
  moreover have "program_find_loop p v [0..<pg_string_count p] =
      Inr (map_option of_nat (position v ?ss))" for v
    using find_loop_position [of "program_find_loop p v" ?ss v 0] assms by (simp add: min_absorb2)
  ultimately show ?thesis by (simp add: program_table_def list_table_def)
qed

section \<open>The string pool\<close>

text \<open>A pool that holds the given strings, one after the other.\<close>

definition pool_holds :: "string_pool \<Rightarrow> rstr list \<Rightarrow> bool" where
  "pool_holds p ss \<longleftrightarrow>
     length (sp_bytes p) = MAX_PROGRAM_STRING_BYTES \<and> length (sp_offsets p) = MAX_STRINGS \<and>
     length (sp_lens p) = MAX_STRINGS \<and> length ss \<le> MAX_STRINGS \<and>
     sp_len p \<le> MAX_PROGRAM_STRING_BYTES \<and>
     (\<forall>i < length ss. utf8_valid (ss ! i) \<and>
        unat (sp_offsets p ! i) + unat (sp_lens p ! i) \<le> sp_len p \<and>
        get_range (sp_bytes p) (unat (sp_offsets p ! i))
          (unat (sp_offsets p ! i) + unat (sp_lens p ! i)) = Some (ss ! i))"

lemma empty_pool_holds [simp]: "pool_holds empty_pool []"
  by (simp add: pool_holds_def empty_pool_def)

lemma pool_store_holds:
  assumes p: "pool_holds p ss" and room: "length ss < MAX_STRINGS" "i = length ss"
    and raw: "utf8_valid raw" "sp_len p + length raw \<le> MAX_PROGRAM_STRING_BYTES"
  shows "pool_holds (pool_store i raw p) (ss @ [raw])"
proof -
  have lens: "length (sp_bytes p) = 1536" "length (sp_offsets p) = 128" "length (sp_lens p) = 128"
    using p by (simp_all add: pool_holds_def)
  have small: "unat (of_nat (sp_len p) :: u16) = sp_len p" "unat (of_nat (length raw) :: u16) = length raw"
    using raw(2) by simp_all
  have "get_range (splice (sp_bytes p) (sp_len p) raw) (sp_len p) (sp_len p + length raw) = Some raw"
    using raw(2) lens by (intro splice_at) simp_all
  moreover have "get_range (splice (sp_bytes p) (sp_len p) raw) a b = get_range (sp_bytes p) a b"
    if "b \<le> sp_len p" for a b
    using that raw(2) lens by (intro splice_before) simp_all
  ultimately show ?thesis
    using p room raw lens small
    by (auto simp: pool_holds_def pool_store_def nth_append less_Suc_eq)
qed

lemma index_string_refines:
  assumes "pool_holds (ix_pool x) ss" and "ix_string_count x = length ss"
  shows "index_string x sid = list_string ss sid"
proof (cases "unat sid < length ss")
  case True
  with assms show ?thesis
    by (auto simp: index_string_def list_string_def pool_holds_def Let_def checked_add_def usize_max_def
        and_then_def from_utf8_def)
next
  case False
  with assms show ?thesis by (simp add: index_string_def list_string_def)
qed

lemma index_table_refines:
  assumes "pool_holds (ix_pool x) ss" and "ix_string_count x = length ss"
  shows "index_table x = list_table ss"
proof -
  have s: "index_string x = list_string ss" using index_string_refines [OF assms] by (rule ext)
  have small: "length ss \<le> 128" using assms(1) by (simp add: pool_holds_def)
  have "index_find_loop x v [0..<length ss] =
      Inr (map_option (\<lambda>j. of_nat (0 + j)) (position v (drop 0 ss)))" for v
    by (rule find_loop_position) (use small in \<open>auto simp: s list_string_def\<close>)
  then show ?thesis using assms(2) s by (simp add: index_table_def list_table_def)
qed

text \<open>Both parsers of the string section read the same strings.\<close>

lemma parse_owned_loop_rows:
  assumes "pool_holds p ss" and "length ss + n \<le> MAX_STRINGS"
    and "parse_owned_loop bytes c p [length ss..<length ss + n] = Inr (p', c')"
  shows "\<exists>rows. parse_rows parse_string_row bytes n c = Inr (rows, c') \<and> pool_holds p' (ss @ rows) \<and>
    sp_len p' = sp_len p + sum_list (map length rows)"
  using assms
proof (induction n arbitrary: p ss c)
  case (Suc n)
  have upt: "[length ss..<length ss + Suc n] = length ss # [Suc (length ss)..<Suc (length ss) + n]"
    by (simp add: upt_conv_Cons)
  from Suc.prems(3) [unfolded upt] obtain ln stop raw where row: "read_u16 bytes c = Inr ln"
    "checked_add (c + 2) (unat ln) = Some stop" "get_range bytes (c + 2) stop = Some raw" "utf8_valid raw"
    "sp_len p + unat ln \<le> length (sp_bytes p)"
    and rest: "parse_owned_loop bytes stop (pool_store (length ss) raw p)
      [Suc (length ss)..<Suc (length ss) + n] = Inr (p', c')"
    by (auto simp: and_then_eq_Inr checked_add_def split: if_splits)
  have "length raw = unat ln"
    using row(2,3) by (auto dest!: get_range_length checked_add_SomeD)
  then have holds: "pool_holds (pool_store (length ss) raw p) (ss @ [raw])"
    using Suc.prems(1,2) row(4,5) by (intro pool_store_holds) (simp_all add: pool_holds_def)
  have "\<exists>rows. parse_rows parse_string_row bytes n stop = Inr (rows, c') \<and>
      pool_holds p' ((ss @ [raw]) @ rows) \<and>
      sp_len p' = sp_len (pool_store (length ss) raw p) + sum_list (map length rows)"
    by (rule Suc.IH [OF holds]) (use Suc.prems(2) rest in simp_all)
  then obtain rows where "parse_rows parse_string_row bytes n stop = Inr (rows, c')"
    "pool_holds p' (ss @ raw # rows)" "sp_len p' = sp_len p + length raw + sum_list (map length rows)"
    by (auto simp: pool_store_def)
  moreover have "parse_string_row bytes c = Inr (raw, stop)"
    using row by (simp add: parse_string_row_def from_utf8_def)
  ultimately show ?case by (intro exI [of _ "raw # rows"]) simp
qed simp

lemma parse_owned_strings_refines:
  assumes "parse_owned_strings bytes = Inr (pool, count)"
  shows "\<exists>ss. parse_strings bytes = Inr (fill_array MAX_STRINGS [] ss, count) \<and> length ss = count \<and>
    pool_holds pool ss \<and> sp_len pool = sum_list (map length ss)"
proof -
  from assms obtain n where n: "read_u16 bytes 0 = Inr n" "count = unat n" "count \<le> 128"
    "parse_owned_loop bytes 2 empty_pool [0..<count] = Inr (pool, length bytes)"
    by (auto simp: parse_owned_strings_def and_then_eq_Inr Let_def split: if_splits)
  from parse_owned_loop_rows [of empty_pool "[]" count bytes 2 pool "length bytes"] n(3,4)
  obtain rows where rows: "parse_rows parse_string_row bytes count 2 = Inr (rows, length bytes)"
    "pool_holds pool rows" "sp_len pool = sp_len empty_pool + sum_list (map length rows)" by auto
  moreover have "sp_len empty_pool = 0" by (simp add: empty_pool_def)
  ultimately show ?thesis
    using n parse_rows_length [OF rows(1)] by (auto simp: parse_strings_def)
qed

lemma pool_strings_loop_holds:
  assumes "pool_holds p ss" and "length ss + length rest \<le> MAX_STRINGS" and "list_all utf8_valid rest"
    and "pool_strings_loop p (length ss) rest = Inr p'"
  shows "pool_holds p' (ss @ rest)"
  using assms
proof (induction rest arbitrary: p ss)
  case (Cons raw rest)
  from Cons.prems(4) have room: "sp_len p + length raw \<le> length (sp_bytes p)"
    and rest: "pool_strings_loop (pool_store (length ss) raw p) (Suc (length ss)) rest = Inr p'"
    by (auto simp: and_then_eq_Inr checked_add_def split: if_splits)
  have "pool_holds (pool_store (length ss) raw p) (ss @ [raw])"
    using Cons.prems(1-3) room by (intro pool_store_holds) (simp_all add: pool_holds_def)
  from Cons.IH [OF this] Cons.prems(2,3) rest show ?case by simp
qed simp

section \<open>What a loaded program satisfies\<close>

text \<open>The names a table's rows refer to all resolve, to different strings.\<close>

definition unique_names :: "(u16 \<Rightarrow> rstr vm_res) \<Rightarrow> u16 list \<Rightarrow> bool" where
  "unique_names name_of ids \<longleftrightarrow> (\<exists>ks. map name_of ids = map Inr ks \<and> distinct ks)"

definition state_slot_ok :: "nat \<Rightarrow> state_slot \<Rightarrow> bool" where
  "state_slot_ok string_count s \<longleftrightarrow>
     is_state_tag (st_tag (s_type s)) \<and>
     state_value_matches (st_tag (s_type s)) (st_nullable (s_type s)) (s_default s) \<and>
     (\<forall>r. s_default s = VString r \<longrightarrow> (\<exists>sid. r = Sqbc sid \<and> unat sid < string_count))"

definition handler_ok :: "nat \<Rightarrow> handler_row \<Rightarrow> bool" where
  "handler_ok code_len h \<longleftrightarrow> h_start h + h_len h \<le> code_len \<and>
     h_param_count h \<le> h_local_count h \<and> unat (h_local_count h) \<le> MAX_LOCALS"

abbreviation live_slots :: "'a tables_scheme \<Rightarrow> state_slot list" where
  "live_slots t \<equiv> take (tb_state_count t) (tb_state_slots t)"
abbreviation live_functions :: "'a tables_scheme \<Rightarrow> function_row list" where
  "live_functions t \<equiv> take (tb_function_count t) (tb_functions t)"
abbreviation live_handlers :: "'a tables_scheme \<Rightarrow> handler_row list" where
  "live_handlers t \<equiv> take (tb_handler_count t) (tb_handlers t)"
abbreviation live_triggers :: "'a tables_scheme \<Rightarrow> trigger_row list" where
  "live_triggers t \<equiv> take (tb_trigger_count t) (tb_triggers t)"
abbreviation live_screens :: "'a tables_scheme \<Rightarrow> screen_row list" where
  "live_screens t \<equiv> take (tb_screen_count t) (tb_screens t)"

text \<open>The fixed arrays have their size, and no count exceeds it.\<close>

definition table_sizes :: "'a tables_scheme \<Rightarrow> bool" where
  "table_sizes t \<longleftrightarrow>
     length (tb_state_slots t) = MAX_STATE \<and> tb_state_count t \<le> MAX_STATE \<and>
     length (tb_functions t) = MAX_FUNCTIONS \<and> tb_function_count t \<le> MAX_FUNCTIONS \<and>
     length (tb_handlers t) = MAX_HANDLERS \<and> tb_handler_count t \<le> MAX_HANDLERS \<and>
     length (tb_triggers t) = MAX_TRIGGERS \<and> tb_trigger_count t \<le> MAX_TRIGGERS \<and>
     length (tb_screens t) = MAX_SCREENS \<and> tb_screen_count t \<le> MAX_SCREENS"

definition table_rows_ok :: "nat \<Rightarrow> nat \<Rightarrow> 'a tables_scheme \<Rightarrow> bool" where
  "table_rows_ok string_count code_len t \<longleftrightarrow>
     list_all (state_slot_ok string_count) (live_slots t) \<and>
     list_all (\<lambda>f. f_start f + f_len f \<le> code_len) (live_functions t) \<and>
     list_all (handler_ok code_len) (live_handlers t) \<and>
     list_all (\<lambda>r. 0 < sint (t_interval_ms r)) (live_triggers t) \<and>
     list_all (\<lambda>s. sc_start s + sc_len s \<le> code_len) (live_screens t)"

definition table_names_ok :: "(u16 \<Rightarrow> rstr vm_res) \<Rightarrow> 'a tables_scheme \<Rightarrow> bool" where
  "table_names_ok name_of t \<longleftrightarrow>
     unique_names name_of (map s_name_id (live_slots t)) \<and>
     unique_names name_of (map f_name_id (live_functions t)) \<and>
     unique_names name_of (map h_event_id (live_handlers t)) \<and>
     unique_names name_of (map t_event_id (live_triggers t)) \<and>
     unique_names name_of (map sc_name_id (live_screens t))"

definition program_ok :: "program \<Rightarrow> bool" where
  "program_ok p \<longleftrightarrow>
     length (pg_strings p) = MAX_STRINGS \<and> pg_string_count p \<le> MAX_STRINGS \<and>
     list_all utf8_valid (take (pg_string_count p) (pg_strings p)) \<and>
     table_sizes p \<and> table_rows_ok (pg_string_count p) (length (pg_code p)) p \<and>
     table_names_ok (program_string p) p"

definition index_ok :: "program_index \<Rightarrow> bool" where
  "index_ok x \<longleftrightarrow>
     (\<exists>ss. pool_holds (ix_pool x) ss \<and> ix_string_count x = length ss) \<and>
     table_sizes x \<and> table_rows_ok (ix_string_count x) (ix_code_len x) x \<and>
     table_names_ok (index_string x) x"

text \<open>What each table parser establishes.\<close>

lemma parsed_rows_all:
  assumes "parse_rows row bytes n c = Inr (rs, c')"
    and "\<And>i r j. row bytes i = Inr (r, j) \<Longrightarrow> P r"
  shows "list_all P rs"
  using parse_rows_all [OF assms(1)] assms(2) by (auto simp: list_all_iff)

lemma take_fill_array [simp]: "length xs = n \<Longrightarrow> take n (fill_array m d xs) = xs"
  by simp

lemma parse_state_ok:
  assumes "parse_state bs = Inr (slots, n)"
  shows "length slots = MAX_STATE \<and> n \<le> MAX_STATE \<and>
    list_all (\<lambda>s. is_state_tag (st_tag (s_type s)) \<and>
      state_value_matches (st_tag (s_type s)) (st_nullable (s_type s)) (s_default s) \<and>
      (\<forall>r. s_default s = VString r \<longrightarrow> (\<exists>sid. r = Sqbc sid))) (take n slots)"
proof -
  from assms obtain rows where rows: "parse_rows parse_state_slot bs n 2 = Inr (rows, length bs)"
    "n \<le> 16" "slots = fill_array 16 default_slot rows"
    by (auto simp: parse_state_def and_then_eq_Inr Let_def split: if_splits)
  have default: "read_value bs c = Inr (v, c') \<Longrightarrow> v = VString r \<Longrightarrow> \<exists>sid. r = Sqbc sid" for c v c' r
    by (auto simp: read_value_def and_then_eq_Inr split: if_splits)
  show ?thesis
    using parse_rows_length [OF rows(1)] rows(2,3)
    by (auto intro!: parsed_rows_all [OF rows(1)] dest: default
        simp: parse_state_slot_def and_then_eq_Inr split: if_splits prod.splits)
qed

lemma parse_functions_ok:
  assumes "parse_functions bs L = Inr (fs, n)"
  shows "length fs = MAX_FUNCTIONS \<and> n \<le> MAX_FUNCTIONS \<and>
    list_all (\<lambda>f. f_start f + f_len f \<le> L) (take n fs)"
proof -
  from assms obtain rows where rows: "parse_rows (parse_function_row L) bs n 2 = Inr (rows, length bs)"
    "n \<le> 16" "fs = fill_array 16 default_function rows"
    by (auto simp: parse_functions_def and_then_eq_Inr Let_def split: if_splits)
  show ?thesis
    using parse_rows_length [OF rows(1)] rows(2,3)
    by (auto intro!: parsed_rows_all [OF rows(1)] simp: parse_function_row_def and_then_eq_Inr validate_range_Inr)
qed

lemma parse_handlers_ok:
  assumes "parse_handlers bs L = Inr (hs, n)"
  shows "length hs = MAX_HANDLERS \<and> n \<le> MAX_HANDLERS \<and> list_all (handler_ok L) (take n hs)"
proof -
  from assms obtain rows where rows: "parse_rows (parse_handler_row L) bs n 2 = Inr (rows, length bs)"
    "n \<le> 16" "hs = fill_array 16 default_handler rows"
    by (auto simp: parse_handlers_def and_then_eq_Inr Let_def split: if_splits)
  show ?thesis
    using parse_rows_length [OF rows(1)] rows(2,3)
    by (auto intro!: parsed_rows_all [OF rows(1)]
        simp: parse_handler_row_def handler_ok_def and_then_eq_Inr validate_range_Inr split: if_splits)
qed

lemma parse_trigger_timers_ok:
  assumes "parse_trigger_timers obs = Inr (ts, n)"
  shows "length ts = MAX_TRIGGERS \<and> n \<le> MAX_TRIGGERS \<and>
    list_all (\<lambda>r. 0 < sint (t_interval_ms r)) (take n ts)"
proof (cases obs)
  case None
  with assms show ?thesis by (auto simp: parse_trigger_timers_def)
next
  case (Some bs)
  with assms obtain rows where rows: "parse_rows parse_trigger_row bs n 2 = Inr (rows, length bs)"
    "n \<le> 16" "ts = fill_array 16 default_trigger rows"
    by (auto simp: parse_trigger_timers_def and_then_eq_Inr Let_def split: if_splits)
  show ?thesis
    using parse_rows_length [OF rows(1)] rows(2,3)
    by (auto intro!: parsed_rows_all [OF rows(1)] simp: parse_trigger_row_def and_then_eq_Inr split: if_splits)
qed

lemma parse_screens_ok:
  assumes "parse_screens obs L = Inr (ss, n)"
  shows "length ss = MAX_SCREENS \<and> n \<le> MAX_SCREENS \<and>
    list_all (\<lambda>s. sc_start s + sc_len s \<le> L) (take n ss)"
proof (cases obs)
  case None
  with assms show ?thesis by (auto simp: parse_screens_def)
next
  case (Some bs)
  with assms obtain rows where rows: "parse_rows (parse_screen_row L) bs n 2 = Inr (rows, length bs)"
    "n \<le> 16" "ss = fill_array 16 default_screen rows"
    by (auto simp: parse_screens_def and_then_eq_Inr Let_def split: if_splits)
  show ?thesis
    using parse_rows_length [OF rows(1)] rows(2,3)
    by (auto intro!: parsed_rows_all [OF rows(1)] simp: parse_screen_row_def and_then_eq_Inr validate_range_Inr)
qed

lemma parse_strings_ok:
  assumes "parse_strings bs = Inr (ss, n)"
  shows "length ss = MAX_STRINGS \<and> n \<le> MAX_STRINGS \<and> list_all utf8_valid (take n ss)"
proof -
  from assms obtain rows where rows: "parse_rows parse_string_row bs n 2 = Inr (rows, length bs)"
    "n \<le> 128" "ss = fill_array 128 [] rows"
    by (auto simp: parse_strings_def and_then_eq_Inr Let_def split: if_splits)
  show ?thesis
    using parse_rows_length [OF rows(1)] rows(2,3)
    by (auto intro!: parsed_rows_all [OF rows(1)] simp: parse_string_row_def and_then_eq_Inr)
qed

text \<open>What the validators establish.\<close>

lemma validate_unique_key_Inr:
  "validate_unique dup (\<lambda>r. name_of (key r)) rows = Inr () \<Longrightarrow> unique_names name_of (map key rows)"
  by (drule validate_unique_Inr) (simp add: unique_names_def comp_def)

lemma validate_unique_names_Inr:
  "validate_unique_names name_of t = Inr () \<Longrightarrow> table_names_ok name_of t"
  by (auto simp: validate_unique_names_def table_names_ok_def and_then_eq_Inr
      intro: validate_unique_key_Inr)

lemma unique_names_cong:
  assumes "\<And>sid s. name_of sid = Inr s \<Longrightarrow> name_of' sid = Inr s" and "unique_names name_of ids"
  shows "unique_names name_of' ids"
proof -
  from assms(2) obtain ks where ks: "map name_of ids = map Inr ks" "distinct ks"
    by (auto simp: unique_names_def)
  have "map name_of' ids = map Inr ks"
    using ks(1) assms(1) by (induction ids arbitrary: ks) (auto simp: map_eq_Cons_conv Cons_eq_map_conv)
  with ks(2) show ?thesis by (auto simp: unique_names_def)
qed

lemma validate_ids_slots:
  assumes "validate_ids check n t = Inr ()" and "s \<in> set (live_slots t)" and "s_default s = VString (Sqbc sid)"
  shows "unat sid < n"
  using assms
  by (auto simp: validate_ids_def and_then_eq_Inr for_each_Inr validate_value_string_refs_def
      validate_string_id_def split: if_splits)

lemma state_slots_ok:
  assumes "validate_ids check n t = Inr ()"
    and "list_all (\<lambda>s. is_state_tag (st_tag (s_type s)) \<and>
      state_value_matches (st_tag (s_type s)) (st_nullable (s_type s)) (s_default s) \<and>
      (\<forall>r. s_default s = VString r \<longrightarrow> (\<exists>sid. r = Sqbc sid))) (live_slots t)"
  shows "list_all (state_slot_ok n) (live_slots t)"
  unfolding list_all_iff state_slot_ok_def
  using assms(2) validate_ids_slots [OF assms(1)] by (fastforce simp: list_all_iff)

section \<open>The whole-file loader\<close>

lemma table_string_Inr:
  assumes "length strings = MAX_STRINGS" "n \<le> MAX_STRINGS"
  shows "table_string strings n sid = Inr s \<longleftrightarrow> unat sid < n \<and> s = strings ! unat sid"
  using assms by (auto simp: table_string_def validate_string_id_def and_then_eq_Inr)

lemma table_string_no_panic:
  assumes "length strings = MAX_STRINGS" "n \<le> MAX_STRINGS"
  shows "table_string strings n sid \<noteq> Inl Panic"
  using assms by (auto simp: table_string_def validate_string_id_def and_then_eq_Inl)

lemma program_parse_Inr:
  assumes "program_parse bytes = Inr p"
  obtains header strings state fns handlers triggers screens owned where
    "parse_header bytes = Inr header" "hd_file_len header = length bytes"
    "hd_header_len header \<le> length bytes" "length bytes \<le> MAX_APP_BYTES"
    "validate_unique_section_kinds (take (hd_header_len header) bytes) (hd_section_count header) = Inr ()"
    "section_bytes bytes (hd_section_count header) SECTION_STRINGS = Inr strings"
    "section_bytes bytes (hd_section_count header) SECTION_STATE = Inr state"
    "section_bytes bytes (hd_section_count header) SECTION_FUNCTIONS = Inr fns"
    "section_bytes bytes (hd_section_count header) SECTION_HANDLERS = Inr handlers"
    "optional_section bytes (hd_section_count header) SECTION_TRIGGERS = Inr triggers"
    "optional_section bytes (hd_section_count header) SECTION_SCREENS = Inr screens"
    "section_bytes bytes (hd_section_count header) SECTION_CODE = Inr (pg_code p)"
    "parse_owned_strings strings = Inr owned"
    "parse_strings strings = Inr (pg_strings p, pg_string_count p)"
    "parse_state state = Inr (tb_state_slots p, tb_state_count p)"
    "parse_functions fns (length (pg_code p)) = Inr (tb_functions p, tb_function_count p)"
    "parse_handlers handlers (length (pg_code p)) = Inr (tb_handlers p, tb_handler_count p)"
    "parse_trigger_timers triggers = Inr (tb_triggers p, tb_trigger_count p)"
    "parse_screens screens (length (pg_code p)) = Inr (tb_screens p, tb_screen_count p)"
    "validate_program_tables (pg_strings p) (pg_string_count p) p = Inr ()"
proof -
  from assms show thesis
    unfolding program_parse_def Let_def
    by (auto simp: and_then_eq_Inr split: if_splits intro!: that)
qed

lemma program_parse_ok:
  assumes "program_parse bytes = Inr p"
  shows "program_ok p \<and> length (pg_code p) \<le> MAX_APP_BYTES"
proof -
  from assms obtain header :: sqbc_header and strings state fns handlers triggers screens where
    small: "length bytes \<le> MAX_APP_BYTES"
    and code: "section_bytes bytes (hd_section_count header) SECTION_CODE = Inr (pg_code p)"
    and parsed: "parse_strings strings = Inr (pg_strings p, pg_string_count p)"
      "parse_state state = Inr (tb_state_slots p, tb_state_count p)"
      "parse_functions fns (length (pg_code p)) = Inr (tb_functions p, tb_function_count p)"
      "parse_handlers handlers (length (pg_code p)) = Inr (tb_handlers p, tb_handler_count p)"
      "parse_trigger_timers triggers = Inr (tb_triggers p, tb_trigger_count p)"
      "parse_screens screens (length (pg_code p)) = Inr (tb_screens p, tb_screen_count p)"
    and valid: "validate_program_tables (pg_strings p) (pg_string_count p) p = Inr ()"
    by (rule program_parse_Inr)
  note strings = parse_strings_ok [OF parsed(1)]
  note rows = parse_state_ok [OF parsed(2)] parse_functions_ok [OF parsed(3)]
    parse_handlers_ok [OF parsed(4)] parse_trigger_timers_ok [OF parsed(5)] parse_screens_ok [OF parsed(6)]
  from valid have ids: "validate_ids (\<lambda>sid. validate_string_id sid (pg_string_count p)) (pg_string_count p) p = Inr ()"
    and names: "validate_unique_names (table_string (pg_strings p) (pg_string_count p)) p = Inr ()"
    by (simp_all add: validate_program_tables_def and_then_eq_Inr)
  have "table_names_ok (table_string (pg_strings p) (pg_string_count p)) p"
    by (rule validate_unique_names_Inr [OF names])
  moreover have "program_string p sid = Inr s"
    if "table_string (pg_strings p) (pg_string_count p) sid = Inr s" for sid s
    using that strings by (simp add: table_string_Inr program_string_def)
  ultimately have "table_names_ok (program_string p) p"
    unfolding table_names_ok_def by (blast intro: unique_names_cong)
  moreover have "length (pg_code p) \<le> length bytes"
  proof -
    have "section_loop bytes k is = Inr bs \<Longrightarrow> length bs \<le> length bytes" for k "is" bs
      by (induction "is") (auto simp: Let_def and_then_eq_Inr get_range_eq_Some split: if_splits)
    with code show ?thesis unfolding section_bytes_def by blast
  qed
  ultimately show ?thesis
    using small strings rows state_slots_ok [OF ids]
    by (simp add: program_ok_def table_sizes_def table_rows_ok_def)
qed

lemma program_parse_no_panic: "program_parse bytes \<noteq> Inl Panic"
proof -
  have valid: "validate_program_tables ss n t \<noteq> Inl Panic" if "parse_strings bs = Inr (ss, n)" for bs ss n and t :: program
    unfolding validate_program_tables_def validate_ids_def validate_unique_names_def
      validate_string_id_def validate_value_string_refs_def
    using parse_strings_ok [OF that] table_string_no_panic [of ss n]
    by (intro no_panic for_each_no_panic validate_unique_no_panic)
      (auto split: vm_value.splits string_ref.splits)
  show ?thesis
    unfolding program_parse_def Let_def
    by (intro no_panic; (rule valid)?; simp)
qed

section \<open>The reader-based loader\<close>

lemma index_string_no_panic:
  "pool_holds (ix_pool x) ss \<Longrightarrow> ix_string_count x = length ss \<Longrightarrow> index_string x sid \<noteq> Inl Panic"
  by (simp add: index_string_refines list_string_def)

lemma validate_index_ok:
  assumes "validate_program_index_tables x = Inr ()"
  shows "table_names_ok (index_string x) x"
    and "validate_ids (validate_index_string_id x) (ix_string_count x) x = Inr ()"
  using assms by (auto simp: validate_program_index_tables_def and_then_eq_Inr dest: validate_unique_names_Inr)

lemma validate_index_no_panic:
  assumes "pool_holds (ix_pool x) ss" "ix_string_count x = length ss"
  shows "validate_program_index_tables x \<noteq> Inl Panic"
  unfolding validate_program_index_tables_def validate_ids_def validate_unique_names_def
    validate_string_id_def validate_index_string_id_def validate_value_string_refs_def
  using index_string_no_panic [OF assms]
  by (intro no_panic for_each_no_panic validate_unique_no_panic)
    (auto split: vm_value.splits string_ref.splits)

lemma parse_owned_strings_holds:
  "parse_owned_strings bs = Inr (pool, n) \<Longrightarrow> \<exists>ss. pool_holds pool ss \<and> n = length ss"
  by (auto dest: parse_owned_strings_refines)

lemma index_parse_from_reader_ok:
  assumes "fst (index_parse_from_reader rd s) = Inr x"
  shows "index_ok x"
proof -
  from assms obtain m bs0 bs1 bs2 bs3 obs4 obs5 where
    strings: "parse_owned_strings bs0 = Inr (ix_pool x, ix_string_count x)"
    and parsed: "parse_state bs1 = Inr (tb_state_slots x, tb_state_count x)"
      "parse_functions bs2 (ix_code_len x) = Inr (tb_functions x, tb_function_count x)"
      "parse_handlers bs3 (ix_code_len x) = Inr (tb_handlers x, tb_handler_count x)"
      "parse_trigger_timers obs4 = Inr (tb_triggers x, tb_trigger_count x)"
      "parse_screens obs5 (ix_code_len x) = Inr (tb_screens x, tb_screen_count x)"
    and valid: "validate_program_index_tables x = Inr ()"
    unfolding index_parse_from_reader_def Let_def
    by (auto simp: bind_exec_eq_Inr split: if_splits prod.splits)
  from parse_owned_strings_holds [OF strings] obtain ss where
    ss: "pool_holds (ix_pool x) ss" "ix_string_count x = length ss" by blast
  note rows = parse_state_ok [OF parsed(1)] parse_functions_ok [OF parsed(2)]
    parse_handlers_ok [OF parsed(3)] parse_trigger_timers_ok [OF parsed(4)] parse_screens_ok [OF parsed(5)]
  show ?thesis
    using ss rows validate_index_ok [OF valid] state_slots_ok [OF validate_index_ok(2) [OF valid]]
    by (auto simp: index_ok_def table_sizes_def table_rows_ok_def)
qed

text \<open>The scratch buffer keeps its length, so the reads after the length checks fit.\<close>

definition cap_is :: "nat \<Rightarrow> 'h \<times> u8 list \<Rightarrow> bool" where
  "cap_is n s \<longleftrightarrow> length (snd s) = n"

definition reader_no_panic :: "'h reader \<Rightarrow> bool" where
  "reader_no_panic rd \<longleftrightarrow> (\<forall>off n h. fst (rd off n h) \<noteq> Inl Panic)"

lemma reader_no_panicD: "reader_no_panic rd \<Longrightarrow> rd off n h \<noteq> (Inl Panic, h')"
  by (metis fst_conv reader_no_panic_def)

lemma slice_reader_no_panic [simp]: "reader_no_panic (slice_reader bytes)"
  unfolding reader_no_panic_def slice_reader_def exec_simps fst_conv by (intro allI no_panic)

lemma read_fresh_triple:
  "reader_no_panic rd \<Longrightarrow> triple (cap_is c) (read_fresh rd off n) (\<lambda>_. cap_is c) (\<lambda>_. cap_is c)"
  by (rule tripleI) (auto simp: read_fresh_def cap_is_def reader_no_panicD split: prod.splits sum.splits)

lemma read_scratch_triple:
  "reader_no_panic rd \<Longrightarrow> n \<le> c \<Longrightarrow>
   triple (cap_is c) (read_scratch rd off n) (\<lambda>_. cap_is c) (\<lambda>_. cap_is c)"
  by (rule tripleI)
    (auto simp: read_scratch_def cap_is_def reader_no_panicD split: prod.splits sum.splits if_splits)

lemma triple_scratch_len:
  assumes "triple (cap_is c) (f c) Q E"
  shows "triple (cap_is c) (bind_exec scratch_len f) Q E"
  using assms by (auto simp: triple_def scratch_len_def cap_is_def split_beta)

text \<open>Sequencing with the buffer length as the invariant.\<close>

lemma cap_bind:
  assumes "triple (cap_is c) m (\<lambda>_. cap_is c) E" and "\<And>v. triple (cap_is c) (f v) Q E"
  shows "triple (cap_is c) (bind_exec m f) Q E"
  using assms by (rule triple_bind)

lemma cap_lift_bind:
  assumes "r \<noteq> Inl Panic" and "\<And>v. r = Inr v \<Longrightarrow> triple (cap_is c) (f v) Q (\<lambda>_. cap_is c)"
  shows "triple (cap_is c) (bind_exec (lift r) f) Q (\<lambda>_. cap_is c)"
  using assms by (cases r; cases "projl r") (auto simp: triple_def)

lemmas cap_intros = triple_scratch_len cap_lift_bind cap_bind triple_if triple_prod triple_option
  triple_ret triple_throw triple_gets triple_lift read_fresh_triple read_scratch_triple

lemma collect_sections_no_panic [simp, no_panic]: "collect_sections w bs m is \<noteq> Inl Panic"
  by (induction "is" arbitrary: m) (simp, unfold collect_sections.simps, (intro no_panic; simp))

lemma reader_sections_triple:
  "reader_no_panic rd \<Longrightarrow>
   triple (cap_is c) (reader_sections wanted rd) (\<lambda>_. cap_is c) (\<lambda>_. cap_is c)"
  unfolding reader_sections_def by (intro cap_intros; simp)

lemma read_section_triple:
  "reader_no_panic rd \<Longrightarrow> sec_len r \<le> c \<Longrightarrow>
   triple (cap_is c) (read_section rd r) (\<lambda>_. cap_is c) (\<lambda>_. cap_is c)"
  unfolding read_section_def by (rule read_scratch_triple)

lemma read_optional_triple:
  "reader_no_panic rd \<Longrightarrow> \<not> opt_len_over c r \<Longrightarrow>
   triple (cap_is c) (read_optional rd r) (\<lambda>_. cap_is c) (\<lambda>_. cap_is c)"
  unfolding read_optional_def opt_len_over_def
  by (intro cap_intros read_section_triple; simp)

lemma validate_parsed_no_panic:
  "parse_owned_strings bs = Inr (ix_pool x, ix_string_count x) \<Longrightarrow>
   validate_program_index_tables x \<noteq> Inl Panic"
  using parse_owned_strings_holds validate_index_no_panic by blast

lemma index_parse_from_reader_triple:
  assumes rd: "reader_no_panic rd"
  shows "triple (cap_is c) (index_parse_from_reader rd) (\<lambda>_. cap_is c) (\<lambda>_. cap_is c)"
  unfolding index_parse_from_reader_def Let_def
  by (intro cap_intros reader_sections_triple read_section_triple read_optional_triple rd;
      (simp only: basic_no_panic table_no_panic not_False_eq_True de_Morgan_disj not_less;
        fail)?)
    (simp_all only: basic_no_panic table_no_panic not_False_eq_True de_Morgan_disj not_less,
      rule validate_parsed_no_panic, simp)

lemma index_parse_from_reader_no_panic:
  assumes "reader_no_panic rd"
  shows "fst (index_parse_from_reader rd s) \<noteq> Inl Panic"
  by (rule triple_no_panic [OF index_parse_from_reader_triple [OF assms, of "length (snd s)"]])
    (simp add: cap_is_def)

text \<open>The one-row-at-a-time readers.\<close>

lemma scratch_res_triple:
  assumes "\<And>scratch. f scratch \<noteq> Inl Panic"
  shows "triple (cap_is c) (scratch_res f) (\<lambda>_. cap_is c) (\<lambda>_. cap_is c)"
  using assms by (auto simp: triple_def scratch_res_def split: prod.splits sum.splits fail.splits)

lemma counted_len_no_panic [simp, no_panic]: "counted_len_error n w l \<noteq> Inl Panic"
  unfolding counted_len_error_def by (intro no_panic)

lemma string_from_section_no_panic [simp, no_panic]: "string_from_section bs sid \<noteq> Inl Panic"
proof -
  have "string_from_loop bs i c is \<noteq> Inl Panic" for i c "is"
    by (induction "is" arbitrary: c) (simp, unfold string_from_loop.simps, (intro no_panic; simp))
  then show ?thesis
    unfolding string_from_section_def Let_def by (intro no_panic; simp)
qed

lemmas row_intros = cap_intros reader_sections_triple read_section_triple scratch_res_triple

lemma trigger_reader_sections_triple:
  "reader_no_panic rd \<Longrightarrow>
   triple (cap_is c) (trigger_reader_sections rd) (\<lambda>_. cap_is c) (\<lambda>_. cap_is c)"
  unfolding trigger_reader_sections_def by (intro row_intros; simp)

lemma device_binding_reader_sections_triple:
  "reader_no_panic rd \<Longrightarrow>
   triple (cap_is c) (device_binding_reader_sections rd) (\<lambda>_. cap_is c) (\<lambda>_. cap_is c)"
  unfolding device_binding_reader_sections_def by (intro row_intros; simp)

lemma row_readers_triple:
  assumes "reader_no_panic rd"
  shows "triple (cap_is c) (trigger_timer_count_from_reader rd) (\<lambda>_. cap_is c) (\<lambda>_. cap_is c)"
    and "triple (cap_is c) (trigger_timer_from_reader rd i) (\<lambda>_. cap_is c) (\<lambda>_. cap_is c)"
    and "triple (cap_is c) (device_binding_count_from_reader rd) (\<lambda>_. cap_is c) (\<lambda>_. cap_is c)"
    and "triple (cap_is c) (device_binding_from_reader rd i) (\<lambda>_. cap_is c) (\<lambda>_. cap_is c)"
  unfolding trigger_timer_count_from_reader_def trigger_timer_from_reader_def
    device_binding_count_from_reader_def device_binding_from_reader_def Let_def
  by (intro row_intros trigger_reader_sections_triple device_binding_reader_sections_triple assms;
      simp)+

section \<open>The two loaders agree\<close>

lemma unique_in_complete:
  "map key ps = map Inr ks \<Longrightarrow> name \<notin> set ks \<Longrightarrow> unique_in dup key name ps = Inr ()"
  by (induction ps arbitrary: ks) (auto simp: map_eq_Cons_conv Cons_eq_map_conv)

lemma unique_from_complete:
  "map key (seen @ rs) = map Inr ks \<Longrightarrow> distinct ks \<Longrightarrow> unique_from dup key seen rs = Inr ()"
proof (induction rs arbitrary: seen)
  case (Cons r rs)
  then obtain as k bs where ks: "ks = as @ k # bs" "map key seen = map Inr as" "key r = Inr k"
    by (auto simp: append_eq_map_conv Cons_eq_map_conv map_eq_append_conv map_eq_Cons_conv)
  have "unique_in dup key k seen = Inr ()"
    using ks Cons.prems(2) by (intro unique_in_complete [of _ _ as]) auto
  moreover have "unique_from dup key (seen @ [r]) rs = Inr ()"
    using Cons.prems by (intro Cons.IH) auto
  ultimately show ?case using ks(3) by simp
qed simp

lemma validate_unique_iff:
  "validate_unique dup key rows = Inr () \<longleftrightarrow> (\<exists>ks. map key rows = map Inr ks \<and> distinct ks)"
  using validate_unique_Inr unique_from_complete [of key "[]"] by (auto simp: validate_unique_def)

lemma validate_unique_names_iff:
  "validate_unique_names name_of t = Inr () \<longleftrightarrow> table_names_ok name_of t"
  by (auto simp: validate_unique_names_def table_names_ok_def and_then_eq_Inr validate_unique_iff
      unique_names_def comp_def)

lemma validate_ids_cong:
  assumes "validate_ids check n t = Inr ()" and "\<And>sid. check sid = Inr () \<Longrightarrow> check' sid = Inr ()"
  shows "validate_ids check' n t = Inr ()"
  using assms by (auto simp: validate_ids_def and_then_eq_Inr for_each_Inr)

text \<open>Reads of a slice into a large enough scratch buffer.\<close>

definition scratch_for :: "u8 list \<Rightarrow> unit \<times> u8 list \<Rightarrow> bool" where
  "scratch_for bytes s \<longleftrightarrow> length bytes \<le> length (snd s)"

lemma read_slice:
  assumes "off + n \<le> length bytes" and "length bytes \<le> MAX_APP_BYTES" and "scratch_for bytes s"
  obtains s' where "read_scratch (slice_reader bytes) off n s = (Inr (take n (drop off bytes)), s')"
    and "scratch_for bytes s'"
  using assms
  by (cases s) (simp add: read_scratch_def slice_reader_def get_range_def usize_max_def scratch_for_def)

lemma read_slice_fresh:
  assumes "n \<le> length bytes" and "length bytes \<le> MAX_APP_BYTES"
  shows "read_fresh (slice_reader bytes) 0 n s = (Inr (take n bytes), s)"
  using assms by (cases s) (simp add: read_fresh_def slice_reader_def get_range_def usize_max_def)

lemma get_range_take: "b \<le> n \<Longrightarrow> get_range (take n xs) a b = get_range xs a b"
  by (auto simp: get_range_def min_def drop_take)

lemma parse_header_take:
  assumes "14 \<le> n" "14 \<le> length bytes"
  shows "parse_header (take n bytes) = parse_header bytes"
  using assms by (simp add: parse_header_def read_u16_def read_u32_def get_range_take min_def)

text \<open>Every record of the directory, if each of them is well formed.\<close>

definition directory :: "u8 list \<Rightarrow> (nat \<Rightarrow> sqbc_section) \<Rightarrow> nat \<Rightarrow> bool" where
  "directory header_bytes rec n \<longleftrightarrow> (\<forall>i < n. parse_section_record header_bytes i = Inr (rec i))"

fun first_of :: "(nat \<Rightarrow> bool) \<Rightarrow> nat list \<Rightarrow> nat option" where
  "first_of P [] = None"
| "first_of P (i # is) = (if P i then Some i else first_of P is)"

lemma first_of_Some: "first_of P is = Some i \<Longrightarrow> i \<in> set is \<and> P i"
  by (induction "is") (auto split: if_splits)

lemma first_of_None: "first_of P is = None \<longleftrightarrow> (\<forall>i \<in> set is. \<not> P i)"
  by (induction "is") auto

lemma collect_sections_first:
  assumes "\<forall>i \<in> set is. parse_section_record hb i = Inr (rec i)"
    and "distinct (map (\<lambda>i. sec_kind (rec i)) is)"
  shows "collect_sections w hb m is = Inr (\<lambda>k. if k \<in> set w then
    (case first_of (\<lambda>i. sec_kind (rec i) = k) is of Some i \<Rightarrow> Some (rec i) | None \<Rightarrow> m k) else m k)"
  using assms
proof (induction "is" arbitrary: m)
  case (Cons i "is")
  then have "first_of (\<lambda>j. sec_kind (rec j) = sec_kind (rec i)) is = None"
    unfolding first_of_None by (simp add: image_iff) metis
  with Cons show ?case by (auto simp: fun_eq_iff split: option.splits)
qed (simp add: fun_eq_iff)

lemma get_range_takeD: "get_range (take n xs) a b = Some v \<Longrightarrow> get_range xs a b = Some v"
  by (auto simp: get_range_def min_def drop_take split: if_splits)

lemma read_takeD:
  "read_u16 (take n bs) p = Inr v \<Longrightarrow> read_u16 bs p = Inr v"
  "read_u32 (take n bs) p = Inr w \<Longrightarrow> read_u32 bs p = Inr w"
  by (auto simp: read_u16_def read_u32_def and_then_eq_Inr dest: get_range_takeD)

lemma section_record_reads:
  assumes "parse_section_record (take hl bytes) i = Inr r"
  shows "read_u16 bytes (14 + i * 12) = Inr (sec_kind r)"
    and "\<exists>off ln. read_u32 bytes (14 + i * 12 + 4) = Inr off \<and> read_u32 bytes (14 + i * 12 + 8) = Inr ln \<and>
      unat off = sec_offset r \<and> unat ln = sec_len r"
    and "read_u16 (take hl bytes) (14 + i * 12) = Inr (sec_kind r)"
proof -
  from assms obtain off ln where
    "read_u16 (take hl bytes) (14 + i * 12) = Inr (sec_kind r)"
    "read_u32 (take hl bytes) (14 + i * 12 + 4) = Inr off" "read_u32 (take hl bytes) (14 + i * 12 + 8) = Inr ln"
    "unat off = sec_offset r" "unat ln = sec_len r"
    unfolding parse_section_record_def Let_def
    by (elim and_then_InrE) (simp split: if_split_asm, elim and_then_InrE, simp split: if_split_asm, force)
  then show "read_u16 bytes (14 + i * 12) = Inr (sec_kind r)"
    "\<exists>off ln. read_u32 bytes (14 + i * 12 + 4) = Inr off \<and> read_u32 bytes (14 + i * 12 + 8) = Inr ln \<and>
      unat off = sec_offset r \<and> unat ln = sec_len r"
    "read_u16 (take hl bytes) (14 + i * 12) = Inr (sec_kind r)"
    by (blast dest: read_takeD)+
qed

lemma section_loop_first:
  assumes "\<forall>i \<in> set is. parse_section_record (take hl bytes) i = Inr (rec i)"
  shows "section_loop bytes k is = (case first_of (\<lambda>i. sec_kind (rec i) = k) is of
      None \<Rightarrow> Inl (Err MissingSection)
    | Some i \<Rightarrow> and_then (ok_or InvalidSection (checked_add (sec_offset (rec i)) (sec_len (rec i))))
        (\<lambda>stop. ok_or InvalidSection (get_range bytes (sec_offset (rec i)) stop)))"
  using assms
proof (induction "is")
  case (Cons i "is")
  then have i: "parse_section_record (take hl bytes) i = Inr (rec i)" by simp
  from section_record_reads(2) [OF i] obtain off ln where
    "read_u32 bytes (14 + i * 12 + 4) = Inr off" "read_u32 bytes (14 + i * 12 + 8) = Inr ln"
    "unat off = sec_offset (rec i)" "unat ln = sec_len (rec i)" by blast
  with Cons section_record_reads(1) [OF i] show ?case by (simp add: Let_def)
qed simp

lemma section_bytes_rec:
  assumes "directory (take hl bytes) rec n" and "section_bytes bytes n k = Inr bs"
  obtains i where "i < n" "first_of (\<lambda>i. sec_kind (rec i) = k) [0..<n] = Some i"
    "get_range bytes (sec_offset (rec i)) (sec_offset (rec i) + sec_len (rec i)) = Some bs"
proof -
  have "\<forall>i \<in> set [0..<n]. parse_section_record (take hl bytes) i = Inr (rec i)"
    using assms(1) by (simp add: directory_def)
  note loop = section_loop_first [OF this, of k] assms(2) [unfolded section_bytes_def]
  show thesis
  proof (cases "first_of (\<lambda>i. sec_kind (rec i) = k) [0..<n]")
    case None
    with loop show thesis by simp
  next
    case (Some i)
    with loop first_of_Some [OF Some] show thesis
      by (intro that [of i])
        (auto simp: and_then_eq_Inr checked_add_def split: if_splits dest!: ok_or_eq_Inr [THEN iffD1, OF sym])
  qed
qed

lemma optional_section_rec:
  assumes dir: "directory (take hl bytes) rec n" and "optional_section bytes n k = Inr obs"
  shows "case first_of (\<lambda>i. sec_kind (rec i) = k) [0..<n] of
      None \<Rightarrow> obs = None
    | Some i \<Rightarrow> \<exists>bs. obs = Some bs \<and>
        get_range bytes (sec_offset (rec i)) (sec_offset (rec i) + sec_len (rec i)) = Some bs"
proof (cases "first_of (\<lambda>i. sec_kind (rec i) = k) [0..<n]")
  have all: "\<forall>i \<in> set [0..<n]. parse_section_record (take hl bytes) i = Inr (rec i)"
    using dir by (simp add: directory_def)
  note loop = section_loop_first [OF all, of k]
  {
    case None
    with loop assms(2) show ?thesis by (simp add: optional_section_def section_bytes_def)
  next
    case (Some i)
    show ?thesis
    proof (cases "section_bytes bytes n k")
      case (Inr bs)
      with section_bytes_rec [OF dir Inr] Some assms(2) show ?thesis
        by (auto simp: optional_section_def)
    next
      case (Inl e)
      with loop Some have "e = Err InvalidSection"
        by (auto simp: section_bytes_def and_then_eq_Inl ok_or_eq_Inl)
      with Inl assms(2) show ?thesis by (simp add: optional_section_def)
    qed
  }
qed


text \<open>
  The uniqueness check makes the directory's kinds distinct, so the record the reader
  keeps for a kind is the one the whole-file loader finds.
\<close>

lemma directory_kinds:
  assumes "validate_unique_section_kinds (take hl bytes) n = Inr ()" and "directory (take hl bytes) rec n"
  shows "distinct (map (\<lambda>i. sec_kind (rec i)) [0..<n])"
proof -
  from assms(1) obtain ks where ks: "distinct ks"
    "map (\<lambda>i. read_u16 (take hl bytes) (14 + i * 12)) [0..<n] = map Inr ks"
    by (auto simp: validate_unique_section_kinds_def validate_unique_iff)
  have "map (\<lambda>i. read_u16 (take hl bytes) (14 + i * 12)) [0..<n] =
      map Inr (map (\<lambda>i. sec_kind (rec i)) [0..<n])"
    using assms(2) section_record_reads(3) by (auto simp: directory_def)
  with ks have "map (\<lambda>i. sec_kind (rec i)) [0..<n] = ks"
    by (metis (no_types, lifting) inj_map_eq_map injI sum.inject(2))
  with ks(1) show ?thesis by simp
qed

lemma reader_sections_slice:
  assumes h: "parse_header bytes = Inr h" "hd_header_len h \<le> length bytes" "length bytes \<le> MAX_APP_BYTES"
    and uniq: "validate_unique_section_kinds (take (hd_header_len h) bytes) (hd_section_count h) = Inr ()"
    and dir: "directory (take (hd_header_len h) bytes) rec (hd_section_count h)"
    and s: "scratch_for bytes s"
  obtains s' where "reader_sections w (slice_reader bytes) s =
      (Inr (\<lambda>k. if k \<in> set w
         then map_option rec (first_of (\<lambda>i. sec_kind (rec i) = k) [0..<hd_section_count h]) else None), s')"
    and "scratch_for bytes s'"
proof -
  let ?hl = "hd_header_len h" and ?n = "hd_section_count h"
  have hl: "14 \<le> ?hl" and len: "14 \<le> length bytes"
    using h(1) by (auto simp: parse_header_def and_then_eq_Inr Let_def split: if_splits)
  obtain s' where s': "read_scratch (slice_reader bytes) 0 ?hl s = (Inr (take ?hl bytes), s')"
    "scratch_for bytes s'"
    using read_slice [of 0 ?hl bytes s] h(2,3) s by auto
  have collect: "collect_sections w (take ?hl bytes) (\<lambda>_. None) [0..<?n] =
      Inr (\<lambda>k. if k \<in> set w then map_option rec (first_of (\<lambda>i. sec_kind (rec i) = k) [0..<?n]) else None)"
    using collect_sections_first [OF _ directory_kinds [OF uniq dir], of "take ?hl bytes" w "\<lambda>_. None"] dir
    by (auto simp: directory_def map_option_case cong: if_cong)
  have "\<not> ?hl > length (snd s)" using s h(2) by (simp add: scratch_for_def)
  then have "reader_sections w (slice_reader bytes) s =
      (Inr (\<lambda>k. if k \<in> set w then map_option rec (first_of (\<lambda>i. sec_kind (rec i) = k) [0..<?n]) else None), s')"
    using parse_header_take [of 14 bytes] len h s' collect uniq
    by (cases s) (simp add: reader_sections_def read_slice_fresh bind_exec_def scratch_len_def)
  with s'(2) show thesis by (rule that [rotated])
qed

lemma read_section_slice:
  assumes "get_range bytes (sec_offset r) (sec_offset r + sec_len r) = Some bs"
    and "length bytes \<le> MAX_APP_BYTES" and "scratch_for bytes s"
  obtains s' where "read_section (slice_reader bytes) r s = (Inr bs, s')" and "scratch_for bytes s'"
  using read_slice [of "sec_offset r" "sec_len r" bytes s] assms
  by (auto simp: read_section_def get_range_eq_Some)

lemma read_optional_slice:
  assumes "case m of None \<Rightarrow> obs = None | Some i \<Rightarrow> \<exists>bs. obs = Some bs \<and>
      get_range bytes (sec_offset (rec i)) (sec_offset (rec i) + sec_len (rec i)) = Some bs"
    and "length bytes \<le> MAX_APP_BYTES" and "scratch_for bytes s"
  obtains s' where "read_optional (slice_reader bytes) (map_option rec m) s = (Inr obs, s')"
    and "scratch_for bytes s'"
proof (cases m)
  case None
  with assms(1,3) that show thesis by (simp add: read_optional_def)
next
  case (Some i)
  with assms(1) obtain bs where bs: "obs = Some bs"
    "get_range bytes (sec_offset (rec i)) (sec_offset (rec i) + sec_len (rec i)) = Some bs" by auto
  obtain s' where "read_section (slice_reader bytes) (rec i) s = (Inr bs, s')" "scratch_for bytes s'"
    by (rule read_section_slice [OF bs(2) assms(2,3)])
  with Some bs(1) that show thesis by (simp add: read_optional_def bind_exec_def)
qed

lemma opt_len_fits:
  assumes "case m of None \<Rightarrow> obs = None | Some i \<Rightarrow> \<exists>bs. obs = Some bs \<and>
      get_range bytes (sec_offset (rec i)) (sec_offset (rec i) + sec_len (rec i)) = Some bs"
    and "length bytes \<le> cap"
  shows "\<not> opt_len_over cap (map_option rec m)"
  using assms by (auto simp: opt_len_over_def get_range_eq_Some split: option.splits)

lemma validate_index_complete:
  assumes pool: "pool_holds (ix_pool x) ss" "ix_string_count x = length ss"
    and strings: "length strings = MAX_STRINGS" "take (length ss) strings = ss" "length ss \<le> MAX_STRINGS"
    and valid: "validate_program_tables strings (length ss) t = Inr ()"
    and same: "tables.truncate x = tables.truncate t"
  shows "validate_program_index_tables x = Inr ()"
proof -
  have name: "table_string strings (length ss) sid = Inr s \<Longrightarrow> index_string x sid = Inr s" for sid s
    using strings index_string_refines [OF pool]
    by (metis list_string_def nth_take table_string_Inr)
  have check: "validate_string_id sid (length ss) = Inr () \<Longrightarrow> validate_index_string_id x sid = Inr ()" for sid
    using index_string_refines [OF pool, of sid] pool(2)
    by (simp add: validate_index_string_id_def validate_string_id_def list_string_def split: if_splits)
  have tb: "tb_state_slots x = tb_state_slots t" "tb_state_count x = tb_state_count t"
    "tb_functions x = tb_functions t" "tb_function_count x = tb_function_count t"
    "tb_handlers x = tb_handlers t" "tb_handler_count x = tb_handler_count t"
    "tb_triggers x = tb_triggers t" "tb_trigger_count x = tb_trigger_count t"
    "tb_screens x = tb_screens t" "tb_screen_count x = tb_screen_count t"
    using same by (simp_all add: tables.truncate_def)
  from valid have ids: "validate_ids (\<lambda>sid. validate_string_id sid (length ss)) (length ss) t = Inr ()"
    and names: "table_names_ok (table_string strings (length ss)) t"
    by (simp_all add: validate_program_tables_def and_then_eq_Inr validate_unique_names_iff)
  have "validate_ids (validate_index_string_id x) (length ss) t = Inr ()"
    by (rule validate_ids_cong [OF ids check])
  then have "validate_ids (validate_index_string_id x) (ix_string_count x) x = Inr ()"
    by (simp add: validate_ids_def tb pool(2))
  moreover have "table_names_ok (index_string x) x"
    using names name unfolding table_names_ok_def tb by (blast intro: unique_names_cong)
  ultimately show ?thesis by (simp add: validate_program_index_tables_def validate_unique_names_iff)
qed

definition well_formed_directory :: "u8 list \<Rightarrow> bool" where
  "well_formed_directory bytes \<longleftrightarrow>
     (\<forall>h. parse_header bytes = Inr h \<longrightarrow> (\<forall>i < hd_section_count h.
        \<exists>r. parse_section_record (take (hd_header_len h) bytes) i = Inr r))"


section \<open>A sample program\<close>

text \<open>One string \<open>a\<close>, one handler for it, and the code \<open>HALT\<close>.\<close>

definition sample_sqbc :: "u8 list" where
  "sample_sqbc = [83, 81, 66, 67, 74, 0, 102, 0, 0, 0, 5, 0, 0, 0, 1, 0, 0, 0, 74, 0, 0, 0, 5, 0, 0, 0, 2, 
0, 0, 0, 79, 0, 0, 0, 2, 0, 0, 0, 3, 0, 0, 0, 81, 0, 0, 0, 2, 0, 0, 0, 4, 0, 0, 0, 83, 0, 
0, 0, 18, 0, 0, 0, 5, 0, 0, 0, 101, 0, 0, 0, 1, 0, 0, 0, 1, 0, 1, 0, 97, 0, 0, 0, 0, 1, 
0, 0, 0, 0, 0, 0, 0, 0, 0, 0, 0, 0, 0, 1, 0, 0, 0, 42]"

definition sample_program :: program where
  "sample_program = \<lparr>tb_state_slots = replicate 16 default_slot, tb_state_count = 0,
     tb_functions = replicate 16 default_function, tb_function_count = 0,
     tb_handlers = \<lparr>h_event_id = 0, h_preload = False, h_param_count = 0, h_local_count = 0,
        h_start = 0, h_len = 1\<rparr> # replicate 15 default_handler, tb_handler_count = 1,
     tb_triggers = replicate 16 default_trigger, tb_trigger_count = 0,
     tb_screens = replicate 16 default_screen, tb_screen_count = 0,
     pg_strings = lit ''a'' # replicate 127 [], pg_string_count = 1, pg_code = [42]\<rparr>"

lemma sample_header: "parse_header sample_sqbc = Inr \<lparr>hd_header_len = 74, hd_file_len = 102, hd_section_count = 5\<rparr>"
  by (simp add: sample_sqbc_def parse_header_def read_u16_def read_u32_def get_range_def)


lemmas sample_simps = sample_sqbc_def read_u16_def read_u32_def read_i32_def get_range_def get_at_def
  parse_section_record_def section_bytes_def optional_section_def checked_add_def
  usize_max_def from_utf8_def validate_unique_section_kinds_def validate_unique_def upt_rec

lemma sample_sections:
  "section_bytes sample_sqbc 5 SECTION_STRINGS = Inr [1, 0, 1, 0, 97]"
  "section_bytes sample_sqbc 5 SECTION_STATE = Inr [0, 0]"
  "section_bytes sample_sqbc 5 SECTION_FUNCTIONS = Inr [0, 0]"
  "section_bytes sample_sqbc 5 SECTION_HANDLERS = Inr [1, 0, 0, 0, 0, 0, 0, 0, 0, 0, 0, 0, 0, 0, 1, 0, 0, 0]"
  "optional_section sample_sqbc 5 SECTION_TRIGGERS = Inr None"
  "optional_section sample_sqbc 5 SECTION_SCREENS = Inr None"
  "section_bytes sample_sqbc 5 SECTION_CODE = Inr [42]"
  "validate_unique_section_kinds (take 74 sample_sqbc) 5 = Inr ()"
  by (simp_all add: sample_simps)

lemma sample_tables:
  "parse_owned_strings [1, 0, 1, 0, 97] = Inr (pool_store 0 [97] empty_pool, 1)"
  "parse_strings [1, 0, 1, 0, 97] = Inr (lit ''a'' # replicate 127 [], 1)"
  "parse_state [0, 0] = Inr (replicate 16 default_slot, 0)"
  "parse_functions [0, 0] 1 = Inr (replicate 16 default_function, 0)"
  "parse_handlers [1, 0, 0, 0, 0, 0, 0, 0, 0, 0, 0, 0, 0, 0, 1, 0, 0, 0] 1 =
     Inr (\<lparr>h_event_id = 0, h_preload = False, h_param_count = 0, h_local_count = 0,
        h_start = 0, h_len = 1\<rparr> # replicate 15 default_handler, 1)"
  "parse_trigger_timers None = Inr (replicate 16 default_trigger, 0)"
  "parse_screens None 1 = Inr (replicate 16 default_screen, 0)"
  by (simp_all add: sample_simps parse_owned_strings_def parse_strings_def parse_string_row_def parse_state_def
      parse_functions_def parse_handlers_def parse_handler_row_def parse_trigger_timers_def parse_screens_def
      fill_array_def validate_range_def empty_pool_def)

lemma sample_parse: "program_parse sample_sqbc = Inr sample_program"
proof -
  have "validate_program_tables (lit ''a'' # replicate 127 []) 1 sample_program = Inr ()"
    by (simp add: validate_program_tables_def sample_program_def validate_ids_def validate_unique_names_def
        validate_string_id_def validate_unique_def table_string_def)
  moreover have "length sample_sqbc = 102" by (simp add: sample_sqbc_def)
  ultimately show ?thesis
    unfolding program_parse_def
    using sample_header sample_sections sample_tables by (simp add: sample_program_def Let_def)
qed

lemma sample_directory: "well_formed_directory sample_sqbc"
proof -
  have "\<exists>r. parse_section_record (take 74 sample_sqbc) i = Inr r" if "i < 5" for i
  proof -
    have "i = 0 \<or> i = 1 \<or> i = 2 \<or> i = 3 \<or> i = 4" using that by auto
    moreover have "parse_header (take 74 sample_sqbc) =
        Inr \<lparr>hd_header_len = 74, hd_file_len = 102, hd_section_count = 5\<rparr>"
      using sample_header parse_header_take [of 74 sample_sqbc] by (simp add: sample_sqbc_def)
    ultimately show ?thesis
      by (elim disjE) (simp_all add: sample_simps)
  qed
  then show ?thesis by (simp add: well_formed_directory_def sample_header)
qed

section \<open>Lookups\<close>

text \<open>\<open>ProgramIndex\<close> keeps the laws the interner asks of a program's strings.\<close>

lemma index_string_valid: "index_string x sid = Inr s \<Longrightarrow> utf8_valid s"
  by (auto simp: index_string_def Let_def and_then_eq_Inr split: if_splits)

lemma index_find_loop_sound: "index_find_loop x v is = Inr (Some i) \<Longrightarrow> index_string x i = Inr v"
  by (induction "is") (auto simp: and_then_eq_Inr split: if_splits)

interpretation index_strings: string_table_laws "index_table x" for x
  by unfold_locales (auto simp: index_table_def dest: index_string_valid index_find_loop_sound)

lemma program_table_laws:
  assumes "program_ok p" shows "string_table_laws (program_table p)"
proof
  show "tbl_find (program_table p) v = Inr (Some i) \<Longrightarrow> tbl_string (program_table p) i = Inr v" for v i
    using assms program_table_refines [of p]
    by (auto simp: program_ok_def list_table_def list_string_def dest!: position_Some)
  show "tbl_string (program_table p) i = Inr s \<Longrightarrow> utf8_valid s" for i s
    using assms program_table_refines [of p]
    by (auto simp: program_ok_def list_table_def list_string_def list_all_length split: if_splits)
qed

text \<open>A loaded index answers every string id and every search without a panic.\<close>

lemma index_ok_table:
  assumes "index_ok x"
  obtains ss where "index_table x = list_table ss" "index_string x = list_string ss"
    "length ss = ix_string_count x" "length ss \<le> MAX_STRINGS"
proof -
  from assms obtain ss where "pool_holds (ix_pool x) ss" "ix_string_count x = length ss"
    by (auto simp: index_ok_def)
  then show thesis
    using index_table_refines index_string_refines by (intro that [of ss]) (auto simp: pool_holds_def)
qed

lemma index_table_total: "index_ok x \<Longrightarrow> table_total (index_table x)"
  by (erule index_ok_table) (auto simp: table_total_def list_table_def list_string_def)

lemma find_row_result:
  assumes "unique_names name_of (map key rows)"
  shows "case find_row missing name_of key name i rows of
      Inr (j, r) \<Rightarrow> i \<le> j \<and> j - i < length rows \<and> rows ! (j - i) = r \<and> name_of (key r) = Inr name
    | Inl e \<Rightarrow> e = Err missing \<and> (\<forall>r \<in> set rows. name_of (key r) \<noteq> Inr name)"
  using assms
proof (induction rows arbitrary: i)
  case (Cons r rows)
  from Cons.prems obtain k ks where k: "name_of (key r) = Inr k" "map name_of (map key rows) = map Inr ks" "distinct ks"
    by (auto simp: unique_names_def Cons_eq_map_conv map_eq_Cons_conv)
  then have "unique_names name_of (map key rows)" by (auto simp: unique_names_def)
  note IH = Cons.IH [OF this, of "Suc i"]
  show ?case
  proof (cases "k = name")
    case False
    have "j - i = Suc l \<Longrightarrow> j - Suc i = l" for j l by simp
    with False IH k(1) show ?thesis
      by (auto simp: nth_Cons split: sum.splits prod.splits nat.splits)
  qed (simp add: k(1))
qed simp

lemma index_ok_names: "index_ok x \<Longrightarrow> unique_names (index_string x) (map h_event_id (live_handlers x))"
  "index_ok x \<Longrightarrow> unique_names (index_string x) (map sc_name_id (live_screens x))"
  by (simp_all add: index_ok_def table_names_ok_def)

lemma index_handler_cases:
  assumes "index_ok x"
  shows "(index_handler x ev = Inl (Err HandlerNotFound) \<and>
      (\<forall>h \<in> set (live_handlers x). index_string x (h_event_id h) \<noteq> Inr ev)) \<or>
    (\<exists>i h. index_handler x ev = Inr (i, h) \<and> i < tb_handler_count x \<and> h = tb_handlers x ! i \<and>
      index_string x (h_event_id h) = Inr ev \<and> handler_ok (ix_code_len x) h)"
proof -
  have len: "length (live_handlers x) = tb_handler_count x" and rows: "list_all (handler_ok (ix_code_len x)) (live_handlers x)"
    using assms by (simp_all add: index_ok_def table_sizes_def table_rows_ok_def)
  show ?thesis
    using find_row_result [OF index_ok_names(1) [OF assms], of HandlerNotFound ev 0] len rows
    by (auto simp: index_handler_def list_all_length split: sum.splits)
qed

lemma index_screen_cases:
  assumes "index_ok x"
  shows "(index_screen x name = Inl (Err InvalidOperand) \<and>
      (\<forall>r \<in> set (live_screens x). index_string x (sc_name_id r) \<noteq> Inr name)) \<or>
    (\<exists>i r. index_screen x name = Inr (i, r) \<and> i < tb_screen_count x \<and> r = tb_screens x ! i \<and>
      index_string x (sc_name_id r) = Inr name \<and> sc_start r + sc_len r \<le> ix_code_len x)"
proof -
  have len: "length (live_screens x) = tb_screen_count x"
    and rows: "list_all (\<lambda>r. sc_start r + sc_len r \<le> ix_code_len x) (live_screens x)"
    using assms by (simp_all add: index_ok_def table_sizes_def table_rows_ok_def)
  show ?thesis
    using find_row_result [OF index_ok_names(2) [OF assms], of InvalidOperand name 0] len rows
    by (auto simp: index_screen_def list_all_length split: sum.splits)
qed

section \<open>The properties of loading\<close>

lemma empty_pool_len [simp]: "sp_len empty_pool = 0"
  by (simp add: empty_pool_def)

lemma pool_strings_loop_fits:
  assumes "pool_holds p ss" and "length ss + length rest \<le> MAX_STRINGS" and "list_all utf8_valid rest"
    and "sp_len p + sum_list (map length rest) \<le> MAX_PROGRAM_STRING_BYTES"
  shows "\<exists>p'. pool_strings_loop p (length ss) rest = Inr p'"
  using assms
proof (induction rest arbitrary: p ss)
  case (Cons raw rest)
  have "pool_holds (pool_store (length ss) raw p) (ss @ [raw])"
    using Cons.prems by (intro pool_store_holds) simp_all
  from Cons.IH [OF this] Cons.prems show ?case
    by (simp add: pool_store_def pool_holds_def usize_max_def)
qed simp





lemma tables_same:
  assumes "tables.truncate x = tables.truncate p"
  shows "table_sizes x = table_sizes p" and "table_rows_ok n k x = table_rows_ok n k p"
    and "table_names_ok f x = table_names_ok f p"
  using assms by (simp_all add: tables.truncate_def table_sizes_def table_rows_ok_def table_names_ok_def)

lemma index_of_program:
  assumes "program_parse bytes = Inr p"
  shows "\<exists>x. index_from_program p = Inr x \<and> tables.truncate x = tables.truncate p \<and>
    index_table x = program_table p \<and> ix_code_len x = length (pg_code p) \<and> index_ok x"
proof -
  from assms obtain strings owned where parsed: "parse_owned_strings strings = Inr owned"
    "parse_strings strings = Inr (pg_strings p, pg_string_count p)"
    by (rule program_parse_Inr)
  obtain pool count where owned: "owned = (pool, count)" by (cases owned)
  from parse_owned_strings_refines [OF parsed(1) [unfolded owned]] parsed(2) obtain ss where
    ss: "pg_strings p = fill_array 128 [] ss" "length ss = pg_string_count p" "pool_holds pool ss"
      "sp_len pool = sum_list (map length ss)" by auto
  then have fits: "length ss \<le> 128" "list_all utf8_valid ss" "sum_list (map length ss) \<le> 1536"
    by (auto simp: pool_holds_def list_all_length)
  from pool_strings_loop_fits [of empty_pool "[]" ss] fits obtain pool' where
    pool': "pool_strings_loop empty_pool 0 ss = Inr pool'" by auto
  with pool_strings_loop_holds [of empty_pool "[]" ss pool'] fits have holds: "pool_holds pool' ss" by simp
  from pool' ss obtain x where x: "index_from_program p = Inr x" "ix_pool x = pool'"
    "ix_string_count x = length ss" "tables.truncate x = tables.truncate p" "ix_code_len x = length (pg_code p)"
    by (simp add: index_from_program_def tables.truncate_def)
  with holds have table: "index_table x = list_table ss" by (intro index_table_refines) simp_all
  moreover have ptable: "program_table p = list_table ss"
    using program_table_refines [of p] ss fits by simp
  moreover have "index_ok x"
  proof -
    have "index_string x = program_string p"
      using arg_cong [OF table, of tbl_string] arg_cong [OF ptable, of tbl_string]
      by (simp add: index_table_def program_table_def)
    moreover have "program_ok p" using program_parse_ok [OF assms] by blast
    ultimately show ?thesis
      using x holds ss(2) tables_same [OF x(4)] by (auto simp: index_ok_def program_ok_def)
  qed
  ultimately show ?thesis using x by auto
qed

text \<open>
  An accepted program always fits the fixed pools of an index, and the index made from
  it has the same tables and strings.
\<close>

theorem index_from_program_agrees:
  assumes "program_parse bytes = Inr p"
  shows "\<exists>x. index_from_program p = Inr x \<and> tables.truncate x = tables.truncate p \<and>
    index_table x = program_table p \<and> ix_code_len x = length (pg_code p)"
  using index_of_program [OF assms] by blast

lemma index_from_program_agrees_witness:
  "\<exists>x. index_from_program sample_program = Inr x \<and> tables.truncate x = tables.truncate sample_program \<and>
    index_table x = program_table sample_program \<and> ix_code_len x = length (pg_code sample_program)"
  by (rule index_from_program_agrees [OF sample_parse])

end
