(* ===== verification/Vm_Runtime.thy ===== *)
theory Vm_Runtime
  imports Vm_Program
begin

text \<open>
  Runtime records, lists and the fixed text buffer (\<open>squidvm-core/src/vm.rs\<close>):
  field names with their spelling in SquidScript, the ring of eight records and the ring
  of two lists that results of services are returned in, and \<open>FixedString\<close>, the 128-byte
  buffer a host writes text into.  A ring hands out the next index and overwrites what it
  held: a value that refers to an index outlives at most seven further records (one
  further list).
\<close>

section \<open>Field names\<close>

text \<open>The enum has the representation \<open>u8\<close>; its constructors are numbered in order.\<close>

type_synonym field_name = u8

abbreviation (input) FEmpty :: field_name where "FEmpty \<equiv> 0"
abbreviation (input) FActive :: field_name where "FActive \<equiv> 1"
abbreviation (input) FApStartEvents :: field_name where "FApStartEvents \<equiv> 2"
abbreviation (input) FApStopEvents :: field_name where "FApStopEvents \<equiv> 3"
abbreviation (input) FAppId :: field_name where "FAppId \<equiv> 4"
abbreviation (input) FAuth :: field_name where "FAuth \<equiv> 5"
abbreviation (input) FAvailable :: field_name where "FAvailable \<equiv> 6"
abbreviation (input) FBackend :: field_name where "FBackend \<equiv> 7"
abbreviation (input) FBinding :: field_name where "FBinding \<equiv> 8"
abbreviation (input) FBook :: field_name where "FBook \<equiv> 9"
abbreviation (input) FBssid :: field_name where "FBssid \<equiv> 10"
abbreviation (input) FBuild :: field_name where "FBuild \<equiv> 11"
abbreviation (input) FBytesReceived :: field_name where "FBytesReceived \<equiv> 12"
abbreviation (input) FBytesWritten :: field_name where "FBytesWritten \<equiv> 13"
abbreviation (input) FCancelled :: field_name where "FCancelled \<equiv> 14"
abbreviation (input) FChannel :: field_name where "FChannel \<equiv> 15"
abbreviation (input) FChapterCount :: field_name where "FChapterCount \<equiv> 16"
abbreviation (input) FClients :: field_name where "FClients \<equiv> 17"
abbreviation (input) FColorModel :: field_name where "FColorModel \<equiv> 18"
abbreviation (input) FConfigured :: field_name where "FConfigured \<equiv> 19"
abbreviation (input) FConnected :: field_name where "FConnected \<equiv> 20"
abbreviation (input) FCount :: field_name where "FCount \<equiv> 21"
abbreviation (input) FDefaultFontHeight :: field_name where "FDefaultFontHeight \<equiv> 22"
abbreviation (input) FDescription :: field_name where "FDescription \<equiv> 23"
abbreviation (input) FDisconnectReason :: field_name where "FDisconnectReason \<equiv> 24"
abbreviation (input) FDisconnectReasonCode :: field_name where "FDisconnectReasonCode \<equiv> 25"
abbreviation (input) FDone :: field_name where "FDone \<equiv> 26"
abbreviation (input) FDriver :: field_name where "FDriver \<equiv> 27"
abbreviation (input) FDriverMode :: field_name where "FDriverMode \<equiv> 28"
abbreviation (input) FDriverStarted :: field_name where "FDriverStarted \<equiv> 29"
abbreviation (input) FDrawable :: field_name where "FDrawable \<equiv> 30"
abbreviation (input) FError :: field_name where "FError \<equiv> 31"
abbreviation (input) FEvent :: field_name where "FEvent \<equiv> 32"
abbreviation (input) FGw :: field_name where "FGw \<equiv> 33"
abbreviation (input) FHeight :: field_name where "FHeight \<equiv> 34"
abbreviation (input) FHasMore :: field_name where "FHasMore \<equiv> 35"
abbreviation (input) FHidden :: field_name where "FHidden \<equiv> 36"
abbreviation (input) FId :: field_name where "FId \<equiv> 37"
abbreviation (input) FIp :: field_name where "FIp \<equiv> 38"
abbreviation (input) FIpAddress :: field_name where "FIpAddress \<equiv> 39"
abbreviation (input) FIndex :: field_name where "FIndex \<equiv> 40"
abbreviation (input) FItems :: field_name where "FItems \<equiv> 41"
abbreviation (input) FKind :: field_name where "FKind \<equiv> 42"
abbreviation (input) FLastBackendCode :: field_name where "FLastBackendCode \<equiv> 43"
abbreviation (input) FLevel :: field_name where "FLevel \<equiv> 44"
abbreviation (input) FLines :: field_name where "FLines \<equiv> 45"
abbreviation (input) FLibrary :: field_name where "FLibrary \<equiv> 46"
abbreviation (input) FLogicalGrayLevels :: field_name where "FLogicalGrayLevels \<equiv> 47"
abbreviation (input) FMode :: field_name where "FMode \<equiv> 48"
abbreviation (input) FName :: field_name where "FName \<equiv> 49"
abbreviation (input) FNativeBpp :: field_name where "FNativeBpp \<equiv> 50"
abbreviation (input) FNativePixelFormat :: field_name where "FNativePixelFormat \<equiv> 51"
abbreviation (input) FNetmask :: field_name where "FNetmask \<equiv> 52"
abbreviation (input) FObjectName :: field_name where "FObjectName \<equiv> 53"
abbreviation (input) FOk :: field_name where "FOk \<equiv> 54"
abbreviation (input) FPageCount :: field_name where "FPageCount \<equiv> 55"
abbreviation (input) FPageIndex :: field_name where "FPageIndex \<equiv> 56"
abbreviation (input) FPath :: field_name where "FPath \<equiv> 57"
abbreviation (input) FPhysicalHeight :: field_name where "FPhysicalHeight \<equiv> 58"
abbreviation (input) FPhysicalWidth :: field_name where "FPhysicalWidth \<equiv> 59"
abbreviation (input) FProbeEvents :: field_name where "FProbeEvents \<equiv> 60"
abbreviation (input) FProfile :: field_name where "FProfile \<equiv> 61"
abbreviation (input) FReady :: field_name where "FReady \<equiv> 62"
abbreviation (input) FRef :: field_name where "FRef \<equiv> 63"
abbreviation (input) FRotation :: field_name where "FRotation \<equiv> 64"
abbreviation (input) FRssi :: field_name where "FRssi \<equiv> 65"
abbreviation (input) FScanMatches :: field_name where "FScanMatches \<equiv> 66"
abbreviation (input) FSize :: field_name where "FSize \<equiv> 67"
abbreviation (input) FSsid :: field_name where "FSsid \<equiv> 68"
abbreviation (input) FSsidLength :: field_name where "FSsidLength \<equiv> 69"
abbreviation (input) FStaConnectedEvents :: field_name where "FStaConnectedEvents \<equiv> 70"
abbreviation (input) FStaDisconnectedEvents :: field_name where "FStaDisconnectedEvents \<equiv> 71"
abbreviation (input) FState :: field_name where "FState \<equiv> 72"
abbreviation (input) FStatus :: field_name where "FStatus \<equiv> 73"
abbreviation (input) FSupportsFastRefresh :: field_name where "FSupportsFastRefresh \<equiv> 74"
abbreviation (input) FSupportsPartialRefresh :: field_name where "FSupportsPartialRefresh \<equiv> 75"
abbreviation (input) FText :: field_name where "FText \<equiv> 76"
abbreviation (input) FTitle :: field_name where "FTitle \<equiv> 77"
abbreviation (input) FTotalBytes :: field_name where "FTotalBytes \<equiv> 78"
abbreviation (input) FTransport :: field_name where "FTransport \<equiv> 79"
abbreviation (input) FType :: field_name where "FType \<equiv> 80"
abbreviation (input) FUpload :: field_name where "FUpload \<equiv> 81"
abbreviation (input) FWarning :: field_name where "FWarning \<equiv> 82"
abbreviation (input) FWidth :: field_name where "FWidth \<equiv> 83"

definition field_spellings :: "(string \<times> field_name) list" where
  "field_spellings = [
      (''active'', FActive), (''apStartEvents'', FApStartEvents), (''apStopEvents'', FApStopEvents),
      (''appId'', FAppId), (''auth'', FAuth), (''available'', FAvailable),
      (''backend'', FBackend), (''binding'', FBinding), (''book'', FBook),
      (''bssid'', FBssid), (''build'', FBuild), (''bytesReceived'', FBytesReceived),
      (''bytesWritten'', FBytesWritten), (''cancelled'', FCancelled), (''channel'', FChannel),
      (''chapterCount'', FChapterCount), (''clients'', FClients), (''colorModel'', FColorModel),
      (''configured'', FConfigured), (''connected'', FConnected), (''count'', FCount),
      (''defaultFontHeight'', FDefaultFontHeight), (''description'', FDescription), (''disconnectReason'', FDisconnectReason),
      (''disconnectReasonCode'', FDisconnectReasonCode), (''done'', FDone), (''driver'', FDriver),
      (''driverMode'', FDriverMode), (''driverStarted'', FDriverStarted), (''drawable'', FDrawable),
      (''error'', FError), (''event'', FEvent), (''gw'', FGw),
      (''height'', FHeight), (''hasMore'', FHasMore), (''hidden'', FHidden),
      (''id'', FId), (''ip'', FIp), (''ipAddress'', FIpAddress),
      (''index'', FIndex), (''items'', FItems), (''kind'', FKind),
      (''lastBackendCode'', FLastBackendCode), (''level'', FLevel), (''lines'', FLines),
      (''library'', FLibrary), (''logicalGrayLevels'', FLogicalGrayLevels), (''mode'', FMode),
      (''name'', FName), (''nativeBpp'', FNativeBpp), (''nativePixelFormat'', FNativePixelFormat),
      (''netmask'', FNetmask), (''objectName'', FObjectName), (''ok'', FOk),
      (''pageCount'', FPageCount), (''pageIndex'', FPageIndex), (''path'', FPath),
      (''physicalHeight'', FPhysicalHeight), (''physicalWidth'', FPhysicalWidth), (''probeEvents'', FProbeEvents),
      (''profile'', FProfile), (''ready'', FReady), (''ref'', FRef),
      (''rotation'', FRotation), (''rssi'', FRssi), (''scanMatches'', FScanMatches),
      (''size'', FSize), (''ssid'', FSsid), (''ssidLength'', FSsidLength),
      (''staConnectedEvents'', FStaConnectedEvents), (''staDisconnectedEvents'', FStaDisconnectedEvents), (''state'', FState),
      (''status'', FStatus), (''supportsFastRefresh'', FSupportsFastRefresh), (''supportsPartialRefresh'', FSupportsPartialRefresh),
      (''text'', FText), (''title'', FTitle), (''totalBytes'', FTotalBytes),
      (''transport'', FTransport), (''type'', FType), (''upload'', FUpload),
      (''warning'', FWarning), (''width'', FWidth)]"

definition field_name_parse :: "rstr \<Rightarrow> field_name option" where
  "field_name_parse name = map_of (map (\<lambda>(s, f). (lit s, f)) field_spellings) name"

section \<open>Records\<close>

type_synonym record_field = "field_name \<times> vm_value"

definition empty_field :: record_field where
  "empty_field = (FEmpty, VNull)"

record runtime_record =
  rr_fields :: "record_field list"
  rr_count :: nat

definition empty_record :: runtime_record where
  "empty_record = \<lparr>rr_fields = replicate MAX_RUNTIME_RECORD_FIELDS empty_field, rr_count = 0\<rparr>"

record runtime_records =
  rs_records :: "runtime_record list"
  rs_next :: nat

definition new_records :: runtime_records where
  "new_records = \<lparr>rs_records = replicate MAX_RUNTIME_RECORDS empty_record, rs_next = 0\<rparr>"

definition records_alloc :: "record_field list \<Rightarrow> (vm_error, runtime_records, vm_value) exec" where
  "records_alloc flds r =
     (if length flds > MAX_RUNTIME_RECORD_FIELDS then throw InvalidOperand r else
      let i = rs_next r; r = r\<lparr>rs_next := (rs_next r + 1) mod MAX_RUNTIME_RECORDS\<rparr> in
      if i < length (rs_records r) then
        ret (VRecord (of_nat i)) (r\<lparr>rs_records := (rs_records r)[i :=
          \<lparr>rr_fields = fill_array MAX_RUNTIME_RECORD_FIELDS empty_field flds,
           rr_count = length flds\<rparr>]\<rparr>)
      else (Inl Panic, r))"

definition records_field :: "runtime_records \<Rightarrow> u8 \<Rightarrow> rstr \<Rightarrow> vm_value vm_res" where
  "records_field r record_id name =
     and_then (ok_or InvalidOperand (field_name_parse name)) (\<lambda>field_name.
     and_then (ok_or InvalidOperand (get_at (rs_records r) (unat record_id))) (\<lambda>rec.
       ok_or InvalidOperand (map_of (take (rr_count rec) (rr_fields rec)) field_name)))"

definition records_reset :: "runtime_records \<Rightarrow> runtime_records" where
  "records_reset r = r\<lparr>rs_next := 0\<rparr>"

section \<open>Lists\<close>

record runtime_list =
  rl_items :: "vm_value list"
  rl_count :: nat

definition empty_list :: runtime_list where
  "empty_list = \<lparr>rl_items = replicate MAX_RUNTIME_LIST_ITEMS VNull, rl_count = 0\<rparr>"

record runtime_lists =
  ls_lists :: "runtime_list list"
  ls_next :: nat

definition new_lists :: runtime_lists where
  "new_lists = \<lparr>ls_lists = replicate MAX_RUNTIME_LISTS empty_list, ls_next = 0\<rparr>"

definition lists_alloc :: "vm_value list \<Rightarrow> (vm_error, runtime_lists, vm_value) exec" where
  "lists_alloc items l =
     (if length items > MAX_RUNTIME_LIST_ITEMS then throw InvalidOperand l else
      let i = ls_next l; l = l\<lparr>ls_next := (ls_next l + 1) mod MAX_RUNTIME_LISTS\<rparr> in
      if i < length (ls_lists l) then
        ret (VList (of_nat i)) (l\<lparr>ls_lists := (ls_lists l)[i :=
          \<lparr>rl_items = fill_array MAX_RUNTIME_LIST_ITEMS VNull items,
           rl_count = length items\<rparr>]\<rparr>)
      else (Inl Panic, l))"

definition lists_len :: "runtime_lists \<Rightarrow> u8 \<Rightarrow> i32 vm_res" where
  "lists_len l list_id =
     and_then (ok_or InvalidOperand (get_at (ls_lists l) (unat list_id))) (\<lambda>list.
       Inr (of_nat (min (rl_count list) 2147483647)))"

definition lists_get :: "runtime_lists \<Rightarrow> u8 \<Rightarrow> i32 \<Rightarrow> vm_value vm_res" where
  "lists_get l list_id index =
     and_then (ok_or InvalidOperand (get_at (ls_lists l) (unat list_id))) (\<lambda>list.
       if sint index < 0 then Inl (Err InvalidOperand)
       else let i = nat (sint index) in
       if i \<ge> rl_count list then Inl (Err InvalidOperand)
       else if i < length (rl_items list) then Inr (rl_items list ! i) else Inl Panic)"

definition lists_reset :: "runtime_lists \<Rightarrow> runtime_lists" where
  "lists_reset l = l\<lparr>ls_next := 0\<rparr>"

section \<open>Fixed strings\<close>

record fixed_string =
  fs_bytes :: "u8 list"
  fs_len :: nat

definition new_fixed :: fixed_string where
  "new_fixed = \<lparr>fs_bytes = replicate MAX_RUNTIME_STRING_BYTES 0, fs_len = 0\<rparr>"

definition fixed_as_str :: "fixed_string \<Rightarrow> rstr vm_res" where
  "fixed_as_str f = and_then (slice_to (fs_bytes f) (fs_len f)) (\<lambda>raw. ok_or InvalidUtf8 (from_utf8 raw))"

text \<open>\<open>write_str\<close>: a write that does not fit is an error and writes nothing.\<close>

definition fixed_write :: "rstr \<Rightarrow> (unit, fixed_string, unit) exec" where
  "fixed_write s f =
     (case checked_add (fs_len f) (length s) of
        None \<Rightarrow> throw () f
      | Some stop \<Rightarrow>
          if stop > length (fs_bytes f) then throw () f
          else ret () (f\<lparr>fs_bytes := splice (fs_bytes f) (fs_len f) s, fs_len := stop\<rparr>))"

section \<open>Invariants\<close>

definition records_inv :: "runtime_records \<Rightarrow> bool" where
  "records_inv r \<longleftrightarrow> length (rs_records r) = MAX_RUNTIME_RECORDS \<and> rs_next r < MAX_RUNTIME_RECORDS \<and>
     list_all (\<lambda>rec. length (rr_fields rec) = MAX_RUNTIME_RECORD_FIELDS \<and>
       rr_count rec \<le> MAX_RUNTIME_RECORD_FIELDS) (rs_records r)"

definition lists_inv :: "runtime_lists \<Rightarrow> bool" where
  "lists_inv l \<longleftrightarrow> length (ls_lists l) = MAX_RUNTIME_LISTS \<and> ls_next l < MAX_RUNTIME_LISTS \<and>
     list_all (\<lambda>list. length (rl_items list) = MAX_RUNTIME_LIST_ITEMS \<and>
       rl_count list \<le> MAX_RUNTIME_LIST_ITEMS) (ls_lists l)"

definition fixed_inv :: "fixed_string \<Rightarrow> bool" where
  "fixed_inv f \<longleftrightarrow> length (fs_bytes f) = MAX_RUNTIME_STRING_BYTES \<and>
     fs_len f \<le> MAX_RUNTIME_STRING_BYTES \<and> utf8_valid (take (fs_len f) (fs_bytes f))"

lemma new_invs [simp]: "records_inv new_records" "lists_inv new_lists" "fixed_inv new_fixed"
  by (simp_all add: records_inv_def lists_inv_def fixed_inv_def new_records_def new_lists_def
      new_fixed_def empty_record_def empty_list_def list_all_length)

lemma list_all_update: "list_all P xs \<Longrightarrow> P x \<Longrightarrow> list_all P (xs[i := x])"
  by (cases "i < length xs") (auto simp: list_all_length nth_list_update)

text \<open>An allocation keeps the ring and returns a record that holds the given fields.\<close>

lemma records_alloc_result:
  assumes "records_inv r" and "records_alloc flds r = (res, r')"
  shows "records_inv r' \<and> res \<noteq> Inl Panic \<and>
    (\<forall>v. res = Inr v \<longrightarrow> v = VRecord (of_nat (rs_next r)) \<and>
       rs_records r' ! rs_next r = \<lparr>rr_fields = fill_array MAX_RUNTIME_RECORD_FIELDS empty_field flds,
         rr_count = length flds\<rparr> \<and>
       (\<forall>j < MAX_RUNTIME_RECORDS. j \<noteq> rs_next r \<longrightarrow> rs_records r' ! j = rs_records r ! j) \<and>
       rs_next r' = (rs_next r + 1) mod MAX_RUNTIME_RECORDS)"
  using assms by (auto simp: records_alloc_def records_inv_def Let_def intro!: list_all_update split: if_splits)

lemma lists_alloc_result:
  assumes "lists_inv l" and "lists_alloc items l = (res, l')"
  shows "lists_inv l' \<and> res \<noteq> Inl Panic \<and>
    (\<forall>v. res = Inr v \<longrightarrow> v = VList (of_nat (ls_next l)) \<and>
       ls_lists l' ! ls_next l = \<lparr>rl_items = fill_array MAX_RUNTIME_LIST_ITEMS VNull items,
         rl_count = length items\<rparr> \<and>
       ls_next l' = (ls_next l + 1) mod MAX_RUNTIME_LISTS)"
  using assms by (auto simp: lists_alloc_def lists_inv_def Let_def intro!: list_all_update split: if_splits)

lemma resets_inv [simp]: "records_inv r \<Longrightarrow> records_inv (records_reset r)" "lists_inv l \<Longrightarrow> lists_inv (lists_reset l)"
  by (simp_all add: records_inv_def lists_inv_def records_reset_def lists_reset_def)

lemma records_field_no_panic [simp, no_panic]: "records_field r i name \<noteq> Inl Panic"
  unfolding records_field_def by (intro no_panic)

lemma lists_len_no_panic [simp, no_panic]: "lists_len l i \<noteq> Inl Panic"
  unfolding lists_len_def by (intro no_panic)

lemma lists_get_no_panic: "lists_inv l \<Longrightarrow> lists_get l i k \<noteq> Inl Panic"
  unfolding lists_get_def Let_def
  by (intro no_panic) (auto simp: lists_inv_def list_all_length get_at_def split: if_splits)

lemma fixed_write_inv:
  assumes "fixed_inv f" and "utf8_valid s" and "fixed_write s f = (res, f')"
  shows "fixed_inv f' \<and> res \<noteq> Inl Panic \<and>
    (res = Inr () \<longrightarrow> take (fs_len f') (fs_bytes f') = take (fs_len f) (fs_bytes f) @ s)"
  using assms
  by (auto simp: fixed_write_def fixed_inv_def checked_add_def take_splice utf8_valid_appendI split: if_splits)

lemma fixed_as_str_valid: "fixed_inv f \<Longrightarrow> \<exists>s. fixed_as_str f = Inr s \<and> utf8_valid s"
  by (simp add: fixed_as_str_def fixed_inv_def from_utf8_def)

end
