(* ===== verification/Vm_Host.thy ===== *)
theory Vm_Host
  imports Vm_Runtime
begin

text \<open>
  The VM's host (\<open>squidvm-core/src/host.rs\<close>, \<open>reader.rs\<close>): the storage requests the VM
  can suspend on, the result structs of services with their \<open>unsupported\<close> values, and the
  trait \<open>TraceSink\<close> with \<open>SqbcReader\<close>, whose implementations are outside the VM: a host
  is a record of functions on the host's own state \<open>'h\<close>.  Methods with the same result
  type are one function of a datatype naming the method and its arguments
  (\<open>host_note\<close> for the methods without a result, \<open>host_command\<close> for those that return
  \<open>Result<(), VmError>\<close>).  A host method answers with a value or a \<open>VmError\<close>; the
  \<open>&str\<close> fields of its results are valid UTF-8, which the type \<open>ustr\<close> carries.
\<close>

section \<open>Storage requests\<close>

abbreviation (input) MAX_STORAGE_TRANSFER_BYTES :: nat where "MAX_STORAGE_TRANSFER_BYTES \<equiv> 640"

text \<open>\<open>StateSave\<close> carries the bytes its pointer and length denote.\<close>

datatype storage_request =
    SqbcRead nat nat
  | StateLoad
  | StateSave "u8 list"
  | StateReset

definition request_state_save :: "u8 list \<Rightarrow> storage_request vm_res" where
  "request_state_save bytes =
     (if length bytes > MAX_SAVED_STATE_BYTES then Inl (Err InvalidStateRecord) else Inr (StateSave bytes))"

record storage_completion =
  cp_bytes :: "u8 list"
  cp_len :: "nat option"

definition completion_empty :: storage_completion where
  "completion_empty = \<lparr>cp_bytes = [], cp_len = None\<rparr>"

definition completion_bytes :: "u8 list \<Rightarrow> storage_completion vm_res" where
  "completion_bytes bytes =
     (if length bytes > MAX_STORAGE_TRANSFER_BYTES then Inl (Err InvalidStateRecord)
      else Inr \<lparr>cp_bytes = bytes, cp_len = Some (length bytes)\<rparr>)"

datatype vm_dispatch = Complete | PendingStorage storage_request

section \<open>Arguments and results of services\<close>

type_synonym resolver = "string_table \<times> interner"

record text_options =
  to_x :: i32
  to_y :: i32
  to_w :: i32
  to_h :: i32
  to_font_height :: i32
  to_text_color :: "u8 option"
  to_background_color :: "u8 option"
  to_align :: "rstr option"
  to_valign :: "rstr option"

record rect_options =
  ro_x :: i32
  ro_y :: i32
  ro_w :: i32
  ro_h :: i32
  ro_fill_color :: "u8 option"
  ro_stroke_color :: "u8 option"

record line_options =
  lo_x1 :: i32
  lo_y1 :: i32
  lo_x2 :: i32
  lo_y2 :: i32
  lo_color :: "u8 option"

record resource_options =
  so_x :: i32
  so_y :: i32
  so_w :: i32
  so_h :: i32

abbreviation (input) unsupported :: "ustr option" where "unsupported \<equiv> Some (Str (lit ''unsupported''))"

record config_result =
  cr_ok :: bool
  cr_error :: "ustr option"
  cr_warning :: "ustr option"

definition config_unsupported :: config_result where
  "config_unsupported = \<lparr>cr_ok = False, cr_error = unsupported, cr_warning = None\<rparr>"

record pick_file_result =
  pf_ok :: bool
  pf_error :: "ustr option"
  pf_path :: "ustr option"

definition pick_file_unsupported :: pick_file_result where
  "pick_file_unsupported = \<lparr>pf_ok = False, pf_error = unsupported, pf_path = None\<rparr>"

record read_text_result =
  rt_ok :: bool
  rt_error :: "ustr option"
  rt_text :: "ustr option"

definition read_text_unsupported :: read_text_result where
  "read_text_unsupported = \<lparr>rt_ok = False, rt_error = unsupported, rt_text = None\<rparr>"

record read_lines_result =
  rln_ok :: bool
  rln_error :: "ustr option"
  rln_lines :: "ustr list"

definition read_lines_unsupported :: read_lines_result where
  "read_lines_unsupported = \<lparr>rln_ok = False, rln_error = unsupported, rln_lines = []\<rparr>"

record file_copy_result =
  fc_ok :: bool
  fc_error :: "ustr option"
  fc_reference :: "ustr option"
  fc_bytes_written :: i32

definition file_copy_unsupported :: file_copy_result where
  "file_copy_unsupported = \<lparr>fc_ok = False, fc_error = unsupported, fc_reference = None, fc_bytes_written = 0\<rparr>"

record binbook_open_result =
  bo_ok :: bool
  bo_error :: "ustr option"
  bo_book :: "handle option"

definition binbook_open_unsupported :: binbook_open_result where
  "binbook_open_unsupported = \<lparr>bo_ok = False, bo_error = unsupported, bo_book = None\<rparr>"

record binbook_info_result =
  bi_ok :: bool
  bi_error :: "ustr option"
  bi_title :: "ustr option"
  bi_page_count :: i32
  bi_chapter_count :: i32

definition binbook_info_unsupported :: binbook_info_result where
  "binbook_info_unsupported = \<lparr>bi_ok = False, bi_error = unsupported, bi_title = None,
     bi_page_count = 0, bi_chapter_count = 0\<rparr>"

record read_page_result =
  rp_ok :: bool
  rp_error :: "ustr option"
  rp_drawable :: "handle option"

definition read_page_unsupported :: read_page_result where
  "read_page_unsupported = \<lparr>rp_ok = False, rp_error = unsupported, rp_drawable = None\<rparr>"

record chapter_entry =
  ce_index :: i32
  ce_title :: ustr
  ce_page_index :: i32
  ce_level :: i32
  ce_type :: i32

record chapter_list_result =
  cl_ok :: bool
  cl_error :: "ustr option"
  cl_items :: "chapter_entry list"
  cl_count :: i32
  cl_has_more :: bool

definition chapter_list_unsupported :: chapter_list_result where
  "chapter_list_unsupported = \<lparr>cl_ok = False, cl_error = unsupported, cl_items = [], cl_count = 0,
     cl_has_more = False\<rparr>"

record chapter_result =
  ch_ok :: bool
  ch_error :: "ustr option"
  ch_chapter :: "chapter_entry option"

definition chapter_unsupported :: chapter_result where
  "chapter_unsupported = \<lparr>ch_ok = False, ch_error = unsupported, ch_chapter = None\<rparr>"

record content_entry =
  cb_name :: ustr
  cb_reference :: ustr
  cb_size :: i32

record content_list_result =
  ct_ok :: bool
  ct_error :: "ustr option"
  ct_warning :: "ustr option"
  ct_items :: "content_entry list"
  ct_count :: i32
  ct_has_more :: bool

definition content_list_unsupported :: content_list_result where
  "content_list_unsupported = \<lparr>ct_ok = False, ct_error = unsupported, ct_warning = None, ct_items = [],
     ct_count = 0, ct_has_more = False\<rparr>"

record registry_entry =
  re_id :: ustr
  re_name :: ustr
  re_build :: ustr
  re_description :: ustr

record armed_entry =
  ar_app_id :: ustr
  ar_event :: ustr

record display_info =
  di_ok :: bool
  di_error :: "ustr option"
  di_warning :: "ustr option"
  di_available :: bool
  di_status :: ustr
  di_binding :: ustr
  di_driver :: ustr
  di_transport :: ustr
  di_width :: i32
  di_height :: i32
  di_physical_width :: i32
  di_physical_height :: i32
  di_rotation :: i32
  di_color_model :: ustr
  di_logical_gray_levels :: i32
  di_native_bpp :: i32
  di_native_pixel_format :: ustr
  di_default_font_height :: i32
  di_supports_partial_refresh :: bool
  di_supports_fast_refresh :: bool

definition display_info_unsupported :: display_info where
  "display_info_unsupported = \<lparr>di_ok = False, di_error = unsupported, di_warning = None,
     di_available = False, di_status = Str (lit ''unsupported''), di_binding = Str (lit ''display.default''),
     di_driver = Str [], di_transport = Str [], di_width = 0, di_height = 0, di_physical_width = 0,
     di_physical_height = 0, di_rotation = 0, di_color_model = Str [], di_logical_gray_levels = 0,
     di_native_bpp = 0, di_native_pixel_format = Str [], di_default_font_height = 0,
     di_supports_partial_refresh = False, di_supports_fast_refresh = False\<rparr>"

record wifi_operation =
  wo_active :: bool
  wo_kind :: "ustr option"
  wo_state :: ustr
  wo_done :: bool
  wo_cancelled :: bool
  wo_ok :: bool
  wo_error :: "ustr option"

definition wifi_operation_idle :: wifi_operation where
  "wifi_operation_idle = \<lparr>wo_active = False, wo_kind = None, wo_state = Str (lit ''idle''),
     wo_done = False, wo_cancelled = False, wo_ok = True, wo_error = None\<rparr>"

definition wifi_operation_unsupported :: wifi_operation where
  "wifi_operation_unsupported = \<lparr>wo_active = False, wo_kind = None, wo_state = Str (lit ''error''),
     wo_done = True, wo_cancelled = False, wo_ok = False, wo_error = unsupported\<rparr>"

record wifi_result =
  wr_ready :: bool
  wr_kind :: "ustr option"
  wr_state :: ustr
  wr_ok :: bool
  wr_error :: "ustr option"
  wr_cancelled :: bool
  wr_count :: i32

definition wifi_result_unsupported :: wifi_result where
  "wifi_result_unsupported = \<lparr>wr_ready = True, wr_kind = None, wr_state = Str (lit ''error''),
     wr_ok = False, wr_error = unsupported, wr_cancelled = False, wr_count = 0\<rparr>"

record wifi_status =
  ws_active :: bool
  ws_mode :: "ustr option"
  ws_ip_address :: "ustr option"
  ws_ssid :: "ustr option"
  ws_clients :: i32
  ws_error :: "ustr option"
  ws_state :: ustr
  ws_backend :: ustr
  ws_driver_started :: bool
  ws_configured :: bool
  ws_driver_mode :: "ustr option"
  ws_channel :: i32
  ws_ap_start_events :: i32
  ws_ap_stop_events :: i32
  ws_probe_events :: i32
  ws_sta_connected_events :: i32
  ws_sta_disconnected_events :: i32
  ws_last_backend_code :: "ustr option"
  ws_profile :: "ustr option"
  ws_connected :: bool
  ws_scan_matches :: i32
  ws_rssi :: i32
  ws_auth :: "ustr option"
  ws_bssid :: "ustr option"
  ws_disconnect_reason :: "ustr option"
  ws_disconnect_reason_code :: i32

record wifi_ap_ip =
  wa_ip :: "ustr option"
  wa_gw :: "ustr option"
  wa_netmask :: "ustr option"
  wa_error :: "ustr option"

section \<open>Access points\<close>

abbreviation (input) WIFI_SCAN_SSID_CAP :: nat where "WIFI_SCAN_SSID_CAP \<equiv> 32"
abbreviation (input) WIFI_SCAN_BSSID_TEXT_LEN :: nat where "WIFI_SCAN_BSSID_TEXT_LEN \<equiv> 17"

record access_point =
  ap_ssid :: "u8 list"
  ap_ssid_len :: nat
  ap_bssid :: "u8 list"
  ap_has_bssid :: bool
  ap_ssid_length :: i32
  ap_channel :: i32
  ap_rssi :: i32
  ap_auth :: "ustr option"
  ap_hidden :: bool

definition access_point_empty :: access_point where
  "access_point_empty = \<lparr>ap_ssid = replicate WIFI_SCAN_SSID_CAP 0, ap_ssid_len = 0,
     ap_bssid = replicate WIFI_SCAN_BSSID_TEXT_LEN 0, ap_has_bssid = False, ap_ssid_length = 0,
     ap_channel = 0, ap_rssi = 0, ap_auth = None, ap_hidden = False\<rparr>"

definition access_point_from_fixed_parts ::
  "u8 list \<Rightarrow> nat \<Rightarrow> u8 list \<Rightarrow> bool \<Rightarrow> i32 \<Rightarrow> i32 \<Rightarrow> i32 \<Rightarrow> ustr option \<Rightarrow> bool \<Rightarrow> access_point" where
  "access_point_from_fixed_parts ssid ssid_len bssid has_bssid ssid_length channel rssi auth hidden =
     \<lparr>ap_ssid = ssid, ap_ssid_len = ssid_len, ap_bssid = bssid, ap_has_bssid = has_bssid,
      ap_ssid_length = ssid_length, ap_channel = channel, ap_rssi = rssi, ap_auth = auth,
      ap_hidden = hidden\<rparr>"

definition HEX :: "u8 list" where
  "HEX = lit ''0123456789abcdef''"

text \<open>Six bytes as colon-separated pairs of hexadecimal digits, written from position \<open>w\<close>.\<close>

fun write_bssid_loop :: "u8 list \<Rightarrow> nat \<Rightarrow> bool \<Rightarrow> u8 list \<Rightarrow> u8 list" where
  "write_bssid_loop out w first [] = out"
| "write_bssid_loop out w first (b # bs) =
     (let out = (if first then out else out[w := 0x3a]); w = (if first then w else w + 1);
          out = out[w := HEX ! unat (drop_bit 4 b)]; out = out[w + 1 := HEX ! unat (b AND 0x0f)]
      in write_bssid_loop out (w + 2) False bs)"

definition write_bssid :: "u8 list \<Rightarrow> u8 list \<Rightarrow> u8 list" where
  "write_bssid bssid out = write_bssid_loop out 0 True bssid"

definition access_point_new ::
  "u8 list \<Rightarrow> u8 list option \<Rightarrow> i32 \<Rightarrow> i32 \<Rightarrow> ustr option \<Rightarrow> bool \<Rightarrow> access_point vm_res" where
  "access_point_new ssid bssid channel rssi auth hidden =
     (if length ssid > WIFI_SCAN_SSID_CAP then Inl (Err InvalidOperand) else
      let ap = access_point_empty\<lparr>ap_ssid := splice (ap_ssid access_point_empty) 0 ssid,
            ap_ssid_len := length ssid, ap_ssid_length := of_nat (min (length ssid) 2147483647)\<rparr>;
          ap = (case bssid of None \<Rightarrow> ap
                | Some b \<Rightarrow> ap\<lparr>ap_bssid := write_bssid b (ap_bssid ap), ap_has_bssid := True\<rparr>)
      in Inr (ap\<lparr>ap_channel := channel, ap_rssi := rssi, ap_auth := auth, ap_hidden := hidden\<rparr>))"

definition access_point_ssid :: "access_point \<Rightarrow> rstr vm_res" where
  "access_point_ssid ap =
     and_then (slice_to (ap_ssid ap) (ap_ssid_len ap)) (\<lambda>raw. ok_or InvalidUtf8 (from_utf8 raw))"

definition access_point_bssid :: "access_point \<Rightarrow> rstr option vm_res" where
  "access_point_bssid ap =
     (if ap_has_bssid ap
      then and_then (ok_or InvalidUtf8 (from_utf8 (ap_bssid ap))) (\<lambda>s. Inr (Some s))
      else Inr None)"

record scan_network =
  sn_ok :: bool
  sn_error :: "ustr option"
  sn_network :: "access_point option"

definition scan_network_unsupported :: scan_network where
  "scan_network_unsupported = \<lparr>sn_ok = False, sn_error = unsupported, sn_network = None\<rparr>"

section \<open>The host\<close>

text \<open>
  The methods of \<open>TraceSink\<close> and \<open>SqbcReader\<close>.  A method that fills a buffer gets its old
  content and returns its new one, in the error case as well.
\<close>

text \<open>Methods without a result.\<close>

datatype host_note =
    Trace rstr
  | DebugPrint resolver "vm_value list"
  | DrawClear u8
  | DrawText resolver vm_value text_options
  | DrawRect rect_options
  | DrawLine line_options
  | DrawRefreshMode rstr
  | DrawImage rstr resource_options
  | DrawResource resolver vm_value resource_options

text \<open>Methods that return \<open>Result<(), VmError>\<close>.\<close>

datatype host_command =
    DrawSelect rstr
  | HardwareGpioWrite rstr bool
  | HardwareGpioToggle rstr
  | ServiceIndicatorWrite bool
  | ServiceIndicatorToggle
  | ServiceIndicatorBreathe
  | ServiceIndicatorBlink i32 i32
  | AppLaunch rstr
  | AppArm rstr
  | AppDisarm rstr
  | ServiceTimerEvery rstr i32
  | ServiceTimerAfter rstr i32
  | ServiceBleStart rstr
  | ServiceBleStop
  | ServiceHttpStart rstr
  | ServiceHttpStop
  | ServiceWifiTeardown
  | ServicePowerSleep i32
  | HostStateSave "u8 list"
  | HostStateResetPersistent

text \<open>Methods that return a \<open>bool\<close>, a \<open>WifiOperation\<close> or a \<open>DeviceConfigResult\<close>.\<close>

datatype bool_query = HardwareGpioRead rstr | ServiceIndicatorRead

datatype wifi_call =
    WifiStartAp rstr | WifiStopAp | WifiConnect rstr | WifiDisconnect | WifiScan
  | WifiOperationPoll | WifiCancel

datatype config_call =
    ConfigLoad rstr | ConfigSet rstr vm_value resolver | ConfigRebind rstr | ConfigSave rstr

text \<open>Methods that write text into \<open>&mut dyn fmt::Write\<close>: the host performs a list of writes.\<close>

datatype text_query = SystemMemoryText | SystemStorageText rstr | SystemStartReasonText

type_synonym ('h, 'a) host_call = "'h \<Rightarrow> (vm_error + 'a) \<times> 'h"

record 'h host =
  h_read :: "nat \<Rightarrow> u8 list \<Rightarrow> 'h \<Rightarrow> (vm_error + unit) \<times> u8 list \<times> 'h"
  h_should_defer :: "nat \<Rightarrow> nat \<Rightarrow> ('h, bool) host_call"
  h_note :: "host_note \<Rightarrow> 'h \<Rightarrow> 'h"
  h_command :: "host_command \<Rightarrow> ('h, unit) host_call"
  h_bool :: "bool_query \<Rightarrow> ('h, bool) host_call"
  h_wifi :: "wifi_call \<Rightarrow> ('h, wifi_operation) host_call"
  h_config :: "config_call \<Rightarrow> ('h, config_result) host_call"
  h_text :: "text_query \<Rightarrow> 'h \<Rightarrow> (vm_error + unit) \<times> ustr list \<times> 'h"
  h_display_info :: "('h, display_info) host_call"
  h_app_install :: "rstr \<Rightarrow> rstr option \<Rightarrow> ('h, ustr) host_call"
  h_app_registry_list :: "('h, registry_entry list) host_call"
  h_app_registry_get :: "rstr \<Rightarrow> ('h, registry_entry) host_call"
  h_app_process_stack :: "('h, ustr list) host_call"
  h_app_armed_stack :: "('h, armed_entry list) host_call"
  h_wifi_status :: "('h, wifi_status) host_call"
  h_wifi_get_ap_ip :: "('h, wifi_ap_ip) host_call"
  h_wifi_result :: "('h, wifi_result) host_call"
  h_wifi_scan_network :: "i32 \<Rightarrow> ('h, scan_network) host_call"
  h_file_pick_file :: "rstr \<Rightarrow> ('h, pick_file_result) host_call"
  h_file_read_text :: "rstr \<Rightarrow> ('h, read_text_result) host_call"
  h_file_read_lines :: "rstr \<Rightarrow> i32 \<Rightarrow> ('h, read_lines_result) host_call"
  h_file_copy :: "rstr \<Rightarrow> rstr \<Rightarrow> rstr \<Rightarrow> ('h, file_copy_result) host_call"
  h_binbook_open :: "rstr \<Rightarrow> ('h, binbook_open_result) host_call"
  h_binbook_info :: "handle \<Rightarrow> ('h, binbook_info_result) host_call"
  h_binbook_read_page :: "handle \<Rightarrow> i32 \<Rightarrow> ('h, read_page_result) host_call"
  h_binbook_chapters :: "handle \<Rightarrow> i32 \<Rightarrow> i32 \<Rightarrow> ('h, chapter_list_result) host_call"
  h_binbook_chapter :: "handle \<Rightarrow> i32 \<Rightarrow> ('h, chapter_result) host_call"
  h_content_binbook_list :: "rstr \<Rightarrow> i32 \<Rightarrow> i32 \<Rightarrow> ('h, content_list_result) host_call"
  h_state_load :: "u8 list \<Rightarrow> 'h \<Rightarrow> (vm_error + nat option) \<times> u8 list \<times> 'h"

text \<open>
  The methods the trait provides: services answer that they are unsupported, device
  commands refuse, and storage has nothing saved.  \<open>trace\<close> and the reader have no default.
\<close>

definition answer :: "'a \<Rightarrow> ('h, 'a) host_call" where
  "answer v h = (Inr v, h)"

definition refuse :: "('h, 'a) host_call" where
  "refuse h = (Inl InvalidOperand, h)"

fun default_command :: "host_command \<Rightarrow> ('h, unit) host_call" where
  "default_command ServiceWifiTeardown = answer ()"
| "default_command (HostStateSave bytes) = answer ()"
| "default_command HostStateResetPersistent = answer ()"
| "default_command _ = refuse"

fun default_wifi :: "wifi_call \<Rightarrow> ('h, wifi_operation) host_call" where
  "default_wifi WifiScan = answer wifi_operation_unsupported"
| "default_wifi WifiOperationPoll = answer wifi_operation_idle"
| "default_wifi WifiCancel = answer wifi_operation_idle"
| "default_wifi _ = refuse"

fun default_text :: "text_query \<Rightarrow> 'h \<Rightarrow> (vm_error + unit) \<times> ustr list \<times> 'h" where
  "default_text SystemStartReasonText h = (Inr (), [Str (lit ''boot'')], h)"
| "default_text _ h = (Inl InvalidOperand, [], h)"

fun default_note :: "(rstr \<Rightarrow> 'h \<Rightarrow> 'h) \<Rightarrow> host_note \<Rightarrow> 'h \<Rightarrow> 'h" where
  "default_note trace (Trace message) h = trace message h"
| "default_note trace _ h = h"

definition default_host ::
  "(rstr \<Rightarrow> 'h \<Rightarrow> 'h) \<Rightarrow> 
     (nat \<Rightarrow> u8 list \<Rightarrow> 'h \<Rightarrow> (vm_error + unit) \<times> u8 list \<times> 'h) \<Rightarrow> 'h host" where
  "default_host trace read =
     \<lparr>h_read = read,
      h_should_defer = (\<lambda>off n. answer False),
      h_note = default_note trace,
      h_command = default_command,
      h_bool = (\<lambda>q. refuse),
      h_wifi = default_wifi,
      h_config = (\<lambda>c. answer config_unsupported),
      h_text = default_text,
      h_display_info = answer display_info_unsupported,
      h_app_install = (\<lambda>file_ref app_id. refuse),
      h_app_registry_list = refuse,
      h_app_registry_get = (\<lambda>app_id. refuse),
      h_app_process_stack = refuse,
      h_app_armed_stack = refuse,
      h_wifi_status = refuse,
      h_wifi_get_ap_ip = refuse,
      h_wifi_result = answer wifi_result_unsupported,
      h_wifi_scan_network = (\<lambda>i. answer scan_network_unsupported),
      h_file_pick_file = (\<lambda>ext. answer pick_file_unsupported),
      h_file_read_text = (\<lambda>path. answer read_text_unsupported),
      h_file_read_lines = (\<lambda>path n. answer read_lines_unsupported),
      h_file_copy = (\<lambda>source library name. answer file_copy_unsupported),
      h_binbook_open = (\<lambda>path. answer binbook_open_unsupported),
      h_binbook_info = (\<lambda>book. answer binbook_info_unsupported),
      h_binbook_read_page = (\<lambda>book page. answer read_page_unsupported),
      h_binbook_chapters = (\<lambda>book off n. answer chapter_list_unsupported),
      h_binbook_chapter = (\<lambda>book i. answer chapter_unsupported),
      h_content_binbook_list = (\<lambda>library off n. answer content_list_unsupported),
      h_state_load = (\<lambda>out h. (Inr None, out, h))\<rparr>"

section \<open>What the VM relies on\<close>

text \<open>
  A host keeps inside the buffers it is given: the length \<open>state_load\<close> returns does not
  exceed its buffer, and an access point's SSID length does not exceed its array (which
  \<open>WifiAccessPoint::new\<close> ensures, and \<open>from_fixed_parts\<close> leaves to its caller).
\<close>

definition access_point_ok :: "access_point \<Rightarrow> bool" where
  "access_point_ok ap \<longleftrightarrow> length (ap_ssid ap) = WIFI_SCAN_SSID_CAP \<and> ap_ssid_len ap \<le> WIFI_SCAN_SSID_CAP"

definition host_ok :: "'h host \<Rightarrow> bool" where
  "host_ok H \<longleftrightarrow>
     (\<forall>out h k out' h'. h_state_load H out h = (Inr (Some k), out', h') \<longrightarrow> k \<le> length out) \<and>
     (\<forall>i h r h' ap. h_wifi_scan_network H i h = (Inr r, h') \<longrightarrow> sn_network r = Some ap \<longrightarrow> access_point_ok ap)"

lemma default_host_ok: "host_ok (default_host trace read)"
  by (auto simp: host_ok_def default_host_def answer_def scan_network_unsupported_def)

lemma access_point_empty_ok [simp]: "access_point_ok access_point_empty"
  by (simp add: access_point_ok_def access_point_empty_def)

lemma access_point_ssid_no_panic: "access_point_ok ap \<Longrightarrow> access_point_ssid ap \<noteq> Inl Panic"
  by (auto simp: access_point_ssid_def access_point_ok_def)

lemma access_point_new_ok:
  "access_point_new ssid bssid channel rssi auth hidden = Inr ap \<Longrightarrow> access_point_ok ap"
  by (auto simp: access_point_new_def access_point_ok_def access_point_empty_def Let_def
      split: if_splits option.splits)

end
