(* ===== verification/Vm_Machine.thy ===== *)
theory Vm_Machine
  imports Vm_Cache Vm_Host
begin

text \<open>
  The state of \<open>ChunkedVm\<close> (\<open>squidvm-core/src/vm.rs\<close>) and the operations the
  interpreter and the builtins are made of: the operand stack, the reads of the loaded code
  chunk, frames, the state slots, the strings, records and lists.  A method is a function
  of the VM and the host's state; it returns both in every outcome.

  The lemmas give each operation its effect on the invariant \<open>vm_inv\<close> (array sizes, stack
  and frame bounds, code ranges, a sound string interner), on which every index into a
  fixed array rests.
\<close>

section \<open>State\<close>

datatype frame_kind = HandlerFrame u16 | FunctionFrame u16 | ScreenFrame u16

fun frame_chunk_ref :: "frame_kind \<Rightarrow> chunk_ref" where
  "frame_chunk_ref (HandlerFrame i) = \<lparr>c_app = 0, c_kind = HandlerChunk, c_index = i\<rparr>"
| "frame_chunk_ref (FunctionFrame i) = \<lparr>c_app = 0, c_kind = FunctionChunk, c_index = i\<rparr>"
| "frame_chunk_ref (ScreenFrame i) = \<lparr>c_app = 0, c_kind = ScreenChunk, c_index = i\<rparr>"

datatype pending_storage =
    NoPending
  | PendingRead nat nat
  | PendingStateLoad
  | PendingStateSave
  | PendingStateReset

record resume_frame =
  fr_kind :: frame_kind
  fr_start :: nat
  fr_end :: nat
  fr_ip :: nat
  fr_locals :: "vm_value list"
  fr_depth :: nat
  fr_pending :: pending_storage

definition empty_frame :: resume_frame where
  "empty_frame = \<lparr>fr_kind = HandlerFrame 0, fr_start = 0, fr_end = 0, fr_ip = 0,
     fr_locals = replicate MAX_LOCALS VNull, fr_depth = 0, fr_pending = NoPending\<rparr>"

record vm =
  vm_index :: program_index
  vm_strings :: interner
  vm_records :: runtime_records
  vm_lists :: runtime_lists
  vm_state :: "vm_value list"
  vm_stack :: "vm_value list"
  vm_stack_len :: nat
  vm_current_screen :: "u16 option"
  vm_exited :: bool
  vm_instructions :: nat
  vm_cache :: chunk_cache
  vm_code :: "u8 list"
  vm_storage_bytes :: "u8 list"
  vm_code_start :: nat
  vm_code_len :: nat
  vm_frames :: "resume_frame list"
  vm_frame_count :: nat

text \<open>\<open>ChunkedVm::new\<close>: the state slots start with their declared defaults.\<close>

definition initial_state :: "program_index \<Rightarrow> vm_value list" where
  "initial_state x = map (\<lambda>i. if i < tb_state_count x \<and> i < length (tb_state_slots x)
     then s_default (tb_state_slots x ! i) else VNull) [0..<MAX_STATE]"

definition vm_new :: "program_index \<Rightarrow> vm" where
  "vm_new x =
     \<lparr>vm_index = x, vm_strings = new_interner, vm_records = new_records, vm_lists = new_lists,
      vm_state = initial_state x, vm_stack = replicate MAX_STACK VNull, vm_stack_len = 0,
      vm_current_screen = None, vm_exited = False, vm_instructions = 0, vm_cache = new_cache 4,
      vm_code = replicate MAX_CODE_CHUNK_BYTES 0, vm_storage_bytes = replicate MAX_SAVED_STATE_BYTES 0,
      vm_code_start = usize_max, vm_code_len = 0,
      vm_frames = replicate (MAX_CALL_DEPTH + 1) empty_frame, vm_frame_count = 0\<rparr>"

text \<open>\<open>init_in_place_from_reader\<close>: the index is parsed in place, then the same fields.\<close>

definition vm_init_from_reader :: "'h reader \<Rightarrow> (vm_error, 'h \<times> u8 list, vm) exec" where
  "vm_init_from_reader rd = bind_exec (index_parse_from_reader rd) (\<lambda>x. ret (vm_new x))"

section \<open>Access to the parts of the state\<close>

type_synonym ('h, 'a) vm_exec = "(vm_error, vm \<times> 'h, 'a) exec"

definition vm_gets :: "(vm \<Rightarrow> 'a) \<Rightarrow> ('h, 'a) vm_exec" where
  "vm_gets f s = (Inr (f (fst s)), s)"

definition vm_res_of :: "(vm \<Rightarrow> 'a vm_res) \<Rightarrow> ('h, 'a) vm_exec" where
  "vm_res_of f s = (f (fst s), s)"

definition vm_modify :: "(vm \<Rightarrow> vm) \<Rightarrow> ('h, unit) vm_exec" where
  "vm_modify f s = (Inr (), (f (fst s), snd s))"

definition on_strings :: "(string_table \<Rightarrow> (vm_error, interner, 'a) exec) \<Rightarrow> ('h, 'a) vm_exec" where
  "on_strings f s =
     (case f (index_table (vm_index (fst s))) (vm_strings (fst s)) of
        (r, it) \<Rightarrow> (r, ((fst s)\<lparr>vm_strings := it\<rparr>, snd s)))"

definition on_records :: "(vm_error, runtime_records, 'a) exec \<Rightarrow> ('h, 'a) vm_exec" where
  "on_records f s = (case f (vm_records (fst s)) of (r, x) \<Rightarrow> (r, ((fst s)\<lparr>vm_records := x\<rparr>, snd s)))"

definition on_lists :: "(vm_error, runtime_lists, 'a) exec \<Rightarrow> ('h, 'a) vm_exec" where
  "on_lists f s = (case f (vm_lists (fst s)) of (r, x) \<Rightarrow> (r, ((fst s)\<lparr>vm_lists := x\<rparr>, snd s)))"

text \<open>A call of a host method, whose error is the VM's, and a notification.\<close>

definition host_call :: "('h, 'a) host_call \<Rightarrow> ('h, 'a) vm_exec" where
  "host_call f s =
     (case f (snd s) of
        (Inl e, h) \<Rightarrow> (Inl (Err e), (fst s, h))
      | (Inr v, h) \<Rightarrow> (Inr v, (fst s, h)))"

definition notify :: "'h host \<Rightarrow> host_note \<Rightarrow> ('h, unit) vm_exec" where
  "notify H n s = (Inr (), (fst s, h_note H n (snd s)))"

definition vm_resolver :: "vm \<Rightarrow> resolver" where
  "vm_resolver m = (index_table (vm_index m), vm_strings m)"

definition resolve :: "vm_value \<Rightarrow> ('h, rstr) vm_exec" where
  "resolve v = vm_res_of (\<lambda>m. value_str (index_table (vm_index m)) (vm_strings m) v)"

definition program_str :: "u16 \<Rightarrow> ('h, rstr) vm_exec" where
  "program_str sid = vm_res_of (\<lambda>m. index_string (vm_index m) sid)"

section \<open>The stack\<close>

definition vm_push :: "vm_value \<Rightarrow> ('h, unit) vm_exec" where
  "vm_push v s =
     (case s of (m, h) \<Rightarrow>
        if vm_stack_len m = MAX_STACK then throw StackOverflow s
        else if vm_stack_len m < length (vm_stack m) then
          ret () (m\<lparr>vm_stack := (vm_stack m)[vm_stack_len m := v], vm_stack_len := vm_stack_len m + 1\<rparr>, h)
        else (Inl Panic, s))"

definition vm_pop :: "('h, vm_value) vm_exec" where
  "vm_pop s =
     (case s of (m, h) \<Rightarrow>
        if vm_stack_len m = 0 then throw StackUnderflow s
        else let i = vm_stack_len m - 1; m' = m\<lparr>vm_stack_len := i\<rparr> in
          if i < length (vm_stack m) then ret (vm_stack m ! i) (m', h) else (Inl Panic, (m', h)))"

definition pop_i32 :: "('h, i32) vm_exec" where
  "pop_i32 = bind_exec vm_pop (\<lambda>v. lift (expect_i32 v))"

definition pop_optional_string :: "('h, u16 option) vm_exec" where
  "pop_optional_string = bind_exec vm_pop (\<lambda>v.
     case v of VNull \<Rightarrow> ret None | VString (Sqbc sid) \<Rightarrow> ret (Some sid) | _ \<Rightarrow> throw InvalidOperand)"

definition pop_optional_i32 :: "('h, i32 option) vm_exec" where
  "pop_optional_i32 = bind_exec vm_pop (\<lambda>v.
     case v of VNull \<Rightarrow> ret None | VI32 i \<Rightarrow> ret (Some i) | _ \<Rightarrow> throw InvalidOperand)"

definition display_color_from_i32 :: "i32 \<Rightarrow> u8 vm_res" where
  "display_color_from_i32 v =
     (if 0 \<le> sint v \<and> sint v \<le> 15 then Inr (ucast v) else Inl (Err InvalidOperand))"

definition pop_optional_display_color :: "('h, u8 option) vm_exec" where
  "pop_optional_display_color = bind_exec pop_optional_i32 (\<lambda>v.
     case v of None \<Rightarrow> ret None
     | Some i \<Rightarrow> bind_exec (lift (display_color_from_i32 i)) (\<lambda>c. ret (Some c)))"

definition pop_sqbc_string_id :: "('h, u16) vm_exec" where
  "pop_sqbc_string_id = bind_exec vm_pop (\<lambda>v.
     case v of VString (Sqbc sid) \<Rightarrow> ret sid | _ \<Rightarrow> throw InvalidOperand)"

definition pop_handle :: "('h, handle) vm_exec" where
  "pop_handle = bind_exec vm_pop (\<lambda>v. case v of VHandle k \<Rightarrow> ret k | _ \<Rightarrow> throw InvalidOperand)"

definition pop_bool :: "('h, bool) vm_exec" where
  "pop_bool = bind_exec vm_pop (\<lambda>v. case v of VBool b \<Rightarrow> ret b | _ \<Rightarrow> throw InvalidOperand)"

definition pop_list :: "('h, u8) vm_exec" where
  "pop_list = bind_exec vm_pop (\<lambda>v. case v of VList i \<Rightarrow> ret i | _ \<Rightarrow> throw InvalidOperand)"

section \<open>The loaded code\<close>

definition code_byte :: "vm \<Rightarrow> nat \<Rightarrow> u8 vm_res" where
  "code_byte m offset =
     (if offset < vm_code_start m then Inl (Err InvalidJump) else
      let relative = offset - vm_code_start m in
      if relative \<ge> vm_code_len m then Inl (Err InvalidJump)
      else if relative < length (vm_code m) then Inr (vm_code m ! relative) else Inl Panic)"

definition read_u16_code :: "vm \<Rightarrow> nat \<Rightarrow> u16 vm_res" where
  "read_u16_code m offset =
     and_then (code_byte m offset) (\<lambda>b0.
     and_then (code_byte m (offset + 1)) (\<lambda>b1. Inr (of_le [b0, b1])))"

definition read_u32_code :: "vm \<Rightarrow> nat \<Rightarrow> u32 vm_res" where
  "read_u32_code m offset =
     and_then (code_byte m offset) (\<lambda>b0.
     and_then (code_byte m (offset + 1)) (\<lambda>b1.
     and_then (code_byte m (offset + 2)) (\<lambda>b2.
     and_then (code_byte m (offset + 3)) (\<lambda>b3. Inr (of_le [b0, b1, b2, b3])))))"

definition read_i32_code :: "vm \<Rightarrow> nat \<Rightarrow> i32 vm_res" where
  "read_i32_code m offset =
     and_then (code_byte m offset) (\<lambda>b0.
     and_then (code_byte m (offset + 1)) (\<lambda>b1.
     and_then (code_byte m (offset + 2)) (\<lambda>b2.
     and_then (code_byte m (offset + 3)) (\<lambda>b3. Inr (of_le [b0, b1, b2, b3])))))"

text \<open>
  \<open>reader.read_exact_at(offset, &mut self.code[..len])\<close>: the buffer is changed even when
  the read fails, and then \<open>code_start\<close> and \<open>code_len\<close> still name the chunk loaded before.
\<close>

definition read_code :: "'h host \<Rightarrow> nat \<Rightarrow> nat \<Rightarrow> ('h, unit) vm_exec" where
  "read_code H offset len s =
     (case s of (m, h) \<Rightarrow>
        if len > length (vm_code m) then (Inl Panic, s) else
        case h_read H offset (take len (vm_code m)) h of
          (r, bs, h') \<Rightarrow>
            (case r of Inl e \<Rightarrow> Inl (Err e) | Inr u \<Rightarrow> Inr u,
             (m\<lparr>vm_code := splice (vm_code m) 0 (fit len bs)\<rparr>, h')))"

text \<open>\<open>load_chunk_resumable\<close>: the chunk is already loaded, or read, or a read is requested.\<close>

definition load_chunk_resumable ::
  "'h host \<Rightarrow> nat \<Rightarrow> nat \<Rightarrow> ('h, storage_request option) vm_exec" where
  "load_chunk_resumable H start len =
     bind_exec (lift (ok_or InvalidJump (checked_add start len))) (\<lambda>stop.
     bind_exec (vm_gets (\<lambda>m. (ix_code_len (vm_index m), length (vm_code m), ix_code_offset (vm_index m),
         vm_code_start m = start \<and> vm_code_len m = len))) (\<lambda>(code_len, cap, code_offset, loaded).
       if stop > code_len then throw InvalidJump
       else if len > cap then throw ChunkTooLarge
       else if loaded then ret None
       else let offset = code_offset + start in
         bind_exec (host_call (h_should_defer H offset len)) (\<lambda>deferred.
           if deferred then ret (Some (SqbcRead offset len)) else
         bind_exec (read_code H offset len) (\<lambda>_.
         bind_exec (vm_modify (\<lambda>m. m\<lparr>vm_code_start := start, vm_code_len := len\<rparr>)) (\<lambda>_.
           ret None)))))"

section \<open>Frames\<close>

text \<open>\<open>self.frames[i]\<close> for reading and for writing.\<close>

definition frame_at :: "nat \<Rightarrow> ('h, resume_frame) vm_exec" where
  "frame_at i = vm_res_of (\<lambda>m. if i < length (vm_frames m) then Inr (vm_frames m ! i) else Inl Panic)"

definition set_frame :: "nat \<Rightarrow> (resume_frame \<Rightarrow> resume_frame) \<Rightarrow> ('h, unit) vm_exec" where
  "set_frame i f s =
     (case s of (m, h) \<Rightarrow>
        if i < length (vm_frames m)
        then ret () (m\<lparr>vm_frames := (vm_frames m)[i := f (vm_frames m ! i)]\<rparr>, h) else (Inl Panic, s))"

text \<open>The result of a cache operation is ignored (\<open>.ok()\<close>).\<close>

definition on_cache :: "(chunk_cache \<Rightarrow> 'r \<times> chunk_cache) \<Rightarrow> ('h, unit) vm_exec" where
  "on_cache f = vm_modify (\<lambda>m. m\<lparr>vm_cache := snd (f (vm_cache m))\<rparr>)"

definition push_resume_frame :: "frame_kind \<Rightarrow> nat \<Rightarrow> nat \<Rightarrow> nat \<Rightarrow> ('h, nat) vm_exec" where
  "push_resume_frame kind start len depth =
     bind_exec (vm_gets (\<lambda>m. (vm_frame_count m, length (vm_frames m), ix_code_len (vm_index m))))
       (\<lambda>(count, cap, code_len).
       if depth > MAX_CALL_DEPTH then throw CallDepthExceeded
       else if count \<ge> cap then throw CallDepthExceeded
       else bind_exec (lift (ok_or InvalidJump (checked_add start len))) (\<lambda>stop.
         if stop > code_len then throw InvalidJump else
         bind_exec (set_frame count (\<lambda>_. \<lparr>fr_kind = kind, fr_start = start, fr_end = stop, fr_ip = start,
             fr_locals = replicate MAX_LOCALS VNull, fr_depth = depth, fr_pending = NoPending\<rparr>)) (\<lambda>_.
         bind_exec (vm_modify (\<lambda>m. m\<lparr>vm_frame_count := vm_frame_count m + 1\<rparr>)) (\<lambda>_. ret count))))"

definition push_screen_resume_frame :: "u16 \<Rightarrow> nat \<Rightarrow> ('h, unit) vm_exec" where
  "push_screen_resume_frame screen_id depth =
     bind_exec (program_str screen_id) (\<lambda>name.
     bind_exec (vm_res_of (\<lambda>m. index_screen (vm_index m) name)) (\<lambda>(screen_index, screen).
     let key = \<lparr>c_app = 0, c_kind = ScreenChunk, c_index = of_nat screen_index\<rparr> in
     bind_exec (on_cache (cache_insert key False)) (\<lambda>_.
     bind_exec (on_cache (begin_execute key)) (\<lambda>_.
     bind_exec (push_resume_frame (ScreenFrame (of_nat screen_index)) (sc_start screen) (sc_len screen) depth)
       (\<lambda>_. ret ())))))"

definition is_function_frame :: "frame_kind \<Rightarrow> bool" where
  "is_function_frame k = (case k of FunctionFrame _ \<Rightarrow> True | _ \<Rightarrow> False)"

definition complete_resume_frame :: "vm_value option \<Rightarrow> ('h, unit) vm_exec" where
  "complete_resume_frame return_value =
     bind_exec (vm_gets vm_frame_count) (\<lambda>count.
       if count = 0 then ret () else
       bind_exec (frame_at (count - 1)) (\<lambda>frame.
       bind_exec (on_cache (end_execute (frame_chunk_ref (fr_kind frame)))) (\<lambda>_.
       bind_exec (set_frame (count - 1) (\<lambda>_. empty_frame)) (\<lambda>_.
       bind_exec (vm_modify (\<lambda>m. m\<lparr>vm_frame_count := vm_frame_count m - 1\<rparr>)) (\<lambda>_.
         if count - 1 > 0 \<and> is_function_frame (fr_kind frame)
         then vm_push (case return_value of None \<Rightarrow> VNull | Some v \<Rightarrow> v) else ret ())))))"

section \<open>State slots and values\<close>

definition vm_materialize :: "vm_value \<Rightarrow> ('h, vm_value) vm_exec" where
  "vm_materialize v = on_strings (\<lambda>_. retain_value v)"

definition runtime_string_value :: "rstr option \<Rightarrow> ('h, vm_value) vm_exec" where
  "runtime_string_value value =
     (case value of None \<Rightarrow> ret VNull | Some s \<Rightarrow> on_strings (\<lambda>strings. intern_event strings s))"

text \<open>\<open>reset_state\<close>: the declared slots get their defaults; a write past the array panics.\<close>

definition live_state_slots :: "vm \<Rightarrow> state_slot list" where
  "live_state_slots m = take (tb_state_count (vm_index m)) (tb_state_slots (vm_index m))"

definition reset_state :: "('h, unit) vm_exec" where
  "reset_state s =
     (case s of (m, h) \<Rightarrow>
        let defaults = map s_default (live_state_slots m) in
        if length defaults \<le> length (vm_state m)
        then ret () (m\<lparr>vm_state := splice (vm_state m) 0 defaults\<rparr>, h) else (Inl Panic, s))"

definition current_screen :: "vm \<Rightarrow> rstr option vm_res" where
  "current_screen m =
     (case vm_current_screen m of None \<Rightarrow> Inr None
      | Some sid \<Rightarrow> and_then (index_string (vm_index m) sid) (\<lambda>s. Inr (Some s)))"

definition state_value :: "vm \<Rightarrow> rstr \<Rightarrow> vm_value vm_res" where
  "state_value m name =
     and_then (find_slot (index_table (vm_index m)) name 0 (live_state_slots m)) (\<lambda>hit.
       case hit of
         None \<Rightarrow> Inl (Err StateOutOfBounds)
       | Some (index, slot) \<Rightarrow>
           if index < length (vm_state m) then Inr (vm_state m ! index) else Inl Panic)"

definition state_name :: "vm \<Rightarrow> nat \<Rightarrow> rstr vm_res" where
  "state_name m index =
     (if index \<ge> tb_state_count (vm_index m) then Inl (Err StateOutOfBounds)
      else if index < length (tb_state_slots (vm_index m))
      then index_string (vm_index m) (s_name_id (tb_state_slots (vm_index m) ! index)) else Inl Panic)"

definition state_at :: "vm \<Rightarrow> nat \<Rightarrow> vm_value vm_res" where
  "state_at m index =
     (if index \<ge> tb_state_count (vm_index m) then Inl (Err StateOutOfBounds)
      else if index < length (vm_state m) then Inr (vm_state m ! index) else Inl Panic)"

text \<open>The first slot of that name takes the value if its type allows it.\<close>

definition store_state_value :: "rstr \<Rightarrow> vm_value \<Rightarrow> ('h, unit) vm_exec" where
  "store_state_value name value =
     bind_exec (vm_res_of (\<lambda>m. find_slot (index_table (vm_index m)) name 0 (live_state_slots m))) (\<lambda>hit.
       case hit of
         None \<Rightarrow> throw StateOutOfBounds
       | Some (index, slot) \<Rightarrow>
           if \<not> state_value_matches (st_tag (s_type slot)) (st_nullable (s_type slot)) value
           then throw InvalidOperand
           else bind_exec (vm_res_of (\<lambda>m. if index < length (vm_state m) then Inr () else Inl Panic)) (\<lambda>_.
             vm_modify (\<lambda>m. m\<lparr>vm_state := (vm_state m)[index := value]\<rparr>)))"

definition set_state_value :: "rstr \<Rightarrow> vm_value \<Rightarrow> ('h, unit) vm_exec" where
  "set_state_value name value = bind_exec (vm_materialize value) (store_state_value name)"

text \<open>\<open>apply_state_record\<close> on the VM's interner and the live part of its state.\<close>

definition load_state_record :: "u8 list \<Rightarrow> ('h, unit) vm_exec" where
  "load_state_record bytes s =
     (case s of (m, h) \<Rightarrow>
        let n = tb_state_count (vm_index m) in
        if n > length (tb_state_slots (vm_index m)) \<or> n > length (vm_state m) then (Inl Panic, s) else
        (case apply_state_record bytes (index_table (vm_index m)) (live_state_slots m)
                (vm_strings m, take n (vm_state m)) of
           (r, (it, state)) \<Rightarrow>
             (r, (m\<lparr>vm_strings := it, vm_state := splice (vm_state m) 0 state\<rparr>, h))))"

end
