(* ===== verification/Vm_Builtins.thy ===== *)
theory Vm_Builtins
  imports Vm_Machine
begin

text \<open>
  The builtins (\<open>call_builtin\<close> and the record builders of \<open>squidvm-core/src/vm.rs\<close>):
  arguments are popped last first, strings resolved, the host called, and a result
  struct turned into a runtime record whose strings are interned in the order the builder
  names them.  The arms of the one \<open>match\<close> are grouped by the service they belong to; a
  group that does not know the number passes it on.
\<close>

section \<open>Result records\<close>

definition handle_value :: "handle option \<Rightarrow> vm_value" where
  "handle_value b = (case b of None \<Rightarrow> VNull | Some k \<Rightarrow> VHandle k)"

text \<open>The items of a list result are made in order; the first error ends the loop.\<close>

fun exec_map :: "('a \<Rightarrow> ('e, 's, 'b) exec) \<Rightarrow> 'a list \<Rightarrow> ('e, 's, 'b list) exec" where
  "exec_map f [] = ret []"
| "exec_map f (x # xs) =
     bind_exec (f x) (\<lambda>y. bind_exec (exec_map f xs) (\<lambda>ys. ret (y # ys)))"

text \<open>At most \<open>MAX_RUNTIME_LIST_ITEMS\<close> entries are turned into values and collected in a list.\<close>

definition list_of :: "('a \<Rightarrow> ('h, vm_value) vm_exec) \<Rightarrow> 'a list \<Rightarrow> ('h, vm_value) vm_exec" where
  "list_of f entries =
     bind_exec (exec_map f (take MAX_RUNTIME_LIST_ITEMS entries)) (\<lambda>items. on_lists (lists_alloc items))"

definition wifi_operation_record :: "wifi_operation \<Rightarrow> ('h, vm_value) vm_exec" where
  "wifi_operation_record r =
     bind_exec (runtime_string_value (map_option str_bytes (wo_kind r))) (\<lambda>kind.
     bind_exec (runtime_string_value (Some (str_bytes (wo_state r)))) (\<lambda>state.
     bind_exec (runtime_string_value (map_option str_bytes (wo_error r))) (\<lambda>error.
       on_records (records_alloc [
         (FActive, VBool (wo_active r)), (FKind, kind), (FState, state),
         (FDone, VBool (wo_done r)), (FCancelled, VBool (wo_cancelled r)), (FOk, VBool (wo_ok r)),
         (FError, error)]))))"

definition wifi_operation_result_record :: "wifi_result \<Rightarrow> ('h, vm_value) vm_exec" where
  "wifi_operation_result_record r =
     bind_exec (runtime_string_value (map_option str_bytes (wr_kind r))) (\<lambda>kind.
     bind_exec (runtime_string_value (Some (str_bytes (wr_state r)))) (\<lambda>state.
     bind_exec (runtime_string_value (map_option str_bytes (wr_error r))) (\<lambda>error.
       on_records (records_alloc [
         (FReady, VBool (wr_ready r)), (FKind, kind), (FState, state),
         (FOk, VBool (wr_ok r)), (FError, error), (FCancelled, VBool (wr_cancelled r)),
         (FCount, VI32 (wr_count r))]))))"

definition device_config_result_record :: "config_result \<Rightarrow> ('h, vm_value) vm_exec" where
  "device_config_result_record r =
     bind_exec (runtime_string_value (map_option str_bytes (cr_error r))) (\<lambda>error.
     bind_exec (runtime_string_value (map_option str_bytes (cr_warning r))) (\<lambda>warning.
       on_records (records_alloc [
         (FOk, VBool (cr_ok r)), (FError, error), (FWarning, warning)])))"

definition file_pick_file_result_record :: "pick_file_result \<Rightarrow> ('h, vm_value) vm_exec" where
  "file_pick_file_result_record r =
     bind_exec (runtime_string_value (map_option str_bytes (pf_error r))) (\<lambda>error.
     bind_exec (runtime_string_value (map_option str_bytes (pf_path r))) (\<lambda>path.
       on_records (records_alloc [
         (FOk, VBool (pf_ok r)), (FError, error), (FPath, path)])))"

definition file_read_text_result_record :: "read_text_result \<Rightarrow> ('h, vm_value) vm_exec" where
  "file_read_text_result_record r =
     bind_exec (runtime_string_value (map_option str_bytes (rt_error r))) (\<lambda>error.
     bind_exec (runtime_string_value (map_option str_bytes (rt_text r))) (\<lambda>content.
       on_records (records_alloc [
         (FOk, VBool (rt_ok r)), (FError, error), (FText, content)])))"

definition file_copy_result_record :: "file_copy_result \<Rightarrow> ('h, vm_value) vm_exec" where
  "file_copy_result_record r =
     bind_exec (runtime_string_value (map_option str_bytes (fc_error r))) (\<lambda>error.
     bind_exec (runtime_string_value (map_option str_bytes (fc_reference r))) (\<lambda>reference.
       on_records (records_alloc [
         (FOk, VBool (fc_ok r)), (FError, error), (FRef, reference),
         (FBytesWritten, VI32 (fc_bytes_written r))])))"

definition binbook_open_record :: "binbook_open_result \<Rightarrow> ('h, vm_value) vm_exec" where
  "binbook_open_record r =
     bind_exec (runtime_string_value (map_option str_bytes (bo_error r))) (\<lambda>error.
       on_records (records_alloc [
         (FOk, VBool (bo_ok r)), (FError, error), (FBook, handle_value (bo_book r))]))"

definition binbook_info_record :: "binbook_info_result \<Rightarrow> ('h, vm_value) vm_exec" where
  "binbook_info_record r =
     bind_exec (runtime_string_value (map_option str_bytes (bi_error r))) (\<lambda>error.
     bind_exec (runtime_string_value (map_option str_bytes (bi_title r))) (\<lambda>title.
       on_records (records_alloc [
         (FOk, VBool (bi_ok r)), (FError, error), (FTitle, title),
         (FPageCount, VI32 (bi_page_count r)), (FChapterCount, VI32 (bi_chapter_count r))])))"

definition binbook_read_page_record :: "read_page_result \<Rightarrow> ('h, vm_value) vm_exec" where
  "binbook_read_page_record r =
     bind_exec (runtime_string_value (map_option str_bytes (rp_error r))) (\<lambda>error.
       on_records (records_alloc [
         (FOk, VBool (rp_ok r)), (FError, error), (FDrawable, handle_value (rp_drawable r))]))"

definition binbook_chapter_entry_record :: "chapter_entry \<Rightarrow> ('h, vm_value) vm_exec" where
  "binbook_chapter_entry_record r =
     bind_exec (runtime_string_value (Some (str_bytes (ce_title r)))) (\<lambda>title.
       on_records (records_alloc [
         (FIndex, VI32 (ce_index r)), (FTitle, title), (FPageIndex, VI32 (ce_page_index r)),
         (FLevel, VI32 (ce_level r)), (FType, VI32 (ce_type r))]))"

definition content_binbook_entry_record :: "content_entry \<Rightarrow> ('h, vm_value) vm_exec" where
  "content_binbook_entry_record r =
     bind_exec (runtime_string_value (Some (str_bytes (cb_name r)))) (\<lambda>name.
     bind_exec (runtime_string_value (Some (str_bytes (cb_reference r)))) (\<lambda>reference.
       on_records (records_alloc [
         (FName, name), (FRef, reference), (FSize, VI32 (cb_size r))])))"

definition display_info_record :: "display_info \<Rightarrow> ('h, vm_value) vm_exec" where
  "display_info_record r =
     bind_exec (runtime_string_value (map_option str_bytes (di_error r))) (\<lambda>error.
     bind_exec (runtime_string_value (map_option str_bytes (di_warning r))) (\<lambda>warning.
     bind_exec (runtime_string_value (Some (str_bytes (di_status r)))) (\<lambda>status.
     bind_exec (runtime_string_value (Some (str_bytes (di_binding r)))) (\<lambda>binding.
     bind_exec (runtime_string_value (Some (str_bytes (di_driver r)))) (\<lambda>driver.
     bind_exec (runtime_string_value (Some (str_bytes (di_transport r)))) (\<lambda>transport.
     bind_exec (runtime_string_value (Some (str_bytes (di_color_model r)))) (\<lambda>color_model.
     bind_exec (runtime_string_value (Some (str_bytes (di_native_pixel_format r)))) (\<lambda>native_pixel_format.
       on_records (records_alloc [
         (FOk, VBool (di_ok r)), (FError, error), (FWarning, warning),
         (FAvailable, VBool (di_available r)), (FStatus, status), (FBinding, binding),
         (FDriver, driver), (FTransport, transport), (FWidth, VI32 (di_width r)),
         (FHeight, VI32 (di_height r)), (FPhysicalWidth, VI32 (di_physical_width r)), (FPhysicalHeight, VI32 (di_physical_height r)),
         (FRotation, VI32 (di_rotation r)), (FColorModel, color_model), (FLogicalGrayLevels, VI32 (di_logical_gray_levels r)),
         (FNativeBpp, VI32 (di_native_bpp r)), (FNativePixelFormat, native_pixel_format), (FDefaultFontHeight, VI32 (di_default_font_height r)),
         (FSupportsPartialRefresh, VBool (di_supports_partial_refresh r)), (FSupportsFastRefresh, VBool (di_supports_fast_refresh r))])))))))))"

definition app_registry_record :: "registry_entry \<Rightarrow> ('h, vm_value) vm_exec" where
  "app_registry_record r =
     bind_exec (runtime_string_value (Some (str_bytes (re_id r)))) (\<lambda>app.
     bind_exec (runtime_string_value (Some (str_bytes (re_name r)))) (\<lambda>name.
     bind_exec (runtime_string_value (Some (str_bytes (re_build r)))) (\<lambda>build.
     bind_exec (runtime_string_value (Some (str_bytes (re_description r)))) (\<lambda>description.
       on_records (records_alloc [
         (FId, app), (FName, name), (FBuild, build),
         (FDescription, description)])))))"

definition app_armed_stack_record :: "armed_entry \<Rightarrow> ('h, vm_value) vm_exec" where
  "app_armed_stack_record r =
     bind_exec (runtime_string_value (Some (str_bytes (ar_app_id r)))) (\<lambda>app.
     bind_exec (runtime_string_value (Some (str_bytes (ar_event r)))) (\<lambda>event.
       on_records (records_alloc [
         (FAppId, app), (FEvent, event)])))"

definition wifi_status_record :: "wifi_status \<Rightarrow> ('h, vm_value) vm_exec" where
  "wifi_status_record r =
     bind_exec (runtime_string_value (map_option str_bytes (ws_mode r))) (\<lambda>mode.
     bind_exec (runtime_string_value (map_option str_bytes (ws_ip_address r))) (\<lambda>ip_address.
     bind_exec (runtime_string_value (map_option str_bytes (ws_ssid r))) (\<lambda>ssid.
     bind_exec (runtime_string_value (map_option str_bytes (ws_error r))) (\<lambda>error.
     bind_exec (runtime_string_value (Some (str_bytes (ws_state r)))) (\<lambda>state.
     bind_exec (runtime_string_value (Some (str_bytes (ws_backend r)))) (\<lambda>backend.
     bind_exec (runtime_string_value (map_option str_bytes (ws_driver_mode r))) (\<lambda>driver_mode.
     bind_exec (runtime_string_value (map_option str_bytes (ws_last_backend_code r))) (\<lambda>last_backend_code.
     bind_exec (runtime_string_value (map_option str_bytes (ws_profile r))) (\<lambda>profile.
     bind_exec (runtime_string_value (map_option str_bytes (ws_auth r))) (\<lambda>auth.
     bind_exec (runtime_string_value (map_option str_bytes (ws_bssid r))) (\<lambda>bssid.
     bind_exec (runtime_string_value (map_option str_bytes (ws_disconnect_reason r))) (\<lambda>disconnect_reason.
       on_records (records_alloc [
         (FActive, VBool (ws_active r)), (FMode, mode), (FIpAddress, ip_address),
         (FSsid, ssid), (FClients, VI32 (ws_clients r)), (FError, error),
         (FState, state), (FBackend, backend), (FDriverStarted, VBool (ws_driver_started r)),
         (FConfigured, VBool (ws_configured r)), (FDriverMode, driver_mode), (FChannel, VI32 (ws_channel r)),
         (FApStartEvents, VI32 (ws_ap_start_events r)), (FApStopEvents, VI32 (ws_ap_stop_events r)), (FProbeEvents, VI32 (ws_probe_events r)),
         (FStaConnectedEvents, VI32 (ws_sta_connected_events r)), (FStaDisconnectedEvents, VI32 (ws_sta_disconnected_events r)), (FLastBackendCode, last_backend_code),
         (FProfile, profile), (FConnected, VBool (ws_connected r)), (FScanMatches, VI32 (ws_scan_matches r)),
         (FRssi, VI32 (ws_rssi r)), (FAuth, auth), (FBssid, bssid),
         (FDisconnectReason, disconnect_reason), (FDisconnectReasonCode, VI32 (ws_disconnect_reason_code r))])))))))))))))"

definition wifi_ap_ip_record :: "wifi_ap_ip \<Rightarrow> ('h, vm_value) vm_exec" where
  "wifi_ap_ip_record r =
     bind_exec (runtime_string_value (map_option str_bytes (wa_ip r))) (\<lambda>ip.
     bind_exec (runtime_string_value (map_option str_bytes (wa_gw r))) (\<lambda>gw.
     bind_exec (runtime_string_value (map_option str_bytes (wa_netmask r))) (\<lambda>netmask.
     bind_exec (runtime_string_value (map_option str_bytes (wa_error r))) (\<lambda>error.
       on_records (records_alloc [
         (FIp, ip), (FGw, gw), (FNetmask, netmask),
         (FError, error)])))))"

definition file_read_lines_result_record :: "read_lines_result \<Rightarrow> ('h, vm_value) vm_exec" where
  "file_read_lines_result_record r =
     bind_exec (runtime_string_value (map_option str_bytes (rln_error r))) (\<lambda>error.
     bind_exec (list_of (\<lambda>line. runtime_string_value (Some (str_bytes line))) (rln_lines r)) (\<lambda>ls.
       on_records (records_alloc [(FOk, VBool (rln_ok r)), (FError, error), (FLines, ls)])))"

definition binbook_chapter_list_record :: "chapter_list_result \<Rightarrow> ('h, vm_value) vm_exec" where
  "binbook_chapter_list_record r =
     bind_exec (runtime_string_value (map_option str_bytes (cl_error r))) (\<lambda>error.
     bind_exec (list_of binbook_chapter_entry_record (cl_items r)) (\<lambda>list.
       on_records (records_alloc [
         (FOk, VBool (cl_ok r)), (FError, error), (FItems, list),
         (FCount, VI32 (cl_count r)), (FHasMore, VBool (cl_has_more r))])))"

definition binbook_chapter_result_record :: "chapter_result \<Rightarrow> ('h, vm_value) vm_exec" where
  "binbook_chapter_result_record r =
     bind_exec (runtime_string_value (map_option str_bytes (ch_error r))) (\<lambda>error.
     bind_exec (runtime_string_value (map_option (\<lambda>e. str_bytes (ce_title e)) (ch_chapter r))) (\<lambda>title.
     let entry = (case ch_chapter r of Some e \<Rightarrow> e
       | None \<Rightarrow> \<lparr>ce_index = 0, ce_title = Str [], ce_page_index = 0, ce_level = 0, ce_type = 0\<rparr>) in
       on_records (records_alloc [
         (FOk, VBool (ch_ok r)), (FError, error), (FIndex, VI32 (ce_index entry)), (FTitle, title),
         (FPageIndex, VI32 (ce_page_index entry)), (FLevel, VI32 (ce_level entry)),
         (FType, VI32 (ce_type entry))])))"

definition content_binbook_list_record :: "content_list_result \<Rightarrow> ('h, vm_value) vm_exec" where
  "content_binbook_list_record r =
     bind_exec (runtime_string_value (map_option str_bytes (ct_error r))) (\<lambda>error.
     bind_exec (runtime_string_value (map_option str_bytes (ct_warning r))) (\<lambda>warning.
     bind_exec (list_of content_binbook_entry_record (ct_items r)) (\<lambda>list.
       on_records (records_alloc [
         (FOk, VBool (ct_ok r)), (FError, error), (FWarning, warning), (FItems, list),
         (FCount, VI32 (ct_count r)), (FHasMore, VBool (ct_has_more r))]))))"

definition app_install_record :: "ustr \<Rightarrow> ('h, vm_value) vm_exec" where
  "app_install_record app_id =
     bind_exec (runtime_string_value (Some (str_bytes app_id))) (\<lambda>v. on_records (records_alloc [(FId, v)]))"

definition wifi_scan_network_record :: "scan_network \<Rightarrow> ('h, vm_value) vm_exec" where
  "wifi_scan_network_record r =
     bind_exec (runtime_string_value (map_option str_bytes (sn_error r))) (\<lambda>error.
     let network = (case sn_network r of Some ap \<Rightarrow> ap | None \<Rightarrow> access_point_empty) in
     bind_exec (lift (access_point_ssid network)) (\<lambda>s.
     bind_exec (runtime_string_value (Some s)) (\<lambda>ssid.
     bind_exec (runtime_string_value (map_option str_bytes (ap_auth network))) (\<lambda>auth.
       on_records (records_alloc [
         (FOk, VBool (sn_ok r)), (FError, error), (FSsid, ssid), (FSsidLength, VI32 (ap_ssid_length network)),
         (FChannel, VI32 (ap_channel network)), (FRssi, VI32 (ap_rssi network)), (FAuth, auth),
         (FHidden, VBool (ap_hidden network))])))))"

section \<open>The builtins, by service\<close>

text \<open>\<open>let result = host.method()?; let value = self.record(result)?; self.push(value)?\<close>\<close>

definition push_result :: "('h, 'a) vm_exec \<Rightarrow> ('a \<Rightarrow> ('h, vm_value) vm_exec) \<Rightarrow> ('h, unit) vm_exec" where
  "push_result call to_value = bind_exec call (\<lambda>r. bind_exec (to_value r) vm_push)"

text \<open>An app id is popped, resolved and given to a command.\<close>

definition app_command :: "'h host \<Rightarrow> (rstr \<Rightarrow> host_command) \<Rightarrow> ('h, unit) vm_exec" where
  "app_command H c =
     bind_exec vm_pop (\<lambda>app. bind_exec (resolve app) (\<lambda>s. host_call (h_command H (c s))))"

text \<open>A program string is popped, resolved and given to a command or a call.\<close>

definition with_program_string :: "(rstr \<Rightarrow> ('h, 'a) vm_exec) \<Rightarrow> ('h, 'a) vm_exec" where
  "with_program_string f = bind_exec pop_sqbc_string_id (\<lambda>sid. bind_exec (program_str sid) f)"

definition optional_program_str :: "u16 option \<Rightarrow> ('h, rstr option) vm_exec" where
  "optional_program_str sid =
     (case sid of None \<Rightarrow> ret None | Some i \<Rightarrow> bind_exec (program_str i) (\<lambda>s. ret (Some s)))"

definition display_text_builtin :: "'h host \<Rightarrow> ('h, unit) vm_exec" where
  "display_text_builtin H =
     bind_exec pop_optional_string (\<lambda>valign_id.
     bind_exec pop_optional_string (\<lambda>align_id.
     bind_exec pop_optional_display_color (\<lambda>background_color.
     bind_exec pop_optional_display_color (\<lambda>text_color.
     bind_exec pop_i32 (\<lambda>font_height.
     bind_exec pop_i32 (\<lambda>h.
     bind_exec pop_i32 (\<lambda>w.
     bind_exec pop_i32 (\<lambda>y.
     bind_exec pop_i32 (\<lambda>x.
     bind_exec vm_pop (\<lambda>v.
     bind_exec (vm_gets vm_resolver) (\<lambda>strings.
     bind_exec (optional_program_str align_id) (\<lambda>align.
     bind_exec (optional_program_str valign_id) (\<lambda>valign.
       notify H (DrawText strings v \<lparr>to_x = x, to_y = y, to_w = w, to_h = h, to_font_height = font_height,
         to_text_color = text_color, to_background_color = background_color, to_align = align,
         to_valign = valign\<rparr>))))))))))))))"

definition pop_resource_options :: "('h, resource_options) vm_exec" where
  "pop_resource_options =
     bind_exec pop_i32 (\<lambda>h.
     bind_exec pop_i32 (\<lambda>w.
     bind_exec pop_i32 (\<lambda>y.
     bind_exec pop_i32 (\<lambda>x. ret \<lparr>so_x = x, so_y = y, so_w = w, so_h = h\<rparr>))))"

definition display_builtin :: "'h host \<Rightarrow> u8 \<Rightarrow> ('h, unit) vm_exec option" where
  "display_builtin H b =
     (if b = BUILTIN_DISPLAY_CLEAR then Some
        (bind_exec pop_i32 (\<lambda>c. bind_exec (lift (display_color_from_i32 c)) (\<lambda>c. notify H (DrawClear c))))
      else if b = BUILTIN_DISPLAY_TEXT then Some (display_text_builtin H)
      else if b = BUILTIN_DISPLAY_RECT then Some
        (bind_exec pop_optional_display_color (\<lambda>stroke_color.
         bind_exec pop_optional_display_color (\<lambda>fill_color.
         bind_exec pop_i32 (\<lambda>h.
         bind_exec pop_i32 (\<lambda>w.
         bind_exec pop_i32 (\<lambda>y.
         bind_exec pop_i32 (\<lambda>x.
           notify H (DrawRect \<lparr>ro_x = x, ro_y = y, ro_w = w, ro_h = h, ro_fill_color = fill_color,
             ro_stroke_color = stroke_color\<rparr>))))))))
      else if b = BUILTIN_DISPLAY_LINE then Some
        (bind_exec pop_optional_display_color (\<lambda>color.
         bind_exec pop_i32 (\<lambda>y2.
         bind_exec pop_i32 (\<lambda>x2.
         bind_exec pop_i32 (\<lambda>y1.
         bind_exec pop_i32 (\<lambda>x1.
           notify H (DrawLine \<lparr>lo_x1 = x1, lo_y1 = y1, lo_x2 = x2, lo_y2 = y2, lo_color = color\<rparr>)))))))
      else if b = BUILTIN_DISPLAY_SELECT then Some
        (with_program_string (\<lambda>name. host_call (h_command H (DrawSelect name))))
      else if b = BUILTIN_DISPLAY_REFRESH_MODE then Some
        (with_program_string (\<lambda>mode. notify H (DrawRefreshMode mode)))
      else if b = BUILTIN_DISPLAY_IMAGE then Some
        (bind_exec pop_resource_options (\<lambda>options.
           with_program_string (\<lambda>path. notify H (DrawImage path options))))
      else if b = BUILTIN_DISPLAY_DRAW then Some
        (bind_exec pop_resource_options (\<lambda>options.
         bind_exec vm_pop (\<lambda>drawable.
         bind_exec (vm_gets vm_resolver) (\<lambda>strings. notify H (DrawResource strings drawable options)))))
      else if b = BUILTIN_DISPLAY_INFO then Some
        (push_result (host_call (h_display_info H)) display_info_record)
      else None)"

definition device_builtin :: "'h host \<Rightarrow> u8 \<Rightarrow> ('h, unit) vm_exec option" where
  "device_builtin H b =
     (if b = BUILTIN_HARDWARE_GPIO_WRITE then Some
        (bind_exec pop_sqbc_string_id (\<lambda>name_id.
         bind_exec pop_bool (\<lambda>v.
         bind_exec (program_str name_id) (\<lambda>name. host_call (h_command H (HardwareGpioWrite name v))))))
      else if b = BUILTIN_HARDWARE_GPIO_TOGGLE then Some
        (with_program_string (\<lambda>name. host_call (h_command H (HardwareGpioToggle name))))
      else if b = BUILTIN_HARDWARE_GPIO_READ then Some
        (bind_exec (with_program_string (\<lambda>name. host_call (h_bool H (HardwareGpioRead name))))
          (\<lambda>v. vm_push (VBool v)))
      else if b = BUILTIN_SERVICE_INDICATOR_WRITE then Some
        (bind_exec pop_bool (\<lambda>v. host_call (h_command H (ServiceIndicatorWrite v))))
      else if b = BUILTIN_SERVICE_INDICATOR_TOGGLE then Some (host_call (h_command H ServiceIndicatorToggle))
      else if b = BUILTIN_SERVICE_INDICATOR_BREATHE then Some (host_call (h_command H ServiceIndicatorBreathe))
      else if b = BUILTIN_SERVICE_INDICATOR_BLINK then Some
        (bind_exec pop_i32 (\<lambda>off_ms. bind_exec pop_i32 (\<lambda>on_ms.
           host_call (h_command H (ServiceIndicatorBlink on_ms off_ms)))))
      else if b = BUILTIN_SERVICE_INDICATOR_READ then Some
        (bind_exec (host_call (h_bool H ServiceIndicatorRead)) (\<lambda>v. vm_push (VBool v)))
      else None)"

definition service_builtin :: "'h host \<Rightarrow> u8 \<Rightarrow> ('h, unit) vm_exec option" where
  "service_builtin H b =
     (if b = BUILTIN_SERVICE_TIMER_EVERY then Some
        (bind_exec pop_i32 (\<lambda>interval_ms. with_program_string (\<lambda>event.
           host_call (h_command H (ServiceTimerEvery event interval_ms)))))
      else if b = BUILTIN_SERVICE_TIMER_AFTER then Some
        (bind_exec pop_i32 (\<lambda>delay_ms. with_program_string (\<lambda>event.
           host_call (h_command H (ServiceTimerAfter event delay_ms)))))
      else if b = BUILTIN_SERVICE_BLE_START then Some
        (with_program_string (\<lambda>s. host_call (h_command H (ServiceBleStart s))))
      else if b = BUILTIN_SERVICE_BLE_STOP then Some (host_call (h_command H ServiceBleStop))
      else if b = BUILTIN_SERVICE_HTTP_START then Some
        (with_program_string (\<lambda>s. host_call (h_command H (ServiceHttpStart s))))
      else if b = BUILTIN_SERVICE_HTTP_STOP then Some (host_call (h_command H ServiceHttpStop))
      else if b = BUILTIN_SERVICE_POWER_SLEEP then Some
        (bind_exec pop_i32 (\<lambda>ms. host_call (h_command H (ServicePowerSleep ms))))
      else None)"

definition app_exit_builtin :: "'h host \<Rightarrow> ('h, unit) vm_exec" where
  "app_exit_builtin H =
     bind_exec (host_call (h_command H ServiceWifiTeardown)) (\<lambda>_.
     bind_exec (vm_modify (\<lambda>m. m\<lparr>vm_exited := True\<rparr>)) (\<lambda>_. notify H (Trace (lit ''app.exit''))))"

definition app_builtin :: "'h host \<Rightarrow> u8 \<Rightarrow> ('h, unit) vm_exec option" where
  "app_builtin H b =
     (if b = BUILTIN_APP_LAUNCH then Some (app_command H AppLaunch)
      else if b = BUILTIN_APP_ARM then Some (app_command H AppArm)
      else if b = BUILTIN_APP_DISARM then Some (app_command H AppDisarm)
      else if b = BUILTIN_APP_INSTALL then Some
        (bind_exec vm_pop (\<lambda>file_ref.
         bind_exec vm_pop (\<lambda>app.
         bind_exec (resolve file_ref) (\<lambda>file.
         bind_exec (resolve app) (\<lambda>app_id.
           push_result (host_call (h_app_install H file (Some app_id))) app_install_record)))))
      else if b = BUILTIN_APP_INSTALL_METADATA then Some
        (bind_exec vm_pop (\<lambda>file_ref.
         bind_exec (resolve file_ref) (\<lambda>file.
           push_result (host_call (h_app_install H file None)) app_install_record)))
      else if b = BUILTIN_APP_REGISTRY_LIST then Some
        (push_result (host_call (h_app_registry_list H))
          (list_of (\<lambda>app. runtime_string_value (Some (str_bytes (re_id app))))))
      else if b = BUILTIN_APP_REGISTRY_GET then Some
        (bind_exec pop_i32 (\<lambda>index.
         bind_exec pop_list (\<lambda>list_id.
         bind_exec (vm_res_of (\<lambda>m. lists_get (vm_lists m) list_id index)) (\<lambda>v.
         bind_exec (resolve v) (\<lambda>app_id.
           push_result (host_call (h_app_registry_get H app_id)) app_registry_record)))))
      else if b = BUILTIN_APP_PROCESS_STACK then Some
        (push_result (host_call (h_app_process_stack H))
          (list_of (\<lambda>app. runtime_string_value (Some (str_bytes app)))))
      else if b = BUILTIN_APP_ARMED_STACK then Some
        (push_result (host_call (h_app_armed_stack H)) (list_of app_armed_stack_record))
      else if b = BUILTIN_APP_ARMED_STACK_GET then Some
        (bind_exec pop_i32 (\<lambda>index.
         bind_exec pop_list (\<lambda>list_id.
         bind_exec (vm_res_of (\<lambda>m. lists_get (vm_lists m) list_id index)) vm_push)))
      else None)"

definition wifi_builtin :: "'h host \<Rightarrow> u8 \<Rightarrow> ('h, unit) vm_exec option" where
  "wifi_builtin H b =
     (if b = BUILTIN_SERVICE_WIFI_START_AP then Some
        (push_result (with_program_string (\<lambda>ssid. host_call (h_wifi H (WifiStartAp ssid)))) wifi_operation_record)
      else if b = BUILTIN_SERVICE_WIFI_STOP_AP then Some
        (push_result (host_call (h_wifi H WifiStopAp)) wifi_operation_record)
      else if b = BUILTIN_SERVICE_WIFI_CONNECT then Some
        (push_result (with_program_string (\<lambda>p. host_call (h_wifi H (WifiConnect p)))) wifi_operation_record)
      else if b = BUILTIN_SERVICE_WIFI_DISCONNECT then Some
        (push_result (host_call (h_wifi H WifiDisconnect)) wifi_operation_record)
      else if b = BUILTIN_SERVICE_WIFI_STATUS then Some
        (push_result (host_call (h_wifi_status H)) wifi_status_record)
      else if b = BUILTIN_SERVICE_WIFI_GET_AP_IP then Some
        (push_result (host_call (h_wifi_get_ap_ip H)) wifi_ap_ip_record)
      else if b = BUILTIN_SERVICE_WIFI_SCAN then Some
        (push_result (host_call (h_wifi H WifiScan)) wifi_operation_record)
      else if b = BUILTIN_SERVICE_WIFI_OPERATION then Some
        (push_result (host_call (h_wifi H WifiOperationPoll)) wifi_operation_record)
      else if b = BUILTIN_SERVICE_WIFI_RESULT then Some
        (push_result (host_call (h_wifi_result H)) wifi_operation_result_record)
      else if b = BUILTIN_SERVICE_WIFI_CANCEL then Some
        (push_result (host_call (h_wifi H WifiCancel)) wifi_operation_record)
      else if b = BUILTIN_SERVICE_WIFI_SCAN_NETWORK then Some
        (push_result (bind_exec pop_i32 (\<lambda>i. host_call (h_wifi_scan_network H i))) wifi_scan_network_record)
      else None)"

definition config_builtin :: "'h host \<Rightarrow> u8 \<Rightarrow> ('h, unit) vm_exec option" where
  "config_builtin H b =
     (if b = BUILTIN_DEVICE_CONFIG_LOAD then Some
        (push_result (with_program_string (\<lambda>s. host_call (h_config H (ConfigLoad s)))) device_config_result_record)
      else if b = BUILTIN_DEVICE_CONFIG_SET then Some
        (bind_exec vm_pop (\<lambda>v.
         bind_exec pop_sqbc_string_id (\<lambda>key_id.
         bind_exec (vm_gets vm_resolver) (\<lambda>strings.
         bind_exec (program_str key_id) (\<lambda>key.
           push_result (host_call (h_config H (ConfigSet key v strings))) device_config_result_record)))))
      else if b = BUILTIN_DEVICE_CONFIG_REBIND then Some
        (push_result (with_program_string (\<lambda>s. host_call (h_config H (ConfigRebind s)))) device_config_result_record)
      else if b = BUILTIN_DEVICE_CONFIG_SAVE then Some
        (push_result (with_program_string (\<lambda>s. host_call (h_config H (ConfigSave s)))) device_config_result_record)
      else None)"

definition binbook_builtin :: "'h host \<Rightarrow> u8 \<Rightarrow> ('h, unit) vm_exec option" where
  "binbook_builtin H b =
     (if b = BUILTIN_BINBOOK_OPEN then Some
        (bind_exec vm_pop (\<lambda>path. bind_exec (resolve path) (\<lambda>s.
           push_result (host_call (h_binbook_open H s)) binbook_open_record)))
      else if b = BUILTIN_BINBOOK_INFO then Some
        (bind_exec pop_handle (\<lambda>book. push_result (host_call (h_binbook_info H book)) binbook_info_record))
      else if b = BUILTIN_BINBOOK_READ_PAGE then Some
        (bind_exec pop_i32 (\<lambda>page_index. bind_exec pop_handle (\<lambda>book.
           push_result (host_call (h_binbook_read_page H book page_index)) binbook_read_page_record)))
      else if b = BUILTIN_BINBOOK_CHAPTERS then Some
        (bind_exec pop_i32 (\<lambda>limit. bind_exec pop_i32 (\<lambda>offset. bind_exec pop_handle (\<lambda>book.
           push_result (host_call (h_binbook_chapters H book offset limit)) binbook_chapter_list_record))))
      else if b = BUILTIN_BINBOOK_CHAPTER then Some
        (bind_exec pop_i32 (\<lambda>index. bind_exec pop_handle (\<lambda>book.
           push_result (host_call (h_binbook_chapter H book index)) binbook_chapter_result_record)))
      else if b = BUILTIN_CONTENT_BINBOOK_LIST then Some
        (bind_exec pop_i32 (\<lambda>limit. bind_exec pop_i32 (\<lambda>offset.
           push_result (with_program_string (\<lambda>library. host_call (h_content_binbook_list H library offset limit)))
             content_binbook_list_record)))
      else None)"

definition file_builtin :: "'h host \<Rightarrow> u8 \<Rightarrow> ('h, unit) vm_exec option" where
  "file_builtin H b =
     (if b = BUILTIN_FILE_PICK_FILE then Some
        (push_result (with_program_string (\<lambda>ext. host_call (h_file_pick_file H ext))) file_pick_file_result_record)
      else if b = BUILTIN_FILE_READ_TEXT then Some
        (push_result (with_program_string (\<lambda>path. host_call (h_file_read_text H path))) file_read_text_result_record)
      else if b = BUILTIN_FILE_READ_LINES then Some
        (bind_exec pop_i32 (\<lambda>max_lines.
           push_result (with_program_string (\<lambda>path. host_call (h_file_read_lines H path max_lines)))
             file_read_lines_result_record))
      else if b = BUILTIN_FILE_COPY then Some
        (bind_exec vm_pop (\<lambda>name. bind_exec vm_pop (\<lambda>library. bind_exec vm_pop (\<lambda>source.
         bind_exec (resolve source) (\<lambda>source. bind_exec (resolve library) (\<lambda>library.
         bind_exec (resolve name) (\<lambda>name.
           push_result (host_call (h_file_copy H source library name)) file_copy_result_record)))))))
      else None)"

text \<open>
  The host writes into a fresh \<open>FixedString\<close>; a write that does not fit is refused to the
  host, which may go on.
\<close>

fun fixed_writes :: "ustr list \<Rightarrow> fixed_string \<Rightarrow> fixed_string" where
  "fixed_writes [] f = f"
| "fixed_writes (s # ss) f = fixed_writes ss (snd (fixed_write (str_bytes s) f))"

definition host_text :: "'h host \<Rightarrow> text_query \<Rightarrow> ('h, rstr) vm_exec" where
  "host_text H q s =
     (case h_text H q (snd s) of
        (Inl e, _, h) \<Rightarrow> (Inl (Err e), (fst s, h))
      | (Inr (), writes, h) \<Rightarrow> (fixed_as_str (fixed_writes writes new_fixed), (fst s, h)))"

definition push_text :: "'h host \<Rightarrow> text_query \<Rightarrow> ('h, unit) vm_exec" where
  "push_text H q = push_result (host_text H q) (\<lambda>s. runtime_string_value (Some s))"

definition system_builtin :: "'h host \<Rightarrow> u8 \<Rightarrow> ('h, unit) vm_exec option" where
  "system_builtin H b =
     (if b = BUILTIN_SYSTEM_MEMORY then Some (push_text H SystemMemoryText)
      else if b = BUILTIN_SYSTEM_STORAGE then Some
        (with_program_string (\<lambda>name. push_text H (SystemStorageText name)))
      else if b = BUILTIN_SYSTEM_START_REASON then Some (push_text H SystemStartReasonText)
      else None)"

definition debug_print_builtin :: "'h host \<Rightarrow> u8 \<Rightarrow> ('h, unit) vm_exec" where
  "debug_print_builtin H arg_count =
     bind_exec (vm_gets (\<lambda>m. (vm_stack_len m, vm_stack m, vm_resolver m))) (\<lambda>(n, stack, strings).
       let count = unat arg_count in
       if count > n then throw StackUnderflow else
       bind_exec (lift (case get_range stack (n - count) n of None \<Rightarrow> Inl Panic | Some vs \<Rightarrow> Inr vs)) (\<lambda>vs.
       bind_exec (notify H (DebugPrint strings vs)) (\<lambda>_.
         vm_modify (\<lambda>m. m\<lparr>vm_stack_len := n - count\<rparr>))))"

fun first_some :: "'a option list \<Rightarrow> 'a option" where
  "first_some [] = None"
| "first_some (None # rest) = first_some rest"
| "first_some (Some x # rest) = Some x"

definition call_builtin :: "'h host \<Rightarrow> u8 \<Rightarrow> u8 \<Rightarrow> ('h, unit) vm_exec" where
  "call_builtin H b arg_count =
     (if b \<in> set [BUILTIN_STATE_LOAD, BUILTIN_STATE_SAVE, BUILTIN_STATE_RESET, BUILTIN_SCREEN_OPEN,
                  BUILTIN_SCREEN_REFRESH]
      then throw InvalidOperand
      else if b = BUILTIN_APP_EXIT then app_exit_builtin H
      else if b = BUILTIN_DEBUG_PRINT then debug_print_builtin H arg_count
      else case first_some [display_builtin H b, device_builtin H b, app_builtin H b, service_builtin H b, wifi_builtin H b,
               config_builtin H b, binbook_builtin H b, file_builtin H b, system_builtin H b] of
             None \<Rightarrow> throw InvalidOperand
           | Some m \<Rightarrow> m)"

text \<open>The saved-state record is encoded into \<open>self.storage_bytes\<close>.\<close>

definition encode_live_state :: "('h, u8 list \<times> nat) vm_exec" where
  "encode_live_state s =
     (case s of (m, h) \<Rightarrow>
        let n = tb_state_count (vm_index m) in
        if n > length (tb_state_slots (vm_index m)) \<or> n > length (vm_state m) then (Inl Panic, s) else
        (case encode_state_record (index_table (vm_index m)) (vm_strings m) (live_state_slots m)
                (take n (vm_state m)) (vm_storage_bytes m) of
           Inl e \<Rightarrow> (Inl e, s)
         | Inr (out, len) \<Rightarrow> (Inr (out, len), (m\<lparr>vm_storage_bytes := out\<rparr>, h))))"

text \<open>State builtins suspend the VM with a storage request.\<close>

definition call_builtin_resumable :: "'h host \<Rightarrow> u8 \<Rightarrow> u8 \<Rightarrow> ('h, storage_request option) vm_exec" where
  "call_builtin_resumable H b arg_count =
     (if b = BUILTIN_STATE_LOAD then ret (Some StateLoad)
      else if b = BUILTIN_STATE_SAVE then
        bind_exec encode_live_state (\<lambda>(out, len).
        bind_exec (lift (slice_to out len)) (\<lambda>bytes.
        bind_exec (lift (request_state_save bytes)) (\<lambda>request. ret (Some request))))
      else if b = BUILTIN_STATE_RESET then bind_exec reset_state (\<lambda>_. ret (Some StateReset))
      else bind_exec (call_builtin H b arg_count) (\<lambda>_. ret None))"

section \<open>What a builtin leaves alone\<close>

text \<open>
  The control part of the VM: everything but the strings, records, lists, the operand stack
  and the exit flag.  No builtin changes it.
\<close>

definition vm_control where
  "vm_control m = (vm_index m, vm_state m, vm_current_screen m, vm_instructions m, vm_cache m,
     vm_code m, vm_storage_bytes m, vm_code_start m, vm_code_len m, vm_frames m, vm_frame_count m)"

lemma vm_control_updates [simp]:
  "vm_control (m\<lparr>vm_strings := a\<rparr>) = vm_control m"
  "vm_control (m\<lparr>vm_records := b\<rparr>) = vm_control m"
  "vm_control (m\<lparr>vm_lists := d\<rparr>) = vm_control m"
  "vm_control (m\<lparr>vm_stack := e\<rparr>) = vm_control m"
  "vm_control (m\<lparr>vm_stack_len := k\<rparr>) = vm_control m"
  "vm_control (m\<lparr>vm_exited := x\<rparr>) = vm_control m"
  by (simp_all add: vm_control_def)

abbreviation control_is where
  "control_is c s \<equiv> vm_control (fst s) = c"

named_theorems control_kept

lemma control_primitives [control_kept]:
  "keeps (control_is c) (vm_gets f)"
  "keeps (control_is c) (vm_res_of g)"
  "keeps (control_is c) (on_strings h)"
  "keeps (control_is c) (on_records r)"
  "keeps (control_is c) (on_lists l)"
  "keeps (control_is c) (host_call k)"
  "keeps (control_is c) (notify H n)"
  "keeps (control_is c) (vm_push v)"
  "keeps (control_is c) vm_pop"
  unfolding keeps_def
  by (simp_all add: vm_gets_def vm_res_of_def on_strings_def on_records_def on_lists_def host_call_def
      notify_def vm_push_def vm_pop_def Let_def split: prod.splits sum.splits)

lemma control_host_text [control_kept]: "keeps (control_is c) (host_text H q)"
  by (rule keepsI) (simp add: host_text_def split: prod.splits sum.splits old.unit.splits)

lemma keeps_case_value [keeps_intros]:
  assumes "keeps P n" and "\<And>i. keeps P (fi i)" and "\<And>b. keeps P (fb b)" and "\<And>r. keeps P (fs r)"
    and "\<And>k. keeps P (fr k)" and "\<And>k. keeps P (fl k)" and "\<And>k. keeps P (fh k)"
  shows "keeps P (case v of VNull \<Rightarrow> n | VI32 i \<Rightarrow> fi i | VBool b \<Rightarrow> fb b | VString r \<Rightarrow> fs r
    | VRecord k \<Rightarrow> fr k | VList k \<Rightarrow> fl k | VHandle k \<Rightarrow> fh k)"
  using assms by (cases v) simp_all

lemma keeps_case_string_ref [keeps_intros]:
  assumes "\<And>i. keeps P (fq i)" and "\<And>i. keeps P (fs i)" and "\<And>i. keeps P (fd i)"
  shows "keeps P (case v of Sqbc i \<Rightarrow> fq i | Static i \<Rightarrow> fs i | Dynamic i \<Rightarrow> fd i)"
  using assms by (cases v) simp_all

lemma keeps_case_prod [keeps_intros]:
  "(\<And>a b. x = (a, b) \<Longrightarrow> keeps P (f a b)) \<Longrightarrow> keeps P (case x of (a, b) \<Rightarrow> f a b)"
  by (cases x) simp

lemma keeps_Let [keeps_intros]: "(\<And>x. x = e \<Longrightarrow> keeps P (f x)) \<Longrightarrow> keeps P (let x = e in f x)"
  by simp

lemma control_pops [control_kept]:
  "keeps (control_is c) pop_i32"
  "keeps (control_is c) pop_optional_string"
  "keeps (control_is c) pop_optional_i32"
  "keeps (control_is c) pop_optional_display_color"
  "keeps (control_is c) pop_sqbc_string_id"
  "keeps (control_is c) pop_handle"
  "keeps (control_is c) pop_bool"
  "keeps (control_is c) pop_list"
  "keeps (control_is c) (resolve v)"
  "keeps (control_is c) (program_str sid)"
  "keeps (control_is c) (runtime_string_value value)"
  "keeps (control_is c) (vm_materialize v)"
  unfolding pop_i32_def pop_optional_string_def pop_optional_i32_def pop_optional_display_color_def
    pop_sqbc_string_id_def pop_handle_def pop_bool_def pop_list_def resolve_def program_str_def
    runtime_string_value_def vm_materialize_def
  by (intro keeps_intros control_kept)+

lemma keeps_exec_map: "(\<And>x. keeps P (f x)) \<Longrightarrow> keeps P (exec_map f xs)"
  by (induction xs) (auto intro!: keeps_intros)

lemma control_list_of [control_kept]:
  "(\<And>x. keeps (control_is c) (f x)) \<Longrightarrow> keeps (control_is c) (list_of f xs)"
  unfolding list_of_def by (intro keeps_intros control_kept keeps_exec_map)

lemma control_records [control_kept]:
  "keeps (control_is c) (wifi_operation_record r1)"
  "keeps (control_is c) (wifi_operation_result_record r2)"
  "keeps (control_is c) (device_config_result_record r3)"
  "keeps (control_is c) (file_pick_file_result_record r4)"
  "keeps (control_is c) (file_read_text_result_record r5)"
  "keeps (control_is c) (file_copy_result_record r6)"
  "keeps (control_is c) (binbook_open_record r7)"
  "keeps (control_is c) (binbook_info_record r8)"
  "keeps (control_is c) (binbook_read_page_record r9)"
  "keeps (control_is c) (binbook_chapter_entry_record r10)"
  "keeps (control_is c) (content_binbook_entry_record r11)"
  "keeps (control_is c) (display_info_record r12)"
  "keeps (control_is c) (app_registry_record r13)"
  "keeps (control_is c) (app_armed_stack_record r14)"
  "keeps (control_is c) (wifi_status_record r15)"
  "keeps (control_is c) (wifi_ap_ip_record r16)"
  "keeps (control_is c) (app_install_record r17)"
  unfolding wifi_operation_record_def wifi_operation_result_record_def device_config_result_record_def
    file_pick_file_result_record_def file_read_text_result_record_def file_copy_result_record_def
    binbook_open_record_def binbook_info_record_def binbook_read_page_record_def
    binbook_chapter_entry_record_def content_binbook_entry_record_def display_info_record_def
    app_registry_record_def app_armed_stack_record_def wifi_status_record_def wifi_ap_ip_record_def
    app_install_record_def
  by (intro keeps_intros control_kept)+

lemma control_list_records [control_kept]:
  "keeps (control_is c) (file_read_lines_result_record r1)"
  "keeps (control_is c) (binbook_chapter_list_record r2)"
  "keeps (control_is c) (binbook_chapter_result_record r3)"
  "keeps (control_is c) (content_binbook_list_record r4)"
  "keeps (control_is c) (wifi_scan_network_record r5)"
  unfolding file_read_lines_result_record_def binbook_chapter_list_record_def
    binbook_chapter_result_record_def content_binbook_list_record_def wifi_scan_network_record_def
  by (intro keeps_intros control_kept)+

lemma control_helpers [control_kept]:
  "keeps (control_is c) (app_command H k)"
  "keeps (control_is c) (optional_program_str sid)"
  "keeps (control_is c) pop_resource_options"
  "keeps (control_is c) (display_text_builtin H)"
  "keeps (control_is c) (push_text H q)"
  unfolding app_command_def optional_program_str_def pop_resource_options_def display_text_builtin_def
    push_text_def push_result_def
  by (intro keeps_intros control_kept)+

lemma control_combinators [control_kept]:
  "keeps (control_is c) m \<Longrightarrow> (\<And>r. keeps (control_is c) (f r)) \<Longrightarrow> keeps (control_is c) (push_result m f)"
  "(\<And>s. keeps (control_is c) (g s)) \<Longrightarrow> keeps (control_is c) (with_program_string g)"
  unfolding push_result_def with_program_string_def
  by (intro keeps_intros control_kept; simp)+

text \<open>The groups: each arm of a group is a method that keeps the control part.\<close>

definition every_arm :: "(('h, unit) vm_exec \<Rightarrow> bool) \<Rightarrow> ('h, unit) vm_exec option \<Rightarrow> bool" where
  "every_arm Q g \<longleftrightarrow> (case g of None \<Rightarrow> True | Some m \<Rightarrow> Q m)"

named_theorems every_arm_intros

lemma every_arm_basic [every_arm_intros]: "every_arm Q None" "Q m \<Longrightarrow> every_arm Q (Some m)"
  by (simp_all add: every_arm_def)

lemma every_arm_if [every_arm_intros]:
  "every_arm Q g \<Longrightarrow> every_arm Q g' \<Longrightarrow> every_arm Q (if b then g else g')"
  by simp

lemma control_exit [control_kept]: "keeps (control_is c) (vm_modify (\<lambda>m. m\<lparr>vm_exited := True\<rparr>))"
  "keeps (control_is c) (vm_modify (\<lambda>m. m\<lparr>vm_stack_len := k\<rparr>))"
  by (simp_all add: keeps_def vm_modify_def)

lemma control_display: "every_arm (keeps (control_is c)) (display_builtin H b)"
  unfolding display_builtin_def by (intro every_arm_intros keeps_intros control_kept)

lemma control_device: "every_arm (keeps (control_is c)) (device_builtin H b)"
  unfolding device_builtin_def by (intro every_arm_intros keeps_intros control_kept)

lemma control_service: "every_arm (keeps (control_is c)) (service_builtin H b)"
  unfolding service_builtin_def by (intro every_arm_intros keeps_intros control_kept)

lemma control_app_exit [control_kept]: "keeps (control_is c) (app_exit_builtin H)"
  unfolding app_exit_builtin_def by (intro keeps_intros control_kept)

lemma control_app: "every_arm (keeps (control_is c)) (app_builtin H b)"
  unfolding app_builtin_def by (intro every_arm_intros keeps_intros control_kept)

lemma control_wifi: "every_arm (keeps (control_is c)) (wifi_builtin H b)"
  unfolding wifi_builtin_def by (intro every_arm_intros keeps_intros control_kept)

lemma control_config: "every_arm (keeps (control_is c)) (config_builtin H b)"
  unfolding config_builtin_def by (intro every_arm_intros keeps_intros control_kept)

lemma control_binbook: "every_arm (keeps (control_is c)) (binbook_builtin H b)"
  unfolding binbook_builtin_def by (intro every_arm_intros keeps_intros control_kept)

lemma control_file: "every_arm (keeps (control_is c)) (file_builtin H b)"
  unfolding file_builtin_def by (intro every_arm_intros keeps_intros control_kept)

lemma control_system: "every_arm (keeps (control_is c)) (system_builtin H b)"
  unfolding system_builtin_def by (intro every_arm_intros keeps_intros control_kept)

lemma control_debug_print [control_kept]: "keeps (control_is c) (debug_print_builtin H n)"
  unfolding debug_print_builtin_def by (intro keeps_intros control_kept)

lemma first_some_cases:
  "first_some gs = None \<or> (\<exists>m. first_some gs = Some m \<and> Some m \<in> set gs)"
  by (induction gs rule: first_some.induct) auto

lemma every_arm_first_some:
  assumes "list_all (every_arm Q) gs" and "first_some gs = Some m"
  shows "Q m"
  using assms first_some_cases [of gs] by (auto simp: every_arm_def list_all_iff split: option.splits)

lemma call_builtin_control [control_kept]: "keeps (control_is c) (call_builtin H b n)"
proof -
  have groups: "list_all (every_arm (keeps (control_is c))) [display_builtin H b, device_builtin H b,
      app_builtin H b, service_builtin H b, wifi_builtin H b, config_builtin H b, binbook_builtin H b, file_builtin H b,
      system_builtin H b]"
    by (simp add: control_display control_device control_app control_service control_wifi control_config
        control_binbook control_file control_system)
  show ?thesis
    unfolding call_builtin_def
    by (intro keeps_intros control_kept every_arm_first_some [OF groups])
qed

end
