(* ===== verification/Vm_Exec.thy ===== *)
theory Vm_Exec
  imports Vm_Builtins
begin

text \<open>
  The interpreter (\<open>squidvm-core/src/vm.rs\<close>): one turn of the loop of
  \<open>execute_resume_frames\<close> is \<open>exec_step\<close>; it completes the top frame, suspends it for a
  deferred read of its chunk, or charges the budget and executes one opcode.  \<open>i32\<close>
  addition and subtraction wrap, as in a release build.  The lemmas at the end show that
  nothing but the charge changes the instruction counter.
\<close>

section \<open>One turn of the loop\<close>

text \<open>How a turn ends: the loop goes on, or the dispatch returns.\<close>

datatype turn = Continue | Return vm_dispatch

definition frame_ip :: "nat \<Rightarrow> ('h, nat) vm_exec" where
  "frame_ip i = bind_exec (frame_at i) (\<lambda>f. ret (fr_ip f))"

definition advance :: "nat \<Rightarrow> nat \<Rightarrow> ('h, unit) vm_exec" where
  "advance i n = set_frame i (\<lambda>f. f\<lparr>fr_ip := fr_ip f + n\<rparr>)"

text \<open>An operand is read at the frame's instruction pointer, which then moves past it.\<close>

definition operand :: "nat \<Rightarrow> (vm \<Rightarrow> nat \<Rightarrow> 'a vm_res) \<Rightarrow> nat \<Rightarrow> ('h, 'a) vm_exec" where
  "operand i rd width =
     bind_exec (frame_ip i) (\<lambda>ip.
     bind_exec (vm_res_of (\<lambda>m. rd m ip)) (\<lambda>v.
     bind_exec (advance i width) (\<lambda>_. ret v)))"

definition add_values :: "vm_value \<Rightarrow> vm_value \<Rightarrow> ('h, vm_value) vm_exec" where
  "add_values left right =
     (case (left, right) of
        (VI32 a, VI32 b) \<Rightarrow> ret (VI32 (a + b))
      | _ \<Rightarrow>
          if is_string left \<and> is_string right then
            bind_exec (vm_res_of (\<lambda>m. concat_value_strings (index_table (vm_index m)) (vm_strings m) left right))
              (\<lambda>bytes.
            bind_exec (lift (ok_or InvalidUtf8 (from_utf8 bytes))) (\<lambda>s.
              runtime_string_value (Some s)))
          else throw InvalidOperand)"

definition compare_i32 :: "(int \<Rightarrow> int \<Rightarrow> bool) \<Rightarrow> vm_value \<Rightarrow> vm_value \<Rightarrow> vm_value vm_res" where
  "compare_i32 f left right =
     and_then (expect_i32 left) (\<lambda>a. and_then (expect_i32 right) (\<lambda>b. Inr (VBool (f (sint a) (sint b)))))"

definition binary_op :: "u8 \<Rightarrow> ('h, unit) vm_exec" where
  "binary_op op =
     bind_exec vm_pop (\<lambda>right.
     bind_exec vm_pop (\<lambda>left.
     bind_exec
       (if op = OP_ADD then add_values left right
        else if op = OP_SUB then
          lift (and_then (expect_i32 left) (\<lambda>a. and_then (expect_i32 right) (\<lambda>b. Inr (VI32 (a - b)))))
        else if op = OP_EQ then
          vm_res_of (\<lambda>m. and_then (values_equal (index_table (vm_index m)) (vm_strings m) left right)
            (\<lambda>b. Inr (VBool b)))
        else if op = OP_NE then
          vm_res_of (\<lambda>m. and_then (values_equal (index_table (vm_index m)) (vm_strings m) left right)
            (\<lambda>b. Inr (VBool (\<not> b))))
        else if op = OP_LT then lift (compare_i32 (<) left right)
        else if op = OP_LTE then lift (compare_i32 (\<le>) left right)
        else if op = OP_GT then lift (compare_i32 (>) left right)
        else if op = OP_GTE then lift (compare_i32 (\<ge>) left right)
        else throw UnknownOpcode) vm_push))"

definition go_on :: "('h, unit) vm_exec \<Rightarrow> ('h, turn) vm_exec" where
  "go_on m = bind_exec m (\<lambda>_. ret Continue)"

definition set_state_op :: "nat \<Rightarrow> ('h, unit) vm_exec" where
  "set_state_op i =
     bind_exec (operand i read_u16_code 2) (\<lambda>w.
     let state = unat w in
     bind_exec vm_pop (\<lambda>v.
     bind_exec (vm_materialize v) (\<lambda>v.
     bind_exec (vm_gets vm_index) (\<lambda>x.
     bind_exec (lift (ok_or StateOutOfBounds (get_at (tb_state_slots x) state))) (\<lambda>slot.
       if state \<ge> tb_state_count x \<or>
          \<not> state_value_matches (st_tag (s_type slot)) (st_nullable (s_type slot)) v
       then throw InvalidOperand else
     bind_exec (vm_res_of (\<lambda>m. ok_or StateOutOfBounds (get_at (vm_state m) state))) (\<lambda>_.
       vm_modify (\<lambda>m. m\<lparr>vm_state := (vm_state m)[state := v]\<rparr>)))))))"

definition get_field_op :: "nat \<Rightarrow> ('h, unit) vm_exec" where
  "get_field_op i =
     bind_exec (operand i read_u16_code 2) (\<lambda>field_id.
     bind_exec vm_pop (\<lambda>target.
     bind_exec (program_str field_id) (\<lambda>field.
     bind_exec (case target of
         VRecord record_id \<Rightarrow> vm_res_of (\<lambda>m. records_field (vm_records m) record_id field)
       | _ \<Rightarrow> throw InvalidOperand) vm_push)))"

definition jump_to :: "nat \<Rightarrow> nat \<Rightarrow> ('h, unit) vm_exec" where
  "jump_to i target =
     bind_exec (frame_at i) (\<lambda>f.
       if target > fr_end f then throw InvalidJump else set_frame i (\<lambda>f. f\<lparr>fr_ip := target\<rparr>))"

definition jump_if_false_op :: "nat \<Rightarrow> ('h, unit) vm_exec" where
  "jump_if_false_op i =
     bind_exec (operand i read_u32_code 4) (\<lambda>target.
     bind_exec vm_pop (\<lambda>v. if truthy v then ret () else jump_to i (unat target)))"

text \<open>The arguments are popped last first into the locals of the new frame.\<close>

fun pop_args :: "nat \<Rightarrow> nat \<Rightarrow> ('h, unit) vm_exec" where
  "pop_args child 0 = ret ()"
| "pop_args child (Suc n) =
     bind_exec vm_pop (\<lambda>v.
     bind_exec (frame_at child) (\<lambda>f.
     bind_exec (lift (if n < length (fr_locals f) then Inr () else Inl Panic)) (\<lambda>_.
     bind_exec (set_frame child (\<lambda>f. f\<lparr>fr_locals := (fr_locals f)[n := v]\<rparr>)) (\<lambda>_.
       pop_args child n))))"

definition call_function_op :: "nat \<Rightarrow> ('h, unit) vm_exec" where
  "call_function_op i =
     bind_exec (operand i read_u16_code 2) (\<lambda>w.
     bind_exec (operand i read_u16_code 2) (\<lambda>a.
     let function_id = unat w; arg_count = unat a in
     bind_exec (vm_gets vm_index) (\<lambda>x.
     bind_exec (lift (ok_or FunctionOutOfBounds (get_at (tb_functions x) function_id))) (\<lambda>f.
       if function_id \<ge> tb_function_count x \<or> arg_count \<noteq> unat (f_param_count f)
       then throw FunctionOutOfBounds
       else if unat (f_local_count f) > MAX_LOCALS then throw LocalOutOfBounds else
     bind_exec (vm_gets vm_stack_len) (\<lambda>depth_of_stack.
       if arg_count > depth_of_stack then throw StackUnderflow else
       let key = \<lparr>c_app = 0, c_kind = FunctionChunk, c_index = of_nat function_id\<rparr> in
     bind_exec (on_cache (cache_insert key False)) (\<lambda>_.
     bind_exec (on_cache (begin_execute key)) (\<lambda>_.
     bind_exec (frame_at i) (\<lambda>caller.
     bind_exec (push_resume_frame (FunctionFrame (of_nat function_id)) (f_start f) (f_len f)
         (fr_depth caller + 1)) (\<lambda>child. pop_args child arg_count)))))))))"

definition pending_of :: "storage_request \<Rightarrow> pending_storage" where
  "pending_of request =
     (case request of
        StateLoad \<Rightarrow> PendingStateLoad
      | StateSave _ \<Rightarrow> PendingStateSave
      | StateReset \<Rightarrow> PendingStateReset
      | SqbcRead _ _ \<Rightarrow> NoPending)"

definition call_builtin_op :: "'h host \<Rightarrow> nat \<Rightarrow> ('h, turn) vm_exec" where
  "call_builtin_op H i =
     bind_exec (operand i code_byte 1) (\<lambda>builtin.
     bind_exec (if builtin = BUILTIN_DEBUG_PRINT then operand i code_byte 1 else ret 0) (\<lambda>arg_count.
       if builtin = BUILTIN_SCREEN_OPEN then
         bind_exec pop_sqbc_string_id (\<lambda>name_id.
         bind_exec (vm_modify (\<lambda>m. m\<lparr>vm_current_screen := Some name_id\<rparr>)) (\<lambda>_.
         bind_exec (frame_at i) (\<lambda>f.
           go_on (push_screen_resume_frame name_id (fr_depth f + 1)))))
       else if builtin = BUILTIN_SCREEN_REFRESH then
         bind_exec (vm_res_of (\<lambda>m. ok_or InvalidOperand (vm_current_screen m))) (\<lambda>screen_id.
         bind_exec (frame_at i) (\<lambda>f.
           go_on (push_screen_resume_frame screen_id (fr_depth f + 1))))
       else
         bind_exec (call_builtin_resumable H builtin arg_count) (\<lambda>request.
           case request of
             None \<Rightarrow> ret Continue
           | Some r \<Rightarrow>
               bind_exec (set_frame i (\<lambda>f. f\<lparr>fr_pending := pending_of r\<rparr>)) (\<lambda>_.
                 ret (Return (PendingStorage r))))))"

definition finish_frame :: "vm_value option \<Rightarrow> ('h, turn) vm_exec" where
  "finish_frame v =
     bind_exec (complete_resume_frame v) (\<lambda>_.
     bind_exec (vm_gets vm_frame_count) (\<lambda>count.
       ret (if count > 0 then Continue else Return Complete)))"

definition exec_op :: "'h host \<Rightarrow> nat \<Rightarrow> u8 \<Rightarrow> ('h, turn) vm_exec" where
  "exec_op H i op =
     (if op = OP_PUSH_INT then go_on (bind_exec (operand i read_i32_code 4) (\<lambda>v. vm_push (VI32 v)))
      else if op = OP_PUSH_BOOL then go_on (bind_exec (operand i code_byte 1) (\<lambda>v. vm_push (VBool (v \<noteq> 0))))
      else if op = OP_PUSH_STRING then
        go_on (bind_exec (operand i read_u16_code 2) (\<lambda>v. vm_push (VString (Sqbc v))))
      else if op = OP_PUSH_NULL then go_on (vm_push VNull)
      else if op = OP_GET_STATE then
        go_on (bind_exec (operand i read_u16_code 2) (\<lambda>w.
          bind_exec (vm_res_of (\<lambda>m. ok_or StateOutOfBounds (get_at (vm_state m) (unat w)))) vm_push))
      else if op = OP_SET_STATE then go_on (set_state_op i)
      else if op = OP_GET_LOCAL then
        go_on (bind_exec (operand i read_u16_code 2) (\<lambda>w.
          bind_exec (frame_at i) (\<lambda>f.
          bind_exec (lift (ok_or LocalOutOfBounds (get_at (fr_locals f) (unat w)))) vm_push)))
      else if op = OP_SET_LOCAL then
        go_on (bind_exec (operand i read_u16_code 2) (\<lambda>w.
          bind_exec vm_pop (\<lambda>v.
          bind_exec (frame_at i) (\<lambda>f.
          bind_exec (lift (ok_or LocalOutOfBounds (get_at (fr_locals f) (unat w)))) (\<lambda>_.
            set_frame i (\<lambda>f. f\<lparr>fr_locals := (fr_locals f)[unat w := v]\<rparr>))))))
      else if op = OP_GET_FIELD then go_on (get_field_op i)
      else if op \<in> set [OP_ADD, OP_SUB, OP_EQ, OP_NE, OP_LT, OP_LTE, OP_GT, OP_GTE] then go_on (binary_op op)
      else if op = OP_LIST_LEN then
        go_on (bind_exec pop_list (\<lambda>list_id.
          bind_exec (vm_res_of (\<lambda>m. lists_len (vm_lists m) list_id)) (\<lambda>n. vm_push (VI32 n))))
      else if op = OP_LIST_GET then
        go_on (bind_exec pop_i32 (\<lambda>index.
          bind_exec pop_list (\<lambda>list_id.
          bind_exec (vm_res_of (\<lambda>m. lists_get (vm_lists m) list_id index)) vm_push)))
      else if op = OP_JUMP then
        go_on (bind_exec (frame_ip i) (\<lambda>ip.
          bind_exec (vm_res_of (\<lambda>m. read_u32_code m ip)) (\<lambda>target. jump_to i (unat target))))
      else if op = OP_JUMP_IF_FALSE then go_on (jump_if_false_op i)
      else if op = OP_CALL_BUILTIN then call_builtin_op H i
      else if op = OP_CALL_FUNCTION then go_on (call_function_op i)
      else if op = OP_RETURN then bind_exec vm_pop (\<lambda>v. finish_frame (Some v))
      else if op = OP_HALT then finish_frame None
      else if op = OP_POP then go_on (bind_exec vm_pop (\<lambda>_. ret ()))
      else throw UnknownOpcode)"

text \<open>A deferred read of the chunk suspends the frame.\<close>

definition suspend_read :: "nat \<Rightarrow> storage_request \<Rightarrow> ('h, turn) vm_exec" where
  "suspend_read i r =
     (case r of
        SqbcRead offset len \<Rightarrow>
          bind_exec (set_frame i (\<lambda>f. f\<lparr>fr_pending := PendingRead offset len\<rparr>)) (\<lambda>_.
            ret (Return (PendingStorage r)))
      | _ \<Rightarrow> throw ReadFailed)"

text \<open>The budget is charged, the opcode fetched and executed.\<close>

definition execute_instruction :: "'h host \<Rightarrow> nat \<Rightarrow> nat \<Rightarrow> ('h, turn) vm_exec" where
  "execute_instruction H i ip =
     bind_exec (vm_modify (\<lambda>m. m\<lparr>vm_instructions := vm_instructions m + 1\<rparr>)) (\<lambda>_.
     bind_exec (vm_gets vm_instructions) (\<lambda>n.
       if n > MAX_INSTRUCTIONS_PER_EVENT then throw InstructionBudgetExceeded else
     bind_exec (vm_res_of (\<lambda>m. code_byte m ip)) (\<lambda>op.
     bind_exec (set_frame i (\<lambda>f. f\<lparr>fr_ip := ip + 1\<rparr>)) (\<lambda>_. exec_op H i op))))"

definition exec_step :: "'h host \<Rightarrow> ('h, turn) vm_exec" where
  "exec_step H =
     bind_exec (vm_gets vm_frame_count) (\<lambda>count.
       if count = 0 then ret (Return Complete) else
       let i = count - 1 in
     bind_exec (frame_at i) (\<lambda>f.
       if fr_ip f \<ge> fr_end f then finish_frame None else
     bind_exec (load_chunk_resumable H (fr_start f) (fr_end f - fr_start f)) (\<lambda>request.
       case request of
         Some r \<Rightarrow> suspend_read i r
       | None \<Rightarrow> execute_instruction H i (fr_ip f))))"

section \<open>The instruction counter\<close>

text \<open>No operation but the loop itself changes the instruction counter, and none the program.\<close>

abbreviation instr_is where
  "instr_is n s \<equiv> (vm_instructions (fst s), vm_index (fst s)) = n"

named_theorems instr_kept

lemma keeps_instr: "(\<And>c. keeps (control_is c) m) \<Longrightarrow> keeps (instr_is n) m"
  unfolding keeps_def vm_control_def by fastforce

lemma instr_parts [instr_kept]:
  "keeps (instr_is n) (vm_gets f)"
  "keeps (instr_is n) (vm_res_of g)"
  "keeps (instr_is n) (host_call k)"
  "keeps (instr_is n) (vm_push v)"
  "keeps (instr_is n) vm_pop"
  "keeps (instr_is n) pop_i32"
  "keeps (instr_is n) pop_list"
  "keeps (instr_is n) pop_sqbc_string_id"
  "keeps (instr_is n) (program_str sid)"
  "keeps (instr_is n) (vm_materialize v)"
  "keeps (instr_is n) (runtime_string_value s)"
  "keeps (instr_is n) (call_builtin H b a)"
  by (intro keeps_instr control_kept)+

lemma instr_primitives [instr_kept]:
  "keeps (instr_is n) (frame_at i)"
  "keeps (instr_is n) (set_frame i u)"
  "keeps (instr_is n) (on_cache c)"
  "keeps (instr_is n) reset_state"
  "keeps (instr_is n) (read_code H off len)"
  by (simp_all add: keeps_def frame_at_def vm_res_of_def set_frame_def on_cache_def vm_modify_def
      reset_state_def read_code_def Let_def split: prod.splits)

lemma instr_modify [instr_kept]:
  "keeps (instr_is n) (vm_modify (\<lambda>m. m\<lparr>vm_frame_count := f1 m\<rparr>))"
  "keeps (instr_is n) (vm_modify (\<lambda>m. m\<lparr>vm_current_screen := f2 m\<rparr>))"
  "keeps (instr_is n) (vm_modify (\<lambda>m. m\<lparr>vm_state := f3 m\<rparr>))"
  "keeps (instr_is n) (vm_modify (\<lambda>m. m\<lparr>vm_code_start := f4 m, vm_code_len := f5 m\<rparr>))"
  by (simp_all add: keeps_def vm_modify_def)

lemma instr_load [instr_kept]: "keeps (instr_is n) (load_chunk_resumable H start len)"
  unfolding load_chunk_resumable_def by (intro keeps_intros instr_kept)

lemma instr_frames [instr_kept]:
  "keeps (instr_is n) (push_resume_frame kind start len depth)"
  "keeps (instr_is n) (complete_resume_frame v)"
  unfolding push_resume_frame_def complete_resume_frame_def by (intro keeps_intros instr_kept)+

lemma instr_screen [instr_kept]: "keeps (instr_is n) (push_screen_resume_frame sid depth)"
  unfolding push_screen_resume_frame_def by (intro keeps_intros instr_kept)

lemma instr_pop_args [instr_kept]: "keeps (instr_is n) (pop_args child k)"
  by (induction k; simp only: pop_args.simps; intro keeps_intros instr_kept; assumption)

lemma instr_operand [instr_kept]: "keeps (instr_is n) (operand i rd w)" "keeps (instr_is n) (frame_ip i)"
  unfolding operand_def frame_ip_def advance_def by (intro keeps_intros instr_kept)+

lemma instr_encode [instr_kept]: "keeps (instr_is n) encode_live_state"
  by (simp add: keeps_def encode_live_state_def Let_def split: sum.splits prod.splits)

lemma instr_state_save [instr_kept]: "keeps (instr_is n) (call_builtin_resumable H b a)"
  unfolding call_builtin_resumable_def by (intro keeps_intros instr_kept)

lemma keeps_case_request [keeps_intros]:
  assumes "\<And>a b. keeps P (f a b)" and "\<And>x. keeps P (g x)" and "keeps P h" and "keeps P k"
  shows "keeps P (case r of SqbcRead a b \<Rightarrow> f a b | StateLoad \<Rightarrow> h | StateSave x \<Rightarrow> g x | StateReset \<Rightarrow> k)"
  using assms by (cases r) simp_all

lemma instr_ops [instr_kept]:
  "keeps (instr_is n) (add_values l r)"
  "keeps (instr_is n) (set_state_op i)"
  "keeps (instr_is n) (get_field_op i)"
  "keeps (instr_is n) (jump_to i t)"
  "keeps (instr_is n) (call_function_op i)"
  "keeps (instr_is n) (finish_frame v)"
  unfolding add_values_def set_state_op_def get_field_op_def jump_to_def call_function_op_def
    finish_frame_def by (intro keeps_intros instr_kept; simp?)+

lemma instr_ops2 [instr_kept]:
  "keeps (instr_is n) (binary_op op)"
  "keeps (instr_is n) (jump_if_false_op i)"
  "keeps (instr_is n) m \<Longrightarrow> keeps (instr_is n) (go_on m)"
  unfolding binary_op_def jump_if_false_op_def go_on_def by (intro keeps_intros instr_kept; simp?)+

lemma instr_call_builtin [instr_kept]: "keeps (instr_is n) (call_builtin_op H i)"
  unfolding call_builtin_op_def by (intro keeps_intros instr_kept)

lemma instr_exec_op [instr_kept]: "keeps (instr_is n) (exec_op H i op)"
  unfolding exec_op_def by (intro keeps_intros instr_kept)

end
