(* ===== verification/Vm_Dispatch.thy ===== *)
theory Vm_Dispatch
  imports Vm_Exec
begin

text \<open>
  Running an event (\<open>squidvm-core/src/vm.rs\<close>): the loop of \<open>execute_resume_frames\<close>, the
  entry points that start an event (\<open>dispatch_resumable_with_payload\<close>) or continue it after
  a storage request (\<open>resume_storage\<close>, \<open>resume_immediate_storage\<close>), \<open>dispatch\<close>, which
  serves the requests itself until the event ends, and \<open>Vm\<close>, which owns its program.

  Both loops are total functions for every host and every program: a turn of
  \<open>run_frames\<close> executes one of the at most 1000 instructions of an event or completes a
  frame; a storage request served by \<open>dispatch_loop\<close> is followed by an instruction.
\<close>

section \<open>The loop\<close>

lemma bind_vm_simps [simp]:
  "bind_exec (vm_gets f) k s = k (f (fst s)) s"
  "bind_exec (vm_modify g) k' s = k' () (g (fst s), snd s)"
  "i < length (vm_frames (fst s)) \<Longrightarrow> bind_exec (frame_at i) k'' s = k'' (vm_frames (fst s) ! i) s"
  by (simp_all add: bind_exec_def vm_gets_def vm_modify_def frame_at_def vm_res_of_def)

abbreviation top_frame :: "vm \<Rightarrow> resume_frame" where
  "top_frame m \<equiv> vm_frames m ! (vm_frame_count m - 1)"

text \<open>The next turn executes an instruction: the chunk of the top frame is the one loaded.\<close>

definition loaded_top :: "vm \<Rightarrow> bool" where
  "loaded_top m \<longleftrightarrow> 0 < vm_frame_count m \<and> fr_ip (top_frame m) < fr_end (top_frame m) \<and>
     vm_code_start m = fr_start (top_frame m) \<and>
     vm_code_len m = fr_end (top_frame m) - fr_start (top_frame m)"

text \<open>A storage request asks for the chunk of the top frame.\<close>

definition asks_top :: "vm \<Rightarrow> storage_request \<Rightarrow> bool" where
  "asks_top m r \<longleftrightarrow> 0 < vm_frame_count m \<and> vm_frame_count m \<le> length (vm_frames m) \<and>
     fr_ip (top_frame m) < fr_end (top_frame m) \<and>
     (\<exists>offset. r = SqbcRead offset (fr_end (top_frame m) - fr_start (top_frame m)))"

lemma complete_resume_frame_count:
  assumes "complete_resume_frame v s = (Inr u, t)" and "0 < vm_frame_count (fst s)"
  shows "vm_frame_count (fst t) = vm_frame_count (fst s) - 1"
  using assms
  by (auto simp: complete_resume_frame_def bind_exec_def vm_gets_def frame_at_def vm_res_of_def
      on_cache_def vm_modify_def set_frame_def vm_push_def ret_def throw_def
      split: prod.splits sum.splits if_splits)

lemma finish_frame_turn:
  assumes "finish_frame v s = (Inr d, t)" and "0 < vm_frame_count (fst s)"
  shows "vm_frame_count (fst t) = vm_frame_count (fst s) - 1 \<and>
    d = (if 0 < vm_frame_count (fst t) then Continue else Return Complete)"
proof -
  from assms(1) obtain u t' where "complete_resume_frame v s = (Inr u, t')"
    "d = (if 0 < vm_frame_count (fst t') then Continue else Return Complete)" "t' = t"
    unfolding finish_frame_def by (auto dest!: bind_exec_InrD simp: vm_gets_def)
  with complete_resume_frame_count [OF this(1) assms(2)] show ?thesis by simp
qed

text \<open>What a load leaves alone.\<close>

lemma load_chunk_frames:
  assumes "load_chunk_resumable H start len s = (Inr r, t)"
  shows "vm_frames (fst t) = vm_frames (fst s) \<and> vm_frame_count (fst t) = vm_frame_count (fst s) \<and>
    (vm_code_start (fst s) = start \<and> vm_code_len (fst s) = len \<longrightarrow> r = None) \<and>
    (\<forall>q. r = Some q \<longrightarrow> q = SqbcRead (ix_code_offset (vm_index (fst s)) + start) len)"
  using assms
  by (auto simp: load_chunk_resumable_def bind_exec_def vm_gets_def host_call_def read_code_def
      vm_modify_def ret_def throw_def lift_def Let_def split: prod.splits sum.splits if_splits)

lemma execute_instruction_counts:
  assumes "execute_instruction H i ip s = (Inr d, t)"
  shows "vm_instructions (fst t) = Suc (vm_instructions (fst s)) \<and>
    vm_instructions (fst t) \<le> MAX_INSTRUCTIONS_PER_EVENT"
proof -
  let ?n = "vm_instructions (fst s) + 1"
  let ?s = "((fst s)\<lparr>vm_instructions := ?n\<rparr>, snd s)"
  let ?run = "bind_exec (vm_res_of (\<lambda>m. code_byte m ip)) (\<lambda>op.
    bind_exec (set_frame i (\<lambda>f. f\<lparr>fr_ip := ip + 1\<rparr>)) (\<lambda>_. exec_op H i op))"
  from assms have budget: "?n \<le> MAX_INSTRUCTIONS_PER_EVENT" and run: "?run ?s = (Inr d, t)"
    by (auto simp: execute_instruction_def bind_exec_def vm_modify_def vm_gets_def split: if_splits)
  have "keeps (instr_is (?n, vm_index (fst s))) ?run" by (intro keeps_intros instr_kept)
  from keepsD [OF this, where s = ?s] run budget show ?thesis by simp
qed

lemma exec_step_cases:
  assumes "exec_step H s = (Inr d, t)"
  shows "(vm_instructions (fst t) = Suc (vm_instructions (fst s)) \<and>
            vm_instructions (fst t) \<le> MAX_INSTRUCTIONS_PER_EVENT) \<or>
         (vm_instructions (fst t) = vm_instructions (fst s) \<and> \<not> loaded_top (fst s) \<and>
            (case d of Continue \<Rightarrow> vm_frame_count (fst t) < vm_frame_count (fst s)
             | Return Complete \<Rightarrow> True
             | Return (PendingStorage r) \<Rightarrow> asks_top (fst t) r))"
proof (cases "vm_frame_count (fst s) = 0")
  case True
  with assms have "d = Return Complete" "t = s" by (auto simp: exec_step_def bind_exec_def vm_gets_def)
  with True show ?thesis by (simp add: loaded_top_def)
next
  case False
  let ?i = "vm_frame_count (fst s) - 1" let ?f = "top_frame (fst s)"
  have i: "?i < length (vm_frames (fst s))"
    using assms False by (auto simp: exec_step_def bind_exec_def vm_gets_def frame_at_def vm_res_of_def Let_def
        split: if_splits)
  have step: "(if fr_ip ?f \<ge> fr_end ?f then finish_frame None else
     bind_exec (load_chunk_resumable H (fr_start ?f) (fr_end ?f - fr_start ?f)) (\<lambda>request.
       case request of
         Some r \<Rightarrow> suspend_read ?i r
       | None \<Rightarrow> execute_instruction H ?i (fr_ip ?f))) s = (Inr d, t)"
    using assms False i by (auto simp: exec_step_def Let_def split: if_splits)
  show ?thesis
  proof (cases "fr_ip ?f \<ge> fr_end ?f")
    case True
    with step have run: "finish_frame None s = (Inr d, t)" by simp
    have "vm_instructions (fst t) = vm_instructions (fst s)"
      using keepsD [OF instr_ops(6) refl, where s = s] run by (metis prod.inject snd_conv)
    with finish_frame_turn [OF run] True False show ?thesis by (auto simp: loaded_top_def)
  next
    case running: False
    from bind_exec_InrD [OF step [unfolded if_not_P [OF running]]] obtain request t1 where
      load: "load_chunk_resumable H (fr_start ?f) (fr_end ?f - fr_start ?f) s = (Inr request, t1)"
      and rest: "(case request of Some r \<Rightarrow> suspend_read ?i r
        | None \<Rightarrow> execute_instruction H ?i (fr_ip ?f)) t1 = (Inr d, t)"
      by blast
    note loaded = load_chunk_frames [OF load]
    have instr: "vm_instructions (fst t1) = vm_instructions (fst s)"
      using keepsD [OF instr_load refl, where s = s] load by (metis prod.inject snd_conv)
    show ?thesis
    proof (cases request)
      case (Some r)
      with loaded have r: "r = SqbcRead (ix_code_offset (vm_index (fst s)) + fr_start ?f) (fr_end ?f - fr_start ?f)"
        by blast
      have "\<not> loaded_top (fst s)" using Some loaded running by (auto simp: loaded_top_def)
      with rest loaded instr running i False show ?thesis
        by (auto simp: Some r suspend_read_def bind_exec_def set_frame_def asks_top_def split: prod.splits)
    next
      case None
      with rest execute_instruction_counts [of H ?i "fr_ip ?f" t1 d t] instr show ?thesis by auto
    qed
  qed
qed

text \<open>\<open>execute_resume_frames\<close>.\<close>

function run_frames :: "'h host \<Rightarrow> ('h, vm_dispatch) vm_exec" where
  "run_frames H s =
     (case exec_step H s of
        (Inl e, t) \<Rightarrow> (Inl e, t)
      | (Inr Continue, t) \<Rightarrow> run_frames H t
      | (Inr (Return d), t) \<Rightarrow> (Inr d, t))"
  by pat_completeness auto
termination
  by (relation "measures [\<lambda>(H, s). 1001 - vm_instructions (fst s), \<lambda>(H, s). vm_frame_count (fst s)]")
    (force dest!: exec_step_cases [OF sym])+

declare run_frames.simps [simp del]

text \<open>
  What the loop returns: an event that asks for storage has executed another instruction,
  or asks for the chunk of the frame that was not loaded.
\<close>

lemma run_frames_counts:
  assumes "run_frames H s = (Inr d, t)"
  shows "vm_instructions (fst s) \<le> vm_instructions (fst t) \<and>
    (\<forall>r. d = PendingStorage r \<longrightarrow>
       (vm_instructions (fst s) < vm_instructions (fst t) \<and>
          vm_instructions (fst t) \<le> MAX_INSTRUCTIONS_PER_EVENT) \<or>
       (vm_instructions (fst t) = vm_instructions (fst s) \<and> \<not> loaded_top (fst s) \<and> asks_top (fst t) r))"
  using assms
proof (induction H s rule: run_frames.induct)
  case (1 H s)
  obtain r u where step: "exec_step H s = (r, u)" by (cases "exec_step H s")
  with "1.prems" obtain e where r: "r = Inr e" by (cases r) (auto simp: run_frames.simps [of H s])
  note cases = exec_step_cases [OF step [unfolded r]]
  show ?case
  proof (cases e)
    case Continue
    with "1.prems" step r have "run_frames H u = (Inr d, t)" by (simp add: run_frames.simps [of H s])
    with "1.IH" [OF step [symmetric] r Continue] cases Continue show ?thesis by fastforce
  next
    case (Return d')
    with "1.prems" step r have "d' = d" "u = t" by (auto simp: run_frames.simps [of H s])
    with cases Return show ?thesis by auto
  qed
qed

section \<open>Storage requests served by the host\<close>

text \<open>\<open>host.state_load(&mut self.storage_bytes)\<close>.\<close>

definition host_state_load :: "'h host \<Rightarrow> ('h, nat option) vm_exec" where
  "host_state_load H s =
     (case s of (m, h) \<Rightarrow>
        case h_state_load H (vm_storage_bytes m) h of
          (r, bs, h') \<Rightarrow>
            (case r of Inl e \<Rightarrow> Inl (Err e) | Inr n \<Rightarrow> Inr n,
             (m\<lparr>vm_storage_bytes := fit (length (vm_storage_bytes m)) bs\<rparr>, h')))"

definition load_state_bytes :: "(vm \<Rightarrow> u8 list) \<Rightarrow> nat option \<Rightarrow> ('h, unit) vm_exec" where
  "load_state_bytes source len =
     (case len of
        None \<Rightarrow> ret ()
      | Some n \<Rightarrow> bind_exec (vm_res_of (\<lambda>m. slice_to (source m) n)) load_state_record)"

definition serve_request :: "'h host \<Rightarrow> nat \<Rightarrow> storage_request \<Rightarrow> ('h, unit) vm_exec" where
  "serve_request H i request =
     (case request of
        SqbcRead offset len \<Rightarrow>
          bind_exec (frame_at i) (\<lambda>f.
          bind_exec (vm_gets (\<lambda>m. (ix_code_offset (vm_index m), length (vm_code m)))) (\<lambda>(code_offset, cap).
            if offset \<noteq> code_offset + fr_start f \<or> len > cap then throw ReadFailed else
          bind_exec (read_code H offset len) (\<lambda>_.
            vm_modify (\<lambda>m. m\<lparr>vm_code_start := fr_start f, vm_code_len := len\<rparr>))))
      | StateLoad \<Rightarrow>
          bind_exec (host_state_load H) (\<lambda>len.
          bind_exec (load_state_bytes vm_storage_bytes len) (\<lambda>_. notify H (Trace (lit ''state.load''))))
      | StateSave bytes \<Rightarrow>
          bind_exec (host_call (h_command H (HostStateSave bytes))) (\<lambda>_. notify H (Trace (lit ''state.save'')))
      | StateReset \<Rightarrow>
          bind_exec reset_state (\<lambda>_.
          bind_exec (host_call (h_command H HostStateResetPersistent)) (\<lambda>_.
            notify H (Trace (lit ''state.reset'')))))"

definition clear_pending :: "nat \<Rightarrow> ('h, unit) vm_exec" where
  "clear_pending i = set_frame i (\<lambda>f. f\<lparr>fr_pending := NoPending\<rparr>)"

definition resume_immediate_storage :: "'h host \<Rightarrow> storage_request \<Rightarrow> ('h, vm_dispatch) vm_exec" where
  "resume_immediate_storage H request =
     bind_exec (vm_gets vm_frame_count) (\<lambda>count.
       if count = 0 then ret Complete else
     bind_exec (serve_request H (count - 1) request) (\<lambda>_.
     bind_exec (clear_pending (count - 1)) (\<lambda>_. run_frames H)))"

section \<open>Storage requests served by the caller\<close>

definition accept_completion :: "'h host \<Rightarrow> nat \<Rightarrow> resume_frame \<Rightarrow> storage_completion \<Rightarrow> ('h, unit) vm_exec" where
  "accept_completion H i f completion =
     (case fr_pending f of
        PendingRead offset len \<Rightarrow>
          bind_exec (vm_gets (\<lambda>m. (ix_code_offset (vm_index m), length (vm_code m)))) (\<lambda>(code_offset, cap).
            if offset \<noteq> code_offset + fr_start f then throw ReadFailed else
            let relative_len = min len cap in
          bind_exec (lift (slice_to (cp_bytes completion) relative_len)) (\<lambda>bs.
            vm_modify (\<lambda>m. m\<lparr>vm_code := splice (vm_code m) 0 bs, vm_code_start := fr_start f,
              vm_code_len := relative_len\<rparr>)))
      | PendingStateLoad \<Rightarrow>
          bind_exec (load_state_bytes (\<lambda>_. cp_bytes completion) (cp_len completion)) (\<lambda>_.
            notify H (Trace (lit ''state.load'')))
      | PendingStateSave \<Rightarrow> notify H (Trace (lit ''state.save''))
      | PendingStateReset \<Rightarrow> notify H (Trace (lit ''state.reset''))
      | NoPending \<Rightarrow> ret ())"

definition resume_storage :: "'h host \<Rightarrow> storage_completion \<Rightarrow> ('h, vm_dispatch) vm_exec" where
  "resume_storage H completion =
     bind_exec (vm_gets vm_frame_count) (\<lambda>count.
       if count = 0 then ret Complete else
     bind_exec (frame_at (count - 1)) (\<lambda>f.
     bind_exec (accept_completion H (count - 1) f completion) (\<lambda>_.
     bind_exec (clear_pending (count - 1)) (\<lambda>_. run_frames H))))"

section \<open>Starting an event\<close>

text \<open>A payload is its field names and values.\<close>

type_synonym event_payload = "(rstr \<times> ustr) list"

definition event_payload_record :: "event_payload \<Rightarrow> ('h, vm_value) vm_exec" where
  "event_payload_record payload =
     (if length payload > MAX_RUNTIME_RECORD_FIELDS then throw InvalidOperand else
      bind_exec (exec_map (\<lambda>(name, v).
        bind_exec (on_strings (\<lambda>strings. intern_runtime strings (str_bytes v))) (\<lambda>v.
        bind_exec (lift (ok_or InvalidOperand (field_name_parse name))) (\<lambda>f. ret (f, v)))) payload) (\<lambda>flds.
      on_records (records_alloc flds)))"

text \<open>\<open>retain_state_values(&self.index, &mut self.state[..self.index.state_count])\<close>.\<close>

definition vm_retain_state :: "('h, unit) vm_exec" where
  "vm_retain_state s =
     (case s of (m, h) \<Rightarrow>
        let n = tb_state_count (vm_index m) in
        if n > length (vm_state m) then (Inl Panic, s) else
        (case retain_state_values (index_table (vm_index m)) (vm_strings m) (take n (vm_state m)) of
           (r, it, values) \<Rightarrow>
             (r, (m\<lparr>vm_strings := it, vm_state := splice (vm_state m) 0 values\<rparr>, h))))"

definition bind_payload :: "nat \<Rightarrow> u16 \<Rightarrow> event_payload option \<Rightarrow> ('h, unit) vm_exec" where
  "bind_payload i param_count payload =
     (if param_count > 1 then throw LocalOutOfBounds
      else if param_count = 1 then
        bind_exec (case payload of None \<Rightarrow> ret VNull | Some p \<Rightarrow> event_payload_record p) (\<lambda>v.
        bind_exec (frame_at i) (\<lambda>f.
        bind_exec (lift (if 0 < length (fr_locals f) then Inr () else Inl Panic)) (\<lambda>_.
          set_frame i (\<lambda>f. f\<lparr>fr_locals := (fr_locals f)[0 := v]\<rparr>))))
      else ret ())"

text \<open>The budget and the frames are reset, the handler's frame pushed and run.\<close>

definition enter_handler ::
  "'h host \<Rightarrow> nat \<Rightarrow> handler_row \<Rightarrow> event_payload option \<Rightarrow> ('h, vm_dispatch) vm_exec" where
  "enter_handler H index handler payload =
     bind_exec (vm_modify (\<lambda>m. m\<lparr>vm_instructions := 0, vm_frame_count := 0\<rparr>)) (\<lambda>_.
     bind_exec (push_resume_frame (HandlerFrame (of_nat index)) (h_start handler) (h_len handler) 0) (\<lambda>i.
     bind_exec (bind_payload i (h_param_count handler) payload) (\<lambda>_. run_frames H)))"

definition dispatch_resumable_with_payload ::
  "'h host \<Rightarrow> rstr \<Rightarrow> event_payload option \<Rightarrow> ('h, vm_dispatch) vm_exec" where
  "dispatch_resumable_with_payload H event payload =
     bind_exec (vm_gets vm_exited) (\<lambda>exited.
       if exited then ret Complete else
     bind_exec (vm_res_of (\<lambda>m. index_handler (vm_index m) event)) (\<lambda>(index, handler).
       if unat (h_local_count handler) > MAX_LOCALS \<or> h_param_count handler > h_local_count handler
       then throw LocalOutOfBounds else
     bind_exec vm_retain_state (\<lambda>_.
     bind_exec (vm_modify (\<lambda>m. m\<lparr>vm_records := records_reset (vm_records m),
         vm_lists := lists_reset (vm_lists m)\<rparr>)) (\<lambda>_.
     let key = \<lparr>c_app = 0, c_kind = HandlerChunk, c_index = of_nat index\<rparr> in
     bind_exec (on_cache (cache_insert key (h_preload handler))) (\<lambda>_.
     bind_exec (on_cache (begin_execute key)) (\<lambda>_.
     bind_exec (notify H (Trace event)) (\<lambda>_.
       enter_handler H index handler payload)))))))"

definition dispatch_resumable :: "'h host \<Rightarrow> rstr \<Rightarrow> ('h, vm_dispatch) vm_exec" where
  "dispatch_resumable H event = dispatch_resumable_with_payload H event None"

section \<open>Running an event to its end\<close>

lemma instr_serve [instr_kept]: "keeps (instr_is n) (serve_request H i r)"
proof -
  have a: "keeps (instr_is n) (host_state_load H)"
    by (simp add: keeps_def host_state_load_def split: prod.splits)
  have b: "keeps (instr_is n) (load_state_record bs)" for bs
    by (simp add: keeps_def load_state_record_def Let_def split: prod.splits)
  have c: "keeps (instr_is n) (notify H x)" for x by (simp add: keeps_def notify_def)
  show ?thesis
    unfolding serve_request_def load_state_bytes_def by (intro keeps_intros instr_kept a b c)
qed

text \<open>After the chunk a frame asks for is read, its next instruction is executed.\<close>

lemma serve_asked:
  assumes "asks_top (fst s) r" and "serve_request H (vm_frame_count (fst s) - 1) r s = (Inr u, t)"
    and "clear_pending (vm_frame_count (fst s) - 1) t = (Inr v, t')"
  shows "loaded_top (fst t')"
proof -
  let ?i = "vm_frame_count (fst s) - 1"
  from assms(1) have i: "?i < length (vm_frames (fst s))" "0 < vm_frame_count (fst s)"
    and ip: "fr_ip (top_frame (fst s)) < fr_end (top_frame (fst s))"
    by (auto simp: asks_top_def)
  from assms(1) obtain offset where r: "r = SqbcRead offset (fr_end (top_frame (fst s)) - fr_start (top_frame (fst s)))"
    by (auto simp: asks_top_def)
  from assms(2) i have "vm_frames (fst t) = vm_frames (fst s)" "vm_frame_count (fst t) = vm_frame_count (fst s)"
      "vm_code_start (fst t) = fr_start (top_frame (fst s))"
      "vm_code_len (fst t) = fr_end (top_frame (fst s)) - fr_start (top_frame (fst s))"
    by (auto simp: serve_request_def r bind_exec_def read_code_def vm_gets_def vm_modify_def frame_at_def
        vm_res_of_def throw_def split: prod.splits sum.splits if_splits)
  with assms(3) i ip show ?thesis
    by (auto simp: clear_pending_def set_frame_def loaded_top_def split: prod.splits if_splits)
qed

lemma resume_immediate_cases:
  assumes "resume_immediate_storage H r s = (Inr (PendingStorage q), t)"
  shows "(vm_instructions (fst s) < vm_instructions (fst t) \<and>
      vm_instructions (fst t) \<le> MAX_INSTRUCTIONS_PER_EVENT) \<or>
    (vm_instructions (fst t) = vm_instructions (fst s) \<and> \<not> asks_top (fst s) r \<and> asks_top (fst t) q)"
proof -
  let ?i = "vm_frame_count (fst s) - 1"
  from assms obtain u1 t1 u2 t2 where run: "serve_request H ?i r s = (Inr u1, t1)"
    "clear_pending ?i t1 = (Inr u2, t2)" "run_frames H t2 = (Inr (PendingStorage q), t)"
    by (auto simp: resume_immediate_storage_def split: if_splits dest!: bind_exec_InrD)
  have "vm_instructions (fst t1) = vm_instructions (fst s)"
    using keepsD [OF instr_serve refl, where s = s] run(1) by (metis prod.inject snd_conv)
  moreover have "vm_instructions (fst t2) = vm_instructions (fst t1)"
    using run(2) by (auto simp: clear_pending_def set_frame_def split: prod.splits if_splits)
  moreover have "\<not> loaded_top (fst t2) \<Longrightarrow> \<not> asks_top (fst s) r"
    using serve_asked [OF _ run(1,2)] by blast
  ultimately show ?thesis using run_frames_counts [OF run(3)] by auto
qed

definition loop_measure :: "vm_dispatch \<Rightarrow> vm \<Rightarrow> nat" where
  "loop_measure d m =
     (case d of Complete \<Rightarrow> 0
      | PendingStorage r \<Rightarrow> 2 * (1001 - vm_instructions m) + (if asks_top m r then 1 else 2))"

function dispatch_loop :: "'h host \<Rightarrow> vm_dispatch \<Rightarrow> ('h, unit) vm_exec" where
  "dispatch_loop H d s =
     (case d of
        Complete \<Rightarrow> (Inr (), s)
      | PendingStorage request \<Rightarrow>
          (case resume_immediate_storage H request s of
             (Inl e, t) \<Rightarrow> (Inl e, t)
           | (Inr d', t) \<Rightarrow> dispatch_loop H d' t))"
  by pat_completeness auto
termination
proof (relation "measure (\<lambda>(H, d, s). loop_measure d (fst s))", goal_cases)
  case (2 H d s r x t d')
  then have run: "resume_immediate_storage H r s = (Inr d', t)" and d: "d = PendingStorage r" by auto
  show ?case
  proof (cases d')
    case Complete
    with d show ?thesis by (simp add: loop_measure_def)
  next
    case (PendingStorage q)
    with resume_immediate_cases [OF run [unfolded PendingStorage]] d show ?thesis
      by (auto simp: loop_measure_def)
  qed
qed simp

declare dispatch_loop.simps [simp del]

text \<open>When the event fails, the Wi-Fi operation it may have started is torn down.\<close>

definition dispatch :: "'h host \<Rightarrow> rstr \<Rightarrow> ('h, unit) vm_exec" where
  "dispatch H event s =
     (case bind_exec (dispatch_resumable H event) (dispatch_loop H) s of
        (Inl (Err e), t) \<Rightarrow>
          (case host_call (h_command H ServiceWifiTeardown) t of
             (Inl e', t') \<Rightarrow> (Inl e', t')
           | (Inr _, t') \<Rightarrow> (Inl (Err e), t'))
      | outcome \<Rightarrow> outcome)"

section \<open>Properties kept by the loops\<close>

lemma keeps_run_frames:
  assumes "keeps P (exec_step H)"
  shows "keeps P (run_frames H)"
proof (rule keepsI)
  fix s assume "P s"
  with assms show "P (snd (run_frames H s))"
  proof (induction H s rule: run_frames.induct)
    case (1 H s)
    obtain r t where step: "exec_step H s = (r, t)" by (cases "exec_step H s")
    with keepsD [OF "1.prems"] have t: "P t" by (metis snd_conv)
    with "1.IH" [OF step [symmetric] _ _ "1.prems"(1)] step show ?case
      by (auto simp: run_frames.simps [of H s] split: sum.splits turn.splits)
  qed
qed

lemma keeps_dispatch_loop:
  assumes "\<And>r. keeps P (resume_immediate_storage H r)"
  shows "keeps P (dispatch_loop H d)"
proof (rule keepsI)
  fix s assume "P s"
  with assms show "P (snd (dispatch_loop H d s))"
  proof (induction H d s rule: dispatch_loop.induct)
    case (1 H d s)
    show ?case
    proof (cases d)
      case Complete
      with "1.prems" show ?thesis by (simp add: dispatch_loop.simps)
    next
      case (PendingStorage q)
      obtain r t where run: "resume_immediate_storage H q s = (r, t)" by (cases "resume_immediate_storage H q s")
      with keepsD [OF "1.prems"(1) "1.prems"(2)] have t: "P t" by (metis snd_conv)
      with "1.IH" [OF PendingStorage run [symmetric] _ "1.prems"(1)] run PendingStorage show ?thesis
        by (auto simp: dispatch_loop.simps [of H "PendingStorage q" s] split: sum.splits)
    qed
  qed
qed

lemma keeps_dispatch:
  assumes "keeps P (dispatch_resumable_with_payload H event None)"
    and "\<And>r. keeps P (resume_immediate_storage H r)"
    and "keeps P (host_call (h_command H ServiceWifiTeardown))"
  shows "keeps P (dispatch H event)"
proof (rule keepsI)
  fix s assume s: "P s"
  have body: "keeps P (bind_exec (dispatch_resumable H event) (dispatch_loop H))"
    unfolding dispatch_resumable_def by (intro keeps_bind assms keeps_dispatch_loop)
  obtain r t where run: "bind_exec (dispatch_resumable H event) (dispatch_loop H) s = (r, t)" by (metis surj_pair)
  obtain r' t' where down: "host_call (h_command H ServiceWifiTeardown) t = (r', t')" by (metis surj_pair)
  from keepsD [OF body s] run have t: "P t" by simp
  from keepsD [OF assms(3) t] run down t show "P (snd (dispatch H event s))"
    by (simp add: dispatch_def split: sum.splits fail.splits)
qed

section \<open>The VM that owns its program\<close>

text \<open>
  \<open>InMemoryVmHost\<close> reads the code from memory and forwards the services to the trace sink;
  it does not forward \<open>draw_refresh_mode\<close>, and reads are never deferred.
\<close>

definition memory_read :: "u8 list \<Rightarrow> nat \<Rightarrow> u8 list \<Rightarrow> 'h \<Rightarrow> (vm_error + unit) \<times> u8 list \<times> 'h" where
  "memory_read code offset out h =
     (case checked_add offset (length out) of
        None \<Rightarrow> (Inl InvalidSection, out, h)
      | Some stop \<Rightarrow>
          (case get_range code offset stop of
             None \<Rightarrow> (Inl InvalidSection, out, h)
           | Some bs \<Rightarrow> (Inr (), bs, h)))"

definition in_memory_host :: "u8 list \<Rightarrow> 'h host \<Rightarrow> 'h host" where
  "in_memory_host code T = T\<lparr>
     h_read := memory_read code,
     h_should_defer := (\<lambda>offset len. answer False),
     h_note := (\<lambda>n. case n of DrawRefreshMode mode \<Rightarrow> (\<lambda>h. h) | _ \<Rightarrow> h_note T n)\<rparr>"

record owned_vm =
  ov_program :: program
  ov_inner :: vm

definition owned_new :: "program \<Rightarrow> owned_vm vm_res" where
  "owned_new p =
     (case index_from_program p of
        Inl e \<Rightarrow> Inl Panic
      | Inr x \<Rightarrow> Inr \<lparr>ov_program = p, ov_inner = vm_new x\<rparr>)"

definition owned_dispatch :: "'h host \<Rightarrow> rstr \<Rightarrow> (vm_error, owned_vm \<times> 'h, unit) exec" where
  "owned_dispatch T event s =
     (case s of (w, h) \<Rightarrow>
        case dispatch (in_memory_host (pg_code (ov_program w)) T) event (ov_inner w, h) of
          (r, (m, h')) \<Rightarrow> (r, (w\<lparr>ov_inner := m\<rparr>, h')))"

end
