(* ===== verification/Vm_Safety.thy ===== *)
theory Vm_Safety
  imports Vm_Dispatch
begin

text \<open>
  Safety of the VM: the invariant \<open>vm_ok\<close> (fixed array sizes, stack and frame bounds, frames
  inside the code, a sound string interner and rings over an accepted index) is kept by
  every builtin, opcode and turn of the loop, in every outcome, and under it none of them
  panics.  \<open>live k\<close> is the invariant with at least \<open>k\<close> live frames; \<open>steady (live k) m\<close> says
  that \<open>m\<close> keeps it and does not panic; \<open>safe k m\<close> that \<open>m\<close> keeps the invariant.
\<close>

section \<open>The data of the VM\<close>

definition data_ok :: "vm \<Rightarrow> bool" where
  "data_ok m \<longleftrightarrow> index_ok (vm_index m) \<and>
     interner_inv (index_table (vm_index m)) (vm_strings m) \<and>
     records_inv (vm_records m) \<and> lists_inv (vm_lists m) \<and>
     length (vm_stack m) = MAX_STACK \<and> vm_stack_len m \<le> MAX_STACK"

abbreviation data_kept :: "vm \<times> 'h \<Rightarrow> bool" where
  "data_kept s \<equiv> data_ok (fst s)"

lemma data_ok_parts:
  "data_ok m \<Longrightarrow> index_ok (vm_index m)"
  "data_ok m \<Longrightarrow> table_total (index_table (vm_index m))"
  "data_ok m \<Longrightarrow> interner_inv (index_table (vm_index m)) (vm_strings m)"
  by (simp_all add: data_ok_def index_table_total)

lemma index_string_total: "index_ok x \<Longrightarrow> index_string x sid \<noteq> Inl Panic"
  by (erule index_ok_table) (simp add: list_string_def)

named_theorems data_steady

lemma steady_gets [data_steady]: "steady P (vm_gets f)"
  by (rule steadyI) (simp add: vm_gets_def)

lemma steady_res_of: "(\<And>s. P s \<Longrightarrow> f (fst s) \<noteq> Inl Panic) \<Longrightarrow> steady P (vm_res_of f)"
  by (rule steadyI) (simp add: vm_res_of_def)

lemma steady_host [data_steady]: "steady data_kept (host_call k)" "steady data_kept (notify H n)"
  by (rule steadyI; simp add: host_call_def notify_def split: prod.splits sum.splits)+

lemma steady_stack [data_steady]: "steady data_kept (vm_push v)" "steady data_kept vm_pop"
  by (rule steadyI; auto simp: vm_push_def vm_pop_def data_ok_def Let_def split: prod.splits)+

lemma steady_on_records [data_steady]: "steady data_kept (on_records (records_alloc flds))"
proof (rule steadyI)
  fix s :: "vm \<times> 'h" assume "data_kept s"
  moreover obtain r x where "records_alloc flds (vm_records (fst s)) = (r, x)" by fastforce
  ultimately show "case on_records (records_alloc flds) s of (r, t) \<Rightarrow> r \<noteq> Inl Panic \<and> data_kept t"
    using records_alloc_result [of "vm_records (fst s)" flds r x] by (simp add: on_records_def data_ok_def)
qed

lemma steady_on_lists [data_steady]: "steady data_kept (on_lists (lists_alloc items))"
proof (rule steadyI)
  fix s :: "vm \<times> 'h" assume "data_kept s"
  moreover obtain r x where "lists_alloc items (vm_lists (fst s)) = (r, x)" by fastforce
  ultimately show "case on_lists (lists_alloc items) s of (r, t) \<Rightarrow> r \<noteq> Inl Panic \<and> data_kept t"
    using lists_alloc_result [of "vm_lists (fst s)" items r x] by (simp add: on_lists_def data_ok_def)
qed

lemma steady_intern:
  assumes "utf8_valid v"
  shows "steady data_kept (on_strings (\<lambda>strings. intern_dynamic strings v retained))"
proof (rule steadyI)
  fix s :: "vm \<times> 'h" assume s: "data_kept s"
  obtain r x where run: "intern_dynamic (index_table (vm_index (fst s))) v retained (vm_strings (fst s)) = (r, x)"
    by fastforce
  from index_strings.intern_dynamic_total [OF data_ok_parts(3) [OF s] assms data_ok_parts(2) [OF s] run] s run
  show "case on_strings (\<lambda>strings. intern_dynamic strings v retained) s of
      (r, t) \<Rightarrow> r \<noteq> Inl Panic \<and> data_kept t"
    by (simp add: on_strings_def data_ok_def)
qed

lemma steady_runtime_string [data_steady]:
  "(\<And>s. value = Some s \<Longrightarrow> utf8_valid s) \<Longrightarrow> steady data_kept (runtime_string_value value)"
  unfolding runtime_string_value_def intern_event_def by (intro steady_intros steady_intern)

lemma steady_materialize [data_steady]: "steady data_kept (vm_materialize v)"
proof (rule steadyI)
  fix s :: "vm \<times> 'h" assume s: "data_kept s"
  obtain r x where run: "retain_value v (vm_strings (fst s)) = (r, x)" by fastforce
  from retain_value_result [OF data_ok_parts(3) [OF s] run] s run
  show "case vm_materialize v s of (r, t) \<Rightarrow> r \<noteq> Inl Panic \<and> data_kept t"
    by (simp add: vm_materialize_def on_strings_def data_ok_def)
qed

lemma steady_case_value [steady_intros]:
  assumes "steady P n" and "\<And>i. steady P (fi i)" and "\<And>b. steady P (fb b)" and "\<And>r. steady P (fs r)"
    and "\<And>k. steady P (fr k)" and "\<And>k. steady P (fl k)" and "\<And>k. steady P (fh k)"
  shows "steady P (case v of VNull \<Rightarrow> n | VI32 i \<Rightarrow> fi i | VBool b \<Rightarrow> fb b | VString r \<Rightarrow> fs r
    | VRecord k \<Rightarrow> fr k | VList k \<Rightarrow> fl k | VHandle k \<Rightarrow> fh k)"
  using assms by (cases v) simp_all

lemma steady_case_string_ref [steady_intros]:
  assumes "\<And>i. steady P (fq i)" and "\<And>i. steady P (fs i)" and "\<And>i. steady P (fd i)"
  shows "steady P (case v of Sqbc i \<Rightarrow> fq i | Static i \<Rightarrow> fs i | Dynamic i \<Rightarrow> fd i)"
  using assms by (cases v) simp_all

lemma expect_i32_no_panic [simp, no_panic]: "expect_i32 v \<noteq> Inl Panic"
  by (cases v) simp_all

lemma display_color_no_panic [simp, no_panic]: "display_color_from_i32 v \<noteq> Inl Panic"
  unfolding display_color_from_i32_def by (intro no_panic)

lemma steady_pops [data_steady]:
  "steady data_kept pop_i32"
  "steady data_kept pop_optional_string"
  "steady data_kept pop_optional_i32"
  "steady data_kept pop_optional_display_color"
  "steady data_kept pop_sqbc_string_id"
  "steady data_kept pop_handle"
  "steady data_kept pop_bool"
  "steady data_kept pop_list"
  unfolding pop_i32_def pop_optional_string_def pop_optional_i32_def pop_optional_display_color_def
    pop_sqbc_string_id_def pop_handle_def pop_bool_def pop_list_def
  by (intro steady_intros data_steady no_panic; simp)+

lemma steady_strings [data_steady]:
  "steady data_kept (resolve v)" "steady data_kept (program_str sid)"
  unfolding resolve_def program_str_def
  by (rule steady_res_of; simp add: data_ok_parts value_str_no_panic index_string_total)+

lemma steady_lists [data_steady]:
  "steady data_kept (vm_res_of (\<lambda>m. lists_get (vm_lists m) k i))"
  "steady data_kept (vm_res_of (\<lambda>m. lists_len (vm_lists m) k))"
  "steady data_kept (vm_res_of (\<lambda>m. records_field (vm_records m) k' name))"
  by (rule steady_res_of; simp add: data_ok_def lists_get_no_panic)+

lemma steady_exec_map [steady_intros]: "(\<And>x. steady P (f x)) \<Longrightarrow> steady P (exec_map f xs)"
  by (induction xs; simp only: exec_map.simps; intro steady_intros; simp)

lemma steady_list_of [data_steady]:
  "(\<And>x. steady data_kept (f x)) \<Longrightarrow> steady data_kept (list_of f xs)"
  unfolding list_of_def by (intro steady_intros data_steady; simp)

section \<open>Builtins keep the data\<close>

lemma str_option_valid: "map_option str_bytes x = Some s \<Longrightarrow> utf8_valid s" "Some (str_bytes u) = Some s \<Longrightarrow> utf8_valid s"
  by auto

lemma steady_records [data_steady]:
  "steady data_kept (wifi_operation_record r1)"
  "steady data_kept (wifi_operation_result_record r2)"
  "steady data_kept (device_config_result_record r3)"
  "steady data_kept (file_pick_file_result_record r4)"
  "steady data_kept (file_read_text_result_record r5)"
  "steady data_kept (file_copy_result_record r6)"
  "steady data_kept (binbook_open_record r7)"
  "steady data_kept (binbook_info_record r8)"
  "steady data_kept (binbook_read_page_record r9)"
  "steady data_kept (binbook_chapter_entry_record r10)"
  "steady data_kept (content_binbook_entry_record r11)"
  "steady data_kept (display_info_record r12)"
  "steady data_kept (app_registry_record r13)"
  "steady data_kept (app_armed_stack_record r14)"
  "steady data_kept (wifi_status_record r15)"
  "steady data_kept (wifi_ap_ip_record r16)"
  "steady data_kept (app_install_record r17)"
  unfolding wifi_operation_record_def wifi_operation_result_record_def device_config_result_record_def
    file_pick_file_result_record_def file_read_text_result_record_def file_copy_result_record_def
    binbook_open_record_def binbook_info_record_def binbook_read_page_record_def
    binbook_chapter_entry_record_def content_binbook_entry_record_def display_info_record_def
    app_registry_record_def app_armed_stack_record_def wifi_status_record_def wifi_ap_ip_record_def
    app_install_record_def
  by (intro steady_intros data_steady; erule str_option_valid)+

lemma steady_list_records [data_steady]:
  "steady data_kept (file_read_lines_result_record r1)"
  "steady data_kept (binbook_chapter_list_record r2)"
  "steady data_kept (binbook_chapter_result_record r3)"
  "steady data_kept (content_binbook_list_record r4)"
  unfolding file_read_lines_result_record_def binbook_chapter_list_record_def
    binbook_chapter_result_record_def content_binbook_list_record_def
  by (intro steady_intros data_steady; auto)+

lemma steady_scan_network:
  assumes "\<And>ap. sn_network r = Some ap \<Longrightarrow> access_point_ok ap"
  shows "steady data_kept (wifi_scan_network_record r)"
proof -
  define ap where "ap = (case sn_network r of Some ap \<Rightarrow> ap | None \<Rightarrow> access_point_empty)"
  have "access_point_ok ap" using assms by (auto simp: ap_def split: option.split)
  then have np: "access_point_ssid ap \<noteq> Inl Panic" by (rule access_point_ssid_no_panic)
  have valid: "access_point_ssid ap = Inr s \<Longrightarrow> utf8_valid s" for s
    by (auto simp: access_point_ssid_def and_then_eq_Inr)
  show ?thesis
    unfolding wifi_scan_network_record_def Let_def ap_def [symmetric]
  proof (rule steady_bind [OF _ steady_bind_with [where Q = utf8_valid]])
    show "triple data_kept (lift (access_point_ssid ap)) (\<lambda>v s. data_kept s \<and> utf8_valid v) (\<lambda>_. data_kept)"
      by (rule triple_lift) (use np valid in auto)
  qed (intro steady_intros data_steady; auto)+
qed

lemma steady_helpers [data_steady]:
  "steady data_kept (app_command H k)"
  "steady data_kept (optional_program_str sid)"
  "steady data_kept pop_resource_options"
  "steady data_kept (display_text_builtin H)"
  unfolding app_command_def optional_program_str_def pop_resource_options_def display_text_builtin_def
  by (intro steady_intros data_steady)+

lemma steady_combinators [data_steady]:
  "steady data_kept m \<Longrightarrow> (\<And>r. steady data_kept (f r)) \<Longrightarrow> steady data_kept (push_result m f)"
  "(\<And>s. steady data_kept (g s)) \<Longrightarrow> steady data_kept (with_program_string g)"
  unfolding push_result_def with_program_string_def
  by (intro steady_intros data_steady; simp)+

lemma fixed_writes_inv: "fixed_inv f \<Longrightarrow> fixed_inv (fixed_writes ws f)"
proof (induction ws arbitrary: f)
  case (Cons w ws)
  obtain r f' where "fixed_write (str_bytes w) f = (r, f')" by fastforce
  with fixed_write_inv [OF Cons.prems str_bytes_valid this] Cons.IH [of f'] show ?case by simp
qed simp

lemma steady_push_text [data_steady]: "steady data_kept (push_text H q)"
  unfolding push_text_def push_result_def
proof (rule steady_bind_with [where Q = utf8_valid])
  show "triple data_kept (host_text H q) (\<lambda>v s. data_kept s \<and> utf8_valid v) (\<lambda>_. data_kept)"
    unfolding triple_def
  proof (intro allI impI)
    fix s :: "vm \<times> 'a" assume s: "data_kept s"
    obtain r ws h where text_run: "h_text H q (snd s) = (r, ws, h)" by (cases "h_text H q (snd s)")
    have "fixed_inv (fixed_writes ws new_fixed)" by (rule fixed_writes_inv) simp
    then obtain t where "fixed_as_str (fixed_writes ws new_fixed) = Inr t" "utf8_valid t"
      using fixed_as_str_valid by blast
    with s text_run show "case host_text H q s of
        (Inr v, t) \<Rightarrow> data_kept t \<and> utf8_valid v | (Inl (Err e), t) \<Rightarrow> data_kept t | (Inl Panic, t) \<Rightarrow> False"
      by (cases r) (simp_all add: host_text_def split: old.unit.split)
  qed
qed (intro steady_intros data_steady; simp)+

lemma host_ok_scan:
  "host_ok H \<Longrightarrow> h_wifi_scan_network H i h = (Inr r, h') \<Longrightarrow> sn_network r = Some ap \<Longrightarrow> access_point_ok ap"
  unfolding host_ok_def by blast

lemma host_ok_state_load:
  "host_ok H \<Longrightarrow> h_state_load H out h = (Inr (Some k), out', h') \<Longrightarrow> k \<le> length out"
  unfolding host_ok_def by blast

lemma steady_wifi_scan [data_steady]:
  assumes "host_ok H"
  shows "steady data_kept (push_result (bind_exec pop_i32 (\<lambda>i. host_call (h_wifi_scan_network H i)))
    wifi_scan_network_record)"
  unfolding push_result_def
proof (rule steady_bind_with [where Q = "\<lambda>r. \<forall>ap. sn_network r = Some ap \<longrightarrow> access_point_ok ap"])
  have pop: "triple data_kept pop_i32 (\<lambda>_. data_kept) (\<lambda>_. data_kept)"
    by (intro steady_triple data_steady)
  show "triple data_kept (bind_exec pop_i32 (\<lambda>i. host_call (h_wifi_scan_network H i)))
      (\<lambda>r s. data_kept s \<and> (\<forall>ap. sn_network r = Some ap \<longrightarrow> access_point_ok ap)) (\<lambda>_. data_kept)"
    by (rule triple_bind [OF pop])
      (auto simp: triple_def host_call_def split: prod.splits sum.splits dest: host_ok_scan [OF assms])
qed (intro steady_intros data_steady steady_scan_network; blast)

lemma steady_exit [data_steady]: "steady data_kept (vm_modify (\<lambda>m. m\<lparr>vm_exited := True\<rparr>))"
  by (rule steadyI) (simp add: vm_modify_def data_ok_def)

lemma steady_display: "every_arm (steady data_kept) (display_builtin H b)"
  unfolding display_builtin_def by (intro every_arm_intros steady_intros data_steady no_panic; simp)

lemma steady_device: "every_arm (steady data_kept) (device_builtin H b)"
  unfolding device_builtin_def by (intro every_arm_intros steady_intros data_steady)

lemma steady_service: "every_arm (steady data_kept) (service_builtin H b)"
  unfolding service_builtin_def by (intro every_arm_intros steady_intros data_steady)

lemma steady_app_exit [data_steady]: "steady data_kept (app_exit_builtin H)"
  unfolding app_exit_builtin_def by (intro steady_intros data_steady)

lemma steady_app: "every_arm (steady data_kept) (app_builtin H b)"
  unfolding app_builtin_def
  by (intro every_arm_intros steady_intros data_steady; erule str_option_valid)

lemma steady_wifi: "host_ok H \<Longrightarrow> every_arm (steady data_kept) (wifi_builtin H b)"
  unfolding wifi_builtin_def
  by (intro every_arm_intros; (rule steady_wifi_scan)?; (intro steady_intros data_steady)?; assumption?)

lemma steady_config: "every_arm (steady data_kept) (config_builtin H b)"
  unfolding config_builtin_def by (intro every_arm_intros steady_intros data_steady)

lemma steady_binbook: "every_arm (steady data_kept) (binbook_builtin H b)"
  unfolding binbook_builtin_def by (intro every_arm_intros steady_intros data_steady)

lemma steady_file: "every_arm (steady data_kept) (file_builtin H b)"
  unfolding file_builtin_def by (intro every_arm_intros steady_intros data_steady)

lemma steady_system: "every_arm (steady data_kept) (system_builtin H b)"
  unfolding system_builtin_def by (intro every_arm_intros steady_intros data_steady)

lemma steady_debug_print [data_steady]: "steady data_kept (debug_print_builtin H n)"
proof (rule steadyI)
  fix s :: "vm \<times> 'a" assume "data_kept s"
  then show "case debug_print_builtin H n s of (r, t) \<Rightarrow> r \<noteq> Inl Panic \<and> data_kept t"
    by (auto simp: debug_print_builtin_def bind_exec_def vm_gets_def notify_def vm_modify_def Let_def
        get_range_def data_ok_def)
qed

lemma call_builtin_steady [data_steady]:
  assumes "host_ok H"
  shows "steady data_kept (call_builtin H b n)"
proof -
  have groups: "list_all (every_arm (steady data_kept)) [display_builtin H b, device_builtin H b,
      app_builtin H b, service_builtin H b, wifi_builtin H b, config_builtin H b, binbook_builtin H b, file_builtin H b,
      system_builtin H b]"
    by (simp add: steady_display steady_device steady_app steady_service steady_wifi [OF assms] steady_config
        steady_binbook steady_file steady_system)
  show ?thesis
    unfolding call_builtin_def
    by (intro steady_intros data_steady every_arm_first_some [OF groups])
qed

section \<open>The VM invariant\<close>

definition frame_ok :: "nat \<Rightarrow> resume_frame \<Rightarrow> bool" where
  "frame_ok n f \<longleftrightarrow> length (fr_locals f) = MAX_LOCALS \<and> fr_start f \<le> fr_end f \<and> fr_end f \<le> n"

definition control_ok :: "vm \<Rightarrow> bool" where
  "control_ok m \<longleftrightarrow> length (vm_state m) = MAX_STATE \<and> length (vm_code m) = MAX_CODE_CHUNK_BYTES \<and>
     length (vm_storage_bytes m) = MAX_SAVED_STATE_BYTES \<and> vm_code_len m \<le> MAX_CODE_CHUNK_BYTES \<and>
     length (vm_frames m) = MAX_CALL_DEPTH + 1 \<and> vm_frame_count m \<le> MAX_CALL_DEPTH + 1 \<and>
     list_all (frame_ok (ix_code_len (vm_index m))) (vm_frames m)"

definition vm_ok :: "vm \<Rightarrow> bool" where
  "vm_ok m \<longleftrightarrow> data_ok m \<and> control_ok m"

text \<open>The invariant with at least \<open>k\<close> live frames.\<close>

definition live :: "nat \<Rightarrow> vm \<times> 'h \<Rightarrow> bool" where
  "live k s \<longleftrightarrow> vm_ok (fst s) \<and> k \<le> vm_frame_count (fst s)"

lemma live_mono: "live k s \<Longrightarrow> j \<le> k \<Longrightarrow> live j s"
  by (simp add: live_def)

lemma frame_ok_empty [simp]: "frame_ok n empty_frame"
  by (simp add: frame_ok_def empty_frame_def)

lemma control_ok_same: "vm_control m = vm_control m' \<Longrightarrow> control_ok m = control_ok m' \<and> vm_frame_count m = vm_frame_count m'"
  by (simp add: vm_control_def control_ok_def)

lemma steady_live:
  assumes "\<And>c. keeps (control_is c) m" and "steady data_kept m"
  shows "steady (live k) m"
proof (rule steadyI)
  fix s :: "vm \<times> 'a" assume s: "live k s"
  obtain r t where run: "m s = (r, t)" by (cases "m s")
  have "vm_control (fst t) = vm_control (fst s)" using keepsD [OF assms(1) refl, of s] run by simp
  note control_ok_same [OF this]
  moreover have "r \<noteq> Inl Panic \<and> data_kept t"
    using steadyD [OF assms(2) _ run] s by (simp add: live_def vm_ok_def)
  ultimately show "case m s of (r, t) \<Rightarrow> r \<noteq> Inl Panic \<and> live k t"
    using s run by (simp add: live_def vm_ok_def)
qed

named_theorems live_steady

lemma live_data [live_steady]:
  "steady (live k) (vm_push v)"
  "steady (live k) vm_pop"
  "steady (live k) pop_i32"
  "steady (live k) pop_sqbc_string_id"
  "steady (live k) pop_list"
  "steady (live k) (host_call q)"
  "steady (live k) (notify H n)"
  "steady (live k) (program_str sid)"
  "steady (live k) (vm_materialize v)"
  "steady (live k) (vm_res_of (\<lambda>m. lists_get (vm_lists m) u i))"
  "steady (live k) (vm_res_of (\<lambda>m. lists_len (vm_lists m) u))"
  "steady (live k) (vm_res_of (\<lambda>m. records_field (vm_records m) u' name))"
  "steady (live k) (on_records (records_alloc flds))"
  by (intro steady_live control_kept data_steady)+

lemma live_string [live_steady]:
  "(\<And>s. value = Some s \<Longrightarrow> utf8_valid s) \<Longrightarrow> steady (live k) (runtime_string_value value)"
  by (intro steady_live control_kept data_steady; simp)

lemma live_intern [live_steady]:
  "utf8_valid v \<Longrightarrow> steady (live k) (on_strings (\<lambda>strings. intern_dynamic strings v retained))"
  by (intro steady_live control_kept steady_intern; simp)

lemma live_builtin [live_steady]: "host_ok H \<Longrightarrow> steady (live k) (call_builtin H b n)"
  by (intro steady_live control_kept data_steady; simp)

lemma live_gets [live_steady]: "steady (live k) (vm_gets f)"
  by (rule steady_gets)

lemma live_parts:
  "live k s \<Longrightarrow> index_ok (vm_index (fst s))"
  "live k s \<Longrightarrow> table_total (index_table (vm_index (fst s)))"
  "live k s \<Longrightarrow> interner_inv (index_table (vm_index (fst s))) (vm_strings (fst s))"
  "live k s \<Longrightarrow> length (vm_state (fst s)) = MAX_STATE"
  "live k s \<Longrightarrow> tb_state_count (vm_index (fst s)) \<le> MAX_STATE"
  "live k s \<Longrightarrow> length (tb_state_slots (vm_index (fst s))) = MAX_STATE"
  "live k s \<Longrightarrow> length (vm_code (fst s)) = MAX_CODE_CHUNK_BYTES"
  "live k s \<Longrightarrow> length (vm_storage_bytes (fst s)) = MAX_SAVED_STATE_BYTES"
  by (auto simp: live_def vm_ok_def data_ok_parts control_ok_def dest!: data_ok_parts(1) simp: index_ok_def table_sizes_def)

text \<open>Reads.\<close>

lemma code_byte_no_panic: "vm_code_len m \<le> length (vm_code m) \<Longrightarrow> code_byte m i \<noteq> Inl Panic"
  unfolding code_byte_def Let_def by (intro no_panic) simp

lemma code_reads_no_panic:
  assumes "vm_code_len m \<le> length (vm_code m)"
  shows "read_u16_code m i \<noteq> Inl Panic" and "read_u32_code m i \<noteq> Inl Panic" and "read_i32_code m i \<noteq> Inl Panic"
  unfolding read_u16_code_def read_u32_code_def read_i32_code_def
  by (intro no_panic code_byte_no_panic assms)+

lemma live_code: "live k s \<Longrightarrow> vm_code_len (fst s) \<le> length (vm_code (fst s))"
  by (simp add: live_def vm_ok_def control_ok_def)

lemma live_reads [live_steady]:
  "steady (live k) (vm_res_of (\<lambda>m. code_byte m i))"
  "steady (live k) (vm_res_of (\<lambda>m. read_u16_code m i))"
  "steady (live k) (vm_res_of (\<lambda>m. read_u32_code m i))"
  "steady (live k) (vm_res_of (\<lambda>m. read_i32_code m i))"
  by (rule steady_res_of; intro code_byte_no_panic code_reads_no_panic; erule live_code)+

lemma index_screen_no_panic: "index_ok x \<Longrightarrow> index_screen x name \<noteq> Inl Panic"
  using index_screen_cases [of x name] by auto

lemma index_handler_no_panic: "index_ok x \<Longrightarrow> index_handler x name \<noteq> Inl Panic"
  using index_handler_cases [of x name] by auto

lemma live_lookups [live_steady]:
  "steady (live k) (vm_res_of (\<lambda>m. index_screen (vm_index m) name))"
  "steady (live k) (vm_res_of (\<lambda>m. index_handler (vm_index m) name))"
  "steady (live k) (vm_res_of (\<lambda>m. ok_or e (f m)))"
  by (rule steady_res_of; (intro index_screen_no_panic index_handler_no_panic basic_no_panic)?; (erule live_parts)?)+

lemma live_equal [live_steady]:
  "steady (live k) (vm_res_of (\<lambda>m. and_then (values_equal (index_table (vm_index m)) (vm_strings m) a b) (\<lambda>v. Inr (f v))))"
  "steady (live k) (vm_res_of (\<lambda>m. concat_value_strings (index_table (vm_index m)) (vm_strings m) a b))"
  by (rule steady_res_of; intro no_panic values_equal_no_panic concat_no_panic; erule live_parts)+

text \<open>Frames.\<close>

lemma live_frame_at [live_steady]:
  "i < k \<Longrightarrow> steady (live k) (frame_at i)"
  unfolding frame_at_def by (rule steady_res_of) (auto simp: live_def vm_ok_def control_ok_def)

lemma frames_update:
  assumes "vm_ok m" and "\<And>f. frame_ok (ix_code_len (vm_index m)) f \<Longrightarrow> frame_ok (ix_code_len (vm_index m)) (u f)"
    and "i < length (vm_frames m)"
  shows "vm_ok (m\<lparr>vm_frames := (vm_frames m)[i := u (vm_frames m ! i)]\<rparr>)"
proof -
  have "frame_ok (ix_code_len (vm_index m)) (vm_frames m ! i)"
    using assms(1,3) by (simp add: vm_ok_def control_ok_def list_all_length)
  with assms show ?thesis
    by (simp add: vm_ok_def control_ok_def data_ok_def list_all_update)
qed

lemma live_set_frame [live_steady]:
  assumes "i < k" and "\<And>n f. frame_ok n f \<Longrightarrow> frame_ok n (u f)"
  shows "steady (live k) (set_frame i u)"
proof (rule steadyI)
  fix s :: "vm \<times> 'h" assume s: "live k s"
  then have i: "i < length (vm_frames (fst s))" using assms(1) by (simp add: live_def vm_ok_def control_ok_def)
  from s frames_update [of "fst s" u i] i assms(2)
  show "case set_frame i u s of (r, t) \<Rightarrow> r \<noteq> Inl Panic \<and> live k t"
    by (auto simp: set_frame_def live_def split: prod.splits)
qed

lemma live_modify:
  assumes "\<And>s :: vm \<times> 'h. live k s \<Longrightarrow> live k (f (fst s), snd s)"
  shows "steady (live k) (vm_modify f :: ('h, unit) vm_exec)"
  by (rule steadyI) (simp add: vm_modify_def assms)

lemma live_updates [live_steady]:
  "steady (live k) (on_cache c)"
  "steady (live k) (vm_modify (\<lambda>m. m\<lparr>vm_current_screen := f2 m\<rparr>))"
  "steady (live k) (vm_modify (\<lambda>m. m\<lparr>vm_state := (vm_state m)[i := v]\<rparr>))"
  "steady (live k) (vm_modify (\<lambda>m. m\<lparr>vm_instructions := g m\<rparr>))"
  unfolding on_cache_def
  by (rule live_modify; simp add: live_def vm_ok_def data_ok_def control_ok_def)+

lemma live_push_frame:
  "triple (live k) (push_resume_frame kind start len depth)
     (\<lambda>child s. live (max k (Suc child)) s) (\<lambda>_. live k)"
proof -
  have push: "vm_ok (m\<lparr>vm_frames := (vm_frames m)[vm_frame_count m :=
        \<lparr>fr_kind = kind, fr_start = start, fr_end = start + len, fr_ip = start,
          fr_locals = replicate MAX_LOCALS VNull, fr_depth = depth, fr_pending = NoPending\<rparr>],
      vm_frame_count := Suc (vm_frame_count m)\<rparr>)"
    if "vm_ok m" "vm_frame_count m < length (vm_frames m)" "start + len \<le> ix_code_len (vm_index m)" for m
    using that by (simp add: vm_ok_def control_ok_def data_ok_def list_all_update frame_ok_def)
  show ?thesis
    unfolding triple_def push_resume_frame_def
    by (auto simp: throw_def lift_def bind_exec_def vm_gets_def ok_or_def checked_add_def set_frame_def
        vm_modify_def ret_def live_def intro!: push split: prod.splits)
qed

section \<open>Opcodes keep the invariant\<close>

lemma live_frames_read [live_steady]:
  "i < k \<Longrightarrow> steady (live k) (frame_ip i)"
  "i < k \<Longrightarrow> steady (live k) (advance i n)"
  unfolding frame_ip_def advance_def
  by (intro steady_intros live_steady; simp add: frame_ok_def)+

lemma live_operand [live_steady]:
  "i < k \<Longrightarrow> (\<And>ip. steady (live k) (vm_res_of (\<lambda>m. rd m ip) :: ('h, 'a) vm_exec)) \<Longrightarrow>
   steady (live k) (operand i rd w :: ('h, 'a) vm_exec)"
  unfolding operand_def by (intro steady_intros live_steady; assumption)

lemma live_add_values [live_steady]: "steady (live k) (add_values l r)"
proof -
  have "steady (live k) (bind_exec (vm_res_of (\<lambda>m. concat_value_strings (index_table (vm_index m)) (vm_strings m) l r))
      (\<lambda>bytes. bind_exec (lift (ok_or InvalidUtf8 (from_utf8 bytes))) (\<lambda>s. runtime_string_value (Some s))))"
  proof (rule steady_bind [OF live_equal(2)], rule steady_bind_with [where Q = utf8_valid])
    show "triple (live k) (lift (ok_or InvalidUtf8 (from_utf8 bytes))) (\<lambda>s t. live k t \<and> utf8_valid s) (\<lambda>_. live k)"
      for bytes by (rule triple_lift) auto
  qed (intro live_steady; simp)
  then show ?thesis
    unfolding add_values_def by (cases l; cases r) (simp_all del: exec_simps add: steady_basic)
qed

lemma compare_no_panic [no_panic]: "compare_i32 f a b \<noteq> Inl Panic"
  unfolding compare_i32_def by (intro no_panic)

lemma live_binary [live_steady]: "steady (live k) (binary_op op)"
  unfolding binary_op_def by (intro steady_intros live_steady no_panic)

lemma live_jump [live_steady]: "i < k \<Longrightarrow> steady (live k) (jump_to i target)"
  unfolding jump_to_def by (intro steady_intros live_steady; simp add: frame_ok_def)

lemma live_ops [live_steady]:
  "i < k \<Longrightarrow> steady (live k) (set_state_op i)"
  "i < k \<Longrightarrow> steady (live k) (get_field_op i)"
  "i < k \<Longrightarrow> steady (live k) (jump_if_false_op i)"
  unfolding set_state_op_def get_field_op_def jump_if_false_op_def
  by (intro steady_intros live_steady no_panic; assumption)+


lemma live_pop_args:
  assumes "n \<le> MAX_LOCALS" and "i < k"
  shows "steady (live k) (pop_args i n)"
  using assms(1)
proof (induction n)
  case (Suc n)
  have frame: "triple (live k) (frame_at i) (\<lambda>f s. live k s \<and> length (fr_locals f) = MAX_LOCALS) (\<lambda>_. live k)"
    using assms(2)
    by (auto simp: triple_def frame_at_def vm_res_of_def live_def vm_ok_def control_ok_def list_all_length frame_ok_def)
  show ?case
    unfolding pop_args.simps
    by (rule steady_bind [OF live_data(2)], rule steady_bind_with [OF frame])
      (use Suc assms(2) in \<open>intro steady_intros live_steady no_panic; simp add: frame_ok_def\<close>)
qed (simp only: pop_args.simps steady_basic)

section \<open>A turn of the loop\<close>

text \<open>Completing a frame leaves fewer live frames; the other opcodes keep them.\<close>

definition safe :: "nat \<Rightarrow> ('h, 'a) vm_exec \<Rightarrow> bool" where
  "safe k m \<longleftrightarrow> triple (live k) m (\<lambda>_. live 0) (\<lambda>_. live 0)"

lemma live_0: "live k s \<Longrightarrow> live 0 s"
  by (erule live_mono) simp

lemma safe_steady: "steady (live k) m \<Longrightarrow> safe k m"
  unfolding safe_def by (rule triple_weaken, erule steady_triple) (auto intro: live_0)

lemma safe_bind: "steady (live k) m \<Longrightarrow> (\<And>v. safe k (f v)) \<Longrightarrow> safe k (bind_exec m f)"
  unfolding safe_def
  by (rule triple_bind [where R = "\<lambda>_. live k"], rule triple_weaken, erule steady_triple)
    (auto intro: live_0)

lemma safe_if: "(b \<Longrightarrow> safe k m) \<Longrightarrow> (\<not> b \<Longrightarrow> safe k n) \<Longrightarrow> safe k (if b then m else n)"
  by simp

lemma safe_less: "safe j m \<Longrightarrow> j \<le> k \<Longrightarrow> safe k m"
  unfolding safe_def by (erule triple_weaken) (auto intro: live_mono)

lemma live_count: "triple (live k) (vm_gets vm_frame_count) (\<lambda>c. live c) (\<lambda>_. live 0)"
  by (auto simp: triple_def vm_gets_def live_def)

lemma safe_by_count:
  assumes "\<And>c. safe c (f c)"
  shows "safe k (bind_exec (vm_gets vm_frame_count) f)"
  unfolding safe_def using assms unfolding safe_def by (intro triple_bind [OF live_count])

lemma live_drop_frame: "triple (live k) (vm_modify (\<lambda>m. m\<lparr>vm_frame_count := vm_frame_count m - 1\<rparr>)) (\<lambda>_. live 0) E"
  by (auto simp: triple_def vm_modify_def live_def vm_ok_def data_ok_def control_ok_def)

lemma complete_safe: "safe k (complete_resume_frame v)"
  unfolding complete_resume_frame_def
proof (rule safe_by_count, rule safe_if)
  fix c :: nat assume "c \<noteq> 0"
  have tail: "triple (live c) (bind_exec (vm_modify (\<lambda>m. m\<lparr>vm_frame_count := vm_frame_count m - 1\<rparr>)) (\<lambda>_.
      if c - 1 > 0 \<and> b then vm_push w else ret ())) (\<lambda>_. live 0) (\<lambda>_. live 0)" for b w
    by (rule triple_bind [OF live_drop_frame]) (intro steady_triple steady_intros live_steady)
  show "safe c (bind_exec (frame_at (c - 1)) (\<lambda>frame.
      bind_exec (on_cache (end_execute (frame_chunk_ref (fr_kind frame)))) (\<lambda>_.
      bind_exec (set_frame (c - 1) (\<lambda>_. empty_frame)) (\<lambda>_.
      bind_exec (vm_modify (\<lambda>m. m\<lparr>vm_frame_count := vm_frame_count m - 1\<rparr>)) (\<lambda>_.
        if c - 1 > 0 \<and> is_function_frame (fr_kind frame)
        then vm_push (case v of None \<Rightarrow> VNull | Some v \<Rightarrow> v) else ret ())))))"
    by (intro safe_bind live_steady tail [folded safe_def]) (use \<open>c \<noteq> 0\<close> in simp_all)
qed (intro safe_steady steady_intros)

lemma safe_from_any:
  assumes "safe k m" and "\<And>v. safe 0 (f v)"
  shows "safe k (bind_exec m f)"
  using assms unfolding safe_def by (rule triple_bind)

lemma finish_safe: "safe k (finish_frame v)"
  unfolding finish_frame_def
  by (rule safe_from_any [OF complete_safe]) (intro safe_steady steady_intros live_steady)

lemma live_push_screen [live_steady]: "steady (live k) (push_screen_resume_frame sid depth)"
proof -
  have push: "steady (live k) (push_resume_frame a b c d)" for a b c d
    unfolding steady_def by (rule triple_weaken [OF live_push_frame]) (auto intro: live_mono)
  show ?thesis
    unfolding push_screen_resume_frame_def by (intro steady_intros live_steady push)
qed

lemma live_bind_stack_len:
  assumes "\<And>n. n \<le> MAX_STACK \<Longrightarrow> steady (live k) (f n)"
  shows "steady (live k) (bind_exec (vm_gets vm_stack_len) f)"
  by (rule steady_bind_with [where Q = "\<lambda>n. n \<le> MAX_STACK", OF _ assms])
    (auto simp: triple_def vm_gets_def live_def vm_ok_def data_ok_def)

lemma live_call_function [live_steady]:
  assumes "i < k" shows "steady (live k) (call_function_op i)"
proof -
  have enter: "steady (live k) (bind_exec (push_resume_frame a b c d) (\<lambda>child. pop_args child n))"
    if n: "n \<le> MAX_LOCALS" for a b c d n
    unfolding steady_def
  proof (rule triple_bind [OF live_push_frame])
    show "triple (live (max k (Suc child))) (pop_args child n) (\<lambda>_. live k) (\<lambda>_. live k)" for child
      by (rule triple_weaken [OF steady_triple [OF live_pop_args [OF n, of child "max k (Suc child)"]]])
        (auto intro: live_mono)
  qed
  show ?thesis
    unfolding call_function_op_def Let_def
    by (rule steady_bind, rule live_operand [OF assms live_reads(2)],
        rule steady_bind, rule live_operand [OF assms live_reads(2)],
        rule steady_bind [OF live_gets], rule steady_bind [OF steady_lift [OF basic_no_panic(3)]],
        intro steady_if steady_basic(2), rule live_bind_stack_len,
        intro steady_if steady_basic(2) steady_bind live_updates live_frame_at assms enter) simp
qed

lemma live_reset_state [live_steady]: "steady (live k) reset_state"
proof (rule steadyI)
  fix s :: "vm \<times> 'h" assume s: "live k s"
  show "case reset_state s of (r, t) \<Rightarrow> r \<noteq> Inl Panic \<and> live k t"
    using s live_parts(4-6) [OF s]
    by (auto simp: reset_state_def live_state_slots_def live_def vm_ok_def data_ok_def control_ok_def
        split: prod.splits)
qed

lemma live_state_names:
  "live k s \<Longrightarrow> length (live_state_slots (fst s)) = tb_state_count (vm_index (fst s))"
  using live_parts(5,6) [of k s] by (simp add: live_state_slots_def)

lemma encode_live_state_live:
  "triple (live k) encode_live_state (\<lambda>w s. live k s \<and> wbuf_ok MAX_SAVED_STATE_BYTES w) (\<lambda>_. live k)"
  unfolding triple_def
proof (intro allI impI)
  fix s :: "vm \<times> 'h" assume s: "live k s"
  obtain m h where mh: "s = (m, h)" by (cases s)
  note facts = live_parts [OF s]
  define r where "r = encode_state_record (index_table (vm_index m)) (vm_strings m) (live_state_slots m)
    (take (tb_state_count (vm_index m)) (vm_state m)) (vm_storage_bytes m)"
  have "writes_ok MAX_SAVED_STATE_BYTES r"
    using encode_state_record_ok [OF facts(3,2), of "vm_storage_bytes m"] facts(8) mh by (simp add: r_def)
  then show "case encode_live_state s of
      (Inr v, t) \<Rightarrow> live k t \<and> wbuf_ok MAX_SAVED_STATE_BYTES v
    | (Inl (Err e), t) \<Rightarrow> live k t | (Inl Panic, t) \<Rightarrow> False"
    using s facts(4-6) unfolding mh
    by (auto simp: encode_live_state_def r_def [symmetric] Let_def writes_ok_def wbuf_ok_def live_def
        vm_ok_def data_ok_def control_ok_def split: sum.splits fail.splits prod.splits)
qed

lemma live_builtin_resumable [live_steady]:
  assumes "host_ok H" shows "steady (live k) (call_builtin_resumable H b a)"
proof -
  have slice: "wbuf_ok MAX_SAVED_STATE_BYTES (out, len) \<Longrightarrow> slice_to out len \<noteq> Inl Panic" for out len
    by (simp add: wbuf_ok_def slice_to_def)
  have request: "request_state_save bytes \<noteq> Inl Panic" for bytes
    unfolding request_state_save_def by (intro no_panic)
  show ?thesis
    unfolding call_builtin_resumable_def
    by (intro steady_if steady_basic steady_bind_with [OF encode_live_state_live] steady_prod)
      (intro steady_intros live_steady slice request assms; simp)+
qed

lemma call_builtin_op_live:
  assumes "host_ok H" and "i < k" shows "steady (live k) (call_builtin_op H i)"
  unfolding call_builtin_op_def go_on_def
  by (intro steady_intros live_steady assms; simp add: frame_ok_def)

lemma go_on_live: "steady (live k) m \<Longrightarrow> safe k (go_on m)"
  unfolding go_on_def by (intro safe_steady steady_intros)

lemma exec_op_safe:
  assumes "host_ok H" and "i < k" shows "safe k (exec_op H i op)"
  unfolding exec_op_def
  by (intro safe_if go_on_live safe_bind [OF live_data(2) finish_safe] finish_safe
      safe_steady [OF call_builtin_op_live] safe_steady [OF steady_basic(2)] assms;
      intro steady_intros live_steady assms no_panic; simp add: frame_ok_def)

lemma live_bind_cap:
  assumes "\<And>a b d. steady (live k) (f (a, MAX_CODE_CHUNK_BYTES, b, d))"
  shows "steady (live k) (bind_exec (vm_gets (\<lambda>m. (g m, length (vm_code m), h m, j m))) f)"
  by (rule steady_bind_with [where Q = "\<lambda>(a, c, b, d). c = MAX_CODE_CHUNK_BYTES"])
    (auto simp: triple_def vm_gets_def live_parts assms)

lemma live_read_code:
  "len \<le> MAX_CODE_CHUNK_BYTES \<Longrightarrow> steady (live k) (read_code H offset len)"
  by (rule steadyI)
    (auto simp: read_code_def live_def vm_ok_def data_ok_def control_ok_def split: prod.splits sum.splits)

lemma live_code_range:
  "len \<le> MAX_CODE_CHUNK_BYTES \<Longrightarrow>
   steady (live k) (vm_modify (\<lambda>m. m\<lparr>vm_code_start := start, vm_code_len := len\<rparr>))"
  by (rule live_modify) (simp add: live_def vm_ok_def data_ok_def control_ok_def)

lemma live_load [live_steady]: "steady (live k) (load_chunk_resumable H start len)"
  unfolding load_chunk_resumable_def
  by (rule steady_bind [OF steady_lift [OF basic_no_panic(3)]], rule live_bind_cap)
    (simp only: prod.case, intro steady_if steady_basic steady_Let steady_bind live_data live_read_code
      live_code_range; simp)

lemma suspend_live: "i < k \<Longrightarrow> steady (live k) (suspend_read i r)"
  unfolding suspend_read_def by (cases r) (auto intro!: steady_bind live_set_frame steady_basic simp: frame_ok_def simp del: exec_simps)

lemma execute_instruction_safe:
  assumes "host_ok H" and "i < k" shows "safe k (execute_instruction H i ip)"
  unfolding execute_instruction_def
  by (intro safe_bind safe_if safe_steady [OF steady_basic(2)] exec_op_safe live_steady assms)
    (simp add: frame_ok_def)

lemma exec_step_safe:
  assumes "host_ok H" shows "safe k (exec_step H)"
  unfolding exec_step_def Let_def
proof (rule safe_by_count, rule safe_if)
  fix c :: nat assume "c \<noteq> 0"
  then have i: "c - 1 < c" by simp
  have tail: "safe c (case request of Some r \<Rightarrow> suspend_read (c - 1) r | None \<Rightarrow> execute_instruction H (c - 1) ip)"
    for request ip
    by (cases request; simp only: option.case; intro execute_instruction_safe assms i safe_steady suspend_live)
  show "safe c (bind_exec (frame_at (c - 1)) (\<lambda>f.
      if fr_ip f \<ge> fr_end f then finish_frame None else
    bind_exec (load_chunk_resumable H (fr_start f) (fr_end f - fr_start f)) (\<lambda>request.
      case request of Some r \<Rightarrow> suspend_read (c - 1) r | None \<Rightarrow> execute_instruction H (c - 1) (fr_ip f))))"
    by (intro safe_bind safe_if finish_safe tail live_steady i)
qed (intro safe_steady steady_intros)

text \<open>The loop: by its own recursion.\<close>

lemma safeD:
  assumes "safe k m" and "live k s" and "m s = (r, t)"
  shows "r \<noteq> Inl Panic \<and> live 0 t"
proof (cases r)
  case (Inl e)
  with triple_ErrD [OF assms(1) [unfolded safe_def] assms(2)] triple_no_panic [OF assms(1) [unfolded safe_def] assms(2)]
    assms(3) show ?thesis by (cases e) auto
next
  case (Inr v)
  with triple_InrD [OF assms(1) [unfolded safe_def] assms(2)] assms(3) show ?thesis by auto
qed

lemma safeI:
  fixes m :: "('h, 'a) vm_exec"
  assumes "\<And>s :: vm \<times> 'h. live k s \<Longrightarrow> fst (m s) \<noteq> Inl Panic \<and> live 0 (snd (m s))"
  shows "safe k m"
  unfolding safe_def triple_def
proof (intro allI impI)
  fix s :: "vm \<times> 'h" assume s: "live k s"
  obtain r t where run: "m s = (r, t)" by (cases "m s")
  from assms [OF s] run show "case m s of (Inr v, t) \<Rightarrow> live 0 t | (Inl (Err e), t) \<Rightarrow> live 0 t | (Inl Panic, t) \<Rightarrow> False"
    by (simp split: sum.splits fail.splits)
qed

lemma run_frames_live:
  assumes "host_ok H" and "live 0 s"
  shows "fst (run_frames H s) \<noteq> Inl Panic \<and> live 0 (snd (run_frames H s))"
  using assms
proof (induction H s rule: run_frames.induct)
  case (1 H s)
  obtain r t where step: "exec_step H s = (r, t)" by (cases "exec_step H s")
  from safeD [OF exec_step_safe [OF "1.prems"(1)] "1.prems"(2) step]
  have t: "r \<noteq> Inl Panic" "live 0 t" by auto
  show ?case
  proof (cases "r = Inr Continue")
    case True
    with "1.IH" [OF step [symmetric] True refl "1.prems"(1) t(2)] step show ?thesis
      by (simp add: run_frames.simps [of H s])
  next
    case False
    with step t show ?thesis
      by (auto simp: run_frames.simps [of H s] split: sum.splits turn.splits)
  qed
qed

lemma run_frames_safe: "host_ok H \<Longrightarrow> safe k (run_frames H)"
  by (intro safeI run_frames_live live_0)

section \<open>Storage requests\<close>

lemma live_load_record [live_steady]: "steady (live k) (load_state_record bytes)"
proof (rule steadyI)
  fix s :: "vm \<times> 'h" assume s: "live k s"
  obtain m h where mh: "s = (m, h)" by (cases s)
  note facts = live_parts [OF s]
  let ?n = "tb_state_count (vm_index m)"
  obtain r it st where run: "apply_state_record bytes (index_table (vm_index m)) (live_state_slots m)
      (vm_strings m, take ?n (vm_state m)) = (r, (it, st))"
    by (metis surj_pair)
  have "steady (index_strings.load_inv (vm_index m) ?n) (apply_state_record bytes (index_table (vm_index m)) (live_state_slots m))"
    unfolding steady_def
    by (rule index_strings.apply_state_record_triple) (use facts(2) live_state_names [OF s] mh in simp_all)
  from steadyD [OF this _ run] facts(3-6) mh
  have "r \<noteq> Inl Panic" "interner_inv (index_table (vm_index m)) it" "length st = ?n"
    by (simp_all add: index_strings.load_inv_def)
  with s run facts(4-6) show "case load_state_record bytes s of (r, t) \<Rightarrow> r \<noteq> Inl Panic \<and> live k t"
    unfolding mh
    by (auto simp: load_state_record_def Let_def live_def vm_ok_def data_ok_def control_ok_def)
qed

lemma host_state_load_live:
  assumes "host_ok H"
  shows "triple (live k) (host_state_load H)
    (\<lambda>n s. live k s \<and> (\<forall>l. n = Some l \<longrightarrow> l \<le> MAX_SAVED_STATE_BYTES)) (\<lambda>_. live k)"
  unfolding triple_def
proof (intro allI impI)
  fix s :: "vm \<times> 'a" assume s: "live k s"
  obtain r bs h where run: "h_state_load H (vm_storage_bytes (fst s)) (snd s) = (r, bs, h)" by (metis surj_pair)
  have "l \<le> MAX_SAVED_STATE_BYTES" if "r = Inr (Some l)" for l
    using host_ok_state_load [OF assms run [unfolded that]] live_parts(8) [OF s] by simp
  with s run show "case host_state_load H s of
      (Inr n, t) \<Rightarrow> live k t \<and> (\<forall>l. n = Some l \<longrightarrow> l \<le> MAX_SAVED_STATE_BYTES)
    | (Inl (Err e), t) \<Rightarrow> live k t | (Inl Panic, t) \<Rightarrow> False"
    by (auto simp: host_state_load_def live_def vm_ok_def data_ok_def control_ok_def split: prod.splits sum.splits)
qed

lemma steady_case_request [steady_intros]:
  assumes "\<And>a b. steady P (f a b)" and "\<And>x. steady P (g x)" and "steady P h" and "steady P k"
  shows "steady P (case r of SqbcRead a b \<Rightarrow> f a b | StateLoad \<Rightarrow> h | StateSave x \<Rightarrow> g x | StateReset \<Rightarrow> k)"
  using assms by (cases r) simp_all

lemma live_load_bytes:
  assumes "\<And>n (s :: vm \<times> 'h). len = Some n \<Longrightarrow> live k s \<Longrightarrow> n \<le> length (src (fst s))"
  shows "steady (live k) (load_state_bytes src len :: ('h, unit) vm_exec)"
  unfolding load_state_bytes_def
  by (intro steady_option steady_basic steady_bind steady_res_of live_steady) (simp add: slice_to_def assms)

lemma live_bind_code_offset:
  assumes "\<And>a. steady (live k) (f (a, MAX_CODE_CHUNK_BYTES))"
  shows "steady (live k) (bind_exec (vm_gets (\<lambda>m. (g m, length (vm_code m)))) f)"
  by (rule steady_bind_with [where Q = "\<lambda>(a, c). c = MAX_CODE_CHUNK_BYTES"])
    (auto simp: triple_def vm_gets_def live_parts assms)

lemma serve_request_live:
  assumes "host_ok H" and "i < k" shows "steady (live k) (serve_request H i r)"
proof -
  have read: "steady (live k) (bind_exec (frame_at i) (\<lambda>f.
      bind_exec (vm_gets (\<lambda>m. (ix_code_offset (vm_index m), length (vm_code m)))) (\<lambda>(code_offset, cap).
        if offset \<noteq> code_offset + fr_start f \<or> len > cap then throw ReadFailed else
      bind_exec (read_code H offset len) (\<lambda>_.
        vm_modify (\<lambda>m. m\<lparr>vm_code_start := fr_start f, vm_code_len := len\<rparr>)))))" for offset len
    by (rule steady_bind [OF live_frame_at [OF assms(2)]], rule live_bind_code_offset)
      (simp only: prod.case, intro steady_if steady_basic steady_bind live_read_code live_code_range; simp)
  have load: "steady (live k) (bind_exec (host_state_load H) (\<lambda>len.
      bind_exec (load_state_bytes vm_storage_bytes len) (\<lambda>_. notify H n)))" for n
    by (rule steady_bind_with [OF host_state_load_live [OF assms(1)]],
      intro steady_bind live_load_bytes live_data) (simp add: live_parts(8))
  show ?thesis
    unfolding serve_request_def
    by (intro steady_case_request read load steady_bind live_steady)
qed

lemma clear_pending_live: "i < k \<Longrightarrow> steady (live k) (clear_pending i)"
  unfolding clear_pending_def by (intro live_steady) (simp_all add: frame_ok_def)

lemma resume_immediate_safe:
  assumes "host_ok H" shows "safe k (resume_immediate_storage H r)"
  unfolding resume_immediate_storage_def
proof (rule safe_by_count, rule safe_if)
  fix c :: nat assume "c \<noteq> 0"
  then have i: "c - 1 < c" by simp
  show "safe c (bind_exec (serve_request H (c - 1) r) (\<lambda>_. bind_exec (clear_pending (c - 1)) (\<lambda>_. run_frames H)))"
    by (intro safe_bind serve_request_live clear_pending_live run_frames_safe assms i)
qed (intro safe_steady steady_intros)

text \<open>A completion fits the request when it brings the bytes the pending frame asked for.\<close>

definition completion_fits :: "vm \<Rightarrow> storage_completion \<Rightarrow> bool" where
  "completion_fits m c \<longleftrightarrow>
     vm_frame_count m = 0 \<or>
     (case fr_pending (top_frame m) of
        PendingRead offset len \<Rightarrow> min len MAX_CODE_CHUNK_BYTES \<le> length (cp_bytes c)
      | PendingStateLoad \<Rightarrow> (case cp_len c of None \<Rightarrow> True | Some n \<Rightarrow> n \<le> length (cp_bytes c))
      | _ \<Rightarrow> True)"

lemma accept_completion_live:
  assumes fits: "case fr_pending f of
        PendingRead offset len \<Rightarrow> min len MAX_CODE_CHUNK_BYTES \<le> length (cp_bytes c)
      | PendingStateLoad \<Rightarrow> (case cp_len c of None \<Rightarrow> True | Some n \<Rightarrow> n \<le> length (cp_bytes c))
      | _ \<Rightarrow> True"
  shows "steady (live k) (accept_completion H i f c)"
proof (cases "fr_pending f")
  case (PendingRead offset len)
  have store: "steady (live k) (bind_exec (lift (slice_to (cp_bytes c) (min len MAX_CODE_CHUNK_BYTES))) (\<lambda>bs.
      vm_modify (\<lambda>m. m\<lparr>vm_code := splice (vm_code m) 0 bs, vm_code_start := fr_start f,
        vm_code_len := min len MAX_CODE_CHUNK_BYTES\<rparr>)))"
  proof (rule steady_bind_with [where Q = "\<lambda>bs. length bs = min len MAX_CODE_CHUNK_BYTES"])
    show "triple (live k) (lift (slice_to (cp_bytes c) (min len MAX_CODE_CHUNK_BYTES)))
        (\<lambda>v s. live k s \<and> length v = min len MAX_CODE_CHUNK_BYTES) (\<lambda>_. live k)"
      by (rule triple_lift) (use fits PendingRead in \<open>auto simp: slice_to_def\<close>)
  next
    fix bs :: "u8 list" assume "length bs = min len MAX_CODE_CHUNK_BYTES"
    then show "steady (live k) (vm_modify (\<lambda>m. m\<lparr>vm_code := splice (vm_code m) 0 bs,
        vm_code_start := fr_start f, vm_code_len := min len MAX_CODE_CHUNK_BYTES\<rparr>))"
      by (intro live_modify) (simp add: live_def vm_ok_def data_ok_def control_ok_def)
  qed
  show ?thesis
    unfolding accept_completion_def PendingRead pending_storage.case
    by (rule live_bind_code_offset) (simp only: prod.case Let_def, intro steady_if steady_basic store)
next
  case PendingStateLoad
  with fits show ?thesis
    unfolding accept_completion_def
    by (simp only: pending_storage.case) (intro steady_bind live_load_bytes live_data, simp)
qed (simp_all only: accept_completion_def pending_storage.case live_data steady_basic)

section \<open>Events\<close>

lemma live_retain_state [live_steady]: "steady (live k) vm_retain_state"
proof (rule steadyI)
  fix s :: "vm \<times> 'h" assume s: "live k s"
  obtain m h where mh: "s = (m, h)" by (cases s)
  note facts = live_parts [OF s]
  let ?n = "tb_state_count (vm_index m)"
  obtain r it ws where run: "retain_state_values (index_table (vm_index m)) (vm_strings m) (take ?n (vm_state m)) = (r, it, ws)"
    by (metis surj_pair)
  from index_strings.retain_state_values_inv [OF _ _ run] facts(2-5) mh
  have "interner_inv (index_table (vm_index m)) it" "r \<noteq> Inl Panic" "length ws = ?n" by auto
  with s run facts(4,5) show "case vm_retain_state s of (r, t) \<Rightarrow> r \<noteq> Inl Panic \<and> live k t"
    unfolding mh
    by (auto simp: vm_retain_state_def Let_def live_def vm_ok_def data_ok_def control_ok_def)
qed

lemma live_payload_record [live_steady]: "steady (live k) (event_payload_record payload)"
  unfolding event_payload_record_def intern_runtime_def
  by (intro steady_intros live_steady no_panic; simp)

lemma bind_payload_live:
  assumes "i < k" shows "steady (live k) (bind_payload i n payload)"
proof -
  have frame: "triple (live k) (frame_at i) (\<lambda>f s. live k s \<and> length (fr_locals f) = MAX_LOCALS) (\<lambda>_. live k)"
    using assms
    by (auto simp: triple_def frame_at_def vm_res_of_def live_def vm_ok_def control_ok_def list_all_length frame_ok_def)
  have store: "steady (live k) (bind_exec (frame_at i) (\<lambda>f.
      bind_exec (lift (if 0 < length (fr_locals f) then Inr () else Inl Panic)) (\<lambda>_.
        set_frame i (\<lambda>f. f\<lparr>fr_locals := (fr_locals f)[0 := v]\<rparr>))))" for v
    by (rule steady_bind_with [OF frame], intro steady_bind steady_lift live_set_frame assms)
      (simp_all add: frame_ok_def)
  show ?thesis
    unfolding bind_payload_def by (intro steady_if steady_basic steady_bind steady_option live_steady store)
qed

lemma live_resets [live_steady]:
  "steady (live 0) (vm_modify (\<lambda>m. m\<lparr>vm_records := records_reset (vm_records m),
     vm_lists := lists_reset (vm_lists m)\<rparr>))"
  "steady (live 0) (vm_modify (\<lambda>m. m\<lparr>vm_instructions := 0, vm_frame_count := 0\<rparr>))"
  by (rule live_modify; simp add: live_def vm_ok_def data_ok_def control_ok_def)+

lemma enter_handler_safe:
  assumes "host_ok H" shows "safe 0 (enter_handler H index handler payload)"
proof -
  have enter: "safe 0 (bind_exec (push_resume_frame a b c d) (\<lambda>i.
      bind_exec (bind_payload i n payload) (\<lambda>_. run_frames H)))" for a b c d n
    unfolding safe_def
  proof (rule triple_bind [where R = "\<lambda>child. live (Suc child)"])
    show "triple (live 0) (push_resume_frame a b c d) (\<lambda>child. live (Suc child)) (\<lambda>_. live 0)"
      by (rule triple_weaken [OF live_push_frame]) (auto intro: live_mono)
    show "triple (live (Suc child)) (bind_exec (bind_payload child n payload) (\<lambda>_. run_frames H)) (\<lambda>_. live 0) (\<lambda>_. live 0)"
      for child
      unfolding safe_def [symmetric] by (intro safe_bind bind_payload_live run_frames_safe assms) simp
  qed
  show ?thesis
    unfolding enter_handler_def by (intro safe_bind enter live_steady)
qed

lemma dispatch_with_payload_safe:
  assumes "host_ok H" shows "safe 0 (dispatch_resumable_with_payload H event payload)"
proof -
  have handler: "steady (live 0) (vm_res_of (\<lambda>m. index_handler (vm_index m) event))"
    by (rule live_lookups)
  show ?thesis
    unfolding dispatch_resumable_with_payload_def Let_def
    by (rule safe_bind [OF live_gets], rule safe_if, intro safe_steady steady_basic,
        rule safe_bind [OF handler], simp only: split_def,
        rule safe_if, intro safe_steady steady_basic,
        intro safe_bind enter_handler_safe [OF assms] live_steady)
qed

lemma dispatch_loop_live:
  assumes "host_ok H" and "live 0 s"
  shows "fst (dispatch_loop H d s) \<noteq> Inl Panic \<and> live 0 (snd (dispatch_loop H d s))"
  using assms
proof (induction H d s rule: dispatch_loop.induct)
  case (1 H d s)
  show ?case
  proof (cases d)
    case Complete
    with "1.prems" show ?thesis by (simp add: dispatch_loop.simps)
  next
    case (PendingStorage q)
    obtain r t where run: "resume_immediate_storage H q s = (r, t)" by (cases "resume_immediate_storage H q s")
    from safeD [OF resume_immediate_safe [OF "1.prems"(1)] "1.prems"(2) run]
    have t: "r \<noteq> Inl Panic" "live 0 t" by auto
    show ?thesis
    proof (cases r)
      case (Inl e)
      with run t PendingStorage show ?thesis by (simp add: dispatch_loop.simps [of H "PendingStorage q" s])
    next
      case (Inr d')
      from "1.IH" [OF PendingStorage run [symmetric] Inr "1.prems"(1) t(2)] run Inr PendingStorage
      show ?thesis by (simp add: dispatch_loop.simps [of H "PendingStorage q" s])
    qed
  qed
qed

lemma dispatch_live:
  assumes "host_ok H" and "live 0 s"
  shows "fst (dispatch H event s) \<noteq> Inl Panic \<and> live 0 (snd (dispatch H event s))"
proof -
  have body: "safe 0 (bind_exec (dispatch_resumable H event) (dispatch_loop H))"
    unfolding dispatch_resumable_def
    by (rule safe_from_any [OF dispatch_with_payload_safe [OF assms(1)]])
      (intro safeI dispatch_loop_live assms(1))
  obtain r t where run: "bind_exec (dispatch_resumable H event) (dispatch_loop H) s = (r, t)"
    by (metis surj_pair)
  obtain r' t' where down: "host_call (h_command H ServiceWifiTeardown) t = (r', t')" by (metis surj_pair)
  from safeD [OF body assms(2) run] have t: "r \<noteq> Inl Panic" "live 0 t" by auto
  from steadyD [OF live_data(6) t(2) down] t run down show ?thesis
    by (auto simp: dispatch_def split: sum.splits fail.splits)
qed

lemma resume_storage_live:
  assumes "host_ok H" and "live 0 s" and fits: "completion_fits (fst s) c"
  shows "fst (resume_storage H c s) \<noteq> Inl Panic \<and> live 0 (snd (resume_storage H c s))"
proof (cases "vm_frame_count (fst s) = 0")
  case True
  with assms(2) show ?thesis by (simp add: resume_storage_def)
next
  case False
  let ?i = "vm_frame_count (fst s) - 1"
  have i: "?i < vm_frame_count (fst s)" and live: "live (vm_frame_count (fst s)) s"
    and len: "?i < length (vm_frames (fst s))"
    using False assms(2) by (auto simp: live_def vm_ok_def control_ok_def)
  have run: "resume_storage H c s = bind_exec (accept_completion H ?i (top_frame (fst s)) c) (\<lambda>_.
      bind_exec (clear_pending ?i) (\<lambda>_. run_frames H)) s"
    using False len by (simp add: resume_storage_def)
  have "safe (vm_frame_count (fst s)) (bind_exec (accept_completion H ?i (top_frame (fst s)) c) (\<lambda>_.
      bind_exec (clear_pending ?i) (\<lambda>_. run_frames H)))"
    using fits False
    by (intro safe_bind accept_completion_live clear_pending_live run_frames_safe assms(1) i)
      (simp add: completion_fits_def)
  from safeD [OF this live, of "fst (resume_storage H c s)" "snd (resume_storage H c s)"] run
  show ?thesis by simp
qed

lemma vm_new_ok: "index_ok x \<Longrightarrow> vm_ok (vm_new x)"
  by (simp add: vm_ok_def data_ok_def control_ok_def vm_new_def initial_state_def list_all_length)

section \<open>The program stays the same\<close>

abbreviation index_is where
  "index_is x s \<equiv> vm_index (fst s) = x"

named_theorems index_kept

lemma keeps_index: "(\<And>c. keeps (instr_is c) m) \<Longrightarrow> keeps (index_is x) m"
  unfolding keeps_def by fastforce

lemma index_parts [index_kept]:
  "keeps (index_is x) (vm_gets f)"
  "keeps (index_is x) (vm_res_of g)"
  "keeps (index_is x) (frame_at i)"
  "keeps (index_is x) (set_frame i u)"
  "keeps (index_is x) (finish_frame v)"
  "keeps (index_is x) (load_chunk_resumable H start len)"
  "keeps (index_is x) (exec_op H i op)"
  "keeps (index_is x) (serve_request H i r)"
  "keeps (index_is x) (host_call q)"
  "keeps (index_is x) (on_cache c)"
  "keeps (index_is x) (push_resume_frame k a b d)"
  by (intro keeps_index instr_kept)+

lemma index_modify [index_kept]:
  "keeps (index_is x) (vm_modify (\<lambda>m. m\<lparr>vm_instructions := g m\<rparr>))"
  "keeps (index_is x) (vm_modify (\<lambda>m. m\<lparr>vm_instructions := g m, vm_frame_count := k\<rparr>))"
  "keeps (index_is x) (vm_modify (\<lambda>m. m\<lparr>vm_records := r m, vm_lists := l m\<rparr>))"
  "keeps (index_is x) (notify H n)"
  by (simp_all add: keeps_def vm_modify_def notify_def)

lemma index_exec_step [index_kept]: "keeps (index_is x) (exec_step H)"
  unfolding exec_step_def execute_instruction_def suspend_read_def by (intro keeps_intros index_kept)

lemma index_run_frames [index_kept]: "keeps (index_is x) (run_frames H)"
  by (rule keeps_run_frames [OF index_exec_step])

lemma index_resume [index_kept]: "keeps (index_is x) (resume_immediate_storage H r)"
  unfolding resume_immediate_storage_def clear_pending_def by (intro keeps_intros index_kept)

lemma index_retain [index_kept]: "keeps (index_is x) vm_retain_state"
  by (simp add: keeps_def vm_retain_state_def Let_def split: prod.splits)

lemma index_payload [index_kept]: "keeps (index_is x) (bind_payload i n payload)"
proof -
  have strings: "keeps (index_is x) (on_strings f)" "keeps (index_is x) (on_records g)" for f g
    by (simp_all add: keeps_def on_strings_def on_records_def split: prod.splits)
  show ?thesis
    unfolding bind_payload_def event_payload_record_def
    by (intro keeps_intros index_kept keeps_exec_map strings)
qed

lemma index_dispatch_resumable [index_kept]: "keeps (index_is x) (dispatch_resumable_with_payload H event payload)"
  unfolding dispatch_resumable_with_payload_def enter_handler_def by (intro keeps_intros index_kept)

lemma index_dispatch: "keeps (index_is x) (dispatch H event)"
  by (rule keeps_dispatch; intro index_kept)

section \<open>The VM is safe\<close>


lemma sample_index: obtains x where "index_from_program sample_program = Inr x" and "index_ok x"
  using index_of_program [OF sample_parse] by blast




text \<open>The same loop with at most \<open>n\<close> turns.\<close>

fun run_turns :: "nat \<Rightarrow> 'h host \<Rightarrow> vm \<times> 'h \<Rightarrow> (vm_dispatch vm_res \<times> vm \<times> 'h) option" where
  "run_turns 0 H s = None"
| "run_turns (Suc n) H s =
     (case exec_step H s of
        (Inl e, t) \<Rightarrow> Some (Inl e, t)
      | (Inr Continue, t) \<Rightarrow> run_turns n H t
      | (Inr (Return d), t) \<Rightarrow> Some (Inr d, t))"

lemma run_turns_enough:
  assumes "host_ok H" and "live 0 s"
    and "6 * (1001 - vm_instructions (fst s)) + vm_frame_count (fst s) < n"
  shows "run_turns n H s = Some (run_frames H s)"
  using assms
proof (induction n arbitrary: s)
  case (Suc n)
  obtain r t where step: "exec_step H s = (r, t)" by (cases "exec_step H s")
  from safeD [OF exec_step_safe [OF Suc.prems(1)] Suc.prems(2) step] have live: "live 0 t" by simp
  show ?case
  proof (cases "r = Inr Continue")
    case True
    have "vm_frame_count (fst t) \<le> 5" using live by (simp add: live_def vm_ok_def control_ok_def)
    with exec_step_cases [OF step [unfolded True]] Suc.prems(3)
    have "6 * (1001 - vm_instructions (fst t)) + vm_frame_count (fst t) < n" by auto
    with Suc.IH [OF Suc.prems(1) live] step True show ?thesis by (simp add: run_frames.simps [of H s])
  next
    case False
    with step show ?thesis by (auto simp: run_frames.simps [of H s] split: sum.splits turn.splits)
  qed
qed simp

text \<open>
  C21: the interpreter always stops: for every program and host, the loop of an event ends
  within 6012 turns (1000 instructions, and the frames they pushed to complete).
\<close>

theorem event_terminates:
  assumes "host_ok H" and "vm_ok m"
  shows "run_turns 6012 H (m, h) = Some (run_frames H (m, h))"
proof (rule run_turns_enough [OF assms(1)])
  show "live 0 (m, h)" using assms(2) by (simp add: live_def)
  have "vm_frame_count m \<le> 5" using assms(2) by (simp add: vm_ok_def control_ok_def)
  then show "6 * (1001 - vm_instructions (fst (m, h))) + vm_frame_count (fst (m, h)) < 6012" by simp
qed

lemma event_terminates_witness:
  "\<exists>m. vm_ok m \<and> run_turns 6012 (default_host (\<lambda>t. (#) t) (memory_read [42])) (m, []) =
    Some (run_frames (default_host (\<lambda>t. (#) t) (memory_read [42])) (m, []))"
proof -
  obtain x where x: "index_ok x" by (rule sample_index)
  show ?thesis
    by (rule exI, rule conjI [OF vm_new_ok [OF x]], rule event_terminates [OF default_host_ok vm_new_ok [OF x]])
qed

lemma run_frames_budget:
  "run_frames H s = (Inr d, t) \<Longrightarrow> vm_instructions (fst s) \<le> 1000 \<Longrightarrow> vm_instructions (fst t) \<le> 1000"
proof (induction H s rule: run_frames.induct)
  case (1 H s)
  obtain r u where step: "exec_step H s = (r, u)" by (cases "exec_step H s")
  with "1.prems" obtain e where r: "r = Inr e" by (cases r) (auto simp: run_frames.simps [of H s])
  from exec_step_cases [OF step [unfolded r]] "1.prems"(2) have u: "vm_instructions (fst u) \<le> 1000" by auto
  show ?case
  proof (cases e)
    case Continue
    with "1.IH" [OF step [symmetric] r Continue _ u] "1.prems" step r show ?thesis
      by (simp add: run_frames.simps [of H s])
  next
    case (Return d')
    with "1.prems" step r u show ?thesis by (simp add: run_frames.simps [of H s])
  qed
qed

lemma instr_bind_payload: "keeps (instr_is c) (bind_payload i n payload)"
proof -
  have strings: "keeps (instr_is c) (on_strings f)" "keeps (instr_is c) (on_records g)" for f g
    by (simp_all add: keeps_def on_strings_def on_records_def split: prod.splits)
  show ?thesis
    unfolding bind_payload_def event_payload_record_def
    by (intro keeps_intros instr_kept keeps_exec_map strings)
qed

lemma enter_handler_budget:
  assumes "enter_handler H index handler payload s = (Inr d, t)"
  shows "vm_instructions (fst t) \<le> 1000"
proof -
  let ?s = "((fst s)\<lparr>vm_instructions := 0, vm_frame_count := 0\<rparr>, snd s)"
  from assms obtain i u v w where run:
    "push_resume_frame (HandlerFrame (of_nat index)) (h_start handler) (h_len handler) 0 ?s = (Inr i, u)"
    "bind_payload i (h_param_count handler) payload u = (Inr w, v)" "run_frames H v = (Inr d, t)"
    by (auto simp: enter_handler_def dest!: bind_exec_InrD)
  have "instr_is (0, vm_index (fst s)) (snd (push_resume_frame (HandlerFrame (of_nat index))
      (h_start handler) (h_len handler) 0 ?s))"
    by (rule keepsD [OF instr_frames(1)]) simp
  then have u: "instr_is (0, vm_index (fst s)) u" using run(1) by simp
  have "instr_is (0, vm_index (fst s)) (snd (bind_payload i (h_param_count handler) payload u))"
    by (rule keepsD [OF instr_bind_payload u])
  then have "vm_instructions (fst v) = 0" using run(2) by simp
  with run_frames_budget [OF run(3)] show ?thesis by simp
qed


end
