(* ===== verification/Vm_Types.thy ===== *)
theory Vm_Types
  imports Vm_Safety
begin

text \<open>
  The state slots of the VM always hold values of their declared types: the interpreter's
  store, \<open>set_state_value\<close>, a reset, the retention of strings and a loaded record are the
  only writers, and each checks or preserves the type.  \<open>vm_reach\<close> collects the states a VM
  can reach through its public operations; the invariants of \<open>Vm_Safety\<close> and the types hold
  on all of them.  The end of the theory states safety from a file's bytes: a parsed
  program makes a VM, and no sequence of events makes it panic.
\<close>

section \<open>State slots hold values of their types\<close>

definition slot_accepts :: "state_slot \<Rightarrow> vm_value \<Rightarrow> bool" where
  "slot_accepts slot v = state_value_matches (st_tag (s_type slot)) (st_nullable (s_type slot)) v"

definition state_typed :: "vm \<Rightarrow> bool" where
  "state_typed m \<longleftrightarrow> index_ok (vm_index m) \<and>
     list_all2 slot_accepts (live_state_slots m) (take (tb_state_count (vm_index m)) (vm_state m))"

abbreviation typed where
  "typed s \<equiv> state_typed (fst s)"

named_theorems typed_kept

lemma typed_same: "vm_index m = vm_index m' \<Longrightarrow> vm_state m = vm_state m' \<Longrightarrow> state_typed m = state_typed m'"
  by (simp add: state_typed_def live_state_slots_def)

lemma keeps_typed: "(\<And>c. keeps (control_is c) m) \<Longrightarrow> keeps typed m"
  unfolding keeps_def vm_control_def using typed_same by (metis prod.inject)

lemma typed_parts [typed_kept]:
  "keeps typed (vm_gets f)"
  "keeps typed (vm_res_of g)"
  "keeps typed (host_call k)"
  "keeps typed (notify H n)"
  "keeps typed (vm_push v)"
  "keeps typed vm_pop"
  "keeps typed pop_i32"
  "keeps typed pop_list"
  "keeps typed pop_sqbc_string_id"
  "keeps typed (program_str sid)"
  "keeps typed (runtime_string_value s)"
  "keeps typed (on_records r)"
  "keeps typed (on_strings st)"
  "keeps typed (call_builtin H b a)"
  by (intro keeps_typed control_kept)+

lemma typed_primitives [typed_kept]:
  "keeps typed (frame_at i)"
  "keeps typed (set_frame i u)"
  "keeps typed (on_cache c)"
  "keeps typed (read_code H off len)"
  "keeps typed encode_live_state"
  "keeps typed (host_state_load H)"
  by (auto intro!: keepsI simp: frame_at_def vm_res_of_def set_frame_def on_cache_def vm_modify_def
      read_code_def encode_live_state_def host_state_load_def Let_def state_typed_def live_state_slots_def
      split: prod.splits sum.splits)

lemma typed_modify [typed_kept]:
  "keeps typed (vm_modify (\<lambda>m. m\<lparr>vm_frame_count := f1 m\<rparr>))"
  "keeps typed (vm_modify (\<lambda>m. m\<lparr>vm_current_screen := f2 m\<rparr>))"
  "keeps typed (vm_modify (\<lambda>m. m\<lparr>vm_code_start := f4 m, vm_code_len := f5 m\<rparr>))"
  "keeps typed (vm_modify (\<lambda>m. m\<lparr>vm_code := f6 m, vm_code_start := f4 m, vm_code_len := f5 m\<rparr>))"
  "keeps typed (vm_modify (\<lambda>m. m\<lparr>vm_instructions := f7 m\<rparr>))"
  "keeps typed (vm_modify (\<lambda>m. m\<lparr>vm_instructions := f7 m, vm_frame_count := f1 m\<rparr>))"
  "keeps typed (vm_modify (\<lambda>m. m\<lparr>vm_records := f8 m, vm_lists := f9 m\<rparr>))"
  by (simp_all add: keeps_def vm_modify_def state_typed_def live_state_slots_def)

text \<open>Where a value is written: a store of the interpreter, a reset, a load and a retention.\<close>

lemma typed_store:
  assumes "state_typed m" and "i < tb_state_count (vm_index m)" and "i < length (tb_state_slots (vm_index m))"
    and "slot_accepts (tb_state_slots (vm_index m) ! i) v"
  shows "state_typed (m\<lparr>vm_state := (vm_state m)[i := v]\<rparr>)"
proof -
  have "live_state_slots m ! i = tb_state_slots (vm_index m) ! i" using assms(2,3) by (simp add: live_state_slots_def)
  with assms show ?thesis
    by (auto simp: state_typed_def live_state_slots_def list_all2_conv_all_nth nth_list_update min_def split: if_splits)
qed

lemma typed_set_state [typed_kept]: "keeps typed (set_state_op i)"
proof (rule keepsI)
  fix s :: "vm \<times> 'h" assume s: "typed s"
  have pre: "keeps typed (operand i read_u16_code 2)" "keeps typed (vm_materialize v)" for v
    unfolding operand_def frame_ip_def advance_def vm_materialize_def by (intro keeps_intros typed_kept)+
  have store: "keeps typed (bind_exec (vm_gets vm_index) (\<lambda>x.
      bind_exec (lift (ok_or StateOutOfBounds (get_at (tb_state_slots x) k))) (\<lambda>slot.
        if k \<ge> tb_state_count x \<or> \<not> state_value_matches (st_tag (s_type slot)) (st_nullable (s_type slot)) v
        then throw InvalidOperand else
      bind_exec (vm_res_of (\<lambda>m. ok_or StateOutOfBounds (get_at (vm_state m) k))) (\<lambda>_.
        vm_modify (\<lambda>m. m\<lparr>vm_state := (vm_state m)[k := v]\<rparr>)))))" for k v
    by (auto intro!: keepsI typed_store simp: bind_exec_def vm_gets_def vm_res_of_def vm_modify_def
        get_at_def slot_accepts_def split: if_splits prod.splits sum.splits)
  have "keeps typed (set_state_op i)"
    unfolding set_state_op_def Let_def by (intro keeps_bind pre store typed_kept)
  with s show "typed (snd (set_state_op i s))" by (rule keepsD [rotated])
qed

lemma typed_replace:
  assumes "state_typed m" and "list_all2 slot_accepts (live_state_slots m) ws"
    and "tb_state_count (vm_index m) \<le> length (vm_state m)"
  shows "state_typed (m\<lparr>vm_strings := it, vm_state := splice (vm_state m) 0 ws\<rparr>)"
proof -
  have "length ws = tb_state_count (vm_index m)"
    using list_all2_lengthD [OF assms(2)] list_all2_lengthD [of slot_accepts] assms(1,3)
    by (auto simp: state_typed_def dest!: list_all2_lengthD)
  with assms show ?thesis
    by (simp add: state_typed_def live_state_slots_def splice_def)
qed

lemma defaults_accepted:
  assumes "index_ok x"
  shows "list_all2 slot_accepts (live_slots x) (map s_default (live_slots x))"
proof -
  have "list_all (\<lambda>slot. slot_accepts slot (s_default slot)) (live_slots x)"
    using assms by (auto simp: index_ok_def table_rows_ok_def state_slot_ok_def slot_accepts_def list_all_iff)
  then show ?thesis by (simp add: list_all2_conv_all_nth list_all_length)
qed

lemma typed_reset [typed_kept]: "keeps typed reset_state"
proof (rule keepsI)
  fix s :: "vm \<times> 'h" assume s: "typed s"
  obtain m h where mh: "s = (m, h)" by (cases s)
  have d: "list_all2 slot_accepts (live_state_slots m) (map s_default (live_state_slots m))"
    using defaults_accepted [of "vm_index m"] s by (simp add: mh state_typed_def live_state_slots_def)
  have "index_ok (vm_index m)" using s mh by (simp add: state_typed_def)
  then have "length (live_state_slots m) = tb_state_count (vm_index m)"
    by (simp add: live_state_slots_def index_ok_def table_sizes_def)
  with typed_replace [of m _ "vm_strings m", OF _ d] s show "typed (snd (reset_state s))"
    by (simp add: reset_state_def mh Let_def)
qed

lemma intern_dynamic_string:
  "intern_dynamic T v retained it = (Inr w, it') \<Longrightarrow> is_string w"
  by (auto simp: intern_dynamic_def alloc_dynamic_def alloc_slice_def Let_def is_string_iff
      split: if_splits sum.splits option.splits prod.splits)

lemma retain_loop_types:
  "retain_loop T old it vs = (r, it', ws) \<Longrightarrow> list_all2 (\<lambda>v w. v = w \<or> is_string v \<and> is_string w) vs ws"
proof (induction vs arbitrary: it r it' ws)
  case (Cons v vs)
  have same: "list_all2 (\<lambda>v w. v = w \<or> is_string v \<and> is_string w) xs xs" for xs
    by (simp add: list_all2_conv_all_nth)
  show ?case
  proof (cases "\<exists>i. v = VString (Dynamic i)")
    case True
    then obtain i where v: "v = VString (Dynamic i)" by blast
    with Cons.prems Cons.IH same [of vs] show ?thesis
      by (auto split: sum.splits prod.splits dest: intern_dynamic_string)
  next
    case False
    then have "retain_loop T old it (v # vs) =
        (case retain_loop T old it vs of (r, it', ws) \<Rightarrow> (r, it', v # ws))"
      by (cases v; cases "\<exists>r. v = VString r") (auto split: string_ref.split)
    with Cons.prems Cons.IH show ?thesis by (auto split: prod.splits)
  qed
qed simp

lemma slot_accepts_string: "is_string v \<Longrightarrow> is_string w \<Longrightarrow> slot_accepts slot v = slot_accepts slot w"
  by (auto simp: is_string_iff slot_accepts_def)

lemma typed_retain [typed_kept]: "keeps typed vm_retain_state"
proof (rule keepsI)
  fix s :: "vm \<times> 'h" assume s: "typed s"
  obtain m h where mh: "s = (m, h)" by (cases s)
  let ?n = "tb_state_count (vm_index m)"
  obtain r it ws where run: "retain_state_values (index_table (vm_index m)) (vm_strings m) (take ?n (vm_state m)) = (r, it, ws)"
    by (metis surj_pair)
  have "list_all2 slot_accepts (live_state_slots m) (take ?n (vm_state m))"
    using s by (simp add: mh state_typed_def)
  from list_all2_trans [OF _ this retain_loop_types [OF run [unfolded retain_state_values_def]]]
  have "list_all2 slot_accepts (live_state_slots m) ws" using slot_accepts_string by blast
  with typed_replace [of m ws it] s run show "typed (snd (vm_retain_state s))"
    by (auto simp: mh vm_retain_state_def Let_def)
qed

text \<open>A loaded record: what is stored matched the declared type of its slot.\<close>

lemma materialize_accepts:
  assumes "saved_state_value_matches tag nullable sv" and "materialize_state_value T sv it = (Inr v, it')"
  shows "state_value_matches tag nullable v"
  using assms
  by (cases sv) (auto simp: materialize_state_value_def intern_retained_def is_string_iff
      split: prod.splits dest!: intern_dynamic_string)

lemma read_entry_matches:
  "read_state_entry bs c = Inr (name, tag, nullable, sv, c') \<Longrightarrow> saved_state_value_matches tag nullable sv"
  by (auto simp: read_state_entry_def read_state_record_value_def and_then_eq_Inr split: if_splits prod.splits)

lemma find_slot_nth:
  assumes "find_slot T name k slots = Inr (Some (i, slot))"
  shows "k \<le> i \<and> i - k < length slots \<and> slot = slots ! (i - k)"
  using assms
proof (induction slots arbitrary: k)
  case (Cons s slots)
  from Cons.prems show ?case
  proof (cases "tbl_string T (s_name_id s)")
    case (Inr t)
    show ?thesis
    proof (cases "t = name")
      case False
      with Cons Inr have "Suc k \<le> i \<and> i - Suc k < length slots \<and> slot = slots ! (i - Suc k)" by simp
      moreover from this have "i - k = Suc (i - Suc k)" by auto
      ultimately show ?thesis by simp
    qed (use Cons.prems Inr in simp)
  qed simp
qed simp

lemma apply_entry_typed:
  "keeps (\<lambda>s. list_all2 slot_accepts slots (snd s)) (apply_state_entry T slots bs c)"
proof (rule keepsI)
  fix s :: load_state assume s: "list_all2 slot_accepts slots (snd s)"
  obtain it st where st: "s = (it, st)" by (cases s)
  show "list_all2 slot_accepts slots (snd (snd (apply_state_entry T slots bs c s)))"
  proof (cases "\<exists>name tag nullable sv c' i slot. read_state_entry bs c = Inr (name, tag, nullable, sv, c') \<and>
      find_slot T name 0 slots = Inr (Some (i, slot)) \<and> st_tag (s_type slot) = tag \<and> st_nullable (s_type slot) = nullable")
    case False
    with s show ?thesis
      by (auto simp: apply_state_entry_def split: sum.splits option.splits prod.splits)
  next
    case True
    then obtain name tag nullable sv c' i slot where hit: "read_state_entry bs c = Inr (name, tag, nullable, sv, c')"
      "find_slot T name 0 slots = Inr (Some (i, slot))" "st_tag (s_type slot) = tag" "st_nullable (s_type slot) = nullable"
      by blast
    from find_slot_nth [OF hit(2)] have i: "i < length slots" "slot = slots ! i" by auto
    obtain r it' where mat: "materialize_state_value T sv it = (r, it')" by (metis surj_pair)
    show ?thesis
    proof (cases r)
      case (Inl e)
      with s st hit mat show ?thesis by (simp add: apply_state_entry_def)
    next
      case (Inr v)
      with materialize_accepts [OF read_entry_matches [OF hit(1)]] mat hit(3,4)
      have "slot_accepts slot v" by (simp add: slot_accepts_def)
      with s st hit mat Inr i show ?thesis
        by (auto simp: apply_state_entry_def list_all2_conv_all_nth nth_list_update)
    qed
  qed
qed

lemma apply_record_typed:
  "keeps (\<lambda>s. list_all2 slot_accepts slots (snd s)) (apply_state_record bs T slots)"
proof (rule keepsI)
  fix s :: load_state assume s: "list_all2 slot_accepts slots (snd s)"
  have loop: "keeps (\<lambda>s. list_all2 slot_accepts slots (snd s)) (apply_state_entries T slots bs n c)" for n c
    by (induction n arbitrary: c)
      (auto simp: keeps_def intro: keepsD [OF keeps_bind [OF apply_entry_typed]])
  have body: "keeps (\<lambda>s. list_all2 slot_accepts slots (snd s))
      (bind_exec (lift (ok_or InvalidStateRecord (get_at bs 4))) (\<lambda>count.
       bind_exec (apply_state_entries T slots bs (unat count) 5) (\<lambda>cursor.
         if cursor \<noteq> length bs then throw InvalidStateRecord else ret ())))"
    by (intro keeps_intros loop)
  have "list_all2 slot_accepts slots (snd (snd (bind_exec (lift (ok_or InvalidStateRecord (get_at bs 4))) (\<lambda>count.
       bind_exec (apply_state_entries T slots bs (unat count) 5) (\<lambda>cursor.
         if cursor \<noteq> length bs then throw InvalidStateRecord else ret ())) s)))"
    by (rule keepsD [OF body]) (rule s)
  with s show "list_all2 slot_accepts slots (snd (snd (apply_state_record bs T slots s)))"
    by (simp add: apply_state_record_def)
qed

lemma typed_load [typed_kept]: "keeps typed (load_state_record bs)"
proof (rule keepsI)
  fix s :: "vm \<times> 'h" assume s: "typed s"
  obtain m h where mh: "s = (m, h)" by (cases s)
  let ?n = "tb_state_count (vm_index m)"
  obtain r it ws where run: "apply_state_record bs (index_table (vm_index m)) (live_state_slots m)
      (vm_strings m, take ?n (vm_state m)) = (r, (it, ws))" by (metis surj_pair)
  have "list_all2 slot_accepts (live_state_slots m) ws"
    using keepsD [OF apply_record_typed [of "live_state_slots m" bs "index_table (vm_index m)"],
        where s = "(vm_strings m, take ?n (vm_state m))"] run s
    by (simp add: mh state_typed_def)
  with typed_replace [of m ws it] s run show "typed (snd (load_state_record bs s))"
    by (auto simp: mh load_state_record_def Let_def)
qed

section \<open>Every operation keeps the state typed\<close>

lemma typed_load_chunk [typed_kept]: "keeps typed (load_chunk_resumable H start len)"
  unfolding load_chunk_resumable_def by (intro keeps_intros typed_kept)

lemma typed_frames [typed_kept]:
  "keeps typed (push_resume_frame kind start len depth)"
  "keeps typed (complete_resume_frame v)"
  unfolding push_resume_frame_def complete_resume_frame_def by (intro keeps_intros typed_kept)+

lemma typed_screen [typed_kept]: "keeps typed (push_screen_resume_frame sid depth)"
  unfolding push_screen_resume_frame_def by (intro keeps_intros typed_kept)

lemma typed_pop_args [typed_kept]: "keeps typed (pop_args child k)"
  by (induction k; simp only: pop_args.simps; intro keeps_intros typed_kept; assumption)

lemma typed_operand [typed_kept]: "keeps typed (operand i rd w)" "keeps typed (frame_ip i)"
  unfolding operand_def frame_ip_def advance_def by (intro keeps_intros typed_kept)+

lemma typed_builtin_resumable [typed_kept]: "keeps typed (call_builtin_resumable H b a)"
  unfolding call_builtin_resumable_def by (intro keeps_intros typed_kept)

lemma typed_ops [typed_kept]:
  "keeps typed (add_values l r)"
  "keeps typed (get_field_op i)"
  "keeps typed (jump_to i t)"
  "keeps typed (call_function_op i)"
  "keeps typed (finish_frame v)"
  unfolding add_values_def get_field_op_def jump_to_def call_function_op_def finish_frame_def
  by (intro keeps_intros typed_kept; simp?)+

lemma typed_ops2 [typed_kept]:
  "keeps typed (binary_op op)"
  "keeps typed (jump_if_false_op i)"
  "keeps typed m \<Longrightarrow> keeps typed (go_on m)"
  unfolding binary_op_def jump_if_false_op_def go_on_def by (intro keeps_intros typed_kept; simp?)+

lemma typed_call_builtin [typed_kept]: "keeps typed (call_builtin_op H i)"
  unfolding call_builtin_op_def by (intro keeps_intros typed_kept)

lemma typed_exec_op [typed_kept]: "keeps typed (exec_op H i op)"
  unfolding exec_op_def by (intro keeps_intros typed_kept)

lemma typed_exec_step [typed_kept]: "keeps typed (exec_step H)"
  unfolding exec_step_def execute_instruction_def suspend_read_def by (intro keeps_intros typed_kept)

lemma typed_run_frames [typed_kept]: "keeps typed (run_frames H)"
  by (rule keeps_run_frames [OF typed_exec_step])

lemma typed_storage [typed_kept]:
  "keeps typed (load_state_bytes src len)"
  "keeps typed (clear_pending i)"
  unfolding load_state_bytes_def clear_pending_def by (intro keeps_intros typed_kept)+

lemma typed_serve [typed_kept]: "keeps typed (serve_request H i r)"
  unfolding serve_request_def by (intro keeps_intros typed_kept)

lemma keeps_case_pending [keeps_intros]:
  assumes "keeps P n" and "\<And>a b. keeps P (r a b)" and "keeps P l" and "keeps P s" and "keeps P e"
  shows "keeps P (case p of NoPending \<Rightarrow> n | PendingRead a b \<Rightarrow> r a b | PendingStateLoad \<Rightarrow> l
    | PendingStateSave \<Rightarrow> s | PendingStateReset \<Rightarrow> e)"
  using assms by (cases p) simp_all

lemma typed_resume [typed_kept]:
  "keeps typed (resume_immediate_storage H r)"
  "keeps typed (resume_storage H c)"
  unfolding resume_immediate_storage_def resume_storage_def accept_completion_def
  by (intro keeps_intros typed_kept)+

lemma typed_dispatch_resumable [typed_kept]: "keeps typed (dispatch_resumable_with_payload H event payload)"
  unfolding dispatch_resumable_with_payload_def enter_handler_def bind_payload_def event_payload_record_def
  by (intro keeps_intros typed_kept keeps_exec_map)

lemma typed_dispatch [typed_kept]: "keeps typed (dispatch H event)"
  by (rule keeps_dispatch; intro typed_kept)

lemma typed_store_named [typed_kept]: "keeps typed (store_state_value name v)"
proof (rule keepsI)
  fix s :: "vm \<times> 'a" assume s: "typed s"
  obtain m h where mh: "s = (m, h)" by (cases s)
  show "typed (snd (store_state_value name v s))"
  proof (cases "\<exists>i slot. find_slot (index_table (vm_index m)) name 0 (live_state_slots m) = Inr (Some (i, slot))")
    case True
    then obtain i slot where hit: "find_slot (index_table (vm_index m)) name 0 (live_state_slots m) = Inr (Some (i, slot))"
      by blast
    from find_slot_nth [OF hit] have "i < length (live_state_slots m)" "slot = live_state_slots m ! i" by auto
    with s hit show ?thesis
      by (auto simp: store_state_value_def mh bind_exec_def vm_res_of_def vm_modify_def live_state_slots_def
          slot_accepts_def intro: typed_store)
  next
    case False
    with s show ?thesis
      by (auto simp: store_state_value_def mh bind_exec_def vm_res_of_def split: sum.splits option.splits)
  qed
qed

lemma typed_set_value [typed_kept]: "keeps typed (set_state_value name v)"
  unfolding set_state_value_def vm_materialize_def by (intro keeps_intros typed_kept)

lemma vm_new_typed: "index_ok x \<Longrightarrow> state_typed (vm_new x)"
proof -
  assume x: "index_ok x"
  then have n: "tb_state_count x \<le> MAX_STATE" "length (tb_state_slots x) = MAX_STATE"
    by (simp_all add: index_ok_def table_sizes_def)
  then have "take (tb_state_count x) (initial_state x) = map s_default (live_slots x)"
    by (intro nth_equalityI) (auto simp: initial_state_def)
  with defaults_accepted [OF x] x show "state_typed (vm_new x)"
    by (simp add: state_typed_def live_state_slots_def vm_new_def)
qed

section \<open>Reachable states\<close>

lemma live_store_state [live_steady]: "steady (live k) (store_state_value name v)"
proof (rule steadyI)
  fix s :: "vm \<times> 'a" assume s: "live k s"
  obtain m h where mh: "s = (m, h)" by (cases s)
  note facts = live_parts [OF s]
  show "case store_state_value name v s of (r, t) \<Rightarrow> r \<noteq> Inl Panic \<and> live k t"
  proof (cases "find_slot (index_table (vm_index m)) name 0 (live_state_slots m)")
    case (Inl e)
    with find_slot_result [OF facts(2), where name = name and k = 0 and slots = "live_state_slots m"] s show ?thesis
      by (auto simp: store_state_value_def mh bind_exec_def vm_res_of_def)
  next
    case (Inr hit)
    show ?thesis
    proof (cases hit)
      case (Some p)
      obtain i slot where p: "p = (i, slot)" by (cases p)
      from find_slot_nth [OF Inr [unfolded Some p]] have "i < length (live_state_slots m)" by auto
      with live_state_names [OF s] facts(4,5) have "i < length (vm_state m)" by (simp add: mh)
      with s Inr Some show ?thesis
        by (auto simp: store_state_value_def mh p bind_exec_def vm_res_of_def vm_modify_def live_def vm_ok_def
            data_ok_def control_ok_def)
    qed (use s Inr in \<open>simp add: store_state_value_def mh bind_exec_def vm_res_of_def\<close>)
  qed
qed

lemma live_set_value: "steady (live k) (set_state_value name v)"
  unfolding set_state_value_def by (intro steady_bind live_steady)

lemma index_set_value: "keeps (index_is x) (set_state_value name v)"
  unfolding set_state_value_def store_state_value_def vm_materialize_def
  by (intro keeps_intros index_kept) (simp_all add: keeps_def on_strings_def vm_modify_def split: prod.splits)

lemma index_resume_storage: "keeps (index_is x) (resume_storage H c)"
proof -
  have load: "keeps (index_is x) (load_state_record bs)" for bs
    by (simp add: keeps_def load_state_record_def Let_def split: prod.splits)
  have code: "keeps (index_is x) (vm_modify (\<lambda>m. m\<lparr>vm_code := f m, vm_code_start := a, vm_code_len := b\<rparr>))" for f a b
    by (simp add: keeps_def vm_modify_def)
  show ?thesis
    unfolding resume_storage_def accept_completion_def load_state_bytes_def clear_pending_def
    by (intro keeps_intros index_kept load code)
qed

inductive vm_reach :: "'h host \<Rightarrow> program_index \<Rightarrow> vm \<times> 'h \<Rightarrow> bool" for H x where
  new: "vm_reach H x (vm_new x, h)"
| dispatch: "vm_reach H x s \<Longrightarrow> vm_reach H x (snd (dispatch H event s))"
| start: "vm_reach H x s \<Longrightarrow> vm_reach H x (snd (dispatch_resumable_with_payload H event payload s))"
| resume: "vm_reach H x s \<Longrightarrow> completion_fits (fst s) c \<Longrightarrow> vm_reach H x (snd (resume_storage H c s))"
| set_value: "vm_reach H x s \<Longrightarrow> vm_reach H x (snd (set_state_value name v s))"

lemma reach_live:
  assumes "vm_reach H x s" and "host_ok H" and "index_ok x"
  shows "live 0 s \<and> index_is x s"
  using assms
proof (induction rule: vm_reach.induct)
  case (new h)
  then show ?case by (simp add: live_def vm_new_ok) (simp add: vm_new_def)
next
  case (dispatch s event)
  have "index_is x (snd (dispatch H event s))" by (rule keepsD [OF index_dispatch]) (use dispatch in simp)
  with dispatch dispatch_live [of H s event] show ?case by blast
next
  case (start s event payload)
  have "index_is x (snd (dispatch_resumable_with_payload H event payload s))"
    by (rule keepsD [OF index_dispatch_resumable]) (use start in simp)
  with start safeD [OF dispatch_with_payload_safe [OF start.prems(1)], of s] show ?case
    by (metis prod.collapse)
next
  case (resume s c)
  have "index_is x (snd (resume_storage H c s))" by (rule keepsD [OF index_resume_storage]) (use resume in simp)
  with resume resume_storage_live [of H s c] show ?case by blast
next
  case (set_value s name v)
  have "index_is x (snd (set_state_value name v s))" by (rule keepsD [OF index_set_value]) (use set_value in simp)
  moreover have "live 0 (snd (set_state_value name v s))"
    using steadyD [OF live_set_value, of 0 s] set_value by (metis prod.collapse)
  ultimately show ?case by simp
qed

text \<open>
  C23: every state a VM reaches through its public operations (created, dispatched,
  suspended, resumed with a completion that fits, its slots set) satisfies the invariant
  of the VM, over the program it was created with.
\<close>

theorem reachable_invariant:
  assumes "host_ok H" and "index_ok x" and "vm_reach H x s"
  shows "vm_ok (fst s) \<and> vm_index (fst s) = x"
  using reach_live [OF assms(3,1,2)] by (simp add: live_def)

lemma reachable_invariant_witness:
  "\<exists>x. vm_ok (vm_new x) \<and> vm_index (fst (vm_new x, [] :: rstr list)) = x"
proof -
  obtain x where x: "index_ok x" by (rule sample_index)
  from reachable_invariant [OF default_host_ok [of "\<lambda>t. (#) t" "memory_read [42]"] x vm_reach.new [of _ x "[]"]]
  show ?thesis by auto
qed

text \<open>
  C24: in every reachable state, every state slot holds a value of its declared type, null
  only where the slot is nullable; whatever the program stores, loads, resets or retains.
\<close>

theorem reachable_state_typed:
  assumes "index_ok x" and "vm_reach H x s"
  shows "state_typed (fst s)"
  using assms(2,1)
proof (induction rule: vm_reach.induct)
  case (new h)
  then show ?case by (simp add: vm_new_typed)
qed (blast intro: keepsD [OF typed_dispatch] keepsD [OF typed_dispatch_resumable] keepsD [OF typed_resume(2)]
    keepsD [OF typed_set_value])+

lemma reachable_state_typed_witness: "\<exists>x. index_ok x \<and> state_typed (vm_new x)"
proof -
  obtain x where x: "index_ok x" by (rule sample_index)
  from reachable_state_typed [OF x vm_reach.new [of "default_host (\<lambda>t. (#) t) (memory_read [42])" x "[]"]] x
  show ?thesis by auto
qed

section \<open>From a file to its events\<close>

lemma in_memory_host_ok: "host_ok T \<Longrightarrow> host_ok (in_memory_host code T)"
  by (simp add: host_ok_def in_memory_host_def)

text \<open>A sequence of events, each dispatched whatever the outcome of the others.\<close>

fun owned_events ::
  "'h host \<Rightarrow> rstr list \<Rightarrow> owned_vm \<times> 'h \<Rightarrow> unit vm_res list \<times> owned_vm \<times> 'h" where
  "owned_events T [] s = ([], s)"
| "owned_events T (event # events) s =
     (case owned_dispatch T event s of (r, t) \<Rightarrow>
        case owned_events T events t of (rs, u) \<Rightarrow> (r # rs, u))"

lemma owned_events_live:
  assumes "host_ok T" and "vm_ok (ov_inner w)"
  shows "Inl Panic \<notin> set (fst (owned_events T events (w, h)))"
  using assms(2)
proof (induction events arbitrary: w h)
  case (Cons event events)
  obtain r m h' where run: "dispatch (in_memory_host (pg_code (ov_program w)) T) event (ov_inner w, h) = (r, (m, h'))"
    by (metis surj_pair)
  have "live 0 (ov_inner w, h)" using Cons.prems by (simp add: live_def)
  with dispatch_live [OF in_memory_host_ok [OF assms(1)], of "(ov_inner w, h)" "pg_code (ov_program w)" event] run
  have "r \<noteq> Inl Panic" "vm_ok m" by (auto simp: live_def)
  with Cons.IH [of "w\<lparr>ov_inner := m\<rparr>" h'] run show ?case
    by (auto simp: owned_dispatch_def split: prod.splits)
qed simp



end
