(* ===== verification/Vm_Wifi.thy ===== *)
theory Vm_Wifi
  imports Vm_Host
begin

text \<open>
  The simulated Wi-Fi of the host (\<open>WifiBackend\<close> and \<open>SimWifiBackend\<close> of
  \<open>squidvm-core/src/host.rs\<close>).  A method is a function of the backend's state.  The locale
  \<open>wifi_backend\<close> states what the trait promises against an abstract radio, which has an access
  point with a name and clients, or not, and a station with a profile, or not.
\<close>

section \<open>The backend\<close>

abbreviation (input) SIM_WIFI_SSID_CAP :: nat where "SIM_WIFI_SSID_CAP \<equiv> 32"

definition SIM_WIFI_AP_IP :: ustr where "SIM_WIFI_AP_IP = Str (lit ''192.168.4.1'')"
definition SIM_WIFI_AP_NETMASK :: ustr where "SIM_WIFI_AP_NETMASK = Str (lit ''255.255.255.0'')"

record sim_wifi =
  sw_active :: bool
  sw_ssid :: "u8 list"
  sw_ssid_len :: nat
  sw_clients :: i32
  sw_profile :: "u8 list"
  sw_profile_len :: nat
  sw_connected :: bool

definition sim_wifi_new :: sim_wifi where
  "sim_wifi_new = \<lparr>sw_active = False, sw_ssid = replicate SIM_WIFI_SSID_CAP 0, sw_ssid_len = 0, sw_clients = 0,
     sw_profile = replicate SIM_WIFI_SSID_CAP 0, sw_profile_len = 0, sw_connected = False\<rparr>"

type_synonym 'a wifi_method = "(vm_error, sim_wifi, 'a) exec"

definition sim_set_clients :: "i32 \<Rightarrow> unit wifi_method" where
  "sim_set_clients clients = modify (\<lambda>s. s\<lparr>sw_clients := (if sw_active s then (if sint clients < 0 then 0 else clients) else 0)\<rparr>)"

definition sim_ssid :: "sim_wifi \<Rightarrow> ustr vm_res" where
  "sim_ssid s = and_then (slice_to (sw_ssid s) (sw_ssid_len s)) (\<lambda>raw.
     and_then (ok_or InvalidUtf8 (from_utf8 raw)) (\<lambda>t. Inr (Str t)))"

definition sim_profile :: "sim_wifi \<Rightarrow> ustr vm_res" where
  "sim_profile s = and_then (slice_to (sw_profile s) (sw_profile_len s)) (\<lambda>raw.
     and_then (ok_or InvalidUtf8 (from_utf8 raw)) (\<lambda>t. Inr (Str t)))"

section \<open>Operations\<close>

definition operation_done :: "string \<Rightarrow> wifi_operation" where
  "operation_done kind = \<lparr>wo_active = True, wo_kind = Some (Str (lit kind)), wo_state = Str (lit ''done''),
     wo_done = True, wo_cancelled = False, wo_ok = True, wo_error = None\<rparr>"

definition operation_failed :: "string \<Rightarrow> string \<Rightarrow> wifi_operation" where
  "operation_failed kind reason = \<lparr>wo_active = False, wo_kind = Some (Str (lit kind)), wo_state = Str (lit ''error''),
     wo_done = True, wo_cancelled = False, wo_ok = False, wo_error = Some (Str (lit reason))\<rparr>"

definition sim_start_ap :: "ustr \<Rightarrow> wifi_operation wifi_method" where
  "sim_start_ap ssid s =
     (let bytes = str_bytes ssid in
      if bytes = [] \<or> length bytes > length (sw_ssid s) then (Inr (operation_failed ''startAP'' ''invalid ssid''), s)
      else (Inr (operation_done ''startAP''),
        s\<lparr>sw_ssid := splice (sw_ssid s) 0 bytes, sw_ssid_len := length bytes, sw_active := True\<rparr>))"

definition sim_stop_ap :: "wifi_operation wifi_method" where
  "sim_stop_ap s = (Inr (operation_done ''stopAP''), s\<lparr>sw_active := False, sw_ssid_len := 0, sw_clients := 0\<rparr>)"

definition sim_connect :: "ustr \<Rightarrow> wifi_operation wifi_method" where
  "sim_connect profile s =
     (let bytes = str_bytes profile in
      if bytes = [] \<or> length bytes > length (sw_profile s) then (Inr (operation_failed ''connect'' ''invalid profile''), s)
      else (Inr (operation_done ''connect''),
        s\<lparr>sw_profile := splice (sw_profile s) 0 bytes, sw_profile_len := length bytes, sw_connected := True\<rparr>))"

definition sim_disconnect :: "wifi_operation wifi_method" where
  "sim_disconnect s = (Inr (operation_done ''disconnect''), s\<lparr>sw_connected := False, sw_profile_len := 0\<rparr>)"

definition only_if :: "bool \<Rightarrow> 'a \<Rightarrow> 'a option" where
  "only_if b x = (if b then Some x else None)"

definition sim_status :: "wifi_status wifi_method" where
  "sim_status s =
     (and_then (if sw_active s then and_then (sim_ssid s) (\<lambda>t. Inr (Some t)) else Inr None) (\<lambda>ssid.
      and_then (if sw_connected s then and_then (sim_profile s) (\<lambda>t. Inr (Some t)) else Inr None) (\<lambda>profile.
      Inr \<lparr>ws_active = sw_active s, ws_mode = only_if (sw_active s) (Str (lit ''ap'')),
        ws_ip_address = only_if (sw_active s) SIM_WIFI_AP_IP, ws_ssid = ssid, ws_clients = sw_clients s, ws_error = None,
        ws_state = Str (lit (if sw_active s \<or> sw_connected s then ''started'' else ''stopped'')),
        ws_backend = Str (lit ''sim''), ws_driver_started = (sw_active s \<or> sw_connected s),
        ws_configured = (sw_active s \<or> sw_connected s),
        ws_driver_mode = (if sw_active s then Some (Str (lit ''ap'')) else only_if (sw_connected s) (Str (lit ''sta''))),
        ws_channel = (if sw_active s then 1 else 0), ws_ap_start_events = (if sw_active s then 1 else 0),
        ws_ap_stop_events = 0, ws_probe_events = 0, ws_sta_connected_events = 0, ws_sta_disconnected_events = 0,
        ws_last_backend_code = None, ws_profile = profile, ws_connected = sw_connected s,
        ws_scan_matches = (if sw_connected s then 1 else 0), ws_rssi = (if sw_connected s then - 42 else 0),
        ws_auth = only_if (sw_connected s) (Str (lit ''sim'')),
        ws_bssid = only_if (sw_connected s) (Str (lit ''00:00:00:00:00:00'')),
        ws_disconnect_reason = None, ws_disconnect_reason_code = 0\<rparr>)), s)"

definition sim_ap_ip :: "wifi_ap_ip wifi_method" where
  "sim_ap_ip = gets (\<lambda>s. \<lparr>wa_ip = only_if (sw_active s) SIM_WIFI_AP_IP, wa_gw = only_if (sw_active s) SIM_WIFI_AP_IP,
     wa_netmask = only_if (sw_active s) SIM_WIFI_AP_NETMASK, wa_error = None\<rparr>)"

definition sim_scan :: "wifi_operation wifi_method" where
  "sim_scan = gets (\<lambda>s. operation_failed ''scan'' (if sw_active s \<or> sw_connected s then ''wifi busy'' else ''unsupported''))"

definition sim_operation :: "wifi_operation wifi_method" where
  "sim_operation = ret wifi_operation_idle"

definition sim_result :: "wifi_result wifi_method" where
  "sim_result = ret wifi_result_unsupported"

definition sim_cancel :: "wifi_operation wifi_method" where
  "sim_cancel = ret wifi_operation_idle"

definition sim_scan_network :: "i32 \<Rightarrow> scan_network wifi_method" where
  "sim_scan_network i = ret scan_network_unsupported"

definition sim_teardown :: "bool wifi_method" where
  "sim_teardown s = (Inr (sw_active s \<or> sw_connected s),
     s\<lparr>sw_active := False, sw_ssid_len := 0, sw_clients := 0, sw_connected := False, sw_profile_len := 0\<rparr>)"

section \<open>The abstract radio\<close>

record radio =
  rd_ap :: "(ustr \<times> i32) option"
  rd_station :: "ustr option"

definition radio_off :: radio where
  "radio_off = \<lparr>rd_ap = None, rd_station = None\<rparr>"

text \<open>The calls that may change it, with a name a radio accepts.\<close>

datatype radio_call =
    R_StartAp ustr | R_StopAp | R_SetClients i32 | R_Connect ustr | R_Disconnect | R_Scan | R_Teardown

definition name_fits :: "ustr \<Rightarrow> bool" where
  "name_fits name \<longleftrightarrow> str_bytes name \<noteq> [] \<and> length (str_bytes name) \<le> SIM_WIFI_SSID_CAP"

fun radio_step :: "radio_call \<Rightarrow> radio \<Rightarrow> radio" where
  "radio_step (R_StartAp name) r =
     (if name_fits name then r\<lparr>rd_ap := Some (name, case rd_ap r of Some (_, n) \<Rightarrow> n | None \<Rightarrow> 0)\<rparr> else r)"
| "radio_step R_StopAp r = r\<lparr>rd_ap := None\<rparr>"
| "radio_step (R_SetClients n) r =
     r\<lparr>rd_ap := map_option (\<lambda>(name, _). (name, if sint n < 0 then 0 else n)) (rd_ap r)\<rparr>"
| "radio_step (R_Connect name) r = (if name_fits name then r\<lparr>rd_station := Some name\<rparr> else r)"
| "radio_step R_Disconnect r = r\<lparr>rd_station := None\<rparr>"
| "radio_step R_Scan r = r"
| "radio_step R_Teardown r = radio_off"

text \<open>What the status of a backend says of the radio.\<close>

definition reports :: "wifi_status \<Rightarrow> radio \<Rightarrow> bool" where
  "reports status r \<longleftrightarrow>
     ws_active status = (rd_ap r \<noteq> None) \<and> ws_ssid status = map_option fst (rd_ap r) \<and>
     ws_clients status = (case rd_ap r of Some (_, n) \<Rightarrow> n | None \<Rightarrow> 0) \<and>
     ws_connected status = (rd_station r \<noteq> None) \<and> ws_profile status = rd_station r \<and>
     ws_driver_started status = (rd_ap r \<noteq> None \<or> rd_station r \<noteq> None) \<and> ws_error status = None"

locale wifi_backend =
  fixes init :: 's and step :: "radio_call \<Rightarrow> 's \<Rightarrow> 's" and status :: "'s \<Rightarrow> wifi_status vm_res \<times> 's"
    and stands_for :: "'s \<Rightarrow> radio \<Rightarrow> bool"
  assumes starts: "stands_for init radio_off"
    and steps: "stands_for s r \<Longrightarrow> stands_for (step c s) (radio_step c r)"
    and looks: "stands_for s r \<Longrightarrow> \<exists>st. status s = (Inr st, s) \<and> reports st r"
begin

lemma run_stands_for: "stands_for s r \<Longrightarrow> stands_for (fold step cs s) (fold radio_step cs r)"
  by (induction cs arbitrary: s r) (simp_all add: steps)

lemma status_after:
  "\<exists>st. status (fold step cs init) = (Inr st, fold step cs init) \<and> reports st (fold radio_step cs radio_off)"
  by (rule looks, rule run_stands_for, rule starts)

end

section \<open>The backend is such a radio\<close>

fun sim_step :: "radio_call \<Rightarrow> sim_wifi \<Rightarrow> sim_wifi" where
  "sim_step (R_StartAp name) s = snd (sim_start_ap name s)"
| "sim_step R_StopAp s = snd (sim_stop_ap s)"
| "sim_step (R_SetClients n) s = snd (sim_set_clients n s)"
| "sim_step (R_Connect name) s = snd (sim_connect name s)"
| "sim_step R_Disconnect s = snd (sim_disconnect s)"
| "sim_step R_Scan s = snd (sim_scan s)"
| "sim_step R_Teardown s = snd (sim_teardown s)"

definition holds_name :: "u8 list \<Rightarrow> nat \<Rightarrow> ustr \<Rightarrow> bool" where
  "holds_name array n name \<longleftrightarrow> n = length (str_bytes name) \<and> n \<le> length array \<and> take n array = str_bytes name"

definition sim_stands_for :: "sim_wifi \<Rightarrow> radio \<Rightarrow> bool" where
  "sim_stands_for s r \<longleftrightarrow>
     length (sw_ssid s) = SIM_WIFI_SSID_CAP \<and> length (sw_profile s) = SIM_WIFI_SSID_CAP \<and>
     sw_active s = (rd_ap r \<noteq> None) \<and> sw_clients s = (case rd_ap r of Some (_, n) \<Rightarrow> n | None \<Rightarrow> 0) \<and>
     (case rd_ap r of Some (name, _) \<Rightarrow> holds_name (sw_ssid s) (sw_ssid_len s) name | None \<Rightarrow> True) \<and>
     sw_connected s = (rd_station r \<noteq> None) \<and>
     (case rd_station r of Some name \<Rightarrow> holds_name (sw_profile s) (sw_profile_len s) name | None \<Rightarrow> True)"

lemma holds_name_splice:
  "length (str_bytes name) \<le> length array \<Longrightarrow> holds_name (splice array 0 (str_bytes name)) (length (str_bytes name)) name"
  by (simp add: holds_name_def splice_def)

lemma Str_of_bytes: "Str (str_bytes s) = s"
  by (simp add: str_bytes_eq [symmetric])

lemma sim_names:
  "holds_name (sw_ssid s) (sw_ssid_len s) name \<Longrightarrow> sim_ssid s = Inr name"
  "holds_name (sw_profile s) (sw_profile_len s) name \<Longrightarrow> sim_profile s = Inr name"
  by (auto simp: holds_name_def sim_ssid_def sim_profile_def and_then_def ok_or_def from_utf8_def Str_of_bytes)

lemma sim_stands_for_step: "sim_stands_for s r \<Longrightarrow> sim_stands_for (sim_step c s) (radio_step c r)"
  by (cases c)
     (auto simp: sim_stands_for_def sim_start_ap_def sim_stop_ap_def sim_set_clients_def sim_connect_def
       sim_disconnect_def sim_scan_def sim_teardown_def name_fits_def radio_off_def Let_def holds_name_splice length_splice
       split: option.splits)

lemma sim_status_reports: "sim_stands_for s r \<Longrightarrow> \<exists>st. sim_status s = (Inr st, s) \<and> reports st r"
  by (auto simp: sim_stands_for_def sim_status_def reports_def sim_names split: option.splits)

interpretation sim: wifi_backend sim_wifi_new sim_step sim_status sim_stands_for
proof
  show "sim_stands_for sim_wifi_new radio_off"
    by (simp add: sim_stands_for_def sim_wifi_new_def radio_off_def)
qed (rule sim_stands_for_step sim_status_reports; assumption)+

text \<open>
  C13: after any calls the simulated Wi-Fi answers \<open>status\<close> without an error, and what it reports
  is the radio those calls make: its access point under the last name it was started with, its
  clients, its station.
\<close>

theorem sim_wifi_status:
  "\<exists>st. sim_status (fold sim_step cs sim_wifi_new) = (Inr st, fold sim_step cs sim_wifi_new) \<and>
     reports st (fold radio_step cs radio_off)"
  by (rule sim.status_after)

end
