(* ===== verification/Proto_Frame.thy ===== *)
theory Proto_Frame
  imports Sq_Utf8
begin

text \<open>
  The device protocol's frames (\<open>squid-device-protocol/src/lib.rs\<close>): a 20-byte header
  (magic, kind, opcode, status, a reserved byte, sequence, payload length, payload CRC) and
  a payload of tag-type-length-value fields, records nesting.  The encoder measures a frame,
  then writes it into a buffer; the decoder checks the header and the CRC and parses the
  fields.  \<open>crc32fast::hash\<close>, a package outside the repository, is the argument \<open>hash\<close>; what
  is proved here holds for every checksum.

  A method that fills a \<open>&mut [u8]\<close> returns the buffer with its result, since bytes written
  before an error stay written.  \<open>payload_bytes\<close> is the reference layout: the theory shows
  that the two-pass encoder produces it, that the decoder inverts it, and that nothing else
  decodes.
\<close>

section \<open>Kinds, opcodes and statuses\<close>

definition MAGIC :: "u8 list" where "MAGIC = lit ''SQDP''"
definition HEADER_LEN :: nat where "HEADER_LEN = 20"

datatype proto_frame_kind = Request | Response | Event

datatype opcode =
    Hello | AppInstallBegin | AppInstallChunk | AppInstallCommit | ResourceInstallBegin
  | ResourceInstallChunk | ResourceInstallCommit | TempRunBegin | TempRunChunk | TempRunCommit
  | AppLaunch | AppList | Key | EventDispatch | OutputGet | StateGet | DrawlogGet | TraceGet
  | ErrorsGet | ResourcesGet | LifecycleGet | StateImport | WifiProfileSet | Reset
  | StorageFormat | RuntimeCapGet | RuntimeCapSet | RuntimeCapClear | DisplayWindowProbe
  | ContentInstallBegin | ContentInstallChunk | ContentInstallCommit | ContentCheck
  | DebugLogGet | ContentDelete

datatype status = StatusOk | StatusError | StatusPending

datatype decode_error =
    TruncatedHeader
  | BadMagic
  | UnknownFrameKind u8
  | UnknownOpcode u8
  | UnknownStatus u8
  | LengthMismatch nat nat
  | PayloadCrc
  | TruncatedField
  | UnknownFieldType u8
  | InvalidBoolLength nat
  | InvalidIntegerLength nat
  | InvalidUtf8
  | OutputTooSmall nat nat

text \<open>\<open>as u8\<close> reads the discriminant that the declaration gives.\<close>

primrec frame_kind_u8 :: "proto_frame_kind \<Rightarrow> u8" where
  "frame_kind_u8 Request = 1"
| "frame_kind_u8 Response = 2"
| "frame_kind_u8 Event = 3"

definition frame_kind_try_from :: "u8 \<Rightarrow> (decode_error, proto_frame_kind) res" where
  "frame_kind_try_from value =
     (if value = 1 then Inr Request else
      if value = 2 then Inr Response else
      if value = 3 then Inr Event else
      Inl (Err (UnknownFrameKind value)))"

primrec opcode_u8 :: "opcode \<Rightarrow> u8" where
  "opcode_u8 Hello = 1"
| "opcode_u8 AppInstallBegin = 16"
| "opcode_u8 AppInstallChunk = 17"
| "opcode_u8 AppInstallCommit = 18"
| "opcode_u8 ResourceInstallBegin = 19"
| "opcode_u8 ResourceInstallChunk = 20"
| "opcode_u8 ResourceInstallCommit = 21"
| "opcode_u8 TempRunBegin = 24"
| "opcode_u8 TempRunChunk = 25"
| "opcode_u8 TempRunCommit = 26"
| "opcode_u8 AppLaunch = 32"
| "opcode_u8 AppList = 33"
| "opcode_u8 Key = 48"
| "opcode_u8 EventDispatch = 49"
| "opcode_u8 OutputGet = 64"
| "opcode_u8 StateGet = 65"
| "opcode_u8 DrawlogGet = 66"
| "opcode_u8 TraceGet = 67"
| "opcode_u8 ErrorsGet = 68"
| "opcode_u8 ResourcesGet = 69"
| "opcode_u8 LifecycleGet = 70"
| "opcode_u8 StateImport = 72"
| "opcode_u8 WifiProfileSet = 76"
| "opcode_u8 Reset = 80"
| "opcode_u8 StorageFormat = 81"
| "opcode_u8 RuntimeCapGet = 82"
| "opcode_u8 RuntimeCapSet = 83"
| "opcode_u8 RuntimeCapClear = 84"
| "opcode_u8 DisplayWindowProbe = 85"
| "opcode_u8 ContentInstallBegin = 88"
| "opcode_u8 ContentInstallChunk = 89"
| "opcode_u8 ContentInstallCommit = 90"
| "opcode_u8 ContentCheck = 91"
| "opcode_u8 DebugLogGet = 92"
| "opcode_u8 ContentDelete = 93"

definition opcode_try_from :: "u8 \<Rightarrow> (decode_error, opcode) res" where
  "opcode_try_from value =
     (if value = 1 then Inr Hello else
      if value = 16 then Inr AppInstallBegin else
      if value = 17 then Inr AppInstallChunk else
      if value = 18 then Inr AppInstallCommit else
      if value = 19 then Inr ResourceInstallBegin else
      if value = 20 then Inr ResourceInstallChunk else
      if value = 21 then Inr ResourceInstallCommit else
      if value = 24 then Inr TempRunBegin else
      if value = 25 then Inr TempRunChunk else
      if value = 26 then Inr TempRunCommit else
      if value = 32 then Inr AppLaunch else
      if value = 33 then Inr AppList else
      if value = 48 then Inr Key else
      if value = 49 then Inr EventDispatch else
      if value = 64 then Inr OutputGet else
      if value = 65 then Inr StateGet else
      if value = 66 then Inr DrawlogGet else
      if value = 67 then Inr TraceGet else
      if value = 68 then Inr ErrorsGet else
      if value = 69 then Inr ResourcesGet else
      if value = 70 then Inr LifecycleGet else
      if value = 72 then Inr StateImport else
      if value = 76 then Inr WifiProfileSet else
      if value = 80 then Inr Reset else
      if value = 81 then Inr StorageFormat else
      if value = 82 then Inr RuntimeCapGet else
      if value = 83 then Inr RuntimeCapSet else
      if value = 84 then Inr RuntimeCapClear else
      if value = 85 then Inr DisplayWindowProbe else
      if value = 88 then Inr ContentInstallBegin else
      if value = 89 then Inr ContentInstallChunk else
      if value = 90 then Inr ContentInstallCommit else
      if value = 91 then Inr ContentCheck else
      if value = 92 then Inr DebugLogGet else
      if value = 93 then Inr ContentDelete else
      Inl (Err (UnknownOpcode value)))"

primrec status_u8 :: "status \<Rightarrow> u8" where
  "status_u8 StatusOk = 0"
| "status_u8 StatusError = 1"
| "status_u8 StatusPending = 2"

definition status_try_from :: "u8 \<Rightarrow> (decode_error, status) res" where
  "status_try_from value =
     (if value = 0 then Inr StatusOk else
      if value = 1 then Inr StatusError else
      if value = 2 then Inr StatusPending else
      Inl (Err (UnknownStatus value)))"

lemma frame_kind_try_from_u8 [simp]: "frame_kind_try_from (frame_kind_u8 k) = Inr k"
  by (cases k; simp add: frame_kind_try_from_def)

lemma opcode_try_from_u8 [simp]: "opcode_try_from (opcode_u8 opc) = Inr opc"
  by (cases opc; simp add: opcode_try_from_def)

lemma status_try_from_u8 [simp]: "status_try_from (status_u8 st) = Inr st"
  by (cases st; simp add: status_try_from_def)

lemma try_from_Inr:
  "frame_kind_try_from b = Inr k \<Longrightarrow> frame_kind_u8 k = b"
  "opcode_try_from b = Inr opc \<Longrightarrow> opcode_u8 opc = b"
  "status_try_from b = Inr st \<Longrightarrow> status_u8 st = b"
  by (auto simp: frame_kind_try_from_def status_try_from_def opcode_try_from_def split: if_splits)

lemma try_from_no_panic [simp]:
  "frame_kind_try_from b \<noteq> Inl Panic" "opcode_try_from b \<noteq> Inl Panic" "status_try_from b \<noteq> Inl Panic"
  by (simp_all add: frame_kind_try_from_def status_try_from_def opcode_try_from_def)

section \<open>Frames and fields\<close>

datatype field = Field (f_tag: u8) (f_value: field_value)
and field_value =
    FBytes "u8 list"
  | FString rstr
  | FBool bool
  | FI64 i64
  | FU32 u32
  | FU64 u64
  | FRecord "field list"

record frame =
  fm_kind :: proto_frame_kind
  fm_opcode :: opcode
  fm_status :: status
  fm_sequence :: u32
  fm_fields :: "field list"

definition frame_request :: "opcode \<Rightarrow> u32 \<Rightarrow> field list \<Rightarrow> frame" where
  "frame_request opc sequence fs = \<lparr>fm_kind = Request, fm_opcode = opc, fm_status = StatusOk,
     fm_sequence = sequence, fm_fields = fs\<rparr>"

definition frame_response :: "opcode \<Rightarrow> status \<Rightarrow> u32 \<Rightarrow> field list \<Rightarrow> frame" where
  "frame_response opc st sequence fs = \<lparr>fm_kind = Response, fm_opcode = opc, fm_status = st,
     fm_sequence = sequence, fm_fields = fs\<rparr>"

lemma frame_sel [simp]:
  "fm_kind (frame_request opc n fs) = Request" "fm_opcode (frame_request opc n fs) = opc"
  "fm_status (frame_request opc n fs) = StatusOk" "fm_sequence (frame_request opc n fs) = n"
  "fm_fields (frame_request opc n fs) = fs"
  "fm_kind (frame_response opc st n fs) = Response" "fm_opcode (frame_response opc st n fs) = opc"
  "fm_status (frame_response opc st n fs) = st" "fm_sequence (frame_response opc st n fs) = n"
  "fm_fields (frame_response opc st n fs) = fs"
  by (simp_all add: frame_request_def frame_response_def)

section \<open>Measuring and encoding\<close>

text \<open>\<open>encoded_fields_len\<close> adds up the lengths from 0; the model carries the running length.\<close>

fun encoded_fields_len_from :: "nat \<Rightarrow> field list \<Rightarrow> (decode_error, nat) res"
and encoded_field_value_len :: "field_value \<Rightarrow> (decode_error, nat) res" where
  "encoded_fields_len_from len [] = Inr len"
| "encoded_fields_len_from len (Field tag value # fs) =
     and_then (encoded_field_value_len value) (\<lambda>value_len.
       if value_len > 65535 then Inl (Err (OutputTooSmall value_len 65535)) else
       (case checked_add len 4 of
          None \<Rightarrow> Inl (Err (OutputTooSmall usize_max 0))
        | Some len \<Rightarrow>
            (case checked_add len value_len of
               None \<Rightarrow> Inl (Err (OutputTooSmall usize_max 0))
             | Some len \<Rightarrow> encoded_fields_len_from len fs)))"
| "encoded_field_value_len (FBytes bytes) = Inr (length bytes)"
| "encoded_field_value_len (FString text) = Inr (length text)"
| "encoded_field_value_len (FBool _) = Inr 1"
| "encoded_field_value_len (FI64 _) = Inr 8"
| "encoded_field_value_len (FU64 _) = Inr 8"
| "encoded_field_value_len (FU32 _) = Inr 4"
| "encoded_field_value_len (FRecord fs) = encoded_fields_len_from 0 fs"

definition encoded_fields_len :: "field list \<Rightarrow> (decode_error, nat) res" where
  "encoded_fields_len fs = encoded_fields_len_from 0 fs"

definition encoded_frame_len :: "frame \<Rightarrow> (decode_error, nat) res" where
  "encoded_frame_len f =
     and_then (encoded_fields_len (fm_fields f)) (\<lambda>n.
       ok_or (OutputTooSmall usize_max 0) (checked_add HEADER_LEN n))"

primrec field_type_u8 :: "field_value \<Rightarrow> u8" where
  "field_type_u8 (FBytes _) = 0"
| "field_type_u8 (FString _) = 1"
| "field_type_u8 (FBool _) = 3"
| "field_type_u8 (FI64 _) = 4"
| "field_type_u8 (FU64 _) = 5"
| "field_type_u8 (FU32 _) = 6"
| "field_type_u8 (FRecord _) = 32"

definition bool_byte :: "bool \<Rightarrow> u8" where
  "bool_byte b = (if b then 1 else 0)"

text \<open>\<open>dst.copy_from_slice(src)\<close> panics when the lengths differ.\<close>

definition copy_from_slice :: "u8 list \<Rightarrow> u8 list \<Rightarrow> ('e, unit) res \<times> u8 list" where
  "copy_from_slice dst src = (if length dst = length src then (Inr (), src) else (Inl Panic, dst))"

fun encode_fields_into :: "field list \<Rightarrow> u8 list \<Rightarrow> (decode_error, unit) res \<times> u8 list"
and encode_field_value_into :: "field_value \<Rightarrow> u8 list \<Rightarrow> (decode_error, unit) res \<times> u8 list" where
  "encode_fields_into [] out = (Inr (), out)"
| "encode_fields_into (Field tag value # fs) out =
     (case encoded_field_value_len value of
        Inl e \<Rightarrow> (Inl e, out)
      | Inr value_len \<Rightarrow>
          if length out < 4 + value_len then (Inl (Err (OutputTooSmall (4 + value_len) (length out))), out)
          else
            let head = [tag, field_type_u8 value] @ u16_le (of_nat value_len) in
            (case encode_field_value_into value (take value_len (drop 4 out)) of
               (Inl e, v) \<Rightarrow> (Inl e, head @ v @ drop (4 + value_len) out)
             | (Inr _, v) \<Rightarrow>
                 (case encode_fields_into fs (drop (4 + value_len) out) of
                    (r, rest) \<Rightarrow> (r, head @ v @ rest))))"
| "encode_field_value_into (FBytes bytes) out = copy_from_slice out bytes"
| "encode_field_value_into (FString text) out = copy_from_slice out text"
| "encode_field_value_into (FBool b) out =
     (if out = [] then (Inl Panic, out) else (Inr (), out[0 := bool_byte b]))"
| "encode_field_value_into (FI64 i) out = copy_from_slice out (u64_le i)"
| "encode_field_value_into (FU64 w) out = copy_from_slice out (u64_le w)"
| "encode_field_value_into (FU32 w) out = copy_from_slice out (u32_le w)"
| "encode_field_value_into (FRecord fs) out = encode_fields_into fs out"

type_synonym hasher = "u8 list \<Rightarrow> u32"

text \<open>The first 16 bytes of a header; the CRC follows once the payload is written.\<close>

definition header_start :: "proto_frame_kind \<Rightarrow> opcode \<Rightarrow> status \<Rightarrow> u32 \<Rightarrow> nat \<Rightarrow> u8 list" where
  "header_start kind opc st sequence payload_len =
     MAGIC @ [frame_kind_u8 kind, opcode_u8 opc, status_u8 st, 0] @ u32_le sequence @
     u32_le (of_nat payload_len)"

definition encode_frame_into ::
  "hasher \<Rightarrow> frame \<Rightarrow> u8 list \<Rightarrow> (decode_error, nat) res \<times> u8 list" where
  "encode_frame_into hash f out =
     (case encoded_fields_len (fm_fields f) of
        Inl e \<Rightarrow> (Inl e, out)
      | Inr payload_len \<Rightarrow>
          (case checked_add HEADER_LEN payload_len of
             None \<Rightarrow> (Inl (Err (OutputTooSmall usize_max (length out))), out)
           | Some needed \<Rightarrow>
               if length out < needed then (Inl (Err (OutputTooSmall needed (length out))), out) else
               let out = splice out 0
                     (header_start (fm_kind f) (fm_opcode f) (fm_status f) (fm_sequence f) payload_len)
               in (case encode_fields_into (fm_fields f) (take payload_len (drop HEADER_LEN out)) of
                     (Inl e, payload) \<Rightarrow> (Inl e, splice out HEADER_LEN payload)
                   | (Inr _, payload) \<Rightarrow>
                       (Inr needed, splice (splice out HEADER_LEN payload) 16 (u32_le (hash payload))))))"

text \<open>\<open>encode_frame\<close> unwraps both results, so a frame that cannot be encoded panics.\<close>

definition encode_frame :: "hasher \<Rightarrow> frame \<Rightarrow> (decode_error, u8 list) res" where
  "encode_frame hash f =
     (case encoded_frame_len f of
        Inl _ \<Rightarrow> Inl Panic
      | Inr needed \<Rightarrow>
          (case encode_frame_into hash f (replicate needed 0) of
             (Inl _, _) \<Rightarrow> Inl Panic
           | (Inr _, out) \<Rightarrow> Inr out))"

section \<open>Decoding\<close>

text \<open>\<open>bytes[i]\<close> and \<open>&bytes[a..b]\<close>, which panic out of range.\<close>

definition index_at :: "u8 list \<Rightarrow> nat \<Rightarrow> ('e, u8) res" where
  "index_at bytes i = (case get_at bytes i of None \<Rightarrow> Inl Panic | Some b \<Rightarrow> Inr b)"

definition slice_range :: "u8 list \<Rightarrow> nat \<Rightarrow> nat \<Rightarrow> ('e, u8 list) res" where
  "slice_range bytes a b = (case get_range bytes a b of None \<Rightarrow> Inl Panic | Some s \<Rightarrow> Inr s)"

definition u32_at :: "u8 list \<Rightarrow> nat \<Rightarrow> ('e, u32) res" where
  "u32_at bytes i = and_then (slice_range bytes i (i + 4)) (\<lambda>s. Inr (of_le s))"

text \<open>The value slice converted to a fixed array: \<open>try_into\<close> fails on another length.\<close>

definition integer_value :: "nat \<Rightarrow> u8 list \<Rightarrow> (u8 list \<Rightarrow> field_value) \<Rightarrow> (decode_error, field_value) res" where
  "integer_value n value mk =
     (if length value = n then Inr (mk value) else Inl (Err (InvalidIntegerLength (length value))))"

function (sequential) decode_fields :: "u8 list \<Rightarrow> (decode_error, field list) res"
and decode_field_value :: "u8 \<Rightarrow> u8 list \<Rightarrow> (decode_error, field_value) res" where
  "decode_fields [] = Inr []"
| "decode_fields (tag # field_type # l0 # l1 # payload) =
     (let len = unat (of_le [l0, l1] :: u16) in
      if length payload < len then Inl (Err TruncatedField) else
      and_then (decode_field_value field_type (take len payload)) (\<lambda>value.
      and_then (decode_fields (drop len payload)) (\<lambda>fs.
        Inr (Field tag value # fs))))"
| "decode_fields _ = Inl (Err TruncatedField)"
| "decode_field_value field_type value =
     (if field_type = 0 then Inr (FBytes value)
      else if field_type = 1 then
        (case from_utf8 value of Some text \<Rightarrow> Inr (FString text) | None \<Rightarrow> Inl (Err InvalidUtf8))
      else if field_type = 3 then
        (if value = [0] then Inr (FBool False)
         else if value = [1] then Inr (FBool True)
         else Inl (Err (InvalidBoolLength (length value))))
      else if field_type = 4 then integer_value 8 value (\<lambda>bs. FI64 (of_le bs))
      else if field_type = 5 then integer_value 8 value (\<lambda>bs. FU64 (of_le bs))
      else if field_type = 6 then integer_value 4 value (\<lambda>bs. FU32 (of_le bs))
      else if field_type = 32 then and_then (decode_fields value) (\<lambda>fs. Inr (FRecord fs))
      else Inl (Err (UnknownFieldType field_type)))"
  by pat_completeness auto
termination
  by (relation "measure (\<lambda>x. case x of Inl bytes \<Rightarrow> 2 * length bytes | Inr (_, bytes) \<Rightarrow> 2 * length bytes + 1)")
    auto

definition decode_frame :: "hasher \<Rightarrow> u8 list \<Rightarrow> (decode_error, frame) res" where
  "decode_frame hash bytes =
     (if length bytes < HEADER_LEN then Inl (Err TruncatedHeader) else
      and_then (slice_range bytes 0 4) (\<lambda>magic.
      if magic \<noteq> MAGIC then Inl (Err BadMagic) else
      and_then (and_then (index_at bytes 4) frame_kind_try_from) (\<lambda>kind.
      and_then (and_then (index_at bytes 5) opcode_try_from) (\<lambda>opc.
      and_then (and_then (index_at bytes 6) status_try_from) (\<lambda>st.
      and_then (u32_at bytes 8) (\<lambda>sequence.
      and_then (u32_at bytes 12) (\<lambda>payload_len.
      and_then (u32_at bytes 16) (\<lambda>payload_crc.
      let expected = HEADER_LEN + unat payload_len in
      if length bytes \<noteq> expected then Inl (Err (LengthMismatch expected (length bytes))) else
      and_then (slice_range bytes HEADER_LEN (length bytes)) (\<lambda>payload.
      if hash payload \<noteq> payload_crc then Inl (Err PayloadCrc) else
      and_then (decode_fields payload) (\<lambda>fs.
        Inr \<lparr>fm_kind = kind, fm_opcode = opc, fm_status = st, fm_sequence = sequence,
             fm_fields = fs\<rparr>))))))))))"

text \<open>
  A stream may start with noise: the frame is looked for at the first window equal to the
  magic, and whatever follows it is ignored.
\<close>

definition decode_frame_from_stream :: "hasher \<Rightarrow> u8 list \<Rightarrow> (decode_error, frame) res" where
  "decode_frame_from_stream hash bytes =
     (case str_find bytes MAGIC of
        None \<Rightarrow> Inl (Err BadMagic)
      | Some start \<Rightarrow>
          if length bytes - start < HEADER_LEN then Inl (Err TruncatedHeader) else
          and_then (u32_at bytes (start + 12)) (\<lambda>n.
          let payload_len = unat n; stop = start + HEADER_LEN + payload_len in
          if length bytes < stop
          then Inl (Err (LengthMismatch (HEADER_LEN + payload_len) (length bytes - start))) else
          and_then (slice_range bytes start stop) (decode_frame hash)))"

section \<open>The reference layout\<close>

fun payload_bytes :: "field list \<Rightarrow> u8 list" and value_bytes :: "field_value \<Rightarrow> u8 list" where
  "payload_bytes [] = []"
| "payload_bytes (Field tag value # fs) =
     [tag, field_type_u8 value] @ u16_le (of_nat (length (value_bytes value))) @ value_bytes value @
     payload_bytes fs"
| "value_bytes (FBytes bytes) = bytes"
| "value_bytes (FString text) = text"
| "value_bytes (FBool b) = [bool_byte b]"
| "value_bytes (FI64 i) = u64_le i"
| "value_bytes (FU64 w) = u64_le w"
| "value_bytes (FU32 w) = u32_le w"
| "value_bytes (FRecord fs) = payload_bytes fs"

definition frame_bytes :: "hasher \<Rightarrow> frame \<Rightarrow> u8 list" where
  "frame_bytes hash f =
     (let payload = payload_bytes (fm_fields f)
      in header_start (fm_kind f) (fm_opcode f) (fm_status f) (fm_sequence f) (length payload) @
         u32_le (hash payload) @ payload)"

text \<open>Every value's length fits its two length bytes; every string is text.\<close>

fun fields_fit :: "field list \<Rightarrow> bool" and value_fits :: "field_value \<Rightarrow> bool" where
  "fields_fit [] = True"
| "fields_fit (Field tag value # fs) =
     (value_fits value \<and> length (value_bytes value) \<le> 65535 \<and> fields_fit fs)"
| "value_fits (FRecord fs) = fields_fit fs"
| "value_fits _ = True"

fun fields_text :: "field list \<Rightarrow> bool" and value_text :: "field_value \<Rightarrow> bool" where
  "fields_text [] = True"
| "fields_text (Field tag value # fs) = (value_text value \<and> fields_text fs)"
| "value_text (FString text) = utf8_valid text"
| "value_text (FRecord fs) = fields_text fs"
| "value_text _ = True"

lemma length_header_start [simp]: "length (header_start kind opc st n len) = 16"
  by (simp add: header_start_def MAGIC_def)

lemma length_frame_bytes: "length (frame_bytes hash f) = HEADER_LEN + length (payload_bytes (fm_fields f))"
  by (simp add: frame_bytes_def Let_def HEADER_LEN_def)

text \<open>The measuring pass computes the length of the layout, and fails exactly when it does not fit.\<close>

lemma encoded_len_fits:
  "fields_fit fs \<Longrightarrow> n + length (payload_bytes fs) \<le> usize_max \<Longrightarrow>
     encoded_fields_len_from n fs = Inr (n + length (payload_bytes fs))"
  "value_fits v \<Longrightarrow> length (value_bytes v) \<le> usize_max \<Longrightarrow>
     encoded_field_value_len v = Inr (length (value_bytes v))"
  by (induction n fs and v rule: encoded_fields_len_from_encoded_field_value_len.induct)
    (auto simp: checked_add_def)

lemma encoded_len_Inr:
  "encoded_fields_len_from n fs = Inr m \<Longrightarrow>
     m = n + length (payload_bytes fs) \<and> fields_fit fs \<and> (n \<le> usize_max \<longrightarrow> m \<le> usize_max)"
  "encoded_field_value_len v = Inr k \<Longrightarrow> k = length (value_bytes v) \<and> value_fits v"
proof (induction n fs and v arbitrary: m and k rule: encoded_fields_len_from_encoded_field_value_len.induct)
  case (2 len tag v fs)
  from "2.prems" obtain k where k: "encoded_field_value_len v = Inr k" "k \<le> 65535" "len + 4 + k \<le> usize_max"
    "encoded_fields_len_from (len + 4 + k) fs = Inr m"
    by (auto simp: and_then_eq_Inr checked_add_def split: if_splits)
  from "2.IH" (1) [OF k(1)] "2.IH" (2) [of k "len + 4" "len + 4 + k" m] k show ?case
    by (simp add: checked_add_def)
qed auto

lemma encoded_len_no_panic:
  "encoded_fields_len_from n fs \<noteq> Inl Panic" "encoded_field_value_len v \<noteq> Inl Panic"
  by (induction n fs and v rule: encoded_fields_len_from_encoded_field_value_len.induct)
    (auto simp: and_then_eq_Inl split: option.splits)

lemma encoded_fields_len_eq_Inr:
  "encoded_fields_len fs = Inr n \<longleftrightarrow> fields_fit fs \<and> n = length (payload_bytes fs) \<and> n \<le> usize_max"
  unfolding encoded_fields_len_def
  using encoded_len_fits(1) [of fs 0] encoded_len_Inr(1) [of 0 fs n] by auto

text \<open>The writing pass fills a buffer of the measured length with the layout.\<close>

lemma encode_into_layout:
  "fields_fit fs \<Longrightarrow> length (payload_bytes fs) \<le> length out \<Longrightarrow> length (payload_bytes fs) \<le> usize_max \<Longrightarrow>
     encode_fields_into fs out = (Inr (), payload_bytes fs @ drop (length (payload_bytes fs)) out)"
  "value_fits v \<Longrightarrow> length (value_bytes v) = length out \<Longrightarrow> length (value_bytes v) \<le> usize_max \<Longrightarrow>
     encode_field_value_into v out = (Inr (), value_bytes v)"
proof (induction fs out and v out rule: encode_fields_into_encode_field_value_into.induct)
  case (2 tag v fs out)
  have "encoded_field_value_len v = Inr (length (value_bytes v))"
    using "2.prems" by (intro encoded_len_fits(2)) auto
  with 2 show ?case
    by (auto simp: Let_def add.commute add.left_commute intro!: arg_cong [where f = "\<lambda>n. drop n out"])
next
  case (5 b out)
  then show ?case by (cases out) auto
qed (auto simp: copy_from_slice_def)

lemma splice_whole: "i + length ys \<le> length xs \<Longrightarrow> splice xs i ys = take i xs @ ys @ drop (i + length ys) xs"
  by (simp add: splice_def)

lemma encode_frame_into_layout:
  assumes "encoded_fields_len (fm_fields f) = Inr n" and "HEADER_LEN + n \<le> length out"
    and "HEADER_LEN + n \<le> usize_max"
  shows "encode_frame_into hash f out = (Inr (HEADER_LEN + n), frame_bytes hash f @ drop (HEADER_LEN + n) out)"
proof -
  let ?h = "header_start (fm_kind f) (fm_opcode f) (fm_status f) (fm_sequence f) n"
  have fit: "fields_fit (fm_fields f)" "n = length (payload_bytes (fm_fields f))" "n \<le> usize_max"
    using assms(1) by (simp_all add: encoded_fields_len_eq_Inr)
  obtain r a b where out: "out = r @ a @ b" and len: "length r = 20" "length a = n"
    using assms(2)
    by (intro that [of "take 20 out" "take n (drop 20 out)" "drop n (drop 20 out)"])
      (simp_all add: HEADER_LEN_def del: drop_drop)
  obtain r1 r2 where r: "r = r1 @ r2" "length r1 = 16" "length r2 = 4"
    using len(1) by (intro that [of "take 16 r" "drop 16 r"]) auto
  have "encode_fields_into (fm_fields f) a = (Inr (), payload_bytes (fm_fields f))"
    using encode_into_layout(1) [OF fit(1), of a] fit len(2) by simp
  then show ?thesis
    using assms fit r len unfolding encode_frame_into_def out
    by (simp add: splice_def HEADER_LEN_def Let_def frame_bytes_def)
qed

lemma encode_frame_eq_Inr:
  "encode_frame hash f = Inr bytes \<longleftrightarrow>
     fields_fit (fm_fields f) \<and> HEADER_LEN + length (payload_bytes (fm_fields f)) \<le> usize_max \<and>
     bytes = frame_bytes hash f"
proof (cases "encoded_frame_len f")
  case (Inl e)
  then have "\<not> (fields_fit (fm_fields f) \<and> HEADER_LEN + length (payload_bytes (fm_fields f)) \<le> usize_max)"
    using encoded_len_fits(1) [of "fm_fields f" 0]
    by (auto simp: encoded_frame_len_def encoded_fields_len_def)
  with Inl show ?thesis by (auto simp: encode_frame_def)
next
  case (Inr needed)
  then obtain n where n: "encoded_fields_len (fm_fields f) = Inr n" "needed = HEADER_LEN + n" "needed \<le> usize_max"
    by (auto simp: encoded_frame_len_def and_then_eq_Inr dest: checked_add_SomeD)
  then have "encode_frame_into hash f (replicate needed 0) = (Inr needed, frame_bytes hash f)"
    using encode_frame_into_layout [OF n(1), of "replicate needed 0"] by simp
  with Inr n show ?thesis by (auto simp: encode_frame_def encoded_fields_len_eq_Inr)
qed

section \<open>Decoding inverts encoding\<close>

lemma of_le_pair: "of_le [ucast w, ucast (drop_bit 8 w)] = (w :: u16)"
  using of_le_u16_le [of w] by (simp add: numeral_2_eq_2)

lemma u16_le_split: "u16_le w = [ucast w, ucast (drop_bit 8 w)]"
  by (simp add: numeral_2_eq_2)

lemma unat_len_u16: "n \<le> 65535 \<Longrightarrow> unat (of_nat n :: u16) = n"
  by (simp add: unat_of_nat take_bit_nat_eq_self)

lemma unat_len_u32: "n \<le> 4294967295 \<Longrightarrow> unat (of_nat n :: u32) = n"
  by (simp add: unat_of_nat take_bit_nat_eq_self)

lemma decode_fields_step:
  assumes "length vs \<le> 65535"
  shows "decode_fields (tag # field_type # u16_le (of_nat (length vs)) @ vs @ rest) =
    and_then (decode_field_value field_type vs) (\<lambda>v.
      and_then (decode_fields rest) (\<lambda>fs. Inr (Field tag v # fs)))"
  using assms by (simp add: u16_le_split of_le_pair unat_len_u16 Let_def del: of_le.simps decode_field_value.simps)

lemma decode_payload:
  "fields_fit fs \<Longrightarrow> fields_text fs \<Longrightarrow> decode_fields (payload_bytes fs) = Inr fs"
  "value_fits v \<Longrightarrow> value_text v \<Longrightarrow> decode_field_value (field_type_u8 v) (value_bytes v) = Inr v"
proof (induction fs and v rule: payload_bytes_value_bytes.induct)
  case (2 tag v fs)
  then show ?case
    using decode_fields_step [of "value_bytes v" tag "field_type_u8 v" "payload_bytes fs"] by simp
qed (simp_all add: integer_value_def bool_byte_def from_utf8_def)

lemma to_le_exact:
  "length bs = 8 \<Longrightarrow> u64_le (of_le bs) = bs" "length bs = 4 \<Longrightarrow> u32_le (of_le bs) = bs"
  using to_le_of_le [of bs, where ?'a = "64"] to_le_of_le [of bs, where ?'a = "32"] by simp_all

lemma decode_fields_layout:
  "decode_fields bytes = Inr fs \<Longrightarrow> payload_bytes fs = bytes \<and> fields_fit fs \<and> fields_text fs"
  "decode_field_value ty bytes = Inr v \<Longrightarrow> length bytes \<le> 65535 \<Longrightarrow>
     field_type_u8 v = ty \<and> value_bytes v = bytes \<and> value_fits v \<and> value_text v"
proof (induction bytes and ty bytes arbitrary: fs and v rule: decode_fields_decode_field_value.induct)
  case (2 tag ty l0 l1 payload)
  define len where "len = unat (of_le [l0, l1] :: u16)"
  have len: "len \<le> 65535" by (simp add: len_def)
  have two: "u16_le (of_nat len) = [l0, l1]"
    using to_le_of_le [of "[l0, l1]", where ?'a = "16"] by (simp add: len_def numeral_2_eq_2)
  from "2.prems" obtain v gs where dec: "len \<le> length payload"
    "decode_field_value ty (take len payload) = Inr v" "decode_fields (drop len payload) = Inr gs"
    "fs = Field tag v # gs"
    by (auto simp: and_then_eq_Inr Let_def len_def simp del: decode_field_value.simps split: if_splits)
  with "2.IH"(1) [OF len_def _ dec(2)] "2.IH"(2) [OF len_def _ dec(2,3)] len two show ?case
    by (simp add: min_absorb2)
next
  case (4 ty bytes)
  then show ?case
    by (auto simp: and_then_eq_Inr integer_value_def bool_byte_def from_utf8_def to_le_exact split: if_splits)
qed auto

lemma decode_fields_no_panic:
  "decode_fields bytes \<noteq> Inl Panic" "decode_field_value ty bytes \<noteq> Inl Panic"
proof (induction bytes and ty bytes rule: decode_fields_decode_field_value.induct)
  case (4 ty bytes)
  then show ?case by (auto simp: and_then_eq_Inl integer_value_def split: option.splits)
qed (auto simp: and_then_eq_Inl Let_def simp del: decode_field_value.simps)

section \<open>Whole frames\<close>

definition frame_text :: "frame \<Rightarrow> bool" where
  "frame_text f = fields_text (fm_fields f)"

lemma slice_range_append [simp]:
  "a = length xs \<Longrightarrow> b = a + length ys \<Longrightarrow> slice_range (xs @ ys @ zs) a b = Inr ys"
  by (simp add: slice_range_def get_range_middle)

lemma slice_range_Inr: "a \<le> b \<Longrightarrow> b \<le> length bytes \<Longrightarrow> slice_range bytes a b = Inr (take (b - a) (drop a bytes))"
  by (simp add: slice_range_def get_range_def)

lemma index_at_Inr: "i < length bytes \<Longrightarrow> index_at bytes i = Inr (bytes ! i)"
  by (simp add: index_at_def get_at_def)

lemma u32_at_Inr: "i + 4 \<le> length bytes \<Longrightarrow> u32_at bytes i = Inr (of_le (take 4 (drop i bytes)))"
  by (simp add: u32_at_def slice_range_Inr)

lemma u32_at_word: "i = length xs \<Longrightarrow> u32_at (xs @ u32_le w @ ys) i = Inr w"
  by (simp add: u32_at_def)

text \<open>The pieces of a buffer that starts with a header.\<close>

lemma header_split:
  assumes "HEADER_LEN \<le> length (bytes :: u8 list)"
  obtains m0 m1 m2 m3 k op st r sq pl crc payload where
    "bytes = [m0, m1, m2, m3] @ [k, op, st, r] @ sq @ pl @ crc @ payload"
    "length sq = 4" "length pl = 4" "length crc = 4"
proof -
  have cut: "\<exists>a b. xs = a @ b \<and> length a = n" if "n \<le> length xs" for n and xs :: "u8 list"
    using that by (metis append_take_drop_id length_take min.absorb2)
  obtain h t1 where h: "bytes = h @ t1" "length h = 8"
    using cut [of 8 bytes] assms by (auto simp: HEADER_LEN_def)
  obtain sq t2 where sq: "t1 = sq @ t2" "length sq = 4"
    using cut [of 4 t1] assms h by (auto simp: HEADER_LEN_def)
  obtain pl t3 where pl: "t2 = pl @ t3" "length pl = 4"
    using cut [of 4 t2] assms h sq by (auto simp: HEADER_LEN_def)
  obtain crc payload where crc: "t3 = crc @ payload" "length crc = 4"
    using cut [of 4 t3] assms h sq pl by (auto simp: HEADER_LEN_def)
  obtain m0 m1 m2 m3 k op st r where "h = [m0, m1, m2, m3] @ [k, op, st, r]"
    using h(2) by (auto simp: numeral_eq_Suc length_Suc_conv)
  with h sq pl crc show ?thesis by (intro that [of m0 m1 m2 m3 k op st r sq pl crc payload]) simp_all
qed

text \<open>What the decoder computes, on a buffer in pieces.\<close>

lemma decode_frame_pieces:
  assumes "length sq = 4" "length pl = 4" "length crc = 4"
    and bytes: "bytes = [m0, m1, m2, m3] @ [k, op, st, r] @ sq @ pl @ crc @ payload"
  shows "decode_frame hash bytes =
    (if [m0, m1, m2, m3] \<noteq> MAGIC then Inl (Err BadMagic) else
     and_then (frame_kind_try_from k) (\<lambda>kind.
     and_then (opcode_try_from op) (\<lambda>opc.
     and_then (status_try_from st) (\<lambda>stat.
     let expected = HEADER_LEN + unat (of_le pl :: u32) in
     if length bytes \<noteq> expected then Inl (Err (LengthMismatch expected (length bytes))) else
     if hash payload \<noteq> of_le crc then Inl (Err PayloadCrc) else
     and_then (decode_fields payload) (\<lambda>fs.
       Inr \<lparr>fm_kind = kind, fm_opcode = opc, fm_status = stat, fm_sequence = of_le sq, fm_fields = fs\<rparr>)))))"
proof -
  have len: "length bytes = 20 + length payload" using assms by simp
  have at: "index_at bytes 4 = (Inr k :: (decode_error, u8) res)" "index_at bytes 5 = (Inr op :: (decode_error, u8) res)"
    "index_at bytes 6 = (Inr st :: (decode_error, u8) res)"
    by (simp_all add: index_at_Inr bytes)
  have words: "u32_at bytes 8 = (Inr (of_le sq) :: (decode_error, u32) res)"
    "u32_at bytes 12 = (Inr (of_le pl) :: (decode_error, u32) res)"
    "u32_at bytes 16 = (Inr (of_le crc) :: (decode_error, u32) res)"
    using assms by (simp_all add: u32_at_Inr bytes)
  have rest: "slice_range bytes 0 4 = (Inr [m0, m1, m2, m3] :: (decode_error, u8 list) res)"
    "slice_range bytes HEADER_LEN (length bytes) = (Inr payload :: (decode_error, u8 list) res)"
    using assms by (simp_all add: slice_range_Inr bytes HEADER_LEN_def)
  show ?thesis
    unfolding decode_frame_def at words rest and_then_simps using len by (simp add: HEADER_LEN_def Let_def)
qed

lemma frame_bytes_pieces:
  "frame_bytes hash f = MAGIC @ [frame_kind_u8 (fm_kind f), opcode_u8 (fm_opcode f), status_u8 (fm_status f), 0] @
     u32_le (fm_sequence f) @ u32_le (of_nat (length (payload_bytes (fm_fields f)))) @
     u32_le (hash (payload_bytes (fm_fields f))) @ payload_bytes (fm_fields f)"
  by (simp add: frame_bytes_def header_start_def Let_def)

lemma decode_frame_bytes:
  assumes "fields_fit (fm_fields f)" and "frame_text f" and "length (payload_bytes (fm_fields f)) \<le> 4294967295"
  shows "decode_frame hash (frame_bytes hash f) = Inr f"
proof -
  have "MAGIC = [83, 81, 68, 80]" by (simp add: MAGIC_def)
  note pieces = frame_bytes_pieces [of hash f, unfolded this]
  show ?thesis
    by (subst decode_frame_pieces [OF _ _ _ pieces])
      (use assms decode_payload(1) in \<open>simp_all add: unat_len_u32 length_frame_bytes frame_text_def MAGIC_def\<close>)
qed

text \<open>
  C32: a frame whose strings are text and whose payload length fits the header's 32 bits
  decodes back from its encoding, whatever the checksum function.
\<close>

theorem decode_encode_frame:
  assumes "encode_frame hash f = Inr bytes" and "frame_text f" and "length bytes \<le> HEADER_LEN + 4294967295"
  shows "decode_frame hash bytes = Inr f"
  using assms by (auto simp: encode_frame_eq_Inr length_frame_bytes intro: decode_frame_bytes)

definition sample_frame :: frame where
  "sample_frame = frame_request EventDispatch 7
     [Field 1 (FString (lit ''demo'')), Field 2 (FRecord [Field 9 (FBool True), Field 3 (FU32 5)])]"

lemma sample_frame_encodes: "encode_frame hash sample_frame = Inr (frame_bytes hash sample_frame)"
  by (simp add: encode_frame_eq_Inr sample_frame_def HEADER_LEN_def usize_max_def)

lemma sample_frame_text: "frame_text sample_frame"
  by (simp add: frame_text_def sample_frame_def)

lemma decode_encode_frame_witness:
  "decode_frame (\<lambda>bs. of_nat (length bs)) (frame_bytes (\<lambda>bs. of_nat (length bs)) sample_frame) = Inr sample_frame"
  by (rule decode_encode_frame [OF sample_frame_encodes sample_frame_text])
    (simp add: length_frame_bytes, simp add: sample_frame_def HEADER_LEN_def)

text \<open>
  C33: the decoder accepts only what the encoder writes: encoding a decoded frame gives the
  bytes back, except for the reserved byte, which the decoder ignores and the encoder clears.
\<close>

theorem encode_decode_frame:
  assumes "decode_frame hash bytes = Inr f"
  shows "encode_frame hash f = Inr (bytes[7 := 0])"
proof -
  have "HEADER_LEN \<le> length bytes" using assms by (auto simp: decode_frame_def split: if_splits)
  then obtain m0 m1 m2 m3 k op st r sq pl crc payload where
    bytes: "bytes = [m0, m1, m2, m3] @ [k, op, st, r] @ sq @ pl @ crc @ payload" and
    len: "length sq = 4" "length pl = 4" "length crc = 4"
    by (rule header_split)
  from assms [unfolded decode_frame_pieces [OF len bytes]]
  have head: "[m0, m1, m2, m3] = MAGIC" "frame_kind_u8 (fm_kind f) = k" "opcode_u8 (fm_opcode f) = op"
    "status_u8 (fm_status f) = st" "fm_sequence f = of_le sq" "hash payload = of_le crc"
    "length bytes = HEADER_LEN + unat (of_le pl :: u32)" "decode_fields payload = Inr (fm_fields f)"
    by (auto simp: and_then_eq_Inr Let_def split: if_splits dest: try_from_Inr)
  from decode_fields_layout(1) [OF head(8)]
  have fields: "payload_bytes (fm_fields f) = payload" "fields_fit (fm_fields f)" by auto
  have "unat (of_le pl :: u32) = length payload" using head(7) len by (simp add: bytes HEADER_LEN_def)
  from this [symmetric] have count: "of_nat (length payload) = (of_le pl :: u32)" "length payload \<le> 4294967295"
    by (simp_all only: of_nat_unat unat_u32_bound ucast_id)
  have "frame_bytes hash f = bytes[7 := 0]"
    using head len fields count by (simp add: frame_bytes_pieces bytes to_le_exact flip: head(1))
  with fields count show ?thesis
    by (simp add: encode_frame_eq_Inr HEADER_LEN_def usize_max_def)
qed

lemma encode_decode_frame_witness:
  "encode_frame (\<lambda>_. 0) sample_frame = Inr ((frame_bytes (\<lambda>_. 0) sample_frame)[7 := 0])"
proof (rule encode_decode_frame)
  show "decode_frame (\<lambda>_. 0) (frame_bytes (\<lambda>_. 0) sample_frame) = Inr sample_frame"
    by (rule decode_frame_bytes) (simp_all add: sample_frame_def frame_text_def)
qed

text \<open>
  Decoding never panics, whatever the bytes: no slice or index is out of range.
\<close>

theorem decode_frame_no_panic: "decode_frame hash bytes \<noteq> Inl Panic"
proof (cases "length bytes < HEADER_LEN")
  case False
  then have "HEADER_LEN \<le> length bytes" by simp
  then obtain m0 m1 m2 m3 k op st r sq pl crc payload where
    bytes: "bytes = [m0, m1, m2, m3] @ [k, op, st, r] @ sq @ pl @ crc @ payload" and
    len: "length sq = 4" "length pl = 4" "length crc = 4"
    by (rule header_split)
  show ?thesis
    unfolding decode_frame_pieces [OF len bytes]
    by (auto simp: and_then_eq_Inl Let_def decode_fields_no_panic)
qed (simp add: decode_frame_def)

section \<open>Frames in a stream\<close>

lemma str_find_append: "str_find t v = Some k \<Longrightarrow> str_find (t @ u) v = Some k"
proof (induction t arbitrary: k)
  case Nil
  then show ?case by (cases u) (auto split: if_splits)
next
  case (Cons x t)
  show ?case
  proof (cases "take (length v) (x # t) = v")
    case True
    then have "length v \<le> length (x # t)" by (metis length_take min.cobounded1)
    with True have "take (length v) ((x # t) @ u) = v" by (simp only: take_append) simp
    then have "take (length v) (x # t @ u) = v" by simp
    with True Cons.prems show ?thesis by simp
  next
    case False
    with Cons.prems obtain j where j: "str_find t v = Some j" "k = Suc j" by auto
    then have "length v \<le> length t" by (auto dest!: str_find_Some)
    with False have "take (length v) (x # t @ u) \<noteq> v" by (cases "length v") auto
    with j Cons.IH show ?thesis by simp
  qed
qed

text \<open>
  C34: a frame is read out of a stream through any noise before it that does not contain the
  magic, and through anything after it.
\<close>

theorem decode_stream_through_noise:
  assumes "encode_frame hash f = Inr bytes" and "frame_text f" and "length bytes \<le> HEADER_LEN + 4294967295"
    and "str_find (noise @ MAGIC) MAGIC = Some (length noise)"
  shows "decode_frame_from_stream hash (noise @ bytes @ rest) = Inr f"
proof -
  have f: "fields_fit (fm_fields f)" "bytes = frame_bytes hash f"
    "length (payload_bytes (fm_fields f)) \<le> 4294967295"
    using assms by (auto simp: encode_frame_eq_Inr length_frame_bytes)
  obtain tail where tail: "bytes = MAGIC @ tail" by (simp add: f frame_bytes_pieces)
  have "str_find (noise @ bytes @ rest) MAGIC = Some (length noise)"
    using str_find_append [OF assms(4), of "tail @ rest"] by (simp add: tail)
  moreover have "u32_at (noise @ bytes @ rest) (length noise + 12) =
      (Inr (of_nat (length (payload_bytes (fm_fields f)))) :: (decode_error, u32) res)"
    unfolding f(2) frame_bytes_pieces
    using u32_at_word [of "length noise + 12" "noise @ MAGIC @ [frame_kind_u8 (fm_kind f), opcode_u8 (fm_opcode f),
        status_u8 (fm_status f), 0] @ u32_le (fm_sequence f)"]
    by (simp add: MAGIC_def)
  moreover have "slice_range (noise @ bytes @ rest) (length noise) (length noise + length bytes) =
      (Inr bytes :: (decode_error, u8 list) res)"
    by simp
  ultimately show ?thesis
    using decode_frame_bytes [OF f(1) assms(2) f(3), of hash] f
    by (simp add: decode_frame_from_stream_def unat_len_u32 Let_def length_frame_bytes ac_simps)
qed

lemma decode_stream_through_noise_witness:
  "decode_frame_from_stream (\<lambda>_. 0) (lit ''SQDboot SQ'' @ frame_bytes (\<lambda>_. 0) sample_frame @ [1, 2, 3]) =
     Inr sample_frame"
  by (rule decode_stream_through_noise [OF sample_frame_encodes sample_frame_text])
    (simp add: length_frame_bytes, simp add: sample_frame_def HEADER_LEN_def, simp add: MAGIC_def)

lemma decode_stream_no_panic: "decode_frame_from_stream hash bytes \<noteq> Inl Panic"
proof (cases "str_find bytes MAGIC")
  case (Some start)
  show ?thesis
  proof (cases "length bytes - start < HEADER_LEN")
    case False
    then have "u32_at bytes (start + 12) = (Inr (of_le (take 4 (drop (start + 12) bytes))) :: (decode_error, u32) res)"
      by (intro u32_at_Inr) (simp add: HEADER_LEN_def)
    then show ?thesis
      using Some False by (auto simp: decode_frame_from_stream_def Let_def slice_range_Inr decode_frame_no_panic)
  qed (simp add: decode_frame_from_stream_def Some)
qed (simp add: decode_frame_from_stream_def)

lemma encode_frame_into_cases:
  "case encode_frame_into hash f out of
     (Inr n, out') \<Rightarrow> n = length (frame_bytes hash f) \<and> out' = frame_bytes hash f @ drop n out \<and>
       length out' = length out
   | (Inl e, out') \<Rightarrow> e \<noteq> Panic \<and> out' = out \<and>
       (fields_fit (fm_fields f) \<longrightarrow> length out < length (frame_bytes hash f) \<or>
         usize_max < length (frame_bytes hash f))"
proof (cases "encoded_fields_len (fm_fields f)")
  case (Inl e)
  then show ?thesis
    using encoded_len_no_panic(1) [of 0 "fm_fields f"] encoded_len_fits(1) [of "fm_fields f" 0]
    by (auto simp: encode_frame_into_def encoded_fields_len_def length_frame_bytes)
next
  case (Inr n)
  then have n: "n = length (payload_bytes (fm_fields f))" by (simp add: encoded_fields_len_eq_Inr)
  show ?thesis
  proof (cases "HEADER_LEN + n \<le> usize_max \<and> HEADER_LEN + n \<le> length out")
    case True
    with encode_frame_into_layout [OF Inr, of out hash] n show ?thesis
      by (simp add: length_frame_bytes)
  next
    case False
    with Inr n show ?thesis
      by (auto simp: encode_frame_into_def checked_add_def length_frame_bytes)
  qed
qed

text \<open>
  Encoding into a buffer of the caller writes the frame to its front and leaves the rest,
  when a value's length does not fit 16 bits or the buffer is short, it is an error and the
  buffer is unchanged; it never panics.
\<close>

theorem encode_frame_into_correct:
  "case encode_frame_into hash f out of
     (Inr n, out') \<Rightarrow> n = length (frame_bytes hash f) \<and> out' = frame_bytes hash f @ drop n out \<and>
       length out' = length out
   | (Inl e, out') \<Rightarrow> e \<noteq> Panic \<and> out' = out \<and>
       (fields_fit (fm_fields f) \<longrightarrow> length out < length (frame_bytes hash f) \<or>
         usize_max < length (frame_bytes hash f))"
  by (rule encode_frame_into_cases)

lemma encode_frame_into_correct_witness:
  "snd (encode_frame_into (\<lambda>_. 0) sample_frame (replicate 100 0)) =
     frame_bytes (\<lambda>_. 0) sample_frame @ replicate 55 0"
proof -
  have "encoded_fields_len (fm_fields sample_frame) = Inr 25"
    by (simp add: sample_frame_def encoded_fields_len_def checked_add_def usize_max_def)
  then have "fst (encode_frame_into (\<lambda>_. 0) sample_frame (replicate 100 0)) = Inr 45"
    using encode_frame_into_layout [of sample_frame 25 "replicate 100 0" "\<lambda>_. 0"]
    by (simp add: HEADER_LEN_def usize_max_def)
  with encode_frame_into_correct [where hash = "\<lambda>_. 0" and f = sample_frame and out = "replicate 100 0"] show ?thesis
    by (cases "encode_frame_into (\<lambda>_. 0) sample_frame (replicate 100 0)") simp
qed

end
