(* ===== verification/Proto_Session.thy ===== *)
theory Proto_Session
  imports Proto_Frame
begin

text \<open>
  The device's side of a transfer (\<open>squid-device-protocol/src/lib.rs\<close>): a request borrowed
  from a frame, lookups in its raw payload, and the sessions of app installs, temporary runs
  and resource installs.  \<open>next_action\<close> checks a request against the sessions and says what
  the host must do; the host reports back with the \<open>complete_\<close> operations.

  A \<open>FixedStr<N>\<close> is its array and length, \<open>N\<close> being the length of the array.  The theory
  shows that no request panics, that the lookups agree with the decoder of \<open>Proto_Frame\<close>, and
  that a committed transfer is exactly the announced bytes.
\<close>

section \<open>Requests\<close>

definition MAX_APP_ID_LEN :: nat where "MAX_APP_ID_LEN = 40"
definition MAX_PATH_LEN :: nat where "MAX_PATH_LEN = 128"
definition MAX_APP_BYTES :: nat where "MAX_APP_BYTES = 65536"
definition MAX_RESOURCE_BYTES :: nat where "MAX_RESOURCE_BYTES = 1048576"

datatype session_error =
    Decode decode_error
  | InvalidRequest
  | MissingField
  | SessionInvalidUtf8
  | AppIdTooLong
  | PathTooLong
  | TooLarge
  | Inactive
  | Offset
  | Bounds
  | Crc

record device_request =
  rq_opcode :: opcode
  rq_sequence :: u32
  rq_payload :: "u8 list"

definition request_decode :: "hasher \<Rightarrow> u8 list \<Rightarrow> (decode_error, device_request) res" where
  "request_decode hash bytes =
     (if length bytes < HEADER_LEN then Inl (Err TruncatedHeader) else
      and_then (slice_range bytes 0 4) (\<lambda>magic.
      if magic \<noteq> MAGIC then Inl (Err BadMagic) else
      and_then (and_then (index_at bytes 4) frame_kind_try_from) (\<lambda>kind.
      if kind \<noteq> Request then Inl (Err BadMagic) else
      and_then (and_then (index_at bytes 5) opcode_try_from) (\<lambda>opc.
      and_then (and_then (index_at bytes 6) status_try_from) (\<lambda>_.
      and_then (u32_at bytes 8) (\<lambda>sequence.
      and_then (u32_at bytes 12) (\<lambda>payload_len.
      and_then (u32_at bytes 16) (\<lambda>payload_crc.
      let expected = HEADER_LEN + unat payload_len in
      if length bytes \<noteq> expected then Inl (Err (LengthMismatch expected (length bytes))) else
      and_then (slice_range bytes HEADER_LEN (length bytes)) (\<lambda>payload.
      if hash payload \<noteq> payload_crc then Inl (Err PayloadCrc) else
        Inr \<lparr>rq_opcode = opc, rq_sequence = sequence, rq_payload = payload\<rparr>)))))))))"

section \<open>Raw fields\<close>

record raw_field =
  rf_tag :: u8
  rf_type :: u8
  rf_value :: "u8 list"

text \<open>\<open>RawFields::next\<close>: the item, if any, and the new offset.\<close>

definition raw_fields_next ::
  "u8 list \<Rightarrow> nat \<Rightarrow> ((decode_error, raw_field) res \<times> nat) option" where
  "raw_fields_next payload offset =
     (if offset = length payload then None
      else if length payload - offset < 4 then Some (Inl (Err TruncatedField), offset)
      else
        let tag = payload ! offset; field_type = payload ! (offset + 1);
            len = unat (of_le [payload ! (offset + 2), payload ! (offset + 3)] :: u16);
            value_start = offset + 4; value_end = value_start + len
        in if value_end > length payload then Some (Inl (Err TruncatedField), offset)
           else Some (and_then (slice_range payload value_start value_end) (\<lambda>v.
                  Inr \<lparr>rf_tag = tag, rf_type = field_type, rf_value = v\<rparr>), value_end))"

text \<open>
  \<open>for field in fields(payload)\<close> with \<open>field?\<close> and a body that may return: \<open>Some r\<close> is a return.
\<close>

function field_loop ::
  "(raw_field \<Rightarrow> (session_error, 'a) res option) \<Rightarrow> u8 list \<Rightarrow> nat \<Rightarrow> (session_error, 'a option) res" where
  "field_loop body payload offset =
     (case raw_fields_next payload offset of
        None \<Rightarrow> Inr None
      | Some (Inl e, _) \<Rightarrow> map_err Decode (Inl e)
      | Some (Inr field, offset') \<Rightarrow>
          (case body field of
             Some r \<Rightarrow> and_then r (\<lambda>v. Inr (Some v))
           | None \<Rightarrow> field_loop body payload offset'))"
  by pat_completeness auto
termination
  by (relation "measure (\<lambda>(body, payload, offset). length payload - offset)")
    (auto simp: raw_fields_next_def Let_def slice_range_def get_range_def split: if_splits)

declare field_loop.simps [simp del]

definition string_body :: "u8 \<Rightarrow> raw_field \<Rightarrow> (session_error, rstr) res option" where
  "string_body tag field =
     (if rf_tag field = tag \<and> rf_type field = 1
      then Some (ok_or SessionInvalidUtf8 (from_utf8 (rf_value field))) else None)"

definition string_field :: "u8 list \<Rightarrow> u8 \<Rightarrow> (session_error, rstr option) res" where
  "string_field payload tag = field_loop (string_body tag) payload 0"

definition bytes_body :: "u8 \<Rightarrow> raw_field \<Rightarrow> (session_error, u8 list) res option" where
  "bytes_body tag field =
     (if rf_tag field = tag \<and> rf_type field = 0 then Some (Inr (rf_value field)) else None)"

definition bytes_field :: "u8 list \<Rightarrow> u8 \<Rightarrow> (session_error, u8 list option) res" where
  "bytes_field payload tag = field_loop (bytes_body tag) payload 0"

definition u64_body :: "u8 \<Rightarrow> raw_field \<Rightarrow> (session_error, u64) res option" where
  "u64_body tag field =
     (if rf_tag field = tag \<and> rf_type field = 5 then
        Some (if length (rf_value field) \<noteq> 8 then Inl (Err InvalidRequest) else Inr (of_le (rf_value field)))
      else None)"

definition u64_field :: "u8 list \<Rightarrow> u8 \<Rightarrow> (session_error, u64 option) res" where
  "u64_field payload tag = field_loop (u64_body tag) payload 0"

definition required :: "(session_error, 'a option) res \<Rightarrow> (session_error, 'a) res" where
  "required r = and_then r (ok_or MissingField)"

definition usize_try_from :: "u64 \<Rightarrow> nat option" where
  "usize_try_from w = (if unat w \<le> usize_max then Some (unat w) else None)"

definition chunk_offset :: "u8 list \<Rightarrow> (session_error, nat) res" where
  "chunk_offset payload =
     and_then (required (u64_field payload 1)) (\<lambda>offset. ok_or Bounds (usize_try_from offset))"

text \<open>The lookup of \<open>key_event_from_request_into\<close>, a loop of its own over the payload.\<close>

function payload_field_bytes ::
  "u8 list \<Rightarrow> u8 \<Rightarrow> u8 \<Rightarrow> nat \<Rightarrow> (decode_error, u8 list option) res" where
  "payload_field_bytes payload expected_tag expected_type offset =
     (if offset < length payload then
        if length payload - offset < 4 then Inl (Err TruncatedField) else
        let tag = payload ! offset; field_type = payload ! (offset + 1);
            len = unat (of_le [payload ! (offset + 2), payload ! (offset + 3)] :: u16);
            offset = offset + 4
        in if length payload - offset < len then Inl (Err TruncatedField) else
           and_then (slice_range payload offset (offset + len)) (\<lambda>v.
             if tag = expected_tag \<and> field_type = expected_type then Inr (Some v)
             else payload_field_bytes payload expected_tag expected_type (offset + len))
      else Inr None)"
  by pat_completeness auto
termination
  by (relation "measure (\<lambda>(payload, t, ty, offset). length payload - offset)") auto

declare payload_field_bytes.simps [simp del]

definition key_event_from_request_into ::
  "hasher \<Rightarrow> u8 list \<Rightarrow> u8 list \<Rightarrow> (decode_error, nat) res \<times> u8 list" where
  "key_event_from_request_into hash request out =
     (case (and_then (request_decode hash request) (\<lambda>request.
              if rq_opcode request \<noteq> Key then Inl (Err (UnknownOpcode (opcode_u8 (rq_opcode request)))) else
            and_then (payload_field_bytes (rq_payload request) 1 1 0) (\<lambda>found.
            and_then (ok_or TruncatedField (Option.bind found (\<lambda>bytes. if bytes = [] then None else Some bytes)))
              (\<lambda>key.
              if from_utf8 key = None then Inl (Err InvalidUtf8) else
            and_then (ok_or (OutputTooSmall usize_max (length out)) (checked_add 4 (length key))) (\<lambda>needed.
              if length out < needed then Inl (Err (OutputTooSmall needed (length out)))
              else Inr (key, needed)))))) of
        Inl e \<Rightarrow> (Inl e, out)
      | Inr (key, needed) \<Rightarrow> (Inr needed, splice (splice out 0 (lit ''key.'')) 4 key))"

section \<open>Fixed strings\<close>

record fixed_str =
  fx_bytes :: "u8 list"
  fx_len :: nat

definition fixed_default :: "nat \<Rightarrow> fixed_str" where
  "fixed_default n = \<lparr>fx_bytes = replicate n 0, fx_len = 0\<rparr>"

definition fixed_set :: "rstr \<Rightarrow> (session_error, fixed_str, unit) exec" where
  "fixed_set text s =
     (let n = length (fx_bytes s) in
      if text = [] \<or> length text \<ge> n
      then (Inl (Err (if n = MAX_APP_ID_LEN then AppIdTooLong else PathTooLong)), s)
      else (Inr (), \<lparr>fx_bytes = splice (replicate n 0) 0 text, fx_len = length text\<rparr>))"

definition fixed_as_str :: "fixed_str \<Rightarrow> ('e, rstr) res" where
  "fixed_as_str s =
     and_then (slice_range (fx_bytes s) 0 (fx_len s)) (\<lambda>bytes.
       case from_utf8 bytes of None \<Rightarrow> Inl Panic | Some text \<Rightarrow> Inr text)"

definition fixed_clear :: "fixed_str \<Rightarrow> fixed_str" where
  "fixed_clear s = \<lparr>fx_bytes = replicate (length (fx_bytes s)) 0, fx_len = 0\<rparr>"

section \<open>CRC-32\<close>

definition crc32_bit :: "u32 \<Rightarrow> u32" where
  "crc32_bit crc =
     (let mask = 0 - (crc AND 1) in drop_bit 1 crc XOR (0xedb88320 AND mask))"

definition crc32_byte :: "u32 \<Rightarrow> u8 \<Rightarrow> u32" where
  "crc32_byte crc byte = (crc32_bit ^^ 8) (crc XOR ucast byte)"

definition crc32_update :: "u32 \<Rightarrow> u8 list \<Rightarrow> u32" where
  "crc32_update crc bytes = foldl crc32_byte crc bytes"

lemma crc32_update_append [simp]:
  "crc32_update crc (xs @ ys) = crc32_update (crc32_update crc xs) ys"
  by (simp add: crc32_update_def)

lemma crc32_update_Nil [simp]: "crc32_update crc [] = crc"
  by (simp add: crc32_update_def)

text \<open>The CRC of a whole message, as the sender announces it.\<close>

definition crc32 :: "u8 list \<Rightarrow> u32" where
  "crc32 bytes = NOT (crc32_update 0xffffffff bytes)"

section \<open>One transfer\<close>

record transfer =
  tr_active :: bool
  tr_app_id :: fixed_str
  tr_total_len :: nat
  tr_received :: nat
  tr_expected_crc :: u32
  tr_running_crc :: u32
  tr_staging_path :: fixed_str

definition transfer_default :: transfer where
  "transfer_default = \<lparr>tr_active = False, tr_app_id = fixed_default MAX_APP_ID_LEN, tr_total_len = 0,
     tr_received = 0, tr_expected_crc = 0, tr_running_crc = 0xffffffff,
     tr_staging_path = fixed_default MAX_PATH_LEN\<rparr>"

definition validate_transfer_len :: "nat \<Rightarrow> nat \<Rightarrow> (session_error, unit) res" where
  "validate_transfer_len total_len max_bytes =
     (if total_len = 0 then Inl (Err InvalidRequest)
      else if total_len > max_bytes then Inl (Err TooLarge)
      else Inr ())"

text \<open>A call of a method of a field: \<open>self.field.method()\<close>.\<close>

definition on_part :: "('s \<Rightarrow> 'p) \<Rightarrow> ('p \<Rightarrow> 's \<Rightarrow> 's) \<Rightarrow> ('e, 'p, 'a) exec \<Rightarrow> ('e, 's, 'a) exec" where
  "on_part sel upd m s = (case m (sel s) of (r, p) \<Rightarrow> (r, upd p s))"

abbreviation on_app_id where "on_app_id \<equiv> on_part tr_app_id (\<lambda>p t. t\<lparr>tr_app_id := p\<rparr>)"
abbreviation on_staging_path where "on_staging_path \<equiv> on_part tr_staging_path (\<lambda>p t. t\<lparr>tr_staging_path := p\<rparr>)"

definition begin_with_limit :: "rstr \<Rightarrow> nat \<Rightarrow> u32 \<Rightarrow> nat \<Rightarrow> (session_error, transfer, unit) exec" where
  "begin_with_limit app_id total_len expected_crc max_bytes =
     bind_exec (lift (validate_transfer_len total_len max_bytes)) (\<lambda>_.
     bind_exec (modify (\<lambda>_. transfer_default)) (\<lambda>_.
     bind_exec (on_app_id (fixed_set app_id)) (\<lambda>_.
       modify (\<lambda>t. t\<lparr>tr_total_len := total_len, tr_expected_crc := expected_crc,
         tr_running_crc := 0xffffffff, tr_active := True\<rparr>))))"

definition transfer_begin :: "rstr \<Rightarrow> nat \<Rightarrow> u32 \<Rightarrow> (session_error, transfer, unit) exec" where
  "transfer_begin app_id total_len expected_crc =
     begin_with_limit app_id total_len expected_crc MAX_APP_BYTES"

definition complete_begin :: "rstr \<Rightarrow> (session_error, transfer, unit) exec" where
  "complete_begin staging_path t =
     (if \<not> tr_active t then throw Inactive t else on_staging_path (fixed_set staging_path) t)"

definition validate_chunk :: "nat \<Rightarrow> u8 list \<Rightarrow> transfer \<Rightarrow> (session_error, unit) res" where
  "validate_chunk offset bytes t =
     (if \<not> tr_active t then Inl (Err Inactive)
      else if offset \<noteq> tr_received t then Inl (Err Offset)
      else if length bytes > tr_total_len t - tr_received t then Inl (Err Bounds)
      else Inr ())"

definition complete_chunk :: "u8 list \<Rightarrow> (session_error, transfer, unit) exec" where
  "complete_chunk bytes t =
     (case validate_chunk (tr_received t) bytes t of
        Inl e \<Rightarrow> (Inl e, t)
      | Inr _ \<Rightarrow> (Inr (), t\<lparr>tr_running_crc := crc32_update (tr_running_crc t) bytes,
                            tr_received := tr_received t + length bytes\<rparr>))"

definition crc_matches :: "transfer \<Rightarrow> bool" where
  "crc_matches t \<longleftrightarrow> NOT (tr_running_crc t) = tr_expected_crc t"

definition validate_commit :: "transfer \<Rightarrow> (session_error, unit) res" where
  "validate_commit t =
     (if \<not> tr_active t then Inl (Err Inactive)
      else if tr_received t \<noteq> tr_total_len t then Inl (Err Bounds)
      else if \<not> crc_matches t then Inl (Err Crc)
      else Inr ())"

record resource_session =
  rs_transfer :: transfer
  rs_resource_path :: fixed_str

definition resource_default :: resource_session where
  "resource_default = \<lparr>rs_transfer = transfer_default, rs_resource_path = fixed_default MAX_PATH_LEN\<rparr>"

abbreviation on_transfer where "on_transfer \<equiv> on_part rs_transfer (\<lambda>p s. s\<lparr>rs_transfer := p\<rparr>)"
abbreviation on_resource_path where
  "on_resource_path \<equiv> on_part rs_resource_path (\<lambda>p s. s\<lparr>rs_resource_path := p\<rparr>)"

definition resource_clear :: "resource_session \<Rightarrow> resource_session" where
  "resource_clear s = s\<lparr>rs_transfer := transfer_default, rs_resource_path := fixed_clear (rs_resource_path s)\<rparr>"

definition resource_begin ::
  "rstr \<Rightarrow> rstr \<Rightarrow> nat \<Rightarrow> u32 \<Rightarrow> (session_error, resource_session, unit) exec" where
  "resource_begin app_id resource_path total_len expected_crc =
     bind_exec (modify resource_clear) (\<lambda>_.
     bind_exec (on_transfer (begin_with_limit app_id total_len expected_crc MAX_RESOURCE_BYTES)) (\<lambda>_.
       on_resource_path (fixed_set resource_path)))"

section \<open>The sessions of a device\<close>

datatype host_action =
    BeginInstall rstr nat
  | WriteInstallChunk rstr nat "u8 list"
  | CommitInstall rstr rstr
  | BeginTempRun rstr nat
  | WriteTempRunChunk rstr nat "u8 list"
  | CommitTempRun rstr rstr nat
  | BeginResourceInstall rstr rstr nat
  | WriteResourceChunk rstr nat "u8 list"
  | CommitResourceInstall rstr rstr rstr

record sessions =
  ps_install :: transfer
  ps_temp_run :: transfer
  ps_resource :: resource_session

definition sessions_default :: sessions where
  "sessions_default = \<lparr>ps_install = transfer_default, ps_temp_run = transfer_default,
     ps_resource = resource_default\<rparr>"

abbreviation on_install where "on_install \<equiv> on_part ps_install (\<lambda>p s. s\<lparr>ps_install := p\<rparr>)"
abbreviation on_temp_run where "on_temp_run \<equiv> on_part ps_temp_run (\<lambda>p s. s\<lparr>ps_temp_run := p\<rparr>)"
abbreviation on_resource where "on_resource \<equiv> on_part ps_resource (\<lambda>p s. s\<lparr>ps_resource := p\<rparr>)"

text \<open>The announced length and CRC of a begin request.\<close>

definition announced :: "u8 list \<Rightarrow> u8 \<Rightarrow> u8 \<Rightarrow> (session_error, u64 \<times> u64) res" where
  "announced payload len_tag crc_tag =
     and_then (required (u64_field payload len_tag)) (\<lambda>total_len.
     and_then (required (u64_field payload crc_tag)) (\<lambda>crc. Inr (total_len, crc)))"

definition begin_install ::
  "device_request \<Rightarrow> bool \<Rightarrow> (session_error, sessions, host_action) exec" where
  "begin_install request temp_run =
     bind_exec (lift (required (string_field (rq_payload request) 1))) (\<lambda>app_id.
     bind_exec (lift (announced (rq_payload request) 2 3)) (\<lambda>(total_len, crc).
       if unat crc > 4294967295 then throw InvalidRequest else
     bind_exec (lift (ok_or TooLarge (usize_try_from total_len))) (\<lambda>total_len.
       if temp_run then
         bind_exec (on_temp_run (transfer_begin app_id total_len (ucast crc))) (\<lambda>_.
           ret (BeginTempRun app_id total_len))
       else
         bind_exec (on_install (transfer_begin app_id total_len (ucast crc))) (\<lambda>_.
           ret (BeginInstall app_id total_len)))))"

definition install_chunk ::
  "device_request \<Rightarrow> bool \<Rightarrow> sessions \<Rightarrow> (session_error, host_action) res" where
  "install_chunk request temp_run s =
     and_then (chunk_offset (rq_payload request)) (\<lambda>offset.
     and_then (required (bytes_field (rq_payload request) 2)) (\<lambda>bytes.
     let session = if temp_run then ps_temp_run s else ps_install s in
     and_then (validate_chunk offset bytes session) (\<lambda>_.
     and_then (fixed_as_str (tr_staging_path session)) (\<lambda>path.
       Inr (if temp_run then WriteTempRunChunk path offset bytes else WriteInstallChunk path offset bytes)))))"

definition commit_install :: "sessions \<Rightarrow> (session_error, host_action) res" where
  "commit_install s =
     and_then (validate_commit (ps_install s)) (\<lambda>_.
     and_then (fixed_as_str (tr_app_id (ps_install s))) (\<lambda>app_id.
     and_then (fixed_as_str (tr_staging_path (ps_install s))) (\<lambda>path.
       Inr (CommitInstall app_id path))))"

definition commit_temp_run :: "sessions \<Rightarrow> (session_error, host_action) res" where
  "commit_temp_run s =
     and_then (validate_commit (ps_temp_run s)) (\<lambda>_.
     and_then (fixed_as_str (tr_app_id (ps_temp_run s))) (\<lambda>app_id.
     and_then (fixed_as_str (tr_staging_path (ps_temp_run s))) (\<lambda>path.
       Inr (CommitTempRun app_id path (tr_total_len (ps_temp_run s))))))"

definition begin_resource :: "device_request \<Rightarrow> (session_error, sessions, host_action) exec" where
  "begin_resource request =
     bind_exec (lift (required (string_field (rq_payload request) 1))) (\<lambda>app_id.
     bind_exec (lift (required (string_field (rq_payload request) 2))) (\<lambda>resource_path.
     bind_exec (lift (announced (rq_payload request) 3 4)) (\<lambda>(total_len, crc).
       if unat crc > 4294967295 then throw InvalidRequest else
     bind_exec (lift (ok_or TooLarge (usize_try_from total_len))) (\<lambda>total_len.
     bind_exec (on_resource (resource_begin app_id resource_path total_len (ucast crc))) (\<lambda>_.
       ret (BeginResourceInstall app_id resource_path total_len))))))"

definition resource_chunk :: "device_request \<Rightarrow> sessions \<Rightarrow> (session_error, host_action) res" where
  "resource_chunk request s =
     and_then (chunk_offset (rq_payload request)) (\<lambda>offset.
     and_then (required (bytes_field (rq_payload request) 2)) (\<lambda>bytes.
     let t = rs_transfer (ps_resource s) in
     and_then (validate_chunk offset bytes t) (\<lambda>_.
     and_then (fixed_as_str (tr_staging_path t)) (\<lambda>path. Inr (WriteResourceChunk path offset bytes)))))"

definition commit_resource :: "sessions \<Rightarrow> (session_error, host_action) res" where
  "commit_resource s =
     (let r = ps_resource s; t = rs_transfer r in
      and_then (validate_commit t) (\<lambda>_.
      and_then (fixed_as_str (tr_app_id t)) (\<lambda>app_id.
      and_then (fixed_as_str (rs_resource_path r)) (\<lambda>resource_path.
      and_then (fixed_as_str (tr_staging_path t)) (\<lambda>path.
        Inr (CommitResourceInstall app_id resource_path path))))))"

definition pure :: "('s \<Rightarrow> ('e, 'a) res) \<Rightarrow> ('e, 's, 'a) exec" where
  "pure f s = (f s, s)"

definition next_action :: "device_request \<Rightarrow> (session_error, sessions, host_action) exec" where
  "next_action request =
     (case rq_opcode request of
        AppInstallBegin \<Rightarrow> begin_install request False
      | TempRunBegin \<Rightarrow> begin_install request True
      | AppInstallChunk \<Rightarrow> pure (install_chunk request False)
      | TempRunChunk \<Rightarrow> pure (install_chunk request True)
      | AppInstallCommit \<Rightarrow> pure commit_install
      | TempRunCommit \<Rightarrow> pure commit_temp_run
      | ResourceInstallBegin \<Rightarrow> begin_resource request
      | ResourceInstallChunk \<Rightarrow> pure (resource_chunk request)
      | ResourceInstallCommit \<Rightarrow> pure commit_resource
      | _ \<Rightarrow> throw InvalidRequest)"

text \<open>What the host reports once it has done an action.\<close>

definition complete_begin_install :: "rstr \<Rightarrow> (session_error, sessions, unit) exec" where
  "complete_begin_install path = on_install (complete_begin path)"

definition complete_install_chunk :: "u8 list \<Rightarrow> (session_error, sessions, unit) exec" where
  "complete_install_chunk bytes = on_install (complete_chunk bytes)"

definition complete_install_commit :: "sessions \<Rightarrow> sessions" where
  "complete_install_commit s = s\<lparr>ps_install := transfer_default\<rparr>"

definition complete_begin_temp_run :: "rstr \<Rightarrow> (session_error, sessions, unit) exec" where
  "complete_begin_temp_run path = on_temp_run (complete_begin path)"

definition complete_temp_run_chunk :: "u8 list \<Rightarrow> (session_error, sessions, unit) exec" where
  "complete_temp_run_chunk bytes = on_temp_run (complete_chunk bytes)"

definition complete_temp_run_commit :: "sessions \<Rightarrow> sessions" where
  "complete_temp_run_commit s = s\<lparr>ps_temp_run := transfer_default\<rparr>"

definition complete_begin_resource_install :: "rstr \<Rightarrow> (session_error, sessions, unit) exec" where
  "complete_begin_resource_install path = on_resource (on_transfer (complete_begin path))"

definition complete_resource_chunk :: "u8 list \<Rightarrow> (session_error, sessions, unit) exec" where
  "complete_resource_chunk bytes = on_resource (on_transfer (complete_chunk bytes))"

definition complete_resource_commit :: "sessions \<Rightarrow> sessions" where
  "complete_resource_commit s = s\<lparr>ps_resource := resource_clear (ps_resource s)\<rparr>"

section \<open>The lookups read what the decoder reads\<close>

lemma raw_fields_next_cases:
  assumes "offset \<le> length payload"
  shows "raw_fields_next payload offset = (case drop offset payload of
      [] \<Rightarrow> None
    | tag # ty # l0 # l1 # rest \<Rightarrow>
        let len = unat (of_le [l0, l1] :: u16) in
        if length rest < len then Some (Inl (Err TruncatedField), offset)
        else Some (Inr \<lparr>rf_tag = tag, rf_type = ty, rf_value = take len rest\<rparr>, offset + 4 + len)
    | _ \<Rightarrow> Some (Inl (Err TruncatedField), offset))"
proof -
  obtain pre suf where payload: "payload = pre @ suf" "length pre = offset"
    using assms by (metis append_take_drop_id length_take min.absorb2)
  consider "suf = []" | "length suf \<in> {1, 2, 3}" | tag ty l0 l1 rest where "suf = tag # ty # l0 # l1 # rest"
    by (cases suf; cases "tl suf"; cases "tl (tl suf)"; cases "tl (tl (tl suf))") auto
  then show ?thesis
  proof cases
    case 2
    then show ?thesis
      by (auto simp: raw_fields_next_def payload split: list.splits)
  next
    case (3 tag ty l0 l1 rest)
    define len where "len = unat (of_le [l0, l1] :: u16)"
    have "len \<le> length rest \<Longrightarrow> slice_range (pre @ tag # ty # l0 # l1 # rest) (length pre + 4) (length pre + 4 + len) =
        (Inr (take len rest) :: (decode_error, u8 list) res)"
      using slice_range_append [of "offset + 4" "pre @ [tag, ty, l0, l1]" "offset + 4 + len" "take len rest" "drop len rest"]
      by (simp add: payload(2))
    then show ?thesis
      by (auto simp: raw_fields_next_def payload 3 nth_append Let_def simp flip: len_def payload(2)
          simp del: of_le.simps)
  qed (simp add: raw_fields_next_def payload)
qed

fun lookup :: "(field \<Rightarrow> 'a option) \<Rightarrow> field list \<Rightarrow> 'a option" where
  "lookup g [] = None"
| "lookup g (f # fs) = (case g f of Some v \<Rightarrow> Some v | None \<Rightarrow> lookup g fs)"

text \<open>The loop over raw fields, read as a search of the decoded fields.\<close>

lemma decode_fields_ConsE:
  assumes "decode_fields bytes = Inr (Field tag v # fs)"
  obtains ty l0 l1 rest len where "bytes = tag # ty # l0 # l1 # rest"
    and "len = unat (of_le [l0, l1] :: u16)" and "len \<le> length rest"
    and "field_type_u8 v = ty" and "value_bytes v = take len rest" and "value_text v"
    and "decode_fields (drop len rest) = Inr fs"
proof -
  from assms obtain ty l0 l1 rest where bytes: "bytes = tag # ty # l0 # l1 # rest"
    by (cases bytes; cases "tl bytes"; cases "tl (tl bytes)"; cases "tl (tl (tl bytes))")
      (auto simp: and_then_eq_Inr Let_def split: if_splits simp del: of_le.simps)
  define len where "len = unat (of_le [l0, l1] :: u16)"
  from assms have dec: "len \<le> length rest" "decode_field_value ty (take len rest) = Inr v"
    "decode_fields (drop len rest) = Inr fs"
    by (auto simp: bytes and_then_eq_Inr Let_def len_def simp del: of_le.simps decode_field_value.simps split: if_splits)
  have "length (take len rest) \<le> 65535" by (simp add: len_def min.coboundedI2)
  from decode_fields_layout(2) [OF dec(2) this] dec bytes len_def show ?thesis by (intro that) auto
qed

lemma field_loop_decoded:
  assumes "decode_fields (drop offset payload) = Inr fs" and "offset \<le> length payload"
    and body: "\<And>tag v. value_text v \<Longrightarrow>
      body \<lparr>rf_tag = tag, rf_type = field_type_u8 v, rf_value = value_bytes v\<rparr> =
        map_option Inr (g (Field tag v))"
  shows "field_loop body payload offset = Inr (lookup g fs)"
  using assms(1,2)
proof (induction fs arbitrary: offset)
  case Nil
  then have "drop offset payload = []" using decode_fields_layout(1) [OF Nil(1)] by simp
  with Nil show ?case
    by (subst field_loop.simps) (simp add: raw_fields_next_cases)
next
  case (Cons f fs)
  obtain tag v where f: "f = Field tag v" by (cases f)
  from Cons.prems(1) [unfolded f] obtain ty l0 l1 rest len where
    suf: "drop offset payload = tag # ty # l0 # l1 # rest" and
    len: "len = unat (of_le [l0, l1] :: u16)" "len \<le> length rest" and
    v: "field_type_u8 v = ty" "value_bytes v = take len rest" "value_text v" and
    fs: "decode_fields (drop len rest) = Inr fs"
    by (rule decode_fields_ConsE)
  have next_field: "raw_fields_next payload offset =
      Some (Inr \<lparr>rf_tag = tag, rf_type = field_type_u8 v, rf_value = value_bytes v\<rparr>, offset + 4 + len)"
    using len v Cons.prems(2) by (simp add: raw_fields_next_cases suf Let_def del: of_le.simps)
  have "drop (offset + 4 + len) payload = drop len (drop 4 (drop offset payload))"
    by (simp add: add.commute add.left_commute)
  then have "drop (offset + 4 + len) payload = drop len rest" by (simp add: suf)
  moreover have "length (drop offset payload) = 4 + length rest" by (simp add: suf)
  then have "offset + 4 + len \<le> length payload" using len Cons.prems(2) by simp
  ultimately show ?case
    using Cons.IH [of "offset + 4 + len"] fs body [OF v(3), of tag] f
    by (subst field_loop.simps) (simp add: next_field split: option.split)
qed

fun as_string :: "u8 \<Rightarrow> field \<Rightarrow> rstr option" where
  "as_string tag (Field t (FString text)) = (if t = tag then Some text else None)"
| "as_string tag _ = None"

fun as_bytes :: "u8 \<Rightarrow> field \<Rightarrow> u8 list option" where
  "as_bytes tag (Field t (FBytes bytes)) = (if t = tag then Some bytes else None)"
| "as_bytes tag _ = None"

fun as_u64 :: "u8 \<Rightarrow> field \<Rightarrow> u64 option" where
  "as_u64 tag (Field t (FU64 w)) = (if t = tag then Some w else None)"
| "as_u64 tag _ = None"

lemma body_decoded:
  "value_text v \<Longrightarrow> string_body tag \<lparr>rf_tag = t, rf_type = field_type_u8 v, rf_value = value_bytes v\<rparr> =
     map_option Inr (as_string tag (Field t v))"
  "bytes_body tag \<lparr>rf_tag = t, rf_type = field_type_u8 v, rf_value = value_bytes v\<rparr> =
     map_option Inr (as_bytes tag (Field t v))"
  "u64_body tag \<lparr>rf_tag = t, rf_type = field_type_u8 v, rf_value = value_bytes v\<rparr> =
     map_option Inr (as_u64 tag (Field t v))"
  by (cases v; auto simp: string_body_def bytes_body_def u64_body_def from_utf8_def)+

text \<open>
  On a payload that decodes, the raw lookups of the device return what a search of the
  decoded fields returns: the first field of the tag and type asked for.
\<close>

theorem raw_lookups_agree:
  assumes "decode_fields payload = Inr fs"
  shows "string_field payload tag = Inr (lookup (as_string tag) fs) \<and>
    bytes_field payload tag = Inr (lookup (as_bytes tag) fs) \<and>
    u64_field payload tag = Inr (lookup (as_u64 tag) fs)"
proof -
  have start: "decode_fields (drop 0 payload) = Inr fs" using assms by simp
  show ?thesis
    unfolding string_field_def bytes_field_def u64_field_def
    by (intro conjI field_loop_decoded [OF start] body_decoded) simp_all
qed

lemma raw_lookups_agree_witness:
  "string_field (payload_bytes [Field 1 (FU64 3), Field 1 (FString (lit ''a''))]) 1 = Inr (Some (lit ''a''))"
proof -
  have "decode_fields (payload_bytes [Field 1 (FU64 3), Field 1 (FString (lit ''a''))]) =
      Inr [Field 1 (FU64 3), Field 1 (FString (lit ''a''))]"
    by (rule decode_payload(1)) simp_all
  from raw_lookups_agree [OF this] show ?thesis by simp
qed

section \<open>A borrowed request is a decoded frame\<close>

lemma request_decode_pieces:
  assumes "length sq = 4" "length pl = 4" "length crc = 4"
    and bytes: "bytes = [m0, m1, m2, m3] @ [k, op, st, r] @ sq @ pl @ crc @ payload"
  shows "request_decode hash bytes =
    (if [m0, m1, m2, m3] \<noteq> MAGIC then Inl (Err BadMagic) else
     and_then (frame_kind_try_from k) (\<lambda>kind.
     if kind \<noteq> Request then Inl (Err BadMagic) else
     and_then (opcode_try_from op) (\<lambda>opc.
     and_then (status_try_from st) (\<lambda>_.
     let expected = HEADER_LEN + unat (of_le pl :: u32) in
     if length bytes \<noteq> expected then Inl (Err (LengthMismatch expected (length bytes))) else
     if hash payload \<noteq> of_le crc then Inl (Err PayloadCrc) else
       Inr \<lparr>rq_opcode = opc, rq_sequence = of_le sq, rq_payload = payload\<rparr>))))"
proof -
  have len: "length bytes = 20 + length payload" using assms by simp
  have at: "index_at bytes 4 = (Inr k :: (decode_error, u8) res)" "index_at bytes 5 = (Inr op :: (decode_error, u8) res)"
    "index_at bytes 6 = (Inr st :: (decode_error, u8) res)"
    by (simp_all add: index_at_Inr bytes)
  have words: "u32_at bytes 8 = (Inr (of_le sq) :: (decode_error, u32) res)"
    "u32_at bytes 12 = (Inr (of_le pl) :: (decode_error, u32) res)"
    "u32_at bytes 16 = (Inr (of_le crc) :: (decode_error, u32) res)"
    using assms by (simp_all add: u32_at_Inr bytes)
  have rest: "slice_range bytes 0 4 = (Inr [m0, m1, m2, m3] :: (decode_error, u8 list) res)"
    "slice_range bytes HEADER_LEN (length bytes) = (Inr payload :: (decode_error, u8 list) res)"
    using assms by (simp_all add: slice_range_Inr bytes HEADER_LEN_def)
  show ?thesis
    unfolding request_decode_def at words rest and_then_simps using len by (simp add: HEADER_LEN_def Let_def)
qed

text \<open>
  The device accepts a buffer as a request with a payload of well-formed fields exactly
  when the frame decoder gives a request frame with that opcode, sequence and fields.
\<close>

lemma request_decode_frame:
  "(\<exists>rq. request_decode hash bytes = Inr rq \<and> rq_opcode rq = opc \<and> rq_sequence rq = n \<and>
      decode_fields (rq_payload rq) = Inr fs) \<longleftrightarrow>
   (\<exists>f. decode_frame hash bytes = Inr f \<and> fm_kind f = Request \<and> fm_opcode f = opc \<and>
      fm_sequence f = n \<and> fm_fields f = fs)"
proof (cases "length bytes < HEADER_LEN")
  case True
  then show ?thesis by (simp add: request_decode_def decode_frame_def)
next
  case False
  then have "HEADER_LEN \<le> length bytes" by simp
  then obtain m0 m1 m2 m3 k op st r sq pl crc payload where
    bytes: "bytes = [m0, m1, m2, m3] @ [k, op, st, r] @ sq @ pl @ crc @ payload" and
    len: "length sq = 4" "length pl = 4" "length crc = 4"
    by (rule header_split)
  show ?thesis
    unfolding request_decode_pieces [OF len bytes] decode_frame_pieces [OF len bytes]
    by (auto simp: and_then_eq_Inr Let_def) (fastforce intro!: exI)?
qed

lemma request_decode_no_panic: "request_decode hash bytes \<noteq> Inl Panic"
proof (cases "length bytes < HEADER_LEN")
  case True
  then show ?thesis by (simp add: request_decode_def)
next
  case False
  then have "HEADER_LEN \<le> length bytes" by simp
  then obtain m0 m1 m2 m3 k op st r sq pl crc payload where
    bytes: "bytes = [m0, m1, m2, m3] @ [k, op, st, r] @ sq @ pl @ crc @ payload" and
    len: "length sq = 4" "length pl = 4" "length crc = 4"
    by (rule header_split)
  show ?thesis
    unfolding request_decode_pieces [OF len bytes] by (auto simp: and_then_eq_Inl Let_def)
qed

section \<open>The key event of a request\<close>

lemma payload_field_bytes_no_panic:
  "offset \<le> length payload \<Longrightarrow> payload_field_bytes payload tag ty offset \<noteq> Inl Panic"
proof (induction payload tag ty offset rule: payload_field_bytes.induct)
  case (1 payload tag ty offset)
  then show ?case
    by (subst payload_field_bytes.simps) (auto simp: Let_def slice_range_Inr simp del: of_le.simps)
qed

lemma payload_field_bytes_decoded:
  assumes "decode_fields (drop offset payload) = Inr fs" and "offset \<le> length payload"
  shows "payload_field_bytes payload tag 1 offset = Inr (lookup (as_string tag) fs)"
  using assms
proof (induction fs arbitrary: offset)
  case Nil
  then have "drop offset payload = []" using decode_fields_layout(1) [OF Nil(1)] by simp
  with Nil show ?case by (subst payload_field_bytes.simps) simp
next
  case (Cons f fs)
  obtain t v where f: "f = Field t v" by (cases f)
  from Cons.prems(1) [unfolded f] obtain ty l0 l1 rest len where
    suf: "drop offset payload = t # ty # l0 # l1 # rest" and
    len: "len = unat (of_le [l0, l1] :: u16)" "len \<le> length rest" and
    v: "field_type_u8 v = ty" "value_bytes v = take len rest" "value_text v" and
    fs: "decode_fields (drop len rest) = Inr fs"
    by (rule decode_fields_ConsE)
  obtain pre where payload: "payload = pre @ t # ty # l0 # l1 # rest" "length pre = offset"
    using suf Cons.prems(2) by (metis append_take_drop_id length_take min.absorb2)
  have size: "length payload = offset + 4 + length rest" using payload by simp
  have nths: "payload ! offset = t" "payload ! (offset + 1) = ty" "payload ! (offset + 2) = l0"
    "payload ! (offset + 3) = l1"
    using payload by (simp_all add: nth_append)
  have "slice_range payload (offset + 4) (offset + 4 + len) = (Inr (take len rest) :: (decode_error, u8 list) res)"
    using slice_range_append [of "offset + 4" "pre @ [t, ty, l0, l1]" "offset + 4 + len" "take len rest" "drop len rest"]
      len(2) by (simp add: payload)
  moreover have "drop (offset + 4 + len) payload = drop len (drop 4 (drop offset payload))"
    by (simp add: add.commute add.left_commute)
  then have "drop (offset + 4 + len) payload = drop len rest" by (simp add: suf)
  ultimately have step: "payload_field_bytes payload tag 1 offset =
      (if t = tag \<and> ty = 1 then Inr (Some (take len rest))
       else payload_field_bytes payload tag 1 (offset + 4 + len))"
    using len(2) nths size by (subst payload_field_bytes.simps) (simp add: Let_def del: of_le.simps flip: len(1))
  have "as_string tag f = (if t = tag \<and> ty = 1 then Some (take len rest) else None)"
    using v f by (cases v) auto
  moreover have "offset + 4 + len \<le> length payload" using len size by simp
  ultimately show ?case
    using Cons.IH [of "offset + 4 + len"] fs \<open>drop (offset + 4 + len) payload = drop len rest\<close>
    by (simp add: step)
qed

text \<open>
  The key event of a key request is \<open>key.\<close> followed by the first string field of tag 1,
  written to the front of the buffer.
\<close>

theorem key_event_correct:
  assumes "request_decode hash request = Inr rq" and "rq_opcode rq = Key"
    and "decode_fields (rq_payload rq) = Inr fs" and "lookup (as_string 1) fs = Some key"
    and "key \<noteq> []" and "length key + 4 \<le> length out"
    and "length out \<le> usize_max"
  shows "key_event_from_request_into hash request out =
    (Inr (4 + length key), lit ''key.'' @ key @ drop (4 + length key) out)"
proof -
  have valid: "utf8_valid key"
  proof -
    have "fields_text fs" using decode_fields_layout(1) [OF assms(3)] by simp
    with assms(4) show ?thesis
    proof (induction fs)
      case (Cons f fs)
      then show ?case by (cases f; cases "f_value f") (auto split: if_splits option.splits)
    qed simp
  qed
  have "payload_field_bytes (rq_payload rq) 1 1 0 = Inr (Some key)"
    using payload_field_bytes_decoded [of 0 "rq_payload rq" fs 1] assms(3,4) by simp
  moreover obtain p q where "out = p @ q" "length p = 4"
    using assms(6) by (metis append_take_drop_id length_take min.absorb2 add_leD2)
  moreover have "drop (4 + n) (a # b # c # d # q) = drop n q" for n and a b c d :: u8
    by (simp add: eval_nat_numeral)
  ultimately show ?thesis
    using assms valid
    by (auto simp: key_event_from_request_into_def from_utf8_def checked_add_def splice_def)
qed

lemma key_event_correct_witness:
  "key_event_from_request_into (\<lambda>_. 0)
     (frame_bytes (\<lambda>_. 0) (frame_request Key 3 [Field 1 (FString (lit ''up''))])) (replicate 8 0) =
     (Inr 6, lit ''key.'' @ lit ''up'' @ [0, 0])"
proof -
  let ?f = "frame_request Key 3 [Field 1 (FString (lit ''up''))]"
  have "decode_frame (\<lambda>_. 0) (frame_bytes (\<lambda>_. 0) ?f) = Inr ?f"
    by (rule decode_frame_bytes) (simp_all add: frame_text_def)
  then obtain rq where rq: "request_decode (\<lambda>_. 0) (frame_bytes (\<lambda>_. 0) ?f) = Inr rq"
    "rq_opcode rq = Key" "decode_fields (rq_payload rq) = Inr [Field 1 (FString (lit ''up''))]"
    using request_decode_frame [of "\<lambda>_. 0" "frame_bytes (\<lambda>_. 0) ?f" Key 3 "[Field 1 (FString (lit ''up''))]"]
    by auto
  show ?thesis
    using key_event_correct [OF rq, of "lit ''up''" "replicate 8 0"] by (simp add: usize_max_def numeral_2_eq_2)
qed

section \<open>The invariant of the sessions\<close>

definition fixed_ok :: "nat \<Rightarrow> fixed_str \<Rightarrow> bool" where
  "fixed_ok n s \<longleftrightarrow> length (fx_bytes s) = n \<and> fx_len s \<le> n \<and> utf8_valid (take (fx_len s) (fx_bytes s))"

definition transfer_ok :: "nat \<Rightarrow> transfer \<Rightarrow> bool" where
  "transfer_ok max_bytes t \<longleftrightarrow> fixed_ok MAX_APP_ID_LEN (tr_app_id t) \<and> fixed_ok MAX_PATH_LEN (tr_staging_path t) \<and>
     tr_received t \<le> tr_total_len t \<and> tr_total_len t \<le> max_bytes"

definition resource_ok :: "resource_session \<Rightarrow> bool" where
  "resource_ok s \<longleftrightarrow> transfer_ok MAX_RESOURCE_BYTES (rs_transfer s) \<and> fixed_ok MAX_PATH_LEN (rs_resource_path s)"

definition sessions_ok :: "sessions \<Rightarrow> bool" where
  "sessions_ok s \<longleftrightarrow> transfer_ok MAX_APP_BYTES (ps_install s) \<and> transfer_ok MAX_APP_BYTES (ps_temp_run s) \<and>
     resource_ok (ps_resource s)"

lemma fixed_default_ok [simp]: "fixed_ok n (fixed_default n)"
  by (simp add: fixed_ok_def fixed_default_def)

lemma fixed_clear_ok [simp]: "fixed_ok n s \<Longrightarrow> fixed_ok n (fixed_clear s)"
  by (simp add: fixed_ok_def fixed_clear_def)

lemma fixed_as_str_no_panic [simp]: "fixed_ok n s \<Longrightarrow> fixed_as_str s \<noteq> Inl Panic"
  by (simp add: fixed_ok_def fixed_as_str_def slice_range_Inr from_utf8_def)

lemma fixed_set_steady: "utf8_valid v \<Longrightarrow> steady (fixed_ok n) (fixed_set v)"
  by (rule steadyI) (auto simp: fixed_set_def fixed_ok_def Let_def splice_def)

lemma fixed_set_as_str:
  "fixed_set v s = (Inr (), t) \<Longrightarrow> utf8_valid v \<Longrightarrow> fixed_as_str t = Inr v"
  by (auto simp: fixed_set_def fixed_as_str_def Let_def splice_def slice_range_Inr from_utf8_def split: if_splits)

lemma transfer_default_ok [simp]: "transfer_ok n transfer_default"
  by (simp add: transfer_ok_def transfer_default_def)

lemma resource_default_ok [simp]: "resource_ok resource_default"
  by (simp add: resource_ok_def resource_default_def)

lemma sessions_default_ok: "sessions_ok sessions_default"
  by (simp add: sessions_ok_def sessions_default_def)

text \<open>An invariant of the whole follows from one of the part that a method changes.\<close>

lemma steady_on_part:
  assumes "steady Q m" and "\<And>s. P s \<Longrightarrow> Q (sel s)" and "\<And>s p. P s \<Longrightarrow> Q p \<Longrightarrow> P (upd p s)"
  shows "steady P (on_part sel upd m)"
proof (rule steadyI)
  fix s assume "P s"
  then show "case on_part sel upd m s of (r, t) \<Rightarrow> r \<noteq> Inl Panic \<and> P t"
    using steadyD [OF assms(1), of "sel s"] assms(2,3) by (auto simp: on_part_def split: prod.splits)
qed

lemma steady_modify: "(\<And>s. P s \<Longrightarrow> P (f s)) \<Longrightarrow> steady P (modify f)"
  by (rule steadyI) simp

lemma steady_on_sessions:
  "steady (transfer_ok MAX_APP_BYTES) m \<Longrightarrow> steady sessions_ok (on_install m)"
  "steady (transfer_ok MAX_APP_BYTES) m \<Longrightarrow> steady sessions_ok (on_temp_run m)"
  "steady resource_ok m' \<Longrightarrow> steady sessions_ok (on_resource m')"
  "steady (transfer_ok MAX_RESOURCE_BYTES) m'' \<Longrightarrow> steady resource_ok (on_transfer m'')"
  by (erule steady_on_part; simp add: sessions_ok_def resource_ok_def)+

lemma begin_with_limit_steady:
  assumes "utf8_valid app_id"
  shows "steady (transfer_ok n) (begin_with_limit app_id total_len crc n)"
proof (rule steadyI)
  fix t assume t: "transfer_ok n t"
  obtain r s where set: "fixed_set app_id (fixed_default MAX_APP_ID_LEN) = (r, s)" by (metis surj_pair)
  from steadyD [OF fixed_set_steady [OF assms] fixed_default_ok set]
  have "r \<noteq> Inl Panic" "fixed_ok MAX_APP_ID_LEN s" by auto
  with t set show "case begin_with_limit app_id total_len crc n t of (r, t) \<Rightarrow> r \<noteq> Inl Panic \<and> transfer_ok n t"
    by (cases r) (auto simp: begin_with_limit_def validate_transfer_len_def on_part_def transfer_default_def
        transfer_ok_def bind_exec_def)
qed

lemma complete_begin_steady: "utf8_valid path \<Longrightarrow> steady (transfer_ok n) (complete_begin path)"
proof -
  assume path: "utf8_valid path"
  have "steady (transfer_ok n) (on_staging_path (fixed_set path))"
    by (rule steady_on_part [OF fixed_set_steady [OF path, of MAX_PATH_LEN]]) (simp_all add: transfer_ok_def)
  then show ?thesis
    unfolding complete_begin_def steady_def triple_def by simp
qed

lemma complete_chunk_steady: "steady (transfer_ok n) (complete_chunk bytes)"
  by (rule steadyI) (auto simp: complete_chunk_def validate_chunk_def transfer_ok_def split: if_splits)

lemma resource_begin_steady:
  "utf8_valid app_id \<Longrightarrow> utf8_valid path \<Longrightarrow> steady resource_ok (resource_begin app_id path total_len crc)"
  unfolding resource_begin_def
  by (intro steady_bind steady_on_sessions begin_with_limit_steady steady_on_part [OF fixed_set_steady [where n = MAX_PATH_LEN]]
      steady_modify) (simp_all add: resource_ok_def resource_clear_def)

text \<open>What the lookups return.\<close>

lemma raw_fields_next_no_panic: "offset \<le> length payload \<Longrightarrow> raw_fields_next payload offset \<noteq> Some (Inl Panic, k)"
  by (auto simp: raw_fields_next_cases Let_def split: list.splits if_splits)

lemma raw_fields_next_bound:
  "offset \<le> length payload \<Longrightarrow> raw_fields_next payload offset = Some (Inr field, k) \<Longrightarrow> k \<le> length payload"
  by (auto simp: raw_fields_next_def Let_def split: if_splits)

lemma field_loop_no_panic:
  assumes "\<And>field. body field \<noteq> Some (Inl Panic)" and "offset \<le> length payload"
  shows "field_loop body payload offset \<noteq> Inl Panic"
  using assms
proof (induction body payload offset rule: field_loop.induct)
  case (1 body payload offset)
  show ?case
  proof (cases "raw_fields_next payload offset")
    case (Some item)
    obtain r k where item: "item = (r, k)" by (cases item)
    show ?thesis
    proof (cases r)
      case (Inl e)
      with Some item raw_fields_next_no_panic [OF "1.prems"(2)] show ?thesis
        by (subst field_loop.simps) (cases e; auto)
    next
      case (Inr field)
      have "k \<le> length payload"
        using raw_fields_next_bound [OF "1.prems"(2)] Some item Inr by simp
      with 1 Some item Inr show ?thesis
        by (subst field_loop.simps) (auto simp: and_then_eq_Inl split: option.split)
    qed
  qed (subst field_loop.simps, simp)
qed

lemma field_loop_result:
  "field_loop body payload offset = Inr (Some v) \<Longrightarrow> \<exists>field. body field = Some (Inr v)"
proof (induction body payload offset rule: field_loop.induct)
  case (1 body payload offset)
  then show ?case
    by (subst (asm) (2) field_loop.simps)
      (auto simp: and_then_eq_Inr map_err_def split: option.splits prod.splits sum.splits fail.splits)
qed

lemma lookups_no_panic:
  "string_field payload tag \<noteq> Inl Panic" "bytes_field payload tag \<noteq> Inl Panic" "u64_field payload tag \<noteq> Inl Panic"
  unfolding string_field_def bytes_field_def u64_field_def
  by (rule field_loop_no_panic; simp add: string_body_def bytes_body_def u64_body_def)+

lemma string_field_valid: "string_field payload tag = Inr (Some v) \<Longrightarrow> utf8_valid v"
  unfolding string_field_def by (drule field_loop_result) (auto simp: string_body_def split: if_splits)

lemma required_no_panic [no_panic]: "r \<noteq> Inl Panic \<Longrightarrow> required r \<noteq> Inl Panic"
  by (auto simp: required_def and_then_eq_Inl)

lemma required_Inr [simp]: "required r = Inr v \<longleftrightarrow> r = Inr (Some v)"
  by (auto simp: required_def and_then_eq_Inr)

lemma requests_no_panic [no_panic]:
  "chunk_offset payload \<noteq> Inl Panic" "announced payload a b \<noteq> Inl Panic"
  "validate_chunk offset bytes t \<noteq> Inl Panic" "validate_commit t \<noteq> Inl Panic"
  unfolding chunk_offset_def announced_def
  by (intro no_panic lookups_no_panic, intro no_panic lookups_no_panic)
    (simp_all add: validate_chunk_def validate_commit_def)

lemma text_then:
  assumes "\<And>v. utf8_valid v \<Longrightarrow> steady P (f v)"
  shows "steady P (bind_exec (lift (required (string_field payload tag))) f)"
proof (rule steady_bind_with [OF _ assms])
  have "required (string_field payload tag) \<noteq> Inl Panic" by (intro required_no_panic lookups_no_panic)
  then show "triple P (lift (required (string_field payload tag))) (\<lambda>v s. P s \<and> utf8_valid v) (\<lambda>_. P)"
    by (auto simp: triple_def dest: string_field_valid split: sum.splits fail.splits)
qed

lemma begin_install_steady: "steady sessions_ok (begin_install rq temp)"
  unfolding begin_install_def transfer_begin_def
  by (intro text_then steady_intros steady_on_sessions begin_with_limit_steady no_panic)
    (auto intro!: no_panic)

lemma begin_resource_steady: "steady sessions_ok (begin_resource rq)"
  unfolding begin_resource_def
  by (intro text_then steady_intros steady_on_sessions resource_begin_steady no_panic)
    (auto intro!: no_panic)

lemma pure_steady: "(\<And>s. P s \<Longrightarrow> f s \<noteq> Inl Panic) \<Longrightarrow> steady P (pure f)"
  by (rule steadyI) (simp add: pure_def)

lemma sessions_ok_parts:
  assumes "sessions_ok s"
  shows "fixed_as_str (tr_app_id (ps_install s)) \<noteq> Inl Panic"
    "fixed_as_str (tr_staging_path (ps_install s)) \<noteq> Inl Panic"
    "fixed_as_str (tr_app_id (ps_temp_run s)) \<noteq> Inl Panic"
    "fixed_as_str (tr_staging_path (ps_temp_run s)) \<noteq> Inl Panic"
    "fixed_as_str (tr_app_id (rs_transfer (ps_resource s))) \<noteq> Inl Panic"
    "fixed_as_str (tr_staging_path (rs_transfer (ps_resource s))) \<noteq> Inl Panic"
    "fixed_as_str (rs_resource_path (ps_resource s)) \<noteq> Inl Panic"
  using assms unfolding sessions_ok_def transfer_ok_def resource_ok_def
  by (auto dest: fixed_as_str_no_panic)

lemma next_action_steady: "steady sessions_ok (next_action rq)"
proof -
  have "steady sessions_ok (pure (install_chunk rq temp))" for temp
    unfolding install_chunk_def Let_def
    by (rule pure_steady, intro no_panic lookups_no_panic) (auto dest: sessions_ok_parts)
  moreover have "steady sessions_ok (pure (resource_chunk rq))"
    unfolding resource_chunk_def Let_def
    by (rule pure_steady, intro no_panic lookups_no_panic) (auto dest: sessions_ok_parts)
  moreover have "steady sessions_ok (pure commit_install)" "steady sessions_ok (pure commit_temp_run)"
    "steady sessions_ok (pure commit_resource)"
    unfolding commit_install_def commit_temp_run_def commit_resource_def Let_def
    by (rule pure_steady, intro no_panic; (auto dest: sessions_ok_parts)?)+
  ultimately show ?thesis
    unfolding next_action_def
    by (cases "rq_opcode rq") (simp_all add: begin_install_steady begin_resource_steady steady_basic)
qed

text \<open>
  C35: no request makes the sessions panic, and no request breaks their invariant: fixed
  strings stay text, no more is received than announced, no more is announced than the limit.
\<close>

theorem next_action_safe:
  assumes "sessions_ok s"
  shows "case next_action rq s of (r, t) \<Rightarrow> r \<noteq> Inl Panic \<and> sessions_ok t"
  using steadyD [OF next_action_steady assms] by (auto split: prod.splits)

lemma next_action_safe_witness:
  "case next_action \<lparr>rq_opcode = AppInstallChunk, rq_sequence = 1, rq_payload = [9]\<rparr> sessions_default of
     (r, t) \<Rightarrow> r \<noteq> Inl Panic \<and> sessions_ok t"
  by (rule next_action_safe [OF sessions_default_ok])

section \<open>A device and its staged files\<close>

text \<open>
  The host the sessions are written for: it keeps one staging file for each kind of transfer,
  empties it at a begin, writes each chunk at its offset and reports it, and forgets the
  session once a commit is done.  A write may fail after a prefix of the chunk; nothing is
  reported then, and the sender may retry.
\<close>

record device =
  dv_sessions :: sessions
  dv_install_file :: "u8 list"
  dv_temp_file :: "u8 list"
  dv_resource_file :: "u8 list"

definition device_new :: device where
  "device_new = \<lparr>dv_sessions = sessions_default, dv_install_file = [], dv_temp_file = [], dv_resource_file = []\<rparr>"

record attempt =
  at_request :: device_request
  at_path :: rstr \<comment> \<open>the staging path the host would open\<close>
  at_fails :: "nat option" \<comment> \<open>a write that fails after so many bytes\<close>

definition write_at :: "u8 list \<Rightarrow> nat \<Rightarrow> u8 list \<Rightarrow> u8 list" where
  "write_at file offset bytes = take offset file @ bytes @ drop (offset + length bytes) file"

definition on_sessions :: "(sessions \<Rightarrow> sessions) \<Rightarrow> device \<Rightarrow> device" where
  "on_sessions f d = d\<lparr>dv_sessions := f (dv_sessions d)\<rparr>"

definition host_write ::
  "nat option \<Rightarrow> nat \<Rightarrow> u8 list \<Rightarrow> ((u8 list \<Rightarrow> u8 list) \<Rightarrow> device \<Rightarrow> device) \<Rightarrow>
   (u8 list \<Rightarrow> (session_error, sessions, unit) exec) \<Rightarrow> device \<Rightarrow> device" where
  "host_write fails offset bytes on_file complete d =
     (case fails of
        None \<Rightarrow> on_sessions (\<lambda>s. snd (complete bytes s)) (on_file (\<lambda>f. write_at f offset bytes) d)
      | Some k \<Rightarrow> on_file (\<lambda>f. write_at f offset (take k bytes)) d)"

definition host_do :: "attempt \<Rightarrow> host_action \<Rightarrow> device \<Rightarrow> device" where
  "host_do a action d =
     (case action of
        BeginInstall app_id n \<Rightarrow>
          on_sessions (\<lambda>s. snd (complete_begin_install (at_path a) s)) (d\<lparr>dv_install_file := []\<rparr>)
      | WriteInstallChunk path offset bytes \<Rightarrow>
          host_write (at_fails a) offset bytes (\<lambda>w. dv_install_file_update w) complete_install_chunk d
      | CommitInstall app_id path \<Rightarrow> on_sessions complete_install_commit d
      | BeginTempRun app_id n \<Rightarrow>
          on_sessions (\<lambda>s. snd (complete_begin_temp_run (at_path a) s)) (d\<lparr>dv_temp_file := []\<rparr>)
      | WriteTempRunChunk path offset bytes \<Rightarrow>
          host_write (at_fails a) offset bytes (\<lambda>w. dv_temp_file_update w) complete_temp_run_chunk d
      | CommitTempRun app_id path n \<Rightarrow> on_sessions complete_temp_run_commit d
      | BeginResourceInstall app_id resource_path n \<Rightarrow>
          on_sessions (\<lambda>s. snd (complete_begin_resource_install (at_path a) s)) (d\<lparr>dv_resource_file := []\<rparr>)
      | WriteResourceChunk path offset bytes \<Rightarrow>
          host_write (at_fails a) offset bytes (\<lambda>w. dv_resource_file_update w) complete_resource_chunk d
      | CommitResourceInstall app_id resource_path path \<Rightarrow> on_sessions complete_resource_commit d)"

definition serve :: "attempt \<Rightarrow> device \<Rightarrow> device" where
  "serve a d =
     (case next_action (at_request a) (dv_sessions d) of
        (Inl e, s) \<Rightarrow> d\<lparr>dv_sessions := s\<rparr>
      | (Inr action, s) \<Rightarrow> host_do a action (d\<lparr>dv_sessions := s\<rparr>))"

section \<open>What a transfer has staged\<close>

text \<open>The moves of one transfer and its file.\<close>

definition fresh_transfer :: "transfer \<Rightarrow> bool" where
  "fresh_transfer t \<longleftrightarrow> tr_received t = 0 \<and> tr_running_crc t = 0xffffffff"

inductive moves :: "transfer \<times> u8 list \<Rightarrow> transfer \<times> u8 list \<Rightarrow> bool" where
  stay: "moves (t, f) (t, f)"
| stop: "\<not> tr_active t' \<Longrightarrow> moves (t, f) (t', f')"
| start: "fresh_transfer t' \<Longrightarrow> moves (t, f) (t', [])"
| chunk: "validate_chunk offset bytes t = Inr () \<Longrightarrow>
    moves (t, f) (snd (complete_chunk bytes t), write_at f offset bytes)"
| broken: "validate_chunk offset bytes t = Inr () \<Longrightarrow> moves (t, f) (t, write_at f offset (take k bytes))"

text \<open>What is staged is what was received so far, with the running CRC over it.\<close>

definition staged :: "transfer \<times> u8 list \<Rightarrow> bool" where
  "staged p \<longleftrightarrow> (case p of (t, f) \<Rightarrow> tr_active t \<longrightarrow>
     tr_received t \<le> length f \<and> length f \<le> max (tr_received t) (tr_total_len t) \<and>
     tr_running_crc t = crc32_update 0xffffffff (take (tr_received t) f))"

lemma length_write_at: "offset \<le> length f \<Longrightarrow> length (write_at f offset bytes) = max (length f) (offset + length bytes)"
  by (auto simp: write_at_def)

lemma take_write_at: "offset \<le> length f \<Longrightarrow> take (offset + length bytes) (write_at f offset bytes) = take offset f @ bytes"
  by (simp add: write_at_def)

lemma take_write_before: "offset \<le> length f \<Longrightarrow> take offset (write_at f offset bytes) = take offset f"
  by (simp add: write_at_def)

lemma moves_staged: "moves p q \<Longrightarrow> staged p \<Longrightarrow> staged q"
proof (induction rule: moves.induct)
  case (chunk offset bytes t f)
  then show ?case
    by (auto simp: staged_def validate_chunk_def complete_chunk_def length_write_at take_write_at split: if_splits)
next
  case (broken offset bytes t f k)
  then show ?case
    by (auto simp: staged_def validate_chunk_def length_write_at take_write_before split: if_splits)
qed (auto simp: staged_def fresh_transfer_def)

lemma commit_staged:
  assumes "validate_commit t = Inr ()" and "staged (t, f)"
  shows "length f = tr_total_len t \<and> crc32 f = tr_expected_crc t"
  using assms by (auto simp: validate_commit_def staged_def crc_matches_def crc32_def split: if_splits)

text \<open>
  The contract that makes a staged file trustworthy: whatever the device is asked, a kind's
  transfer and file change only by the moves above.
\<close>

locale staging =
  fixes part :: "device \<Rightarrow> transfer" and contents :: "device \<Rightarrow> u8 list"
  assumes new: "\<not> tr_active (part device_new)"
    and step: "moves (part d, contents d) (part (serve a d), contents (serve a d))"
begin

lemma run_staged: "staged (part d, contents d) \<Longrightarrow> staged (part (fold serve attempts d), contents (fold serve attempts d))"
  by (induction attempts arbitrary: d) (auto intro: moves_staged [OF step])

lemma new_staged: "staged (part device_new, contents device_new)"
  by (simp add: staged_def new)

lemma committed:
  assumes "validate_commit (part (fold serve attempts device_new)) = Inr ()"
  shows "length (contents (fold serve attempts device_new)) = tr_total_len (part (fold serve attempts device_new)) \<and>
    crc32 (contents (fold serve attempts device_new)) = tr_expected_crc (part (fold serve attempts device_new))"
  using commit_staged [OF assms run_staged [OF new_staged]] .

end

lemma begin_with_limit_cases:
  assumes "begin_with_limit app_id n crc limit t = (r, t')"
  shows "case r of
      Inr _ \<Rightarrow> fresh_transfer t' \<and> tr_active t' \<and> tr_total_len t' = n \<and> tr_expected_crc t' = crc \<and>
        0 < n \<and> n \<le> limit
    | Inl _ \<Rightarrow> t' = t \<or> \<not> tr_active t'"
  using assms
  by (auto simp: begin_with_limit_def bind_exec_def validate_transfer_len_def on_part_def fixed_set_def Let_def
      transfer_default_def fresh_transfer_def split: if_splits sum.splits prod.splits)

text \<open>How an action and the transfers before and after a request are related.\<close>

lemma next_action_transfers:
  assumes "next_action rq s = (r, t)"
  shows "case r of
      Inr (BeginInstall app_id n) \<Rightarrow> fresh_transfer (ps_install t) \<and> ps_temp_run t = ps_temp_run s
    | Inr (WriteInstallChunk path offset bytes) \<Rightarrow> t = s \<and> validate_chunk offset bytes (ps_install s) = Inr ()
    | Inr (BeginTempRun app_id n) \<Rightarrow> fresh_transfer (ps_temp_run t) \<and> ps_install t = ps_install s
    | Inr (WriteTempRunChunk path offset bytes) \<Rightarrow> t = s \<and> validate_chunk offset bytes (ps_temp_run s) = Inr ()
    | _ \<Rightarrow> (ps_install t = ps_install s \<or> \<not> tr_active (ps_install t)) \<and>
        (ps_temp_run t = ps_temp_run s \<or> \<not> tr_active (ps_temp_run t))"
proof -
  have start: "case r of
      Inr (BeginInstall app_id n) \<Rightarrow> \<not> temp \<and> fresh_transfer (ps_install t) \<and> ps_temp_run t = ps_temp_run s
    | Inr (BeginTempRun app_id n) \<Rightarrow> temp \<and> fresh_transfer (ps_temp_run t) \<and> ps_install t = ps_install s
    | Inr _ \<Rightarrow> False
    | _ \<Rightarrow> (ps_install t = ps_install s \<or> \<not> tr_active (ps_install t)) \<and>
        (ps_temp_run t = ps_temp_run s \<or> \<not> tr_active (ps_temp_run t))"
    if "begin_install rq temp s = (r, t)" for temp
    using that
    by (auto simp: begin_install_def bind_exec_def on_part_def transfer_begin_def
        split: if_splits sum.splits prod.splits option.splits dest!: begin_with_limit_cases)
  have res: "ps_install t = ps_install s \<and> ps_temp_run t = ps_temp_run s \<and>
      (case r of Inr (BeginResourceInstall _ _ _) \<Rightarrow> True | Inr _ \<Rightarrow> False | _ \<Rightarrow> True)"
    if "begin_resource rq s = (r, t)"
    using that
    by (auto simp: begin_resource_def bind_exec_def on_part_def split: if_splits sum.splits prod.splits)
  show ?thesis
    using assms start [of False] start [of True] res
    by (auto simp: next_action_def pure_def install_chunk_def resource_chunk_def commit_install_def
        commit_temp_run_def commit_resource_def Let_def and_then_eq_Inr
        split: opcode.splits sum.splits host_action.splits)
qed

text \<open>A kind's transfer after the host has done what it was told.\<close>

lemma fresh_after_begin: "fresh_transfer t \<Longrightarrow> fresh_transfer (snd (complete_begin path t))"
  by (auto simp: complete_begin_def fresh_transfer_def on_part_def split: prod.splits)

lemma completions [simp]:
  "ps_install (snd (complete_begin_install path s)) = snd (complete_begin path (ps_install s))"
  "ps_temp_run (snd (complete_begin_install path s)) = ps_temp_run s"
  "ps_install (snd (complete_begin_temp_run path s)) = ps_install s"
  "ps_temp_run (snd (complete_begin_temp_run path s)) = snd (complete_begin path (ps_temp_run s))"
  "ps_install (snd (complete_begin_resource_install path s)) = ps_install s"
  "ps_temp_run (snd (complete_begin_resource_install path s)) = ps_temp_run s"
  "ps_install (snd (complete_install_chunk bytes s)) = snd (complete_chunk bytes (ps_install s))"
  "ps_temp_run (snd (complete_install_chunk bytes s)) = ps_temp_run s"
  "ps_install (snd (complete_temp_run_chunk bytes s)) = ps_install s"
  "ps_temp_run (snd (complete_temp_run_chunk bytes s)) = snd (complete_chunk bytes (ps_temp_run s))"
  "ps_install (snd (complete_resource_chunk bytes s)) = ps_install s"
  "ps_temp_run (snd (complete_resource_chunk bytes s)) = ps_temp_run s"
  by (simp_all add: complete_begin_install_def complete_begin_temp_run_def complete_begin_resource_install_def
      complete_install_chunk_def complete_temp_run_chunk_def complete_resource_chunk_def on_part_def split: prod.splits)

lemma moves_other: "t' = t \<or> \<not> tr_active t' \<Longrightarrow> moves (t, f) (t', f)"
  by (auto intro: moves.intros)

interpretation install: staging "\<lambda>d. ps_install (dv_sessions d)" dv_install_file
proof
  show "\<not> tr_active (ps_install (dv_sessions device_new))"
    by (simp add: device_new_def sessions_default_def transfer_default_def)
next
  fix d :: device and a :: attempt
  obtain r s where action: "next_action (at_request a) (dv_sessions d) = (r, s)" by (metis surj_pair)
  from next_action_transfers [OF this]
  show "moves (ps_install (dv_sessions d), dv_install_file d)
      (ps_install (dv_sessions (serve a d)), dv_install_file (serve a d))"
    by (cases r; (cases "projr r")?)
      (auto simp: serve_def action host_do_def host_write_def on_sessions_def complete_install_commit_def
        complete_temp_run_commit_def complete_resource_commit_def transfer_default_def
        intro!: moves_other moves.start fresh_after_begin moves.chunk moves.broken split: option.splits)
qed

interpretation temp_run: staging "\<lambda>d. ps_temp_run (dv_sessions d)" dv_temp_file
proof
  show "\<not> tr_active (ps_temp_run (dv_sessions device_new))"
    by (simp add: device_new_def sessions_default_def transfer_default_def)
next
  fix d :: device and a :: attempt
  obtain r s where action: "next_action (at_request a) (dv_sessions d) = (r, s)" by (metis surj_pair)
  from next_action_transfers [OF this]
  show "moves (ps_temp_run (dv_sessions d), dv_temp_file d)
      (ps_temp_run (dv_sessions (serve a d)), dv_temp_file (serve a d))"
    by (cases r; (cases "projr r")?)
      (auto simp: serve_def action host_do_def host_write_def on_sessions_def complete_install_commit_def
        complete_temp_run_commit_def complete_resource_commit_def transfer_default_def
        intro!: moves_other moves.start fresh_after_begin moves.chunk moves.broken split: option.splits)
qed

lemma commit_action:
  assumes "next_action rq s = (Inr action, t)"
  shows "case action of
      CommitInstall app_id path \<Rightarrow> validate_commit (ps_install s) = Inr () \<and>
        fixed_as_str (tr_app_id (ps_install s)) = (Inr app_id :: (session_error, rstr) res) \<and>
        fixed_as_str (tr_staging_path (ps_install s)) = (Inr path :: (session_error, rstr) res)
    | CommitTempRun app_id path n \<Rightarrow> validate_commit (ps_temp_run s) = Inr () \<and> n = tr_total_len (ps_temp_run s) \<and>
        fixed_as_str (tr_app_id (ps_temp_run s)) = (Inr app_id :: (session_error, rstr) res) \<and>
        fixed_as_str (tr_staging_path (ps_temp_run s)) = (Inr path :: (session_error, rstr) res)
    | _ \<Rightarrow> True"
  using assms
  by (auto simp: next_action_def pure_def commit_install_def commit_temp_run_def commit_resource_def begin_install_def
      begin_resource_def install_chunk_def resource_chunk_def and_then_eq_Inr bind_exec_def Let_def on_part_def
      split: opcode.splits if_splits sum.splits prod.splits)


text \<open>
  A begin of an app install that passes its checks starts a session for exactly the
  announced app, length and CRC; one that fails leaves the session as it was or inactive.
\<close>

theorem begin_install_correct:
  assumes "decode_fields (rq_payload rq) = Inr fs"
  shows "case begin_install rq False s of
      (Inr action, t) \<Rightarrow> (\<exists>app_id n crc. lookup (as_string 1) fs = Some app_id \<and> lookup (as_u64 2) fs = Some n \<and>
          lookup (as_u64 3) fs = Some crc \<and> action = BeginInstall app_id (unat n) \<and>
          fresh_transfer (ps_install t) \<and> tr_active (ps_install t) \<and> tr_total_len (ps_install t) = unat n \<and>
          unat (tr_expected_crc (ps_install t)) = unat crc \<and> 0 < n \<and> unat n \<le> MAX_APP_BYTES)
    | (Inl e, t) \<Rightarrow> ps_install t = ps_install s \<or> \<not> tr_active (ps_install t)"
proof -
  note agree = raw_lookups_agree [OF assms]
  have back32: "unat (ucast w :: u32) = unat w" if "unat w \<le> 4294967295" for w :: u64
    using that by (simp add: unsigned_ucast_eq take_bit_nat_eq_self)
  have word_pos: "0 < w" if "0 < unat w" for w :: u64
    using that by (metis bot_nat_0.not_eq_extremum unat_0 word_gt_0)
  show ?thesis
    by (auto simp: begin_install_def announced_def required_def agree bind_exec_def on_part_def transfer_begin_def
        usize_try_from_def back32 word_pos and_then_eq_Inr split: option.splits prod.splits sum.splits if_splits
        dest!: begin_with_limit_cases)
qed

text \<open>
  C36: a resource install whose path is refused reports the error and is active all the same:
  the host was not told to open a staging file, and chunks for it are accepted.
\<close>

theorem refused_resource_stays_active:
  assumes "0 < n" and "n \<le> MAX_RESOURCE_BYTES" and "app_id \<noteq> []" and "length app_id < MAX_APP_ID_LEN"
    and "length path \<ge> MAX_PATH_LEN" and "resource_ok s" and "length bytes \<le> n"
  shows "\<exists>t. resource_begin app_id path n crc s = (Inl (Err PathTooLong), t) \<and>
    validate_chunk 0 bytes (rs_transfer t) = Inr () \<and>
    fixed_as_str (tr_staging_path (rs_transfer t)) = (Inr [] :: (session_error, rstr) res)"
  using assms
  by (auto simp: resource_begin_def bind_exec_def on_part_def begin_with_limit_def validate_transfer_len_def
      fixed_set_def Let_def transfer_default_def fixed_default_def resource_clear_def fixed_clear_def resource_ok_def fixed_ok_def
      MAX_APP_ID_LEN_def MAX_PATH_LEN_def validate_chunk_def fixed_as_str_def slice_range_Inr from_utf8_def)

lemma begin_install_correct_witness:
  "case begin_install \<lparr>rq_opcode = AppInstallBegin, rq_sequence = 1, rq_payload = payload_bytes
        [Field 1 (FString (lit ''demo'')), Field 2 (FU64 9), Field 3 (FU64 7)]\<rparr> False sessions_default of
     (Inr action, t) \<Rightarrow> action = BeginInstall (lit ''demo'') 9
   | (Inl e, t) \<Rightarrow> ps_install t = transfer_default \<or> \<not> tr_active (ps_install t)"
proof -
  have "decode_fields (payload_bytes [Field 1 (FString (lit ''demo'')), Field 2 (FU64 9), Field 3 (FU64 7)]) =
      Inr [Field 1 (FString (lit ''demo'')), Field 2 (FU64 9), Field 3 (FU64 7)]"
    by (rule decode_payload(1)) simp_all
  from begin_install_correct [of "\<lparr>rq_opcode = AppInstallBegin, rq_sequence = 1, rq_payload = payload_bytes
        [Field 1 (FString (lit ''demo'')), Field 2 (FU64 9), Field 3 (FU64 7)]\<rparr>", simplified device_request.simps, OF this,
      of sessions_default]
  show ?thesis by (auto simp: sessions_default_def split: prod.splits sum.splits)
qed

lemma refused_resource_stays_active_witness:
  "\<exists>t. resource_begin (lit ''demo'') (replicate 128 97) 3 0 resource_default = (Inl (Err PathTooLong), t) \<and>
    validate_chunk 0 [1, 2] (rs_transfer t) = Inr () \<and>
    fixed_as_str (tr_staging_path (rs_transfer t)) = (Inr [] :: (session_error, rstr) res)"
  by (rule refused_resource_stays_active)
    (simp_all add: MAX_RESOURCE_BYTES_def MAX_APP_ID_LEN_def MAX_PATH_LEN_def)

end
