(* ===== verification/Proto_Response.thy ===== *)
theory Proto_Response
  imports Proto_Frame
begin

text \<open>
  The device's response encoders (\<open>squid-device-protocol/src/lib.rs\<close>), which write a response
  into a buffer without allocating: one pass over the data measures the payload, another
  writes its fields, each writer handing the rest of the buffer to the next.

  A writer is a method on the slice it is given; its result is the offset at which the rest
  of the slice starts.  The theory shows, for every encoder, that it does to the buffer
  exactly what \<open>encode_frame_into\<close> of \<open>Proto_Frame\<close> does with the response frame it stands
  for, so that the round trips proved there carry over.
\<close>

section \<open>Lengths\<close>

definition tlv_string_len_for_len :: "nat \<Rightarrow> (decode_error, nat) res" where
  "tlv_string_len_for_len value_len =
     (if value_len > 65535 then Inl (Err (OutputTooSmall value_len 65535)) else Inr (4 + value_len))"

definition tlv_string_len :: "rstr \<Rightarrow> (decode_error, nat) res" where
  "tlv_string_len text = tlv_string_len_for_len (length text)"

definition tlv_bytes_len :: "u8 list \<Rightarrow> (decode_error, nat) res" where
  "tlv_bytes_len bytes =
     (if length bytes > 65535 then Inl (Err (OutputTooSmall (length bytes) 65535)) else Inr (4 + length bytes))"

definition tlv_bool_len :: nat where "tlv_bool_len = 5"
definition tlv_i64_len :: nat where "tlv_i64_len = 12"
definition tlv_u64_len :: nat where "tlv_u64_len = 12"
definition tlv_u32_len :: nat where "tlv_u32_len = 8"

lemmas tlv_lens [simp] = tlv_bool_len_def tlv_i64_len_def tlv_u64_len_def tlv_u32_len_def

definition tlv_record_len :: "nat \<Rightarrow> (decode_error, nat) res" where
  "tlv_record_len value_len =
     (if value_len > 65535 then Inl (Err (OutputTooSmall value_len 65535)) else Inr (4 + value_len))"

function decimal_len :: "nat \<Rightarrow> nat" where
  "decimal_len n = (if n \<ge> 10 then decimal_len (n div 10) + 1 else 1)"
  by pat_completeness auto
termination by (relation "measure id") auto

declare decimal_len.simps [simp del]

section \<open>Writers\<close>

type_synonym 'a writer = "(decode_error, u8 list, 'a) exec"

text \<open>
  \<open>out[i..i + n].copy_from_slice(bytes)\<close>, and the work on a part of the slice: the rest from
  an offset, or \<open>n\<close> bytes of it from \<open>split_at_mut\<close>.
\<close>

definition copy_at :: "nat \<Rightarrow> u8 list \<Rightarrow> unit writer" where
  "copy_at i bytes out =
     (if i + length bytes \<le> length out then (Inr (), splice out i bytes) else (Inl Panic, out))"

definition on_rest :: "nat \<Rightarrow> 'a writer \<Rightarrow> 'a writer" where
  "on_rest i m out =
     (if i \<le> length out then (case m (drop i out) of (r, rest) \<Rightarrow> (r, take i out @ rest)) else (Inl Panic, out))"

definition on_range :: "nat \<Rightarrow> nat \<Rightarrow> 'a writer \<Rightarrow> 'a writer" where
  "on_range i n m out =
     (if i + n \<le> length out
      then (case m (take n (drop i out)) of (r, part) \<Rightarrow> (r, take i out @ part @ drop (i + n) out))
      else (Inl Panic, out))"

definition write_tlv_header :: "u8 \<Rightarrow> u8 \<Rightarrow> nat \<Rightarrow> unit writer" where
  "write_tlv_header tag field_type value_len out =
     (if value_len > 65535 \<or> length out < 4 + value_len
      then (Inl (Err (OutputTooSmall (4 + value_len) (length out))), out)
      else copy_at 0 ([tag, field_type] @ u16_le (of_nat value_len)) out)"

definition write_string_tlv :: "u8 \<Rightarrow> rstr \<Rightarrow> nat writer" where
  "write_string_tlv tag text =
     bind_exec (write_tlv_header tag 1 (length text)) (\<lambda>_.
     bind_exec (copy_at 4 text) (\<lambda>_. ret (4 + length text)))"

definition write_bytes_tlv :: "u8 \<Rightarrow> u8 list \<Rightarrow> nat writer" where
  "write_bytes_tlv tag bytes =
     bind_exec (write_tlv_header tag 0 (length bytes)) (\<lambda>_.
     bind_exec (copy_at 4 bytes) (\<lambda>_. ret (4 + length bytes)))"

definition write_bool_tlv :: "u8 \<Rightarrow> bool \<Rightarrow> nat writer" where
  "write_bool_tlv tag b =
     bind_exec (write_tlv_header tag 3 1) (\<lambda>_.
     bind_exec (copy_at 4 [bool_byte b]) (\<lambda>_. ret 5))"

definition write_i64_tlv :: "u8 \<Rightarrow> i64 \<Rightarrow> nat writer" where
  "write_i64_tlv tag i =
     bind_exec (write_tlv_header tag 4 8) (\<lambda>_.
     bind_exec (copy_at 4 (u64_le i)) (\<lambda>_. ret 12))"

definition write_u64_tlv :: "u8 \<Rightarrow> u64 \<Rightarrow> nat writer" where
  "write_u64_tlv tag w =
     bind_exec (write_tlv_header tag 5 8) (\<lambda>_.
     bind_exec (copy_at 4 (u64_le w)) (\<lambda>_. ret 12))"

definition write_u32_tlv :: "u8 \<Rightarrow> u32 \<Rightarrow> nat writer" where
  "write_u32_tlv tag w =
     bind_exec (write_tlv_header tag 6 4) (\<lambda>_.
     bind_exec (copy_at 4 (u32_le w)) (\<lambda>_. ret 8))"

text \<open>The lines of the lifecycle are written piece by piece.\<close>

definition write_piece :: "nat \<Rightarrow> u8 list \<Rightarrow> nat writer" where
  "write_piece offset bytes = bind_exec (copy_at offset bytes) (\<lambda>_. ret (offset + length bytes))"

text \<open>The digits are written from the last to the first: \<open>k\<close> of them are left.\<close>

fun write_digits :: "nat \<Rightarrow> nat \<Rightarrow> nat \<Rightarrow> unit writer" where
  "write_digits offset 0 n = ret ()"
| "write_digits offset (Suc k) n =
     bind_exec (copy_at (offset + k) [48 + of_nat (n mod 10)]) (\<lambda>_. write_digits offset k (n div 10))"

definition write_decimal :: "nat \<Rightarrow> nat \<Rightarrow> nat writer" where
  "write_decimal offset n =
     bind_exec (write_digits offset (decimal_len n) n) (\<lambda>_. ret (offset + decimal_len n))"

definition write_active_line_tlv :: "rstr \<Rightarrow> nat writer" where
  "write_active_line_tlv active =
     bind_exec (write_tlv_header 1 1 (length (lit ''active='') + length active)) (\<lambda>_.
     bind_exec (write_piece 4 (lit ''active='')) (\<lambda>offset.
       write_piece offset active))"

definition write_process_line_tlv :: "nat \<Rightarrow> rstr \<Rightarrow> nat writer" where
  "write_process_line_tlv index app_id =
     bind_exec (write_tlv_header 1 1 (length (lit ''process_stack['') + decimal_len index + length (lit '']='') +
       length app_id)) (\<lambda>_.
     bind_exec (write_piece 4 (lit ''process_stack['')) (\<lambda>offset.
     bind_exec (write_decimal offset index) (\<lambda>offset.
     bind_exec (write_piece offset (lit '']='')) (\<lambda>offset.
       write_piece offset app_id))))"

definition write_armed_line_tlv :: "nat \<Rightarrow> rstr \<Rightarrow> rstr \<Rightarrow> nat writer" where
  "write_armed_line_tlv index app_id event =
     bind_exec (write_tlv_header 1 1 (length (lit ''armed_stack['') + decimal_len index + length (lit '']='') +
       length app_id + 1 + length event)) (\<lambda>_.
     bind_exec (write_piece 4 (lit ''armed_stack['')) (\<lambda>offset.
     bind_exec (write_decimal offset index) (\<lambda>offset.
     bind_exec (write_piece offset (lit '']='')) (\<lambda>offset.
     bind_exec (write_piece offset app_id) (\<lambda>offset.
     bind_exec (write_piece offset (lit '' '')) (\<lambda>offset.
       write_piece offset event))))))"

section \<open>Encoders\<close>

definition encode_response_payload_into ::
  "hasher \<Rightarrow> opcode \<Rightarrow> status \<Rightarrow> u32 \<Rightarrow> nat \<Rightarrow> unit writer \<Rightarrow> nat writer" where
  "encode_response_payload_into hash opc st sequence payload_len write_payload out =
     (if payload_len > 4294967295 then (Inl (Err (OutputTooSmall payload_len 4294967295)), out) else
      (case checked_add HEADER_LEN payload_len of
         None \<Rightarrow> (Inl (Err (OutputTooSmall usize_max (length out))), out)
       | Some needed \<Rightarrow>
           if length out < needed then (Inl (Err (OutputTooSmall needed (length out))), out) else
           let out = splice out 0 (header_start Response opc st sequence payload_len)
           in (case write_payload (take payload_len (drop HEADER_LEN out)) of
                 (Inl e, payload) \<Rightarrow> (Inl e, splice out HEADER_LEN payload)
               | (Inr _, payload) \<Rightarrow>
                   (Inr needed, splice (splice out HEADER_LEN payload) 16 (u32_le (hash payload))))))"

definition too_small :: "u8 list \<Rightarrow> decode_error" where
  "too_small out = OutputTooSmall usize_max (length out)"

text \<open>A loop that adds the length of each item: \<open>checked_add\<close>, or the error of the item.\<close>

fun add_lens :: "decode_error \<Rightarrow> ('x \<Rightarrow> (decode_error, nat) res) \<Rightarrow> nat \<Rightarrow> 'x list \<Rightarrow> (decode_error, nat) res" where
  "add_lens e item_len len [] = Inr len"
| "add_lens e item_len len (x # xs) =
     and_then (item_len x) (\<lambda>n. and_then (ok_or e (checked_add len n)) (\<lambda>len. add_lens e item_len len xs))"

text \<open>A loop that writes each item and goes on in the rest.\<close>

fun write_each :: "('x \<Rightarrow> nat writer) \<Rightarrow> 'x list \<Rightarrow> unit writer \<Rightarrow> unit writer" where
  "write_each w [] after = after"
| "write_each w (x # xs) after = bind_exec (w x) (\<lambda>n. on_rest n (write_each w xs after))"

definition encode_empty_response_into :: "hasher \<Rightarrow> opcode \<Rightarrow> status \<Rightarrow> u32 \<Rightarrow> nat writer" where
  "encode_empty_response_into hash opc st sequence =
     encode_response_payload_into hash opc st sequence 0 (ret ())"

definition encode_hello_response_into ::
  "hasher \<Rightarrow> opcode \<Rightarrow> u32 \<Rightarrow> rstr \<Rightarrow> rstr \<Rightarrow> bool \<Rightarrow> u64 \<Rightarrow> nat writer" where
  "encode_hello_response_into hash opc sequence target firmware diagnostic serial_max_frame_bytes out =
     bind_exec (lift (and_then (tlv_string_len target) (\<lambda>a.
         and_then (tlv_string_len firmware) (\<lambda>b.
         ok_or (too_small out) (Option.bind (checked_add a b) (\<lambda>len.
           Option.bind (checked_add len tlv_bool_len) (\<lambda>len. checked_add len tlv_u64_len))))))) (\<lambda>payload_len.
       encode_response_payload_into hash opc StatusOk sequence payload_len
         (bind_exec (write_string_tlv 1 target) (\<lambda>rest. on_rest rest
           (bind_exec (write_string_tlv 2 firmware) (\<lambda>rest. on_rest rest
           (bind_exec (write_bool_tlv 3 diagnostic) (\<lambda>rest. on_rest rest
           (bind_exec (write_u64_tlv 4 serial_max_frame_bytes) (\<lambda>_. ret ()))))))))) out"

record app_list_entry =
  al_app_id :: rstr
  al_sqbc_len :: u64

definition app_entry_record_len :: "decode_error \<Rightarrow> app_list_entry \<Rightarrow> (decode_error, nat) res" where
  "app_entry_record_len e entry =
     and_then (tlv_string_len (al_app_id entry)) (\<lambda>n. ok_or e (checked_add n tlv_u64_len))"

definition write_app_entry :: "app_list_entry \<Rightarrow> nat writer" where
  "write_app_entry entry out =
     bind_exec (lift (app_entry_record_len (too_small out) entry)) (\<lambda>record_len.
     bind_exec (write_tlv_header 1 32 record_len) (\<lambda>_.
     bind_exec (on_range 4 record_len
       (bind_exec (write_string_tlv 1 (al_app_id entry)) (\<lambda>rest. on_rest rest
         (write_u64_tlv 2 (al_sqbc_len entry))))) (\<lambda>_.
       ret (4 + record_len)))) out"

definition encode_app_list_response_into :: "hasher \<Rightarrow> u32 \<Rightarrow> app_list_entry list \<Rightarrow> nat writer" where
  "encode_app_list_response_into hash sequence entries out =
     bind_exec (lift (add_lens (too_small out) (\<lambda>entry.
         and_then (app_entry_record_len (too_small out) entry) tlv_record_len) 0 entries)) (\<lambda>payload_len.
       encode_response_payload_into hash AppList StatusOk sequence payload_len
         (write_each write_app_entry entries (ret ()))) out"

definition encode_line_response_into :: "hasher \<Rightarrow> opcode \<Rightarrow> u32 \<Rightarrow> rstr list \<Rightarrow> nat writer" where
  "encode_line_response_into hash opc sequence lines out =
     bind_exec (lift (add_lens (too_small out) tlv_string_len 0 lines)) (\<lambda>payload_len.
       encode_response_payload_into hash opc StatusOk sequence payload_len
         (write_each (write_string_tlv 1) lines (ret ()))) out"

record resource_metric =
  mt_key :: rstr
  mt_value :: u64

definition RESOURCE_METRIC_NAMES :: "(u32 \<times> rstr) list" where
  "RESOURCE_METRIC_NAMES =
    [(1, lit ''ram_total_bytes''),
     (2, lit ''runtime_static_bytes''),
     (3, lit ''vm_sqbc_chunk_bytes''),
     (4, lit ''heap_count''),
     (5, lit ''heap_free_bytes''),
     (6, lit ''heap_alloc_bytes''),
     (7, lit ''heap_max_alloc_bytes''),
     (8, lit ''heap_largest_free_supported''),
     (9, lit ''heap_largest_free_bytes''),
     (10, lit ''last_dispatch_us''),
     (11, lit ''last_dispatch_seq''),
     (12, lit ''last_sqbc_reads''),
     (13, lit ''last_sqbc_bytes''),
     (14, lit ''runtime_status''),
     (15, lit ''runtime_dispatch_started''),
     (16, lit ''runtime_dispatch_age_us''),
     (17, lit ''runtime_work_submitted''),
     (18, lit ''runtime_current_app_present''),
     (19, lit ''runtime_lifecycle_phase''),
     (20, lit ''runtime_arm_phase''),
     (21, lit ''cap.static.timer''),
     (22, lit ''cap.static.armed_timer''),
     (23, lit ''cap.static.input_button''),
     (24, lit ''cap.static.binding''),
     (25, lit ''cap.static.output''),
     (26, lit ''cap.static.drawlog''),
     (27, lit ''cap.static.device_error''),
     (28, lit ''cap.active.timer''),
     (29, lit ''cap.active.armed_timer''),
     (30, lit ''cap.active.input_button''),
     (31, lit ''cap.active.binding''),
     (32, lit ''cap.active.output''),
     (33, lit ''cap.active.drawlog''),
     (34, lit ''proto_stack_size_bytes''),
     (35, lit ''proto_stack_pre_unused_bytes''),
     (36, lit ''proto_stack_pre_used_bytes''),
     (37, lit ''proto_stack_unused_bytes''),
     (38, lit ''proto_stack_used_bytes''),
     (39, lit ''vm_stack_size_bytes''),
     (40, lit ''vm_stack_unused_bytes''),
     (41, lit ''vm_stack_used_bytes''),
     (42, lit ''app_count''),
     (43, lit ''input_button_state''),
     (44, lit ''x4.input.adc_gpio1_raw''),
     (45, lit ''x4.input.adc_gpio1_logical''),
     (46, lit ''x4.input.adc_gpio1_error''),
     (47, lit ''x4.input.adc_gpio2_raw''),
     (48, lit ''x4.input.adc_gpio2_logical''),
     (49, lit ''x4.input.adc_gpio2_error''),
     (50, lit ''x4.input.power_raw''),
     (51, lit ''x4.input.power_pressed''),
     (52, lit ''x4.input.power_error''),
     (53, lit ''display_stack_size_bytes''),
     (54, lit ''display_stack_unused_bytes''),
     (55, lit ''display_stack_used_bytes''),
     (56, lit ''last_sqbc_read_us''),
     (57, lit ''last_display_flush_us''),
     (58, lit ''last_state_save_us''),
     (59, lit ''last_binbook_open_us''),
     (60, lit ''last_binbook_read_page_us'')]"

definition resource_metric_id_for_name :: "rstr \<Rightarrow> u32 option" where
  "resource_metric_id_for_name name =
     map_option fst (List.find (\<lambda>(id, metric_name). metric_name = name) RESOURCE_METRIC_NAMES)"

definition metric_record_len :: "decode_error \<Rightarrow> (decode_error, nat) res" where
  "metric_record_len e = ok_or e (checked_add tlv_u32_len tlv_u32_len)"

definition write_metric :: "resource_metric \<Rightarrow> nat writer" where
  "write_metric metric out =
     bind_exec (lift (if unat (mt_value metric) \<le> 4294967295 then Inr (ucast (mt_value metric) :: u32)
         else Inl (Err (OutputTooSmall (unat (mt_value metric)) 4294967295)))) (\<lambda>w.
     bind_exec (lift (ok_or (OutputTooSmall (length (mt_key metric)) 0)
         (resource_metric_id_for_name (mt_key metric)))) (\<lambda>key.
     bind_exec (lift (metric_record_len (too_small out))) (\<lambda>record_len.
     bind_exec (write_tlv_header 1 32 record_len) (\<lambda>_.
     bind_exec (on_range 4 record_len
       (bind_exec (write_u32_tlv 1 key) (\<lambda>rest. on_rest rest (write_u32_tlv 2 w)))) (\<lambda>_.
       ret (4 + record_len)))))) out"

definition encode_resources_response_into :: "hasher \<Rightarrow> u32 \<Rightarrow> resource_metric list \<Rightarrow> nat writer" where
  "encode_resources_response_into hash sequence metrics out =
     bind_exec (lift (add_lens (too_small out) (\<lambda>_.
         and_then (metric_record_len (too_small out)) tlv_record_len) 0 metrics)) (\<lambda>payload_len.
       encode_response_payload_into hash ResourcesGet StatusOk sequence payload_len
         (write_each write_metric metrics (ret ()))) out"

definition encode_state_response_into :: "hasher \<Rightarrow> u32 \<Rightarrow> u8 list \<Rightarrow> nat writer" where
  "encode_state_response_into hash sequence bytes =
     bind_exec (lift (tlv_bytes_len bytes)) (\<lambda>payload_len.
       encode_response_payload_into hash StateGet StatusOk sequence payload_len
         (bind_exec (write_bytes_tlv 1 bytes) (\<lambda>_. ret ())))"

record lifecycle_timer =
  lt_app_id :: rstr
  lt_event :: rstr

definition encode_lifecycle_response_into ::
  "hasher \<Rightarrow> u32 \<Rightarrow> rstr option \<Rightarrow> rstr list \<Rightarrow> lifecycle_timer list \<Rightarrow> nat writer" where
  "encode_lifecycle_response_into hash sequence active_app process_stack armed_timers out =
     (let active = (case active_app of None \<Rightarrow> [] | Some app_id \<Rightarrow> app_id) in
      bind_exec (lift (and_then (tlv_string_len_for_len (length (lit ''active='') + length active)) (\<lambda>len.
          and_then (add_lens (too_small out) (\<lambda>(index, app_id). tlv_string_len_for_len
              (length (lit ''process_stack['') + decimal_len index + length (lit '']='') + length app_id))
            len (enumerate 0 process_stack)) (\<lambda>len.
          and_then (tlv_string_len (lit ''armed_stack='')) (\<lambda>n.
          and_then (ok_or (too_small out) (checked_add len n)) (\<lambda>len.
            add_lens (too_small out) (\<lambda>(index, timer). tlv_string_len_for_len
              (length (lit ''armed_stack['') + decimal_len index + length (lit '']='') + length (lt_app_id timer) + 1 +
               length (lt_event timer))) len (enumerate 0 armed_timers))))))) (\<lambda>payload_len.
        encode_response_payload_into hash LifecycleGet StatusOk sequence payload_len
          (bind_exec (write_active_line_tlv active) (\<lambda>rest. on_rest rest
            (write_each (\<lambda>(index, app_id). write_process_line_tlv index app_id) (enumerate 0 process_stack)
              (bind_exec (write_string_tlv 1 (lit ''armed_stack='')) (\<lambda>rest. on_rest rest
                (write_each (\<lambda>(index, timer). write_armed_line_tlv index (lt_app_id timer) (lt_event timer))
                  (enumerate 0 armed_timers) (ret ())))))))) out)"

definition encode_error_response_into :: "hasher \<Rightarrow> opcode \<Rightarrow> u32 \<Rightarrow> i64 \<Rightarrow> rstr \<Rightarrow> nat writer" where
  "encode_error_response_into hash opc sequence code message out =
     bind_exec (lift (and_then (tlv_string_len message) (\<lambda>n. ok_or (too_small out) (checked_add tlv_i64_len n))))
      (\<lambda>payload_len.
       encode_response_payload_into hash opc StatusError sequence payload_len
         (bind_exec (write_i64_tlv 250 code) (\<lambda>rest. on_rest rest
           (bind_exec (write_string_tlv 251 message) (\<lambda>_. ret ()))))) out"

section \<open>What a writer writes\<close>

text \<open>
  \<open>writes w bs\<close>: on every slice with room, the writer puts \<open>bs\<close> at the front and returns
  where the rest starts.  \<open>fills m bs\<close>: it fills a slice of that length.  \<open>puts m bs\<close>: from
  any offset, it puts \<open>bs\<close> there.
\<close>

definition writes :: "nat writer \<Rightarrow> u8 list \<Rightarrow> bool" where
  "writes w bs \<longleftrightarrow> (\<forall>out. length bs \<le> length out \<longrightarrow> w out = (Inr (length bs), bs @ drop (length bs) out))"

definition fills :: "'a writer \<Rightarrow> u8 list \<Rightarrow> bool" where
  "fills m bs \<longleftrightarrow> (\<forall>out. length out = length bs \<longrightarrow> (\<exists>v. m out = (Inr v, bs)))"

definition puts :: "(nat \<Rightarrow> nat writer) \<Rightarrow> u8 list \<Rightarrow> bool" where
  "puts m bs \<longleftrightarrow> (\<forall>i out. i + length bs \<le> length out \<longrightarrow>
     m i out = (Inr (i + length bs), take i out @ bs @ drop (i + length bs) out))"

named_theorems writers

lemma fillsD: "fills m bs \<Longrightarrow> length out = length bs \<Longrightarrow> \<exists>v. m out = (Inr v, bs)"
  by (simp add: fills_def)

lemma fills_ret [writers]: "fills (ret v) []"
  by (simp add: fills_def)

lemma writes_fills [writers]: "writes w bs \<Longrightarrow> fills w bs"
  by (simp add: writes_def fills_def)

lemma fills_then [writers]:
  assumes "writes w a" and "fills m b"
  shows "fills (bind_exec w (\<lambda>n. on_rest n m)) (a @ b)"
  unfolding fills_def
proof (intro allI impI)
  fix out :: "u8 list" assume len: "length out = length (a @ b)"
  then have "w out = (Inr (length a), a @ drop (length a) out)" using assms(1) by (simp add: writes_def)
  moreover obtain v where "m (drop (length a) out) = (Inr v, b)" using fillsD [OF assms(2), of "drop (length a) out"] len by auto
  ultimately show "\<exists>v. bind_exec w (\<lambda>n. on_rest n m) out = (Inr v, a @ b)"
    by (simp add: bind_exec_Inr on_rest_def)
qed

lemma fills_last [writers]: "writes w a \<Longrightarrow> fills (bind_exec w (\<lambda>_. ret v)) a"
  by (auto simp: fills_def writes_def bind_exec_Inr)

lemma fills_each [writers]:
  assumes "\<And>x. x \<in> set xs \<Longrightarrow> writes (w x) (enc x)" and "fills after bs"
  shows "fills (write_each w xs after) (concat (map enc xs) @ bs)"
  using assms
proof (induction xs)
  case (Cons x xs)
  then have "fills (bind_exec (w x) (\<lambda>n. on_rest n (write_each w xs after))) (enc x @ (concat (map enc xs) @ bs))"
    by (intro fills_then) auto
  then show ?case by simp
qed simp

lemma header_writes:
  assumes "n \<le> 65535" and "4 + n \<le> length out"
  shows "write_tlv_header tag ty n out = (Inr (), [tag, ty] @ u16_le (of_nat n) @ drop 4 out)"
  using assms by (simp add: write_tlv_header_def copy_at_def splice_def)

text \<open>A header followed by work on the value gives a field.\<close>

lemma tlv_writes:
  assumes "n \<le> 65535" and "length bs = n" and "k = 4 + n"
    and body: "\<And>head rest. length head = 4 \<Longrightarrow> length rest \<ge> n \<Longrightarrow> m (head @ rest) = (Inr k, head @ bs @ drop n rest)"
  shows "writes (bind_exec (write_tlv_header tag ty n) (\<lambda>_. m)) ([tag, ty] @ u16_le (of_nat n) @ bs)"
  unfolding writes_def
proof (intro allI impI)
  fix out :: "u8 list" assume "length ([tag, ty] @ u16_le (of_nat n) @ bs) \<le> length out"
  then have len: "4 + n \<le> length out" using assms by simp
  have "m (([tag, ty] @ u16_le (of_nat n)) @ drop 4 out) = (Inr k, ([tag, ty] @ u16_le (of_nat n)) @ bs @ drop n (drop 4 out))"
    by (rule body) (use len in simp_all)
  with len assms(2,3) show "bind_exec (write_tlv_header tag ty n) (\<lambda>_. m) out =
      (Inr (length ([tag, ty] @ u16_le (of_nat n) @ bs)),
       ([tag, ty] @ u16_le (of_nat n) @ bs) @ drop (length ([tag, ty] @ u16_le (of_nat n) @ bs)) out)"
    by (simp add: bind_exec_Inr [OF header_writes [OF assms(1)]] add.commute eval_nat_numeral)
qed

lemma copy_at_end: "length head = i \<Longrightarrow> length bs \<le> length rest \<Longrightarrow>
    copy_at i bs (head @ rest) = (Inr (), head @ bs @ drop (length bs) rest)"
  by (simp add: copy_at_def splice_def)

lemma tlv_copy_writes:
  assumes "length bs \<le> 65535" and "n = length bs" and "k = 4 + n"
  shows "writes (bind_exec (write_tlv_header tag ty n) (\<lambda>_. bind_exec (copy_at 4 bs) (\<lambda>_. ret k)))
    ([tag, ty] @ u16_le (of_nat n) @ bs)"
  by (rule tlv_writes [OF _ _ assms(3)]) (use assms in \<open>simp_all add: bind_exec_def copy_at_end\<close>)

lemma tlv_range_writes:
  assumes "n \<le> 65535" and "length bs = n" and "fills m bs" and "k = 4 + n"
  shows "writes (bind_exec (write_tlv_header tag ty n) (\<lambda>_. bind_exec (on_range 4 n m) (\<lambda>_. ret k)))
    ([tag, ty] @ u16_le (of_nat n) @ bs)"
proof (rule tlv_writes [OF assms(1,2,4)])
  fix head rest :: "u8 list" assume len: "length head = 4" "n \<le> length rest"
  obtain v where "m (take n rest) = (Inr v, bs)" using fillsD [OF assms(3), of "take n rest"] assms(2) len by auto
  then show "bind_exec (on_range 4 n m) (\<lambda>_. ret k) (head @ rest) = (Inr k, head @ bs @ drop n rest)"
    using len by (simp add: on_range_def bind_exec_def)
qed

lemma value_writes [writers]:
  "length v \<le> 65535 \<Longrightarrow> writes (write_string_tlv tag v) (payload_bytes [Field tag (FString v)])"
  "length bs \<le> 65535 \<Longrightarrow> writes (write_bytes_tlv tag bs) (payload_bytes [Field tag (FBytes bs)])"
  "writes (write_bool_tlv tag b) (payload_bytes [Field tag (FBool b)])"
  "writes (write_i64_tlv tag i) (payload_bytes [Field tag (FI64 i)])"
  "writes (write_u64_tlv tag w) (payload_bytes [Field tag (FU64 w)])"
  "writes (write_u32_tlv tag x) (payload_bytes [Field tag (FU32 x)])"
  unfolding write_string_tlv_def write_bytes_tlv_def write_bool_tlv_def write_i64_tlv_def write_u64_tlv_def
    write_u32_tlv_def
  using tlv_copy_writes [of v "length v" "4 + length v" tag 1] tlv_copy_writes [of bs "length bs" "4 + length bs" tag 0]
    tlv_copy_writes [of "[bool_byte b]" 1 5 tag 3] tlv_copy_writes [of "u64_le i" 8 12 tag 4]
    tlv_copy_writes [of "u64_le w" 8 12 tag 5] tlv_copy_writes [of "u32_le x" 4 8 tag 6]
  by simp_all

lemma length_decimal: "length (decimal n) = decimal_len n"
proof (induction n rule: decimal.induct)
  case (1 n)
  then show ?case by (subst decimal.simps, subst decimal_len.simps) simp
qed

lemma write_digits_decimal:
  "i + decimal_len n \<le> length out \<Longrightarrow> write_digits i (decimal_len n) n out = (Inr (), splice out i (decimal n))"
proof (induction n arbitrary: out rule: decimal.induct)
  case (1 n)
  show ?case
  proof (cases "n \<ge> 10")
    case True
    let ?k = "decimal_len (n div 10)" and ?d = "48 + of_nat (n mod 10) :: u8"
    have len: "decimal_len n = Suc ?k" "decimal n = decimal (n div 10) @ [?d]"
      using True by (simp_all add: decimal_len.simps [of n] decimal.simps [of n])
    have "copy_at (i + ?k) [?d] out = (Inr (), splice out (i + ?k) [?d])"
      using "1.prems" by (simp add: copy_at_def len)
    moreover have "write_digits i ?k (n div 10) (splice out (i + ?k) [?d]) =
        (Inr (), splice (splice out (i + ?k) [?d]) i (decimal (n div 10)))"
      using "1.prems" by (intro "1.IH" [OF True]) (simp add: len)
    moreover have "splice (splice out (i + ?k) [?d]) i (decimal (n div 10)) = splice out i (decimal n)"
      using "1.prems" by (simp add: splice_def len length_decimal)
    ultimately show ?thesis by (simp add: len bind_exec_Inr)
  next
    case False
    then have "decimal_len n = 1" "decimal n = [48 + of_nat (n mod 10)]"
      by (simp_all add: decimal_len.simps [of n] decimal.simps [of n])
    with "1.prems" show ?thesis by (simp add: copy_at_def bind_exec_def)
  qed
qed

lemma puts_piece [writers]: "puts (\<lambda>i. write_piece i bs) bs"
  by (simp add: puts_def write_piece_def copy_at_def bind_exec_def splice_def)

lemma puts_decimal [writers]: "puts (\<lambda>i. write_decimal i n) (decimal n)"
  by (simp add: puts_def write_decimal_def bind_exec_def write_digits_decimal splice_def length_decimal)

lemma puts_then [writers]:
  assumes "puts m a" and "puts k b"
  shows "puts (\<lambda>i. bind_exec (m i) k) (a @ b)"
  unfolding puts_def
proof (intro allI impI)
  fix i and out :: "u8 list" assume len: "i + length (a @ b) \<le> length out"
  let ?out = "take i out @ a @ drop (i + length a) out"
  have "m i out = (Inr (i + length a), ?out)" using assms(1) len by (simp add: puts_def)
  moreover have "k (i + length a) ?out = (Inr (i + length a + length b), take (i + length a) ?out @ b @
      drop (i + length a + length b) ?out)"
    using assms(2) len unfolding puts_def by (auto simp del: append_assoc)
  ultimately show "bind_exec (m i) k out = (Inr (i + length (a @ b)), take i out @ (a @ b) @ drop (i + length (a @ b)) out)"
    using len by (simp add: bind_exec_Inr add.commute add.left_commute)
qed

lemma line_writes:
  assumes "puts m bs" and "length bs \<le> 65535" and "n = length bs"
  shows "writes (bind_exec (write_tlv_header 1 1 n) (\<lambda>_. m 4)) (payload_bytes [Field 1 (FString bs)])"
proof -
  have "writes (bind_exec (write_tlv_header 1 1 n) (\<lambda>_. m 4)) ([1, 1] @ u16_le (of_nat n) @ bs)"
    by (rule tlv_writes [where k = "4 + n"]) (use assms in \<open>auto simp: puts_def\<close>)
  with assms(3) show ?thesis by simp
qed

section \<open>The encoders agree with \<open>encode_frame_into\<close>\<close>

lemma response_agrees:
  assumes "fields_fit fs" and "n = length (payload_bytes fs)" and "n \<le> 4294967295" and "fills m (payload_bytes fs)"
  shows "encode_response_payload_into hash opc st sequence n m out =
    encode_frame_into hash (frame_response opc st sequence fs) out"
proof (cases "length out < HEADER_LEN + n")
  case True
  with assms show ?thesis
    by (simp add: encode_response_payload_into_def encode_frame_into_def HEADER_LEN_def usize_max_def encoded_fields_len_eq_Inr
        encoded_fields_len_def encoded_len_fits(1))
next
  case False
  have count: "encoded_fields_len fs = Inr n" using assms by (simp add: encoded_fields_len_eq_Inr usize_max_def)
  let ?p = "take n (drop HEADER_LEN (splice out 0 (header_start Response opc st sequence n)))"
  have len: "length ?p = n" using False by (simp add: splice_def HEADER_LEN_def)
  then obtain v where "m ?p = (Inr v, payload_bytes fs)" using fillsD [OF assms(4), of ?p] assms(2) by auto
  moreover have "encode_fields_into fs ?p = (Inr (), payload_bytes fs)"
    using encode_into_layout(1) [OF assms(1), of ?p] len assms(2,3) by (simp add: usize_max_def)
  ultimately show ?thesis
    using False assms(3) by (simp add: encode_response_payload_into_def encode_frame_into_def count HEADER_LEN_def
        usize_max_def Let_def)
qed

lemma payload_bytes_Cons: "payload_bytes (f # fs) = payload_bytes [f] @ payload_bytes fs"
  by (cases f) simp

lemma payload_bytes_map: "payload_bytes (map g xs) = concat (map (\<lambda>x. payload_bytes [g x]) xs)"
proof (induction xs)
  case (Cons x xs)
  then show ?case using payload_bytes_Cons [of "g x" "map g xs"] by simp
qed simp

lemma payload_bytes_append: "payload_bytes (fs @ gs) = payload_bytes fs @ payload_bytes gs"
proof (induction fs)
  case (Cons f fs)
  then show ?case using payload_bytes_Cons [of f fs] payload_bytes_Cons [of f "fs @ gs"] by simp
qed simp

lemma fields_fit_append [simp]: "fields_fit (fs @ gs) \<longleftrightarrow> fields_fit fs \<and> fields_fit gs"
proof (induction fs)
  case (Cons f fs)
  then show ?case by (cases f) auto
qed simp

lemma fields_fit_map: "fields_fit (map g xs) \<longleftrightarrow> (\<forall>x\<in>set xs. fields_fit [g x])"
proof (induction xs)
  case (Cons x xs)
  then show ?case by (cases "g x") auto
qed simp

lemma add_lens_total:
  assumes "\<And>x. x \<in> set xs \<Longrightarrow> item_len x = Inr (length (payload_bytes [g x]))"
    and "len + length (payload_bytes (map g xs)) \<le> usize_max"
  shows "add_lens e item_len len xs = Inr (len + length (payload_bytes (map g xs)))"
  using assms
proof (induction xs arbitrary: len)
  case (Cons x xs)
  then show ?case using payload_bytes_Cons [of "g x" "map g xs"] by simp
qed simp

definition hello_fields :: "rstr \<Rightarrow> rstr \<Rightarrow> bool \<Rightarrow> u64 \<Rightarrow> field list" where
  "hello_fields target firmware diagnostic n =
     [Field 1 (FString target), Field 2 (FString firmware), Field 3 (FBool diagnostic), Field 4 (FU64 n)]"

text \<open>
  The hello encoder is the frame encoder on the hello response, for every input and every
  buffer, errors and their numbers included.
\<close>

theorem hello_response_agrees:
  "encode_hello_response_into hash opc sequence target firmware diagnostic n out =
     encode_frame_into hash (frame_response opc StatusOk sequence (hello_fields target firmware diagnostic n)) out"
proof (cases "length target \<le> 65535 \<and> length firmware \<le> 65535")
  case False
  then show ?thesis
    by (auto simp: encode_hello_response_into_def encode_frame_into_def hello_fields_def encoded_fields_len_def
        tlv_string_len_def tlv_string_len_for_len_def bind_exec_def checked_add_def usize_max_def)
next
  case True
  let ?fs = "hello_fields target firmware diagnostic n"
  let ?body = "bind_exec (write_string_tlv 1 target) (\<lambda>rest. on_rest rest
           (bind_exec (write_string_tlv 2 firmware) (\<lambda>rest. on_rest rest
           (bind_exec (write_bool_tlv 3 diagnostic) (\<lambda>rest. on_rest rest
           (bind_exec (write_u64_tlv 4 n) (\<lambda>_. ret () :: unit writer)))))))"
  have "fills ?body
     (payload_bytes [Field 1 (FString target)] @ payload_bytes [Field 2 (FString firmware)] @
      payload_bytes [Field 3 (FBool diagnostic)] @ payload_bytes [Field 4 (FU64 n)])"
    using True by (intro writers) auto
  also have "payload_bytes [Field 1 (FString target)] @ payload_bytes [Field 2 (FString firmware)] @
      payload_bytes [Field 3 (FBool diagnostic)] @ payload_bytes [Field 4 (FU64 n)] = payload_bytes ?fs"
    by (simp add: hello_fields_def)
  finally have fill: "fills ?body (payload_bytes ?fs)" .
  have agree: "encode_response_payload_into hash opc StatusOk sequence (length target + length firmware + 25) ?body out =
      encode_frame_into hash (frame_response opc StatusOk sequence ?fs) out"
    by (rule response_agrees [OF _ _ _ fill]) (use True in \<open>simp_all add: hello_fields_def\<close>)
  show ?thesis
    unfolding agree [symmetric] using True
    by (simp add: encode_hello_response_into_def tlv_string_len_def tlv_string_len_for_len_def checked_add_def
        usize_max_def ac_simps)
qed

definition app_entry_field :: "app_list_entry \<Rightarrow> field" where
  "app_entry_field entry = Field 1 (FRecord [Field 1 (FString (al_app_id entry)), Field 2 (FU64 (al_sqbc_len entry))])"

lemma app_entry_writes:
  assumes "fields_fit [app_entry_field entry]"
  shows "writes (write_app_entry entry) (payload_bytes [app_entry_field entry])"
proof -
  let ?body = "payload_bytes [Field 1 (FString (al_app_id entry)), Field 2 (FU64 (al_sqbc_len entry))]"
  let ?n = "length (al_app_id entry) + 16"
  have n: "length ?body = ?n" by simp
  have fit: "length (al_app_id entry) \<le> 65535" "?n \<le> 65535" using assms n by (auto simp: app_entry_field_def)
  have "fills (bind_exec (write_string_tlv 1 (al_app_id entry)) (\<lambda>rest. on_rest rest (write_u64_tlv 2 (al_sqbc_len entry))))
      (payload_bytes [Field 1 (FString (al_app_id entry))] @ payload_bytes [Field 2 (FU64 (al_sqbc_len entry))])"
    using fit by (intro writers)
  then have "writes (bind_exec (write_tlv_header 1 32 ?n) (\<lambda>_. bind_exec (on_range 4 ?n
      (bind_exec (write_string_tlv 1 (al_app_id entry)) (\<lambda>rest. on_rest rest (write_u64_tlv 2 (al_sqbc_len entry)))))
      (\<lambda>_. ret (4 + ?n)))) ([1, 32] @ u16_le (of_nat ?n) @ ?body)"
    using fit n by (intro tlv_range_writes) (simp_all)
  moreover have "app_entry_record_len e entry = Inr ?n" for e
    using fit by (simp add: app_entry_record_len_def tlv_string_len_def tlv_string_len_for_len_def usize_max_def)
  ultimately show ?thesis
    using n by (simp add: writes_def write_app_entry_def app_entry_field_def add.commute)
qed

text \<open>
  The app list encoder is the frame encoder on a list of records, when the records and
  the payload fit their length fields.
\<close>

theorem app_list_response_agrees:
  assumes "fields_fit (map app_entry_field entries)"
    and "length (payload_bytes (map app_entry_field entries)) \<le> 4294967295"
  shows "encode_app_list_response_into hash sequence entries out =
    encode_frame_into hash (frame_response AppList StatusOk sequence (map app_entry_field entries)) out"
proof -
  have fit: "fields_fit [app_entry_field x]" if "x \<in> set entries" for x
    using assms(1) that by (simp add: fields_fit_map)
  have "and_then (app_entry_record_len e x) tlv_record_len = Inr (length (payload_bytes [app_entry_field x]))"
    if "x \<in> set entries" for x e
    using fit [OF that]
    by (auto simp: app_entry_field_def app_entry_record_len_def tlv_string_len_def tlv_string_len_for_len_def
        tlv_record_len_def checked_add_def usize_max_def)
  from add_lens_total [of entries, OF this] assms(2)
  have "add_lens (too_small out) (\<lambda>x. and_then (app_entry_record_len (too_small out) x) tlv_record_len) 0 entries =
      Inr (length (payload_bytes (map app_entry_field entries)))"
    by (simp add: usize_max_def)
  moreover have "fills (write_each write_app_entry entries (ret ()))
      (concat (map (\<lambda>x. payload_bytes [app_entry_field x]) entries) @ [])"
    by (intro writers app_entry_writes fit)
  then have "fills (write_each write_app_entry entries (ret ())) (payload_bytes (map app_entry_field entries))"
    by (simp add: payload_bytes_map)
  ultimately show ?thesis
    using response_agrees [OF assms(1) refl assms(2)] by (simp add: encode_app_list_response_into_def)
qed

definition sample_entries :: "app_list_entry list" where
  "sample_entries = [\<lparr>al_app_id = lit ''demo'', al_sqbc_len = 99\<rparr>, \<lparr>al_app_id = lit ''reader'', al_sqbc_len = 7\<rparr>]"

lemma app_list_response_agrees_witness:
  "encode_app_list_response_into (\<lambda>_. 0) 5 sample_entries (replicate 80 1) =
    encode_frame_into (\<lambda>_. 0) (frame_response AppList StatusOk 5 (map app_entry_field sample_entries)) (replicate 80 1)"
  by (rule app_list_response_agrees) (simp_all add: sample_entries_def app_entry_field_def)

definition line_field :: "rstr \<Rightarrow> field" where
  "line_field line = Field 1 (FString line)"

lemma line_fit: "fields_fit [line_field line] \<longleftrightarrow> length line \<le> 65535"
  by (simp add: line_field_def)

text \<open>
  The line encoder (output, trace, draw log, errors and debug log responses) is the frame
  encoder on one string field per line.
\<close>

theorem line_response_agrees:
  assumes "fields_fit (map line_field lines)" and "length (payload_bytes (map line_field lines)) \<le> 4294967295"
  shows "encode_line_response_into hash opc sequence lines out =
    encode_frame_into hash (frame_response opc StatusOk sequence (map line_field lines)) out"
proof -
  have fit: "length line \<le> 65535" if "line \<in> set lines" for line
    using assms(1) that by (simp add: fields_fit_map line_fit)
  then have "tlv_string_len line = Inr (length (payload_bytes [line_field line]))" if "line \<in> set lines" for line
    using fit [OF that] by (simp add: tlv_string_len_def tlv_string_len_for_len_def line_field_def)
  from add_lens_total [of lines, OF this] assms(2)
  have "add_lens (too_small out) tlv_string_len 0 lines = Inr (length (payload_bytes (map line_field lines)))"
    by (simp add: usize_max_def)
  moreover have "fills (write_each (write_string_tlv 1) lines (ret ()))
      (concat (map (\<lambda>x. payload_bytes [line_field x]) lines) @ [])"
    unfolding line_field_def by (intro writers fit)
  then have "fills (write_each (write_string_tlv 1) lines (ret ())) (payload_bytes (map line_field lines))"
    by (simp add: payload_bytes_map)
  ultimately show ?thesis
    using response_agrees [OF assms(1) refl assms(2)] by (simp add: encode_line_response_into_def)
qed

lemma line_response_agrees_witness:
  "encode_line_response_into (\<lambda>_. 0) OutputGet 5 [lit ''a'', lit ''bc''] (replicate 40 1) =
    encode_frame_into (\<lambda>_. 0) (frame_response OutputGet StatusOk 5 (map line_field [lit ''a'', lit ''bc''])) (replicate 40 1)"
  by (rule line_response_agrees) (simp_all add: line_field_def)

text \<open>The state, error and empty responses, for every input.\<close>

lemma state_response_agrees:
  "encode_state_response_into hash sequence bytes out =
     encode_frame_into hash (frame_response StateGet StatusOk sequence [Field 1 (FBytes bytes)]) out"
proof (cases "length bytes \<le> 65535")
  case True
  then have fill: "fills (bind_exec (write_bytes_tlv 1 bytes) (\<lambda>_. ret () :: unit writer)) (payload_bytes [Field 1 (FBytes bytes)])"
    by (intro writers)
  have "encode_response_payload_into hash StateGet StatusOk sequence (4 + length bytes)
      (bind_exec (write_bytes_tlv 1 bytes) (\<lambda>_. ret ())) out =
    encode_frame_into hash (frame_response StateGet StatusOk sequence [Field 1 (FBytes bytes)]) out"
    by (rule response_agrees [OF _ _ _ fill]) (use True in simp_all)
  with True show ?thesis by (simp add: encode_state_response_into_def tlv_bytes_len_def)
qed (simp add: encode_state_response_into_def tlv_bytes_len_def encode_frame_into_def encoded_fields_len_def)

lemma error_response_agrees:
  "encode_error_response_into hash opc sequence code message out =
     encode_frame_into hash (frame_response opc StatusError sequence [Field 250 (FI64 code), Field 251 (FString message)]) out"
proof (cases "length message \<le> 65535")
  case True
  let ?body = "bind_exec (write_i64_tlv 250 code) (\<lambda>rest. on_rest rest
      (bind_exec (write_string_tlv 251 message) (\<lambda>_. ret () :: unit writer)))"
  have "fills ?body (payload_bytes [Field 250 (FI64 code)] @ payload_bytes [Field 251 (FString message)])"
    using True by (intro writers)
  then have fill: "fills ?body (payload_bytes [Field 250 (FI64 code), Field 251 (FString message)])" by simp
  have "encode_response_payload_into hash opc StatusError sequence (12 + (4 + length message)) ?body out =
    encode_frame_into hash (frame_response opc StatusError sequence [Field 250 (FI64 code), Field 251 (FString message)]) out"
    by (rule response_agrees [OF _ _ _ fill]) (use True in simp_all)
  with True show ?thesis
    by (simp add: encode_error_response_into_def tlv_string_len_def tlv_string_len_for_len_def usize_max_def)
qed (simp add: encode_error_response_into_def tlv_string_len_def tlv_string_len_for_len_def encode_frame_into_def
    encoded_fields_len_def checked_add_def usize_max_def)

lemma empty_response_agrees:
  "encode_empty_response_into hash opc st sequence out = encode_frame_into hash (frame_response opc st sequence []) out"
  unfolding encode_empty_response_into_def by (rule response_agrees) (simp_all add: fills_ret)

section \<open>Metrics\<close>

definition metric_field :: "resource_metric \<Rightarrow> field" where
  "metric_field metric = Field 1 (FRecord [Field 1 (FU32 (the (resource_metric_id_for_name (mt_key metric)))),
     Field 2 (FU32 (ucast (mt_value metric)))])"

definition metric_ok :: "resource_metric \<Rightarrow> bool" where
  "metric_ok metric \<longleftrightarrow> resource_metric_id_for_name (mt_key metric) \<noteq> None \<and> unat (mt_value metric) \<le> 4294967295"

lemma metric_writes:
  assumes "metric_ok metric"
  shows "writes (write_metric metric) (payload_bytes [metric_field metric])"
proof -
  obtain key where key: "resource_metric_id_for_name (mt_key metric) = Some key" using assms by (auto simp: metric_ok_def)
  let ?w = "ucast (mt_value metric) :: u32"
  have "fills (bind_exec (write_u32_tlv 1 key) (\<lambda>rest. on_rest rest (write_u32_tlv 2 ?w)))
      (payload_bytes [Field 1 (FU32 key)] @ payload_bytes [Field 2 (FU32 ?w)])"
    by (intro writers)
  then have "writes (bind_exec (write_tlv_header 1 32 16) (\<lambda>_. bind_exec (on_range 4 16
      (bind_exec (write_u32_tlv 1 key) (\<lambda>rest. on_rest rest (write_u32_tlv 2 ?w)))) (\<lambda>_. ret (4 + 16))))
      ([1, 32] @ u16_le (of_nat 16) @ payload_bytes [Field 1 (FU32 key)] @ payload_bytes [Field 2 (FU32 ?w)])"
    by (intro tlv_range_writes) simp_all
  with assms key show ?thesis
    by (simp add: writes_def write_metric_def metric_ok_def metric_field_def metric_record_len_def usize_max_def)
qed

text \<open>
  The resources encoder is the frame encoder on records of metric id and value, for known
  metrics whose values fit 32 bits.
\<close>

theorem resources_response_agrees:
  assumes "list_all metric_ok metrics" and "20 * length metrics \<le> 4294967295"
  shows "encode_resources_response_into hash sequence metrics out =
    encode_frame_into hash (frame_response ResourcesGet StatusOk sequence (map metric_field metrics)) out"
proof -
  have size: "length (payload_bytes [metric_field x]) = 20" for x by (simp add: metric_field_def)
  have total: "length (payload_bytes (map metric_field metrics)) = 20 * length metrics"
    by (induction metrics) (simp_all add: size payload_bytes_Cons [of "metric_field x" "map metric_field xs" for x xs])
  have fit: "fields_fit (map metric_field metrics)"
    by (simp add: fields_fit_map metric_field_def)
  have "and_then (metric_record_len e) tlv_record_len = Inr (length (payload_bytes [metric_field x]))" for x e
    by (simp add: size metric_record_len_def tlv_record_len_def usize_max_def)
  from add_lens_total [where g = metric_field and xs = metrics, OF this] assms(2)
  have "add_lens (too_small out) (\<lambda>_. and_then (metric_record_len (too_small out)) tlv_record_len) 0 metrics =
      Inr (length (payload_bytes (map metric_field metrics)))"
    by (simp add: usize_max_def total)
  moreover have "fills (write_each write_metric metrics (ret ())) (concat (map (\<lambda>x. payload_bytes [metric_field x]) metrics) @ [])"
    using assms(1) by (intro writers metric_writes) (simp add: list_all_iff)
  then have "fills (write_each write_metric metrics (ret ())) (payload_bytes (map metric_field metrics))"
    by (simp add: payload_bytes_map)
  ultimately show ?thesis
    using response_agrees [OF fit refl] assms(2) by (simp add: encode_resources_response_into_def total)
qed

lemma resources_response_agrees_witness:
  "encode_resources_response_into (\<lambda>_. 0) 5 [\<lparr>mt_key = lit ''heap_count'', mt_value = 17\<rparr>] (replicate 44 1) =
    encode_frame_into (\<lambda>_. 0) (frame_response ResourcesGet StatusOk 5
      (map metric_field [\<lparr>mt_key = lit ''heap_count'', mt_value = 17\<rparr>])) (replicate 44 1)"
  by (rule resources_response_agrees)
    (simp_all add: metric_ok_def resource_metric_id_for_name_def RESOURCE_METRIC_NAMES_def)

section \<open>The lifecycle\<close>

definition active_line :: "rstr \<Rightarrow> rstr" where
  "active_line active = lit ''active='' @ active"

definition process_line :: "nat \<times> rstr \<Rightarrow> rstr" where
  "process_line p = (case p of (index, app_id) \<Rightarrow> lit ''process_stack['' @ decimal index @ lit '']='' @ app_id)"

definition armed_line :: "nat \<times> lifecycle_timer \<Rightarrow> rstr" where
  "armed_line p = (case p of (index, timer) \<Rightarrow>
     lit ''armed_stack['' @ decimal index @ lit '']='' @ lt_app_id timer @ lit '' '' @ lt_event timer)"

definition lifecycle_lines_of :: "rstr option \<Rightarrow> rstr list \<Rightarrow> lifecycle_timer list \<Rightarrow> rstr list" where
  "lifecycle_lines_of active_app process_stack armed_timers =
     active_line (case active_app of None \<Rightarrow> [] | Some app_id \<Rightarrow> app_id) #
     map process_line (enumerate 0 process_stack) @ [lit ''armed_stack=''] @
     map armed_line (enumerate 0 armed_timers)"

lemma active_writes:
  assumes "length (active_line active) \<le> 65535"
  shows "writes (write_active_line_tlv active) (payload_bytes [line_field (active_line active)])"
proof -
  have "puts (\<lambda>i. bind_exec (write_piece i (lit ''active='')) (\<lambda>offset. write_piece offset active)) (active_line active)"
    unfolding active_line_def by (intro writers)
  from line_writes [OF this assms] show ?thesis
    by (simp add: write_active_line_tlv_def line_field_def active_line_def)
qed

lemma process_writes:
  assumes "length (process_line (index, app_id)) \<le> 65535"
  shows "writes (write_process_line_tlv index app_id) (payload_bytes [line_field (process_line (index, app_id))])"
proof -
  have "puts (\<lambda>i. bind_exec (write_piece i (lit ''process_stack['')) (\<lambda>offset.
      bind_exec (write_decimal offset index) (\<lambda>offset. bind_exec (write_piece offset (lit '']='')) (\<lambda>offset.
        write_piece offset app_id)))) (process_line (index, app_id))"
    unfolding process_line_def prod.case by (intro writers)
  from line_writes [OF this assms] show ?thesis
    by (simp add: write_process_line_tlv_def line_field_def process_line_def length_decimal add.commute add.left_commute)
qed

lemma armed_writes:
  assumes "length (armed_line (index, timer)) \<le> 65535"
  shows "writes (write_armed_line_tlv index (lt_app_id timer) (lt_event timer))
    (payload_bytes [line_field (armed_line (index, timer))])"
proof -
  have "puts (\<lambda>i. bind_exec (write_piece i (lit ''armed_stack['')) (\<lambda>offset.
      bind_exec (write_decimal offset index) (\<lambda>offset. bind_exec (write_piece offset (lit '']='')) (\<lambda>offset.
      bind_exec (write_piece offset (lt_app_id timer)) (\<lambda>offset. bind_exec (write_piece offset (lit '' '')) (\<lambda>offset.
        write_piece offset (lt_event timer))))))) (armed_line (index, timer))"
    unfolding armed_line_def prod.case by (intro writers)
  from line_writes [OF this assms] show ?thesis
    by (simp add: write_armed_line_tlv_def line_field_def armed_line_def length_decimal add.commute add.left_commute)
qed

text \<open>
  The lifecycle encoder is the frame encoder on the lines it formats: the active app, the
  numbered process stack and the numbered armed timers.
\<close>

theorem lifecycle_response_agrees:
  assumes "fields_fit (map line_field (lifecycle_lines_of active_app process_stack armed_timers))"
    and "length (payload_bytes (map line_field (lifecycle_lines_of active_app process_stack armed_timers))) \<le> 4294967295"
  shows "encode_lifecycle_response_into hash sequence active_app process_stack armed_timers out =
    encode_frame_into hash (frame_response LifecycleGet StatusOk sequence
      (map line_field (lifecycle_lines_of active_app process_stack armed_timers))) out"
proof -
  let ?active = "case active_app of None \<Rightarrow> [] | Some app_id \<Rightarrow> app_id"
  let ?ps = "enumerate 0 process_stack" and ?ts = "enumerate 0 armed_timers"
  let ?P = "map (\<lambda>p. line_field (process_line p)) ?ps" and ?T = "map (\<lambda>p. line_field (armed_line p)) ?ts"
  let ?fs = "[line_field (active_line ?active)] @ ?P @ [line_field (lit ''armed_stack='')] @ ?T"
  have fs: "map line_field (lifecycle_lines_of active_app process_stack armed_timers) = ?fs"
    by (simp add: lifecycle_lines_of_def comp_def)
  have bytes: "payload_bytes ?fs = payload_bytes [line_field (active_line ?active)] @ payload_bytes ?P @
      payload_bytes [line_field (lit ''armed_stack='')] @ payload_bytes ?T"
    by (simp only: payload_bytes_append)
  have fit: "length (active_line ?active) \<le> 65535" "\<And>p. p \<in> set ?ps \<Longrightarrow> length (process_line p) \<le> 65535"
    "\<And>p. p \<in> set ?ts \<Longrightarrow> length (armed_line p) \<le> 65535"
    using assms(1) unfolding fs fields_fit_append fields_fit_map line_fit by blast+
  have "fills (bind_exec (write_active_line_tlv ?active) (\<lambda>rest. on_rest rest
      (write_each (\<lambda>(index, app_id). write_process_line_tlv index app_id) ?ps
        (bind_exec (write_string_tlv 1 (lit ''armed_stack='')) (\<lambda>rest. on_rest rest
          (write_each (\<lambda>(index, timer). write_armed_line_tlv index (lt_app_id timer) (lt_event timer)) ?ts (ret ())))))))
     (payload_bytes [line_field (active_line ?active)] @ concat (map (\<lambda>p. payload_bytes [line_field (process_line p)]) ?ps) @
      payload_bytes [line_field (lit ''armed_stack='')] @
      concat (map (\<lambda>p. payload_bytes [line_field (armed_line p)]) ?ts) @ [])" (is "fills ?body _")
  proof (intro fills_then fills_each fills_ret active_writes fit)
    show "writes (case p of (index, app_id) \<Rightarrow> write_process_line_tlv index app_id)
        (payload_bytes [line_field (process_line p)])" if "p \<in> set ?ps" for p
      using fit(2) [OF that] by (cases p) (simp add: process_writes)
    show "writes (write_string_tlv 1 (lit ''armed_stack='')) (payload_bytes [line_field (lit ''armed_stack='')])"
      unfolding line_field_def by (intro writers) simp
    show "writes (case p of (index, timer) \<Rightarrow> write_armed_line_tlv index (lt_app_id timer) (lt_event timer))
        (payload_bytes [line_field (armed_line p)])" if "p \<in> set ?ts" for p
      using fit(3) [OF that] by (cases p) (simp add: armed_writes)
  qed
  then have fill: "fills ?body (payload_bytes ?fs)"
    unfolding bytes by (simp only: payload_bytes_map append_Nil2)
  have total: "length (payload_bytes ?fs) \<le> 4294967295" using assms(2) unfolding fs .
  have lens: "tlv_string_len_for_len (length line) = Inr (length (payload_bytes [line_field line]))"
    if "length line \<le> 65535" for line
    using that by (simp add: tlv_string_len_for_len_def line_field_def)
  let ?a = "length (payload_bytes [line_field (active_line ?active)])" and ?p = "length (payload_bytes ?P)"
    and ?s = "length (payload_bytes [line_field (lit ''armed_stack='')])" and ?t = "length (payload_bytes ?T)"
  have sum: "length (payload_bytes ?fs) = ?a + ?p + ?s + ?t" by (simp only: bytes length_append)
  have "tlv_string_len_for_len (length (lit ''active='') + length ?active) = Inr ?a"
    using lens [OF fit(1)] by (simp only: active_line_def length_append)
  moreover have "add_lens (too_small out) (\<lambda>(index, app_id). tlv_string_len_for_len
      (length (lit ''process_stack['') + decimal_len index + length (lit '']='') + length app_id)) ?a ?ps = Inr (?a + ?p)"
  proof (rule add_lens_total)
    fix p assume p: "p \<in> set ?ps"
    show "(case p of (index, app_id) \<Rightarrow> tlv_string_len_for_len
        (length (lit ''process_stack['') + decimal_len index + length (lit '']='') + length app_id)) =
      Inr (length (payload_bytes [line_field (process_line p)]))"
      using lens [OF fit(2) [OF p]] by (cases p) (simp add: process_line_def length_decimal ac_simps)
  qed (use total sum in \<open>simp add: usize_max_def\<close>)
  moreover have "tlv_string_len (lit ''armed_stack='') = Inr ?s"
    unfolding tlv_string_len_def by (rule lens) simp
  moreover have "checked_add (?a + ?p) ?s = Some (?a + ?p + ?s)"
    using total sum by (simp add: checked_add_def usize_max_def)
  moreover have "add_lens (too_small out) (\<lambda>(index, timer). tlv_string_len_for_len
      (length (lit ''armed_stack['') + decimal_len index + length (lit '']='') + length (lt_app_id timer) + 1 +
       length (lt_event timer))) (?a + ?p + ?s) ?ts = Inr (?a + ?p + ?s + ?t)"
  proof (rule add_lens_total)
    fix p assume p: "p \<in> set ?ts"
    show "(case p of (index, timer) \<Rightarrow> tlv_string_len_for_len
        (length (lit ''armed_stack['') + decimal_len index + length (lit '']='') + length (lt_app_id timer) + 1 +
         length (lt_event timer))) = Inr (length (payload_bytes [line_field (armed_line p)]))"
      using lens [OF fit(3) [OF p]] by (cases p) (simp add: armed_line_def length_decimal ac_simps)
  qed (use total sum in \<open>simp add: usize_max_def\<close>)
  ultimately show ?thesis
    using response_agrees [OF assms(1) [unfolded fs] refl total fill]
    by (simp only: encode_lifecycle_response_into_def Let_def and_then_simps ok_or_simps bind_exec_simps fs sum)
qed

lemma lifecycle_response_agrees_witness:
  "encode_lifecycle_response_into (\<lambda>_. 0) 5 (Some (lit ''demo'')) [lit ''a'', lit ''b'']
      [\<lparr>lt_app_id = lit ''a'', lt_event = lit ''tick''\<rparr>] [] =
    encode_frame_into (\<lambda>_. 0) (frame_response LifecycleGet StatusOk 5
      (map line_field (lifecycle_lines_of (Some (lit ''demo'')) [lit ''a'', lit ''b'']
        [\<lparr>lt_app_id = lit ''a'', lt_event = lit ''tick''\<rparr>]))) []"
proof (rule lifecycle_response_agrees)
  have dec: "decimal 0 = [48]" "decimal (Suc 0) = [49]" by (simp_all add: decimal.simps)
  show "fields_fit (map line_field (lifecycle_lines_of (Some (lit ''demo'')) [lit ''a'', lit ''b'']
        [\<lparr>lt_app_id = lit ''a'', lt_event = lit ''tick''\<rparr>]))"
    by (simp add: lifecycle_lines_of_def line_field_def active_line_def process_line_def armed_line_def dec)
  show "length (payload_bytes (map line_field (lifecycle_lines_of (Some (lit ''demo'')) [lit ''a'', lit ''b'']
        [\<lparr>lt_app_id = lit ''a'', lt_event = lit ''tick''\<rparr>]))) \<le> 4294967295"
    by (simp add: lifecycle_lines_of_def line_field_def active_line_def process_line_def armed_line_def dec)
qed

end
