(* ===== verification/Sq_Text.thy ===== *)
theory Sq_Text
  imports Sq_Utf8
begin

text \<open>
  The text operations of the Rust standard library that the compiler and the tools use on
  \<open>str\<close>: white space, trimming, lines, splitting, and the parsing of integers.  A pattern is
  matched on bytes: in valid UTF-8 the bytes of a character occur only as that character.
\<close>

section \<open>White space\<close>

text \<open>The characters with the Unicode property \<open>White_Space\<close>, in UTF-8.\<close>

definition WHITE_SPACE :: "rstr list" where
  "WHITE_SPACE =
     [[9], [10], [11], [12], [13], [32], [0xC2, 0x85], [0xC2, 0xA0], [0xE1, 0x9A, 0x80]] @
     map (\<lambda>b. [0xE2, 0x80, b])
       [0x80, 0x81, 0x82, 0x83, 0x84, 0x85, 0x86, 0x87, 0x88, 0x89, 0x8A, 0xA8, 0xA9, 0xAF] @
     [[0xE2, 0x81, 0x9F], [0xE3, 0x80, 0x80]]"

definition starts_with :: "rstr \<Rightarrow> rstr \<Rightarrow> bool" where
  "starts_with s p \<longleftrightarrow> take (length p) s = p"

definition ends_with :: "rstr \<Rightarrow> rstr \<Rightarrow> bool" where
  "ends_with s p \<longleftrightarrow> length p \<le> length s \<and> drop (length s - length p) s = p"

definition strip_prefix :: "rstr \<Rightarrow> rstr \<Rightarrow> rstr option" where
  "strip_prefix s p = (if starts_with s p then Some (drop (length p) s) else None)"

text \<open>The white-space character a string starts or ends with.\<close>

definition first_white :: "rstr \<Rightarrow> rstr option" where
  "first_white s = find (starts_with s) WHITE_SPACE"

definition last_white :: "rstr \<Rightarrow> rstr option" where
  "last_white s = find (ends_with s) WHITE_SPACE"

lemma white_space_nonempty [simp]: "[] \<notin> set WHITE_SPACE"
  by (auto simp: WHITE_SPACE_def)

lemma find_member: "find p xs = Some x \<Longrightarrow> x \<in> set xs \<and> p x"
  by (auto simp: find_Some_iff)

lemma first_whiteD: "first_white s = Some w \<Longrightarrow> w \<in> set WHITE_SPACE \<and> starts_with s w \<and> w \<noteq> [] \<and> s \<noteq> []"
  unfolding first_white_def by (drule find_member) (auto simp: starts_with_def)

lemma last_whiteD: "last_white s = Some w \<Longrightarrow> w \<in> set WHITE_SPACE \<and> ends_with s w \<and> w \<noteq> [] \<and> s \<noteq> []"
  unfolding last_white_def by (drule find_member) (auto simp: ends_with_def)

function trim_start :: "rstr \<Rightarrow> rstr" where
  "trim_start s = (case first_white s of None \<Rightarrow> s | Some w \<Rightarrow> trim_start (drop (length w) s))"
  by pat_completeness auto
termination by (relation "measure length") (auto dest!: first_whiteD)

function trim_end :: "rstr \<Rightarrow> rstr" where
  "trim_end s = (case last_white s of None \<Rightarrow> s | Some w \<Rightarrow> trim_end (take (length s - length w) s))"
  by pat_completeness auto
termination by (relation "measure length") (auto dest!: last_whiteD)

declare trim_start.simps [simp del] trim_end.simps [simp del]

definition str_trim :: "rstr \<Rightarrow> rstr" where
  "str_trim s = trim_end (trim_start s)"

text \<open>\<open>find(char::is_whitespace)\<close>: the offset of the first white-space character.\<close>

fun find_white :: "rstr \<Rightarrow> nat option" where
  "find_white [] = None"
| "find_white (b # bs) = (if first_white (b # bs) \<noteq> None then Some 0 else map_option Suc (find_white bs))"

section \<open>Splitting\<close>

text \<open>\<open>split_once\<close> at an ASCII character, \<open>split\<close> at any of a set of them, \<open>lines\<close>.\<close>

definition split_once :: "u8 \<Rightarrow> rstr \<Rightarrow> (rstr \<times> rstr) option" where
  "split_once c s = (if c \<in> set s then Some (takeWhile (\<lambda>b. b \<noteq> c) s, tl (dropWhile (\<lambda>b. b \<noteq> c) s)) else None)"

fun split_bytes :: "(u8 \<Rightarrow> bool) \<Rightarrow> rstr \<Rightarrow> rstr list" where
  "split_bytes p [] = [[]]"
| "split_bytes p (b # bs) =
     (if p b then [] # split_bytes p bs
      else case split_bytes p bs of part # parts \<Rightarrow> (b # part) # parts | [] \<Rightarrow> [[b]])"

text \<open>A line ends at a newline; one carriage return before it belongs to the ending.\<close>

definition strip_cr :: "rstr \<Rightarrow> rstr" where
  "strip_cr s = (if s \<noteq> [] \<and> last s = 13 then butlast s else s)"

definition str_lines :: "rstr \<Rightarrow> rstr list" where
  "str_lines s = (let parts = split_bytes (\<lambda>b. b = 10) s in
     map strip_cr (butlast parts) @ (if last parts = [] then [] else [last parts]))"

lemma split_bytes_nonempty [simp]: "split_bytes p s \<noteq> []"
  by (cases s) (auto split: list.splits)

section \<open>Integers\<close>

text \<open>
  \<open>from_str_radix\<close> and \<open>parse\<close>: an optional sign (a minus only for a signed type), at least one
  digit, and a value in the range.
\<close>

definition digit_value :: "nat \<Rightarrow> u8 \<Rightarrow> nat option" where
  "digit_value radix b =
     (let d = (if 48 \<le> b \<and> b \<le> 57 then unat b - 48
               else if 97 \<le> b \<and> b \<le> 122 then unat b - 87
               else if 65 \<le> b \<and> b \<le> 90 then unat b - 55
               else 36)
      in if d < radix then Some d else None)"

fun digits_value :: "nat \<Rightarrow> nat \<Rightarrow> rstr \<Rightarrow> nat option" where
  "digits_value radix acc [] = Some acc"
| "digits_value radix acc (b # bs) =
     Option.bind (digit_value radix b) (\<lambda>d. digits_value radix (acc * radix + d) bs)"

definition parse_magnitude :: "nat \<Rightarrow> rstr \<Rightarrow> nat option" where
  "parse_magnitude radix s = (if s = [] then None else digits_value radix 0 s)"

definition parse_unsigned :: "nat \<Rightarrow> nat \<Rightarrow> rstr \<Rightarrow> nat option" where
  "parse_unsigned radix limit s =
     Option.bind (parse_magnitude radix (case s of [] \<Rightarrow> [] | b # bs \<Rightarrow> if b = 43 then bs else s))
       (\<lambda>n. if n \<le> limit then Some n else None)"

definition parse_i64 :: "rstr \<Rightarrow> int option" where
  "parse_i64 s =
     (case s of
        [] \<Rightarrow> None
      | b # bs \<Rightarrow>
          if b = 45 then Option.bind (parse_magnitude 10 bs)
            (\<lambda>n. if n \<le> 9223372036854775808 then Some (- int n) else None)
          else Option.bind (parse_unsigned 10 9223372036854775807 s) (\<lambda>n. Some (int n)))"

definition parse_i32 :: "rstr \<Rightarrow> int option" where
  "parse_i32 s = Option.bind (parse_i64 s)
     (\<lambda>n. if - 2147483648 \<le> n \<and> n \<le> 2147483647 then Some n else None)"

text \<open>A 64-bit \<open>usize\<close>.\<close>

definition parse_usize :: "rstr \<Rightarrow> nat option" where
  "parse_usize s = parse_unsigned 10 usize_max s"

end
