(* ===== verification/Proto_Client.thy ===== *)
theory Proto_Client
  imports Proto_Session Proto_Response Sq_Text
begin

text \<open>
  The tools' side of the device protocol (\<open>squid-device-protocol/src/lib.rs\<close>): the requests
  it builds, what it reads out of responses, the size of a transfer chunk, and the parsing of
  opcodes and fields from command-line arguments.

  Error strings are the constructors of \<open>arg_error\<close> with the values the messages are built
  from.  Lower-casing a character outside ASCII is the Unicode table of the standard library,
  here the argument \<open>lower\<close>.

  The theory joins the two ends: what the tools encode, the device decodes and serves, and
  what the device answers, the tools read back.
\<close>

section \<open>Transfer sizes\<close>

definition DEFAULT_SERIAL_MAX_FRAME_BYTES :: nat where "DEFAULT_SERIAL_MAX_FRAME_BYTES = 8192"

definition transfer_chunk_payload_for_frame_budget :: "nat \<Rightarrow> nat" where
  "transfer_chunk_payload_for_frame_budget frame_budget = frame_budget - (HEADER_LEN + 4 + 8 + 4 + 4 + 4 + 1)"

record transfer_capabilities =
  tc_max_frame_bytes :: nat
  tc_max_payload_bytes :: nat
  tc_ack_window_bytes :: nat

definition from_serial_frame_budget :: "nat \<Rightarrow> transfer_capabilities" where
  "from_serial_frame_budget max_frame_bytes =
     (let max_payload_bytes = transfer_chunk_payload_for_frame_budget max_frame_bytes
      in \<lparr>tc_max_frame_bytes = max_frame_bytes, tc_max_payload_bytes = max_payload_bytes,
          tc_ack_window_bytes = max_payload_bytes\<rparr>)"

definition default_serial :: transfer_capabilities where
  "default_serial = from_serial_frame_budget DEFAULT_SERIAL_MAX_FRAME_BYTES"

section \<open>Requests\<close>

definition hello_request :: "u32 \<Rightarrow> frame" where "hello_request n = frame_request Hello n []"
definition app_list_request :: "u32 \<Rightarrow> frame" where "app_list_request n = frame_request AppList n []"
definition output_get_request :: "u32 \<Rightarrow> frame" where "output_get_request n = frame_request OutputGet n []"
definition trace_get_request :: "u32 \<Rightarrow> frame" where "trace_get_request n = frame_request TraceGet n []"
definition state_get_request :: "u32 \<Rightarrow> frame" where "state_get_request n = frame_request StateGet n []"
definition drawlog_get_request :: "u32 \<Rightarrow> frame" where "drawlog_get_request n = frame_request DrawlogGet n []"
definition debug_log_get_request :: "u32 \<Rightarrow> frame" where "debug_log_get_request n = frame_request DebugLogGet n []"
definition errors_get_request :: "u32 \<Rightarrow> frame" where "errors_get_request n = frame_request ErrorsGet n []"
definition resources_get_request :: "u32 \<Rightarrow> frame" where "resources_get_request n = frame_request ResourcesGet n []"

definition resources_get_request_with_heap_reset :: "u32 \<Rightarrow> frame" where
  "resources_get_request_with_heap_reset n = frame_request ResourcesGet n [Field 1 (FBool True)]"

definition lifecycle_get_request :: "u32 \<Rightarrow> frame" where "lifecycle_get_request n = frame_request LifecycleGet n []"
definition reset_request :: "u32 \<Rightarrow> frame" where "reset_request n = frame_request Reset n []"
definition storage_format_request :: "u32 \<Rightarrow> frame" where "storage_format_request n = frame_request StorageFormat n []"

definition optional_key :: "rstr option \<Rightarrow> field list" where
  "optional_key key = (case key of None \<Rightarrow> [] | Some k \<Rightarrow> [Field 1 (FString k)])"

definition runtime_cap_get_request :: "u32 \<Rightarrow> rstr option \<Rightarrow> frame" where
  "runtime_cap_get_request n key = frame_request RuntimeCapGet n (optional_key key)"

definition runtime_cap_set_request :: "u32 \<Rightarrow> rstr \<Rightarrow> u16 \<Rightarrow> frame" where
  "runtime_cap_set_request n key v = frame_request RuntimeCapSet n [Field 1 (FString key), Field 2 (FU32 (ucast v))]"

definition runtime_cap_clear_request :: "u32 \<Rightarrow> rstr option \<Rightarrow> frame" where
  "runtime_cap_clear_request n key = frame_request RuntimeCapClear n (optional_key key)"

definition display_window_probe_request :: "u32 \<Rightarrow> rstr \<Rightarrow> frame" where
  "display_window_probe_request n pattern = frame_request DisplayWindowProbe n [Field 1 (FString pattern)]"

definition key_request :: "u32 \<Rightarrow> rstr \<Rightarrow> frame" where
  "key_request n key = frame_request Key n [Field 1 (FString key)]"

definition event_dispatch_request :: "u32 \<Rightarrow> rstr \<Rightarrow> rstr \<Rightarrow> frame" where
  "event_dispatch_request n app_id event =
     frame_request EventDispatch n [Field 1 (FString app_id), Field 2 (FString event)]"

definition state_import_request :: "u32 \<Rightarrow> u8 list \<Rightarrow> frame" where
  "state_import_request n bytes = frame_request StateImport n [Field 1 (FBytes bytes)]"

definition wifi_profile_set_request :: "u32 \<Rightarrow> rstr \<Rightarrow> rstr \<Rightarrow> rstr \<Rightarrow> frame" where
  "wifi_profile_set_request n profile ssid password =
     frame_request WifiProfileSet n [Field 1 (FString profile), Field 2 (FString ssid), Field 3 (FString password)]"

definition transfer_chunk_fields :: "u64 \<Rightarrow> u8 list \<Rightarrow> bool \<Rightarrow> field list" where
  "transfer_chunk_fields offset bytes ack_requested =
     [Field 1 (FU64 offset), Field 2 (FBytes bytes), Field 3 (FBool ack_requested)]"

definition app_install_begin_request :: "u32 \<Rightarrow> rstr \<Rightarrow> u64 \<Rightarrow> u64 \<Rightarrow> frame" where
  "app_install_begin_request n app_id total_len crc =
     frame_request AppInstallBegin n [Field 1 (FString app_id), Field 2 (FU64 total_len), Field 3 (FU64 crc)]"

definition app_install_chunk_request_with_ack :: "u32 \<Rightarrow> u64 \<Rightarrow> u8 list \<Rightarrow> bool \<Rightarrow> frame" where
  "app_install_chunk_request_with_ack n offset bytes ack =
     frame_request AppInstallChunk n (transfer_chunk_fields offset bytes ack)"

definition app_install_chunk_request :: "u32 \<Rightarrow> u64 \<Rightarrow> u8 list \<Rightarrow> frame" where
  "app_install_chunk_request n offset bytes = app_install_chunk_request_with_ack n offset bytes True"

definition app_install_commit_request :: "u32 \<Rightarrow> frame" where
  "app_install_commit_request n = frame_request AppInstallCommit n []"

definition resource_install_begin_request :: "u32 \<Rightarrow> rstr \<Rightarrow> rstr \<Rightarrow> u64 \<Rightarrow> u64 \<Rightarrow> frame" where
  "resource_install_begin_request n app_id path total_len crc =
     frame_request ResourceInstallBegin n
       [Field 1 (FString app_id), Field 2 (FString path), Field 3 (FU64 total_len), Field 4 (FU64 crc)]"

definition resource_install_chunk_request_with_ack :: "u32 \<Rightarrow> u64 \<Rightarrow> u8 list \<Rightarrow> bool \<Rightarrow> frame" where
  "resource_install_chunk_request_with_ack n offset bytes ack =
     frame_request ResourceInstallChunk n (transfer_chunk_fields offset bytes ack)"

definition resource_install_chunk_request :: "u32 \<Rightarrow> u64 \<Rightarrow> u8 list \<Rightarrow> frame" where
  "resource_install_chunk_request n offset bytes = resource_install_chunk_request_with_ack n offset bytes True"

definition resource_install_commit_request :: "u32 \<Rightarrow> frame" where
  "resource_install_commit_request n = frame_request ResourceInstallCommit n []"

definition content_install_begin_request :: "u32 \<Rightarrow> rstr \<Rightarrow> u64 \<Rightarrow> u64 \<Rightarrow> frame" where
  "content_install_begin_request n name total_len crc =
     frame_request ContentInstallBegin n [Field 1 (FString name), Field 2 (FU64 total_len), Field 3 (FU64 crc)]"

definition content_install_chunk_request_with_ack :: "u32 \<Rightarrow> u64 \<Rightarrow> u8 list \<Rightarrow> bool \<Rightarrow> frame" where
  "content_install_chunk_request_with_ack n offset bytes ack =
     frame_request ContentInstallChunk n (transfer_chunk_fields offset bytes ack)"

definition content_install_chunk_request :: "u32 \<Rightarrow> u64 \<Rightarrow> u8 list \<Rightarrow> frame" where
  "content_install_chunk_request n offset bytes = content_install_chunk_request_with_ack n offset bytes True"

definition content_install_commit_request :: "u32 \<Rightarrow> frame" where
  "content_install_commit_request n = frame_request ContentInstallCommit n []"

definition content_check_request :: "u32 \<Rightarrow> rstr \<Rightarrow> frame" where
  "content_check_request n name = frame_request ContentCheck n [Field 1 (FString name)]"

definition app_launch_request :: "u32 \<Rightarrow> rstr \<Rightarrow> frame" where
  "app_launch_request n app_id = frame_request AppLaunch n [Field 1 (FString app_id)]"

definition temp_run_begin_request :: "u32 \<Rightarrow> rstr \<Rightarrow> u64 \<Rightarrow> u64 \<Rightarrow> frame" where
  "temp_run_begin_request n app_id total_len crc =
     frame_request TempRunBegin n [Field 1 (FString app_id), Field 2 (FU64 total_len), Field 3 (FU64 crc)]"

definition temp_run_chunk_request_with_ack :: "u32 \<Rightarrow> u64 \<Rightarrow> u8 list \<Rightarrow> bool \<Rightarrow> frame" where
  "temp_run_chunk_request_with_ack n offset bytes ack =
     frame_request TempRunChunk n (transfer_chunk_fields offset bytes ack)"

definition temp_run_chunk_request :: "u32 \<Rightarrow> u64 \<Rightarrow> u8 list \<Rightarrow> frame" where
  "temp_run_chunk_request n offset bytes = temp_run_chunk_request_with_ack n offset bytes True"

definition temp_run_commit_request :: "u32 \<Rightarrow> frame" where
  "temp_run_commit_request n = frame_request TempRunCommit n []"

definition content_delete_request :: "u32 \<Rightarrow> rstr \<Rightarrow> frame" where
  "content_delete_request n name = frame_request ContentDelete n [Field 1 (FString name)]"

section \<open>Reading responses\<close>

text \<open>
  A loop over the fields that overwrites a variable at each match is a fold; \<open>is_reply\<close> is
  the guard at the head of the readers.
\<close>

definition is_reply :: "opcode \<Rightarrow> frame \<Rightarrow> bool" where
  "is_reply opc f \<longleftrightarrow> fm_kind f = Response \<and> fm_opcode f = opc \<and> fm_status f = StatusOk"

definition keep_string :: "u8 \<Rightarrow> field \<Rightarrow> rstr option \<Rightarrow> rstr option" where
  "keep_string tag f old = (case f of Field t (FString s) \<Rightarrow> if t = tag then Some s else old | _ \<Rightarrow> old)"

definition keep_bool :: "u8 \<Rightarrow> field \<Rightarrow> bool option \<Rightarrow> bool option" where
  "keep_bool tag f old = (case f of Field t (FBool b) \<Rightarrow> if t = tag then Some b else old | _ \<Rightarrow> old)"

definition keep_u64 :: "u8 \<Rightarrow> field \<Rightarrow> u64 option \<Rightarrow> u64 option" where
  "keep_u64 tag f old = (case f of Field t (FU64 w) \<Rightarrow> if t = tag then Some w else old | _ \<Rightarrow> old)"

definition keep_i64 :: "u8 \<Rightarrow> field \<Rightarrow> i64 option \<Rightarrow> i64 option" where
  "keep_i64 tag f old = (case f of Field t (FI64 i) \<Rightarrow> if t = tag then Some i else old | _ \<Rightarrow> old)"

record hello_identity =
  hi_target :: rstr
  hi_firmware :: rstr
  hi_diagnostic :: bool
  hi_transfer_capabilities :: transfer_capabilities

definition keep_frame_bytes :: "field \<Rightarrow> nat option \<Rightarrow> nat option" where
  "keep_frame_bytes f old =
     (case f of Field t (FU64 w) \<Rightarrow> if t = 4 then usize_try_from w else old | _ \<Rightarrow> old)"

definition hello_identity_of :: "frame \<Rightarrow> hello_identity option" where
  "hello_identity_of f =
     (if \<not> is_reply Hello f then None else
      let target = fold (keep_string 1) (fm_fields f) None;
          firmware = fold (keep_string 2) (fm_fields f) None;
          diagnostic = fold (keep_bool 3) (fm_fields f) None;
          max_bytes = fold keep_frame_bytes (fm_fields f) None;
          capabilities = (case max_bytes of None \<Rightarrow> default_serial | Some n \<Rightarrow> from_serial_frame_budget n)
      in Option.bind target (\<lambda>target. Option.bind firmware (\<lambda>firmware.
           Some \<lparr>hi_target = target, hi_firmware = firmware,
                 hi_diagnostic = (case diagnostic of None \<Rightarrow> False | Some b \<Rightarrow> b),
                 hi_transfer_capabilities = capabilities\<rparr>)))"

text \<open>The records of tag 1 in order, the reading of one of them failing the whole.\<close>

fun read_records :: "(field list \<Rightarrow> 'a option) \<Rightarrow> field list \<Rightarrow> 'a list option" where
  "read_records read [] = Some []"
| "read_records read (Field tag (FRecord fs) # rest) =
     (if tag \<noteq> 1 then read_records read rest
      else Option.bind (read fs) (\<lambda>entry. map_option ((#) entry) (read_records read rest)))"
| "read_records read (f # rest) = read_records read rest"

definition app_list_entries :: "frame \<Rightarrow> app_list_entry list option" where
  "app_list_entries f =
     (if \<not> is_reply AppList f then None else
      read_records (\<lambda>fs.
        Option.bind (fold (keep_string 1) fs None) (\<lambda>app_id.
        Option.bind (fold (keep_u64 2) fs None) (\<lambda>sqbc_len.
          Some \<lparr>al_app_id = app_id, al_sqbc_len = sqbc_len\<rparr>))) (fm_fields f))"

definition repeated_string_fields :: "frame \<Rightarrow> opcode \<Rightarrow> u8 \<Rightarrow> rstr list option" where
  "repeated_string_fields f opc tag =
     (if \<not> is_reply opc f then None
      else Some (List.map_filter (as_string tag) (fm_fields f)))"

definition output_lines :: "frame \<Rightarrow> rstr list option" where "output_lines f = repeated_string_fields f OutputGet 1"
definition trace_lines :: "frame \<Rightarrow> rstr list option" where "trace_lines f = repeated_string_fields f TraceGet 1"
definition lifecycle_lines :: "frame \<Rightarrow> rstr list option" where "lifecycle_lines f = repeated_string_fields f LifecycleGet 1"
definition runtime_cap_lines :: "frame \<Rightarrow> rstr list option" where "runtime_cap_lines f = repeated_string_fields f RuntimeCapGet 1"
definition drawlog_lines :: "frame \<Rightarrow> rstr list option" where "drawlog_lines f = repeated_string_fields f DrawlogGet 1"
definition debug_log_lines :: "frame \<Rightarrow> rstr list option" where "debug_log_lines f = repeated_string_fields f DebugLogGet 1"
definition error_lines :: "frame \<Rightarrow> rstr list option" where "error_lines f = repeated_string_fields f ErrorsGet 1"

definition state_bytes :: "frame \<Rightarrow> u8 list option" where
  "state_bytes f =
     (if \<not> is_reply StateGet f then None
      else Some (case lookup (as_bytes 1) (fm_fields f) of Some bytes \<Rightarrow> bytes | None \<Rightarrow> []))"

definition resource_metric_name_for_id :: "u32 \<Rightarrow> rstr" where
  "resource_metric_name_for_id i =
     (case List.find (\<lambda>(metric_id, name). metric_id = i) RESOURCE_METRIC_NAMES of
        Some (_, name) \<Rightarrow> name
      | None \<Rightarrow> lit ''resource.'' @ decimal (unat i))"

definition keep_metric_key :: "field \<Rightarrow> rstr option \<Rightarrow> rstr option" where
  "keep_metric_key f old =
     (case f of
        Field t (FString s) \<Rightarrow> if t = 1 then Some s else old
      | Field t (FU32 i) \<Rightarrow> if t = 1 then Some (resource_metric_name_for_id i) else old
      | _ \<Rightarrow> old)"

definition keep_metric_value :: "field \<Rightarrow> u64 option \<Rightarrow> u64 option" where
  "keep_metric_value f old =
     (case f of
        Field t (FU32 w) \<Rightarrow> if t = 2 then Some (ucast w) else old
      | Field t (FU64 w) \<Rightarrow> if t = 2 then Some w else old
      | _ \<Rightarrow> old)"

definition resource_values :: "frame \<Rightarrow> (rstr \<times> u64) list option" where
  "resource_values f =
     (if \<not> is_reply ResourcesGet f then None else
      read_records (\<lambda>fs.
        Option.bind (fold keep_metric_key fs None) (\<lambda>key.
        Option.bind (fold keep_metric_value fs None) (\<lambda>w. Some (key, w)))) (fm_fields f))"

record content_check_result =
  cc_name :: rstr
  cc_size :: u64
  cc_crc32 :: u64

definition content_check_result_of :: "frame \<Rightarrow> content_check_result option" where
  "content_check_result_of f =
     (if \<not> is_reply ContentCheck f then None else
      Option.bind (fold (keep_string 1) (fm_fields f) None) (\<lambda>name.
      Option.bind (fold (keep_u64 2) (fm_fields f) None) (\<lambda>size.
      Option.bind (fold (keep_u64 3) (fm_fields f) None) (\<lambda>crc.
        Some \<lparr>cc_name = name, cc_size = size, cc_crc32 = crc\<rparr>))))"

definition content_delete_result :: "frame \<Rightarrow> rstr option" where
  "content_delete_result f =
     (if \<not> is_reply ContentDelete f then None else lookup (as_string 1) (fm_fields f))"

record protocol_error =
  pe_code :: i64
  pe_message :: rstr

definition protocol_error_of :: "frame \<Rightarrow> protocol_error option" where
  "protocol_error_of f =
     (if fm_kind f \<noteq> Response \<or> fm_status f \<noteq> StatusError then None else
      Some \<lparr>pe_code = (case fold (keep_i64 250) (fm_fields f) None of None \<Rightarrow> -1 | Some i \<Rightarrow> i),
            pe_message = (case fold (keep_string 251) (fm_fields f) None of
                            None \<Rightarrow> lit ''protocol error'' | Some s \<Rightarrow> s)\<rparr>)"

section \<open>Arguments\<close>

text \<open>\<open>char::to_lowercase\<close> on one character; the characters of a string.\<close>

definition to_lowercase :: "(rstr \<Rightarrow> rstr) \<Rightarrow> rstr \<Rightarrow> rstr" where
  "to_lowercase lower ch =
     (case ch of
        [b] \<Rightarrow> if 65 \<le> b \<and> b \<le> 90 then [b + 32] else [b]
      | _ \<Rightarrow> lower ch)"

function str_chars :: "rstr \<Rightarrow> rstr list" where
  "str_chars s = (if s = [] then [] else
     let n = (case utf8_width s of Some n \<Rightarrow> max 1 n | None \<Rightarrow> 1) in take n s # str_chars (drop n s))"
  by pat_completeness auto
termination by (relation "measure length") (auto split: option.splits)

declare str_chars.simps [simp del]

definition normalize_name :: "(rstr \<Rightarrow> rstr) \<Rightarrow> rstr \<Rightarrow> rstr" where
  "normalize_name lower name =
     concat (map (to_lowercase lower)
       (filter (\<lambda>ch. ch \<noteq> lit ''-'' \<and> ch \<noteq> lit ''_'' \<and> ch \<noteq> lit ''.'') (str_chars name)))"

definition opcode_named :: "rstr \<Rightarrow> opcode option" where
  "opcode_named name =
     (if name = lit ''hello'' then Some Hello else
      if name = lit ''appinstallbegin'' then Some AppInstallBegin else
      if name = lit ''appinstallchunk'' then Some AppInstallChunk else
      if name = lit ''appinstallcommit'' then Some AppInstallCommit else
      if name = lit ''resourceinstallbegin'' then Some ResourceInstallBegin else
      if name = lit ''resourceinstallchunk'' then Some ResourceInstallChunk else
      if name = lit ''resourceinstallcommit'' then Some ResourceInstallCommit else
      if name = lit ''temprunbegin'' then Some TempRunBegin else
      if name = lit ''temprunchunk'' then Some TempRunChunk else
      if name = lit ''tempruncommit'' then Some TempRunCommit else
      if name = lit ''applaunch'' then Some AppLaunch else
      if name = lit ''applist'' then Some AppList else
      if name = lit ''key'' then Some Key else
      if name = lit ''eventdispatch'' then Some EventDispatch else
      if name = lit ''outputget'' then Some OutputGet else
      if name = lit ''stateget'' then Some StateGet else
      if name = lit ''drawlogget'' then Some DrawlogGet else
      if name = lit ''traceget'' then Some TraceGet else
      if name = lit ''errorsget'' then Some ErrorsGet else
      if name = lit ''resourcesget'' then Some ResourcesGet else
      if name = lit ''lifecycleget'' then Some LifecycleGet else
      if name = lit ''stateimport'' then Some StateImport else
      if name = lit ''wifiprofileset'' then Some WifiProfileSet else
      if name = lit ''reset'' then Some Reset else
      if name = lit ''storageformat'' then Some StorageFormat else
      if name = lit ''runtimecapget'' then Some RuntimeCapGet else
      if name = lit ''runtimecapset'' then Some RuntimeCapSet else
      if name = lit ''runtimecapclear'' then Some RuntimeCapClear else
      if name = lit ''displaywindowprobe'' then Some DisplayWindowProbe else
      if name = lit ''contentinstallbegin'' then Some ContentInstallBegin else
      if name = lit ''contentinstallchunk'' then Some ContentInstallChunk else
      if name = lit ''contentinstallcommit'' then Some ContentInstallCommit else
      if name = lit ''contentcheck'' then Some ContentCheck else
      if name = lit ''debuglogget'' then Some DebugLogGet else
      if name = lit ''contentdelete'' then Some ContentDelete else
      None)"

datatype arg_error =
    UnknownOpcodeName rstr
  | NotTagValue rstr
  | InvalidTag rstr
  | NotBool u8
  | InvalidInteger rstr u8
  | UnsupportedKind rstr
  | OddHexDigits
  | InvalidHexByte rstr

definition opcode_parse :: "(rstr \<Rightarrow> rstr) \<Rightarrow> rstr \<Rightarrow> (arg_error, opcode) res" where
  "opcode_parse lower name = ok_or (UnknownOpcodeName name) (opcode_named (normalize_name lower name))"

definition parse_tag :: "rstr \<Rightarrow> (arg_error, u8) res" where
  "parse_tag s = ok_or (InvalidTag s) (map_option of_nat (parse_unsigned 10 255 s))"

text \<open>The text of two bytes is unwrapped, so a byte outside ASCII panics.\<close>

fun parse_hex_chunks :: "u8 list \<Rightarrow> (arg_error, u8 list) res" where
  "parse_hex_chunks (a # b # bs) =
     (case from_utf8 [a, b] of
        None \<Rightarrow> Inl Panic
      | Some s \<Rightarrow>
          and_then (ok_or (InvalidHexByte s) (map_option of_nat (parse_unsigned 16 255 s))) (\<lambda>byte.
          and_then (parse_hex_chunks bs) (\<lambda>bytes. Inr (byte # bytes))))"
| "parse_hex_chunks _ = Inr []"

definition parse_hex_bytes :: "rstr \<Rightarrow> (arg_error, u8 list) res" where
  "parse_hex_bytes s =
     (let s = (if take 2 s = lit ''0x'' then drop 2 s else s) in
      if length s mod 2 \<noteq> 0 then Inl (Err OddHexDigits) else parse_hex_chunks s)"

fun split_once :: "u8 \<Rightarrow> rstr \<Rightarrow> (rstr \<times> rstr) option" where
  "split_once c [] = None"
| "split_once c (b # bs) = (if b = c then Some ([], bs)
     else map_option (\<lambda>(x, y). (b # x, y)) (split_once c bs))"

definition parse_field_arg :: "rstr \<Rightarrow> rstr \<Rightarrow> (arg_error, field) res" where
  "parse_field_arg kind arg =
     and_then (ok_or (NotTagValue arg) (split_once 61 arg)) (\<lambda>(tag, raw).
     and_then (parse_tag tag) (\<lambda>tag.
       if kind = lit ''string'' then Inr (Field tag (FString raw))
       else if kind = lit ''bytes'' then and_then (parse_hex_bytes raw) (\<lambda>bytes. Inr (Field tag (FBytes bytes)))
       else if kind = lit ''bool'' then
         (if raw = lit ''true'' then Inr (Field tag (FBool True))
          else if raw = lit ''false'' then Inr (Field tag (FBool False))
          else Inl (Err (NotBool tag)))
       else if kind = lit ''u64'' then
         and_then (ok_or (InvalidInteger raw tag) (parse_unsigned 10 18446744073709551615 raw)) (\<lambda>n.
           Inr (Field tag (FU64 (of_nat n))))
       else if kind = lit ''u32'' then
         and_then (ok_or (InvalidInteger raw tag) (parse_unsigned 10 4294967295 raw)) (\<lambda>n.
           Inr (Field tag (FU32 (of_nat n))))
       else if kind = lit ''i64'' then
         and_then (ok_or (InvalidInteger raw tag) (parse_i64 raw)) (\<lambda>i. Inr (Field tag (FI64 (of_int i))))
       else Inl (Err (UnsupportedKind kind))))"

section \<open>Responses read back\<close>

lemma encode_frame_into_Inr:
  assumes "encode_frame_into hash f out = (Inr n, out')"
  shows "n = length (frame_bytes hash f) \<and> out' = frame_bytes hash f @ drop n out \<and> fields_fit (fm_fields f)"
proof -
  have "fields_fit (fm_fields f)"
    using assms by (cases "encoded_fields_len (fm_fields f)") (auto simp: encode_frame_into_def encoded_fields_len_eq_Inr)
  with encode_frame_into_cases [where hash = hash and f = f and out = out] assms show ?thesis by simp
qed

lemma decode_encoded_into:
  assumes "encode_frame_into hash f out = (Inr n, out')" and "frame_text f"
    and "length (payload_bytes (fm_fields f)) \<le> 4294967295"
  shows "decode_frame hash (take n out') = Inr f"
  using encode_frame_into_Inr [OF assms(1)] assms(2,3) by (simp add: decode_frame_bytes)

text \<open>A buffer with room takes the frame.\<close>

lemma encode_into_room:
  assumes "fields_fit (fm_fields f)" and "length (frame_bytes hash f) \<le> length out" and "length out \<le> usize_max"
  shows "encode_frame_into hash f out =
    (Inr (length (frame_bytes hash f)), frame_bytes hash f @ drop (length (frame_bytes hash f)) out)"
proof -
  have "encoded_fields_len (fm_fields f) = Inr (length (payload_bytes (fm_fields f)))"
    using assms by (simp add: encoded_fields_len_eq_Inr length_frame_bytes)
  from encode_frame_into_layout [OF this] assms show ?thesis by (simp add: length_frame_bytes)
qed

lemma is_reply_response [simp]: "is_reply opc (frame_response opc StatusOk n fs)"
  by (simp add: is_reply_def)

text \<open>
  C37: the identity a device announces in its hello response is the identity the tools read,
  with the transfer sizes for the frame budget it announced.
\<close>

theorem hello_round_trip:
  assumes "encode_hello_response_into hash Hello sequence target firmware diagnostic n out = (Inr k, out')"
    and "utf8_valid target" and "utf8_valid firmware"
  shows "\<exists>f. decode_frame hash (take k out') = Inr f \<and> hello_identity_of f =
    Some \<lparr>hi_target = target, hi_firmware = firmware, hi_diagnostic = diagnostic,
          hi_transfer_capabilities = from_serial_frame_budget (unat n)\<rparr>"
proof (intro exI conjI)
  let ?f = "frame_response Hello StatusOk sequence (hello_fields target firmware diagnostic n)"
  note into = assms(1) [unfolded hello_response_agrees]
  show "decode_frame hash (take k out') = Inr ?f"
    using encode_frame_into_Inr [OF into] assms(2,3)
    by (intro decode_encoded_into [OF into]) (auto simp: frame_text_def hello_fields_def)
  have "unat n \<le> usize_max" using unsigned_less [of n, where ?'a = nat] by (simp add: usize_max_def)
  then show "hello_identity_of ?f = Some \<lparr>hi_target = target, hi_firmware = firmware, hi_diagnostic = diagnostic,
      hi_transfer_capabilities = from_serial_frame_budget (unat n)\<rparr>"
    by (simp add: hello_identity_of_def hello_fields_def keep_string_def keep_bool_def keep_frame_bytes_def usize_try_from_def)
qed

lemma hello_round_trip_witness:
  "\<exists>f. decode_frame (\<lambda>_. 0) (frame_bytes (\<lambda>_. 0) (frame_response Hello StatusOk 1
      (hello_fields (lit ''x4'') (lit ''fw'') True 4096))) = Inr f \<and> hello_identity_of f =
    Some \<lparr>hi_target = lit ''x4'', hi_firmware = lit ''fw'', hi_diagnostic = True,
          hi_transfer_capabilities = from_serial_frame_budget 4096\<rparr>"
proof -
  let ?f = "frame_response Hello StatusOk 1 (hello_fields (lit ''x4'') (lit ''fw'') True 4096)"
  have len: "length (frame_bytes (\<lambda>_. 0) ?f) = 49"
    by (simp add: length_frame_bytes hello_fields_def HEADER_LEN_def)
  have "encode_hello_response_into (\<lambda>_. 0) Hello 1 (lit ''x4'') (lit ''fw'') True 4096 (replicate 60 0) =
      (Inr 49, frame_bytes (\<lambda>_. 0) ?f @ replicate 11 0)"
    unfolding hello_response_agrees using len
    by (subst encode_into_room) (simp_all add: hello_fields_def usize_max_def)
  from hello_round_trip [OF this] len show ?thesis by simp
qed

lemma read_records_map:
  "(\<And>x. x \<in> set xs \<Longrightarrow> \<exists>fs. h x = Field 1 (FRecord fs) \<and> read fs = Some (g x)) \<Longrightarrow>
   read_records read (map h xs) = Some (map g xs)"
proof (induction xs)
  case (Cons x xs)
  then obtain fs where "h x = Field 1 (FRecord fs)" "read fs = Some (g x)" by fastforce
  with Cons show ?case by simp
qed simp

lemma fields_text_map: "fields_text (map g xs) \<longleftrightarrow> (\<forall>x\<in>set xs. fields_text [g x])"
proof (induction xs)
  case (Cons x xs)
  then show ?case by (cases "g x") auto
qed simp

text \<open>
  The app list a device encodes is the app list the tools read.
\<close>

theorem app_list_round_trip:
  assumes "encode_app_list_response_into hash sequence entries out = (Inr k, out')"
    and "fields_fit (map app_entry_field entries)"
    and "length (payload_bytes (map app_entry_field entries)) \<le> 4294967295"
    and "list_all (\<lambda>entry. utf8_valid (al_app_id entry)) entries"
  shows "\<exists>f. decode_frame hash (take k out') = Inr f \<and> app_list_entries f = Some entries"
proof (intro exI conjI)
  let ?f = "frame_response AppList StatusOk sequence (map app_entry_field entries)"
  note into = assms(1) [unfolded app_list_response_agrees [OF assms(2,3)]]
  show "decode_frame hash (take k out') = Inr ?f"
    using assms(3,4) by (intro decode_encoded_into [OF into])
      (auto simp: frame_text_def fields_text_map app_entry_field_def list_all_iff)
  have "read_records read (map app_entry_field entries) = Some (map (\<lambda>x. x) entries)"
    if "\<And>x. read [Field 1 (FString (al_app_id x)), Field 2 (FU64 (al_sqbc_len x))] = Some x" for read
    by (rule read_records_map) (simp add: app_entry_field_def that)
  then show "app_list_entries ?f = Some entries"
    by (simp add: app_list_entries_def keep_string_def keep_u64_def)
qed

lemma app_list_round_trip_witness:
  "\<exists>f. decode_frame (\<lambda>_. 0) (frame_bytes (\<lambda>_. 0) (frame_response AppList StatusOk 5 (map app_entry_field sample_entries))) =
      Inr f \<and> app_list_entries f = Some sample_entries"
proof -
  let ?f = "frame_response AppList StatusOk 5 (map app_entry_field sample_entries)"
  have len: "length (frame_bytes (\<lambda>_. 0) ?f) = 70" and fit: "fields_fit (fm_fields ?f)"
    by (simp_all add: length_frame_bytes sample_entries_def app_entry_field_def HEADER_LEN_def)
  have "encode_app_list_response_into (\<lambda>_. 0) 5 sample_entries (replicate 70 0) = encode_frame_into (\<lambda>_. 0) ?f (replicate 70 0)"
    by (rule app_list_response_agrees) (simp_all add: sample_entries_def app_entry_field_def)
  then have "encode_app_list_response_into (\<lambda>_. 0) 5 sample_entries (replicate 70 0) = (Inr 70, frame_bytes (\<lambda>_. 0) ?f)"
    using encode_into_room [OF fit, of "\<lambda>_. 0" "replicate 70 0"] len by (simp add: usize_max_def)
  from app_list_round_trip [OF this] len show ?thesis
    by (simp add: sample_entries_def app_entry_field_def)
qed

lemma metric_names_distinct: "distinct (map fst RESOURCE_METRIC_NAMES)"
  by (simp add: RESOURCE_METRIC_NAMES_def)

lemma find_mem: "List.find P xs = Some y \<Longrightarrow> y \<in> set xs"
  by (induction xs) (auto split: if_splits)

lemma find_by_snd_fst:
  "distinct (map fst xs) \<Longrightarrow> List.find (\<lambda>(i, n). n = name) xs = Some (j, m) \<Longrightarrow>
   List.find (\<lambda>(i, n). i = j) xs = Some (j, name)"
proof (induction xs)
  case (Cons x xs)
  obtain i n where x: "x = (i, n)" by (cases x)
  have "i \<noteq> j" if "n \<noteq> name"
    using Cons.prems that find_mem [of "\<lambda>(i, n). n = name" xs "(j, m)"] by (force simp: x)
  with Cons show ?case by (auto simp: x split: if_splits)
qed simp

lemma metric_name_of_id: "resource_metric_id_for_name name = Some i \<Longrightarrow> resource_metric_name_for_id i = name"
  unfolding resource_metric_id_for_name_def resource_metric_name_for_id_def
  by (auto dest!: find_by_snd_fst [OF metric_names_distinct])

text \<open>
  The metrics a device reports, by id, are the metrics the tools read, by name.
\<close>

theorem resources_round_trip:
  assumes "encode_resources_response_into hash sequence metrics out = (Inr k, out')"
    and "list_all metric_ok metrics" and "20 * length metrics \<le> 4294967295"
  shows "\<exists>f. decode_frame hash (take k out') = Inr f \<and>
    resource_values f = Some (map (\<lambda>m. (mt_key m, mt_value m)) metrics)"
proof (intro exI conjI)
  let ?f = "frame_response ResourcesGet StatusOk sequence (map metric_field metrics)"
  note into = assms(1) [unfolded resources_response_agrees [OF assms(2,3)]]
  have "length (payload_bytes (map metric_field metrics)) = 20 * length metrics"
  proof (induction metrics)
    case (Cons m ms)
    then show ?case using payload_bytes_Cons [of "metric_field m" "map metric_field ms"] by (simp add: metric_field_def)
  qed simp
  then show "decode_frame hash (take k out') = Inr ?f"
    using assms(3) by (intro decode_encoded_into [OF into])
      (auto simp: frame_text_def fields_text_map metric_field_def)
  have back64: "ucast (ucast w :: u32) = w" if "unat w \<le> 4294967295" for w :: u64
  proof -
    have "unat (ucast (ucast w :: u32) :: u64) = unat w"
      using that by (simp add: unsigned_ucast_eq unsigned_take_bit_eq take_bit_nat_eq_self)
    then show ?thesis by (simp add: word_unat_eq_iff)
  qed
  have "read_records read (map metric_field metrics) = Some (map (\<lambda>m. (mt_key m, mt_value m)) metrics)"
    if "\<And>m. metric_ok m \<Longrightarrow> read [Field 1 (FU32 (the (resource_metric_id_for_name (mt_key m)))),
      Field 2 (FU32 (ucast (mt_value m)))] = Some (mt_key m, mt_value m)" for read
    by (rule read_records_map) (use assms(2) in \<open>auto simp: metric_field_def list_all_iff intro: that\<close>)
  then show "resource_values ?f = Some (map (\<lambda>m. (mt_key m, mt_value m)) metrics)"
    by (auto simp: resource_values_def keep_metric_key_def keep_metric_value_def metric_ok_def
        metric_name_of_id back64)
qed

lemma resources_round_trip_witness:
  "\<exists>f. decode_frame (\<lambda>_. 0) (frame_bytes (\<lambda>_. 0) (frame_response ResourcesGet StatusOk 5
      (map metric_field [\<lparr>mt_key = lit ''heap_count'', mt_value = 17\<rparr>]))) = Inr f \<and>
    resource_values f = Some [(lit ''heap_count'', 17)]"
proof -
  let ?m = "\<lparr>mt_key = lit ''heap_count'', mt_value = 17\<rparr> :: resource_metric"
  let ?f = "frame_response ResourcesGet StatusOk 5 (map metric_field [?m])"
  have len: "length (frame_bytes (\<lambda>_. 0) ?f) = 40" and fit: "fields_fit (fm_fields ?f)"
    by (simp_all add: length_frame_bytes metric_field_def HEADER_LEN_def)
  have ok: "list_all metric_ok [?m]"
    by (simp add: metric_ok_def resource_metric_id_for_name_def RESOURCE_METRIC_NAMES_def)
  have "encode_resources_response_into (\<lambda>_. 0) 5 [?m] (replicate 40 0) = encode_frame_into (\<lambda>_. 0) ?f (replicate 40 0)"
    by (rule resources_response_agrees [OF ok]) simp
  then have "encode_resources_response_into (\<lambda>_. 0) 5 [?m] (replicate 40 0) = (Inr 40, frame_bytes (\<lambda>_. 0) ?f)"
    using encode_into_room [OF fit, of "\<lambda>_. 0" "replicate 40 0"] len by (simp add: usize_max_def)
  from resources_round_trip [OF this ok] len show ?thesis by simp
qed

text \<open>
  The lifecycle a device reports is read as the lines it stands for.
\<close>

theorem lifecycle_round_trip:
  assumes "encode_lifecycle_response_into hash sequence active_app process_stack armed_timers out = (Inr k, out')"
    and "fields_fit (map line_field (lifecycle_lines_of active_app process_stack armed_timers))"
    and "length (payload_bytes (map line_field (lifecycle_lines_of active_app process_stack armed_timers))) \<le> 4294967295"
    and "list_all utf8_valid (lifecycle_lines_of active_app process_stack armed_timers)"
  shows "\<exists>f. decode_frame hash (take k out') = Inr f \<and>
    lifecycle_lines f = Some (lifecycle_lines_of active_app process_stack armed_timers)"
proof (intro exI conjI)
  let ?lines = "lifecycle_lines_of active_app process_stack armed_timers"
  let ?f = "frame_response LifecycleGet StatusOk sequence (map line_field ?lines)"
  note into = assms(1) [unfolded lifecycle_response_agrees [OF assms(2,3)]]
  show "decode_frame hash (take k out') = Inr ?f"
    using assms(3,4) by (intro decode_encoded_into [OF into])
      (auto simp: frame_text_def fields_text_map line_field_def list_all_iff)
  have "List.map_filter (as_string 1) (map line_field lines) = lines" for lines
    by (induction lines) (simp_all add: line_field_def List.map_filter_simps)
  then show "lifecycle_lines ?f = Some ?lines"
    by (simp add: lifecycle_lines_def repeated_string_fields_def)
qed

lemma lifecycle_round_trip_witness:
  "\<exists>f. decode_frame (\<lambda>_. 0) (frame_bytes (\<lambda>_. 0) (frame_response LifecycleGet StatusOk 5
      (map line_field (lifecycle_lines_of (Some (lit ''demo'')) [lit ''a''] [])))) = Inr f \<and>
    lifecycle_lines f = Some [lit ''active=demo'', lit ''process_stack[0]=a'', lit ''armed_stack='']"
proof -
  have "decimal 0 = [48]" by (simp add: decimal.simps)
  then have lines: "lifecycle_lines_of (Some (lit ''demo'')) [lit ''a''] [] =
      [lit ''active=demo'', lit ''process_stack[0]=a'', lit ''armed_stack='']"
    by (simp add: lifecycle_lines_of_def active_line_def process_line_def)
  let ?f = "frame_response LifecycleGet StatusOk 5 (map line_field (lifecycle_lines_of (Some (lit ''demo'')) [lit ''a''] []))"
  have len: "length (frame_bytes (\<lambda>_. 0) ?f) = 73" and fit: "fields_fit (fm_fields ?f)"
    unfolding lines by (simp_all add: length_frame_bytes line_field_def HEADER_LEN_def)
  have "encode_lifecycle_response_into (\<lambda>_. 0) 5 (Some (lit ''demo'')) [lit ''a''] [] (replicate 73 0) =
      encode_frame_into (\<lambda>_. 0) ?f (replicate 73 0)"
    by (rule lifecycle_response_agrees; unfold lines; simp add: line_field_def)
  then have "encode_lifecycle_response_into (\<lambda>_. 0) 5 (Some (lit ''demo'')) [lit ''a''] [] (replicate 73 0) =
      (Inr 73, frame_bytes (\<lambda>_. 0) ?f)"
    using encode_into_room [OF fit, of "\<lambda>_. 0" "replicate 73 0"] len by (simp add: usize_max_def)
  from lifecycle_round_trip [OF this, unfolded lines] len [unfolded lines] show ?thesis
    unfolding lines by (simp add: line_field_def)
qed

section \<open>Chunks within a frame budget\<close>

text \<open>
  C38: a chunk of the size announced for a frame budget, its offset, its data and its flag, is
  a frame within the budget (whenever the budget exceeds the fixed part at all), as long as
  the data fits the 16-bit length of a field; beyond that, encoding the request panics.
\<close>

theorem chunk_within_budget:
  assumes "length bytes \<le> transfer_chunk_payload_for_frame_budget budget" and "45 \<le> budget"
    and "budget \<le> usize_max"
  shows "case encode_frame hash (app_install_chunk_request n offset bytes) of
      Inr frame \<Rightarrow> length frame \<le> budget \<and> length bytes \<le> 65535
    | Inl e \<Rightarrow> e = Panic \<and> 65535 < length bytes"
proof (cases "length bytes \<le> 65535")
  case True
  then have "encode_frame hash (app_install_chunk_request n offset bytes) =
      Inr (frame_bytes hash (app_install_chunk_request n offset bytes))"
    by (simp add: encode_frame_eq_Inr app_install_chunk_request_def app_install_chunk_request_with_ack_def
        transfer_chunk_fields_def HEADER_LEN_def usize_max_def)
  with assms True show ?thesis
    by (simp add: length_frame_bytes app_install_chunk_request_def app_install_chunk_request_with_ack_def
        transfer_chunk_fields_def HEADER_LEN_def transfer_chunk_payload_for_frame_budget_def)
next
  case False
  then have "encode_frame hash (app_install_chunk_request n offset bytes) \<noteq> Inr frame" for frame
    by (simp add: encode_frame_eq_Inr app_install_chunk_request_def app_install_chunk_request_with_ack_def
        transfer_chunk_fields_def)
  moreover have "encode_frame hash f = Inl e \<Longrightarrow> e = Panic" for f e
    by (auto simp: encode_frame_def split: sum.splits prod.splits)
  ultimately show ?thesis using False by (auto split: sum.split)
qed

lemma chunk_within_budget_witness:
  "case encode_frame (\<lambda>_. 0) (app_install_chunk_request 1 0 [1, 2, 3]) of
      Inr frame \<Rightarrow> length frame \<le> 48 \<and> length [1 :: u8, 2, 3] \<le> 65535
    | Inl e \<Rightarrow> e = Panic \<and> 65535 < length [1 :: u8, 2, 3]"
  by (rule chunk_within_budget)
    (simp_all add: transfer_chunk_payload_for_frame_budget_def HEADER_LEN_def usize_max_def)

section \<open>An install from end to end\<close>

text \<open>What a device does with the bytes of a request, its host opening staging files at \<open>path\<close>.\<close>

definition receive :: "hasher \<Rightarrow> rstr \<Rightarrow> u8 list \<Rightarrow> device \<Rightarrow> device" where
  "receive hash path bytes d =
     (case request_decode hash bytes of
        Inl e \<Rightarrow> d
      | Inr rq \<Rightarrow> serve \<lparr>at_request = rq, at_path = path, at_fails = None\<rparr> d)"

text \<open>The chunk requests for data cut into pieces, from an offset on.\<close>

fun chunk_requests :: "u32 \<Rightarrow> nat \<Rightarrow> u8 list list \<Rightarrow> frame list" where
  "chunk_requests n offset [] = []"
| "chunk_requests n offset (c # cs) =
     app_install_chunk_request n (of_nat offset) c # chunk_requests n (offset + length c) cs"

definition installing :: "rstr \<Rightarrow> rstr \<Rightarrow> u8 list \<Rightarrow> u8 list \<Rightarrow> device \<Rightarrow> bool" where
  "installing app_id path whole done d \<longleftrightarrow>
     (let t = ps_install (dv_sessions d) in
      tr_active t \<and> tr_total_len t = length whole \<and> tr_expected_crc t = crc32 whole \<and>
      tr_received t = length done \<and> tr_running_crc t = crc32_update 0xffffffff done \<and>
      fixed_as_str (tr_app_id t) = (Inr app_id :: (session_error, rstr) res) \<and>
      fixed_as_str (tr_staging_path t) = (Inr path :: (session_error, rstr) res) \<and>
      dv_install_file d = done)"

text \<open>A request that was encoded is decoded to its opcode and fields.\<close>

lemma request_of_frame:
  assumes "fields_fit fs" and "fields_text fs" and "length (payload_bytes fs) \<le> 4294967295"
  obtains rq where "request_decode hash (frame_bytes hash (frame_request opc n fs)) = Inr rq"
    and "rq_opcode rq = opc" and "decode_fields (rq_payload rq) = Inr fs"
proof -
  have "decode_frame hash (frame_bytes hash (frame_request opc n fs)) = Inr (frame_request opc n fs)"
    using assms by (intro decode_frame_bytes) (simp_all add: frame_text_def)
  then have "\<exists>rq. request_decode hash (frame_bytes hash (frame_request opc n fs)) = Inr rq \<and> rq_opcode rq = opc \<and>
      rq_sequence rq = n \<and> decode_fields (rq_payload rq) = Inr fs"
    unfolding request_decode_frame by (intro exI [of _ "frame_request opc n fs"]) simp
  with that show ?thesis by blast
qed

lemma receive_begin:
  assumes "utf8_valid app_id" and "app_id \<noteq> []" and "length app_id < MAX_APP_ID_LEN"
    and "utf8_valid path" and "path \<noteq> []" and "length path < MAX_PATH_LEN"
    and "whole \<noteq> []" and "length whole \<le> MAX_APP_BYTES"
  shows "installing app_id path whole [] (receive hash path (frame_bytes hash
    (app_install_begin_request n app_id (of_nat (length whole)) (ucast (crc32 whole)))) d)"
proof -
  let ?fs = "[Field 1 (FString app_id), Field 2 (FU64 (of_nat (length whole))), Field 3 (FU64 (ucast (crc32 whole)))]"
  obtain rq where rq: "request_decode hash (frame_bytes hash (frame_request AppInstallBegin n ?fs)) = Inr rq"
    "rq_opcode rq = AppInstallBegin" "decode_fields (rq_payload rq) = Inr ?fs"
    by (rule request_of_frame [of ?fs hash AppInstallBegin n]) (use assms(1,3) in \<open>auto simp: MAX_APP_ID_LEN_def\<close>)
  note agree = raw_lookups_agree [OF rq(3)]
  have len: "unat (of_nat (length whole) :: u64) = length whole"
    using assms(8) by (simp add: unat_of_nat take_bit_nat_eq_self MAX_APP_BYTES_def)
  have "unat (crc32 whole) < 2 ^ 64" by (rule le_less_trans [OF unat_u32_bound]) simp
  then have crc: "unat (ucast (crc32 whole) :: u64) = unat (crc32 whole)"
    by (simp add: unsigned_ucast_eq unsigned_take_bit_eq take_bit_nat_eq_self)
  have crc_word: "ucast (ucast (crc32 whole) :: u64) = crc32 whole"
    by (rule bit_word_eqI) (auto simp: bit_simps)
  have small: "\<not> 4294967295 < unat (crc32 whole)" by (simp add: not_less)
  show ?thesis
    using assms unfolding installing_def receive_def app_install_begin_request_def rq(1)
    by (simp add: serve_def next_action_def rq(2) begin_install_def bind_exec_def agree required_def announced_def
        len crc crc_word small usize_try_from_def on_part_def transfer_begin_def begin_with_limit_def validate_transfer_len_def
        fixed_set_def Let_def transfer_default_def fixed_default_def MAX_APP_ID_LEN_def MAX_PATH_LEN_def MAX_APP_BYTES_def
        usize_max_def host_do_def on_sessions_def complete_begin_install_def complete_begin_def fixed_as_str_def
        slice_range_Inr splice_def from_utf8_def)
qed

lemma receive_chunk:
  assumes "installing app_id path whole done d" and "length done + length c \<le> length whole"
    and "length whole \<le> MAX_APP_BYTES" and "length c \<le> 65535"
  shows "installing app_id path whole (done @ c) (receive hash path (frame_bytes hash
    (app_install_chunk_request n (of_nat (length done)) c)) d)"
proof -
  let ?fs = "transfer_chunk_fields (of_nat (length done)) c True"
  obtain rq where rq: "request_decode hash (frame_bytes hash (frame_request AppInstallChunk n ?fs)) = Inr rq"
    "rq_opcode rq = AppInstallChunk" "decode_fields (rq_payload rq) = Inr ?fs"
    by (rule request_of_frame [of ?fs hash AppInstallChunk n]) (use assms(4) in \<open>auto simp: transfer_chunk_fields_def\<close>)
  note agree = raw_lookups_agree [OF rq(3)]
  have off: "unat (of_nat (length done) :: u64) = length done"
    using assms(2,3) by (simp add: unat_of_nat take_bit_nat_eq_self MAX_APP_BYTES_def)
  have valid: "validate_chunk (length done) c (ps_install (dv_sessions d)) = Inr ()"
    using assms(1,2) by (simp add: installing_def Let_def validate_chunk_def)
  have act: "next_action rq (dv_sessions d) = (Inr (WriteInstallChunk path (length done) c), dv_sessions d)"
    using assms valid by (simp add: next_action_def rq(2) pure_def install_chunk_def chunk_offset_def required_def agree
        transfer_chunk_fields_def off usize_try_from_def usize_max_def MAX_APP_BYTES_def installing_def Let_def)
  have "complete_chunk c (ps_install (dv_sessions d)) = (Inr (), (ps_install (dv_sessions d))
      \<lparr>tr_running_crc := crc32_update 0xffffffff (done @ c), tr_received := length (done @ c)\<rparr>)"
    using assms(1) valid by (simp add: complete_chunk_def installing_def Let_def)
  then show ?thesis
    using assms(1) by (simp add: installing_def receive_def app_install_chunk_request_def
        app_install_chunk_request_with_ack_def rq(1) serve_def act host_do_def host_write_def on_sessions_def
        complete_install_chunk_def on_part_def write_at_def Let_def)
qed

lemma receive_chunks:
  assumes "installing app_id path whole done d" and "done @ concat cs = whole"
    and "length whole \<le> MAX_APP_BYTES" and "\<forall>c\<in>set cs. length c \<le> 65535"
  shows "installing app_id path whole whole
    (fold (receive hash path) (map (frame_bytes hash) (chunk_requests n (length done) cs)) d)"
  using assms
proof (induction cs arbitrary: "done" d)
  case (Cons c cs)
  have "installing app_id path whole (done @ c) (receive hash path (frame_bytes hash
      (app_install_chunk_request n (of_nat (length done)) c)) d)"
    using Cons.prems by (intro receive_chunk) auto
  from Cons.IH [OF this] Cons.prems show ?case by simp
qed simp

lemma commit_ready:
  assumes "installing app_id path whole whole d" and "rq_opcode rq = AppInstallCommit"
  shows "next_action rq (dv_sessions d) = (Inr (CommitInstall app_id path), dv_sessions d)"
  using assms by (simp add: next_action_def pure_def commit_install_def validate_commit_def crc_matches_def
      crc32_def installing_def Let_def)

text \<open>
  C30: from whatever state a device is in, when the tools announce an app and send it in
  pieces, in order, the device ends with exactly those bytes staged, and the commit request
  is answered by the order to install them under the announced name.
\<close>

theorem install_completes:
  assumes "utf8_valid app_id" and "app_id \<noteq> []" and "length app_id < MAX_APP_ID_LEN"
    and "utf8_valid path" and "path \<noteq> []" and "length path < MAX_PATH_LEN"
    and "concat pieces \<noteq> []" and "length (concat pieces) \<le> MAX_APP_BYTES"
    and "list_all (\<lambda>c. length c \<le> 65535) pieces"
    and "d' = fold (receive hash path) (map (frame_bytes hash)
      (app_install_begin_request n app_id (of_nat (length (concat pieces))) (ucast (crc32 (concat pieces))) #
       chunk_requests n 0 pieces)) d"
  shows "dv_install_file d' = concat pieces \<and>
    (\<exists>rq. request_decode hash (frame_bytes hash (app_install_commit_request n)) = Inr rq \<and>
      fst (next_action rq (dv_sessions d')) = Inr (CommitInstall app_id path))"
proof -
  have "installing app_id path (concat pieces) [] (receive hash path (frame_bytes hash
      (app_install_begin_request n app_id (of_nat (length (concat pieces))) (ucast (crc32 (concat pieces))))) d)"
    using assms(1-8) by (intro receive_begin)
  from receive_chunks [OF this, of pieces hash n] assms(8,9,10)
  have done': "installing app_id path (concat pieces) (concat pieces) d'" by (simp add: list_all_iff)
  obtain rq where "request_decode hash (frame_bytes hash (frame_request AppInstallCommit n [])) = Inr rq"
    "rq_opcode rq = AppInstallCommit"
    by (rule request_of_frame [of "[]" hash AppInstallCommit n]) auto
  with done' commit_ready [OF done'] show ?thesis
    by (auto simp: app_install_commit_request_def installing_def Let_def)
qed

lemma install_completes_witness:
  "\<exists>d' :: device. dv_install_file d' = [1, 2, 3] \<and>
    (\<exists>rq. request_decode crc32 (frame_bytes crc32 (app_install_commit_request 4)) = Inr rq \<and>
      fst (next_action rq (dv_sessions d')) = Inr (CommitInstall (lit ''demo'') (lit ''/a'')))"
proof -
  define d' where "d' = fold (receive crc32 (lit ''/a'')) (map (frame_bytes crc32)
    (app_install_begin_request 4 (lit ''demo'') (of_nat (length (concat [[1 :: u8, 2], [3]]))) (ucast (crc32 (concat [[1, 2], [3]]))) #
     chunk_requests 4 0 [[1, 2], [3]])) device_new"
  from install_completes [OF _ _ _ _ _ _ _ _ _ this]
  have "dv_install_file d' = [1, 2, 3] \<and>
    (\<exists>rq. request_decode crc32 (frame_bytes crc32 (app_install_commit_request 4)) = Inr rq \<and>
      fst (next_action rq (dv_sessions d')) = Inr (CommitInstall (lit ''demo'') (lit ''/a'')))"
    by (simp add: MAX_APP_ID_LEN_def MAX_PATH_LEN_def MAX_APP_BYTES_def)
  then show ?thesis by blast
qed

section \<open>Hexadecimal arguments\<close>

definition hex_digit :: "nat \<Rightarrow> u8" where
  "hex_digit d = (if d < 10 then of_nat (48 + d) else of_nat (87 + d))"

definition hex_of_bytes :: "u8 list \<Rightarrow> rstr" where
  "hex_of_bytes bytes = concat (map (\<lambda>b. [hex_digit (unat b div 16), hex_digit (unat b mod 16)]) bytes)"

lemma hex_digits: "list_all (\<lambda>d. digit_value 16 (hex_digit d) = Some d \<and> hex_digit d < 0x80 \<and>
    hex_digit d \<noteq> 43 \<and> hex_digit d \<noteq> 120) [0..<16]"
  by code_simp

lemma hex_digit_facts:
  assumes "d < 16"
  shows "digit_value 16 (hex_digit d) = Some d" "hex_digit d < 0x80" "hex_digit d \<noteq> 43" "hex_digit d \<noteq> 120"
  using hex_digits assms by (simp_all add: list_all_iff)

lemma parse_hex_chunks_of_bytes: "parse_hex_chunks (hex_of_bytes bytes) = Inr bytes"
proof (induction bytes)
  case (Cons b bytes)
  have d: "unat b div 16 < 16" "unat b mod 16 < 16" using unat_u8_bound [of b] by presburger+
  have "unat b div 16 * 16 + unat b mod 16 = unat b" by simp
  with d Cons show ?case
    by (simp add: hex_of_bytes_def from_utf8_def hex_digit_facts parse_unsigned_def parse_magnitude_def)
qed (simp add: hex_of_bytes_def)

text \<open>
  The hexadecimal digits of any bytes parse back to the bytes, with and without a prefix.
\<close>

theorem hex_round_trip:
  "parse_hex_bytes (hex_of_bytes bytes) = Inr bytes \<and> parse_hex_bytes (lit ''0x'' @ hex_of_bytes bytes) = Inr bytes"
proof -
  have even: "length (hex_of_bytes bytes) mod 2 = 0" by (induction bytes) (simp_all add: hex_of_bytes_def)
  have "take 2 (hex_of_bytes bytes) \<noteq> lit ''0x''"
  proof (cases bytes)
    case (Cons b bs)
    have "unat b mod 16 < 16" by simp
    from hex_digit_facts(4) [OF this] show ?thesis by (simp add: Cons hex_of_bytes_def)
  qed (simp add: hex_of_bytes_def)
  with even show ?thesis by (simp add: parse_hex_bytes_def parse_hex_chunks_of_bytes)
qed

text \<open>
  A hexadecimal argument with a character outside ASCII at an odd offset panics instead of
  being refused.
\<close>

theorem hex_argument_panics: "parse_field_arg (lit ''bytes'') (lit ''1=a'' @ [0xC3, 0xA9] @ lit ''b'') = Inl Panic"
proof -
  have "\<not> utf8_valid [97, 0xC3]" by code_simp
  then show ?thesis
    by (simp add: parse_field_arg_def parse_tag_def parse_unsigned_def parse_magnitude_def digit_value_def Let_def
        parse_hex_bytes_def from_utf8_def del: utf8_valid_ascii)
qed

end
