(* ===== verification/Sqbc_Ir.thy ===== *)
theory Sqbc_Ir
  imports Sq_Utf8
begin

text \<open>
  The compiler's intermediate representation (\<open>squidc-core/src/ir.rs\<close>, \<open>profile.rs\<close>):
  programs, statements and expressions, with the constructors of the Rust enums under the
  prefixes \<open>S_\<close> and \<open>E_\<close>, and the JSON values (\<open>serde_json::Value\<close>) that literals and
  display options are made of.

  A Rust \<open>String\<close> is UTF-8 by its type, here \<open>ustr\<close>.  A \<open>BTreeMap\<close> that is iterated is the
  list of its entries in key order; a JSON object is the list of its entries in the order
  of iteration, its keys distinct.
\<close>

section \<open>JSON values\<close>

text \<open>A number is an unsigned, a negative or a floating-point one, the last by its bits.\<close>

datatype json_number = PosInt u64 | NegInt i64 | Float u64

datatype json =
    JNull
  | JBool bool
  | JNumber json_number
  | JString ustr
  | JArray "json list"
  | JObject "(ustr \<times> json) list"

definition number_as_i64 :: "json_number \<Rightarrow> i64 option" where
  "number_as_i64 n = (case n of
       PosInt w \<Rightarrow> (if unat w \<le> 9223372036854775807 then Some w else None)
     | NegInt w \<Rightarrow> Some w
     | Float _ \<Rightarrow> None)"

definition as_i64 :: "json \<Rightarrow> i64 option" where
  "as_i64 v = (case v of JNumber n \<Rightarrow> number_as_i64 n | _ \<Rightarrow> None)"

definition as_bool :: "json \<Rightarrow> bool option" where
  "as_bool v = (case v of JBool b \<Rightarrow> Some b | _ \<Rightarrow> None)"

definition as_str :: "json \<Rightarrow> ustr option" where
  "as_str v = (case v of JString s \<Rightarrow> Some s | _ \<Rightarrow> None)"

definition is_null :: "json \<Rightarrow> bool" where
  "is_null v = (case v of JNull \<Rightarrow> True | _ \<Rightarrow> False)"

definition is_object :: "json \<Rightarrow> bool" where
  "is_object v = (case v of JObject _ \<Rightarrow> True | _ \<Rightarrow> False)"

text \<open>\<open>Value::get\<close> with a string key: the entry of an object, nothing for other values.\<close>

definition json_get :: "json \<Rightarrow> rstr \<Rightarrow> json option" where
  "json_get v key = (case v of
       JObject entries \<Rightarrow> map_option snd (find (\<lambda>e. str_bytes (fst e) = key) entries)
     | _ \<Rightarrow> None)"

section \<open>Expressions and statements\<close>

datatype ir_expr =
    E_Literal json
  | E_State ustr
  | E_Variable ustr
  | E_Binary ir_expr ustr ir_expr
  | E_Unary ustr ir_expr
  | E_Field ir_expr ustr
  | E_HardwareGpioRead ustr
  | E_ServiceIndicatorRead
  | E_SystemMemory
  | E_SystemStorage ustr
  | E_SystemStartReason
  | E_Call ustr "ir_expr list"

text \<open>The two service profiles have the same fields: profile, id, accept, events.\<close>

datatype ir_statement =
    S_StateLoad
  | S_StateSave
  | S_StateReset
  | S_ScreenOpen ustr
  | S_ScreenRefresh
  | S_AppExit
  | S_AppLaunch ir_expr
  | S_AppArm ir_expr
  | S_AppDisarm ir_expr
  | S_AppInstall ir_expr "ustr option"
  | S_ServiceTimerEvery ustr ir_expr
  | S_ServiceTimerAfter ustr ir_expr
  | S_ServiceBleStart ustr ustr "ustr list" "(ustr \<times> ustr) list"
  | S_ServiceBleStop
  | S_ServiceHttpStart ustr ustr "ustr list" "(ustr \<times> ustr) list"
  | S_ServiceHttpStop
  | S_ServicePowerSleep ir_expr
  | S_Assign ustr ir_expr
  | S_StateAssign ustr ir_expr
  | S_Let ustr ir_expr
  | S_If ir_expr "ir_statement list" "ir_statement list"
  | S_Repeat ir_expr "ir_statement list"
  | S_For ustr ir_expr "ir_expr option" "ir_statement list"
  | S_Return "ir_expr option"
  | S_Call ustr "ir_expr list"
  | S_DebugPrint "ir_expr list"
  | S_DebugBlock "ir_statement list"
  | S_HardwareGpioWrite ustr ir_expr
  | S_HardwareGpioToggle ustr
  | S_ServiceIndicatorWrite ir_expr
  | S_ServiceIndicatorToggle
  | S_ServiceIndicatorBreathe
  | S_ServiceIndicatorBlink ir_expr ir_expr
  | S_DisplayClear ir_expr
  | S_DisplayText ir_expr json
  | S_DisplayRect ir_expr ir_expr ir_expr ir_expr json
  | S_DisplayLine i64 i64 i64 i64 json
  | S_DisplaySelect ustr
  | S_DisplayRefreshMode ustr
  | S_DisplayImage ustr json
  | S_DisplayDraw ir_expr json

section \<open>Programs\<close>

record ir_app =
  ia_id :: ustr
  ia_name :: ustr
  ia_target :: ustr

record ir_state_value =
  sv_name :: ustr
  sv_value_type :: ustr
  sv_nullable :: bool
  sv_value :: json

record ir_device_binding =
  ib_service :: ustr
  ib_binding :: ustr
  ib_resource :: ustr

record ir_handler =
  ih_event :: ustr
  ih_param :: "ustr option"
  ih_preload :: bool
  ih_statements :: "ir_statement list"

record ir_function =
  if_name :: ustr
  if_params :: "ustr list"
  if_statements :: "ir_statement list"

record ir_trigger =
  it_event :: ustr
  it_repeating :: bool
  it_interval_ms :: i32

record ir_screen =
  is_name :: ustr
  is_render :: ustr
  is_statements :: "ir_statement list"

record ir_program =
  ir_format :: ustr
  ir_app :: ir_app
  ir_state_store :: ustr
  ir_device_bindings :: "ir_device_binding list"
  ir_state :: "ir_state_value list"
  ir_functions :: "ir_function list"
  ir_triggers :: "ir_trigger list"
  ir_handlers :: "ir_handler list"
  ir_screens :: "ir_screen list"

datatype build_profile = Dev | Release

end
