(* ===== verification/Front_Ast.thy ===== *)
theory Front_Ast
  imports Sqbc_Ir
begin

text \<open>
  The front end's data (\<open>squidc-core/src/diagnostic.rs\<close>, \<open>ast.rs\<close>): diagnostics with their
  source spans, and the syntax tree the parser hands to the checks.  A diagnostic's code and
  severity are literals of the source; its message may contain names and is a string of bytes.
  A function that pushes diagnostics on a \<open>&mut Vec<Diagnostic>\<close> returns what it pushes.
\<close>

record source_span =
  span_start :: nat
  span_end :: nat

record diagnostic =
  dg_code :: string
  dg_severity :: string
  dg_message :: rstr
  dg_span :: source_span

type_synonym diagnostics = "diagnostic list"

definition diag_error :: "string \<Rightarrow> rstr \<Rightarrow> source_span \<Rightarrow> diagnostic" where
  "diag_error code message span =
     \<lparr>dg_code = code, dg_severity = ''error'', dg_message = message, dg_span = span\<rparr>"

definition diag_warning :: "string \<Rightarrow> string \<Rightarrow> source_span \<Rightarrow> diagnostic" where
  "diag_warning code message span =
     \<lparr>dg_code = code, dg_severity = ''warning'', dg_message = lit message, dg_span = span\<rparr>"

text \<open>The test of \<open>compile_ast\<close>: no diagnostic is an error.\<close>

definition no_errors :: "diagnostics \<Rightarrow> bool" where
  "no_errors ds = list_all (\<lambda>d. dg_severity d \<noteq> ''error'') ds"

lemma no_errors_simps [simp]:
  "no_errors []" "no_errors (d # ds) \<longleftrightarrow> dg_severity d \<noteq> ''error'' \<and> no_errors ds"
  "no_errors (ds @ es) \<longleftrightarrow> no_errors ds \<and> no_errors es"
  by (simp_all add: no_errors_def)

lemma no_errors_concat [simp]: "no_errors (concat (map f xs)) \<longleftrightarrow> (\<forall>x \<in> set xs. no_errors (f x))"
  by (induction xs) auto

lemma severity_simps [simp]:
  "dg_severity (diag_error code message span) = ''error''"
  "dg_severity (diag_warning code m span) = ''warning''"
  by (simp_all add: diag_error_def diag_warning_def)

text \<open>A \<open>BTreeMap\<close> that is iterated: its entries in the order of the keys.\<close>

fun btree_insert :: "'k::linorder \<Rightarrow> 'v \<Rightarrow> ('k \<times> 'v) list \<Rightarrow> ('k \<times> 'v) list" where
  "btree_insert k v [] = [(k, v)]"
| "btree_insert k v ((k', v') # m) =
     (if k = k' then (k, v) # m
      else if k < k' then (k, v) # (k', v') # m
      else (k', v') # btree_insert k v m)"

definition btree_collect :: "('k::linorder \<times> 'v) list \<Rightarrow> ('k \<times> 'v) list" where
  "btree_collect es = fold (\<lambda>(k, v). btree_insert k v) es []"

section \<open>The syntax tree\<close>

record ast_import =
  am_alias :: ustr
  am_path :: ustr
  am_span :: source_span

record ast_state_requirement =
  ar_name :: ustr
  ar_value_type :: ustr
  ar_nullable :: bool
  ar_span :: source_span

record ast_app_decl =
  aa_id :: ustr
  aa_name :: ustr
  aa_target :: "ustr option"
  aa_span :: source_span

record ast_state_block =
  ab_selected_default :: i64
  ab_store :: ustr
  ab_values :: "ir_state_value list"
  ab_span :: source_span

record ast_screen =
  as_name :: ustr
  as_render :: ustr
  as_statements :: "ir_statement list"
  as_exported :: bool
  as_span :: source_span

record ast_handler =
  ah_event :: ustr
  ah_param :: "ustr option"
  ah_preload :: bool
  ah_statements :: "ir_statement list"
  ah_span :: source_span

record ast_trigger_block =
  at_statements :: "ir_statement list"
  at_span :: source_span

record ast_function =
  af_name :: ustr
  af_params :: "ustr list"
  af_statements :: "ir_statement list"
  af_exported :: bool
  af_span :: source_span

record ast_root =
  ast_imports :: "ast_import list"
  ast_required_state :: "ast_state_requirement list"
  ast_app :: "ast_app_decl option"
  ast_state :: "ast_state_block option"
  ast_device_bindings :: "ir_device_binding list"
  ast_trigger_blocks :: "ast_trigger_block list"
  ast_functions :: "ast_function list"
  ast_handlers :: "ast_handler list"
  ast_screens :: "ast_screen list"

definition ast_default :: ast_root where
  "ast_default = \<lparr>ast_imports = [], ast_required_state = [], ast_app = None, ast_state = None,
     ast_device_bindings = [], ast_trigger_blocks = [], ast_functions = [], ast_handlers = [],
     ast_screens = []\<rparr>"

end
