(* ===== verification/Front_Semantic.thy ===== *)
theory Front_Semantic
  imports Front_Ast
begin

text \<open>
  The semantic checks (\<open>squidc-core/src/semantic.rs\<close>), each a function to the diagnostics it
  pushes, in order.  A \<open>BTreeSet\<close> that is only inserted into and searched is a set; the map
  of functions, which is iterated, is the list of its entries in the order of the keys.
\<close>

section \<open>Declarations\<close>

definition FALLIBLE_BUILTINS :: "string list" where
  "FALLIBLE_BUILTINS = [''file.pickFile'', ''file.readText'', ''file.readLines'', ''file.copy'',
     ''binbook.chapters'', ''binbook.chapter'', ''content.binbook.list'', ''service.wifi.connect'',
     ''service.wifi.disconnect'', ''service.wifi.scan'', ''service.wifi.operation'', ''service.wifi.result'',
     ''service.wifi.cancel'', ''service.wifi.scanNetwork'', ''service.wifi.startAP'', ''service.wifi.stopAP'',
     ''service.http.start'', ''service.http.stop'']"

definition is_fallible_builtin :: "ustr \<Rightarrow> bool" where
  "is_fallible_builtin name = (str_bytes name \<in> set (map lit FALLIBLE_BUILTINS))"

text \<open>
  The loops that insert every key into a set and push a diagnostic for a key that was there
  already: for each item that repeats an earlier key, its diagnostic.
\<close>

fun report_duplicates :: "('a \<Rightarrow> 'k) \<Rightarrow> ('a \<Rightarrow> diagnostic) \<Rightarrow> 'k set \<Rightarrow> 'a list \<Rightarrow> diagnostics" where
  "report_duplicates key report seen [] = []"
| "report_duplicates key report seen (x # xs) =
     (if key x \<in> seen then [report x] else []) @ report_duplicates key report (insert (key x) seen) xs"

definition validate_device_bindings :: "ast_root \<Rightarrow> diagnostics" where
  "validate_device_bindings ast =
     report_duplicates (\<lambda>b. (ib_service b, ib_binding b))
       (\<lambda>_. diag_error ''E_DUPLICATE_DEVICE_BINDING'' (lit ''device binding names must be unique per service'')
         \<lparr>span_start = 0, span_end = 0\<rparr>) {} (ast_device_bindings ast)"

definition validate_handler_events :: "ast_root \<Rightarrow> diagnostics" where
  "validate_handler_events ast =
     report_duplicates ah_event (\<lambda>h. diag_error ''E_DUPLICATE_HANDLER''
       (lit ''event handlers must be unique per event'') (ah_span h)) {} (ast_handlers ast)"

text \<open>The event of a timer statement.\<close>

fun trigger_event :: "ir_statement \<Rightarrow> ustr option" where
  "trigger_event (S_ServiceTimerEvery event _) = Some event"
| "trigger_event (S_ServiceTimerAfter event _) = Some event"
| "trigger_event _ = None"

fun validate_trigger_block_routes ::
  "ustr set \<Rightarrow> source_span \<Rightarrow> ustr set \<Rightarrow> ir_statement list \<Rightarrow> diagnostics \<times> ustr set" where
  "validate_trigger_block_routes handlers span seen [] = ([], seen)"
| "validate_trigger_block_routes handlers span seen (s # ss) =
     (case trigger_event s of
        None \<Rightarrow> validate_trigger_block_routes handlers span seen ss
      | Some event \<Rightarrow>
          let (ds, seen') = validate_trigger_block_routes handlers span (insert event seen) ss in
          ((if event \<in> seen then [diag_error ''E_DUPLICATE_TRIGGER_EVENT''
              (lit ''app.triggers may register each event only once'') span] else []) @
           (if event \<notin> handlers then [diag_error ''E_TRIGGER_HANDLER''
              (lit ''app.triggers event must have a matching event.on handler'') span] else []) @ ds, seen'))"

fun validate_trigger_blocks_routes ::
  "ustr set \<Rightarrow> ustr set \<Rightarrow> ast_trigger_block list \<Rightarrow> diagnostics" where
  "validate_trigger_blocks_routes handlers seen [] = []"
| "validate_trigger_blocks_routes handlers seen (b # bs) =
     (let (ds, seen') = validate_trigger_block_routes handlers (at_span b) seen (at_statements b) in
      ds @ validate_trigger_blocks_routes handlers seen' bs)"

definition validate_trigger_routes :: "ast_root \<Rightarrow> diagnostics" where
  "validate_trigger_routes ast =
     validate_trigger_blocks_routes (ah_event ` set (ast_handlers ast)) {} (ast_trigger_blocks ast)"

text \<open>BLE and HTTP profile ids share one set.\<close>

definition note_profile_id ::
  "string \<Rightarrow> string \<Rightarrow> source_span \<Rightarrow> ustr \<Rightarrow> diagnostics \<times> ustr set \<Rightarrow> diagnostics \<times> ustr set" where
  "note_profile_id code message span i acc = (case acc of (ds, ids) \<Rightarrow>
     (if i \<in> ids then ds @ [diag_error code (lit message) span] else ds, insert i ids))"

fun validate_profile_id ::
  "source_span \<Rightarrow> ir_statement \<Rightarrow> diagnostics \<times> ustr set \<Rightarrow> diagnostics \<times> ustr set" where
  "validate_profile_id span (S_ServiceBleStart _ i _ _) acc =
     note_profile_id ''E_DUPLICATE_BLE_PROFILE_ID'' ''BLE profile ids must be unique'' span i acc"
| "validate_profile_id span (S_ServiceHttpStart _ i _ _) acc =
     note_profile_id ''E_DUPLICATE_HTTP_PROFILE_ID'' ''HTTP profile ids must be unique'' span i acc"
| "validate_profile_id span (S_If _ ts es) acc =
     fold (validate_profile_id span) es (fold (validate_profile_id span) ts acc)"
| "validate_profile_id span (S_Repeat _ ss) acc = fold (validate_profile_id span) ss acc"
| "validate_profile_id span (S_For _ _ _ ss) acc = fold (validate_profile_id span) ss acc"
| "validate_profile_id span (S_DebugBlock ss) acc = fold (validate_profile_id span) ss acc"
| "validate_profile_id span _ acc = acc"

definition validate_ble_profile_ids :: "ast_root \<Rightarrow> diagnostics" where
  "validate_ble_profile_ids ast = fst
     (fold (\<lambda>b. fold (validate_profile_id (at_span b)) (at_statements b)) (ast_trigger_blocks ast)
     (fold (\<lambda>s. fold (validate_profile_id (as_span s)) (as_statements s)) (ast_screens ast)
     (fold (\<lambda>h. fold (validate_profile_id (ah_span h)) (ah_statements h)) (ast_handlers ast)
     (fold (\<lambda>f. fold (validate_profile_id (af_span f)) (af_statements f)) (ast_functions ast) ([], {})))))"

definition validate_duplicate_params :: "ast_function \<Rightarrow> diagnostics" where
  "validate_duplicate_params f =
     report_duplicates id (\<lambda>_. diag_error ''E_DUPLICATE_PARAM''
       (lit ''function parameter names must be unique'') (af_span f)) {} (af_params f)"

definition validate_state_builtin_shadowing :: "ast_root \<Rightarrow> diagnostics" where
  "validate_state_builtin_shadowing ast = (case ast_state ast of None \<Rightarrow> [] | Some state \<Rightarrow>
     concat (map (\<lambda>v. if str_bytes (sv_name v) \<in> {lit ''load'', lit ''save'', lit ''reset''}
       then [diag_warning ''W_STATE_BUILTIN_SHADOW''
         ''state field shares a name with a state service method; state.<field> reads the field and state.<field>() calls the service method''
         (ab_span state)] else []) (ab_values state)))"

definition validate_trigger_interval :: "source_span \<Rightarrow> ir_expr \<Rightarrow> diagnostics" where
  "validate_trigger_interval span e =
     (if (case e of E_Literal v \<Rightarrow> (case as_i64 v of Some n \<Rightarrow> 0 < sint n \<and> sint n \<le> 2147483647 | None \<Rightarrow> False)
          | _ \<Rightarrow> False)
      then [] else [diag_error ''E_APP_TRIGGER_STATEMENT''
        (lit ''app.triggers timer intervals must be positive integer literals'') span])"

definition not_a_timer :: "source_span \<Rightarrow> diagnostics" where
  "not_a_timer span = [diag_error ''E_APP_TRIGGER_STATEMENT''
     (lit ''app.triggers may only declare timer trigger registrations'') span]"

fun validate_trigger_statement :: "source_span \<Rightarrow> ir_statement \<Rightarrow> diagnostics" where
  "validate_trigger_statement span (S_ServiceTimerEvery _ e) = validate_trigger_interval span e"
| "validate_trigger_statement span (S_ServiceTimerAfter _ e) = validate_trigger_interval span e"
| "validate_trigger_statement span _ = not_a_timer span"

definition validate_trigger_statements :: "source_span \<Rightarrow> ir_statement list \<Rightarrow> diagnostics" where
  "validate_trigger_statements span ss = concat (map (validate_trigger_statement span) ss)"

section \<open>Service profiles\<close>

text \<open>The two profiles are checked alike, but for the profile's name.\<close>

definition profile_invalid ::
  "string \<Rightarrow> ustr \<Rightarrow> ustr \<Rightarrow> ustr list \<Rightarrow> (ustr \<times> ustr) list \<Rightarrow> bool" where
  "profile_invalid expected profile i accept events \<longleftrightarrow>
     str_bytes profile \<noteq> lit expected \<or> str_bytes i = [] \<or>
     accept = [] \<or> \<not> list_all (\<lambda>e. take 1 (str_bytes e) = lit ''.'') accept \<or>
     (case map_of events (Str (lit ''complete'')) of None \<Rightarrow> True | Some event \<Rightarrow> str_bytes event = []) \<or>
     list_ex (\<lambda>(_, event). str_bytes event = []) events"

definition validate_ble_start ::
  "ustr \<Rightarrow> ustr \<Rightarrow> ustr list \<Rightarrow> (ustr \<times> ustr) list \<Rightarrow> source_span \<Rightarrow> diagnostics" where
  "validate_ble_start profile i accept events span =
     (if profile_invalid ''file-transfer'' profile i accept events
      then [diag_error ''E_BLE_PROFILE''
        (lit ''service.ble.start requires profile file-transfer, a non-empty id, accepted extensions, and a complete event route'')
        span]
      else [])"

definition validate_http_start ::
  "ustr \<Rightarrow> ustr \<Rightarrow> ustr list \<Rightarrow> (ustr \<times> ustr) list \<Rightarrow> source_span \<Rightarrow> diagnostics" where
  "validate_http_start profile i accept events span =
     (if profile_invalid ''file-upload'' profile i accept events
      then [diag_error ''E_HTTP_PROFILE''
        (lit ''service.http.start requires profile file-upload, a non-empty id, accepted extensions, and a complete event route'')
        span]
      else [])"

section \<open>Names\<close>

definition undeclared_variable :: "ustr \<Rightarrow> ustr set \<Rightarrow> source_span \<Rightarrow> diagnostic" where
  "undeclared_variable name state_names span =
     diag_error ''E_UNDECLARED_VARIABLE''
       (if name \<in> state_names
        then lit ''undeclared local variable '' @ str_bytes name @
          lit ''; persistent state must be accessed as state.'' @ str_bytes name @ lit '' or @'' @ str_bytes name
        else lit ''undeclared local variable '' @ str_bytes name @
          lit ''; declare it with let before assignment or use'') span"

definition missing_state_field :: "ustr \<Rightarrow> source_span \<Rightarrow> diagnostic" where
  "missing_state_field name span = diag_error ''E_MISSING_STATE_FIELD''
     (lit ''state field '' @ str_bytes name @ lit '' is not declared in the state block'') span"

definition warn_if_state_shadow :: "ustr set \<Rightarrow> source_span \<Rightarrow> ustr \<Rightarrow> diagnostics" where
  "warn_if_state_shadow state_names span name =
     (if name \<in> state_names then [diag_warning ''W_STATE_SHADOW''
        ''local, parameter, or loop variable shadows a state field; use state.<field> or @field for persistent state''
        span] else [])"

definition validate_shadowing :: "ustr set \<Rightarrow> source_span \<Rightarrow> ustr list \<Rightarrow> diagnostics" where
  "validate_shadowing state_names span names = concat (map (warn_if_state_shadow state_names span) names)"

definition duplicate_local :: "string \<Rightarrow> source_span \<Rightarrow> bool \<Rightarrow> diagnostics" where
  "duplicate_local message span known =
     (if known then [diag_error ''E_DUPLICATE_LOCAL'' (lit message) span] else [])"

fun validate_expr_names :: "ustr set \<Rightarrow> ustr set \<Rightarrow> source_span \<Rightarrow> ir_expr \<Rightarrow> diagnostics" where
  "validate_expr_names states visible span (E_State name) =
     (if name \<in> states then [] else [missing_state_field name span])"
| "validate_expr_names states visible span (E_Variable name) =
     (if name \<in> visible then [] else [undeclared_variable name states span])"
| "validate_expr_names states visible span (E_Binary left _ right) =
     validate_expr_names states visible span left @ validate_expr_names states visible span right"
| "validate_expr_names states visible span (E_Unary _ e) = validate_expr_names states visible span e"
| "validate_expr_names states visible span (E_Field target _) = validate_expr_names states visible span target"
| "validate_expr_names states visible span (E_Call _ args) =
     concat (map (validate_expr_names states visible span) args)"
| "validate_expr_names states visible span _ = []"

text \<open>The expressions whose names are checked with a statement that declares nothing.\<close>

fun checked_exprs :: "ir_statement \<Rightarrow> ir_expr list" where
  "checked_exprs (S_Return e) = (case e of Some e \<Rightarrow> [e] | None \<Rightarrow> [])"
| "checked_exprs (S_Call _ args) = args"
| "checked_exprs (S_DebugPrint args) = args"
| "checked_exprs (S_ServiceTimerEvery _ e) = [e]"
| "checked_exprs (S_ServiceTimerAfter _ e) = [e]"
| "checked_exprs (S_AppLaunch app) = [app]"
| "checked_exprs (S_AppArm app) = [app]"
| "checked_exprs (S_AppDisarm app) = [app]"
| "checked_exprs (S_AppInstall file_ref _) = [file_ref]"
| "checked_exprs (S_ServicePowerSleep e) = [e]"
| "checked_exprs (S_HardwareGpioWrite _ v) = [v]"
| "checked_exprs (S_ServiceIndicatorWrite v) = [v]"
| "checked_exprs (S_ServiceIndicatorBlink on off) = [on, off]"
| "checked_exprs (S_DisplayText t _) = [t]"
| "checked_exprs (S_DisplayRect x y w h _) = [x, y, w, h]"
| "checked_exprs (S_DisplayDraw drawable _) = [drawable]"
| "checked_exprs _ = []"

text \<open>
  \<open>visible\<close> is changed by the statement and returned; the branches of a statement work on
  copies.
\<close>

fun validate_statement_name ::
  "ustr set \<Rightarrow> source_span \<Rightarrow> ustr set \<Rightarrow> ir_statement \<Rightarrow> diagnostics \<times> ustr set"
and validate_statement_names ::
  "ustr set \<Rightarrow> source_span \<Rightarrow> ustr set \<Rightarrow> ir_statement list \<Rightarrow> diagnostics \<times> ustr set" where
  "validate_statement_name states span visible (S_Let name e) =
     (validate_expr_names states visible span e @ warn_if_state_shadow states span name @
        duplicate_local ''local variable names must be unique in visible scope'' span (name \<in> visible),
      insert name visible)"
| "validate_statement_name states span visible (S_Assign name e) =
     (validate_expr_names states visible span e @
        (if name \<in> visible then [] else [undeclared_variable name states span]), visible)"
| "validate_statement_name states span visible (S_StateAssign name e) =
     (validate_expr_names states visible span e @
        (if name \<in> states then [] else [missing_state_field name span]), visible)"
| "validate_statement_name states span visible (S_If condition ts es) =
     (validate_expr_names states visible span condition @
        fst (validate_statement_names states span visible ts) @
        fst (validate_statement_names states span visible es), visible)"
| "validate_statement_name states span visible (S_Repeat count ss) =
     (validate_expr_names states visible span count @
        fst (validate_statement_names states span visible ss), visible)"
| "validate_statement_name states span visible (S_For item lst limit ss) =
     (validate_expr_names states visible span lst @
        (case limit of Some e \<Rightarrow> validate_expr_names states visible span e | None \<Rightarrow> []) @
        warn_if_state_shadow states span item @
        duplicate_local ''loop variable names must be unique in visible scope'' span (item \<in> visible) @
        fst (validate_statement_names states span (insert item visible) ss), visible)"
| "validate_statement_name states span visible (S_DebugBlock ss) =
     (fst (validate_statement_names states span visible ss), visible)"
| "validate_statement_name states span visible (S_ServiceBleStart profile i accept events) =
     (validate_ble_start profile i accept events span, visible)"
| "validate_statement_name states span visible (S_ServiceHttpStart profile i accept events) =
     (validate_http_start profile i accept events span, visible)"
| "validate_statement_name states span visible s =
     (concat (map (validate_expr_names states visible span) (checked_exprs s)), visible)"
| "validate_statement_names states span visible [] = ([], visible)"
| "validate_statement_names states span visible (s # ss) =
     (let (ds, visible) = validate_statement_name states span visible s;
          (es, visible) = validate_statement_names states span visible ss in (ds @ es, visible))"

definition validate_names :: "ast_root \<Rightarrow> ustr set \<Rightarrow> diagnostics" where
  "validate_names ast states =
     concat (map (\<lambda>h. fst (validate_statement_names states (ah_span h) (set_option (ah_param h))
       (ah_statements h))) (ast_handlers ast)) @
     concat (map (\<lambda>b. fst (validate_statement_names states (at_span b) {} (at_statements b)))
       (ast_trigger_blocks ast)) @
     concat (map (\<lambda>f. fst (validate_statement_names states (af_span f) (set (af_params f))
       (af_statements f))) (ast_functions ast)) @
     concat (map (\<lambda>s. fst (validate_statement_names states (as_span s) {} (as_statements s)))
       (ast_screens ast))"

section \<open>Debug blocks\<close>

definition debug_error :: "string \<Rightarrow> source_span \<Rightarrow> diagnostic" where
  "debug_error message span = diag_error ''E_DEBUG_BLOCK'' (lit message) span"

definition debug_call_error :: "ustr \<Rightarrow> source_span \<Rightarrow> diagnostic" where
  "debug_call_error name span = diag_error ''E_DEBUG_BLOCK''
     (lit ''debug blocks must not call user-defined function '' @ str_bytes name) span"

fun validate_debug_expr :: "source_span \<Rightarrow> ir_expr \<Rightarrow> diagnostics" where
  "validate_debug_expr span (E_Binary left _ right) =
     validate_debug_expr span left @ validate_debug_expr span right"
| "validate_debug_expr span (E_Unary _ e) = validate_debug_expr span e"
| "validate_debug_expr span (E_Field target _) = validate_debug_expr span target"
| "validate_debug_expr span (E_Call name args) =
     concat (map (validate_debug_expr span) args) @ [debug_call_error name span]"
| "validate_debug_expr span _ = []"

text \<open>The names a debug block declares, at any depth; inserted into \<open>debug_locals\<close>.\<close>

fun debug_local_names :: "ir_statement \<Rightarrow> ustr set" where
  "debug_local_names (S_Let name _) = {name}"
| "debug_local_names (S_If _ ts es) = \<Union> (set (map debug_local_names ts)) \<union> \<Union> (set (map debug_local_names es))"
| "debug_local_names (S_Repeat _ ss) = \<Union> (set (map debug_local_names ss))"
| "debug_local_names (S_For item _ _ ss) = insert item (\<Union> (set (map debug_local_names ss)))"
| "debug_local_names (S_DebugBlock ss) = \<Union> (set (map debug_local_names ss))"
| "debug_local_names _ = {}"

definition collect_debug_local_names :: "ir_statement list \<Rightarrow> ustr set" where
  "collect_debug_local_names ss = \<Union> (set (map debug_local_names ss))"

definition debug_assign_error :: "ustr set \<Rightarrow> ustr set \<Rightarrow> ustr \<Rightarrow> source_span \<Rightarrow> diagnostic" where
  "debug_assign_error states outer name span =
     debug_error
       (if name \<in> states then ''debug blocks must not assign to state''
        else if name \<in> outer then ''debug blocks must not assign to outer locals or parameters''
        else ''debug blocks may only assign to variables declared inside the same debug block'') span"

definition debug_content_error :: "source_span \<Rightarrow> diagnostic" where
  "debug_content_error span = debug_error
     ''debug blocks may only contain debug-local setup, read-only expressions, bounded control flow, and debug.print'' span"

fun validate_debug_block_statement ::
  "ustr set \<Rightarrow> ustr set \<Rightarrow> ustr set \<Rightarrow> source_span \<Rightarrow> ir_statement \<Rightarrow> diagnostics" where
  "validate_debug_block_statement states outer inner span (S_Let _ e) = validate_debug_expr span e"
| "validate_debug_block_statement states outer inner span (S_Assign name e) =
     validate_debug_expr span e @
     (if name \<in> inner then [] else [debug_assign_error states outer name span])"
| "validate_debug_block_statement states outer inner span (S_StateAssign _ e) =
     validate_debug_expr span e @ [debug_error ''debug blocks must not assign to state'' span]"
| "validate_debug_block_statement states outer inner span (S_DebugPrint args) =
     concat (map (validate_debug_expr span) args)"
| "validate_debug_block_statement states outer inner span (S_If condition ts es) =
     validate_debug_expr span condition @
     concat (map (validate_debug_block_statement states outer inner span) ts) @
     concat (map (validate_debug_block_statement states outer inner span) es)"
| "validate_debug_block_statement states outer inner span (S_Repeat count ss) =
     validate_debug_expr span count @
     concat (map (validate_debug_block_statement states outer inner span) ss)"
| "validate_debug_block_statement states outer inner span (S_For _ lst limit ss) =
     validate_debug_expr span lst @
     (case limit of Some e \<Rightarrow> validate_debug_expr span e | None \<Rightarrow> []) @
     concat (map (validate_debug_block_statement states outer inner span) ss)"
| "validate_debug_block_statement states outer inner span (S_Call name args) =
     concat (map (validate_debug_expr span) args) @ [debug_call_error name span]"
| "validate_debug_block_statement states outer inner span (S_DebugBlock ss) =
     concat (map (validate_debug_block_statement states outer inner span) ss)"
| "validate_debug_block_statement states outer inner span _ = [debug_content_error span]"

definition validate_debug_block_statements ::
  "ustr set \<Rightarrow> ustr set \<Rightarrow> ustr set \<Rightarrow> source_span \<Rightarrow> ir_statement list \<Rightarrow> diagnostics" where
  "validate_debug_block_statements states outer inner span ss =
     concat (map (validate_debug_block_statement states outer inner span) ss)"

fun expr_uses_any_name :: "ustr set \<Rightarrow> ir_expr \<Rightarrow> bool" where
  "expr_uses_any_name names (E_State name) = (name \<in> names)"
| "expr_uses_any_name names (E_Variable name) = (name \<in> names)"
| "expr_uses_any_name names (E_Binary left _ right) =
     (expr_uses_any_name names left \<or> expr_uses_any_name names right)"
| "expr_uses_any_name names (E_Unary _ e) = expr_uses_any_name names e"
| "expr_uses_any_name names (E_Field target _) = expr_uses_any_name names target"
| "expr_uses_any_name names (E_Call _ args) = list_ex (expr_uses_any_name names) args"
| "expr_uses_any_name names _ = False"

text \<open>The remaining statements use the names of the expressions \<open>checked_exprs\<close> lists.\<close>

fun statement_uses_any_name :: "ustr set \<Rightarrow> ir_statement \<Rightarrow> bool" where
  "statement_uses_any_name names (S_Assign name e) = (name \<in> names \<or> expr_uses_any_name names e)"
| "statement_uses_any_name names (S_StateAssign name e) = (name \<in> names \<or> expr_uses_any_name names e)"
| "statement_uses_any_name names (S_Let name e) = (name \<in> names \<or> expr_uses_any_name names e)"
| "statement_uses_any_name names (S_If condition ts es) =
     (expr_uses_any_name names condition \<or> list_ex (statement_uses_any_name names) ts \<or>
      list_ex (statement_uses_any_name names) es)"
| "statement_uses_any_name names (S_Repeat count ss) =
     (expr_uses_any_name names count \<or> list_ex (statement_uses_any_name names) ss)"
| "statement_uses_any_name names (S_For item lst limit ss) =
     (item \<in> names \<or> expr_uses_any_name names lst \<or>
      (case limit of Some e \<Rightarrow> expr_uses_any_name names e | None \<Rightarrow> False) \<or>
      list_ex (statement_uses_any_name names) ss)"
| "statement_uses_any_name names s = list_ex (expr_uses_any_name names) (checked_exprs s)"

text \<open>The second loop of \<open>validate_debug_blocks\<close>: the names of a block used after it.\<close>

definition debug_escape_error :: "source_span \<Rightarrow> diagnostic" where
  "debug_escape_error span = debug_error
     ''variables declared inside debug blocks are not visible after the block'' span"

fun validate_debug_escapes :: "source_span \<Rightarrow> ir_statement list \<Rightarrow> diagnostics" where
  "validate_debug_escapes span [] = []"
| "validate_debug_escapes span (s # rest) =
     (case s of
        S_DebugBlock ds \<Rightarrow>
          if list_ex (statement_uses_any_name (collect_debug_local_names ds)) rest
          then [debug_escape_error span] else []
      | _ \<Rightarrow> []) @ validate_debug_escapes span rest"

text \<open>The first loop, which carries the locals declared so far, and the whole check.\<close>

fun validate_debug_statement ::
  "ustr set \<Rightarrow> source_span \<Rightarrow> ustr set \<Rightarrow> ir_statement \<Rightarrow> diagnostics \<times> ustr set"
and validate_debug_loop ::
  "ustr set \<Rightarrow> source_span \<Rightarrow> ustr set \<Rightarrow> ir_statement list \<Rightarrow> diagnostics" where
  "validate_debug_statement states span visible (S_Let name _) = ([], insert name visible)"
| "validate_debug_statement states span visible (S_DebugBlock ss) =
     (validate_debug_block_statements states visible (collect_debug_local_names ss) span ss, visible)"
| "validate_debug_statement states span visible (S_If _ ts es) =
     (validate_debug_loop states span visible ts @ validate_debug_escapes span ts @
      validate_debug_loop states span visible es @ validate_debug_escapes span es, visible)"
| "validate_debug_statement states span visible (S_Repeat _ ss) =
     (validate_debug_loop states span visible ss @ validate_debug_escapes span ss, visible)"
| "validate_debug_statement states span visible (S_For _ _ _ ss) =
     (validate_debug_loop states span visible ss @ validate_debug_escapes span ss, visible)"
| "validate_debug_statement states span visible _ = ([], visible)"
| "validate_debug_loop states span visible [] = []"
| "validate_debug_loop states span visible (s # ss) =
     (let (ds, visible) = validate_debug_statement states span visible s in
      ds @ validate_debug_loop states span visible ss)"

definition validate_debug_blocks ::
  "ustr set \<Rightarrow> source_span \<Rightarrow> ustr list \<Rightarrow> ir_statement list \<Rightarrow> diagnostics" where
  "validate_debug_blocks states span locals ss =
     validate_debug_loop states span (set locals) ss @ validate_debug_escapes span ss"

section \<open>Purity of rendering\<close>

text \<open>The statements that act on the app, the device or the state, whatever their operands.\<close>

fun is_effect :: "ir_statement \<Rightarrow> bool" where
  "is_effect S_StateLoad = True"
| "is_effect S_StateSave = True"
| "is_effect S_StateReset = True"
| "is_effect (S_ScreenOpen _) = True"
| "is_effect S_ScreenRefresh = True"
| "is_effect S_AppExit = True"
| "is_effect (S_AppLaunch _) = True"
| "is_effect (S_AppArm _) = True"
| "is_effect (S_AppDisarm _) = True"
| "is_effect (S_AppInstall _ _) = True"
| "is_effect (S_ServiceTimerEvery _ _) = True"
| "is_effect (S_ServiceTimerAfter _ _) = True"
| "is_effect (S_ServiceBleStart _ _ _ _) = True"
| "is_effect S_ServiceBleStop = True"
| "is_effect (S_ServiceHttpStart _ _ _ _) = True"
| "is_effect S_ServiceHttpStop = True"
| "is_effect (S_ServicePowerSleep _) = True"
| "is_effect (S_HardwareGpioWrite _ _) = True"
| "is_effect (S_HardwareGpioToggle _) = True"
| "is_effect (S_ServiceIndicatorWrite _) = True"
| "is_effect S_ServiceIndicatorToggle = True"
| "is_effect S_ServiceIndicatorBreathe = True"
| "is_effect (S_ServiceIndicatorBlink _ _) = True"
| "is_effect (S_StateAssign _ _) = True"
| "is_effect _ = False"

fun statement_is_render_impure :: "ustr set \<Rightarrow> ir_statement \<Rightarrow> bool" where
  "statement_is_render_impure impure (S_Call name _) = (is_fallible_builtin name \<or> name \<in> impure)"
| "statement_is_render_impure impure (S_If _ ts es) =
     (list_ex (statement_is_render_impure impure) ts \<or> list_ex (statement_is_render_impure impure) es)"
| "statement_is_render_impure impure (S_Repeat _ ss) = list_ex (statement_is_render_impure impure) ss"
| "statement_is_render_impure impure (S_For _ _ _ ss) = list_ex (statement_is_render_impure impure) ss"
| "statement_is_render_impure impure (S_DebugBlock ss) = list_ex (statement_is_render_impure impure) ss"
| "statement_is_render_impure impure s = is_effect s"

definition statements_are_render_impure :: "ustr set \<Rightarrow> ir_statement list \<Rightarrow> bool" where
  "statements_are_render_impure impure ss = list_ex (statement_is_render_impure impure) ss"

text \<open>
  One pass over the functions, which uses what it has found so far, and the passes until one
  finds nothing.
\<close>

type_synonym function_map = "(ustr \<times> ir_statement list) list"

fun render_impure_pass :: "function_map \<Rightarrow> ustr set \<Rightarrow> ustr set" where
  "render_impure_pass [] impure = impure"
| "render_impure_pass ((name, ss) # fns) impure =
     render_impure_pass fns (if statements_are_render_impure impure ss then insert name impure else impure)"

lemma render_impure_pass_grows: "impure \<subseteq> render_impure_pass fns impure"
  by (induction fns impure rule: render_impure_pass.induct) (auto split: if_splits)

lemma render_impure_pass_names: "render_impure_pass fns impure \<subseteq> impure \<union> fst ` set fns"
  by (induction fns impure rule: render_impure_pass.induct) (auto split: if_splits)

function render_impure_loop :: "function_map \<Rightarrow> ustr set \<Rightarrow> ustr set" where
  "render_impure_loop fns impure =
     (let impure' = render_impure_pass fns impure in
      if card impure' = card impure then impure' else render_impure_loop fns impure')"
  by pat_completeness auto

termination
proof (relation "measure (\<lambda>(fns, impure). card (fst ` set fns - impure))", simp, clarsimp)
  fix fns :: function_map and impure :: "ustr set"
  let ?next = "render_impure_pass fns impure" and ?names = "fst ` set fns"
  assume "card ?next \<noteq> card impure"
  then have "?next \<noteq> impure" by auto
  with render_impure_pass_grows [of impure fns] obtain x where x: "x \<in> ?next" "x \<notin> impure" by blast
  with render_impure_pass_names [of fns impure] have "x \<in> ?names - impure" "x \<notin> ?names - ?next" by auto
  moreover have "?names - ?next \<subseteq> ?names - impure" using render_impure_pass_grows by blast
  ultimately show "card (?names - ?next) < card (?names - impure)"
    by (intro psubset_card_mono) auto
qed

definition collect_render_impure_functions :: "function_map \<Rightarrow> ustr set" where
  "collect_render_impure_functions fns = render_impure_loop fns {}"

definition render_purity_error :: "string \<Rightarrow> source_span \<Rightarrow> diagnostic" where
  "render_purity_error message span = diag_error ''E_RENDER_PURITY'' (lit message) span"

text \<open>
  The statements a screen's own body may not contain.  The list of the source is shorter than
  that of \<open>is_effect\<close>: it lacks \<open>state.reset\<close> and the BLE and HTTP services.
\<close>

fun screen_forbids :: "ir_statement \<Rightarrow> bool" where
  "screen_forbids S_StateLoad = True"
| "screen_forbids S_StateSave = True"
| "screen_forbids (S_ScreenOpen _) = True"
| "screen_forbids S_ScreenRefresh = True"
| "screen_forbids S_AppExit = True"
| "screen_forbids (S_AppLaunch _) = True"
| "screen_forbids (S_AppArm _) = True"
| "screen_forbids (S_AppDisarm _) = True"
| "screen_forbids (S_AppInstall _ _) = True"
| "screen_forbids (S_ServiceTimerEvery _ _) = True"
| "screen_forbids (S_ServiceTimerAfter _ _) = True"
| "screen_forbids (S_ServicePowerSleep _) = True"
| "screen_forbids (S_HardwareGpioWrite _ _) = True"
| "screen_forbids (S_HardwareGpioToggle _) = True"
| "screen_forbids (S_ServiceIndicatorWrite _) = True"
| "screen_forbids S_ServiceIndicatorToggle = True"
| "screen_forbids S_ServiceIndicatorBreathe = True"
| "screen_forbids (S_ServiceIndicatorBlink _ _) = True"
| "screen_forbids (S_StateAssign _ _) = True"
| "screen_forbids _ = False"

fun validate_screen_statement :: "ustr set \<Rightarrow> source_span \<Rightarrow> ir_statement \<Rightarrow> diagnostics" where
  "validate_screen_statement impure span (S_Call name _) =
     (if is_fallible_builtin name
      then [render_purity_error ''screen bodies must not call fallible platform APIs'' span]
      else if name \<in> impure
      then [render_purity_error ''screen bodies must not call functions that mutate state or app lifecycle'' span]
      else [])"
| "validate_screen_statement impure span (S_If _ ts es) =
     concat (map (validate_screen_statement impure span) ts) @
     concat (map (validate_screen_statement impure span) es)"
| "validate_screen_statement impure span (S_Repeat _ ss) = concat (map (validate_screen_statement impure span) ss)"
| "validate_screen_statement impure span (S_For _ _ _ ss) = concat (map (validate_screen_statement impure span) ss)"
| "validate_screen_statement impure span (S_DebugBlock ss) = concat (map (validate_screen_statement impure span) ss)"
| "validate_screen_statement impure span s =
     (if screen_forbids s
      then [render_purity_error ''screen bodies must not directly mutate state or app lifecycle'' span] else [])"

definition validate_screen_statements :: "ustr set \<Rightarrow> source_span \<Rightarrow> ir_statement list \<Rightarrow> diagnostics" where
  "validate_screen_statements impure span ss = concat (map (validate_screen_statement impure span) ss)"

section \<open>Results, displays and screens\<close>

definition ignored_result :: "source_span \<Rightarrow> diagnostic" where
  "ignored_result span = diag_warning ''W_IGNORED_RESULT'' ''fallible API result should be checked'' span"

fun ignored_fallible_results :: "source_span \<Rightarrow> ir_statement \<Rightarrow> diagnostics" where
  "ignored_fallible_results span (S_Call name _) = (if is_fallible_builtin name then [ignored_result span] else [])"
| "ignored_fallible_results span (S_If _ ts es) =
     concat (map (ignored_fallible_results span) ts) @ concat (map (ignored_fallible_results span) es)"
| "ignored_fallible_results span (S_Repeat _ ss) = concat (map (ignored_fallible_results span) ss)"
| "ignored_fallible_results span (S_For _ _ _ ss) = concat (map (ignored_fallible_results span) ss)"
| "ignored_fallible_results span (S_DebugBlock ss) = concat (map (ignored_fallible_results span) ss)"
| "ignored_fallible_results span _ = []"

definition validate_ignored_fallible_results :: "source_span \<Rightarrow> ir_statement list \<Rightarrow> diagnostics" where
  "validate_ignored_fallible_results span ss = concat (map (ignored_fallible_results span) ss)"

definition unknown_screen :: "source_span \<Rightarrow> diagnostic" where
  "unknown_screen span = diag_error ''E_UNKNOWN_SCREEN'' (lit ''screen.open references an unknown screen'') span"

fun screen_reference :: "ustr set \<Rightarrow> source_span \<Rightarrow> ir_statement \<Rightarrow> diagnostics" where
  "screen_reference screens span (S_ScreenOpen screen) = (if screen \<in> screens then [] else [unknown_screen span])"
| "screen_reference screens span (S_If _ ts es) =
     concat (map (screen_reference screens span) ts) @ concat (map (screen_reference screens span) es)"
| "screen_reference screens span (S_Repeat _ ss) = concat (map (screen_reference screens span) ss)"
| "screen_reference screens span (S_For _ _ _ ss) = concat (map (screen_reference screens span) ss)"
| "screen_reference screens span (S_DebugBlock ss) = concat (map (screen_reference screens span) ss)"
| "screen_reference screens span _ = []"

definition validate_screen_references :: "ustr set \<Rightarrow> source_span \<Rightarrow> ir_statement list \<Rightarrow> diagnostics" where
  "validate_screen_references screens span ss = concat (map (screen_reference screens span) ss)"

fun is_display :: "ir_statement \<Rightarrow> bool" where
  "is_display (S_DisplayClear _) = True"
| "is_display (S_DisplayText _ _) = True"
| "is_display (S_DisplayRect _ _ _ _ _) = True"
| "is_display (S_DisplayLine _ _ _ _ _) = True"
| "is_display (S_DisplaySelect _) = True"
| "is_display (S_DisplayRefreshMode _) = True"
| "is_display (S_DisplayImage _ _) = True"
| "is_display (S_DisplayDraw _ _) = True"
| "is_display _ = False"

definition display_outside_screen :: "source_span \<Rightarrow> diagnostic" where
  "display_outside_screen span = diag_error ''E_DISPLAY_OUTSIDE_SCREEN''
     (lit ''display calls are only valid while rendering a screen'') span"

text \<open>Every level of a handler's body also checks the screen references of the whole level.\<close>

fun handler_statement :: "ustr set \<Rightarrow> source_span \<Rightarrow> ir_statement \<Rightarrow> diagnostics" where
  "handler_statement screens span (S_If _ ts es) =
     concat (map (handler_statement screens span) ts) @ validate_screen_references screens span ts @
     concat (map (handler_statement screens span) es) @ validate_screen_references screens span es"
| "handler_statement screens span (S_Repeat _ ss) =
     concat (map (handler_statement screens span) ss) @ validate_screen_references screens span ss"
| "handler_statement screens span (S_For _ _ _ ss) =
     concat (map (handler_statement screens span) ss) @ validate_screen_references screens span ss"
| "handler_statement screens span (S_DebugBlock ss) =
     concat (map (handler_statement screens span) ss) @ validate_screen_references screens span ss"
| "handler_statement screens span s = (if is_display s then [display_outside_screen span] else [])"

definition validate_handler_statements :: "ustr set \<Rightarrow> source_span \<Rightarrow> ir_statement list \<Rightarrow> diagnostics" where
  "validate_handler_statements screens span ss =
     concat (map (handler_statement screens span) ss) @ validate_screen_references screens span ss"

section \<open>All checks\<close>

text \<open>The loop over the functions and the one over the screens, item by item.\<close>

fun validate_functions :: "ustr set \<Rightarrow> ustr set \<Rightarrow> ast_function list \<Rightarrow> diagnostics" where
  "validate_functions states seen [] = []"
| "validate_functions states seen (f # fs) =
     (if af_name f \<in> seen then [diag_error ''E_DUPLICATE_FUNCTION''
        (lit ''function names must be unique'') (af_span f)] else []) @
     validate_duplicate_params f @ validate_shadowing states (af_span f) (af_params f) @
     validate_functions states (insert (af_name f) seen) fs"

fun validate_screens :: "ustr set \<Rightarrow> ustr set \<Rightarrow> ustr set \<Rightarrow> ast_screen list \<Rightarrow> diagnostics" where
  "validate_screens states impure seen [] = []"
| "validate_screens states impure seen (s # ss) =
     (if as_name s \<in> seen then [diag_error ''E_DUPLICATE_SCREEN''
        (lit ''screen names must be unique'') (as_span s)] else []) @
     (if str_bytes (as_render s) \<noteq> lit ''compose'' \<and> str_bytes (as_render s) \<noteq> lit ''stream''
      then [diag_error ''E_RENDER_POLICY'' (lit ''screen render policy must be compose or stream'') (as_span s)]
      else []) @
     validate_screen_statements impure (as_span s) (as_statements s) @
     validate_ignored_fallible_results (as_span s) (as_statements s) @
     validate_debug_blocks states (as_span s) [] (as_statements s) @
     validate_screens states impure (insert (as_name s) seen) ss"

definition validate_handler :: "ustr set \<Rightarrow> ustr set \<Rightarrow> ast_handler \<Rightarrow> diagnostics" where
  "validate_handler states screens h =
     (if str_bytes (ah_event h) = lit ''app.arm''
      then [diag_error ''E_APP_ARM_HANDLER''
        (lit ''use app.triggers for trigger registration; event.on('' @ [34] @ lit ''app.arm'' @ [34] @ lit '') is not supported'')
        (ah_span h)]
      else []) @
     validate_ignored_fallible_results (ah_span h) (ah_statements h) @
     validate_handler_statements screens (ah_span h) (ah_statements h) @
     validate_debug_blocks states (ah_span h) (case ah_param h of Some p \<Rightarrow> [p] | None \<Rightarrow> []) (ah_statements h)"

definition validate_function_body :: "ustr set \<Rightarrow> ustr set \<Rightarrow> ast_function \<Rightarrow> diagnostics" where
  "validate_function_body states screens f =
     validate_ignored_fallible_results (af_span f) (af_statements f) @
     validate_screen_references screens (af_span f) (af_statements f) @
     validate_debug_blocks states (af_span f) (af_params f) (af_statements f)"

definition declared_states :: "ast_root \<Rightarrow> ustr set" where
  "declared_states ast = (case ast_state ast of None \<Rightarrow> {} | Some state \<Rightarrow> sv_name ` set (ab_values state))"

definition function_map_of :: "ast_root \<Rightarrow> function_map" where
  "function_map_of ast = btree_collect (map (\<lambda>f. (af_name f, af_statements f)) (ast_functions ast))"

text \<open>What \<open>validate_semantics\<close> pushes; the build profile is not used.\<close>

definition validate_semantics :: "ast_root \<Rightarrow> diagnostics" where
  "validate_semantics ast =
     (let states = declared_states ast;
          impure = collect_render_impure_functions (function_map_of ast);
          screens = as_name ` set (ast_screens ast) in
      validate_state_builtin_shadowing ast @
      validate_device_bindings ast @ validate_handler_events ast @ validate_trigger_routes ast @
      validate_ble_profile_ids ast @
      validate_functions states {} (ast_functions ast) @
      validate_screens states impure {} (ast_screens ast) @
      concat (map (validate_handler states screens) (ast_handlers ast)) @
      concat (map (\<lambda>b. validate_trigger_statements (at_span b) (at_statements b)) (ast_trigger_blocks ast)) @
      concat (map (validate_function_body states screens) (ast_functions ast)) @
      validate_names ast states)"

end
