(* ===== verification/Front_Lower.thy ===== *)
theory Front_Lower
  imports Front_Semantic
begin

text \<open>
  From a checked syntax tree to the program the code generator takes
  (\<open>compile_ast\<close> of \<open>squidc-core/src/compile.rs\<close>).
\<close>

section \<open>Lowering\<close>

definition PORTABLE_TARGET_ID :: ustr where
  "PORTABLE_TARGET_ID = Str (lit ''portable'')"

record compile_response =
  cr_ok :: bool
  cr_diagnostics :: diagnostics
  cr_ir :: "ir_program option"

definition literal_i32 :: "ir_expr \<Rightarrow> i32 option" where
  "literal_i32 e = (case e of
     E_Literal v \<Rightarrow> Option.bind (as_i64 v) (\<lambda>n.
       if - 2147483648 \<le> sint n \<and> sint n \<le> 2147483647 then Some (ucast n) else None)
   | _ \<Rightarrow> None)"

fun trigger_from_statement :: "ir_statement \<Rightarrow> ir_trigger option" where
  "trigger_from_statement (S_ServiceTimerEvery event e) =
     map_option (\<lambda>ms. \<lparr>it_event = event, it_repeating = True, it_interval_ms = ms\<rparr>) (literal_i32 e)"
| "trigger_from_statement (S_ServiceTimerAfter event e) =
     map_option (\<lambda>ms. \<lparr>it_event = event, it_repeating = False, it_interval_ms = ms\<rparr>) (literal_i32 e)"
| "trigger_from_statement _ = None"

definition lower_function :: "ast_function \<Rightarrow> ir_function" where
  "lower_function f = \<lparr>if_name = af_name f, if_params = af_params f, if_statements = af_statements f\<rparr>"

definition lower_handler :: "ast_handler \<Rightarrow> ir_handler" where
  "lower_handler h = \<lparr>ih_event = ah_event h, ih_param = ah_param h, ih_preload = ah_preload h,
     ih_statements = ah_statements h\<rparr>"

definition lower_screen :: "ast_screen \<Rightarrow> ir_screen" where
  "lower_screen s = \<lparr>is_name = as_name s, is_render = as_render s, is_statements = as_statements s\<rparr>"

definition lower_triggers :: "ast_trigger_block list \<Rightarrow> ir_trigger list" where
  "lower_triggers bs = List.map_filter trigger_from_statement (concat (map at_statements bs))"

definition lower_program :: "ast_root \<Rightarrow> ast_app_decl \<Rightarrow> ustr \<Rightarrow> ir_program" where
  "lower_program ast app target_id =
     \<lparr>ir_format = Str (lit ''squidscript-ir''),
      ir_app = \<lparr>ia_id = aa_id app, ia_name = aa_name app,
        ia_target = (case aa_target app of Some t \<Rightarrow> t | None \<Rightarrow> target_id)\<rparr>,
      ir_state_store = (case ast_state ast of Some state \<Rightarrow> ab_store state | None \<Rightarrow> Str (lit ''default'')),
      ir_device_bindings = ast_device_bindings ast,
      ir_state = (case ast_state ast of Some state \<Rightarrow> ab_values state | None \<Rightarrow> []),
      ir_functions = map lower_function (ast_functions ast),
      ir_triggers = lower_triggers (ast_trigger_blocks ast),
      ir_handlers = map lower_handler (ast_handlers ast),
      ir_screens = map lower_screen (ast_screens ast)\<rparr>"

text \<open>An app without screens gets an empty one.\<close>

definition with_main_screen :: "ast_root \<Rightarrow> ast_root" where
  "with_main_screen ast = (case ast_app ast of
       Some app \<Rightarrow> if ast_screens ast = []
         then ast\<lparr>ast_screens := [\<lparr>as_name = Str (lit ''main''), as_render = Str (lit ''compose''),
           as_statements = [], as_exported = False, as_span = aa_span app\<rparr>]\<rparr>
         else ast
     | None \<Rightarrow> ast)"

definition app_diagnostics :: "ast_root \<Rightarrow> ustr \<Rightarrow> nat \<Rightarrow> diagnostics" where
  "app_diagnostics ast target_id source_len =
     (let span = \<lparr>span_start = 0, span_end = min source_len 1\<rparr> in
      (if ast_app ast = None then [diag_error ''E_APP_REQUIRED'' (lit ''expected app declaration'') span] else []) @
      (case Option.bind (ast_app ast) aa_target of
         Some target \<Rightarrow> if target_id \<noteq> PORTABLE_TARGET_ID \<and> target \<noteq> target_id
           then [diag_error ''E_TARGET_MISMATCH''
             (lit ''source target does not match selected compatibility target'') span]
           else []
       | None \<Rightarrow> []))"

text \<open>The \<open>expect\<close> on the app panics if there is none.\<close>

definition compile_ast ::
  "ast_root \<Rightarrow> diagnostics \<Rightarrow> ustr \<Rightarrow> nat \<Rightarrow> build_profile \<Rightarrow> (rstr, compile_response) res" where
  "compile_ast ast diagnostics target_id source_len profile =
     (let ast' = with_main_screen ast;
          ds = diagnostics @ app_diagnostics ast target_id source_len @ validate_semantics ast' in
      if no_errors ds then
        (case ast_app ast' of
           None \<Rightarrow> Inl Panic
         | Some app \<Rightarrow> Inr \<lparr>cr_ok = True, cr_diagnostics = ds, cr_ir = Some (lower_program ast' app target_id)\<rparr>)
      else Inr \<lparr>cr_ok = False, cr_diagnostics = ds, cr_ir = None\<rparr>)"

end
