(* ===== verification/Front_Link.thy ===== *)
theory Front_Link
  imports Front_Lower "HOL-Library.Product_Lexorder"
begin

text \<open>
  Linking an app with the modules it imports (\<open>ModuleGraph\<close> of \<open>squidc-core/src/compile.rs\<close>):
  loading the graph of files, the checks across modules, the qualification of a module's
  declarations with its label, and the rewriting of references to them.

  Paths are an arbitrary type \<open>'p\<close>, and the file system and the parser are functions:
  \<open>canonicalize\<close>, \<open>read\<close>, \<open>starts_with\<close>, \<open>join\<close> and \<open>parse\<close> of the record \<open>module_env\<close>.
  The maps that are iterated are lists of entries in the order of their keys.
\<close>

section \<open>References\<close>

text \<open>\<open>split_once('.')\<close>; the two parts of valid UTF-8 around an ASCII byte are valid.\<close>

definition split_once_dot :: "ustr \<Rightarrow> (ustr \<times> ustr) option" where
  "split_once_dot s =
     (let bs = str_bytes s in
      if 46 \<in> set bs
      then Some (Str (takeWhile (\<lambda>b. b \<noteq> 46) bs), Str (tl (dropWhile (\<lambda>b. b \<noteq> 46) bs)))
      else None)"

definition qualified_name :: "ustr \<Rightarrow> ustr \<Rightarrow> ustr" where
  "qualified_name label name = Str (str_bytes label @ lit ''.'' @ str_bytes name)"

text \<open>What a module's references are resolved with.\<close>

record link_env =
  le_label :: ustr
  le_functions :: "ustr set"
  le_screens :: "ustr set"
  le_aliases :: "ustr set"
  le_exported_functions :: "(ustr \<times> ustr) \<Rightarrow> ustr option"
  le_exported_screens :: "(ustr \<times> ustr) \<Rightarrow> ustr option"

definition link_span :: source_span where
  "link_span = \<lparr>span_start = 0, span_end = 1\<rparr>"

definition rewrite_call_name :: "link_env \<Rightarrow> ustr \<Rightarrow> ustr \<times> diagnostics" where
  "rewrite_call_name env name =
     (case split_once_dot name of
        Some (alias, symbol) \<Rightarrow>
          if alias = le_label env \<and> symbol \<in> le_functions env then (name, [])
          else (case le_exported_functions env (alias, symbol) of
              Some canonical \<Rightarrow> (canonical, [])
            | None \<Rightarrow>
                (name, if alias \<in> le_aliases env then [diag_error ''E_UNKNOWN_MODULE_SYMBOL''
                   (lit ''call references an unknown exported module function '' @ [96] @ str_bytes name @ [96]) link_span]
                 else []))
      | None \<Rightarrow>
          (if str_bytes (le_label env) \<noteq> [] \<and> name \<in> le_functions env then qualified_name (le_label env) name else name, []))"

definition unknown_module_screen :: diagnostic where
  "unknown_module_screen = diag_error ''E_UNKNOWN_MODULE_SYMBOL''
     (lit ''screen.open references an unknown exported module screen'') link_span"

definition rewrite_screen_name :: "link_env \<Rightarrow> ustr \<Rightarrow> ustr \<times> diagnostics" where
  "rewrite_screen_name env screen =
     (case split_once_dot screen of
        Some (alias, name) \<Rightarrow>
          (case le_exported_screens env (alias, name) of
             Some canonical \<Rightarrow> (canonical, [])
           | None \<Rightarrow> (screen, [unknown_module_screen]))
      | None \<Rightarrow>
          if str_bytes (le_label env) \<noteq> [] \<and> screen \<in> le_screens env then (qualified_name (le_label env) screen, [])
          else if le_aliases env \<noteq> {} \<and> 46 \<in> set (str_bytes screen) then (screen, [unknown_module_screen])
          else (screen, []))"

fun rewrite_expr :: "link_env \<Rightarrow> ir_expr \<Rightarrow> ir_expr \<times> diagnostics" where
  "rewrite_expr env (E_Call name args) =
     (let (name, ds) = rewrite_call_name env name; rs = map (rewrite_expr env) args in
      (E_Call name (map fst rs), ds @ concat (map snd rs)))"
| "rewrite_expr env (E_Binary left operator right) =
     (let (left, ds) = rewrite_expr env left; (right, es) = rewrite_expr env right in
      (E_Binary left operator right, ds @ es))"
| "rewrite_expr env (E_Unary operator e) = (let (e, ds) = rewrite_expr env e in (E_Unary operator e, ds))"
| "rewrite_expr env (E_Field target field) =
     (let (target, ds) = rewrite_expr env target in (E_Field target field, ds))"
| "rewrite_expr env e = (e, [])"

definition rewrite_exprs :: "link_env \<Rightarrow> ir_expr list \<Rightarrow> ir_expr list \<times> diagnostics" where
  "rewrite_exprs env es = (let rs = map (rewrite_expr env) es in (map fst rs, concat (map snd rs)))"

text \<open>A list of statements: each rewritten in place, the diagnostics in order.\<close>

definition rewritten :: "('a \<times> diagnostics) list \<Rightarrow> 'a list \<times> diagnostics" where
  "rewritten rs = (map fst rs, concat (map snd rs))"

text \<open>
  The statements the source rewrites; app launches and installs, \<open>display.clear\<close> and
  \<open>display.rect\<close> are not among them although they hold expressions.
\<close>

fun rewrite_statement :: "link_env \<Rightarrow> ir_statement \<Rightarrow> ir_statement \<times> diagnostics" where
  "rewrite_statement env (S_ScreenOpen screen) =
     (let (screen, ds) = rewrite_screen_name env screen in (S_ScreenOpen screen, ds))"
| "rewrite_statement env (S_Call name args) =
     (let (name, ds) = rewrite_call_name env name; (args, es) = rewrite_exprs env args in (S_Call name args, ds @ es))"
| "rewrite_statement env (S_Let name e) = (let (e, ds) = rewrite_expr env e in (S_Let name e, ds))"
| "rewrite_statement env (S_Assign name e) = (let (e, ds) = rewrite_expr env e in (S_Assign name e, ds))"
| "rewrite_statement env (S_StateAssign name e) = (let (e, ds) = rewrite_expr env e in (S_StateAssign name e, ds))"
| "rewrite_statement env (S_ServiceTimerEvery event e) =
     (let (e, ds) = rewrite_expr env e in (S_ServiceTimerEvery event e, ds))"
| "rewrite_statement env (S_ServiceTimerAfter event e) =
     (let (e, ds) = rewrite_expr env e in (S_ServiceTimerAfter event e, ds))"
| "rewrite_statement env (S_ServicePowerSleep e) = (let (e, ds) = rewrite_expr env e in (S_ServicePowerSleep e, ds))"
| "rewrite_statement env (S_HardwareGpioWrite name e) =
     (let (e, ds) = rewrite_expr env e in (S_HardwareGpioWrite name e, ds))"
| "rewrite_statement env (S_ServiceIndicatorWrite e) =
     (let (e, ds) = rewrite_expr env e in (S_ServiceIndicatorWrite e, ds))"
| "rewrite_statement env (S_DisplayText e options) =
     (let (e, ds) = rewrite_expr env e in (S_DisplayText e options, ds))"
| "rewrite_statement env (S_DisplayDraw e options) =
     (let (e, ds) = rewrite_expr env e in (S_DisplayDraw e options, ds))"
| "rewrite_statement env (S_ServiceIndicatorBlink on off) =
     (let (on, ds) = rewrite_expr env on; (off, es) = rewrite_expr env off in
      (S_ServiceIndicatorBlink on off, ds @ es))"
| "rewrite_statement env (S_If condition ts es) =
     (let (condition, ds) = rewrite_expr env condition;
          (ts, ds1) = rewritten (map (rewrite_statement env) ts);
          (es, ds2) = rewritten (map (rewrite_statement env) es) in
      (S_If condition ts es, ds @ ds1 @ ds2))"
| "rewrite_statement env (S_Repeat count ss) =
     (let (count, ds) = rewrite_expr env count; (ss, ds1) = rewritten (map (rewrite_statement env) ss) in
      (S_Repeat count ss, ds @ ds1))"
| "rewrite_statement env (S_For item lst limit ss) =
     (let (lst, ds) = rewrite_expr env lst;
          (limit, ds1) = (case limit of Some e \<Rightarrow> let (e, es) = rewrite_expr env e in (Some e, es) | None \<Rightarrow> (None, []));
          (ss, ds2) = rewritten (map (rewrite_statement env) ss) in
      (S_For item lst limit ss, ds @ ds1 @ ds2))"
| "rewrite_statement env (S_Return (Some e)) = (let (e, ds) = rewrite_expr env e in (S_Return (Some e), ds))"
| "rewrite_statement env (S_DebugPrint args) = (let (args, ds) = rewrite_exprs env args in (S_DebugPrint args, ds))"
| "rewrite_statement env (S_DebugBlock ss) =
     (let (ss, ds) = rewritten (map (rewrite_statement env) ss) in (S_DebugBlock ss, ds))"
| "rewrite_statement env s = (s, [])"

definition rewrite_statements :: "link_env \<Rightarrow> ir_statement list \<Rightarrow> ir_statement list \<times> diagnostics" where
  "rewrite_statements env ss = rewritten (map (rewrite_statement env) ss)"

text \<open>All bodies of a file, in the order of the source: functions, handlers, triggers, screens.\<close>

definition rewrite_ast_references :: "link_env \<Rightarrow> ast_root \<Rightarrow> ast_root \<times> diagnostics" where
  "rewrite_ast_references env ast =
     (let (fs, d1) = rewritten (map (\<lambda>f. let (ss, ds) = rewrite_statements env (af_statements f) in
            (f\<lparr>af_statements := ss\<rparr>, ds)) (ast_functions ast));
          (hs, d2) = rewritten (map (\<lambda>h. let (ss, ds) = rewrite_statements env (ah_statements h) in
            (h\<lparr>ah_statements := ss\<rparr>, ds)) (ast_handlers ast));
          (ts, d3) = rewritten (map (\<lambda>t. let (ss, ds) = rewrite_statements env (at_statements t) in
            (t\<lparr>at_statements := ss\<rparr>, ds)) (ast_trigger_blocks ast));
          (cs, d4) = rewritten (map (\<lambda>c. let (ss, ds) = rewrite_statements env (as_statements c) in
            (c\<lparr>as_statements := ss\<rparr>, ds)) (ast_screens ast)) in
      (ast\<lparr>ast_functions := fs, ast_handlers := hs, ast_trigger_blocks := ts, ast_screens := cs\<rparr>,
       d1 @ d2 @ d3 @ d4))"

definition qualify_module_declarations :: "ustr \<Rightarrow> ast_root \<Rightarrow> ast_root" where
  "qualify_module_declarations label ast =
     ast\<lparr>ast_functions := map (\<lambda>f. f\<lparr>af_name := qualified_name label (af_name f)\<rparr>) (ast_functions ast),
         ast_screens := map (\<lambda>s. s\<lparr>as_name := qualified_name label (as_name s)\<rparr>) (ast_screens ast)\<rparr>"

section \<open>The module graph\<close>

record parsed_module =
  md_ast :: ast_root
  md_label :: ustr
  md_is_root :: bool

record 'p module_graph =
  mg_root :: 'p
  mg_app_dir :: 'p
  mg_modules :: "('p \<times> parsed_module) list"
  mg_import_targets :: "(('p \<times> ustr) \<times> 'p) list"
  mg_order :: "'p list"
  mg_diagnostics :: diagnostics
  mg_root_source_len :: nat

definition local_import_exports ::
  "'p \<Rightarrow> (('p \<times> ustr) \<times> 'p) list \<Rightarrow> ('p \<Rightarrow> (ustr \<times> ustr) list option) \<Rightarrow> (ustr \<times> ustr) \<Rightarrow> ustr option" where
  "local_import_exports source targets exports =
     fold (\<lambda>((importer, alias), target) m.
       if importer \<noteq> source then m
       else (case exports target of
           Some es \<Rightarrow> fold (\<lambda>(symbol, canonical) m. m((alias, symbol) \<mapsto> canonical)) es m
         | None \<Rightarrow> m)) targets (\<lambda>_. None)"

definition local_import_aliases :: "'p \<Rightarrow> (('p \<times> ustr) \<times> 'p) list \<Rightarrow> ustr set" where
  "local_import_aliases source targets = set (map (\<lambda>((_, alias), _). alias)
     (filter (\<lambda>((importer, _), _). importer = source) targets))"

definition imported_modules :: "('p \<times> parsed_module) list \<Rightarrow> parsed_module list" where
  "imported_modules modules = filter (\<lambda>m. \<not> md_is_root m) (map snd modules)"

definition validate_import_only_modules :: "('p \<times> parsed_module) list \<Rightarrow> diagnostics" where
  "validate_import_only_modules modules = concat (map (\<lambda>m. let ast = md_ast m in
     if ast_app ast \<noteq> None \<or> ast_state ast \<noteq> None \<or> ast_device_bindings ast \<noteq> [] \<or>
        ast_trigger_blocks ast \<noteq> [] \<or> ast_handlers ast \<noteq> []
     then [diag_error ''E_IMPORT_ONLY_DECL''
       (lit ''import-only files may declare imports, required state, functions, and screens only'') link_span]
     else []) (imported_modules modules))"

definition IMPORT_BUILTINS :: "string list" where
  "IMPORT_BUILTINS = [''app'', ''screen'', ''service'', ''device'', ''hardware'', ''state'', ''wifi'',
     ''display'', ''file'', ''debug'']"

fun validate_module_aliases :: "ast_root \<Rightarrow> ustr set \<Rightarrow> ast_import list \<Rightarrow> diagnostics" where
  "validate_module_aliases ast seen [] = []"
| "validate_module_aliases ast seen (i # rest) =
     (if am_alias i \<in> seen \<or> str_bytes (am_alias i) \<in> set (map lit IMPORT_BUILTINS) \<or>
         am_alias i \<in> af_name ` set (ast_functions ast) \<or> am_alias i \<in> as_name ` set (ast_screens ast)
      then [diag_error ''E_DUPLICATE_IMPORT_ALIAS''
        (lit ''import aliases must be unique in a source file and must not collide with local or built-in names'')
        (am_span i)]
      else []) @ validate_module_aliases ast (insert (am_alias i) seen) rest"

definition validate_import_aliases :: "('p \<times> parsed_module) list \<Rightarrow> diagnostics" where
  "validate_import_aliases modules =
     concat (map (\<lambda>(_, m). validate_module_aliases (md_ast m) {} (ast_imports (md_ast m))) modules)"

text \<open>The state fields of the app by name; a later field of the same name replaces an earlier.\<close>

definition state_by_name :: "ast_root \<Rightarrow> ustr \<Rightarrow> ir_state_value option" where
  "state_by_name root = (case ast_state root of None \<Rightarrow> (\<lambda>_. None)
     | Some state \<Rightarrow> map_of (rev (map (\<lambda>v. (sv_name v, v)) (ab_values state))))"

definition state_contract :: "ast_root \<Rightarrow> ast_state_requirement \<Rightarrow> diagnostics" where
  "state_contract root required =
     (case state_by_name root (ar_name required) of
        None \<Rightarrow> [diag_error ''E_STATE_CONTRACT''
          (lit ''imported module requires missing state field '' @ [96] @ str_bytes (ar_name required) @ [96]) (ar_span required)]
      | Some actual \<Rightarrow>
          if sv_value_type actual \<noteq> ar_value_type required \<or> sv_nullable actual \<noteq> ar_nullable required
          then [diag_error ''E_STATE_CONTRACT''
            (lit ''imported module state requirement '' @ [96] @ str_bytes (ar_name required) @ [96] @
             lit '' does not match app state'') (ar_span required)]
          else [])"

definition validate_state_contracts :: "ast_root \<Rightarrow> ('p \<times> parsed_module) list \<Rightarrow> diagnostics" where
  "validate_state_contracts root modules =
     concat (map (\<lambda>m. concat (map (state_contract root) (ast_required_state (md_ast m)))) (imported_modules modules))"

text \<open>The exported names of an imported module, qualified; none of the root.\<close>

definition function_exports :: "('p \<times> parsed_module) list \<Rightarrow> 'p \<Rightarrow> (ustr \<times> ustr) list option" where
  "function_exports modules path = (case map_of modules path of
       Some m \<Rightarrow> if md_is_root m then None
         else Some (map (\<lambda>f. (af_name f, qualified_name (md_label m) (af_name f)))
           (filter af_exported (ast_functions (md_ast m))))
     | None \<Rightarrow> None)"

definition screen_exports :: "('p \<times> parsed_module) list \<Rightarrow> 'p \<Rightarrow> (ustr \<times> ustr) list option" where
  "screen_exports modules path = (case map_of modules path of
       Some m \<Rightarrow> if md_is_root m then None
         else Some (map (\<lambda>s. (as_name s, qualified_name (md_label m) (as_name s)))
           (filter as_exported (ast_screens (md_ast m))))
     | None \<Rightarrow> None)"

text \<open>The names a file's references are resolved with; the label of the root is empty.\<close>

definition env_of :: "'p module_graph \<Rightarrow> 'p \<Rightarrow> ustr \<Rightarrow> ast_root \<Rightarrow> link_env" where
  "env_of g path label ast =
     \<lparr>le_label = label, le_functions = af_name ` set (ast_functions ast),
      le_screens = as_name ` set (ast_screens ast),
      le_aliases = local_import_aliases path (mg_import_targets g),
      le_exported_functions = local_import_exports path (mg_import_targets g) (function_exports (mg_modules g)),
      le_exported_screens = local_import_exports path (mg_import_targets g) (screen_exports (mg_modules g))\<rparr>"

fun link_modules :: "'p module_graph \<Rightarrow> 'p list \<Rightarrow> ast_root \<times> diagnostics \<Rightarrow> ast_root \<times> diagnostics" where
  "link_modules g [] acc = acc"
| "link_modules g (path # rest) acc =
     (case map_of (mg_modules g) path of
        None \<Rightarrow> link_modules g rest acc
      | Some m \<Rightarrow>
          if md_is_root m then link_modules g rest acc
          else
            let (linked, ds) = acc;
                (ast, es) = rewrite_ast_references (env_of g path (md_label m) (md_ast m))
                  (qualify_module_declarations (md_label m) (md_ast m)) in
            link_modules g rest
              (linked\<lparr>ast_functions := ast_functions linked @ ast_functions ast,
                 ast_screens := ast_screens linked @ ast_screens ast\<rparr>, ds @ es))"

text \<open>The index of the root's names panics when the root is not a module of the graph.\<close>

definition link :: "'p module_graph \<Rightarrow> (diagnostics, 'p module_graph \<times> ast_root) res" where
  "link g =
     (case map_of (mg_modules g) (mg_root g) of
        None \<Rightarrow> Inl Panic
      | Some root \<Rightarrow>
          let ast = md_ast root;
              ds = mg_diagnostics g @ validate_import_only_modules (mg_modules g) @
                validate_import_aliases (mg_modules g) @ validate_state_contracts ast (mg_modules g);
              (linked, es) = rewrite_ast_references (env_of g (mg_root g) (Str []) ast) ast;
              (linked, ds) = link_modules g (mg_order g) (linked, ds @ es) in
          if \<not> no_errors ds then Inl (Err ds)
          else Inr (g\<lparr>mg_diagnostics := ds\<rparr>, linked\<lparr>ast_imports := [], ast_required_state := []\<rparr>))"

section \<open>Loading the graph\<close>

text \<open>
  The file system and the parser.  An I/O error is its text; \<open>me_display\<close> is how a path is
  printed, \<open>me_inside\<close> is \<open>starts_with\<close> of the app directory, \<open>me_join\<close> appends to it.
\<close>

record 'p module_env =
  me_canonicalize :: "'p \<Rightarrow> rstr + 'p"
  me_read :: "'p \<Rightarrow> rstr + ustr"
  me_parent :: "'p \<Rightarrow> 'p option"
  me_inside :: "'p \<Rightarrow> 'p \<Rightarrow> bool"
  me_join :: "'p \<Rightarrow> ustr \<Rightarrow> 'p"
  me_display :: "'p \<Rightarrow> rstr"
  me_parse :: "ustr \<Rightarrow> ast_root \<times> diagnostics"

definition import_error :: "string \<Rightarrow> rstr \<Rightarrow> diagnostic" where
  "import_error code message = diag_error code message link_span"

definition io_result :: "'p module_env \<Rightarrow> 'p \<Rightarrow> rstr + 'a \<Rightarrow> (diagnostic, 'a) res" where
  "io_result env path r = (case r of
     Inr v \<Rightarrow> Inr v
   | Inl e \<Rightarrow> Inl (Err (import_error ''E_IMPORT_IO''
       (lit ''failed to read '' @ me_display env path @ lit '': '' @ e))))"

text \<open>An import path must be local: no \<open>..\<close>, no leading slash, no backslash, not empty.\<close>

definition import_path_ok :: "rstr \<Rightarrow> bool" where
  "import_path_ok path \<longleftrightarrow> str_find path (lit ''..'') = None \<and> take 1 path \<noteq> lit ''/'' \<and>
     92 \<notin> set path \<and> path \<noteq> []"

text \<open>
  \<open>load_module\<close> recurses along the imports; \<open>fuel\<close> bounds the depth (\<open>Panic\<close> beyond it, as a
  stack overflow aborts).  The file limit counts the modules whose imports are all loaded.
\<close>

fun load_module ::
  "nat \<Rightarrow> 'p::linorder module_env \<Rightarrow> 'p \<Rightarrow> ustr \<Rightarrow> bool \<Rightarrow> 'p list \<Rightarrow> (diagnostic, 'p module_graph, unit) exec"
and load_imports ::
  "nat \<Rightarrow> 'p module_env \<Rightarrow> 'p \<Rightarrow> 'p list \<Rightarrow> ast_import list \<Rightarrow> (diagnostic, 'p module_graph, unit) exec" where
  "load_module 0 env path label is_root stack = lift (Inl Panic)"
| "load_module (Suc fuel) env path label is_root stack =
     bind_exec (lift (io_result env path (me_canonicalize env path))) (\<lambda>canonical.
     bind_exec (gets (\<lambda>g. me_inside env canonical (mg_app_dir g))) (\<lambda>inside.
     if \<not> inside then throw (import_error ''E_IMPORT_PATH''
       (lit ''import escapes app directory: '' @ me_display env path)) else
     if canonical \<in> set stack then throw (import_error ''E_IMPORT_CYCLE''
       (lit ''import cycle at '' @ me_display env path)) else
     bind_exec (gets (\<lambda>g. canonical \<in> fst ` set (mg_modules g))) (\<lambda>loaded.
     if loaded then ret () else
     bind_exec (gets (\<lambda>g. length (mg_modules g))) (\<lambda>count.
     if count \<ge> 16 then throw (import_error ''E_IMPORT_LIMIT'' (lit ''import file limit exceeded'')) else
     bind_exec (lift (io_result env path (me_read env canonical))) (\<lambda>source.
     let (ast, ds) = me_parse env source in
     bind_exec (modify (\<lambda>g. g\<lparr>mg_diagnostics := mg_diagnostics g @ ds\<rparr>)) (\<lambda>_.
     bind_exec (load_imports fuel env canonical (stack @ [canonical]) (ast_imports ast)) (\<lambda>_.
     modify (\<lambda>g. g\<lparr>mg_order := mg_order g @ [canonical],
       mg_modules := btree_insert canonical \<lparr>md_ast = ast, md_label = label, md_is_root = is_root\<rparr>
         (mg_modules g)\<rparr>))))))))"
| "load_imports fuel env canonical stack [] = ret ()"
| "load_imports fuel env canonical stack (i # rest) =
     (if \<not> import_path_ok (str_bytes (am_path i))
      then bind_exec (modify (\<lambda>g. g\<lparr>mg_diagnostics := mg_diagnostics g @ [diag_error ''E_IMPORT_PATH''
          (lit ''import path must be a local path inside the app directory'') (am_span i)]\<rparr>)) (\<lambda>_.
        load_imports fuel env canonical stack rest)
      else
        bind_exec (gets (\<lambda>g. me_join env (mg_app_dir g) (am_path i))) (\<lambda>next.
        bind_exec (lift (io_result env next (me_canonicalize env next))) (\<lambda>target.
        bind_exec (modify (\<lambda>g. g\<lparr>mg_import_targets :=
          btree_insert (canonical, am_alias i) target (mg_import_targets g)\<rparr>)) (\<lambda>_.
        bind_exec (load_module fuel env next (am_alias i) False stack) (\<lambda>_.
          load_imports fuel env canonical stack rest)))))"

definition load_graph :: "nat \<Rightarrow> 'p::linorder module_env \<Rightarrow> 'p \<Rightarrow> (diagnostic, 'p module_graph) res" where
  "load_graph fuel env entry =
     and_then (io_result env entry (me_canonicalize env entry)) (\<lambda>root.
     and_then (ok_or (import_error ''E_IMPORT_PATH'' (lit ''app entry must have a parent directory'')) (me_parent env root))
       (\<lambda>app_dir.
     case load_module fuel env root (Str (lit ''root'')) True []
       \<lparr>mg_root = root, mg_app_dir = app_dir, mg_modules = [], mg_import_targets = [], mg_order = [],
        mg_diagnostics = [],
        mg_root_source_len = (case me_read env root of Inr source \<Rightarrow> length (str_bytes source) | Inl _ \<Rightarrow> 0)\<rparr> of
       (Inl e, _) \<Rightarrow> Inl e
     | (Inr _, g) \<Rightarrow> Inr g))"

section \<open>The compiler's entry points\<close>

definition failed_response :: "diagnostics \<Rightarrow> compile_response" where
  "failed_response ds = \<lparr>cr_ok = False, cr_diagnostics = ds, cr_ir = None\<rparr>"

definition compile_with_profile ::
  "(ustr \<Rightarrow> ast_root \<times> diagnostics) \<Rightarrow> ustr \<Rightarrow> ustr \<Rightarrow> build_profile \<Rightarrow> (rstr, compile_response) res" where
  "compile_with_profile parse source target_id profile =
     (let (ast, ds) = parse source; n = length (str_bytes source) in
      compile_ast ast
        (ds @ (if ast_imports ast \<noteq> [] then [diag_error ''E_IMPORT_RESOLVER''
           (lit ''imports require compiling from an app entry path'') \<lparr>span_start = 0, span_end = min n 1\<rparr>] else []))
        target_id n profile)"

text \<open>\<open>file_len\<close> is the size of the entry file, 0 if it is not known.\<close>

definition compile_path_with_profile ::
  "nat \<Rightarrow> 'p::linorder module_env \<Rightarrow> nat \<Rightarrow> 'p \<Rightarrow> ustr \<Rightarrow> build_profile \<Rightarrow> (rstr, compile_response) res" where
  "compile_path_with_profile fuel env file_len entry target_id profile =
     (case load_graph fuel env entry of
        Inl Panic \<Rightarrow> Inl Panic
      | Inl (Err d) \<Rightarrow> Inr (failed_response [d])
      | Inr g \<Rightarrow>
          (case link g of
             Inl Panic \<Rightarrow> Inl Panic
           | Inl (Err ds) \<Rightarrow> Inr (failed_response ds)
           | Inr (g', ast) \<Rightarrow> compile_ast ast (mg_diagnostics g') target_id (max (mg_root_source_len g) file_len) profile))"

end
