(* ===== verification/Front_Check.thy ===== *)
theory Front_Check
  imports Front_Link
begin

text \<open>
  What the checks of the front end establish: the functions found impure are exactly those
  that reach an effect through calls, a program that is lowered has distinct names, positive
  timers with handlers, and screens without the forbidden effects; and linking a file
  without imports changes nothing.
\<close>

section \<open>Reaching an effect\<close>

text \<open>A statement and all statements inside it.\<close>

fun substatements :: "ir_statement \<Rightarrow> ir_statement list" where
  "substatements (S_If c ts es) =
     S_If c ts es # concat (map substatements ts) @ concat (map substatements es)"
| "substatements (S_Repeat n ss) = S_Repeat n ss # concat (map substatements ss)"
| "substatements (S_For item lst limit ss) = S_For item lst limit ss # concat (map substatements ss)"
| "substatements (S_DebugBlock ss) = S_DebugBlock ss # concat (map substatements ss)"
| "substatements s = [s]"

definition within :: "ir_statement list \<Rightarrow> ir_statement set" where
  "within ss = set (concat (map substatements ss))"

text \<open>An effect of its own: an effect statement or a call of a fallible platform function.\<close>

definition acts :: "ir_statement \<Rightarrow> bool" where
  "acts s \<longleftrightarrow> is_effect s \<or> (case s of S_Call name _ \<Rightarrow> is_fallible_builtin name | _ \<Rightarrow> False)"

inductive reaches_effect :: "function_map \<Rightarrow> ustr \<Rightarrow> bool" for fns where
  direct: "(f, ss) \<in> set fns \<Longrightarrow> s \<in> within ss \<Longrightarrow> acts s \<Longrightarrow> reaches_effect fns f"
| called: "(f, ss) \<in> set fns \<Longrightarrow> S_Call g args \<in> within ss \<Longrightarrow> reaches_effect fns g \<Longrightarrow> reaches_effect fns f"

lemma within_simps [simp]: "within [] = {}" "within (s # ss) = set (substatements s) \<union> within ss"
  by (simp_all add: within_def)

lemma list_ex_within:
  "(\<And>s. s \<in> set ss \<Longrightarrow> P s \<longleftrightarrow> (\<exists>t \<in> set (substatements s). Q t)) \<Longrightarrow> list_ex P ss \<longleftrightarrow> (\<exists>t \<in> within ss. Q t)"
  by (induction ss) auto

lemma set_substatements:
  "set (substatements (S_If c ts es)) = insert (S_If c ts es) (within ts \<union> within es)"
  "set (substatements (S_Repeat n ss)) = insert (S_Repeat n ss) (within ss)"
  "set (substatements (S_For item lst limit ss)) = insert (S_For item lst limit ss) (within ss)"
  "set (substatements (S_DebugBlock ss)) = insert (S_DebugBlock ss) (within ss)"
  by (simp_all add: within_def)

text \<open>An effect, or a call of a function already known to have one.\<close>

definition impure_in :: "ustr set \<Rightarrow> ir_statement \<Rightarrow> bool" where
  "impure_in impure s \<longleftrightarrow> acts s \<or> (case s of S_Call name _ \<Rightarrow> name \<in> impure | _ \<Rightarrow> False)"

lemma impure_in_blocks [simp]:
  "\<not> impure_in impure (S_If c ts es)" "\<not> impure_in impure (S_Repeat n ss)"
  "\<not> impure_in impure (S_For item lst limit ss)" "\<not> impure_in impure (S_DebugBlock ss)"
  by (simp_all add: impure_in_def acts_def)

lemma impure_inD: "impure_in impure s \<Longrightarrow> acts s \<or> (\<exists>g args. s = S_Call g args \<and> g \<in> impure)"
  by (cases s) (auto simp: impure_in_def)

lemma statement_impure_iff:
  "statement_is_render_impure impure s \<longleftrightarrow> (\<exists>t \<in> set (substatements s). impure_in impure t)"
proof (induction impure s rule: statement_is_render_impure.induct)
  case (2 impure c ts es)
  note ts = list_ex_within [OF 2(1)] and es = list_ex_within [OF 2(2)]
  show ?case unfolding set_substatements by (simp add: ts es bex_Un)
next
  case (3 impure n ss)
  note ss = list_ex_within [OF 3]
  show ?case unfolding set_substatements by (simp add: ss)
next
  case (4 impure item lst limit ss)
  note ss = list_ex_within [OF 4]
  show ?case unfolding set_substatements by (simp add: ss)
next
  case (5 impure ss)
  note ss = list_ex_within [OF 5]
  show ?case unfolding set_substatements by (simp add: ss)
qed (simp_all add: impure_in_def acts_def)

lemma statements_impure_iff: "statements_are_render_impure impure ss \<longleftrightarrow> (\<exists>t \<in> within ss. impure_in impure t)"
  unfolding statements_are_render_impure_def by (rule list_ex_within) (rule statement_impure_iff)

text \<open>A pass finds nothing exactly at a fixpoint, and the passes end at one.\<close>

lemma render_impure_pass_fixed:
  assumes "render_impure_pass fns impure = impure" "(f, ss) \<in> set fns" "statements_are_render_impure impure ss"
  shows "f \<in> impure"
  using assms
proof (induction fns impure rule: render_impure_pass.induct)
  case (2 name ts fns impure)
  let ?next = "if statements_are_render_impure impure ts then insert name impure else impure"
  have "?next \<subseteq> impure" using render_impure_pass_grows [of ?next fns] 2(2) by simp
  then have same: "?next = impure" by auto
  show ?case
  proof (cases "(f, ss) = (name, ts)")
    case True
    with 2(4) same show ?thesis by (auto split: if_splits)
  next
    case False
    with 2(1) 2(2-4) same show ?thesis by auto
  qed
qed simp

lemma render_impure_pass_sound:
  assumes "set fns \<subseteq> set all" "\<forall>f \<in> impure. reaches_effect all f"
  shows "\<forall>f \<in> render_impure_pass fns impure. reaches_effect all f"
  using assms
proof (induction fns impure rule: render_impure_pass.induct)
  case (2 name ss fns impure)
  have "reaches_effect all name" if "statements_are_render_impure impure ss"
  proof -
    from that obtain t where t: "t \<in> within ss" "impure_in impure t" by (auto simp: statements_impure_iff)
    have member: "(name, ss) \<in> set all" using 2(2) by simp
    show ?thesis
    proof (cases "acts t")
      case True
      with member t(1) show ?thesis by (rule direct)
    next
      case False
      with impure_inD [OF t(2)] obtain g args where g: "t = S_Call g args" "g \<in> impure" by blast
      from g(2) have "reaches_effect all g" by (rule bspec [OF 2(3)])
      with member t(1) [unfolded g(1)] show ?thesis by (rule called)
    qed
  qed
  then show ?case
    unfolding render_impure_pass.simps using 2(2,3) by (intro 2(1)) (simp_all split: if_split)
qed simp

lemma render_impure_loop_props:
  assumes "finite impure" "\<forall>f \<in> impure. reaches_effect fns f"
  shows "(\<forall>f \<in> render_impure_loop fns impure. reaches_effect fns f) \<and>
    render_impure_pass fns (render_impure_loop fns impure) = render_impure_loop fns impure"
  using assms
proof (induction fns impure rule: render_impure_loop.induct)
  case (1 fns impure)
  let ?next = "render_impure_pass fns impure"
  have fin: "finite ?next" by (rule finite_subset [OF render_impure_pass_names]) (simp add: 1(2))
  have sound: "\<forall>f \<in> ?next. reaches_effect fns f" by (rule render_impure_pass_sound) (simp_all add: 1(3))
  show ?case
  proof (cases "card ?next = card impure")
    case True
    then have "impure = ?next" using card_subset_eq [OF fin render_impure_pass_grows] by simp
    with True sound show ?thesis by (subst (1 2 3) render_impure_loop.simps) (simp add: Let_def)
  next
    case False
    from 1(1) [OF refl False fin sound] False show ?thesis
      by (subst (1 2 3) render_impure_loop.simps) (simp add: Let_def)
  qed
qed

lemma render_impure_exact:
  "f \<in> collect_render_impure_functions fns \<longleftrightarrow> reaches_effect fns f"
proof -
  have props: "(\<forall>f \<in> collect_render_impure_functions fns. reaches_effect fns f) \<and>
      render_impure_pass fns (collect_render_impure_functions fns) = collect_render_impure_functions fns"
    unfolding collect_render_impure_functions_def by (rule render_impure_loop_props) simp_all
  note fixed = render_impure_pass_fixed [OF conjunct2 [OF props]]
  have "f \<in> collect_render_impure_functions fns" if "reaches_effect fns f"
    using that
  proof induction
    case (direct f ss s)
    have "statements_are_render_impure (collect_render_impure_functions fns) ss"
      using direct(2,3) unfolding statements_impure_iff impure_in_def by blast
    with direct(1) show ?case by (rule fixed)
  next
    case (called f ss g args)
    have "impure_in (collect_render_impure_functions fns) (S_Call g args)"
      using called(4) by (simp add: impure_in_def)
    with called(2) have "statements_are_render_impure (collect_render_impure_functions fns) ss"
      unfolding statements_impure_iff by blast
    with called(1) show ?case by (rule fixed)
  qed
  with props show ?thesis by blast
qed

section \<open>Accepted programs\<close>

lemma report_duplicates_none:
  assumes "\<And>x. dg_severity (report x) = ''error''"
  shows "no_errors (report_duplicates key report seen xs) \<longleftrightarrow> distinct (map key xs) \<and> seen \<inter> key ` set xs = {}"
  by (induction xs arbitrary: seen) (auto simp: assms)

lemma validate_functions_distinct:
  "no_errors (validate_functions states seen fs) \<Longrightarrow> distinct (map af_name fs) \<and> seen \<inter> af_name ` set fs = {}"
  by (induction states seen fs rule: validate_functions.induct) (auto split: if_splits)

lemma validate_screens_distinct:
  "no_errors (validate_screens states impure seen ss) \<Longrightarrow>
     distinct (map as_name ss) \<and> seen \<inter> as_name ` set ss = {} \<and>
     (\<forall>s \<in> set ss. no_errors (validate_screen_statements impure (as_span s) (as_statements s)))"
  by (induction states impure seen ss rule: validate_screens.induct) (auto split: if_splits)

abbreviation trigger_events :: "ir_statement list \<Rightarrow> ustr list" where
  "trigger_events ss \<equiv> List.map_filter trigger_event ss"

lemma map_filter_append: "List.map_filter f (xs @ ys) = List.map_filter f xs @ List.map_filter f ys"
  by (simp add: List.map_filter_def)

lemma map_filter_Cons: "List.map_filter f (x # xs) = (case f x of None \<Rightarrow> List.map_filter f xs | Some y \<Rightarrow> y # List.map_filter f xs)"
  by (simp add: List.map_filter_def split: option.split)

lemma trigger_block_routes:
  "validate_trigger_block_routes handlers span seen ss = (ds, seen') \<Longrightarrow>
     seen' = seen \<union> set (trigger_events ss) \<and>
     (no_errors ds \<longrightarrow> distinct (trigger_events ss) \<and> seen \<inter> set (trigger_events ss) = {} \<and>
        set (trigger_events ss) \<subseteq> handlers)"
proof (induction handlers span seen ss arbitrary: ds seen' rule: validate_trigger_block_routes.induct)
  case (1 handlers span seen)
  then show ?case by (simp add: List.map_filter_def)
next
  case (2 handlers span seen s ss)
  show ?case
  proof (cases "trigger_event s")
    case None
    with 2(1) [OF None] 2(3) show ?thesis by (simp add: map_filter_Cons)
  next
    case (Some event)
    obtain es seen'' where rest: "validate_trigger_block_routes handlers span (insert event seen) ss = (es, seen'')"
      by (cases "validate_trigger_block_routes handlers span (insert event seen) ss")
    from 2(2) [OF Some rest] 2(3) Some rest show ?thesis
      by (auto simp: map_filter_Cons split: if_splits)
  qed
qed

lemma trigger_blocks_routes:
  "no_errors (validate_trigger_blocks_routes handlers seen bs) \<Longrightarrow>
     distinct (trigger_events (concat (map at_statements bs))) \<and>
     seen \<inter> set (trigger_events (concat (map at_statements bs))) = {} \<and>
     set (trigger_events (concat (map at_statements bs))) \<subseteq> handlers"
proof (induction handlers seen bs rule: validate_trigger_blocks_routes.induct)
  case (1 handlers seen)
  then show ?case by (simp add: List.map_filter_def)
next
  case (2 handlers seen b bs)
  obtain ds seen' where b: "validate_trigger_block_routes handlers (at_span b) seen (at_statements b) = (ds, seen')"
    by (cases "validate_trigger_block_routes handlers (at_span b) seen (at_statements b)")
  from 2(2) b have "no_errors ds" "no_errors (validate_trigger_blocks_routes handlers seen' bs)" by simp_all
  with 2(1) [OF refl b [symmetric]] trigger_block_routes [OF b] show ?case
    by (auto simp: map_filter_append)
qed

text \<open>A trigger statement that passes the checks becomes a timer with its event.\<close>

lemma sint_ucast_i32:
  assumes "0 < sint (n :: i64)" "sint n \<le> 2147483647"
  shows "sint (ucast n :: i32) = sint n"
proof -
  have "sint (ucast n :: i32) = signed_take_bit 31 (sint n)"
    by (simp add: sint_uint unsigned_ucast_eq) (simp add: signed_take_bit_take_bit flip: take_bit_eq_mod)
  also have "\<dots> = sint n" using assms by (intro signed_take_bit_int_eq_self) simp_all
  finally show ?thesis .
qed

lemma trigger_statement_lowered:
  assumes "no_errors (validate_trigger_statement span s)"
  obtains t where "trigger_from_statement s = Some t" "trigger_event s = Some (it_event t)" "0 < sint (it_interval_ms t)"
proof -
  have interval: "\<exists>ms. literal_i32 e = Some ms \<and> 0 < sint ms" if "no_errors (validate_trigger_interval span e)" for e
    using that
    by (auto simp: validate_trigger_interval_def literal_i32_def sint_ucast_i32 split: ir_expr.splits option.splits if_splits)
  show thesis
    using assms interval that by (cases s) (fastforce simp: not_a_timer_def)+
qed

lemma triggers_lowered:
  assumes "\<forall>s \<in> set ss. no_errors (validate_trigger_statement span s)"
  shows "map it_event (List.map_filter trigger_from_statement ss) = trigger_events ss \<and>
    list_all (\<lambda>t. 0 < sint (it_interval_ms t)) (List.map_filter trigger_from_statement ss)"
  using assms
proof (induction ss)
  case (Cons s ss)
  from Cons.prems obtain t where "trigger_from_statement s = Some t" "trigger_event s = Some (it_event t)"
    "0 < sint (it_interval_ms t)" by (auto elim: trigger_statement_lowered)
  with Cons show ?case by (simp add: map_filter_Cons)
qed (simp add: List.map_filter_def)


text \<open>Handlers, and the function map when the names are distinct.\<close>

lemma handler_events_distinct: "no_errors (validate_handler_events ast) \<Longrightarrow> distinct (map ah_event (ast_handlers ast))"
  by (simp add: validate_handler_events_def report_duplicates_none)

lemma set_btree_insert: "k \<notin> fst ` set m \<Longrightarrow> set (btree_insert k v m) = insert (k, v) (set m)"
  by (induction k v m rule: btree_insert.induct) auto

lemma set_fold_btree_insert:
  "distinct (map fst es) \<Longrightarrow> fst ` set es \<inter> fst ` set m = {} \<Longrightarrow>
     set (fold (\<lambda>(k, v). btree_insert k v) es m) = set es \<union> set m"
  by (induction es arbitrary: m) (auto simp: set_btree_insert)

lemma set_btree_collect: "distinct (map fst es) \<Longrightarrow> set (btree_collect es) = set es"
  by (simp add: btree_collect_def set_fold_btree_insert)

lemma reaches_effect_mono: "reaches_effect fns f \<Longrightarrow> set fns \<subseteq> set fns' \<Longrightarrow> reaches_effect fns' f"
  by (induction rule: reaches_effect.induct) (blast intro: reaches_effect.intros)+

lemma reaches_effect_set: "set fns = set fns' \<Longrightarrow> reaches_effect fns = reaches_effect fns'"
  by (auto intro: reaches_effect_mono)

text \<open>A screen body that passes the purity check.\<close>

definition render_pure :: "function_map \<Rightarrow> ir_statement \<Rightarrow> bool" where
  "render_pure fns s \<longleftrightarrow> \<not> screen_forbids s \<and>
     (\<forall>g args. s = S_Call g args \<longrightarrow> \<not> is_fallible_builtin g \<and> \<not> reaches_effect fns g)"

lemma screen_statement_pure:
  assumes "\<forall>g. g \<in> impure \<longleftrightarrow> reaches_effect fns g"
  shows "no_errors (validate_screen_statement impure span s) \<longleftrightarrow> (\<forall>t \<in> set (substatements s). render_pure fns t)"
  using assms
proof (induction impure span s rule: validate_screen_statement.induct)
  case (1 impure span name args)
  then show ?case by (auto simp: render_pure_def render_purity_error_def)
qed (simp_all add: set_substatements render_pure_def render_purity_error_def within_def ball_Un)


text \<open>What an accepted program is: the lowering of a tree without errors.\<close>

lemma compile_ast_accepted:
  assumes "compile_ast ast ds target n profile = Inr r" "cr_ir r = Some ir"
  obtains tree app where "ir = lower_program tree app target" "ast_screens tree \<noteq> []"
    "no_errors (validate_semantics tree)"
proof (rule that [of "with_main_screen ast" "the (ast_app (with_main_screen ast))"])
  let ?tree = "with_main_screen ast"
  let ?ds = "ds @ app_diagnostics ast target n @ validate_semantics ?tree"
  from assms have ok: "no_errors ?ds"
    by (auto simp: compile_ast_def Let_def split: if_splits)
  with assms obtain app where app: "ast_app ?tree = Some app" "ir = lower_program ?tree app target"
    by (auto simp: compile_ast_def Let_def split: option.splits)
  then show "ir = lower_program ?tree (the (ast_app ?tree)) target" by simp
  from ok show "no_errors (validate_semantics ?tree)" by simp
  from app(1) show "ast_screens ?tree \<noteq> []"
    by (auto simp: with_main_screen_def split: option.splits if_splits)
qed

lemma lower_program_names:
  "map if_name (ir_functions (lower_program tree app target)) = map af_name (ast_functions tree)"
  "map ih_event (ir_handlers (lower_program tree app target)) = map ah_event (ast_handlers tree)"
  "map is_name (ir_screens (lower_program tree app target)) = map as_name (ast_screens tree)"
  "ir_triggers (lower_program tree app target) = lower_triggers (ast_trigger_blocks tree)"
  by (simp_all add: lower_program_def lower_function_def lower_handler_def lower_screen_def comp_def)

lemma accepted_triggers:
  assumes "no_errors (validate_semantics tree)"
  shows "distinct (map it_event (lower_triggers (ast_trigger_blocks tree)))"
    "it_event ` set (lower_triggers (ast_trigger_blocks tree)) \<subseteq> ah_event ` set (ast_handlers tree)"
    "list_all (\<lambda>t. 0 < sint (it_interval_ms t)) (lower_triggers (ast_trigger_blocks tree))"
proof -
  let ?ss = "concat (map at_statements (ast_trigger_blocks tree))"
  from assms have routes: "no_errors (validate_trigger_blocks_routes (ah_event ` set (ast_handlers tree)) {} (ast_trigger_blocks tree))"
    by (simp add: validate_semantics_def Let_def validate_trigger_routes_def)
  from assms have "\<forall>b \<in> set (ast_trigger_blocks tree). \<forall>s \<in> set (at_statements b).
      no_errors (validate_trigger_statement (at_span b) s)"
    by (simp add: validate_semantics_def Let_def validate_trigger_statements_def)
  then have timers: "map it_event (lower_triggers (ast_trigger_blocks tree)) = trigger_events ?ss \<and>
      list_all (\<lambda>t. 0 < sint (it_interval_ms t)) (lower_triggers (ast_trigger_blocks tree))"
    unfolding lower_triggers_def
  proof (induction "ast_trigger_blocks tree" arbitrary: tree)
    case Nil
    then show ?case by (simp add: List.map_filter_def)
  next
    case (Cons b bs)
    from Cons(1) [of "tree\<lparr>ast_trigger_blocks := bs\<rparr>"] Cons(3)
    have "map it_event (List.map_filter trigger_from_statement (concat (map at_statements bs))) =
        trigger_events (concat (map at_statements bs)) \<and>
        list_all (\<lambda>t. 0 < sint (it_interval_ms t)) (List.map_filter trigger_from_statement (concat (map at_statements bs)))"
      by (simp flip: Cons(2))
    moreover from Cons(3) have "\<forall>s \<in> set (at_statements b). no_errors (validate_trigger_statement (at_span b) s)"
      by (simp flip: Cons(2))
    from triggers_lowered [OF this] have "map it_event (List.map_filter trigger_from_statement (at_statements b)) =
        trigger_events (at_statements b) \<and>
        list_all (\<lambda>t. 0 < sint (it_interval_ms t)) (List.map_filter trigger_from_statement (at_statements b))" .
    ultimately show ?case by (simp add: map_filter_append flip: Cons(2))
  qed
  note routes = trigger_blocks_routes [OF routes]
  from timers routes show "distinct (map it_event (lower_triggers (ast_trigger_blocks tree)))" by simp
  from timers have "it_event ` set (lower_triggers (ast_trigger_blocks tree)) = set (trigger_events ?ss)"
    by (metis list.set_map)
  with routes show "it_event ` set (lower_triggers (ast_trigger_blocks tree)) \<subseteq> ah_event ` set (ast_handlers tree)"
    by simp
  from timers show "list_all (\<lambda>t. 0 < sint (it_interval_ms t)) (lower_triggers (ast_trigger_blocks tree))" by simp
qed

definition well_formed_program :: "ir_program \<Rightarrow> bool" where
  "well_formed_program ir \<longleftrightarrow>
     distinct (map if_name (ir_functions ir)) \<and> distinct (map ih_event (ir_handlers ir)) \<and>
     distinct (map is_name (ir_screens ir)) \<and> ir_screens ir \<noteq> [] \<and>
     distinct (map it_event (ir_triggers ir)) \<and>
     it_event ` set (ir_triggers ir) \<subseteq> ih_event ` set (ir_handlers ir) \<and>
     list_all (\<lambda>t. 0 < sint (it_interval_ms t)) (ir_triggers ir)"

lemma accepted_well_formed:
  assumes "compile_ast ast ds target n profile = Inr r" "cr_ir r = Some ir"
  shows "well_formed_program ir"
proof -
  obtain tree app where tree: "ir = lower_program tree app target" "ast_screens tree \<noteq> []"
    "no_errors (validate_semantics tree)" by (rule compile_ast_accepted [OF assms])
  from tree(3) have "distinct (map af_name (ast_functions tree))"
    by (auto simp: validate_semantics_def Let_def dest: validate_functions_distinct)
  moreover from tree(3) have "distinct (map ah_event (ast_handlers tree))"
    by (auto simp: validate_semantics_def Let_def dest: handler_events_distinct)
  moreover from tree(3) have "distinct (map as_name (ast_screens tree))"
    by (auto simp: validate_semantics_def Let_def dest: validate_screens_distinct)
  moreover from tree(2) have "ir_screens ir \<noteq> []" by (simp add: tree(1) lower_program_def)
  moreover have "ih_event ` set (ir_handlers ir) = ah_event ` set (ast_handlers tree)"
    by (metis lower_program_names(2) list.set_map tree(1))
  ultimately show ?thesis
    using accepted_triggers [OF tree(3)] by (simp add: well_formed_program_def tree(1) lower_program_names)
qed

definition function_bodies :: "ir_program \<Rightarrow> function_map" where
  "function_bodies ir = map (\<lambda>f. (if_name f, if_statements f)) (ir_functions ir)"

lemma accepted_screens:
  assumes "compile_ast ast ds target n profile = Inr r" "cr_ir r = Some ir" "s \<in> set (ir_screens ir)"
  shows "\<forall>t \<in> within (is_statements s). render_pure (function_bodies ir) t"
proof -
  obtain tree app where tree: "ir = lower_program tree app target" "ast_screens tree \<noteq> []"
    "no_errors (validate_semantics tree)" by (rule compile_ast_accepted [OF assms(1,2)])
  let ?impure = "collect_render_impure_functions (function_map_of tree)"
  from tree(3) have "distinct (map af_name (ast_functions tree))"
    by (auto simp: validate_semantics_def Let_def dest: validate_functions_distinct)
  then have "set (function_map_of tree) = set (function_bodies ir)"
    by (simp add: function_map_of_def set_btree_collect function_bodies_def tree(1) lower_program_def
        lower_function_def comp_def)
  then have impure: "\<forall>g. g \<in> ?impure \<longleftrightarrow> reaches_effect (function_bodies ir) g"
    using render_impure_exact reaches_effect_set by metis
  from tree(3) have "\<forall>c \<in> set (ast_screens tree). no_errors (validate_screen_statements ?impure (as_span c) (as_statements c))"
    by (auto simp: validate_semantics_def Let_def dest: validate_screens_distinct)
  with assms(3) obtain span where "no_errors (validate_screen_statements ?impure span (is_statements s))"
    by (auto simp: tree(1) lower_program_def lower_screen_def)
  then show ?thesis
    by (auto simp: validate_screen_statements_def within_def screen_statement_pure [OF impure])
qed

end
