(* ===== verification/Sqbc_Codes.thy ===== *)
theory Sqbc_Codes
  imports Sq_Limits
begin

text \<open>
  The numbering the compiler writes (\<open>squidc-core/src/sqbc.rs\<close>): section kinds, opcodes,
  builtins, value and type tags.  It is declared apart from the VM's own numbering in
  \<open>Vm_Model\<close>, as the two crates declare it apart: that a compiled program loads and runs
  shows that they agree.
\<close>

abbreviation (input) SQBC_HEADER_LEN :: nat where "SQBC_HEADER_LEN \<equiv> 14"
abbreviation (input) SECTION_STRINGS :: u16 where "SECTION_STRINGS \<equiv> 1"
abbreviation (input) SECTION_STATE :: u16 where "SECTION_STATE \<equiv> 2"
abbreviation (input) SECTION_FUNCTIONS :: u16 where "SECTION_FUNCTIONS \<equiv> 3"
abbreviation (input) SECTION_HANDLERS :: u16 where "SECTION_HANDLERS \<equiv> 4"
abbreviation (input) SECTION_CODE :: u16 where "SECTION_CODE \<equiv> 5"
abbreviation (input) SECTION_SCREENS :: u16 where "SECTION_SCREENS \<equiv> 6"
abbreviation (input) SECTION_APP_META :: u16 where "SECTION_APP_META \<equiv> 7"
abbreviation (input) SECTION_DEVICE_BINDINGS :: u16 where "SECTION_DEVICE_BINDINGS \<equiv> 8"
abbreviation (input) SECTION_TRIGGERS :: u16 where "SECTION_TRIGGERS \<equiv> 9"
abbreviation (input) SECTION_BLE_PROFILES :: u16 where "SECTION_BLE_PROFILES \<equiv> 10"
abbreviation (input) SECTION_HTTP_PROFILES :: u16 where "SECTION_HTTP_PROFILES \<equiv> 11"
abbreviation (input) OP_PUSH_INT :: u8 where "OP_PUSH_INT \<equiv> 1"
abbreviation (input) OP_PUSH_BOOL :: u8 where "OP_PUSH_BOOL \<equiv> 2"
abbreviation (input) OP_PUSH_STRING :: u8 where "OP_PUSH_STRING \<equiv> 3"
abbreviation (input) OP_PUSH_NULL :: u8 where "OP_PUSH_NULL \<equiv> 4"
abbreviation (input) OP_GET_STATE :: u8 where "OP_GET_STATE \<equiv> 10"
abbreviation (input) OP_SET_STATE :: u8 where "OP_SET_STATE \<equiv> 11"
abbreviation (input) OP_GET_LOCAL :: u8 where "OP_GET_LOCAL \<equiv> 12"
abbreviation (input) OP_SET_LOCAL :: u8 where "OP_SET_LOCAL \<equiv> 13"
abbreviation (input) OP_GET_FIELD :: u8 where "OP_GET_FIELD \<equiv> 14"
abbreviation (input) OP_ADD :: u8 where "OP_ADD \<equiv> 20"
abbreviation (input) OP_SUB :: u8 where "OP_SUB \<equiv> 21"
abbreviation (input) OP_EQ :: u8 where "OP_EQ \<equiv> 22"
abbreviation (input) OP_NE :: u8 where "OP_NE \<equiv> 23"
abbreviation (input) OP_LT :: u8 where "OP_LT \<equiv> 24"
abbreviation (input) OP_LTE :: u8 where "OP_LTE \<equiv> 25"
abbreviation (input) OP_GT :: u8 where "OP_GT \<equiv> 26"
abbreviation (input) OP_GTE :: u8 where "OP_GTE \<equiv> 27"
abbreviation (input) OP_JUMP :: u8 where "OP_JUMP \<equiv> 30"
abbreviation (input) OP_JUMP_IF_FALSE :: u8 where "OP_JUMP_IF_FALSE \<equiv> 31"
abbreviation (input) OP_CALL_FUNCTION :: u8 where "OP_CALL_FUNCTION \<equiv> 40"
abbreviation (input) OP_RETURN :: u8 where "OP_RETURN \<equiv> 41"
abbreviation (input) OP_HALT :: u8 where "OP_HALT \<equiv> 42"
abbreviation (input) OP_CALL_BUILTIN :: u8 where "OP_CALL_BUILTIN \<equiv> 50"
abbreviation (input) OP_POP :: u8 where "OP_POP \<equiv> 60"
abbreviation (input) OP_LIST_LEN :: u8 where "OP_LIST_LEN \<equiv> 61"
abbreviation (input) OP_LIST_GET :: u8 where "OP_LIST_GET \<equiv> 62"
abbreviation (input) BUILTIN_STATE_LOAD :: u8 where "BUILTIN_STATE_LOAD \<equiv> 0x01"
abbreviation (input) BUILTIN_STATE_SAVE :: u8 where "BUILTIN_STATE_SAVE \<equiv> 0x02"
abbreviation (input) BUILTIN_STATE_RESET :: u8 where "BUILTIN_STATE_RESET \<equiv> 0x03"
abbreviation (input) BUILTIN_DEBUG_PRINT :: u8 where "BUILTIN_DEBUG_PRINT \<equiv> 0x04"
abbreviation (input) BUILTIN_SYSTEM_MEMORY :: u8 where "BUILTIN_SYSTEM_MEMORY \<equiv> 0x05"
abbreviation (input) BUILTIN_SYSTEM_STORAGE :: u8 where "BUILTIN_SYSTEM_STORAGE \<equiv> 0x06"
abbreviation (input) BUILTIN_SYSTEM_START_REASON :: u8 where "BUILTIN_SYSTEM_START_REASON \<equiv> 0x07"
abbreviation (input) BUILTIN_APP_EXIT :: u8 where "BUILTIN_APP_EXIT \<equiv> 0x10"
abbreviation (input) BUILTIN_APP_LAUNCH :: u8 where "BUILTIN_APP_LAUNCH \<equiv> 0x11"
abbreviation (input) BUILTIN_APP_ARM :: u8 where "BUILTIN_APP_ARM \<equiv> 0x12"
abbreviation (input) BUILTIN_APP_DISARM :: u8 where "BUILTIN_APP_DISARM \<equiv> 0x13"
abbreviation (input) BUILTIN_APP_REGISTRY_LIST :: u8 where "BUILTIN_APP_REGISTRY_LIST \<equiv> 0x14"
abbreviation (input) BUILTIN_APP_REGISTRY_GET :: u8 where "BUILTIN_APP_REGISTRY_GET \<equiv> 0x15"
abbreviation (input) BUILTIN_APP_PROCESS_STACK :: u8 where "BUILTIN_APP_PROCESS_STACK \<equiv> 0x16"
abbreviation (input) BUILTIN_APP_ARMED_STACK :: u8 where "BUILTIN_APP_ARMED_STACK \<equiv> 0x17"
abbreviation (input) BUILTIN_APP_ARMED_STACK_GET :: u8 where "BUILTIN_APP_ARMED_STACK_GET \<equiv> 0x18"
abbreviation (input) BUILTIN_APP_INSTALL :: u8 where "BUILTIN_APP_INSTALL \<equiv> 0x19"
abbreviation (input) BUILTIN_APP_INSTALL_METADATA :: u8 where "BUILTIN_APP_INSTALL_METADATA \<equiv> 0x1a"
abbreviation (input) BUILTIN_SCREEN_OPEN :: u8 where "BUILTIN_SCREEN_OPEN \<equiv> 0x20"
abbreviation (input) BUILTIN_SCREEN_REFRESH :: u8 where "BUILTIN_SCREEN_REFRESH \<equiv> 0x21"
abbreviation (input) BUILTIN_SERVICE_TIMER_EVERY :: u8 where "BUILTIN_SERVICE_TIMER_EVERY \<equiv> 0x22"
abbreviation (input) BUILTIN_SERVICE_TIMER_AFTER :: u8 where "BUILTIN_SERVICE_TIMER_AFTER \<equiv> 0x23"
abbreviation (input) BUILTIN_DISPLAY_CLEAR :: u8 where "BUILTIN_DISPLAY_CLEAR \<equiv> 0x30"
abbreviation (input) BUILTIN_DISPLAY_TEXT :: u8 where "BUILTIN_DISPLAY_TEXT \<equiv> 0x31"
abbreviation (input) BUILTIN_DISPLAY_RECT :: u8 where "BUILTIN_DISPLAY_RECT \<equiv> 0x32"
abbreviation (input) BUILTIN_DISPLAY_LINE :: u8 where "BUILTIN_DISPLAY_LINE \<equiv> 0x33"
abbreviation (input) BUILTIN_DISPLAY_SELECT :: u8 where "BUILTIN_DISPLAY_SELECT \<equiv> 0x34"
abbreviation (input) BUILTIN_DISPLAY_IMAGE :: u8 where "BUILTIN_DISPLAY_IMAGE \<equiv> 0x35"
abbreviation (input) BUILTIN_DISPLAY_DRAW :: u8 where "BUILTIN_DISPLAY_DRAW \<equiv> 0x36"
abbreviation (input) BUILTIN_DISPLAY_INFO :: u8 where "BUILTIN_DISPLAY_INFO \<equiv> 0x37"
abbreviation (input) BUILTIN_DISPLAY_REFRESH_MODE :: u8 where "BUILTIN_DISPLAY_REFRESH_MODE \<equiv> 0x38"
abbreviation (input) BUILTIN_HARDWARE_GPIO_WRITE :: u8 where "BUILTIN_HARDWARE_GPIO_WRITE \<equiv> 0x40"
abbreviation (input) BUILTIN_HARDWARE_GPIO_TOGGLE :: u8 where "BUILTIN_HARDWARE_GPIO_TOGGLE \<equiv> 0x41"
abbreviation (input) BUILTIN_HARDWARE_GPIO_READ :: u8 where "BUILTIN_HARDWARE_GPIO_READ \<equiv> 0x42"
abbreviation (input) BUILTIN_SERVICE_INDICATOR_WRITE :: u8 where "BUILTIN_SERVICE_INDICATOR_WRITE \<equiv> 0x48"
abbreviation (input) BUILTIN_SERVICE_INDICATOR_TOGGLE :: u8 where "BUILTIN_SERVICE_INDICATOR_TOGGLE \<equiv> 0x49"
abbreviation (input) BUILTIN_SERVICE_INDICATOR_READ :: u8 where "BUILTIN_SERVICE_INDICATOR_READ \<equiv> 0x4a"
abbreviation (input) BUILTIN_SERVICE_INDICATOR_BREATHE :: u8 where "BUILTIN_SERVICE_INDICATOR_BREATHE \<equiv> 0x4b"
abbreviation (input) BUILTIN_SERVICE_INDICATOR_BLINK :: u8 where "BUILTIN_SERVICE_INDICATOR_BLINK \<equiv> 0x4c"
abbreviation (input) BUILTIN_SERVICE_WIFI_START_AP :: u8 where "BUILTIN_SERVICE_WIFI_START_AP \<equiv> 0x50"
abbreviation (input) BUILTIN_SERVICE_WIFI_STOP_AP :: u8 where "BUILTIN_SERVICE_WIFI_STOP_AP \<equiv> 0x51"
abbreviation (input) BUILTIN_SERVICE_WIFI_STATUS :: u8 where "BUILTIN_SERVICE_WIFI_STATUS \<equiv> 0x52"
abbreviation (input) BUILTIN_SERVICE_WIFI_GET_AP_IP :: u8 where "BUILTIN_SERVICE_WIFI_GET_AP_IP \<equiv> 0x53"
abbreviation (input) BUILTIN_SERVICE_WIFI_CONNECT :: u8 where "BUILTIN_SERVICE_WIFI_CONNECT \<equiv> 0x54"
abbreviation (input) BUILTIN_SERVICE_WIFI_DISCONNECT :: u8 where "BUILTIN_SERVICE_WIFI_DISCONNECT \<equiv> 0x55"
abbreviation (input) BUILTIN_SERVICE_WIFI_SCAN :: u8 where "BUILTIN_SERVICE_WIFI_SCAN \<equiv> 0x56"
abbreviation (input) BUILTIN_SERVICE_WIFI_OPERATION :: u8 where "BUILTIN_SERVICE_WIFI_OPERATION \<equiv> 0x57"
abbreviation (input) BUILTIN_SERVICE_WIFI_RESULT :: u8 where "BUILTIN_SERVICE_WIFI_RESULT \<equiv> 0x58"
abbreviation (input) BUILTIN_SERVICE_WIFI_CANCEL :: u8 where "BUILTIN_SERVICE_WIFI_CANCEL \<equiv> 0x59"
abbreviation (input) BUILTIN_SERVICE_WIFI_SCAN_NETWORK :: u8 where "BUILTIN_SERVICE_WIFI_SCAN_NETWORK \<equiv> 0x5a"
abbreviation (input) BUILTIN_DEVICE_CONFIG_LOAD :: u8 where "BUILTIN_DEVICE_CONFIG_LOAD \<equiv> 0x70"
abbreviation (input) BUILTIN_DEVICE_CONFIG_SET :: u8 where "BUILTIN_DEVICE_CONFIG_SET \<equiv> 0x71"
abbreviation (input) BUILTIN_DEVICE_CONFIG_REBIND :: u8 where "BUILTIN_DEVICE_CONFIG_REBIND \<equiv> 0x72"
abbreviation (input) BUILTIN_DEVICE_CONFIG_SAVE :: u8 where "BUILTIN_DEVICE_CONFIG_SAVE \<equiv> 0x73"
abbreviation (input) BUILTIN_BINBOOK_OPEN :: u8 where "BUILTIN_BINBOOK_OPEN \<equiv> 0x80"
abbreviation (input) BUILTIN_BINBOOK_INFO :: u8 where "BUILTIN_BINBOOK_INFO \<equiv> 0x81"
abbreviation (input) BUILTIN_BINBOOK_READ_PAGE :: u8 where "BUILTIN_BINBOOK_READ_PAGE \<equiv> 0x82"
abbreviation (input) BUILTIN_CONTENT_BINBOOK_LIST :: u8 where "BUILTIN_CONTENT_BINBOOK_LIST \<equiv> 0x83"
abbreviation (input) BUILTIN_BINBOOK_CHAPTERS :: u8 where "BUILTIN_BINBOOK_CHAPTERS \<equiv> 0x84"
abbreviation (input) BUILTIN_BINBOOK_CHAPTER :: u8 where "BUILTIN_BINBOOK_CHAPTER \<equiv> 0x85"
abbreviation (input) BUILTIN_FILE_PICK_FILE :: u8 where "BUILTIN_FILE_PICK_FILE \<equiv> 0x90"
abbreviation (input) BUILTIN_FILE_READ_TEXT :: u8 where "BUILTIN_FILE_READ_TEXT \<equiv> 0x91"
abbreviation (input) BUILTIN_FILE_READ_LINES :: u8 where "BUILTIN_FILE_READ_LINES \<equiv> 0x92"
abbreviation (input) BUILTIN_FILE_COPY :: u8 where "BUILTIN_FILE_COPY \<equiv> 0x93"
abbreviation (input) BUILTIN_SERVICE_POWER_SLEEP :: u8 where "BUILTIN_SERVICE_POWER_SLEEP \<equiv> 0xc0"
abbreviation (input) BUILTIN_SERVICE_BLE_START :: u8 where "BUILTIN_SERVICE_BLE_START \<equiv> 0xc1"
abbreviation (input) BUILTIN_SERVICE_BLE_STOP :: u8 where "BUILTIN_SERVICE_BLE_STOP \<equiv> 0xc2"
abbreviation (input) BUILTIN_SERVICE_HTTP_START :: u8 where "BUILTIN_SERVICE_HTTP_START \<equiv> 0xc3"
abbreviation (input) BUILTIN_SERVICE_HTTP_STOP :: u8 where "BUILTIN_SERVICE_HTTP_STOP \<equiv> 0xc4"
abbreviation (input) VALUE_NULL :: u8 where "VALUE_NULL \<equiv> 0"
abbreviation (input) VALUE_BOOL :: u8 where "VALUE_BOOL \<equiv> 1"
abbreviation (input) VALUE_I32 :: u8 where "VALUE_I32 \<equiv> 2"
abbreviation (input) VALUE_STRING :: u8 where "VALUE_STRING \<equiv> 3"
abbreviation (input) STATE_TYPE_INT :: u8 where "STATE_TYPE_INT \<equiv> 1"
abbreviation (input) STATE_TYPE_BOOL :: u8 where "STATE_TYPE_BOOL \<equiv> 2"
abbreviation (input) STATE_TYPE_STRING :: u8 where "STATE_TYPE_STRING \<equiv> 3"

text \<open>\<open>ok_or\<close> with a message, and \<open>try_from\<close> into the integers of the format.\<close>

definition fail_with :: "string \<Rightarrow> (rstr, 'a) res" where
  "fail_with message = Inl (Err (lit message))"

definition try_u16 :: "string \<Rightarrow> nat \<Rightarrow> (rstr, u16) res" where
  "try_u16 message n = (if n \<le> 65535 then Inr (of_nat n) else fail_with message)"

definition try_u32 :: "string \<Rightarrow> nat \<Rightarrow> (rstr, u32) res" where
  "try_u32 message n = (if n \<le> 4294967295 then Inr (of_nat n) else fail_with message)"

text \<open>\<open>i32::try_from\<close> of an \<open>i64\<close>.\<close>

definition try_i32 :: "string \<Rightarrow> i64 \<Rightarrow> (rstr, i32) res" where
  "try_i32 message n =
     (if - 2147483648 \<le> sint n \<and> sint n \<le> 2147483647 then Inr (ucast n) else fail_with message)"

lemma try_Inr:
  "try_u16 m n = Inr w \<longleftrightarrow> n \<le> 65535 \<and> w = of_nat n"
  "try_u32 m n = Inr x \<longleftrightarrow> n \<le> 4294967295 \<and> x = of_nat n"
  by (auto simp: try_u16_def try_u32_def fail_with_def)

lemma try_no_panic [simp, no_panic]:
  "try_u16 m n \<noteq> Inl Panic" "try_u32 m n \<noteq> Inl Panic" "try_i32 m i \<noteq> Inl Panic"
  "fail_with m \<noteq> Inl Panic"
  by (simp_all add: try_u16_def try_u32_def try_i32_def fail_with_def)

text \<open>A sequence of steps without a result, each followed by \<open>?\<close>.\<close>

primrec do_all :: "('e, 's, unit) exec list \<Rightarrow> ('e, 's, unit) exec" where
  "do_all [] = ret ()"
| "do_all (m # ms) = bind_exec m (\<lambda>_. do_all ms)"

end
