(* ===== verification/Sqbc_Compile.thy ===== *)
theory Sqbc_Compile
  imports Sqbc_Ir Sqbc_Codes
begin

text \<open>
  The code generator (\<open>squidc-core/src/sqbc.rs\<close>): the string table, the frame of locals,
  the pass that collects a program's strings, and the compilation of expressions and
  statements into the code of one \<open>CompileUnit\<close>.  A compile error is its message, the
  bytes of \<open>SqbcError.message\<close>.

  \<open>serde_json::from_value::<IrExpr>\<close>, which reads an expression out of a display option, is
  the argument \<open>parse\<close>.  An expression may therefore hold JSON that holds an expression,
  and the compiler recurses through \<open>parse\<close>: \<open>compile_expr_upto\<close> bounds the depth of the
  recursion (\<open>Panic\<close> beyond it, as a stack overflow aborts), and \<open>compile_expr\<close> allows as
  much depth as the expression has constructors.
\<close>

section \<open>The string table\<close>

record strtab =
  sb_ids :: "ustr \<Rightarrow> u16 option"
  sb_values :: "ustr list"

definition strtab_default :: strtab where
  "strtab_default = \<lparr>sb_ids = \<lambda>_. None, sb_values = []\<rparr>"

definition intern :: "ustr \<Rightarrow> (rstr, strtab, u16) exec" where
  "intern v =
     bind_exec (gets (\<lambda>t. sb_ids t v)) (\<lambda>known. case known of
       Some i \<Rightarrow> ret i
     | None \<Rightarrow>
         bind_exec (gets (\<lambda>t. length (sb_values t))) (\<lambda>n.
         bind_exec (lift (try_u16 ''too many strings'' n)) (\<lambda>i.
         bind_exec (modify (\<lambda>t. t\<lparr>sb_values := sb_values t @ [v], sb_ids := (sb_ids t)(v \<mapsto> i)\<rparr>)) (\<lambda>_.
           ret i))))"

fun encode_strings :: "ustr list \<Rightarrow> (rstr, u8 list) res" where
  "encode_strings [] = Inr []"
| "encode_strings (v # vs) =
     and_then (try_u16 ''string too long'' (length (str_bytes v))) (\<lambda>n.
     and_then (encode_strings vs) (\<lambda>out. Inr (u16_le n @ str_bytes v @ out)))"

definition strtab_encode :: "strtab \<Rightarrow> (rstr, u8 list) res" where
  "strtab_encode t =
     and_then (try_u16 ''too many strings'' (length (sb_values t))) (\<lambda>n.
     and_then (encode_strings (sb_values t)) (\<lambda>out. Inr (u16_le n @ out)))"

section \<open>The unit and the frame\<close>

record function_meta =
  fm_name_id :: u16
  fm_param_count :: u16
  fm_local_count :: u16
  fm_start :: u32
  fm_len :: u32

record handler_meta =
  hm_event_id :: u16
  hm_param_count :: u16
  hm_local_count :: u16
  hm_preload :: bool
  hm_start :: u32
  hm_len :: u32

record screen_meta =
  sm_name_id :: u16
  sm_start :: u32
  sm_len :: u32

record compile_unit =
  cu_strings :: strtab
  cu_states :: "ustr \<Rightarrow> u16 option"
  cu_functions :: "ustr \<Rightarrow> u16 option"
  cu_function_metas :: "function_meta list"
  cu_handler_metas :: "handler_meta list"
  cu_screen_metas :: "screen_meta list"
  cu_code :: "u8 list"

definition unit_default :: compile_unit where
  "unit_default = \<lparr>cu_strings = strtab_default, cu_states = \<lambda>_. None, cu_functions = \<lambda>_. None,
     cu_function_metas = [], cu_handler_metas = [], cu_screen_metas = [], cu_code = []\<rparr>"

type_synonym 'a comp = "(rstr, compile_unit, 'a) exec"

definition on_table :: "(rstr, strtab, 'a) exec \<Rightarrow> 'a comp" where
  "on_table m u = (case m (cu_strings u) of (r, t) \<Rightarrow> (r, u\<lparr>cu_strings := t\<rparr>))"

record frame_compiler =
  fc_locals :: "ustr \<Rightarrow> u16 option"
  fc_next_local :: u16

definition frame_default :: frame_compiler where
  "frame_default = \<lparr>fc_locals = \<lambda>_. None, fc_next_local = 0\<rparr>"

definition define_local :: "frame_compiler \<Rightarrow> ustr \<Rightarrow> (rstr, u16 \<times> frame_compiler) res" where
  "define_local frame name = (case fc_locals frame name of
       Some i \<Rightarrow> Inr (i, frame)
     | None \<Rightarrow>
         let i = fc_next_local frame in
         if unat i + 1 > 65535 then fail_with ''too many locals''
         else Inr (i, frame\<lparr>fc_next_local := i + 1, fc_locals := (fc_locals frame)(name \<mapsto> i)\<rparr>))"

fun define_params :: "frame_compiler \<Rightarrow> ustr list \<Rightarrow> (rstr, frame_compiler) res" where
  "define_params frame [] = Inr frame"
| "define_params frame (p # ps) =
     and_then (define_local frame p) (\<lambda>(_, frame). define_params frame ps)"

definition with_params :: "ustr list \<Rightarrow> (rstr, frame_compiler) res" where
  "with_params params = define_params frame_default params"

definition child_scope :: "frame_compiler \<Rightarrow> frame_compiler" where
  "child_scope frame = \<lparr>fc_locals = fc_locals frame, fc_next_local = fc_next_local frame\<rparr>"

definition reserve_child_locals :: "frame_compiler \<Rightarrow> frame_compiler \<Rightarrow> frame_compiler" where
  "reserve_child_locals frame child =
     frame\<lparr>fc_next_local := max (fc_next_local frame) (fc_next_local child)\<rparr>"

section \<open>Emitting code\<close>

definition emit_bytes :: "u8 list \<Rightarrow> unit comp" where
  "emit_bytes bs = modify (\<lambda>u. u\<lparr>cu_code := cu_code u @ bs\<rparr>)"

definition emit :: "u8 \<Rightarrow> unit comp" where
  "emit b = emit_bytes [b]"

definition write_u16 :: "u16 \<Rightarrow> unit comp" where
  "write_u16 w = emit_bytes (u16_le w)"

definition write_u32 :: "u32 \<Rightarrow> unit comp" where
  "write_u32 w = emit_bytes (u32_le w)"

definition write_i32 :: "i32 \<Rightarrow> unit comp" where
  "write_i32 w = emit_bytes (u32_le w)"

definition reserve_u32 :: "nat comp" where
  "reserve_u32 =
     bind_exec (gets (\<lambda>u. length (cu_code u))) (\<lambda>offset.
     bind_exec (write_u32 0) (\<lambda>_. ret offset))"

text \<open>The slice assignment of \<open>patch_u32\<close> panics outside the code.\<close>

definition patch_u32 :: "nat \<Rightarrow> unit comp" where
  "patch_u32 offset =
     bind_exec (gets (\<lambda>u. length (cu_code u))) (\<lambda>n.
     bind_exec (lift (try_u32 ''code too large'' n)) (\<lambda>v.
       if offset + 4 \<le> n
       then modify (\<lambda>u. u\<lparr>cu_code := splice (cu_code u) offset (u32_le v)\<rparr>)
       else lift (Inl Panic)))"

definition code_position :: "u32 comp" where
  "code_position =
     bind_exec (gets (\<lambda>u. length (cu_code u))) (\<lambda>n. lift (try_u32 ''code too large'' n))"

text \<open>An opcode with a 16-bit operand, a boolean and an integer literal.\<close>

definition emit_ref :: "u8 \<Rightarrow> u16 \<Rightarrow> unit comp" where
  "emit_ref opcode i = do_all [emit opcode, write_u16 i]"

definition emit_bool :: "bool \<Rightarrow> unit comp" where
  "emit_bool b = do_all [emit OP_PUSH_BOOL, emit (if b then 1 else 0)]"

definition emit_int :: "i32 \<Rightarrow> unit comp" where
  "emit_int i = do_all [emit OP_PUSH_INT, write_i32 i]"

definition emit_builtin :: "u8 \<Rightarrow> unit comp" where
  "emit_builtin builtin = do_all [emit OP_CALL_BUILTIN, emit builtin]"

definition emit_string :: "ustr \<Rightarrow> unit comp" where
  "emit_string v =
     bind_exec (on_table (intern v)) (\<lambda>i. emit_ref OP_PUSH_STRING i)"

definition state_id :: "ustr \<Rightarrow> u16 comp" where
  "state_id name =
     bind_exec (gets (\<lambda>u. cu_states u name)) (\<lambda>i.
       lift (ok_or (lit ''unknown state '' @ str_bytes name) i))"

definition function_id :: "ustr \<Rightarrow> u16 comp" where
  "function_id name =
     bind_exec (gets (\<lambda>u. cu_functions u name)) (\<lambda>i.
       lift (ok_or (lit ''unknown function '' @ str_bytes name) i))"

definition local_id :: "frame_compiler \<Rightarrow> ustr \<Rightarrow> (rstr, u16) res" where
  "local_id frame name = ok_or (lit ''unknown local '' @ str_bytes name) (fc_locals frame name)"

definition opcode_for_operator :: "ustr \<Rightarrow> (rstr, u8) res" where
  "opcode_for_operator operator =
     (case map_of [(lit ''+'', OP_ADD), (lit ''-'', OP_SUB), (lit ''=='', OP_EQ), (lit ''!='', OP_NE),
                   (lit ''<'', OP_LT), (lit ''<='', OP_LTE), (lit ''>'', OP_GT), (lit ''>='', OP_GTE)]
             (str_bytes operator) of
        Some opcode \<Rightarrow> Inr opcode
      | None \<Rightarrow> Inl (Err (lit ''unsupported operator '' @ str_bytes operator)))"

section \<open>Builtin functions\<close>

definition BUILTIN_CALLS :: "(rstr \<times> u8) list" where
  "BUILTIN_CALLS =
     [(lit ''service.wifi.startAP'', BUILTIN_SERVICE_WIFI_START_AP),
      (lit ''service.wifi.stopAP'', BUILTIN_SERVICE_WIFI_STOP_AP),
      (lit ''service.wifi.status'', BUILTIN_SERVICE_WIFI_STATUS),
      (lit ''service.wifi.getAPIP'', BUILTIN_SERVICE_WIFI_GET_AP_IP),
      (lit ''service.wifi.connect'', BUILTIN_SERVICE_WIFI_CONNECT),
      (lit ''service.wifi.disconnect'', BUILTIN_SERVICE_WIFI_DISCONNECT),
      (lit ''service.wifi.scan'', BUILTIN_SERVICE_WIFI_SCAN),
      (lit ''service.wifi.operation'', BUILTIN_SERVICE_WIFI_OPERATION),
      (lit ''service.wifi.result'', BUILTIN_SERVICE_WIFI_RESULT),
      (lit ''service.wifi.cancel'', BUILTIN_SERVICE_WIFI_CANCEL),
      (lit ''service.wifi.scanNetwork'', BUILTIN_SERVICE_WIFI_SCAN_NETWORK),
      (lit ''app.registry'', BUILTIN_APP_REGISTRY_LIST),
      (lit ''app.registry.get'', BUILTIN_APP_REGISTRY_GET),
      (lit ''app.processStack'', BUILTIN_APP_PROCESS_STACK),
      (lit ''app.armedStack'', BUILTIN_APP_ARMED_STACK),
      (lit ''app.armedStack.get'', BUILTIN_APP_ARMED_STACK_GET),
      (lit ''device.config.load'', BUILTIN_DEVICE_CONFIG_LOAD),
      (lit ''device.config.set'', BUILTIN_DEVICE_CONFIG_SET),
      (lit ''device.config.rebind'', BUILTIN_DEVICE_CONFIG_REBIND),
      (lit ''device.config.save'', BUILTIN_DEVICE_CONFIG_SAVE),
      (lit ''binbook.open'', BUILTIN_BINBOOK_OPEN),
      (lit ''binbook.info'', BUILTIN_BINBOOK_INFO),
      (lit ''binbook.readPage'', BUILTIN_BINBOOK_READ_PAGE),
      (lit ''content.binbook.list'', BUILTIN_CONTENT_BINBOOK_LIST),
      (lit ''binbook.chapters'', BUILTIN_BINBOOK_CHAPTERS),
      (lit ''binbook.chapter'', BUILTIN_BINBOOK_CHAPTER),
      (lit ''file.pickFile'', BUILTIN_FILE_PICK_FILE),
      (lit ''file.readText'', BUILTIN_FILE_READ_TEXT),
      (lit ''file.readLines'', BUILTIN_FILE_READ_LINES),
      (lit ''file.copy'', BUILTIN_FILE_COPY),
      (lit ''service.display.info'', BUILTIN_DISPLAY_INFO)]"

definition builtin_for_call :: "rstr \<Rightarrow> u8 option" where
  "builtin_for_call name = map_of BUILTIN_CALLS name"

definition builtin_for_call_with_arg_count :: "rstr \<Rightarrow> nat \<Rightarrow> u8 option" where
  "builtin_for_call_with_arg_count name count =
     (if name = lit ''app.install'' then
        (if count = 1 then Some BUILTIN_APP_INSTALL_METADATA
         else if count = 2 then Some BUILTIN_APP_INSTALL else None)
      else builtin_for_call name)"

text \<open>The argument counts a name allows; a name that is not listed allows any.\<close>

definition BUILTIN_ARG_COUNTS :: "(rstr \<times> nat list) list" where
  "BUILTIN_ARG_COUNTS =
     [(lit ''app.install'', [1, 2]),
      (lit ''service.wifi.startAP'', [1]), (lit ''service.wifi.connect'', [1]),
      (lit ''service.wifi.stopAP'', [0]), (lit ''service.wifi.status'', [0]),
      (lit ''service.wifi.getAPIP'', [0]), (lit ''service.wifi.disconnect'', [0]),
      (lit ''service.wifi.scan'', [0]), (lit ''service.wifi.operation'', [0]),
      (lit ''service.wifi.result'', [0]), (lit ''service.wifi.cancel'', [0]),
      (lit ''app.registry'', [0]), (lit ''app.processStack'', [0]), (lit ''app.armedStack'', [0]),
      (lit ''service.wifi.scanNetwork'', [1]),
      (lit ''app.registry.get'', [2]), (lit ''app.armedStack.get'', [2]),
      (lit ''device.config.load'', [1]), (lit ''device.config.rebind'', [1]),
      (lit ''device.config.save'', [1]), (lit ''device.config.set'', [2]),
      (lit ''binbook.open'', [1]), (lit ''binbook.info'', [1]), (lit ''binbook.readPage'', [2]),
      (lit ''binbook.chapters'', [1, 2]), (lit ''binbook.chapter'', [2]),
      (lit ''content.binbook.list'', [1, 2]), (lit ''file.pickFile'', [1]),
      (lit ''file.readText'', [1]), (lit ''file.readLines'', [2]), (lit ''file.copy'', [2]),
      (lit ''service.display.info'', [0])]"

definition validate_builtin_arg_count :: "rstr \<Rightarrow> nat \<Rightarrow> (rstr, unit) res" where
  "validate_builtin_arg_count name count =
     (if (case map_of BUILTIN_ARG_COUNTS name of None \<Rightarrow> True | Some counts \<Rightarrow> count \<in> set counts)
      then Inr () else Inl (Err (lit ''invalid argument count for '' @ name)))"

section \<open>Collecting strings\<close>

type_synonym interning = "(rstr, strtab, unit) exec"

definition intern_only :: "ustr \<Rightarrow> interning" where
  "intern_only v = bind_exec (intern v) (\<lambda>_. ret ())"

definition collect_json_value :: "json \<Rightarrow> interning" where
  "collect_json_value v = (case as_str v of Some t \<Rightarrow> intern_only t | None \<Rightarrow> ret ())"

fun collect_option_strings :: "json \<Rightarrow> interning" where
  "collect_option_strings (JString t) = intern_only t"
| "collect_option_strings (JArray vs) = do_all (map collect_option_strings vs)"
| "collect_option_strings (JObject es) = do_all (map (\<lambda>e. collect_option_strings (snd e)) es)"
| "collect_option_strings _ = ret ()"

definition collect_named_option_strings :: "json \<Rightarrow> string list \<Rightarrow> interning" where
  "collect_named_option_strings options keys =
     do_all (map (\<lambda>key. case json_get options (lit key) of
       Some v \<Rightarrow> collect_option_strings v | None \<Rightarrow> ret ()) keys)"

fun collect_expr_strings :: "ir_expr \<Rightarrow> interning" where
  "collect_expr_strings (E_Literal v) = collect_json_value v"
| "collect_expr_strings (E_State name) = intern_only name"
| "collect_expr_strings (E_Variable _) = ret ()"
| "collect_expr_strings (E_Binary left _ right) =
     do_all [collect_expr_strings left, collect_expr_strings right]"
| "collect_expr_strings (E_Unary _ e) = collect_expr_strings e"
| "collect_expr_strings (E_Field target field) = do_all [collect_expr_strings target, intern_only field]"
| "collect_expr_strings (E_HardwareGpioRead name) = intern_only name"
| "collect_expr_strings (E_SystemStorage name) = intern_only name"
| "collect_expr_strings E_ServiceIndicatorRead = ret ()"
| "collect_expr_strings E_SystemMemory = ret ()"
| "collect_expr_strings E_SystemStartReason = ret ()"
| "collect_expr_strings (E_Call name args) =
     do_all (intern_only name # map collect_expr_strings args)"

definition collect_service_start ::
  "ustr \<Rightarrow> ustr \<Rightarrow> ustr list \<Rightarrow> (ustr \<times> ustr) list \<Rightarrow> interning" where
  "collect_service_start profile i accept events =
     do_all ([intern_only profile, intern_only i, intern_only (Str (lit ''server''))] @
       map intern_only accept @
       map (\<lambda>e. do_all [intern_only (fst e), intern_only (snd e)]) events)"

fun collect_statement_strings :: "build_profile \<Rightarrow> ir_statement \<Rightarrow> interning" where
  "collect_statement_strings p (S_ScreenOpen screen) = intern_only screen"
| "collect_statement_strings p (S_Assign name e) = do_all [intern_only name, collect_expr_strings e]"
| "collect_statement_strings p (S_StateAssign name e) = do_all [intern_only name, collect_expr_strings e]"
| "collect_statement_strings p (S_Let name e) = do_all [intern_only name, collect_expr_strings e]"
| "collect_statement_strings p (S_If condition ts es) =
     do_all [collect_expr_strings condition, do_all (map (collect_statement_strings p) ts),
       do_all (map (collect_statement_strings p) es)]"
| "collect_statement_strings p (S_Repeat count ss) =
     do_all [collect_expr_strings count, do_all (map (collect_statement_strings p) ss)]"
| "collect_statement_strings p (S_Return e) =
     (case e of Some e \<Rightarrow> collect_expr_strings e | None \<Rightarrow> ret ())"
| "collect_statement_strings p (S_Call name args) =
     do_all (intern_only name # map collect_expr_strings args)"
| "collect_statement_strings p (S_DebugPrint args) =
     (if p = Dev then do_all (map collect_expr_strings args) else ret ())"
| "collect_statement_strings p (S_DebugBlock ss) =
     (if p = Dev then do_all (map (collect_statement_strings p) ss) else ret ())"
| "collect_statement_strings p (S_AppLaunch app) = collect_expr_strings app"
| "collect_statement_strings p (S_AppArm app) = collect_expr_strings app"
| "collect_statement_strings p (S_AppDisarm app) = collect_expr_strings app"
| "collect_statement_strings p (S_AppInstall file_ref app) =
     do_all [collect_expr_strings file_ref, case app of Some a \<Rightarrow> intern_only a | None \<Rightarrow> ret ()]"
| "collect_statement_strings p (S_ServiceTimerEvery event e) =
     do_all [intern_only event, collect_expr_strings e]"
| "collect_statement_strings p (S_ServiceTimerAfter event e) =
     do_all [intern_only event, collect_expr_strings e]"
| "collect_statement_strings p (S_ServiceBleStart profile i accept events) =
     collect_service_start profile i accept events"
| "collect_statement_strings p S_ServiceBleStop = ret ()"
| "collect_statement_strings p (S_ServiceHttpStart profile i accept events) =
     collect_service_start profile i accept events"
| "collect_statement_strings p S_ServiceHttpStop = ret ()"
| "collect_statement_strings p (S_ServicePowerSleep e) = collect_expr_strings e"
| "collect_statement_strings p (S_HardwareGpioWrite name v) =
     do_all [intern_only name, collect_expr_strings v]"
| "collect_statement_strings p (S_HardwareGpioToggle name) = intern_only name"
| "collect_statement_strings p (S_ServiceIndicatorWrite v) = collect_expr_strings v"
| "collect_statement_strings p S_ServiceIndicatorToggle = ret ()"
| "collect_statement_strings p S_ServiceIndicatorBreathe = ret ()"
| "collect_statement_strings p (S_ServiceIndicatorBlink on off) =
     do_all [collect_expr_strings on, collect_expr_strings off]"
| "collect_statement_strings p (S_DisplayText t options) =
     do_all [collect_expr_strings t, collect_named_option_strings options [''align'', ''valign'']]"
| "collect_statement_strings p (S_DisplayClear color) = collect_expr_strings color"
| "collect_statement_strings p (S_DisplayRect x y w h options) = collect_named_option_strings options []"
| "collect_statement_strings p (S_DisplayLine x1 y1 x2 y2 options) = collect_named_option_strings options []"
| "collect_statement_strings p (S_DisplaySelect name) = intern_only name"
| "collect_statement_strings p (S_DisplayRefreshMode mode) = intern_only mode"
| "collect_statement_strings p (S_DisplayImage path options) =
     do_all [intern_only path, collect_option_strings options]"
| "collect_statement_strings p (S_DisplayDraw drawable options) =
     do_all [collect_expr_strings drawable, collect_option_strings options]"
| "collect_statement_strings p (S_For _ lst limit ss) =
     do_all [collect_expr_strings lst, case limit of Some e \<Rightarrow> collect_expr_strings e | None \<Rightarrow> ret (),
       do_all (map (collect_statement_strings p) ss)]"
| "collect_statement_strings p S_StateLoad = ret ()"
| "collect_statement_strings p S_StateSave = ret ()"
| "collect_statement_strings p S_StateReset = ret ()"
| "collect_statement_strings p S_ScreenRefresh = ret ()"
| "collect_statement_strings p S_AppExit = ret ()"

definition collect_statements :: "build_profile \<Rightarrow> ir_statement list \<Rightarrow> interning" where
  "collect_statements p ss = do_all (map (collect_statement_strings p) ss)"

definition collect_strings :: "ir_program \<Rightarrow> build_profile \<Rightarrow> interning" where
  "collect_strings ir p = do_all [
     intern_only (ia_id (ir_app ir)),
     do_all (map (\<lambda>b. do_all [intern_only (ib_service b), intern_only (ib_binding b),
       intern_only (ib_resource b)]) (ir_device_bindings ir)),
     do_all (map (\<lambda>t. intern_only (it_event t)) (ir_triggers ir)),
     do_all (map (\<lambda>s. do_all [intern_only (sv_name s), collect_json_value (sv_value s)]) (ir_state ir)),
     do_all (map (\<lambda>f. do_all [intern_only (if_name f), do_all (map intern_only (if_params f)),
       collect_statements p (if_statements f)]) (ir_functions ir)),
     do_all (map (\<lambda>h. do_all [intern_only (ih_event h), collect_statements p (ih_statements h)])
       (ir_handlers ir)),
     do_all (map (\<lambda>s. do_all [intern_only (is_name s), collect_statements p (is_statements s)])
       (ir_screens ir))]"

section \<open>Expressions\<close>

definition expr_literal_i64 :: "json \<Rightarrow> i64 option" where
  "expr_literal_i64 v = (case as_i64 v of
       Some n \<Rightarrow> Some n
     | None \<Rightarrow>
         if is_object v \<and> Option.bind (json_get v (lit ''op'')) as_str = Some (Str (lit ''literal''))
         then Option.bind (json_get v (lit ''value'')) as_i64 else None)"

definition expr_literal_string :: "json \<Rightarrow> ustr option" where
  "expr_literal_string v = (case as_str v of
       Some t \<Rightarrow> Some t
     | None \<Rightarrow>
         if is_object v \<and> Option.bind (json_get v (lit ''op'')) as_str = Some (Str (lit ''literal''))
         then Option.bind (json_get v (lit ''value'')) as_str else None)"

definition compile_literal :: "json \<Rightarrow> unit comp" where
  "compile_literal v =
     (if is_null v then emit OP_PUSH_NULL else
      case as_bool v of Some b \<Rightarrow> emit_bool b
    | None \<Rightarrow>
      case as_i64 v of Some n \<Rightarrow>
        bind_exec (emit OP_PUSH_INT) (\<lambda>_.
        bind_exec (lift (try_i32 ''integer literal out of i32 range'' n)) write_i32)
    | None \<Rightarrow>
      case as_str v of Some t \<Rightarrow> emit_string t
    | None \<Rightarrow> lift (fail_with ''unsupported literal in reference bytecode subset''))"

type_synonym expr_parser = "json \<Rightarrow> ir_expr option"
type_synonym expr_compiler = "frame_compiler \<Rightarrow> ir_expr \<Rightarrow> unit comp"

text \<open>The value of a numeric display option: a literal, or an expression held in the JSON.\<close>

definition emit_numeric_option ::
  "expr_parser \<Rightarrow> expr_compiler \<Rightarrow> frame_compiler \<Rightarrow> json \<Rightarrow> unit comp" where
  "emit_numeric_option parse recur frame v = (case expr_literal_i64 v of
       Some n \<Rightarrow>
         bind_exec (emit OP_PUSH_INT) (\<lambda>_.
         bind_exec (lift (try_i32 ''display option out of i32 range'' n)) write_i32)
     | None \<Rightarrow>
         bind_exec (lift (ok_or (lit ''display numeric option must be an expression'') (parse v)))
           (\<lambda>e. recur frame e))"

definition emit_i32_option ::
  "expr_parser \<Rightarrow> expr_compiler \<Rightarrow> frame_compiler \<Rightarrow> json \<Rightarrow> string \<Rightarrow> unit comp" where
  "emit_i32_option parse recur frame options key = (case json_get options (lit key) of
       None \<Rightarrow> emit_int 0
     | Some v \<Rightarrow> emit_numeric_option parse recur frame v)"

definition emit_optional_i32_option ::
  "expr_parser \<Rightarrow> expr_compiler \<Rightarrow> frame_compiler \<Rightarrow> json \<Rightarrow> string \<Rightarrow> unit comp" where
  "emit_optional_i32_option parse recur frame options key = (case json_get options (lit key) of
       None \<Rightarrow> emit OP_PUSH_NULL
     | Some v \<Rightarrow> emit_numeric_option parse recur frame v)"

definition emit_string_option :: "json \<Rightarrow> string \<Rightarrow> unit comp" where
  "emit_string_option options key = (case Option.bind (json_get options (lit key)) expr_literal_string of
       Some t \<Rightarrow> emit_string t
     | None \<Rightarrow> emit OP_PUSH_NULL)"

definition expr_from_json :: "expr_parser \<Rightarrow> json \<Rightarrow> string \<Rightarrow> (rstr, ir_expr) res" where
  "expr_from_json parse v subject = ok_or (lit subject @ lit '' must be an expression'') (parse v)"

text \<open>The paging options of a call: an object literal, or the default.\<close>

definition paging_options :: "string \<Rightarrow> ir_expr list \<Rightarrow> (rstr, json) res" where
  "paging_options name args = (case get_at args 1 of
       Some (E_Literal v) \<Rightarrow>
         if is_object v then Inr v else fail_with (name @ '' paging options must be an object'')
     | Some _ \<Rightarrow> fail_with (name @ '' paging options must be an object'')
     | None \<Rightarrow> Inr (JObject [(Str (lit ''limit''), JNumber (PosInt 8)), (Str (lit ''offset''), JNumber (PosInt 0))]))"

definition compile_content_binbook_list ::
  "expr_parser \<Rightarrow> expr_compiler \<Rightarrow> frame_compiler \<Rightarrow> ir_expr list \<Rightarrow> unit comp" where
  "compile_content_binbook_list parse recur frame args =
     bind_exec (lift (validate_builtin_arg_count (lit ''content.binbook.list'') (length args))) (\<lambda>_.
     bind_exec (lift (ok_or (lit ''content.binbook.list requires a library'') (get_at args 0))) (\<lambda>library.
     bind_exec (recur frame library) (\<lambda>_.
     bind_exec (lift (paging_options ''content.binbook.list'' args)) (\<lambda>options.
       do_all [emit_i32_option parse recur frame options ''offset'',
         emit_i32_option parse recur frame options ''limit'',
         emit_builtin BUILTIN_CONTENT_BINBOOK_LIST]))))"

definition compile_binbook_chapters ::
  "expr_parser \<Rightarrow> expr_compiler \<Rightarrow> frame_compiler \<Rightarrow> ir_expr list \<Rightarrow> unit comp" where
  "compile_binbook_chapters parse recur frame args =
     bind_exec (lift (validate_builtin_arg_count (lit ''binbook.chapters'') (length args))) (\<lambda>_.
     bind_exec (lift (ok_or (lit ''binbook.chapters requires a book'') (get_at args 0))) (\<lambda>book.
     bind_exec (recur frame book) (\<lambda>_.
     bind_exec (lift (paging_options ''binbook.chapters'' args)) (\<lambda>options.
       do_all [emit_i32_option parse recur frame options ''offset'',
         emit_i32_option parse recur frame options ''limit'',
         emit_builtin BUILTIN_BINBOOK_CHAPTERS]))))"

definition compile_binbook_chapter ::
  "expr_compiler \<Rightarrow> frame_compiler \<Rightarrow> ir_expr list \<Rightarrow> unit comp" where
  "compile_binbook_chapter recur frame args =
     bind_exec (lift (validate_builtin_arg_count (lit ''binbook.chapter'') (length args))) (\<lambda>_.
     bind_exec (lift (ok_or (lit ''binbook.chapter requires a book'') (get_at args 0))) (\<lambda>book.
     bind_exec (lift (ok_or (lit ''binbook.chapter requires an index'') (get_at args 1))) (\<lambda>index.
       do_all [recur frame book, recur frame index, emit_builtin BUILTIN_BINBOOK_CHAPTER])))"

definition compile_file_copy ::
  "expr_parser \<Rightarrow> expr_compiler \<Rightarrow> frame_compiler \<Rightarrow> ir_expr list \<Rightarrow> unit comp" where
  "compile_file_copy parse recur frame args =
     bind_exec (lift (validate_builtin_arg_count (lit ''file.copy'') (length args))) (\<lambda>_.
     bind_exec (lift (ok_or (lit ''file.copy requires a source'') (get_at args 0))) (\<lambda>source.
     bind_exec (lift (case get_at args 1 of
         Some (E_Literal v) \<Rightarrow>
           if is_object v then Inr v
           else fail_with ''file.copy destination must be an object with library and name''
       | Some _ \<Rightarrow> fail_with ''file.copy destination must be an object with library and name''
       | None \<Rightarrow> fail_with ''file.copy requires a destination'')) (\<lambda>destination.
     bind_exec (lift (ok_or (lit ''file.copy destination requires library'')
       (Option.bind (json_get destination (lit ''library'')) expr_literal_string))) (\<lambda>library.
     bind_exec (lift (ok_or (lit ''file.copy destination requires name'')
       (json_get destination (lit ''name'')))) (\<lambda>name.
     bind_exec (lift (expr_from_json parse name ''file.copy destination name'')) (\<lambda>name.
       do_all [recur frame source, emit_string library, recur frame name,
         emit_builtin BUILTIN_FILE_COPY]))))))"

definition compile_call :: "expr_compiler \<Rightarrow> frame_compiler \<Rightarrow> ustr \<Rightarrow> ir_expr list \<Rightarrow> unit comp" where
  "compile_call recur frame name args =
     bind_exec (do_all (map (recur frame) args)) (\<lambda>_.
       case builtin_for_call_with_arg_count (str_bytes name) (length args) of
         Some builtin \<Rightarrow>
           bind_exec (lift (validate_builtin_arg_count (str_bytes name) (length args))) (\<lambda>_.
             emit_builtin builtin)
       | None \<Rightarrow>
           bind_exec (function_id name) (\<lambda>f.
           bind_exec (emit_ref OP_CALL_FUNCTION f) (\<lambda>_.
           bind_exec (lift (try_u16 ''too many args'' (length args))) write_u16)))"

text \<open>One level of \<open>compile_expr\<close>, its recursive calls made through \<open>recur\<close>.\<close>

fun compile_expr_step :: "expr_parser \<Rightarrow> expr_compiler \<Rightarrow> expr_compiler" where
  "compile_expr_step parse recur frame (E_Literal v) = compile_literal v"
| "compile_expr_step parse recur frame (E_State name) =
     bind_exec (state_id name) (\<lambda>i. emit_ref OP_GET_STATE i)"
| "compile_expr_step parse recur frame (E_Variable name) =
     bind_exec (lift (local_id frame name)) (\<lambda>i. emit_ref OP_GET_LOCAL i)"
| "compile_expr_step parse recur frame (E_Binary left operator right) =
     bind_exec (do_all [recur frame left, recur frame right]) (\<lambda>_.
     bind_exec (lift (opcode_for_operator operator)) emit)"
| "compile_expr_step parse recur frame (E_Unary operator e) =
     lift (fail_with ''unary result-record expressions are not in the reference firmware subset yet'')"
| "compile_expr_step parse recur frame (E_Field target field) =
     bind_exec (recur frame target) (\<lambda>_.
     bind_exec (on_table (intern field)) (\<lambda>i. emit_ref OP_GET_FIELD i))"
| "compile_expr_step parse recur frame (E_HardwareGpioRead name) =
     do_all [emit_string name, emit_builtin BUILTIN_HARDWARE_GPIO_READ]"
| "compile_expr_step parse recur frame E_ServiceIndicatorRead = emit_builtin BUILTIN_SERVICE_INDICATOR_READ"
| "compile_expr_step parse recur frame E_SystemMemory = emit_builtin BUILTIN_SYSTEM_MEMORY"
| "compile_expr_step parse recur frame (E_SystemStorage name) =
     do_all [emit_string name, emit_builtin BUILTIN_SYSTEM_STORAGE]"
| "compile_expr_step parse recur frame E_SystemStartReason = emit_builtin BUILTIN_SYSTEM_START_REASON"
| "compile_expr_step parse recur frame (E_Call name args) =
     (if str_bytes name = lit ''binbook.chapters'' then compile_binbook_chapters parse recur frame args
      else if str_bytes name = lit ''binbook.chapter'' then compile_binbook_chapter recur frame args
      else if str_bytes name = lit ''content.binbook.list'' then compile_content_binbook_list parse recur frame args
      else if str_bytes name = lit ''file.copy'' then compile_file_copy parse recur frame args
      else compile_call recur frame name args)"

primrec compile_expr_upto :: "nat \<Rightarrow> expr_parser \<Rightarrow> expr_compiler" where
  "compile_expr_upto 0 parse = (\<lambda>frame e. lift (Inl Panic))"
| "compile_expr_upto (Suc depth) parse = compile_expr_step parse (compile_expr_upto depth parse)"

definition compile_expr :: "expr_parser \<Rightarrow> expr_compiler" where
  "compile_expr parse frame e = compile_expr_upto (Suc (size e)) parse frame e"

section \<open>Statements\<close>

datatype statement_mode = Normal | DebugBlock

text \<open>Steps that leave the frame as it is.\<close>

definition keeping :: "frame_compiler \<Rightarrow> unit comp list \<Rightarrow> frame_compiler comp" where
  "keeping frame steps = bind_exec (do_all steps) (\<lambda>_. ret frame)"

text \<open>The parts of a \<open>repeat\<close> and of a \<open>for\<close> loop, up to the reserved jump targets.\<close>

definition repeat_test :: "u16 \<Rightarrow> unit comp" where
  "repeat_test counter =
     do_all [emit_ref OP_GET_LOCAL counter, emit_int 0, emit OP_GT, emit OP_JUMP_IF_FALSE]"

definition repeat_next :: "u16 \<Rightarrow> u32 \<Rightarrow> unit comp" where
  "repeat_next counter start =
     do_all [emit_ref OP_GET_LOCAL counter, emit_int 1, emit OP_SUB,
       emit_ref OP_SET_LOCAL counter, emit OP_JUMP, write_u32 start]"

definition for_limit :: "expr_parser \<Rightarrow> frame_compiler \<Rightarrow> ir_expr option \<Rightarrow> unit comp" where
  "for_limit parse frame limit =
     (case limit of Some e \<Rightarrow> compile_expr parse frame e | None \<Rightarrow> emit_int 2147483647)"

definition for_more :: "u16 \<Rightarrow> u16 \<Rightarrow> unit comp" where
  "for_more index_local list_local =
     do_all [emit_ref OP_GET_LOCAL index_local, emit_ref OP_GET_LOCAL list_local,
       emit OP_LIST_LEN, emit OP_LT, emit OP_JUMP_IF_FALSE]"

definition for_below_max :: "u16 \<Rightarrow> u16 \<Rightarrow> unit comp" where
  "for_below_max index_local max_local =
     do_all [emit_ref OP_GET_LOCAL index_local, emit_ref OP_GET_LOCAL max_local,
       emit OP_LT, emit OP_JUMP_IF_FALSE]"

definition for_item :: "u16 \<Rightarrow> u16 \<Rightarrow> u16 \<Rightarrow> unit comp" where
  "for_item list_local index_local item_local =
     do_all [emit_ref OP_GET_LOCAL list_local, emit_ref OP_GET_LOCAL index_local,
       emit OP_LIST_GET, emit_ref OP_SET_LOCAL item_local]"

definition for_next :: "u16 \<Rightarrow> u32 \<Rightarrow> unit comp" where
  "for_next index_local start =
     do_all [emit_ref OP_GET_LOCAL index_local, emit_int 1, emit OP_ADD,
       emit_ref OP_SET_LOCAL index_local, emit OP_JUMP, write_u32 start]"

text \<open>The display statements.\<close>

definition i32_options :: "expr_parser \<Rightarrow> frame_compiler \<Rightarrow> json \<Rightarrow> string list \<Rightarrow> unit comp list" where
  "i32_options parse frame options keys =
     map (emit_i32_option parse (compile_expr parse) frame options) keys"

definition optional_i32_options :: "expr_parser \<Rightarrow> frame_compiler \<Rightarrow> json \<Rightarrow> string list \<Rightarrow> unit comp list" where
  "optional_i32_options parse frame options keys =
     map (emit_optional_i32_option parse (compile_expr parse) frame options) keys"

definition display_text_steps :: "expr_parser \<Rightarrow> frame_compiler \<Rightarrow> ir_expr \<Rightarrow> json \<Rightarrow> unit comp list" where
  "display_text_steps parse frame t options =
     compile_expr parse frame t #
       i32_options parse frame options [''x'', ''y'', ''w'', ''h'', ''fontHeight''] @
       optional_i32_options parse frame options [''textColor'', ''backgroundColor''] @
       [emit_string_option options ''align'', emit_string_option options ''valign'',
        emit_builtin BUILTIN_DISPLAY_TEXT]"

definition display_rect_steps ::
  "expr_parser \<Rightarrow> frame_compiler \<Rightarrow> ir_expr \<Rightarrow> ir_expr \<Rightarrow> ir_expr \<Rightarrow> ir_expr \<Rightarrow> json \<Rightarrow> unit comp list" where
  "display_rect_steps parse frame x y w h options =
     map (compile_expr parse frame) [x, y, w, h] @
       optional_i32_options parse frame options [''fillColor'', ''strokeColor''] @
       [emit_builtin BUILTIN_DISPLAY_RECT]"

text \<open>\<open>x1 as i32\<close> keeps the low 32 bits.\<close>

definition display_line_steps ::
  "expr_parser \<Rightarrow> frame_compiler \<Rightarrow> i64 \<Rightarrow> i64 \<Rightarrow> i64 \<Rightarrow> i64 \<Rightarrow> json \<Rightarrow> unit comp list" where
  "display_line_steps parse frame x1 y1 x2 y2 options =
     [emit_int (ucast x1), emit_int (ucast y1), emit_int (ucast x2), emit_int (ucast y2)] @
       optional_i32_options parse frame options [''color''] @ [emit_builtin BUILTIN_DISPLAY_LINE]"

definition display_image_steps :: "expr_parser \<Rightarrow> frame_compiler \<Rightarrow> ustr \<Rightarrow> json \<Rightarrow> unit comp list" where
  "display_image_steps parse frame path options =
     emit_string path # i32_options parse frame options [''x'', ''y'', ''w'', ''h''] @
       [emit_builtin BUILTIN_DISPLAY_IMAGE]"

definition display_draw_steps :: "expr_parser \<Rightarrow> frame_compiler \<Rightarrow> ir_expr \<Rightarrow> json \<Rightarrow> unit comp list" where
  "display_draw_steps parse frame drawable options =
     compile_expr parse frame drawable # i32_options parse frame options [''x'', ''y'', ''w'', ''h''] @
       [emit_builtin BUILTIN_DISPLAY_DRAW]"

fun compile_statement ::
  "expr_parser \<Rightarrow> build_profile \<Rightarrow> statement_mode \<Rightarrow> frame_compiler \<Rightarrow> ir_statement \<Rightarrow> frame_compiler comp" and
  compile_statements_with_mode ::
  "expr_parser \<Rightarrow> build_profile \<Rightarrow> statement_mode \<Rightarrow> frame_compiler \<Rightarrow> ir_statement list \<Rightarrow> frame_compiler comp" where
  "compile_statements_with_mode parse profile mode frame [] = ret frame"
| "compile_statements_with_mode parse profile mode frame (s # ss) =
     bind_exec (compile_statement parse profile mode frame s) (\<lambda>frame.
       compile_statements_with_mode parse profile mode frame ss)"
| "compile_statement parse profile mode frame S_StateLoad = keeping frame [emit_builtin BUILTIN_STATE_LOAD]"
| "compile_statement parse profile mode frame S_StateSave = keeping frame [emit_builtin BUILTIN_STATE_SAVE]"
| "compile_statement parse profile mode frame S_StateReset = keeping frame [emit_builtin BUILTIN_STATE_RESET]"
| "compile_statement parse profile mode frame S_AppExit = keeping frame [emit_builtin BUILTIN_APP_EXIT]"
| "compile_statement parse profile mode frame (S_Assign name e) =
     bind_exec (compile_expr parse frame e) (\<lambda>_.
     bind_exec (lift (local_id frame name)) (\<lambda>i. keeping frame [emit_ref OP_SET_LOCAL i]))"
| "compile_statement parse profile mode frame (S_StateAssign name e) =
     bind_exec (compile_expr parse frame e) (\<lambda>_.
     bind_exec (state_id name) (\<lambda>i. keeping frame [emit_ref OP_SET_STATE i]))"
| "compile_statement parse profile mode frame (S_Let name e) =
     bind_exec (compile_expr parse frame e) (\<lambda>_.
     bind_exec (lift (define_local frame name)) (\<lambda>(i, frame). keeping frame [emit_ref OP_SET_LOCAL i]))"
| "compile_statement parse profile mode frame (S_If condition then_statements else_statements) =
     bind_exec (do_all [compile_expr parse frame condition, emit OP_JUMP_IF_FALSE]) (\<lambda>_.
     bind_exec reserve_u32 (\<lambda>else_patch.
     bind_exec (compile_statements_with_mode parse profile mode frame then_statements) (\<lambda>frame.
     bind_exec (emit OP_JUMP) (\<lambda>_.
     bind_exec reserve_u32 (\<lambda>end_patch.
     bind_exec (patch_u32 else_patch) (\<lambda>_.
     bind_exec (compile_statements_with_mode parse profile mode frame else_statements) (\<lambda>frame.
       keeping frame [patch_u32 end_patch])))))))"
| "compile_statement parse profile mode frame (S_Repeat count statements) =
     bind_exec (compile_expr parse frame count) (\<lambda>_.
     bind_exec (lift (define_local frame (Str (lit ''__repeat_counter'')))) (\<lambda>(counter, frame).
     bind_exec (emit_ref OP_SET_LOCAL counter) (\<lambda>_.
     bind_exec code_position (\<lambda>start.
     bind_exec (repeat_test counter) (\<lambda>_.
     bind_exec reserve_u32 (\<lambda>end_patch.
     bind_exec (compile_statements_with_mode parse profile mode frame statements) (\<lambda>frame.
       keeping frame [repeat_next counter start, patch_u32 end_patch])))))))"
| "compile_statement parse profile mode frame (S_Return e) =
     keeping frame [case e of Some e \<Rightarrow> compile_expr parse frame e | None \<Rightarrow> emit OP_PUSH_NULL, emit OP_RETURN]"
| "compile_statement parse profile mode frame (S_Call name args) =
     keeping frame [compile_call (compile_expr parse) frame name args, emit OP_POP]"
| "compile_statement parse profile mode frame (S_DebugPrint args) =
     (if profile = Dev then
        bind_exec (do_all (map (compile_expr parse frame) args @ [emit OP_CALL_BUILTIN, emit BUILTIN_DEBUG_PRINT])) (\<lambda>_.
          if length args \<le> 255 then keeping frame [emit (of_nat (length args))]
          else lift (fail_with ''too many args''))
      else ret frame)"
| "compile_statement parse profile mode frame (S_DebugBlock statements) =
     (if profile = Dev then
        bind_exec (compile_statements_with_mode parse profile DebugBlock (child_scope frame) statements)
          (\<lambda>debug_frame. ret (reserve_child_locals frame debug_frame))
      else ret frame)"
| "compile_statement parse profile mode frame (S_AppLaunch app) =
     keeping frame [compile_expr parse frame app, emit_builtin BUILTIN_APP_LAUNCH]"
| "compile_statement parse profile mode frame (S_AppArm app) =
     keeping frame [compile_expr parse frame app, emit_builtin BUILTIN_APP_ARM]"
| "compile_statement parse profile mode frame (S_AppDisarm app) =
     keeping frame [compile_expr parse frame app, emit_builtin BUILTIN_APP_DISARM]"
| "compile_statement parse profile mode frame (S_AppInstall file_ref app) =
     keeping frame ((case app of
         Some app_id \<Rightarrow> [emit_string app_id, compile_expr parse frame file_ref, emit_builtin BUILTIN_APP_INSTALL]
       | None \<Rightarrow> [compile_expr parse frame file_ref, emit_builtin BUILTIN_APP_INSTALL_METADATA]) @ [emit OP_POP])"
| "compile_statement parse profile mode frame (S_ServiceTimerEvery event interval_ms) =
     keeping frame [emit_string event, compile_expr parse frame interval_ms, emit_builtin BUILTIN_SERVICE_TIMER_EVERY]"
| "compile_statement parse profile mode frame (S_ServiceTimerAfter event delay_ms) =
     keeping frame [emit_string event, compile_expr parse frame delay_ms, emit_builtin BUILTIN_SERVICE_TIMER_AFTER]"
| "compile_statement parse profile mode frame (S_ServiceBleStart _ i _ _) =
     keeping frame [emit_string i, emit_builtin BUILTIN_SERVICE_BLE_START]"
| "compile_statement parse profile mode frame S_ServiceBleStop = keeping frame [emit_builtin BUILTIN_SERVICE_BLE_STOP]"
| "compile_statement parse profile mode frame (S_ServiceHttpStart _ i _ _) =
     keeping frame [emit_string i, emit_builtin BUILTIN_SERVICE_HTTP_START]"
| "compile_statement parse profile mode frame S_ServiceHttpStop = keeping frame [emit_builtin BUILTIN_SERVICE_HTTP_STOP]"
| "compile_statement parse profile mode frame (S_ServicePowerSleep wake_after_ms) =
     keeping frame [compile_expr parse frame wake_after_ms, emit_builtin BUILTIN_SERVICE_POWER_SLEEP]"
| "compile_statement parse profile mode frame (S_HardwareGpioWrite name v) =
     keeping frame [compile_expr parse frame v, emit_string name, emit_builtin BUILTIN_HARDWARE_GPIO_WRITE]"
| "compile_statement parse profile mode frame (S_HardwareGpioToggle name) =
     keeping frame [emit_string name, emit_builtin BUILTIN_HARDWARE_GPIO_TOGGLE]"
| "compile_statement parse profile mode frame (S_ServiceIndicatorWrite v) =
     keeping frame [compile_expr parse frame v, emit_builtin BUILTIN_SERVICE_INDICATOR_WRITE]"
| "compile_statement parse profile mode frame S_ServiceIndicatorToggle =
     keeping frame [emit_builtin BUILTIN_SERVICE_INDICATOR_TOGGLE]"
| "compile_statement parse profile mode frame S_ServiceIndicatorBreathe =
     keeping frame [emit_builtin BUILTIN_SERVICE_INDICATOR_BREATHE]"
| "compile_statement parse profile mode frame (S_ServiceIndicatorBlink on_ms off_ms) =
     keeping frame [compile_expr parse frame on_ms, compile_expr parse frame off_ms,
       emit_builtin BUILTIN_SERVICE_INDICATOR_BLINK]"
| "compile_statement parse profile mode frame (S_ScreenOpen screen) =
     keeping frame [emit_string screen, emit_builtin BUILTIN_SCREEN_OPEN]"
| "compile_statement parse profile mode frame S_ScreenRefresh = keeping frame [emit_builtin BUILTIN_SCREEN_REFRESH]"
| "compile_statement parse profile mode frame (S_For item lst limit statements) =
     bind_exec (compile_expr parse frame lst) (\<lambda>_.
     bind_exec (lift (define_local frame (Str (lit ''__for_list'')))) (\<lambda>(list_local, frame).
     bind_exec (do_all [emit_ref OP_SET_LOCAL list_local, emit_int 0]) (\<lambda>_.
     bind_exec (lift (define_local frame (Str (lit ''__for_index'')))) (\<lambda>(index_local, frame).
     bind_exec (do_all [emit_ref OP_SET_LOCAL index_local, for_limit parse frame limit]) (\<lambda>_.
     bind_exec (lift (define_local frame (Str (lit ''__for_max'')))) (\<lambda>(max_local, frame).
     bind_exec (emit_ref OP_SET_LOCAL max_local) (\<lambda>_.
     bind_exec (lift (define_local frame item)) (\<lambda>(item_local, frame).
     bind_exec code_position (\<lambda>start.
     bind_exec (for_more index_local list_local) (\<lambda>_.
     bind_exec reserve_u32 (\<lambda>end_patch.
     bind_exec (for_below_max index_local max_local) (\<lambda>_.
     bind_exec reserve_u32 (\<lambda>max_end_patch.
     bind_exec (for_item list_local index_local item_local) (\<lambda>_.
     bind_exec (compile_statements_with_mode parse profile mode frame statements) (\<lambda>frame.
       keeping frame [for_next index_local start, patch_u32 end_patch, patch_u32 max_end_patch])))))))))))))))"
| "compile_statement parse profile mode frame (S_DisplayClear color) =
     keeping frame [compile_expr parse frame color, emit_builtin BUILTIN_DISPLAY_CLEAR]"
| "compile_statement parse profile mode frame (S_DisplayText t options) =
     keeping frame (display_text_steps parse frame t options)"
| "compile_statement parse profile mode frame (S_DisplayRect x y w h options) =
     keeping frame (display_rect_steps parse frame x y w h options)"
| "compile_statement parse profile mode frame (S_DisplayLine x1 y1 x2 y2 options) =
     keeping frame (display_line_steps parse frame x1 y1 x2 y2 options)"
| "compile_statement parse profile mode frame (S_DisplaySelect name) =
     keeping frame [emit_string name, emit_builtin BUILTIN_DISPLAY_SELECT]"
| "compile_statement parse profile mode frame (S_DisplayRefreshMode draw_mode) =
     keeping frame [emit_string draw_mode, emit_builtin BUILTIN_DISPLAY_REFRESH_MODE]"
| "compile_statement parse profile mode frame (S_DisplayImage path options) =
     keeping frame (display_image_steps parse frame path options)"
| "compile_statement parse profile mode frame (S_DisplayDraw drawable options) =
     keeping frame (display_draw_steps parse frame drawable options)"

definition compile_statements ::
  "expr_parser \<Rightarrow> build_profile \<Rightarrow> frame_compiler \<Rightarrow> ir_statement list \<Rightarrow> frame_compiler comp" where
  "compile_statements parse profile frame statements =
     compile_statements_with_mode parse profile Normal frame statements"

end
