(* ===== verification/Sqbc_Encode.thy ===== *)
theory Sqbc_Encode
  imports Sqbc_Compile
begin

text \<open>
  From a program to an SQBC file (\<open>squidc-core/src/sqbc.rs\<close>): the compilation of functions,
  handlers and screens, the checks against the runtime's limits, the sections, and the
  container that holds them; and \<open>read_app_id\<close>, which reads the app id back out of a file.
\<close>

section \<open>Limits\<close>

definition check_frame_code_len :: "u32 \<Rightarrow> string \<Rightarrow> ustr \<Rightarrow> (rstr, unit) res" where
  "check_frame_code_len len kind name =
     (if unat len > MAX_CODE_CHUNK_BYTES
      then Inl (Err (lit kind @ lit '' '' @ [39] @ str_bytes name @ [39] @ lit '' compiles to '' @ decimal (unat len) @
        lit '' bytes of code, over the '' @ decimal MAX_CODE_CHUNK_BYTES @
        lit ''-byte per-block limit; split it into smaller functions''))
      else Inr ())"

fun check_counts :: "(string \<times> nat \<times> nat) list \<Rightarrow> (rstr, unit) res" where
  "check_counts [] = Inr ()"
| "check_counts ((label, count, most) # rest) =
     (if count > most
      then Inl (Err (lit ''app declares '' @ decimal count @ lit '' '' @ lit label @
        lit '', over the limit of '' @ decimal most))
      else check_counts rest)"

definition check_program_limits :: "ir_program \<Rightarrow> compile_unit \<Rightarrow> (rstr, unit) res" where
  "check_program_limits ir u =
     (let values = sb_values (cu_strings u);
          string_bytes = sum_list (map (\<lambda>v. length (str_bytes v)) values) in
      if string_bytes > MAX_PROGRAM_STRING_BYTES
      then Inl (Err (lit ''app uses '' @ decimal string_bytes @ lit '' bytes of string text, over the '' @
        decimal MAX_PROGRAM_STRING_BYTES @ lit ''-byte limit''))
      else if length values > MAX_STRINGS
      then Inl (Err (lit ''app uses '' @ decimal (length values) @
        lit '' distinct strings, over the limit of '' @ decimal MAX_STRINGS))
      else check_counts
        [(''functions'', length (ir_functions ir), MAX_FUNCTIONS),
         (''handlers'', length (ir_handlers ir), MAX_HANDLERS),
         (''screens'', length (ir_screens ir), MAX_SCREENS),
         (''state fields'', length (ir_state ir), MAX_STATE),
         (''timer triggers'', length (ir_triggers ir), MAX_TRIGGERS)])"

section \<open>Sections\<close>

text \<open>The number of rows, then the rows; the message of a missing string differs per table.\<close>

fun encode_rows :: "('r \<Rightarrow> (rstr, u8 list) res) \<Rightarrow> 'r list \<Rightarrow> (rstr, u8 list) res" where
  "encode_rows row [] = Inr []"
| "encode_rows row (r # rs) =
     and_then (row r) (\<lambda>bs. and_then (encode_rows row rs) (\<lambda>out. Inr (bs @ out)))"

definition encode_table ::
  "string \<Rightarrow> ('r \<Rightarrow> (rstr, u8 list) res) \<Rightarrow> 'r list \<Rightarrow> (rstr, u8 list) res" where
  "encode_table too_many row rs =
     and_then (try_u16 too_many (length rs)) (\<lambda>n.
     and_then (encode_rows row rs) (\<lambda>out. Inr (u16_le n @ out)))"

definition lookup_id :: "strtab \<Rightarrow> string \<Rightarrow> ustr \<Rightarrow> (rstr, u16) res" where
  "lookup_id strings missing v = ok_or (lit missing) (sb_ids strings v)"

definition string_id :: "strtab \<Rightarrow> ustr \<Rightarrow> (rstr, u16) res" where
  "string_id strings v = lookup_id strings ''unknown string'' v"

definition state_type_tag :: "ustr \<Rightarrow> (rstr, u8) res" where
  "state_type_tag value_type =
     (if str_bytes value_type = lit ''int'' then Inr STATE_TYPE_INT
      else if str_bytes value_type = lit ''bool'' then Inr STATE_TYPE_BOOL
      else if str_bytes value_type = lit ''string'' then Inr STATE_TYPE_STRING
      else fail_with ''unsupported state type'')"

definition encode_value :: "strtab \<Rightarrow> json \<Rightarrow> (rstr, u8 list) res" where
  "encode_value strings v =
     (if is_null v then Inr [VALUE_NULL] else
      case as_bool v of Some b \<Rightarrow> Inr [VALUE_BOOL, if b then 1 else 0]
    | None \<Rightarrow>
      case as_i64 v of Some n \<Rightarrow>
        and_then (try_i32 ''state integer out of i32 range'' n) (\<lambda>i. Inr (VALUE_I32 # u32_le i))
    | None \<Rightarrow>
      case as_str v of Some t \<Rightarrow>
        and_then (lookup_id strings ''missing string value'' t) (\<lambda>i. Inr (VALUE_STRING # u16_le i))
    | None \<Rightarrow> fail_with ''unsupported state value'')"

definition encode_state_row :: "strtab \<Rightarrow> ir_state_value \<Rightarrow> (rstr, u8 list) res" where
  "encode_state_row strings s =
     and_then (lookup_id strings ''missing state name string'' (sv_name s)) (\<lambda>i.
     and_then (state_type_tag (sv_value_type s)) (\<lambda>tag.
     and_then (encode_value strings (sv_value s)) (\<lambda>v.
       Inr (u16_le i @ [tag, if sv_nullable s then 1 else 0] @ v))))"

definition encode_state_section :: "ir_program \<Rightarrow> strtab \<Rightarrow> (rstr, u8 list) res" where
  "encode_state_section ir strings =
     encode_table ''too many state slots'' (encode_state_row strings) (ir_state ir)"

definition function_row_bytes :: "function_meta \<Rightarrow> u8 list" where
  "function_row_bytes f = u16_le (fm_name_id f) @ u16_le (fm_param_count f) @
     u16_le (fm_local_count f) @ u32_le (fm_start f) @ u32_le (fm_len f)"

text \<open>\<open>functions.len() as u16\<close> truncates.\<close>

definition encode_functions :: "function_meta list \<Rightarrow> u8 list" where
  "encode_functions fs = u16_le (of_nat (length fs)) @ concat (map function_row_bytes fs)"

definition handler_row_bytes :: "handler_meta \<Rightarrow> u8 list" where
  "handler_row_bytes h = u16_le (hm_event_id h) @ [if hm_preload h then 1 else 0, 0] @
     u16_le (hm_param_count h) @ u16_le (hm_local_count h) @ u32_le (hm_start h) @ u32_le (hm_len h)"

definition encode_handlers :: "handler_meta list \<Rightarrow> u8 list" where
  "encode_handlers hs = u16_le (of_nat (length hs)) @ concat (map handler_row_bytes hs)"

definition encode_trigger_row :: "strtab \<Rightarrow> ir_trigger \<Rightarrow> (rstr, u8 list) res" where
  "encode_trigger_row strings t =
     and_then (lookup_id strings ''unknown trigger event'' (it_event t)) (\<lambda>i.
       Inr (u16_le i @ [if it_repeating t then 1 else 0, 0] @ u32_le (it_interval_ms t)))"

definition encode_triggers :: "ir_program \<Rightarrow> strtab \<Rightarrow> (rstr, u8 list) res" where
  "encode_triggers ir strings =
     encode_table ''too many triggers'' (encode_trigger_row strings) (ir_triggers ir)"

definition screen_row_bytes :: "screen_meta \<Rightarrow> u8 list" where
  "screen_row_bytes s = u16_le (sm_name_id s) @ u32_le (sm_start s) @ u32_le (sm_len s)"

definition encode_screens :: "screen_meta list \<Rightarrow> u8 list" where
  "encode_screens ss = u16_le (of_nat (length ss)) @ concat (map screen_row_bytes ss)"

definition encode_app_meta :: "ir_program \<Rightarrow> (rstr, u8 list) res" where
  "encode_app_meta ir =
     (let app_id = str_bytes (ia_id (ir_app ir)); state_store = str_bytes (ir_state_store ir) in
      and_then (try_u16 ''app id too long'' (length app_id)) (\<lambda>n.
      and_then (try_u16 ''state store too long'' (length state_store)) (\<lambda>m.
        Inr (u16_le n @ app_id @ u16_le m @ state_store))))"

definition encode_binding_row :: "strtab \<Rightarrow> ir_device_binding \<Rightarrow> (rstr, u8 list) res" where
  "encode_binding_row strings b =
     and_then (lookup_id strings ''missing device service string'' (ib_service b)) (\<lambda>s.
     and_then (lookup_id strings ''missing device binding string'' (ib_binding b)) (\<lambda>i.
     and_then (lookup_id strings ''missing device resource string'' (ib_resource b)) (\<lambda>r.
       Inr (u16_le s @ u16_le i @ u16_le r))))"

definition encode_device_bindings :: "ir_program \<Rightarrow> strtab \<Rightarrow> (rstr, u8 list) res" where
  "encode_device_bindings ir strings =
     encode_table ''too many device bindings'' (encode_binding_row strings) (ir_device_bindings ir)"

section \<open>Service profiles\<close>

text \<open>A BLE or HTTP profile; the Rust structs \<open>BleProfile\<close> and \<open>HttpProfile\<close> have the same fields.\<close>

record service_profile =
  sp_profile :: ustr
  sp_id :: ustr
  sp_accept :: "ustr list"
  sp_events :: "(ustr \<times> ustr) list"

type_synonym profiles = "ustr set \<times> service_profile list"

definition note_profile :: "service_profile \<Rightarrow> profiles \<Rightarrow> profiles" where
  "note_profile p acc = (case acc of (seen, out) \<Rightarrow>
     if sp_id p \<in> seen then (seen, out) else (insert (sp_id p) seen, out @ [p]))"

fun collect_ble_in :: "ir_statement \<Rightarrow> profiles \<Rightarrow> profiles" where
  "collect_ble_in (S_ServiceBleStart profile i accept events) acc =
     note_profile \<lparr>sp_profile = profile, sp_id = i, sp_accept = accept, sp_events = events\<rparr> acc"
| "collect_ble_in (S_If _ ts es) acc = fold collect_ble_in es (fold collect_ble_in ts acc)"
| "collect_ble_in (S_Repeat _ ss) acc = fold collect_ble_in ss acc"
| "collect_ble_in (S_For _ _ _ ss) acc = fold collect_ble_in ss acc"
| "collect_ble_in (S_DebugBlock ss) acc = fold collect_ble_in ss acc"
| "collect_ble_in _ acc = acc"

fun collect_http_in :: "ir_statement \<Rightarrow> profiles \<Rightarrow> profiles" where
  "collect_http_in (S_ServiceHttpStart profile i accept events) acc =
     note_profile \<lparr>sp_profile = profile, sp_id = i, sp_accept = accept, sp_events = events\<rparr> acc"
| "collect_http_in (S_If _ ts es) acc = fold collect_http_in es (fold collect_http_in ts acc)"
| "collect_http_in (S_Repeat _ ss) acc = fold collect_http_in ss acc"
| "collect_http_in (S_For _ _ _ ss) acc = fold collect_http_in ss acc"
| "collect_http_in (S_DebugBlock ss) acc = fold collect_http_in ss acc"
| "collect_http_in _ acc = acc"

definition all_statements :: "ir_program \<Rightarrow> ir_statement list" where
  "all_statements ir = concat (map if_statements (ir_functions ir)) @
     concat (map ih_statements (ir_handlers ir)) @ concat (map is_statements (ir_screens ir))"

definition collect_ble_profiles :: "ir_program \<Rightarrow> service_profile list" where
  "collect_ble_profiles ir = snd (fold collect_ble_in (all_statements ir) ({}, []))"

definition collect_http_profiles :: "ir_program \<Rightarrow> service_profile list" where
  "collect_http_profiles ir = snd (fold collect_http_in (all_statements ir) ({}, []))"

definition id_bytes :: "strtab \<Rightarrow> ustr \<Rightarrow> (rstr, u8 list) res" where
  "id_bytes strings v = and_then (string_id strings v) (\<lambda>i. Inr (u16_le i))"

definition encode_profile_row :: "string \<Rightarrow> strtab \<Rightarrow> service_profile \<Rightarrow> (rstr, u8 list) res" where
  "encode_profile_row service strings p =
     and_then (encode_rows (id_bytes strings) [sp_profile p, sp_id p, Str (lit ''server'')]) (\<lambda>ids.
     and_then (encode_table (''too many '' @ service @ '' accept extensions'') (id_bytes strings)
       (sp_accept p)) (\<lambda>accept.
     and_then (encode_table (''too many '' @ service @ '' event routes'')
       (\<lambda>e. encode_rows (id_bytes strings) [fst e, snd e]) (sp_events p)) (\<lambda>events.
       Inr (ids @ accept @ events))))"

definition encode_ble_profiles :: "service_profile list \<Rightarrow> strtab \<Rightarrow> (rstr, u8 list) res" where
  "encode_ble_profiles ps strings =
     encode_table ''too many BLE profiles'' (encode_profile_row ''BLE'' strings) ps"

definition encode_http_profiles :: "service_profile list \<Rightarrow> strtab \<Rightarrow> (rstr, u8 list) res" where
  "encode_http_profiles ps strings =
     encode_table ''too many HTTP profiles'' (encode_profile_row ''HTTP'' strings) ps"

section \<open>The container\<close>

text \<open>The record of each section, and the offset at which the file ends.\<close>

fun section_records ::
  "u32 \<Rightarrow> (u16 \<times> u8 list) list \<Rightarrow> (rstr, (u16 \<times> u32 \<times> u32) list \<times> u32) res" where
  "section_records offset [] = Inr ([], offset)"
| "section_records offset ((kind, data) # rest) =
     and_then (try_u32 ''section too large'' (length data)) (\<lambda>n.
       if unat offset + unat n > 4294967295 then fail_with ''file too large''
       else and_then (section_records (offset + n) rest) (\<lambda>(records, stop).
         Inr ((kind, offset, n) # records, stop)))"

definition record_bytes :: "u16 \<times> u32 \<times> u32 \<Rightarrow> u8 list" where
  "record_bytes r = (case r of (kind, offset, n) \<Rightarrow> u16_le kind @ u16_le 0 @ u32_le offset @ u32_le n)"

definition encode_container :: "(u16 \<times> u8 list) list \<Rightarrow> (rstr, u8 list) res" where
  "encode_container sections =
     and_then (try_u32 ''too many sections'' (length sections)) (\<lambda>section_count.
     let header_len = SQBC_HEADER_LEN + length sections * 12 in
     and_then (try_u32 ''header too large'' header_len) (\<lambda>offset.
     and_then (section_records offset sections) (\<lambda>(records, stop).
     and_then (try_u16 ''header too large'' header_len) (\<lambda>hl.
       Inr (lit ''SQBC'' @ u16_le hl @ u32_le stop @ u32_le section_count @
         concat (map record_bytes records) @ concat (map snd sections))))))"

section \<open>Programs\<close>

text \<open>Number the names of a table; a later entry of the same name replaces the earlier.\<close>

fun number_names :: "string \<Rightarrow> nat \<Rightarrow> ustr list \<Rightarrow> (ustr \<Rightarrow> u16 option) \<Rightarrow> (rstr, ustr \<Rightarrow> u16 option) res" where
  "number_names too_many i [] ids = Inr ids"
| "number_names too_many i (v # vs) ids =
     and_then (try_u16 too_many i) (\<lambda>n. number_names too_many (Suc i) vs (ids(v \<mapsto> n)))"

text \<open>
  The code of one frame: its start, the statements, the closing instructions, and the length,
  checked against the limit.  The name is interned first.
\<close>

definition compile_frame ::
  "expr_parser \<Rightarrow> build_profile \<Rightarrow> string \<Rightarrow> ustr \<Rightarrow> (rstr, frame_compiler) res \<Rightarrow> ir_statement list \<Rightarrow>
   u8 list \<Rightarrow> (u16 \<times> frame_compiler \<times> u32 \<times> u32) comp" where
  "compile_frame parse profile kind name frame statements closing =
     bind_exec (on_table (intern name)) (\<lambda>name_id.
     bind_exec code_position (\<lambda>start.
     bind_exec (lift frame) (\<lambda>frame.
     bind_exec (compile_statements parse profile frame statements) (\<lambda>frame.
     bind_exec (do_all (map emit closing)) (\<lambda>_.
     bind_exec code_position (\<lambda>stop.
     bind_exec (lift (check_frame_code_len (stop - start) kind name)) (\<lambda>_.
       ret (name_id, frame, start, stop - start))))))))"

definition compile_function :: "expr_parser \<Rightarrow> build_profile \<Rightarrow> ir_function \<Rightarrow> unit comp" where
  "compile_function parse profile f =
     bind_exec (compile_frame parse profile ''function'' (if_name f) (with_params (if_params f))
       (if_statements f) [OP_PUSH_NULL, OP_RETURN]) (\<lambda>(name_id, frame, start, len).
     bind_exec (lift (try_u16 ''too many params'' (length (if_params f)))) (\<lambda>param_count.
       modify (\<lambda>u. u\<lparr>cu_function_metas := cu_function_metas u @
         [\<lparr>fm_name_id = name_id, fm_param_count = param_count, fm_local_count = fc_next_local frame,
           fm_start = start, fm_len = len\<rparr>]\<rparr>)))"

definition handler_params :: "ir_handler \<Rightarrow> ustr list" where
  "handler_params h = (case ih_param h of Some p \<Rightarrow> [p] | None \<Rightarrow> [])"

definition compile_handler :: "expr_parser \<Rightarrow> build_profile \<Rightarrow> ir_handler \<Rightarrow> unit comp" where
  "compile_handler parse profile h =
     bind_exec (compile_frame parse profile ''handler'' (ih_event h) (with_params (handler_params h))
       (ih_statements h) [OP_HALT]) (\<lambda>(event_id, frame, start, len).
     bind_exec (lift (try_u16 ''too many handler params'' (length (handler_params h)))) (\<lambda>param_count.
       modify (\<lambda>u. u\<lparr>cu_handler_metas := cu_handler_metas u @
         [\<lparr>hm_event_id = event_id, hm_param_count = param_count, hm_local_count = fc_next_local frame,
           hm_preload = ih_preload h, hm_start = start, hm_len = len\<rparr>]\<rparr>)))"

definition compile_screen :: "expr_parser \<Rightarrow> build_profile \<Rightarrow> ir_screen \<Rightarrow> unit comp" where
  "compile_screen parse profile s =
     bind_exec (compile_frame parse profile ''screen'' (is_name s) (Inr frame_default)
       (is_statements s) [OP_HALT]) (\<lambda>(name_id, frame, start, len).
       modify (\<lambda>u. u\<lparr>cu_screen_metas := cu_screen_metas u @
         [\<lparr>sm_name_id = name_id, sm_start = start, sm_len = len\<rparr>]\<rparr>))"

definition compile_unit_of :: "expr_parser \<Rightarrow> ir_program \<Rightarrow> build_profile \<Rightarrow> unit comp" where
  "compile_unit_of parse ir profile =
     bind_exec (on_table (collect_strings ir profile)) (\<lambda>_.
     bind_exec (lift (number_names ''too many state slots'' 0 (map sv_name (ir_state ir)) (\<lambda>_. None))) (\<lambda>states.
     bind_exec (modify (\<lambda>u. u\<lparr>cu_states := states\<rparr>)) (\<lambda>_.
     bind_exec (lift (number_names ''too many functions'' 0 (map if_name (ir_functions ir)) (\<lambda>_. None))) (\<lambda>functions.
     bind_exec (modify (\<lambda>u. u\<lparr>cu_functions := functions\<rparr>)) (\<lambda>_.
       do_all [do_all (map (compile_function parse profile) (ir_functions ir)),
         do_all (map (compile_handler parse profile) (ir_handlers ir)),
         do_all (map (compile_screen parse profile) (ir_screens ir))])))))"

definition encode_sections :: "ir_program \<Rightarrow> compile_unit \<Rightarrow> (rstr, (u16 \<times> u8 list) list) res" where
  "encode_sections ir u =
     (let strings = cu_strings u in
      and_then (encode_app_meta ir) (\<lambda>app_meta.
      and_then (encode_device_bindings ir strings) (\<lambda>bindings.
      and_then (strtab_encode strings) (\<lambda>string_bytes.
      and_then (encode_state_section ir strings) (\<lambda>state.
      and_then (encode_triggers ir strings) (\<lambda>triggers.
      and_then (encode_ble_profiles (collect_ble_profiles ir) strings) (\<lambda>ble.
      and_then (encode_http_profiles (collect_http_profiles ir) strings) (\<lambda>http.
        Inr [(SECTION_APP_META, app_meta), (SECTION_DEVICE_BINDINGS, bindings),
             (SECTION_STRINGS, string_bytes), (SECTION_STATE, state),
             (SECTION_FUNCTIONS, encode_functions (cu_function_metas u)),
             (SECTION_TRIGGERS, triggers), (SECTION_BLE_PROFILES, ble), (SECTION_HTTP_PROFILES, http),
             (SECTION_HANDLERS, encode_handlers (cu_handler_metas u)),
             (SECTION_SCREENS, encode_screens (cu_screen_metas u)), (SECTION_CODE, cu_code u)]))))))))"

definition encode_sqbc_with_profile ::
  "expr_parser \<Rightarrow> ir_program \<Rightarrow> build_profile \<Rightarrow> (rstr, u8 list) res" where
  "encode_sqbc_with_profile parse ir profile =
     (case compile_unit_of parse ir profile unit_default of
        (Inl e, _) \<Rightarrow> Inl e
      | (Inr _, u) \<Rightarrow>
          and_then (check_program_limits ir u) (\<lambda>_.
          and_then (encode_sections ir u) (\<lambda>sections.
          and_then (encode_container sections) (\<lambda>bytes.
            if length bytes > MAX_APP_BYTES
            then Inl (Err (lit ''app compiles to '' @ decimal (length bytes) @ lit '' bytes, over the '' @
              decimal MAX_APP_BYTES @ lit ''-byte limit''))
            else Inr bytes))))"

definition encode_sqbc :: "expr_parser \<Rightarrow> ir_program \<Rightarrow> (rstr, u8 list) res" where
  "encode_sqbc parse ir = encode_sqbc_with_profile parse ir Dev"

section \<open>Reading the app id\<close>

definition read_u16_at :: "u8 list \<Rightarrow> nat \<Rightarrow> (rstr, u16) res" where
  "read_u16_at bytes offset =
     and_then (ok_or (lit ''unexpected end of SQBC'') (get_range bytes offset (offset + 2))) (\<lambda>raw. Inr (of_le raw))"

definition read_u32_at :: "u8 list \<Rightarrow> nat \<Rightarrow> (rstr, u32) res" where
  "read_u32_at bytes offset =
     and_then (ok_or (lit ''unexpected end of SQBC'') (get_range bytes offset (offset + 4))) (\<lambda>raw. Inr (of_le raw))"

fun find_section :: "u8 list \<Rightarrow> u16 \<Rightarrow> nat list \<Rightarrow> (rstr, u8 list option) res" where
  "find_section bytes kind [] = Inr None"
| "find_section bytes kind (index # rest) =
     (let record_offset = SQBC_HEADER_LEN + index * 12 in
      and_then (read_u16_at bytes record_offset) (\<lambda>k.
        if k \<noteq> kind then find_section bytes kind rest else
        and_then (read_u32_at bytes (record_offset + 4)) (\<lambda>off.
        and_then (read_u32_at bytes (record_offset + 8)) (\<lambda>n.
        and_then (ok_or (lit ''invalid section bounds'') (checked_add (unat off) (unat n))) (\<lambda>stop.
        and_then (ok_or (lit ''invalid section bounds'') (get_range bytes (unat off) stop)) (\<lambda>section.
          Inr (Some section)))))))"

definition section_of :: "u8 list \<Rightarrow> nat \<Rightarrow> u16 \<Rightarrow> (rstr, u8 list option) res" where
  "section_of bytes section_count kind = find_section bytes kind [0..<section_count]"

definition read_app_id :: "u8 list \<Rightarrow> (rstr, rstr option) res" where
  "read_app_id bytes =
     (if length bytes < SQBC_HEADER_LEN \<or> take 4 bytes \<noteq> lit ''SQBC'' then fail_with ''invalid SQBC header'' else
      and_then (read_u16_at bytes 4) (\<lambda>header_len.
      and_then (read_u32_at bytes 6) (\<lambda>file_len.
      and_then (read_u32_at bytes 10) (\<lambda>section_count.
        if unat file_len \<noteq> length bytes \<or> unat header_len \<noteq> SQBC_HEADER_LEN + unat section_count * 12 \<or>
           unat header_len > length bytes
        then fail_with ''invalid SQBC header'' else
        and_then (section_of bytes (unat section_count) SECTION_APP_META) (\<lambda>section. case section of
          None \<Rightarrow> Inr None
        | Some meta \<Rightarrow>
            if length meta < 2 then fail_with ''invalid app metadata section'' else
            and_then (read_u16_at meta 0) (\<lambda>n.
            and_then (ok_or (lit ''invalid app metadata section'') (checked_add 2 (unat n))) (\<lambda>stop.
              if stop > length meta then fail_with ''invalid app metadata section'' else
              and_then (ok_or (lit ''app id is not utf-8'') (from_utf8 (take (stop - 2) (drop 2 meta)))) (\<lambda>app_id.
                Inr (Some app_id)))))))))"

end
