(* ===== verification/Sqbc_Code.thy ===== *)
theory Sqbc_Code
  imports Sqbc_Encode "HOL-Library.Sublist"
begin

text \<open>
  The shape of compiled code.  \<open>instr\<close> is the instruction set as data and \<open>asm\<close> its
  encoding; the theory shows that every body the compiler emits is the encoding of a list of
  instructions whose operands are in range (\<open>refs_ok\<close>: strings of the table, declared states
  and functions, locals of the frame) and whose jumps lead to the start of an instruction
  of the same body or to its end (\<open>block_ok\<close>).

  \<open>wrote u bs u'\<close> is what every step of the compiler does to the unit: it appends \<open>bs\<close> to
  the code and strings to the table, and changes nothing else.  Patching a reserved jump
  target is the one exception; it stays inside what the statement itself has written.
\<close>

section \<open>The string table\<close>

definition strtab_ok :: "strtab \<Rightarrow> bool" where
  "strtab_ok t \<longleftrightarrow> length (sb_values t) \<le> 65536 \<and>
     (\<forall>v i. sb_ids t v = Some i \<longleftrightarrow> unat i < length (sb_values t) \<and> sb_values t ! unat i = v)"

definition strtab_grew :: "strtab \<Rightarrow> strtab \<Rightarrow> bool" where
  "strtab_grew t t' \<longleftrightarrow> prefix (sb_values t) (sb_values t') \<and> (strtab_ok t \<longrightarrow> strtab_ok t')"

lemma strtab_grew_refl [simp]: "strtab_grew t t"
  by (simp add: strtab_grew_def)

lemma strtab_grew_trans [trans]: "strtab_grew t t' \<Longrightarrow> strtab_grew t' t'' \<Longrightarrow> strtab_grew t t''"
  by (auto simp: strtab_grew_def)

lemma strtab_default_ok [simp]: "strtab_ok strtab_default"
  by (simp add: strtab_ok_def strtab_default_def)

lemma strtab_idsD: "strtab_ok t \<Longrightarrow> sb_ids t v = Some i \<Longrightarrow> unat i < length (sb_values t) \<and> sb_values t ! unat i = v"
  by (simp add: strtab_ok_def)

lemma strtab_ids_grew:
  assumes "strtab_ok t" "strtab_grew t t'" "sb_ids t v = Some i"
  shows "sb_ids t' v = Some i"
  using assms by (auto simp: strtab_ok_def strtab_grew_def prefix_def nth_append)

lemma strtab_distinct:
  assumes "strtab_ok t" shows "distinct (sb_values t)"
  unfolding distinct_conv_nth
proof (intro allI impI notI)
  fix i j
  assume ij: "i < length (sb_values t)" "j < length (sb_values t)" "i \<noteq> j"
    and eq: "sb_values t ! i = sb_values t ! j"
  have small: "unat (of_nat i :: u16) = i" "unat (of_nat j :: u16) = j"
    using assms ij by (auto simp: strtab_ok_def unat_of_nat)
  have "sb_ids t (sb_values t ! i) = Some (of_nat i)" "sb_ids t (sb_values t ! i) = Some (of_nat j)"
    using assms ij eq small by (simp_all add: strtab_ok_def)
  with small ij(3) show False by (metis option.inject)
qed

lemma intern_grew:
  assumes "intern v t = (r, t')"
  shows "strtab_grew t t'" "r \<noteq> Inl Panic" "r = Inr i \<Longrightarrow> sb_ids t' v = Some i"
proof -
  have cases: "(\<exists>k. sb_ids t v = Some k \<and> r = Inr k \<and> t' = t) \<or>
      (sb_ids t v = None \<and> length (sb_values t) \<le> 65535 \<and> r = Inr (of_nat (length (sb_values t))) \<and>
        t' = t\<lparr>sb_values := sb_values t @ [v], sb_ids := (sb_ids t)(v \<mapsto> of_nat (length (sb_values t)))\<rparr>) \<or>
      (t' = t \<and> (\<exists>e. r = Inl (Err e)))"
    using assms by (auto simp: intern_def try_u16_def fail_with_def split: option.splits if_splits)
  have "strtab_ok t'" if ok: "strtab_ok t" and fresh: "sb_ids t v = None" and n: "length (sb_values t) \<le> 65535"
    and t': "t' = t\<lparr>sb_values := sb_values t @ [v], sb_ids := (sb_ids t)(v \<mapsto> of_nat (length (sb_values t)))\<rparr>"
  proof -
    have u: "unat (of_nat (length (sb_values t)) :: u16) = length (sb_values t)"
      using n by (simp add: unat_of_nat)
    have "v \<notin> set (sb_values t)"
    proof
      assume "v \<in> set (sb_values t)"
      then obtain k where "k < length (sb_values t)" "sb_values t ! k = v" by (auto simp: in_set_conv_nth)
      with ok n have "sb_ids t v = Some (of_nat k)" by (simp add: strtab_ok_def unat_of_nat)
      with fresh show False by simp
    qed
    with ok n u show ?thesis
      by (auto simp: strtab_ok_def t' nth_append in_set_conv_nth less_Suc_eq word_unat_eq_iff)
  qed
  with cases show "strtab_grew t t'" by (auto simp: strtab_grew_def)
  from cases show "r \<noteq> Inl Panic" "r = Inr i \<Longrightarrow> sb_ids t' v = Some i" by auto
qed

section \<open>Instructions\<close>

datatype instr =
    PushInt i32 | PushBool bool | PushString u16 | PushNull
  | GetState u16 | SetState u16 | GetLocal u16 | SetLocal u16 | GetField u16
  | BinaryOp u8 | Jump u32 | JumpIfFalse u32
  | CallFunction u16 u16 | ReturnTop | HaltFrame | CallBuiltin u8 | DebugPrintTop u8
  | PopTop | ListLen | ListGet

fun asm1 :: "instr \<Rightarrow> u8 list" where
  "asm1 (PushInt v) = OP_PUSH_INT # u32_le v"
| "asm1 (PushBool b) = [OP_PUSH_BOOL, if b then 1 else 0]"
| "asm1 (PushString i) = OP_PUSH_STRING # u16_le i"
| "asm1 PushNull = [OP_PUSH_NULL]"
| "asm1 (GetState i) = OP_GET_STATE # u16_le i"
| "asm1 (SetState i) = OP_SET_STATE # u16_le i"
| "asm1 (GetLocal i) = OP_GET_LOCAL # u16_le i"
| "asm1 (SetLocal i) = OP_SET_LOCAL # u16_le i"
| "asm1 (GetField i) = OP_GET_FIELD # u16_le i"
| "asm1 (BinaryOp op) = [op]"
| "asm1 (Jump t) = OP_JUMP # u32_le t"
| "asm1 (JumpIfFalse t) = OP_JUMP_IF_FALSE # u32_le t"
| "asm1 (CallFunction f n) = OP_CALL_FUNCTION # u16_le f @ u16_le n"
| "asm1 ReturnTop = [OP_RETURN]"
| "asm1 HaltFrame = [OP_HALT]"
| "asm1 (CallBuiltin b) = [OP_CALL_BUILTIN, b]"
| "asm1 (DebugPrintTop n) = [OP_CALL_BUILTIN, BUILTIN_DEBUG_PRINT, n]"
| "asm1 PopTop = [OP_POP]"
| "asm1 ListLen = [OP_LIST_LEN]"
| "asm1 ListGet = [OP_LIST_GET]"

definition asm :: "instr list \<Rightarrow> u8 list" where
  "asm is = concat (map asm1 is)"

lemma asm_simps [simp]: "asm [] = []" "asm (i # is) = asm1 i @ asm is" "asm (xs @ ys) = asm xs @ asm ys"
  by (simp_all add: asm_def)

lemma asm1_nonempty [simp]: "asm1 i \<noteq> []"
  by (cases i) simp_all

definition binary_opcodes :: "u8 list" where
  "binary_opcodes = [OP_ADD, OP_SUB, OP_EQ, OP_NE, OP_LT, OP_LTE, OP_GT, OP_GTE]"

text \<open>The builtins the compiler emits with no operand of their own.\<close>

definition plain_builtins :: "u8 list" where
  "plain_builtins = [BUILTIN_STATE_LOAD, BUILTIN_STATE_SAVE, BUILTIN_STATE_RESET, BUILTIN_SYSTEM_MEMORY,
     BUILTIN_SYSTEM_STORAGE, BUILTIN_SYSTEM_START_REASON, BUILTIN_APP_EXIT, BUILTIN_APP_LAUNCH,
     BUILTIN_APP_ARM, BUILTIN_APP_DISARM, BUILTIN_APP_INSTALL, BUILTIN_APP_INSTALL_METADATA,
     BUILTIN_SCREEN_OPEN, BUILTIN_SCREEN_REFRESH, BUILTIN_SERVICE_TIMER_EVERY, BUILTIN_SERVICE_TIMER_AFTER,
     BUILTIN_DISPLAY_CLEAR, BUILTIN_DISPLAY_TEXT, BUILTIN_DISPLAY_RECT, BUILTIN_DISPLAY_LINE,
     BUILTIN_DISPLAY_SELECT, BUILTIN_DISPLAY_IMAGE, BUILTIN_DISPLAY_DRAW, BUILTIN_DISPLAY_REFRESH_MODE,
     BUILTIN_HARDWARE_GPIO_WRITE, BUILTIN_HARDWARE_GPIO_TOGGLE, BUILTIN_HARDWARE_GPIO_READ,
     BUILTIN_SERVICE_INDICATOR_WRITE, BUILTIN_SERVICE_INDICATOR_TOGGLE, BUILTIN_SERVICE_INDICATOR_READ,
     BUILTIN_SERVICE_INDICATOR_BREATHE, BUILTIN_SERVICE_INDICATOR_BLINK, BUILTIN_SERVICE_POWER_SLEEP,
     BUILTIN_SERVICE_BLE_START, BUILTIN_SERVICE_BLE_STOP, BUILTIN_SERVICE_HTTP_START,
     BUILTIN_SERVICE_HTTP_STOP] @ map snd BUILTIN_CALLS"

lemma builtin_for_call_plain:
  assumes "builtin_for_call_with_arg_count name n = Some b"
  shows "b \<in> set plain_builtins"
proof (cases "name = lit ''app.install''")
  case True
  with assms show ?thesis
    by (auto simp: builtin_for_call_with_arg_count_def plain_builtins_def split: if_splits)
next
  case False
  with assms have "(name, b) \<in> set BUILTIN_CALLS"
    by (auto simp: builtin_for_call_with_arg_count_def builtin_for_call_def dest: map_of_SomeD)
  then have "b \<in> set (map snd BUILTIN_CALLS)" by force
  then show ?thesis unfolding plain_builtins_def set_append by blast
qed

section \<open>What a step writes\<close>

definition grew :: "compile_unit \<Rightarrow> compile_unit \<Rightarrow> bool" where
  "grew u u' \<longleftrightarrow> strtab_grew (cu_strings u) (cu_strings u') \<and>
     cu_states u' = cu_states u \<and> cu_functions u' = cu_functions u \<and>
     cu_function_metas u' = cu_function_metas u \<and> cu_handler_metas u' = cu_handler_metas u \<and>
     cu_screen_metas u' = cu_screen_metas u"

definition wrote :: "compile_unit \<Rightarrow> u8 list \<Rightarrow> compile_unit \<Rightarrow> bool" where
  "wrote u bs u' \<longleftrightarrow> cu_code u' = cu_code u @ bs \<and> grew u u'"

definition tables_ok :: "compile_unit \<Rightarrow> bool" where
  "tables_ok u \<longleftrightarrow> strtab_ok (cu_strings u)"

lemma grew_refl [simp]: "grew u u"
  by (simp add: grew_def)

lemma grew_trans [trans]: "grew u u' \<Longrightarrow> grew u' u'' \<Longrightarrow> grew u u''"
  by (auto simp: grew_def intro: strtab_grew_trans)

lemma grew_tables: "grew u u' \<Longrightarrow> tables_ok u \<Longrightarrow> tables_ok u'"
  by (simp add: grew_def tables_ok_def strtab_grew_def)

lemma wrote_refl [simp]: "wrote u [] u"
  by (simp add: wrote_def)

lemma wrote_trans: "wrote u bs u' \<Longrightarrow> wrote u' cs u'' \<Longrightarrow> wrote u (bs @ cs) u''"
  by (auto simp: wrote_def intro: grew_trans)

lemma wrote_grew: "wrote u bs u' \<Longrightarrow> grew u u'"
  by (simp add: wrote_def)

lemma wrote_code: "wrote u bs u' \<Longrightarrow> cu_code u' = cu_code u @ bs"
  by (simp add: wrote_def)

lemma wrote_tables: "wrote u bs u' \<Longrightarrow> tables_ok u \<Longrightarrow> tables_ok u'"
  by (blast intro: wrote_grew grew_tables)

text \<open>The operands an instruction may have in unit \<open>u\<close> and a frame of \<open>n\<close> locals.\<close>

fun refs_ok :: "compile_unit \<Rightarrow> nat \<Rightarrow> instr \<Rightarrow> bool" where
  "refs_ok u n (PushString i) = (unat i < length (sb_values (cu_strings u)))"
| "refs_ok u n (GetField i) = (unat i < length (sb_values (cu_strings u)))"
| "refs_ok u n (GetState i) = (i \<in> ran (cu_states u))"
| "refs_ok u n (SetState i) = (i \<in> ran (cu_states u))"
| "refs_ok u n (GetLocal i) = (unat i < n)"
| "refs_ok u n (SetLocal i) = (unat i < n)"
| "refs_ok u n (BinaryOp op) = (op \<in> set binary_opcodes)"
| "refs_ok u n (CallFunction f _) = (f \<in> ran (cu_functions u))"
| "refs_ok u n (CallBuiltin b) = (b \<in> set plain_builtins)"
| "refs_ok u n _ = True"

lemma refs_ok_mono:
  assumes "refs_ok u n i" "grew u u'" "n \<le> n'"
  shows "refs_ok u' n' i"
  using assms by (cases i) (auto simp: grew_def strtab_grew_def dest: prefix_length_le)

fun jump_target :: "instr \<Rightarrow> u32 option" where
  "jump_target (Jump t) = Some t"
| "jump_target (JumpIfFalse t) = Some t"
| "jump_target _ = None"

text \<open>The starts of the instructions of a block that begins at \<open>base\<close>, and its end.\<close>

fun starts :: "nat \<Rightarrow> instr list \<Rightarrow> nat set" where
  "starts base [] = {base}"
| "starts base (i # is) = insert base (starts (base + length (asm1 i)) is)"

lemma starts_ends [simp]: "base \<in> starts base is" "base + length (asm is) \<in> starts base is"
  by (induction "is" arbitrary: base) (auto simp: add.assoc [symmetric])

lemma starts_append: "starts base (xs @ ys) = starts base xs \<union> starts (base + length (asm xs)) ys"
  by (induction xs arbitrary: base) (auto simp: add.assoc)

definition block_ok :: "compile_unit \<Rightarrow> nat \<Rightarrow> nat \<Rightarrow> instr list \<Rightarrow> bool" where
  "block_ok u n base is \<longleftrightarrow> (\<forall>i \<in> set is. refs_ok u n i \<and>
     (\<forall>t. jump_target i = Some t \<longrightarrow> unat t \<in> starts base is))"

text \<open>Code without jumps, whatever its position.\<close>

definition straight_ok :: "compile_unit \<Rightarrow> nat \<Rightarrow> instr list \<Rightarrow> bool" where
  "straight_ok u n is \<longleftrightarrow> (\<forall>i \<in> set is. refs_ok u n i \<and> jump_target i = None)"

lemma straight_block: "straight_ok u n is \<Longrightarrow> block_ok u n base is"
  by (simp add: straight_ok_def block_ok_def)

lemma straight_simps [simp]:
  "straight_ok u n []"
  "straight_ok u n (i # is) \<longleftrightarrow> refs_ok u n i \<and> jump_target i = None \<and> straight_ok u n is"
  "straight_ok u n (xs @ ys) \<longleftrightarrow> straight_ok u n xs \<and> straight_ok u n ys"
  by (auto simp: straight_ok_def)

lemma straight_mono: "straight_ok u n is \<Longrightarrow> grew u u' \<Longrightarrow> n \<le> n' \<Longrightarrow> straight_ok u' n' is"
  by (auto simp: straight_ok_def intro: refs_ok_mono)

lemma block_append:
  "block_ok u n base xs \<Longrightarrow> block_ok u n (base + length (asm xs)) ys \<Longrightarrow> block_ok u n base (xs @ ys)"
  by (auto simp: block_ok_def starts_append)

lemma block_mono: "block_ok u n base is \<Longrightarrow> grew u u' \<Longrightarrow> n \<le> n' \<Longrightarrow> block_ok u' n' base is"
  by (auto simp: block_ok_def intro: refs_ok_mono)


section \<open>Straight code\<close>

text \<open>A step that, when it succeeds, has written instructions without jumps.\<close>

definition straight :: "nat \<Rightarrow> unit comp \<Rightarrow> bool" where
  "straight n m \<longleftrightarrow> (\<forall>u u'. tables_ok u \<longrightarrow> m u = (Inr (), u') \<longrightarrow>
     (\<exists>is. wrote u (asm is) u' \<and> straight_ok u' n is))"

named_theorems straight_intros

lemma straightI:
  "(\<And>u u'. tables_ok u \<Longrightarrow> m u = (Inr (), u') \<Longrightarrow> \<exists>is. wrote u (asm is) u' \<and> straight_ok u' n is) \<Longrightarrow> straight n m"
  by (simp add: straight_def)

lemma straightD:
  assumes "straight n m" "m u = (Inr (), u')" "tables_ok u"
  obtains "is" where "wrote u (asm is) u'" "straight_ok u' n is"
  using assms by (auto simp: straight_def)

lemma straight_bind:
  assumes "straight n m" "straight n m'"
  shows "straight n (bind_exec m (\<lambda>_. m'))"
proof (rule straightI)
  fix u u'' assume u: "tables_ok u" and "bind_exec m (\<lambda>_. m') u = (Inr (), u'')"
  then obtain u' where m: "m u = (Inr (), u')" "m' u' = (Inr (), u'')"
    by (auto dest!: bind_exec_InrD)
  from straightD [OF assms(1) m(1) u] obtain xs where xs: "wrote u (asm xs) u'" "straight_ok u' n xs" .
  from straightD [OF assms(2) m(2) wrote_tables [OF xs(1) u]] obtain ys
    where ys: "wrote u' (asm ys) u''" "straight_ok u'' n ys" .
  have "wrote u (asm (xs @ ys)) u'' \<and> straight_ok u'' n (xs @ ys)"
    using xs ys by (auto intro: wrote_trans straight_mono wrote_grew)
  then show "\<exists>is. wrote u (asm is) u'' \<and> straight_ok u'' n is" by blast
qed

lemma straight_do_all [straight_intros]:
  "(\<And>m. m \<in> set ms \<Longrightarrow> straight n m) \<Longrightarrow> straight n (do_all ms)"
proof (induction ms)
  case Nil
  show ?case by (rule straightI) (auto intro: exI [of _ "[]"])
next
  case (Cons m ms)
  then show ?case by (simp add: straight_bind)
qed

text \<open>After a step that changes nothing, and after interning a string.\<close>

lemma straight_lift:
  "(\<And>v. r = Inr v \<Longrightarrow> straight n (f v)) \<Longrightarrow> straight n (bind_exec (lift r) f)"
  by (cases r) (auto simp: straight_def)

lemma straight_lift_fail [straight_intros]: "straight n (lift (fail_with message))"
  by (simp add: straight_def fail_with_def)

text \<open>The bytes of one instruction.\<close>

lemma put_wrote: "wrote u bs (u\<lparr>cu_code := cu_code u @ bs\<rparr>)"
  by (simp add: wrote_def grew_def)

lemma straight_instr:
  assumes "\<And>u. tables_ok u \<Longrightarrow> m u = (Inr (), u\<lparr>cu_code := cu_code u @ asm1 i\<rparr>)"
    and "\<And>u. tables_ok u \<Longrightarrow> refs_ok u n i" and "jump_target i = None"
  shows "straight n m"
proof (rule straightI)
  fix u u' assume u: "tables_ok u" and m: "m u = (Inr (), u')"
  from m assms(1) [OF u] have u': "u' = u\<lparr>cu_code := cu_code u @ asm1 i\<rparr>" by simp
  have "tables_ok u'" using u by (simp add: u' tables_ok_def)
  with assms(2,3) have "straight_ok u' n [i]" by simp
  moreover have "wrote u (asm [i]) u'" using put_wrote [of u "asm1 i"] by (simp add: u')
  ultimately show "\<exists>is. wrote u (asm is) u' \<and> straight_ok u' n is" by blast
qed

declare do_all.simps [simp del]

lemmas writes = do_all.simps emit_bool_def emit_def write_u16_def write_u32_def write_i32_def emit_bytes_def emit_int_def
  emit_builtin_def emit_ref_def

lemma straight_plain [straight_intros]:
  "straight n (emit OP_PUSH_NULL)" "straight n (emit OP_POP)" "straight n (emit OP_RETURN)"
  "straight n (emit OP_LIST_LEN)" "straight n (emit OP_LIST_GET)"
  "straight n (emit_int v)"
  "b \<in> set plain_builtins \<Longrightarrow> straight n (emit_builtin b)"
  "op \<in> set binary_opcodes \<Longrightarrow> straight n (emit op)"
  "unat i < n \<Longrightarrow> straight n (emit_ref OP_GET_LOCAL i)"
  "unat i < n \<Longrightarrow> straight n (emit_ref OP_SET_LOCAL i)"
  "straight n (emit_bool t)"
proof -
  show "straight n (emit OP_PUSH_NULL)" by (rule straight_instr [of _ PushNull]) (simp_all add: writes)
  show "straight n (emit OP_POP)" by (rule straight_instr [of _ PopTop]) (simp_all add: writes)
  show "straight n (emit OP_RETURN)" by (rule straight_instr [of _ ReturnTop]) (simp_all add: writes)
  show "straight n (emit OP_LIST_LEN)" by (rule straight_instr [of _ ListLen]) (simp_all add: writes)
  show "straight n (emit OP_LIST_GET)" by (rule straight_instr [of _ ListGet]) (simp_all add: writes)
  show "straight n (emit_int v)" by (rule straight_instr [of _ "PushInt v"]) (simp_all add: writes)
  show "b \<in> set plain_builtins \<Longrightarrow> straight n (emit_builtin b)"
    by (rule straight_instr [of _ "CallBuiltin b"]) (simp_all add: writes)
  show "op \<in> set binary_opcodes \<Longrightarrow> straight n (emit op)"
    by (rule straight_instr [of _ "BinaryOp op"]) (simp_all add: writes)
  show "unat i < n \<Longrightarrow> straight n (emit_ref OP_GET_LOCAL i)"
    by (rule straight_instr [of _ "GetLocal i"]) (simp_all add: writes)
  show "unat i < n \<Longrightarrow> straight n (emit_ref OP_SET_LOCAL i)"
    by (rule straight_instr [of _ "SetLocal i"]) (simp_all add: writes)
  show "straight n (emit_bool t)"
    by (rule straight_instr [of _ "PushBool t"]) (simp_all add: writes)
qed

lemma interned:
  assumes "on_table (intern v) u = (Inr i, u')" "tables_ok u"
  shows "wrote u [] u'" "unat i < length (sb_values (cu_strings u'))" "sb_ids (cu_strings u') v = Some i"
proof -
  obtain t where m: "intern v (cu_strings u) = (Inr i, t)" and u': "u' = u\<lparr>cu_strings := t\<rparr>"
    using assms(1) by (auto simp: on_table_def split: prod.splits)
  show grew: "wrote u [] u'"
    using intern_grew(1) [OF m] by (simp add: wrote_def grew_def u')
  show ids: "sb_ids (cu_strings u') v = Some i" using intern_grew(3) [OF m] by (simp add: u')
  from wrote_tables [OF grew assms(2)] ids show "unat i < length (sb_values (cu_strings u'))"
    by (auto simp: tables_ok_def dest: strtab_idsD)
qed

lemma straight_intern:
  assumes "\<And>i. asm1 (f i) = op # u16_le i" and "\<And>u i. refs_ok u n (f i) \<longleftrightarrow> unat i < length (sb_values (cu_strings u))"
    and "\<And>i. jump_target (f i) = None"
  shows "straight n (bind_exec (on_table (intern v)) (\<lambda>i. emit_ref op i))"
proof (rule straightI)
  fix u u'' assume u: "tables_ok u"
    and m: "bind_exec (on_table (intern v)) (\<lambda>i. emit_ref op i) u = (Inr (), u'')"
  from bind_exec_InrD [OF m] obtain i u' where i: "on_table (intern v) u = (Inr i, u')"
    and u'': "u'' = u'\<lparr>cu_code := cu_code u' @ asm1 (f i)\<rparr>"
    by (auto simp: writes assms(1))
  note known = interned [OF i u]
  have "wrote u (asm [f i]) u''"
    using wrote_trans [OF known(1) put_wrote [of u' "asm1 (f i)"]] by (simp add: u'')
  moreover have "straight_ok u'' n [f i]" using known(2) assms(2,3) by (simp add: u'')
  ultimately show "\<exists>is. wrote u (asm is) u'' \<and> straight_ok u'' n is" by blast
qed

lemma straight_string [straight_intros]:
  "straight n (emit_string v)"
  "straight n (bind_exec (on_table (intern field)) (\<lambda>i. emit_ref OP_GET_FIELD i))"
proof -
  show "straight n (emit_string v)"
    unfolding emit_string_def by (rule straight_intern [of PushString]) simp_all
  show "straight n (bind_exec (on_table (intern field)) (\<lambda>i. emit_ref OP_GET_FIELD i))"
    by (rule straight_intern [of GetField]) simp_all
qed

text \<open>An id looked up in the unit.\<close>

lemma straight_known:
  assumes "\<And>u i. tab u name = Some i \<Longrightarrow> straight_ok u n (f i)"
    and "\<And>u i bs. straight_ok u n (f i) = straight_ok (u\<lparr>cu_code := bs\<rparr>) n (f i)"
    and "\<And>i u. g i u = (Inr (), u\<lparr>cu_code := cu_code u @ asm (f i)\<rparr>)"
  shows "straight n (bind_exec (bind_exec (gets (\<lambda>u. tab u name)) (\<lambda>i. lift (ok_or e i))) g)"
proof (rule straightI)
  fix u u' assume "bind_exec (bind_exec (gets (\<lambda>u. tab u name)) (\<lambda>i. lift (ok_or e i))) g u = (Inr (), u')"
  then obtain i where i: "tab u name = Some i" and u': "u' = u\<lparr>cu_code := cu_code u @ asm (f i)\<rparr>"
    by (auto dest!: bind_exec_InrD simp: assms(3))
  show "\<exists>is. wrote u (asm is) u' \<and> straight_ok u' n is"
    using put_wrote [of u "asm (f i)"] assms(1) [OF i] assms(2) [of u i "cu_code u @ asm (f i)"]
    by (auto simp: u')
qed

lemma refs_ok_code [simp]: "refs_ok (u\<lparr>cu_code := bs\<rparr>) n i = refs_ok u n i"
  by (cases i) simp_all

lemma straight_ok_code [simp]: "straight_ok (u\<lparr>cu_code := bs\<rparr>) n is = straight_ok u n is"
  by (simp add: straight_ok_def)

lemma straight_state [straight_intros]:
  "straight n (bind_exec (state_id name) (\<lambda>i. emit_ref OP_GET_STATE i))"
  "straight n (bind_exec (state_id name) (\<lambda>i. emit_ref OP_SET_STATE i))"
proof -
  show "straight n (bind_exec (state_id name) (\<lambda>i. emit_ref OP_GET_STATE i))"
    unfolding state_id_def
    by (rule straight_known [where tab = cu_states and f = "\<lambda>i. [GetState i]"]) (auto simp: writes ran_def)
  show "straight n (bind_exec (state_id name) (\<lambda>i. emit_ref OP_SET_STATE i))"
    unfolding state_id_def
    by (rule straight_known [where tab = cu_states and f = "\<lambda>i. [SetState i]"]) (auto simp: writes ran_def)
qed

lemma straight_call_function [straight_intros]:
  "straight n (bind_exec (function_id name) (\<lambda>f.
     bind_exec (emit_ref OP_CALL_FUNCTION f) (\<lambda>_.
     bind_exec (lift (try_u16 ''too many args'' k)) write_u16)))"
proof (cases "k \<le> 65535")
  case True
  then have *: "bind_exec (lift (try_u16 ''too many args'' k)) write_u16 = write_u16 (of_nat k)"
    by (simp add: try_u16_def fun_eq_iff)
  show ?thesis
    unfolding function_id_def *
    by (rule straight_known [where tab = cu_functions and f = "\<lambda>i. [CallFunction i (of_nat k)]"])
      (auto simp: writes ran_def bind_exec_def)
next
  case False
  then show ?thesis
    by (auto simp: straight_def try_u16_def fail_with_def dest!: bind_exec_InrD)
qed

section \<open>Expressions\<close>

definition frame_ok :: "frame_compiler \<Rightarrow> bool" where
  "frame_ok frame \<longleftrightarrow> (\<forall>name i. fc_locals frame name = Some i \<longrightarrow> unat i < unat (fc_next_local frame))"

abbreviation local_count :: "frame_compiler \<Rightarrow> nat" where
  "local_count frame \<equiv> unat (fc_next_local frame)"

lemma straight_push_int [straight_intros]:
  "straight n (bind_exec (emit OP_PUSH_INT) (\<lambda>_. bind_exec (lift r) write_i32))"
proof (cases r)
  case (Inl e)
  then show ?thesis by (auto simp: straight_def dest!: bind_exec_InrD)
next
  case (Inr w)
  show ?thesis by (rule straight_instr [of _ "PushInt w"]) (simp_all add: Inr writes)
qed

lemma straight_literal [straight_intros]: "straight n (compile_literal v)"
  unfolding compile_literal_def by (auto split: option.splits intro!: straight_intros)

lemma straight_numeric [straight_intros]:
  assumes "\<And>e. straight n (recur frame e)"
  shows "straight n (emit_numeric_option parse recur frame v)"
  unfolding emit_numeric_option_def by (auto split: option.splits intro!: straight_intros straight_lift assms)

lemma straight_options [straight_intros]:
  assumes "\<And>e. straight n (recur frame e)"
  shows "straight n (emit_i32_option parse recur frame options key)"
    "straight n (emit_optional_i32_option parse recur frame options key)"
    "straight n (emit_string_option options key)"
  unfolding emit_i32_option_def emit_optional_i32_option_def emit_string_option_def
  by (auto split: option.splits intro!: straight_intros assms)

lemma straight_compile_call [straight_intros]:
  assumes "\<And>e. straight n (recur frame e)"
  shows "straight n (compile_call recur frame name args)"
  unfolding compile_call_def
  by (rule straight_bind)
    (auto split: option.splits intro!: straight_intros straight_lift assms dest: builtin_for_call_plain)

lemma straight_special_calls [straight_intros]:
  assumes "\<And>e. straight n (recur frame e)"
  shows "straight n (compile_content_binbook_list parse recur frame args)"
    "straight n (compile_binbook_chapters parse recur frame args)"
    "straight n (compile_binbook_chapter recur frame args)"
    "straight n (compile_file_copy parse recur frame args)"
  unfolding compile_content_binbook_list_def compile_binbook_chapters_def compile_binbook_chapter_def
    compile_file_copy_def
  by (auto intro!: straight_lift straight_bind straight_intros assms simp: plain_builtins_def BUILTIN_CALLS_def)

lemma opcode_binary: "opcode_for_operator operator = Inr op \<Longrightarrow> op \<in> set binary_opcodes"
  by (auto simp: opcode_for_operator_def binary_opcodes_def split: option.splits if_splits)

lemma straight_step:
  assumes "\<And>e. straight (local_count frame) (recur frame e)" and "frame_ok frame"
  shows "straight (local_count frame) (compile_expr_step parse recur frame e)"
proof (cases e)
  case (E_Variable name)
  show ?thesis
    unfolding E_Variable compile_expr_step.simps
  proof (rule straight_lift)
    fix i assume "local_id frame name = Inr i"
    with assms(2) have "unat i < local_count frame" by (auto simp: local_id_def frame_ok_def)
    then show "straight (local_count frame) (emit_ref OP_GET_LOCAL i)" by (rule straight_plain)
  qed
next
  case (E_Binary left operator right)
  show ?thesis
    unfolding E_Binary compile_expr_step.simps
    by (rule straight_bind)
      (auto intro!: straight_intros assms straight_lift dest: opcode_binary)
qed (auto intro!: straight_intros straight_bind assms(1) simp: plain_builtins_def)

lemma straight_expr [straight_intros]:
  assumes "frame_ok frame"
  shows "straight (local_count frame) (compile_expr parse frame e)"
proof -
  have "straight (local_count frame) (compile_expr_upto k parse frame e)" for k e
  proof (induction k arbitrary: e)
    case 0
    show ?case by (simp add: straight_def)
  next
    case (Suc k)
    show ?case unfolding compile_expr_upto.simps
      by (rule straight_step [where recur = "compile_expr_upto k parse"], rule Suc.IH, rule assms)
  qed
  then show ?thesis unfolding compile_expr_def by blast
qed

section \<open>Statements\<close>

definition frame_grew :: "frame_compiler \<Rightarrow> frame_compiler \<Rightarrow> bool" where
  "frame_grew frame frame' \<longleftrightarrow> (frame_ok frame \<longrightarrow> frame_ok frame') \<and> local_count frame \<le> local_count frame' \<and>
     (\<forall>name i. fc_locals frame name = Some i \<longrightarrow> fc_locals frame' name = Some i)"

lemma frame_grew_refl [simp]: "frame_grew frame frame"
  by (simp add: frame_grew_def)

lemma frame_grew_trans [trans]: "frame_grew f g \<Longrightarrow> frame_grew g h \<Longrightarrow> frame_grew f h"
  by (auto simp: frame_grew_def intro: order_trans)

lemma frame_grew_ok: "frame_grew f g \<Longrightarrow> frame_ok f \<Longrightarrow> frame_ok g"
  by (simp add: frame_grew_def)

lemma frame_grew_le: "frame_grew f g \<Longrightarrow> local_count f \<le> local_count g"
  by (simp add: frame_grew_def)

lemma define_local_grew:
  assumes "define_local frame name = Inr (i, frame')" "frame_ok frame"
  shows "frame_grew frame frame'" "unat i < local_count frame'" "fc_locals frame' name = Some i"
proof -
  let ?n = "fc_next_local frame"
  consider (old) "fc_locals frame name = Some i" "frame' = frame"
    | (new) "fc_locals frame name = None" "unat ?n + 1 \<le> 65535" "i = ?n"
        "frame' = frame\<lparr>fc_next_local := ?n + 1, fc_locals := (fc_locals frame)(name \<mapsto> ?n)\<rparr>"
    using assms(1)
    by (auto simp: define_local_def fail_with_def Let_def not_less split: option.splits if_splits)
  then have "frame_grew frame frame' \<and> unat i < local_count frame' \<and> fc_locals frame' name = Some i"
  proof cases
    case old
    with assms(2) show ?thesis by (auto simp: frame_ok_def)
  next
    case new
    have "unat (?n + 1) = unat ?n + 1" using new(2) by (simp add: unat_word_ariths)
    with new assms(2) show ?thesis by (fastforce simp: frame_grew_def frame_ok_def)
  qed
  then show "frame_grew frame frame'" "unat i < local_count frame'" "fc_locals frame' name = Some i"
    by simp_all
qed

text \<open>
  A statement, or a list of them: what it writes is a block whose jumps stay inside, for the
  frame it returns.
\<close>

definition makes_block :: "frame_compiler \<Rightarrow> frame_compiler comp \<Rightarrow> bool" where
  "makes_block frame m \<longleftrightarrow> (\<forall>u frame' u'. tables_ok u \<longrightarrow> frame_ok frame \<longrightarrow> m u = (Inr frame', u') \<longrightarrow>
     frame_grew frame frame' \<and>
     (\<exists>is. wrote u (asm is) u' \<and> block_ok u' (local_count frame') (length (cu_code u)) is))"

lemma makes_blockI:
  "(\<And>u frame' u'. tables_ok u \<Longrightarrow> frame_ok frame \<Longrightarrow> m u = (Inr frame', u') \<Longrightarrow> frame_grew frame frame' \<and>
     (\<exists>is. wrote u (asm is) u' \<and> block_ok u' (local_count frame') (length (cu_code u)) is)) \<Longrightarrow> makes_block frame m"
  by (simp add: makes_block_def)

lemma makes_blockD:
  assumes "makes_block frame m" "m u = (Inr frame', u')" "tables_ok u" "frame_ok frame"
  obtains "is" where "frame_grew frame frame'" "wrote u (asm is) u'"
    "block_ok u' (local_count frame') (length (cu_code u)) is"
  using assms unfolding makes_block_def by blast

text \<open>Straight code first, then a block, in a frame that may have grown.\<close>

lemma makes_block_straight:
  assumes "straight (local_count frame') m" "frame_grew frame frame'" "frame_ok frame \<Longrightarrow> makes_block frame' k"
  shows "makes_block frame (bind_exec m (\<lambda>_. k))"
proof (rule makes_blockI)
  fix u frame'' u'' assume u: "tables_ok u" "frame_ok frame" and run: "bind_exec m (\<lambda>_. k) u = (Inr frame'', u'')"
  from bind_exec_InrD [OF run] obtain u' where m: "m u = (Inr (), u')" "k u' = (Inr frame'', u'')" by auto
  from straightD [OF assms(1) m(1) u(1)] obtain xs
    where xs: "wrote u (asm xs) u'" "straight_ok u' (local_count frame') xs" .
  from makes_blockD [OF assms(3) [OF u(2)] m(2) wrote_tables [OF xs(1) u(1)] frame_grew_ok [OF assms(2) u(2)]]
  obtain ys where ys: "frame_grew frame' frame''" "wrote u' (asm ys) u''"
    "block_ok u'' (local_count frame'') (length (cu_code u')) ys" .
  have "block_ok u'' (local_count frame'') (length (cu_code u)) xs"
    using xs ys by (blast intro: straight_block straight_mono wrote_grew frame_grew_le)
  moreover have "length (cu_code u') = length (cu_code u) + length (asm xs)"
    using wrote_code [OF xs(1)] by simp
  ultimately have "block_ok u'' (local_count frame'') (length (cu_code u)) (xs @ ys)"
    using ys(3) by (simp add: block_append)
  moreover have "wrote u (asm (xs @ ys)) u''" using wrote_trans [OF xs(1) ys(2)] by simp
  ultimately show "frame_grew frame frame'' \<and>
      (\<exists>is. wrote u (asm is) u'' \<and> block_ok u'' (local_count frame'') (length (cu_code u)) is)"
    using frame_grew_trans [OF assms(2) ys(1)] by blast
qed

lemma makes_block_ret [simp]: "makes_block frame (ret frame)"
  by (rule makes_blockI) (auto intro: exI [of _ "[]"] simp: block_ok_def)

lemma makes_block_lift:
  "(\<And>v. frame_ok frame \<Longrightarrow> r = Inr v \<Longrightarrow> makes_block frame (f v)) \<Longrightarrow> makes_block frame (bind_exec (lift r) f)"
  by (cases r) (auto simp: makes_block_def)

lemma makes_block_keeping:
  "(frame_ok frame \<Longrightarrow> \<forall>m \<in> set ms. straight (local_count frame) m) \<Longrightarrow> makes_block frame (keeping frame ms)"
proof (cases "frame_ok frame")
  case True
  assume "frame_ok frame \<Longrightarrow> \<forall>m \<in> set ms. straight (local_count frame) m"
  with True show ?thesis
    unfolding keeping_def by (intro makes_block_straight [where frame' = frame] straight_do_all) auto
qed (simp add: makes_block_def)

lemma makes_block_seq:
  assumes "makes_block frame m" "\<And>frame'. frame_grew frame frame' \<Longrightarrow> makes_block frame' (k frame')"
  shows "makes_block frame (bind_exec m k)"
proof (rule makes_blockI)
  fix u frame'' u'' assume u: "tables_ok u" "frame_ok frame" and run: "bind_exec m k u = (Inr frame'', u'')"
  from bind_exec_InrD [OF run] obtain frame' u' where m: "m u = (Inr frame', u')" "k frame' u' = (Inr frame'', u'')" by auto
  from makes_blockD [OF assms(1) m(1) u] obtain xs where xs: "frame_grew frame frame'" "wrote u (asm xs) u'"
    "block_ok u' (local_count frame') (length (cu_code u)) xs" .
  from makes_blockD [OF assms(2) [OF xs(1)] m(2) wrote_tables [OF xs(2) u(1)] frame_grew_ok [OF xs(1) u(2)]]
  obtain ys where ys: "frame_grew frame' frame''" "wrote u' (asm ys) u''"
    "block_ok u'' (local_count frame'') (length (cu_code u')) ys" .
  have "block_ok u'' (local_count frame'') (length (cu_code u)) xs"
    using xs ys by (blast intro: block_mono wrote_grew frame_grew_le)
  moreover have "length (cu_code u') = length (cu_code u) + length (asm xs)"
    using wrote_code [OF xs(2)] by simp
  ultimately have "block_ok u'' (local_count frame'') (length (cu_code u)) (xs @ ys)"
    using ys(3) by (simp add: block_append)
  moreover have "wrote u (asm (xs @ ys)) u''" using wrote_trans [OF xs(2) ys(2)] by simp
  ultimately show "frame_grew frame frame'' \<and>
      (\<exists>is. wrote u (asm is) u'' \<and> block_ok u'' (local_count frame'') (length (cu_code u)) is)"
    using frame_grew_trans [OF xs(1) ys(1)] by blast
qed

text \<open>Defining a local, then going on in the frame that has it.\<close>

lemma makes_block_define:
  assumes "\<And>i frame'. frame_ok frame \<Longrightarrow> define_local frame name = Inr (i, frame') \<Longrightarrow> frame_grew frame frame' \<Longrightarrow>
    unat i < local_count frame' \<Longrightarrow> makes_block frame' (f (i, frame'))"
  shows "makes_block frame (bind_exec (lift (define_local frame name)) f)"
proof (rule makes_blockI)
  fix u frame'' u'' assume u: "tables_ok u" "frame_ok frame"
    and run: "bind_exec (lift (define_local frame name)) f u = (Inr frame'', u'')"
  then obtain i frame' where d: "define_local frame name = Inr (i, frame')" and f: "f (i, frame') u = (Inr frame'', u'')"
    by (auto dest!: bind_exec_InrD)
  note known = define_local_grew [OF d u(2)]
  from makes_blockD [OF assms [OF u(2) d known(1,2)] f u(1) frame_grew_ok [OF known(1) u(2)]]
  obtain "is" where "frame_grew frame' frame''" "wrote u (asm is) u''"
    "block_ok u'' (local_count frame'') (length (cu_code u)) is" .
  then show "frame_grew frame frame'' \<and>
      (\<exists>is. wrote u (asm is) u'' \<and> block_ok u'' (local_count frame'') (length (cu_code u)) is)"
    using frame_grew_trans [OF known(1)] by blast
qed

text \<open>A reserved jump target is filled in with the position reached.\<close>

lemma reserve_wrote:
  assumes "reserve_u32 u = (Inr p, u')"
  shows "p = length (cu_code u)" "wrote u (u32_le 0) u'"
  using assms put_wrote [of u "u32_le 0"] by (auto simp: reserve_u32_def writes)

lemma patch_wrote:
  assumes "patch_u32 p u' = (Inr (), u'')" "wrote u (xs @ u32_le w @ ys) u'" "p = length (cu_code u) + length xs"
  obtains t where "unat t = length (cu_code u')" "wrote u (xs @ u32_le t @ ys) u''" "grew u' u''"
proof -
  let ?t = "of_nat (length (cu_code u')) :: u32"
  from assms(1) have small: "length (cu_code u') \<le> 4294967295"
    and u'': "u'' = u'\<lparr>cu_code := splice (cu_code u') p (u32_le ?t)\<rparr>"
    by (auto simp: patch_u32_def try_u32_def fail_with_def split: if_splits)
  have "splice (cu_code u') p (u32_le ?t) = cu_code u @ xs @ u32_le ?t @ ys"
    using wrote_code [OF assms(2)] assms(3) by (simp add: splice_def)
  with u'' wrote_grew [OF assms(2)] have "wrote u (xs @ u32_le ?t @ ys) u''" "grew u' u''"
    by (simp_all add: wrote_def grew_def)
  moreover have "unat ?t = length (cu_code u')" using small by (simp add: unat_of_nat)
  ultimately show thesis using that by blast
qed

lemma emit_wrote: "emit b u = (Inr (), u') \<Longrightarrow> wrote u [b] u'"
  using put_wrote [of u "[b]"] by (auto simp: writes)

definition tests :: "nat \<Rightarrow> unit comp \<Rightarrow> bool" where
  "tests n m \<longleftrightarrow> (\<forall>u u'. tables_ok u \<longrightarrow> m u = (Inr (), u') \<longrightarrow>
     (\<exists>is. wrote u (asm is @ [OP_JUMP_IF_FALSE]) u' \<and> straight_ok u' n is))"

definition jumps_back :: "nat \<Rightarrow> u32 \<Rightarrow> unit comp \<Rightarrow> bool" where
  "jumps_back n t m \<longleftrightarrow> (\<forall>u u'. tables_ok u \<longrightarrow> m u = (Inr (), u') \<longrightarrow>
     (\<exists>is. wrote u (asm (is @ [Jump t])) u' \<and> straight_ok u' n is))"

lemma testsD:
  assumes "tests n m" "m u = (Inr (), u')" "tables_ok u"
  obtains "is" where "wrote u (asm is @ [OP_JUMP_IF_FALSE]) u'" "straight_ok u' n is"
  using assms unfolding tests_def by blast

lemma jumps_backD:
  assumes "jumps_back n t m" "m u = (Inr (), u')" "tables_ok u"
  obtains "is" where "wrote u (asm (is @ [Jump t])) u'" "straight_ok u' n is"
  using assms unfolding jumps_back_def by blast

lemma do_all_append: "do_all (xs @ ys) = bind_exec (do_all xs) (\<lambda>_. do_all ys)"
proof (induction xs)
  case Nil
  show ?case by (rule ext) (simp add: do_all.simps bind_exec_def)
next
  case (Cons m ms)
  then show ?case
    by (auto simp: do_all.simps fun_eq_iff bind_exec_def split: prod.splits sum.splits)
qed

lemma do_all_one [simp]: "do_all [m] = m"
  by (auto simp: do_all.simps fun_eq_iff bind_exec_def split: prod.splits sum.splits)

lemma tests_do_all:
  assumes "\<And>m. m \<in> set ms \<Longrightarrow> straight n m"
  shows "tests n (do_all (ms @ [emit OP_JUMP_IF_FALSE]))"
  unfolding tests_def
proof (intro allI impI)
  fix u u'' assume u: "tables_ok u" and "do_all (ms @ [emit OP_JUMP_IF_FALSE]) u = (Inr (), u'')"
  then obtain u' where m: "do_all ms u = (Inr (), u')" and e: "emit OP_JUMP_IF_FALSE u' = (Inr (), u'')"
    by (auto simp: do_all_append dest!: bind_exec_InrD)
  from straightD [OF straight_do_all [OF assms] m u] obtain xs where xs: "wrote u (asm xs) u'" "straight_ok u' n xs"
    by blast
  show "\<exists>is. wrote u (asm is @ [OP_JUMP_IF_FALSE]) u'' \<and> straight_ok u'' n is"
    using wrote_trans [OF xs(1) emit_wrote [OF e]] straight_mono [OF xs(2) wrote_grew [OF emit_wrote [OF e]]] by blast
qed

lemma jumps_back_do_all:
  assumes "\<And>m. m \<in> set ms \<Longrightarrow> straight n m"
  shows "jumps_back n t (do_all (ms @ [emit OP_JUMP, write_u32 t]))"
  unfolding jumps_back_def
proof (intro allI impI)
  fix u u'' assume u: "tables_ok u" and "do_all (ms @ [emit OP_JUMP, write_u32 t]) u = (Inr (), u'')"
  then obtain u' where m: "do_all ms u = (Inr (), u')" and u'': "u'' = u'\<lparr>cu_code := cu_code u' @ asm1 (Jump t)\<rparr>"
    by (auto simp: do_all_append writes dest!: bind_exec_InrD)
  from straightD [OF straight_do_all [OF assms] m u] obtain xs where xs: "wrote u (asm xs) u'" "straight_ok u' n xs"
    by blast
  show "\<exists>is. wrote u (asm (is @ [Jump t])) u'' \<and> straight_ok u'' n is"
    using wrote_trans [OF xs(1) put_wrote [of u' "asm1 (Jump t)"]] xs(2) by (auto simp: u'')
qed

lemma loop_parts:
  assumes "unat counter < n"
  shows "tests n (repeat_test counter)" "jumps_back n t (repeat_next counter t)"
    "unat l < n \<Longrightarrow> tests n (for_more counter l)" "unat l < n \<Longrightarrow> tests n (for_below_max counter l)"
    "jumps_back n t (for_next counter t)"
    "unat l < n \<Longrightarrow> unat i < n \<Longrightarrow> straight n (for_item l counter i)"
proof -
  have two: "\<And>a b c d :: unit comp. do_all [a, b, c, d] = do_all ([a, b, c] @ [d])"
    "\<And>a b c d e :: unit comp. do_all [a, b, c, d, e] = do_all ([a, b, c, d] @ [e])"
    "\<And>a b c d e f :: unit comp. do_all [a, b, c, d, e, f] = do_all ([a, b, c, d] @ [e, f])"
    by simp_all
  show "tests n (repeat_test counter)" unfolding repeat_test_def two
    by (rule tests_do_all) (auto intro!: straight_plain assms simp: binary_opcodes_def)
  show "jumps_back n t (repeat_next counter t)" unfolding repeat_next_def two
    by (rule jumps_back_do_all) (auto intro!: straight_plain assms simp: binary_opcodes_def)
  show "unat l < n \<Longrightarrow> tests n (for_more counter l)" unfolding for_more_def two
    by (rule tests_do_all) (auto intro!: straight_plain assms simp: binary_opcodes_def)
  show "unat l < n \<Longrightarrow> tests n (for_below_max counter l)" unfolding for_below_max_def two
    by (rule tests_do_all) (auto intro!: straight_plain assms simp: binary_opcodes_def)
  show "jumps_back n t (for_next counter t)" unfolding for_next_def two
    by (rule jumps_back_do_all) (auto intro!: straight_plain assms simp: binary_opcodes_def)
  show "unat l < n \<Longrightarrow> unat i < n \<Longrightarrow> straight n (for_item l counter i)" unfolding for_item_def
    by (rule straight_do_all) (auto intro!: straight_plain assms)
qed

lemma straight_blockI: "straight_ok u n is \<Longrightarrow> grew u u' \<Longrightarrow> n \<le> n' \<Longrightarrow> block_ok u' n' base is"
  by (blast intro: straight_block straight_mono)

lemma code_positionD:
  assumes "code_position u = (Inr t, u')"
  shows "u' = u" "unat t = length (cu_code u)"
  using assms by (auto simp: code_position_def try_Inr unat_of_nat dest!: bind_exec_InrD)

lemma makes_block_if:
  assumes c: "frame_ok frame \<Longrightarrow> straight (local_count frame) c" and ts: "makes_block frame m"
    and es: "\<And>frame'. frame_grew frame frame' \<Longrightarrow> makes_block frame' (k frame')"
  shows "makes_block frame
    (bind_exec (do_all [c, emit OP_JUMP_IF_FALSE]) (\<lambda>_.
     bind_exec reserve_u32 (\<lambda>p.
     bind_exec m (\<lambda>frame.
     bind_exec (emit OP_JUMP) (\<lambda>_.
     bind_exec reserve_u32 (\<lambda>q.
     bind_exec (patch_u32 p) (\<lambda>_.
     bind_exec (k frame) (\<lambda>frame. keeping frame [patch_u32 q]))))))))" (is "makes_block frame ?m")
proof (rule makes_blockI)
  fix u frame'' u9 assume u: "tables_ok u" "frame_ok frame" and run: "?m u = (Inr frame'', u9)"
  have test: "tests (local_count frame) (do_all [c, emit OP_JUMP_IF_FALSE])"
    using tests_do_all [of "[c]"] c [OF u(2)] by simp
  from run obtain u2 p u3 frame' u4 u5 q u6 u7 u8 where
    s: "do_all [c, emit OP_JUMP_IF_FALSE] u = (Inr (), u2)" "reserve_u32 u2 = (Inr p, u3)"
      "m u3 = (Inr frame', u4)" "emit OP_JUMP u4 = (Inr (), u5)" "reserve_u32 u5 = (Inr q, u6)"
      "patch_u32 p u6 = (Inr (), u7)" "k frame' u7 = (Inr frame'', u8)" "patch_u32 q u8 = (Inr (), u9)"
    by (auto dest!: bind_exec_InrD simp: keeping_def)
  from testsD [OF test s(1) u(1)] obtain cs where cs: "wrote u (asm cs @ [OP_JUMP_IF_FALSE]) u2"
    "straight_ok u2 (local_count frame) cs" .
  note p = reserve_wrote [OF s(2)]
  have w3: "wrote u ((asm cs @ [OP_JUMP_IF_FALSE]) @ u32_le 0) u3" by (rule wrote_trans [OF cs(1) p(2)])
  from makes_blockD [OF ts s(3) wrote_tables [OF w3 u(1)] u(2)] obtain xs where
    xs: "frame_grew frame frame'" "wrote u3 (asm xs) u4" "block_ok u4 (local_count frame') (length (cu_code u3)) xs" .
  note q = reserve_wrote [OF s(5)]
  have w56: "wrote u4 ([OP_JUMP] @ u32_le 0) u6" by (rule wrote_trans [OF emit_wrote [OF s(4)] q(2)])
  have w6: "wrote u ((asm cs @ [OP_JUMP_IF_FALSE]) @ u32_le 0 @ asm xs @ [OP_JUMP] @ u32_le 0) u6"
    using wrote_trans [OF wrote_trans [OF w3 xs(2)] w56] by simp
  have p': "p = length (cu_code u) + length (asm cs @ [OP_JUMP_IF_FALSE])" using p(1) wrote_code [OF cs(1)] by simp
  from patch_wrote [OF s(6) w6 p'] obtain t1 where t1: "unat t1 = length (cu_code u6)"
    "wrote u ((asm cs @ [OP_JUMP_IF_FALSE]) @ u32_le t1 @ asm xs @ [OP_JUMP] @ u32_le 0) u7" "grew u6 u7" .
  note ok' = frame_grew_ok [OF xs(1) u(2)]
  from makes_blockD [OF es [OF xs(1)] s(7) wrote_tables [OF t1(2) u(1)] ok'] obtain ys where
    ys: "frame_grew frame' frame''" "wrote u7 (asm ys) u8" "block_ok u8 (local_count frame'') (length (cu_code u7)) ys" .
  have w8: "wrote u ((asm cs @ OP_JUMP_IF_FALSE # u32_le t1 @ asm xs @ [OP_JUMP]) @ u32_le 0 @ asm ys) u8"
    using wrote_trans [OF t1(2) ys(2)] by simp
  have q': "q = length (cu_code u) + length (asm cs @ OP_JUMP_IF_FALSE # u32_le t1 @ asm xs @ [OP_JUMP])"
    using q(1) wrote_code [OF emit_wrote [OF s(4)]] wrote_code [OF xs(2)] wrote_code [OF w3] by simp
  from patch_wrote [OF s(8) w8 q'] obtain t2 where t2: "unat t2 = length (cu_code u8)"
    "wrote u ((asm cs @ OP_JUMP_IF_FALSE # u32_le t1 @ asm xs @ [OP_JUMP]) @ u32_le t2 @ asm ys) u9" "grew u8 u9" .
  let ?base = "length (cu_code u)" and ?n = "local_count frame''"
  let ?is = "cs @ [JumpIfFalse t1] @ xs @ [Jump t2] @ ys"
  have g: "grew u2 u9" "grew u4 u9"
    using grew_trans [OF wrote_grew [OF p(2)] grew_trans [OF wrote_grew [OF xs(2)]]]
      grew_trans [OF wrote_grew [OF w56] grew_trans [OF t1(3) grew_trans [OF wrote_grew [OF ys(2)] t2(3)]]] by blast+
  have n: "local_count frame \<le> ?n" "local_count frame' \<le> ?n"
    using frame_grew_le [OF xs(1)] frame_grew_le [OF ys(1)] by simp_all
  have blocks: "block_ok u9 ?n ?base cs" "block_ok u9 ?n (?base + length (asm cs) + 5) xs"
    "block_ok u9 ?n (?base + length (asm cs) + 10 + length (asm xs)) ys"
  proof -
    show "block_ok u9 ?n ?base cs" by (rule straight_blockI [OF cs(2) g(1) n(1)])
    show "block_ok u9 ?n (?base + length (asm cs) + 5) xs"
      using block_mono [OF xs(3) g(2) n(2)] wrote_code [OF w3] by (simp add: add.assoc)
    have "length (cu_code u7) = ?base + length (asm cs) + 10 + length (asm xs)" using wrote_code [OF t1(2)] by simp
    with block_mono [OF ys(3) t2(3) order_refl] show "block_ok u9 ?n (?base + length (asm cs) + 10 + length (asm xs)) ys"
      by simp
  qed
  have targets: "unat t1 = ?base + length (asm cs) + 10 + length (asm xs)"
    "unat t2 = ?base + length (asm cs) + 10 + length (asm xs) + length (asm ys)"
    using t1(1) t2(1) wrote_code [OF w6] wrote_code [OF w8] by simp_all
  have "block_ok u9 ?n ?base ?is"
    using blocks targets starts_ends(2) [of "?base + length (asm cs) + 10 + length (asm xs)" ys]
    by (auto simp: block_ok_def starts_append add.assoc)
  moreover have "wrote u (asm ?is) u9" using t2(2) by simp
  ultimately show "frame_grew frame frame'' \<and>
      (\<exists>is. wrote u (asm is) u9 \<and> block_ok u9 ?n ?base is)"
    using frame_grew_trans [OF xs(1) ys(1)] by blast
qed

lemma makes_block_loop:
  assumes test: "tests (local_count frame) m" and body: "makes_block frame b"
    and again: "\<And>frame' start. frame_grew frame frame' \<Longrightarrow> jumps_back (local_count frame') start (next start)"
  shows "makes_block frame
    (bind_exec code_position (\<lambda>start.
     bind_exec m (\<lambda>_.
     bind_exec reserve_u32 (\<lambda>p.
     bind_exec b (\<lambda>frame. keeping frame [next start, patch_u32 p])))))" (is "makes_block frame ?m")
proof (rule makes_blockI)
  fix u frame' u6 assume u: "tables_ok u" "frame_ok frame" and run: "?m u = (Inr frame', u6)"
  from run obtain start u0 u2 p u3 u4 u5 where
    s: "code_position u = (Inr start, u0)" "m u0 = (Inr (), u2)" "reserve_u32 u2 = (Inr p, u3)"
      "b u3 = (Inr frame', u4)" "next start u4 = (Inr (), u5)" "patch_u32 p u5 = (Inr (), u6)"
    by (auto dest!: bind_exec_InrD simp: keeping_def do_all.simps)
  have u0: "u0 = u" and start: "unat start = length (cu_code u)" by (rule code_positionD [OF s(1)])+
  from testsD [OF test s(2) [unfolded u0] u(1)] obtain cs where cs: "wrote u (asm cs @ [OP_JUMP_IF_FALSE]) u2"
    "straight_ok u2 (local_count frame) cs" .
  note p = reserve_wrote [OF s(3)]
  have w3: "wrote u ((asm cs @ [OP_JUMP_IF_FALSE]) @ u32_le 0) u3" by (rule wrote_trans [OF cs(1) p(2)])
  from makes_blockD [OF body s(4) wrote_tables [OF w3 u(1)] u(2)] obtain xs where
    xs: "frame_grew frame frame'" "wrote u3 (asm xs) u4" "block_ok u4 (local_count frame') (length (cu_code u3)) xs" .
  have "tables_ok u4" by (rule wrote_tables [OF xs(2) wrote_tables [OF w3 u(1)]])
  from jumps_backD [OF again [OF xs(1)] s(5) this] obtain ys where ys: "wrote u4 (asm (ys @ [Jump start])) u5"
    "straight_ok u5 (local_count frame') ys" .
  have w5: "wrote u ((asm cs @ [OP_JUMP_IF_FALSE]) @ u32_le 0 @ asm xs @ asm (ys @ [Jump start])) u5"
    using wrote_trans [OF wrote_trans [OF w3 xs(2)] ys(1)] by simp
  have p': "p = length (cu_code u) + length (asm cs @ [OP_JUMP_IF_FALSE])" using p(1) wrote_code [OF cs(1)] by simp
  from patch_wrote [OF s(6) w5 p'] obtain t where t: "unat t = length (cu_code u5)"
    "wrote u ((asm cs @ [OP_JUMP_IF_FALSE]) @ u32_le t @ asm xs @ asm (ys @ [Jump start])) u6" "grew u5 u6" .
  let ?base = "length (cu_code u)" and ?n = "local_count frame'"
  let ?is = "cs @ [JumpIfFalse t] @ xs @ ys @ [Jump start]"
  have g: "grew u2 u6" "grew u4 u6"
    using grew_trans [OF wrote_grew [OF p(2)] grew_trans [OF wrote_grew [OF xs(2)]]]
      grew_trans [OF wrote_grew [OF ys(1)] t(3)] by blast+
  have blocks: "block_ok u6 ?n ?base cs" "block_ok u6 ?n (?base + length (asm cs) + 5) xs"
    "\<And>base. block_ok u6 ?n base ys"
  proof -
    show "block_ok u6 ?n ?base cs" by (rule straight_blockI [OF cs(2) g(1) frame_grew_le [OF xs(1)]])
    show "block_ok u6 ?n (?base + length (asm cs) + 5) xs"
      using block_mono [OF xs(3) g(2) order_refl] wrote_code [OF w3] by (simp add: add.assoc)
    show "\<And>base. block_ok u6 ?n base ys" by (rule straight_blockI [OF ys(2) t(3) order_refl])
  qed
  have target: "unat t = ?base + length (asm ?is)" using t(1) wrote_code [OF w5] by simp
  have "block_ok u6 ?n ?base ?is"
    unfolding block_ok_def
  proof (intro ballI conjI allI impI)
    fix i assume i: "i \<in> set ?is"
    then show "refs_ok u6 ?n i" using blocks(1,2) blocks(3) [of 0] by (auto simp: block_ok_def)
    fix w assume w: "jump_target i = Some w"
    show "unat w \<in> starts ?base ?is"
    proof (cases "w = t \<or> w = start")
      case True
      then show ?thesis using target start starts_ends [of ?base ?is] by auto
    next
      case False
      with i w blocks(1,2) ys(2) show ?thesis
        by (auto simp: block_ok_def starts_append straight_ok_def add.assoc)
    qed
  qed
  moreover have "wrote u (asm ?is) u6" using t(2) by simp
  ultimately show "frame_grew frame frame' \<and>
      (\<exists>is. wrote u (asm is) u6 \<and> block_ok u6 ?n ?base is)"
    using xs(1) by blast
qed

lemma makes_block_for:
  assumes test: "tests (local_count frame) m" and limit: "tests (local_count frame) m'"
    and item: "straight (local_count frame) it" and body: "makes_block frame b"
    and again: "\<And>frame' start. frame_grew frame frame' \<Longrightarrow> jumps_back (local_count frame') start (next start)"
  shows "makes_block frame
    (bind_exec code_position (\<lambda>start.
     bind_exec m (\<lambda>_.
     bind_exec reserve_u32 (\<lambda>p.
     bind_exec m' (\<lambda>_.
     bind_exec reserve_u32 (\<lambda>q.
     bind_exec it (\<lambda>_.
     bind_exec b (\<lambda>frame. keeping frame [next start, patch_u32 p, patch_u32 q]))))))))" (is "makes_block frame ?m")
proof (rule makes_blockI)
  fix u frame' u9 assume u: "tables_ok u" "frame_ok frame" and run: "?m u = (Inr frame', u9)"
  from run obtain start u0 u1 p u2 u3 q u4 u5 u6 u7 u8 where
    s: "code_position u = (Inr start, u0)" "m u0 = (Inr (), u1)" "reserve_u32 u1 = (Inr p, u2)"
      "m' u2 = (Inr (), u3)" "reserve_u32 u3 = (Inr q, u4)" "it u4 = (Inr (), u5)"
      "b u5 = (Inr frame', u6)" "next start u6 = (Inr (), u7)" "patch_u32 p u7 = (Inr (), u8)" "patch_u32 q u8 = (Inr (), u9)"
    by (auto dest!: bind_exec_InrD simp: keeping_def do_all.simps)
  have u0: "u0 = u" and start: "unat start = length (cu_code u)" by (rule code_positionD [OF s(1)])+
  from testsD [OF test s(2) [unfolded u0] u(1)] obtain cs where cs: "wrote u (asm cs @ [OP_JUMP_IF_FALSE]) u1"
    "straight_ok u1 (local_count frame) cs" .
  note p = reserve_wrote [OF s(3)]
  have w2: "wrote u ((asm cs @ [OP_JUMP_IF_FALSE]) @ u32_le 0) u2" by (rule wrote_trans [OF cs(1) p(2)])
  from testsD [OF limit s(4) wrote_tables [OF w2 u(1)]] obtain ds where ds: "wrote u2 (asm ds @ [OP_JUMP_IF_FALSE]) u3"
    "straight_ok u3 (local_count frame) ds" .
  note q = reserve_wrote [OF s(5)]
  have w24: "wrote u2 ((asm ds @ [OP_JUMP_IF_FALSE]) @ u32_le 0) u4" by (rule wrote_trans [OF ds(1) q(2)])
  have w4: "wrote u (((asm cs @ [OP_JUMP_IF_FALSE]) @ u32_le 0) @ (asm ds @ [OP_JUMP_IF_FALSE]) @ u32_le 0) u4"
    by (rule wrote_trans [OF w2 w24])
  from straightD [OF item s(6) wrote_tables [OF w4 u(1)]] obtain es where es: "wrote u4 (asm es) u5"
    "straight_ok u5 (local_count frame) es" .
  have ok5: "tables_ok u5" by (rule wrote_tables [OF es(1) wrote_tables [OF w4 u(1)]])
  from makes_blockD [OF body s(7) ok5 u(2)] obtain xs where
    xs: "frame_grew frame frame'" "wrote u5 (asm xs) u6" "block_ok u6 (local_count frame') (length (cu_code u5)) xs" .
  from jumps_backD [OF again [OF xs(1)] s(8) wrote_tables [OF xs(2) ok5]] obtain ys where
    ys: "wrote u6 (asm (ys @ [Jump start])) u7" "straight_ok u7 (local_count frame') ys" .
  let ?rest = "asm es @ asm xs @ asm (ys @ [Jump start])"
  have w7: "wrote u ((asm cs @ [OP_JUMP_IF_FALSE]) @ u32_le 0 @ asm ds @ [OP_JUMP_IF_FALSE] @ u32_le 0 @ ?rest) u7"
    using wrote_trans [OF wrote_trans [OF wrote_trans [OF w4 es(1)] xs(2)] ys(1)] by simp
  have p': "p = length (cu_code u) + length (asm cs @ [OP_JUMP_IF_FALSE])" using p(1) wrote_code [OF cs(1)] by simp
  from patch_wrote [OF s(9) w7 p'] obtain t where t: "unat t = length (cu_code u7)"
    "wrote u ((asm cs @ [OP_JUMP_IF_FALSE]) @ u32_le t @ asm ds @ [OP_JUMP_IF_FALSE] @ u32_le 0 @ ?rest) u8" "grew u7 u8" .
  have w8: "wrote u ((asm cs @ OP_JUMP_IF_FALSE # u32_le t @ asm ds @ [OP_JUMP_IF_FALSE]) @ u32_le 0 @ ?rest) u8"
    using t(2) by simp
  have q': "q = length (cu_code u) + length (asm cs @ OP_JUMP_IF_FALSE # u32_le t @ asm ds @ [OP_JUMP_IF_FALSE])"
    using q(1) wrote_code [OF ds(1)] wrote_code [OF w2] by simp
  from patch_wrote [OF s(10) w8 q'] obtain t' where t': "unat t' = length (cu_code u8)"
    "wrote u ((asm cs @ OP_JUMP_IF_FALSE # u32_le t @ asm ds @ [OP_JUMP_IF_FALSE]) @ u32_le t' @ ?rest) u9" "grew u8 u9" .
  let ?base = "length (cu_code u)" and ?n = "local_count frame'"
  let ?is = "cs @ [JumpIfFalse t] @ ds @ [JumpIfFalse t'] @ es @ xs @ ys @ [Jump start]"
  have g79: "grew u7 u9" by (rule grew_trans [OF t(3) t'(3)])
  have g69: "grew u6 u9" by (rule grew_trans [OF wrote_grew [OF ys(1)] g79])
  have g59: "grew u5 u9" by (rule grew_trans [OF wrote_grew [OF xs(2)] g69])
  have g39: "grew u3 u9" by (rule grew_trans [OF wrote_grew [OF q(2)] grew_trans [OF wrote_grew [OF es(1)] g59]])
  have g19: "grew u1 u9" by (rule grew_trans [OF wrote_grew [OF p(2)] grew_trans [OF wrote_grew [OF ds(1)] g39]])
  note n = frame_grew_le [OF xs(1)]
  have blocks: "straight_ok u9 ?n cs" "straight_ok u9 ?n ds" "straight_ok u9 ?n es" "straight_ok u9 ?n ys"
    by (rule straight_mono [OF cs(2) g19 n] straight_mono [OF ds(2) g39 n] straight_mono [OF es(2) g59 n]
      straight_mono [OF ys(2) g79 order_refl])+
  have body: "block_ok u9 ?n (?base + length (asm cs) + 10 + length (asm ds) + length (asm es)) xs"
    using block_mono [OF xs(3) g69 order_refl] wrote_code [OF wrote_trans [OF w4 es(1)]] by (simp add: add_ac)
  have target: "unat t = ?base + length (asm ?is)" "unat t' = ?base + length (asm ?is)"
    using t(1) t'(1) wrote_code [OF w7] wrote_code [OF w8] by simp_all
  have "block_ok u9 ?n ?base ?is"
    unfolding block_ok_def
  proof (intro ballI conjI allI impI)
    fix i assume i: "i \<in> set ?is"
    then show "refs_ok u9 ?n i" using blocks body by (auto simp: block_ok_def straight_ok_def)
    fix w assume w: "jump_target i = Some w"
    show "unat w \<in> starts ?base ?is"
    proof (cases "w = t \<or> w = t' \<or> w = start")
      case True
      then show ?thesis using target start starts_ends [of ?base ?is] by auto
    next
      case False
      with i w blocks body show ?thesis
        by (auto simp: block_ok_def starts_append straight_ok_def add_ac)
    qed
  qed
  moreover have "wrote u (asm ?is) u9" using t'(2) by simp
  ultimately show "frame_grew frame frame' \<and>
      (\<exists>is. wrote u (asm is) u9 \<and> block_ok u9 ?n ?base is)"
    using xs(1) by blast
qed

lemma makes_block_debug:
  assumes "makes_block (child_scope frame) m"
  shows "makes_block frame (bind_exec m (\<lambda>child. ret (reserve_child_locals frame child)))"
proof (rule makes_blockI)
  fix u frame' u' assume u: "tables_ok u" "frame_ok frame"
    and run: "bind_exec m (\<lambda>child. ret (reserve_child_locals frame child)) u = (Inr frame', u')"
  then obtain child where m: "m u = (Inr child, u')" and frame': "frame' = reserve_child_locals frame child"
    by (auto dest!: bind_exec_InrD)
  have "frame_ok (child_scope frame)" using u(2) by (simp add: child_scope_def frame_ok_def)
  from makes_blockD [OF assms m u(1) this] obtain "is" where "is": "frame_grew (child_scope frame) child"
    "wrote u (asm is) u'" "block_ok u' (local_count child) (length (cu_code u)) is" .
  have count: "local_count frame' = max (local_count frame) (local_count child)"
    by (simp add: frame' reserve_child_locals_def max_def word_le_nat_alt)
  have grew: "frame_grew frame frame'"
    using count u(2) by (auto simp: frame_grew_def frame_ok_def frame' reserve_child_locals_def less_max_iff_disj)
  have "block_ok u' (local_count frame') (length (cu_code u)) is"
    by (rule block_mono [OF "is"(3) grew_refl]) (simp add: count)
  with grew "is"(2) show "frame_grew frame frame' \<and>
      (\<exists>is. wrote u (asm is) u' \<and> block_ok u' (local_count frame') (length (cu_code u)) is)" by blast
qed

lemma straight_options_lists:
  assumes "frame_ok frame"
  shows "m \<in> set (i32_options parse frame options keys) \<Longrightarrow> straight (local_count frame) m"
    "m \<in> set (optional_i32_options parse frame options keys) \<Longrightarrow> straight (local_count frame) m"
  by (auto simp: i32_options_def optional_i32_options_def intro: straight_options straight_expr assms)

lemma straight_display:
  assumes "frame_ok frame"
  shows "\<forall>m \<in> set (display_text_steps parse frame t options). straight (local_count frame) m"
    "\<forall>m \<in> set (display_rect_steps parse frame x y w h options). straight (local_count frame) m"
    "\<forall>m \<in> set (display_line_steps parse frame x1 y1 x2 y2 options). straight (local_count frame) m"
    "\<forall>m \<in> set (display_image_steps parse frame path options). straight (local_count frame) m"
    "\<forall>m \<in> set (display_draw_steps parse frame d options). straight (local_count frame) m"
  unfolding display_text_steps_def display_rect_steps_def display_line_steps_def display_image_steps_def
    display_draw_steps_def
  by (auto intro!: straight_intros straight_expr [OF assms] dest: straight_options_lists [OF assms] simp: plain_builtins_def)

text \<open>The count byte of \<open>debug.print\<close> follows the builtin.\<close>

lemma straight_debug_print:
  assumes "\<forall>m \<in> set ms. straight n m"
  shows "straight n (do_all (ms @ [emit OP_CALL_BUILTIN, emit BUILTIN_DEBUG_PRINT, emit k]))"
proof -
  have "straight n (do_all [emit OP_CALL_BUILTIN, emit BUILTIN_DEBUG_PRINT, emit k])"
    by (rule straight_instr [of _ "DebugPrintTop k"]) (simp_all add: writes)
  with assms show ?thesis by (simp add: do_all_append straight_bind straight_do_all)
qed

lemma makes_block_first:
  assumes "frame_ok frame \<Longrightarrow> straight (local_count frame) m" "makes_block frame k"
  shows "makes_block frame (bind_exec m (\<lambda>_. k))"
proof (cases "frame_ok frame")
  case True
  with assms show ?thesis by (auto intro: makes_block_straight)
qed (simp add: makes_block_def)

lemma keeping_one: "keeping frame [m] = bind_exec m (\<lambda>_. ret frame)"
  by (simp add: keeping_def)

lemma local_idD: "local_id frame name = Inr i \<Longrightarrow> frame_ok frame \<Longrightarrow> unat i < local_count frame"
  by (auto simp: local_id_def frame_ok_def)

lemma makes_block_assignments:
  "makes_block frame (bind_exec (compile_expr parse frame e) (\<lambda>_.
     bind_exec (lift (local_id frame name)) (\<lambda>i. keeping frame [emit_ref OP_SET_LOCAL i])))"
  "makes_block frame (bind_exec (compile_expr parse frame e) (\<lambda>_.
     bind_exec (state_id name) (\<lambda>i. keeping frame [emit_ref OP_SET_STATE i])))"
  "makes_block frame (bind_exec (compile_expr parse frame e) (\<lambda>_.
     bind_exec (lift (define_local frame name)) (\<lambda>(i, frame). keeping frame [emit_ref OP_SET_LOCAL i])))"
proof -
  show "makes_block frame (bind_exec (compile_expr parse frame e) (\<lambda>_.
     bind_exec (lift (local_id frame name)) (\<lambda>i. keeping frame [emit_ref OP_SET_LOCAL i])))"
    by (intro makes_block_first straight_expr makes_block_lift makes_block_keeping)
      (auto intro: straight_plain dest: local_idD)
  show "makes_block frame (bind_exec (compile_expr parse frame e) (\<lambda>_.
     bind_exec (state_id name) (\<lambda>i. keeping frame [emit_ref OP_SET_STATE i])))"
  proof (rule makes_block_first)
    have "makes_block frame (bind_exec (bind_exec (state_id name) (emit_ref OP_SET_STATE)) (\<lambda>_. ret frame))"
      by (intro makes_block_first straight_state) simp
    then show "makes_block frame (bind_exec (state_id name) (\<lambda>i. keeping frame [emit_ref OP_SET_STATE i]))"
      by (simp add: keeping_one bind_exec_assoc)
  qed (rule straight_expr)
  show "makes_block frame (bind_exec (compile_expr parse frame e) (\<lambda>_.
     bind_exec (lift (define_local frame name)) (\<lambda>(i, frame). keeping frame [emit_ref OP_SET_LOCAL i])))"
    by (intro makes_block_first straight_expr makes_block_define)
      (auto intro!: makes_block_keeping straight_plain)
qed

lemma makes_block_debug_print:
  "makes_block frame (bind_exec (do_all (map (compile_expr parse frame) args @
       [emit OP_CALL_BUILTIN, emit BUILTIN_DEBUG_PRINT])) (\<lambda>_.
     if k \<le> 255 then keeping frame [emit (of_nat k)] else lift (fail_with message)))"
proof (cases "k \<le> 255")
  case True
  have "bind_exec (do_all (map (compile_expr parse frame) args @ [emit OP_CALL_BUILTIN, emit BUILTIN_DEBUG_PRINT]))
      (\<lambda>_. keeping frame [emit (of_nat k)]) =
    bind_exec (do_all (map (compile_expr parse frame) args @
      [emit OP_CALL_BUILTIN, emit BUILTIN_DEBUG_PRINT, emit (of_nat k)])) (\<lambda>_. ret frame)"
    using do_all_append [of "map (compile_expr parse frame) args @ [emit OP_CALL_BUILTIN, emit BUILTIN_DEBUG_PRINT]" "[emit (of_nat k)]"]
    by (simp add: keeping_one bind_exec_assoc)
  with True show ?thesis
    by (auto intro!: makes_block_first straight_debug_print straight_expr)
next
  case False
  then show ?thesis by (auto simp: makes_block_def fail_with_def dest!: bind_exec_InrD)
qed

lemma makes_block_repeat:
  assumes "\<And>frame'. makes_block frame' (b frame')"
  shows "makes_block frame (bind_exec (compile_expr parse frame count) (\<lambda>_.
     bind_exec (lift (define_local frame name)) (\<lambda>(counter, frame).
     bind_exec (emit_ref OP_SET_LOCAL counter) (\<lambda>_.
     bind_exec code_position (\<lambda>start.
     bind_exec (repeat_test counter) (\<lambda>_.
     bind_exec reserve_u32 (\<lambda>end_patch.
     bind_exec (b frame) (\<lambda>frame.
       keeping frame [repeat_next counter start, patch_u32 end_patch]))))))))"
proof (intro makes_block_first straight_expr makes_block_define)
  fix i :: u16 and frame' assume i: "unat i < local_count frame'"
  show "makes_block frame' (case (i, frame') of (counter, frame) \<Rightarrow>
     bind_exec (emit_ref OP_SET_LOCAL counter) (\<lambda>_.
     bind_exec code_position (\<lambda>start.
     bind_exec (repeat_test counter) (\<lambda>_.
     bind_exec reserve_u32 (\<lambda>end_patch.
     bind_exec (b frame) (\<lambda>frame.
       keeping frame [repeat_next counter start, patch_u32 end_patch]))))))"
    unfolding prod.case
  proof (intro makes_block_first straight_plain makes_block_loop loop_parts)
    show "unat i < local_count g" if "frame_grew frame' g" for g
      using that i frame_grew_le by (blast intro: less_le_trans)
  qed (auto intro: i assms)
qed simp

lemma makes_block_for_loop:
  assumes "\<And>frame'. makes_block frame' (b frame')"
  shows "makes_block frame (bind_exec (compile_expr parse frame lst) (\<lambda>_.
     bind_exec (lift (define_local frame n1)) (\<lambda>(list_local, frame).
     bind_exec (do_all [emit_ref OP_SET_LOCAL list_local, emit_int 0]) (\<lambda>_.
     bind_exec (lift (define_local frame n2)) (\<lambda>(index_local, frame).
     bind_exec (do_all [emit_ref OP_SET_LOCAL index_local, for_limit parse frame limit]) (\<lambda>_.
     bind_exec (lift (define_local frame n3)) (\<lambda>(max_local, frame).
     bind_exec (emit_ref OP_SET_LOCAL max_local) (\<lambda>_.
     bind_exec (lift (define_local frame item)) (\<lambda>(item_local, frame).
     bind_exec code_position (\<lambda>start.
     bind_exec (for_more index_local list_local) (\<lambda>_.
     bind_exec reserve_u32 (\<lambda>end_patch.
     bind_exec (for_below_max index_local max_local) (\<lambda>_.
     bind_exec reserve_u32 (\<lambda>max_end_patch.
     bind_exec (for_item list_local index_local item_local) (\<lambda>_.
     bind_exec (b frame) (\<lambda>frame.
       keeping frame [for_next index_local start, patch_u32 end_patch, patch_u32 max_end_patch]))))))))))))))))"
proof -
  have loop: "makes_block f4
     (bind_exec code_position (\<lambda>start.
     bind_exec (for_more i l) (\<lambda>_.
     bind_exec reserve_u32 (\<lambda>end_patch.
     bind_exec (for_below_max i m) (\<lambda>_.
     bind_exec reserve_u32 (\<lambda>max_end_patch.
     bind_exec (for_item l i k) (\<lambda>_.
     bind_exec (b f4) (\<lambda>frame.
       keeping frame [for_next i start, patch_u32 end_patch, patch_u32 max_end_patch]))))))))"
    if "unat l < local_count f4" "unat i < local_count f4" "unat m < local_count f4" "unat k < local_count f4"
    for l i m k f4
  proof (intro makes_block_for loop_parts)
    show "unat i < local_count g" if "frame_grew f4 g" for g
      using that \<open>unat i < local_count f4\<close> frame_grew_le by (blast intro: less_le_trans)
  qed (auto intro: that assms)
  have limit: "straight (local_count f) (for_limit parse f limit)" if "frame_ok f" for f
    unfolding for_limit_def by (auto split: option.splits intro!: straight_plain straight_expr that)
  show ?thesis
    apply (intro makes_block_first straight_expr makes_block_define straight_do_all; (unfold prod.case)?)
    apply assumption
    apply (intro makes_block_first straight_do_all makes_block_define; (unfold prod.case)?)
    apply (auto intro: straight_plain)[1]
    apply (intro makes_block_first straight_do_all makes_block_define; (unfold prod.case)?)
    apply (auto intro: straight_plain limit)[1]
    apply (intro makes_block_first makes_block_define; (unfold prod.case)?)
    apply (auto intro: straight_plain)[1]
    apply (rule loop)
    apply (auto intro: less_le_trans dest!: frame_grew_le)
    done
qed

lemma makes_block_leaf [simp]: "makes_block frame (Pair (Inr frame))"
proof -
  have "ret frame = Pair (Inr frame)" by (rule ext) simp
  then show ?thesis using makes_block_ret by metis
qed

lemma makes_block_statements:
  "makes_block frame (compile_statement parse profile mode frame s)"
  "makes_block frame (compile_statements_with_mode parse profile mode frame ss)"
proof (induction parse profile mode frame s and parse profile mode frame ss
    rule: compile_statement_compile_statements_with_mode.induct)
  case (10 parse profile mode frame c ts es)
  from 10 show ?case
    unfolding compile_statement.simps by (intro makes_block_if straight_expr) auto
next
  case (11 parse profile mode frame count ss)
  from 11 show ?case unfolding compile_statement.simps by (intro makes_block_repeat)
next
  case (14 parse profile mode frame args)
  show ?case
    unfolding compile_statement.simps by (cases "profile = Dev") (simp_all only: makes_block_debug_print if_True if_False makes_block_ret refl)
qed (auto intro!: makes_block_keeping makes_block_assignments makes_block_debug
   makes_block_for_loop makes_block_seq straight_intros straight_expr simp: plain_builtins_def
   dest: straight_display split: option.splits)

end
