(* ===== verification/Sqbc_Tables.thy ===== *)
theory Sqbc_Tables
  imports Sqbc_Encode Vm_Program
begin

text \<open>
  What the compiler writes, the virtual machine reads: the container of
  \<open>encode_container\<close> with the section lookups of both sides, and every table with its
  parser.  Each table theorem gives the parser's answer on the encoder's bytes in full, the
  rejections included.
\<close>

section \<open>Reading what was written\<close>

text \<open>A field of what follows \<open>pre\<close>.\<close>

lemma read_u16_skip: "p = length pre + k \<Longrightarrow> read_u16 (pre @ bs) p = read_u16 bs k"
  by (auto simp: read_u16_def get_range_def)

lemma read_u32_skip: "p = length pre + k \<Longrightarrow> read_u32 (pre @ bs) p = read_u32 bs k"
  by (auto simp: read_u32_def get_range_def)

lemma read_i32_skip: "p = length pre + k \<Longrightarrow> read_i32 (pre @ bs) p = read_i32 bs k"
  by (auto simp: read_i32_def get_range_def)

lemma get_at_skip: "p = length pre + k \<Longrightarrow> get_at (pre @ bs) p = get_at bs k"
  by (auto simp: get_at_def nth_append)

lemma read_head [simp]:
  "read_u16 (u16_le w @ post) 0 = Inr w" "read_u32 (u32_le x @ post) 0 = Inr x"
  "read_i32 (u32_le x @ post) 0 = Inr x" "get_at (b # bs) 0 = Some b"
  using read_u16_at [of 0 "[]" w post] read_u32_at [of 0 "[]" x post] read_i32_at [of 0 "[]" x post]
  by (simp_all add: get_at_def)

lemma record_reads:
  "read_u16 (record_bytes (k, off, n) @ post) 0 = Inr k"
  "read_u32 (record_bytes (k, off, n) @ post) 4 = Inr off"
  "read_u32 (record_bytes (k, off, n) @ post) 8 = Inr n"
  using read_u32_at [of 4 "u16_le k @ u16_le 0" off] read_u32_at [of 8 "u16_le k @ u16_le 0 @ u32_le off" n]
  by (simp_all add: record_bytes_def)

section \<open>The container\<close>

text \<open>\<open>bytes\<close> has a directory of these sections, in this order.\<close>

definition holds_sections :: "u8 list \<Rightarrow> (u16 \<times> u8 list) list \<Rightarrow> bool" where
  "holds_sections bytes secs \<longleftrightarrow> (\<forall>i < length secs. \<exists>off n.
     read_u16 bytes (14 + i * 12) = Inr (fst (secs ! i)) \<and>
     read_u32 bytes (14 + i * 12 + 4) = Inr off \<and> read_u32 bytes (14 + i * 12 + 8) = Inr n \<and>
     get_range bytes (unat off) (unat off + unat n) = Some (snd (secs ! i)))"

lemma length_record_bytes [simp]: "length (record_bytes r) = 12"
  by (simp add: record_bytes_def split: prod.splits)

lemma length_records [simp]: "length (concat (map record_bytes rs)) = 12 * length rs"
  by (induction rs) simp_all

lemma concat_split:
  assumes "i < length xs"
  shows "concat (map f xs) = concat (map f (take i xs)) @ f (xs ! i) @ concat (map f (drop (Suc i) xs))"
  by (subst id_take_nth_drop [OF assms]) (simp only: map_append list.map concat_append concat.simps)

lemma section_records_Inr:
  assumes "section_records off secs = Inr (recs, stop)"
  shows "length recs = length secs \<and> unat stop = unat off + length (concat (map snd secs)) \<and>
    (\<forall>i < length secs. \<exists>o' n. recs ! i = (fst (secs ! i), o', n) \<and> unat n = length (snd (secs ! i)) \<and>
       unat o' = unat off + length (concat (map snd (take i secs))))"
  using assms
proof (induction off secs arbitrary: recs rule: section_records.induct)
  case (2 off kind data rest)
  from 2(2) obtain n rs where n: "length data \<le> 4294967295" "n = of_nat (length data)"
    "unat off + unat n \<le> 4294967295" and rs: "section_records (off + n) rest = Inr (rs, stop)"
    "recs = (kind, off, n) # rs"
    by (auto simp: and_then_eq_Inr try_Inr fail_with_def split: if_splits)
  have len: "unat n = length data" using n(1,2) by (simp add: unat_of_nat)
  have sum: "unat (off + n) = unat off + length data"
    using n(3) len by (subst unat_add_lem [THEN iffD1]) simp_all
  note IH = 2(1) [of n rs, unfolded try_Inr]
  have IH: "length rs = length rest \<and> unat stop = unat (off + n) + length (concat (map snd rest)) \<and>
    (\<forall>i < length rest. \<exists>o' m. rs ! i = (fst (rest ! i), o', m) \<and> unat m = length (snd (rest ! i)) \<and>
       unat o' = unat (off + n) + length (concat (map snd (take i rest))))"
    by (rule IH) (use n rs in auto)
  then show ?case
    using len sum rs(2) by (auto simp: nth_Cons' less_Suc_eq_0_disj)
qed simp

lemma container_Inr:
  assumes "encode_container secs = Inr bytes"
  shows "parse_header bytes = Inr \<lparr>hd_header_len = 14 + length secs * 12, hd_file_len = length bytes,
      hd_section_count = length secs\<rparr>"
    and "holds_sections bytes secs" and "14 + length secs * 12 \<le> length bytes"
    and "read_u16 bytes 4 = Inr (of_nat (14 + length secs * 12)) \<and> read_u32 bytes 6 = Inr (of_nat (length bytes)) \<and>
      read_u32 bytes 10 = Inr (of_nat (length secs)) \<and> 14 + length secs * 12 \<le> 65535 \<and> length bytes \<le> 4294967295"
proof -
  let ?hl = "14 + length secs * 12"
  from assms obtain recs stop where small: "?hl \<le> 65535"
    and recs: "section_records (of_nat ?hl) secs = Inr (recs, stop)"
    and bytes: "bytes = lit ''SQBC'' @ u16_le (of_nat ?hl) @ u32_le stop @ u32_le (of_nat (length secs)) @
      concat (map record_bytes recs) @ concat (map snd secs)"
    by (auto simp: encode_container_def and_then_eq_Inr try_Inr Let_def split: prod.splits)
  note rec = section_records_Inr [OF recs]
  have hl: "unat (of_nat ?hl :: u16) = ?hl" "unat (of_nat ?hl :: u32) = ?hl"
    "unat (of_nat (length secs) :: u32) = length secs"
    using small by (simp_all only: unat_of_nat) simp_all
  have total: "length bytes = ?hl + length (concat (map snd secs))" using rec by (simp add: bytes)
  then have stop: "unat stop = length bytes" using rec hl by simp
  have fields: "read_u16 bytes 4 = Inr (of_nat ?hl)" "read_u32 bytes 6 = Inr stop"
    "read_u32 bytes 10 = Inr (of_nat (length secs))" "take 4 bytes = lit ''SQBC''"
    unfolding bytes
    by (simp_all add: read_u16_at [where pre = "lit ''SQBC''", simplified]
        read_u32_at [where pre = "lit ''SQBC'' @ u16_le (of_nat ?hl)", simplified]
        read_u32_at [where pre = "lit ''SQBC'' @ u16_le (of_nat ?hl) @ u32_le stop", simplified])
  show "14 + length secs * 12 \<le> length bytes" using total by simp
  have "stop = of_nat (length bytes)" "length bytes \<le> 4294967295"
    using stop unat_u32_bound [of stop] by (simp_all add: word_unat_eq_iff unat_of_nat)
  with fields small show "read_u16 bytes 4 = Inr (of_nat ?hl) \<and> read_u32 bytes 6 = Inr (of_nat (length bytes)) \<and>
      read_u32 bytes 10 = Inr (of_nat (length secs)) \<and> ?hl \<le> 65535 \<and> length bytes \<le> 4294967295" by simp
  show "parse_header bytes = Inr \<lparr>hd_header_len = ?hl, hd_file_len = length bytes,
      hd_section_count = length secs\<rparr>"
    using fields hl stop total by (simp add: parse_header_def Let_def)
  show "holds_sections bytes secs"
    unfolding holds_sections_def
  proof (intro allI impI)
    fix i assume i: "i < length secs"
    from rec i obtain off n where r: "recs ! i = (fst (secs ! i), off, n)" "unat n = length (snd (secs ! i))"
      "unat off = ?hl + length (concat (map snd (take i secs)))" using hl by auto
    let ?head = "lit ''SQBC'' @ u16_le (of_nat ?hl) @ u32_le stop @ u32_le (of_nat (length secs))"
    have "i < length recs" using i rec by simp
    note parts = concat_split [OF this, of record_bytes] concat_split [OF i, of snd]
    let ?pre = "?head @ concat (map record_bytes (take i recs))"
    have split: "bytes = ?pre @ record_bytes (fst (secs ! i), off, n) @
        (concat (map record_bytes (drop (Suc i) recs)) @ concat (map snd secs))"
      unfolding bytes parts(1) r(1) by simp
    have pre: "14 + i * 12 = length ?pre" using i rec by simp
    have data: "bytes = (?head @ concat (map record_bytes recs) @ concat (map snd (take i secs))) @ snd (secs ! i) @
        concat (map snd (drop (Suc i) secs))"
      unfolding bytes parts(2) by simp
    have "read_u16 bytes (14 + i * 12) = Inr (fst (secs ! i))"
      unfolding split pre by (subst read_u16_skip [where k = 0]) (rule add_0_right [symmetric], rule record_reads)
    moreover have "read_u32 bytes (14 + i * 12 + 4) = Inr off"
      unfolding split pre by (subst read_u32_skip [OF refl]) (rule record_reads)
    moreover have "read_u32 bytes (14 + i * 12 + 8) = Inr n"
      unfolding split pre by (subst read_u32_skip [OF refl]) (rule record_reads)
    moreover have "get_range bytes (unat off) (unat off + unat n) = Some (snd (secs ! i))"
      unfolding data by (rule get_range_middle) (use r rec in simp_all)
    ultimately show "\<exists>off n. read_u16 bytes (14 + i * 12) = Inr (fst (secs ! i)) \<and>
        read_u32 bytes (14 + i * 12 + 4) = Inr off \<and> read_u32 bytes (14 + i * 12 + 8) = Inr n \<and>
        get_range bytes (unat off) (unat off + unat n) = Some (snd (secs ! i))" by blast
  qed
qed

text \<open>Both sides look a section up by kind and find the first one in the directory.\<close>

lemma section_lookup:
  assumes "holds_sections bytes secs" and "length bytes \<le> usize_max"
  shows "section_loop bytes k [j..<length secs] =
      (case map_of (drop j secs) k of None \<Rightarrow> Inl (Err MissingSection) | Some d \<Rightarrow> Inr d)"
    and "find_section bytes k [j..<length secs] = Inr (map_of (drop j secs) k)"
proof -
  have step: "\<exists>off n. read_u16 bytes (14 + i * 12) = Inr (fst (secs ! i)) \<and>
      read_u32 bytes (14 + i * 12 + 4) = Inr off \<and> read_u32 bytes (14 + i * 12 + 8) = Inr n \<and>
      checked_add (unat off) (unat n) = Some (unat off + unat n) \<and>
      get_range bytes (unat off) (unat off + unat n) = Some (snd (secs ! i))" if "i < length secs" for i
    using assms that unfolding holds_sections_def by (fastforce simp: get_range_eq_Some checked_add_def)
  have same: "read_u16_at bytes p = Inr w" if "read_u16 bytes p = Inr w" for p w
    using that by (auto simp: read_u16_def Sqbc_Encode.read_u16_at_def and_then_eq_Inr)
  have same': "read_u32_at bytes p = Inr w" if "read_u32 bytes p = Inr w" for p w
    using that by (auto simp: read_u32_def Sqbc_Encode.read_u32_at_def and_then_eq_Inr)
  have "section_loop bytes k [j..<length secs] =
      (case map_of (drop j secs) k of None \<Rightarrow> Inl (Err MissingSection) | Some d \<Rightarrow> Inr d) \<and>
      find_section bytes k [j..<length secs] = Inr (map_of (drop j secs) k)"
  proof (cases "j \<le> length secs")
    case True
    then show ?thesis
    proof (induction j rule: inc_induct)
      case base
      then show ?case by simp
    next
      case (step j)
      from \<open>\<And>i. i < length secs \<Longrightarrow> _\<close> [OF step.hyps(2)] obtain off n where
        r: "read_u16 bytes (14 + j * 12) = Inr (fst (secs ! j))"
        "read_u32 bytes (14 + j * 12 + 4) = Inr off" "read_u32 bytes (14 + j * 12 + 8) = Inr n"
        "checked_add (unat off) (unat n) = Some (unat off + unat n)"
        "get_range bytes (unat off) (unat off + unat n) = Some (snd (secs ! j))" by blast
      have upt: "[j..<length secs] = j # [Suc j..<length secs]" by (rule upt_conv_Cons [OF step.hyps(2)])
      have drop: "drop j secs = (fst (secs ! j), snd (secs ! j)) # drop (Suc j) secs"
        using step.hyps by (simp add: Cons_nth_drop_Suc)
      show ?case
        unfolding upt drop using step.IH r same [OF r(1)] same' [OF r(2)] same' [OF r(3)] by simp
    qed
  qed simp
  then show "section_loop bytes k [j..<length secs] =
      (case map_of (drop j secs) k of None \<Rightarrow> Inl (Err MissingSection) | Some d \<Rightarrow> Inr d)"
    "find_section bytes k [j..<length secs] = Inr (map_of (drop j secs) k)" by simp_all
qed

lemma section_bytes_of:
  assumes "holds_sections bytes secs" and "length bytes \<le> usize_max"
  shows "section_bytes bytes (length secs) k = (case map_of secs k of None \<Rightarrow> Inl (Err MissingSection) | Some d \<Rightarrow> Inr d)"
    and "optional_section bytes (length secs) k = Inr (map_of secs k)"
    and "section_of bytes (length secs) k = Inr (map_of secs k)"
  using section_lookup [OF assms, of k 0]
  by (simp_all add: section_bytes_def optional_section_def section_of_def split: option.splits)

lemma section_kinds_of:
  assumes "holds_sections bytes secs" and "distinct (map fst secs)" and "14 + length secs * 12 \<le> hl"
  shows "validate_unique_section_kinds (take hl bytes) (length secs) = Inr ()"
proof -
  have "read_u16 (take hl bytes) (14 + i * 12) = Inr (fst (secs ! i))" if i: "i < length secs" for i
  proof -
    have "read_u16 bytes (14 + i * 12) = Inr (fst (secs ! i))"
      using assms(1) i unfolding holds_sections_def by blast
    moreover have "14 + i * 12 + 2 \<le> hl" using i assms(3) by simp
    ultimately show ?thesis by (simp add: read_u16_def get_range_take)
  qed
  then have "map (\<lambda>i. read_u16 (take hl bytes) (14 + i * 12)) [0..<length secs] = map Inr (map fst secs)"
    by (intro nth_equalityI) simp_all
  then show ?thesis
    unfolding validate_unique_section_kinds_def validate_unique_iff using assms(2) by blast
qed

section \<open>Rows\<close>

lemma encode_rows_Inr:
  "encode_rows row rs = Inr out \<longleftrightarrow>
     (\<forall>r \<in> set rs. \<exists>bs. row r = Inr bs) \<and> out = concat (map (\<lambda>r. projr (row r)) rs)"
proof (induction rs arbitrary: out)
  case (Cons r rs)
  then show ?case by (cases "row r") (auto simp: and_then_eq_Inr)
qed auto

text \<open>
  A row parser that reads back what an encoder wrote, from wherever it stands in a table,
  or rejects the row with \<open>InvalidSection\<close>.
\<close>

definition reads_row ::
  "(u8 list \<Rightarrow> nat \<Rightarrow> ('r \<times> nat) vm_res) \<Rightarrow> u8 list \<Rightarrow> bool \<Rightarrow> 'r \<Rightarrow> bool" where
  "reads_row row bs good r \<longleftrightarrow> (\<forall>pre post. length pre + length bs \<le> usize_max \<longrightarrow>
     row (pre @ bs @ post) (length pre) =
       (if good then Inr (r, length pre + length bs) else Inl (Err InvalidSection)))"

lemma parse_rows_encoded:
  assumes "\<forall>x \<in> set xs. reads_row row (enc x) (good x) (dec x)"
    and "length pre + length (concat (map enc xs)) \<le> usize_max"
  shows "parse_rows row (pre @ concat (map enc xs) @ post) (length xs) (length pre) =
    (if list_all good xs then Inr (map dec xs, length pre + length (concat (map enc xs)))
     else Inl (Err InvalidSection))"
  using assms
proof (induction xs arbitrary: pre)
  case (Cons x xs)
  have row: "row (pre @ enc x @ concat (map enc xs) @ post) (length pre) =
      (if good x then Inr (dec x, length pre + length (enc x)) else Inl (Err InvalidSection))"
    using Cons.prems by (simp add: reads_row_def)
  have rest: "parse_rows row ((pre @ enc x) @ concat (map enc xs) @ post) (length xs) (length (pre @ enc x)) =
      (if list_all good xs then Inr (map dec xs, length (pre @ enc x) + length (concat (map enc xs)))
       else Inl (Err InvalidSection))"
    by (intro Cons.IH) (use Cons.prems in simp_all)
  show ?case using row rest by simp
qed simp

text \<open>A whole table: the count and the rows.\<close>

lemma parse_table_encoded:
  assumes "\<forall>x \<in> set xs. reads_row row (enc x) (good x) (dec x)"
    and "out = u16_le (of_nat (length xs)) @ concat (map enc xs)"
    and "length xs \<le> 65535" and "length out \<le> usize_max"
  shows "read_u16 out 0 = Inr (of_nat (length xs))" and "unat (of_nat (length xs) :: u16) = length xs"
    and "parse_rows row out (length xs) 2 =
      (if list_all good xs then Inr (map dec xs, length out) else Inl (Err InvalidSection))"
  using parse_rows_encoded [OF assms(1), of "u16_le (of_nat (length xs))" "[]"] assms(2-)
  by (simp_all add: unat_of_nat)

section \<open>The strings\<close>

lemma encode_strings_Inr:
  "encode_strings vs = Inr out \<Longrightarrow> list_all (\<lambda>v. length (str_bytes v) \<le> 65535) vs \<and>
     out = concat (map (\<lambda>v. u16_le (of_nat (length (str_bytes v))) @ str_bytes v) vs)"
  by (induction vs arbitrary: out) (auto simp: and_then_eq_Inr try_Inr)

lemma strtab_encode_Inr:
  assumes "strtab_encode t = Inr out"
  shows "length (sb_values t) \<le> 65535" "\<forall>v \<in> set (sb_values t). length (str_bytes v) \<le> 65535"
    and "out = u16_le (of_nat (length (sb_values t))) @
      concat (map (\<lambda>v. u16_le (of_nat (length (str_bytes v))) @ str_bytes v) (sb_values t))"
  using assms
  by (auto simp: strtab_encode_def and_then_eq_Inr try_Inr list_all_iff dest!: encode_strings_Inr)

text \<open>One string, read from where it stands.\<close>

lemma string_row_reads:
  fixes v :: ustr
  assumes "length (str_bytes v) \<le> 65535" and "length pre + 2 + length (str_bytes v) \<le> usize_max"
  shows "read_u16 (pre @ (u16_le (of_nat (length (str_bytes v))) @ str_bytes v) @ post) (length pre) =
      Inr (of_nat (length (str_bytes v)))"
    and "unat (of_nat (length (str_bytes v)) :: u16) = length (str_bytes v)"
    and "get_range (pre @ (u16_le (of_nat (length (str_bytes v))) @ str_bytes v) @ post) (length pre + 2)
      (length pre + 2 + length (str_bytes v)) = Some (str_bytes v)"
proof -
  show "unat (of_nat (length (str_bytes v)) :: u16) = length (str_bytes v)"
    using assms(1) by (simp add: unat_of_nat)
  show "read_u16 (pre @ (u16_le (of_nat (length (str_bytes v))) @ str_bytes v) @ post) (length pre) =
      Inr (of_nat (length (str_bytes v)))"
    by (simp add: read_u16_skip [where k = 0])
  show "get_range (pre @ (u16_le (of_nat (length (str_bytes v))) @ str_bytes v) @ post) (length pre + 2)
      (length pre + 2 + length (str_bytes v)) = Some (str_bytes v)"
    using get_range_middle [of "length pre + 2" "pre @ u16_le (of_nat (length (str_bytes v)))" _ "str_bytes v" post]
    by simp
qed

lemma parse_string_row_reads:
  fixes v :: ustr
  assumes "length (str_bytes v) \<le> 65535" and "length pre + 2 + length (str_bytes v) \<le> usize_max"
  shows "parse_string_row (pre @ (u16_le (of_nat (length (str_bytes v))) @ str_bytes v) @ post) (length pre) =
      Inr (str_bytes v, length pre + 2 + length (str_bytes v))"
  by (simp only: parse_string_row_def string_row_reads [OF assms] and_then_simps ok_or_simps from_utf8_def
      str_bytes_valid if_True checked_add_Some [OF assms(2)])

lemma parse_owned_loop_reads:
  fixes v :: ustr
  assumes "length (str_bytes v) \<le> 65535" and "length pre + 2 + length (str_bytes v) \<le> usize_max"
    and "sp_len p + length (str_bytes v) \<le> length (sp_bytes p)" "length (sp_bytes p) \<le> usize_max"
  shows "parse_owned_loop (pre @ (u16_le (of_nat (length (str_bytes v))) @ str_bytes v) @ post) (length pre) p (k # ks) =
      parse_owned_loop (pre @ (u16_le (of_nat (length (str_bytes v))) @ str_bytes v) @ post)
        (length pre + 2 + length (str_bytes v)) (pool_store k (str_bytes v) p) ks"
proof -
  have pool: "checked_add (sp_len p) (length (str_bytes v)) = Some (sp_len p + length (str_bytes v))"
    "(sp_len p + length (str_bytes v) > length (sp_bytes p)) = False"
    using assms(3,4) by (simp_all add: checked_add_def)
  show ?thesis
    by (simp only: parse_owned_loop.simps string_row_reads [OF assms(1,2)] and_then_simps ok_or_simps from_utf8_def
        str_bytes_valid if_True if_False checked_add_Some [OF assms(2)] pool)
qed

text \<open>The pool takes the strings as long as their bytes fit.\<close>

lemma parse_owned_loop_encoded:
  fixes vs :: "ustr list"
  assumes "\<forall>v \<in> set vs. length (str_bytes v) \<le> 65535"
    and "length pre + length (concat (map (\<lambda>v. u16_le (of_nat (length (str_bytes v))) @ str_bytes v) vs)) \<le> usize_max"
    and "sp_len p + sum_list (map (\<lambda>v. length (str_bytes v)) vs) \<le> length (sp_bytes p)"
    and "length (sp_bytes p) \<le> usize_max"
  shows "\<exists>p'. parse_owned_loop
      (pre @ concat (map (\<lambda>v. u16_le (of_nat (length (str_bytes v))) @ str_bytes v) vs)) (length pre) p
      [k..<k + length vs] =
    Inr (p', length pre + length (concat (map (\<lambda>v. u16_le (of_nat (length (str_bytes v))) @ str_bytes v) vs)))"
  using assms
proof (induction vs arbitrary: pre p k)
  case (Cons v vs)
  let ?row = "\<lambda>v. u16_le (of_nat (length (str_bytes v))) @ str_bytes v"
  let ?p = "pool_store k (str_bytes v) p"
  have v: "length (str_bytes v) \<le> 65535" "length pre + 2 + length (str_bytes v) \<le> usize_max"
    using Cons.prems(1,2) by simp_all
  have bytes: "pre @ concat (map ?row (v # vs)) = pre @ ?row v @ concat (map ?row vs)" by simp
  have upt: "[k..<k + length (v # vs)] = k # [Suc k..<Suc k + length vs]" by (simp add: upt_conv_Cons del: upt_Suc)
  have "\<exists>p'. parse_owned_loop ((pre @ ?row v) @ concat (map ?row vs)) (length (pre @ ?row v)) ?p
      [Suc k..<Suc k + length vs] = Inr (p', length (pre @ ?row v) + length (concat (map ?row vs)))"
    by (rule Cons.IH) (use Cons.prems in \<open>simp_all add: pool_store_def\<close>)
  then obtain p' where rest: "parse_owned_loop (pre @ ?row v @ concat (map ?row vs)) (length pre + 2 + length (str_bytes v)) ?p
      [Suc k..<Suc k + length vs] = Inr (p', length pre + length (concat (map ?row (v # vs))))"
    by (auto simp: add.assoc)
  have "parse_owned_loop (pre @ ?row v @ concat (map ?row vs)) (length pre) p (k # [Suc k..<Suc k + length vs]) =
      Inr (p', length pre + length (concat (map ?row (v # vs))))"
    using Cons.prems(3,4) by (subst parse_owned_loop_reads [OF v]) (use rest in simp_all)
  then show ?case unfolding bytes upt by blast
qed simp

lemma parse_strings_encoded:
  assumes "strtab_encode t = Inr out" and "length (sb_values t) \<le> MAX_STRINGS" and "length out \<le> usize_max"
    and "sum_list (map (\<lambda>v. length (str_bytes v)) (sb_values t)) \<le> MAX_PROGRAM_STRING_BYTES"
  shows "parse_strings out = Inr (fill_array MAX_STRINGS [] (map str_bytes (sb_values t)), length (sb_values t))"
    and "\<exists>pool. parse_owned_strings out = Inr (pool, length (sb_values t))"
proof -
  let ?row = "\<lambda>v. u16_le (of_nat (length (str_bytes v))) @ str_bytes v"
  note out = strtab_encode_Inr [OF assms(1)]
  have count: "unat (of_nat (length (sb_values t)) :: u16) = length (sb_values t)"
    "read_u16 out 0 = Inr (of_nat (length (sb_values t)))"
    using out(1) unfolding out(3) by (simp_all add: unat_of_nat)
  have size: "2 + length (concat (map ?row (sb_values t))) = length out" unfolding out(3) by simp
  obtain pool where "parse_owned_loop (u16_le (of_nat (length (sb_values t))) @ concat (map ?row (sb_values t)))
      (length (u16_le (of_nat (length (sb_values t))))) empty_pool [0..<0 + length (sb_values t)] =
    Inr (pool, length (u16_le (of_nat (length (sb_values t)))) + length (concat (map ?row (sb_values t))))"
    using parse_owned_loop_encoded [OF out(2), of "u16_le (of_nat (length (sb_values t)))" empty_pool 0] assms(3,4) size
    by (auto simp: empty_pool_def usize_max_def)
  then have "parse_owned_loop out 2 empty_pool [0..<length (sb_values t)] = Inr (pool, length out)"
    using size by (simp add: out(3) [symmetric])
  then show "\<exists>pool. parse_owned_strings out = Inr (pool, length (sb_values t))"
    using assms(2) count by (simp add: parse_owned_strings_def)
  have "\<forall>v \<in> set (sb_values t). reads_row parse_string_row (?row v) True (str_bytes v)"
    using out(2) parse_string_row_reads by (simp add: reads_row_def)
  from parse_table_encoded(3) [OF this out(3) out(1) assms(3)]
  have "parse_rows parse_string_row out (length (sb_values t)) 2 = Inr (map str_bytes (sb_values t), length out)"
    by (simp add: list_all_iff)
  with assms(2) count show "parse_strings out =
      Inr (fill_array MAX_STRINGS [] (map str_bytes (sb_values t)), length (sb_values t))"
    by (simp add: parse_strings_def)
qed

section \<open>The state\<close>

text \<open>A declared state field as the VM's slot.\<close>

definition compiled_value :: "strtab \<Rightarrow> json \<Rightarrow> vm_value" where
  "compiled_value strings v =
     (if is_null v then VNull else
      case as_bool v of Some b \<Rightarrow> VBool b
    | None \<Rightarrow> case as_i64 v of Some n \<Rightarrow> VI32 (ucast n)
    | None \<Rightarrow> case as_str v of Some t \<Rightarrow> VString (Sqbc (the (sb_ids strings t)))
    | None \<Rightarrow> VNull)"

definition compiled_slot :: "strtab \<Rightarrow> ir_state_value \<Rightarrow> state_slot" where
  "compiled_slot strings s = \<lparr>s_name_id = the (sb_ids strings (sv_name s)),
     s_type = \<lparr>st_tag = projr (state_type_tag (sv_value_type s)), st_nullable = sv_nullable s\<rparr>,
     s_default = compiled_value strings (sv_value s)\<rparr>"

text \<open>The default has the declared type, or is null where the type allows it.\<close>

definition slot_loads :: "strtab \<Rightarrow> ir_state_value \<Rightarrow> bool" where
  "slot_loads strings s = (let slot = compiled_slot strings s in
     state_value_matches (st_tag (s_type slot)) (st_nullable (s_type slot)) (s_default slot))"

lemma read_u8_skip: "p = length pre + k \<Longrightarrow> read_u8 (pre @ bs) p = read_u8 bs k"
  by (simp add: read_u8_def get_at_skip)

lemma read_u8_head [simp]: "read_u8 (b # bs) 0 = Inr b"
  by (simp add: read_u8_def)

lemma lookup_id_Inr: "lookup_id strings m v = Inr i \<longleftrightarrow> sb_ids strings v = Some i"
  by (simp add: lookup_id_def)

lemma read_value_encoded:
  assumes "encode_value strings v = Inr bs"
  shows "read_value (pre @ bs @ post) (length pre) = Inr (compiled_value strings v, length pre + length bs)"
proof -
  have fields: "read_u8 (pre @ b # c # bs) (length pre + 1) = Inr c"
    "read_i32 (pre @ b # u32_le i @ bs) (length pre + 1) = Inr i"
    "read_u16 (pre @ b # u16_le w @ bs) (length pre + 1) = Inr w" for b c i w bs
    using read_u8_skip [of "length pre + 1" "pre @ [b]" 0] read_i32_skip [of "length pre + 1" "pre @ [b]" 0]
      read_u16_skip [of "length pre + 1" "pre @ [b]" 0] by simp_all
  have tag: "read_u8 (pre @ b # bs) (length pre) = Inr b" for b bs by (simp add: read_u8_at)
  consider "is_null v" "bs = [VALUE_NULL]"
    | b where "\<not> is_null v" "as_bool v = Some b" "bs = [VALUE_BOOL, if b then 1 else 0]"
    | n where "\<not> is_null v" "as_bool v = None" "as_i64 v = Some n" "bs = VALUE_I32 # u32_le (ucast n)"
    | t i where "\<not> is_null v" "as_bool v = None" "as_i64 v = None" "as_str v = Some t" "sb_ids strings t = Some i"
        "bs = VALUE_STRING # u16_le i"
    using assms
    by (auto simp: encode_value_def and_then_eq_Inr lookup_id_Inr try_i32_def fail_with_def split: if_splits option.splits)
  then show ?thesis
    by cases (simp_all add: compiled_value_def read_value_def tag fields [simplified])
qed

lemma state_type_tag_Inr: "state_type_tag v = Inr tag \<Longrightarrow> is_state_tag tag"
  by (auto simp: state_type_tag_def is_state_tag_def fail_with_def split: if_splits)

lemma state_row_reads:
  assumes "encode_state_row strings s = Inr bs"
  shows "reads_row parse_state_slot bs (slot_loads strings s) (compiled_slot strings s)"
    and "sb_ids strings (sv_name s) = Some (s_name_id (compiled_slot strings s))"
proof -
  from assms obtain i tag v where parts: "sb_ids strings (sv_name s) = Some i" "state_type_tag (sv_value_type s) = Inr tag"
    "encode_value strings (sv_value s) = Inr v" and bs: "bs = u16_le i @ [tag, if sv_nullable s then 1 else 0] @ v"
    by (auto simp: encode_state_row_def and_then_eq_Inr lookup_id_Inr)
  show "sb_ids strings (sv_name s) = Some (s_name_id (compiled_slot strings s))"
    using parts by (simp add: compiled_slot_def)
  show "reads_row parse_state_slot bs (slot_loads strings s) (compiled_slot strings s)"
    unfolding reads_row_def
  proof (intro allI impI)
    fix pre post :: "u8 list"
    let ?b = "if sv_nullable s then 1 else 0 :: u8"
    have "read_u16 (pre @ bs @ post) (length pre) = Inr i"
      unfolding bs by (simp add: read_u16_skip [where k = 0])
    moreover have "read_u8 (pre @ bs @ post) (length pre + 2) = Inr tag"
      unfolding bs using read_u8_skip [of "length pre + 2" "pre @ u16_le i" 0 "tag # ?b # v @ post"] by simp
    moreover have "read_u8 (pre @ bs @ post) (length pre + 3) = Inr ?b"
      unfolding bs using read_u8_skip [of "length pre + 3" "pre @ u16_le i @ [tag]" 0 "?b # v @ post"] by simp
    moreover have "read_value (pre @ bs @ post) (length pre + 4) =
        Inr (compiled_value strings (sv_value s), length pre + length bs)"
      unfolding bs using read_value_encoded [OF parts(3), of "pre @ u16_le i @ [tag, ?b]" post] by simp
    ultimately show "parse_state_slot (pre @ bs @ post) (length pre) =
        (if slot_loads strings s then Inr (compiled_slot strings s, length pre + length bs) else Inl (Err InvalidSection))"
      using parts state_type_tag_Inr [OF parts(2)]
      by (simp add: parse_state_slot_def read_nullable_def slot_loads_def compiled_slot_def Let_def)
  qed
qed

text \<open>A table of rows: what every table parser does with the encoder's bytes.\<close>

lemma encode_table_Inr:
  assumes "encode_table m row rs = Inr out"
  shows "length rs \<le> 65535" "\<forall>r \<in> set rs. row r = Inr (projr (row r))"
    and "out = u16_le (of_nat (length rs)) @ concat (map (\<lambda>r. projr (row r)) rs)"
  using assms by (auto simp: encode_table_def and_then_eq_Inr try_Inr encode_rows_Inr dest!: bspec)

lemma parse_state_encoded:
  assumes "encode_state_section ir strings = Inr out" and "length (ir_state ir) \<le> MAX_STATE" and "length out \<le> usize_max"
  shows "parse_state out =
    (if list_all (slot_loads strings) (ir_state ir)
     then Inr (fill_array MAX_STATE default_slot (map (compiled_slot strings) (ir_state ir)), length (ir_state ir))
     else Inl (Err InvalidSection))"
proof -
  note out = encode_table_Inr [OF assms(1) [unfolded encode_state_section_def]]
  have rows: "\<forall>s \<in> set (ir_state ir). reads_row parse_state_slot (projr (encode_state_row strings s))
      (slot_loads strings s) (compiled_slot strings s)"
    using out(2) state_row_reads(1) by blast
  from parse_table_encoded [OF rows out(3,1) assms(3)] assms(2) show ?thesis
    by (simp add: parse_state_def)
qed

section \<open>The tables of code\<close>

text \<open>The rows of the compiler as the rows of the VM.\<close>

definition function_of :: "function_meta \<Rightarrow> function_row" where
  "function_of f = \<lparr>f_name_id = fm_name_id f, f_param_count = fm_param_count f,
     f_local_count = fm_local_count f, f_start = unat (fm_start f), f_len = unat (fm_len f)\<rparr>"

definition handler_of :: "handler_meta \<Rightarrow> handler_row" where
  "handler_of h = \<lparr>h_event_id = hm_event_id h, h_preload = hm_preload h, h_param_count = hm_param_count h,
     h_local_count = hm_local_count h, h_start = unat (hm_start h), h_len = unat (hm_len h)\<rparr>"

definition screen_of :: "screen_meta \<Rightarrow> screen_row" where
  "screen_of s = \<lparr>sc_name_id = sm_name_id s, sc_start = unat (sm_start s), sc_len = unat (sm_len s)\<rparr>"

definition trigger_of :: "strtab \<Rightarrow> ir_trigger \<Rightarrow> trigger_row" where
  "trigger_of strings t = \<lparr>t_event_id = the (sb_ids strings (it_event t)),
     t_interval_ms = it_interval_ms t, t_repeating = it_repeating t\<rparr>"

text \<open>Fields of a row at fixed offsets.\<close>

lemma read_fields:
  "read_u16 (u16_le a @ u16_le b @ bs) 2 = Inr b"
  "read_u16 (u16_le a @ u16_le b @ u16_le c @ bs) 4 = Inr c"
  "read_u32 (u16_le a @ u16_le b @ u16_le c @ u32_le d @ bs) 6 = Inr d"
  "read_u32 (u16_le a @ u16_le b @ u16_le c @ u32_le d @ u32_le e @ bs) 10 = Inr e"
  "read_u32 (u16_le a @ u32_le d @ bs) 2 = Inr d"
  "read_u32 (u16_le a @ u32_le d @ u32_le e @ bs) 6 = Inr e"
  "get_at (u16_le a @ x # y # bs) 2 = Some x" "get_at (u16_le a @ x # y # bs) 3 = Some y"
  "read_i32 (u16_le a @ x # y # u32_le d @ bs) 4 = Inr d"
  "read_u16 (u16_le a @ x # y # u16_le b @ bs) 4 = Inr b"
  "read_u16 (u16_le a @ x # y # u16_le b @ u16_le c @ bs) 6 = Inr c"
  "read_u32 (u16_le a @ x # y # u16_le b @ u16_le c @ u32_le d @ bs) 8 = Inr d"
  "read_u32 (u16_le a @ x # y # u16_le b @ u16_le c @ u32_le d @ u32_le e @ bs) 12 = Inr e"
  using read_u16_at [of 2 "u16_le a" b bs] read_u16_at [of 4 "u16_le a @ u16_le b" c bs]
    read_u32_at [of 6 "u16_le a @ u16_le b @ u16_le c" d bs]
    read_u32_at [of 10 "u16_le a @ u16_le b @ u16_le c @ u32_le d" e bs]
    read_u32_at [of 2 "u16_le a" d bs] read_u32_at [of 6 "u16_le a @ u32_le d" e bs]
    read_i32_at [of 4 "u16_le a @ [x, y]" d bs] read_u16_at [of 4 "u16_le a @ [x, y]" b bs]
    read_u16_at [of 6 "u16_le a @ [x, y] @ u16_le b" c bs]
    read_u32_at [of 8 "u16_le a @ [x, y] @ u16_le b @ u16_le c" d bs]
    read_u32_at [of 12 "u16_le a @ [x, y] @ u16_le b @ u16_le c @ u32_le d" e bs]
  by (simp_all add: get_at_def nth_append)

lemma skip_two:
  "read_u16 (pre @ bs) (Suc (Suc (length pre))) = read_u16 bs 2"
  "read_u32 (pre @ bs) (Suc (Suc (length pre))) = read_u32 bs 2"
  "get_at (pre @ bs) (Suc (Suc (length pre))) = get_at bs 2"
  using read_u16_skip [of "length pre + 2" pre 2 bs] read_u32_skip [of "length pre + 2" pre 2 bs]
    get_at_skip [of "length pre + 2" pre 2 bs] by simp_all

lemmas row_fields = skip_two read_u16_skip [OF refl] read_u32_skip [OF refl] read_i32_skip [OF refl] get_at_skip [OF refl]
  read_u16_skip [OF add_0_right [symmetric]] read_fields

lemma range_fits: "unat (a :: u32) + unat (b :: u32) \<le> usize_max"
  using unat_u32_bound [of a] unat_u32_bound [of b] unfolding usize_max_def by linarith

lemma function_row_reads:
  "reads_row (parse_function_row n) (function_row_bytes f)
     (unat (fm_start f) + unat (fm_len f) \<le> n) (function_of f)"
  by (simp add: reads_row_def parse_function_row_def function_row_bytes_def row_fields validate_range_def
      function_of_def range_fits)

text \<open>A handler may have at most as many locals as a frame of the VM.\<close>

definition handler_loads :: "nat \<Rightarrow> handler_meta \<Rightarrow> bool" where
  "handler_loads n h \<longleftrightarrow> hm_param_count h \<le> hm_local_count h \<and> unat (hm_local_count h) \<le> MAX_LOCALS \<and>
     unat (hm_start h) + unat (hm_len h) \<le> n"

lemma handler_row_reads:
  "reads_row (parse_handler_row n) (handler_row_bytes h) (handler_loads n h) (handler_of h)"
  by (auto simp: reads_row_def parse_handler_row_def handler_row_bytes_def row_fields validate_range_def
      handler_of_def handler_loads_def range_fits)

lemma screen_row_reads:
  "reads_row (parse_screen_row n) (screen_row_bytes s)
     (unat (sm_start s) + unat (sm_len s) \<le> n) (screen_of s)"
  by (simp add: reads_row_def parse_screen_row_def screen_row_bytes_def row_fields validate_range_def
      screen_of_def range_fits)

lemma trigger_row_reads:
  assumes "encode_trigger_row strings t = Inr bs"
  shows "reads_row parse_trigger_row bs (0 < sint (it_interval_ms t)) (trigger_of strings t)"
    and "sb_ids strings (it_event t) = Some (t_event_id (trigger_of strings t))"
proof -
  from assms obtain i where i: "sb_ids strings (it_event t) = Some i"
    and bs: "bs = u16_le i @ [if it_repeating t then 1 else 0, 0] @ u32_le (it_interval_ms t)"
    by (auto simp: encode_trigger_row_def and_then_eq_Inr lookup_id_Inr)
  show "sb_ids strings (it_event t) = Some (t_event_id (trigger_of strings t))"
    by (simp add: i trigger_of_def)
  show "reads_row parse_trigger_row bs (0 < sint (it_interval_ms t)) (trigger_of strings t)"
    by (simp add: reads_row_def parse_trigger_row_def bs row_fields trigger_of_def i)
qed

text \<open>The four tables.\<close>

lemma parse_functions_encoded:
  assumes "length fs \<le> MAX_FUNCTIONS" and "length (encode_functions fs) \<le> usize_max"
  shows "parse_functions (encode_functions fs) n =
    (if list_all (\<lambda>f. unat (fm_start f) + unat (fm_len f) \<le> n) fs
     then Inr (fill_array MAX_FUNCTIONS default_function (map function_of fs), length fs)
     else Inl (Err InvalidSection))"
proof -
  have "\<forall>f \<in> set fs. reads_row (parse_function_row n) (function_row_bytes f)
      (unat (fm_start f) + unat (fm_len f) \<le> n) (function_of f)" by (simp add: function_row_reads)
  from parse_table_encoded [OF this encode_functions_def _ assms(2)] assms(1) show ?thesis
    by (simp add: parse_functions_def)
qed

lemma parse_handlers_encoded:
  assumes "length hs \<le> MAX_HANDLERS" and "length (encode_handlers hs) \<le> usize_max"
  shows "parse_handlers (encode_handlers hs) n =
    (if list_all (handler_loads n) hs
     then Inr (fill_array MAX_HANDLERS default_handler (map handler_of hs), length hs)
     else Inl (Err InvalidSection))"
proof -
  have "\<forall>h \<in> set hs. reads_row (parse_handler_row n) (handler_row_bytes h)
      (handler_loads n h) (handler_of h)" by (simp add: handler_row_reads)
  from parse_table_encoded [OF this encode_handlers_def _ assms(2)] assms(1) show ?thesis
    by (simp add: parse_handlers_def)
qed

lemma parse_screens_encoded:
  assumes "length ss \<le> MAX_SCREENS" and "length (encode_screens ss) \<le> usize_max"
  shows "parse_screens (Some (encode_screens ss)) n =
    (if list_all (\<lambda>s. unat (sm_start s) + unat (sm_len s) \<le> n) ss
     then Inr (fill_array MAX_SCREENS default_screen (map screen_of ss), length ss)
     else Inl (Err InvalidSection))"
proof -
  have "\<forall>s \<in> set ss. reads_row (parse_screen_row n) (screen_row_bytes s)
      (unat (sm_start s) + unat (sm_len s) \<le> n) (screen_of s)" by (simp add: screen_row_reads)
  from parse_table_encoded [OF this encode_screens_def _ assms(2)] assms(1) show ?thesis
    by (simp add: parse_screens_def)
qed

lemma parse_triggers_encoded:
  assumes "encode_triggers ir strings = Inr out" and "length (ir_triggers ir) \<le> MAX_TRIGGERS" and "length out \<le> usize_max"
  shows "parse_trigger_timers (Some out) =
    (if list_all (\<lambda>t. 0 < sint (it_interval_ms t)) (ir_triggers ir)
     then Inr (fill_array MAX_TRIGGERS default_trigger (map (trigger_of strings) (ir_triggers ir)), length (ir_triggers ir))
     else Inl (Err InvalidSection))"
proof -
  note out = encode_table_Inr [OF assms(1) [unfolded encode_triggers_def]]
  have rows: "\<forall>t \<in> set (ir_triggers ir). reads_row parse_trigger_row (projr (encode_trigger_row strings t))
      (0 < sint (it_interval_ms t)) (trigger_of strings t)"
    using out(2) trigger_row_reads(1) by blast
  from parse_table_encoded [OF rows out(3,1) assms(3)] assms(2) show ?thesis
    by (simp add: parse_trigger_timers_def)
qed

end
