(* ===== verification/Sqbc_Load.thy ===== *)
theory Sqbc_Load
  imports Sqbc_Code Sqbc_Tables
begin

text \<open>
  The compiler and the loader together: what \<open>encode_sqbc\<close> produces, \<open>Program::parse\<close>
  accepts with exactly the compiled tables, or rejects for one of the few reasons the
  compiler does not check itself; and \<open>read_app_id\<close> finds the app's id in it.  On the way,
  every function, handler and screen of the compiled code is a block of instructions with
  operands in range and jumps inside, at the place its row of the table says.
\<close>

section \<open>Collecting strings\<close>

definition grows_table :: "(rstr, strtab, 'a) exec \<Rightarrow> bool" where
  "grows_table m \<longleftrightarrow> (\<forall>t r t'. m t = (r, t') \<longrightarrow> strtab_grew t t')"

named_theorems grows_intros

lemma grows_intern [grows_intros]: "grows_table (intern v)"
  by (auto simp: grows_table_def intro: intern_grew(1))

lemma grows_bind [grows_intros]:
  assumes "grows_table m" and "\<And>v. grows_table (f v)"
  shows "grows_table (bind_exec m f)"
  unfolding grows_table_def
proof (intro allI impI)
  fix t r t' assume run: "bind_exec m f t = (r, t')"
  obtain r1 t1 where m: "m t = (r1, t1)" by (cases "m t")
  with assms(1) have "strtab_grew t t1" by (auto simp: grows_table_def)
  moreover have "strtab_grew t1 t'"
    using run m assms(2) by (cases r1) (auto simp: bind_exec_def grows_table_def)
  ultimately show "strtab_grew t t'" by (rule strtab_grew_trans)
qed

lemma grows_ret [grows_intros]: "grows_table (ret v)" "grows_table (Pair (Inr v))"
  by (simp_all add: grows_table_def)

lemma grows_do_all [grows_intros]: "(\<And>m. m \<in> set ms \<Longrightarrow> grows_table m) \<Longrightarrow> grows_table (do_all ms)"
  by (induction ms) (auto simp: do_all.simps intro!: grows_intros)

lemma grows_intern_only [grows_intros]: "grows_table (intern_only v)"
  unfolding intern_only_def by (intro grows_intros)

lemma grows_json [grows_intros]: "grows_table (collect_json_value v)"
  unfolding collect_json_value_def by (auto split: option.split intro: grows_intros)

lemma grows_option_strings [grows_intros]: "grows_table (collect_option_strings v)"
  by (induction v rule: collect_option_strings.induct) (auto intro!: grows_intros)

lemma grows_named [grows_intros]: "grows_table (collect_named_option_strings options keys)"
  unfolding collect_named_option_strings_def by (auto split: option.split intro!: grows_intros)

lemma grows_expr [grows_intros]: "grows_table (collect_expr_strings e)"
  by (induction e rule: collect_expr_strings.induct) (auto intro!: grows_intros)

lemma grows_service [grows_intros]: "grows_table (collect_service_start profile i accept events)"
  unfolding collect_service_start_def by (auto intro!: grows_intros)

lemma grows_statement [grows_intros]: "grows_table (collect_statement_strings p s)"
  by (induction p s rule: collect_statement_strings.induct)
    (auto split: option.split intro!: grows_intros)

lemma grows_collect: "grows_table (collect_strings ir p)"
  unfolding collect_strings_def collect_statements_def by (auto intro!: grows_intros)

section \<open>Bodies in place\<close>

text \<open>What later steps keep of a unit: its code as a prefix, its strings and numbers.\<close>

definition later :: "compile_unit \<Rightarrow> compile_unit \<Rightarrow> bool" where
  "later u u' \<longleftrightarrow> prefix (cu_code u) (cu_code u') \<and> strtab_grew (cu_strings u) (cu_strings u') \<and>
     cu_states u' = cu_states u \<and> cu_functions u' = cu_functions u"

lemma later_refl [simp]: "later u u"
  by (simp add: later_def)

lemma later_trans [trans]: "later u u' \<Longrightarrow> later u' u'' \<Longrightarrow> later u u''"
  by (auto simp: later_def intro: strtab_grew_trans)

lemma later_tables: "later u u' \<Longrightarrow> tables_ok u \<Longrightarrow> tables_ok u'"
  by (simp add: later_def tables_ok_def strtab_grew_def)

lemma wrote_later: "wrote u bs u' \<Longrightarrow> later u u'"
  by (simp add: wrote_def grew_def later_def)

lemma later_refs: "refs_ok u n i \<Longrightarrow> later u u' \<Longrightarrow> refs_ok u' n i"
  by (cases i) (auto simp: later_def strtab_grew_def dest: prefix_length_le)

lemma later_block: "block_ok u n base is \<Longrightarrow> later u u' \<Longrightarrow> block_ok u' n base is"
  by (auto simp: block_ok_def intro: later_refs)

lemma later_id: "later u u' \<Longrightarrow> tables_ok u \<Longrightarrow> sb_ids (cu_strings u) v = Some i \<Longrightarrow> sb_ids (cu_strings u') v = Some i"
  by (auto simp: later_def tables_ok_def intro: strtab_ids_grew)

text \<open>
  The code of one function, handler or screen: the instructions \<open>is\<close>, then the closing
  ones, from \<open>start\<close> on, no longer than a chunk of the VM.
\<close>

definition body_at :: "compile_unit \<Rightarrow> nat \<Rightarrow> u32 \<Rightarrow> u32 \<Rightarrow> instr list \<Rightarrow> bool" where
  "body_at u n start ln closing \<longleftrightarrow>
     unat start + unat ln \<le> length (cu_code u) \<and> unat ln \<le> MAX_CODE_CHUNK_BYTES \<and>
     (\<exists>is. take (unat ln) (drop (unat start) (cu_code u)) = asm (is @ closing) \<and>
        block_ok u n (unat start) (is @ closing))"

lemma body_later:
  assumes "body_at u n start ln closing" "later u u'"
  shows "body_at u' n start ln closing"
proof -
  from assms(2) obtain bs where bs: "cu_code u' = cu_code u @ bs" by (auto simp: later_def prefix_def)
  with assms show ?thesis by (auto simp: body_at_def intro: later_block)
qed

lemma do_all_emit: "do_all (map emit bs) u = (Inr (), u\<lparr>cu_code := cu_code u @ bs\<rparr>)"
proof (induction bs arbitrary: u)
  case (Cons b bs)
  have "emit b u = (Inr (), u\<lparr>cu_code := cu_code u @ [b]\<rparr>)" by (simp add: emit_def emit_bytes_def)
  then have "bind_exec (emit b) (\<lambda>_. do_all (map emit bs)) u = do_all (map emit bs) (u\<lparr>cu_code := cu_code u @ [b]\<rparr>)"
    by (rule bind_exec_Inr)
  with Cons show ?case by (simp add: do_all.simps)
qed (simp add: do_all.simps)

text \<open>A parameter is a local of the frame, each its own.\<close>

lemma define_params_ok:
  assumes "define_params frame ps = Inr frame'" "frame_ok frame"
  shows "frame_ok frame' \<and> local_count frame \<le> local_count frame'"
  using assms
proof (induction ps arbitrary: frame)
  case (Cons p ps)
  from Cons.prems(1) obtain i g where g: "define_local frame p = Inr (i, g)" "define_params g ps = Inr frame'"
    by (auto simp: and_then_eq_Inr)
  from define_local_grew(1) [OF g(1) Cons.prems(2)] Cons.IH [OF g(2)] Cons.prems(2)
  show ?case by (auto simp: frame_grew_def)
qed simp

lemma frame_default_ok [simp]: "frame_ok frame_default" "local_count frame_default = 0"
  by (simp_all add: frame_default_def frame_ok_def)

lemma with_params_ok: "with_params ps = Inr frame \<Longrightarrow> frame_ok frame"
  unfolding with_params_def by (drule define_params_ok) simp_all

lemma with_one_param: "with_params (handler_params h) = Inr frame \<Longrightarrow> length (handler_params h) \<le> local_count frame"
  by (auto simp: with_params_def handler_params_def define_local_def frame_default_def split: option.splits)

lemma compile_frame_body:
  assumes run: "compile_frame parse profile kind name frame ss (asm closing) u = (Inr (i, frame', start, ln), u')"
    and u: "tables_ok u" and f: "frame = Inr f" "frame_ok f"
    and closing: "\<And>u n. straight_ok u n closing"
  shows "later u u'" "sb_ids (cu_strings u') name = Some i" "local_count f \<le> local_count frame'"
    "body_at u' (local_count frame') start ln closing"
    "cu_function_metas u' = cu_function_metas u" "cu_handler_metas u' = cu_handler_metas u"
    "cu_screen_metas u' = cu_screen_metas u"
proof -
  from bind_exec_InrD [OF run [unfolded compile_frame_def]] obtain j u1 where
    name: "on_table (intern name) u = (Inr j, u1)" and run1:
    "bind_exec code_position (\<lambda>start.
     bind_exec (lift frame) (\<lambda>frame.
     bind_exec (compile_statements parse profile frame ss) (\<lambda>frame.
     bind_exec (do_all (map emit (asm closing))) (\<lambda>_.
     bind_exec code_position (\<lambda>stop.
     bind_exec (lift (check_frame_code_len (stop - start) kind name)) (\<lambda>_.
       ret (j, frame, start, stop - start))))))) u1 = (Inr (i, frame', start, ln), u')" by blast
  from bind_exec_InrD [OF run1] obtain t v where t: "code_position u1 = (Inr t, v)" and run2:
    "bind_exec (compile_statements parse profile f ss) (\<lambda>frame.
     bind_exec (do_all (map emit (asm closing))) (\<lambda>_.
     bind_exec code_position (\<lambda>stop.
     bind_exec (lift (check_frame_code_len (stop - t) kind name)) (\<lambda>_.
       ret (j, frame, t, stop - t))))) v = (Inr (i, frame', start, ln), u')" by (auto simp: f(1))
  note t' = code_positionD [OF t]
  from bind_exec_InrD [OF run2] obtain g u2 where
    body: "compile_statements parse profile f ss u1 = (Inr g, u2)" and run3:
    "bind_exec code_position (\<lambda>stop.
     bind_exec (lift (check_frame_code_len (stop - t) kind name)) (\<lambda>_.
       ret (j, g, t, stop - t))) (u2\<lparr>cu_code := cu_code u2 @ asm closing\<rparr>) = (Inr (i, frame', start, ln), u')"
    by (auto simp: do_all_emit bind_exec_Inr t'(1))
  from bind_exec_InrD [OF run3] obtain stop u3 where
    stop: "code_position (u2\<lparr>cu_code := cu_code u2 @ asm closing\<rparr>) = (Inr stop, u3)"
    and run4: "bind_exec (lift (check_frame_code_len (stop - t) kind name)) (\<lambda>_.
       ret (j, g, t, stop - t)) u3 = (Inr (i, frame', start, ln), u')" by blast
  note stop' = code_positionD [OF stop]
  from run4 have out: "check_frame_code_len (stop - t) kind name = Inr ()" "i = j" "frame' = g" "start = t" "ln = stop - t" "u' = u3"
    by (auto dest!: bind_exec_InrD)
  obtain tab where tab: "intern name (cu_strings u) = (Inr j, tab)" "u1 = u\<lparr>cu_strings := tab\<rparr>"
    using name by (auto simp: on_table_def split: prod.splits)
  have w1: "wrote u [] u1" using intern_grew(1) [OF tab(1)] by (simp add: wrote_def grew_def tab(2))
  have u1: "tables_ok u1" by (rule wrote_tables [OF w1 u])
  from makes_blockD [OF makes_block_statements(2) body [unfolded compile_statements_def] u1 f(2)]
  obtain xs where xs: "frame_grew f g" "wrote u1 (asm xs) u2" "block_ok u2 (local_count g) (length (cu_code u1)) xs" .
  have w3: "wrote u2 (asm closing) u3" using put_wrote [of u2 "asm closing"] by (simp add: stop'(1))
  note w = wrote_trans [OF w1 wrote_trans [OF xs(2) w3]]
  show "later u u'" using w by (simp add: out wrote_later)
  show "sb_ids (cu_strings u') name = Some i"
  proof -
    have "sb_ids (cu_strings u1) name = Some j" using intern_grew(3) [OF tab(1)] by (simp add: tab(2))
    with later_id [OF wrote_later [OF wrote_trans [OF xs(2) w3]] u1] show ?thesis by (simp add: out)
  qed
  show "local_count f \<le> local_count frame'" using xs(1) by (simp add: out frame_grew_le)
  show "cu_function_metas u' = cu_function_metas u" "cu_handler_metas u' = cu_handler_metas u"
    "cu_screen_metas u' = cu_screen_metas u" using w by (simp_all add: out wrote_def grew_def)
  have code: "cu_code u3 = cu_code u @ asm (xs @ closing)" using w by (simp add: wrote_def)
  have pos: "unat t = length (cu_code u)" "unat stop = length (cu_code u) + length (asm (xs @ closing))"
    using t' stop' code by (simp_all add: tab(2))
  have ln: "unat (stop - t) = length (asm (xs @ closing))"
    using pos by (subst unat_sub) (simp_all add: word_le_nat_alt)
  have "block_ok u3 (local_count g) (length (cu_code u)) (xs @ closing)"
  proof (rule block_append)
    show "block_ok u3 (local_count g) (length (cu_code u)) xs"
      using xs(3) by (auto simp: tab(2) intro: block_mono wrote_grew [OF w3])
    show "block_ok u3 (local_count g) (length (cu_code u) + length (asm xs)) closing"
      by (rule straight_block [OF closing])
  qed
  then show "body_at u' (local_count frame') start ln closing"
    using code pos(1) ln out(1) unfolding body_at_def out(3-6)
    by (intro conjI exI [of _ xs]) (auto simp: check_frame_code_len_def split: if_splits)
qed

text \<open>What a row of each table says of the declaration it was compiled from.\<close>

definition function_compiled :: "compile_unit \<Rightarrow> ir_function \<Rightarrow> function_meta \<Rightarrow> bool" where
  "function_compiled u f m \<longleftrightarrow> sb_ids (cu_strings u) (if_name f) = Some (fm_name_id m) \<and>
     unat (fm_param_count m) = length (if_params f) \<and>
     body_at u (unat (fm_local_count m)) (fm_start m) (fm_len m) [PushNull, ReturnTop]"

definition handler_compiled :: "compile_unit \<Rightarrow> ir_handler \<Rightarrow> handler_meta \<Rightarrow> bool" where
  "handler_compiled u h m \<longleftrightarrow> sb_ids (cu_strings u) (ih_event h) = Some (hm_event_id m) \<and>
     hm_preload m = ih_preload h \<and> unat (hm_param_count m) = length (handler_params h) \<and>
     hm_param_count m \<le> hm_local_count m \<and>
     body_at u (unat (hm_local_count m)) (hm_start m) (hm_len m) [HaltFrame]"

definition screen_compiled :: "compile_unit \<Rightarrow> ir_screen \<Rightarrow> screen_meta \<Rightarrow> bool" where
  "screen_compiled u s m \<longleftrightarrow> sb_ids (cu_strings u) (is_name s) = Some (sm_name_id m) \<and>
     (\<exists>n. body_at u n (sm_start m) (sm_len m) [HaltFrame])"

lemma compiled_later:
  assumes "later u u'" "tables_ok u"
  shows "function_compiled u f m \<Longrightarrow> function_compiled u' f m"
    "handler_compiled u h k \<Longrightarrow> handler_compiled u' h k" "screen_compiled u s j \<Longrightarrow> screen_compiled u' s j"
  using assms by (auto simp: function_compiled_def handler_compiled_def screen_compiled_def
      intro: later_id body_later)

lemma body_metas: "body_at (u\<lparr>cu_function_metas := fs\<rparr>) n a b c = body_at u n a b c"
  "body_at (u\<lparr>cu_handler_metas := hs\<rparr>) n a b c = body_at u n a b c"
  "body_at (u\<lparr>cu_screen_metas := ss\<rparr>) n a b c = body_at u n a b c"
proof -
  have refs: "refs_ok (u\<lparr>cu_function_metas := fs\<rparr>) n i = refs_ok u n i"
    "refs_ok (u\<lparr>cu_handler_metas := hs\<rparr>) n i = refs_ok u n i"
    "refs_ok (u\<lparr>cu_screen_metas := ss\<rparr>) n i = refs_ok u n i" for i by (cases i; simp)+
  show "body_at (u\<lparr>cu_function_metas := fs\<rparr>) n a b c = body_at u n a b c"
    "body_at (u\<lparr>cu_handler_metas := hs\<rparr>) n a b c = body_at u n a b c"
    "body_at (u\<lparr>cu_screen_metas := ss\<rparr>) n a b c = body_at u n a b c"
    unfolding body_at_def block_ok_def refs by simp_all
qed

lemma later_metas: "later u (u'\<lparr>cu_function_metas := fs\<rparr>) = later u u'"
  "later u (u'\<lparr>cu_handler_metas := hs\<rparr>) = later u u'" "later u (u'\<lparr>cu_screen_metas := ss\<rparr>) = later u u'"
  by (simp_all add: later_def)

lemma closing_bytes: "[OP_PUSH_NULL, OP_RETURN] = asm [PushNull, ReturnTop]" "[OP_HALT] = asm [HaltFrame]"
  by simp_all

lemma closing_plain: "straight_ok u n [PushNull, ReturnTop]" "straight_ok u n [HaltFrame]"
  by simp_all

lemma lift_param_count:
  assumes "bind_exec (lift (try_u16 m (length ps))) g u = (Inr y, u')"
  shows "g (of_nat (length ps)) u = (Inr y, u') \<and> unat (of_nat (length ps) :: u16) = length ps"
  using assms by (auto simp: try_Inr unat_of_nat dest!: bind_exec_InrD)

lemma compile_function_step:
  assumes run: "compile_function parse profile f u = (Inr (), u')" and u: "tables_ok u"
  shows "later u u'" "\<exists>m. cu_function_metas u' = cu_function_metas u @ [m] \<and> function_compiled u' f m"
    "cu_handler_metas u' = cu_handler_metas u" "cu_screen_metas u' = cu_screen_metas u"
proof -
  from bind_exec_InrD [OF run [unfolded compile_function_def closing_bytes]] obtain i frame start ln v where
    body: "compile_frame parse profile ''function'' (if_name f) (with_params (if_params f)) (if_statements f)
      (asm [PushNull, ReturnTop]) u = (Inr (i, frame, start, ln), v)" and rest:
    "bind_exec (lift (try_u16 ''too many params'' (length (if_params f)))) (\<lambda>param_count.
       modify (\<lambda>u. u\<lparr>cu_function_metas := cu_function_metas u @
         [\<lparr>fm_name_id = i, fm_param_count = param_count, fm_local_count = fc_next_local frame,
           fm_start = start, fm_len = ln\<rparr>]\<rparr>)) v = (Inr (), u')" by force
  note n = lift_param_count [OF rest]
  obtain g where g: "with_params (if_params f) = Inr g"
    using body by (cases "with_params (if_params f)") (auto simp: compile_frame_def dest!: bind_exec_InrD)
  note b = compile_frame_body [OF body u g with_params_ok [OF g] closing_plain(1)]
  let ?m = "\<lparr>fm_name_id = i, fm_param_count = of_nat (length (if_params f)), fm_local_count = fc_next_local frame,
    fm_start = start, fm_len = ln\<rparr>"
  have u': "u' = v\<lparr>cu_function_metas := cu_function_metas v @ [?m]\<rparr>" using n by simp
  show "later u u'" "cu_handler_metas u' = cu_handler_metas u" "cu_screen_metas u' = cu_screen_metas u"
    unfolding u' by (simp_all add: later_metas b)
  have "cu_function_metas u' = cu_function_metas u @ [?m]" unfolding u' by (simp add: b)
  moreover have "function_compiled u' f ?m"
    unfolding u' function_compiled_def body_metas using conjunct2 [OF n] b(2,4) by simp
  ultimately show "\<exists>m. cu_function_metas u' = cu_function_metas u @ [m] \<and> function_compiled u' f m" by blast
qed

lemma compile_handler_step:
  assumes run: "compile_handler parse profile h u = (Inr (), u')" and u: "tables_ok u"
  shows "later u u'" "\<exists>m. cu_handler_metas u' = cu_handler_metas u @ [m] \<and> handler_compiled u' h m"
    "cu_function_metas u' = cu_function_metas u" "cu_screen_metas u' = cu_screen_metas u"
proof -
  from bind_exec_InrD [OF run [unfolded compile_handler_def closing_bytes]] obtain i frame start ln v where
    body: "compile_frame parse profile ''handler'' (ih_event h) (with_params (handler_params h)) (ih_statements h)
      (asm [HaltFrame]) u = (Inr (i, frame, start, ln), v)" and rest:
    "bind_exec (lift (try_u16 ''too many handler params'' (length (handler_params h)))) (\<lambda>param_count.
       modify (\<lambda>u. u\<lparr>cu_handler_metas := cu_handler_metas u @
         [\<lparr>hm_event_id = i, hm_param_count = param_count, hm_local_count = fc_next_local frame,
           hm_preload = ih_preload h, hm_start = start, hm_len = ln\<rparr>]\<rparr>)) v = (Inr (), u')" by force
  note n = lift_param_count [OF rest]
  obtain g where g: "with_params (handler_params h) = Inr g"
    using body by (cases "with_params (handler_params h)") (auto simp: compile_frame_def dest!: bind_exec_InrD)
  note b = compile_frame_body [OF body u g with_params_ok [OF g] closing_plain(2)]
  have "of_nat (length (handler_params h)) \<le> fc_next_local frame"
    unfolding word_le_nat_alt using n with_one_param [OF g] b(3) by linarith
  note params = this
  let ?m = "\<lparr>hm_event_id = i, hm_param_count = of_nat (length (handler_params h)), hm_local_count = fc_next_local frame,
    hm_preload = ih_preload h, hm_start = start, hm_len = ln\<rparr>"
  have u': "u' = v\<lparr>cu_handler_metas := cu_handler_metas v @ [?m]\<rparr>" using n by simp
  show "later u u'" "cu_function_metas u' = cu_function_metas u" "cu_screen_metas u' = cu_screen_metas u"
    unfolding u' by (simp_all add: later_metas b)
  have "cu_handler_metas u' = cu_handler_metas u @ [?m]" unfolding u' by (simp add: b)
  moreover have "handler_compiled u' h ?m"
    unfolding u' handler_compiled_def body_metas using conjunct2 [OF n] b(2,4) params by simp
  ultimately show "\<exists>m. cu_handler_metas u' = cu_handler_metas u @ [m] \<and> handler_compiled u' h m" by blast
qed

lemma compile_screen_step:
  assumes run: "compile_screen parse profile s u = (Inr (), u')" and u: "tables_ok u"
  shows "later u u'" "\<exists>m. cu_screen_metas u' = cu_screen_metas u @ [m] \<and> screen_compiled u' s m"
    "cu_function_metas u' = cu_function_metas u" "cu_handler_metas u' = cu_handler_metas u"
proof -
  from bind_exec_InrD [OF run [unfolded compile_screen_def closing_bytes]] obtain i frame start ln v where
    body: "compile_frame parse profile ''screen'' (is_name s) (Inr frame_default) (is_statements s)
      (asm [HaltFrame]) u = (Inr (i, frame, start, ln), v)" and
    rest: "u' = v\<lparr>cu_screen_metas := cu_screen_metas v @ [\<lparr>sm_name_id = i, sm_start = start, sm_len = ln\<rparr>]\<rparr>"
    by force
  note b = compile_frame_body [OF body u refl frame_default_ok(1) closing_plain(2)]
  let ?m = "\<lparr>sm_name_id = i, sm_start = start, sm_len = ln\<rparr>"
  show "later u u'" "cu_function_metas u' = cu_function_metas u" "cu_handler_metas u' = cu_handler_metas u"
    unfolding rest by (simp_all add: later_metas b)
  have "cu_screen_metas u' = cu_screen_metas u @ [?m]" unfolding rest by (simp add: b)
  moreover have "screen_compiled u' s ?m"
    unfolding rest screen_compiled_def body_metas using b(2,4) by auto
  ultimately show "\<exists>m. cu_screen_metas u' = cu_screen_metas u @ [m] \<and> screen_compiled u' s m" by blast
qed

text \<open>A table, row by row.\<close>

lemma do_all_rows:
  assumes step: "\<And>x u u'. step x u = (Inr (), u') \<Longrightarrow> tables_ok u \<Longrightarrow>
      later u u' \<and> (\<exists>m. rows u' = rows u @ [m] \<and> R u' x m) \<and> rest u' = rest u"
    and mono: "\<And>u u' x m. later u u' \<Longrightarrow> tables_ok u \<Longrightarrow> R u x m \<Longrightarrow> R u' x m"
    and "do_all (map step xs) u = (Inr (), u')" "tables_ok u"
  shows "later u u' \<and> (\<exists>ms. rows u' = rows u @ ms \<and> list_all2 (R u') xs ms) \<and> rest u' = rest u"
  using assms(3,4)
proof (induction xs arbitrary: u)
  case Nil
  then show ?case by (simp add: do_all.simps)
next
  case (Cons x xs)
  from Cons.prems(1) obtain v where v: "step x u = (Inr (), v)" "do_all (map step xs) v = (Inr (), u')"
    by (auto simp: do_all.simps dest!: bind_exec_InrD)
  from step [OF v(1) Cons.prems(2)] obtain m where m: "later u v" "rows v = rows u @ [m]" "R v x m" "rest v = rest u"
    by blast
  have tv: "tables_ok v" by (rule later_tables [OF m(1) Cons.prems(2)])
  from Cons.IH [OF v(2) tv] obtain ms where ms: "later v u'" "rows u' = rows v @ ms" "list_all2 (R u') xs ms"
    "rest u' = rest v" by blast
  then show ?case
    using m mono [OF ms(1) tv m(3)] by (auto intro!: exI [of _ "m # ms"] later_trans [OF m(1) ms(1)])
qed

section \<open>The unit of a program\<close>

text \<open>The strings and tables of a compiled program.\<close>

definition unit_compiled :: "ir_program \<Rightarrow> compile_unit \<Rightarrow> bool" where
  "unit_compiled ir u \<longleftrightarrow> tables_ok u \<and>
     list_all2 (function_compiled u) (ir_functions ir) (cu_function_metas u) \<and>
     list_all2 (handler_compiled u) (ir_handlers ir) (cu_handler_metas u) \<and>
     list_all2 (screen_compiled u) (ir_screens ir) (cu_screen_metas u)"

lemma rows_later:
  assumes "later u u'" "tables_ok u"
  shows "list_all2 (function_compiled u) fs ms \<Longrightarrow> list_all2 (function_compiled u') fs ms"
    "list_all2 (handler_compiled u) hs ns \<Longrightarrow> list_all2 (handler_compiled u') hs ns"
  using compiled_later [OF assms] by (auto elim: list_all2_mono)

lemma compile_unit_compiled:
  assumes run: "compile_unit_of parse ir profile unit_default = (Inr (), u)"
  shows "unit_compiled ir u"
proof -
  from run obtain t states fns u1 u2 where
    t: "collect_strings ir profile strtab_default = (Inr (), t)"
    and rows: "do_all (map (compile_function parse profile) (ir_functions ir))
        (unit_default\<lparr>cu_strings := t, cu_states := states, cu_functions := fns\<rparr>) = (Inr (), u1)"
      "do_all (map (compile_handler parse profile) (ir_handlers ir)) u1 = (Inr (), u2)"
      "do_all (map (compile_screen parse profile) (ir_screens ir)) u2 = (Inr (), u)"
    by (auto simp: compile_unit_of_def on_table_def do_all.simps unit_default_def
        dest!: bind_exec_InrD split: prod.splits)
  let ?u0 = "unit_default\<lparr>cu_strings := t, cu_states := states, cu_functions := fns\<rparr>"
  have u0: "tables_ok ?u0"
    using grows_collect [of ir profile] t by (auto simp: grows_table_def tables_ok_def strtab_grew_def)
  have 1: "later ?u0 u1 \<and> (\<exists>ms. cu_function_metas u1 = cu_function_metas ?u0 @ ms \<and>
      list_all2 (function_compiled u1) (ir_functions ir) ms) \<and>
      (cu_handler_metas u1, cu_screen_metas u1) = (cu_handler_metas ?u0, cu_screen_metas ?u0)"
    by (rule do_all_rows [OF _ _ rows(1) u0, where rest = "\<lambda>u. (cu_handler_metas u, cu_screen_metas u)"])
      (auto intro: compile_function_step compiled_later dest: compile_function_step)
  then have u1: "tables_ok u1" using later_tables u0 by blast
  have 2: "later u1 u2 \<and> (\<exists>ms. cu_handler_metas u2 = cu_handler_metas u1 @ ms \<and>
      list_all2 (handler_compiled u2) (ir_handlers ir) ms) \<and>
      (cu_function_metas u2, cu_screen_metas u2) = (cu_function_metas u1, cu_screen_metas u1)"
    by (rule do_all_rows [OF _ _ rows(2) u1, where rest = "\<lambda>u. (cu_function_metas u, cu_screen_metas u)"])
      (auto intro: compile_handler_step compiled_later dest: compile_handler_step)
  then have u2: "tables_ok u2" using later_tables u1 by blast
  have 3: "later u2 u \<and> (\<exists>ms. cu_screen_metas u = cu_screen_metas u2 @ ms \<and>
      list_all2 (screen_compiled u) (ir_screens ir) ms) \<and>
      (cu_function_metas u, cu_handler_metas u) = (cu_function_metas u2, cu_handler_metas u2)"
    by (rule do_all_rows [OF _ _ rows(3) u2, where rest = "\<lambda>u. (cu_function_metas u, cu_handler_metas u)"])
      (auto intro: compile_screen_step compiled_later dest: compile_screen_step)
  have u: "tables_ok u" using 3 later_tables u2 by blast
  have "list_all2 (function_compiled u) (ir_functions ir) (cu_function_metas u)"
    using 1 2 3 rows_later(1) [OF _ u1, of u] by (auto simp: unit_default_def intro: later_trans)
  moreover have "list_all2 (handler_compiled u) (ir_handlers ir) (cu_handler_metas u)"
    using 1 2 3 rows_later(2) [OF _ u2, of u] by (auto simp: unit_default_def)
  moreover have "list_all2 (screen_compiled u) (ir_screens ir) (cu_screen_metas u)"
    using 1 2 3 by (auto simp: unit_default_def)
  ultimately show ?thesis using u by (simp add: unit_compiled_def)
qed

section \<open>The file of a program\<close>

text \<open>The program the loader is to make of a compiled unit.\<close>

definition compiled_program :: "ir_program \<Rightarrow> compile_unit \<Rightarrow> program" where
  "compiled_program ir u =
     \<lparr>tb_state_slots = fill_array MAX_STATE default_slot (map (compiled_slot (cu_strings u)) (ir_state ir)),
      tb_state_count = length (ir_state ir),
      tb_functions = fill_array MAX_FUNCTIONS default_function (map function_of (cu_function_metas u)),
      tb_function_count = length (cu_function_metas u),
      tb_handlers = fill_array MAX_HANDLERS default_handler (map handler_of (cu_handler_metas u)),
      tb_handler_count = length (cu_handler_metas u),
      tb_triggers = fill_array MAX_TRIGGERS default_trigger (map (trigger_of (cu_strings u)) (ir_triggers ir)),
      tb_trigger_count = length (ir_triggers ir),
      tb_screens = fill_array MAX_SCREENS default_screen (map screen_of (cu_screen_metas u)),
      tb_screen_count = length (cu_screen_metas u),
      pg_strings = fill_array MAX_STRINGS [] (map str_bytes (sb_values (cu_strings u))),
      pg_string_count = length (sb_values (cu_strings u)), pg_code = cu_code u\<rparr>"

text \<open>What the loader checks of a program and the compiler does not.\<close>

definition tables_load :: "ir_program \<Rightarrow> compile_unit \<Rightarrow> bool" where
  "tables_load ir u \<longleftrightarrow> list_all (slot_loads (cu_strings u)) (ir_state ir) \<and>
     list_all (\<lambda>m. unat (hm_local_count m) \<le> MAX_LOCALS) (cu_handler_metas u) \<and>
     list_all (\<lambda>t. 0 < sint (it_interval_ms t)) (ir_triggers ir)"

definition names_distinct :: "ir_program \<Rightarrow> bool" where
  "names_distinct ir \<longleftrightarrow> distinct (map sv_name (ir_state ir)) \<and> distinct (map if_name (ir_functions ir)) \<and>
     distinct (map ih_event (ir_handlers ir)) \<and> distinct (map it_event (ir_triggers ir)) \<and>
     distinct (map is_name (ir_screens ir))"

lemma check_counts_Inr: "check_counts cs = Inr () \<longleftrightarrow> list_all (\<lambda>(_, n, most). n \<le> most) cs"
  by (induction cs rule: check_counts.induct) auto

text \<open>The parts of a successful compilation.\<close>

lemma encode_sqbc_Inr:
  assumes "encode_sqbc_with_profile parse ir profile = Inr bytes"
  obtains u secs app_meta bindings strings state triggers ble http where
    "compile_unit_of parse ir profile unit_default = (Inr (), u)"
    "check_program_limits ir u = Inr ()" "encode_container secs = Inr bytes" "length bytes \<le> MAX_APP_BYTES"
    "secs = [(SECTION_APP_META, app_meta), (SECTION_DEVICE_BINDINGS, bindings),
       (SECTION_STRINGS, strings), (SECTION_STATE, state),
       (SECTION_FUNCTIONS, encode_functions (cu_function_metas u)),
       (SECTION_TRIGGERS, triggers), (SECTION_BLE_PROFILES, ble), (SECTION_HTTP_PROFILES, http),
       (SECTION_HANDLERS, encode_handlers (cu_handler_metas u)),
       (SECTION_SCREENS, encode_screens (cu_screen_metas u)), (SECTION_CODE, cu_code u)]"
    "encode_app_meta ir = Inr app_meta" "strtab_encode (cu_strings u) = Inr strings"
    "encode_state_section ir (cu_strings u) = Inr state" "encode_triggers ir (cu_strings u) = Inr triggers"
proof -
  from assms obtain u where u: "compile_unit_of parse ir profile unit_default = (Inr (), u)"
    by (auto simp: encode_sqbc_with_profile_def split: prod.splits sum.splits)
  from assms obtain secs where secs: "check_program_limits ir u = Inr ()" "encode_sections ir u = Inr secs"
    "encode_container secs = Inr bytes" "length bytes \<le> MAX_APP_BYTES"
    by (auto simp: encode_sqbc_with_profile_def u and_then_eq_Inr split: if_splits)
  from secs(2) show thesis
    by (auto simp: encode_sections_def Let_def and_then_eq_Inr intro!: that [OF u secs(1,3,4)])
qed

lemma limits_Inr:
  assumes "check_program_limits ir u = Inr ()"
  shows "sum_list (map (\<lambda>v. length (str_bytes v)) (sb_values (cu_strings u))) \<le> MAX_PROGRAM_STRING_BYTES"
    "length (sb_values (cu_strings u)) \<le> MAX_STRINGS" "length (ir_functions ir) \<le> MAX_FUNCTIONS"
    "length (ir_handlers ir) \<le> MAX_HANDLERS" "length (ir_screens ir) \<le> MAX_SCREENS"
    "length (ir_state ir) \<le> MAX_STATE" "length (ir_triggers ir) \<le> MAX_TRIGGERS"
  using assms by (auto simp: check_program_limits_def Let_def check_counts_Inr split: if_splits)

lemma section_small:
  assumes "holds_sections bytes secs" and "(k, d) \<in> set secs"
  shows "length d \<le> length bytes"
proof -
  from assms(2) obtain i where "i < length secs" "secs ! i = (k, d)" by (auto simp: in_set_conv_nth)
  with assms(1) obtain a b where "get_range bytes a b = Some d" unfolding holds_sections_def by fastforce
  then show ?thesis by (auto simp: get_range_eq_Some)
qed

text \<open>A table whose names all resolve is rejected only for a duplicate.\<close>

lemma validate_unique_names_of:
  assumes "map key rows = map Inr ks"
  shows "validate_unique dup key rows = (if distinct ks then Inr () else Inl (Err dup))"
proof -
  have "unique_in dup key name ps \<in> {Inr (), Inl (Err dup)}" if "\<forall>p \<in> set ps. \<exists>k. key p = Inr k" for name ps
    using that by (induction ps) (auto split: if_splits)
  then have "unique_from dup key seen rs \<in> {Inr (), Inl (Err dup)}"
    if "\<forall>p \<in> set (seen @ rs). \<exists>k. key p = Inr k" for seen rs
    using that
  proof (induction rs arbitrary: seen)
    case (Cons r rs)
    from Cons.prems(2) obtain k where "key r = Inr k" by auto
    moreover have "unique_in dup key k seen \<in> {Inr (), Inl (Err dup)}" using Cons.prems by simp
    moreover have "unique_from dup key (seen @ [r]) rs \<in> {Inr (), Inl (Err dup)}"
      using Cons.prems by (intro Cons.IH) auto
    ultimately show ?case by auto
  qed simp
  moreover have "\<forall>p \<in> set rows. \<exists>k. key p = Inr k"
  proof
    fix p assume "p \<in> set rows"
    then have "key p \<in> set (map Inr ks)" unfolding assms [symmetric] by simp
    then show "\<exists>k. key p = Inr k" by auto
  qed
  ultimately have "validate_unique dup key rows \<in> {Inr (), Inl (Err dup)}"
    unfolding validate_unique_def by (metis append_Nil)
  moreover have "validate_unique dup key rows = Inr () \<longleftrightarrow> distinct ks"
    unfolding validate_unique_iff assms by (simp add: inj_map_eq_map)
  ultimately show ?thesis by auto
qed

lemma list_all2_map_eq: "list_all2 R xs ys \<Longrightarrow> (\<And>x y. R x y \<Longrightarrow> g y = h x) \<Longrightarrow> map g ys = map h xs"
  by (induction rule: list_all2_induct) auto

lemma list_all2_set_right: "list_all2 R xs ys \<Longrightarrow> (\<And>x y. R x y \<Longrightarrow> P y) \<Longrightarrow> \<forall>y \<in> set ys. P y"
  by (induction rule: list_all2_induct) auto

text \<open>An id of the compiler's table, looked up in the loaded strings.\<close>

lemma compiled_string:
  assumes "tables_ok u" "sb_ids (cu_strings u) v = Some i" "length (sb_values (cu_strings u)) \<le> MAX_STRINGS"
  shows "table_string (fill_array MAX_STRINGS [] (map str_bytes (sb_values (cu_strings u))))
      (length (sb_values (cu_strings u))) i = Inr (str_bytes v)"
    and "validate_string_id i (length (sb_values (cu_strings u))) = Inr ()"
  using strtab_idsD [of "cu_strings u" v i] assms
  by (auto simp: tables_ok_def table_string_def validate_string_id_def)

lemma compiled_value_refs:
  assumes "tables_ok u" "encode_value (cu_strings u) v = Inr bs"
  shows "validate_value_string_refs (compiled_value (cu_strings u) v) (length (sb_values (cu_strings u))) = Inr ()"
  using assms
  by (auto simp: tables_ok_def validate_value_string_refs_def compiled_value_def validate_string_id_def encode_value_def
      and_then_eq_Inr lookup_id_Inr split: option.splits if_splits dest: strtab_idsD)

lemma validate_compiled:
  assumes u: "unit_compiled ir u" and lim: "check_program_limits ir u = Inr ()"
    and state: "encode_state_section ir (cu_strings u) = Inr sb" and triggers: "encode_triggers ir (cu_strings u) = Inr tb"
  defines "p \<equiv> compiled_program ir u"
  shows "validate_program_tables (pg_strings p) (pg_string_count p) p =
    (if names_distinct ir then Inr () else Inl (Err DuplicateTableKey))"
proof -
  let ?t = "cu_strings u"
  let ?n = "length (sb_values ?t)"
  let ?name = "table_string (pg_strings p) (pg_string_count p)"
  note limits = limits_Inr [OF lim]
  have ok: "tables_ok u" and fns: "list_all2 (function_compiled u) (ir_functions ir) (cu_function_metas u)"
    and hs: "list_all2 (handler_compiled u) (ir_handlers ir) (cu_handler_metas u)"
    and scs: "list_all2 (screen_compiled u) (ir_screens ir) (cu_screen_metas u)"
    using u by (simp_all add: unit_compiled_def)
  note str = compiled_string [OF ok _ limits(2)]
  note srows = encode_table_Inr(2) [OF state [unfolded encode_state_section_def]]
  note trows = encode_table_Inr(2) [OF triggers [unfolded encode_triggers_def]]
  have strings: "pg_strings p = fill_array MAX_STRINGS [] (map str_bytes (sb_values ?t))" "pg_string_count p = ?n"
    by (simp_all add: p_def compiled_program_def)
  have live: "live_slots p = map (compiled_slot ?t) (ir_state ir)"
    "live_functions p = map function_of (cu_function_metas u)"
    "live_handlers p = map handler_of (cu_handler_metas u)"
    "live_triggers p = map (trigger_of ?t) (ir_triggers ir)"
    "live_screens p = map screen_of (cu_screen_metas u)"
    by (simp_all add: p_def compiled_program_def)
  have slot: "?name (s_name_id (compiled_slot ?t s)) = Inr (str_bytes (sv_name s))"
    "validate_string_id (s_name_id (compiled_slot ?t s)) ?n = Inr ()"
    "validate_value_string_refs (s_default (compiled_slot ?t s)) ?n = Inr ()" if "s \<in> set (ir_state ir)" for s
  proof -
    from srows that obtain bs where "encode_state_row ?t s = Inr bs" by metis
    from state_row_reads(2) [OF this] str show "?name (s_name_id (compiled_slot ?t s)) = Inr (str_bytes (sv_name s))"
      "validate_string_id (s_name_id (compiled_slot ?t s)) ?n = Inr ()" by (simp_all add: strings)
    from \<open>encode_state_row ?t s = Inr bs\<close> obtain v where "encode_value ?t (sv_value s) = Inr v"
      by (auto simp: encode_state_row_def and_then_eq_Inr)
    from compiled_value_refs [OF ok this] show "validate_value_string_refs (s_default (compiled_slot ?t s)) ?n = Inr ()"
      by (simp add: compiled_slot_def)
  qed
  have trigger: "?name (t_event_id (trigger_of ?t r)) = Inr (str_bytes (it_event r))"
    "validate_string_id (t_event_id (trigger_of ?t r)) ?n = Inr ()" if "r \<in> set (ir_triggers ir)" for r
  proof -
    from trows that obtain bs where "encode_trigger_row ?t r = Inr bs" by metis
    from trigger_row_reads(2) [OF this] str show "?name (t_event_id (trigger_of ?t r)) = Inr (str_bytes (it_event r))"
      "validate_string_id (t_event_id (trigger_of ?t r)) ?n = Inr ()" by (simp_all add: strings)
  qed
  have row_ok: "\<forall>m \<in> set (cu_function_metas u). validate_string_id (fm_name_id m) ?n = Inr ()"
    by (rule list_all2_set_right [OF fns]) (auto simp: function_compiled_def intro: str(2))
  have row_ok': "\<forall>m \<in> set (cu_handler_metas u). validate_string_id (hm_event_id m) ?n = Inr ()"
    by (rule list_all2_set_right [OF hs]) (auto simp: handler_compiled_def intro: str(2))
  have row_ok'': "\<forall>m \<in> set (cu_screen_metas u). validate_string_id (sm_name_id m) ?n = Inr ()"
    by (rule list_all2_set_right [OF scs]) (auto simp: screen_compiled_def intro: str(2))
  have ids: "validate_ids (\<lambda>sid. validate_string_id sid (pg_string_count p)) (pg_string_count p) p = Inr ()"
    unfolding validate_ids_def live strings(2)
    using slot(2,3) trigger(2) row_ok row_ok' row_ok''
    by (auto simp: and_then_eq_Inr for_each_Inr function_of_def handler_of_def screen_of_def)
  have names: "map (\<lambda>r. ?name (s_name_id r)) (live_slots p) = map Inr (map str_bytes (map sv_name (ir_state ir)))"
    "map (\<lambda>r. ?name (t_event_id r)) (live_triggers p) = map Inr (map str_bytes (map it_event (ir_triggers ir)))"
    unfolding live using slot(1) trigger(1) by simp_all
  have "map (\<lambda>m. ?name (fm_name_id m)) (cu_function_metas u) = map (\<lambda>f. Inr (str_bytes (if_name f))) (ir_functions ir)"
    using fns by (rule list_all2_map_eq) (simp add: function_compiled_def str strings)
  moreover have "map (\<lambda>m. ?name (hm_event_id m)) (cu_handler_metas u) = map (\<lambda>h. Inr (str_bytes (ih_event h))) (ir_handlers ir)"
    using hs by (rule list_all2_map_eq) (simp add: handler_compiled_def str strings)
  moreover have "map (\<lambda>m. ?name (sm_name_id m)) (cu_screen_metas u) = map (\<lambda>c. Inr (str_bytes (is_name c))) (ir_screens ir)"
    using scs by (rule list_all2_map_eq) (simp add: screen_compiled_def str strings)
  ultimately have names': "map (\<lambda>r. ?name (f_name_id r)) (live_functions p) = map Inr (map str_bytes (map if_name (ir_functions ir)))"
    "map (\<lambda>r. ?name (h_event_id r)) (live_handlers p) = map Inr (map str_bytes (map ih_event (ir_handlers ir)))"
    "map (\<lambda>r. ?name (sc_name_id r)) (live_screens p) = map Inr (map str_bytes (map is_name (ir_screens ir)))"
    unfolding live by (simp_all add: comp_def function_of_def handler_of_def screen_of_def)
  have inj: "distinct (map str_bytes xs) \<longleftrightarrow> distinct xs" for xs
    by (simp add: distinct_map inj_on_def str_bytes_eq)
  show ?thesis
    unfolding validate_program_tables_def ids and_then_simps validate_unique_names_def
      validate_unique_names_of [OF names(1)] validate_unique_names_of [OF names(2)]
      validate_unique_names_of [OF names'(1)] validate_unique_names_of [OF names'(2)]
      validate_unique_names_of [OF names'(3)] inj names_distinct_def by simp
qed

lemma body_in_code: "body_at u n start ln closing \<Longrightarrow> unat start + unat ln \<le> length (cu_code u)"
  by (simp add: body_at_def)

text \<open>The ranges of the compiled rows lie in the code.\<close>

lemma rows_in_code:
  assumes "unit_compiled ir u"
  shows "list_all (\<lambda>f. unat (fm_start f) + unat (fm_len f) \<le> length (cu_code u)) (cu_function_metas u)"
    "list_all (\<lambda>s. unat (sm_start s) + unat (sm_len s) \<le> length (cu_code u)) (cu_screen_metas u)"
    "list_all (handler_loads (length (cu_code u))) (cu_handler_metas u) \<longleftrightarrow>
      list_all (\<lambda>m. unat (hm_local_count m) \<le> MAX_LOCALS) (cu_handler_metas u)"
    "length (cu_function_metas u) = length (ir_functions ir)" "length (cu_handler_metas u) = length (ir_handlers ir)"
    "length (cu_screen_metas u) = length (ir_screens ir)"
proof -
  have rows: "list_all2 (function_compiled u) (ir_functions ir) (cu_function_metas u)"
    "list_all2 (handler_compiled u) (ir_handlers ir) (cu_handler_metas u)"
    "list_all2 (screen_compiled u) (ir_screens ir) (cu_screen_metas u)"
    using assms by (simp_all add: unit_compiled_def)
  show "list_all (\<lambda>f. unat (fm_start f) + unat (fm_len f) \<le> length (cu_code u)) (cu_function_metas u)"
    unfolding list_all_iff by (rule list_all2_set_right [OF rows(1)]) (auto simp: function_compiled_def body_in_code)
  show "list_all (\<lambda>s. unat (sm_start s) + unat (sm_len s) \<le> length (cu_code u)) (cu_screen_metas u)"
    unfolding list_all_iff by (rule list_all2_set_right [OF rows(3)]) (auto simp: screen_compiled_def dest: body_in_code)
  have "\<forall>m \<in> set (cu_handler_metas u). hm_param_count m \<le> hm_local_count m \<and>
      unat (hm_start m) + unat (hm_len m) \<le> length (cu_code u)"
    by (rule list_all2_set_right [OF rows(2)]) (auto simp: handler_compiled_def body_in_code)
  then show "list_all (handler_loads (length (cu_code u))) (cu_handler_metas u) \<longleftrightarrow>
      list_all (\<lambda>m. unat (hm_local_count m) \<le> MAX_LOCALS) (cu_handler_metas u)"
    by (auto simp: list_all_iff handler_loads_def)
  show "length (cu_function_metas u) = length (ir_functions ir)" "length (cu_handler_metas u) = length (ir_handlers ir)"
    "length (cu_screen_metas u) = length (ir_screens ir)"
    using rows by (simp_all add: list_all2_lengthD)
qed

lemma compiled_file_parse:
  assumes "encode_sqbc_with_profile parse ir profile = Inr bytes"
  shows "\<exists>u. compile_unit_of parse ir profile unit_default = (Inr (), u) \<and>
    program_parse bytes =
      (if \<not> tables_load ir u then Inl (Err InvalidSection)
       else if \<not> names_distinct ir then Inl (Err DuplicateTableKey)
       else Inr (compiled_program ir u))"
proof -
  from assms obtain u secs app_meta bindings strings state triggers ble http where
    u: "compile_unit_of parse ir profile unit_default = (Inr (), u)"
    and lim: "check_program_limits ir u = Inr ()" and bytes: "encode_container secs = Inr bytes" "length bytes \<le> MAX_APP_BYTES"
    and secs: "secs = [(SECTION_APP_META, app_meta), (SECTION_DEVICE_BINDINGS, bindings),
       (SECTION_STRINGS, strings), (SECTION_STATE, state),
       (SECTION_FUNCTIONS, encode_functions (cu_function_metas u)),
       (SECTION_TRIGGERS, triggers), (SECTION_BLE_PROFILES, ble), (SECTION_HTTP_PROFILES, http),
       (SECTION_HANDLERS, encode_handlers (cu_handler_metas u)),
       (SECTION_SCREENS, encode_screens (cu_screen_metas u)), (SECTION_CODE, cu_code u)]"
    and enc: "strtab_encode (cu_strings u) = Inr strings"
      "encode_state_section ir (cu_strings u) = Inr state" "encode_triggers ir (cu_strings u) = Inr triggers"
    by (rule encode_sqbc_Inr)
  note ok = compile_unit_compiled [OF u]
  note limits = limits_Inr [OF lim]
  note c = container_Inr [OF bytes(1)]
  note rows = rows_in_code [OF ok]
  have big: "n \<le> usize_max" if "n \<le> length bytes" for n using that bytes(2) by (simp add: usize_max_def)
  have small: "length d \<le> usize_max" if "d \<in> snd ` set secs" for d
    using that section_small [OF c(2)] big by fastforce
  have lens: "length strings \<le> usize_max" "length state \<le> usize_max" "length triggers \<le> usize_max"
    "length (encode_functions (cu_function_metas u)) \<le> usize_max"
    "length (encode_handlers (cu_handler_metas u)) \<le> usize_max"
    "length (encode_screens (cu_screen_metas u)) \<le> usize_max"
    by (simp_all add: small secs)
  have n: "length secs = 11" by (simp add: secs)
  note sec = section_bytes_of [OF c(2) big [OF order_refl], unfolded n]
  have found: "section_bytes bytes 11 SECTION_STRINGS = Inr strings" "section_bytes bytes 11 SECTION_STATE = Inr state"
    "section_bytes bytes 11 SECTION_FUNCTIONS = Inr (encode_functions (cu_function_metas u))"
    "section_bytes bytes 11 SECTION_HANDLERS = Inr (encode_handlers (cu_handler_metas u))"
    "optional_section bytes 11 SECTION_TRIGGERS = Inr (Some triggers)"
    "optional_section bytes 11 SECTION_SCREENS = Inr (Some (encode_screens (cu_screen_metas u)))"
    "section_bytes bytes 11 SECTION_CODE = Inr (cu_code u)"
    by (simp_all add: sec secs)
  have kinds: "validate_unique_section_kinds (take 146 bytes) 11 = Inr ()"
    using section_kinds_of [OF c(2), of 146] by (simp add: n) (simp add: secs)
  have header: "parse_header bytes = Inr \<lparr>hd_header_len = 146, hd_file_len = length bytes, hd_section_count = 11\<rparr>"
    "146 \<le> length bytes" using c(1,3) by (simp_all add: n)
  obtain pool where owned: "parse_owned_strings strings = Inr (pool, length (sb_values (cu_strings u)))"
    using parse_strings_encoded(2) [OF enc(1) limits(2) lens(1) limits(1)] by blast
  note tables = parse_strings_encoded(1) [OF enc(1) limits(2) lens(1) limits(1)]
    parse_state_encoded [OF enc(2) limits(6) lens(2)] parse_triggers_encoded [OF enc(3) limits(7) lens(3)]
    parse_functions_encoded [OF _ lens(4)] parse_handlers_encoded [OF _ lens(5)] parse_screens_encoded [OF _ lens(6)]
  have "program_parse bytes =
      (if \<not> tables_load ir u then Inl (Err InvalidSection)
       else if \<not> names_distinct ir then Inl (Err DuplicateTableKey)
       else Inr (compiled_program ir u))"
    using bytes(2) header(2) validate_compiled [OF ok lim enc(2,3)]
    by (simp add: program_parse_def header(1) kinds found owned tables rows limits tables_load_def
        compiled_program_def)
  then show ?thesis using u by blast
qed

lemma compiled_file_parsed:
  assumes "encode_sqbc_with_profile parse ir profile = Inr bytes" "program_parse bytes = Inr p"
  obtains u where "compile_unit_of parse ir profile unit_default = (Inr (), u)" "unit_compiled ir u"
    "names_distinct ir" "p = compiled_program ir u" "check_program_limits ir u = Inr ()"
proof -
  from compiled_file_parse [OF assms(1)] assms(2) obtain u where
    u: "compile_unit_of parse ir profile unit_default = (Inr (), u)" "names_distinct ir" "p = compiled_program ir u"
    by (auto split: if_splits)
  moreover from assms(1) obtain v where "compile_unit_of parse ir profile unit_default = (Inr (), v)"
    "check_program_limits ir v = Inr ()" by (rule encode_sqbc_Inr)
  ultimately show thesis using that compile_unit_compiled by simp
qed

text \<open>The first row with a name is the row of the declaration with that name.\<close>

lemma find_row_nth:
  assumes "map (\<lambda>r. name_of (key r)) rows = map Inr ks" "distinct ks" "i < length rows"
  shows "find_row missing name_of key (ks ! i) j rows = Inr (j + i, rows ! i)"
  using assms
proof (induction rows arbitrary: ks i j)
  case (Cons r rows)
  from Cons.prems(1) obtain k ks' where ks: "ks = k # ks'" "name_of (key r) = Inr k"
    "map (\<lambda>r. name_of (key r)) rows = map Inr ks'" by (cases ks) auto
  show ?case
  proof (cases i)
    case (Suc i')
    have "length ks' = length rows" using arg_cong [OF ks(3), of length] by simp
    then have "ks' ! i' \<noteq> k" using Suc Cons.prems(2,3) ks(1) by (auto simp: in_set_conv_nth)
    with Suc Cons.IH [OF ks(3), of i' "Suc j"] Cons.prems(2,3) ks show ?thesis by simp
  qed (use ks in simp)
qed simp

lemma compiled_program_string:
  assumes "tables_ok u" "sb_ids (cu_strings u) v = Some i" "length (sb_values (cu_strings u)) \<le> MAX_STRINGS"
  shows "program_string (compiled_program ir u) i = Inr (str_bytes v)"
  using strtab_idsD [of "cu_strings u" v i] assms
  by (auto simp: tables_ok_def program_string_def compiled_program_def not_le)

lemma find_compiled_row:
  assumes rows: "list_all2 R ds ms" and names: "\<And>d m. R d m \<Longrightarrow> name_of (key (row m)) = Inr (str_bytes (name d))"
    and "distinct (map name ds)" "d \<in> set ds"
  obtains m i where "R d m" "find_row missing name_of key (str_bytes (name d)) 0 (map row ms) = Inr (i, row m)"
proof -
  from assms(4) obtain i where i: "i < length ds" "ds ! i = d" by (auto simp: in_set_conv_nth)
  have len: "length ms = length ds" using rows by (simp add: list_all2_lengthD)
  have "map (\<lambda>m. name_of (key (row m))) ms = map (\<lambda>d. Inr (str_bytes (name d))) ds"
    using rows by (rule list_all2_map_eq) (rule names)
  then have "map (\<lambda>r. name_of (key r)) (map row ms) = map Inr (map (\<lambda>d. str_bytes (name d)) ds)"
    by (simp add: comp_def)
  from find_row_nth [OF this, of i missing 0] assms(3) i len
  have "find_row missing name_of key (str_bytes (name d)) 0 (map row ms) = Inr (i, row (ms ! i))"
    by (simp add: distinct_map inj_on_def str_bytes_eq)
  moreover have "R d (ms ! i)" using list_all2_nthD [OF rows i(1)] i(2) by simp
  ultimately show thesis using that by blast
qed

section \<open>The app id\<close>

lemma app_meta_reads:
  assumes "encode_app_meta ir = Inr meta"
  shows "Sqbc_Encode.read_u16_at meta 0 = Inr (of_nat (length (str_bytes (ia_id (ir_app ir)))))"
    "unat (of_nat (length (str_bytes (ia_id (ir_app ir)))) :: u16) = length (str_bytes (ia_id (ir_app ir)))"
    "take (length (str_bytes (ia_id (ir_app ir)))) (drop 2 meta) = str_bytes (ia_id (ir_app ir))"
    "2 + length (str_bytes (ia_id (ir_app ir))) \<le> length meta" "length (str_bytes (ia_id (ir_app ir))) \<le> 65535"
proof -
  from assms obtain m where meta: "length (str_bytes (ia_id (ir_app ir))) \<le> 65535"
    "meta = u16_le (of_nat (length (str_bytes (ia_id (ir_app ir))))) @ str_bytes (ia_id (ir_app ir)) @
      u16_le m @ str_bytes (ir_state_store ir)"
    by (auto simp: encode_app_meta_def Let_def and_then_eq_Inr try_Inr)
  then show "Sqbc_Encode.read_u16_at meta 0 = Inr (of_nat (length (str_bytes (ia_id (ir_app ir)))))"
    "unat (of_nat (length (str_bytes (ia_id (ir_app ir)))) :: u16) = length (str_bytes (ia_id (ir_app ir)))"
    "take (length (str_bytes (ia_id (ir_app ir)))) (drop 2 meta) = str_bytes (ia_id (ir_app ir))"
    "2 + length (str_bytes (ia_id (ir_app ir))) \<le> length meta" "length (str_bytes (ia_id (ir_app ir))) \<le> 65535"
    by (simp_all add: Sqbc_Encode.read_u16_at_def get_range_def unat_of_nat)
qed

lemma read_app_id_of_file:
  assumes "encode_sqbc_with_profile parse ir profile = Inr bytes"
  shows "read_app_id bytes = Inr (Some (str_bytes (ia_id (ir_app ir))))"
proof -
  from assms obtain u secs app_meta bindings strings state triggers ble http where
    "compile_unit_of parse ir profile unit_default = (Inr (), u)" "check_program_limits ir u = Inr ()"
    and bytes: "encode_container secs = Inr bytes" "length bytes \<le> MAX_APP_BYTES"
    and secs: "secs = [(SECTION_APP_META, app_meta), (SECTION_DEVICE_BINDINGS, bindings),
       (SECTION_STRINGS, strings), (SECTION_STATE, state),
       (SECTION_FUNCTIONS, encode_functions (cu_function_metas u)),
       (SECTION_TRIGGERS, triggers), (SECTION_BLE_PROFILES, ble), (SECTION_HTTP_PROFILES, http),
       (SECTION_HANDLERS, encode_handlers (cu_handler_metas u)),
       (SECTION_SCREENS, encode_screens (cu_screen_metas u)), (SECTION_CODE, cu_code u)]"
    and meta: "encode_app_meta ir = Inr app_meta"
    by (rule encode_sqbc_Inr)
  note c = container_Inr [OF bytes(1)]
  have n: "length secs = 11" by (simp add: secs)
  have fits: "length bytes \<le> usize_max" using bytes(2) by (simp add: usize_max_def)
  have same: "Sqbc_Encode.read_u16_at bytes p = Inr w" if "read_u16 bytes p = Inr w" for p w
    using that by (auto simp: read_u16_def Sqbc_Encode.read_u16_at_def and_then_eq_Inr)
  have same': "Sqbc_Encode.read_u32_at bytes p = Inr w" if "read_u32 bytes p = Inr w" for p w
    using that by (auto simp: read_u32_def Sqbc_Encode.read_u32_at_def and_then_eq_Inr)
  have "unat (of_nat (length bytes) :: u32) = length bytes" "take 4 bytes = lit ''SQBC''" "14 \<le> length bytes"
    using c(1,3,4) by (auto simp: unat_of_nat parse_header_def split: if_splits)
  moreover have "section_of bytes 11 SECTION_APP_META = Inr (Some app_meta)"
    using section_bytes_of(3) [OF c(2) fits] by (simp add: n) (simp add: secs)
  ultimately show ?thesis
    using c(3,4) same [of 4] same' [of 6] same' [of 10] app_meta_reads [OF meta]
    by (simp add: read_app_id_def n checked_add_def usize_max_def from_utf8_def)
qed

section \<open>A sample program\<close>

text \<open>App \<open>t\<close> with a state field \<open>n\<close> and, on event \<open>e\<close>, \<open>if n < 3 { n = 1 }\<close>.\<close>

definition sample_ir :: ir_program where
  "sample_ir = \<lparr>ir_format = Str [], ir_app = \<lparr>ia_id = Str (lit ''t''), ia_name = Str [], ia_target = Str []\<rparr>,
     ir_state_store = Str [], ir_device_bindings = [],
     ir_state = [\<lparr>sv_name = Str (lit ''n''), sv_value_type = Str (lit ''int''), sv_nullable = False,
       sv_value = JNumber (PosInt 0)\<rparr>],
     ir_functions = [], ir_triggers = [],
     ir_handlers = [\<lparr>ih_event = Str (lit ''e''), ih_param = None, ih_preload = False,
       ih_statements = [S_If (E_Binary (E_State (Str (lit ''n''))) (Str (lit ''<'')) (E_Literal (JNumber (PosInt 3))))
         [S_StateAssign (Str (lit ''n'')) (E_Literal (JNumber (PosInt 1)))] []]\<rparr>],
     ir_screens = []\<rparr>"

definition sample_unit :: compile_unit where
  "sample_unit = \<lparr>cu_strings =
       \<lparr>sb_ids = [Str (lit ''t'') \<mapsto> 0, Str (lit ''n'') \<mapsto> 1, Str (lit ''e'') \<mapsto> 2],
        sb_values = [Str (lit ''t''), Str (lit ''n''), Str (lit ''e'')]\<rparr>,
     cu_states = [Str (lit ''n'') \<mapsto> 0], cu_functions = \<lambda>_. None, cu_function_metas = [],
     cu_handler_metas = [\<lparr>hm_event_id = 2, hm_param_count = 0, hm_local_count = 0, hm_preload = False,
       hm_start = 0, hm_len = 28\<rparr>],
     cu_screen_metas = [],
     cu_code = [10, 0, 0, 1, 3, 0, 0, 0, 24, 31, 27, 0, 0, 0, 1, 1, 0, 0, 0, 11, 0, 0, 30, 27, 0, 0, 0, 42]\<rparr>"

definition sample_file :: "u8 list" where
  "sample_file = [83, 81, 66, 67, 146, 0, 231, 0, 0, 0, 11, 0, 0, 0,
     7, 0, 0, 0, 146, 0, 0, 0, 5, 0, 0, 0, 8, 0, 0, 0, 151, 0, 0, 0, 2, 0, 0, 0,
     1, 0, 0, 0, 153, 0, 0, 0, 11, 0, 0, 0, 2, 0, 0, 0, 164, 0, 0, 0, 11, 0, 0, 0,
     3, 0, 0, 0, 175, 0, 0, 0, 2, 0, 0, 0, 9, 0, 0, 0, 177, 0, 0, 0, 2, 0, 0, 0,
     10, 0, 0, 0, 179, 0, 0, 0, 2, 0, 0, 0, 11, 0, 0, 0, 181, 0, 0, 0, 2, 0, 0, 0,
     4, 0, 0, 0, 183, 0, 0, 0, 18, 0, 0, 0, 6, 0, 0, 0, 201, 0, 0, 0, 2, 0, 0, 0,
     5, 0, 0, 0, 203, 0, 0, 0, 28, 0, 0, 0,
     1, 0, 116, 0, 0, 0, 0, 3, 0, 1, 0, 116, 1, 0, 110, 1, 0, 101,
     1, 0, 1, 0, 1, 0, 2, 0, 0, 0, 0, 0, 0, 0, 0, 0, 0, 0, 0,
     1, 0, 2, 0, 0, 0, 0, 0, 0, 0, 0, 0, 0, 0, 28, 0, 0, 0, 0, 0,
     10, 0, 0, 1, 3, 0, 0, 0, 24, 31, 27, 0, 0, 0, 1, 1, 0, 0, 0, 11, 0, 0, 30, 27, 0, 0, 0, 42]"

lemma le_bytes: "u16_le w = [ucast w, ucast (drop_bit 8 w)]"
  "u32_le x = [ucast x, ucast (drop_bit 8 x), ucast (drop_bit 16 x), ucast (drop_bit 24 x)]"
  by (simp_all add: eval_nat_numeral)

lemmas run_steps = bind_exec_def gets_def lift_def modify_def ret_def on_table_def try_u16_def try_u32_def
  try_i32_def do_all.simps as_str_def is_null_def as_bool_def as_i64_def number_as_i64_def intern_def

lemma sample_compiles: "compile_unit_of (\<lambda>_. None) sample_ir Dev unit_default = (Inr (), sample_unit)"
  apply (simp add: compile_unit_of_def sample_ir_def sample_unit_def collect_strings_def intern_only_def
      unit_default_def strtab_default_def collect_json_value_def collect_statements_def run_steps)
  apply (simp add: compile_handler_def compile_frame_def code_position_def handler_params_def with_params_def
      frame_default_def compile_statements_def compile_expr_def compile_literal_def emit_int_def state_id_def
      keeping_def emit_ref_def emit_def emit_bytes_def write_i32_def write_u16_def check_frame_code_len_def
      reserve_u32_def write_u32_def patch_u32_def opcode_for_operator_def le_bytes splice_def run_steps)
  done

lemma sample_encodes: "encode_sqbc_with_profile (\<lambda>_. None) sample_ir Dev = Inr sample_file"
  unfolding encode_sqbc_with_profile_def sample_compiles
  apply (simp add: check_program_limits_def sample_ir_def sample_unit_def sample_file_def)
  apply (simp add: encode_sections_def encode_app_meta_def encode_device_bindings_def encode_table_def
      strtab_encode_def encode_state_section_def encode_state_row_def encode_triggers_def encode_ble_profiles_def
      encode_http_profiles_def collect_ble_profiles_def collect_http_profiles_def encode_functions_def
      encode_handlers_def encode_screens_def lookup_id_def state_type_tag_def encode_value_def all_statements_def
      handler_row_bytes_def le_bytes encode_container_def record_bytes_def run_steps)
  done

lemma sample_loads: "tables_load sample_ir sample_unit" "names_distinct sample_ir"
  by (simp_all add: tables_load_def names_distinct_def sample_ir_def sample_unit_def slot_loads_def compiled_slot_def
      compiled_value_def state_type_tag_def run_steps)

lemma sample_file_parse: "program_parse sample_file = Inr (compiled_program sample_ir sample_unit)"
  using compiled_file_parse [OF sample_encodes] by (simp add: sample_compiles sample_loads)

section \<open>The properties of the compiled file\<close>





text \<open>
  \<open>read_app_id\<close> of a compiled file is the id of the app it was compiled from.
\<close>

theorem compiled_app_id_read:
  assumes "encode_sqbc_with_profile parse ir profile = Inr bytes"
  shows "read_app_id bytes = Inr (Some (str_bytes (ia_id (ir_app ir))))"
  by (rule read_app_id_of_file [OF assms])

lemma compiled_app_id_read_witness: "read_app_id sample_file = Inr (Some (lit ''t''))"
  using compiled_app_id_read [OF sample_encodes] by (simp add: sample_ir_def)

end
