(* ===== verification/Front_App.thy ===== *)
theory Front_App
  imports Front_Check Sqbc_Load
begin

text \<open>
  The front end, the code generator and the device's loader together: what an app that
  \<open>compile\<close> accepts promises to the code generator and to the loader.
\<close>

section \<open>A sample app\<close>

text \<open>
  App \<open>t\<close>: a state field, a timer with its handler, a function without statements, and a
  screen that calls it.
\<close>

definition span0 :: source_span where
  "span0 = \<lparr>span_start = 0, span_end = 1\<rparr>"

definition sample_tree :: ast_root where
  "sample_tree = ast_default\<lparr>
     ast_app := Some \<lparr>aa_id = Str (lit ''t''), aa_name = Str (lit ''T''), aa_target = None, aa_span = span0\<rparr>,
     ast_state := Some \<lparr>ab_selected_default = 0, ab_store = Str (lit ''default''),
       ab_values = ir_state sample_ir, ab_span = span0\<rparr>,
     ast_trigger_blocks := [\<lparr>at_statements =
       [S_ServiceTimerEvery (Str (lit ''e'')) (E_Literal (JNumber (PosInt 1000)))], at_span = span0\<rparr>],
     ast_functions := [\<lparr>af_name = Str (lit ''f''), af_params = [], af_statements = [], af_exported = False,
       af_span = span0\<rparr>],
     ast_handlers := [\<lparr>ah_event = Str (lit ''e''), ah_param = None, ah_preload = False,
       ah_statements = ih_statements (hd (ir_handlers sample_ir)), ah_span = span0\<rparr>],
     ast_screens := [\<lparr>as_name = Str (lit ''main''), as_render = Str (lit ''compose''),
       as_statements = [S_Call (Str (lit ''f'')) []], as_exported = False, as_span = span0\<rparr>]\<rparr>"

definition sample_app :: ir_program where
  "sample_app = lower_program sample_tree (the (ast_app sample_tree)) PORTABLE_TARGET_ID"

definition sample_app_unit :: compile_unit where
  "sample_app_unit = \<lparr>cu_strings =
       \<lparr>sb_ids = [Str (lit ''t'') \<mapsto> 0, Str (lit ''e'') \<mapsto> 1, Str (lit ''n'') \<mapsto> 2, Str (lit ''f'') \<mapsto> 3,
          Str (lit ''main'') \<mapsto> 4],
        sb_values = [Str (lit ''t''), Str (lit ''e''), Str (lit ''n''), Str (lit ''f''), Str (lit ''main'')]\<rparr>,
     cu_states = [Str (lit ''n'') \<mapsto> 0], cu_functions = [Str (lit ''f'') \<mapsto> 0],
     cu_function_metas = [\<lparr>fm_name_id = 3, fm_param_count = 0, fm_local_count = 0, fm_start = 0, fm_len = 2\<rparr>],
     cu_handler_metas = [\<lparr>hm_event_id = 1, hm_param_count = 0, hm_local_count = 0, hm_preload = False,
       hm_start = 2, hm_len = 28\<rparr>],
     cu_screen_metas = [\<lparr>sm_name_id = 4, sm_start = 30, sm_len = 7\<rparr>],
     cu_code = [4, 41, 10, 0, 0, 1, 3, 0, 0, 0, 24, 31, 29, 0, 0, 0, 1, 1, 0, 0, 0, 11, 0, 0, 30, 29, 0, 0, 0,
       42, 40, 0, 0, 0, 0, 60, 42]\<rparr>"

lemmas sample_app_defs = sample_app_def sample_tree_def ast_default_def span0_def sample_ir_def lower_program_def
  lower_triggers_def List.map_filter_def literal_i32_def lower_function_def lower_handler_def lower_screen_def

lemma sample_tree_checked: "no_errors (validate_semantics sample_tree)"
  by (simp add: sample_tree_def ast_default_def span0_def sample_ir_def validate_semantics_def Let_def
    validate_state_builtin_shadowing_def validate_device_bindings_def validate_handler_events_def
    validate_trigger_routes_def validate_ble_profile_ids_def validate_screen_statements_def
    validate_trigger_statements_def validate_names_def validate_handler_def validate_function_body_def
    validate_handler_statements_def validate_debug_blocks_def validate_ignored_fallible_results_def
    validate_screen_references_def validate_duplicate_params_def validate_shadowing_def declared_states_def
    is_fallible_builtin_def FALLIBLE_BUILTINS_def ignored_result_def render_purity_error_def function_map_of_def
    btree_collect_def validate_trigger_interval_def as_i64_def number_as_i64_def collect_render_impure_functions_def
    render_impure_loop.simps [of "[(Str [102], [])]"] statements_are_render_impure_def)

lemma sample_app_accepted:
  "\<exists>r. compile_ast sample_tree [] PORTABLE_TARGET_ID 9 Dev = Inr r \<and> cr_ir r = Some sample_app"
proof -
  have "with_main_screen sample_tree = sample_tree"
    by (simp add: with_main_screen_def sample_tree_def)
  moreover have "app_diagnostics sample_tree PORTABLE_TARGET_ID 9 = []"
    by (simp add: app_diagnostics_def sample_tree_def)
  moreover obtain app where "ast_app sample_tree = Some app"
    by (simp add: sample_tree_def)
  ultimately show ?thesis
    using sample_tree_checked by (simp add: compile_ast_def sample_app_def Let_def)
qed

lemma sample_app_compiles: "compile_unit_of (\<lambda>_. None) sample_app Dev unit_default = (Inr (), sample_app_unit)"
  apply (simp add: sample_app_defs sample_app_unit_def)
  apply (simp add: compile_unit_of_def collect_strings_def intern_only_def
      unit_default_def strtab_default_def collect_json_value_def collect_statements_def run_steps)
  apply (simp add: compile_handler_def compile_function_def compile_screen_def compile_frame_def code_position_def
      handler_params_def with_params_def frame_default_def compile_statements_def compile_expr_def
      compile_literal_def emit_int_def state_id_def function_id_def compile_call_def
      builtin_for_call_with_arg_count_def builtin_for_call_def BUILTIN_CALLS_def
      keeping_def emit_ref_def emit_def emit_bytes_def write_i32_def write_u16_def check_frame_code_len_def
      reserve_u32_def write_u32_def patch_u32_def opcode_for_operator_def le_bytes splice_def run_steps)
  done

lemma sample_app_encodes: "\<exists>bytes. encode_sqbc_with_profile (\<lambda>_. None) sample_app Dev = Inr bytes"
  unfolding encode_sqbc_with_profile_def sample_app_compiles
  apply (simp add: check_program_limits_def sample_app_defs sample_app_unit_def)
  apply (simp add: encode_sections_def encode_app_meta_def encode_device_bindings_def encode_table_def
      strtab_encode_def encode_state_section_def encode_state_row_def encode_triggers_def encode_trigger_row_def
      encode_ble_profiles_def encode_http_profiles_def collect_ble_profiles_def collect_http_profiles_def
      encode_functions_def function_row_bytes_def encode_handlers_def encode_screens_def screen_row_bytes_def lookup_id_def state_type_tag_def
      encode_value_def all_statements_def handler_row_bytes_def le_bytes encode_container_def record_bytes_def run_steps)
  done

lemma sample_app_loads: "tables_load sample_app sample_app_unit"
  by (simp add: tables_load_def sample_app_defs sample_app_unit_def slot_loads_def compiled_slot_def
      compiled_value_def state_type_tag_def run_steps)


section \<open>Properties\<close>

text \<open>
  C7: the functions found impure are exactly those from which an effect is reachable through
  call statements, however long the chain and whatever the recursion among them.
\<close>

theorem render_impure_functions_exact:
  "f \<in> collect_render_impure_functions fns \<longleftrightarrow> reaches_effect fns f"
  by (rule render_impure_exact)






end
