(* ===== verification/Front_Config.thy ===== *)
theory Front_Config
  imports Front_Ast Sq_Text
begin

text \<open>
  Device configuration files (\<open>squidc-core/src/device_config.rs\<close>): the text format
  \<open>SQDEVICE\<close>, the binary format \<open>SQDC\<close>, and the resources a device binding may name.  The
  records are a \<open>BTreeMap\<close>; an error is its message.
\<close>

section \<open>Values and records\<close>

definition SQDC_MAGIC :: rstr where "SQDC_MAGIC = lit ''SQDC''"

definition TAG_NULL :: u8 where "TAG_NULL = 0"
definition TAG_BOOL :: u8 where "TAG_BOOL = 1"
definition TAG_INT :: u8 where "TAG_INT = 2"
definition TAG_STRING :: u8 where "TAG_STRING = 3"

datatype device_config_value = DC_String ustr | DC_Int i32 | DC_Bool bool | DC_Null

type_synonym config_records = "(ustr \<times> device_config_value) list"

record device_config =
  dc_records :: config_records

definition config_get :: "device_config \<Rightarrow> ustr \<Rightarrow> device_config_value option" where
  "config_get config key = map_of (dc_records config) key"

definition config_error :: "string \<Rightarrow> (rstr, 'a) res" where
  "config_error message = Inl (Err (lit message))"

definition duplicate_key :: "rstr \<Rightarrow> (rstr, 'a) res" where
  "duplicate_key key = Inl (Err (lit ''duplicate key '' @ key))"

section \<open>The text format\<close>

definition is_ignored_line :: "rstr \<Rightarrow> bool" where
  "is_ignored_line line = (let trimmed = str_trim line in trimmed = [] \<or> starts_with trimmed (lit ''#''))"

text \<open>A word that ends at white space; a last word is not split off.\<close>

definition split_word :: "rstr \<Rightarrow> (rstr \<times> rstr) option" where
  "split_word input =
     (let input = trim_start input in
      if input = [] then None
      else map_option (\<lambda>n. (take n input, trim_start (drop n input))) (find_white input))"

definition parse_len_string :: "rstr \<Rightarrow> (rstr, ustr) res" where
  "parse_len_string input =
     (case split_once 58 input of
        None \<Rightarrow> config_error ''invalid length-prefixed string''
      | Some (len, content) \<Rightarrow>
          (case parse_usize len of
             None \<Rightarrow> config_error ''invalid string length''
           | Some n \<Rightarrow> if length content \<noteq> n then config_error ''string length mismatch'' else Inr (Str content)))"

definition parse_value :: "rstr \<Rightarrow> rstr \<Rightarrow> (rstr, device_config_value) res" where
  "parse_value value_type value_text =
     (if value_type = lit ''string'' then and_then (parse_len_string value_text) (\<lambda>s. Inr (DC_String s))
      else if value_type = lit ''int'' then
        (case parse_i32 value_text of Some n \<Rightarrow> Inr (DC_Int (of_int n)) | None \<Rightarrow> config_error ''invalid SQDEVICE int'')
      else if value_type = lit ''bool'' then
        (if value_text = lit ''true'' then Inr (DC_Bool True)
         else if value_text = lit ''false'' then Inr (DC_Bool False)
         else config_error ''invalid SQDEVICE bool'')
      else if value_type = lit ''null'' then
        (if value_text = [] then Inr DC_Null else config_error ''null records must not have a value'')
      else config_error ''unknown SQDEVICE value type'')"

fun parse_records :: "(nat \<times> rstr) list \<Rightarrow> config_records \<Rightarrow> (rstr, config_records) res" where
  "parse_records [] records = Inr records"
| "parse_records ((index, line) # rest) records =
     (let line = str_trim line in
      if is_ignored_line line then parse_records rest records
      else case split_word line of
          None \<Rightarrow> Inl (Err (lit ''invalid record on line '' @ decimal (index + 1)))
        | Some (key, tail) \<Rightarrow>
            let (value_type, value_text) =
              (case split_word tail of Some p \<Rightarrow> p | None \<Rightarrow> (str_trim tail, [])) in
            if Str key \<in> fst ` set records then duplicate_key key
            else and_then (parse_value value_type value_text) (\<lambda>v.
              parse_records rest (btree_insert (Str key) v records)))"

text \<open>The first line that is not ignored is the header; lines are numbered from 0.\<close>

definition parse_sqdevice :: "ustr \<Rightarrow> (rstr, device_config) res" where
  "parse_sqdevice input =
     (case dropWhile (\<lambda>(_, line). is_ignored_line line) (enumerate 0 (str_lines (str_bytes input))) of
        [] \<Rightarrow> config_error ''missing SQDEVICE header''
      | (_, header) # lines \<Rightarrow>
          if str_trim header \<noteq> lit ''SQDEVICE'' then config_error ''unsupported SQDEVICE header''
          else and_then (parse_records lines []) (\<lambda>records. Inr \<lparr>dc_records = records\<rparr>))"

section \<open>The binary format\<close>

definition config_write_string :: "ustr \<Rightarrow> (rstr, u8 list) res" where
  "config_write_string v =
     (let bs = str_bytes v in
      if length bs \<le> 65535 then Inr (u16_le (of_nat (length bs)) @ bs)
      else config_error ''SQDC string too long'')"

fun value_bytes_of :: "device_config_value \<Rightarrow> (rstr, u8 list) res" where
  "value_bytes_of DC_Null = Inr [TAG_NULL]"
| "value_bytes_of (DC_Bool b) = Inr [TAG_BOOL, if b then 1 else 0]"
| "value_bytes_of (DC_Int n) = Inr (TAG_INT # u32_le n)"
| "value_bytes_of (DC_String s) = and_then (config_write_string s) (\<lambda>bs. Inr (TAG_STRING # bs))"

fun encode_config_records :: "config_records \<Rightarrow> (rstr, u8 list) res" where
  "encode_config_records [] = Inr []"
| "encode_config_records ((key, v) # rest) =
     and_then (config_write_string key) (\<lambda>ks.
     and_then (value_bytes_of v) (\<lambda>vs.
     and_then (encode_config_records rest) (\<lambda>out. Inr (ks @ vs @ out))))"

definition encode_sqdc :: "device_config \<Rightarrow> (rstr, u8 list) res" where
  "encode_sqdc config =
     (let n = length (dc_records config) in
      if n \<le> 65535
      then and_then (encode_config_records (dc_records config)) (\<lambda>out. Inr (SQDC_MAGIC @ u16_le (of_nat n) @ out))
      else config_error ''too many SQDC records'')"

definition config_read_u16 :: "u8 list \<Rightarrow> nat \<Rightarrow> (rstr, u16) res" where
  "config_read_u16 bytes offset =
     (case checked_add offset 2 of
        None \<Rightarrow> config_error ''invalid SQDC u16''
      | Some stop \<Rightarrow>
          (case get_range bytes offset stop of
             None \<Rightarrow> config_error ''truncated SQDC u16''
           | Some data \<Rightarrow> Inr (of_le data)))"

definition config_read_string :: "u8 list \<Rightarrow> nat \<Rightarrow> (rstr, ustr \<times> nat) res" where
  "config_read_string bytes cursor =
     and_then (config_read_u16 bytes cursor) (\<lambda>len.
     case checked_add (cursor + 2) (unat len) of
       None \<Rightarrow> config_error ''invalid SQDC string''
     | Some stop \<Rightarrow>
         (case get_range bytes (cursor + 2) stop of
            None \<Rightarrow> config_error ''truncated SQDC string''
          | Some content \<Rightarrow>
              (case from_utf8 content of
                 None \<Rightarrow> config_error ''SQDC string is not utf-8''
               | Some s \<Rightarrow> Inr (Str s, stop))))"

text \<open>A value at the cursor, which is at its tag.\<close>

definition config_read_value :: "u8 list \<Rightarrow> nat \<Rightarrow> (rstr, device_config_value \<times> nat) res" where
  "config_read_value bytes cursor =
     (case get_at bytes cursor of
        None \<Rightarrow> config_error ''truncated SQDC value''
      | Some tag \<Rightarrow>
          if tag = TAG_NULL then Inr (DC_Null, cursor + 1)
          else if tag = TAG_BOOL then
            (case get_at bytes (cursor + 1) of
               None \<Rightarrow> config_error ''truncated SQDC bool''
             | Some b \<Rightarrow> Inr (DC_Bool (b \<noteq> 0), cursor + 2))
          else if tag = TAG_INT then
            (case checked_add (cursor + 1) 4 of
               None \<Rightarrow> config_error ''invalid SQDC int''
             | Some stop \<Rightarrow>
                 (case get_range bytes (cursor + 1) stop of
                    None \<Rightarrow> config_error ''truncated SQDC int''
                  | Some data \<Rightarrow> Inr (DC_Int (of_le data), stop)))
          else if tag = TAG_STRING then
            and_then (config_read_string bytes (cursor + 1)) (\<lambda>(s, stop). Inr (DC_String s, stop))
          else config_error ''unknown SQDC value tag'')"

fun decode_config_records :: "nat \<Rightarrow> u8 list \<Rightarrow> nat \<Rightarrow> config_records \<Rightarrow> (rstr, config_records \<times> nat) res" where
  "decode_config_records 0 bytes cursor records = Inr (records, cursor)"
| "decode_config_records (Suc n) bytes cursor records =
     and_then (config_read_string bytes cursor) (\<lambda>(key, cursor).
     if key \<in> fst ` set records then duplicate_key (str_bytes key)
     else and_then (config_read_value bytes cursor) (\<lambda>(v, cursor).
       decode_config_records n bytes cursor (btree_insert key v records)))"

definition decode_sqdc :: "u8 list \<Rightarrow> (rstr, device_config) res" where
  "decode_sqdc bytes =
     (if length bytes < 6 \<or> take 4 bytes \<noteq> SQDC_MAGIC then config_error ''invalid SQDC header''
      else and_then (config_read_u16 bytes 4) (\<lambda>count.
        and_then (decode_config_records (unat count) bytes 6 []) (\<lambda>(records, cursor).
        if cursor \<noteq> length bytes then config_error ''trailing SQDC bytes''
        else Inr \<lparr>dc_records = records\<rparr>)))"

section \<open>Resources\<close>

definition is_safe_sqdevice_path :: "rstr \<Rightarrow> bool" where
  "is_safe_sqdevice_path path \<longleftrightarrow>
     \<not> (path = [] \<or> \<not> ends_with path (lit ''.sqdevice'') \<or> starts_with path (lit ''/'') \<or>
        starts_with path (lit ''sd/'') \<or> starts_with path (lit ''system/'') \<or> 92 \<in> set path) \<and>
     list_all (\<lambda>part. part \<noteq> [] \<and> part \<noteq> lit ''.'' \<and> part \<noteq> lit ''..'') (split_bytes (\<lambda>b. b = 47) path)"

definition is_gpio_pin :: "rstr \<Rightarrow> bool" where
  "is_gpio_pin pin \<longleftrightarrow> pin \<noteq> [] \<and> length pin \<le> 2 \<and> list_all (\<lambda>b. 48 \<le> b \<and> b \<le> 57) pin"

definition is_safe_gpio_binding_resource :: "rstr \<Rightarrow> bool" where
  "is_safe_gpio_binding_resource path =
     (case strip_prefix path (lit ''gpio:GPIO'') of None \<Rightarrow> False | Some pin \<Rightarrow> is_gpio_pin pin)"

definition is_valid_key_event :: "rstr \<Rightarrow> bool" where
  "is_valid_key_event event =
     (case strip_prefix event (lit ''key.'') of None \<Rightarrow> False
      | Some key \<Rightarrow> key \<in> set (map lit [''UP'', ''DOWN'', ''LEFT'', ''RIGHT'', ''SELECT'', ''BACK'', ''MENU'',
          ''HOME'', ''POWER'']))"

definition is_safe_gpio_button_binding_resource :: "rstr \<Rightarrow> bool" where
  "is_safe_gpio_button_binding_resource path =
     (case strip_prefix path (lit ''gpio-button:GPIO'') of None \<Rightarrow> False
      | Some rest \<Rightarrow>
          (case split_once 58 rest of None \<Rightarrow> False
           | Some (pin, rest) \<Rightarrow>
               (case split_once 58 rest of None \<Rightarrow> False
                | Some (event, polarity) \<Rightarrow>
                    is_gpio_pin pin \<and> is_valid_key_event event \<and>
                    (polarity = lit ''activeLow'' \<or> polarity = lit ''activeHigh''))))"

definition is_safe_device_binding_resource :: "rstr \<Rightarrow> bool" where
  "is_safe_device_binding_resource path \<longleftrightarrow>
     is_safe_sqdevice_path path \<or> is_safe_gpio_binding_resource path \<or> is_safe_gpio_button_binding_resource path"


section \<open>What is written is read back\<close>

lemma Str_str_bytes [simp]: "Str (str_bytes s) = s"
  by (simp flip: str_bytes_eq)

lemma config_read_u16_at:
  assumes "bytes = pre @ u16_le w @ post" "length bytes \<le> usize_max"
  shows "config_read_u16 bytes (length pre) = Inr w"
  using assms by (simp add: config_read_u16_def checked_add_def get_range_middle)

lemma config_read_string_at:
  assumes "config_write_string s = Inr bs" "bytes = pre @ bs @ post" "length bytes \<le> usize_max"
  shows "config_read_string bytes (length pre) = Inr (s, length pre + length bs)"
proof -
  from assms(1) have n: "length (str_bytes s) \<le> 65535" "bs = u16_le (of_nat (length (str_bytes s))) @ str_bytes s"
    by (auto simp: config_write_string_def Let_def config_error_def split: if_splits)
  have "config_read_u16 bytes (length pre) = Inr (of_nat (length (str_bytes s)))"
    using assms n(2) by (intro config_read_u16_at [of _ _ _ "str_bytes s @ post"]) simp_all
  moreover have "get_range bytes (length pre + 2) (length pre + 2 + length (str_bytes s)) = Some (str_bytes s)"
    unfolding assms(2) n(2) using get_range_middle [of "length pre + 2" "pre @ u16_le (of_nat (length (str_bytes s)))"
      "length pre + 2 + length (str_bytes s)" "str_bytes s" post] by simp
  ultimately show ?thesis
    using assms n by (simp add: config_read_string_def checked_add_def unat_of_nat from_utf8_def)
qed


lemma get_at_middle: "get_at (xs @ y # ys) (length xs) = Some y"
  by (simp add: get_at_def)

lemma config_read_value_at:
  assumes "value_bytes_of v = Inr bs" "bytes = pre @ bs @ post" "length bytes \<le> usize_max"
  shows "config_read_value bytes (length pre) = Inr (v, length pre + length bs)"
proof (cases v)
  case (DC_String s)
  with assms(1) obtain cs where cs: "config_write_string s = Inr cs" "bs = TAG_STRING # cs"
    by (auto simp: and_then_eq_Inr)
  have "config_read_string bytes (length (pre @ [TAG_STRING])) = Inr (s, length (pre @ [TAG_STRING]) + length cs)"
    using assms(2,3) cs by (intro config_read_string_at [of _ _ _ _ post]) simp_all
  then show ?thesis
    using assms(2) cs DC_String
    by (simp add: config_read_value_def get_at_middle TAG_NULL_def TAG_BOOL_def TAG_INT_def TAG_STRING_def)
next
  case (DC_Int n)
  have "get_range (pre @ TAG_INT # u32_le n @ post) (length pre + 1) (length pre + 1 + 4) = Some (u32_le n)"
    using get_range_middle [of "length pre + 1" "pre @ [TAG_INT]" "length pre + 1 + 4" "u32_le n" post] by simp
  moreover from assms(1) DC_Int have "bs = TAG_INT # u32_le n" by simp
  ultimately show ?thesis
    using assms(2,3) DC_Int
    by (simp add: config_read_value_def get_at_middle checked_add_def TAG_NULL_def TAG_BOOL_def TAG_INT_def)
next
  case (DC_Bool b)
  have "get_at (pre @ TAG_BOOL # w # post) (Suc (length pre)) = Some w" for w
    using get_at_middle [of "pre @ [TAG_BOOL]" w post] by simp
  moreover from assms(1) DC_Bool have "bs = [TAG_BOOL, if b then 1 else 0]" by simp
  ultimately show ?thesis
    using assms(2,3) DC_Bool by (simp add: config_read_value_def get_at_middle TAG_NULL_def TAG_BOOL_def split: if_split)
next
  case DC_Null
  with assms(1) have "bs = [TAG_NULL]" by simp
  with DC_Null show ?thesis
    using assms(2,3) by (simp add: config_read_value_def get_at_middle)
qed

text \<open>A key above all others is inserted at the end; keys stay in order.\<close>

lemma btree_insert_last: "\<forall>k' \<in> fst ` set m. k' < k \<Longrightarrow> btree_insert k v m = m @ [(k, v)]"
  by (induction k v m rule: btree_insert.induct) (auto dest: less_not_sym)

lemma keys_btree_insert: "fst ` set (btree_insert k v m) = insert k (fst ` set m)"
  by (induction k v m rule: btree_insert.induct) auto

lemma sorted_btree_insert:
  "sorted_wrt (<) (map fst m) \<Longrightarrow> sorted_wrt (<) (map fst (btree_insert k v m))"
proof (induction k v m rule: btree_insert.induct)
  case (2 k v k' v' m)
  have keys: "k' < x" if "x \<in> set (map fst (btree_insert k v m))" "k' < k" for x
    using that 2(2) keys_btree_insert [of k v m] by auto
  show ?case
    using 2 keys less_trans [of k k'] by (auto simp del: set_map)
qed simp

lemma decode_config_records_at:
  assumes "encode_config_records rs = Inr out" "bytes = pre @ out @ post" "length bytes \<le> usize_max"
    and "sorted_wrt (<) (map fst (acc @ rs))"
  shows "decode_config_records (length rs) bytes (length pre) acc = Inr (acc @ rs, length pre + length out)"
  using assms
proof (induction rs arbitrary: acc pre out)
  case Nil
  then show ?case by simp
next
  case (Cons r rs)
  obtain key v where r: "r = (key, v)" by (cases r)
  with Cons.prems(1) obtain ks vs rest where parts: "config_write_string key = Inr ks" "value_bytes_of v = Inr vs"
    "encode_config_records rs = Inr rest" "out = ks @ vs @ rest" by (auto simp: and_then_eq_Inr)
  note bytes = Cons.prems(2) [unfolded parts(4)]
  have "config_read_string bytes (length pre) = Inr (key, length pre + length ks)"
    using bytes Cons.prems(3) by (intro config_read_string_at [OF parts(1), of _ _ "vs @ rest @ post"]) simp_all
  moreover have "config_read_value bytes (length (pre @ ks)) = Inr (v, length (pre @ ks) + length vs)"
    using bytes Cons.prems(3) by (intro config_read_value_at [OF parts(2), of _ _ "rest @ post"]) simp_all
  moreover have "decode_config_records (length rs) bytes (length (pre @ ks @ vs)) (acc @ [r]) =
      Inr ((acc @ [r]) @ rs, length (pre @ ks @ vs) + length rest)"
    using Cons.prems bytes by (intro Cons.IH [OF parts(3)]) simp_all
  moreover have "\<forall>k \<in> fst ` set acc. k < key"
    using Cons.prems(4) r by (auto simp: sorted_wrt_append)
  moreover from this have "key \<notin> fst ` set acc" by blast
  ultimately show ?case using r parts(4) by (simp add: btree_insert_last add.assoc)
qed

lemma config_write_string_length: "config_write_string s = Inr bs \<Longrightarrow> length bs \<le> 65537"
  by (auto simp: config_write_string_def Let_def config_error_def split: if_splits)

lemma value_bytes_length: "value_bytes_of v = Inr bs \<Longrightarrow> length bs \<le> 65538"
  by (cases v) (auto simp: and_then_eq_Inr dest: config_write_string_length)

lemma config_records_length: "encode_config_records rs = Inr out \<Longrightarrow> length out \<le> 131075 * length rs"
proof (induction rs arbitrary: out rule: encode_config_records.induct)
  case (2 key v rest)
  then obtain ks vs more where "config_write_string key = Inr ks" "value_bytes_of v = Inr vs"
    "encode_config_records rest = Inr more" "out = ks @ vs @ more" by (auto simp: and_then_eq_Inr)
  with config_write_string_length [of key ks] value_bytes_length [of v vs] 2(1) show ?case by fastforce
qed simp

lemma config_decode_encode:
  assumes "encode_sqdc c = Inr bytes" "sorted_wrt (<) (map fst (dc_records c))"
  shows "decode_sqdc bytes = Inr c"
proof -
  let ?n = "length (dc_records c)"
  from assms(1) obtain out where out: "?n \<le> 65535" "encode_config_records (dc_records c) = Inr out"
    "bytes = SQDC_MAGIC @ u16_le (of_nat ?n) @ out"
    by (auto simp: encode_sqdc_def Let_def config_error_def and_then_eq_Inr split: if_splits)
  have magic: "length SQDC_MAGIC = 4" by (simp add: SQDC_MAGIC_def)
  have fits: "length bytes \<le> usize_max"
    using config_records_length [OF out(2)] out(1,3) magic by (simp add: usize_max_def)
  have "config_read_u16 bytes (length SQDC_MAGIC) = Inr (of_nat ?n)"
    using out(3) fits by (rule config_read_u16_at)
  moreover have "decode_config_records ?n bytes (length (SQDC_MAGIC @ u16_le (of_nat ?n))) [] =
      Inr ([] @ dc_records c, length (SQDC_MAGIC @ u16_le (of_nat ?n)) + length out)"
    using out(3) fits assms(2) by (intro decode_config_records_at [OF out(2), of _ _ "[]"]) simp_all
  ultimately show ?thesis
    using out magic by (simp add: decode_sqdc_def unat_of_nat)
qed

text \<open>What the text format yields has its keys in order.\<close>

lemma parse_records_sorted:
  assumes "parse_records lines records = Inr r" "sorted_wrt (<) (map fst records)"
  shows "sorted_wrt (<) (map fst r)"
  using assms
proof (induction lines arbitrary: records)
  case (Cons l lines)
  obtain index line where l: "l = (index, line)" by (cases l)
  show ?case
  proof (cases "is_ignored_line (str_trim line)")
    case True
    with Cons.IH Cons.prems l show ?thesis by simp
  next
    case False
    with Cons.prems(1) l obtain key v where "parse_records lines (btree_insert key v records) = Inr r"
      by (auto simp: Let_def duplicate_key_def and_then_eq_Inr split: if_splits option.splits prod.splits)
    with Cons.IH Cons.prems(2) show ?thesis by (blast intro: sorted_btree_insert)
  qed
qed simp

lemma parse_sqdevice_sorted: "parse_sqdevice input = Inr c \<Longrightarrow> sorted_wrt (<) (map fst (dc_records c))"
  by (auto simp: parse_sqdevice_def config_error_def and_then_eq_Inr dest: parse_records_sorted
      split: list.splits prod.splits if_splits)

text \<open>
  C16: a device configuration survives its binary form: what \<open>parse_sqdevice\<close> accepts and
  \<open>encode_sqdc\<close> can encode, \<open>decode_sqdc\<close> reads back.
\<close>

theorem sqdevice_roundtrip:
  assumes "parse_sqdevice input = Inr c" "encode_sqdc c = Inr bytes"
  shows "decode_sqdc bytes = Inr c"
  by (rule config_decode_encode [OF assms(2) parse_sqdevice_sorted [OF assms(1)]])

lemma sqdevice_roundtrip_witness:
  "\<exists>c bytes. parse_sqdevice (Str (lit (''SQDEVICE'' @ [CHR 10] @ ''pin int 5''))) = Inr c \<and>
     encode_sqdc c = Inr bytes \<and> decode_sqdc bytes = Inr c"
proof -
  have c: "parse_sqdevice (Str (lit (''SQDEVICE'' @ [CHR 10] @ ''pin int 5''))) =
      Inr \<lparr>dc_records = [(Str (lit ''pin''), DC_Int 5)]\<rparr>"
    by (simp add: parse_sqdevice_def str_lines_def strip_cr_def is_ignored_line_def str_trim_def
      trim_start.simps [of "[]"] trim_start.simps [of "_ # _"] trim_end.simps [of "[]"] trim_end.simps [of "_ # _"]
      first_white_def last_white_def WHITE_SPACE_def starts_with_def ends_with_def split_word_def
      parse_value_def parse_i32_def parse_i64_def parse_unsigned_def parse_magnitude_def digit_value_def)
  obtain bytes where "encode_sqdc \<lparr>dc_records = [(Str (lit ''pin''), DC_Int 5)]\<rparr> = Inr bytes"
    by (simp add: encode_sqdc_def config_write_string_def)
  with c sqdevice_roundtrip [OF c] show ?thesis by blast
qed

end
