(* ===== verification/Front_Lexer.thy ===== *)
theory Front_Lexer
  imports Front_Config
begin

text \<open>
  The lexer (\<open>squidc-core/src/lexer.rs\<close>).  It cuts the source into tokens; slicing off a
  character boundary would panic.  The lemmas show that it never does, and that the tokens
  are the source: their texts, one after the other, are its bytes and their spans adjoin.
\<close>

datatype token_kind =
    T_Ident | T_String | T_Number
  | T_OpenBrace | T_CloseBrace | T_OpenBracket | T_CloseBracket | T_OpenParen | T_CloseParen
  | T_Colon | T_Dot | T_Comma | T_Equals | T_Bang | T_Less | T_Greater | T_Plus | T_Minus
  | T_Question | T_At | T_Whitespace | T_Unknown

record lex_token =
  lt_kind :: token_kind
  lt_text :: ustr
  lt_span :: source_span

section \<open>Characters\<close>

text \<open>
  The character a string starts with is looked at through its first byte: an ASCII character is
  that byte, and no other character starts with an ASCII byte.
\<close>

definition is_digit :: "u8 \<Rightarrow> bool" where
  "is_digit b \<longleftrightarrow> 48 \<le> b \<and> b \<le> 57"

definition is_alphabetic :: "u8 \<Rightarrow> bool" where
  "is_alphabetic b \<longleftrightarrow> 65 \<le> b \<and> b \<le> 90 \<or> 97 \<le> b \<and> b \<le> 122"

definition ident_start :: "rstr \<Rightarrow> bool" where
  "ident_start s \<longleftrightarrow> s \<noteq> [] \<and> (is_alphabetic (hd s) \<or> hd s = 95)"

definition ident_part :: "rstr \<Rightarrow> bool" where
  "ident_part s \<longleftrightarrow> s \<noteq> [] \<and> (is_alphabetic (hd s) \<or> is_digit (hd s) \<or> hd s = 95 \<or> hd s = 45)"

definition number_part :: "rstr \<Rightarrow> bool" where
  "number_part s \<longleftrightarrow> s \<noteq> [] \<and> is_digit (hd s)"

definition white_part :: "rstr \<Rightarrow> bool" where
  "white_part s \<longleftrightarrow> first_white s \<noteq> None"

text \<open>The width of the next character; the slice panics off a boundary.\<close>

definition next_width :: "rstr \<Rightarrow> (rstr, nat) res" where
  "next_width s = (case utf8_width s of None \<Rightarrow> Inl Panic | Some w \<Rightarrow> Inr w)"

text \<open>The bytes of the characters at the front that satisfy \<open>p\<close>.\<close>

function scan_while :: "(rstr \<Rightarrow> bool) \<Rightarrow> rstr \<Rightarrow> (rstr, nat) res" where
  "scan_while p s =
     (if s = [] then Inr 0
      else case utf8_width s of
          None \<Rightarrow> Inl Panic
        | Some w \<Rightarrow> if p s then and_then (scan_while p (drop w s)) (\<lambda>n. Inr (w + n)) else Inr 0)"
  by pat_completeness auto
termination
  by (relation "measure (\<lambda>(p, s). length s)") (auto dest!: utf8_width_bounds)

text \<open>The bytes up to and including the next quote, or all.\<close>

function scan_string :: "rstr \<Rightarrow> (rstr, nat) res" where
  "scan_string s =
     (if s = [] then Inr 0
      else case utf8_width s of
          None \<Rightarrow> Inl Panic
        | Some w \<Rightarrow> if hd s = 34 then Inr w else and_then (scan_string (drop w s)) (\<lambda>n. Inr (w + n)))"
  by pat_completeness auto
termination
  by (relation "measure length") (auto dest!: utf8_width_bounds)

declare scan_while.simps [simp del] scan_string.simps [simp del]

definition PUNCTUATION :: "(u8 \<times> token_kind) list" where
  "PUNCTUATION =
     [(123, T_OpenBrace), (125, T_CloseBrace), (91, T_OpenBracket), (93, T_CloseBracket),
      (40, T_OpenParen), (41, T_CloseParen), (58, T_Colon), (46, T_Dot), (44, T_Comma),
      (61, T_Equals), (33, T_Bang), (60, T_Less), (62, T_Greater), (43, T_Plus), (45, T_Minus),
      (63, T_Question), (64, T_At)]"

definition punctuation_kind :: "u8 \<Rightarrow> token_kind" where
  "punctuation_kind b = (case map_of PUNCTUATION b of Some k \<Rightarrow> k | None \<Rightarrow> T_Unknown)"

section \<open>Tokens\<close>

text \<open>The kind and the length of the token at the front of a string that is not empty.\<close>

definition next_token :: "rstr \<Rightarrow> (rstr, token_kind \<times> nat) res" where
  "next_token s =
     and_then (next_width s) (\<lambda>w.
     let scanned = (\<lambda>kind scan. and_then (scan (drop w s)) (\<lambda>n. Inr (kind, w + n))) in
     if white_part s then scanned T_Whitespace (scan_while white_part)
     else if ident_start s then scanned T_Ident (scan_while ident_part)
     else if number_part s then scanned T_Number (scan_while number_part)
     else if hd s = 34 then scanned T_String scan_string
     else Inr (punctuation_kind (hd s), w))"

definition lex_token_at :: "token_kind \<Rightarrow> rstr \<Rightarrow> nat \<Rightarrow> nat \<Rightarrow> lex_token" where
  "lex_token_at kind text start stop =
     \<lparr>lt_kind = kind, lt_text = Str text, lt_span = \<lparr>span_start = start, span_end = stop\<rparr>\<rparr>"

lemma next_token_width:
  "next_token s = Inr (k, n) \<Longrightarrow> 0 < n"
  by (auto simp: next_token_def next_width_def and_then_eq_Inr Let_def split: option.splits if_splits
      dest!: utf8_width_bounds)

function lex_from :: "nat \<Rightarrow> rstr \<Rightarrow> (rstr, lex_token list) res" where
  "lex_from start s =
     (if s = [] then Inr []
      else case next_token s of
          Inl e \<Rightarrow> Inl e
        | Inr (kind, n) \<Rightarrow>
            and_then (lex_from (start + n) (drop n s)) (\<lambda>tokens.
              Inr (lex_token_at kind (take n s) start (start + n) # tokens)))"
  by pat_completeness auto
termination
  by (relation "measure (\<lambda>(_, s). length s)") (auto dest!: next_token_width)

declare lex_from.simps [simp del]

definition lex :: "ustr \<Rightarrow> (rstr, lex_token list) res" where
  "lex source = lex_from 0 (str_bytes source)"

section \<open>The tokens are the source\<close>

text \<open>A length that cuts a valid string into two valid ones.\<close>

definition cuts :: "rstr \<Rightarrow> nat \<Rightarrow> bool" where
  "cuts s n \<longleftrightarrow> n \<le> length s \<and> utf8_valid (take n s) \<and> utf8_valid (drop n s)"

lemma cuts_0 [simp]: "cuts s 0 \<longleftrightarrow> utf8_valid s"
  by (simp add: cuts_def)

lemma cuts_width:
  assumes "utf8_valid s" "utf8_width s = Some w"
  shows "cuts s w"
  using assms utf8_width_bounds [OF assms(2)] utf8_width_take [OF assms(2)]
  by (simp add: cuts_def utf8_valid_step [of "take w s" w] utf8_valid_step [of s w])

lemma cuts_add:
  assumes "cuts s w" "cuts (drop w s) n"
  shows "cuts s (w + n)"
  using assms drop_drop [of n w s] take_add [of w n s] by (auto simp: cuts_def add.commute)

lemma scan_while_cuts: "utf8_valid s \<Longrightarrow> \<exists>n. scan_while p s = Inr n \<and> cuts s n"
proof (induction p s rule: scan_while.induct)
  case (1 p s)
  show ?case
  proof (cases "s = []")
    case True
    then show ?thesis by (simp add: scan_while.simps)
  next
    case False
    with 1(2) obtain w where w: "utf8_width s = Some w" using utf8_valid_unfold by blast
    have cut: "cuts s w" by (rule cuts_width [OF 1(2) w])
    show ?thesis
    proof (cases "p s")
      case True
      with 1(1) [OF False w True] cut obtain n where "scan_while p (drop w s) = Inr n" "cuts (drop w s) n"
        by (auto simp: cuts_def)
      with w True False cuts_add [OF cut] show ?thesis by (auto simp: scan_while.simps [of p s])
    next
      case False
      with w 1(2) show ?thesis by (simp add: scan_while.simps [of p s])
    qed
  qed
qed

lemma scan_string_cuts: "utf8_valid s \<Longrightarrow> \<exists>n. scan_string s = Inr n \<and> cuts s n"
proof (induction s rule: scan_string.induct)
  case (1 s)
  show ?case
  proof (cases "s = []")
    case True
    then show ?thesis by (simp add: scan_string.simps)
  next
    case False
    with 1(2) obtain w where w: "utf8_width s = Some w" using utf8_valid_unfold by blast
    have cut: "cuts s w" by (rule cuts_width [OF 1(2) w])
    show ?thesis
    proof (cases "hd s = 34")
      case True
      with w False cut show ?thesis by (simp add: scan_string.simps [of s])
    next
      case quote: False
      with 1(1) [OF False w quote] cut obtain n where "scan_string (drop w s) = Inr n" "cuts (drop w s) n"
        by (auto simp: cuts_def)
      with w quote False cuts_add [OF cut] show ?thesis by (auto simp: scan_string.simps [of s])
    qed
  qed
qed

lemma next_token_cuts:
  assumes "utf8_valid s" "s \<noteq> []"
  shows "\<exists>k n. next_token s = Inr (k, n) \<and> cuts s n"
proof -
  obtain w where w: "utf8_width s = Some w" using assms utf8_valid_unfold by blast
  have cut: "cuts s w" by (rule cuts_width [OF assms(1) w])
  then have rest: "utf8_valid (drop w s)" by (simp add: cuts_def)
  have scans: "\<exists>n. scan_while p (drop w s) = Inr n \<and> cuts s (w + n)" for p
    using scan_while_cuts [OF rest, of p] cuts_add [OF cut] by blast
  have quoted: "\<exists>n. scan_string (drop w s) = Inr n \<and> cuts s (w + n)"
    using scan_string_cuts [OF rest] cuts_add [OF cut] by blast
  show ?thesis
    using scans [of white_part] scans [of ident_part] scans [of number_part] quoted cut w
    by (auto simp: next_token_def next_width_def Let_def)
qed

text \<open>Spans that adjoin, from \<open>start\<close> on, each as long as its text.\<close>

fun spans_adjoin :: "nat \<Rightarrow> lex_token list \<Rightarrow> bool" where
  "spans_adjoin start [] = True"
| "spans_adjoin start (t # ts) \<longleftrightarrow>
     span_start (lt_span t) = start \<and> span_end (lt_span t) = start + length (str_bytes (lt_text t)) \<and>
     str_bytes (lt_text t) \<noteq> [] \<and> spans_adjoin (span_end (lt_span t)) ts"

lemma lex_from_source:
  "utf8_valid s \<Longrightarrow> \<exists>ts. lex_from start s = Inr ts \<and> concat (map (\<lambda>t. str_bytes (lt_text t)) ts) = s \<and>
     spans_adjoin start ts"
proof (induction start s rule: lex_from.induct)
  case (1 start s)
  show ?case
  proof (cases "s = []")
    case True
    then show ?thesis by (simp add: lex_from.simps)
  next
    case False
    with 1(2) obtain k n where tok: "next_token s = Inr (k, n)" "cuts s n" using next_token_cuts by blast
    from tok(2) obtain ts where ts: "lex_from (start + n) (drop n s) = Inr ts"
      "concat (map (\<lambda>t. str_bytes (lt_text t)) ts) = drop n s" "spans_adjoin (start + n) ts"
      by (auto simp: cuts_def dest: 1(1) [OF False tok(1) refl])
    with tok next_token_width [OF tok(1)] False show ?thesis
      by (auto simp: lex_from.simps [of start s] lex_token_at_def cuts_def min_def)
  qed
qed

text \<open>
  C15: the lexer loses nothing: on every source it ends without a panic, the texts of its tokens
  are the source, and the spans are where they stand in it, each from the end of the one before.
\<close>

theorem lex_lossless:
  "\<exists>ts. lex source = Inr ts \<and> concat (map (\<lambda>t. str_bytes (lt_text t)) ts) = str_bytes source \<and> spans_adjoin 0 ts"
  unfolding lex_def by (rule lex_from_source) simp

end
