(* ===== verification/Front_Tokens.thy ===== *)
theory Front_Tokens
  imports Front_Lexer
begin

text \<open>
  The parser's state and its primitives on tokens (\<open>squidc-core/src/parser/mod.rs\<close>,
  \<open>tokens.rs\<close>).  The syntax tree of the rowan package that is built on the side is not read by
  anything here, so a method is modelled without its \<open>builder\<close>.

  A loop runs with a bound on its turns and a recursive method with a bound on its depth, both
  \<open>pe_fuel\<close>; past the bound the outcome is \<open>Hangs\<close>.  Whether parsing returns is proved
  in \<open>Front_Parse_Ends\<close>: with a bound above the number of tokens it does, except where the source
  itself loops for ever.
\<close>

datatype no_return = Hangs

record parser =
  ps_tokens :: "lex_token list"
  ps_cursor :: nat
  ps_ast :: ast_root
  ps_diagnostics :: diagnostics
  ps_preload :: "source_span option"

type_synonym 'a parse = "(no_return, parser, 'a) exec"

text \<open>The bound, and serde's conversion of expressions to and from JSON values.\<close>

record parse_env =
  pe_fuel :: nat
  pe_to_value :: "ir_expr \<Rightarrow> json"
  pe_from_value :: "json \<Rightarrow> ir_expr option"

section \<open>Sequencing\<close>

text \<open>The operator \<open>?\<close> on an \<open>Option\<close>, \<open>unwrap_or\<close>, and a step under a condition.\<close>

definition and_some :: "'a option parse \<Rightarrow> ('a \<Rightarrow> 'b option parse) \<Rightarrow> 'b option parse" where
  "and_some m f = bind_exec m (\<lambda>r. case r of None \<Rightarrow> ret None | Some v \<Rightarrow> f v)"

definition unwrap_or :: "'a option parse \<Rightarrow> 'a \<Rightarrow> 'a parse" where
  "unwrap_or m d = bind_exec m (\<lambda>r. ret (case r of None \<Rightarrow> d | Some v \<Rightarrow> v))"

definition then_do :: "unit parse \<Rightarrow> 'a parse \<Rightarrow> 'a parse" where
  "then_do m n = bind_exec m (\<lambda>_. n)"

definition on :: "(parser \<Rightarrow> bool) \<Rightarrow> 'a parse \<Rightarrow> 'a parse \<Rightarrow> 'a parse" where
  "on test m n = bind_exec (gets test) (\<lambda>b. if b then m else n)"

text \<open>A loop: \<open>Inl\<close> goes on with new values of the variables, \<open>Inr\<close> leaves with a result.\<close>

primrec loop :: "nat \<Rightarrow> ('a \<Rightarrow> ('a + 'b) parse) \<Rightarrow> 'a \<Rightarrow> 'b parse" where
  "loop 0 body a = throw Hangs"
| "loop (Suc n) body a = bind_exec (body a) (\<lambda>r. case r of Inl a' \<Rightarrow> loop n body a' | Inr b \<Rightarrow> ret b)"

section \<open>Looking at tokens\<close>

definition peek :: "parser \<Rightarrow> lex_token option" where
  "peek s = get_at (ps_tokens s) (ps_cursor s)"

definition at_end :: "parser \<Rightarrow> bool" where
  "at_end s \<longleftrightarrow> ps_cursor s \<ge> length (ps_tokens s)"

definition at_kind :: "token_kind \<Rightarrow> parser \<Rightarrow> bool" where
  "at_kind kind s = (case peek s of Some t \<Rightarrow> lt_kind t = kind | None \<Rightarrow> False)"

definition at_ident :: "string \<Rightarrow> parser \<Rightarrow> bool" where
  "at_ident ident s = (case peek s of
     Some t \<Rightarrow> lt_kind t = T_Ident \<and> str_bytes (lt_text t) = lit ident | None \<Rightarrow> False)"

definition next_kind :: "parser \<Rightarrow> token_kind option" where
  "next_kind s = map_option lt_kind (get_at (ps_tokens s) (ps_cursor s + 1))"

definition previous_end :: "parser \<Rightarrow> nat option" where
  "previous_end s = (if ps_cursor s = 0 then None
     else map_option (\<lambda>t. span_end (lt_span t)) (get_at (ps_tokens s) (ps_cursor s - 1)))"

definition is_white :: "lex_token \<Rightarrow> bool" where
  "is_white t \<longleftrightarrow> lt_kind t = T_Whitespace"

text \<open>How many tokens of white space are at the cursor.\<close>

definition white_run :: "parser \<Rightarrow> nat" where
  "white_run s = length (takeWhile is_white (drop (ps_cursor s) (ps_tokens s)))"

definition at_qualified_ident :: "string \<Rightarrow> string \<Rightarrow> parser \<Rightarrow> bool" where
  "at_qualified_ident namespace method s =
     (let i = ps_cursor s + white_run s in
      case (get_at (ps_tokens s) i, get_at (ps_tokens s) (i + 1), get_at (ps_tokens s) (i + 2)) of
        (Some a, Some b, Some c) \<Rightarrow>
          lt_kind a = T_Ident \<and> lt_kind b = T_Dot \<and> lt_kind c = T_Ident \<and>
          str_bytes (lt_text a) = lit namespace \<and> str_bytes (lt_text c) = lit method
      | _ \<Rightarrow> False)"

definition at_event_method :: "string \<Rightarrow> parser \<Rightarrow> bool" where
  "at_event_method method = at_qualified_ident ''event'' method"

text \<open>The start of the current token, 0 at the end of the source.\<close>

definition here :: "nat parse" where
  "here = gets (\<lambda>s. case peek s of Some t \<Rightarrow> span_start (lt_span t) | None \<Rightarrow> 0)"

definition end_or :: "nat \<Rightarrow> nat parse" where
  "end_or start = gets (\<lambda>s. case previous_end s of Some stop \<Rightarrow> stop | None \<Rightarrow> start)"

section \<open>Consuming tokens\<close>

definition bump :: "unit parse" where
  "bump = modify (\<lambda>s. if at_end s then s else s\<lparr>ps_cursor := ps_cursor s + 1\<rparr>)"

text \<open>\<open>consume_ws\<close>: while the token is white space, it is consumed.\<close>

definition consume_ws :: "unit parse" where
  "consume_ws = modify (\<lambda>s. s\<lparr>ps_cursor := ps_cursor s + white_run s\<rparr>)"

definition skip :: "token_kind \<Rightarrow> unit parse" where
  "skip kind = on (at_kind kind) bump (ret ())"

definition skip_ident :: "string \<Rightarrow> unit parse" where
  "skip_ident ident = on (at_ident ident) bump (ret ())"

definition consume_comma :: "unit parse" where
  "consume_comma = then_do consume_ws (then_do (skip T_Comma) consume_ws)"

definition while_tokens :: "nat \<Rightarrow> ('a \<Rightarrow> ('a + 'a) parse) \<Rightarrow> 'a \<Rightarrow> 'a parse" where
  "while_tokens n body = loop n (\<lambda>a. on at_end (ret (Inr a)) (body a))"

text \<open>The rest of a call, to its closing parenthesis or before a brace outside all of them.\<close>

definition call_tail_step :: "nat \<Rightarrow> (nat + nat) parse" where
  "call_tail_step depth =
     bind_exec (gets (\<lambda>s. if at_kind T_OpenParen s then depth + 1 else depth)) (\<lambda>depth.
     on (at_kind T_CloseParen)
       (then_do bump
         (if depth = 0 then ret (Inr depth)
          else if depth - 1 = 0 then ret (Inr 0) else ret (Inl (depth - 1))))
       (on (\<lambda>s. depth = 0 \<and> at_kind T_CloseBrace s) (ret (Inr depth))
         (then_do bump (ret (Inl depth)))))"

definition consume_call_tail :: "parse_env \<Rightarrow> unit parse" where
  "consume_call_tail env = bind_exec (while_tokens (pe_fuel env) call_tail_step 0) (\<lambda>_. ret ())"

definition peek_text :: "parser \<Rightarrow> ustr" where
  "peek_text s = (case peek s of Some t \<Rightarrow> lt_text t | None \<Rightarrow> Str [])"

text \<open>The current token's text if it is of a kind, which is then consumed.\<close>

definition consume_kind :: "token_kind \<Rightarrow> ustr option parse" where
  "consume_kind kind =
     on (at_kind kind)
       (bind_exec (gets peek_text) (\<lambda>text. then_do bump (ret (Some text))))
       (ret None)"

text \<open>\<open>trim_matches('"')\<close>.\<close>

definition trim_quotes :: "rstr \<Rightarrow> rstr" where
  "trim_quotes s = rev (dropWhile (\<lambda>b. b = 34) (rev (dropWhile (\<lambda>b. b = 34) s)))"

definition consume_string :: "ustr option parse" where
  "consume_string = and_some (consume_kind T_String) (\<lambda>text. ret (Some (Str (trim_quotes (str_bytes text)))))"

definition consume_ident :: "ustr option parse" where
  "consume_ident = consume_kind T_Ident"

definition consume_number :: "int option parse" where
  "consume_number = and_some (consume_kind T_Number) (\<lambda>text. ret (parse_i64 (str_bytes text)))"

definition dotted :: "ustr \<Rightarrow> ustr \<Rightarrow> ustr" where
  "dotted a b = Str (str_bytes a @ lit ''.'' @ str_bytes b)"

definition consume_symbolic_screen_ref :: "ustr option parse" where
  "consume_symbolic_screen_ref =
     then_do consume_ws
     (and_some consume_ident (\<lambda>a.
      then_do consume_ws
      (on (at_kind T_Dot)
        (then_do bump (then_do consume_ws (and_some consume_ident (\<lambda>b. ret (Some (dotted a b))))))
        (ret (Some a)))))"

text \<open>An identifier or nothing, which is the empty string.\<close>

definition consume_name :: "ustr parse" where
  "consume_name = unwrap_or consume_ident (Str [])"

definition string_or :: "string \<Rightarrow> ustr parse" where
  "string_or d = unwrap_or consume_string (Str (lit d))"

definition report :: "diagnostic \<Rightarrow> unit parse" where
  "report d = modify (\<lambda>s. s\<lparr>ps_diagnostics := ps_diagnostics s @ [d]\<rparr>)"

text \<open>An error from \<open>start\<close> to the end of the last token.\<close>

definition report_from :: "nat \<Rightarrow> string \<Rightarrow> string \<Rightarrow> unit parse" where
  "report_from start code message =
     bind_exec (end_or start) (\<lambda>stop.
       report (diag_error code (lit message) \<lparr>span_start = start, span_end = stop\<rparr>))"

section \<open>Values\<close>

definition json_int :: "int \<Rightarrow> json" where
  "json_int n = JNumber (if 0 \<le> n then PosInt (of_int n) else NegInt (of_int n))"

definition int_literal :: "int \<Rightarrow> ir_expr" where
  "int_literal n = E_Literal (json_int n)"

definition text_literal :: "ustr \<Rightarrow> ir_expr" where
  "text_literal s = E_Literal (JString s)"

definition is_named :: "ustr \<Rightarrow> string \<Rightarrow> bool" where
  "is_named name s \<longleftrightarrow> str_bytes name = lit s"

definition state_default_matches :: "ustr \<Rightarrow> bool \<Rightarrow> json \<Rightarrow> bool" where
  "state_default_matches value_type nullable v =
     (if is_null v then nullable
      else if is_named value_type ''int'' then as_i64 v \<noteq> None
      else if is_named value_type ''bool'' then as_bool v \<noteq> None
      else if is_named value_type ''string'' then as_str v \<noteq> None
      else False)"

text \<open>Words split at hyphens and underscores, each with an ASCII capital first, joined by spaces.\<close>

definition ascii_upper :: "u8 \<Rightarrow> u8" where
  "ascii_upper b = (if 97 \<le> b \<and> b \<le> 122 then b - 32 else b)"

fun join_spaces :: "rstr list \<Rightarrow> rstr" where
  "join_spaces [] = []"
| "join_spaces [w] = w"
| "join_spaces (w # ws) = w @ lit '' '' @ join_spaces ws"

definition titleize :: "ustr \<Rightarrow> ustr" where
  "titleize i = Str (join_spaces (map (\<lambda>part. case part of [] \<Rightarrow> [] | b # bs \<Rightarrow> ascii_upper b # bs)
     (filter (\<lambda>part. part \<noteq> []) (split_bytes (\<lambda>b. b = 45 \<or> b = 95) (str_bytes i)))))"

end
