(* ===== verification/Front_Expr.thy ===== *)
theory Front_Expr
  imports Front_Tokens
begin

text \<open>
  Objects and expressions (\<open>squidc-core/src/parser/objects.rs\<close>, \<open>expressions.rs\<close>).  A method
  takes as \<open>expr\<close> the recursive \<open>parse_expr\<close>; a \<open>serde_json::Map\<close> is ordered by key.
\<close>

section \<open>Objects with expressions\<close>

definition object_insert :: "ustr \<Rightarrow> json \<Rightarrow> (ustr \<times> json) list \<Rightarrow> (ustr \<times> json) list" where
  "object_insert = btree_insert"

definition options_step ::
  "parse_env \<Rightarrow> ir_expr option parse \<Rightarrow> (ustr \<times> json) list \<Rightarrow> ((ustr \<times> json) list + (ustr \<times> json) list) parse" where
  "options_step env expr entries =
     then_do consume_ws
     (on (at_kind T_CloseBrace) (then_do bump (ret (Inr entries)))
       (bind_exec consume_ident (\<lambda>key. case key of
          None \<Rightarrow> then_do bump (ret (Inl entries))
        | Some key \<Rightarrow>
            then_do consume_ws (then_do (skip T_Colon) (then_do consume_ws
            (bind_exec expr (\<lambda>v.
             then_do consume_ws (then_do (skip T_Comma)
             (ret (Inl (case v of Some v \<Rightarrow> object_insert key (pe_to_value env v) entries | None \<Rightarrow> entries)))))))))))"

definition parse_options_object :: "parse_env \<Rightarrow> ir_expr option parse \<Rightarrow> json parse" where
  "parse_options_object env expr =
     then_do consume_ws
     (on (at_kind T_OpenBrace)
       (then_do bump
         (bind_exec (while_tokens (pe_fuel env) (options_step env expr) []) (\<lambda>entries. ret (JObject entries))))
       (ret (JObject [])))"

section \<open>Static objects\<close>

definition static_object_step ::
  "json option parse \<Rightarrow> (ustr \<times> json) list \<Rightarrow> ((ustr \<times> json) list + (ustr \<times> json) list) parse" where
  "static_object_step val entries =
     then_do consume_ws
     (on (at_kind T_CloseBrace) (then_do bump (ret (Inr entries)))
       (bind_exec consume_ident (\<lambda>key. case key of
          None \<Rightarrow> then_do bump (ret (Inl entries))
        | Some key \<Rightarrow>
            then_do consume_ws (then_do (skip T_Colon) (then_do consume_ws
            (bind_exec (unwrap_or val JNull) (\<lambda>v.
             then_do consume_ws (then_do (skip T_Comma)
             (ret (Inl (object_insert key v entries)))))))))))"

definition parse_static_object_after_open :: "parse_env \<Rightarrow> json option parse \<Rightarrow> json parse" where
  "parse_static_object_after_open env val =
     then_do bump
     (bind_exec (while_tokens (pe_fuel env) (static_object_step val) []) (\<lambda>entries. ret (JObject entries)))"

text \<open>An element that is not a value is \<open>null\<close> and consumes nothing.\<close>

definition static_array_step :: "json option parse \<Rightarrow> json list \<Rightarrow> (json list + json list) parse" where
  "static_array_step val values =
     then_do consume_ws
     (on (at_kind T_CloseBracket) (then_do bump (ret (Inr values)))
       (bind_exec (unwrap_or val JNull) (\<lambda>v.
        then_do consume_ws (then_do (skip T_Comma) (ret (Inl (values @ [v])))))))"

definition parse_static_array_after_open :: "parse_env \<Rightarrow> json option parse \<Rightarrow> json parse" where
  "parse_static_array_after_open env val =
     then_do bump
     (bind_exec (while_tokens (pe_fuel env) (static_array_step val) []) (\<lambda>values. ret (JArray values)))"

definition static_ident :: "ustr \<Rightarrow> json" where
  "static_ident i =
     (if is_named i ''true'' then JBool True
      else if is_named i ''false'' then JBool False
      else if is_named i ''null'' then JNull
      else JString i)"

primrec parse_static_value :: "nat \<Rightarrow> parse_env \<Rightarrow> json option parse" where
  "parse_static_value 0 env = throw Hangs"
| "parse_static_value (Suc depth) env =
     then_do consume_ws
     (on (at_kind T_String) (and_some consume_string (\<lambda>s. ret (Some (JString s))))
     (on (at_kind T_Number) (and_some consume_number (\<lambda>n. ret (Some (json_int n))))
     (on (at_kind T_Ident) (and_some consume_ident (\<lambda>i. ret (Some (static_ident i))))
     (on (at_kind T_OpenBrace)
        (bind_exec (parse_static_object_after_open env (parse_static_value depth env)) (\<lambda>v. ret (Some v)))
     (on (at_kind T_OpenBracket)
        (bind_exec (parse_static_array_after_open env (parse_static_value depth env)) (\<lambda>v. ret (Some v)))
        (ret None))))))"

definition parse_static_options_object :: "parse_env \<Rightarrow> json parse" where
  "parse_static_options_object env =
     then_do consume_ws
     (on (at_kind T_OpenBrace) (parse_static_object_after_open env (parse_static_value (pe_fuel env) env))
       (ret (JObject [])))"

definition consume_literal_value :: "json option parse" where
  "consume_literal_value =
     on (at_kind T_Number) (and_some consume_number (\<lambda>n. ret (Some (json_int n))))
     (on (at_kind T_String) (and_some consume_string (\<lambda>s. ret (Some (JString s))))
     (on (at_ident ''true'') (then_do bump (ret (Some (JBool True))))
     (on (at_ident ''false'') (then_do bump (ret (Some (JBool False))))
     (on (at_ident ''null'') (then_do bump (ret (Some JNull)))
        (ret None)))))"

section \<open>Calls\<close>

text \<open>An argument is an object or an expression; any other token is passed over.\<close>

definition call_arg :: "parse_env \<Rightarrow> ir_expr option parse \<Rightarrow> ir_expr list \<Rightarrow> ir_expr list parse" where
  "call_arg env expr args =
     on (at_kind T_OpenBrace)
       (bind_exec (parse_options_object env expr) (\<lambda>v. ret (args @ [E_Literal v])))
       (bind_exec expr (\<lambda>r. case r of Some arg \<Rightarrow> ret (args @ [arg]) | None \<Rightarrow> then_do bump (ret args)))"

definition call_args_step ::
  "parse_env \<Rightarrow> ir_expr option parse \<Rightarrow> ir_expr list \<Rightarrow> (ir_expr list + ir_expr list) parse" where
  "call_args_step env expr args =
     then_do consume_ws
     (on (at_kind T_CloseParen) (then_do bump (ret (Inr args)))
       (bind_exec (call_arg env expr args) (\<lambda>args.
        then_do consume_ws (then_do (skip T_Comma) (ret (Inl args))))))"

definition parse_call_args_after_open :: "parse_env \<Rightarrow> ir_expr option parse \<Rightarrow> ir_expr list parse" where
  "parse_call_args_after_open env expr = while_tokens (pe_fuel env) (call_args_step env expr) []"

definition parse_call_args :: "parse_env \<Rightarrow> ir_expr option parse \<Rightarrow> ir_expr list parse" where
  "parse_call_args env expr =
     on (at_kind T_OpenParen) (then_do bump (parse_call_args_after_open env expr)) (ret [])"

section \<open>Primary expressions\<close>

definition parse_color_constant :: "ustr \<Rightarrow> int option" where
  "parse_color_constant name =
     (if is_named name ''WHITE'' then Some 0
      else if is_named name ''BLACK'' then Some 15
      else case strip_prefix (str_bytes name) (lit ''GRAY'') of
          Some digits \<Rightarrow> Option.bind (parse_i32 digits) (\<lambda>n. if 0 \<le> n \<and> n \<le> 15 then Some n else None)
        | None \<Rightarrow> None)"

definition color_literal :: "ustr \<Rightarrow> ir_expr option parse" where
  "color_literal namespace =
     (case parse_color_constant namespace of
        Some level \<Rightarrow> ret (Some (int_literal level))
      | None \<Rightarrow>
          bind_exec (end_or 0) (\<lambda>stop.
          then_do (report (diag_error ''E_UNKNOWN_COLOR''
              (lit ''unknown color constant: color.'' @ str_bytes namespace)
              \<lparr>span_start = stop - length (str_bytes namespace), span_end = stop\<rparr>))
            (ret (Some (int_literal 0)))))"

definition first_string :: "ir_expr list \<Rightarrow> ustr" where
  "first_string args =
     (case args of E_Literal v # _ \<Rightarrow> (case as_str v of Some s \<Rightarrow> s | None \<Rightarrow> Str []) | _ \<Rightarrow> Str [])"

text \<open>The dot and the name of an action after a namespace, and a call of it.\<close>

definition consume_action :: "ustr parse" where
  "consume_action =
     then_do bump (then_do consume_ws (bind_exec consume_name (\<lambda>action. then_do consume_ws (ret action))))"

definition prefixed_call :: "parse_env \<Rightarrow> ir_expr option parse \<Rightarrow> rstr \<Rightarrow> ustr \<Rightarrow> ir_expr option parse" where
  "prefixed_call env expr prefix action =
     bind_exec (parse_call_args env expr) (\<lambda>args. ret (Some (E_Call (Str (prefix @ str_bytes action)) args)))"

definition action_call :: "parse_env \<Rightarrow> ir_expr option parse \<Rightarrow> rstr \<Rightarrow> ir_expr option parse" where
  "action_call env expr prefix = bind_exec consume_action (prefixed_call env expr prefix)"

text \<open>An expression \<open>name.namespace\<dots>\<close>.\<close>

definition plain_dotted :: "parse_env \<Rightarrow> ir_expr option parse \<Rightarrow> ustr \<Rightarrow> ustr \<Rightarrow> ir_expr option parse" where
  "plain_dotted env expr name namespace =
     on (at_kind T_OpenParen)
       (prefixed_call env expr
         (if is_named name ''wifi'' then lit ''service.wifi.''
          else if is_named name ''display'' then lit ''service.display.''
          else str_bytes name @ lit ''.'') namespace)
       (ret (Some (E_Field (E_Variable name) namespace)))"

definition state_expr :: "parse_env \<Rightarrow> ir_expr option parse \<Rightarrow> ustr \<Rightarrow> ir_expr option parse" where
  "state_expr env expr namespace =
     on (at_kind T_OpenParen) (prefixed_call env expr (lit ''state.'') namespace)
       (ret (Some (E_State namespace)))"

definition gpio_expr :: "parse_env \<Rightarrow> ir_expr option parse \<Rightarrow> ustr \<Rightarrow> ir_expr option parse" where
  "gpio_expr env expr name =
     bind_exec consume_action (\<lambda>action.
       if is_named action ''read''
       then bind_exec (parse_call_args env expr) (\<lambda>args. ret (Some (E_HardwareGpioRead (first_string args))))
       else ret (Some (E_State name)))"

definition indicator_expr :: "parse_env \<Rightarrow> ir_expr option parse \<Rightarrow> ustr \<Rightarrow> ir_expr option parse" where
  "indicator_expr env expr name =
     bind_exec consume_action (\<lambda>action.
       if is_named action ''read''
       then bind_exec (parse_call_args env expr) (\<lambda>_. ret (Some E_ServiceIndicatorRead))
       else ret (Some (E_State name)))"

definition dotted_expr :: "parse_env \<Rightarrow> ir_expr option parse \<Rightarrow> ustr \<Rightarrow> ustr \<Rightarrow> ir_expr option parse" where
  "dotted_expr env expr name namespace =
     bind_exec (gets (at_kind T_Dot)) (\<lambda>dot.
     if is_named name ''system'' \<and> is_named namespace ''memory''
     then bind_exec (parse_call_args env expr) (\<lambda>_. ret (Some E_SystemMemory))
     else if is_named name ''system'' \<and> is_named namespace ''storage''
     then bind_exec (parse_call_args env expr) (\<lambda>args. ret (Some (E_SystemStorage (first_string args))))
     else if is_named name ''system'' \<and> is_named namespace ''startReason''
     then bind_exec (parse_call_args env expr) (\<lambda>_. ret (Some E_SystemStartReason))
     else if is_named name ''hardware'' \<and> is_named namespace ''gpio'' \<and> dot then gpio_expr env expr name
     else if is_named name ''service'' \<and> is_named namespace ''indicator'' \<and> dot then indicator_expr env expr name
     else if is_named name ''service'' \<and> is_named namespace ''display'' \<and> dot
     then action_call env expr (lit ''service.display.'')
     else if is_named name ''service'' \<and> is_named namespace ''wifi'' \<and> dot
     then action_call env expr (lit ''service.wifi.'')
     else if is_named name ''device'' \<and> is_named namespace ''config'' \<and> dot
     then action_call env expr (lit ''device.config.'')
     else if is_named name ''app'' \<and> (is_named namespace ''registry'' \<or> is_named namespace ''armedStack'') \<and> dot
     then action_call env expr (lit ''app.'' @ str_bytes namespace @ lit ''.'')
     else if is_named name ''content'' \<and> is_named namespace ''binbook'' \<and> dot
     then action_call env expr (lit ''content.binbook.'')
     else if is_named name ''color'' then color_literal namespace
     else if is_named name ''state'' then state_expr env expr namespace
     else plain_dotted env expr name namespace)"

text \<open>An expression that starts with an identifier, which is consumed.\<close>

definition ident_expr :: "parse_env \<Rightarrow> ir_expr option parse \<Rightarrow> ustr \<Rightarrow> ir_expr option parse" where
  "ident_expr env expr name =
     (if is_named name ''true'' then ret (Some (E_Literal (JBool True)))
      else if is_named name ''false'' then ret (Some (E_Literal (JBool False)))
      else if is_named name ''null'' then ret (Some (E_Literal JNull))
      else
        on (at_kind T_Dot)
          (then_do bump (then_do consume_ws
            (bind_exec consume_name (\<lambda>namespace.
             then_do consume_ws (dotted_expr env expr name namespace)))))
        (on (at_kind T_OpenParen)
          (bind_exec (parse_call_args env expr) (\<lambda>args. ret (Some (E_Call name args))))
          (ret (Some (E_Variable name)))))"

definition paren_expr :: "ir_expr option parse \<Rightarrow> ir_expr option parse" where
  "paren_expr expr =
     then_do bump (then_do consume_ws
     (and_some expr (\<lambda>e. then_do consume_ws (then_do (skip T_CloseParen) (ret (Some e))))))"

definition parse_primary_expr :: "parse_env \<Rightarrow> ir_expr option parse \<Rightarrow> ir_expr option parse" where
  "parse_primary_expr env expr =
     on (at_kind T_OpenParen) (paren_expr expr)
     (on (at_kind T_Number) (and_some consume_number (\<lambda>n. ret (Some (int_literal n))))
     (on (at_kind T_String) (and_some consume_string (\<lambda>s. ret (Some (text_literal s))))
     (on (at_kind T_At)
        (then_do bump (then_do consume_ws (and_some consume_ident (\<lambda>name. ret (Some (E_State name))))))
     (on (at_kind T_Ident) (and_some consume_ident (ident_expr env expr))
        (ret None)))))"

section \<open>Operators\<close>

text \<open>A dot without a name ends the chain of fields.\<close>

definition postfix_step :: "ir_expr \<Rightarrow> (ir_expr + ir_expr) parse" where
  "postfix_step e =
     then_do consume_ws
     (on (at_kind T_Dot)
       (then_do bump (then_do consume_ws
         (bind_exec consume_ident (\<lambda>field. ret (case field of Some f \<Rightarrow> Inl (E_Field e f) | None \<Rightarrow> Inr e)))))
       (ret (Inr e)))"

definition parse_postfix_expr :: "parse_env \<Rightarrow> ir_expr option parse \<Rightarrow> ir_expr option parse" where
  "parse_postfix_expr env expr =
     and_some (parse_primary_expr env expr) (\<lambda>e.
       bind_exec (loop (pe_fuel env) postfix_step e) (\<lambda>e. ret (Some e)))"

primrec parse_unary_expr :: "nat \<Rightarrow> parse_env \<Rightarrow> ir_expr option parse \<Rightarrow> ir_expr option parse" where
  "parse_unary_expr 0 env expr = throw Hangs"
| "parse_unary_expr (Suc depth) env expr =
     then_do consume_ws
     (on (at_kind T_Bang)
       (then_do bump (then_do consume_ws
         (and_some (parse_unary_expr depth env expr) (\<lambda>e. ret (Some (E_Unary (Str (lit ''!'')) e))))))
       (parse_postfix_expr env expr))"

definition consume_binary_operator :: "ustr option parse" where
  "consume_binary_operator =
     bind_exec (gets peek) (\<lambda>t. case t of
       None \<Rightarrow> ret None
     | Some t \<Rightarrow>
         if lt_kind t \<in> {T_Equals, T_Bang, T_Less, T_Greater}
         then then_do bump
           (on (at_kind T_Equals)
             (bind_exec (gets peek_text) (\<lambda>second.
               then_do bump (ret (Some (Str (str_bytes (lt_text t) @ str_bytes second))))))
             (ret (Some (lt_text t))))
         else then_do bump (ret (Some (lt_text t))))"

text \<open>
  A chain of operands, from the left.  The operand is \<open>operand\<close>; a missing one makes the
  whole expression missing.
\<close>

definition binary_step ::
  "(parser \<Rightarrow> bool) \<Rightarrow> ir_expr option parse \<Rightarrow> ir_expr \<Rightarrow> (ir_expr + ir_expr option) parse" where
  "binary_step at_operator operand e =
     then_do consume_ws
     (on at_operator
       (bind_exec consume_binary_operator (\<lambda>operator. case operator of
          None \<Rightarrow> ret (Inr None)
        | Some operator \<Rightarrow>
            then_do consume_ws
            (bind_exec operand (\<lambda>right. ret (case right of
               Some right \<Rightarrow> Inl (E_Binary e operator right) | None \<Rightarrow> Inr None)))))
       (ret (Inr (Some e))))"

definition at_additive :: "parser \<Rightarrow> bool" where
  "at_additive s \<longleftrightarrow> at_kind T_Plus s \<or> at_kind T_Minus s"

definition at_comparison :: "parser \<Rightarrow> bool" where
  "at_comparison s \<longleftrightarrow> at_kind T_Less s \<or> at_kind T_Greater s \<or> at_kind T_Equals s \<or>
     (at_kind T_Bang s \<and> next_kind s = Some T_Equals)"

definition parse_additive_expr :: "parse_env \<Rightarrow> ir_expr option parse \<Rightarrow> ir_expr option parse" where
  "parse_additive_expr env unary = and_some unary (loop (pe_fuel env) (binary_step at_additive unary))"

definition parse_comparison_expr :: "parse_env \<Rightarrow> ir_expr option parse \<Rightarrow> ir_expr option parse" where
  "parse_comparison_expr env additive = and_some additive (loop (pe_fuel env) (binary_step at_comparison additive))"

primrec parse_expr_upto :: "nat \<Rightarrow> parse_env \<Rightarrow> ir_expr option parse" where
  "parse_expr_upto 0 env = throw Hangs"
| "parse_expr_upto (Suc depth) env =
     parse_comparison_expr env
       (parse_additive_expr env (parse_unary_expr (pe_fuel env) env (parse_expr_upto depth env)))"

definition parse_expr :: "parse_env \<Rightarrow> ir_expr option parse" where
  "parse_expr env = parse_expr_upto (pe_fuel env) env"

definition expr_or :: "parse_env \<Rightarrow> ir_expr \<Rightarrow> ir_expr parse" where
  "expr_or env d = unwrap_or (parse_expr env) d"

end
