(* ===== verification/Front_Statement.thy ===== *)
theory Front_Statement
  imports Front_Expr
begin

text \<open>
  Statements (\<open>squidc-core/src/parser/statements.rs\<close>).  A method takes as \<open>block\<close> the recursive
  \<open>parse_statements_until_close\<close>; the cases of \<open>parse_statement\<close> are definitions of their own.
\<close>

section \<open>Service profiles\<close>

definition as_array :: "json \<Rightarrow> json list option" where
  "as_array v = (case v of JArray vs \<Rightarrow> Some vs | _ \<Rightarrow> None)"

definition as_object :: "json \<Rightarrow> (ustr \<times> json) list option" where
  "as_object v = (case v of JObject es \<Rightarrow> Some es | _ \<Rightarrow> None)"

definition option_text :: "json \<Rightarrow> string \<Rightarrow> ustr" where
  "option_text options key =
     (case Option.bind (json_get options (lit key)) as_str of Some s \<Rightarrow> s | None \<Rightarrow> Str [])"

definition option_texts :: "json \<Rightarrow> string \<Rightarrow> ustr list" where
  "option_texts options key =
     (case Option.bind (json_get options (lit key)) as_array of
        Some vs \<Rightarrow> List.map_filter as_str vs | None \<Rightarrow> [])"

definition option_routes :: "json \<Rightarrow> string \<Rightarrow> (ustr \<times> ustr) list" where
  "option_routes options key =
     (case Option.bind (json_get options (lit key)) as_object of
        Some es \<Rightarrow> btree_collect (List.map_filter (\<lambda>(k, v). map_option (\<lambda>s. (k, s)) (as_str v)) es)
      | None \<Rightarrow> [])"

definition finish_call :: "parse_env \<Rightarrow> 'a \<Rightarrow> 'a parse" where
  "finish_call env r = then_do (consume_call_tail env) (ret r)"

definition profile_start ::
  "parse_env \<Rightarrow> (ustr \<Rightarrow> ustr \<Rightarrow> ustr list \<Rightarrow> (ustr \<times> ustr) list \<Rightarrow> ir_statement) \<Rightarrow> ir_statement option parse" where
  "profile_start env make_start =
     bind_exec (string_or '''') (\<lambda>profile.
     then_do consume_comma
     (bind_exec (parse_static_options_object env) (\<lambda>options.
      finish_call env (Some (make_start profile (option_text options ''id'')
        (option_texts options ''accept'') (option_routes options ''events''))))))"

definition ble_statement :: "parse_env \<Rightarrow> ustr \<Rightarrow> ir_statement option parse" where
  "ble_statement env action =
     (if is_named action ''start'' then profile_start env S_ServiceBleStart
      else if is_named action ''stop'' then finish_call env (Some S_ServiceBleStop)
      else finish_call env None)"

definition http_statement :: "parse_env \<Rightarrow> ustr \<Rightarrow> ir_statement option parse" where
  "http_statement env action =
     (if is_named action ''start'' then profile_start env S_ServiceHttpStart
      else if is_named action ''stop'' then finish_call env (Some S_ServiceHttpStop)
      else finish_call env None)"

section \<open>Services and hardware\<close>

definition power_statement :: "parse_env \<Rightarrow> ustr \<Rightarrow> ir_statement option parse" where
  "power_statement env action =
     (if is_named action ''sleep''
      then bind_exec (parse_options_object env (parse_expr env)) (\<lambda>options.
        finish_call env (Some (S_ServicePowerSleep
          (case Option.bind (json_get options (lit ''wakeAfterMs'')) (pe_from_value env) of
             Some e \<Rightarrow> e | None \<Rightarrow> int_literal 0))))
      else finish_call env None)"

definition timer_statement ::
  "parse_env \<Rightarrow> (ustr \<Rightarrow> ir_expr \<Rightarrow> ir_statement) \<Rightarrow> ir_statement option parse" where
  "timer_statement env make_timer =
     bind_exec (string_or '''') (\<lambda>event.
     then_do consume_comma
     (bind_exec (expr_or env (int_literal 0)) (\<lambda>ms. finish_call env (Some (make_timer event ms)))))"

definition timer_or_indicator :: "parse_env \<Rightarrow> ustr \<Rightarrow> ustr \<Rightarrow> ir_statement option parse" where
  "timer_or_indicator env method action =
     (if is_named method ''timer'' \<and> is_named action ''every'' then timer_statement env S_ServiceTimerEvery
      else if is_named method ''timer'' \<and> is_named action ''after'' then timer_statement env S_ServiceTimerAfter
      else if is_named method ''indicator'' \<and> is_named action ''write''
      then bind_exec (expr_or env (E_Literal (JBool False))) (\<lambda>v.
        finish_call env (Some (S_ServiceIndicatorWrite v)))
      else if is_named method ''indicator'' \<and> is_named action ''toggle''
      then finish_call env (Some S_ServiceIndicatorToggle)
      else if is_named method ''indicator'' \<and> is_named action ''breathe''
      then finish_call env (Some S_ServiceIndicatorBreathe)
      else if is_named method ''indicator'' \<and> is_named action ''blink''
      then bind_exec (expr_or env (int_literal 500)) (\<lambda>on_ms.
        then_do consume_comma
        (bind_exec (expr_or env (int_literal 500)) (\<lambda>off_ms.
          finish_call env (Some (S_ServiceIndicatorBlink on_ms off_ms)))))
      else finish_call env None)"

definition gpio_statement :: "parse_env \<Rightarrow> ir_statement option parse" where
  "gpio_statement env =
     then_do (skip T_Dot) (then_do consume_ws
     (and_some consume_ident (\<lambda>action.
      then_do consume_ws (then_do (skip T_OpenParen) (then_do consume_ws
      (if is_named action ''write''
       then bind_exec (string_or '''') (\<lambda>name.
         then_do consume_comma
         (bind_exec (expr_or env (E_Literal (JBool False))) (\<lambda>v.
           finish_call env (Some (S_HardwareGpioWrite name v)))))
       else if is_named action ''toggle''
       then bind_exec (string_or '''') (\<lambda>name. finish_call env (Some (S_HardwareGpioToggle name)))
       else finish_call env None))))))"

section \<open>The display\<close>

definition coordinate :: "parse_env \<Rightarrow> ir_expr parse" where
  "coordinate env = bind_exec (expr_or env (int_literal 0)) (\<lambda>e. then_do consume_comma (ret e))"

definition line_coordinate :: "i64 parse" where
  "line_coordinate = bind_exec (unwrap_or consume_number 0) (\<lambda>n. then_do consume_comma (ret (of_int n)))"

definition with_options :: "parse_env \<Rightarrow> (json \<Rightarrow> ir_statement) \<Rightarrow> ir_statement option parse" where
  "with_options env make_statement =
     bind_exec (parse_options_object env (parse_expr env)) (\<lambda>options.
       finish_call env (Some (make_statement options)))"

definition display_statement :: "parse_env \<Rightarrow> ustr \<Rightarrow> ir_statement option parse" where
  "display_statement env action =
     (if is_named action ''clear''
      then bind_exec (expr_or env (int_literal 0)) (\<lambda>color. finish_call env (Some (S_DisplayClear color)))
      else if is_named action ''text''
      then bind_exec (expr_or env (text_literal (Str []))) (\<lambda>text.
        then_do consume_comma (with_options env (S_DisplayText text)))
      else if is_named action ''rect''
      then bind_exec (coordinate env) (\<lambda>x.
        bind_exec (coordinate env) (\<lambda>y.
        bind_exec (coordinate env) (\<lambda>w.
        bind_exec (coordinate env) (\<lambda>h. with_options env (S_DisplayRect x y w h)))))
      else if is_named action ''line''
      then bind_exec line_coordinate (\<lambda>x1.
        bind_exec line_coordinate (\<lambda>y1.
        bind_exec line_coordinate (\<lambda>x2.
        bind_exec line_coordinate (\<lambda>y2. with_options env (S_DisplayLine x1 y1 x2 y2)))))
      else if is_named action ''select''
      then bind_exec (string_or ''default'') (\<lambda>name. finish_call env (Some (S_DisplaySelect name)))
      else if is_named action ''refreshMode''
      then bind_exec (string_or ''auto'') (\<lambda>mode. finish_call env (Some (S_DisplayRefreshMode mode)))
      else if is_named action ''image''
      then bind_exec (string_or '''') (\<lambda>path. then_do consume_comma (with_options env (S_DisplayImage path)))
      else if is_named action ''draw''
      then bind_exec (expr_or env (E_Literal JNull)) (\<lambda>drawable.
        then_do consume_comma (with_options env (S_DisplayDraw drawable)))
      else finish_call env None)"

definition parse_display_statement :: "parse_env \<Rightarrow> ustr \<Rightarrow> ir_statement option parse" where
  "parse_display_statement env action =
     then_do (skip T_OpenParen) (then_do consume_ws (display_statement env action))"

definition service_statement :: "parse_env \<Rightarrow> ustr \<Rightarrow> ir_statement option parse" where
  "service_statement env method =
     then_do (skip T_Dot) (then_do consume_ws
     (and_some consume_ident (\<lambda>action.
      then_do consume_ws
      (if is_named method ''display'' then parse_display_statement env action
       else then_do (skip T_OpenParen) (then_do consume_ws
         (if is_named method ''wifi''
          then bind_exec (parse_call_args_after_open env (parse_expr env)) (\<lambda>args.
            ret (Some (S_Call (Str (lit ''service.wifi.'' @ str_bytes action)) args)))
          else if is_named method ''ble'' then ble_statement env action
          else if is_named method ''http'' then http_statement env action
          else if is_named method ''power'' then power_statement env action
          else timer_or_indicator env method action))))))"

section \<open>Blocks\<close>

definition parse_if_statement ::
  "parse_env \<Rightarrow> ir_statement list parse \<Rightarrow> ir_statement option parse" where
  "parse_if_statement env block =
     then_do consume_ws (then_do (skip T_OpenParen) (then_do consume_ws
     (and_some (parse_expr env) (\<lambda>condition.
      then_do consume_ws (then_do (skip T_CloseParen) (then_do consume_ws (then_do (skip T_OpenBrace)
      (bind_exec block (\<lambda>ts.
       then_do consume_ws
       (bind_exec
         (on (at_ident ''else'')
           (then_do bump (then_do consume_ws (then_do (skip T_OpenBrace) block)))
           (ret []))
         (\<lambda>es. ret (Some (S_If condition ts es)))))))))))))"

definition parse_repeat_statement ::
  "parse_env \<Rightarrow> ir_statement list parse \<Rightarrow> ir_statement option parse" where
  "parse_repeat_statement env block =
     then_do consume_ws (then_do (skip T_OpenParen) (then_do consume_ws
     (and_some (parse_expr env) (\<lambda>count.
      then_do consume_ws (then_do (skip T_CloseParen) (then_do consume_ws (then_do (skip T_OpenBrace)
      (bind_exec block (\<lambda>ss. ret (Some (S_Repeat count ss)))))))))))"

definition parse_for_statement ::
  "parse_env \<Rightarrow> ir_statement list parse \<Rightarrow> ir_statement option parse" where
  "parse_for_statement env block =
     then_do consume_ws
     (and_some consume_ident (\<lambda>item.
      then_do consume_ws (then_do (skip_ident ''in'') (then_do consume_ws
      (and_some (parse_expr env) (\<lambda>lst.
       then_do consume_ws
       (bind_exec
         (on (at_ident ''max'') (then_do bump (then_do consume_ws (parse_expr env))) (ret None))
         (\<lambda>limit.
          then_do consume_ws (then_do (skip T_OpenBrace)
          (bind_exec block (\<lambda>ss. ret (Some (S_For item lst limit ss)))))))))))))"

section \<open>Statements\<close>

definition state_assign_statement :: "parse_env \<Rightarrow> ir_statement option parse" where
  "state_assign_statement env =
     then_do bump (then_do consume_ws
     (and_some consume_ident (\<lambda>name.
      then_do consume_ws
      (on (at_kind T_Equals)
        (then_do bump (then_do consume_ws (and_some (parse_expr env) (\<lambda>e. ret (Some (S_StateAssign name e))))))
        (ret None)))))"

definition let_statement :: "parse_env \<Rightarrow> ir_statement option parse" where
  "let_statement env =
     and_some consume_ident (\<lambda>name.
     then_do consume_ws
     (then_do
       (on (at_kind T_Colon)
         (then_do bump (then_do consume_ws (bind_exec consume_ident (\<lambda>_. consume_ws))))
         (ret ()))
     (then_do (skip T_Equals) (then_do consume_ws
     (and_some (parse_expr env) (\<lambda>e. ret (Some (S_Let name e))))))))"

definition app_statement ::
  "parse_env \<Rightarrow> (ir_expr \<Rightarrow> ir_statement) \<Rightarrow> ir_statement option parse" where
  "app_statement env make_statement =
     bind_exec (expr_or env (text_literal (Str []))) (\<lambda>app. finish_call env (Some (make_statement app)))"

definition install_statement :: "parse_env \<Rightarrow> ir_statement option parse" where
  "install_statement env =
     bind_exec (expr_or env (text_literal (Str []))) (\<lambda>file_ref.
     then_do consume_ws
     (bind_exec
       (on (at_kind T_Comma)
         (then_do bump (then_do consume_ws (bind_exec (string_or '''') (\<lambda>s. ret (Some s)))))
         (ret None))
       (\<lambda>app_id. finish_call env (Some (S_AppInstall file_ref app_id)))))"

text \<open>A call of another function, or not a statement.\<close>

definition other_call :: "parse_env \<Rightarrow> ustr \<Rightarrow> ustr \<Rightarrow> bool \<Rightarrow> ir_statement option parse" where
  "other_call env first method has_call_args =
     (if has_call_args
      then bind_exec (parse_call_args_after_open env (parse_expr env)) (\<lambda>args.
        ret (Some (S_Call
          (if is_named first ''wifi'' then Str (lit ''service.wifi.'' @ str_bytes method) else dotted first method)
          args)))
      else finish_call env None)"

definition state_service :: "parse_env \<Rightarrow> bool \<Rightarrow> ir_statement \<Rightarrow> ir_statement option parse" where
  "state_service env has_call_args s = (if has_call_args then finish_call env (Some s) else ret None)"

definition screen_reference_text :: "ustr parse" where
  "screen_reference_text =
     bind_exec consume_string (\<lambda>r. case r of
       Some s \<Rightarrow> ret s | None \<Rightarrow> unwrap_or consume_symbolic_screen_ref (Str []))"

definition method_statement :: "parse_env \<Rightarrow> ustr \<Rightarrow> ustr \<Rightarrow> ir_statement option parse" where
  "method_statement env first method =
     bind_exec (on (at_kind T_OpenParen) (then_do bump (ret True)) (ret False)) (\<lambda>has_call_args.
     then_do consume_ws
     (if is_named first ''state'' \<and> is_named method ''load'' then state_service env has_call_args S_StateLoad
      else if is_named first ''state'' \<and> is_named method ''save'' then state_service env has_call_args S_StateSave
      else if is_named first ''state'' \<and> is_named method ''reset'' then state_service env has_call_args S_StateReset
      else if is_named first ''screen'' \<and> is_named method ''refresh'' then finish_call env (Some S_ScreenRefresh)
      else if is_named first ''screen'' \<and> is_named method ''open''
      then bind_exec screen_reference_text (\<lambda>screen. finish_call env (Some (S_ScreenOpen screen)))
      else if is_named first ''app'' \<and> is_named method ''exit'' then finish_call env (Some S_AppExit)
      else if is_named first ''app'' \<and> is_named method ''launch'' then app_statement env S_AppLaunch
      else if is_named first ''app'' \<and> is_named method ''arm'' then app_statement env S_AppArm
      else if is_named first ''app'' \<and> is_named method ''disarm'' then app_statement env S_AppDisarm
      else if is_named first ''app'' \<and> is_named method ''install'' then install_statement env
      else if is_named first ''debug'' \<and> is_named method ''print''
      then bind_exec (parse_call_args_after_open env (parse_expr env)) (\<lambda>args. ret (Some (S_DebugPrint args)))
      else other_call env first method has_call_args))"

text \<open>\<open>first.method\<dots>\<close>, the dot being the current token.\<close>

definition dotted_statement :: "parse_env \<Rightarrow> ustr \<Rightarrow> ir_statement option parse" where
  "dotted_statement env first =
     then_do bump (then_do consume_ws
     (and_some consume_ident (\<lambda>method.
      then_do consume_ws
      (on (\<lambda>s. is_named first ''state'' \<and> at_kind T_Equals s)
        (then_do bump (then_do consume_ws (and_some (parse_expr env) (\<lambda>e. ret (Some (S_StateAssign method e))))))
      (if is_named first ''hardware'' \<and> is_named method ''gpio'' then gpio_statement env
       else if is_named first ''display'' then parse_display_statement env method
       else if is_named first ''service'' \<and> list_ex (is_named method)
           [''timer'', ''display'', ''indicator'', ''wifi'', ''power'', ''ble'', ''http'']
       then service_statement env method
       else method_statement env first method)))))"

definition return_statement :: "parse_env \<Rightarrow> ir_statement option parse" where
  "return_statement env =
     on (at_kind T_CloseBrace) (ret (Some (S_Return None)))
       (bind_exec (parse_expr env) (\<lambda>e. ret (Some (S_Return e))))"

text \<open>A statement that starts with the identifier \<open>first\<close>, which is consumed.\<close>

definition ident_statement ::
  "parse_env \<Rightarrow> ir_statement list parse \<Rightarrow> ustr \<Rightarrow> ir_statement option parse" where
  "ident_statement env block first =
     then_do consume_ws
     (if is_named first ''let'' then let_statement env
      else if is_named first ''if'' then parse_if_statement env block
      else if is_named first ''repeat'' then parse_repeat_statement env block
      else if is_named first ''for'' then parse_for_statement env block
      else if is_named first ''return'' then return_statement env
      else
        on (\<lambda>s. is_named first ''debug'' \<and> at_kind T_OpenBrace s)
          (then_do bump (bind_exec block (\<lambda>ss. ret (Some (S_DebugBlock ss)))))
        (on (at_kind T_Equals)
          (then_do bump (then_do consume_ws (and_some (parse_expr env) (\<lambda>e. ret (Some (S_Assign first e))))))
        (on (at_kind T_OpenParen)
          (bind_exec (parse_call_args env (parse_expr env)) (\<lambda>args. ret (Some (S_Call first args))))
        (on (at_kind T_Dot) (dotted_statement env first) (ret None)))))"

definition parse_statement ::
  "parse_env \<Rightarrow> ir_statement list parse \<Rightarrow> ir_statement option parse" where
  "parse_statement env block =
     on (at_kind T_At) (state_assign_statement env)
       (and_some consume_ident (ident_statement env block))"

text \<open>A token that starts no statement is passed over.\<close>

definition statements_step ::
  "parse_env \<Rightarrow> ir_statement list parse \<Rightarrow> ir_statement list \<Rightarrow> (ir_statement list + ir_statement list) parse" where
  "statements_step env block statements =
     then_do consume_ws
     (on (at_kind T_CloseBrace) (then_do bump (ret (Inr statements)))
       (bind_exec (parse_statement env block) (\<lambda>r. case r of
          Some s \<Rightarrow> ret (Inl (statements @ [s]))
        | None \<Rightarrow> then_do bump (ret (Inl statements)))))"

primrec parse_statements_upto :: "nat \<Rightarrow> parse_env \<Rightarrow> ir_statement list parse" where
  "parse_statements_upto 0 env = throw Hangs"
| "parse_statements_upto (Suc depth) env =
     while_tokens (pe_fuel env) (statements_step env (parse_statements_upto depth env)) []"

definition parse_statements_until_close :: "parse_env \<Rightarrow> ir_statement list parse" where
  "parse_statements_until_close env = parse_statements_upto (pe_fuel env) env"

end
