(* ===== verification/Front_Parser.thy ===== *)
theory Front_Parser
  imports Front_Statement
begin

text \<open>
  Declarations and the parser's entry (\<open>squidc-core/src/parser/handlers.rs\<close>,
  \<open>declarations.rs\<close>, \<open>mod.rs\<close>).
\<close>

section \<open>Functions, handlers, screens\<close>

definition on_ast :: "(ast_root \<Rightarrow> ast_root) \<Rightarrow> unit parse" where
  "on_ast f = modify (\<lambda>s. s\<lparr>ps_ast := f (ps_ast s)\<rparr>)"

text \<open>A brace and the block behind it, with the span from \<open>start\<close> to its end.\<close>

definition braced_block :: "parse_env \<Rightarrow> nat \<Rightarrow> (ir_statement list \<times> source_span) parse" where
  "braced_block env start =
     then_do consume_ws (then_do (skip T_OpenBrace)
     (bind_exec (parse_statements_until_close env) (\<lambda>statements.
      bind_exec (end_or start) (\<lambda>stop. ret (statements, \<lparr>span_start = start, span_end = stop\<rparr>)))))"

text \<open>The attributes of a screen: \<open>render\<close> sets the policy, other tokens are passed over.\<close>

definition screen_attribute_step :: "ustr \<Rightarrow> (ustr + ustr) parse" where
  "screen_attribute_step render =
     then_do consume_ws
     (on (at_kind T_CloseParen) (then_do bump (ret (Inr render)))
     (on (at_ident ''render'')
       (then_do bump (then_do consume_ws
         (on (at_kind T_Colon)
           (then_do bump (then_do consume_ws
             (bind_exec consume_string (\<lambda>v. ret (Inl (case v of Some r \<Rightarrow> r | None \<Rightarrow> render))))))
           (ret (Inl render)))))
       (then_do bump (ret (Inl render)))))"

definition parse_screen :: "parse_env \<Rightarrow> bool \<Rightarrow> unit parse" where
  "parse_screen env exported =
     bind_exec here (\<lambda>start.
     then_do bump (then_do consume_ws (then_do (skip T_OpenParen) (then_do consume_ws
     (bind_exec (string_or ''main'') (\<lambda>name.
      bind_exec (while_tokens (pe_fuel env) screen_attribute_step (Str (lit ''compose''))) (\<lambda>render.
      bind_exec (braced_block env start) (\<lambda>(statements, span).
        on_ast (\<lambda>ast. ast\<lparr>ast_screens := ast_screens ast @ [\<lparr>as_name = name, as_render = render,
          as_statements = statements, as_exported = exported, as_span = span\<rparr>]\<rparr>)))))))))"

definition handler_param :: "ustr option parse" where
  "handler_param = on (at_kind T_Comma) (then_do bump (then_do consume_ws consume_ident)) (ret None)"

definition parse_event_handler :: "parse_env \<Rightarrow> bool \<Rightarrow> unit parse" where
  "parse_event_handler env preload =
     bind_exec here (\<lambda>start.
     then_do bump (then_do consume_ws (then_do (skip T_Dot) (then_do consume_ws
     (bind_exec consume_ident (\<lambda>_.
      then_do consume_ws (then_do (skip T_OpenParen) (then_do consume_ws
      (bind_exec (string_or '''') (\<lambda>event.
       then_do consume_ws
       (bind_exec handler_param (\<lambda>param.
        then_do (consume_call_tail env)
        (bind_exec (braced_block env start) (\<lambda>(statements, span).
          on_ast (\<lambda>ast. ast\<lparr>ast_handlers := ast_handlers ast @ [\<lparr>ah_event = event, ah_param = param,
            ah_preload = preload, ah_statements = statements, ah_span = span\<rparr>]\<rparr>)))))))))))))))"

definition parse_app_triggers :: "parse_env \<Rightarrow> unit parse" where
  "parse_app_triggers env =
     bind_exec here (\<lambda>start.
     then_do bump (then_do consume_ws (then_do (skip T_Dot) (then_do consume_ws
     (bind_exec consume_ident (\<lambda>_.
      bind_exec (braced_block env start) (\<lambda>(statements, span).
        on_ast (\<lambda>ast. ast\<lparr>ast_trigger_blocks := ast_trigger_blocks ast @
          [\<lparr>at_statements = statements, at_span = span\<rparr>]\<rparr>))))))))"

text \<open>A token that is no name, comma or parenthesis is not consumed.\<close>

definition param_step :: "ustr list \<Rightarrow> (ustr list + ustr list) parse" where
  "param_step params =
     then_do consume_ws
     (on (at_kind T_CloseParen) (then_do bump (ret (Inr params)))
       (bind_exec consume_ident (\<lambda>param.
        then_do consume_ws (then_do (skip T_Comma)
        (ret (Inl (case param of Some p \<Rightarrow> params @ [p] | None \<Rightarrow> params)))))))"

definition parse_param_list :: "parse_env \<Rightarrow> ustr list parse" where
  "parse_param_list env =
     then_do consume_ws
     (on (at_kind T_OpenParen)
       (then_do bump (while_tokens (pe_fuel env) param_step []))
       (ret []))"

definition parse_function :: "parse_env \<Rightarrow> bool \<Rightarrow> unit parse" where
  "parse_function env exported =
     bind_exec here (\<lambda>start.
     then_do bump (then_do consume_ws
     (bind_exec consume_name (\<lambda>name.
      bind_exec (parse_param_list env) (\<lambda>params.
      bind_exec (braced_block env start) (\<lambda>(statements, span).
        on_ast (\<lambda>ast. ast\<lparr>ast_functions := ast_functions ast @ [\<lparr>af_name = name, af_params = params,
          af_statements = statements, af_exported = exported, af_span = span\<rparr>]\<rparr>)))))))"

section \<open>Imports, requirements, attributes\<close>

definition parse_import :: "parse_env \<Rightarrow> unit parse" where
  "parse_import env =
     bind_exec here (\<lambda>start.
     then_do bump (then_do consume_ws
     (bind_exec consume_name (\<lambda>alias.
      then_do consume_ws
      (then_do
        (on (at_ident ''from'') bump
          (report_from start ''E_IMPORT_SYNTAX''
            (''import must use: import alias from '' @ [CHR 34] @ ''path'' @ [CHR 34])))
      (then_do consume_ws
      (bind_exec (string_or '''') (\<lambda>path.
       bind_exec (end_or start) (\<lambda>stop.
         if str_bytes alias \<noteq> [] \<and> str_bytes path \<noteq> []
         then on_ast (\<lambda>ast. ast\<lparr>ast_imports := ast_imports ast @ [\<lparr>am_alias = alias, am_path = path,
           am_span = \<lparr>span_start = start, span_end = stop\<rparr>\<rparr>]\<rparr>)
         else ret ())))))))))"

definition parse_exported_decl :: "parse_env \<Rightarrow> unit parse" where
  "parse_exported_decl env =
     bind_exec here (\<lambda>start.
     then_do bump (then_do consume_ws
     (on (at_ident ''function'') (parse_function env True)
     (on (at_ident ''screen'') (parse_screen env True)
       (report_from start ''E_EXPORT_TARGET'' ''export is only valid before function or screen'')))))"

definition question_mark :: "bool parse" where
  "question_mark = on (at_kind T_Question) (then_do bump (ret True)) (ret False)"

definition required_state_step :: "nat \<Rightarrow> unit \<Rightarrow> (unit + unit) parse" where
  "required_state_step start u =
     then_do consume_ws
     (on (at_kind T_CloseBrace) (then_do bump (ret (Inr ())))
       (bind_exec (gets (\<lambda>s. case peek s of Some t \<Rightarrow> span_start (lt_span t) | None \<Rightarrow> start)) (\<lambda>field_start.
        bind_exec consume_ident (\<lambda>name. case name of
          None \<Rightarrow> then_do bump (ret (Inl ()))
        | Some name \<Rightarrow>
            then_do consume_ws (then_do (skip T_Colon) (then_do consume_ws
            (bind_exec consume_name (\<lambda>value_type.
             then_do consume_ws
             (bind_exec question_mark (\<lambda>nullable.
              bind_exec (end_or field_start) (\<lambda>field_end.
              then_do
                (if str_bytes value_type \<noteq> []
                 then on_ast (\<lambda>ast. ast\<lparr>ast_required_state := ast_required_state ast @
                   [\<lparr>ar_name = name, ar_value_type = value_type, ar_nullable = nullable,
                     ar_span = \<lparr>span_start = field_start, span_end = field_end\<rparr>\<rparr>]\<rparr>)
                 else ret ())
              (then_do consume_ws (then_do consume_comma (ret (Inl ())))))))))))))))"

definition parse_required_state :: "parse_env \<Rightarrow> unit parse" where
  "parse_required_state env =
     bind_exec here (\<lambda>start.
     then_do bump (then_do consume_ws (then_do (skip_ident ''state'') (then_do consume_ws
     (then_do (skip T_OpenBrace)
       (while_tokens (pe_fuel env) (required_state_step start) ()))))))"

definition parse_attribute :: "unit parse" where
  "parse_attribute =
     bind_exec here (\<lambda>start.
     then_do bump (then_do consume_ws
     (bind_exec consume_ident (\<lambda>name. case name of
        None \<Rightarrow> report_from start ''E_ATTRIBUTE'' ''attribute must have a name''
      | Some name \<Rightarrow>
          bind_exec (end_or start) (\<lambda>stop.
            if is_named name ''preload''
            then modify (\<lambda>s. s\<lparr>ps_preload := Some \<lparr>span_start = start, span_end = stop\<rparr>\<rparr>)
            else report (diag_error ''E_ATTRIBUTE'' (lit ''unsupported attribute'')
              \<lparr>span_start = start, span_end = stop\<rparr>))))))"

definition take_preload :: "source_span option parse" where
  "take_preload = bind_exec (gets ps_preload) (\<lambda>p. then_do (modify (\<lambda>s. s\<lparr>ps_preload := None\<rparr>)) (ret p))"

definition reject_pending_attribute :: "unit parse" where
  "reject_pending_attribute =
     bind_exec take_preload (\<lambda>p. case p of
       Some span \<Rightarrow> report (diag_error ''E_ATTRIBUTE_TARGET''
         (lit ''@preload is only valid before event.on handlers'') span)
     | None \<Rightarrow> ret ())"

section \<open>The app and its state\<close>

definition parse_app :: "parse_env \<Rightarrow> unit parse" where
  "parse_app env =
     bind_exec here (\<lambda>start.
     then_do bump (then_do consume_ws
     (bind_exec consume_string (\<lambda>i.
      then_do consume_ws
      (bind_exec
        (on (at_ident ''target'') (then_do bump (then_do consume_ws consume_string)) (ret None))
        (\<lambda>target.
         bind_exec (end_or start) (\<lambda>stop. case i of
           None \<Rightarrow> ret ()
         | Some i \<Rightarrow>
             bind_exec (gets (\<lambda>s. ast_app (ps_ast s) \<noteq> None)) (\<lambda>duplicate.
             then_do
               (if duplicate then report (diag_error ''E_DUPLICATE_APP'' (lit ''app declaration must be unique'')
                  \<lparr>span_start = start, span_end = stop\<rparr>) else ret ())
               (on_ast (\<lambda>ast. ast\<lparr>ast_app := Some \<lparr>aa_id = i, aa_name = titleize i, aa_target = target,
                 aa_span = \<lparr>span_start = start, span_end = stop\<rparr>\<rparr>\<rparr>))))))))))"

text \<open>The options of the state block; only \<open>store\<close> is read.\<close>

definition state_store_option :: "nat \<Rightarrow> ustr \<Rightarrow> ustr \<Rightarrow> ustr \<Rightarrow> ustr parse" where
  "state_store_option start store option v =
     (if is_named option ''store''
      then (if list_ex (is_named v) [''default'', ''internal'', ''removable''] then ret v
        else then_do (report_from start ''E_STATE_STORE'' ''unknown state store class'') (ret store))
      else ret store)"

definition state_option_step :: "nat \<Rightarrow> ustr \<Rightarrow> (ustr + ustr) parse" where
  "state_option_step start store =
     then_do consume_ws
     (on (at_kind T_CloseBrace) (then_do bump (ret (Inr store)))
       (bind_exec consume_ident (\<lambda>option. case option of
          None \<Rightarrow> on at_end (ret (Inr store)) (then_do bump (ret (Inl store)))
        | Some option \<Rightarrow>
            then_do consume_ws (then_do (skip T_Colon) (then_do consume_ws
            (bind_exec (string_or '''') (\<lambda>v.
             bind_exec (state_store_option start store option v) (\<lambda>store.
             then_do consume_ws (then_do consume_comma (ret (Inl store)))))))))))"

definition state_options :: "parse_env \<Rightarrow> nat \<Rightarrow> ustr parse" where
  "state_options env start =
     on (at_kind T_OpenParen)
       (then_do bump (then_do consume_ws
         (bind_exec
           (on (at_kind T_OpenBrace)
             (then_do bump (loop (pe_fuel env) (state_option_step start) (Str (lit ''default''))))
             (ret (Str (lit ''default''))))
           (\<lambda>store. then_do consume_ws (then_do (skip T_CloseParen) (ret store))))))
       (ret (Str (lit ''default'')))"

text \<open>What the loop over the fields keeps: the default of \<open>selected\<close>, the values, the names.\<close>

record state_fields =
  sf_selected :: i64
  sf_values :: "ir_state_value list"
  sf_names :: "ustr set"

definition STATE_TYPES :: "string list" where
  "STATE_TYPES = [''int'', ''bool'', ''string'', ''int?'', ''bool?'', ''string?'']"

text \<open>\<open>trim_end_matches('?')\<close> of the type, to which at most one question mark was added.\<close>

definition trim_marks :: "ustr \<Rightarrow> ustr" where
  "trim_marks s = Str (rev (dropWhile (\<lambda>b. b = 63) (rev (str_bytes s))))"

definition add_state_field ::
  "nat \<Rightarrow> state_fields \<Rightarrow> ustr \<Rightarrow> ustr \<Rightarrow> bool \<Rightarrow> json \<Rightarrow> state_fields parse" where
  "add_state_field start acc name value_type nullable v =
     (let base_type = trim_marks value_type in
      then_do
        (if state_default_matches base_type nullable v then ret ()
         else report_from start ''E_STATE_DEFAULT'' ''state default does not match declared type'')
      (then_do
        (if name \<in> sf_names acc
         then report_from start ''E_DUPLICATE_STATE_FIELD'' ''state field names must be unique'' else ret ())
        (ret \<lparr>sf_selected = (case (is_named name ''selected'', as_i64 v) of
              (True, Some n) \<Rightarrow> n | _ \<Rightarrow> sf_selected acc),
            sf_values = sf_values acc @ [\<lparr>sv_name = name, sv_value_type = base_type,
              sv_nullable = nullable, sv_value = v\<rparr>],
            sf_names = insert name (sf_names acc)\<rparr>)))"

text \<open>A field behind its name and colon.\<close>

definition state_field :: "nat \<Rightarrow> state_fields \<Rightarrow> ustr \<Rightarrow> state_fields parse" where
  "state_field start acc name =
     bind_exec consume_ident (\<lambda>value_type. case value_type of
       None \<Rightarrow> then_do (report_from start ''E_STATE_TYPE'' ''expected state slot type'') (ret acc)
     | Some value_type \<Rightarrow>
         then_do consume_ws
         (bind_exec question_mark (\<lambda>nullable.
          then_do (if nullable then consume_ws else ret ())
          (let value_type = (if nullable then Str (str_bytes value_type @ lit ''?'') else value_type) in
           then_do
             (if list_ex (is_named value_type) STATE_TYPES then ret ()
              else report_from start ''E_STATE_TYPE'' ''unsupported state slot type'')
           (then_do
             (on (at_kind T_Equals) bump
               (report_from start ''E_STATE_DEFAULT'' ''expected state slot default value''))
           (then_do consume_ws
           (bind_exec consume_literal_value (\<lambda>v. case v of
              None \<Rightarrow> ret acc
            | Some v \<Rightarrow> add_state_field start acc name value_type nullable v))))))))"

definition state_field_step :: "nat \<Rightarrow> state_fields \<Rightarrow> (state_fields + state_fields) parse" where
  "state_field_step start acc =
     then_do consume_ws
     (on (at_kind T_OpenBrace) (then_do bump (ret (Inl acc)))
     (on (at_kind T_CloseBrace) (then_do bump (ret (Inr acc)))
       (bind_exec consume_ident (\<lambda>name. case name of
          None \<Rightarrow> then_do bump (ret (Inl acc))
        | Some name \<Rightarrow>
            then_do consume_ws
            (on (at_kind T_Colon)
              (then_do bump (then_do consume_ws
                (bind_exec (state_field start acc name) (\<lambda>acc. ret (Inl acc)))))
              (ret (Inl acc)))))))"

definition parse_state :: "parse_env \<Rightarrow> unit parse" where
  "parse_state env =
     bind_exec here (\<lambda>start.
     then_do bump (then_do consume_ws
     (bind_exec (state_options env start) (\<lambda>store.
      bind_exec (while_tokens (pe_fuel env) (state_field_step start)
        \<lparr>sf_selected = 0, sf_values = [], sf_names = {}\<rparr>) (\<lambda>acc.
      bind_exec (end_or start) (\<lambda>stop.
      bind_exec (gets (\<lambda>s. ast_state (ps_ast s) \<noteq> None)) (\<lambda>duplicate.
      then_do
        (if duplicate then report (diag_error ''E_DUPLICATE_STATE_BLOCK'' (lit ''state block must be unique'')
           \<lparr>span_start = start, span_end = stop\<rparr>) else ret ())
        (on_ast (\<lambda>ast. ast\<lparr>ast_state := Some \<lparr>ab_selected_default = sf_selected acc, ab_store = store,
          ab_values = sf_values acc, ab_span = \<lparr>span_start = start, span_end = stop\<rparr>\<rparr>\<rparr>)))))))))"

section \<open>Device bindings\<close>

definition to_close_brace :: "unit \<Rightarrow> (unit + unit) parse" where
  "to_close_brace u =
     then_do consume_ws
     (on (at_kind T_CloseBrace) (then_do bump (ret (Inr ()))) (then_do bump (ret (Inl ()))))"

definition device_resource :: "ustr parse" where
  "device_resource =
     on (at_ident ''use'') (then_do bump (then_do consume_ws (string_or ''''))) (ret (Str []))"

definition device_step :: "parse_env \<Rightarrow> nat \<Rightarrow> unit \<Rightarrow> (unit + unit) parse" where
  "device_step env start u =
     then_do consume_ws
     (on (at_kind T_CloseBrace) (then_do bump (ret (Inr ())))
       (bind_exec consume_ident (\<lambda>service. case service of
          None \<Rightarrow> then_do bump (ret (Inl ()))
        | Some service \<Rightarrow>
            then_do consume_ws
            (bind_exec (string_or ''default'') (\<lambda>binding.
             then_do consume_ws (then_do (skip T_OpenBrace) (then_do consume_ws
             (bind_exec device_resource (\<lambda>resource.
              then_do (while_tokens (pe_fuel env) to_close_brace ())
              (then_do
                (if \<not> is_safe_device_binding_resource (str_bytes resource)
                 then report_from start ''E_DEVICE_PATH''
                   ''device binding must use a safe package-relative .sqdevice path, gpio:GPIO pin, or gpio-button binding''
                 else on_ast (\<lambda>ast. ast\<lparr>ast_device_bindings := ast_device_bindings ast @
                   [\<lparr>ib_service = service, ib_binding = binding, ib_resource = resource\<rparr>]\<rparr>))
                (ret (Inl ()))))))))))))"

definition parse_device :: "parse_env \<Rightarrow> unit parse" where
  "parse_device env =
     bind_exec here (\<lambda>start.
     then_do bump (then_do consume_ws (then_do (skip T_OpenBrace)
       (while_tokens (pe_fuel env) (device_step env start) ()))))"

section \<open>A source file\<close>

definition parse_unexpected_top_level :: "unit parse" where
  "parse_unexpected_top_level =
     bind_exec here (\<lambda>start.
     then_do bump
     (bind_exec (end_or start) (\<lambda>stop.
       report (diag_error ''E_UNEXPECTED_TOP_LEVEL'' (lit ''unexpected top-level declaration'')
         \<lparr>span_start = start, span_end = stop\<rparr>))))"

definition plain_declaration :: "unit parse \<Rightarrow> unit parse" where
  "plain_declaration m = then_do reject_pending_attribute m"

definition root_step :: "parse_env \<Rightarrow> unit \<Rightarrow> (unit + unit) parse" where
  "root_step env u =
     then_do consume_ws
     (then_do
       (on (at_kind T_At) parse_attribute
       (on (at_ident ''import'') (plain_declaration (parse_import env))
       (on (at_ident ''requires'') (plain_declaration (parse_required_state env))
       (on (at_ident ''export'') (plain_declaration (parse_exported_decl env))
       (on (at_qualified_ident ''app'' ''triggers'') (plain_declaration (parse_app_triggers env))
       (on (at_ident ''app'') (plain_declaration (parse_app env))
       (on (at_ident ''state'') (plain_declaration (parse_state env))
       (on (at_ident ''device'') (plain_declaration (parse_device env))
       (on (at_event_method ''on'')
          (bind_exec take_preload (\<lambda>p. parse_event_handler env (p \<noteq> None)))
       (on (at_ident ''function'') (plain_declaration (parse_function env False))
       (on (at_ident ''screen'') (plain_declaration (parse_screen env False))
       (on at_end (ret ()) (plain_declaration parse_unexpected_top_level)))))))))))))
       (ret (Inl ())))"

definition parse_root :: "parse_env \<Rightarrow> unit parse" where
  "parse_root env = while_tokens (pe_fuel env) (root_step env) ()"

definition initial_parser :: "lex_token list \<Rightarrow> parser" where
  "initial_parser tokens = \<lparr>ps_tokens = tokens, ps_cursor = 0, ps_ast = ast_default,
     ps_diagnostics = [], ps_preload = None\<rparr>"

definition parse_tokens :: "parse_env \<Rightarrow> lex_token list \<Rightarrow> (no_return, ast_root \<times> diagnostics) res" where
  "parse_tokens env tokens =
     (case parse_root env (initial_parser tokens) of
        (Inl e, _) \<Rightarrow> Inl e
      | (Inr _, s) \<Rightarrow> Inr (ps_ast s, ps_diagnostics s))"

text \<open>\<open>parse\<close>: the tree, the diagnostics.\<close>

definition parse_source :: "parse_env \<Rightarrow> ustr \<Rightarrow> (no_return, ast_root \<times> diagnostics) res" where
  "parse_source env source =
     (case lex source of Inl _ \<Rightarrow> Inl Panic | Inr tokens \<Rightarrow> parse_tokens env tokens)"

end
