(* ===== verification/Front_Parse_State.thy ===== *)
theory Front_Parse_State
  imports Front_Parser
begin

text \<open>
  What the parser says of the state block: without an error reported, the fields of the tree's
  state have distinct names and defaults of their types.  Two interpretations of one locale
  show it: that a reported error stays reported, and that the tree keeps what is claimed.
\<close>

named_theorems parse_keeps

lemma keeps_on: "keeps Q m \<Longrightarrow> keeps Q n \<Longrightarrow> keeps Q (on test m n)"
  unfolding on_def by (intro keeps_intros) simp_all

lemma keeps_then: "keeps Q m \<Longrightarrow> keeps Q n \<Longrightarrow> keeps Q (then_do m n)"
  unfolding then_do_def by (intro keeps_intros)

lemma keeps_and_some: "keeps Q m \<Longrightarrow> (\<And>v. keeps Q (f v)) \<Longrightarrow> keeps Q (and_some m f)"
  unfolding and_some_def by (intro keeps_intros)

lemma keeps_unwrap: "keeps Q m \<Longrightarrow> keeps Q (unwrap_or m d)"
  unfolding unwrap_or_def by (intro keeps_intros)

lemma keeps_case_sum: "(\<And>a. keeps Q (f a)) \<Longrightarrow> (\<And>b. keeps Q (g b)) \<Longrightarrow> keeps Q (case r of Inl a \<Rightarrow> f a | Inr b \<Rightarrow> g b)"
  by (simp split: sum.split)

lemma keeps_case_pair: "(\<And>a b. keeps Q (f a b)) \<Longrightarrow> keeps Q (case p of (a, b) \<Rightarrow> f a b)"
  by (simp split: prod.split)

lemma keeps_case_opt: "keeps Q m \<Longrightarrow> (\<And>v. keeps Q (f v)) \<Longrightarrow> keeps Q (case x of None \<Rightarrow> m | Some v \<Rightarrow> f v)"
  by (simp split: option.split)

lemma keeps_cond: "keeps Q m \<Longrightarrow> keeps Q n \<Longrightarrow> keeps Q (if b then m else n)"
  by simp

lemma keeps_let: "(\<And>x. keeps Q (f x)) \<Longrightarrow> keeps Q (let x = e in f x)"
  by simp

lemma keeps_loop: "(\<And>a. keeps Q (body a)) \<Longrightarrow> keeps Q (loop n body a)"
  by (induction n arbitrary: a) (auto intro!: keeps_intros keeps_case_sum)

lemma keeps_while: "(\<And>a. keeps Q (body a)) \<Longrightarrow> keeps Q (while_tokens n body a)"
  unfolding while_tokens_def by (intro keeps_loop keeps_on keeps_intros)

lemmas keeps_structure = keeps_bind keeps_basic keeps_on keeps_then keeps_and_some keeps_unwrap keeps_case_sum
  keeps_case_pair keeps_case_opt keeps_cond keeps_let keeps_loop keeps_while

section \<open>Predicates on what is parsed so far\<close>

locale parser_invariant =
  fixes Q :: "parser \<Rightarrow> bool"
  assumes at_cursor: "\<And>s c. Q s \<Longrightarrow> Q (s\<lparr>ps_cursor := c\<rparr>)"
    and reporting: "\<And>s d. Q s \<Longrightarrow> Q (s\<lparr>ps_diagnostics := ps_diagnostics s @ [d]\<rparr>)"
begin

lemma keeps_bump [parse_keeps]: "keeps Q bump"
  unfolding bump_def by (rule keeps_modify) (simp add: at_cursor)

lemma keeps_ws [parse_keeps]: "keeps Q consume_ws"
  unfolding consume_ws_def by (rule keeps_modify) (rule at_cursor)

lemma keeps_report [parse_keeps]: "keeps Q (report d)"
  unfolding report_def by (rule keeps_modify) (rule reporting)

lemmas basics = keeps_structure keeps_bump keeps_ws keeps_report

lemma keeps_tokens [parse_keeps]:
  "keeps Q (skip k)" "keeps Q (skip_ident i)" "keeps Q consume_comma" "keeps Q (consume_kind k)"
  "keeps Q (consume_call_tail env)" "keeps Q here" "keeps Q (end_or n)"
  unfolding skip_def skip_ident_def consume_comma_def consume_kind_def consume_call_tail_def call_tail_step_def
    here_def end_or_def
  by (intro basics)+

lemma keeps_consumes [parse_keeps]:
  "keeps Q consume_ident" "keeps Q consume_string" "keeps Q consume_number" "keeps Q consume_name"
  "keeps Q (string_or d)" "keeps Q consume_symbolic_screen_ref" "keeps Q (report_from n c m)"
  unfolding consume_ident_def consume_string_def consume_number_def consume_name_def string_or_def
    consume_symbolic_screen_ref_def report_from_def
  by (intro basics keeps_tokens)+

lemmas tokens = basics keeps_tokens keeps_consumes

lemma keeps_options: "keeps Q expr \<Longrightarrow> keeps Q (parse_options_object env expr)"
  unfolding parse_options_object_def options_step_def by (intro tokens)

lemma keeps_static_object: "keeps Q val \<Longrightarrow> keeps Q (parse_static_object_after_open env val)"
  unfolding parse_static_object_after_open_def static_object_step_def by (intro tokens)

lemma keeps_static_array: "keeps Q val \<Longrightarrow> keeps Q (parse_static_array_after_open env val)"
  unfolding parse_static_array_after_open_def static_array_step_def by (intro tokens)

lemma keeps_static_value: "keeps Q (parse_static_value depth env)"
  by (induction depth; unfold parse_static_value.simps; (intro tokens keeps_static_object keeps_static_array | assumption)+)

lemma keeps_static_options: "keeps Q (parse_static_options_object env)"
  unfolding parse_static_options_object_def by (intro tokens keeps_static_object keeps_static_value)

lemma keeps_literal: "keeps Q consume_literal_value"
  unfolding consume_literal_value_def by (intro tokens)

lemma keeps_call_args_open: "keeps Q expr \<Longrightarrow> keeps Q (parse_call_args_after_open env expr)"
  unfolding parse_call_args_after_open_def call_args_step_def call_arg_def by (intro tokens keeps_options)

lemma keeps_call_args: "keeps Q expr \<Longrightarrow> keeps Q (parse_call_args env expr)"
  unfolding parse_call_args_def by (intro tokens keeps_call_args_open)

lemma keeps_dotted_expr: "keeps Q expr \<Longrightarrow> keeps Q (dotted_expr env expr name namespace)"
  unfolding dotted_expr_def gpio_expr_def indicator_expr_def action_call_def color_literal_def state_expr_def
    plain_dotted_def prefixed_call_def consume_action_def
  by (intro tokens keeps_call_args)

lemma keeps_primary: "keeps Q expr \<Longrightarrow> keeps Q (parse_primary_expr env expr)"
  unfolding parse_primary_expr_def paren_expr_def ident_expr_def by (intro tokens keeps_call_args keeps_dotted_expr)

lemma keeps_postfix: "keeps Q expr \<Longrightarrow> keeps Q (parse_postfix_expr env expr)"
  unfolding parse_postfix_expr_def postfix_step_def by (intro tokens keeps_primary)

lemma keeps_unary: "keeps Q expr \<Longrightarrow> keeps Q (parse_unary_expr depth env expr)"
  by (induction depth; unfold parse_unary_expr.simps; (intro tokens keeps_postfix | assumption)+)

lemma keeps_binary: "keeps Q operand \<Longrightarrow> keeps Q (binary_step test operand e)"
  unfolding binary_step_def consume_binary_operator_def by (intro tokens)

lemma keeps_expr_upto: "keeps Q (parse_expr_upto depth env)"
  by (induction depth; unfold parse_expr_upto.simps parse_comparison_expr_def parse_additive_expr_def;
      (intro tokens keeps_binary keeps_unary | assumption)+)

lemma keeps_expr: "keeps Q (parse_expr env)" "keeps Q (expr_or env d)"
  unfolding parse_expr_def expr_or_def by (intro tokens keeps_expr_upto)+

lemmas exprs = tokens keeps_expr keeps_options keeps_static_options keeps_call_args keeps_call_args_open keeps_literal

lemma keeps_finish: "keeps Q (finish_call env r)"
  unfolding finish_call_def by (intro exprs)

lemma keeps_display: "keeps Q (parse_display_statement env action)"
  unfolding parse_display_statement_def display_statement_def with_options_def coordinate_def line_coordinate_def
  by (intro exprs keeps_finish)

lemma keeps_profile_start: "keeps Q (profile_start env f)"
  unfolding profile_start_def by (intro exprs keeps_finish)

lemma keeps_service: "keeps Q (service_statement env method)"
  unfolding service_statement_def ble_statement_def http_statement_def power_statement_def timer_or_indicator_def
    timer_statement_def
  by (intro exprs keeps_finish keeps_display keeps_profile_start)

lemma keeps_gpio: "keeps Q (gpio_statement env)"
  unfolding gpio_statement_def by (intro exprs keeps_finish)

lemma keeps_method: "keeps Q (method_statement env first method)"
  unfolding method_statement_def state_service_def screen_reference_text_def app_statement_def
    install_statement_def other_call_def
  by (intro exprs keeps_finish)

lemma keeps_dotted_statement: "keeps Q (dotted_statement env first)"
  unfolding dotted_statement_def by (intro exprs keeps_gpio keeps_display keeps_service keeps_method)

lemma keeps_statement: "keeps Q block \<Longrightarrow> keeps Q (parse_statement env block)"
  unfolding parse_statement_def state_assign_statement_def ident_statement_def let_statement_def
    parse_if_statement_def parse_repeat_statement_def parse_for_statement_def return_statement_def
  by (intro exprs keeps_dotted_statement)

lemma keeps_statements_upto: "keeps Q (parse_statements_upto depth env)"
  by (induction depth; unfold parse_statements_upto.simps statements_step_def; (intro exprs keeps_statement | assumption)+)

lemma keeps_statements: "keeps Q (parse_statements_until_close env)"
  unfolding parse_statements_until_close_def by (rule keeps_statements_upto)

lemma keeps_block: "keeps Q (braced_block env start)"
  unfolding braced_block_def by (intro exprs keeps_statements)

lemma keeps_state_options: "keeps Q (state_options env start)"
  unfolding state_options_def state_option_step_def state_store_option_def by (intro exprs)

lemma keeps_add_field: "keeps Q (add_state_field start acc name ty nullable v)"
  unfolding add_state_field_def by (intro exprs)

lemma keeps_field_step: "keeps Q (state_field_step start acc)"
  unfolding state_field_step_def state_field_def question_mark_def by (intro exprs keeps_add_field)

end


locale declaration_invariant = parser_invariant +
  assumes on_tree: "\<And>s f. Q s \<Longrightarrow> (\<And>ast. ast_state (f ast) = ast_state ast) \<Longrightarrow> Q (s\<lparr>ps_ast := f (ps_ast s)\<rparr>)"
    and on_preload: "\<And>s p. Q s \<Longrightarrow> Q (s\<lparr>ps_preload := p\<rparr>)"
begin

lemma keeps_on_ast: "(\<And>ast. ast_state (f ast) = ast_state ast) \<Longrightarrow> keeps Q (on_ast f)"
  unfolding on_ast_def by (rule keeps_modify) (rule on_tree)

lemma keeps_preload: "keeps Q (modify (\<lambda>s. s\<lparr>ps_preload := p\<rparr>))"
  by (rule keeps_modify) (rule on_preload)

lemma keeps_attributes: "keeps Q take_preload" "keeps Q parse_attribute" "keeps Q reject_pending_attribute"
  unfolding reject_pending_attribute_def take_preload_def parse_attribute_def by (intro exprs keeps_preload)+

lemma keeps_bodies:
  "keeps Q (parse_screen env exported)" "keeps Q (parse_event_handler env preload)"
  "keeps Q (parse_app_triggers env)" "keeps Q (parse_function env exported)"
  unfolding parse_screen_def screen_attribute_step_def parse_event_handler_def handler_param_def
    parse_app_triggers_def parse_function_def parse_param_list_def param_step_def
  by ((intro exprs keeps_block keeps_on_ast)+; simp)+

lemma keeps_plain_declarations:
  "keeps Q (parse_import env)" "keeps Q (parse_exported_decl env)" "keeps Q (parse_required_state env)"
  "keeps Q (parse_app env)" "keeps Q (parse_device env)" "keeps Q parse_unexpected_top_level"
  unfolding parse_import_def parse_exported_decl_def parse_required_state_def required_state_step_def
    question_mark_def parse_app_def parse_device_def device_step_def device_resource_def to_close_brace_def
    parse_unexpected_top_level_def
  by ((intro exprs keeps_bodies keeps_on_ast)+; simp)+

lemmas declarations = keeps_attributes keeps_bodies keeps_plain_declarations

end

section \<open>Errors stay, and the state is as claimed\<close>

interpretation errors: declaration_invariant "\<lambda>s. \<not> no_errors (ps_diagnostics s)"
  by unfold_locales simp_all

text \<open>The claim on the fields of a state block, and on the tree.\<close>

definition fields_ok :: "ir_state_value list \<Rightarrow> bool" where
  "fields_ok vs \<longleftrightarrow> distinct (map sv_name vs) \<and>
     list_all (\<lambda>v. state_default_matches (sv_value_type v) (sv_nullable v) (sv_value v)) vs"

definition state_known :: "parser \<Rightarrow> bool" where
  "state_known s \<longleftrightarrow> (no_errors (ps_diagnostics s) \<longrightarrow>
     (\<forall>b. ast_state (ps_ast s) = Some b \<longrightarrow> fields_ok (ab_values b)))"

definition collected :: "state_fields \<Rightarrow> parser \<Rightarrow> bool" where
  "collected acc s \<longleftrightarrow> (no_errors (ps_diagnostics s) \<longrightarrow>
     fields_ok (sf_values acc) \<and> sf_names acc = sv_name ` set (sf_values acc))"

interpretation known: declaration_invariant state_known
  by unfold_locales (simp_all add: state_known_def)

interpretation collecting: parser_invariant "collected acc" for acc
  by unfold_locales (simp_all add: collected_def)

text \<open>What a result satisfies; a method that does not return has none.\<close>

definition yields :: "(parser \<Rightarrow> bool) \<Rightarrow> 'a parse \<Rightarrow> ('a \<Rightarrow> parser \<Rightarrow> bool) \<Rightarrow> bool" where
  "yields P m R \<longleftrightarrow> (\<forall>s v t. P s \<longrightarrow> m s = (Inr v, t) \<longrightarrow> R v t)"

lemma yields_keeps: "keeps P m \<Longrightarrow> yields P m (\<lambda>_. P)"
  by (fastforce simp: yields_def keeps_def dest: spec)

lemma yields_bind: "yields P m R' \<Longrightarrow> (\<And>v. yields (R' v) (f v) R) \<Longrightarrow> yields P (bind_exec m f) R"
  unfolding yields_def by (blast dest!: bind_exec_InrD)

lemma yields_pre: "yields P m R \<Longrightarrow> (\<And>s. P' s \<Longrightarrow> P s) \<Longrightarrow> yields P' m R"
  unfolding yields_def by blast

lemma yields_then: "yields P m (\<lambda>_. P) \<Longrightarrow> yields P n R \<Longrightarrow> yields P (then_do m n) R"
  unfolding then_do_def by (rule yields_bind)

lemma yields_on: "yields P m R \<Longrightarrow> yields P n R \<Longrightarrow> yields P (on test m n) R"
  unfolding on_def by (rule yields_bind [of _ _ "\<lambda>_. P"]) (auto simp: yields_def)

lemma yields_ret: "(\<And>s. P s \<Longrightarrow> R v s) \<Longrightarrow> yields P (ret v) R"
  by (simp add: yields_def)

lemma yields_bind_keep: "keeps P m \<Longrightarrow> (\<And>v. yields P (f v) R) \<Longrightarrow> yields P (bind_exec m f) R"
  by (rule yields_bind [OF yields_keeps])

lemma yields_then_keep: "keeps P m \<Longrightarrow> yields P n R \<Longrightarrow> yields P (then_do m n) R"
  by (rule yields_then [OF yields_keeps])

lemma yields_opt: "yields P m R \<Longrightarrow> (\<And>v. yields P (f v) R) \<Longrightarrow> yields P (case x of None \<Rightarrow> m | Some v \<Rightarrow> f v) R"
  by (simp split: option.split)

lemma yields_loop:
  assumes "\<And>a. yields (J a) (body a) (\<lambda>r t. case r of Inl b \<Rightarrow> J b t | Inr b \<Rightarrow> R b t)"
  shows "yields (J a) (loop n body a) R"
proof (induction n arbitrary: a)
  case 0
  show ?case by (simp add: yields_def)
next
  case (Suc n)
  show ?case
    unfolding loop.simps
  proof (rule yields_bind [OF assms])
    fix r
    show "yields (\<lambda>t. case r of Inl b \<Rightarrow> J b t | Inr b \<Rightarrow> R b t)
        (case r of Inl a' \<Rightarrow> loop n body a' | Inr b \<Rightarrow> ret b) R"
      using Suc.IH by (cases r) (simp_all add: yields_ret)
  qed
qed

lemma yields_while:
  assumes "\<And>a. yields (J a) (body a) (\<lambda>r t. case r of Inl b \<Rightarrow> J b t | Inr b \<Rightarrow> J b t)"
  shows "yields (J a) (while_tokens n body a) J"
  unfolding while_tokens_def
  by (rule yields_loop, rule yields_on) (rule yields_ret, simp, rule assms)

text \<open>The fields are collected as claimed.\<close>

lemma yields_report_if:
  "yields (collected acc) (if b then ret () else report_from n c m)
     (\<lambda>_ t. collected acc t \<and> (no_errors (ps_diagnostics t) \<longrightarrow> b))"
  by (auto simp: yields_def collected_def report_from_def report_def end_or_def)

lemma yields_add_field:
  "yields (collected acc) (add_state_field start acc name ty nullable v) (\<lambda>acc'. collected acc')"
proof -
  let ?base = "trim_marks ty"
  let ?P = "\<lambda>t. collected acc t \<and> (no_errors (ps_diagnostics t) \<longrightarrow> state_default_matches ?base nullable v)"
  have "yields ?P (if name \<in> sf_names acc then report_from start ''E_DUPLICATE_STATE_FIELD'' m else ret ())
      (\<lambda>_ t. ?P t \<and> (no_errors (ps_diagnostics t) \<longrightarrow> name \<notin> sf_names acc))" for m
    by (auto simp: yields_def collected_def report_from_def report_def end_or_def)
  note duplicate = this
  show ?thesis
    unfolding add_state_field_def Let_def then_do_def
    by (rule yields_bind [OF yields_report_if], rule yields_bind [OF duplicate], rule yields_ret)
      (auto simp: collected_def fields_ok_def)
qed

lemma yields_field:
  "yields (collected acc) (state_field start acc name) (\<lambda>acc'. collected acc')"
proof -
  have report: "keeps (collected acc) (if b then ret () else report_from n c m)" for b n c m
    by (intro collecting.tokens)
  have equals: "keeps (collected acc) (on (at_kind T_Equals) bump (report_from n c m))" for n c m
    by (intro collecting.tokens)
  have mark: "keeps (collected acc) question_mark"
    unfolding question_mark_def by (intro collecting.tokens)
  have ws: "keeps (collected acc) (if b then consume_ws else ret ())" for b
    by (intro collecting.tokens)
  have same: "yields (collected acc) (ret acc) (\<lambda>acc'. collected acc')"
    by (rule yields_ret)
  show ?thesis
    unfolding state_field_def Let_def
    by (rule yields_bind_keep, rule collecting.keeps_consumes, rule yields_opt,
        rule yields_then_keep, rule collecting.keeps_consumes, rule same,
        rule yields_then_keep, rule collecting.keeps_ws, rule yields_bind_keep, rule mark,
        rule yields_then_keep, rule ws, rule yields_then_keep, rule report,
        rule yields_then_keep, rule equals, rule yields_then_keep, rule collecting.keeps_ws,
        rule yields_bind_keep, rule collecting.keeps_literal, rule yields_opt, rule same, rule yields_add_field)
qed

lemma yields_field_step:
  "yields (collected acc) (state_field_step start acc) (\<lambda>r t. case r of Inl b \<Rightarrow> collected b t | Inr b \<Rightarrow> collected b t)"
    (is "yields ?P _ ?R")
proof -
  have field: "yields ?P (bind_exec (state_field start acc name) (\<lambda>acc. ret (Inl acc))) ?R" for name
    by (rule yields_bind [OF yields_field], rule yields_ret) simp
  have same: "yields ?P (ret (Inl acc)) ?R" "yields ?P (ret (Inr acc)) ?R"
    by (rule yields_ret, simp)+
  have bumped: "yields ?P (then_do bump m) ?R" if "yields ?P m ?R" for m
    using collecting.keeps_bump that by (rule yields_then_keep)
  have spaced: "yields ?P (then_do consume_ws m) ?R" if "yields ?P m ?R" for m
    using collecting.keeps_ws that by (rule yields_then_keep)
  show ?thesis
    unfolding state_field_step_def
    by (rule spaced, rule yields_on, rule bumped, rule same, rule yields_on, rule bumped, rule same,
        rule yields_bind_keep, rule collecting.keeps_consumes, rule yields_opt, rule bumped, rule same,
        rule spaced, rule yields_on, rule bumped, rule spaced, rule field, rule same)
qed

lemma yields_state: "yields state_known (parse_state env) (\<lambda>_. state_known)"
proof -
  let ?J = "\<lambda>acc s. state_known s \<and> collected acc s"
  have step: "yields (?J acc) (state_field_step start acc) (\<lambda>r t. case r of Inl b \<Rightarrow> ?J b t | Inr b \<Rightarrow> ?J b t)" for start acc
    unfolding yields_def
  proof (intro allI impI)
    fix s r t assume s: "?J acc s" and r: "state_field_step start acc s = (Inr r, t)"
    from yields_field_step s r have "case r of Inl b \<Rightarrow> collected b t | Inr b \<Rightarrow> collected b t"
      unfolding yields_def by blast
    moreover from yields_keeps [OF known.keeps_field_step] s r have "state_known t"
      unfolding yields_def by blast
    ultimately show "case r of Inl b \<Rightarrow> ?J b t | Inr b \<Rightarrow> ?J b t" by (cases r) simp_all
  qed
  have start: "collected \<lparr>sf_selected = 0, sf_values = [], sf_names = {}\<rparr> s" for s
    by (simp add: collected_def fields_ok_def)
  have loop: "yields state_known (while_tokens n (state_field_step from) \<lparr>sf_selected = 0, sf_values = [], sf_names = {}\<rparr>) ?J"
    for n "from"
    by (rule yields_pre [OF yields_while [where J = ?J, OF step]]) (simp add: start)
  have finish: "yields (?J acc) (then_do (if d then report e else ret ()) (on_ast (\<lambda>ast. ast\<lparr>ast_state := Some
      \<lparr>ab_selected_default = x, ab_store = y, ab_values = sf_values acc, ab_span = z\<rparr>\<rparr>))) (\<lambda>_. state_known)"
    for d e acc x y z
    by (auto simp: yields_def then_do_def on_ast_def report_def collected_def state_known_def)
  have look: "yields (?J acc) (gets f) (\<lambda>_. ?J acc)" for acc and f :: "parser \<Rightarrow> 'b"
    by (simp add: yields_def)
  show ?thesis
    unfolding parse_state_def end_or_def
    by (rule yields_bind_keep, rule known.keeps_tokens, rule yields_then_keep, rule known.keeps_bump,
        rule yields_then_keep, rule known.keeps_ws, rule yields_bind_keep, rule known.keeps_state_options,
        rule yields_bind [OF loop], rule yields_bind [OF look], rule yields_bind [OF look], rule finish)
qed


lemma yields_root_step: "yields state_known (root_step env u) (\<lambda>_. state_known)"
proof -
  have plain: "yields state_known m (\<lambda>_. state_known)" if "keeps state_known m" for m :: "'b parse"
    using that by (rule yields_keeps)
  have item: "yields state_known (plain_declaration m) (\<lambda>_. state_known)"
    if "yields state_known m (\<lambda>_. state_known)" for m
    unfolding plain_declaration_def using known.keeps_attributes(3) that by (rule yields_then_keep)
  have handler: "keeps state_known (bind_exec take_preload (\<lambda>p. parse_event_handler env (p \<noteq> None)))"
    by (intro keeps_bind known.declarations)
  show ?thesis
    unfolding root_step_def
    by (rule yields_then, rule plain, rule known.keeps_ws, rule yields_then)
      (((rule yields_on) | (rule item) | (rule yields_state) | (rule plain, rule known.declarations handler keeps_basic))+)
qed

lemma yields_root: "yields state_known (parse_root env) (\<lambda>_. state_known)"
  unfolding parse_root_def
proof (rule yields_while)
  fix u
  show "yields state_known (root_step env u) (\<lambda>r t. case r of Inl b \<Rightarrow> state_known t | Inr b \<Rightarrow> state_known t)"
    using yields_root_step [of env u] by (auto simp: yields_def split: sum.splits)
qed

lemma parsed_state_ok:
  assumes "parse_source env source = Inr (ast, ds)" "no_errors ds" "ast_state ast = Some b"
  shows "fields_ok (ab_values b)"
proof -
  from assms(1) obtain tokens s where "parse_root env (initial_parser tokens) = (Inr (), s)"
    "ast = ps_ast s" "ds = ps_diagnostics s"
    by (auto simp: parse_source_def parse_tokens_def split: sum.splits prod.splits)
  moreover have "state_known (initial_parser tokens)"
    by (simp add: state_known_def initial_parser_def ast_default_def)
  ultimately have "state_known s" using yields_root unfolding yields_def by blast
  with assms(2,3) \<open>ast = ps_ast s\<close> \<open>ds = ps_diagnostics s\<close> show ?thesis by (simp add: state_known_def)
qed

end
