(* ===== verification/Front_Parse_Ends.thy ===== *)
theory Front_Parse_Ends
  imports Front_Parser
begin

text \<open>
  When parsing returns.  Every loop but two consumes a token in each turn that does not end it;
  the loop over a parameter list and the one over the elements of a static array do not move
  past a token they do not know.  Without such a token the parser returns, with any bound above
  the number of tokens; with one it does not, whatever the bound.
\<close>

section \<open>Running a method to its result\<close>

definition wp :: "'a parse \<Rightarrow> ('a \<Rightarrow> parser \<Rightarrow> bool) \<Rightarrow> parser \<Rightarrow> bool" where
  "wp m Q s = (case m s of (Inr v, t) \<Rightarrow> Q v t | _ \<Rightarrow> False)"

lemma wp_mono: "wp m R s \<Longrightarrow> (\<And>v t. R v t \<Longrightarrow> Q v t) \<Longrightarrow> wp m Q s"
  by (auto simp: wp_def split: prod.splits sum.splits)

lemma wp_bind: "wp m (\<lambda>v. wp (f v) Q) s \<Longrightarrow> wp (bind_exec m f) Q s"
  by (auto simp: wp_def bind_exec_def split: prod.splits sum.splits)

lemma wp_ret: "Q v s \<Longrightarrow> wp (ret v) Q s"
  by (simp add: wp_def)

lemma wp_gets: "Q (f s) s \<Longrightarrow> wp (gets f) Q s"
  by (simp add: wp_def)

lemma wp_modify: "Q () (f s) \<Longrightarrow> wp (modify f) Q s"
  by (simp add: wp_def)

lemma wp_then: "wp m (\<lambda>_. wp n Q) s \<Longrightarrow> wp (then_do m n) Q s"
  unfolding then_do_def by (rule wp_bind)

lemma wp_on: "(test s \<Longrightarrow> wp m Q s) \<Longrightarrow> (\<not> test s \<Longrightarrow> wp n Q s) \<Longrightarrow> wp (on test m n) Q s"
  by (simp add: wp_def on_def)

lemma wp_opt:
  "(x = None \<Longrightarrow> wp m Q s) \<Longrightarrow> (\<And>v. x = Some v \<Longrightarrow> wp (f v) Q s) \<Longrightarrow>
     wp (case x of None \<Rightarrow> m | Some v \<Rightarrow> f v) Q s"
  by (simp split: option.split)

lemma wp_if: "wp m Q s \<Longrightarrow> wp n Q s \<Longrightarrow> wp (if b then m else n) Q s"
  by simp

lemma wp_prod: "(\<And>a b. x = (a, b) \<Longrightarrow> wp (f a b) Q s) \<Longrightarrow> wp (case x of (a, b) \<Rightarrow> f a b) Q s"
  by (cases x) simp

lemma wp_let: "wp (f e) Q s \<Longrightarrow> wp (let x = e in f x) Q s"
  by simp

lemma wp_and_some:
  "wp m (\<lambda>r t. (r = None \<longrightarrow> Q None t) \<and> (\<forall>v. r = Some v \<longrightarrow> wp (f v) Q t)) s \<Longrightarrow> wp (and_some m f) Q s"
  unfolding and_some_def by (rule wp_bind, erule wp_mono) (auto intro: wp_ret split: option.split)

lemma wp_unwrap: "wp m (\<lambda>r. Q (case r of None \<Rightarrow> d | Some v \<Rightarrow> v)) s \<Longrightarrow> wp (unwrap_or m d) Q s"
  unfolding unwrap_or_def by (rule wp_bind, erule wp_mono) (rule wp_ret)

lemmas wp_structure = wp_bind wp_ret wp_gets wp_modify wp_then wp_on wp_opt wp_if wp_prod wp_let wp_unwrap

section \<open>Progress\<close>

text \<open>The tokens left, and a later state of the same run.\<close>

definition left :: "parser \<Rightarrow> nat" where
  "left s = length (ps_tokens s) - ps_cursor s"

definition later :: "parser \<Rightarrow> parser \<Rightarrow> bool" where
  "later s t \<longleftrightarrow> ps_tokens t = ps_tokens s \<and> left t \<le> left s"

lemma parser_later_refl [simp]: "later s s"
  by (simp add: later_def)

lemma parser_later_trans: "later s t \<Longrightarrow> later t u \<Longrightarrow> later s u"
  by (simp add: later_def)

lemma at_kind_left: "at_kind k s \<Longrightarrow> 0 < left s"
  by (auto simp: at_kind_def peek_def get_at_def left_def split: if_splits)

lemma at_ident_left: "at_ident i s \<Longrightarrow> 0 < left s"
  by (auto simp: at_ident_def peek_def get_at_def left_def split: if_splits)

lemma at_end_left: "at_end s \<longleftrightarrow> left s = 0"
  by (auto simp: at_end_def left_def)

text \<open>
  Tokens on which the loops end.  From an opening bracket to the next closing one there are only
  strings, numbers, names, white space and commas.
\<close>

definition only_to :: "token_kind \<Rightarrow> token_kind list \<Rightarrow> lex_token list \<Rightarrow> bool" where
  "only_to kind kinds ts = list_all (\<lambda>t. lt_kind t \<in> set kinds) (takeWhile (\<lambda>t. lt_kind t \<noteq> kind) ts)"

definition elements_plain :: "lex_token list \<Rightarrow> bool" where
  "elements_plain = only_to T_CloseBracket [T_String, T_Number, T_Ident, T_Whitespace, T_Comma]"

primrec arrays_plain :: "lex_token list \<Rightarrow> bool" where
  "arrays_plain [] = True"
| "arrays_plain (t # ts) = ((if lt_kind t = T_OpenBracket then elements_plain ts else True) \<and> arrays_plain ts)"

text \<open>The parameters behind a function's name are names, white space and commas.\<close>

definition names_plain :: "lex_token list \<Rightarrow> bool" where
  "names_plain = only_to T_CloseParen [T_Ident, T_Whitespace, T_Comma]"

definition params_at :: "lex_token list \<Rightarrow> bool" where
  "params_at ts =
     (case dropWhile (\<lambda>t. lt_kind t = T_Ident \<or> lt_kind t = T_Whitespace) ts of
        [] \<Rightarrow> True | t # us \<Rightarrow> if lt_kind t = T_OpenParen then names_plain us else True)"

primrec params_plain :: "lex_token list \<Rightarrow> bool" where
  "params_plain [] = True"
| "params_plain (t # ts) =
     ((if lt_kind t = T_Ident \<and> str_bytes (lt_text t) = lit ''function'' then params_at ts else True) \<and>
      params_plain ts)"

definition rest :: "parser \<Rightarrow> lex_token list" where
  "rest s = drop (ps_cursor s) (ps_tokens s)"

lemma arrays_plain_drop: "arrays_plain ts \<Longrightarrow> drop n ts = t # us \<Longrightarrow> lt_kind t = T_OpenBracket \<Longrightarrow> elements_plain us"
  by (induction ts arbitrary: n) (auto simp: drop_Cons split: nat.splits if_splits)

lemma params_plain_drop:
  "params_plain ts \<Longrightarrow> drop n ts = t # us \<Longrightarrow> lt_kind t = T_Ident \<Longrightarrow> str_bytes (lt_text t) = lit ''function'' \<Longrightarrow>
     params_at us"
  by (induction ts arbitrary: n) (auto simp: drop_Cons split: nat.splits if_splits)

lemma only_to_Cons: "only_to kind kinds (t # ts) \<longleftrightarrow> lt_kind t = kind \<or> lt_kind t \<in> set kinds \<and> only_to kind kinds ts"
  by (simp add: only_to_def)

lemma only_to_white: "only_to kind kinds ts \<Longrightarrow> kind \<noteq> T_Whitespace \<Longrightarrow> only_to kind kinds (dropWhile is_white ts)"
  by (induction ts) (auto simp: only_to_Cons is_white_def)

lemma peek_rest: "peek s = (case rest s of [] \<Rightarrow> None | t # _ \<Rightarrow> Some t)"
  by (auto simp: peek_def get_at_def rest_def split: list.splits)
     (metis Cons_nth_drop_Suc list.inject)

lemma left_rest: "left s = length (rest s)"
  by (simp add: left_def rest_def)

definition moves :: "nat \<Rightarrow> 'a parse \<Rightarrow> bool" where
  "moves k m \<longleftrightarrow> (\<forall>s. left s < k \<longrightarrow> arrays_plain (ps_tokens s) \<longrightarrow> wp m (\<lambda>_. later s) s)"

text \<open>As before, and a result that is there has consumed a token.\<close>

definition gains :: "nat \<Rightarrow> 'a option parse \<Rightarrow> bool" where
  "gains k m \<longleftrightarrow> (\<forall>s. left s < k \<longrightarrow> arrays_plain (ps_tokens s) \<longrightarrow>
     wp m (\<lambda>v t. later s t \<and> (v \<noteq> None \<longrightarrow> left t < left s)) s)"

lemma use_moves:
  assumes "moves k m" "left s < k" "arrays_plain (ps_tokens s)" "\<And>v t. later s t \<Longrightarrow> Q v t"
  shows "wp m Q s"
proof -
  have "wp m (\<lambda>_. later s) s" using assms(1-3) by (simp add: moves_def)
  then show ?thesis by (rule wp_mono) (rule assms(4))
qed

lemma use_gains:
  assumes "gains k m" "left s < k" "arrays_plain (ps_tokens s)"
    "\<And>v t. later s t \<Longrightarrow> v = None \<or> left t < left s \<Longrightarrow> Q v t"
  shows "wp m Q s"
proof -
  have "wp m (\<lambda>v t. later s t \<and> (v \<noteq> None \<longrightarrow> left t < left s)) s" using assms(1-3) by (simp add: gains_def)
  then show ?thesis by (rule wp_mono) (rule assms(4), auto)
qed

lemma gains_moves: "gains k m \<Longrightarrow> moves k m"
  unfolding moves_def by (intro allI impI) (rule use_gains)

lemma moves_less: "moves k m \<Longrightarrow> j \<le> k \<Longrightarrow> moves j m" "gains k n \<Longrightarrow> j \<le> k \<Longrightarrow> gains j n"
  by (simp_all add: moves_def gains_def)

section \<open>Tokens\<close>

lemma after_bump: "rest (if at_end s then s else s\<lparr>ps_cursor := ps_cursor s + 1\<rparr>) = tl (rest s)"
  by (simp add: at_end_def rest_def drop_Suc tl_drop)

lemma wp_bump:
  assumes "\<And>t. ps_tokens t = ps_tokens s \<Longrightarrow> rest t = tl (rest s) \<Longrightarrow> left t \<le> left s \<Longrightarrow> left s = 0 \<or> left t < left s \<Longrightarrow> Q () t"
  shows "wp bump Q s"
  unfolding bump_def
proof (rule wp_modify, rule assms)
  show "ps_tokens (if at_end s then s else s\<lparr>ps_cursor := ps_cursor s + 1\<rparr>) = ps_tokens s" by simp
  show "left (if at_end s then s else s\<lparr>ps_cursor := ps_cursor s + 1\<rparr>) \<le> left s"
    "left s = 0 \<or> left (if at_end s then s else s\<lparr>ps_cursor := ps_cursor s + 1\<rparr>) < left s"
    unfolding left_rest after_bump by (cases "rest s"; simp)+
qed (rule after_bump)

lemma white_rest: "rest (s\<lparr>ps_cursor := ps_cursor s + white_run s\<rparr>) = dropWhile is_white (rest s)"
  by (simp add: rest_def white_run_def dropWhile_eq_drop add.commute)

lemma wp_ws:
  assumes "\<And>t. later s t \<Longrightarrow> rest t = dropWhile is_white (rest s) \<Longrightarrow> Q () t"
  shows "wp consume_ws Q s"
  unfolding consume_ws_def
proof (rule wp_modify, rule assms)
  show "later s (s\<lparr>ps_cursor := ps_cursor s + white_run s\<rparr>)"
    unfolding later_def left_rest white_rest by (simp add: length_dropWhile_le)
qed (rule white_rest)

lemma wp_skip: "(\<And>t. later s t \<Longrightarrow> Q () t) \<Longrightarrow> wp (skip kind) Q s"
  unfolding skip_def by (intro wp_structure wp_bump) (simp_all add: later_def)

lemma wp_skip_ident: "(\<And>t. later s t \<Longrightarrow> Q () t) \<Longrightarrow> wp (skip_ident i) Q s"
  unfolding skip_ident_def by (intro wp_structure wp_bump) (simp_all add: later_def)

lemma wp_consume_kind:
  "(\<And>v t. later s t \<Longrightarrow> v = None \<or> left t < left s \<Longrightarrow> Q v t) \<Longrightarrow> wp (consume_kind kind) Q s"
  unfolding consume_kind_def by (intro wp_structure wp_bump) (auto dest: at_kind_left simp: later_def)

lemmas wp_tokens = wp_structure wp_bump wp_ws wp_skip wp_skip_ident wp_consume_kind

lemma wp_consume_comma: "(\<And>t. later s t \<Longrightarrow> Q () t) \<Longrightarrow> wp consume_comma Q s"
  unfolding consume_comma_def by (intro wp_tokens) (auto simp: later_def)

lemma wp_consume_ident:
  "(\<And>v t. later s t \<Longrightarrow> v = None \<or> left t < left s \<Longrightarrow> Q v t) \<Longrightarrow> wp consume_ident Q s"
  unfolding consume_ident_def by (rule wp_consume_kind)

lemma wp_consume_string:
  "(\<And>v t. later s t \<Longrightarrow> v = None \<or> left t < left s \<Longrightarrow> Q v t) \<Longrightarrow> wp consume_string Q s"
  unfolding consume_string_def by (intro wp_and_some wp_tokens) (auto intro: wp_ret)

text \<open>A number is consumed even if its value is out of range.\<close>

lemma wp_consume_number:
  "(\<And>v t. later s t \<Longrightarrow> v = None \<or> left t < left s \<Longrightarrow> (at_kind T_Number s \<Longrightarrow> left t < left s) \<Longrightarrow> Q v t) \<Longrightarrow>
     wp consume_number Q s"
  unfolding consume_number_def consume_kind_def
  by (intro wp_and_some wp_tokens) (auto intro!: wp_ret dest: at_kind_left simp: later_def)

text \<open>
  A loop whose turns each consume a token or leave it, with an invariant of the states at the
  start of a turn.
\<close>

lemma wp_loop_inv:
  assumes "\<And>a t. later s t \<Longrightarrow> I t \<Longrightarrow> wp (body a) (\<lambda>r u. later t u \<and> (isl r \<longrightarrow> left u < left t \<and> I u)) t"
    and "I s" "left s < n" "\<And>v t. later s t \<Longrightarrow> Q v t"
  shows "wp (loop n body a) Q s"
  using assms
proof (induction n arbitrary: a s)
  case 0
  then show ?case by simp
next
  case (Suc n)
  show ?case
    unfolding loop.simps
  proof (rule wp_bind, rule wp_mono [OF Suc.prems(1) [OF parser_later_refl Suc.prems(2)]])
    fix r :: "'a + 'b" and u
    assume u: "later s u \<and> (isl r \<longrightarrow> left u < left s \<and> I u)"
    show "wp (case r of Inl a' \<Rightarrow> loop n body a' | Inr b \<Rightarrow> ret b) Q u"
    proof (cases r)
      case (Inl b)
      with u Suc.prems show ?thesis
        by (auto intro!: Suc.IH parser_later_trans [of s u])
    next
      case (Inr b)
      with u Suc.prems(4) show ?thesis by (simp add: wp_ret)
    qed
  qed
qed

lemma wp_while_inv:
  assumes "\<And>a t. later s t \<Longrightarrow> I t \<Longrightarrow> 0 < left t \<Longrightarrow>
      wp (body a) (\<lambda>r u. later t u \<and> (isl r \<longrightarrow> left u < left t \<and> I u)) t"
    and "I s" "left s < n" "\<And>v t. later s t \<Longrightarrow> Q v t"
  shows "wp (while_tokens n body a) Q s"
  unfolding while_tokens_def
  by (rule wp_loop_inv [where I = I], rule wp_on, rule wp_ret) (simp_all add: assms at_end_left)

lemma wp_loop:
  assumes "\<And>a t. later s t \<Longrightarrow> wp (body a) (\<lambda>r u. later t u \<and> (isl r \<longrightarrow> left u < left t)) t"
    and "left s < n" "\<And>v t. later s t \<Longrightarrow> Q v t"
  shows "wp (loop n body a) Q s"
  by (rule wp_loop_inv [where I = "\<lambda>_. True"]) (simp_all add: assms)

lemma wp_while:
  assumes "\<And>a t. later s t \<Longrightarrow> 0 < left t \<Longrightarrow> wp (body a) (\<lambda>r u. later t u \<and> (isl r \<longrightarrow> left u < left t)) t"
    and "left s < n" "\<And>v t. later s t \<Longrightarrow> Q v t"
  shows "wp (while_tokens n body a) Q s"
  by (rule wp_while_inv [where I = "\<lambda>_. True"]) (simp_all add: assms)

lemma wp_call_tail:
  assumes "left s < pe_fuel env" "\<And>t. later s t \<Longrightarrow> Q () t"
  shows "wp (consume_call_tail env) Q s"
  unfolding consume_call_tail_def
proof (rule wp_bind, rule wp_while [OF _ assms(1)])
  fix a t
  assume "0 < left t"
  then show "wp (call_tail_step a) (\<lambda>r u. later t u \<and> (isl r \<longrightarrow> left u < left t)) t"
    unfolding call_tail_step_def by (intro wp_tokens) (auto simp: later_def)
next
  fix v t
  assume "later s t"
  then show "wp (ret ()) Q t" using assms(2) by (simp add: wp_ret)
qed

lemmas wp_moves = wp_tokens wp_consume_comma wp_consume_ident wp_consume_string

lemma wp_consume_name: "(\<And>v t. later s t \<Longrightarrow> Q v t) \<Longrightarrow> wp consume_name Q s"
  unfolding consume_name_def by (intro wp_moves) auto

lemma wp_string_or: "(\<And>v t. later s t \<Longrightarrow> Q v t) \<Longrightarrow> wp (string_or d) Q s"
  unfolding string_or_def by (intro wp_moves) auto

section \<open>Expressions\<close>

lemma wp_ws_brace:
  assumes "\<And>t. later s t \<Longrightarrow> at_kind T_OpenBrace s \<longrightarrow> at_kind T_OpenBrace t \<Longrightarrow> Q () t"
  shows "wp consume_ws Q s"
proof (rule wp_ws, rule assms)
  fix t
  assume "rest t = dropWhile is_white (rest s)"
  then show "at_kind T_OpenBrace s \<longrightarrow> at_kind T_OpenBrace t"
    by (auto simp: at_kind_def peek_rest is_white_def split: list.splits)
qed

text \<open>An object whose expressions have fewer tokens left than \<open>k\<close>.\<close>

lemma wp_options:
  assumes "gains k expr" "k \<le> pe_fuel env" "left s < Suc k" "arrays_plain (ps_tokens s)"
    and Q: "\<And>v t. later s t \<Longrightarrow> at_kind T_OpenBrace s \<longrightarrow> left t < left s \<Longrightarrow> Q v t"
  shows "wp (parse_options_object env expr) Q s"
  unfolding parse_options_object_def
proof (rule wp_then, rule wp_ws_brace)
  fix t
  assume t: "later s t" "at_kind T_OpenBrace s \<longrightarrow> at_kind T_OpenBrace t"
  show "wp (on (at_kind T_OpenBrace) (then_do bump
      (bind_exec (while_tokens (pe_fuel env) (options_step env expr) []) (\<lambda>entries. ret (JObject entries))))
      (ret (JObject []))) Q t"
    unfolding options_step_def
    by (intro wp_moves wp_while use_gains [OF assms(1)])
       (use assms(2-4) t in \<open>auto simp: later_def dest: at_kind_left intro!: Q\<close>)
qed

section \<open>Static values\<close>

lemma at_kind_rest: "at_kind k s \<longleftrightarrow> (case rest s of [] \<Rightarrow> False | t # _ \<Rightarrow> lt_kind t = k)"
  by (auto simp: at_kind_def peek_rest split: list.splits)

lemma elements_simps:
  "elements_plain []"
  "elements_plain (t # ts) \<longleftrightarrow> lt_kind t = T_CloseBracket \<or>
     lt_kind t \<in> {T_String, T_Number, T_Ident, T_Whitespace, T_Comma} \<and> elements_plain ts"
  by (simp_all add: elements_plain_def only_to_Cons) (simp add: only_to_def)

lemma elements_white: "elements_plain ts \<Longrightarrow> elements_plain (dropWhile is_white ts)"
  by (simp add: elements_plain_def only_to_white)

text \<open>White space and a comma inside of such a list.\<close>

lemma wp_ws_only:
  assumes "only_to kind kinds (rest s)" "kind \<noteq> T_Whitespace"
    "\<And>t. later s t \<Longrightarrow> only_to kind kinds (rest t) \<Longrightarrow> \<not> at_kind T_Whitespace t \<Longrightarrow>
      at_kind T_Comma s \<longrightarrow> at_kind T_Comma t \<Longrightarrow> Q () t"
  shows "wp consume_ws Q s"
proof (rule wp_ws, rule assms(3))
  fix t
  assume r: "rest t = dropWhile is_white (rest s)"
  show "only_to kind kinds (rest t)" unfolding r by (rule only_to_white [OF assms(1,2)])
  show "\<not> at_kind T_Whitespace t"
    by (auto simp: r at_kind_rest is_white_def dropWhile_eq_Cons_conv split: list.splits)
  show "at_kind T_Comma s \<longrightarrow> at_kind T_Comma t"
    by (auto simp: r at_kind_rest is_white_def split: list.splits)
qed

lemma wp_skip_only:
  assumes "only_to kind kinds (rest s)" "kind \<noteq> T_Comma"
    "\<And>t. later s t \<Longrightarrow> only_to kind kinds (rest t) \<Longrightarrow> at_kind T_Comma s \<longrightarrow> left t < left s \<Longrightarrow> Q () t"
  shows "wp (skip T_Comma) Q s"
  unfolding skip_def
  by (intro wp_tokens; rule assms(3);
      use assms(1,2) in \<open>auto simp: later_def only_to_Cons at_kind_rest left_rest split: list.splits\<close>)

lemma wp_ws_element:
  assumes "elements_plain (rest s)"
    "\<And>t. later s t \<Longrightarrow> elements_plain (rest t) \<Longrightarrow> \<not> at_kind T_Whitespace t \<Longrightarrow>
      at_kind T_Comma s \<longrightarrow> at_kind T_Comma t \<Longrightarrow> Q () t"
  shows "wp consume_ws Q s"
  by (rule wp_ws_only [OF assms(1) [unfolded elements_plain_def]]) (use assms(2) in \<open>auto simp: elements_plain_def\<close>)

lemma wp_skip_element:
  assumes "elements_plain (rest s)"
    "\<And>t. later s t \<Longrightarrow> elements_plain (rest t) \<Longrightarrow> at_kind T_Comma s \<longrightarrow> left t < left s \<Longrightarrow> Q () t"
  shows "wp (skip T_Comma) Q s"
  by (rule wp_skip_only [OF assms(1) [unfolded elements_plain_def]]) (use assms(2) in \<open>auto simp: elements_plain_def\<close>)

text \<open>
  An element of an array that is at none of its white space: a value is one token, and any other
  token is left where it is.
\<close>

lemma wp_element:
  assumes "elements_plain (rest s)" "\<not> at_kind T_Whitespace s" "\<not> at_kind T_CloseBracket s" "d \<noteq> 0"
    and Q: "\<And>v t. later s t \<Longrightarrow> elements_plain (rest t) \<Longrightarrow>
      left s = 0 \<or> left t < left s \<or> at_kind T_Comma t \<Longrightarrow> Q v t"
  shows "wp (parse_static_value d env) Q s"
proof -
  obtain e where d: "d = Suc e" using assms(4) by (cases d) auto
  show ?thesis
  proof (cases "rest s")
    case Nil
    then show ?thesis
      unfolding d parse_static_value.simps consume_string_def consume_number_def consume_ident_def consume_kind_def
      by (intro wp_tokens wp_and_some; (elim conjE)?)
         (auto simp: at_kind_rest left_rest later_def elements_simps intro!: Q)
  next
    case (Cons t ts)
    then show ?thesis
      using assms
      unfolding d parse_static_value.simps consume_string_def consume_number_def consume_ident_def consume_kind_def
      by (intro wp_tokens wp_and_some; (elim conjE)?)
         (auto simp: at_kind_rest left_rest later_def elements_simps is_white_def intro!: Q wp_ret)
  qed
qed

lemma wp_array_step:
  assumes "elements_plain (rest s)" "0 < left s" "d \<noteq> 0"
  shows "wp (static_array_step (parse_static_value d env) values)
    (\<lambda>r t. later s t \<and> (isl r \<longrightarrow> left t < left s \<and> elements_plain (rest t))) s"
  unfolding static_array_step_def
  by (intro wp_ws_element wp_skip_element wp_structure wp_bump wp_element [OF _ _ _ assms(3)])
     (use assms in \<open>auto simp: later_def dest: at_kind_left\<close>)

lemma array_start:
  "at_kind T_OpenBracket s \<Longrightarrow> arrays_plain (ps_tokens s) \<Longrightarrow> elements_plain (tl (rest s))"
  by (auto simp: at_kind_rest rest_def intro: arrays_plain_drop split: list.splits)

lemma wp_array:
  assumes "at_kind T_OpenBracket s" "arrays_plain (ps_tokens s)" "left s < Suc d" "d < pe_fuel env"
    and Q: "\<And>v t. later s t \<Longrightarrow> left t < left s \<Longrightarrow> Q v t"
  shows "wp (parse_static_array_after_open env (parse_static_value d env)) Q s"
  unfolding parse_static_array_after_open_def
  by (intro wp_structure wp_bump wp_while_inv [where I = "\<lambda>t. elements_plain (rest t)"] wp_array_step)
     (use assms(1-4) array_start [OF assms(1,2)] in
       \<open>auto simp: later_def dest: at_kind_left intro!: Q\<close>)

lemma wp_static_object:
  assumes "moves k val" "at_kind T_OpenBrace s" "arrays_plain (ps_tokens s)" "left s < Suc k" "k \<le> pe_fuel env"
    and Q: "\<And>v t. later s t \<Longrightarrow> left t < left s \<Longrightarrow> Q v t"
  shows "wp (parse_static_object_after_open env val) Q s"
  unfolding parse_static_object_after_open_def static_object_step_def
  by (intro wp_moves wp_while use_moves [OF assms(1)])
     (use assms(2-5) in \<open>auto simp: later_def dest: at_kind_left intro!: Q\<close>)

lemma moves_static_value: "d \<le> pe_fuel env \<Longrightarrow> moves d (parse_static_value d env)"
proof (induction d)
  case 0
  then show ?case by (simp add: moves_def)
next
  case (Suc d)
  then have val: "moves d (parse_static_value d env)" by simp
  show ?case
    unfolding moves_def parse_static_value.simps
    by (intro allI impI wp_moves wp_and_some wp_static_object [OF val] wp_array wp_consume_number conjI)
       (use Suc.prems in \<open>auto simp: later_def intro!: wp_ret\<close>)
qed

lemma wp_static_options:
  assumes "left s < pe_fuel env" "arrays_plain (ps_tokens s)" and Q: "\<And>v t. later s t \<Longrightarrow> Q v t"
  shows "wp (parse_static_options_object env) Q s"
  unfolding parse_static_options_object_def
  by (intro wp_moves wp_static_object [OF moves_static_value [OF order_refl]])
     (use assms(1,2) in \<open>auto simp: later_def intro!: Q\<close>)

section \<open>Calls and primary expressions\<close>

text \<open>In the rules below an expression inside of another one has fewer tokens left than \<open>k\<close>.\<close>

lemma wp_args_after_open:
  assumes "gains k expr" "k \<le> pe_fuel env" "left s < k" "arrays_plain (ps_tokens s)"
    and Q: "\<And>v t. later s t \<Longrightarrow> Q v t"
  shows "wp (parse_call_args_after_open env expr) Q s"
  unfolding parse_call_args_after_open_def call_args_step_def call_arg_def
  by (intro wp_moves wp_while use_gains [OF assms(1)] wp_options [OF assms(1,2)])
     (use assms(2-4) in \<open>auto simp: later_def dest: at_kind_left intro!: Q\<close>)

lemma wp_args:
  assumes "gains k expr" "k \<le> pe_fuel env" "left s < Suc k" "arrays_plain (ps_tokens s)"
    and Q: "\<And>v t. later s t \<Longrightarrow> Q v t"
  shows "wp (parse_call_args env expr) Q s"
  unfolding parse_call_args_def
  by (intro wp_moves wp_args_after_open [OF assms(1,2)])
     (use assms(2-4) in \<open>auto simp: later_def dest: at_kind_left intro!: Q\<close>)

lemma wp_action: "(\<And>v t. later s t \<Longrightarrow> Q v t) \<Longrightarrow> wp consume_action Q s"
  unfolding consume_action_def by (intro wp_moves wp_consume_name) (auto simp: later_def)

lemma wp_color: "(\<And>v t. later s t \<Longrightarrow> Q v t) \<Longrightarrow> wp (color_literal name) Q s"
  unfolding color_literal_def end_or_def report_def
  by (intro wp_structure) (auto simp: later_def left_def)

lemma wp_prefixed:
  assumes "gains k expr" "k \<le> pe_fuel env" "left s < Suc k" "arrays_plain (ps_tokens s)"
    and Q: "\<And>v t. later s t \<Longrightarrow> Q v t"
  shows "wp (prefixed_call env expr prefix action) Q s"
  unfolding prefixed_call_def
  by (intro wp_structure wp_args [OF assms(1,2)]) (use assms(3,4) in \<open>auto simp: later_def intro!: Q\<close>)

lemma wp_dotted:
  assumes "gains k expr" "k \<le> pe_fuel env" "left s < Suc k" "arrays_plain (ps_tokens s)"
    and Q: "\<And>v t. later s t \<Longrightarrow> Q v t"
  shows "wp (dotted_expr env expr name namespace) Q s"
  unfolding dotted_expr_def action_call_def gpio_expr_def indicator_expr_def state_expr_def plain_dotted_def
  by (intro wp_structure wp_args [OF assms(1,2)] wp_prefixed [OF assms(1,2)] wp_action wp_color)
     (use assms(3,4) in \<open>auto simp: later_def intro!: Q\<close>)

lemma wp_ident_expr:
  assumes "gains k expr" "k \<le> pe_fuel env" "left s < Suc k" "arrays_plain (ps_tokens s)"
    and Q: "\<And>v t. later s t \<Longrightarrow> Q v t"
  shows "wp (ident_expr env expr name) Q s"
  unfolding ident_expr_def
  by (intro wp_moves wp_consume_name wp_args [OF assms(1,2)] wp_dotted [OF assms(1,2)])
     (use assms(3,4) in \<open>auto simp: later_def intro!: Q\<close>)

lemma wp_consume_number_some:
  "at_kind T_Number s \<Longrightarrow> (\<And>v t. later s t \<Longrightarrow> left t < left s \<Longrightarrow> Q v t) \<Longrightarrow> wp consume_number Q s"
  by (rule wp_consume_number) auto

lemma gains_primary:
  assumes "gains k expr" "k \<le> pe_fuel env"
  shows "gains (Suc k) (parse_primary_expr env expr)"
  unfolding gains_def parse_primary_expr_def paren_expr_def
  by (intro allI impI wp_moves wp_and_some wp_consume_number wp_ident_expr [OF assms] use_gains [OF assms(1)] conjI)
     (auto simp: later_def dest: at_kind_left intro!: wp_ret)

section \<open>Operators\<close>

lemma gains_postfix:
  assumes "gains k expr" "Suc k \<le> pe_fuel env"
  shows "gains (Suc k) (parse_postfix_expr env expr)"
  unfolding gains_def parse_postfix_expr_def postfix_step_def
  by (intro allI impI wp_moves wp_and_some wp_loop use_gains [OF gains_primary [OF assms(1)]] conjI)
     (use assms(2) in \<open>auto simp: later_def split: option.split intro!: wp_loop wp_ret wp_moves\<close>)

lemma gains_unary:
  assumes "gains k expr" "Suc k \<le> pe_fuel env"
  shows "gains (min d (Suc k)) (parse_unary_expr d env expr)"
proof (induction d)
  case 0
  then show ?case by (simp add: gains_def)
next
  case (Suc d)
  show ?case
    unfolding gains_def parse_unary_expr.simps
    by (intro allI impI wp_moves wp_and_some use_gains [OF gains_postfix [OF assms]] use_gains [OF Suc.IH])
       (auto simp: later_def dest: at_kind_left intro!: wp_ret)
qed

lemma wp_operator: "(\<And>v t. later s t \<Longrightarrow> left s = 0 \<or> left t < left s \<Longrightarrow> Q v t) \<Longrightarrow> wp consume_binary_operator Q s"
  unfolding consume_binary_operator_def
  by (intro wp_moves) (auto simp: later_def peek_rest left_rest split: list.splits)

lemma gains_chain:
  assumes "gains k operand" "k \<le> pe_fuel env" "\<And>s. at_operator s \<Longrightarrow> 0 < left s"
  shows "gains k (and_some operand (loop (pe_fuel env) (binary_step at_operator operand)))"
  unfolding gains_def binary_step_def
  by (intro allI impI wp_and_some use_gains [OF assms(1)])
     (use assms(2) in \<open>auto simp: later_def intro!: wp_loop wp_moves wp_operator use_gains [OF assms(1)]
       dest: assms(3) split: option.splits\<close>)

lemma gains_expr_upto: "k \<le> pe_fuel env \<Longrightarrow> gains k (parse_expr_upto k env)"
proof (induction k)
  case 0
  then show ?case by (simp add: gains_def)
next
  case (Suc k)
  then have "gains (Suc k) (parse_unary_expr (pe_fuel env) env (parse_expr_upto k env))"
    using gains_unary [of k "parse_expr_upto k env" env "pe_fuel env"] by (simp add: min_absorb2)
  then show ?case
    unfolding parse_expr_upto.simps parse_comparison_expr_def parse_additive_expr_def
    by (intro gains_chain Suc.prems)
       (auto simp: at_additive_def at_comparison_def dest: at_kind_left)
qed

lemma gains_expr: "gains (pe_fuel env) (parse_expr env)"
  unfolding parse_expr_def by (rule gains_expr_upto) simp

section \<open>Statements\<close>

lemmas wp_expr = use_gains [OF gains_expr]
lemmas wp_opts = wp_options [OF gains_expr order_refl]

lemma wp_expr_or:
  assumes "left s < pe_fuel env" "arrays_plain (ps_tokens s)" "\<And>v t. later s t \<Longrightarrow> Q v t"
  shows "wp (expr_or env d) Q s"
  unfolding expr_or_def by (intro wp_unwrap wp_expr) (use assms in auto)

lemma wp_finish:
  assumes "left s < pe_fuel env" "\<And>t. later s t \<Longrightarrow> Q v t"
  shows "wp (finish_call env v) Q s"
  unfolding finish_call_def by (intro wp_structure wp_call_tail) (use assms in auto)

lemmas wp_parts = wp_moves wp_string_or wp_expr_or wp_finish

lemma wp_profile_start:
  assumes "left s < pe_fuel env" "arrays_plain (ps_tokens s)" and Q: "\<And>v t. later s t \<Longrightarrow> Q v t"
  shows "wp (profile_start env make_statement) Q s"
  unfolding profile_start_def
  by (intro wp_parts wp_static_options) (use assms(1,2) in \<open>auto simp: later_def intro!: Q\<close>)

lemma wp_ble:
  assumes "left s < pe_fuel env" "arrays_plain (ps_tokens s)" and Q: "\<And>v t. later s t \<Longrightarrow> Q v t"
  shows "wp (ble_statement env action) Q s"
  unfolding ble_statement_def
  by (intro wp_parts wp_profile_start)
     (use assms(1,2) in \<open>auto simp: later_def intro!: Q\<close>)

lemma wp_http:
  assumes "left s < pe_fuel env" "arrays_plain (ps_tokens s)" and Q: "\<And>v t. later s t \<Longrightarrow> Q v t"
  shows "wp (http_statement env action) Q s"
  unfolding http_statement_def
  by (intro wp_parts wp_profile_start)
     (use assms(1,2) in \<open>auto simp: later_def intro!: Q\<close>)

lemma wp_power:
  assumes "left s < pe_fuel env" "arrays_plain (ps_tokens s)" and Q: "\<And>v t. later s t \<Longrightarrow> Q v t"
  shows "wp (power_statement env action) Q s"
  unfolding power_statement_def
  by (intro wp_parts wp_opts)
     (use assms(1,2) in \<open>auto simp: later_def intro!: Q\<close>)

lemma wp_timer:
  assumes "left s < pe_fuel env" "arrays_plain (ps_tokens s)" and Q: "\<And>v t. later s t \<Longrightarrow> Q v t"
  shows "wp (timer_statement env make_timer) Q s"
  unfolding timer_statement_def
  by (intro wp_parts)
     (use assms(1,2) in \<open>auto simp: later_def intro!: Q\<close>)

lemma wp_timer_or_indicator:
  assumes "left s < pe_fuel env" "arrays_plain (ps_tokens s)" and Q: "\<And>v t. later s t \<Longrightarrow> Q v t"
  shows "wp (timer_or_indicator env m action) Q s"
  unfolding timer_or_indicator_def
  by (intro wp_parts wp_timer)
     (use assms(1,2) in \<open>auto simp: later_def intro!: Q\<close>)

lemma wp_gpio:
  assumes "left s < pe_fuel env" "arrays_plain (ps_tokens s)" and Q: "\<And>v t. later s t \<Longrightarrow> Q v t"
  shows "wp (gpio_statement env) Q s"
  unfolding gpio_statement_def
  by (intro wp_parts wp_and_some conjI impI allI)
     (use assms(1,2) in \<open>auto simp: later_def intro!: Q\<close>)

lemma wp_coordinate:
  assumes "left s < pe_fuel env" "arrays_plain (ps_tokens s)" and Q: "\<And>v t. later s t \<Longrightarrow> Q v t"
  shows "wp (coordinate env) Q s"
  unfolding coordinate_def
  by (intro wp_parts)
     (use assms(1,2) in \<open>auto simp: later_def intro!: Q\<close>)

lemma wp_line_coordinate: "(\<And>v t. later s t \<Longrightarrow> Q v t) \<Longrightarrow> wp line_coordinate Q s"
  unfolding line_coordinate_def by (intro wp_parts wp_consume_number) (auto simp: later_def)

lemma wp_with_options:
  assumes "left s < pe_fuel env" "arrays_plain (ps_tokens s)" and Q: "\<And>v t. later s t \<Longrightarrow> Q v t"
  shows "wp (with_options env make_statement) Q s"
  unfolding with_options_def
  by (intro wp_parts wp_opts)
     (use assms(1,2) in \<open>auto simp: later_def intro!: Q\<close>)

lemmas wp_display_parts = wp_parts wp_coordinate wp_line_coordinate wp_with_options

lemma wp_display:
  assumes "left s < pe_fuel env" "arrays_plain (ps_tokens s)" and Q: "\<And>v t. later s t \<Longrightarrow> Q v t"
  shows "wp (parse_display_statement env action) Q s"
  unfolding parse_display_statement_def display_statement_def
  by (intro wp_display_parts)
     (use assms(1,2) in \<open>auto simp: later_def intro!: Q\<close>)

lemma wp_service:
  assumes "left s < pe_fuel env" "arrays_plain (ps_tokens s)" and Q: "\<And>v t. later s t \<Longrightarrow> Q v t"
  shows "wp (service_statement env m) Q s"
  unfolding service_statement_def
  by (intro wp_parts wp_and_some wp_display wp_args_after_open [OF gains_expr order_refl] wp_ble wp_http wp_power wp_timer_or_indicator conjI impI allI)
     (use assms(1,2) in \<open>auto simp: later_def intro!: Q\<close>)

lemma wp_if_statement:
  assumes "moves k block" "k \<le> pe_fuel env" "left s < k" "arrays_plain (ps_tokens s)"
    and Q: "\<And>v t. later s t \<Longrightarrow> Q v t"
  shows "wp (parse_if_statement env block) Q s"
  unfolding parse_if_statement_def
  by (intro wp_parts wp_and_some wp_expr use_moves [OF assms(1)] conjI impI allI)
     (use assms(2-4) in \<open>auto simp: later_def intro!: Q\<close>)

lemma wp_repeat_statement:
  assumes "moves k block" "k \<le> pe_fuel env" "left s < k" "arrays_plain (ps_tokens s)"
    and Q: "\<And>v t. later s t \<Longrightarrow> Q v t"
  shows "wp (parse_repeat_statement env block) Q s"
  unfolding parse_repeat_statement_def
  by (intro wp_parts wp_and_some wp_expr use_moves [OF assms(1)] conjI impI allI)
     (use assms(2-4) in \<open>auto simp: later_def intro!: Q\<close>)

lemma wp_for_statement:
  assumes "moves k block" "k \<le> pe_fuel env" "left s < k" "arrays_plain (ps_tokens s)"
    and Q: "\<And>v t. later s t \<Longrightarrow> Q v t"
  shows "wp (parse_for_statement env block) Q s"
  unfolding parse_for_statement_def
  by (intro wp_parts wp_and_some wp_expr use_moves [OF assms(1)] conjI impI allI)
     (use assms(2-4) in \<open>auto simp: later_def intro!: Q\<close>)

lemma wp_state_assign:
  assumes "left s < pe_fuel env" "arrays_plain (ps_tokens s)" and Q: "\<And>v t. later s t \<Longrightarrow> left s = 0 \<or> left t < left s \<Longrightarrow> Q v t"
  shows "wp (state_assign_statement env) Q s"
  unfolding state_assign_statement_def
  by (intro wp_parts wp_and_some wp_expr conjI impI allI)
     (use assms(1,2) in \<open>auto simp: later_def intro!: Q\<close>)

lemma wp_let_statement:
  assumes "left s < pe_fuel env" "arrays_plain (ps_tokens s)" and Q: "\<And>v t. later s t \<Longrightarrow> Q v t"
  shows "wp (let_statement env) Q s"
  unfolding let_statement_def
  by (intro wp_parts wp_and_some wp_expr conjI impI allI)
     (use assms(1,2) in \<open>auto simp: later_def intro!: Q\<close>)

lemma wp_app_statement:
  assumes "left s < pe_fuel env" "arrays_plain (ps_tokens s)" and Q: "\<And>v t. later s t \<Longrightarrow> Q v t"
  shows "wp (app_statement env make_statement) Q s"
  unfolding app_statement_def
  by (intro wp_parts wp_and_some wp_expr conjI impI allI)
     (use assms(1,2) in \<open>auto simp: later_def intro!: Q\<close>)

lemma wp_install:
  assumes "left s < pe_fuel env" "arrays_plain (ps_tokens s)" and Q: "\<And>v t. later s t \<Longrightarrow> Q v t"
  shows "wp (install_statement env) Q s"
  unfolding install_statement_def
  by (intro wp_parts wp_and_some wp_expr conjI impI allI)
     (use assms(1,2) in \<open>auto simp: later_def intro!: Q\<close>)

lemma wp_return:
  assumes "left s < pe_fuel env" "arrays_plain (ps_tokens s)" and Q: "\<And>v t. later s t \<Longrightarrow> Q v t"
  shows "wp (return_statement env) Q s"
  unfolding return_statement_def
  by (intro wp_parts wp_and_some wp_expr conjI impI allI)
     (use assms(1,2) in \<open>auto simp: later_def intro!: Q\<close>)

lemma wp_screen_ref: "(\<And>v t. later s t \<Longrightarrow> Q v t) \<Longrightarrow> wp screen_reference_text Q s"
  unfolding screen_reference_text_def consume_symbolic_screen_ref_def
  by (intro wp_parts wp_and_some conjI impI allI) (auto simp: later_def)

lemma wp_method:
  assumes "left s < pe_fuel env" "arrays_plain (ps_tokens s)" and Q: "\<And>v t. later s t \<Longrightarrow> Q v t"
  shows "wp (method_statement env first m) Q s"
  unfolding method_statement_def state_service_def other_call_def
  by (intro wp_parts wp_screen_ref wp_app_statement wp_install wp_args_after_open [OF gains_expr order_refl])
     (use assms(1,2) in \<open>auto simp: later_def intro!: Q\<close>)

lemma wp_dotted_statement:
  assumes "left s < pe_fuel env" "arrays_plain (ps_tokens s)" and Q: "\<And>v t. later s t \<Longrightarrow> Q v t"
  shows "wp (dotted_statement env first) Q s"
  unfolding dotted_statement_def
  by (intro wp_parts wp_and_some wp_expr wp_gpio wp_display wp_service wp_method conjI impI allI)
     (use assms(1,2) in \<open>auto simp: later_def intro!: Q\<close>)

lemma wp_ident_statement:
  assumes "moves k block" "k \<le> pe_fuel env" "left s < k" "arrays_plain (ps_tokens s)"
    and Q: "\<And>v t. later s t \<Longrightarrow> Q v t"
  shows "wp (ident_statement env block first) Q s"
  unfolding ident_statement_def
  by (intro wp_parts wp_and_some wp_expr wp_let_statement wp_if_statement [OF assms(1,2)] wp_repeat_statement [OF assms(1,2)] wp_for_statement [OF assms(1,2)]
      wp_return wp_args [OF gains_expr order_refl] wp_dotted_statement use_moves [OF assms(1)] conjI impI allI)
     (use assms(2-4) in \<open>auto simp: later_def intro!: Q\<close>)

lemma gains_statement:
  assumes "moves k block" "Suc k \<le> pe_fuel env"
  shows "gains (Suc k) (parse_statement env block)"
  unfolding gains_def parse_statement_def
  by (intro allI impI wp_parts wp_and_some wp_state_assign wp_ident_statement [OF assms(1)] conjI)
     (use assms(2) in \<open>auto simp: later_def dest: at_kind_left\<close>)

lemma moves_statements: "k \<le> pe_fuel env \<Longrightarrow> moves k (parse_statements_upto k env)"
proof (induction k)
  case 0
  then show ?case by (simp add: moves_def)
next
  case (Suc k)
  then have block: "gains (Suc k) (parse_statement env (parse_statements_upto k env))"
    by (intro gains_statement) simp_all
  show ?case
    unfolding moves_def parse_statements_upto.simps statements_step_def
    by (intro allI impI wp_while wp_parts use_gains [OF block])
       (use Suc.prems in \<open>auto simp: later_def dest: at_kind_left\<close>)
qed

lemma wp_block:
  assumes "left s < pe_fuel env" "arrays_plain (ps_tokens s)" "\<And>v t. later s t \<Longrightarrow> Q v t"
  shows "wp (parse_statements_until_close env) Q s"
  unfolding parse_statements_until_close_def
  by (rule use_moves [OF moves_statements [OF order_refl]]) (use assms in auto)

section \<open>Functions\<close>

lemma wp_ws_names:
  assumes "names_plain (rest s)"
    "\<And>t. later s t \<Longrightarrow> names_plain (rest t) \<Longrightarrow> \<not> at_kind T_Whitespace t \<Longrightarrow>
      at_kind T_Comma s \<longrightarrow> at_kind T_Comma t \<Longrightarrow> Q () t"
  shows "wp consume_ws Q s"
  by (rule wp_ws_only [OF assms(1) [unfolded names_plain_def]]) (use assms(2) in \<open>auto simp: names_plain_def\<close>)

lemma wp_skip_names:
  assumes "names_plain (rest s)"
    "\<And>t. later s t \<Longrightarrow> names_plain (rest t) \<Longrightarrow> at_kind T_Comma s \<longrightarrow> left t < left s \<Longrightarrow> Q () t"
  shows "wp (skip T_Comma) Q s"
  by (rule wp_skip_only [OF assms(1) [unfolded names_plain_def]]) (use assms(2) in \<open>auto simp: names_plain_def\<close>)

lemma wp_param:
  assumes "names_plain (rest s)" "\<not> at_kind T_Whitespace s" "\<not> at_kind T_CloseParen s"
    and Q: "\<And>v t. later s t \<Longrightarrow> names_plain (rest t) \<Longrightarrow> left s = 0 \<or> left t < left s \<or> at_kind T_Comma t \<Longrightarrow> Q v t"
  shows "wp consume_ident Q s"
  unfolding consume_ident_def consume_kind_def
  by (intro wp_tokens; rule Q)
     (use assms(1-3) in \<open>auto simp: later_def at_kind_rest left_rest names_plain_def only_to_Cons is_white_def
       only_to_def split: list.splits\<close>)

lemma wp_param_step:
  assumes "names_plain (rest s)" "0 < left s"
  shows "wp (param_step params) (\<lambda>r t. later s t \<and> (isl r \<longrightarrow> left t < left s \<and> names_plain (rest t))) s"
  unfolding param_step_def
  by (intro wp_ws_names wp_skip_names wp_structure wp_bump wp_param)
     (use assms in \<open>auto simp: later_def dest: at_kind_left\<close>)

text \<open>Between the keyword and the parameters the tokens still announce a plain list of names.\<close>

lemma params_at_white: "params_at (dropWhile is_white ts) = params_at ts"
  by (induction ts) (auto simp: params_at_def is_white_def)

lemma params_at_ident: "lt_kind t = T_Ident \<Longrightarrow> params_at (t # ts) = params_at ts"
  by (simp add: params_at_def)

lemma wp_ws_params:
  assumes "params_at (rest s)" "\<And>t. later s t \<Longrightarrow> params_at (rest t) \<Longrightarrow> Q () t"
  shows "wp consume_ws Q s"
  by (rule wp_ws, rule assms(2)) (use assms(1) in \<open>simp_all add: params_at_white\<close>)

lemma wp_name_params:
  assumes "params_at (rest s)" "\<And>v t. later s t \<Longrightarrow> params_at (rest t) \<Longrightarrow> Q v t"
  shows "wp consume_name Q s"
  unfolding consume_name_def consume_ident_def consume_kind_def
  by (intro wp_tokens; rule assms(2))
     (use assms(1) in \<open>auto simp: later_def at_kind_rest params_at_ident split: list.splits\<close>)

lemma wp_param_list:
  assumes "params_at (rest s)" "left s < pe_fuel env" and Q: "\<And>v t. later s t \<Longrightarrow> Q v t"
  shows "wp (parse_param_list env) Q s"
  unfolding parse_param_list_def
proof (rule wp_then, rule wp_ws_params [OF assms(1)])
  fix t
  assume t: "later s t" "params_at (rest t)"
  have names: "at_kind T_OpenParen t \<Longrightarrow> names_plain (tl (rest t))"
    using t(2) by (auto simp: at_kind_rest params_at_def split: list.splits)
  show "wp (on (at_kind T_OpenParen) (then_do bump (while_tokens (pe_fuel env) param_step [])) (ret [])) Q t"
    by (intro wp_structure wp_bump wp_while_inv [where I = "\<lambda>t. names_plain (rest t)"] wp_param_step)
       (use assms(2) t names in \<open>auto simp: later_def intro!: Q\<close>)
qed

section \<open>Declarations\<close>

text \<open>Steps that only read the state or change what is not a token.\<close>

lemma later_same: "ps_tokens t = ps_tokens s \<Longrightarrow> ps_cursor t = ps_cursor s \<Longrightarrow> later s t"
  by (simp add: later_def left_def)

lemma rest_same: "ps_tokens t = ps_tokens s \<Longrightarrow> ps_cursor t = ps_cursor s \<Longrightarrow> rest t = rest s"
  by (simp add: rest_def)

lemma wp_here: "(\<And>v. Q v s) \<Longrightarrow> wp here Q s"
  unfolding here_def by (rule wp_gets)

lemma wp_end_or: "(\<And>v. Q v s) \<Longrightarrow> wp (end_or n) Q s"
  unfolding end_or_def by (rule wp_gets)

lemma wp_on_ast: "(\<And>t. later s t \<Longrightarrow> Q () t) \<Longrightarrow> wp (on_ast f) Q s"
  unfolding on_ast_def by (rule wp_modify) (simp add: later_def left_def)

lemma wp_report: "(\<And>t. later s t \<Longrightarrow> rest t = rest s \<Longrightarrow> Q () t) \<Longrightarrow> wp (report d) Q s"
  unfolding report_def by (rule wp_modify) (simp add: later_def left_def rest_def)

lemma wp_report_from: "(\<And>t. later s t \<Longrightarrow> Q () t) \<Longrightarrow> wp (report_from n c m) Q s"
  unfolding report_from_def by (intro wp_structure wp_end_or wp_report)

lemma wp_question: "(\<And>v t. later s t \<Longrightarrow> Q v t) \<Longrightarrow> wp question_mark Q s"
  unfolding question_mark_def by (intro wp_moves) (auto simp: later_def)

lemma wp_take_preload: "(\<And>v t. later s t \<Longrightarrow> rest t = rest s \<Longrightarrow> Q v t) \<Longrightarrow> wp take_preload Q s"
  unfolding take_preload_def by (intro wp_structure) (simp add: later_def left_def rest_def)

lemma wp_reject: "(\<And>t. later s t \<Longrightarrow> rest t = rest s \<Longrightarrow> Q () t) \<Longrightarrow> wp reject_pending_attribute Q s"
  unfolding reject_pending_attribute_def
  by (intro wp_structure wp_take_preload wp_report) (auto simp: later_def)

lemma wp_braced_block:
  assumes "left s < pe_fuel env" "arrays_plain (ps_tokens s)" and Q: "\<And>v t. later s t \<Longrightarrow> Q v t"
  shows "wp (braced_block env start) Q s"
  unfolding braced_block_def
  by (intro wp_parts wp_block wp_end_or) (use assms(1,2) in \<open>auto simp: later_def intro!: Q\<close>)

lemmas wp_declaration = wp_parts wp_consume_name wp_here wp_end_or wp_on_ast wp_report wp_report_from
  wp_question wp_braced_block wp_call_tail

lemma wp_screen:
  assumes "left s < pe_fuel env" "arrays_plain (ps_tokens s)"
    and Q: "\<And>v t. later s t \<Longrightarrow> left s = 0 \<or> left t < left s \<Longrightarrow> Q v t"
  shows "wp (parse_screen env exported) Q s"
  unfolding parse_screen_def screen_attribute_step_def
  by (intro wp_declaration wp_while)
     (use assms(1,2) in \<open>auto simp: later_def dest: at_kind_left at_ident_left intro!: Q\<close>)

lemma wp_event_handler:
  assumes "left s < pe_fuel env" "arrays_plain (ps_tokens s)"
    and Q: "\<And>v t. later s t \<Longrightarrow> left s = 0 \<or> left t < left s \<Longrightarrow> Q v t"
  shows "wp (parse_event_handler env preload) Q s"
  unfolding parse_event_handler_def handler_param_def
  by (intro wp_declaration)
     (use assms(1,2) in \<open>auto simp: later_def dest: at_kind_left at_ident_left intro!: Q\<close>)

lemma wp_app_triggers:
  assumes "left s < pe_fuel env" "arrays_plain (ps_tokens s)"
    and Q: "\<And>v t. later s t \<Longrightarrow> left s = 0 \<or> left t < left s \<Longrightarrow> Q v t"
  shows "wp (parse_app_triggers env) Q s"
  unfolding parse_app_triggers_def
  by (intro wp_declaration)
     (use assms(1,2) in \<open>auto simp: later_def dest: at_kind_left at_ident_left intro!: Q\<close>)

lemma wp_import:
  assumes "left s < pe_fuel env" "arrays_plain (ps_tokens s)"
    and Q: "\<And>v t. later s t \<Longrightarrow> left s = 0 \<or> left t < left s \<Longrightarrow> Q v t"
  shows "wp (parse_import env) Q s"
  unfolding parse_import_def
  by (intro wp_declaration)
     (use assms(1,2) in \<open>auto simp: later_def dest: at_kind_left at_ident_left intro!: Q\<close>)

lemma wp_required_state:
  assumes "left s < pe_fuel env" "arrays_plain (ps_tokens s)"
    and Q: "\<And>v t. later s t \<Longrightarrow> left s = 0 \<or> left t < left s \<Longrightarrow> Q v t"
  shows "wp (parse_required_state env) Q s"
  unfolding parse_required_state_def required_state_step_def
  by (intro wp_declaration wp_while)
     (use assms(1,2) in \<open>auto simp: later_def dest: at_kind_left at_ident_left intro!: Q\<close>)

lemma wp_app:
  assumes "left s < pe_fuel env" "arrays_plain (ps_tokens s)"
    and Q: "\<And>v t. later s t \<Longrightarrow> left s = 0 \<or> left t < left s \<Longrightarrow> Q v t"
  shows "wp (parse_app env) Q s"
  unfolding parse_app_def
  by (intro wp_declaration)
     (use assms(1,2) in \<open>auto simp: later_def dest: at_kind_left at_ident_left intro!: Q\<close>)

lemma wp_device:
  assumes "left s < pe_fuel env" "arrays_plain (ps_tokens s)"
    and Q: "\<And>v t. later s t \<Longrightarrow> left s = 0 \<or> left t < left s \<Longrightarrow> Q v t"
  shows "wp (parse_device env) Q s"
  unfolding parse_device_def device_step_def device_resource_def to_close_brace_def
  by (intro wp_declaration wp_while)
     (use assms(1,2) in \<open>auto simp: later_def dest: at_kind_left at_ident_left intro!: Q\<close>)

lemma wp_state_options:
  assumes "left s < pe_fuel env" "arrays_plain (ps_tokens s)"
    and Q: "\<And>v t. later s t \<Longrightarrow> Q v t"
  shows "wp (state_options env start) Q s"
  unfolding state_options_def state_option_step_def state_store_option_def
  by (intro wp_declaration wp_loop)
     (use assms(1,2) in \<open>auto simp: later_def at_end_left dest: at_kind_left at_ident_left intro!: Q\<close>)

lemma wp_literal: "(\<And>v t. later s t \<Longrightarrow> Q v t) \<Longrightarrow> wp consume_literal_value Q s"
  unfolding consume_literal_value_def
  by (intro wp_moves wp_and_some wp_consume_number conjI) (auto simp: later_def intro!: wp_ret)

lemma wp_state_field:
  assumes Q: "\<And>v t. later s t \<Longrightarrow> Q v t"
  shows "wp (state_field start acc name) Q s"
  unfolding state_field_def add_state_field_def
  by (intro wp_declaration wp_literal) (auto simp: later_def intro!: Q)

lemma wp_state:
  assumes "left s < pe_fuel env" "arrays_plain (ps_tokens s)"
    and Q: "\<And>v t. later s t \<Longrightarrow> left s = 0 \<or> left t < left s \<Longrightarrow> Q v t"
  shows "wp (parse_state env) Q s"
  unfolding parse_state_def state_field_step_def
  by (intro wp_declaration wp_while wp_state_options wp_state_field)
     (use assms(1,2) in \<open>auto simp: later_def dest: at_kind_left at_ident_left intro!: Q\<close>)

lemma wp_attribute:
  assumes Q: "\<And>v t. later s t \<Longrightarrow> left s = 0 \<or> left t < left s \<Longrightarrow> Q v t"
  shows "wp parse_attribute Q s"
  unfolding parse_attribute_def
  by (intro wp_declaration) (auto simp: later_def left_def intro!: Q)

lemma wp_unexpected:
  assumes Q: "\<And>v t. later s t \<Longrightarrow> left s = 0 \<or> left t < left s \<Longrightarrow> Q v t"
  shows "wp parse_unexpected_top_level Q s"
  unfolding parse_unexpected_top_level_def
  by (intro wp_declaration) (auto simp: later_def left_def intro!: Q)

text \<open>A function needs parameters that are plain.\<close>

lemma wp_function:
  assumes "params_at (tl (rest s))" "left s < pe_fuel env" "arrays_plain (ps_tokens s)"
    and Q: "\<And>v t. later s t \<Longrightarrow> left s = 0 \<or> left t < left s \<Longrightarrow> Q v t"
  shows "wp (parse_function env exported) Q s"
  unfolding parse_function_def
proof (rule wp_bind, rule wp_here, rule wp_then, rule wp_bump, rule wp_then)
  fix start t
  assume t: "ps_tokens t = ps_tokens s" "rest t = tl (rest s)" "left t \<le> left s" "left s = 0 \<or> left t < left s"
  have "params_at (rest t)" using assms(1) t(2) by simp
  then show "wp consume_ws (\<lambda>_. wp (bind_exec consume_name (\<lambda>name.
      bind_exec (parse_param_list env) (\<lambda>params.
      bind_exec (braced_block env start) (\<lambda>(statements, span).
        on_ast (\<lambda>ast. ast\<lparr>ast_functions := ast_functions ast @ [\<lparr>af_name = name, af_params = params,
          af_statements = statements, af_exported = exported, af_span = span\<rparr>]\<rparr>))))) Q) t"
    by (intro wp_ws_params wp_bind wp_name_params wp_param_list wp_braced_block wp_prod wp_on_ast)
       (use assms(2,3) t in \<open>auto simp: later_def intro!: Q\<close>)
qed

lemma function_start: "at_ident ''function'' s \<Longrightarrow> params_plain (ps_tokens s) \<Longrightarrow> params_at (tl (rest s))"
  by (auto simp: at_ident_def peek_rest rest_def intro: params_plain_drop split: list.splits)

lemma wp_exported:
  assumes "left s < pe_fuel env" "arrays_plain (ps_tokens s)" "params_plain (ps_tokens s)"
    and Q: "\<And>v t. later s t \<Longrightarrow> left s = 0 \<or> left t < left s \<Longrightarrow> Q v t"
  shows "wp (parse_exported_decl env) Q s"
  unfolding parse_exported_decl_def
  by (intro wp_declaration wp_function function_start wp_screen)
     (use assms(1-3) in \<open>auto simp: later_def intro!: Q\<close>)

section \<open>The source\<close>

lemma at_qualified_left: "at_qualified_ident a b s \<Longrightarrow> 0 < left s"
  by (auto simp: at_qualified_ident_def Let_def get_at_def left_def split: option.splits if_splits)

lemma wp_root_step:
  assumes "0 < left s" "left s < pe_fuel env" "arrays_plain (ps_tokens s)" "params_plain (ps_tokens s)"
  shows "wp (root_step env u) (\<lambda>r t. later s t \<and> (isl r \<longrightarrow> left t < left s)) s"
  unfolding root_step_def plain_declaration_def at_event_method_def
  by (intro wp_declaration wp_reject wp_take_preload wp_attribute wp_import wp_required_state wp_exported
      wp_app_triggers wp_app wp_state wp_device wp_event_handler wp_function wp_screen wp_unexpected)
     (use assms in \<open>auto simp: later_def at_end_left dest: function_start\<close>)

text \<open>
  C9: the parser ends: on a source whose static arrays and parameter lists are plain it returns a
  tree and diagnostics, whatever else the tokens are and however they are nested, with any bound
  on turns and depth above their number.
\<close>

theorem parse_ends:
  assumes "lex source = Inr ts" "arrays_plain ts" "params_plain ts" "length ts < pe_fuel env"
  shows "\<exists>ast ds. parse_source env source = Inr (ast, ds)"
proof -
  have "wp (parse_root env) (\<lambda>_ _. True) (initial_parser ts)"
    unfolding parse_root_def
    by (rule wp_while, rule wp_root_step)
       (use assms in \<open>auto simp: initial_parser_def left_def later_def\<close>)
  then show ?thesis
    using assms(1) by (auto simp: wp_def parse_source_def parse_tokens_def split: prod.splits sum.splits)
qed

section \<open>Where it does not end\<close>

lemma names_white: "names_plain (dropWhile is_white ts) = names_plain ts"
  by (induction ts) (auto simp: names_plain_def only_to_Cons is_white_def)

lemma names_Cons: "names_plain (t # ts) \<longleftrightarrow> lt_kind t = T_CloseParen \<or>
    lt_kind t \<in> {T_Ident, T_Whitespace, T_Comma} \<and> names_plain ts"
  by (simp add: names_plain_def only_to_Cons)

lemma names_Nil: "names_plain []"
  by (simp add: names_plain_def only_to_def)

text \<open>Before a token that is no part of a parameter list, the loop goes on.\<close>

lemma param_step_stays:
  assumes "\<not> names_plain (rest s)"
  shows "wp (param_step params) (\<lambda>r t. isl r \<and> \<not> names_plain (rest t)) s"
proof -
  have "wp consume_ws Q u" if "\<not> names_plain (rest u)" "\<And>t. \<not> names_plain (rest t) \<Longrightarrow> Q () t" for Q u
    by (rule wp_ws, rule that(2)) (simp add: names_white that(1))
  note white = this
  have "wp (skip T_Comma) Q u" if "\<not> names_plain (rest u)" "\<And>t. \<not> names_plain (rest t) \<Longrightarrow> Q () t" for Q u
    unfolding skip_def
    by (intro wp_structure wp_bump; rule that(2))
       (use that(1) in \<open>auto simp: at_kind_rest names_Cons split: list.splits\<close>)
  note comma = this
  have "wp consume_ident Q u" if "\<not> names_plain (rest u)" "\<And>v t. \<not> names_plain (rest t) \<Longrightarrow> Q v t" for Q u
    unfolding consume_ident_def consume_kind_def
    by (intro wp_structure wp_bump; rule that(2))
       (use that(1) in \<open>auto simp: at_kind_rest names_Cons split: list.splits\<close>)
  note name = this
  show ?thesis
    unfolding param_step_def
    by (intro wp_bind wp_then white wp_on wp_bump wp_ret name comma)
       (use assms in \<open>auto simp: at_kind_rest names_Cons names_Nil split: list.splits\<close>)
qed

lemma param_loop_hangs:
  "\<not> names_plain (rest s) \<Longrightarrow> fst (while_tokens n param_step params s) = Inl (Err Hangs)"
proof (induction n arbitrary: params s)
  case 0
  then show ?case by (simp add: while_tokens_def)
next
  case (Suc n)
  then have "\<not> at_end s" using names_Nil by (auto simp: at_end_left left_rest)
  moreover obtain ps t where "param_step params s = (Inr (Inl ps), t)" "\<not> names_plain (rest t)"
    using param_step_stays [OF Suc.prems, of params]
    by (auto simp: wp_def isl_def split: prod.splits sum.splits)
  ultimately show ?case
    using Suc.IH [of t ps] by (simp add: while_tokens_def on_def bind_exec_def)
qed

text \<open>
  C14: exactly when a parameter list ends: the loop over it passes over names, commas and white
  space only, so that any other token in front of the closing parenthesis (a type, a default, a
  colon) makes the compiler loop for ever, whatever the bound.
\<close>

theorem param_list_hangs_iff:
  assumes "at_kind T_OpenParen s" "left s < pe_fuel env"
  shows "fst (parse_param_list env s) = Inl (Err Hangs) \<longleftrightarrow> \<not> names_plain (tl (rest s))"
proof
  assume hangs: "fst (parse_param_list env s) = Inl (Err Hangs)"
  show "\<not> names_plain (tl (rest s))"
  proof
    assume "names_plain (tl (rest s))"
    with assms(1) have "params_at (rest s)"
      by (auto simp: at_kind_rest params_at_def split: list.splits)
    then have "wp (parse_param_list env) (\<lambda>_ _. True) s"
      by (rule wp_param_list [OF _ assms(2)]) simp
    with hangs show False by (auto simp: wp_def split: prod.splits sum.splits)
  qed
next
  assume plain: "\<not> names_plain (tl (rest s))"
  have white: "consume_ws s = (Inr (), s\<lparr>ps_cursor := ps_cursor s + 0\<rparr>)"
    using assms(1) by (simp add: consume_ws_def white_run_def at_kind_rest rest_def is_white_def split: list.splits)
  define t where "t = (if at_end s then s else s\<lparr>ps_cursor := ps_cursor s + 1\<rparr>)"
  have "rest t = tl (rest s)" unfolding t_def by (rule after_bump)
  with plain have "fst (while_tokens (pe_fuel env) param_step [] t) = Inl (Err Hangs)"
    by (intro param_loop_hangs) simp
  then show "fst (parse_param_list env s) = Inl (Err Hangs)"
    using assms(1) white by (simp add: parse_param_list_def then_do_def on_def bind_exec_def bump_def t_def)
qed

end
