(* ===== verification/Front_Format.thy ===== *)
theory Front_Format
  imports Front_Parser
begin

text \<open>
  The formatter (\<open>squidc-core/src/formatter.rs\<close>): it writes the tokens of a source that parses
  without diagnostics again, with its own white space.
\<close>

section \<open>The formatter\<close>

datatype format_context = C_Brace | C_Bracket | C_Paren

text \<open>The contexts are a stack, its top last.\<close>

record formatter =
  fo_tokens :: "lex_token list"
  fo_cursor :: nat
  fo_out :: rstr
  fo_indent :: nat
  fo_contexts :: "format_context list"
  fo_line_start :: bool
  fo_previous_kind :: "token_kind option"
  fo_previous_text :: "ustr option"

definition formatter_new :: "lex_token list \<Rightarrow> formatter" where
  "formatter_new tokens = \<lparr>fo_tokens = filter (\<lambda>t. lt_kind t \<noteq> T_Whitespace) tokens, fo_cursor = 0,
     fo_out = [], fo_indent = 0, fo_contexts = [], fo_line_start = True,
     fo_previous_kind = None, fo_previous_text = None\<rparr>"

definition context_top :: "formatter \<Rightarrow> format_context option" where
  "context_top s = (if fo_contexts s = [] then None else Some (last (fo_contexts s)))"

definition push_context :: "format_context \<Rightarrow> formatter \<Rightarrow> formatter" where
  "push_context c s = s\<lparr>fo_contexts := fo_contexts s @ [c]\<rparr>"

definition pop_context :: "formatter \<Rightarrow> formatter" where
  "pop_context s = s\<lparr>fo_contexts := butlast (fo_contexts s)\<rparr>"

definition format_next_kind :: "formatter \<Rightarrow> token_kind option" where
  "format_next_kind s = map_option lt_kind (get_at (fo_tokens s) (fo_cursor s + 1))"

definition previous_is :: "formatter \<Rightarrow> string \<Rightarrow> bool" where
  "previous_is s text = (case fo_previous_text s of Some t \<Rightarrow> is_named t text | None \<Rightarrow> False)"

definition has_next_non_trailing_comma :: "formatter \<Rightarrow> bool" where
  "has_next_non_trailing_comma s \<longleftrightarrow>
     list_ex (\<lambda>t. lt_kind t \<noteq> T_Comma) (drop (fo_cursor s + 1) (fo_tokens s))"

section \<open>Writing\<close>

definition write_text :: "rstr \<Rightarrow> formatter \<Rightarrow> formatter" where
  "write_text text s =
     (if fo_line_start s
      then s\<lparr>fo_out := fo_out s @ concat (replicate (fo_indent s) [32, 32]) @ text, fo_line_start := False\<rparr>
      else s\<lparr>fo_out := fo_out s @ text\<rparr>)"

definition space :: "formatter \<Rightarrow> formatter" where
  "space s =
     (if \<not> fo_line_start s \<and> \<not> list_ex (\<lambda>c. ends_with (fo_out s) [c]) [32, 10, 40, 91, 46, 64]
      then s\<lparr>fo_out := fo_out s @ [32]\<rparr> else s)"

text \<open>\<open>while out.ends_with(c) { out.pop(); }\<close>.\<close>

definition pop_all :: "u8 \<Rightarrow> rstr \<Rightarrow> rstr" where
  "pop_all c out = rev (dropWhile (\<lambda>b. b = c) (rev out))"

definition newline :: "formatter \<Rightarrow> formatter" where
  "newline s =
     (let out = pop_all 32 (fo_out s) in
      s\<lparr>fo_out := (if ends_with out [10] then out else out @ [10]), fo_line_start := True\<rparr>)"

definition blank_line :: "formatter \<Rightarrow> formatter" where
  "blank_line s =
     (let s = newline s in
      s\<lparr>fo_out := (if ends_with (fo_out s) [10, 10] then fo_out s else fo_out s @ [10]), fo_line_start := True\<rparr>)"

definition binary_operator :: "string \<Rightarrow> formatter \<Rightarrow> formatter" where
  "binary_operator op s = space (write_text (lit op) (space s))"

section \<open>Words\<close>

definition TOP_LEVEL_KEYWORDS :: "string list" where
  "TOP_LEVEL_KEYWORDS = [''app'', ''import'', ''requires'', ''state'', ''device'', ''event'', ''function'',
     ''export'', ''screen'']"

definition is_top_level_keyword :: "ustr \<Rightarrow> bool" where
  "is_top_level_keyword text = list_ex (is_named text) TOP_LEVEL_KEYWORDS"

definition is_statement_or_field_start :: "ustr \<Rightarrow> bool" where
  "is_statement_or_field_start text \<longleftrightarrow>
     list_ex (is_named text) [''if'', ''let'', ''return'', ''repeat'', ''for'', ''debug'', ''state'', ''screen'', ''app'',
       ''service'', ''hardware'', ''device'', ''system''] \<or>
     ident_start (str_bytes text)"

definition break_before_word_if_needed :: "ustr \<Rightarrow> formatter \<Rightarrow> formatter" where
  "break_before_word_if_needed text s =
     (if fo_line_start s \<or> fo_out s = [] \<or> fo_previous_kind s = Some T_Dot then s
      else if previous_is s ''let'' then s
      else if fo_contexts s = [] \<and> is_top_level_keyword text then blank_line s
      else if context_top s = Some C_Brace \<and>
          fo_previous_kind s \<in> Some ` {T_CloseParen, T_CloseBrace, T_CloseBracket, T_Ident, T_String, T_Number} \<and>
          is_statement_or_field_start text
        then newline s
      else s)"

definition needs_space_before_word :: "formatter \<Rightarrow> bool" where
  "needs_space_before_word s =
     (if fo_line_start s \<or> fo_out s = [] then False
      else let b = last (fo_out s) in is_alphabetic b \<or> is_digit b \<or> b = 34 \<or> b = 93)"

definition word :: "ustr \<Rightarrow> formatter \<Rightarrow> formatter" where
  "word text s =
     (let s = break_before_word_if_needed text s in
      write_text (str_bytes text) (if needs_space_before_word s then space s else s))"

section \<open>Tokens\<close>

definition open_brace :: "formatter \<Rightarrow> formatter" where
  "open_brace s =
     (let s = push_context C_Brace (write_text (lit ''{'') (if fo_line_start s then s else space s)) in
      newline (s\<lparr>fo_indent := fo_indent s + 1\<rparr>))"

definition close_brace :: "formatter \<Rightarrow> formatter" where
  "close_brace s =
     (let s = (if fo_line_start s then s else newline s);
          s = pop_context (write_text (lit ''}'') (s\<lparr>fo_indent := fo_indent s - 1\<rparr>)) in
      if fo_contexts s = []
      then (let s = blank_line s in if has_next_non_trailing_comma s then blank_line s else s)
      else s)"

definition comma :: "formatter \<Rightarrow> formatter" where
  "comma s =
     (if format_next_kind s \<in> Some ` {T_CloseBrace, T_CloseBracket, T_CloseParen} then s
      else case context_top s of
          Some C_Brace \<Rightarrow> newline s
        | None \<Rightarrow> newline s
        | _ \<Rightarrow> space (write_text (lit '','') s))"

text \<open>An operator that an equals sign may follow, which is then written with it and passed over.\<close>

definition with_equals :: "string \<Rightarrow> formatter \<Rightarrow> formatter" where
  "with_equals op s =
     (if format_next_kind s = Some T_Equals
      then (let s = binary_operator (op @ ''='') s in s\<lparr>fo_cursor := fo_cursor s + 1\<rparr>)
      else binary_operator op s)"

definition format_token :: "lex_token \<Rightarrow> formatter \<Rightarrow> formatter" where
  "format_token t s = (case lt_kind t of
       T_OpenBrace \<Rightarrow> open_brace s
     | T_CloseBrace \<Rightarrow> close_brace s
     | T_OpenBracket \<Rightarrow> push_context C_Bracket (write_text (lit ''['') s)
     | T_CloseBracket \<Rightarrow> pop_context (write_text (lit '']'') s)
     | T_OpenParen \<Rightarrow> push_context C_Paren (write_text (lit ''('') (if previous_is s ''if'' then space s else s))
     | T_CloseParen \<Rightarrow> pop_context (write_text (lit '')'') s)
     | T_Comma \<Rightarrow> comma s
     | T_Colon \<Rightarrow> space (write_text (lit '':'') s)
     | T_Dot \<Rightarrow> write_text (lit ''.'') s
     | T_Equals \<Rightarrow> with_equals ''='' s
     | T_Bang \<Rightarrow> if format_next_kind s = Some T_Equals then with_equals ''!'' s else write_text (str_bytes (lt_text t)) s
     | T_Less \<Rightarrow> with_equals ''<'' s
     | T_Greater \<Rightarrow> with_equals ''>'' s
     | T_Plus \<Rightarrow> binary_operator ''+'' s
     | T_Minus \<Rightarrow> binary_operator ''-'' s
     | T_Ident \<Rightarrow> word (lt_text t) s
     | T_String \<Rightarrow> word (lt_text t) s
     | T_Number \<Rightarrow> word (lt_text t) s
     | T_At \<Rightarrow> word (lt_text t) s
     | T_Question \<Rightarrow> write_text (str_bytes (lt_text t)) s
     | T_Unknown \<Rightarrow> write_text (str_bytes (lt_text t)) s
     | T_Whitespace \<Rightarrow> s)"

definition format_step :: "formatter \<Rightarrow> formatter" where
  "format_step s =
     (let t = fo_tokens s ! fo_cursor s; s = format_token t s in
      s\<lparr>fo_previous_kind := Some (lt_kind t), fo_previous_text := Some (lt_text t), fo_cursor := fo_cursor s + 1\<rparr>)"

lemma word_layout [simp]:
  "fo_tokens (write_text x s) = fo_tokens s" "fo_cursor (write_text x s) = fo_cursor s"
  "fo_tokens (space s) = fo_tokens s" "fo_cursor (space s) = fo_cursor s"
  "fo_tokens (newline s) = fo_tokens s" "fo_cursor (newline s) = fo_cursor s"
  "fo_tokens (blank_line s) = fo_tokens s" "fo_cursor (blank_line s) = fo_cursor s"
  "fo_tokens (push_context c s) = fo_tokens s" "fo_cursor (push_context c s) = fo_cursor s"
  "fo_tokens (pop_context s) = fo_tokens s" "fo_cursor (pop_context s) = fo_cursor s"
  "fo_tokens (binary_operator op s) = fo_tokens s" "fo_cursor (binary_operator op s) = fo_cursor s"
  "fo_tokens (word w s) = fo_tokens s" "fo_cursor (word w s) = fo_cursor s"
  by (simp_all add: write_text_def space_def newline_def blank_line_def push_context_def pop_context_def
      binary_operator_def word_def break_before_word_if_needed_def Let_def)

lemma format_token_cursor:
  "fo_tokens (format_token t s) = fo_tokens s" "fo_cursor s \<le> fo_cursor (format_token t s)"
  by (auto simp: format_token_def open_brace_def close_brace_def comma_def with_equals_def Let_def
      split: token_kind.split option.split format_context.split)

function format_loop :: "formatter \<Rightarrow> formatter" where
  "format_loop s = (if fo_cursor s < length (fo_tokens s) then format_loop (format_step s) else s)"
  by pat_completeness auto
termination
  by (relation "measure (\<lambda>s. length (fo_tokens s) - fo_cursor s)")
     (auto simp: format_step_def Let_def format_token_cursor intro!: diff_less_mono2 le_imp_less_Suc)

declare format_loop.simps [simp del]

definition format_finish :: "formatter \<Rightarrow> rstr" where
  "format_finish s = pop_all 10 (fo_out s) @ [10]"

text \<open>The outcome: an error of the formatter, or a parser that does not return.\<close>

datatype format_error = FormatError rstr | ParserHangs

definition format_source :: "parse_env \<Rightarrow> ustr \<Rightarrow> (format_error, rstr) res" where
  "format_source env source =
     (case parse_source env source of
        Inl Panic \<Rightarrow> Inl Panic
      | Inl (Err Hangs) \<Rightarrow> Inl (Err ParserHangs)
      | Inr (_, diagnostics) \<Rightarrow>
          if diagnostics \<noteq> [] then Inl (Err (FormatError (lit ''cannot format source with parser diagnostics'')))
          else case lex source of
              Inl _ \<Rightarrow> Inl Panic
            | Inr tokens \<Rightarrow> Inr (format_finish (format_loop (formatter_new tokens))))"

section \<open>How tokens are spelled\<close>

definition blank :: "u8 \<Rightarrow> bool" where
  "blank b \<longleftrightarrow> b = 32 \<or> b = 10"

text \<open>
  A token of the lexer: punctuation is its byte, and only white space and a string may end in
  a blank.
\<close>

definition spelled :: "token_kind \<Rightarrow> rstr \<Rightarrow> bool" where
  "spelled k x \<longleftrightarrow> x \<noteq> [] \<and> (k = T_Whitespace \<or> k = T_String \<or> \<not> blank (last x)) \<and>
     (\<forall>b. (b, k) \<in> set PUNCTUATION \<longrightarrow> x = [b])"

lemma char_end: "utf8_width s = Some w \<Longrightarrow> \<not> hd s < 128 \<Longrightarrow> \<not> blank (last (take w s))"
  by (cases s) (auto simp: blank_def utf8_cont_def split: if_splits list.splits)

lemma ascii_width: "s \<noteq> [] \<Longrightarrow> hd s < 128 \<Longrightarrow> utf8_width s = Some 1"
  by (cases s) auto

lemma scan_bytes:
  "scan_while p s = Inr n \<Longrightarrow> (\<And>s'. p s' \<Longrightarrow> s' \<noteq> [] \<and> hd s' < 128 \<and> \<not> blank (hd s')) \<Longrightarrow>
     \<forall>b \<in> set (take n s). \<not> blank b"
proof (induction p s arbitrary: n rule: scan_while.induct)
  case (1 p s)
  show ?case
  proof (cases "s \<noteq> [] \<and> p s")
    case True
    then have w: "utf8_width s = Some 1" using 1(3) [of s] ascii_width by blast
    with 1(2) True obtain m where m: "scan_while p (drop 1 s) = Inr m" "n = 1 + m"
      by (auto simp: scan_while.simps [of p s] and_then_eq_Inr)
    have "\<forall>b \<in> set (take m (drop 1 s)). \<not> blank b"
      by (rule 1(1)) (use True w m 1(3) in auto)
    with True 1(3) [of s] m(2) show ?thesis by (cases s) auto
  next
    case False
    with 1(2) show ?thesis by (auto simp: scan_while.simps [of p s] split: option.splits if_splits)
  qed
qed

lemma ident_byte: "ident_part s \<Longrightarrow> s \<noteq> [] \<and> hd s < 128 \<and> \<not> blank (hd s)"
  "number_part s \<Longrightarrow> s \<noteq> [] \<and> hd s < 128 \<and> \<not> blank (hd s)"
  "ident_start s \<Longrightarrow> s \<noteq> [] \<and> hd s < 128 \<and> \<not> blank (hd s)"
  unfolding ident_part_def number_part_def ident_start_def is_alphabetic_def is_digit_def blank_def
  by (auto simp: word_less_nat_alt word_le_nat_alt)

lemma not_white: "s \<noteq> [] \<Longrightarrow> \<not> white_part s \<Longrightarrow> \<not> blank (hd s)"
  by (cases s) (auto simp: white_part_def first_white_def WHITE_SPACE_def starts_with_def blank_def)

lemma spelled_punctuation:
  assumes "s \<noteq> []" "\<not> white_part s" "utf8_width s = Some w"
  shows "spelled (punctuation_kind (hd s)) (take w s)"
proof -
  have blank: "\<not> blank (hd s)" by (rule not_white [OF assms(1,2)])
  show ?thesis
  proof (cases "hd s < 128")
    case True
    then have "w = 1" using assms ascii_width by simp
    with assms(1) have x: "take w s = [hd s]" by (cases s) auto
    have "(b, punctuation_kind (hd s)) \<in> set PUNCTUATION \<Longrightarrow> b = hd s" for b
      by (auto simp: punctuation_kind_def PUNCTUATION_def split: if_splits)
    with blank show ?thesis by (auto simp: x spelled_def)
  next
    case False
    then have "map_of PUNCTUATION (hd s) = None" by (auto simp: PUNCTUATION_def)
    then have "punctuation_kind (hd s) = T_Unknown" by (simp add: punctuation_kind_def)
    with char_end [OF assms(3) False] assms(1,3) utf8_width_bounds [OF assms(3)] show ?thesis
      by (auto simp: spelled_def PUNCTUATION_def)
  qed
qed

lemma scanned_end:
  assumes "s \<noteq> []" "hd s < 128" "\<not> blank (hd s)" "scan_while p (drop 1 s) = Inr n"
    and "\<And>s'. p s' \<Longrightarrow> s' \<noteq> [] \<and> hd s' < 128 \<and> \<not> blank (hd s')"
  shows "\<not> blank (last (take (1 + n) s))"
proof -
  have "\<forall>b \<in> set (take n (drop 1 s)). \<not> blank b" by (rule scan_bytes [OF assms(4,5)])
  with assms(1,3) have "\<forall>b \<in> set (take (1 + n) s). \<not> blank b" by (cases s) auto
  moreover have "take (1 + n) s \<noteq> []" using assms(1) by simp
  ultimately show ?thesis using last_in_set by blast
qed

lemma next_token_spelled:
  assumes "s \<noteq> []" "next_token s = Inr (k, n)"
  shows "spelled k (take n s)"
proof -
  obtain w where w: "utf8_width s = Some w" using assms(2)
    by (auto simp: next_token_def next_width_def and_then_def split: option.splits)
  have start: "take n s \<noteq> []" using assms next_token_width by (cases n) auto
  have no_mark: "(b, j) \<notin> set PUNCTUATION" if "j \<in> {T_Whitespace, T_Ident, T_Number, T_String}" for b j
    using that by (auto simp: PUNCTUATION_def)
  show ?thesis
  proof (cases "k \<in> {T_Whitespace, T_String}")
    case True
    with start no_mark [of k] show ?thesis by (auto simp: spelled_def)
  next
    case False
    consider (ident) "\<not> white_part s" "ident_start s" | (number) "\<not> white_part s" "\<not> ident_start s" "number_part s"
      | (mark) "\<not> white_part s" "k = punctuation_kind (hd s)" "n = w"
      using assms(2) False w
      by (auto simp: next_token_def next_width_def and_then_eq_Inr Let_def split: if_splits)
    then show ?thesis
    proof cases
      case ident
      note h = ident_byte(3) [OF ident(2)]
      with w have w1: "w = 1" using ascii_width by auto
      from assms(2) ident w w1 obtain m where m: "scan_while ident_part (drop 1 s) = Inr m" "n = 1 + m" "k = T_Ident"
        by (auto simp: next_token_def next_width_def and_then_eq_Inr Let_def)
      with scanned_end [of s ident_part m] h ident_byte(1) start no_mark [of k] show ?thesis
        by (auto simp: spelled_def)
    next
      case number
      note h = ident_byte(2) [OF number(3)]
      with w have w1: "w = 1" using ascii_width by auto
      from assms(2) number w w1 obtain m where m: "scan_while number_part (drop 1 s) = Inr m" "n = 1 + m" "k = T_Number"
        by (auto simp: next_token_def next_width_def and_then_eq_Inr Let_def)
      with scanned_end [of s number_part m] h ident_byte(2) start no_mark [of k] show ?thesis
        by (auto simp: spelled_def)
    next
      case mark
      with spelled_punctuation [OF assms(1) mark(1) w] show ?thesis by simp
    qed
  qed
qed

definition token_spelled :: "lex_token \<Rightarrow> bool" where
  "token_spelled t \<longleftrightarrow> spelled (lt_kind t) (str_bytes (lt_text t))"

lemma lex_from_spelled: "utf8_valid s \<Longrightarrow> lex_from start s = Inr ts \<Longrightarrow> list_all token_spelled ts"
proof (induction start s arbitrary: ts rule: lex_from.induct)
  case (1 start s)
  show ?case
  proof (cases "s = []")
    case True
    with 1(3) show ?thesis by (simp add: lex_from.simps)
  next
    case False
    obtain k n where kn: "next_token s = Inr (k, n)" "cuts s n" using next_token_cuts [OF 1(2) False] by blast
    with 1(3) False obtain us where us: "lex_from (start + n) (drop n s) = Inr us"
      "ts = lex_token_at k (take n s) start (start + n) # us"
      by (auto simp: lex_from.simps [of start s] and_then_eq_Inr)
    have "list_all token_spelled us" by (rule 1(1) [OF False kn(1) refl _ us(1)]) (use kn(2) in \<open>simp add: cuts_def\<close>)
    moreover have "token_spelled (lex_token_at k (take n s) start (start + n))"
      using next_token_spelled [OF False kn(1)] kn(2) by (simp add: token_spelled_def lex_token_at_def cuts_def)
    ultimately show ?thesis by (simp add: us(2))
  qed
qed

section \<open>What the formatter writes\<close>

text \<open>
  A text that consists of the texts of tokens, with blanks between them and without some of the
  commas.
\<close>

inductive laid_out :: "lex_token list \<Rightarrow> rstr \<Rightarrow> bool" where
  nothing: "laid_out [] []"
| gap: "laid_out ts out \<Longrightarrow> \<forall>b \<in> set bs. blank b \<Longrightarrow> laid_out ts (out @ bs)"
| token: "laid_out ts out \<Longrightarrow> laid_out (ts @ [t]) (out @ str_bytes (lt_text t))"
| no_comma: "laid_out ts out \<Longrightarrow> lt_kind t = T_Comma \<Longrightarrow> laid_out (ts @ [t]) out"

text \<open>The text without the blanks at its end.\<close>

definition core :: "rstr \<Rightarrow> rstr" where
  "core out = rev (dropWhile blank (rev out))"

lemma core_Nil [simp]: "core [] = []"
  by (simp add: core_def)

lemma core_blanks: "\<forall>b \<in> set bs. blank b \<Longrightarrow> core (out @ bs) = core out"
  unfolding core_def rev_append by (subst dropWhile_append2) auto

lemma core_end: "x \<noteq> [] \<Longrightarrow> \<not> blank (last x) \<Longrightarrow> core (out @ x) = out @ x"
  by (cases x rule: rev_cases) (auto simp: core_def)

lemma core_split: "\<exists>bs. out = core out @ bs \<and> (\<forall>b \<in> set bs. blank b)"
  by (rule exI [of _ "rev (takeWhile blank (rev out))"])
     (metis core_def rev_append rev_rev_ident set_rev set_takeWhileD takeWhile_dropWhile_id)

lemma core_pop_all: "blank c \<Longrightarrow> core (pop_all c out) = core out"
proof -
  assume "blank c"
  then have "dropWhile blank (dropWhile (\<lambda>b. b = c) xs) = dropWhile blank xs" for xs
    by (induction xs) auto
  then show ?thesis by (simp add: core_def pop_all_def)
qed

lemma core_space [simp]: "core (fo_out (space s)) = core (fo_out s)"
  by (simp add: space_def core_blanks blank_def)

lemma core_newline [simp]: "core (fo_out (newline s)) = core (fo_out s)"
  by (simp add: newline_def Let_def core_blanks core_pop_all blank_def)

lemma core_blank_line [simp]: "core (fo_out (blank_line s)) = core (fo_out s)"
  using core_newline [of s] by (simp add: blank_line_def Let_def core_blanks blank_def)

lemma core_break [simp]: "core (fo_out (break_before_word_if_needed w s)) = core (fo_out s)"
  by (simp add: break_before_word_if_needed_def)

lemma context_out [simp]:
  "fo_out (push_context c s) = fo_out s" "fo_out (pop_context s) = fo_out s"
  by (simp_all add: push_context_def pop_context_def)

text \<open>The tokens before the cursor, and what is written of them.\<close>

definition written :: "lex_token list \<Rightarrow> formatter \<Rightarrow> bool" where
  "written ts s \<longleftrightarrow> laid_out ts (core (fo_out s))"

lemma laid_out_blanks: "laid_out ts (core out) \<Longrightarrow> \<forall>b \<in> set bs. blank b \<Longrightarrow> laid_out ts (out @ bs)"
  by (metis core_split append_assoc gap)

lemma written_text:
  assumes "written ts s" "x = str_bytes (lt_text t)" "x \<noteq> []" "\<not> blank (last x)"
  shows "written (ts @ [t]) (write_text x s)"
proof -
  define bs where "bs = (if fo_line_start s then concat (replicate (fo_indent s) [32, 32 :: u8]) else [])"
  have "\<forall>b \<in> set bs. blank b" by (auto simp: bs_def blank_def)
  with assms(1) have "laid_out ts (fo_out s @ bs)" unfolding written_def by (rule laid_out_blanks)
  then have "laid_out (ts @ [t]) ((fo_out s @ bs) @ x)" unfolding assms(2) by (rule laid_out.token)
  moreover have "fo_out (write_text x s) = (fo_out s @ bs) @ x" by (simp add: write_text_def bs_def)
  ultimately show ?thesis unfolding written_def using assms(3,4) by (simp add: core_end del: append_assoc)
qed

lemma written_layout [simp]:
  "written ts (space s) = written ts s" "written ts (newline s) = written ts s"
  "written ts (blank_line s) = written ts s" "written ts (break_before_word_if_needed w s) = written ts s"
  "written ts (push_context c s) = written ts s" "written ts (pop_context s) = written ts s"
  "written ts (s\<lparr>fo_indent := i\<rparr>) = written ts s" "written ts (s\<lparr>fo_cursor := j\<rparr>) = written ts s"
  "written ts (s\<lparr>fo_previous_kind := k\<rparr>) = written ts s" "written ts (s\<lparr>fo_previous_text := x\<rparr>) = written ts s"
  by (simp_all add: written_def)

text \<open>A token that ends visibly, which only an unterminated string need not do.\<close>

definition ends_visibly :: "lex_token \<Rightarrow> bool" where
  "ends_visibly t \<longleftrightarrow> (if lt_kind t = T_String then \<not> blank (last (str_bytes (lt_text t))) else True)"

definition sound_token :: "lex_token \<Rightarrow> bool" where
  "sound_token t \<longleftrightarrow> token_spelled t \<and> ends_visibly t \<and> lt_kind t \<noteq> T_Whitespace"

lemma sound_text: "sound_token t \<Longrightarrow> written ts s \<Longrightarrow> written (ts @ [t]) (write_text (str_bytes (lt_text t)) s)"
  by (rule written_text) (auto simp: sound_token_def token_spelled_def spelled_def ends_visibly_def split: if_splits)

lemma sound_mark: "sound_token t \<Longrightarrow> map_of PUNCTUATION b = Some (lt_kind t) \<Longrightarrow> str_bytes (lt_text t) = [b]"
  by (auto simp: sound_token_def token_spelled_def spelled_def dest: map_of_SomeD)

lemma written_mark:
  "sound_token t \<Longrightarrow> written ts s \<Longrightarrow> map_of PUNCTUATION b = Some (lt_kind t) \<Longrightarrow> written (ts @ [t]) (write_text [b] s)"
  using sound_text [of t ts s] by (simp add: sound_mark)

lemma written_word: "sound_token t \<Longrightarrow> written ts s \<Longrightarrow> written (ts @ [t]) (word (lt_text t) s)"
  by (auto simp: word_def Let_def intro!: sound_text)

lemma written_operator:
  "sound_token t \<Longrightarrow> written ts s \<Longrightarrow> lit op = str_bytes (lt_text t) \<Longrightarrow> written (ts @ [t]) (binary_operator op s)"
  using sound_text [of t ts "space s"] by (simp add: binary_operator_def)

text \<open>Two tokens written as one operator.\<close>

lemma written_pair:
  assumes "sound_token t" "sound_token u" "written ts s" "lit op = str_bytes (lt_text t) @ str_bytes (lt_text u)"
  shows "written (ts @ [t, u]) (binary_operator op s)"
proof -
  have "written (ts @ [t]) (write_text (str_bytes (lt_text t)) (space s))"
    using sound_text [OF assms(1), of ts "space s"] assms(3) by simp
  then have "written ((ts @ [t]) @ [u]) (write_text (str_bytes (lt_text u)) (write_text (str_bytes (lt_text t)) (space s)))"
    by (rule sound_text [OF assms(2)])
  moreover have "write_text b (write_text a w) = write_text (a @ b) w" for a b w
    by (simp add: write_text_def)
  ultimately show ?thesis by (simp add: binary_operator_def assms(4))
qed

definition passed :: "formatter \<Rightarrow> lex_token list" where
  "passed s = take (fo_cursor s) (fo_tokens s)"

lemma written_with_equals:
  assumes "list_all sound_token (fo_tokens s)" "fo_cursor s < length (fo_tokens s)" "written (passed s) s"
    and "t = fo_tokens s ! fo_cursor s" "lit op = str_bytes (lt_text t)"
  shows "written (take (fo_cursor (with_equals op s) + 1) (fo_tokens s)) (with_equals op s)"
proof (cases "format_next_kind s = Some T_Equals")
  case True
  then obtain u where u: "get_at (fo_tokens s) (fo_cursor s + 1) = Some u" "lt_kind u = T_Equals"
    by (auto simp: format_next_kind_def)
  then have follow: "fo_cursor s + 1 < length (fo_tokens s)" "u = fo_tokens s ! (fo_cursor s + 1)"
    by (auto simp: get_at_def split: if_splits)
  with assms(1,2,4) have sound: "sound_token t" "sound_token u" by (auto simp: list_all_length)
  have "str_bytes (lt_text u) = [61]" by (rule sound_mark [OF sound(2)]) (simp add: u(2) PUNCTUATION_def)
  then have "lit (op @ ''='') = str_bytes (lt_text t) @ str_bytes (lt_text u)"
    using assms(5) by (simp add: lit_def)
  from written_pair [OF sound assms(3) this] follow assms(2,4) True show ?thesis
    by (simp add: with_equals_def Let_def passed_def take_Suc_conv_app_nth)
next
  case False
  have "sound_token t" using assms(1,2,4) by (simp add: list_all_length)
  with False written_operator [OF this assms(3,5)] assms(2,4) show ?thesis
    by (simp add: with_equals_def passed_def take_Suc_conv_app_nth)
qed

lemma written_token:
  assumes "list_all sound_token (fo_tokens s)" "fo_cursor s < length (fo_tokens s)" "written (passed s) s"
    and t: "t = fo_tokens s ! fo_cursor s"
  shows "written (take (fo_cursor (format_token t s) + 1) (fo_tokens s)) (format_token t s)"
proof -
  have sound: "sound_token t" using assms(1,2) by (simp add: t list_all_length)
  have one: "take (fo_cursor s + 1) (fo_tokens s) = passed s @ [t]"
    using assms(2) by (simp add: t passed_def take_Suc_conv_app_nth)
  note mark = written_mark [OF sound] sound_text [OF sound] written_word [OF sound]
  have comma: "lt_kind t = T_Comma \<Longrightarrow> written (passed s) r \<Longrightarrow> written (passed s @ [t]) r" for r
    by (simp add: written_def no_comma)
  have operator: "map_of PUNCTUATION b = Some (lt_kind t) \<Longrightarrow> lit op = [b] \<Longrightarrow> lit op = str_bytes (lt_text t)" for b op
    using sound_mark [OF sound] by simp
  show ?thesis
  proof (cases "lt_kind t")
    case T_Equals
    with written_with_equals [OF assms(1-3) t operator [of 61 "''=''"]] show ?thesis
      by (simp add: format_token_def PUNCTUATION_def)
  next
    case T_Less
    with written_with_equals [OF assms(1-3) t operator [of 60 "''<''"]] show ?thesis
      by (simp add: format_token_def PUNCTUATION_def)
  next
    case T_Greater
    with written_with_equals [OF assms(1-3) t operator [of 62 "''>''"]] show ?thesis
      by (simp add: format_token_def PUNCTUATION_def)
  next
    case T_Bang
    with written_with_equals [OF assms(1-3) t operator [of 33 "''!''"]] mark(2) [OF assms(3)] one show ?thesis
      by (simp add: format_token_def PUNCTUATION_def)
  next
    case T_Plus
    with written_operator [OF sound assms(3) operator [of 43 "''+''"]] one show ?thesis
      by (simp add: format_token_def PUNCTUATION_def)
  next
    case T_Minus
    with written_operator [OF sound assms(3) operator [of 45 "''-''"]] one show ?thesis
      by (simp add: format_token_def PUNCTUATION_def)
  next
    case T_Comma
    with one comma [OF T_Comma] assms(3) mark(1) show ?thesis
      by (auto simp: format_token_def comma_def PUNCTUATION_def split: option.split format_context.split)
  next
    case T_Whitespace
    with sound show ?thesis by (simp add: sound_token_def)
  qed (use one assms(3) mark in \<open>simp_all add: format_token_def PUNCTUATION_def open_brace_def close_brace_def Let_def\<close>)
qed

lemma written_step:
  assumes "list_all sound_token (fo_tokens s)" "fo_cursor s < length (fo_tokens s)" "written (passed s) s"
  shows "written (passed (format_step s)) (format_step s)"
  using written_token [OF assms refl] by (simp add: format_step_def Let_def passed_def format_token_cursor)

lemma written_loop:
  "list_all sound_token (fo_tokens s) \<Longrightarrow> written (passed s) s \<Longrightarrow>
     written (fo_tokens s) (format_loop s)"
proof (induction s rule: format_loop.induct)
  case (1 s)
  show ?case
  proof (cases "fo_cursor s < length (fo_tokens s)")
    case True
    have "fo_tokens (format_step s) = fo_tokens s" by (simp add: format_step_def Let_def format_token_cursor)
    with 1(1) [OF True] 1(2) written_step [OF 1(2) True 1(3)] True show ?thesis
      by (simp add: format_loop.simps [of s])
  next
    case False
    with 1 show ?thesis by (simp add: format_loop.simps [of s] passed_def)
  qed
qed

lemma format_finish_laid_out: "written ts s \<Longrightarrow> laid_out ts (format_finish s)"
  unfolding format_finish_def written_def
  by (rule laid_out_blanks) (simp_all add: core_pop_all blank_def)


end
