(* ===== verification/Front_Source.thy ===== *)
theory Front_Source
  imports Front_App Front_Parse_State Front_Parse_Ends Front_Format
begin

text \<open>
  From the source of an app to the program the device loads: the lexer and the parser in front
  of the compiler of \<open>Front_App\<close>.
\<close>

section \<open>What the parser gives the compiler\<close>

lemma as_json_int: "as_i64 v = Some n \<Longrightarrow> \<not> is_null v \<and> as_bool v = None"
  by (cases v) (simp_all add: as_i64_def as_bool_def as_str_def is_null_def)

lemma as_json_str: "as_str v = Some t \<Longrightarrow> \<not> is_null v \<and> as_bool v = None \<and> as_i64 v = None"
  by (cases v) (simp_all add: as_i64_def as_bool_def as_str_def is_null_def)

text \<open>A default that the parser accepts is one that the loader accepts.\<close>

lemma default_loads:
  assumes "state_default_matches (sv_value_type v) (sv_nullable v) (sv_value v)"
  shows "slot_loads strings v"
  using assms
  by (auto simp: state_default_matches_def slot_loads_def compiled_slot_def compiled_value_def state_type_tag_def
      is_named_def as_json_int as_json_str split: if_splits)

lemma accepted_state:
  assumes "parse_source env source = Inr (ast, ds)"
    and "compile_with_profile (\<lambda>_. (ast, ds)) source target profile = Inr r" "cr_ir r = Some ir"
  shows "fields_ok (ir_state ir)"
proof -
  let ?tree = "with_main_screen ast"
  from assms(2,3) have errors: "no_errors ds"
    by (auto simp: compile_with_profile_def compile_ast_def Let_def split: if_splits)
  from assms(2,3) obtain app where ir: "ir = lower_program ?tree app target"
    by (auto simp: compile_with_profile_def compile_ast_def Let_def split: if_splits option.splits)
  have state: "ast_state ?tree = ast_state ast"
    by (simp add: with_main_screen_def split: option.split)
  show ?thesis
  proof (cases "ast_state ast")
    case None
    then show ?thesis by (simp add: ir lower_program_def state fields_ok_def)
  next
    case (Some b)
    with parsed_state_ok [OF assms(1) errors] show ?thesis by (simp add: ir lower_program_def state)
  qed
qed

lemma accepted_source_names:
  assumes "parse_source env source = Inr (ast, ds)"
    and "compile_with_profile (\<lambda>_. (ast, ds)) source target profile = Inr r" "cr_ir r = Some ir"
  shows "names_distinct ir" "list_all (slot_loads strings) (ir_state ir)"
    "list_all (\<lambda>t. 0 < sint (it_interval_ms t)) (ir_triggers ir)"
proof -
  have fields: "fields_ok (ir_state ir)" by (rule accepted_state [OF assms])
  from assms(2) obtain ds' where "compile_ast ast ds' target (length (str_bytes source)) profile = Inr r"
    by (auto simp: compile_with_profile_def Let_def)
  from accepted_well_formed [OF this assms(3)] fields show "names_distinct ir"
    "list_all (\<lambda>t. 0 < sint (it_interval_ms t)) (ir_triggers ir)"
    by (auto simp: well_formed_program_def names_distinct_def fields_ok_def)
  from fields show "list_all (slot_loads strings) (ir_state ir)"
    by (auto simp: fields_ok_def list_all_iff intro: default_loads)
qed


section \<open>A sample source\<close>

text \<open>Running the lexer on ASCII text and the parser on tokens.\<close>

lemma scan_ascii:
  "scan_while p [] = Inr 0" "scan_string [] = Inr 0" "lex_from start [] = Inr []"
  "b < 128 \<Longrightarrow> scan_while p (b # s) = (if p (b # s) then and_then (scan_while p s) (\<lambda>n. Inr (Suc n)) else Inr 0)"
  "b < 128 \<Longrightarrow> scan_string (b # s) = (if b = 34 then Inr 1 else and_then (scan_string s) (\<lambda>n. Inr (Suc n)))"
  "lex_from start (b # s) = (case next_token (b # s) of
     Inl e \<Rightarrow> Inl e
   | Inr (kind, n) \<Rightarrow> and_then (lex_from (start + n) (drop n (b # s))) (\<lambda>tokens.
       Inr (lex_token_at kind (take n (b # s)) start (start + n) # tokens)))"
  by (subst scan_while.simps scan_string.simps lex_from.simps; simp; fail)+

lemmas lex_steps = scan_ascii next_token_def next_width_def ident_start_def is_alphabetic_def white_part_def
  number_part_def is_digit_def first_white_def WHITE_SPACE_def ident_part_def starts_with_def
  punctuation_kind_def PUNCTUATION_def lex_token_at_def and_then_def

lemma parse_run:
  "bind_exec m f s = (case m s of (r, t) \<Rightarrow> case r of Inr v \<Rightarrow> f v t | Inl e \<Rightarrow> (Inl e, t))"
  "gets g s = (Inr (g s), s)" "modify h s = (Inr (), h s)" "ret v s = (Inr v, s)"
  "then_do n m' s = (case n s of (r, t) \<Rightarrow> case r of Inr v \<Rightarrow> m' t | Inl e \<Rightarrow> (Inl e, t))"
  "on test a b s = (if test s then a s else b s)"
  "and_some c k s = (case c s of (r, t) \<Rightarrow>
     case r of Inr v \<Rightarrow> (case v of None \<Rightarrow> (Inr None, t) | Some v \<Rightarrow> k v t) | Inl e \<Rightarrow> (Inl e, t))"
  "unwrap_or c' d s = (case c' s of (r, t) \<Rightarrow>
     case r of Inr v \<Rightarrow> (Inr (case v of None \<Rightarrow> d | Some v \<Rightarrow> v), t) | Inl e \<Rightarrow> (Inl e, t))"
  "while_tokens i body x s = loop i (\<lambda>a. on at_end (ret (Inr a)) (body a)) x s"
  "loop (numeral n') body' y s =
     bind_exec (body' y) (\<lambda>r. case r of Inl a' \<Rightarrow> loop (pred_numeral n') body' a' | Inr b \<Rightarrow> ret b) s"
  "loop (Suc j) body' y s = bind_exec (body' y) (\<lambda>r. case r of Inl a' \<Rightarrow> loop j body' a' | Inr b \<Rightarrow> ret b) s"
  by (auto simp: bind_exec_def then_do_def on_def and_some_def unwrap_or_def while_tokens_def numeral_eq_Suc
      split: prod.splits sum.splits option.splits)

lemmas token_steps = parse_run bump_def consume_ws_def white_run_def is_white_def at_kind_def at_ident_def peek_def
  get_at_def at_end_def next_kind_def skip_def skip_ident_def consume_kind_def consume_ident_def consume_string_def
  consume_number_def consume_name_def string_or_def peek_text_def here_def end_or_def previous_end_def trim_quotes_def
  report_from_def report_def on_ast_def consume_comma_def at_qualified_ident_def at_event_method_def

lemmas state_steps = root_step_def plain_declaration_def reject_pending_attribute_def take_preload_def parse_app_def
  titleize_def parse_state_def state_options_def state_field_step_def state_field_def add_state_field_def
  question_mark_def consume_literal_value_def is_named_def STATE_TYPES_def state_default_matches_def trim_marks_def
  parse_i64_def parse_unsigned_def parse_magnitude_def digit_value_def json_int_def as_i64_def number_as_i64_def
  is_null_def ascii_upper_def

text \<open>An app with a state field.\<close>

definition sample_source :: ustr where
  "sample_source = Str (lit (''app '' @ [CHR 34] @ ''t'' @ [CHR 34] @ '' state { n: int = 0 }''))"

definition sample_env :: parse_env where
  "sample_env = \<lparr>pe_fuel = 20, pe_to_value = \<lambda>_. JNull, pe_from_value = \<lambda>_. None\<rparr>"

definition source_tree :: ast_root where
  "source_tree = ast_default\<lparr>
     ast_app := Some \<lparr>aa_id = Str (lit ''t''), aa_name = Str (lit ''T''), aa_target = None,
       aa_span = \<lparr>span_start = 0, span_end = 8\<rparr>\<rparr>,
     ast_state := Some \<lparr>ab_selected_default = 0, ab_store = Str (lit ''default''),
       ab_values = [\<lparr>sv_name = Str (lit ''n''), sv_value_type = Str (lit ''int''), sv_nullable = False,
         sv_value = JNumber (PosInt 0)\<rparr>],
       ab_span = \<lparr>span_start = 8, span_end = 28\<rparr>\<rparr>\<rparr>"

lemma sample_source_parses: "parse_source sample_env sample_source = Inr (source_tree, [])"
  apply (simp add: parse_source_def sample_source_def lex_def lex_steps)
  apply (simp add: parse_tokens_def parse_root_def sample_env_def initial_parser_def ast_default_def)
  apply (simp add: token_steps state_steps)
  apply (simp add: source_tree_def ast_default_def eval_nat_numeral)
  done

definition source_ir :: ir_program where
  "source_ir = lower_program (with_main_screen source_tree) (the (ast_app source_tree)) PORTABLE_TARGET_ID"

lemmas source_ir_defs = source_ir_def source_tree_def ast_default_def lower_program_def with_main_screen_def
  lower_triggers_def List.map_filter_def lower_function_def lower_handler_def lower_screen_def

lemma sample_source_accepted:
  "\<exists>r. compile_with_profile (\<lambda>_. (source_tree, [])) sample_source PORTABLE_TARGET_ID Dev = Inr r \<and>
     cr_ir r = Some source_ir"
proof -
  have "no_errors (validate_semantics (with_main_screen source_tree))"
    by (simp add: source_tree_def with_main_screen_def ast_default_def validate_semantics_def Let_def
      validate_state_builtin_shadowing_def validate_device_bindings_def validate_handler_events_def
      validate_trigger_routes_def validate_ble_profile_ids_def validate_screen_statements_def
      validate_names_def validate_debug_blocks_def validate_ignored_fallible_results_def validate_screen_references_def
      validate_shadowing_def declared_states_def is_fallible_builtin_def FALLIBLE_BUILTINS_def function_map_of_def
      btree_collect_def collect_render_impure_functions_def render_impure_loop.simps [of "[]"])
  moreover have "app_diagnostics source_tree PORTABLE_TARGET_ID n = []" for n
    by (simp add: app_diagnostics_def source_tree_def ast_default_def)
  moreover have "ast_app (with_main_screen source_tree) = ast_app source_tree" "ast_app source_tree \<noteq> None"
    by (simp_all add: with_main_screen_def source_tree_def ast_default_def)
  moreover have "ast_imports source_tree = []" by (simp add: source_tree_def ast_default_def)
  ultimately show ?thesis
    by (auto simp: compile_with_profile_def compile_ast_def source_ir_def Let_def)
qed

definition source_unit :: compile_unit where
  "source_unit = \<lparr>cu_strings =
       \<lparr>sb_ids = [Str (lit ''t'') \<mapsto> 0, Str (lit ''n'') \<mapsto> 1, Str (lit ''main'') \<mapsto> 2],
        sb_values = [Str (lit ''t''), Str (lit ''n''), Str (lit ''main'')]\<rparr>,
     cu_states = [Str (lit ''n'') \<mapsto> 0], cu_functions = Map.empty,
     cu_function_metas = [], cu_handler_metas = [],
     cu_screen_metas = [\<lparr>sm_name_id = 2, sm_start = 0, sm_len = 1\<rparr>],
     cu_code = [42]\<rparr>"

lemma source_compiles: "compile_unit_of (\<lambda>_. None) source_ir Dev unit_default = (Inr (), source_unit)"
  apply (simp add: source_ir_defs source_unit_def)
  apply (simp add: compile_unit_of_def collect_strings_def intern_only_def
      unit_default_def strtab_default_def collect_json_value_def collect_statements_def run_steps)
  apply (simp add: compile_screen_def compile_frame_def code_position_def with_params_def frame_default_def
      compile_statements_def keeping_def emit_ref_def emit_def emit_bytes_def check_frame_code_len_def
      le_bytes splice_def run_steps)
  done

lemma source_encodes: "\<exists>bytes. encode_sqbc_with_profile (\<lambda>_. None) source_ir Dev = Inr bytes"
  unfolding encode_sqbc_with_profile_def source_compiles
  apply (simp add: check_program_limits_def source_ir_defs source_unit_def)
  apply (simp add: encode_sections_def encode_app_meta_def encode_device_bindings_def encode_table_def
      strtab_encode_def encode_state_section_def encode_state_row_def encode_triggers_def
      encode_ble_profiles_def encode_http_profiles_def collect_ble_profiles_def collect_http_profiles_def
      encode_functions_def encode_handlers_def encode_screens_def screen_row_bytes_def lookup_id_def state_type_tag_def
      encode_value_def all_statements_def le_bytes encode_container_def record_bytes_def run_steps)
  done


section \<open>Sources on which the parser ends and on which it does not\<close>

text \<open>A function and its parameters, one of them, if asked for, with a type.\<close>

definition function_source :: "string \<Rightarrow> ustr" where
  "function_source param = Str (lit (''function f(a, '' @ param @ '') {}''))"

definition plain_tokens :: "lex_token list" where
  "plain_tokens = map (\<lambda>(k, text, i). lex_token_at k (lit text) i (i + length text))
     [(T_Ident, ''function'', 0), (T_Whitespace, '' '', 8), (T_Ident, ''f'', 9), (T_OpenParen, ''('', 10),
      (T_Ident, ''a'', 11), (T_Comma, '','', 12), (T_Whitespace, '' '', 13), (T_Ident, ''b'', 14),
      (T_CloseParen, '')'', 15), (T_Whitespace, '' '', 16), (T_OpenBrace, ''{'', 17), (T_CloseBrace, ''}'', 18)]"

lemma plain_lexed: "lex (function_source ''b'') = Inr plain_tokens"
  by (simp add: function_source_def plain_tokens_def lex_def lex_steps)

lemma parse_ends_witness: "\<exists>ast ds. parse_source sample_env (function_source ''b'') = Inr (ast, ds)"
  by (rule parse_ends [OF plain_lexed])
     (simp_all add: plain_tokens_def lex_token_at_def params_at_def names_plain_def only_to_def sample_env_def)

definition typed_parameter :: parser where
  "typed_parameter = initial_parser (map (\<lambda>(k, text). lex_token_at k (lit text) 0 0)
     [(T_OpenParen, ''(''), (T_Ident, ''a''), (T_Colon, '':''), (T_Ident, ''int''), (T_CloseParen, '')'')])"

lemma param_list_hangs_iff_witness: "fst (parse_param_list sample_env typed_parameter) = Inl (Err Hangs)"
  by (subst param_list_hangs_iff)
     (simp_all add: typed_parameter_def initial_parser_def sample_env_def at_kind_rest rest_def left_def
       lex_token_at_def names_plain_def only_to_def)

section \<open>Formatting\<close>

definition import_source :: ustr where
  "import_source = Str (lit (''import lib_ from '' @ [CHR 34] @ ''m'' @ [CHR 34]))"

definition import_tokens :: "lex_token list" where
  "import_tokens = map (\<lambda>(k, text, i). lex_token_at k (lit text) i (i + length text))
     [(T_Ident, ''import'', 0), (T_Whitespace, '' '', 6), (T_Ident, ''lib_'', 7), (T_Whitespace, '' '', 11),
      (T_Ident, ''from'', 12), (T_Whitespace, '' '', 16), (T_String, [CHR 34] @ ''m'' @ [CHR 34], 17)]"

lemma import_lexed: "lex import_source = Inr import_tokens"
  by (simp add: import_source_def import_tokens_def lex_def lex_steps)

lemma import_parsed: "\<exists>ast. parse_source sample_env import_source = Inr (ast, [])"
  apply (simp add: parse_source_def import_lexed)
  apply (simp add: import_tokens_def lex_token_at_def parse_tokens_def parse_root_def sample_env_def initial_parser_def
      ast_default_def)
  apply (simp add: token_steps root_step_def plain_declaration_def reject_pending_attribute_def take_preload_def
      parse_import_def)
  done

lemmas format_steps = format_loop.simps format_step_def format_token_def word_def break_before_word_if_needed_def
  is_top_level_keyword_def TOP_LEVEL_KEYWORDS_def is_named_def previous_is_def blank_line_def newline_def
  needs_space_before_word_def space_def write_text_def pop_all_def ends_with_def is_alphabetic_def is_digit_def
  context_top_def is_statement_or_field_start_def



end
