(* ===== verification/Cli_Tools.thy ===== *)
theory Cli_Tools
  imports Front_Source
begin

text \<open>
  The parts of the command-line tools that compute (\<open>squidc-cli/src\<close>): app ids
  (\<open>app_id.rs\<close>), building (\<open>compile.rs\<close>), the paths of package entries (\<open>package.rs\<close>) and
  the arguments of content commands (\<open>main.rs\<close>).  Files are arguments: a source is its text,
  and the stem of a path is given.
\<close>

section \<open>App ids\<close>

definition source_app_id :: "(ustr \<Rightarrow> ast_root \<times> diagnostics) \<Rightarrow> ustr \<Rightarrow> ustr option" where
  "source_app_id parse source =
     (case ast_app (fst (parse source)) of
        Some app \<Rightarrow> if str_bytes (aa_id app) = [] then None else Some (aa_id app)
      | None \<Rightarrow> None)"

definition source_for_compile :: "(ustr \<Rightarrow> ast_root \<times> diagnostics) \<Rightarrow> ustr \<Rightarrow> ustr \<Rightarrow> ustr" where
  "source_for_compile parse source app_id =
     (if source_app_id parse source \<noteq> None then source
      else Str (lit ''app '' @ [34] @ str_bytes app_id @ [34, 10, 10] @ str_bytes source))"

text \<open>
  \<open>fold\<close> over the characters: a letter or digit in lower case, a dash for a run of others.  A
  character outside ASCII is a run of bytes that are neither.
\<close>

definition ascii_lower :: "u8 \<Rightarrow> u8" where
  "ascii_lower b = (if 65 \<le> b \<and> b \<le> 90 then b + 32 else b)"

fun sanitize_bytes :: "bool \<Rightarrow> rstr \<Rightarrow> rstr" where
  "sanitize_bytes previous_dash [] = []"
| "sanitize_bytes previous_dash (b # bs) =
     (if is_alphabetic b \<or> is_digit b then ascii_lower b # sanitize_bytes False bs
      else if \<not> previous_dash then 45 # sanitize_bytes True bs
      else sanitize_bytes True bs)"

definition trim_dashes :: "rstr \<Rightarrow> rstr" where
  "trim_dashes s = rev (dropWhile (\<lambda>b. b = 45) (rev (dropWhile (\<lambda>b. b = 45) s)))"

definition sanitize_app_id :: "ustr \<Rightarrow> rstr" where
  "sanitize_app_id s =
     (let out = trim_dashes (sanitize_bytes False (str_bytes s)) in if out = [] then lit ''app'' else out)"

definition fnv1a :: "u8 list \<Rightarrow> u32" where
  "fnv1a data = fold (\<lambda>b hash. (hash XOR ucast b) * 0x01000193) data 0x811c9dc5"

text \<open>\<open>{:08x}\<close>.\<close>

definition hex8 :: "u32 \<Rightarrow> rstr" where
  "hex8 n = map (\<lambda>i. let d = unat (drop_bit (4 * i) n AND 15) in of_nat (if d < 10 then 48 + d else 87 + d))
     [7, 6, 5, 4, 3, 2, 1, 0]"

definition generated_app_id :: "ustr option \<Rightarrow> ustr \<Rightarrow> rstr" where
  "generated_app_id stem source =
     sanitize_app_id (case stem of Some s \<Rightarrow> s | None \<Rightarrow> Str (lit ''app'')) @ [45] @ hex8 (fnv1a (str_bytes source))"

section \<open>Building\<close>

text \<open>\<open>target_id_from_arg\<close> reads a file if its argument is one: \<open>file_id\<close>.\<close>

definition compile_target_id :: "(ustr \<Rightarrow> ustr) \<Rightarrow> ustr option \<Rightarrow> bool \<Rightarrow> (rstr, ustr) res" where
  "compile_target_id file_id target check_target =
     (if check_target
      then (case target of None \<Rightarrow> Inl (Err (lit ''--check-target requires --target'')) | Some t \<Rightarrow> Inr (file_id t))
      else Inr PORTABLE_TARGET_ID)"

text \<open>The id in a target file: the value of the first line that starts with the key.\<close>

fun target_id_in :: "rstr list \<Rightarrow> ustr \<Rightarrow> ustr" where
  "target_id_in [] target = target"
| "target_id_in (line # lines) target =
     (case strip_prefix (str_trim line) ([34] @ lit ''id'' @ [34]) of
        Some tail \<Rightarrow>
          (case split_once 58 tail of
             Some (_, v) \<Rightarrow>
               (let v = rev (dropWhile (\<lambda>b. b = 44) (rev (str_trim v))) in Str (trim_quotes v))
           | None \<Rightarrow> target_id_in lines target)
      | None \<Rightarrow> target_id_in lines target)"

definition target_id_from_arg :: "(ustr \<Rightarrow> ustr option) \<Rightarrow> ustr \<Rightarrow> ustr" where
  "target_id_from_arg read target =
     (case read target of None \<Rightarrow> target | Some content \<Rightarrow> target_id_in (str_lines (str_bytes content)) target)"

text \<open>A response without errors becomes a file; \<open>compile_path_to_sqbc\<close> does the same after loading.\<close>

definition response_to_sqbc :: "expr_parser \<Rightarrow> build_profile \<Rightarrow> compile_response \<Rightarrow> (rstr, u8 list) res" where
  "response_to_sqbc of_json profile r =
     (if \<not> cr_ok r then Inl (Err (lit ''compile failed''))
      else case cr_ir r of
          None \<Rightarrow> Inl (Err (lit ''compiler returned no IR''))
        | Some ir \<Rightarrow> encode_sqbc_with_profile of_json ir profile)"

definition compile_source_to_sqbc ::
  "expr_parser \<Rightarrow> (ustr \<Rightarrow> ast_root \<times> diagnostics) \<Rightarrow> ustr \<Rightarrow> ustr \<Rightarrow> build_profile \<Rightarrow> (rstr, u8 list) res" where
  "compile_source_to_sqbc of_json parse source target profile =
     and_then (compile_with_profile parse source target profile) (response_to_sqbc of_json profile)"

definition compile_path_to_sqbc ::
  "expr_parser \<Rightarrow> nat \<Rightarrow> 'p::linorder module_env \<Rightarrow> nat \<Rightarrow> 'p \<Rightarrow> ustr \<Rightarrow> build_profile \<Rightarrow> (rstr, u8 list) res" where
  "compile_path_to_sqbc of_json fuel env file_len input target profile =
     and_then (compile_path_with_profile fuel env file_len input target profile) (response_to_sqbc of_json profile)"

section \<open>Package entries\<close>

fun join_slash :: "rstr list \<Rightarrow> rstr" where
  "join_slash [] = []"
| "join_slash [p] = p"
| "join_slash (p # ps) = p @ 47 # join_slash ps"

definition path_refused :: "ustr \<Rightarrow> (rstr, 'a) res" where
  "path_refused path = Inl (Err (lit ''invalid package entry path: '' @ str_bytes path))"

text \<open>The parts of a path; \<open>None\<close> if one is hidden or leads up.\<close>

fun path_parts :: "rstr list \<Rightarrow> rstr list option" where
  "path_parts [] = Some []"
| "path_parts (p # ps) =
     (if p = [] \<or> p = lit ''.'' then path_parts ps
      else if p = lit ''..'' \<or> starts_with p (lit ''.'') then None
      else map_option (\<lambda>qs. p # qs) (path_parts ps))"

definition reserved_path :: "rstr \<Rightarrow> bool" where
  "reserved_path n \<longleftrightarrow> n = [] \<or> n = lit ''sd'' \<or> starts_with n (lit ''sd/'') \<or> n = lit ''system'' \<or>
     starts_with n (lit ''system/'') \<or> ends_with n (lit ''.squid'') \<or> n = lit ''source-map.json'' \<or>
     ends_with n (lit ''.squid.zip'')"

definition normalize_package_entry_path :: "ustr \<Rightarrow> (rstr, ustr) res" where
  "normalize_package_entry_path path =
     (let s = str_bytes path in
      if s = [] \<or> starts_with s [47] \<or> 92 \<in> set s \<or> get_at s 1 = Some 58 then path_refused path
      else case path_parts (split_bytes (\<lambda>b. b = 47) s) of
          None \<Rightarrow> path_refused path
        | Some parts \<Rightarrow>
            (let n = join_slash parts in if reserved_path n then path_refused path else Inr (Str n)))"

section \<open>Content commands\<close>

definition parse_crc32_arg :: "ustr \<Rightarrow> (rstr, u64) res" where
  "parse_crc32_arg v =
     (let s = (case strip_prefix (str_bytes v) (lit ''0x'') of Some t \<Rightarrow> t | None \<Rightarrow> str_bytes v) in
      if s = [] \<or> 8 < length s \<or> \<not> list_all (\<lambda>b. digit_value 16 b \<noteq> None) s
      then Inl (Err (lit ''invalid crc32 value: '' @ s))
      else case parse_unsigned 16 (2 ^ 64 - 1) s of
          Some n \<Rightarrow> Inr (of_nat n)
        | None \<Rightarrow> Inl (Err (lit ''invalid crc32 value '' @ s @ lit '': number too large to fit in target type'')))"

section \<open>Ids are clean\<close>

definition id_byte :: "u8 \<Rightarrow> bool" where
  "id_byte b \<longleftrightarrow> is_digit b \<or> 97 \<le> b \<and> b \<le> 122 \<or> b = 45"

lemma ascii_lower_id: "is_alphabetic b \<or> is_digit b \<Longrightarrow> id_byte (ascii_lower b) \<and> ascii_lower b \<noteq> 45"
  unfolding is_alphabetic_def is_digit_def id_byte_def ascii_lower_def by (auto simp: word_le_nat_alt unat_word_ariths)

lemma sanitize_bytes_id: "list_all id_byte (sanitize_bytes d bs)"
  by (induction d bs rule: sanitize_bytes.induct) (simp_all add: ascii_lower_id, simp add: id_byte_def)

text \<open>No two dashes in a row.\<close>

fun single_dashes :: "rstr \<Rightarrow> bool" where
  "single_dashes (a # b # bs) \<longleftrightarrow> \<not> (a = 45 \<and> b = 45) \<and> single_dashes (b # bs)"
| "single_dashes _ = True"

lemma sanitize_bytes_dashes:
  "single_dashes (sanitize_bytes d bs) \<and> (d \<longrightarrow> sanitize_bytes d bs = [] \<or> hd (sanitize_bytes d bs) \<noteq> 45)"
proof (induction d bs rule: sanitize_bytes.induct)
  case (2 d b bs)
  have one: "single_dashes (x # xs)" if "single_dashes xs" "x \<noteq> 45 \<or> xs = [] \<or> hd xs \<noteq> 45" for x :: u8 and xs
    using that by (cases xs) auto
  from 2 ascii_lower_id [of b] show ?case by (auto intro!: one)
qed simp

lemma single_dashes_drop: "single_dashes (xs @ ys) \<Longrightarrow> single_dashes ys"
  by (induction xs) (auto, metis list.exhaust single_dashes.simps(1) single_dashes.simps(2))

lemma single_dashes_take: "single_dashes (xs @ ys) \<Longrightarrow> single_dashes xs"
  by (induction xs rule: single_dashes.induct) auto

lemma trim_dashes_part: "\<exists>as bs. s = as @ trim_dashes s @ bs"
proof -
  define t where "t = dropWhile (\<lambda>b. b = 45) s"
  have "s = takeWhile (\<lambda>b. b = 45) s @ t" by (simp add: t_def)
  moreover have "t = trim_dashes s @ rev (takeWhile (\<lambda>b. b = 45) (rev t))"
    unfolding trim_dashes_def t_def [symmetric]
    by (metis rev_append rev_rev_ident takeWhile_dropWhile_id)
  ultimately show ?thesis by metis
qed

lemma trim_dashes_ends: "trim_dashes s \<noteq> [] \<Longrightarrow> hd (trim_dashes s) \<noteq> 45 \<and> last (trim_dashes s) \<noteq> 45"
proof -
  assume some: "trim_dashes s \<noteq> []"
  define t where "t = dropWhile (\<lambda>b. b = 45) s"
  have trim: "trim_dashes s = rev (dropWhile (\<lambda>b. b = 45) (rev t))" by (simp add: trim_dashes_def t_def)
  have "last (trim_dashes s) \<noteq> 45"
    using some hd_dropWhile [of "\<lambda>b. b = 45" "rev t"] by (simp add: trim last_rev)
  moreover obtain bs where t: "t = trim_dashes s @ bs"
    by (metis rev_append rev_rev_ident takeWhile_dropWhile_id trim)
  have "hd (trim_dashes s) = hd t" by (subst t) (simp add: some)
  moreover have "t \<noteq> []" using t some by auto
  then have "hd t \<noteq> 45" unfolding t_def using hd_dropWhile [of "\<lambda>b. b = 45" s] by simp
  ultimately show ?thesis by simp
qed

lemma sanitized_clean:
  "list_all id_byte (trim_dashes (sanitize_bytes False bs)) \<and> single_dashes (trim_dashes (sanitize_bytes False bs))"
proof -
  let ?s = "sanitize_bytes False bs"
  obtain as cs where split: "?s = as @ trim_dashes ?s @ cs" using trim_dashes_part by blast
  have "list_all id_byte (as @ trim_dashes ?s @ cs)" using sanitize_bytes_id split by metis
  moreover have "single_dashes (as @ trim_dashes ?s @ cs)" using sanitize_bytes_dashes split by metis
  ultimately show ?thesis by (auto dest: single_dashes_drop single_dashes_take)
qed

text \<open>
  An id made from a file name is clean: it is not empty, has only digits, small letters and
  dashes, neither starts nor ends with a dash and has no two in a row.
\<close>

theorem sanitized_app_id_clean:
  "sanitize_app_id s \<noteq> [] \<and> list_all id_byte (sanitize_app_id s) \<and> single_dashes (sanitize_app_id s) \<and>
     hd (sanitize_app_id s) \<noteq> 45 \<and> last (sanitize_app_id s) \<noteq> 45"
proof (cases "trim_dashes (sanitize_bytes False (str_bytes s)) = []")
  case True
  then show ?thesis by (simp add: sanitize_app_id_def id_byte_def)
next
  case False
  with trim_dashes_ends [OF False] sanitized_clean [of "str_bytes s"] show ?thesis by (simp add: sanitize_app_id_def)
qed

section \<open>The file that is built\<close>



section \<open>Package paths are safe\<close>

lemma utf8_split:
  assumes "utf8_valid (xs @ b # ys)" "b < 128"
  shows "utf8_valid xs" "utf8_valid ys"
proof -
  have "\<not> utf8_cont b" using assms(2) by (auto simp: utf8_cont_def word_le_nat_alt word_less_nat_alt)
  then have "is_char_boundary (xs @ b # ys) (length xs)" by (simp add: is_char_boundary_def nth_append)
  with assms(1) utf8_valid_take_boundary [of "xs @ b # ys" "length xs"] utf8_valid_drop_boundary [of "xs @ b # ys" "length xs"]
  show "utf8_valid xs" "utf8_valid ys" using assms(2) by simp_all
qed

lemma split_bytes_part: "p \<in> set (split_bytes q s) \<Longrightarrow> b \<in> set p \<Longrightarrow> \<not> q b \<and> b \<in> set s"
proof (induction s arbitrary: p b)
  case (Cons c bs)
  show ?case
  proof (cases "q c")
    case True
    with Cons.prems have "p \<in> set (split_bytes q bs)" by auto
    from Cons.IH [OF this Cons.prems(2)] show ?thesis by simp
  next
    case False
    show ?thesis
    proof (cases "split_bytes q bs")
      case Nil
      with False Cons.prems show ?thesis by simp
    next
      case split: (Cons part parts)
      with False Cons.prems(1) have "p = c # part \<or> p \<in> set parts" by simp
      then show ?thesis
      proof
        assume "p = c # part"
        with Cons.IH [of part b] Cons.prems(2) split False show ?thesis by auto
      next
        assume "p \<in> set parts"
        with Cons.IH [of p b] Cons.prems(2) split show ?thesis by auto
      qed
    qed
  qed
qed simp

lemma split_slash_first:
  "47 \<notin> set p \<Longrightarrow> split_bytes (\<lambda>b. b = 47) (p @ 47 # r) = p # split_bytes (\<lambda>b. b = 47) r"
  by (induction p) simp_all

lemma split_slash_only: "47 \<notin> set p \<Longrightarrow> split_bytes (\<lambda>b. b = 47) p = [p]"
  by (induction p) simp_all

lemmas split_slash = split_slash_first split_slash_only

lemma split_join_slash:
  "ps \<noteq> [] \<Longrightarrow> \<forall>p \<in> set ps. 47 \<notin> set p \<Longrightarrow> split_bytes (\<lambda>b. b = 47) (join_slash ps) = ps"
  by (induction ps rule: join_slash.induct) (auto simp: split_slash)

lemma split_bytes_utf8:
  "utf8_valid s \<Longrightarrow> p \<in> set (split_bytes (\<lambda>b. b = 47) s) \<Longrightarrow> utf8_valid p"
proof (induction "length s" arbitrary: s p rule: less_induct)
  case less
  show ?case
  proof (cases "47 \<in> set s")
    case True
    then obtain xs ys where s: "s = xs @ 47 # ys" "47 \<notin> set xs" by (meson split_list_first)
    have "utf8_valid xs" "utf8_valid ys" using utf8_split [of xs 47 ys] less.prems(1) s(1) by simp_all
    with less.hyps [of ys p] less.prems(2) s show ?thesis by (auto simp: split_slash)
  next
    case False
    with less.prems split_slash_only [of s] show ?thesis by auto
  qed
qed

lemma join_slash_utf8: "\<forall>p \<in> set ps. utf8_valid p \<Longrightarrow> utf8_valid (join_slash ps)"
  by (induction ps rule: join_slash.induct) (auto intro!: utf8_valid_appendI)

lemma join_slash_bytes: "b \<in> set (join_slash ps) \<Longrightarrow> b = 47 \<or> (\<exists>p \<in> set ps. b \<in> set p)"
  by (induction ps rule: join_slash.induct) auto

definition clean_part :: "rstr \<Rightarrow> bool" where
  "clean_part p \<longleftrightarrow> p \<noteq> [] \<and> hd p \<noteq> 46"

lemma path_parts_clean: "path_parts ps = Some qs \<Longrightarrow> set qs \<subseteq> set ps \<and> list_all clean_part qs"
  by (induction ps arbitrary: qs rule: path_parts.induct)
     (auto simp: clean_part_def starts_with_def neq_Nil_conv split: if_splits)

lemma path_parts_fixed: "list_all clean_part qs \<Longrightarrow> path_parts qs = Some qs"
  by (induction qs) (auto simp: clean_part_def starts_with_def neq_Nil_conv)

text \<open>
  C12: a package entry that is accepted stays inside of the app: none of its parts is empty, hidden
  or leads up, and it is not in the system's directories.  Normalising it again changes nothing,
  unless its second byte is a colon, which is checked before the leading dots are removed:
  \<open>./c:/x\<close> is accepted as \<open>c:/x\<close>.
\<close>

theorem package_path_safe:
  assumes "normalize_package_entry_path path = Inr n"
  shows "list_all clean_part (split_bytes (\<lambda>b. b = 47) (str_bytes n)) \<and> \<not> reserved_path (str_bytes n) \<and>
    92 \<notin> set (str_bytes n) \<and>
    normalize_package_entry_path n = (if get_at (str_bytes n) 1 = Some 58 then path_refused n else Inr n)"
proof -
  let ?split = "split_bytes (\<lambda>b. b = 47)"
  obtain parts where parts: "path_parts (?split (str_bytes path)) = Some parts" "n = Str (join_slash parts)"
    "\<not> reserved_path (join_slash parts)" "92 \<notin> set (str_bytes path)"
    using assms by (auto simp: normalize_package_entry_path_def path_refused_def Let_def split: if_splits option.splits)
  have subset: "set parts \<subseteq> set (?split (str_bytes path))" and clean: "list_all clean_part parts"
    using path_parts_clean [OF parts(1)] by auto
  have utf8: "\<forall>p \<in> set parts. utf8_valid p"
    using subset split_bytes_utf8 [OF str_bytes_valid] by blast
  have bytes: "\<forall>p \<in> set parts. 47 \<notin> set p \<and> 92 \<notin> set p"
    using subset split_bytes_part [of _ "\<lambda>b. b = 47" "str_bytes path"] parts(4) by blast
  have some: "parts \<noteq> []" using parts(3) by (auto simp: reserved_path_def)
  have n: "str_bytes n = join_slash parts" by (simp add: parts(2) join_slash_utf8 [OF utf8])
  have reserved: "\<not> reserved_path (join_slash parts)" "Str (join_slash parts) = n" using parts by simp_all
  have split: "?split (str_bytes n) = parts" unfolding n by (rule split_join_slash) (use some bytes in auto)
  have no_backslash: "92 \<notin> set (str_bytes n)" using bytes join_slash_bytes [of 92 parts] by (auto simp: n)
  have not_empty: "str_bytes n \<noteq> []" using parts(3) by (auto simp: reserved_path_def n)
  moreover have "\<not> starts_with (str_bytes n) [47]"
  proof
    assume "starts_with (str_bytes n) [47]"
    then have "?split (str_bytes n) = [] # ?split (tl (str_bytes n))"
      using not_empty by (cases "str_bytes n") (auto simp: starts_with_def)
    with split clean show False by (auto simp: clean_part_def)
  qed
  ultimately have "normalize_package_entry_path n = (if get_at (str_bytes n) 1 = Some 58 then path_refused n else Inr n)"
    using split path_parts_fixed [OF clean] no_backslash
    by (simp only: normalize_package_entry_path_def Let_def) (simp add: reserved)
  with split clean parts(3) no_backslash show ?thesis by (simp add: n)
qed

lemma package_path_safe_witness:
  "normalize_package_entry_path (Str (lit ''./c:/x'')) = Inr (Str (lit ''c:/x'')) \<and>
   normalize_package_entry_path (Str (lit ''c:/x'')) = path_refused (Str (lit ''c:/x''))"
proof -
  have "normalize_package_entry_path (Str (lit ''./c:/x'')) = Inr (Str (lit ''c:/x''))"
    by (simp add: normalize_package_entry_path_def starts_with_def ends_with_def reserved_path_def get_at_def)
  from package_path_safe [OF this] this show ?thesis by (simp add: get_at_def)
qed

end
