(* ===== verification/Ffi_Config.thy ===== *)
theory Ffi_Config
  imports Front_Config Front_Lexer
begin

text \<open>
  Device configurations on the device (\<open>squidvm-ffi/src/lib.rs\<close>): a second implementation of
  the \<open>SQDEVICE\<close> and \<open>SQDC\<close> formats in fixed arrays, and the plan of a device binding.  The
  theory relates it to the compiler's implementation in \<open>Front_Config\<close>.

  A status other than \<open>Ok\<close> is the error of a result; a configuration that is changed is the
  state.  A pointer of the C interface is the bytes it points to, or \<open>None\<close> if it is null.
\<close>

section \<open>Data\<close>

abbreviation (input) SQDC_CONFIG_MAX_RECORDS :: nat where "SQDC_CONFIG_MAX_RECORDS \<equiv> 5"
abbreviation (input) SQDC_CONFIG_KEY_CAP :: nat where "SQDC_CONFIG_KEY_CAP \<equiv> 32"
abbreviation (input) SQDC_CONFIG_STRING_CAP :: nat where "SQDC_CONFIG_STRING_CAP \<equiv> 48"
abbreviation (input) SQVM_DEVICE_BINDING_NAME_CAP :: nat where "SQVM_DEVICE_BINDING_NAME_CAP \<equiv> 32"
abbreviation (input) SQVM_DEVICE_BINDING_RESOURCE_CAP :: nat where "SQVM_DEVICE_BINDING_RESOURCE_CAP \<equiv> 128"

datatype sqdc_status =
    SqdcInvalidArgument | SqdcBufferTooSmall | SqdcParseError | SqdcTooManyRecords

datatype sqdc_kind = SK_Null | SK_Bool | SK_I32 | SK_String

record sqdc_value =
  sv_kind :: sqdc_kind
  sv_bool :: bool
  sv_i32 :: i32
  sv_string :: "u8 list"
  sv_string_len :: nat

definition sqdc_value_default :: sqdc_value where
  "sqdc_value_default = \<lparr>sv_kind = SK_Null, sv_bool = False, sv_i32 = 0,
     sv_string = replicate SQDC_CONFIG_STRING_CAP 0, sv_string_len = 0\<rparr>"

record sqdc_record =
  sr_present :: bool
  sr_key :: "u8 list"
  sr_key_len :: nat
  sr_value :: sqdc_value

definition sqdc_record_default :: sqdc_record where
  "sqdc_record_default = \<lparr>sr_present = False, sr_key = replicate SQDC_CONFIG_KEY_CAP 0, sr_key_len = 0,
     sr_value = sqdc_value_default\<rparr>"

record sqdc_config =
  sc_records :: "sqdc_record list"
  sc_count :: nat

definition sqdc_config_default :: sqdc_config where
  "sqdc_config_default = \<lparr>sc_records = replicate SQDC_CONFIG_MAX_RECORDS sqdc_record_default, sc_count = 0\<rparr>"

type_synonym 'a sqdc_res = "(sqdc_status, 'a) res"
type_synonym 'a sqdc_method = "(sqdc_status, sqdc_config, 'a) exec"

section \<open>Records\<close>

definition valid_sqdc_key :: "u8 list \<Rightarrow> bool" where
  "valid_sqdc_key key \<longleftrightarrow> key \<noteq> [] \<and> length key \<le> SQDC_CONFIG_KEY_CAP \<and> from_utf8 key \<noteq> None \<and>
     list_all (\<lambda>b. is_alphabetic b \<or> is_digit b \<or> b = 46 \<or> b = 95 \<or> b = 45) key"

text \<open>The position of the record with a key: every key looked at is a slice of its array.\<close>

fun record_position :: "u8 list \<Rightarrow> sqdc_record list \<Rightarrow> nat option sqdc_res" where
  "record_position key [] = Inr None"
| "record_position key (r # rs) =
     and_then (if sr_present r then and_then (slice_to (sr_key r) (sr_key_len r)) (\<lambda>k. Inr (k = key)) else Inr False)
       (\<lambda>found. if found then Inr (Some 0)
         else and_then (record_position key rs) (\<lambda>i. Inr (map_option Suc i)))"

definition config_record_index :: "u8 list \<Rightarrow> sqdc_config \<Rightarrow> nat option sqdc_res" where
  "config_record_index key c = and_then (slice_to (sc_records c) (sc_count c)) (record_position key)"

definition append_config_record :: "u8 list \<Rightarrow> sqdc_value \<Rightarrow> unit sqdc_method" where
  "append_config_record key v c =
     (if \<not> valid_sqdc_key key then throw SqdcInvalidArgument c
      else if sc_count c \<ge> SQDC_CONFIG_MAX_RECORDS then throw SqdcTooManyRecords c
      else if sc_count c \<ge> length (sc_records c) then (Inl Panic, c)
      else (Inr (), c\<lparr>
        sc_records := (sc_records c)[sc_count c := \<lparr>sr_present = True,
          sr_key = splice (replicate SQDC_CONFIG_KEY_CAP 0) 0 key, sr_key_len = length key, sr_value = v\<rparr>],
        sc_count := sc_count c + 1\<rparr>))"

definition config_set_value :: "u8 list \<Rightarrow> sqdc_value \<Rightarrow> unit sqdc_method" where
  "config_set_value key v c =
     (if \<not> valid_sqdc_key key then throw SqdcInvalidArgument c
      else bind_exec (lift (config_record_index key c)) (\<lambda>found.
        case found of
          Some i \<Rightarrow> modify (\<lambda>c. c\<lparr>sc_records := (sc_records c)[i := (sc_records c ! i)\<lparr>sr_value := v\<rparr>]\<rparr>)
        | None \<Rightarrow> append_config_record key v) c)"

definition config_set_new_value :: "u8 list \<Rightarrow> sqdc_value \<Rightarrow> unit sqdc_method" where
  "config_set_new_value key v c =
     bind_exec (lift (config_record_index key c)) (\<lambda>found.
       if found \<noteq> None then throw SqdcParseError else append_config_record key v) c"

definition null_value :: sqdc_value where "null_value = sqdc_value_default"
definition bool_value :: "bool \<Rightarrow> sqdc_value" where
  "bool_value b = sqdc_value_default\<lparr>sv_kind := SK_Bool, sv_bool := b\<rparr>"
definition i32_value :: "i32 \<Rightarrow> sqdc_value" where
  "i32_value n = sqdc_value_default\<lparr>sv_kind := SK_I32, sv_i32 := n\<rparr>"
definition string_value :: "u8 list \<Rightarrow> sqdc_value" where
  "string_value s = sqdc_value_default\<lparr>sv_kind := SK_String, sv_string_len := length s,
     sv_string := splice (replicate SQDC_CONFIG_STRING_CAP 0) 0 s\<rparr>"

definition sqdc_string_value :: "u8 list \<Rightarrow> sqdc_value sqdc_res" where
  "sqdc_string_value s =
     (if length s > SQDC_CONFIG_STRING_CAP \<or> from_utf8 s = None then Inl (Err SqdcInvalidArgument)
      else Inr (string_value s))"

section \<open>The text format\<close>

definition is_blank :: "u8 \<Rightarrow> bool" where
  "is_blank b \<longleftrightarrow> b = 32 \<or> b = 9"

definition trim_ascii :: "u8 list \<Rightarrow> u8 list" where
  "trim_ascii input =
     (let input = (if ends_with input [13] then take (length input - 1) input else input) in
      rev (dropWhile is_blank (rev (dropWhile is_blank input))))"

definition is_ascii_whitespace :: "u8 \<Rightarrow> bool" where
  "is_ascii_whitespace b \<longleftrightarrow> b \<in> {9, 10, 12, 13, 32}"

definition split_ascii_word :: "u8 list \<Rightarrow> (u8 list \<times> u8 list) option" where
  "split_ascii_word input =
     (let input = trim_ascii input in
      if list_ex is_ascii_whitespace input
      then Some (takeWhile (\<lambda>b. \<not> is_ascii_whitespace b) input,
        trim_ascii (dropWhile (\<lambda>b. \<not> is_ascii_whitespace b) input))
      else None)"

text \<open>\<open>checked_mul(10)\<close> and \<open>checked_add\<close> of each digit, up to the limit of the type.\<close>

fun ascii_digits :: "nat \<Rightarrow> nat \<Rightarrow> u8 list \<Rightarrow> nat option" where
  "ascii_digits limit acc [] = Some acc"
| "ascii_digits limit acc (b # bs) =
     (if acc * 10 > limit \<or> acc * 10 + unat (b - 48) > limit then None
      else ascii_digits limit (acc * 10 + unat (b - 48)) bs)"

definition parse_i32_ascii :: "u8 list \<Rightarrow> i32 sqdc_res" where
  "parse_i32_ascii input =
     (if input = [] then Inl (Err SqdcParseError) else
      let negative = (hd input = 45); digits = (if negative then tl input else input) in
      if digits = [] \<or> \<not> list_all is_digit digits then Inl (Err SqdcParseError)
      else and_then (ok_or SqdcParseError (ascii_digits 9223372036854775807 0 digits)) (\<lambda>n.
        let v = (if negative then - int n else int n) in
        if - 2147483648 \<le> v \<and> v \<le> 2147483647 then Inr (of_int v) else Inl (Err SqdcParseError)))"

definition parse_usize_ascii :: "u8 list \<Rightarrow> nat sqdc_res" where
  "parse_usize_ascii input =
     (if input = [] \<or> \<not> list_all is_digit input then Inl (Err SqdcParseError)
      else ok_or SqdcParseError (ascii_digits usize_max 0 input))"

definition parse_sqdevice_value :: "u8 list \<Rightarrow> u8 list \<Rightarrow> sqdc_value sqdc_res" where
  "parse_sqdevice_value value_type value_text =
     (if value_type = lit ''null'' then
        (if value_text = [] then Inr null_value else Inl (Err SqdcParseError))
      else if value_type = lit ''bool'' then
        (if value_text = lit ''true'' then Inr (bool_value True)
         else if value_text = lit ''false'' then Inr (bool_value False)
         else Inl (Err SqdcParseError))
      else if value_type = lit ''int'' then and_then (parse_i32_ascii value_text) (\<lambda>n. Inr (i32_value n))
      else if value_type = lit ''string'' then
        (case split_once 58 value_text of
           None \<Rightarrow> Inl (Err SqdcParseError)
         | Some (digits, v) \<Rightarrow>
             and_then (parse_usize_ascii digits) (\<lambda>n.
               if length v \<noteq> n \<or> length v > SQDC_CONFIG_STRING_CAP then Inl (Err SqdcParseError)
               else if from_utf8 v = None then Inl (Err SqdcParseError)
               else Inr (string_value v)))
      else Inl (Err SqdcParseError))"

text \<open>The lines, with whether the header was seen; the result says so at the end.\<close>

fun parse_sqdevice_lines :: "u8 list list \<Rightarrow> bool \<Rightarrow> unit sqdc_method" where
  "parse_sqdevice_lines [] saw_header = (if saw_header then ret () else throw SqdcParseError)"
| "parse_sqdevice_lines (raw_line # lines) saw_header =
     (let line = trim_ascii raw_line in
      if line = [] \<or> hd line = 35 then parse_sqdevice_lines lines saw_header
      else if \<not> saw_header then
        (if line \<noteq> lit ''SQDEVICE'' then throw SqdcParseError else parse_sqdevice_lines lines True)
      else case split_ascii_word line of
          None \<Rightarrow> throw SqdcParseError
        | Some (key, rest) \<Rightarrow>
            (let (value_type, value_text) =
               (case split_ascii_word rest of Some p \<Rightarrow> p | None \<Rightarrow> (trim_ascii rest, [])) in
             bind_exec (lift (parse_sqdevice_value value_type value_text)) (\<lambda>v.
             bind_exec (config_set_new_value key v) (\<lambda>_.
               parse_sqdevice_lines lines saw_header))))"

definition parse_sqdevice_bytes :: "u8 list \<Rightarrow> unit sqdc_method" where
  "parse_sqdevice_bytes input =
     bind_exec (modify (\<lambda>_. sqdc_config_default)) (\<lambda>_.
       parse_sqdevice_lines (split_bytes (\<lambda>b. b = 10) input) False)"

section \<open>The binary format\<close>

record sqdc_writer =
  wr_out :: "u8 list"
  wr_cursor :: nat

type_synonym sqdc_write = "(sqdc_status, sqdc_writer, unit) exec"

definition write_sqdc_bytes :: "u8 list \<Rightarrow> sqdc_write" where
  "write_sqdc_bytes bytes w =
     (case checked_add (wr_cursor w) (length bytes) of
        None \<Rightarrow> throw SqdcBufferTooSmall w
      | Some stop \<Rightarrow>
          if stop \<le> length (wr_out w)
          then (Inr (), \<lparr>wr_out = splice (wr_out w) (wr_cursor w) bytes, wr_cursor = stop\<rparr>)
          else throw SqdcBufferTooSmall w)"

definition write_u8 :: "u8 \<Rightarrow> sqdc_write" where
  "write_u8 b w =
     (if wr_cursor w \<ge> length (wr_out w) then throw SqdcBufferTooSmall w
      else (Inr (), \<lparr>wr_out = (wr_out w)[wr_cursor w := b], wr_cursor = wr_cursor w + 1\<rparr>))"

definition write_u16_bytes :: "u16 \<Rightarrow> sqdc_write" where
  "write_u16_bytes n = write_sqdc_bytes (u16_le n)"

definition write_len_bytes :: "u8 list \<Rightarrow> sqdc_write" where
  "write_len_bytes bytes =
     (if length bytes > 65535 then throw SqdcBufferTooSmall
      else bind_exec (write_u16_bytes (of_nat (length bytes))) (\<lambda>_. write_sqdc_bytes bytes))"

definition write_value :: "sqdc_value \<Rightarrow> sqdc_write" where
  "write_value v = (case sv_kind v of
       SK_Null \<Rightarrow> write_u8 TAG_NULL
     | SK_Bool \<Rightarrow> bind_exec (write_u8 TAG_BOOL) (\<lambda>_. write_u8 (if sv_bool v then 1 else 0))
     | SK_I32 \<Rightarrow> bind_exec (write_u8 TAG_INT) (\<lambda>_. write_sqdc_bytes (u32_le (sv_i32 v)))
     | SK_String \<Rightarrow>
         if sv_string_len v > SQDC_CONFIG_STRING_CAP then throw SqdcInvalidArgument
         else bind_exec (write_u8 TAG_STRING) (\<lambda>_.
           bind_exec (lift (slice_to (sv_string v) (sv_string_len v))) write_len_bytes))"

fun write_records :: "sqdc_record list \<Rightarrow> sqdc_write" where
  "write_records [] = ret ()"
| "write_records (r # rs) =
     (if \<not> sr_present r then throw SqdcInvalidArgument
      else bind_exec (lift (slice_to (sr_key r) (sr_key_len r))) (\<lambda>key.
        if \<not> valid_sqdc_key key then throw SqdcInvalidArgument
        else bind_exec (write_len_bytes key) (\<lambda>_.
          bind_exec (write_value (sr_value r)) (\<lambda>_. write_records rs))))"

text \<open>\<open>config.count as u16\<close>.  The result is the length written.\<close>

definition encode_sqdc_bytes :: "sqdc_config \<Rightarrow> u8 list \<Rightarrow> nat sqdc_res \<times> u8 list" where
  "encode_sqdc_bytes c out =
     (case bind_exec (write_sqdc_bytes SQDC_MAGIC) (\<lambda>_.
           bind_exec (write_u16_bytes (of_nat (sc_count c))) (\<lambda>_.
           bind_exec (lift (slice_to (sc_records c) (sc_count c))) (\<lambda>records.
           bind_exec (write_records records) (\<lambda>_. gets wr_cursor))))
         \<lparr>wr_out = out, wr_cursor = 0\<rparr> of
        (r, w) \<Rightarrow> (r, wr_out w))"

definition read_u16_bytes :: "u8 list \<Rightarrow> nat \<Rightarrow> u16 option" where
  "read_u16_bytes input offset = map_option of_le (get_range input offset (offset + 2))"

text \<open>A string with its length before it, and the offset behind it.\<close>

definition read_len_bytes :: "u8 list \<Rightarrow> nat \<Rightarrow> (u8 list \<times> nat) option" where
  "read_len_bytes input cursor =
     Option.bind (read_u16_bytes input cursor) (\<lambda>len.
     Option.bind (checked_add cursor 2) (\<lambda>start.
     Option.bind (checked_add start (unat len)) (\<lambda>stop.
       map_option (\<lambda>bytes. (bytes, stop)) (get_range input start stop))))"

definition decode_value :: "u8 list \<Rightarrow> nat \<Rightarrow> (sqdc_value \<times> nat) sqdc_res" where
  "decode_value input cursor =
     and_then (ok_or SqdcParseError (get_at input cursor)) (\<lambda>tag.
     let cursor = cursor + 1 in
     if tag = TAG_NULL then Inr (null_value, cursor)
     else if tag = TAG_BOOL then
       and_then (ok_or SqdcParseError (get_at input cursor)) (\<lambda>b. Inr (bool_value (b \<noteq> 0), cursor + 1))
     else if tag = TAG_INT then
       and_then (ok_or SqdcParseError (get_range input cursor (cursor + 4))) (\<lambda>bytes.
         Inr (i32_value (of_le bytes), cursor + 4))
     else if tag = TAG_STRING then
       and_then (ok_or SqdcParseError (read_len_bytes input cursor)) (\<lambda>(v, cursor).
         if length v > SQDC_CONFIG_STRING_CAP \<or> from_utf8 v = None then Inl (Err SqdcParseError)
         else Inr (string_value v, cursor))
     else Inl (Err SqdcParseError))"

text \<open>\<open>for _ in 0..count\<close>; the result is the offset behind the records.\<close>

fun decode_records :: "nat \<Rightarrow> u8 list \<Rightarrow> nat \<Rightarrow> nat sqdc_method" where
  "decode_records 0 input cursor = ret cursor"
| "decode_records (Suc n) input cursor =
     bind_exec (lift (ok_or SqdcParseError (read_len_bytes input cursor))) (\<lambda>(key, cursor).
     bind_exec (lift (decode_value input cursor)) (\<lambda>(v, cursor).
     bind_exec (config_set_new_value key v) (\<lambda>_. decode_records n input cursor)))"

definition decode_sqdc_bytes :: "u8 list \<Rightarrow> unit sqdc_method" where
  "decode_sqdc_bytes input =
     bind_exec (modify (\<lambda>_. sqdc_config_default)) (\<lambda>_.
     if length input < 6 \<or> take 4 input \<noteq> SQDC_MAGIC then throw SqdcParseError
     else bind_exec (lift (ok_or SqdcParseError (read_u16_bytes input 4))) (\<lambda>count.
       bind_exec (decode_records (unat count) input 6) (\<lambda>cursor.
         if cursor = length input then ret () else throw SqdcParseError)))"

section \<open>Device bindings\<close>

datatype binding_kind = BK_Unsupported | BK_PackageSqdevice | BK_InlineGpio | BK_InlineGpioButton

record binding_plan =
  bp_kind :: binding_kind
  bp_alias :: "u8 list"
  bp_alias_len :: nat
  bp_resource :: "u8 list"
  bp_resource_len :: nat

definition binding_plan_default :: binding_plan where
  "binding_plan_default = \<lparr>bp_kind = BK_Unsupported, bp_alias = replicate SQVM_DEVICE_BINDING_NAME_CAP 0,
     bp_alias_len = 0, bp_resource = replicate SQVM_DEVICE_BINDING_RESOURCE_CAP 0, bp_resource_len = 0\<rparr>"

text \<open>What is filled in: the plan, and the inline configuration unless its pointer is null.\<close>

record binding_out =
  bo_plan :: binding_plan
  bo_inline :: "sqdc_config option"

type_synonym binding_call = "(sqdc_status, binding_out, unit) exec"

definition valid_device_binding_name :: "u8 list \<Rightarrow> bool" where
  "valid_device_binding_name name \<longleftrightarrow> name \<noteq> [] \<and> length name < SQVM_DEVICE_BINDING_NAME_CAP \<and>
     from_utf8 name \<noteq> None \<and> list_all (\<lambda>b. is_alphabetic b \<or> is_digit b \<or> b = 95 \<or> b = 45) name"

definition build_device_binding_alias :: "u8 list \<Rightarrow> u8 list \<Rightarrow> u8 list \<Rightarrow> (nat \<times> u8 list) option" where
  "build_device_binding_alias service binding out =
     Option.bind (checked_add (length service) 1) (\<lambda>n.
     Option.bind (checked_add n (length binding)) (\<lambda>n.
       if n \<ge> length out then None
       else Some (n, splice ((splice out 0 service)[length service := 46]) (length service + 1) binding)))"

definition supports_package_device_binding :: "u8 list \<Rightarrow> u8 list \<Rightarrow> bool" where
  "supports_package_device_binding service binding \<longleftrightarrow>
     service = lit ''indicator'' \<and> binding = lit ''default'' \<or> service = lit ''display''"

definition gpio_digits :: "u8 list \<Rightarrow> bool" where
  "gpio_digits digits \<longleftrightarrow> \<not> (digits = [] \<or> length digits > 2 \<or> \<not> list_all is_digit digits)"

definition parse_inline_gpio_resource :: "u8 list \<Rightarrow> u8 list option" where
  "parse_inline_gpio_resource resource =
     Option.bind (strip_prefix resource (lit ''gpio:'')) (\<lambda>pin_name.
     Option.bind (strip_prefix pin_name (lit ''GPIO'')) (\<lambda>digits.
       if \<not> gpio_digits digits then None else Some pin_name))"

definition split_once_byte :: "u8 list \<Rightarrow> u8 \<Rightarrow> (u8 list \<times> u8 list) option" where
  "split_once_byte input delimiter =
     (if delimiter \<in> set input
      then (let i = length (takeWhile (\<lambda>b. b \<noteq> delimiter) input) in Some (take i input, drop (i + 1) input))
      else None)"

definition valid_logical_key_event :: "u8 list \<Rightarrow> bool" where
  "valid_logical_key_event event =
     (case strip_prefix event (lit ''key.'') of
        None \<Rightarrow> False
      | Some key \<Rightarrow> key \<in> set (map lit
          [''UP'', ''DOWN'', ''LEFT'', ''RIGHT'', ''SELECT'', ''BACK'', ''MENU'', ''HOME'', ''POWER'']))"

definition parse_inline_gpio_button_resource :: "u8 list \<Rightarrow> (u8 list \<times> u8 list \<times> bool) option" where
  "parse_inline_gpio_button_resource resource =
     Option.bind (strip_prefix resource (lit ''gpio-button:'')) (\<lambda>rest.
     Option.bind (split_once_byte rest 58) (\<lambda>(pin_name, rest).
     Option.bind (split_once_byte rest 58) (\<lambda>(event, polarity).
     Option.bind (strip_prefix pin_name (lit ''GPIO'')) (\<lambda>digits.
       if \<not> gpio_digits digits then None
       else if \<not> valid_logical_key_event event then None
       else if polarity = lit ''activeLow'' then Some (pin_name, event, True)
       else if polarity = lit ''activeHigh'' then Some (pin_name, event, False)
       else None))))"

text \<open>A configuration of strings and the polarity.\<close>

fun set_strings :: "(rstr \<times> u8 list) list \<Rightarrow> unit sqdc_method" where
  "set_strings [] = ret ()"
| "set_strings ((key, v) # rest) =
     bind_exec (lift (sqdc_string_value v)) (\<lambda>v.
     bind_exec (config_set_value key v) (\<lambda>_. set_strings rest))"

definition build_inline_gpio_config :: "u8 list \<Rightarrow> u8 list \<Rightarrow> unit sqdc_method" where
  "build_inline_gpio_config alias pin_name =
     bind_exec (modify (\<lambda>_. sqdc_config_default)) (\<lambda>_.
     bind_exec (set_strings [(lit ''service'', alias), (lit ''mode'', lit ''gpio''), (lit ''pinName'', pin_name)]) (\<lambda>_.
       config_set_value (lit ''activeLow'') (bool_value False)))"

definition build_inline_gpio_button_config ::
  "u8 list \<Rightarrow> u8 list \<Rightarrow> u8 list \<Rightarrow> bool \<Rightarrow> unit sqdc_method" where
  "build_inline_gpio_button_config alias pin_name event active_low =
     bind_exec (modify (\<lambda>_. sqdc_config_default)) (\<lambda>_.
     bind_exec (set_strings [(lit ''service'', alias), (lit ''mode'', lit ''gpio-button''),
         (lit ''pinName'', pin_name), (lit ''event'', event)]) (\<lambda>_.
       config_set_value (lit ''activeLow'') (bool_value active_low)))"

definition is_safe_sqdevice_path_bytes :: "u8 list \<Rightarrow> bool" where
  "is_safe_sqdevice_path_bytes path =
     (if path = [] \<or> starts_with path (lit ''/'') \<or> starts_with path (lit ''sd/'') \<or>
         starts_with path (lit ''system/'') \<or> 92 \<in> set path \<or> \<not> ends_with path (lit ''.sqdevice'')
      then False
      else list_all (\<lambda>part. part \<noteq> [] \<and> part \<noteq> lit ''.'' \<and> part \<noteq> lit ''..'') (split_bytes (\<lambda>b. b = 47) path))"

definition refuse_binding :: binding_call where
  "refuse_binding b = throw SqdcInvalidArgument (b\<lparr>bo_plan := binding_plan_default\<rparr>)"

text \<open>An inline resource: its configuration is built, and both outputs are cleared if that fails.\<close>

definition inline_binding :: "binding_kind \<Rightarrow> (u8 list \<Rightarrow> unit sqdc_method) \<Rightarrow> binding_call" where
  "inline_binding kind build b =
     (case bo_inline b of
        None \<Rightarrow> refuse_binding b
      | Some config \<Rightarrow>
          (let plan = (bo_plan b)\<lparr>bp_kind := kind\<rparr> in
           case slice_to (bp_alias plan) (bp_alias_len plan) of
             Inl e \<Rightarrow> (Inl e, b\<lparr>bo_plan := plan\<rparr>)
           | Inr alias \<Rightarrow>
               (case build alias config of
                  (Inr _, config) \<Rightarrow> (Inr (), \<lparr>bo_plan = plan, bo_inline = Some config\<rparr>)
                | (Inl e, _) \<Rightarrow>
                    (Inl e, \<lparr>bo_plan = binding_plan_default, bo_inline = Some sqdc_config_default\<rparr>))))"

definition plan_device_binding_bytes :: "u8 list \<Rightarrow> u8 list \<Rightarrow> u8 list \<Rightarrow> binding_call" where
  "plan_device_binding_bytes service binding resource b =
     (if \<not> valid_device_binding_name service \<or> \<not> valid_device_binding_name binding then throw SqdcInvalidArgument b
      else if resource = [] \<or> length resource \<ge> SQVM_DEVICE_BINDING_RESOURCE_CAP then throw SqdcInvalidArgument b
      else
        let b = b\<lparr>bo_plan := binding_plan_default\<rparr> in
        case build_device_binding_alias service binding (bp_alias (bo_plan b)) of
          None \<Rightarrow> throw SqdcInvalidArgument b
        | Some (alias_len, alias) \<Rightarrow>
            (let b = b\<lparr>bo_plan := (bo_plan b)\<lparr>bp_alias := alias, bp_alias_len := alias_len,
                 bp_resource := splice (bp_resource (bo_plan b)) 0 resource, bp_resource_len := length resource\<rparr>\<rparr> in
             case parse_inline_gpio_resource resource of
               Some pin_name \<Rightarrow>
                 if service \<noteq> lit ''indicator'' \<or> binding \<noteq> lit ''default'' then refuse_binding b
                 else inline_binding BK_InlineGpio (\<lambda>alias. build_inline_gpio_config alias pin_name) b
             | None \<Rightarrow>
                 (case parse_inline_gpio_button_resource resource of
                    Some (pin_name, event, active_low) \<Rightarrow>
                      if service \<noteq> lit ''input'' then refuse_binding b
                      else inline_binding BK_InlineGpioButton
                        (\<lambda>alias. build_inline_gpio_button_config alias pin_name event active_low) b
                  | None \<Rightarrow>
                      if is_safe_sqdevice_path_bytes resource then
                        (if \<not> supports_package_device_binding service binding then refuse_binding b
                         else (Inr (), \<lparr>bo_plan = (bo_plan b)\<lparr>bp_kind := BK_PackageSqdevice\<rparr>,
                           bo_inline = map_option (\<lambda>_. sqdc_config_default) (bo_inline b)\<rparr>))
                      else refuse_binding b)))"

section \<open>The C interface\<close>

text \<open>The caller's contract: a pointer that is not null points to as many bytes as it says.\<close>

definition ffi_bytes :: "u8 list option \<Rightarrow> nat \<Rightarrow> u8 list option" where
  "ffi_bytes ptr len = (if len = 0 then Some [] else map_option (take len) ptr)"

type_synonym config_call = "(sqdc_status, sqdc_config option, unit) exec"

definition with_config :: "unit sqdc_method \<Rightarrow> config_call" where
  "with_config m ptr =
     (case ptr of
        None \<Rightarrow> throw SqdcInvalidArgument ptr
      | Some c \<Rightarrow> (case m c of (r, c) \<Rightarrow> (r, Some c)))"

definition with_bytes :: "u8 list option \<Rightarrow> nat \<Rightarrow> (u8 list \<Rightarrow> (sqdc_status, 's, 'a) exec) \<Rightarrow> (sqdc_status, 's, 'a) exec" where
  "with_bytes ptr len k =
     (case ffi_bytes ptr len of None \<Rightarrow> throw SqdcInvalidArgument | Some bytes \<Rightarrow> k bytes)"

text \<open>The output is written only on success.\<close>

definition into_fresh :: "unit sqdc_method \<Rightarrow> unit sqdc_method" where
  "into_fresh m c = (case m sqdc_config_default of (Inr v, parsed) \<Rightarrow> (Inr v, parsed) | (Inl e, _) \<Rightarrow> (Inl e, c))"

definition sqdc_config_clear :: config_call where
  "sqdc_config_clear = with_config (modify (\<lambda>_. sqdc_config_default))"

definition sqdc_is_safe_sqdevice_path :: "u8 list option \<Rightarrow> nat \<Rightarrow> unit sqdc_res" where
  "sqdc_is_safe_sqdevice_path path len =
     (case ffi_bytes path len of
        None \<Rightarrow> Inl (Err SqdcInvalidArgument)
      | Some path \<Rightarrow> if is_safe_sqdevice_path_bytes path then Inr () else Inl (Err SqdcInvalidArgument))"

definition sqdc_parse_sqdevice :: "u8 list option \<Rightarrow> nat \<Rightarrow> config_call" where
  "sqdc_parse_sqdevice input len = with_bytes input len (\<lambda>input. with_config (into_fresh (parse_sqdevice_bytes input)))"

definition sqdc_config_set_null :: "u8 list option \<Rightarrow> nat \<Rightarrow> config_call" where
  "sqdc_config_set_null key len = with_bytes key len (\<lambda>key. with_config (config_set_value key null_value))"

definition sqdc_config_set_bool :: "u8 list option \<Rightarrow> nat \<Rightarrow> bool \<Rightarrow> config_call" where
  "sqdc_config_set_bool key len b = with_bytes key len (\<lambda>key. with_config (config_set_value key (bool_value b)))"

definition sqdc_config_set_i32 :: "u8 list option \<Rightarrow> nat \<Rightarrow> i32 \<Rightarrow> config_call" where
  "sqdc_config_set_i32 key len n = with_bytes key len (\<lambda>key. with_config (config_set_value key (i32_value n)))"

definition sqdc_config_set_string :: "u8 list option \<Rightarrow> nat \<Rightarrow> u8 list option \<Rightarrow> nat \<Rightarrow> config_call" where
  "sqdc_config_set_string key len v v_len =
     with_bytes key len (\<lambda>key. with_bytes v v_len (\<lambda>v. with_config (
       if length v > SQDC_CONFIG_STRING_CAP \<or> from_utf8 v = None then throw SqdcBufferTooSmall
       else config_set_value key (string_value v))))"

text \<open>The result is the status, the buffer and \<open>out_len\<close>.\<close>

definition sqdc_encode_sqdc ::
  "sqdc_config option \<Rightarrow> u8 list option \<Rightarrow> nat option \<Rightarrow> unit sqdc_res \<times> u8 list option \<times> nat option" where
  "sqdc_encode_sqdc config out out_len =
     (case (config, out, out_len) of
        (Some c, Some bytes, Some _) \<Rightarrow>
          (case encode_sqdc_bytes c bytes of
             (Inr n, bytes) \<Rightarrow> (Inr (), Some bytes, Some n)
           | (Inl e, bytes) \<Rightarrow> (Inl e, Some bytes, Some 0))
      | _ \<Rightarrow> (Inl (Err SqdcInvalidArgument), out, out_len))"

definition sqdc_decode_sqdc :: "u8 list option \<Rightarrow> nat \<Rightarrow> config_call" where
  "sqdc_decode_sqdc input len = with_bytes input len (\<lambda>input. with_config (into_fresh (decode_sqdc_bytes input)))"

definition sqdc_plan_device_binding ::
  "u8 list option \<Rightarrow> nat \<Rightarrow> u8 list option \<Rightarrow> nat \<Rightarrow> u8 list option \<Rightarrow> nat \<Rightarrow>
   (sqdc_status, binding_plan option \<times> sqdc_config option, unit) exec" where
  "sqdc_plan_device_binding service service_len binding binding_len resource resource_len =
     with_bytes service service_len (\<lambda>service. with_bytes binding binding_len (\<lambda>binding.
     with_bytes resource resource_len (\<lambda>resource (out, inline_config).
       case out of
         None \<Rightarrow> throw SqdcInvalidArgument (out, inline_config)
       | Some plan \<Rightarrow>
           (case plan_device_binding_bytes service binding resource \<lparr>bo_plan = plan, bo_inline = inline_config\<rparr> of
              (r, b) \<Rightarrow> (r, Some (bo_plan b), bo_inline b)))))"

section \<open>What a configuration stands for\<close>

definition shown_value :: "sqdc_value \<Rightarrow> device_config_value" where
  "shown_value v = (case sv_kind v of
       SK_Null \<Rightarrow> DC_Null
     | SK_Bool \<Rightarrow> DC_Bool (sv_bool v)
     | SK_I32 \<Rightarrow> DC_Int (sv_i32 v)
     | SK_String \<Rightarrow> DC_String (Str (take (sv_string_len v) (sv_string v))))"

definition record_key :: "sqdc_record \<Rightarrow> u8 list" where
  "record_key r = take (sr_key_len r) (sr_key r)"

definition shown_record :: "sqdc_record \<Rightarrow> ustr \<times> device_config_value" where
  "shown_record r = (Str (record_key r), shown_value (sr_value r))"

definition used_records :: "sqdc_config \<Rightarrow> sqdc_record list" where
  "used_records c = take (sc_count c) (sc_records c)"

definition shown :: "sqdc_config \<Rightarrow> config_records" where
  "shown c = btree_collect (map shown_record (used_records c))"

definition value_ok :: "sqdc_value \<Rightarrow> bool" where
  "value_ok v \<longleftrightarrow> length (sv_string v) = SQDC_CONFIG_STRING_CAP \<and>
     (sv_kind v = SK_String \<longrightarrow> sv_string_len v \<le> SQDC_CONFIG_STRING_CAP \<and>
        utf8_valid (take (sv_string_len v) (sv_string v)))"

definition record_ok :: "sqdc_record \<Rightarrow> bool" where
  "record_ok r \<longleftrightarrow> sr_present r \<and> sr_key_len r \<le> length (sr_key r) \<and> valid_sqdc_key (record_key r) \<and>
     value_ok (sr_value r)"

definition sqdc_ok :: "sqdc_config \<Rightarrow> bool" where
  "sqdc_ok c \<longleftrightarrow> length (sc_records c) = SQDC_CONFIG_MAX_RECORDS \<and> sc_count c \<le> SQDC_CONFIG_MAX_RECORDS \<and>
     list_all record_ok (used_records c) \<and> distinct (map record_key (used_records c))"

text \<open>What the device has room for.\<close>

fun value_fits :: "device_config_value \<Rightarrow> bool" where
  "value_fits (DC_String s) = (length (str_bytes s) \<le> SQDC_CONFIG_STRING_CAP)"
| "value_fits _ = True"

definition config_fits :: "config_records \<Rightarrow> bool" where
  "config_fits rs \<longleftrightarrow> length rs \<le> SQDC_CONFIG_MAX_RECORDS \<and>
     list_all (\<lambda>(key, v). valid_sqdc_key (str_bytes key) \<and> value_fits v) rs"

lemma take_splice_replicate [simp]: "length s \<le> n \<Longrightarrow> take (length s) (splice (replicate n 0) 0 s) = s"
  using take_splice [of 0 s "replicate n 0"] by simp

lemma values_shown [simp]:
  "shown_value null_value = DC_Null" "shown_value (bool_value b) = DC_Bool b"
  "shown_value (i32_value n) = DC_Int n"
  "length s \<le> SQDC_CONFIG_STRING_CAP \<Longrightarrow> shown_value (string_value s) = DC_String (Str s)"
  by (simp_all add: shown_value_def null_value_def bool_value_def i32_value_def string_value_def
      sqdc_value_default_def)

lemma values_ok [simp]:
  "value_ok null_value" "value_ok (bool_value b)" "value_ok (i32_value n)"
  "length s \<le> SQDC_CONFIG_STRING_CAP \<Longrightarrow> utf8_valid s \<Longrightarrow> value_ok (string_value s)"
  by (simp_all add: value_ok_def null_value_def bool_value_def i32_value_def string_value_def
      sqdc_value_default_def)

lemma default_config [simp]: "sqdc_ok sqdc_config_default" "shown sqdc_config_default = []"
  "used_records sqdc_config_default = []"
  by (simp_all add: sqdc_ok_def used_records_def sqdc_config_default_def shown_def btree_collect_def)

lemma valid_key_utf8: "valid_sqdc_key key \<Longrightarrow> utf8_valid key"
  by (auto simp: valid_sqdc_key_def from_utf8_def split: if_splits)

lemma str_bytes_of_key [simp]: "valid_sqdc_key key \<Longrightarrow> str_bytes (Str key) = key"
  by (simp add: valid_key_utf8)

lemma Str_key_inject: "valid_sqdc_key k \<Longrightarrow> valid_sqdc_key k' \<Longrightarrow> Str k = Str k' \<longleftrightarrow> k = k'"
  by (metis str_bytes_of_key)

section \<open>The records\<close>

lemma record_slice [simp]:
  "record_ok r \<Longrightarrow> slice_to (sr_key r) (sr_key_len r) = Inr (record_key r)" "record_ok r \<Longrightarrow> sr_present r"
  by (simp_all add: record_ok_def record_key_def)

lemma record_position_keys:
  assumes "list_all record_ok rs"
  shows "\<exists>i. record_position key rs = Inr i \<and> (i = None \<longleftrightarrow> key \<notin> record_key ` set rs) \<and>
    (\<forall>n. i = Some n \<longrightarrow> n < length rs \<and> record_key (rs ! n) = key)"
  using assms
proof (induction rs)
  case (Cons r rs)
  then obtain i where i: "record_position key rs = Inr i" "i = None \<longleftrightarrow> key \<notin> record_key ` set rs"
    "\<forall>n. i = Some n \<longrightarrow> n < length rs \<and> record_key (rs ! n) = key" by auto
  from Cons.prems have r: "record_ok r" by simp
  show ?case
  proof (cases "record_key r = key")
    case True
    with r show ?thesis by (intro exI [of _ "Some 0"]) auto
  next
    case False
    with r i show ?thesis by (cases i) auto
  qed
qed simp

lemma config_record_index_keys:
  assumes "sqdc_ok c"
  shows "\<exists>i. config_record_index key c = Inr i \<and> (i = None \<longleftrightarrow> key \<notin> record_key ` set (used_records c)) \<and>
    (\<forall>n. i = Some n \<longrightarrow> n < sc_count c \<and> record_key (sc_records c ! n) = key)"
proof -
  from assms have "slice_to (sc_records c) (sc_count c) = Inr (used_records c)" and n: "length (used_records c) = sc_count c"
    by (simp_all add: sqdc_ok_def used_records_def)
  with record_position_keys [of "used_records c" key] assms show ?thesis
    by (fastforce simp: config_record_index_def sqdc_ok_def used_records_def)
qed

definition new_record :: "u8 list \<Rightarrow> sqdc_value \<Rightarrow> sqdc_record" where
  "new_record key v = \<lparr>sr_present = True, sr_key = splice (replicate SQDC_CONFIG_KEY_CAP 0) 0 key,
     sr_key_len = length key, sr_value = v\<rparr>"

lemma new_record_ok:
  assumes "valid_sqdc_key key"
  shows "record_key (new_record key v) = key" "value_ok v \<Longrightarrow> record_ok (new_record key v)"
  using assms by (simp_all add: new_record_def record_key_def record_ok_def valid_sqdc_key_def)

lemma append_used:
  assumes "sqdc_ok c" "sc_count c < SQDC_CONFIG_MAX_RECORDS" "valid_sqdc_key key"
  shows "\<exists>d. append_config_record key v c = (Inr (), d) \<and> used_records d = used_records c @ [new_record key v] \<and>
    length (sc_records d) = SQDC_CONFIG_MAX_RECORDS \<and> sc_count d = sc_count c + 1"
  using assms
  by (auto simp: append_config_record_def sqdc_ok_def used_records_def new_record_def take_Suc_conv_app_nth)

lemma shown_append: "used_records d = used_records c @ [r] \<Longrightarrow>
  shown d = btree_insert (fst (shown_record r)) (snd (shown_record r)) (shown c)"
  by (simp add: shown_def btree_collect_def split_beta)

lemma keys_btree_collect: "fst ` set (fold (\<lambda>(k, v). btree_insert k v) es m) = fst ` set es \<union> fst ` set m"
  by (induction es arbitrary: m) (simp_all add: keys_btree_insert split_beta)

lemma keys_shown:
  assumes "sqdc_ok c" "valid_sqdc_key key"
  shows "Str key \<in> fst ` set (shown c) \<longleftrightarrow> key \<in> record_key ` set (used_records c)"
proof -
  have "fst ` set (shown c) = (\<lambda>r. Str (record_key r)) ` set (used_records c)"
    by (simp add: shown_def btree_collect_def keys_btree_collect shown_record_def image_image)
  moreover have "\<forall>r \<in> set (used_records c). valid_sqdc_key (record_key r)"
    using assms(1) by (auto simp: sqdc_ok_def list_all_iff record_ok_def)
  ultimately show ?thesis by (auto simp: image_iff Str_key_inject [OF assms(2)])
qed

text \<open>Setting a new key: what succeeds inserts into what is shown.\<close>

lemma set_new_value_ok:
  assumes "sqdc_ok c" "value_ok v" "config_set_new_value key v c = (Inr u, d)"
  shows "sqdc_ok d" "shown d = btree_insert (Str key) (shown_value v) (shown c)" "valid_sqdc_key key"
    "Str key \<notin> fst ` set (shown c)" "sc_count d = sc_count c + 1"
proof -
  obtain i where i: "config_record_index key c = Inr i" "i = None \<longleftrightarrow> key \<notin> record_key ` set (used_records c)"
    using config_record_index_keys [OF assms(1)] by blast
  with assms(3) have new: "key \<notin> record_key ` set (used_records c)" and app: "append_config_record key v c = (Inr u, d)"
    by (auto simp: config_set_new_value_def split: if_splits)
  from app show valid: "valid_sqdc_key key" by (auto simp: append_config_record_def split: if_splits)
  from app have "sc_count c < SQDC_CONFIG_MAX_RECORDS" by (auto simp: append_config_record_def split: if_splits)
  from append_used [OF assms(1) this valid, of v] app
  have d: "used_records d = used_records c @ [new_record key v]" "length (sc_records d) = SQDC_CONFIG_MAX_RECORDS"
    "sc_count d = sc_count c + 1" by auto
  note r = new_record_ok [OF valid, of v]
  show "sqdc_ok d" using assms(1,2) d r new \<open>sc_count c < SQDC_CONFIG_MAX_RECORDS\<close> by (simp add: sqdc_ok_def)
  show "shown d = btree_insert (Str key) (shown_value v) (shown c)"
    using shown_append [OF d(1)] r(1) by (simp add: shown_record_def new_record_def)
  show "Str key \<notin> fst ` set (shown c)" using keys_shown [OF assms(1) valid] new by simp
  show "sc_count d = sc_count c + 1" by (rule d(3))
qed

lemma set_new_value_succeeds:
  assumes "sqdc_ok c" "valid_sqdc_key key" "Str key \<notin> fst ` set (shown c)" "sc_count c < SQDC_CONFIG_MAX_RECORDS"
  shows "\<exists>d. config_set_new_value key v c = (Inr (), d)"
proof -
  have "config_record_index key c = Inr None"
    using config_record_index_keys [OF assms(1), of key] keys_shown [OF assms(1,2)] assms(3) by auto
  with append_used [OF assms(1,4,2), of v] show ?thesis by (auto simp: config_set_new_value_def)
qed

lemma set_new_value_no_panic:
  "sqdc_ok c \<Longrightarrow> fst (config_set_new_value key v c) \<noteq> Inl Panic"
  using config_record_index_keys [of c key]
  by (auto simp: config_set_new_value_def append_config_record_def sqdc_ok_def split: if_splits)

section \<open>The binary format is the compiler's\<close>

text \<open>Both read the same strings and values; the device refuses those it has no room for.\<close>

definition len_bytes_at :: "u8 list \<Rightarrow> nat \<Rightarrow> u8 list \<Rightarrow> nat \<Rightarrow> bool" where
  "len_bytes_at input cursor bs stop \<longleftrightarrow> cursor + 2 \<le> length input \<and> stop \<le> length input \<and>
     stop = cursor + 2 + unat (of_le (take 2 (drop cursor input)) :: u16) \<and>
     bs = take (stop - (cursor + 2)) (drop (cursor + 2) input)"

lemma read_len_bytes_at:
  assumes "length input \<le> usize_max"
  shows "read_len_bytes input cursor = Some (bs, stop) \<longleftrightarrow> len_bytes_at input cursor bs stop"
proof (cases "cursor + 2 \<le> length input")
  case True
  define n where "n = unat (of_le (take 2 (drop cursor input)) :: u16)"
  from True assms have read: "read_len_bytes input cursor =
      Option.bind (checked_add (cursor + 2) n) (\<lambda>stop.
        map_option (\<lambda>bytes. (bytes, stop)) (get_range input (cursor + 2) stop))"
    by (simp add: read_len_bytes_def read_u16_bytes_def get_range_def n_def)
  show ?thesis
  proof (cases "cursor + 2 + n \<le> length input")
    case fits: True
    with assms have "checked_add (cursor + 2) n = Some (cursor + 2 + n)" by simp
    with fits True show ?thesis unfolding read len_bytes_at_def n_def [symmetric] by (auto simp: get_range_def)
  next
    case False
    then show ?thesis
      unfolding read len_bytes_at_def n_def [symmetric] by (auto simp: get_range_def checked_add_def split: if_splits)
  qed
qed (simp add: read_len_bytes_def read_u16_bytes_def get_range_def len_bytes_at_def)

lemma config_read_string_len:
  assumes "length input \<le> usize_max"
  shows "config_read_string input cursor = Inr (s, stop) \<longleftrightarrow>
    (\<exists>bs. len_bytes_at input cursor bs stop \<and> utf8_valid bs \<and> s = Str bs)"
proof (cases "cursor + 2 \<le> length input")
  case True
  define n where "n = unat (of_le (take 2 (drop cursor input)) :: u16)"
  from True assms have u16: "config_read_u16 input cursor = Inr (of_le (take 2 (drop cursor input)))"
    by (simp add: config_read_u16_def get_range_def)
  show ?thesis
  proof (cases "cursor + 2 + n \<le> length input")
    case fits: True
    with assms have "checked_add (cursor + 2) n = Some (cursor + 2 + n)" by simp
    with fits True show ?thesis
      unfolding config_read_string_def u16 len_bytes_at_def n_def [symmetric]
      by (auto simp: get_range_def from_utf8_def config_error_def n_def [symmetric])
  next
    case False
    then show ?thesis
      unfolding config_read_string_def u16 len_bytes_at_def n_def [symmetric]
      by (auto simp: get_range_def checked_add_def config_error_def n_def [symmetric] split: option.splits)
  qed
next
  case False
  have "checked_add cursor 2 = None \<or> checked_add cursor 2 = Some (cursor + 2)" by (simp add: checked_add_def)
  with False show ?thesis
    by (auto simp: config_read_string_def config_read_u16_def get_range_def len_bytes_at_def config_error_def)
qed

lemma value_fits_string [simp]: "utf8_valid s \<Longrightarrow> value_fits (DC_String (Str s)) \<longleftrightarrow> length s \<le> SQDC_CONFIG_STRING_CAP"
  by simp

lemma tags: "TAG_NULL = 0" "TAG_BOOL = 1" "TAG_INT = 2" "TAG_STRING = 3"
  by (simp_all add: TAG_NULL_def TAG_BOOL_def TAG_INT_def TAG_STRING_def)

lemma decode_value_core:
  assumes "length input \<le> usize_max"
  shows "(\<exists>v. decode_value input cursor = Inr (v, stop) \<and> shown_value v = d \<and> value_ok v) \<longleftrightarrow>
    config_read_value input cursor = Inr (d, stop) \<and> value_fits d"
proof (cases "get_at input cursor")
  case None
  then show ?thesis by (simp add: decode_value_def config_read_value_def config_error_def)
next
  case (Some tag)
  consider "tag = 0" | "tag = 1" | "tag = 2" | "tag = 3" | "tag \<notin> {0, 1, 2, 3}" by blast
  then show ?thesis
  proof cases
    case 1
    with Some show ?thesis by (auto simp: decode_value_def config_read_value_def tags)
  next
    case 2
    with Some show ?thesis
      by (cases "get_at input (cursor + 1)") (auto simp: decode_value_def config_read_value_def config_error_def tags)
  next
    case 3
    show ?thesis
    proof (cases "cursor + 5 \<le> length input")
      case True
      with assms 3 Some show ?thesis
        by (auto simp: decode_value_def config_read_value_def config_error_def tags get_range_def)
    next
      case False
      with 3 Some show ?thesis
        by (auto simp: decode_value_def config_read_value_def config_error_def tags get_range_def checked_add_def)
    qed
  next
    case 4
    have core: "config_read_value input cursor = Inr (d, stop) \<longleftrightarrow>
        (\<exists>bs. len_bytes_at input (cursor + 1) bs stop \<and> utf8_valid bs \<and> d = DC_String (Str bs))"
      using 4 Some
      by (auto simp: config_read_value_def tags and_then_eq_Inr config_read_string_len [OF assms])
    have dev: "decode_value input cursor = Inr (v, stop) \<longleftrightarrow>
        (\<exists>bs. len_bytes_at input (cursor + 1) bs stop \<and> utf8_valid bs \<and> length bs \<le> SQDC_CONFIG_STRING_CAP \<and>
          v = string_value bs)" for v
      using 4 Some
      by (cases "read_len_bytes input (cursor + 1)")
         (auto simp: decode_value_def tags read_len_bytes_at [OF assms, symmetric] from_utf8_def split: if_splits)
    show ?thesis
    proof
      assume "\<exists>v. decode_value input cursor = Inr (v, stop) \<and> shown_value v = d \<and> value_ok v"
      then show "config_read_value input cursor = Inr (d, stop) \<and> value_fits d" unfolding core dev by auto
    next
      assume "config_read_value input cursor = Inr (d, stop) \<and> value_fits d"
      then obtain bs where "len_bytes_at input (cursor + 1) bs stop" "utf8_valid bs" "d = DC_String (Str bs)"
        "length bs \<le> SQDC_CONFIG_STRING_CAP" unfolding core by auto
      then show "\<exists>v. decode_value input cursor = Inr (v, stop) \<and> shown_value v = d \<and> value_ok v"
        unfolding dev by (intro exI [of _ "string_value bs"]) auto
    qed
  next
    case 5
    with Some show ?thesis by (auto simp: decode_value_def config_read_value_def config_error_def tags)
  qed
qed

text \<open>The records, in both directions.\<close>

lemma decode_records_sound:
  assumes "length input \<le> usize_max" "sqdc_ok c" "decode_records n input cursor c = (Inr stop, d)"
  shows "sqdc_ok d \<and> decode_config_records n input cursor (shown c) = Inr (shown d, stop)"
  using assms(2,3)
proof (induction n arbitrary: cursor c)
  case (Suc n)
  from Suc.prems(2) obtain key at v at' c' where steps: "read_len_bytes input cursor = Some (key, at)"
    "decode_value input at = Inr (v, at')" "config_set_new_value key v c = (Inr (), c')"
    "decode_records n input at' c' = (Inr stop, d)"
    by (auto dest!: bind_exec_InrD simp: ok_or_def split: option.splits)
  have v: "value_ok v" using steps(2)
    by (auto simp: decode_value_def Let_def and_then_eq_Inr from_utf8_def split: if_splits)
  note set = set_new_value_ok [OF Suc.prems(1) v steps(3)]
  have "config_read_value input at = Inr (shown_value v, at')"
    using decode_value_core [OF assms(1), of at at' "shown_value v"] steps(2) v by blast
  moreover have "config_read_string input cursor = Inr (Str key, at)"
    using steps(1) valid_key_utf8 [OF set(3)] read_len_bytes_at [OF assms(1)] config_read_string_len [OF assms(1)] by blast
  ultimately show ?case using Suc.IH [OF set(1) steps(4)] set(2,4) by simp
qed simp

lemma btree_insert_length: "k \<notin> fst ` set m \<Longrightarrow> length (btree_insert k v m) = Suc (length m)"
  by (induction k v m rule: btree_insert.induct) auto

lemma btree_insert_set: "k \<notin> fst ` set m \<Longrightarrow> set (btree_insert k v m) = insert (k, v) (set m)"
  by (induction k v m rule: btree_insert.induct) auto

lemma decode_config_records_grow:
  "decode_config_records n input cursor rs = Inr (rs', stop) \<Longrightarrow> length rs' = length rs + n \<and> set rs \<subseteq> set rs'"
proof (induction n arbitrary: cursor rs)
  case (Suc n)
  then show ?case
    by (fastforce simp: and_then_eq_Inr duplicate_key_def btree_insert_length btree_insert_set split: if_splits)
qed simp

lemma shown_count:
  assumes "sqdc_ok c"
  shows "length (shown c) = sc_count c"
proof -
  have "length (fold (\<lambda>(k, v). btree_insert k v) es m) = length m + length es"
    if "distinct (map fst es)" "fst ` set es \<inter> fst ` set m = {}" for es :: config_records and m
    using that
  proof (induction es arbitrary: m)
    case (Cons e es)
    have "fst ` set es \<inter> fst ` set (btree_insert (fst e) (snd e) m) = {}" using Cons.prems by (auto simp: keys_btree_insert)
    with Cons show ?case by (simp add: split_beta btree_insert_length)
  qed simp
  moreover have "inj_on (\<lambda>r. Str (record_key r)) (set (used_records c))"
    using assms Str_key_inject
    by (auto simp: inj_on_def sqdc_ok_def list_all_iff record_ok_def distinct_map)
  then have "distinct (map fst (map shown_record (used_records c)))"
    using assms by (simp add: sqdc_ok_def distinct_map shown_record_def comp_def)
  ultimately show ?thesis
    using assms by (simp add: shown_def btree_collect_def sqdc_ok_def used_records_def)
qed

lemma decode_records_complete:
  assumes "length input \<le> usize_max" "sqdc_ok c" "decode_config_records n input cursor (shown c) = Inr (rs, stop)"
    "config_fits rs"
  shows "\<exists>d. decode_records n input cursor c = (Inr stop, d) \<and> sqdc_ok d \<and> shown d = rs"
  using assms(2,3)
proof (induction n arbitrary: cursor c)
  case (Suc n)
  from Suc.prems(2) obtain key at v at' where steps: "config_read_string input cursor = Inr (key, at)"
    "key \<notin> fst ` set (shown c)" "config_read_value input at = Inr (v, at')"
    "decode_config_records n input at' (btree_insert key v (shown c)) = Inr (rs, stop)"
    by (auto simp: and_then_eq_Inr duplicate_key_def split: if_splits)
  have grown: "length rs = Suc (length (shown c)) + n" "(key, v) \<in> set rs"
    using decode_config_records_grow [OF steps(4)] steps(2) by (auto simp: btree_insert_length btree_insert_set)
  with assms(4) have fits: "valid_sqdc_key (str_bytes key)" "value_fits v" "sc_count c < SQDC_CONFIG_MAX_RECORDS"
    using shown_count [OF Suc.prems(1)] by (auto simp: config_fits_def list_all_iff)
  obtain w where w: "decode_value input at = Inr (w, at')" "shown_value w = v" "value_ok w"
    using decode_value_core [OF assms(1), of at at' v] steps(3) fits(2) by blast
  have "Str (str_bytes key) \<notin> fst ` set (shown c)" using steps(2) by simp
  from set_new_value_succeeds [OF Suc.prems(1) fits(1) this fits(3), of w] obtain c' where
    c': "config_set_new_value (str_bytes key) w c = (Inr (), c')" by blast
  note set = set_new_value_ok [OF Suc.prems(1) w(3) c']
  have "read_len_bytes input cursor = Some (str_bytes key, at)"
    using steps(1) read_len_bytes_at [OF assms(1)] config_read_string_len [OF assms(1)] by auto
  moreover obtain d where "decode_records n input at' c' = (Inr stop, d)" "sqdc_ok d" "shown d = rs"
    using Suc.IH [OF set(1), of at'] steps(4) set(2) w(2) by auto
  ultimately show ?case using w(1) c' by (simp add: bind_exec_Inr)
qed simp

lemma decode_value_no_panic: "decode_value input cursor \<noteq> Inl Panic"
  by (auto simp: decode_value_def Let_def and_then_eq_Inl ok_or_eq_Inl split: if_splits prod.splits)

lemma decode_records_no_panic: "sqdc_ok c \<Longrightarrow> fst (decode_records n input cursor c) \<noteq> Inl Panic"
proof (induction n arbitrary: cursor c)
  case (Suc n)
  show ?case
  proof (cases "read_len_bytes input cursor")
    case read: (Some p)
    obtain key at where p: "p = (key, at)" by (cases p)
    show ?thesis
    proof (cases "decode_value input at")
      case (Inl e)
      with read p decode_value_no_panic [of input at] show ?thesis by (simp add: bind_exec_def)
    next
      case (Inr q)
      obtain v at' where q: "q = (v, at')" by (cases q)
      have v: "value_ok v" using Inr q
        by (auto simp: decode_value_def Let_def and_then_eq_Inr from_utf8_def split: if_splits)
      obtain r d where set: "config_set_new_value key v c = (r, d)" by (cases "config_set_new_value key v c")
      with set_new_value_no_panic [OF Suc.prems, of key v] set_new_value_ok(1) [OF Suc.prems v] Suc.IH
      show ?thesis using read p Inr q by (cases r) (auto simp: bind_exec_def)
    qed
  qed (simp add: bind_exec_def)
qed simp

lemma shown_fits:
  assumes "sqdc_ok c"
  shows "config_fits (shown c)"
proof -
  have "set (fold (\<lambda>(k, v). btree_insert k v) es m) \<subseteq> set es \<union> set m" for es and m :: config_records
  proof (induction es arbitrary: m)
    case (Cons e es)
    have "set (btree_insert (fst e) (snd e) m) \<subseteq> insert e (set m)"
      by (induction "fst e" "snd e" m rule: btree_insert.induct) (auto simp: prod_eq_iff)
    with Cons.IH [of "btree_insert (fst e) (snd e) m"] show ?case by (auto simp: split_beta)
  qed simp
  then have "set (shown c) \<subseteq> shown_record ` set (used_records c)"
    by (metis (no_types) shown_def btree_collect_def Un_empty_right list.set(1) set_map)
  moreover have "valid_sqdc_key (str_bytes (fst (shown_record r))) \<and> value_fits (snd (shown_record r))"
    if "r \<in> set (used_records c)" for r
    using that assms
    by (auto simp: sqdc_ok_def list_all_iff record_ok_def shown_record_def shown_value_def value_ok_def
        split: sqdc_kind.split)
  ultimately have "\<forall>p \<in> set (shown c). valid_sqdc_key (str_bytes (fst p)) \<and> value_fits (snd p)" by blast
  moreover have "length (shown c) \<le> SQDC_CONFIG_MAX_RECORDS"
    using shown_count [OF assms] assms by (simp add: sqdc_ok_def)
  ultimately show ?thesis by (auto simp: config_fits_def list_all_iff)
qed

text \<open>
  C17: the device reads a binary configuration exactly if the compiler does and it fits, and reads
  the same records; no bytes make it panic.
\<close>

theorem device_decode_agrees:
  assumes "length bytes \<le> usize_max"
  shows "fst (decode_sqdc_bytes bytes old) \<noteq> Inl Panic \<and>
    ((\<exists>c. decode_sqdc_bytes bytes old = (Inr (), c) \<and> shown c = dc_records d) \<longleftrightarrow>
     decode_sqdc bytes = Inr d \<and> config_fits (dc_records d))"
proof (cases "length bytes < 6 \<or> take 4 bytes \<noteq> SQDC_MAGIC")
  case True
  then show ?thesis by (auto simp: decode_sqdc_bytes_def decode_sqdc_def config_error_def)
next
  case False
  define n :: u16 where "n = of_le (take 2 (drop 4 bytes))"
  from False assms have u16: "read_u16_bytes bytes 4 = Some n" "config_read_u16 bytes 4 = Inr n"
    by (simp_all add: read_u16_bytes_def config_read_u16_def get_range_def n_def)
  have device: "decode_sqdc_bytes bytes old = bind_exec (decode_records (unat n) bytes 6) (\<lambda>cursor.
      if cursor = length bytes then ret () else throw SqdcParseError) sqdc_config_default"
    using False u16 by (simp add: decode_sqdc_bytes_def)
  have core: "decode_sqdc bytes = Inr d \<longleftrightarrow> decode_config_records (unat n) bytes 6 [] = Inr (dc_records d, length bytes)"
    using False u16 by (cases d) (auto simp: decode_sqdc_def and_then_eq_Inr config_error_def split: if_splits)
  have "fst (decode_sqdc_bytes bytes old) \<noteq> Inl Panic"
    using decode_records_no_panic [OF default_config(1), of "unat n" bytes 6]
    by (cases "decode_records (unat n) bytes 6 sqdc_config_default"; cases "fst (decode_records (unat n) bytes 6 sqdc_config_default)")
       (auto simp: device bind_exec_def)
  moreover have "decode_sqdc_bytes bytes old = (Inr (), c) \<longleftrightarrow>
      decode_records (unat n) bytes 6 sqdc_config_default = (Inr (length bytes), c)" for c
    by (cases "decode_records (unat n) bytes 6 sqdc_config_default"; cases "fst (decode_records (unat n) bytes 6 sqdc_config_default)")
       (auto simp: device bind_exec_def)
  moreover note decode_records_sound [OF assms default_config(1), of "unat n" 6 "length bytes"]
    decode_records_complete [OF assms default_config(1), of "unat n" 6 "dc_records d" "length bytes"]
  ultimately show ?thesis unfolding core using shown_fits by (auto; metis)
qed

lemma device_decode_agrees_witness:
  "\<exists>c. decode_sqdc_bytes (SQDC_MAGIC @ [0, 0]) sqdc_config_default = (Inr (), c) \<and> shown c = []"
proof -
  have "decode_sqdc (SQDC_MAGIC @ [0, 0]) = Inr \<lparr>dc_records = []\<rparr>" "length (SQDC_MAGIC @ [0, 0]) \<le> usize_max"
    by (simp_all add: decode_sqdc_def config_read_u16_def get_range_def SQDC_MAGIC_def usize_max_def)
  with device_decode_agrees [of "SQDC_MAGIC @ [0, 0]" sqdc_config_default "\<lparr>dc_records = []\<rparr>"]
  show ?thesis by (simp add: config_fits_def)
qed

section \<open>What the device writes\<close>

text \<open>A writer of some bytes: it writes them at the cursor, or reports that they do not fit.\<close>

definition writes :: "sqdc_write \<Rightarrow> u8 list \<Rightarrow> bool" where
  "writes m bs \<longleftrightarrow> (\<forall>w. wr_cursor w \<le> length (wr_out w) \<longrightarrow> length (wr_out w) \<le> usize_max \<longrightarrow>
     (if wr_cursor w + length bs \<le> length (wr_out w)
      then m w = (Inr (), \<lparr>wr_out = splice (wr_out w) (wr_cursor w) bs, wr_cursor = wr_cursor w + length bs\<rparr>)
      else fst (m w) = Inl (Err SqdcBufferTooSmall)))"

lemma writesI:
  assumes "\<And>out i. i \<le> length out \<Longrightarrow> length out \<le> usize_max \<Longrightarrow> i + length bs \<le> length out \<Longrightarrow>
      m \<lparr>wr_out = out, wr_cursor = i\<rparr> = (Inr (), \<lparr>wr_out = splice out i bs, wr_cursor = i + length bs\<rparr>)"
    and "\<And>out i. i \<le> length out \<Longrightarrow> length out \<le> usize_max \<Longrightarrow> \<not> i + length bs \<le> length out \<Longrightarrow>
      fst (m \<lparr>wr_out = out, wr_cursor = i\<rparr>) = Inl (Err SqdcBufferTooSmall)"
  shows "writes m bs"
  unfolding writes_def
proof (intro allI impI)
  fix w :: sqdc_writer
  assume "wr_cursor w \<le> length (wr_out w)" "length (wr_out w) \<le> usize_max"
  with assms [of "wr_cursor w" "wr_out w"] show "if wr_cursor w + length bs \<le> length (wr_out w)
      then m w = (Inr (), \<lparr>wr_out = splice (wr_out w) (wr_cursor w) bs, wr_cursor = wr_cursor w + length bs\<rparr>)
      else fst (m w) = Inl (Err SqdcBufferTooSmall)" by (cases w) simp
qed

lemma splice_splice: "i + length xs \<le> length out \<Longrightarrow>
  splice (splice out i xs) (i + length xs) ys = splice out i (xs @ ys)"
  by (simp add: splice_def ac_simps)

lemma writes_bind:
  assumes "writes m xs" "writes k ys"
  shows "writes (bind_exec m (\<lambda>_. k)) (xs @ ys)"
proof (rule writesI)
  fix out :: "u8 list" and i :: nat
  let ?w = "\<lparr>wr_out = out, wr_cursor = i\<rparr>" and ?u = "\<lparr>wr_out = splice out i xs, wr_cursor = i + length xs\<rparr>"
  assume out: "i \<le> length out" "length out \<le> usize_max"
  note m = assms(1) [unfolded writes_def, rule_format, of ?w] and k = assms(2) [unfolded writes_def, rule_format, of ?u]
  {
    assume "i + length (xs @ ys) \<le> length out"
    with m k out splice_splice [of i xs out ys] show "bind_exec m (\<lambda>_. k) ?w =
        (Inr (), \<lparr>wr_out = splice out i (xs @ ys), wr_cursor = i + length (xs @ ys)\<rparr>)"
      by (simp add: bind_exec_def add.assoc)
  next
    assume long: "\<not> i + length (xs @ ys) \<le> length out"
    show "fst (bind_exec m (\<lambda>_. k) ?w) = Inl (Err SqdcBufferTooSmall)"
    proof (cases "i + length xs \<le> length out")
      case True
      with m k out long show ?thesis by (simp add: bind_exec_def)
    next
      case False
      with m out show ?thesis by (cases "m ?w") (simp add: bind_exec_def)
    qed
  }
qed

lemma writes_bytes: "writes (write_sqdc_bytes bs) bs"
  by (rule writesI) (auto simp: write_sqdc_bytes_def checked_add_def)

lemma writes_u8: "writes (write_u8 b) [b]"
  by (rule writesI) (simp_all add: write_u8_def splice_def upd_conv_take_nth_drop)

lemma writes_len_bytes: "length bs \<le> 65535 \<Longrightarrow> writes (write_len_bytes bs) (u16_le (of_nat (length bs)) @ bs)"
  by (simp add: write_len_bytes_def write_u16_bytes_def writes_bind writes_bytes)

lemma writes_ret: "writes (ret ()) []"
  by (rule writesI) (simp_all add: splice_def)

lemma bind_lift [simp]: "bind_exec (lift (Inr v)) f = f v"
  by (simp add: fun_eq_iff)

lemma writes_value:
  assumes "value_ok v"
  shows "\<exists>bs. value_bytes_of (shown_value v) = Inr bs \<and> writes (write_value v) bs"
proof (cases "sv_kind v")
  case SK_String
  let ?s = "take (sv_string_len v) (sv_string v)"
  from assms SK_String have s: "sv_string_len v \<le> length (sv_string v)" "utf8_valid ?s" "length ?s \<le> 48"
    "\<not> sv_string_len v > SQDC_CONFIG_STRING_CAP" by (simp_all add: value_ok_def)
  have "writes (bind_exec (write_u8 TAG_STRING) (\<lambda>_. write_len_bytes ?s))
      ([TAG_STRING] @ u16_le (of_nat (length ?s)) @ ?s)"
    using s(3) by (intro writes_bind writes_u8 writes_len_bytes) simp
  moreover have "write_value v = bind_exec (write_u8 TAG_STRING) (\<lambda>_. write_len_bytes ?s)"
    using SK_String s(1,4) by (simp add: write_value_def)
  ultimately show ?thesis
    using SK_String s(2,3) by (simp add: shown_value_def config_write_string_def)
next
  case SK_I32
  have "writes (bind_exec (write_u8 TAG_INT) (\<lambda>_. write_sqdc_bytes (u32_le (sv_i32 v)))) ([TAG_INT] @ u32_le (sv_i32 v))"
    by (intro writes_bind writes_u8 writes_bytes)
  with SK_I32 show ?thesis by (simp add: write_value_def shown_value_def)
next
  case SK_Bool
  have "writes (bind_exec (write_u8 TAG_BOOL) (\<lambda>_. write_u8 (if sv_bool v then 1 else 0)))
      ([TAG_BOOL] @ [if sv_bool v then 1 else 0])"
    by (intro writes_bind writes_u8)
  with SK_Bool show ?thesis by (simp add: write_value_def shown_value_def)
next
  case SK_Null
  then show ?thesis by (simp add: write_value_def shown_value_def writes_u8)
qed

lemma writes_records:
  assumes "list_all record_ok rs"
  shows "\<exists>bs. encode_config_records (map shown_record rs) = Inr bs \<and> writes (write_records rs) bs"
  using assms
proof (induction rs)
  case Nil
  show ?case by (intro exI [of _ "[]"] conjI) (simp, simp only: write_records.simps writes_ret)
next
  case (Cons r rs)
  then obtain bs where bs: "encode_config_records (map shown_record rs) = Inr bs" "writes (write_records rs) bs" by auto
  from Cons.prems have ok: "record_ok r" by simp
  then have key: "valid_sqdc_key (record_key r)" "length (record_key r) \<le> 65535"
    by (auto simp: record_ok_def valid_sqdc_key_def)
  obtain vs where vs: "value_bytes_of (shown_value (sr_value r)) = Inr vs" "writes (write_value (sr_value r)) vs"
    using writes_value ok by (auto simp: record_ok_def)
  have "writes (bind_exec (write_len_bytes (record_key r)) (\<lambda>_. bind_exec (write_value (sr_value r)) (\<lambda>_. write_records rs)))
      ((u16_le (of_nat (length (record_key r))) @ record_key r) @ vs @ bs)"
    by (intro writes_bind writes_len_bytes key(2) vs(2) bs(2))
  then have "writes (write_records (r # rs)) ((u16_le (of_nat (length (record_key r))) @ record_key r) @ vs @ bs)"
    using ok key by simp
  moreover have "shown_record r = (Str (record_key r), shown_value (sr_value r))" by (simp add: shown_record_def)
  then have "encode_config_records (map shown_record (r # rs)) =
      Inr ((u16_le (of_nat (length (record_key r))) @ record_key r) @ vs @ bs)"
    using bs(1) vs(1) key by (simp add: config_write_string_def Let_def)
  ultimately show ?case by blast
qed

text \<open>Records that are read in any order are collected.\<close>

lemma decode_records_any_order:
  assumes "encode_config_records rs = Inr out" "bytes = pre @ out @ post" "length bytes \<le> usize_max"
    and "distinct (map fst rs)" "fst ` set rs \<inter> fst ` set acc = {}"
  shows "decode_config_records (length rs) bytes (length pre) acc =
    Inr (fold (\<lambda>(k, v). btree_insert k v) rs acc, length pre + length out)"
  using assms
proof (induction rs arbitrary: acc pre out)
  case (Cons r rs)
  obtain key v where r: "r = (key, v)" by (cases r)
  with Cons.prems(1) obtain ks vs rest where parts: "config_write_string key = Inr ks" "value_bytes_of v = Inr vs"
    "encode_config_records rs = Inr rest" "out = ks @ vs @ rest" by (auto simp: and_then_eq_Inr)
  note bytes = Cons.prems(2) [unfolded parts(4)]
  have "config_read_string bytes (length pre) = Inr (key, length pre + length ks)"
    using bytes Cons.prems(3) by (intro config_read_string_at [OF parts(1), of _ _ "vs @ rest @ post"]) simp_all
  moreover have "config_read_value bytes (length (pre @ ks)) = Inr (v, length (pre @ ks) + length vs)"
    using bytes Cons.prems(3) by (intro config_read_value_at [OF parts(2), of _ _ "rest @ post"]) simp_all
  moreover have "decode_config_records (length rs) bytes (length (pre @ ks @ vs)) (btree_insert key v acc) =
      Inr (fold (\<lambda>(k, v). btree_insert k v) rs (btree_insert key v acc), length (pre @ ks @ vs) + length rest)"
    using Cons.prems bytes r by (intro Cons.IH [OF parts(3)]) (auto simp: keys_btree_insert)
  moreover have "key \<notin> fst ` set acc" using Cons.prems(5) r by simp
  ultimately show ?case using r parts(4) by (simp add: add.assoc)
qed simp



section \<open>The text format on plain text\<close>

text \<open>
  The two differ in what is white space and in the sign of a number.  On printable ASCII, spaces
  and tabs what the device accepts the compiler accepts.
\<close>

definition plain_byte :: "u8 \<Rightarrow> bool" where
  "plain_byte b \<longleftrightarrow> b = 9 \<or> 32 \<le> b \<and> b \<le> 126"

abbreviation (input) plain :: "u8 list \<Rightarrow> bool" where "plain s \<equiv> list_all plain_byte s"

lemma plain_byte_cases: "plain_byte b \<Longrightarrow> b < 128 \<and> b \<notin> {10, 11, 12, 13}"
  by (auto simp: plain_byte_def word_le_nat_alt word_less_nat_alt)

lemma plain_white:
  assumes "w \<in> set WHITE_SPACE" "set w \<subseteq> set s" "plain s"
  shows "w = [9] \<or> w = [32]"
proof -
  have "\<forall>b \<in> set w. b < 128 \<and> b \<notin> {10, 11, 12, 13}"
    using assms(2,3) plain_byte_cases by (fastforce simp: list_all_iff)
  moreover have "\<forall>w \<in> set WHITE_SPACE. w = [9] \<or> w = [32] \<or> (\<exists>b \<in> set w. \<not> (b < 128 \<and> b \<notin> {10, 11, 12, 13}))"
    by (simp add: WHITE_SPACE_def)
  ultimately show ?thesis using assms(1) by blast
qed

lemma blank_white: "[9] \<in> set WHITE_SPACE" "[32] \<in> set WHITE_SPACE"
  by (simp_all add: WHITE_SPACE_def)

lemma first_white_plain:
  assumes "plain (b # bs)"
  shows "first_white (b # bs) = (if is_blank b then Some [b] else None)"
proof (cases "first_white (b # bs)")
  case None
  then have "\<not> starts_with (b # bs) [9]" "\<not> starts_with (b # bs) [32]"
    unfolding first_white_def find_None_iff using blank_white by blast+
  with None show ?thesis by (auto simp: is_blank_def starts_with_def)
next
  case (Some w)
  then have "w \<in> set WHITE_SPACE" "starts_with (b # bs) w" by (auto dest: first_whiteD)
  moreover from this have "set w \<subseteq> set (b # bs)" by (metis starts_with_def set_take_subset)
  ultimately have "w = [9] \<or> w = [32]" "starts_with (b # bs) w" using plain_white assms by blast+
  with Some show ?thesis by (auto simp: is_blank_def starts_with_def)
qed

lemma last_white_plain:
  assumes "plain (bs @ [b])"
  shows "last_white (bs @ [b]) = (if is_blank b then Some [b] else None)"
proof (cases "last_white (bs @ [b])")
  case None
  then have "\<not> ends_with (bs @ [b]) [9]" "\<not> ends_with (bs @ [b]) [32]"
    unfolding last_white_def find_None_iff using blank_white by blast+
  with None show ?thesis by (auto simp: is_blank_def ends_with_def)
next
  case (Some w)
  then have "w \<in> set WHITE_SPACE" "ends_with (bs @ [b]) w" by (auto dest: last_whiteD)
  moreover from this have "set w \<subseteq> set (bs @ [b])" by (metis ends_with_def set_drop_subset)
  ultimately have "w = [9] \<or> w = [32]" "ends_with (bs @ [b]) w" using plain_white assms by blast+
  with Some show ?thesis by (auto simp: is_blank_def ends_with_def)
qed

lemma white_Nil [simp]: "first_white [] = None" "last_white [] = None"
  using first_whiteD [of "[]"] last_whiteD [of "[]"] by (auto simp: option.collapse) (metis option.exhaust)+

lemma trim_start_plain: "plain s \<Longrightarrow> trim_start s = dropWhile is_blank s"
  by (induction s) (simp_all add: trim_start.simps [of "[]"] trim_start.simps [of "_ # _"] first_white_plain)

lemma trim_end_plain: "plain s \<Longrightarrow> trim_end s = rev (dropWhile is_blank (rev s))"
proof (induction s rule: rev_induct)
  case (snoc b bs)
  then show ?case by (simp add: trim_end.simps [of "bs @ [b]"] last_white_plain)
qed (simp add: trim_end.simps)

lemma plain_dropWhile: "plain s \<Longrightarrow> plain (dropWhile f s)"
  by (auto simp: list_all_iff dest: set_dropWhileD)

lemma str_trim_plain:
  assumes "plain s"
  shows "str_trim s = trim_ascii s"
proof -
  have "\<not> ends_with s [13]"
  proof
    assume "ends_with s [13]"
    then have "13 \<in> set s" by (metis ends_with_def in_set_dropD list.set_intros(1))
    with assms show False by (auto simp: list_all_iff plain_byte_def word_le_nat_alt)
  qed
  with assms show ?thesis
    by (simp add: str_trim_def trim_ascii_def trim_start_plain trim_end_plain plain_dropWhile)
qed

lemma whitespace_plain: "plain_byte b \<Longrightarrow> is_ascii_whitespace b = is_blank b"
  using plain_byte_cases [of b] by (auto simp: is_ascii_whitespace_def is_blank_def)

lemma find_white_plain:
  "plain s \<Longrightarrow> find_white s =
    (if list_ex is_blank s then Some (length (takeWhile (\<lambda>b. \<not> is_blank b) s)) else None)"
  by (induction s) (auto simp: first_white_plain)

text \<open>A line that is trimmed, and its words.\<close>

definition trimmed :: "u8 list \<Rightarrow> bool" where
  "trimmed s \<longleftrightarrow> s \<noteq> [] \<and> \<not> is_blank (hd s) \<and> \<not> is_blank (last s)"

lemma dropWhile_hd: "s \<noteq> [] \<Longrightarrow> \<not> f (hd s) \<Longrightarrow> dropWhile f s = s"
  by (cases s) simp_all

lemma trim_both:
  "rev (dropWhile is_blank (rev (dropWhile is_blank s))) = [] \<or>
   trimmed (rev (dropWhile is_blank (rev (dropWhile is_blank s))))"
proof -
  let ?t = "dropWhile is_blank s" and ?u = "rev (dropWhile is_blank (rev (dropWhile is_blank s)))"
  {
    assume some: "?u \<noteq> []"
    then have "\<not> is_blank (last ?u)" by (metis hd_dropWhile last_rev rev_is_Nil_conv)
    moreover obtain xs where t: "?t = ?u @ xs" by (metis rev_append rev_rev_ident takeWhile_dropWhile_id)
    have "?t \<noteq> []" using some by (metis dropWhile.simps(1) rev.simps(1))
    then have "\<not> is_blank (hd ?t)" by (rule hd_dropWhile)
    moreover have "hd ?t = hd ?u" using some t by (metis hd_append2)
    ultimately have "\<not> is_blank (last ?u)" "\<not> is_blank (hd ?u)" by simp_all
    then have "trimmed ?u" using some by (simp add: trimmed_def)
  }
  then show ?thesis by blast
qed

lemma trim_ascii_trimmed: "trim_ascii s = [] \<or> trimmed (trim_ascii s)"
  using trim_both by (simp add: trim_ascii_def Let_def)

lemma trim_ascii_plain: "plain s \<Longrightarrow> plain (trim_ascii s)"
  by (auto simp: list_all_iff trim_ascii_def Let_def dest!: set_dropWhileD in_set_takeD split: if_splits)

lemma trimmed_fixed:
  assumes "plain s" "trimmed s"
  shows "trim_ascii s = s" "trim_start s = s"
proof -
  show start: "trim_start s = s" using assms by (simp add: trim_start_plain dropWhile_hd trimmed_def)
  have "trim_end s = s" using assms by (simp add: trim_end_plain dropWhile_hd trimmed_def hd_rev)
  with start show "trim_ascii s = s" using str_trim_plain [OF assms(1)] by (simp add: str_trim_def)
qed

lemma words_plain:
  assumes "plain s" "trimmed s"
  shows "split_word s = split_ascii_word s"
    "split_ascii_word s = Some (k, rest) \<Longrightarrow> plain k \<and> plain rest \<and> trimmed rest"
proof -
  let ?f = "\<lambda>b. \<not> is_blank b" and ?d = "dropWhile (\<lambda>b. \<not> is_blank b) s"
  have same: "takeWhile (\<lambda>b. \<not> is_ascii_whitespace b) s = takeWhile ?f s"
    "dropWhile (\<lambda>b. \<not> is_ascii_whitespace b) s = ?d" "list_ex is_ascii_whitespace s = list_ex is_blank s"
    using assms(1) by (induction s) (auto simp: whitespace_plain)
  have plain_d: "plain ?d" using assms(1) by (rule plain_dropWhile)
  have rest: "trim_ascii ?d = trim_start ?d \<and> trimmed (trim_ascii ?d)" if blank: "list_ex is_blank s"
  proof -
    from blank have d: "?d \<noteq> []" by (auto simp: list_ex_iff)
    then have "last ?d = last s" by (metis last_appendR takeWhile_dropWhile_id)
    then have fin: "\<not> is_blank (last ?d)" using assms(2) by (simp add: trimmed_def)
    let ?t = "trim_start ?d"
    have t: "?t = dropWhile is_blank ?d" by (rule trim_start_plain [OF plain_d])
    have "last ?d \<in> set ?d" using d by (rule last_in_set)
    with fin have some: "?t \<noteq> []" unfolding t dropWhile_eq_Nil_conv by blast
    then have "\<not> is_blank (hd ?t)" by (simp add: t hd_dropWhile)
    moreover have "last ?t = last ?d" using some by (metis t last_appendR takeWhile_dropWhile_id)
    ultimately have trim: "trimmed ?t" using some fin by (simp add: trimmed_def)
    have "plain ?t" unfolding t by (rule plain_dropWhile [OF plain_d])
    then have "trim_end ?t = ?t" using trim by (simp add: trim_end_plain dropWhile_hd trimmed_def hd_rev)
    then have "trim_ascii ?d = ?t" using str_trim_plain [OF plain_d] by (simp add: str_trim_def)
    with trim show ?thesis by simp
  qed
  have s: "s \<noteq> []" using assms(2) by (simp add: trimmed_def)
  have drop: "drop (length (takeWhile ?f s)) s = ?d" "take (length (takeWhile ?f s)) s = takeWhile ?f s"
    by (simp_all flip: takeWhile_eq_take dropWhile_eq_drop)
  show "split_word s = split_ascii_word s"
  proof (cases "list_ex is_blank s")
    case True
    have "split_ascii_word s = Some (takeWhile ?f s, trim_ascii ?d)"
      by (simp only: split_ascii_word_def trimmed_fixed [OF assms] same True Let_def if_True)
    moreover have "split_word s = Some (takeWhile ?f s, trim_start ?d)"
      by (simp only: split_word_def trimmed_fixed [OF assms] find_white_plain [OF assms(1)] True s Let_def if_True
          if_False option.map drop)
    ultimately show ?thesis using rest [OF True] by simp
  next
    case False
    then show ?thesis
      by (simp only: split_word_def split_ascii_word_def trimmed_fixed [OF assms] find_white_plain [OF assms(1)] same s
          Let_def if_False option.map)
  qed
  assume "split_ascii_word s = Some (k, rest)"
  then have "list_ex is_blank s" "k = takeWhile ?f s" "rest = trim_ascii ?d"
    using trimmed_fixed [OF assms] same by (auto simp: split_ascii_word_def split: if_splits)
  then show "plain k \<and> plain rest \<and> trimmed rest"
    using rest trim_ascii_plain [OF plain_d] assms(1) by (auto simp: list_all_iff dest: set_takeWhileD)
qed

lemma digit_facts:
  assumes "is_digit b"
  shows "digit_value 10 b = Some (unat (b - 48))" "b \<noteq> 43" "b \<noteq> 45"
proof -
  from assms have b: "48 \<le> b" "b \<le> 57" by (simp_all add: is_digit_def)
  then have "unat (b - 48) = unat b - 48" "unat b \<le> 57" "48 \<le> unat b"
    by (simp_all add: unat_sub word_le_nat_alt)
  with b show "digit_value 10 b = Some (unat (b - 48))" by (simp add: digit_value_def Let_def)
  show "b \<noteq> 43" "b \<noteq> 45" using b by (auto simp: word_le_nat_alt)
qed

lemma ascii_digits_value:
  "list_all is_digit bs \<Longrightarrow> acc \<le> limit \<Longrightarrow> ascii_digits limit acc bs = Some n \<Longrightarrow>
   digits_value 10 acc bs = Some n \<and> n \<le> limit"
proof (induction bs arbitrary: acc)
  case (Cons b bs)
  from Cons.prems(3) have "ascii_digits limit (acc * 10 + unat (b - 48)) bs = Some n" "acc * 10 + unat (b - 48) \<le> limit"
    by (auto split: if_splits)
  with Cons.IH [of "acc * 10 + unat (b - 48)"] Cons.prems(1) show ?case by (simp add: digit_facts)
qed simp

lemma parse_i32_ascii_core:
  assumes "parse_i32_ascii s = Inr n"
  shows "\<exists>i. parse_i32 s = Some i \<and> of_int i = n"
proof -
  let ?neg = "hd s = 45"
  let ?ds = "if ?neg then tl s else s"
  from assms obtain m where m: "s \<noteq> []" "?ds \<noteq> []" "list_all is_digit ?ds" "ascii_digits 9223372036854775807 0 ?ds = Some m"
    "- 2147483648 \<le> (if ?neg then - int m else int m)" "(if ?neg then - int m else int m) \<le> 2147483647"
    "n = of_int (if ?neg then - int m else int m)"
    by (auto simp: parse_i32_ascii_def Let_def and_then_eq_Inr split: if_splits)
  from ascii_digits_value [OF m(3) _ m(4)] have ds: "digits_value 10 0 ?ds = Some m" "m \<le> 9223372036854775807" by simp_all
  obtain b bs where s: "s = b # bs" using m(1) by (cases s) auto
  show ?thesis
  proof (cases ?neg)
    case True
    with s m ds show ?thesis by (simp add: parse_i32_def parse_i64_def parse_magnitude_def)
  next
    case False
    moreover from False s m(3) have "b \<noteq> 43" using digit_facts by simp
    ultimately show ?thesis using s m ds by (simp add: parse_i32_def parse_i64_def parse_unsigned_def parse_magnitude_def)
  qed
qed

lemma parse_usize_ascii_core:
  assumes "parse_usize_ascii s = Inr n"
  shows "parse_usize s = Some n"
proof -
  from assms have s: "s \<noteq> []" "list_all is_digit s" "ascii_digits usize_max 0 s = Some n"
    by (auto simp: parse_usize_ascii_def split: if_splits)
  from ascii_digits_value [OF s(2) _ s(3)] have "digits_value 10 0 s = Some n" "n \<le> usize_max" by simp_all
  moreover obtain b bs where "s = b # bs" "b \<noteq> 43" using s(1,2) digit_facts by (cases s) auto
  ultimately show ?thesis by (simp add: parse_usize_def parse_unsigned_def parse_magnitude_def)
qed

lemma parse_sqdevice_value_core:
  assumes "parse_sqdevice_value t v = Inr w"
  shows "value_ok w \<and> parse_value t v = Inr (shown_value w)"
proof -
  consider (null) "t = lit ''null''" "v = []" "w = null_value"
    | (bool) b where "t = lit ''bool''" "v = lit (if b then ''true'' else ''false'')" "w = bool_value b"
    | (int) n where "t = lit ''int''" "parse_i32_ascii v = Inr n" "w = i32_value n"
    | (str) d x where "t = lit ''string''" "split_once 58 v = Some (d, x)" "parse_usize_ascii d = Inr (length x)"
        "length x \<le> SQDC_CONFIG_STRING_CAP" "utf8_valid x" "w = string_value x"
  proof -
    note cases = that
    show thesis
    proof (cases "t = lit ''string''")
      case True
      with assms cases(4) show thesis
        by (auto simp: parse_sqdevice_value_def and_then_eq_Inr from_utf8_def split: option.splits if_splits)
    next
      case False
      with assms cases(1) cases(2) [of True] cases(2) [of False] cases(3) show thesis
        by (simp add: parse_sqdevice_value_def and_then_eq_Inr split: if_splits) blast
    qed
  qed
  then show ?thesis
  proof cases
    case null
    then show ?thesis by (simp add: parse_value_def)
  next
    case bool
    then show ?thesis by (cases b) (simp_all add: parse_value_def)
  next
    case int
    with parse_i32_ascii_core [OF int(2)] show ?thesis by (auto simp: parse_value_def)
  next
    case str
    with parse_usize_ascii_core [OF str(3)] show ?thesis by (simp add: parse_value_def parse_len_string_def)
  qed
qed

text \<open>The records behind the header, and the lines from the start.\<close>

lemma ignored_plain: "plain line \<Longrightarrow> is_ignored_line line \<longleftrightarrow> trim_ascii line = [] \<or> hd (trim_ascii line) = 35"
  by (cases "trim_ascii line") (auto simp: is_ignored_line_def str_trim_plain Let_def starts_with_def)

lemma trim_ascii_twice: "plain line \<Longrightarrow> trim_ascii (trim_ascii line) = trim_ascii line"
  using trim_ascii_trimmed [of line] trimmed_fixed(1) [OF trim_ascii_plain, of line]
  by (auto simp: trim_ascii_def [of "[]"] ends_with_def)

lemma parse_lines_core:
  assumes "list_all plain lines" "sqdc_ok c" "parse_sqdevice_lines lines True c = (Inr (), d)"
  shows "sqdc_ok d \<and> parse_records (enumerate k lines) (shown c) = Inr (shown d)"
  using assms
proof (induction lines arbitrary: c k)
  case (Cons raw lines)
  let ?line = "trim_ascii raw"
  from Cons.prems(1) have raw: "plain raw" "list_all plain lines" by simp_all
  then have line: "plain ?line" "str_trim raw = ?line" "is_ignored_line ?line \<longleftrightarrow> ?line = [] \<or> hd ?line = 35"
    using ignored_plain [OF trim_ascii_plain [OF raw(1)]] trim_ascii_twice [OF raw(1)]
    by (simp_all add: trim_ascii_plain str_trim_plain)
  show ?case
  proof (cases "?line = [] \<or> hd ?line = 35")
    case True
    with Cons.prems(3) have "parse_sqdevice_lines lines True c = (Inr (), d)" by (simp add: Let_def)
    from Cons.IH [OF raw(2) Cons.prems(2) this, of "Suc k"] True line show ?thesis by simp
  next
    case False
    then have trim: "trimmed ?line" using trim_ascii_trimmed by blast
    note step = Cons.prems(3) [unfolded parse_sqdevice_lines.simps Let_def]
    obtain key tail where words: "split_ascii_word ?line = Some (key, tail)"
      using False step by (auto split: option.splits)
    note tail = words_plain(2) [OF line(1) trim words]
    obtain t v where tv: "(case split_ascii_word tail of Some p \<Rightarrow> p | None \<Rightarrow> (trim_ascii tail, [])) = (t, v)"
      by (cases "case split_ascii_word tail of Some p \<Rightarrow> p | None \<Rightarrow> (trim_ascii tail, [])")
    obtain w c' where run: "parse_sqdevice_value t v = Inr w" "config_set_new_value key w c = (Inr (), c')"
      "parse_sqdevice_lines lines True c' = (Inr (), d)"
      using False step words tv by (auto dest!: bind_exec_InrD)
    note w = parse_sqdevice_value_core [OF run(1)]
    note set = set_new_value_ok [OF Cons.prems(2) _ run(2)]
    have "(case split_word tail of Some p \<Rightarrow> p | None \<Rightarrow> (str_trim tail, [])) = (t, v)"
      using tv tail words_plain(1) [of tail] str_trim_plain [of tail] by (simp cong: option.case_cong)
    moreover have "split_word ?line = Some (key, tail)" using words words_plain(1) [OF line(1) trim] by simp
    moreover have "sqdc_ok d \<and> parse_records (enumerate (Suc k) lines) (shown c') = Inr (shown d)"
      using Cons.IH [OF raw(2) _ run(3)] set(1) w by blast
    ultimately show ?thesis using False line w set by (simp add: Let_def)
  qed
qed simp

lemma parse_header_core:
  assumes "list_all plain lines" "sqdc_ok c" "parse_sqdevice_lines lines False c = (Inr (), d)"
  shows "\<exists>i header more. dropWhile (\<lambda>(_, line). is_ignored_line line) (enumerate k lines) = (i, header) # more \<and>
    str_trim header = lit ''SQDEVICE'' \<and> parse_records more (shown c) = Inr (shown d)"
  using assms
proof (induction lines arbitrary: k)
  case (Cons raw lines)
  let ?line = "trim_ascii raw"
  from Cons.prems(1) have raw: "plain raw" "list_all plain lines" by simp_all
  show ?case
  proof (cases "?line = [] \<or> hd ?line = 35")
    case True
    with Cons.prems(3) have "parse_sqdevice_lines lines False c = (Inr (), d)" by (simp add: Let_def)
    from Cons.IH [OF raw(2) Cons.prems(2) this, of "Suc k"] True raw(1) show ?thesis by (simp add: ignored_plain)
  next
    case False
    with Cons.prems(3) have "?line = lit ''SQDEVICE''" "parse_sqdevice_lines lines True c = (Inr (), d)"
      by (auto simp: Let_def split: if_splits)
    with parse_lines_core [OF raw(2) Cons.prems(2), of d "Suc k"] False raw(1) show ?thesis
      by (simp add: ignored_plain str_trim_plain)
  qed
qed simp

definition plain_text :: "u8 list \<Rightarrow> bool" where
  "plain_text s \<longleftrightarrow> list_all (\<lambda>b. plain_byte b \<or> b = 10) s"

lemma split_lines_plain: "plain_text s \<Longrightarrow> list_all plain (split_bytes (\<lambda>b. b = 10) s)"
proof (induction s)
  case (Cons b s)
  then have "list_all plain (split_bytes (\<lambda>b. b = 10) s)" by (simp add: plain_text_def)
  with Cons.prems show ?case by (cases "split_bytes (\<lambda>b. b = 10) s") (auto simp: plain_text_def)
qed simp

lemma strip_cr_plain: "plain s \<Longrightarrow> strip_cr s = s"
  by (auto simp: strip_cr_def list_all_iff plain_byte_def word_le_nat_alt dest!: last_in_set)

text \<open>An empty last part is a line for the device and none for the compiler: it is ignored.\<close>

lemma parse_lines_last: "parse_sqdevice_lines (lines @ [[]]) saw = parse_sqdevice_lines lines saw"
proof (induction lines arbitrary: saw)
  case Nil
  show ?case by (simp add: trim_ascii_def ends_with_def)
next
  case (Cons l lines)
  show ?case unfolding append_Cons parse_sqdevice_lines.simps Cons.IH ..
qed


lemmas text_steps = parse_sqdevice_bytes_def trim_ascii_def ends_with_def is_blank_def split_ascii_word_def
  is_ascii_whitespace_def parse_sqdevice_value_def parse_i32_ascii_def is_digit_def from_utf8_def
  split_once_def parse_usize_ascii_def usize_max_def

lemma first_record: "valid_sqdc_key key \<Longrightarrow> \<exists>d. config_set_new_value key v sqdc_config_default = (Inr (), d)"
  by (rule set_new_value_succeeds) (simp_all, simp add: sqdc_config_default_def)


text \<open>The no-break space.\<close>

lemma text_differs:
  "(\<exists>c. parse_sqdevice_bytes (lit (''SQDEVICE'' @ [CHR 10] @ ''k string 3:a'') @ [0xC2, 0xA0]) sqdc_config_default = (Inr (), c)) \<and>
   parse_sqdevice (Str (lit (''SQDEVICE'' @ [CHR 10] @ ''k string 3:a'') @ [0xC2, 0xA0])) = config_error ''string length mismatch''"
proof
  have "valid_sqdc_key (lit ''k'')" by (simp add: valid_sqdc_key_def from_utf8_def is_alphabetic_def)
  from first_record [OF this, of "string_value [97, 0xC2, 0xA0]"] obtain d where
    "config_set_new_value (lit ''k'') (string_value [97, 0xC2, 0xA0]) sqdc_config_default = (Inr (), d)" by blast
  moreover have "utf8_valid [97, 0xC2, 0xA0]"
    by (simp add: utf8_valid.simps [of "_ # _"] utf8_cont_def)
  ultimately show "\<exists>c. parse_sqdevice_bytes (lit (''SQDEVICE'' @ [CHR 10] @ ''k string 3:a'') @ [0xC2, 0xA0])
      sqdc_config_default = (Inr (), c)"
    by (simp add: text_steps bind_exec_Inr)
  have "utf8_valid (lit (''SQDEVICE'' @ [CHR 10] @ ''k string 3:a'') @ [0xC2, 0xA0])"
    by (simp add: utf8_valid.simps [of "0xC2 # _"] utf8_cont_def)
  then show "parse_sqdevice (Str (lit (''SQDEVICE'' @ [CHR 10] @ ''k string 3:a'') @ [0xC2, 0xA0])) =
      config_error ''string length mismatch''"
    by (simp add: parse_sqdevice_def str_lines_def strip_cr_def is_ignored_line_def str_trim_def
      trim_start.simps [of "[]"] trim_start.simps [of "_ # _"] trim_end.simps [of "[]"] trim_end.simps [of "_ # _"]
      first_white_def last_white_def WHITE_SPACE_def starts_with_def ends_with_def split_word_def
      parse_value_def parse_len_string_def split_once_def config_error_def parse_usize_def parse_unsigned_def
      parse_magnitude_def digit_value_def usize_max_def)
qed

section \<open>Device bindings\<close>

lemma config_set_value_fresh:
  assumes "sqdc_ok c" "valid_sqdc_key key" "Str key \<notin> fst ` set (shown c)"
  shows "config_set_value key v c = config_set_new_value key v c"
  using assms config_record_index_keys [OF assms(1), of key] keys_shown [OF assms(1,2)]
  by (auto simp: config_set_value_def config_set_new_value_def)

lemma set_fresh_ok:
  assumes "sqdc_ok c" "valid_sqdc_key key" "Str key \<notin> fst ` set (shown c)" "sc_count c < SQDC_CONFIG_MAX_RECORDS"
    "value_ok v"
  shows "\<exists>d. config_set_value key v c = (Inr (), d) \<and> sqdc_ok d \<and> sc_count d = sc_count c + 1 \<and>
    shown d = btree_insert (Str key) (shown_value v) (shown c)"
  using set_new_value_succeeds [OF assms(1-4), of v] set_new_value_ok [OF assms(1,5)]
    config_set_value_fresh [OF assms(1-3), of v] by metis

definition string_records :: "(rstr \<times> u8 list) list \<Rightarrow> config_records" where
  "string_records kvs = map (\<lambda>(k, v). (Str k, DC_String (Str v))) kvs"

lemma string_records_simps [simp]: "string_records [] = []"
  "string_records ((k, v) # kvs) = (Str k, DC_String (Str v)) # string_records kvs"
  by (simp_all add: string_records_def)

lemma set_strings_fresh:
  assumes "sqdc_ok c" "sc_count c + length kvs \<le> SQDC_CONFIG_MAX_RECORDS" "distinct (map fst (string_records kvs))"
    "fst ` set (string_records kvs) \<inter> fst ` set (shown c) = {}"
    "list_all (\<lambda>(k, v). valid_sqdc_key k \<and> length v \<le> SQDC_CONFIG_STRING_CAP \<and> utf8_valid v) kvs"
  shows "\<exists>d. set_strings kvs c = (Inr (), d) \<and> sqdc_ok d \<and> sc_count d = sc_count c + length kvs \<and>
    shown d = fold (\<lambda>(k, v). btree_insert k v) (string_records kvs) (shown c)"
  using assms
proof (induction kvs arbitrary: c)
  case (Cons kv kvs)
  obtain k v where kv: "kv = (k, v)" by (cases kv)
  with Cons.prems have k: "valid_sqdc_key k" "Str k \<notin> fst ` set (shown c)" "sc_count c < SQDC_CONFIG_MAX_RECORDS"
    "length v \<le> SQDC_CONFIG_STRING_CAP" "utf8_valid v" by auto
  then obtain c' where c': "config_set_value k (string_value v) c = (Inr (), c')" "sqdc_ok c'"
    "sc_count c' = sc_count c + 1" "shown c' = btree_insert (Str k) (DC_String (Str v)) (shown c)"
    using set_fresh_ok [OF Cons.prems(1) k(1-3), of "string_value v"] by auto
  have "\<exists>d. set_strings kvs c' = (Inr (), d) \<and> sqdc_ok d \<and> sc_count d = sc_count c' + length kvs \<and>
      shown d = fold (\<lambda>(k, v). btree_insert k v) (string_records kvs) (shown c')"
    using Cons.prems c'(3,4) kv by (intro Cons.IH [OF c'(2)]) (auto simp: keys_btree_insert)
  with c' k kv show ?case
    by (auto simp: sqdc_string_value_def from_utf8_def bind_exec_Inr)
qed simp

definition inline_config :: "(rstr \<times> u8 list) list \<Rightarrow> bool \<Rightarrow> unit sqdc_method" where
  "inline_config kvs active_low =
     bind_exec (modify (\<lambda>_. sqdc_config_default)) (\<lambda>_.
     bind_exec (set_strings kvs) (\<lambda>_. config_set_value (lit ''activeLow'') (bool_value active_low)))"

lemma inline_config_ok:
  assumes "length kvs < SQDC_CONFIG_MAX_RECORDS" "distinct (map fst (string_records kvs))"
    "Str (lit ''activeLow'') \<notin> fst ` set (string_records kvs)"
    "list_all (\<lambda>(k, v). valid_sqdc_key k \<and> length v \<le> SQDC_CONFIG_STRING_CAP \<and> utf8_valid v) kvs"
  shows "\<exists>d. inline_config kvs low c = (Inr (), d) \<and> sqdc_ok d \<and>
    shown d = btree_collect (string_records kvs @ [(Str (lit ''activeLow''), DC_Bool low)])"
proof -
  have "sc_count sqdc_config_default = 0" by (simp add: sqdc_config_default_def)
  then obtain c' where c': "set_strings kvs sqdc_config_default = (Inr (), c')" "sqdc_ok c'" "sc_count c' = length kvs"
    "shown c' = btree_collect (string_records kvs)"
    using set_strings_fresh [OF default_config(1), of kvs] assms by (auto simp: btree_collect_def)
  have "valid_sqdc_key (lit ''activeLow'')" by (simp add: valid_sqdc_key_def from_utf8_def is_alphabetic_def)
  moreover have "Str (lit ''activeLow'') \<notin> fst ` set (shown c')"
    using assms(3) by (simp add: c'(4) btree_collect_def keys_btree_collect)
  ultimately obtain d where "config_set_value (lit ''activeLow'') (bool_value low) c' = (Inr (), d)" "sqdc_ok d"
    "shown d = btree_insert (Str (lit ''activeLow'')) (DC_Bool low) (shown c')"
    using set_fresh_ok [OF c'(2), of "lit ''activeLow''" "bool_value low"] c'(3) assms(1) by auto
  with c' show ?thesis by (simp add: inline_config_def bind_exec_Inr btree_collect_def)
qed

text \<open>The resources are the compiler's.\<close>

lemma is_digit_range: "is_digit = (\<lambda>b. 48 \<le> b \<and> b \<le> 57)"
  by (simp add: fun_eq_iff is_digit_def)

lemma starts_with_iff: "starts_with s p \<longleftrightarrow> (\<exists>t. s = p @ t)"
  unfolding starts_with_def by (metis append_eq_conv_conj)

lemma strip_prefix_iff: "strip_prefix s p = Some t \<longleftrightarrow> s = p @ t"
  by (auto simp: strip_prefix_def starts_with_iff)

lemma strip_prefix_append:
  "strip_prefix s (p @ q) = Option.bind (strip_prefix s p) (\<lambda>t. strip_prefix t q)"
proof (cases "strip_prefix s (p @ q)")
  case (Some t)
  then have "s = p @ q @ t" by (simp add: strip_prefix_iff)
  then have "strip_prefix s p = Some (q @ t)" "strip_prefix (q @ t) q = Some t" by (simp_all add: strip_prefix_iff)
  with Some show ?thesis by simp
next
  case None
  then have "strip_prefix s p = Some t \<Longrightarrow> strip_prefix t q \<noteq> Some u" for t u
    by (auto simp: strip_prefix_iff) (metis append_assoc option.distinct(1) strip_prefix_iff)
  with None show ?thesis by (cases "strip_prefix s p") (auto, metis not_None_eq)
qed

lemma gpio_digits_pin: "gpio_digits d \<longleftrightarrow> is_gpio_pin d"
  by (auto simp: gpio_digits_def is_gpio_pin_def is_digit_range)

lemma gpio_resource_core:
  "parse_inline_gpio_resource r = (if is_safe_gpio_binding_resource r then Some (drop 5 r) else None)"
proof -
  have "lit ''gpio:GPIO'' = lit ''gpio:'' @ lit ''GPIO''" by simp
  then have strip: "strip_prefix r (lit ''gpio:GPIO'') =
      Option.bind (strip_prefix r (lit ''gpio:'')) (\<lambda>p. strip_prefix p (lit ''GPIO''))"
    using strip_prefix_append by metis
  show ?thesis
  proof (cases "strip_prefix r (lit ''gpio:'')")
    case None
    then show ?thesis
      by (simp add: parse_inline_gpio_resource_def is_safe_gpio_binding_resource_def strip del: lit_simps)
  next
    case (Some p)
    then have "drop 5 r = p" by (auto simp: strip_prefix_iff)
    with Some show ?thesis
      by (cases "strip_prefix p (lit ''GPIO'')")
         (simp_all add: parse_inline_gpio_resource_def is_safe_gpio_binding_resource_def strip gpio_digits_pin del: lit_simps)
  qed
qed

lemma split_once_byte_same: "split_once_byte s c = split_once c s"
proof -
  let ?n = "length (takeWhile (\<lambda>b. b \<noteq> c) s)"
  have "take ?n s = takeWhile (\<lambda>b. b \<noteq> c) s" by (rule takeWhile_eq_take [symmetric])
  moreover have "drop (?n + 1) s = tl (dropWhile (\<lambda>b. b \<noteq> c) s)" by (simp add: dropWhile_eq_drop drop_Suc tl_drop)
  ultimately show ?thesis by (simp add: split_once_byte_def split_once_def Let_def)
qed

lemma key_event_core: "valid_logical_key_event e \<longleftrightarrow> is_valid_key_event e"
  by (simp add: valid_logical_key_event_def is_valid_key_event_def)

text \<open>The pin has no colon, so the split is before it or behind it.\<close>

lemma split_once_prefix: "c \<notin> set p \<Longrightarrow> split_once c (p @ s) = map_option (\<lambda>(a, b). (p @ a, b)) (split_once c s)"
proof -
  assume "c \<notin> set p"
  then have "\<And>x. x \<in> set p \<Longrightarrow> x \<noteq> c" by blast
  note tw = takeWhile_append2 [OF this] and dw = dropWhile_append2 [OF this]
  from \<open>c \<notin> set p\<close> show ?thesis by (simp add: split_once_def tw dw)
qed

lemma button_resource_core:
  "parse_inline_gpio_button_resource r \<noteq> None \<longleftrightarrow> is_safe_gpio_button_binding_resource r"
proof -
  have "lit ''gpio-button:GPIO'' = lit ''gpio-button:'' @ lit ''GPIO''" by simp
  then have strip: "strip_prefix r (lit ''gpio-button:GPIO'') =
      Option.bind (strip_prefix r (lit ''gpio-button:'')) (\<lambda>p. strip_prefix p (lit ''GPIO''))"
    using strip_prefix_append by metis
  show ?thesis
  proof (cases "strip_prefix r (lit ''gpio-button:'')")
    case None
    then show ?thesis
      by (simp add: parse_inline_gpio_button_resource_def is_safe_gpio_button_binding_resource_def strip del: lit_simps)
  next
    case r: (Some p)
    show ?thesis
    proof (cases "strip_prefix p (lit ''GPIO'')")
      case None
      have "strip_prefix pin (lit ''GPIO'') = None" if "split_once 58 p = Some (pin, rest)" for pin rest
      proof (rule ccontr)
        assume "strip_prefix pin (lit ''GPIO'') \<noteq> None"
        then obtain t where "pin = lit ''GPIO'' @ t" by (auto simp: strip_prefix_iff simp del: lit_simps)
        moreover from that have "pin = takeWhile (\<lambda>b. b \<noteq> 58) p" by (simp add: split_once_def split: if_splits)
        then have "p = pin @ dropWhile (\<lambda>b. b \<noteq> 58) p" by simp
        ultimately have "p = lit ''GPIO'' @ (t @ dropWhile (\<lambda>b. b \<noteq> 58) p)" by (simp only: append_assoc)
        then have "strip_prefix p (lit ''GPIO'') = Some (t @ dropWhile (\<lambda>b. b \<noteq> 58) p)" by (simp only: strip_prefix_iff)
        with None show False by simp
      qed
      with r None show ?thesis
        by (auto simp: parse_inline_gpio_button_resource_def is_safe_gpio_button_binding_resource_def strip
            split_once_byte_same bind_eq_Some_conv simp del: lit_simps)
    next
      case (Some t)
      then have p: "p = lit ''GPIO'' @ t" by (simp add: strip_prefix_iff del: lit_simps)
      have halves: "split_once 58 p = map_option (\<lambda>(a, b). (lit ''GPIO'' @ a, b)) (split_once 58 t)"
        unfolding p by (rule split_once_prefix) simp
      have pin: "strip_prefix (lit ''GPIO'' @ a) (lit ''GPIO'') = Some a" for a by (simp only: strip_prefix_iff)
      show ?thesis
      proof (cases "split_once 58 t")
        case None
        with r Some show ?thesis
          by (simp add: parse_inline_gpio_button_resource_def is_safe_gpio_button_binding_resource_def strip
              split_once_byte_same halves del: lit_simps)
      next
        case (Some q)
        obtain a rest where q: "q = (a, rest)" by (cases q)
        show ?thesis
          using r \<open>strip_prefix p (lit ''GPIO'') = Some t\<close> Some q pin
          by (cases "split_once 58 rest")
             (auto simp: parse_inline_gpio_button_resource_def is_safe_gpio_button_binding_resource_def strip
              split_once_byte_same halves gpio_digits_pin key_event_core simp del: lit_simps split: if_splits)
      qed
    qed
  qed
qed

lemma sqdevice_path_core: "is_safe_sqdevice_path_bytes p \<longleftrightarrow> is_safe_sqdevice_path p"
  by (auto simp: is_safe_sqdevice_path_bytes_def is_safe_sqdevice_path_def)

lemma ascii_valid: "list_all (\<lambda>b. b < 128) s \<Longrightarrow> utf8_valid s"
  by (induction s) simp_all

lemma gpio_pin_text:
  assumes "is_gpio_pin d"
  shows "utf8_valid (lit ''GPIO'' @ d)" "length (lit ''GPIO'' @ d) \<le> 6"
proof -
  from assms have "list_all (\<lambda>b. b < 128) d"
    by (auto simp: is_gpio_pin_def list_all_iff word_le_nat_alt word_less_nat_alt)
  then show "utf8_valid (lit ''GPIO'' @ d)" by (simp add: ascii_valid)
  show "length (lit ''GPIO'' @ d) \<le> 6" using assms by (simp add: is_gpio_pin_def)
qed

lemma key_event_text:
  assumes "valid_logical_key_event e"
  shows "utf8_valid e" "length e \<le> 10"
proof -
  from assms obtain key where e: "e = lit ''key.'' @ key" "key \<in> set (map lit
      [''UP'', ''DOWN'', ''LEFT'', ''RIGHT'', ''SELECT'', ''BACK'', ''MENU'', ''HOME'', ''POWER''])"
    unfolding valid_logical_key_event_def by (cases "strip_prefix e (lit ''key.'')") (simp_all add: strip_prefix_iff del: lit_simps)
  from e(2) have "utf8_valid key" "length key \<le> 6" by auto
  with e(1) show "utf8_valid e" "length e \<le> 10" by simp_all
qed

lemma gpio_text:
  assumes "parse_inline_gpio_resource r = Some pin"
  shows "utf8_valid pin" "length pin \<le> 6" "is_safe_gpio_binding_resource r"
proof -
  from assms obtain d where "pin = lit ''GPIO'' @ d" "is_gpio_pin d"
    by (auto simp: parse_inline_gpio_resource_def bind_eq_Some_conv strip_prefix_iff gpio_digits_pin
        simp del: lit_simps split: if_splits)
  then show "utf8_valid pin" "length pin \<le> 6" using gpio_pin_text by blast+
  show "is_safe_gpio_binding_resource r" using assms by (simp add: gpio_resource_core split: if_splits)
qed

lemma button_text:
  assumes "parse_inline_gpio_button_resource r = Some (pin, event, low)"
  shows "utf8_valid pin" "length pin \<le> 6" "utf8_valid event" "length event \<le> 10"
    "is_safe_gpio_button_binding_resource r"
proof -
  from assms obtain d where "pin = lit ''GPIO'' @ d" "is_gpio_pin d" and e: "valid_logical_key_event event"
    by (auto simp: parse_inline_gpio_button_resource_def bind_eq_Some_conv strip_prefix_iff gpio_digits_pin
        simp del: lit_simps split: if_splits)
  then show "utf8_valid pin" "length pin \<le> 6" using gpio_pin_text by blast+
  show "utf8_valid event" "length event \<le> 10" using key_event_text [OF e] .
  show "is_safe_gpio_button_binding_resource r" using assms button_resource_core [of r] by auto
qed

text \<open>What a plan must be.\<close>

definition binding_names_fit :: "u8 list \<Rightarrow> u8 list \<Rightarrow> u8 list \<Rightarrow> bool" where
  "binding_names_fit service binding resource \<longleftrightarrow>
     valid_device_binding_name service \<and> valid_device_binding_name binding \<and>
     length service + length binding < 31 \<and> resource \<noteq> [] \<and> length resource < SQVM_DEVICE_BINDING_RESOURCE_CAP"

definition binding_kind_of :: "u8 list \<Rightarrow> u8 list \<Rightarrow> u8 list \<Rightarrow> bool \<Rightarrow> binding_kind" where
  "binding_kind_of service binding resource room =
     (if \<not> binding_names_fit service binding resource then BK_Unsupported
      else if is_safe_gpio_binding_resource resource then
        (if service = lit ''indicator'' \<and> binding = lit ''default'' \<and> room then BK_InlineGpio else BK_Unsupported)
      else if is_safe_gpio_button_binding_resource resource then
        (if service = lit ''input'' \<and> room then BK_InlineGpioButton else BK_Unsupported)
      else if is_safe_sqdevice_path resource \<and> supports_package_device_binding service binding
        then BK_PackageSqdevice
      else BK_Unsupported)"

definition binding_records :: "u8 list \<Rightarrow> u8 list \<Rightarrow> config_records" where
  "binding_records alias resource =
     (case (parse_inline_gpio_resource resource, parse_inline_gpio_button_resource resource) of
        (Some pin, _) \<Rightarrow> btree_collect (string_records [(lit ''service'', alias), (lit ''mode'', lit ''gpio''),
          (lit ''pinName'', pin)] @ [(Str (lit ''activeLow''), DC_Bool False)])
      | (None, Some (pin, event, low)) \<Rightarrow> btree_collect (string_records [(lit ''service'', alias),
          (lit ''mode'', lit ''gpio-button''), (lit ''pinName'', pin), (lit ''event'', event)] @
          [(Str (lit ''activeLow''), DC_Bool low)])
      | _ \<Rightarrow> [])"

lemma alias_built:
  assumes "valid_device_binding_name service" "valid_device_binding_name binding"
  shows "build_device_binding_alias service binding (replicate SQVM_DEVICE_BINDING_NAME_CAP 0) =
    (if length service + length binding < 31
     then Some (length service + 1 + length binding,
       service @ 46 # binding @ replicate (31 - (length service + length binding)) 0)
     else None)"
proof -
  let ?n = "length service" and ?m = "length binding"
  have n: "?n < 32" "?m < 32" using assms by (simp_all add: valid_device_binding_name_def)
  show ?thesis
  proof (cases "?n + ?m < 31")
    case True
    have "32 - ?n = Suc (31 - ?n)" using n by simp
    then have "splice (replicate 32 0) 0 service = service @ 0 # replicate (31 - ?n) 0"
      by (simp add: splice_def)
    then have "(splice (replicate 32 0) 0 service)[?n := 46] = service @ 46 # replicate (31 - ?n) 0" by simp
    moreover have "splice (service @ 46 # replicate (31 - ?n) 0) (?n + 1) binding =
        service @ 46 # binding @ replicate (31 - (?n + ?m)) 0"
      by (simp add: splice_def)
    ultimately show ?thesis
      using n True by (simp add: build_device_binding_alias_def usize_max_def)
  qed (use n in \<open>simp add: build_device_binding_alias_def usize_max_def\<close>)
qed

lemma alias_text:
  assumes "valid_device_binding_name service" "valid_device_binding_name binding" "length service + length binding < 31"
  shows "utf8_valid (service @ 46 # binding)" "length (service @ 46 # binding) \<le> SQDC_CONFIG_STRING_CAP"
  using assms by (auto simp: valid_device_binding_name_def from_utf8_def split: if_splits)

lemma key_words:
  "valid_sqdc_key (lit ''service'')" "valid_sqdc_key (lit ''mode'')" "valid_sqdc_key (lit ''pinName'')"
  "valid_sqdc_key (lit ''event'')" "valid_sqdc_key (lit ''activeLow'')"
  by (simp_all add: valid_sqdc_key_def from_utf8_def is_alphabetic_def)

lemma gpio_config_built:
  assumes "utf8_valid alias" "length alias \<le> SQDC_CONFIG_STRING_CAP" "utf8_valid pin" "length pin \<le> 6"
  shows "\<exists>d. build_inline_gpio_config alias pin c = (Inr (), d) \<and> sqdc_ok d \<and>
    shown d = btree_collect (string_records [(lit ''service'', alias), (lit ''mode'', lit ''gpio''), (lit ''pinName'', pin)] @
      [(Str (lit ''activeLow''), DC_Bool False)])"
  using inline_config_ok [of "[(lit ''service'', alias), (lit ''mode'', lit ''gpio''), (lit ''pinName'', pin)]" False c]
    assms key_words Str_key_inject
  unfolding build_inline_gpio_config_def inline_config_def by simp

lemma button_config_built:
  assumes "utf8_valid alias" "length alias \<le> SQDC_CONFIG_STRING_CAP" "utf8_valid pin" "length pin \<le> 6"
    "utf8_valid event" "length event \<le> 10"
  shows "\<exists>d. build_inline_gpio_button_config alias pin event low c = (Inr (), d) \<and> sqdc_ok d \<and>
    shown d = btree_collect (string_records [(lit ''service'', alias), (lit ''mode'', lit ''gpio-button''),
      (lit ''pinName'', pin), (lit ''event'', event)] @ [(Str (lit ''activeLow''), DC_Bool low)])"
  using inline_config_ok [of "[(lit ''service'', alias), (lit ''mode'', lit ''gpio-button''), (lit ''pinName'', pin),
      (lit ''event'', event)]" low c] assms key_words Str_key_inject
  unfolding build_inline_gpio_button_config_def inline_config_def by simp

definition planned :: "binding_kind \<Rightarrow> u8 list \<Rightarrow> u8 list \<Rightarrow> binding_out \<Rightarrow> bool" where
  "planned kind alias resource b \<longleftrightarrow> bp_kind (bo_plan b) = kind \<and>
     take (bp_alias_len (bo_plan b)) (bp_alias (bo_plan b)) = alias \<and>
     take (bp_resource_len (bo_plan b)) (bp_resource (bo_plan b)) = resource"

text \<open>The plan once the names are accepted.\<close>

definition named_plan :: "u8 list \<Rightarrow> u8 list \<Rightarrow> u8 list \<Rightarrow> binding_plan" where
  "named_plan service binding resource = binding_plan_default\<lparr>
     bp_alias := service @ 46 # binding @ replicate (31 - (length service + length binding)) 0,
     bp_alias_len := length service + 1 + length binding,
     bp_resource := splice (replicate SQVM_DEVICE_BINDING_RESOURCE_CAP 0) 0 resource, bp_resource_len := length resource\<rparr>"

lemma planned_named:
  "length resource < SQVM_DEVICE_BINDING_RESOURCE_CAP \<Longrightarrow>
   planned kind (service @ 46 # binding) resource
     \<lparr>bo_plan = (named_plan service binding resource)\<lparr>bp_kind := kind\<rparr>, bo_inline = c\<rparr>"
  by (simp add: planned_def named_plan_def)

lemma inline_binding_built:
  assumes "build (service @ 46 # binding) c = (Inr (), d)" "bo_inline b = Some c"
    "bo_plan b = named_plan service binding resource"
  shows "inline_binding kind build b =
    (Inr (), \<lparr>bo_plan = (named_plan service binding resource)\<lparr>bp_kind := kind\<rparr>, bo_inline = Some d\<rparr>)"
  using assms by (simp add: inline_binding_def named_plan_def Let_def)

lemma plan_named:
  assumes "binding_names_fit service binding resource"
  shows "plan_device_binding_bytes service binding resource b =
    (let b = b\<lparr>bo_plan := named_plan service binding resource\<rparr> in
     case parse_inline_gpio_resource resource of
       Some pin_name \<Rightarrow>
         if service \<noteq> lit ''indicator'' \<or> binding \<noteq> lit ''default'' then refuse_binding b
         else inline_binding BK_InlineGpio (\<lambda>alias. build_inline_gpio_config alias pin_name) b
     | None \<Rightarrow>
         (case parse_inline_gpio_button_resource resource of
            Some (pin_name, event, active_low) \<Rightarrow>
              if service \<noteq> lit ''input'' then refuse_binding b
              else inline_binding BK_InlineGpioButton
                (\<lambda>alias. build_inline_gpio_button_config alias pin_name event active_low) b
          | None \<Rightarrow>
              if is_safe_sqdevice_path_bytes resource then
                (if \<not> supports_package_device_binding service binding then refuse_binding b
                 else (Inr (), \<lparr>bo_plan = (bo_plan b)\<lparr>bp_kind := BK_PackageSqdevice\<rparr>,
                   bo_inline = map_option (\<lambda>_. sqdc_config_default) (bo_inline b)\<rparr>))
              else refuse_binding b))"
proof -
  from assms have names: "valid_device_binding_name service" "valid_device_binding_name binding"
    "length service + length binding < 31" "resource \<noteq> []" "length resource < 128"
    by (simp_all add: binding_names_fit_def)
  have joined: "build_device_binding_alias service binding (bp_alias (bo_plan (b\<lparr>bo_plan := binding_plan_default\<rparr>))) =
      Some (length service + 1 + length binding,
        service @ 46 # binding @ replicate (31 - (length service + length binding)) 0)"
    using alias_built [OF names(1,2)] names(3) by (simp add: binding_plan_default_def)
  have plan: "(binding_plan_default\<lparr>bp_alias := service @ 46 # binding @ replicate (31 - (length service + length binding)) 0,
      bp_alias_len := length service + 1 + length binding,
      bp_resource := splice (bp_resource binding_plan_default) 0 resource, bp_resource_len := length resource\<rparr>) =
    named_plan service binding resource"
    by (simp add: named_plan_def binding_plan_default_def)
  show ?thesis
    unfolding plan_device_binding_bytes_def Let_def joined
    using names plan by (simp del: lit_simps cong: if_cong option.case_cong)
qed

text \<open>
  C20: the plan of a device binding is decided by its names and its resource alone: a binding is
  accepted exactly if the names are valid and fit, and the resource is a pin for the default
  indicator, a button for an input, or a configuration file for a display or the default
  indicator; anything else is refused as an invalid argument.  An accepted resource is one the
  compiler accepts, the plan has the joined names and the resource, and the inline configuration
  is complete.
\<close>

theorem device_binding_plan:
  "case plan_device_binding_bytes service binding resource b of (r, b') \<Rightarrow>
     let kind = binding_kind_of service binding resource (bo_inline b \<noteq> None) in
     if kind = BK_Unsupported then r = Inl (Err SqdcInvalidArgument)
     else r = Inr () \<and> is_safe_device_binding_resource resource \<and> planned kind (service @ 46 # binding) resource b' \<and>
       map_option shown (bo_inline b') =
         map_option (\<lambda>_. binding_records (service @ 46 # binding) resource) (bo_inline b)"
proof (cases "binding_names_fit service binding resource")
  case False
  then have "fst (plan_device_binding_bytes service binding resource b) = Inl (Err SqdcInvalidArgument)"
    using alias_built [of service binding]
    by (auto simp: plan_device_binding_bytes_def binding_names_fit_def binding_plan_default_def Let_def)
  with False show ?thesis by (auto simp: binding_kind_of_def)
next
  case True
  from True have names: "valid_device_binding_name service" "valid_device_binding_name binding"
    "length service + length binding < 31" "length resource < 128" by (simp_all add: binding_names_fit_def)
  note joined = alias_text [OF names(1-3)] and labels = planned_named [OF names(4)] and plan = plan_named [OF True, of b]
  let ?b = "b\<lparr>bo_plan := named_plan service binding resource\<rparr>"
  show ?thesis
  proof (cases "parse_inline_gpio_resource resource")
    case (Some pin)
    note pin = gpio_text [OF Some]
    show ?thesis
    proof (cases "service = lit ''indicator'' \<and> binding = lit ''default'' \<and> bo_inline b \<noteq> None")
      case ok: True
      then obtain c where c: "bo_inline ?b = Some c" by auto
      obtain d where d: "build_inline_gpio_config (service @ 46 # binding) pin c = (Inr (), d)"
        "shown d = binding_records (service @ 46 # binding) resource"
        using gpio_config_built [OF joined pin(1,2), of c] Some by (auto simp: binding_records_def simp del: lit_simps)
      have "plan_device_binding_bytes service binding resource b =
          (Inr (), \<lparr>bo_plan = (named_plan service binding resource)\<lparr>bp_kind := BK_InlineGpio\<rparr>, bo_inline = Some d\<rparr>)"
        using plan Some ok inline_binding_built [of "\<lambda>alias. build_inline_gpio_config alias pin" service binding c d ?b resource]
          c d(1) by (simp add: Let_def del: lit_simps)
      with True ok pin(3) c d(2) labels show ?thesis
        by (auto simp: binding_kind_of_def is_safe_device_binding_resource_def Let_def simp del: lit_simps)
    next
      case False
      with plan Some have "fst (plan_device_binding_bytes service binding resource b) = Inl (Err SqdcInvalidArgument)"
        by (auto simp: Let_def refuse_binding_def inline_binding_def simp del: lit_simps split: option.split)
      with True False pin(3) show ?thesis by (auto simp: binding_kind_of_def simp del: lit_simps)
    qed
  next
    case no_pin: None
    then have not_gpio: "\<not> is_safe_gpio_binding_resource resource" by (simp add: gpio_resource_core split: if_splits)
    show ?thesis
    proof (cases "parse_inline_gpio_button_resource resource")
      case (Some q)
      obtain pin event low where q: "q = (pin, event, low)" by (cases q)
      note button = button_text [OF Some [unfolded q]]
      show ?thesis
      proof (cases "service = lit ''input'' \<and> bo_inline b \<noteq> None")
        case ok: True
        then obtain c where c: "bo_inline ?b = Some c" by auto
        obtain d where d: "build_inline_gpio_button_config (service @ 46 # binding) pin event low c = (Inr (), d)"
          "shown d = binding_records (service @ 46 # binding) resource"
          using button_config_built [OF joined button(1-4), of low c] Some no_pin q
          by (auto simp: binding_records_def simp del: lit_simps)
        have "plan_device_binding_bytes service binding resource b = (Inr (),
            \<lparr>bo_plan = (named_plan service binding resource)\<lparr>bp_kind := BK_InlineGpioButton\<rparr>, bo_inline = Some d\<rparr>)"
          using plan Some no_pin q ok c d(1)
            inline_binding_built [of "\<lambda>alias. build_inline_gpio_button_config alias pin event low" service binding c d ?b resource]
          by (simp add: Let_def del: lit_simps)
        with True ok button(5) c d(2) labels not_gpio show ?thesis
          by (auto simp: binding_kind_of_def is_safe_device_binding_resource_def Let_def simp del: lit_simps)
      next
        case False
        with plan Some no_pin q
        have "fst (plan_device_binding_bytes service binding resource b) = Inl (Err SqdcInvalidArgument)"
          by (auto simp: Let_def refuse_binding_def inline_binding_def simp del: lit_simps split: option.split)
        with True False button(5) not_gpio show ?thesis by (auto simp: binding_kind_of_def simp del: lit_simps)
      qed
    next
      case no_button: None
      then have "\<not> is_safe_gpio_button_binding_resource resource" using button_resource_core [of resource] by simp
      with True no_pin not_gpio no_button plan labels show ?thesis
        by (auto simp: binding_kind_of_def is_safe_device_binding_resource_def Let_def refuse_binding_def sqdevice_path_core
            binding_records_def option.map_comp comp_def split: if_splits)
    qed
  qed
qed

end
