(* ===== verification/Spec2Isabelle.thy ===== *)
theory Spec2Isabelle
  imports Vm_Types Vm_Wifi Proto_Client Front_Link Cli_Tools Ffi_Config
begin

text \<open>
  SquidScript is a small language for apps on constrained devices.  A compiler
  (\<open>squidc-core\<close>) turns an app into an SQBC file; a virtual machine (\<open>squidvm-core\<close>) loads
  such a file and runs its event handlers against a host; a serial protocol
  (\<open>squid-device-protocol\<close>) installs apps and drives a device.  All three are Rust crates
  under \<open>src/compiler/rust/crates\<close>.  This library models them and proves what makes them
  correct.

  \<^bold>\<open>Conventions.\<close>  \<open>Sq_Prelude\<close> holds the representation of Rust: a \<open>Result\<close> is
  \<open>('e, 'a) res\<close>, a sum whose error side also has \<open>Panic\<close>, so that a result that is \<open>Inr\<close> or
  \<open>Inl (Err e)\<close> is one that does not panic; a \<open>&mut self\<close> method is a function of the state
  that returns the result and the new state in every outcome (\<open>exec\<close>); integers are words of
  their width and \<open>usize\<close> is a \<open>nat\<close> bounded by \<open>usize_max\<close> where the code checks it (64-bit
  targets).  Fixed arrays are lists of the array's length, and every index into one is a
  branch that panics outside.  \<open>Sq_Utf8\<close> is \<open>str\<close>: UTF-8 validation, boundaries, search,
  the type \<open>ustr\<close> of valid strings, decimal output.  \<open>Sq_Limits\<close> has the resource limits
  the crates share.

  \<^bold>\<open>The virtual machine\<close> (\<open>squidvm-core/src\<close>):
  \<^item> \<open>Vm_Model\<close>: \<open>error.rs\<close>, \<open>value.rs\<close>, \<open>model.rs\<close>, \<open>bytecode.rs\<close>.
  \<^item> \<open>Vm_Cache\<close>: \<open>chunk.rs\<close>, the chunk cache; an insertion never evicts a chunk that is
    executing, and fails only if all are.
  \<^item> \<open>Vm_Strings\<close>: \<open>strings.rs\<close>, the string interner, with its invariant over any string
    table that satisfies the laws of the locale stated there.
  \<^item> \<open>Vm_State\<close>: \<open>state.rs\<close>, state slots and the saved-state record.
  \<^item> \<open>Vm_Program\<close>: \<open>program.rs\<close>, \<open>reader.rs\<close>, both loaders.  Neither panics, what they accept
    is well formed, and they agree.  The index interprets the locale of \<open>Vm_Strings\<close>.
  \<^item> \<open>Vm_Runtime\<close>, \<open>Vm_Host\<close>: the runtime records, lists and text buffers of \<open>vm.rs\<close>, and the
    host of \<open>host.rs\<close>, a record of arbitrary functions on the host's own state.
  \<^item> \<open>Vm_Wifi\<close>: the simulated Wi-Fi of \<open>host.rs\<close>, which interprets the locale \<open>wifi_backend\<close> of an
    abstract radio.
  \<^item> \<open>Vm_Machine\<close>, \<open>Vm_Builtins\<close>, \<open>Vm_Exec\<close>, \<open>Vm_Dispatch\<close>: \<open>vm.rs\<close>, its state and primitives,
    every builtin, every opcode, the loop, and the operations that start and resume events.
  \<^item> \<open>Vm_Safety\<close>, \<open>Vm_Types\<close>: the invariant of the VM and its preservation by every operation,
    with no panic; termination; the budget; the types of the state slots; and the same for
    every state reachable from a parsed file.

  The loop of the interpreter is a total function: an event executes at most 1000
  instructions, and each turn that does not execute one removes a frame or ends the event.
  From a state of the invariant 6012 turns are enough (1001 instructions, at most 5 frames
  each removed once between two of them, and the last turn).  The recursion of the string
  interner through slices is bounded by the number of entries, which its invariant shows
  is enough.

  \<^bold>\<open>The device protocol\<close> (\<open>squid-device-protocol/src/lib.rs\<close>):
  \<^item> \<open>Proto_Frame\<close>: frames and fields; encoding and decoding are inverse, in both directions,
    and decoding never panics.
  \<^item> \<open>Proto_Session\<close>: requests, raw field lookups and the transfer sessions; a committed
    transfer is the announced bytes.  A reference host \<open>device\<close> says what is staged.  The
    locale \<open>staging\<close> states what an upload needs of a session and is interpreted by app
    installs and temporary runs.
  \<^item> \<open>Proto_Response\<close>: the encoders that write responses without allocating equal the frame
    encoder on the response they stand for.
  \<^item> \<open>Proto_Client\<close>: the tools' side; what one end writes the other reads, and an upload that
    is announced and sent in pieces is committed.

  The checksum of frames (the crc32fast package) is the argument \<open>hash\<close>, the lower-casing of
  characters outside ASCII (a table of the standard library) the argument \<open>lower\<close>; the
  theorems hold for all of them.

  \<^bold>\<open>The compiler\<close> (\<open>squidc-core/src\<close>):
  \<^item> \<open>Sqbc_Ir\<close>: \<open>ir.rs\<close>, the intermediate representation the front end produces.
  \<^item> \<open>Sqbc_Codes\<close>, \<open>Sqbc_Compile\<close>: \<open>sqbc.rs\<close>, its numbering, string table and code generator.
  \<^item> \<open>Sqbc_Encode\<close>: \<open>sqbc.rs\<close>, limits, sections, container and the reading of an app id.
  \<^item> \<open>Sqbc_Code\<close>: what the code generator emits, as instructions; every statement is a block
    of them whose operands are in range and whose jumps land on instructions of the block.
  \<^item> \<open>Sqbc_Tables\<close>, \<open>Sqbc_Load\<close>: the compiler against the loader: what each table and the whole
    file are read as, when a compiled file is refused, and where its handlers are found.

  \<open>serde_json::from_value::<IrExpr>\<close> is the argument \<open>parse\<close>.

  \<^bold>\<open>The source\<close> (\<open>squidc-core/src\<close>):
  \<^item> \<open>Sq_Text\<close>: white space, trimming, splitting and number parsing of the standard library.
  \<^item> \<open>Front_Config\<close>: \<open>device_config.rs\<close>; a configuration survives its binary form.
  \<^item> \<open>Front_Lexer\<close>: \<open>lexer.rs\<close>; the tokens are the source.
  \<^item> \<open>Front_Tokens\<close>, \<open>Front_Expr\<close>, \<open>Front_Statement\<close>, \<open>Front_Parser\<close>: \<open>parser/*.rs\<close>, every method, as
    a function of the tokens, the cursor, the tree so far and the diagnostics.
  \<^item> \<open>Front_Parse_State\<close>: the locales \<open>parser_invariant\<close> and \<open>declaration_invariant\<close> say what a
    predicate on the parser's state needs so that every method keeps it; their interpretations
    give that errors stay and that an accepted state block has distinct names and defaults of
    the declared types.
  \<^item> \<open>Front_Parse_Ends\<close>: a weakest-precondition calculus for the parser.  A loop runs with a bound on
    its turns and a method with a bound on its depth; any bound above the number of tokens is
    enough, because every turn consumes a token, except where the code does not move past a token
    it does not know: there the outcome is \<open>Hangs\<close> for every bound.

  The conversion of expressions to JSON and back (serde) is the argument \<open>parse_env\<close>, with
  the bound.  The tree of the rowan package that the parser builds on the side is left out.

  \<^bold>\<open>The front end\<close> (\<open>squidc-core/src\<close>):
  \<^item> \<open>Front_Ast\<close>: \<open>diagnostic.rs\<close> and \<open>ast.rs\<close>.  A function that pushes diagnostics returns them.
  \<^item> \<open>Front_Semantic\<close>: \<open>semantic.rs\<close>, every check.  The search for impure functions is a
    fixpoint loop; it ends because each further pass adds a function name.
  \<^item> \<open>Front_Lower\<close>, \<open>Front_Link\<close>: \<open>compile.rs\<close>, lowering, module loading and linking, entry
    points.  The parser and the file system are arguments (\<open>module_env\<close>); \<open>load_module\<close> recurses
    along imports with fuel, whose end is an abort like that of the stack.
  \<^item> \<open>Front_Check\<close>, \<open>Front_App\<close>: what an accepted app is, and that its compiled file loads.
  \<^item> \<open>Front_Source\<close>: lexer, parser, compiler and loader together: what compiles from its source
    loads; and a source run through all of them.
  \<^item> \<open>Front_Format\<close>: \<open>formatter.rs\<close>; its output is the tokens of its input with white space
    between them, except that it may join two words, as \<open>Front_Source\<close> shows.

  \<^bold>\<open>The tools\<close> (\<open>squidc-cli/src\<close>):
  \<^item> \<open>Cli_Tools\<close>: app ids (\<open>app_id.rs\<close>), building (\<open>compile.rs\<close>), package paths (\<open>package.rs\<close>) and
    the checksum argument (\<open>main.rs\<close>).  A built file carries the id of its source.

  \<^bold>\<open>The device's interface\<close> (\<open>squidvm-ffi/src/lib.rs\<close>):
  \<^item> \<open>Ffi_Config\<close>: a second implementation of device configurations, in fixed arrays and behind C
    pointers, and the plan of a device binding.  It agrees with the compiler's in
    \<open>Front_Config\<close>, up to its room and, for texts, on plain ASCII lines; an inline configuration is
    the compiler's for the pin or button it is built for.

  \<^bold>\<open>Not modelled.\<close>  The kinds of the rowan tree (\<open>syntax.rs\<close>), the rest of the C interface
  \<open>squidvm-ffi\<close> (its context, transfer sessions, callbacks and conversions of results: raw
  pointers and generated glue around the modelled crates), the rest of the command-line tools
  (arguments, files, serial ports, BLE), the WebAssembly bindings, and everything that
  is not Rust: the Zephyr firmware, the simulator, the scripts.  Of the modelled crates, left out
  are formatting and derived traits, and stack exhaustion by deeply nested protocol records and
  source text, which \<open>decode_fields\<close> and the parser recurse on.
\<close>

end
